(* ===== verification/Prelude.thy ===== *)
theory Prelude
  imports Main "HOL-Library.AList" "HOL-Library.Char_ord" "HOL-Library.List_Lexorder"
    "HOL-Library.Sublist"
begin

text \<open>
  Shared vocabulary of the development: JavaScript errors as values, computations that
  pass a state and may throw, Hoare triples for them, the string operations the sources
  use, and generic lemmas on lists and association lists.

  A JavaScript string is modelled by \<^typ>\<open>string\<close>, a list of code units below 256; a
  JavaScript \<open>Map\<close> whose iteration order matters is an association list under
  \<^const>\<open>AList.update\<close> (a new key goes to the end, an old key keeps its place), otherwise
  a partial function. A \<open>number\<close> that holds a count, a length or a version is an \<^typ>\<open>int\<close>.
\<close>

named_theorems js_simps \<open>execution rules of the state and exception monad\<close>
named_theorems js_ok \<open>inversion of computations that return\<close>
named_theorems wp \<open>Hoare rules of the state and exception monad\<close>

section \<open>Errors as values\<close>

text \<open>
  A thrown error carries its class name, the \<open>code\<close> property where the class has one, and
  its message.
\<close>

datatype js_error = JsError (err_name: string) (err_code: "string option") (err_message: string)

definition plainError :: "string \<Rightarrow> js_error" where
  "plainError msg = JsError ''Error'' None msg"

definition isOk :: "js_error + 'a \<Rightarrow> bool" where
  "isOk r = (case r of Inl _ \<Rightarrow> False | Inr _ \<Rightarrow> True)"

lemma isOk_simps [simp]: "isOk (Inr x)" "\<not> isOk (Inl e)"
  by (simp_all add: isOk_def)

lemma isOk_iff: "isOk r \<longleftrightarrow> (\<exists>x. r = Inr x)"
  by (cases r) auto

text \<open>A check that throws \<open>e\<close> unless its condition holds.\<close>

definition check :: "bool \<Rightarrow> js_error \<Rightarrow> js_error + unit" where
  "check b e = (if b then Inr () else Inl e)"

definition seqR :: "js_error + 'a \<Rightarrow> ('a \<Rightarrow> js_error + 'b) \<Rightarrow> js_error + 'b" where
  "seqR r f = (case r of Inl e \<Rightarrow> Inl e | Inr x \<Rightarrow> f x)"

lemma seqR_simps [simp]: "seqR (Inl e) f = Inl e" "seqR (Inr x) f = f x"
  by (simp_all add: seqR_def)

lemma seqR_eq_Inr: "seqR r f = Inr y \<longleftrightarrow> (\<exists>x. r = Inr x \<and> f x = Inr y)"
  by (cases r) auto

lemma check_simps [simp]: "check True e = Inr ()" "check False e = Inl e"
  by (simp_all add: check_def)

lemma check_eq_Inr: "check b e = Inr u \<longleftrightarrow> b"
  by (simp add: check_def)

lemma check_eq_Inl: "check b e = Inl e' \<longleftrightarrow> \<not> b \<and> e' = e"
  by (auto simp: check_def)

primrec mapR :: "('a \<Rightarrow> js_error + 'b) \<Rightarrow> 'a list \<Rightarrow> js_error + 'b list" where
  "mapR f [] = Inr []"
| "mapR f (x # xs) = seqR (f x) (\<lambda>y. seqR (mapR f xs) (\<lambda>ys. Inr (y # ys)))"

lemma mapR_eq_Inr: "mapR f xs = Inr ys \<longleftrightarrow> list_all2 (\<lambda>x y. f x = Inr y) xs ys"
  by (induction xs arbitrary: ys) (auto simp: seqR_eq_Inr list_all2_Cons1)

section \<open>Computations that pass a state and may throw\<close>

text \<open>
  An asynchronous method is a function from the state to its outcome and the state it
  leaves. A throw keeps the effects made before it, as JavaScript does.
\<close>

type_synonym ('s, 'a) js = "'s \<Rightarrow> (js_error + 'a) \<times> 's"

definition ret :: "'a \<Rightarrow> ('s, 'a) js" where
  "ret x = (\<lambda>s. (Inr x, s))"

definition throw :: "js_error \<Rightarrow> ('s, 'a) js" where
  "throw e = (\<lambda>s. (Inl e, s))"

definition andThen :: "('s, 'a) js \<Rightarrow> ('a \<Rightarrow> ('s, 'b) js) \<Rightarrow> ('s, 'b) js" where
  "andThen m f = (\<lambda>s. case m s of (Inl e, t) \<Rightarrow> (Inl e, t) | (Inr x, t) \<Rightarrow> f x t)"

definition catching :: "('s, 'a) js \<Rightarrow> (js_error \<Rightarrow> ('s, 'a) js) \<Rightarrow> ('s, 'a) js" where
  "catching m h = (\<lambda>s. case m s of (Inl e, t) \<Rightarrow> h e t | (Inr x, t) \<Rightarrow> (Inr x, t))"

definition reading :: "('s \<Rightarrow> 'a) \<Rightarrow> ('s, 'a) js" where
  "reading f = (\<lambda>s. (Inr (f s), s))"

definition updating :: "('s \<Rightarrow> 's) \<Rightarrow> ('s, unit) js" where
  "updating f = (\<lambda>s. (Inr (), f s))"

definition lifting :: "js_error + 'a \<Rightarrow> ('s, 'a) js" where
  "lifting r = (\<lambda>s. (r, s))"

text \<open>Running a computation of one part of a larger state.\<close>

definition within :: "('s \<Rightarrow> 'p) \<Rightarrow> ('p \<Rightarrow> 's \<Rightarrow> 's) \<Rightarrow> ('p, 'a) js \<Rightarrow> ('s, 'a) js" where
  "within sel put m = (\<lambda>s. let (r, p) = m (sel s) in (r, put p s))"

primrec forEach :: "'a list \<Rightarrow> ('a \<Rightarrow> ('s, unit) js) \<Rightarrow> ('s, unit) js" where
  "forEach [] f = ret ()"
| "forEach (x # xs) f = andThen (f x) (\<lambda>_. forEach xs f)"

lemma ret_run [js_simps]: "ret x s = (Inr x, s)"
  by (simp add: ret_def)

lemma throw_run [js_simps]: "throw e s = (Inl e, s)"
  by (simp add: throw_def)

lemma andThen_run [js_simps]:
  "andThen m f s = (case m s of (Inl e, t) \<Rightarrow> (Inl e, t) | (Inr x, t) \<Rightarrow> f x t)"
  by (simp add: andThen_def)

lemma catching_run [js_simps]:
  "catching m h s = (case m s of (Inl e, t) \<Rightarrow> h e t | (Inr x, t) \<Rightarrow> (Inr x, t))"
  by (simp add: catching_def)

lemma reading_run [js_simps]: "reading f s = (Inr (f s), s)"
  by (simp add: reading_def)

lemma updating_run [js_simps]: "updating f s = (Inr (), f s)"
  by (simp add: updating_def)

lemma lifting_run [js_simps]: "lifting r s = (r, s)"
  by (simp add: lifting_def)

lemma within_run [js_simps]: "within sel put m s = (let (r, p) = m (sel s) in (r, put p s))"
  by (simp add: within_def)

lemma if_run [js_simps]: "(if b then m else n) s = (if b then m s else n s)"
  by simp

lemma andThen_ret [simp]: "andThen (ret x) f = f x"
  by (simp add: fun_eq_iff js_simps)

lemma andThen_throw [simp]: "andThen (throw e) f = throw e"
  by (simp add: fun_eq_iff js_simps)

lemma andThen_assoc: "andThen (andThen m f) g = andThen m (\<lambda>x. andThen (f x) g)"
  by (auto simp: fun_eq_iff js_simps split: prod.splits sum.splits)

lemma andThen_eq_Inr [js_ok]:
  "andThen m f s = (Inr y, u) \<longleftrightarrow> (\<exists>x t. m s = (Inr x, t) \<and> f x t = (Inr y, u))"
  by (auto simp: js_simps split: prod.splits sum.splits)

lemma basic_ok [js_ok]:
  "ret x s = (Inr y, t) \<longleftrightarrow> y = x \<and> t = s"
  "throw e s = (Inr y, t) \<longleftrightarrow> False"
  "lifting r s = (Inr y, t) \<longleftrightarrow> r = Inr y \<and> t = s"
  "reading f s = (Inr y, t) \<longleftrightarrow> y = f s \<and> t = s"
  "updating g s = (Inr u, t) \<longleftrightarrow> t = g s"
  by (auto simp: js_simps)

subsection \<open>Hoare triples\<close>

text \<open>
  \<open>triple P m Q E\<close>: from a state with \<open>P\<close>, \<open>m\<close> returns with \<open>Q\<close> of the value and the
  state, or throws with \<open>E\<close> of the error and the state.
\<close>

definition triple ::
  "('s \<Rightarrow> bool) \<Rightarrow> ('s, 'a) js \<Rightarrow> ('a \<Rightarrow> 's \<Rightarrow> bool) \<Rightarrow> (js_error \<Rightarrow> 's \<Rightarrow> bool) \<Rightarrow> bool" where
  "triple P m Q E \<longleftrightarrow>
     (\<forall>s. P s \<longrightarrow> (case m s of (Inr x, t) \<Rightarrow> Q x t | (Inl e, t) \<Rightarrow> E e t))"

lemma tripleI:
  assumes "\<And>s x t. P s \<Longrightarrow> m s = (Inr x, t) \<Longrightarrow> Q x t"
    and "\<And>s e t. P s \<Longrightarrow> m s = (Inl e, t) \<Longrightarrow> E e t"
  shows "triple P m Q E"
  using assms by (auto simp: triple_def split: prod.splits sum.splits)

lemma triple_ok: "triple P m Q E \<Longrightarrow> P s \<Longrightarrow> m s = (Inr x, t) \<Longrightarrow> Q x t"
  unfolding triple_def by fastforce

lemma triple_err: "triple P m Q E \<Longrightarrow> P s \<Longrightarrow> m s = (Inl e, t) \<Longrightarrow> E e t"
  unfolding triple_def by fastforce

lemma triple_weaken:
  assumes "triple P' m Q' E'" and "\<And>s. P s \<Longrightarrow> P' s"
    and "\<And>x s. Q' x s \<Longrightarrow> Q x s" and "\<And>e s. E' e s \<Longrightarrow> E e s"
  shows "triple P m Q E"
  by (rule tripleI) (blast dest: triple_ok [OF assms(1)] triple_err [OF assms(1)] assms(2-4))+

lemma triple_ret [wp]: "triple (Q x) (ret x) Q E"
  by (simp add: triple_def js_simps)

lemma triple_throw [wp]: "triple (E e) (throw e) Q E"
  by (simp add: triple_def js_simps)

lemma triple_andThen [wp]:
  assumes "triple P m R E" and "\<And>x. triple (R x) (f x) Q E"
  shows "triple P (andThen m f) Q E"
proof (rule tripleI)
  fix s y u assume "P s" "andThen m f s = (Inr y, u)"
  then show "Q y u"
    by (auto simp: andThen_eq_Inr dest!: triple_ok [OF assms(1)] triple_ok [OF assms(2)])
next
  fix s e u assume P: "P s" and run: "andThen m f s = (Inl e, u)"
  show "E e u"
  proof (cases "m s")
    case (Pair r t)
    with P run show ?thesis
      by (cases r) (auto simp: js_simps dest: triple_ok [OF assms(1)] triple_err [OF assms(1)]
          triple_err [OF assms(2)])
  qed
qed

lemma triple_if [wp]:
  "(b \<Longrightarrow> triple P m Q E) \<Longrightarrow> (\<not> b \<Longrightarrow> triple P' n Q E) \<Longrightarrow>
     triple (\<lambda>s. if b then P s else P' s) (if b then m else n) Q E"
  by (cases b) simp_all

lemma triple_case_option [wp]:
  "(x = None \<Longrightarrow> triple P m Q E) \<Longrightarrow> (\<And>y. x = Some y \<Longrightarrow> triple (P' y) (n y) Q E) \<Longrightarrow>
     triple (\<lambda>s. case x of None \<Rightarrow> P s | Some y \<Rightarrow> P' y s) (case x of None \<Rightarrow> m | Some y \<Rightarrow> n y) Q E"
  by (cases x) simp_all

lemma triple_conj:
  "triple P m Q E \<Longrightarrow> triple P' m Q' E' \<Longrightarrow>
     triple (\<lambda>s. P s \<and> P' s) m (\<lambda>x s. Q x s \<and> Q' x s) (\<lambda>e s. E e s \<and> E' e s)"
  unfolding triple_def by (fastforce split: prod.splits sum.splits)

text \<open>A predicate that a computation keeps whether it returns or throws.\<close>

definition preserves :: "('s \<Rightarrow> bool) \<Rightarrow> ('s, 'a) js \<Rightarrow> bool" where
  "preserves I m \<longleftrightarrow> (\<forall>s. I s \<longrightarrow> I (snd (m s)))"

lemma preservesD: "preserves I m \<Longrightarrow> I s \<Longrightarrow> m s = (r, t) \<Longrightarrow> I t"
  unfolding preserves_def by (metis snd_conv)

lemma preserves_basic [simp, intro]:
  "preserves I (ret x)" "preserves I (throw e)" "preserves I (reading f)" "preserves I (lifting r)"
  by (simp_all add: preserves_def js_simps)

lemma preserves_updating [simp]: "preserves I (updating f) \<longleftrightarrow> (\<forall>s. I s \<longrightarrow> I (f s))"
  by (simp add: preserves_def js_simps)

lemma preserves_andThen [intro]:
  "preserves I m \<Longrightarrow> (\<And>x. preserves I (f x)) \<Longrightarrow> preserves I (andThen m f)"
  unfolding preserves_def by (force simp: js_simps split: prod.splits sum.splits)

lemma preserves_catching [intro]:
  "preserves I m \<Longrightarrow> (\<And>e. preserves I (h e)) \<Longrightarrow> preserves I (catching m h)"
  unfolding preserves_def by (force simp: js_simps split: prod.splits sum.splits)

lemma preserves_if [intro]:
  "(b \<Longrightarrow> preserves I m) \<Longrightarrow> (\<not> b \<Longrightarrow> preserves I n) \<Longrightarrow> preserves I (if b then m else n)"
  by simp

lemma preserves_case_option [intro]:
  "(x = None \<Longrightarrow> preserves I m) \<Longrightarrow> (\<And>y. x = Some y \<Longrightarrow> preserves I (n y)) \<Longrightarrow>
     preserves I (case x of None \<Rightarrow> m | Some y \<Rightarrow> n y)"
  by (cases x) simp_all

lemma preserves_forEach [intro]:
  "(\<And>x. x \<in> set xs \<Longrightarrow> preserves I (f x)) \<Longrightarrow> preserves I (forEach xs f)"
  by (induction xs) auto

section \<open>Strings\<close>

text \<open>White space of \<open>String.prototype.trim\<close> and of the regular expression class \<open>\s\<close>.\<close>

definition js_space :: "char \<Rightarrow> bool" where
  "js_space c = (let n = (of_char c :: nat) in (9 \<le> n \<and> n \<le> 13) \<or> n = 32 \<or> n = 160)"

definition trim :: "string \<Rightarrow> string" where
  "trim s = rev (dropWhile js_space (rev (dropWhile js_space s)))"

definition blank :: "string \<Rightarrow> bool" where
  "blank s = (trim s = [])"

lemma blank_iff: "blank s \<longleftrightarrow> list_all js_space s"
proof -
  have "list_all js_space s \<longleftrightarrow> dropWhile js_space s = []"
    by (auto simp: list_all_iff dropWhile_eq_Nil_conv)
  moreover have "dropWhile js_space (rev (dropWhile js_space s)) = [] \<longleftrightarrow> dropWhile js_space s = []"
    by (metis dropWhile_eq_Nil_conv dropWhile_idem set_rev rev.simps(1) dropWhile.simps(1))
  ultimately show ?thesis
    by (simp add: blank_def trim_def)
qed

text \<open>Lower case of an ASCII letter.\<close>

definition ascii_lower :: "char \<Rightarrow> char" where
  "ascii_lower c = (let n = (of_char c :: nat) in if 65 \<le> n \<and> n \<le> 90 then char_of (n + 32) else c)"

definition startsWith :: "string \<Rightarrow> string \<Rightarrow> bool" where
  "startsWith s p = (take (length p) s = p)"

lemma startsWith_append [simp]: "startsWith (p @ s) p"
  by (simp add: startsWith_def)

lemma startsWith_iff: "startsWith s p \<longleftrightarrow> (\<exists>t. s = p @ t)"
  by (metis append_take_drop_id append_eq_conv_conj startsWith_def)

fun str_includes :: "string \<Rightarrow> string \<Rightarrow> bool" where
  "str_includes [] p = (p = [])"
| "str_includes (c # s) p = (startsWith (c # s) p \<or> str_includes s p)"

lemma str_includes_iff: "str_includes s p \<longleftrightarrow> (\<exists>a b. s = a @ p @ b)"
proof (induction s)
  case Nil
  then show ?case by auto
next
  case (Cons c s)
  show ?case
  proof
    assume "str_includes (c # s) p"
    then consider t where "c # s = [] @ p @ t" | a b where "c # s = (c # a) @ p @ b"
      using Cons.IH by (auto simp: startsWith_iff)
    then show "\<exists>a b. c # s = a @ p @ b" by cases blast+
  next
    assume "\<exists>a b. c # s = a @ p @ b"
    then show "str_includes (c # s) p"
      using Cons.IH by (auto simp: startsWith_iff Cons_eq_append_conv)
  qed
qed

lemma str_includes_char: "str_includes s [c] \<longleftrightarrow> c \<in> set s"
  by (auto simp: str_includes_iff in_set_conv_decomp)

text \<open>\<open>String.prototype.split\<close> at a one-character separator, and \<open>Array.prototype.join\<close>.\<close>

fun split_on :: "char \<Rightarrow> string \<Rightarrow> string list" where
  "split_on c [] = [[]]"
| "split_on c (x # xs) =
     (if x = c then [] # split_on c xs
      else (case split_on c xs of [] \<Rightarrow> [[x]] | w # ws \<Rightarrow> (x # w) # ws))"

fun join :: "string \<Rightarrow> string list \<Rightarrow> string" where
  "join sep [] = []"
| "join sep [x] = x"
| "join sep (x # y # xs) = x @ sep @ join sep (y # xs)"

lemma join_Cons: "join sep (x # xs) = (if xs = [] then x else x @ sep @ join sep xs)"
  by (cases xs) simp_all

lemma split_on_nonempty [simp]: "split_on c s \<noteq> []"
  by (cases s) (auto split: list.split)

lemma split_on_no_sep: "w \<in> set (split_on c s) \<Longrightarrow> c \<notin> set w"
proof (induction s arbitrary: w)
  case Nil
  then show ?case by simp
next
  case (Cons x s)
  obtain v vs where vs: "split_on c s = v # vs"
    by (meson neq_Nil_conv split_on_nonempty)
  with Cons show ?case by (auto split: if_splits)
qed

lemma join_split_on [simp]: "join [c] (split_on c s) = s"
proof (induction s)
  case Nil
  then show ?case by simp
next
  case (Cons x s)
  obtain v vs where vs: "split_on c s = v # vs"
    by (meson neq_Nil_conv split_on_nonempty)
  with Cons show ?case by (auto simp: join_Cons split: if_splits)
qed

lemma split_on_join:
  "xs \<noteq> [] \<Longrightarrow> (\<And>w. w \<in> set xs \<Longrightarrow> c \<notin> set w) \<Longrightarrow> split_on c (join [c] xs) = xs"
proof (induction xs)
  case Nil
  then show ?case by simp
next
  case (Cons x xs)
  have word: "split_on c (w @ s) = (case split_on c s of v # vs \<Rightarrow> (w @ v) # vs | [] \<Rightarrow> [w])"
    if "c \<notin> set w" for w s
    using that
  proof (induction w)
    case Nil
    then show ?case by (metis append_Nil list.exhaust list.simps(5) split_on_nonempty)
  next
    case (Cons y w)
    then show ?case by (auto split: list.split)
  qed
  have x: "c \<notin> set x" using Cons.prems by simp
  show ?case
  proof (cases "xs = []")
    case True
    with word [OF x, of "[]"] show ?thesis by simp
  next
    case False
    with Cons have "split_on c (join [c] xs) = xs" by simp
    with False word [OF x, of "c # join [c] xs"] show ?thesis
      by (simp add: join_Cons)
  qed
qed

definition lower_hex :: "char \<Rightarrow> bool" where
  "lower_hex c = (let n = (of_char c :: nat) in (48 \<le> n \<and> n \<le> 57) \<or> (97 \<le> n \<and> n \<le> 102))"

text \<open>The pattern \<open>/^[a-f0-9]{64}$/\<close> that core, storage and archive use for a SHA-256 digest.\<close>

definition isSha256 :: "string \<Rightarrow> bool" where
  "isSha256 s = (length s = 64 \<and> list_all lower_hex s)"

text \<open>The pattern \<open>/^[A-Za-z0-9_-]+$/\<close> of identifiers that may stand in an object key.\<close>

definition safe_char :: "char \<Rightarrow> bool" where
  "safe_char c = (let n = (of_char c :: nat) in
     (65 \<le> n \<and> n \<le> 90) \<or> (97 \<le> n \<and> n \<le> 122) \<or> (48 \<le> n \<and> n \<le> 57) \<or> n = 95 \<or> n = 45)"

definition safeId :: "string \<Rightarrow> bool" where
  "safeId s = (s \<noteq> [] \<and> list_all safe_char s)"

lemma safe_char_not_slash: "safe_char c \<Longrightarrow> c \<noteq> CHR ''/''"
  by (auto simp: safe_char_def)

lemma lower_hex_not_slash: "lower_hex c \<Longrightarrow> c \<noteq> CHR ''/''"
  by (auto simp: lower_hex_def)

lemma safeId_no_slash: "safeId s \<Longrightarrow> CHR ''/'' \<notin> set s"
  by (auto simp: safeId_def list_all_iff dest: safe_char_not_slash)

lemma isSha256_no_slash: "isSha256 s \<Longrightarrow> CHR ''/'' \<notin> set s"
  by (auto simp: isSha256_def list_all_iff dest: lower_hex_not_slash)

lemma lower_hex_safe: "lower_hex c \<Longrightarrow> safe_char c"
  by (auto simp: lower_hex_def safe_char_def Let_def)

lemma isSha256_safeId: "isSha256 s \<Longrightarrow> safeId s"
  by (auto simp: isSha256_def safeId_def list_all_iff intro: lower_hex_safe)

text \<open>A digest for concrete runs.\<close>

definition sampleDigest :: string where
  "sampleDigest = replicate 64 CHR ''a''"

lemma sampleDigest_ok [simp]: "isSha256 sampleDigest"
  by (simp add: isSha256_def sampleDigest_def lower_hex_def list_all_iff)

subsection \<open>Decimal numerals\<close>

definition digit_char :: "nat \<Rightarrow> char" where
  "digit_char n = char_of (48 + n mod 10)"

fun show_nat :: "nat \<Rightarrow> string" where
  "show_nat n = (if n < 10 then [digit_char n] else show_nat (n div 10) @ [digit_char n])"

declare show_nat.simps [simp del]

definition show_int :: "int \<Rightarrow> string" where
  "show_int i = (if i < 0 then CHR ''-'' # show_nat (nat (- i)) else show_nat (nat i))"

text \<open>\<open>Number.isSafeInteger\<close> on an integral number.\<close>

definition isSafeInteger :: "int \<Rightarrow> bool" where
  "isSafeInteger i = (\<bar>i\<bar> \<le> 9007199254740991)"

subsection \<open>Bytes\<close>

text \<open>
  A \<open>Uint8Array\<close> or \<open>Buffer\<close> is a list of characters read as bytes. \<open>TextEncoder\<close> and
  \<open>Hash.update(string)\<close> encode a string in UTF-8: one byte for a code unit below 128, two
  for one below 256.
\<close>

type_synonym bytes = string

definition utf8_char :: "char \<Rightarrow> bytes" where
  "utf8_char c = (let n = (of_char c :: nat) in
     if n < 128 then [c] else [char_of (192 + n div 64), char_of (128 + n mod 64)])"

definition utf8 :: "string \<Rightarrow> bytes" where
  "utf8 s = concat (map utf8_char s)"

lemma utf8_append [simp]: "utf8 (s @ t) = utf8 s @ utf8 t"
  by (simp add: utf8_def)

lemma utf8_simps [simp]: "utf8 [] = []" "utf8 (c # s) = utf8_char c @ utf8 s"
  by (simp_all add: utf8_def)

lemma of_char_less: "(of_char c :: nat) < 256"
  by simp

lemma utf8_char_append:
  assumes eq: "utf8_char c @ xs = utf8_char d @ ys"
  shows "c = d \<and> xs = ys"
proof -
  let ?n = "of_char c :: nat" and ?m = "of_char d :: nat"
  note lt = of_char_less [of c] of_char_less [of d]
  show ?thesis
  proof (cases "?n < 128 \<or> ?m < 128")
    case True
    have big: "\<not> (192 + k div 64) mod 256 < 128" if "k < 256" for k :: nat
    proof -
      have "k div 64 < 4" using that by (simp add: less_mult_imp_div_less)
      then show ?thesis by simp
    qed
    from True eq big [OF lt(1)] big [OF lt(2)] show ?thesis
      by (auto simp: utf8_char_def Let_def of_char_of split: if_splits)
  next
    case False
    with eq have "char_of (192 + ?n div 64) = (char_of (192 + ?m div 64) :: char)"
      and "char_of (128 + ?n mod 64) = (char_of (128 + ?m mod 64) :: char)" and "xs = ys"
      by (simp_all add: utf8_char_def Let_def)
    moreover from calculation(1,2) have "?n div 64 = ?m div 64" "?n mod 64 = ?m mod 64"
      using lt by (auto dest!: arg_cong [of _ _ "of_char :: char \<Rightarrow> nat"] simp: of_char_of)
    ultimately show ?thesis
      by (metis div_mult_mod_eq of_char_eq_iff)
  qed
qed

lemma utf8_char_nonempty [simp]: "utf8_char c \<noteq> []"
  by (simp add: utf8_char_def Let_def)

lemma utf8_inj: "utf8 s = utf8 t \<Longrightarrow> s = t"
proof (induction s arbitrary: t)
  case Nil
  then show ?case by (cases t) auto
next
  case (Cons c s)
  then show ?case by (cases t) (auto dest: utf8_char_append)
qed

section \<open>Association lists\<close>

lemma map_of_update_same [simp]: "map_of (AList.update k v al) k = Some v"
  by (simp add: update_conv')

lemma map_of_update_other [simp]: "k \<noteq> k' \<Longrightarrow> map_of (AList.update k v al) k' = map_of al k'"
  by (simp add: update_conv')

lemma find_None_iff_all: "List.find P xs = None \<longleftrightarrow> (\<forall>x \<in> set xs. \<not> P x)"
  by (auto simp: find_None_iff)

lemma find_SomeD: "List.find P xs = Some x \<Longrightarrow> x \<in> set xs \<and> P x"
  by (induction xs) (auto split: if_splits)

lemma find_filter_implied:
  "(\<And>x. P x \<Longrightarrow> Q x) \<Longrightarrow> List.find P (filter Q xs) = List.find P xs"
  by (induction xs) auto

lemma find_ex: "(\<exists>y. List.find P xs = Some y) \<longleftrightarrow> (\<exists>x \<in> set xs. P x)"
  by (induction xs) auto

lemma find_not_None: "List.find P xs \<noteq> None \<longleftrightarrow> (\<exists>x \<in> set xs. P x)"
  by (induction xs) auto

lemma find_first:
  "List.find P xs = Some x \<longleftrightarrow> (\<exists>ys zs. xs = ys @ x # zs \<and> (\<forall>y \<in> set ys. \<not> P y) \<and> P x)"
proof
  assume "List.find P xs = Some x"
  then obtain i where i: "i < length xs" "P (xs ! i)" "x = xs ! i" "\<And>j. j < i \<Longrightarrow> \<not> P (xs ! j)"
    by (auto simp: find_Some_iff)
  then have "xs = take i xs @ x # drop (Suc i) xs" and "\<forall>y \<in> set (take i xs). \<not> P y"
    by (auto simp: id_take_nth_drop in_set_conv_nth)
  with i show "\<exists>ys zs. xs = ys @ x # zs \<and> (\<forall>y \<in> set ys. \<not> P y) \<and> P x"
    by blast
next
  assume "\<exists>ys zs. xs = ys @ x # zs \<and> (\<forall>y \<in> set ys. \<not> P y) \<and> P x"
  then obtain ys zs where "xs = ys @ x # zs" "\<forall>y \<in> set ys. \<not> P y" "P x"
    by blast
  then show "List.find P xs = Some x"
    by (induction ys arbitrary: xs) auto
qed

lemma concat_map_Nil: "concat (map f xs) = [] \<longleftrightarrow> (\<forall>x\<in>set xs. f x = [])"
  by (induction xs) auto

lemma find_append: "List.find P (xs @ ys) = (case List.find P xs of None \<Rightarrow> List.find P ys | Some x \<Rightarrow> Some x)"
  by (induction xs) auto

section \<open>Clocks and identifiers\<close>

text \<open>
  The injected clock \<open>now: () => string\<close> and the identifier source \<open>nextId: () => string\<close>
  of the services: the n-th call returns the n-th value.
\<close>

record ambient =
  nowAt :: "nat \<Rightarrow> string"
  ticks :: nat
  idAt :: "nat \<Rightarrow> string"
  idCount :: nat

definition now :: "(ambient, string) js" where
  "now = (\<lambda>s. (Inr (nowAt s (ticks s)), s\<lparr>ticks := ticks s + 1\<rparr>))"

definition nextId :: "(ambient, string) js" where
  "nextId = (\<lambda>s. (Inr (idAt s (idCount s)), s\<lparr>idCount := idCount s + 1\<rparr>))"

lemma now_run [js_simps]: "now s = (Inr (nowAt s (ticks s)), s\<lparr>ticks := ticks s + 1\<rparr>)"
  by (simp add: now_def)

lemma nextId_run [js_simps]: "nextId s = (Inr (idAt s (idCount s)), s\<lparr>idCount := idCount s + 1\<rparr>)"
  by (simp add: nextId_def)

end
