(* ===== verification/Json.thy ===== *)
theory Json
  imports Prelude "HOL-Library.Sorting_Algorithms"
begin

text \<open>
  JSON values as the sources pass them around (\<open>Record<string, unknown>\<close>), and the four
  canonical encoders of the repository: \<open>packages/archive/src/canonical.ts\<close>,
  \<open>packages/audit/src/audit-chain.ts\<close>, \<open>packages/schema-registry/src/canonical.ts\<close> and
  \<open>packages/operations/src/history-service.ts\<close>. The main result is that a canonical
  encoding determines its value up to the order of object keys, which is what makes a hash
  of the encoding identify the value.

  \<open>JUndef\<close> is JavaScript's \<open>undefined\<close>. Numbers are integers: the encoders print an
  integral number in the safe range in decimal, as \<open>JSON.stringify\<close> does.
  \<open>String.prototype.localeCompare\<close> is implementation-defined; ECMAScript asks only for a
  consistent comparison, so it is a parameter of type \<open>string comparator\<close>.
\<close>

section \<open>Values\<close>

datatype json =
    JUndef
  | JNull
  | JBool bool
  | JNum int
  | JStr string
  | JArr "json list"
  | JObj "(string \<times> json) list"

text \<open>Reading a property: a missing key reads as \<open>undefined\<close>.\<close>

definition getProp :: "(string \<times> json) list \<Rightarrow> string \<Rightarrow> json" where
  "getProp r k = (case map_of r k of None \<Rightarrow> JUndef | Some v \<Rightarrow> v)"

text \<open>
  Reading a computed name from a plain object used as a dictionary: the names every object
  inherits, and what reading a name gives.
\<close>

definition prototypeNames :: "string list" where
  "prototypeNames = [''constructor'', ''__defineGetter__'', ''__defineSetter__'', ''hasOwnProperty'',
     ''__lookupGetter__'', ''__lookupSetter__'', ''isPrototypeOf'', ''propertyIsEnumerable'', ''toString'',
     ''valueOf'', ''__proto__'', ''toLocaleString'']"

datatype 'a slot = Own 'a | Inherited | Missing

definition readSlot :: "(string \<times> 'a) list \<Rightarrow> string \<Rightarrow> 'a slot" where
  "readSlot r name = (case map_of r name of Some x \<Rightarrow> Own x
     | None \<Rightarrow> if name \<in> set prototypeNames then Inherited else Missing)"

lemma readSlot_own: "map_of r name = Some x \<Longrightarrow> readSlot r name = Own x"
  by (simp add: readSlot_def)

lemma readSlot_eq_Own: "readSlot r name = Own x \<longleftrightarrow> map_of r name = Some x"
  by (simp add: readSlot_def split: option.splits)

text \<open>The idiom \<open>typeof value === "string"\<close>.\<close>

definition asString :: "json \<Rightarrow> string option" where
  "asString v = (case v of JStr s \<Rightarrow> Some s | _ \<Rightarrow> None)"

lemma asString_simps [simp]:
  "asString (JStr s) = Some s" "asString JUndef = None" "asString JNull = None"
  "asString (JBool b) = None" "asString (JNum i) = None" "asString (JArr vs) = None"
  "asString (JObj kvs) = None"
  by (simp_all add: asString_def)

lemma asString_eq_Some: "asString v = Some s \<longleftrightarrow> v = JStr s"
  by (cases v) auto

text \<open>The operator \<open>===\<close>: objects are compared by identity, and distinct values share none.\<close>

definition strictEq :: "json \<Rightarrow> json \<Rightarrow> bool" where
  "strictEq a b = (case a of JObj _ \<Rightarrow> False | JArr _ \<Rightarrow> False | _ \<Rightarrow> a = b)"

fun hasUndef :: "json \<Rightarrow> bool"
  and hasUndefArr :: "json list \<Rightarrow> bool"
  and hasUndefObj :: "(string \<times> json) list \<Rightarrow> bool" where
  "hasUndef JUndef = True"
| "hasUndef JNull = False"
| "hasUndef (JBool _) = False"
| "hasUndef (JNum _) = False"
| "hasUndef (JStr _) = False"
| "hasUndef (JArr vs) = hasUndefArr vs"
| "hasUndef (JObj kvs) = hasUndefObj kvs"
| "hasUndefArr [] = False"
| "hasUndefArr (v # vs) = (hasUndef v \<or> hasUndefArr vs)"
| "hasUndefObj [] = False"
| "hasUndefObj ((k, v) # kvs) = (hasUndef v \<or> hasUndefObj kvs)"

section \<open>Printing\<close>

definition hex_char :: "nat \<Rightarrow> char" where
  "hex_char n = (if n < 10 then char_of (48 + n) else char_of (87 + n))"

text \<open>The escapes of \<open>JSON.stringify\<close> for one code unit below 256.\<close>

definition escape_char :: "char \<Rightarrow> string" where
  "escape_char c = (let n = (of_char c :: nat) in
     if n = 34 then [CHR 0x5C, CHR 0x22]
     else if n = 92 then [CHR 0x5C, CHR 0x5C]
     else if n = 8 then [CHR 0x5C, CHR ''b'']
     else if n = 9 then [CHR 0x5C, CHR ''t'']
     else if n = 10 then [CHR 0x5C, CHR ''n'']
     else if n = 12 then [CHR 0x5C, CHR ''f'']
     else if n = 13 then [CHR 0x5C, CHR ''r'']
     else if n < 32 then CHR 0x5C # ''u00'' @ [hex_char (n div 16), hex_char (n mod 16)]
     else [c])"

definition quote :: "string \<Rightarrow> string" where
  "quote s = CHR 0x22 # concat (map escape_char s) @ [CHR 0x22]"

definition show_bool :: "bool \<Rightarrow> string" where
  "show_bool b = (if b then ''true'' else ''false'')"

definition field :: "string \<times> string \<Rightarrow> string" where
  "field p = quote (fst p) @ '':'' @ snd p"

definition bracket :: "string list \<Rightarrow> string" where
  "bracket ws = ''['' @ join '','' ws @ '']''"

definition brace :: "(string \<times> string) list \<Rightarrow> string" where
  "brace ps = ''{'' @ join '','' (map field ps) @ ''}''"

section \<open>The encoders of the sources\<close>

subsection \<open>\<open>archive/src/canonical.ts\<close>: canonicalJson\<close>

definition notEncodable :: js_error where
  "notEncodable = plainError ''Value is not JSON encodable.''"

fun canonicalJson :: "json \<Rightarrow> js_error + string"
  and canonicalJsonArr :: "json list \<Rightarrow> js_error + string list"
  and canonicalJsonObj :: "(string \<times> json) list \<Rightarrow> js_error + (string \<times> string) list" where
  "canonicalJson JUndef = Inl notEncodable"
| "canonicalJson JNull = Inr ''null''"
| "canonicalJson (JBool b) = Inr (show_bool b)"
| "canonicalJson (JNum i) = Inr (show_int i)"
| "canonicalJson (JStr s) = Inr (quote s)"
| "canonicalJson (JArr vs) = seqR (canonicalJsonArr vs) (\<lambda>ws. Inr (bracket ws))"
| "canonicalJson (JObj kvs) =
     seqR (canonicalJsonObj kvs) (\<lambda>ps. Inr (brace (sort_key fst ps)))"
| "canonicalJsonArr [] = Inr []"
| "canonicalJsonArr (v # vs) =
     seqR (canonicalJson v) (\<lambda>w. seqR (canonicalJsonArr vs) (\<lambda>ws. Inr (w # ws)))"
| "canonicalJsonObj [] = Inr []"
| "canonicalJsonObj ((k, v) # kvs) =
     seqR (canonicalJson v) (\<lambda>w. seqR (canonicalJsonObj kvs) (\<lambda>ps. Inr ((k, w) # ps)))"

subsection \<open>\<open>audit/src/audit-chain.ts\<close> and \<open>schema-registry/src/canonical.ts\<close>\<close>

text \<open>
  \<open>JSON.stringify(undefined)\<close> is \<open>undefined\<close> (\<open>None\<close>): \<open>join\<close> prints it as the empty
  string, a template literal as the word undefined.
\<close>

fun canonicalValue :: "json \<Rightarrow> string option"
  and canonicalValueArr :: "json list \<Rightarrow> string list"
  and canonicalValueObj :: "(string \<times> json) list \<Rightarrow> (string \<times> string) list" where
  "canonicalValue JUndef = None"
| "canonicalValue JNull = Some ''null''"
| "canonicalValue (JBool b) = Some (show_bool b)"
| "canonicalValue (JNum i) = Some (show_int i)"
| "canonicalValue (JStr s) = Some (quote s)"
| "canonicalValue (JArr vs) = Some (bracket (canonicalValueArr vs))"
| "canonicalValue (JObj kvs) = Some (brace (sort_key fst (canonicalValueObj kvs)))"
| "canonicalValueArr [] = []"
| "canonicalValueArr (v # vs) =
     (case canonicalValue v of None \<Rightarrow> [] | Some w \<Rightarrow> w) # canonicalValueArr vs"
| "canonicalValueObj [] = []"
| "canonicalValueObj ((k, v) # kvs) =
     (k, case canonicalValue v of None \<Rightarrow> ''undefined'' | Some w \<Rightarrow> w) # canonicalValueObj kvs"

fun canonicalize :: "json \<Rightarrow> string option"
  and canonicalizeArr :: "json list \<Rightarrow> string list"
  and canonicalizeObj :: "(string \<times> json) list \<Rightarrow> (string \<times> string) list" where
  "canonicalize JUndef = None"
| "canonicalize JNull = Some ''null''"
| "canonicalize (JBool b) = Some (show_bool b)"
| "canonicalize (JNum i) = Some (show_int i)"
| "canonicalize (JStr s) = Some (quote s)"
| "canonicalize (JArr vs) = Some (bracket (canonicalizeArr vs))"
| "canonicalize (JObj kvs) = Some (brace (sort_key fst (canonicalizeObj kvs)))"
| "canonicalizeArr [] = []"
| "canonicalizeArr (v # vs) =
     (case canonicalize v of None \<Rightarrow> [] | Some w \<Rightarrow> w) # canonicalizeArr vs"
| "canonicalizeObj [] = []"
| "canonicalizeObj ((k, v) # kvs) =
     (k, case canonicalize v of None \<Rightarrow> ''undefined'' | Some w \<Rightarrow> w) # canonicalizeObj kvs"

subsection \<open>\<open>operations/src/history-service.ts\<close>: keys by localeCompare\<close>

fun canonicalJsonLocale :: "string comparator \<Rightarrow> json \<Rightarrow> string option"
  and canonicalJsonLocaleArr :: "string comparator \<Rightarrow> json list \<Rightarrow> string list"
  and canonicalJsonLocaleObj ::
    "string comparator \<Rightarrow> (string \<times> json) list \<Rightarrow> (string \<times> string) list" where
  "canonicalJsonLocale loc JUndef = None"
| "canonicalJsonLocale loc JNull = Some ''null''"
| "canonicalJsonLocale loc (JBool b) = Some (show_bool b)"
| "canonicalJsonLocale loc (JNum i) = Some (show_int i)"
| "canonicalJsonLocale loc (JStr s) = Some (quote s)"
| "canonicalJsonLocale loc (JArr vs) = Some (bracket (canonicalJsonLocaleArr loc vs))"
| "canonicalJsonLocale loc (JObj kvs) =
     Some (brace (Sorting_Algorithms.sort (key fst loc) (canonicalJsonLocaleObj loc kvs)))"
| "canonicalJsonLocaleArr loc [] = []"
| "canonicalJsonLocaleArr loc (v # vs) =
     (case canonicalJsonLocale loc v of None \<Rightarrow> [] | Some w \<Rightarrow> w) # canonicalJsonLocaleArr loc vs"
| "canonicalJsonLocaleObj loc [] = []"
| "canonicalJsonLocaleObj loc ((k, v) # kvs) =
     (k, case canonicalJsonLocale loc v of None \<Rightarrow> ''undefined'' | Some w \<Rightarrow> w)
       # canonicalJsonLocaleObj loc kvs"

section \<open>What the encoders compute\<close>

text \<open>
  \<open>stringify\<close> prints keys in the order they stand in, \<open>normJson\<close> sorts the keys of every
  object by code units; an encoding is the print of the normal form.
\<close>

fun stringify :: "json \<Rightarrow> string"
  and stringifyArr :: "json list \<Rightarrow> string list"
  and stringifyObj :: "(string \<times> json) list \<Rightarrow> (string \<times> string) list" where
  "stringify JUndef = ''undefined''"
| "stringify JNull = ''null''"
| "stringify (JBool b) = show_bool b"
| "stringify (JNum i) = show_int i"
| "stringify (JStr s) = quote s"
| "stringify (JArr vs) = bracket (stringifyArr vs)"
| "stringify (JObj kvs) = brace (stringifyObj kvs)"
| "stringifyArr [] = []"
| "stringifyArr (v # vs) = stringify v # stringifyArr vs"
| "stringifyObj [] = []"
| "stringifyObj ((k, v) # kvs) = (k, stringify v) # stringifyObj kvs"

fun normJson :: "json \<Rightarrow> json"
  and normArr :: "json list \<Rightarrow> json list"
  and normObj :: "(string \<times> json) list \<Rightarrow> (string \<times> json) list" where
  "normJson (JArr vs) = JArr (normArr vs)"
| "normJson (JObj kvs) = JObj (sort_key fst (normObj kvs))"
| "normJson v = v"
| "normArr [] = []"
| "normArr (v # vs) = normJson v # normArr vs"
| "normObj [] = []"
| "normObj ((k, v) # kvs) = (k, normJson v) # normObj kvs"

lemma insort_key_map_snd:
  "insort_key fst (fst p, f (snd p)) (map (\<lambda>q. (fst q, f (snd q))) xs)
     = map (\<lambda>q. (fst q, f (snd q))) (insort_key fst p xs)"
  by (induction xs) auto

lemma sort_key_map_snd:
  "sort_key fst (map (\<lambda>q. (fst q, f (snd q))) xs) = map (\<lambda>q. (fst q, f (snd q))) (sort_key fst xs)"
  by (induction xs) (simp_all add: insort_key_map_snd)

lemma stringifyObj_map: "stringifyObj kvs = map (\<lambda>q. (fst q, stringify (snd q))) kvs"
  by (induction kvs rule: list.induct) auto

lemma stringifyObj_sort: "stringifyObj (sort_key fst kvs) = sort_key fst (stringifyObj kvs)"
  by (simp add: stringifyObj_map sort_key_map_snd)

lemma canonicalJson_outcome:
  shows canonicalJson_eq:
      "canonicalJson v = (if hasUndef v then Inl notEncodable else Inr (stringify (normJson v)))"
    and canonicalJsonArr_eq:
      "canonicalJsonArr vs = (if hasUndefArr vs then Inl notEncodable else Inr (stringifyArr (normArr vs)))"
    and canonicalJsonObj_eq:
      "canonicalJsonObj kvs = (if hasUndefObj kvs then Inl notEncodable else Inr (stringifyObj (normObj kvs)))"
  by (induction v and vs and kvs rule: canonicalJson_canonicalJsonArr_canonicalJsonObj.induct)
    (simp_all add: stringifyObj_sort)

lemma canonicalValue_print:
  shows canonicalValue_eq: "\<not> hasUndef v \<Longrightarrow> canonicalValue v = Some (stringify (normJson v))"
    and canonicalValueArr_eq: "\<not> hasUndefArr vs \<Longrightarrow> canonicalValueArr vs = stringifyArr (normArr vs)"
    and canonicalValueObj_eq: "\<not> hasUndefObj kvs \<Longrightarrow> canonicalValueObj kvs = stringifyObj (normObj kvs)"
  by (induction v and vs and kvs rule: canonicalValue_canonicalValueArr_canonicalValueObj.induct)
    (simp_all add: stringifyObj_sort)

lemma canonicalize_is_canonicalValue:
  shows canonicalize_eq: "canonicalize v = canonicalValue v"
    and canonicalizeArr_eq: "canonicalizeArr vs = canonicalValueArr vs"
    and canonicalizeObj_eq: "canonicalizeObj kvs = canonicalValueObj kvs"
  by (induction v and vs and kvs rule: canonicalize_canonicalizeArr_canonicalizeObj.induct) simp_all

section \<open>The print determines the value\<close>

lemma hex_char_of: "n < 16 \<Longrightarrow> m < 16 \<Longrightarrow> hex_char n = hex_char m \<Longrightarrow> n = m"
proof -
  assume nm: "n < 16" "m < 16" and eq: "hex_char n = hex_char m"
  from eq have "of_char (hex_char n) = (of_char (hex_char m) :: nat)" by simp
  with nm show ?thesis
    by (auto simp: hex_char_def of_char_of split: if_splits)
qed

lemma of_char_inj: "(of_char c :: nat) = of_char d \<Longrightarrow> c = d"
  by simp

lemma escape_char_cases:
  obtains (plain) "escape_char c = [c]" "c \<noteq> CHR 0x5C" "c \<noteq> CHR 0x22"
  | (letter) x where "escape_char c = [CHR 0x5C, x]" "x \<noteq> CHR ''u''"
  | (hex) "escape_char c = [CHR 0x5C, CHR ''u'', CHR ''0'', CHR ''0'',
      hex_char (of_char c div 16), hex_char (of_char c mod 16)]" "(of_char c :: nat) < 32"
proof -
  let ?n = "of_char c :: nat"
  consider "?n \<in> {34, 92, 8, 9, 10, 12, 13}" | "?n < 32" "?n \<notin> {34, 92, 8, 9, 10, 12, 13}"
    | "\<not> ?n < 32" "?n \<notin> {34, 92, 8, 9, 10, 12, 13}" by blast
  then show thesis
  proof cases
    case 1
    then obtain x where "escape_char c = [CHR 0x5C, x]" "x \<noteq> CHR ''u''"
      by (auto simp: escape_char_def)
    then show thesis by (rule letter)
  next
    case 2
    then show thesis by (auto simp: escape_char_def Let_def intro!: hex)
  next
    case 3
    then show thesis by (auto simp: escape_char_def intro!: plain)
  qed
qed

lemma escape_char_eq: "escape_char c = escape_char d \<Longrightarrow> c = d"
proof -
  let ?n = "of_char c :: nat" and ?m = "of_char d :: nat"
  assume eq: "escape_char c = escape_char d"
  then have "?n = ?m \<or> (?n < 32 \<and> ?m < 32 \<and> hex_char (?n div 16) = hex_char (?m div 16)
      \<and> hex_char (?n mod 16) = hex_char (?m mod 16))"
    by (auto simp: escape_char_def Let_def simp del: of_char_eq_iff split: if_splits)
  moreover have "?n = ?m" if "?n < 32" "?m < 32" "hex_char (?n div 16) = hex_char (?m div 16)"
      "hex_char (?n mod 16) = hex_char (?m mod 16)"
  proof -
    have "?n div 16 = ?m div 16" by (rule hex_char_of) (use that in auto)
    moreover have "?n mod 16 = ?m mod 16" by (rule hex_char_of) (use that in auto)
    ultimately show ?thesis by (metis div_mult_mod_eq)
  qed
  ultimately have "?n = ?m" by blast
  then show "c = d" by simp
qed

lemma escape_char_append: "escape_char c @ xs = escape_char d @ ys \<Longrightarrow> c = d \<and> xs = ys"
proof (cases c rule: escape_char_cases)
  case plain
  assume eq: "escape_char c @ xs = escape_char d @ ys"
  with plain show ?thesis
    by (cases d rule: escape_char_cases) auto
next
  case (letter x)
  assume eq: "escape_char c @ xs = escape_char d @ ys"
  with letter have "escape_char c = escape_char d \<and> xs = ys"
    by (cases d rule: escape_char_cases) auto
  then show ?thesis using escape_char_eq by blast
next
  case hex
  assume eq: "escape_char c @ xs = escape_char d @ ys"
  with hex have "escape_char c = escape_char d \<and> xs = ys"
    by (cases d rule: escape_char_cases) auto
  then show ?thesis using escape_char_eq by blast
qed

lemma escape_char_not_quote [simp]:
  "escape_char c @ xs \<noteq> CHR 0x22 # ys" "CHR 0x22 # ys \<noteq> escape_char c @ xs"
  by (cases c rule: escape_char_cases; auto)+

lemma escapes_append:
  "concat (map escape_char s) @ CHR 0x22 # xs = concat (map escape_char t) @ CHR 0x22 # ys
     \<Longrightarrow> s = t \<and> xs = ys"
proof (induction s arbitrary: t)
  case Nil
  then show ?case
    by (cases t) auto
next
  case (Cons c s)
  show ?case
  proof (cases t)
    case Nil
    with Cons.prems show ?thesis by simp
  next
    case (Cons d u)
    with Cons.prems have "c = d \<and> concat (map escape_char s) @ CHR 0x22 # xs
        = concat (map escape_char u) @ CHR 0x22 # ys"
      by (intro escape_char_append) simp
    with Cons.IH [of u] Cons show ?thesis by simp
  qed
qed

lemma quote_append: "quote s @ xs = quote t @ ys \<Longrightarrow> s = t \<and> xs = ys"
  by (rule escapes_append) (simp add: quote_def)

definition is_digit :: "char \<Rightarrow> bool" where
  "is_digit c = (48 \<le> (of_char c :: nat) \<and> (of_char c :: nat) \<le> 57)"

lemma is_digit_digit_char [simp]: "is_digit (digit_char n)"
  by (simp add: is_digit_def digit_char_def of_char_of)

lemma digit_char_eq: "digit_char n = digit_char m \<Longrightarrow> n mod 10 = m mod 10"
proof -
  assume "digit_char n = digit_char m"
  then have "(of_char (digit_char n) :: nat) = of_char (digit_char m)" by simp
  then show ?thesis by (simp add: digit_char_def of_char_of)
qed

lemma show_nat_digits: "list_all is_digit (show_nat n)"
  by (induction n rule: show_nat.induct) (subst show_nat.simps, simp)

lemma show_nat_nonempty [simp]: "show_nat n \<noteq> []"
  by (subst show_nat.simps) simp

lemma show_nat_eq: "show_nat n = show_nat m \<Longrightarrow> n = m"
proof (induction n arbitrary: m rule: show_nat.induct)
  case (1 n)
  have len: "length (show_nat k) = 1 \<longleftrightarrow> k < 10" for k
    by (subst show_nat.simps) (simp add: length_greater_0_conv [symmetric] del: length_greater_0_conv)
  from 1(2) len [of n] len [of m] have small: "n < 10 \<longleftrightarrow> m < 10" by simp
  show ?case
  proof (cases "n < 10")
    case True
    with small 1(2) have "n mod 10 = m mod 10"
      by (intro digit_char_eq) (simp add: show_nat.simps [of n] show_nat.simps [of m])
    with True small show ?thesis by simp
  next
    case False
    with small 1(2) have "show_nat (n div 10) = show_nat (m div 10)" "digit_char n = digit_char m"
      by (simp_all add: show_nat.simps [of n] show_nat.simps [of m])
    with 1(1) [OF False, of "m div 10"] have "n div 10 = m div 10" "n mod 10 = m mod 10"
      by (auto dest: digit_char_eq)
    then show ?thesis by (metis div_mult_mod_eq)
  qed
qed

text \<open>What may follow a value in the text of a larger one.\<close>

definition delimited :: "string \<Rightarrow> bool" where
  "delimited xs = (xs = [] \<or> \<not> is_digit (hd xs))"

lemma takeWhile_show_nat:
  "delimited xs \<Longrightarrow> takeWhile is_digit (show_nat n @ xs) = show_nat n"
  using show_nat_digits [of n]
  by (cases xs) (auto simp: delimited_def list_all_iff takeWhile_append2)

lemma show_nat_append:
  assumes "show_nat n @ xs = show_nat m @ ys" "delimited xs" "delimited ys"
  shows "n = m \<and> xs = ys"
proof -
  have "takeWhile is_digit (show_nat n @ xs) = takeWhile is_digit (show_nat m @ ys)"
    using assms(1) by simp
  then have "show_nat n = show_nat m"
    using assms(2,3) by (simp add: takeWhile_show_nat)
  with assms(1) show ?thesis by (auto dest: show_nat_eq)
qed

lemma show_nat_not_minus:
  "show_nat n @ xs \<noteq> CHR ''-'' # ys" "CHR ''-'' # ys \<noteq> show_nat n @ xs"
  using show_nat_digits [of n]
  by (cases "show_nat n"; auto simp: is_digit_def)+

lemma show_int_append:
  assumes eq: "show_int i @ xs = show_int j @ ys" and "delimited xs" "delimited ys"
  shows "i = j \<and> xs = ys"
proof (cases "i < 0")
  case True
  with eq have "j < 0" and "show_nat (nat (- i)) @ xs = show_nat (nat (- j)) @ ys"
    by (simp_all add: show_int_def show_nat_not_minus split: if_splits)
  then have "nat (- i) = nat (- j) \<and> xs = ys"
    using assms(2,3) by (intro show_nat_append) auto
  with True \<open>j < 0\<close> show ?thesis by arith
next
  case False
  with eq have "\<not> j < 0" and "show_nat (nat i) @ xs = show_nat (nat j) @ ys"
    by (simp_all add: show_int_def show_nat_not_minus split: if_splits)
  then have "nat i = nat j \<and> xs = ys"
    using assms(2,3) by (intro show_nat_append) auto
  with False \<open>\<not> j < 0\<close> show ?thesis by arith
qed

subsection \<open>Whole values\<close>

text \<open>The first character tells the kind of a value.\<close>

lemma stringify_first:
  obtains c s where "stringify v = c # s"
    and "c \<noteq> CHR '']''" "c \<noteq> CHR '',''" "c \<noteq> CHR ''}''"
proof (cases v)
  case (JBool b)
  then show thesis by (cases b) (auto simp: show_bool_def intro: that)
next
  case (JNum i)
  then obtain c s where cs: "stringify v = c # s" "c = CHR ''-'' \<or> is_digit c"
    using show_nat_digits [of "nat i"] show_nat_nonempty [of "nat i"]
    by (cases "show_nat (nat i)"; cases "i < 0") (simp_all add: show_int_def)
  then show thesis by (intro that [of c s]) (auto simp: is_digit_def)
qed (auto simp: quote_def bracket_def brace_def intro: that)

text \<open>Two prints followed by a delimiter agree only on equal values.\<close>

definition decodes :: "json \<Rightarrow> bool" where
  "decodes v \<longleftrightarrow> (\<forall>w xs ys. stringify v @ xs = stringify w @ ys \<longrightarrow> delimited xs \<longrightarrow> delimited ys
     \<longrightarrow> v = w \<and> xs = ys)"

lemma decodesD:
  "decodes v \<Longrightarrow> stringify v @ xs = stringify w @ ys \<Longrightarrow> delimited xs \<Longrightarrow> delimited ys
     \<Longrightarrow> v = w \<and> xs = ys"
  by (simp add: decodes_def)

lemma delimited_close [simp]:
  "delimited (CHR '','' # xs)" "delimited (CHR '']'' # xs)" "delimited (CHR ''}'' # xs)" "delimited []"
  by (simp_all add: delimited_def is_digit_def)

lemma stringify_not_close [simp]:
  "stringify v @ xs \<noteq> CHR '']'' # ys" "CHR '']'' # ys \<noteq> stringify v @ xs"
  by (cases v rule: stringify_first; simp)+

definition arrTail :: "json list \<Rightarrow> string \<Rightarrow> string" where
  "arrTail vs xs = concat (map (\<lambda>w. CHR '','' # w) (stringifyArr vs)) @ CHR '']'' # xs"

lemma join_comma: "join '','' (w # ws) = w @ concat (map (\<lambda>w. CHR '','' # w) ws)"
  by (induction ws arbitrary: w) (simp_all add: join_Cons)

lemma arrTail_inj:
  "(\<And>v. v \<in> set vs \<Longrightarrow> decodes v) \<Longrightarrow> arrTail vs xs = arrTail ws ys \<Longrightarrow> vs = ws \<and> xs = ys"
proof (induction vs arbitrary: ws)
  case Nil
  then show ?case by (cases ws) (simp_all add: arrTail_def)
next
  case (Cons v vs)
  show ?case
  proof (cases ws)
    case Nil
    with Cons.prems show ?thesis by (simp add: arrTail_def)
  next
    case (Cons w us)
    have "stringify v @ arrTail vs xs = stringify w @ arrTail us ys"
      using Cons.prems(2) Cons by (simp add: arrTail_def)
    moreover have "delimited (arrTail vs xs)" for vs xs
      by (cases vs) (simp_all add: arrTail_def)
    ultimately have "v = w \<and> arrTail vs xs = arrTail us ys"
      using Cons.prems(1) [of v] by (auto dest: decodesD)
    with Cons.IH [of us] Cons.prems(1) Cons show ?thesis by simp
  qed
qed

lemma bracket_append:
  assumes "\<And>v. v \<in> set vs \<Longrightarrow> decodes v"
    and "bracket (stringifyArr vs) @ xs = bracket (stringifyArr ws) @ ys"
  shows "vs = ws \<and> xs = ys"
proof (cases "vs = [] \<or> ws = []")
  case True
  with assms(2) show ?thesis
    by (cases vs; cases ws) (auto simp: bracket_def join_comma)
next
  case False
  then obtain v vs' w ws' where vw: "vs = v # vs'" "ws = w # ws'"
    by (meson neq_Nil_conv)
  have "arrTail vs xs = arrTail ws ys"
    using assms(2) vw by (simp add: arrTail_def bracket_def join_comma)
  with arrTail_inj [OF assms(1)] show ?thesis by blast
qed

definition objTail :: "(string \<times> json) list \<Rightarrow> string \<Rightarrow> string" where
  "objTail kvs xs = concat (map (\<lambda>w. CHR '','' # w) (map field (stringifyObj kvs))) @ CHR ''}'' # xs"

lemma objTail_inj:
  "(\<And>k v. (k, v) \<in> set kvs \<Longrightarrow> decodes v) \<Longrightarrow> objTail kvs xs = objTail lws ys \<Longrightarrow> kvs = lws \<and> xs = ys"
proof (induction kvs arbitrary: lws)
  case Nil
  then show ?case by (cases lws) (auto simp: objTail_def)
next
  case (Cons kv kvs)
  obtain k v where kv: "kv = (k, v)" by fastforce
  show ?case
  proof (cases lws)
    case Nil
    with Cons.prems kv show ?thesis by (simp add: objTail_def)
  next
    case (Cons lw us)
    obtain l w where lw: "lw = (l, w)" by fastforce
    have "quote k @ CHR '':'' # stringify v @ objTail kvs xs = quote l @ CHR '':'' # stringify w @ objTail us ys"
      using Cons.prems(2) Cons kv lw by (simp add: objTail_def field_def)
    then have kl: "k = l" and "stringify v @ objTail kvs xs = stringify w @ objTail us ys"
      by (auto dest: quote_append)
    moreover have "delimited (objTail kvs xs)" for kvs xs
      by (cases kvs) (auto simp: objTail_def)
    ultimately have "v = w \<and> objTail kvs xs = objTail us ys"
      using Cons.prems(1) [of k v] kv by (auto dest: decodesD)
    with Cons.IH [of us] Cons.prems(1) Cons kv lw kl show ?thesis by auto
  qed
qed

lemma brace_append:
  assumes "\<And>k v. (k, v) \<in> set kvs \<Longrightarrow> decodes v"
    and "brace (stringifyObj kvs) @ xs = brace (stringifyObj lws) @ ys"
  shows "kvs = lws \<and> xs = ys"
proof (cases "kvs = [] \<or> lws = []")
  case True
  with assms(2) show ?thesis
    by (cases kvs; cases lws) (auto simp: brace_def join_comma field_def quote_def)
next
  case False
  then obtain p kvs' q lws' where pq: "kvs = p # kvs'" "lws = q # lws'"
    by (meson neq_Nil_conv)
  have "objTail kvs xs = objTail lws ys"
    using assms(2) pq by (cases p; cases q) (simp add: objTail_def brace_def join_comma)
  then show ?thesis using assms(1) by (intro objTail_inj) blast+
qed

text \<open>The kinds of values have disjoint sets of first characters.\<close>

lemma stringify_heads:
  "hd (stringify v @ xs) = (case v of JUndef \<Rightarrow> CHR ''u'' | JNull \<Rightarrow> CHR ''n''
     | JBool b \<Rightarrow> (if b then CHR ''t'' else CHR ''f'')
     | JNum i \<Rightarrow> hd (show_int i) | JStr s \<Rightarrow> CHR 0x22 | JArr vs \<Rightarrow> CHR ''['' | JObj kvs \<Rightarrow> CHR ''{'')"
  by (cases v) (auto simp: show_bool_def quote_def bracket_def brace_def show_int_def hd_append)

lemma hd_show_int: "hd (show_int i) = CHR ''-'' \<or> is_digit (hd (show_int i))"
  using show_nat_digits [of "nat i"] show_nat_nonempty [of "nat i"]
  by (cases "show_nat (nat i)"; cases "i < 0") (simp_all add: show_int_def)

lemma hd_show_int_neq [simp]:
  "hd (show_int i) \<noteq> CHR ''u''" "hd (show_int i) \<noteq> CHR ''n''" "hd (show_int i) \<noteq> CHR ''t''"
  "hd (show_int i) \<noteq> CHR ''f''" "hd (show_int i) \<noteq> CHR 0x22" "hd (show_int i) \<noteq> CHR ''[''"
  "hd (show_int i) \<noteq> CHR ''{''"
  using hd_show_int [of i] by (auto simp: is_digit_def)

lemma hd_show_int_neq_sym [simp]:
  "CHR ''u'' \<noteq> hd (show_int i)" "CHR ''n'' \<noteq> hd (show_int i)" "CHR ''t'' \<noteq> hd (show_int i)"
  "CHR ''f'' \<noteq> hd (show_int i)" "CHR 0x22 \<noteq> hd (show_int i)" "CHR ''['' \<noteq> hd (show_int i)"
  "CHR ''{'' \<noteq> hd (show_int i)"
  using hd_show_int_neq [of i] by (blast dest: sym)+

definition kindOf :: "json \<Rightarrow> nat" where
  "kindOf v = (case v of JUndef \<Rightarrow> 0 | JNull \<Rightarrow> 1 | JBool _ \<Rightarrow> 2 | JNum _ \<Rightarrow> 3 | JStr _ \<Rightarrow> 4
     | JArr _ \<Rightarrow> 5 | JObj _ \<Rightarrow> 6)"

lemma same_kind: "stringify v @ xs = stringify w @ ys \<Longrightarrow> kindOf w = kindOf v"
  by (drule arg_cong [of _ _ hd], unfold stringify_heads, cases v; cases w)
    (simp_all add: kindOf_def split: if_splits)

lemma decodesI:
  assumes "\<And>w xs ys. stringify v @ xs = stringify w @ ys \<Longrightarrow> kindOf w = kindOf v
     \<Longrightarrow> delimited xs \<Longrightarrow> delimited ys \<Longrightarrow> v = w \<and> xs = ys"
  shows "decodes v"
  unfolding decodes_def using assms same_kind by blast

lemma kindOf_inv:
  "kindOf w = kindOf JUndef \<longleftrightarrow> w = JUndef" "kindOf w = kindOf JNull \<longleftrightarrow> w = JNull"
  "kindOf w = kindOf (JBool b) \<longleftrightarrow> (\<exists>c. w = JBool c)" "kindOf w = kindOf (JNum i) \<longleftrightarrow> (\<exists>j. w = JNum j)"
  "kindOf w = kindOf (JStr s) \<longleftrightarrow> (\<exists>t. w = JStr t)" "kindOf w = kindOf (JArr vs) \<longleftrightarrow> (\<exists>ws. w = JArr ws)"
  "kindOf w = kindOf (JObj kvs) \<longleftrightarrow> (\<exists>lws. w = JObj lws)"
  by (cases w; simp add: kindOf_def)+

lemma stringify_decodes:
  fixes kvs :: "(string \<times> json) list"
  shows "decodes v" and "\<forall>v \<in> set vs. decodes v" and "\<forall>p \<in> set kvs. decodes (snd p)"
proof (induction v and vs and kvs rule: stringify_stringifyArr_stringifyObj.induct)
  case (3 b)
  then show ?case
    by (rule decodesI) (auto simp: kindOf_inv show_bool_def split: if_splits)
next
  case (4 i)
  then show ?case by (rule decodesI) (auto simp: kindOf_inv dest: show_int_append)
next
  case (5 s)
  then show ?case by (rule decodesI) (auto simp: kindOf_inv dest: quote_append)
next
  case (6 vs)
  then have "\<And>v. v \<in> set vs \<Longrightarrow> decodes v" by blast
  from bracket_append [OF this] show ?case
    by (intro decodesI) (auto simp: kindOf_inv)
next
  case (7 kvs)
  then have "\<And>k v. (k, v) \<in> set kvs \<Longrightarrow> decodes v" by fastforce
  from brace_append [OF this] show ?case
    by (intro decodesI) (auto simp: kindOf_inv)
qed (auto intro!: decodesI simp: kindOf_inv)

lemma stringify_inj: "stringify v = stringify w \<Longrightarrow> v = w"
  using decodesD [OF stringify_decodes(1), of v "[]" w "[]"] by simp

lemmas canonical_print = canonicalJson_eq canonicalValue_eq canonicalize_eq


end
