(* ===== verification/Core.thy ===== *)
theory Core
  imports Json
begin

text \<open>
  \<open>packages/core/src\<close>: the entities (\<open>types.ts\<close>), the error class (\<open>errors.ts\<close>) and the
  domain invariants (\<open>invariants.ts\<close>). Each assertion is a function that returns
  \<open>Inr ()\<close> or the error it throws; the lemmas say exactly when it passes.
\<close>

section \<open>Entities\<close>

datatype resourceStatus = Active | Archived | DeletedLogically | LegalHold

record dataset =
  ds_id :: string
  ds_workspaceId :: string
  ds_schemaPackageId :: string
  ds_datasetType :: string
  ds_name :: string
  ds_status :: resourceStatus
  ds_retentionPolicyId :: "string option"
  ds_createdBy :: string
  ds_createdAt :: string
  ds_updatedAt :: string

record resource =
  res_id :: string
  res_workspaceId :: string
  res_datasetId :: string
  res_resourceType :: string
  res_title :: "string option"
  res_status :: resourceStatus
  res_currentRevisionId :: "string option"
  res_createdBy :: string
  res_createdAt :: string
  res_updatedAt :: string

datatype revisionSource = SourceUser | SourceApplication | SourceImport | SourceRestore | SourceMerge

record revision =
  rev_id :: string
  rev_workspaceId :: string
  rev_datasetId :: string
  rev_resourceId :: string
  rev_revisionNumber :: int
  rev_parentRevisionId :: "string option"
  rev_mergeParentRevisionIds :: "string list"
  rev_schemaPackageId :: string
  rev_schemaVersion :: string
  rev_canonicalPayload :: "(string \<times> json) list"
  rev_canonicalPayloadHash :: string
  rev_createdBy :: string
  rev_createdOnDeviceId :: "string option"
  rev_source :: revisionSource
  rev_changeNote :: "string option"
  rev_restoredFromRevisionId :: "string option"
  rev_createdAt :: string

datatype encryptionState = ProviderManaged | CustomerManaged

datatype verificationState = VerPending | VerVerified | VerFailed

record blobObject =
  blob_id :: string
  blob_workspaceId :: string
  blob_sha256 :: string
  blob_byteLength :: int
  blob_mediaType :: string
  blob_storageProvider :: string
  blob_storageKey :: string
  blob_encryptionState :: encryptionState
  blob_encryptionKeyRef :: "string option"
  blob_verificationState :: verificationState
  blob_createdAt :: string
  blob_storageBindingId :: "string option"
  blob_storageBindingGeneration :: "int option"

datatype endpointKind = EndResource | EndRevision | EndBlob | EndExternal

record relation =
  rel_id :: string
  rel_workspaceId :: string
  rel_datasetId :: string
  rel_sourceKind :: endpointKind
  rel_sourceId :: string
  rel_targetKind :: endpointKind
  rel_targetId :: string
  rel_relationType :: string
  rel_metadata :: "(string \<times> json) list"
  rel_createdBy :: string
  rel_createdAt :: string
  rel_endedAt :: "string option"

datatype subjectKind = SubjDataset | SubjResource | SubjRelation

datatype purgeState = NotEligible | Eligible | Planned | Purged

record tombstone =
  tomb_id :: string
  tomb_workspaceId :: string
  tomb_datasetId :: string
  tomb_subjectKind :: subjectKind
  tomb_subjectId :: string
  tomb_deletedBy :: string
  tomb_deletedAt :: string
  tomb_reason :: "string option"
  tomb_recoverUntil :: "string option"
  tomb_priorRevisionId :: "string option"
  tomb_restoredAt :: "string option"
  tomb_restoredBy :: "string option"
  tomb_purgeState :: purgeState

text \<open>
  The fields of a retention policy that \<open>assertRetentionPolicy\<close> reads; \<open>purgeEnabled\<close> is
  a boolean there, although the type \<open>RetentionPolicy\<close> fixes it to \<open>false\<close>.
\<close>

record retentionPolicy =
  ret_name :: string
  ret_recoveryWindowDays :: int
  ret_minimumHistoryDays :: int
  ret_backupRetentionDays :: int
  ret_purgeEnabled :: bool

section \<open>Errors\<close>

definition trustInvariantError :: "string \<Rightarrow> string \<Rightarrow> js_error" where
  "trustInvariantError code msg = JsError ''TrustInvariantError'' (Some code) msg"

section \<open>Invariants\<close>

definition assertBlobHash :: "string \<Rightarrow> js_error + unit" where
  "assertBlobHash sha = check (isSha256 sha)
     (trustInvariantError ''BLOB_HASH_INVALID''
        ''Blob SHA-256 must be 64 lowercase hexadecimal characters.'')"

text \<open>The pattern \<open>/(?:secret|password|private[_-]?key)\s*[:=]/i\<close>, tested anywhere in the text.\<close>

definition secretWords :: "string list" where
  "secretWords = [''secret'', ''password'', ''privatekey'', ''private_key'', ''private-key'']"

definition assignsAfter :: "string \<Rightarrow> string \<Rightarrow> bool" where
  "assignsAfter w s = (startsWith s w \<and>
     (case dropWhile js_space (drop (length w) s) of
        [] \<Rightarrow> False | c # _ \<Rightarrow> c = CHR '':'' \<or> c = CHR ''=''))"

fun secretMaterial :: "string \<Rightarrow> bool" where
  "secretMaterial [] = False"
| "secretMaterial (c # s) =
     (list_ex (\<lambda>w. assignsAfter w (map ascii_lower (c # s))) secretWords \<or> secretMaterial s)"

definition assertBlobEncryptionMetadata ::
  "encryptionState \<Rightarrow> string option \<Rightarrow> js_error + unit" where
  "assertBlobEncryptionMetadata state keyRef =
     seqR (check (\<not> (state = CustomerManaged \<and> (case keyRef of None \<Rightarrow> True | Some k \<Rightarrow> blank k)))
        (trustInvariantError ''BLOB_ENCRYPTION_METADATA_INVALID''
           ''Customer-managed encryption requires a non-secret key reference.'')) (\<lambda>_.
     check (case keyRef of None \<Rightarrow> True | Some k \<Rightarrow> \<not> secretMaterial k)
        (trustInvariantError ''BLOB_ENCRYPTION_METADATA_INVALID''
           ''Encryption metadata must contain a key reference, not secret material.''))"

definition retentionDaysOk :: "int \<Rightarrow> bool" where
  "retentionDaysOk d = (\<not> (\<not> isSafeInteger d \<or> d < 0 \<or> d > 36500))"

primrec assertRetentionDays :: "(string \<times> int) list \<Rightarrow> js_error + unit" where
  "assertRetentionDays [] = Inr ()"
| "assertRetentionDays (fv # rest) =
     seqR (check (retentionDaysOk (snd fv))
        (trustInvariantError ''RETENTION_POLICY_INVALID''
           (fst fv @ '' must be an integer between 0 and 36500.'')))
       (\<lambda>_. assertRetentionDays rest)"

definition assertRetentionPolicy :: "retentionPolicy \<Rightarrow> js_error + unit" where
  "assertRetentionPolicy p =
     seqR (check (\<not> blank (ret_name p))
        (trustInvariantError ''RETENTION_POLICY_INVALID'' ''Retention policy name is required.'')) (\<lambda>_.
     seqR (assertRetentionDays
        [(''recoveryWindowDays'', ret_recoveryWindowDays p),
         (''minimumHistoryDays'', ret_minimumHistoryDays p),
         (''backupRetentionDays'', ret_backupRetentionDays p)]) (\<lambda>_.
     check (\<not> ret_purgeEnabled p)
        (trustInvariantError ''PURGE_NOT_IMPLEMENTED''
           ''Purge cannot be enabled because no purge executor is implemented.'')))"

definition assertResourceCurrentRevision :: "resource \<Rightarrow> revision \<Rightarrow> js_error + unit" where
  "assertResourceCurrentRevision r v =
     seqR (check (\<not> (res_workspaceId r \<noteq> rev_workspaceId v \<or> res_datasetId r \<noteq> rev_datasetId v))
        (trustInvariantError ''WORKSPACE_MISMATCH''
           ''Resource and revision must share workspace and dataset.'')) (\<lambda>_.
     check (\<not> (res_id r \<noteq> rev_resourceId v \<or> res_currentRevisionId r \<noteq> Some (rev_id v)))
        (trustInvariantError ''INVALID_CURRENT_REVISION''
           ''Current revision must belong to the resource.''))"

definition assertNextRevision :: "resource \<Rightarrow> revision option \<Rightarrow> revision \<Rightarrow> js_error + unit" where
  "assertNextRevision r current proposed =
     seqR (check (\<not> (rev_resourceId proposed \<noteq> res_id r \<or> rev_workspaceId proposed \<noteq> res_workspaceId r
          \<or> rev_datasetId proposed \<noteq> res_datasetId r))
        (trustInvariantError ''WORKSPACE_MISMATCH''
           ''Proposed revision must remain within the resource boundary.'')) (\<lambda>_.
     (case current of
        None \<Rightarrow> check (\<not> (rev_parentRevisionId proposed \<noteq> None \<or> rev_revisionNumber proposed \<noteq> 1))
          (trustInvariantError ''INVALID_REVISION_NUMBER''
             ''First revision must be revision 1 with no parent.'')
      | Some cur \<Rightarrow>
          seqR (check (\<not> (res_currentRevisionId r \<noteq> Some (rev_id cur)))
             (trustInvariantError ''INVALID_CURRENT_REVISION''
                ''Supplied current revision is not the resource head.'')) (\<lambda>_.
          seqR (check (\<not> (rev_parentRevisionId proposed \<noteq> Some (rev_id cur)))
             (trustInvariantError ''BASE_REVISION_CONFLICT''
                ''Proposed revision was based on a stale or different head.'')) (\<lambda>_.
          check (\<not> (rev_revisionNumber proposed \<noteq> rev_revisionNumber cur + 1))
             (trustInvariantError ''INVALID_REVISION_NUMBER''
                ''Revision number must increase by one.'')))))"

section \<open>When the assertions pass\<close>

lemmas assert_pass = seqR_eq_Inr check_eq_Inr

lemma assertRetentionDays_ok: "assertRetentionDays fvs = Inr () \<longleftrightarrow> (\<forall>fv \<in> set fvs. retentionDaysOk (snd fv))"
  by (induction fvs) (auto simp: assert_pass)

lemma retentionDaysOk_iff: "retentionDaysOk d \<longleftrightarrow> 0 \<le> d \<and> d \<le> 36500"
  by (auto simp: retentionDaysOk_def isSafeInteger_def)

text \<open>The link a new revision must have to the head it extends.\<close>

definition follows :: "resource \<Rightarrow> revision option \<Rightarrow> revision \<Rightarrow> bool" where
  "follows r current v \<longleftrightarrow> rev_resourceId v = res_id r \<and> rev_workspaceId v = res_workspaceId r
     \<and> rev_datasetId v = res_datasetId r
     \<and> (case current of
          None \<Rightarrow> rev_parentRevisionId v = None \<and> rev_revisionNumber v = 1
        | Some cur \<Rightarrow> res_currentRevisionId r = Some (rev_id cur) \<and> rev_parentRevisionId v = Some (rev_id cur)
            \<and> rev_revisionNumber v = rev_revisionNumber cur + 1)"

lemma assertNextRevision_passes: "assertNextRevision r current v = Inr () \<longleftrightarrow> follows r current v"
  by (cases current) (auto simp: assertNextRevision_def follows_def assert_pass)

text \<open>
  The retention check accepts exactly the policies with a non-blank name, three day
  counts between 0 and 36500 and purging off: the safe-integer test never rejects a value
  inside the range, and a policy that enables purging is never accepted.
\<close>

theorem assertRetentionPolicy_iff:
  "assertRetentionPolicy p = Inr () \<longleftrightarrow>
     \<not> list_all js_space (ret_name p) \<and> 0 \<le> ret_recoveryWindowDays p \<and> ret_recoveryWindowDays p \<le> 36500
     \<and> 0 \<le> ret_minimumHistoryDays p \<and> ret_minimumHistoryDays p \<le> 36500
     \<and> 0 \<le> ret_backupRetentionDays p \<and> ret_backupRetentionDays p \<le> 36500
     \<and> \<not> ret_purgeEnabled p"
  by (auto simp: assertRetentionPolicy_def assert_pass assertRetentionDays_ok retentionDaysOk_iff blank_iff)

end
