(* ===== verification/AuditChain.thy ===== *)
theory AuditChain
  imports Core
begin

text \<open>
  \<open>packages/audit/src/audit-chain.ts\<close>: audit events linked by SHA-256. The digest of
  \<open>node:crypto\<close> is the parameter \<open>sha\<close>, a function from bytes to the hexadecimal digest.
  The lemmas show that a chain built by appending verifies, and that a verified chain is
  fixed by its last hash unless the digest has a collision at one of its positions.
\<close>

section \<open>Events\<close>

datatype actorType = ActorUser | ActorService | ActorApplication | ActorSystem

definition actorTypeString :: "actorType \<Rightarrow> string" where
  "actorTypeString a = (case a of ActorUser \<Rightarrow> ''user'' | ActorService \<Rightarrow> ''service''
     | ActorApplication \<Rightarrow> ''application'' | ActorSystem \<Rightarrow> ''system'')"

record auditEventBody =
  ev_id :: string
  ev_workspaceId :: string
  ev_actorType :: actorType
  ev_actorId :: string
  ev_action :: string
  ev_subjectKind :: string
  ev_subjectId :: string
  ev_timestamp :: string
  ev_requestId :: string
  ev_correlationId :: string
  ev_metadata :: "(string \<times> json) list"

record chainedAuditEvent = auditEventBody +
  previousEventHash :: string
  eventHash :: string

definition bodyJson :: "auditEventBody \<Rightarrow> json" where
  "bodyJson b = JObj
     [(''id'', JStr (ev_id b)), (''workspaceId'', JStr (ev_workspaceId b)),
      (''actorType'', JStr (actorTypeString (ev_actorType b))), (''actorId'', JStr (ev_actorId b)),
      (''action'', JStr (ev_action b)), (''subjectKind'', JStr (ev_subjectKind b)),
      (''subjectId'', JStr (ev_subjectId b)), (''timestamp'', JStr (ev_timestamp b)),
      (''requestId'', JStr (ev_requestId b)), (''correlationId'', JStr (ev_correlationId b)),
      (''metadata'', JObj (ev_metadata b))]"

section \<open>Operations\<close>

text \<open>The bytes that are hashed: \<open>update(canonicalValue(body)).update(previousEventHash)\<close>.\<close>

definition hashInput :: "auditEventBody \<Rightarrow> string \<Rightarrow> bytes" where
  "hashInput b prev =
     (case canonicalValue (bodyJson b) of None \<Rightarrow> [] | Some t \<Rightarrow> utf8 t) @ utf8 prev"

definition appendAuditEvent ::
  "(bytes \<Rightarrow> string) \<Rightarrow> auditEventBody \<Rightarrow> string \<Rightarrow> chainedAuditEvent" where
  "appendAuditEvent sha b prev =
     auditEventBody.extend b \<lparr>previousEventHash = prev, eventHash = sha (hashInput b prev)\<rparr>"

fun verifyAuditChainFrom :: "(bytes \<Rightarrow> string) \<Rightarrow> string \<Rightarrow> chainedAuditEvent list \<Rightarrow> bool" where
  "verifyAuditChainFrom sha previous [] = True"
| "verifyAuditChainFrom sha previous (event # events) =
     (if previousEventHash event \<noteq> previous then False
      else if eventHash (appendAuditEvent sha (auditEventBody.truncate event) previous) \<noteq> eventHash event
      then False
      else verifyAuditChainFrom sha (eventHash event) events)"

definition verifyAuditChain :: "(bytes \<Rightarrow> string) \<Rightarrow> chainedAuditEvent list \<Rightarrow> bool" where
  "verifyAuditChain sha events = verifyAuditChainFrom sha [] events"

section \<open>Building and extending a chain\<close>

text \<open>The chain a writer makes: each body is appended after the hash of the one before.\<close>

fun appendAll :: "(bytes \<Rightarrow> string) \<Rightarrow> string \<Rightarrow> auditEventBody list \<Rightarrow> chainedAuditEvent list" where
  "appendAll sha prev [] = []"
| "appendAll sha prev (b # bs) =
     (let e = appendAuditEvent sha b prev in e # appendAll sha (eventHash e) bs)"

lemma append_fields [simp]:
  "previousEventHash (appendAuditEvent sha b prev) = prev"
  "eventHash (appendAuditEvent sha b prev) = sha (hashInput b prev)"
  "auditEventBody.truncate (appendAuditEvent sha b prev) = b"
  by (simp_all add: appendAuditEvent_def auditEventBody.defs)

lemma verify_appendAll: "verifyAuditChainFrom sha prev (appendAll sha prev bs)"
  by (induction bs arbitrary: prev) (simp_all add: Let_def)

definition tailHash :: "string \<Rightarrow> chainedAuditEvent list \<Rightarrow> string" where
  "tailHash prev es = (if es = [] then prev else eventHash (last es))"

lemma tailHash_simps [simp]:
  "tailHash prev [] = prev" "tailHash prev (e # es) = tailHash (eventHash e) es"
  by (simp_all add: tailHash_def)

lemma verify_append:
  "verifyAuditChainFrom sha prev (es @ fs) \<longleftrightarrow>
     verifyAuditChainFrom sha prev es \<and> verifyAuditChainFrom sha (tailHash prev es) fs"
  by (induction es arbitrary: prev) simp_all

section \<open>The input of the digest identifies the event\<close>

definition plainMetadata :: "auditEventBody \<Rightarrow> bool" where
  "plainMetadata b \<longleftrightarrow> \<not> hasUndefObj (ev_metadata b)"

text \<open>Two bodies are the same event when they differ at most in the order of metadata keys.\<close>

definition sameBody :: "auditEventBody \<Rightarrow> auditEventBody \<Rightarrow> bool" where
  "sameBody b c \<longleftrightarrow> b\<lparr>ev_metadata := []\<rparr> = c\<lparr>ev_metadata := []\<rparr>
     \<and> normJson (JObj (ev_metadata b)) = normJson (JObj (ev_metadata c))"

lemma actorTypeString_inj: "actorTypeString a = actorTypeString b \<Longrightarrow> a = b"
  by (cases a; cases b) (simp_all add: actorTypeString_def)

lemma bodyJson_norm: "normJson (bodyJson b) = normJson (bodyJson c) \<longleftrightarrow> sameBody b c"
  by (cases b; cases c) (auto simp: bodyJson_def sameBody_def dest: actorTypeString_inj)

lemma hashInput_print:
  "plainMetadata b \<Longrightarrow> hashInput b prev = utf8 (stringify (normJson (bodyJson b)) @ prev)"
  by (subst hashInput_def, subst canonicalValue_eq) (simp_all add: plainMetadata_def bodyJson_def)

lemma hashInput_inj:
  assumes "plainMetadata b" "plainMetadata c" "hashInput b p = hashInput c q"
  shows "sameBody b c \<and> p = q"
proof -
  have eq: "stringify (normJson (bodyJson b)) @ p = stringify (normJson (bodyJson c)) @ q"
    using assms by (auto simp: hashInput_print simp del: utf8_append dest: utf8_inj)
  obtain kb kc where obj: "normJson (bodyJson b) = JObj kb" "normJson (bodyJson c) = JObj kc"
    by (simp add: bodyJson_def)
  have "kb = kc \<and> p = q"
    using eq obj stringify_decodes(1) by (intro brace_append) auto
  then show ?thesis using obj bodyJson_norm [of b c] by simp
qed

section \<open>A verified chain is fixed by its last hash\<close>

text \<open>The digest inputs of a chain, the newest event first.\<close>

definition inputOf :: "chainedAuditEvent \<Rightarrow> bytes" where
  "inputOf e = hashInput (auditEventBody.truncate e) (previousEventHash e)"

definition plainEvents :: "chainedAuditEvent list \<Rightarrow> bool" where
  "plainEvents es \<longleftrightarrow> (\<forall>e \<in> set es. plainMetadata (auditEventBody.truncate e))"

definition sameEvent :: "chainedAuditEvent \<Rightarrow> chainedAuditEvent \<Rightarrow> bool" where
  "sameEvent e f \<longleftrightarrow> sameBody (auditEventBody.truncate e) (auditEventBody.truncate f)
     \<and> previousEventHash e = previousEventHash f \<and> eventHash e = eventHash f"

text \<open>A collision between the k-th newest events: different inputs, the same digest.\<close>

definition collisionAt ::
  "(bytes \<Rightarrow> string) \<Rightarrow> chainedAuditEvent list \<Rightarrow> chainedAuditEvent list \<Rightarrow> nat \<Rightarrow> bool" where
  "collisionAt sha es fs k \<longleftrightarrow> k < length es \<and> k < length fs
     \<and> inputOf (rev es ! k) \<noteq> inputOf (rev fs ! k)
     \<and> sha (inputOf (rev es ! k)) = sha (inputOf (rev fs ! k))"

lemma verify_snoc:
  "verifyAuditChain sha (es @ [e]) \<longleftrightarrow>
     verifyAuditChain sha es \<and> previousEventHash e = tailHash [] es \<and> eventHash e = sha (inputOf e)"
  by (auto simp: verifyAuditChain_def verify_append inputOf_def)

lemma tailHash_snoc [simp]: "tailHash p (es @ [e]) = eventHash e"
  by (simp add: tailHash_def)

lemma chain_nonempty_hash:
  assumes "verifyAuditChain sha es" "\<And>x. sha x \<noteq> []"
  shows "tailHash [] es = [] \<longleftrightarrow> es = []"
proof (cases es rule: rev_cases)
  case (snoc fs f)
  with assms show ?thesis by (auto simp: verify_snoc)
qed simp

lemma chains_agree:
  assumes "\<And>x. sha x \<noteq> []"
  shows "verifyAuditChain sha es \<Longrightarrow> verifyAuditChain sha fs \<Longrightarrow> plainEvents es \<Longrightarrow> plainEvents fs
    \<Longrightarrow> tailHash [] es = tailHash [] fs \<Longrightarrow> (\<exists>k. collisionAt sha es fs k) \<or> list_all2 sameEvent es fs"
proof (induction es arbitrary: fs rule: rev_induct)
  case Nil
  then show ?case using chain_nonempty_hash [OF Nil.prems(2) assms] by simp
next
  case (snoc e es)
  then have "fs \<noteq> []"
    using chain_nonempty_hash [OF snoc.prems(1) assms] chain_nonempty_hash [OF snoc.prems(2) assms] by auto
  then obtain gs f where fs: "fs = gs @ [f]" by (meson rev_exhaust)
  have hashes: "sha (inputOf e) = sha (inputOf f)" and eh: "eventHash e = eventHash f"
    using snoc.prems fs by (simp_all add: verify_snoc)
  show ?case
  proof (cases "inputOf e = inputOf f")
    case False
    with hashes fs have "collisionAt sha (es @ [e]) fs 0" by (simp add: collisionAt_def)
    then show ?thesis by blast
  next
    case True
    have "plainMetadata (auditEventBody.truncate e)" "plainMetadata (auditEventBody.truncate f)"
      using snoc.prems fs by (simp_all add: plainEvents_def)
    with True eh have same: "sameEvent e f"
      using hashInput_inj unfolding sameEvent_def inputOf_def by blast
    then have "tailHash [] es = tailHash [] gs"
      using snoc.prems fs by (simp add: verify_snoc sameEvent_def)
    then have "(\<exists>k. collisionAt sha es gs k) \<or> list_all2 sameEvent es gs"
      using snoc.prems fs by (intro snoc.IH) (simp_all add: verify_snoc plainEvents_def)
    moreover have "collisionAt sha (es @ [e]) fs (Suc k)" if "collisionAt sha es gs k" for k
      using that fs by (simp add: collisionAt_def)
    ultimately show ?thesis
      using same fs by (auto intro: list_all2_appendI)
  qed
qed

section \<open>Properties\<close>

text \<open>
  Appending any sequence of event bodies, each after the hash of the one before, gives a
  chain that verifies, whatever the digest function is; and the chain carries exactly those
  bodies in that order.
\<close>

theorem audit_append_verifies:
  "verifyAuditChain sha (appendAll sha [] bs)
     \<and> map auditEventBody.truncate (appendAll sha [] bs) = bs"
proof -
  have "map auditEventBody.truncate (appendAll sha p bs) = bs" for p
    by (induction bs arbitrary: p) (simp_all add: Let_def)
  then show ?thesis by (simp add: verifyAuditChain_def verify_appendAll)
qed


definition wBody :: "string \<Rightarrow> auditEventBody" where
  "wBody i = \<lparr>ev_id = i, ev_workspaceId = ''w'', ev_actorType = ActorUser, ev_actorId = ''u'',
     ev_action = ''read'', ev_subjectKind = ''blob'', ev_subjectId = ''s'', ev_timestamp = ''t'',
     ev_requestId = ''r'', ev_correlationId = ''c'', ev_metadata = [(''n'', JNum 1)]\<rparr>"

definition wSha :: "bytes \<Rightarrow> string" where
  "wSha bs = CHR ''h'' # bs"

lemma wSha_nonempty: "wSha x \<noteq> []"
  by (simp add: wSha_def)


end
