(* ===== verification/Policy.thy ===== *)
theory Policy
  imports Prelude
begin

text \<open>
  \<open>packages/policy/src/index.ts\<close>: the authorisation decision. Actions, roles and
  capabilities are strings, as the code compares them. \<open>Date.parse\<close>, which ECMAScript
  leaves to the implementation outside its own format, is the parameter \<open>dp\<close> (\<open>None\<close> is
  \<open>NaN\<close>), and the default time of a decision, \<open>new Date().toISOString()\<close>, is the
  parameter \<open>nowIso\<close>.
\<close>

section \<open>Actions and roles\<close>

definition policyActions :: "string list" where
  "policyActions = [
     ''workspace:read'', ''workspace:manage'', ''control:read'', ''dataset:read'', ''dataset:write'',
     ''dataset:manage'', ''resource:read'', ''revision:create'', ''resource:delete'', ''resource:restore'',
     ''blob:read'', ''object:ingest'', ''relation:read'', ''relation:write'', ''history:read'',
     ''audit:read'', ''verification:run'', ''retention:manage'', ''purge:execute'', ''access:manage'',
     ''break_glass:grant'', ''break_glass:revoke'', ''break_glass:use'', ''health:read'',
     ''storage:probe_ingest'', ''storage:manage'', ''operation:process'', ''portability:read'',
     ''portability:export'', ''portability:plan'', ''portability:execute'']"

datatype principalType = PrincipalUser | PrincipalService | PrincipalApplication

datatype scopeKind = ScopeWorkspace | ScopeDataset | ScopeApplication

datatype actionBoundaryKind = BoundaryContent | BoundaryInfrastructure | BoundarySecurity

record policyPrincipal =
  pr_id :: string
  pr_type :: principalType
  pr_roles :: "string list option"
  pr_workspaceIds :: "string list option"

record policyScope =
  sc_workspaceId :: string
  sc_datasetId :: "string option"
  sc_applicationId :: "string option"

record scopedPolicyAssignment =
  as_id :: string
  as_workspaceId :: string
  as_principalType :: principalType
  as_principalId :: string
  as_role :: string
  as_scopeKind :: scopeKind
  as_scopeId :: string
  as_revokedAt :: "string option"

datatype applicationStatus = AppActive | AppSuspended | AppRevoked

record registeredApplication =
  app_id :: string
  app_workspaceId :: string
  app_namespace :: string
  app_capabilities :: "string list"
  app_status :: applicationStatus

record activeBreakGlassGrant =
  gr_id :: string
  gr_workspaceId :: string
  gr_principalId :: string
  gr_reason :: string
  gr_actions :: "string list"
  gr_grantedAt :: string
  gr_expiresAt :: string
  gr_revokedAt :: "string option"

record policyEvaluationInput =
  in_principal :: policyPrincipal
  in_action :: string
  in_scope :: policyScope
  in_assignments :: "scopedPolicyAssignment list option"
  in_applications :: "registeredApplication list option"
  in_breakGlassGrants :: "activeBreakGlassGrant list option"
  in_at :: "string option"

datatype denialReason =
    UnknownAction | UnregisteredApplication | ApplicationCapabilityDenied | NoMatchingAssignment

datatype policyDecision =
    AllowedByRole string
  | AllowedByBreakGlass string string
  | Denied denialReason

definition breakGlassEligibleActions :: "string list" where
  "breakGlassEligibleActions =
     [''dataset:read'', ''resource:read'', ''resource:restore'', ''blob:read'', ''history:read'']"

definition adminActions :: "string list" where
  "adminActions = [
     ''workspace:read'', ''workspace:manage'', ''control:read'', ''dataset:read'', ''dataset:write'',
     ''dataset:manage'', ''resource:read'', ''revision:create'', ''resource:delete'', ''resource:restore'',
     ''blob:read'', ''object:ingest'', ''relation:read'', ''relation:write'', ''history:read'',
     ''audit:read'', ''verification:run'', ''retention:manage'', ''purge:execute'', ''access:manage'',
     ''break_glass:grant'', ''break_glass:revoke'', ''health:read'', ''storage:probe_ingest'',
     ''storage:manage'', ''portability:read'', ''portability:export'', ''portability:plan'',
     ''portability:execute'']"

definition editorActions :: "string list" where
  "editorActions = [
     ''dataset:read'', ''dataset:write'', ''resource:read'', ''revision:create'', ''blob:read'',
     ''object:ingest'', ''relation:read'', ''relation:write'']"

definition recoveryOperatorActions :: "string list" where
  "recoveryOperatorActions = [
     ''dataset:read'', ''resource:read'', ''resource:restore'', ''history:read'', ''portability:read'',
     ''portability:plan'', ''portability:execute'']"

definition auditorActions :: "string list" where
  "auditorActions = [
     ''workspace:read'', ''control:read'', ''dataset:read'', ''resource:read'', ''blob:read'',
     ''relation:read'', ''history:read'', ''audit:read'', ''verification:run'', ''health:read'',
     ''portability:read'']"

definition infrastructureOperatorActions :: "string list" where
  "infrastructureOperatorActions = [
     ''workspace:read'', ''control:read'', ''audit:read'', ''verification:run'', ''health:read'',
     ''portability:read'']"

definition roleCapabilities :: "(string \<times> string list) list" where
  "roleCapabilities = [
     (''owner'', filter (\<lambda>a. a \<noteq> ''operation:process'') policyActions),
     (''admin'', adminActions),
     (''editor'', editorActions),
     (''recovery_operator'', recoveryOperatorActions),
     (''auditor'', auditorActions),
     (''worker'', [''health:read'', ''operation:process'']),
     (''infrastructure_operator'', infrastructureOperatorActions)]"

definition isPolicyAction :: "string \<Rightarrow> bool" where
  "isPolicyAction v = (v \<in> set policyActions)"

definition isBreakGlassEligibleAction :: "string \<Rightarrow> bool" where
  "isBreakGlassEligibleAction v = (isPolicyAction v \<and> v \<in> set breakGlassEligibleActions)"

definition contentActions :: "string list" where
  "contentActions = [
     ''dataset:read'', ''dataset:write'', ''dataset:manage'', ''resource:read'', ''revision:create'',
     ''resource:delete'', ''resource:restore'', ''blob:read'', ''object:ingest'', ''relation:read'',
     ''relation:write'', ''history:read'', ''retention:manage'', ''purge:execute'']"

definition infrastructureActions :: "string list" where
  "infrastructureActions = [
     ''workspace:read'', ''control:read'', ''audit:read'', ''verification:run'', ''health:read'',
     ''storage:probe_ingest'', ''storage:manage'', ''operation:process'', ''portability:read'']"

definition securityActions :: "string list" where
  "securityActions = [
     ''workspace:manage'', ''access:manage'', ''break_glass:grant'', ''break_glass:revoke'',
     ''break_glass:use'', ''portability:plan'', ''portability:export'', ''portability:execute'']"

definition assertNever :: "string \<Rightarrow> js_error" where
  "assertNever v = plainError (''Unhandled policy value: '' @ v)"

definition actionBoundary :: "string \<Rightarrow> js_error + actionBoundaryKind" where
  "actionBoundary action =
     (if action \<in> set contentActions then Inr BoundaryContent
      else if action \<in> set infrastructureActions then Inr BoundaryInfrastructure
      else if action \<in> set securityActions then Inr BoundarySecurity
      else Inl (assertNever action))"

definition isPolicyRole :: "string \<Rightarrow> bool" where
  "isPolicyRole v = (v = ''owner'' \<or> v = ''admin'' \<or> v = ''editor'' \<or> v = ''recovery_operator''
     \<or> v = ''auditor'' \<or> v = ''worker'' \<or> v = ''infrastructure_operator'')"

definition capabilitiesForRole :: "string \<Rightarrow> string list" where
  "capabilitiesForRole role =
     (if isPolicyRole role then (case map_of roleCapabilities role of None \<Rightarrow> [] | Some as \<Rightarrow> as) else [])"

section \<open>The decision\<close>

text \<open>A string property is truthy when it is present and not empty.\<close>

definition truthy :: "string option \<Rightarrow> bool" where
  "truthy v = (v \<noteq> None \<and> v \<noteq> Some [])"

definition listOr :: "'a list option \<Rightarrow> 'a list" where
  "listOr xs = (case xs of None \<Rightarrow> [] | Some ys \<Rightarrow> ys)"

definition assignmentMatches :: "scopedPolicyAssignment \<Rightarrow> policyEvaluationInput \<Rightarrow> bool" where
  "assignmentMatches a inp =
     (if truthy (as_revokedAt a) \<or> as_workspaceId a \<noteq> sc_workspaceId (in_scope inp)
         \<or> as_principalType a \<noteq> pr_type (in_principal inp) \<or> as_principalId a \<noteq> pr_id (in_principal inp)
      then False
      else (case as_scopeKind a of
          ScopeWorkspace \<Rightarrow> as_scopeId a = sc_workspaceId (in_scope inp)
        | ScopeDataset \<Rightarrow> sc_datasetId (in_scope inp) = Some (as_scopeId a)
        | ScopeApplication \<Rightarrow> sc_applicationId (in_scope inp) = Some (as_scopeId a)))"

definition claimedRoleAssignments :: "policyEvaluationInput \<Rightarrow> scopedPolicyAssignment list" where
  "claimedRoleAssignments inp =
     (if sc_workspaceId (in_scope inp) \<notin> set (listOr (pr_workspaceIds (in_principal inp))) then []
      else map (\<lambda>(index, role).
          \<lparr>as_id = ''identity-claim:'' @ show_nat index @ '':'' @ role,
           as_workspaceId = sc_workspaceId (in_scope inp), as_principalType = pr_type (in_principal inp),
           as_principalId = pr_id (in_principal inp), as_role = role, as_scopeKind = ScopeWorkspace,
           as_scopeId = sc_workspaceId (in_scope inp), as_revokedAt = None\<rparr>)
        (enumerate 0 (listOr (pr_roles (in_principal inp)))))"

definition applicationMatches :: "policyEvaluationInput \<Rightarrow> registeredApplication \<Rightarrow> bool" where
  "applicationMatches inp a =
     (app_workspaceId a = sc_workspaceId (in_scope inp) \<and> app_status a = AppActive
      \<and> (app_id a = pr_id (in_principal inp) \<or> app_namespace a = pr_id (in_principal inp)))"

definition registeredApplication :: "policyEvaluationInput \<Rightarrow> registeredApplication option" where
  "registeredApplication inp = List.find (applicationMatches inp) (listOr (in_applications inp))"

text \<open>Comparison of parsed dates: false when either side is \<open>NaN\<close>.\<close>

definition dateLe :: "int option \<Rightarrow> int option \<Rightarrow> bool" where
  "dateLe a b = (case (a, b) of (Some x, Some y) \<Rightarrow> x \<le> y | _ \<Rightarrow> False)"

definition dateLess :: "int option \<Rightarrow> int option \<Rightarrow> bool" where
  "dateLess a b = (case (a, b) of (Some x, Some y) \<Rightarrow> x < y | _ \<Rightarrow> False)"

definition grantMatches ::
  "(string \<Rightarrow> int option) \<Rightarrow> int option \<Rightarrow> policyEvaluationInput \<Rightarrow> activeBreakGlassGrant \<Rightarrow> bool" where
  "grantMatches dp at inp g =
     (gr_workspaceId g = sc_workspaceId (in_scope inp) \<and> gr_principalId g = pr_id (in_principal inp)
      \<and> \<not> truthy (gr_revokedAt g) \<and> length (trim (gr_reason g)) > 0
      \<and> in_action inp \<in> set (gr_actions g)
      \<and> dateLe (dp (gr_grantedAt g)) at \<and> dateLess at (dp (gr_expiresAt g)))"

definition activeBreakGlassGrant ::
  "(string \<Rightarrow> int option) \<Rightarrow> string \<Rightarrow> policyEvaluationInput \<Rightarrow> activeBreakGlassGrant option" where
  "activeBreakGlassGrant dp nowIso inp =
     (if \<not> isBreakGlassEligibleAction (in_action inp) then None
      else (let at = dp (case in_at inp of None \<Rightarrow> nowIso | Some t \<Rightarrow> t) in
        List.find (grantMatches dp at inp) (listOr (in_breakGlassGrants inp))))"

fun firstCapableAssignment ::
  "policyEvaluationInput \<Rightarrow> scopedPolicyAssignment list \<Rightarrow> scopedPolicyAssignment option" where
  "firstCapableAssignment inp [] = None"
| "firstCapableAssignment inp (a # as) =
     (if \<not> assignmentMatches a inp then firstCapableAssignment inp as
      else if in_action inp \<in> set (capabilitiesForRole (as_role a)) then Some a
      else firstCapableAssignment inp as)"

definition applicationRefusal :: "policyEvaluationInput \<Rightarrow> denialReason option" where
  "applicationRefusal inp =
     (if pr_type (in_principal inp) = PrincipalApplication then
        (case registeredApplication inp of
           None \<Rightarrow> Some UnregisteredApplication
         | Some application \<Rightarrow>
             if \<not> list_ex (\<lambda>action. action = in_action inp) (app_capabilities application)
             then Some ApplicationCapabilityDenied else None)
      else None)"

definition evaluatePolicy ::
  "(string \<Rightarrow> int option) \<Rightarrow> string \<Rightarrow> policyEvaluationInput \<Rightarrow> policyDecision" where
  "evaluatePolicy dp nowIso inp =
     (case applicationRefusal inp of
        Some reason \<Rightarrow> Denied reason
      | None \<Rightarrow>
          (case firstCapableAssignment inp (listOr (in_assignments inp) @ claimedRoleAssignments inp) of
             Some a \<Rightarrow> AllowedByRole (as_id a)
           | None \<Rightarrow>
               (case activeBreakGlassGrant dp nowIso inp of
                  Some g \<Rightarrow> AllowedByBreakGlass (gr_id g) (gr_reason g)
                | None \<Rightarrow> Denied NoMatchingAssignment)))"

primrec isAllowed :: "policyDecision \<Rightarrow> bool" where
  "isAllowed (AllowedByRole _) = True"
| "isAllowed (AllowedByBreakGlass _ _) = True"
| "isAllowed (Denied _) = False"

section \<open>Lemmas\<close>

lemma firstCapable_find:
  "firstCapableAssignment inp as = List.find (\<lambda>a. assignmentMatches a inp
     \<and> in_action inp \<in> set (capabilitiesForRole (as_role a))) as"
  by (induction as) auto

lemma assignmentMatches_workspace:
  "assignmentMatches a inp \<Longrightarrow> as_workspaceId a = sc_workspaceId (in_scope inp)"
  by (simp add: assignmentMatches_def split: if_splits)

section \<open>The contract of the decision\<close>

text \<open>
  What a principal needs, stated over the records of the input and not over the routines that
  search them. A timestamp property counts as unset when it is absent or empty.
\<close>

definition unset :: "string option \<Rightarrow> bool" where
  "unset v \<longleftrightarrow> v = None \<or> v = Some []"

text \<open>An unrevoked assignment of this workspace and principal covers the requested scope.\<close>

definition assignmentApplies :: "policyEvaluationInput \<Rightarrow> scopedPolicyAssignment \<Rightarrow> bool" where
  "assignmentApplies inp a \<longleftrightarrow>
     unset (as_revokedAt a)
     \<and> as_workspaceId a = sc_workspaceId (in_scope inp)
     \<and> (as_principalType a, as_principalId a) = (pr_type (in_principal inp), pr_id (in_principal inp))
     \<and> ((as_scopeKind a, as_scopeId a) = (ScopeWorkspace, sc_workspaceId (in_scope inp))
        \<or> as_scopeKind a = ScopeDataset \<and> Some (as_scopeId a) = sc_datasetId (in_scope inp)
        \<or> as_scopeKind a = ScopeApplication \<and> Some (as_scopeId a) = sc_applicationId (in_scope inp))"

definition holdsRole :: "policyEvaluationInput \<Rightarrow> bool" where
  "holdsRole inp \<longleftrightarrow>
     (\<exists>a \<in> set (listOr (in_assignments inp)). assignmentApplies inp a
        \<and> in_action inp \<in> set (capabilitiesForRole (as_role a)))
     \<or> (sc_workspaceId (in_scope inp) \<in> set (listOr (pr_workspaceIds (in_principal inp)))
        \<and> (\<exists>role \<in> set (listOr (pr_roles (in_principal inp))).
             in_action inp \<in> set (capabilitiesForRole role)))"

text \<open>An unrevoked, justified grant whose half-open period contains the time of the decision.\<close>

definition holdsBreakGlass :: "(string \<Rightarrow> int option) \<Rightarrow> string \<Rightarrow> policyEvaluationInput \<Rightarrow> bool" where
  "holdsBreakGlass dp nowIso inp \<longleftrightarrow>
     in_action inp \<in> {''dataset:read'', ''resource:read'', ''resource:restore'', ''blob:read'', ''history:read''}
     \<and> (\<exists>g \<in> set (listOr (in_breakGlassGrants inp)). \<exists>granted at expires.
          gr_workspaceId g = sc_workspaceId (in_scope inp) \<and> gr_principalId g = pr_id (in_principal inp)
          \<and> unset (gr_revokedAt g) \<and> trim (gr_reason g) \<noteq> [] \<and> in_action inp \<in> set (gr_actions g)
          \<and> dp (gr_grantedAt g) = Some granted \<and> dp (gr_expiresAt g) = Some expires
          \<and> dp (case in_at inp of None \<Rightarrow> nowIso | Some t \<Rightarrow> t) = Some at
          \<and> granted \<le> at \<and> at < expires)"

text \<open>
  An application principal acts under the first active registration of its id or namespace in
  the workspace.
\<close>

definition registers :: "policyEvaluationInput \<Rightarrow> registeredApplication \<Rightarrow> bool" where
  "registers inp a \<longleftrightarrow> app_workspaceId a = sc_workspaceId (in_scope inp) \<and> app_status a = AppActive
     \<and> pr_id (in_principal inp) \<in> {app_id a, app_namespace a}"

definition applicationAdmits :: "policyEvaluationInput \<Rightarrow> bool" where
  "applicationAdmits inp \<longleftrightarrow> pr_type (in_principal inp) = PrincipalApplication \<longrightarrow>
     (\<exists>earlier a later. listOr (in_applications inp) = earlier @ a # later
        \<and> (\<forall>b \<in> set earlier. \<not> registers inp b) \<and> registers inp a
        \<and> in_action inp \<in> set (app_capabilities a))"

lemma assignmentApplies_iff: "assignmentMatches a inp \<longleftrightarrow> assignmentApplies inp a"
  by (cases "as_scopeKind a") (auto simp: assignmentMatches_def assignmentApplies_def truthy_def unset_def)

lemma grantMatches_iff:
  "grantMatches dp at inp g \<longleftrightarrow>
     (\<exists>granted t expires. gr_workspaceId g = sc_workspaceId (in_scope inp)
        \<and> gr_principalId g = pr_id (in_principal inp) \<and> unset (gr_revokedAt g)
        \<and> trim (gr_reason g) \<noteq> [] \<and> in_action inp \<in> set (gr_actions g)
        \<and> dp (gr_grantedAt g) = Some granted \<and> dp (gr_expiresAt g) = Some expires \<and> at = Some t
        \<and> granted \<le> t \<and> t < expires)"
  by (auto simp: grantMatches_def dateLe_def dateLess_def truthy_def unset_def split: option.splits)

lemma registers_iff: "applicationMatches inp a \<longleftrightarrow> registers inp a"
  by (auto simp: applicationMatches_def registers_def)

lemma registered_first:
  "registeredApplication inp = Some a \<longleftrightarrow>
     (\<exists>earlier later. listOr (in_applications inp) = earlier @ a # later
        \<and> (\<forall>b \<in> set earlier. \<not> registers inp b) \<and> registers inp a)"
  by (simp add: registeredApplication_def find_first registers_iff)

lemma eligible_are_actions: "set breakGlassEligibleActions \<subseteq> set policyActions"
  by (simp add: breakGlassEligibleActions_def policyActions_def)

lemma claimed_capable:
  "(\<exists>a \<in> set (claimedRoleAssignments inp). assignmentMatches a inp
      \<and> in_action inp \<in> set (capabilitiesForRole (as_role a)))
   \<longleftrightarrow> sc_workspaceId (in_scope inp) \<in> set (listOr (pr_workspaceIds (in_principal inp)))
      \<and> (\<exists>role \<in> set (listOr (pr_roles (in_principal inp))). in_action inp \<in> set (capabilitiesForRole role))"
proof -
  let ?roles = "listOr (pr_roles (in_principal inp))"
  have mem: "(\<exists>p \<in> set (enumerate 0 ?roles). P (snd p)) \<longleftrightarrow> (\<exists>r \<in> set ?roles. P r)" for P
    by (metis (no_types, lifting) image_iff list.set_map map_snd_enumerate)
  show ?thesis
    using mem [of "\<lambda>r. in_action inp \<in> set (capabilitiesForRole r)"]
    by (auto simp: claimedRoleAssignments_def assignmentMatches_def truthy_def case_prod_beta)
qed

lemma allowed_by_role:
  "firstCapableAssignment inp (listOr (in_assignments inp) @ claimedRoleAssignments inp) \<noteq> None
     \<longleftrightarrow> holdsRole inp"
  unfolding firstCapable_find find_not_None holdsRole_def claimed_capable [symmetric]
  by (auto simp: assignmentApplies_iff)

lemma allowed_by_grant: "activeBreakGlassGrant dp nowIso inp \<noteq> None \<longleftrightarrow> holdsBreakGlass dp nowIso inp"
proof -
  have "isBreakGlassEligibleAction (in_action inp) \<longleftrightarrow>
      in_action inp \<in> {''dataset:read'', ''resource:read'', ''resource:restore'', ''blob:read'', ''history:read''}"
    using eligible_are_actions
    by (auto simp: isBreakGlassEligibleAction_def isPolicyAction_def breakGlassEligibleActions_def)
  then show ?thesis
    by (simp add: activeBreakGlassGrant_def holdsBreakGlass_def Let_def find_ex grantMatches_iff)
qed

text \<open>
  C5. The decision procedure implements its declarative contract: a request is allowed exactly
  when the principal, if it is an application, is registered and active in the workspace with
  the action among its capabilities, and either some matching unrevoked assignment or claimed
  role carries the action, or an unrevoked, justified, unexpired break-glass grant names an
  eligible action.
\<close>

theorem evaluatePolicy_contract:
  "isAllowed (evaluatePolicy dp nowIso inp) \<longleftrightarrow>
     applicationAdmits inp \<and> (holdsRole inp \<or> holdsBreakGlass dp nowIso inp)"
proof -
  have "applicationAdmits inp \<longleftrightarrow> pr_type (in_principal inp) = PrincipalApplication \<longrightarrow>
      (\<exists>a. registeredApplication inp = Some a \<and> in_action inp \<in> set (app_capabilities a))"
    unfolding applicationAdmits_def registered_first by blast
  then have "applicationRefusal inp = None \<longleftrightarrow> applicationAdmits inp"
    by (auto simp: applicationRefusal_def list_ex_iff split: option.splits)
  then show ?thesis
    unfolding allowed_by_role [symmetric] allowed_by_grant [symmetric]
    by (auto simp: evaluatePolicy_def split: option.splits)
qed

definition onlyWorkspace :: "policyEvaluationInput \<Rightarrow> policyEvaluationInput" where
  "onlyWorkspace inp = inp\<lparr>
     in_assignments := Some (filter (\<lambda>a. as_workspaceId a = sc_workspaceId (in_scope inp)) (listOr (in_assignments inp))),
     in_applications := Some (filter (\<lambda>a. app_workspaceId a = sc_workspaceId (in_scope inp)) (listOr (in_applications inp))),
     in_breakGlassGrants := Some (filter (\<lambda>g. gr_workspaceId g = sc_workspaceId (in_scope inp)) (listOr (in_breakGlassGrants inp)))\<rparr>"

lemma onlyWorkspace_simps [simp]:
  "in_principal (onlyWorkspace inp) = in_principal inp" "in_action (onlyWorkspace inp) = in_action inp"
  "in_scope (onlyWorkspace inp) = in_scope inp" "in_at (onlyWorkspace inp) = in_at inp"
  "listOr (in_assignments (onlyWorkspace inp))
     = filter (\<lambda>a. as_workspaceId a = sc_workspaceId (in_scope inp)) (listOr (in_assignments inp))"
  "listOr (in_applications (onlyWorkspace inp))
     = filter (\<lambda>a. app_workspaceId a = sc_workspaceId (in_scope inp)) (listOr (in_applications inp))"
  "listOr (in_breakGlassGrants (onlyWorkspace inp))
     = filter (\<lambda>g. gr_workspaceId g = sc_workspaceId (in_scope inp)) (listOr (in_breakGlassGrants inp))"
  by (simp_all add: onlyWorkspace_def listOr_def)

lemma matches_onlyWorkspace [simp]:
  "assignmentMatches a (onlyWorkspace inp) = assignmentMatches a inp"
  "applicationMatches (onlyWorkspace inp) = applicationMatches inp"
  "grantMatches dp at (onlyWorkspace inp) = grantMatches dp at inp"
  "claimedRoleAssignments (onlyWorkspace inp) = claimedRoleAssignments inp"
  by (simp_all add: assignmentMatches_def applicationMatches_def grantMatches_def
      claimedRoleAssignments_def fun_eq_iff cong: scopeKind.case_cong)

lemma firstCapable_onlyWorkspace:
  "firstCapableAssignment (onlyWorkspace inp)
     (listOr (in_assignments (onlyWorkspace inp)) @ claimedRoleAssignments (onlyWorkspace inp))
   = firstCapableAssignment inp (listOr (in_assignments inp) @ claimedRoleAssignments inp)"
proof -
  let ?P = "\<lambda>a. assignmentMatches a inp \<and> in_action inp \<in> set (capabilitiesForRole (as_role a))"
  have "List.find ?P (filter (\<lambda>a. as_workspaceId a = sc_workspaceId (in_scope inp)) as) = List.find ?P as" for as
    by (rule find_filter_implied) (blast dest: assignmentMatches_workspace)
  then show ?thesis
    unfolding firstCapable_find find_append by (simp only: onlyWorkspace_simps matches_onlyWorkspace)
qed

text \<open>
  Workspace isolation: the whole decision, including which assignment or grant is named,
  is a function of the assignments, applications and grants of the requested workspace.
  Records of other workspaces cannot influence it.
\<close>

theorem evaluatePolicy_workspace_isolation:
  "evaluatePolicy dp nowIso (onlyWorkspace inp) = evaluatePolicy dp nowIso inp"
proof -
  have "registeredApplication (onlyWorkspace inp) = registeredApplication inp"
    unfolding registeredApplication_def onlyWorkspace_simps matches_onlyWorkspace
    by (rule find_filter_implied) (simp add: applicationMatches_def)
  moreover have "activeBreakGlassGrant dp nowIso (onlyWorkspace inp) = activeBreakGlassGrant dp nowIso inp"
    unfolding activeBreakGlassGrant_def onlyWorkspace_simps matches_onlyWorkspace Let_def
    by (subst find_filter_implied) (simp_all add: grantMatches_def)
  ultimately show ?thesis
    unfolding evaluatePolicy_def applicationRefusal_def firstCapable_onlyWorkspace
    by (simp only: onlyWorkspace_simps)
qed

section \<open>Separation of duties\<close>

lemma boundary_partition:
  "set policyActions = set contentActions \<union> set infrastructureActions \<union> set securityActions"
proof
  have "list_all (\<lambda>a. a \<in> set contentActions \<or> a \<in> set infrastructureActions \<or> a \<in> set securityActions)
      policyActions"
    by (simp add: policyActions_def contentActions_def infrastructureActions_def securityActions_def)
  then show "set policyActions \<subseteq> set contentActions \<union> set infrastructureActions \<union> set securityActions"
    by (auto simp: list_all_iff)
  have "list_all (\<lambda>a. a \<in> set policyActions) (contentActions @ infrastructureActions @ securityActions)"
    by (simp add: policyActions_def contentActions_def infrastructureActions_def securityActions_def)
  then show "set contentActions \<union> set infrastructureActions \<union> set securityActions \<subseteq> set policyActions"
    by (auto simp: list_all_iff)
qed

lemma capabilitiesForRole_simps:
  "capabilitiesForRole ''owner'' = filter (\<lambda>a. a \<noteq> ''operation:process'') policyActions"
  "capabilitiesForRole ''admin'' = adminActions"
  "capabilitiesForRole ''editor'' = editorActions"
  "capabilitiesForRole ''recovery_operator'' = recoveryOperatorActions"
  "capabilitiesForRole ''auditor'' = auditorActions"
  "capabilitiesForRole ''worker'' = [''health:read'', ''operation:process'']"
  "capabilitiesForRole ''infrastructure_operator'' = infrastructureOperatorActions"
  by (simp_all add: capabilitiesForRole_def isPolicyRole_def roleCapabilities_def)

lemmas role_table = isPolicyRole_def adminActions_def editorActions_def recoveryOperatorActions_def
  auditorActions_def infrastructureOperatorActions_def policyActions_def

text \<open>A property of every role's capabilities is checked role by role.\<close>

lemma capabilities_cases:
  assumes "P ''owner'' (filter (\<lambda>a. a \<noteq> ''operation:process'') policyActions)"
    and "P ''admin'' adminActions" and "P ''editor'' editorActions"
    and "P ''recovery_operator'' recoveryOperatorActions" and "P ''auditor'' auditorActions"
    and "P ''worker'' [''health:read'', ''operation:process'']"
    and "P ''infrastructure_operator'' infrastructureOperatorActions"
    and "\<And>r. \<not> isPolicyRole r \<Longrightarrow> P r []"
  shows "P r (capabilitiesForRole r)"
proof (cases "isPolicyRole r")
  case True
  then show ?thesis
    unfolding isPolicyRole_def
    by (elim disjE) (simp_all only: capabilitiesForRole_simps assms(1-7))
next
  case False
  then show ?thesis using assms(8) by (simp add: capabilitiesForRole_def)
qed

text \<open>
  Separation of duties in the role table: every action has a boundary and no other string
  has one; no role but the worker may process operations and only the owner may use break-glass
  access; the worker and infrastructure roles carry no content and no security action; an
  unknown role carries nothing; and break-glass access reaches content actions only, none of
  which writes revisions, deletes, or ingests.
\<close>

theorem policy_separation_of_duties:
  "(\<exists>b. actionBoundary a = Inr b) = isPolicyAction a
   \<and> (''operation:process'' \<in> set (capabilitiesForRole r)) = (r = ''worker'')
   \<and> (''break_glass:use'' \<in> set (capabilitiesForRole r)) = (r = ''owner'')
   \<and> list_all (\<lambda>c. actionBoundary c = Inr BoundaryInfrastructure)
       (capabilitiesForRole ''worker'' @ capabilitiesForRole ''infrastructure_operator'')
   \<and> (capabilitiesForRole r \<noteq> []) = isPolicyRole r
   \<and> list_all (\<lambda>c. actionBoundary c = Inr BoundaryContent
         \<and> c \<notin> {''revision:create'', ''resource:delete'', ''object:ingest'', ''dataset:write'',
                 ''relation:write'', ''purge:execute''}) breakGlassEligibleActions"
proof (intro conjI)
  show "(\<exists>b. actionBoundary a = Inr b) = isPolicyAction a"
    using boundary_partition by (auto simp: actionBoundary_def isPolicyAction_def)
  show "(''operation:process'' \<in> set (capabilitiesForRole r)) = (r = ''worker'')"
    by (rule capabilities_cases) (simp_all add: role_table)
  show "(''break_glass:use'' \<in> set (capabilitiesForRole r)) = (r = ''owner'')"
    by (rule capabilities_cases) (simp_all add: role_table)
  show "(capabilitiesForRole r \<noteq> []) = isPolicyRole r"
    by (rule capabilities_cases) (simp_all add: role_table)
  show "list_all (\<lambda>c. actionBoundary c = Inr BoundaryInfrastructure)
       (capabilitiesForRole ''worker'' @ capabilitiesForRole ''infrastructure_operator'')"
    by (simp add: capabilitiesForRole_simps role_table actionBoundary_def contentActions_def infrastructureActions_def)
  show "list_all (\<lambda>c. actionBoundary c = Inr BoundaryContent
         \<and> c \<notin> {''revision:create'', ''resource:delete'', ''object:ingest'', ''dataset:write'',
                 ''relation:write'', ''purge:execute''}) breakGlassEligibleActions"
    by (simp add: breakGlassEligibleActions_def actionBoundary_def contentActions_def)
qed

end
