(* ===== verification/StorageKeys.thy ===== *)
theory StorageKeys
  imports Prelude
begin

text \<open>
  The vocabulary of object storage: \<open>packages/storage/src/keys.ts\<close> (the layout of object
  keys), \<open>errors.ts\<close> (the storage error and the redaction of its message) and \<open>types.ts\<close>
  (locators, metadata, multipart sessions and the \<open>ObjectStorage\<close> interface as a record of
  operations over a state of any type).
\<close>

section \<open>Object keys\<close>

definition canonicalObjectKey :: "string \<Rightarrow> string \<Rightarrow> js_error + string" where
  "canonicalObjectKey workspaceId sha256 =
     (if \<not> safeId workspaceId then Inl (plainError ''Unsafe workspace identifier'')
      else if \<not> isSha256 sha256 then Inl (plainError ''Invalid SHA-256'')
      else Inr (''workspaces/'' @ workspaceId @ ''/objects/'' @ take 2 sha256 @ ''/'' @ sha256))"

definition temporaryObjectKey :: "string \<Rightarrow> string \<Rightarrow> js_error + string" where
  "temporaryObjectKey workspaceId operationId =
     (if \<not> safeId workspaceId \<or> \<not> safeId operationId then Inl (plainError ''Unsafe identifier'')
      else Inr (''workspaces/'' @ workspaceId @ ''/temporary/'' @ operationId))"

definition assertSafeAppTenantIds :: "string \<Rightarrow> string \<Rightarrow> string \<Rightarrow> js_error + unit" where
  "assertSafeAppTenantIds workspaceId applicationId tenantKey =
     check (safeId workspaceId \<and> safeId applicationId \<and> safeId tenantKey)
       (plainError ''Unsafe identifier'')"

definition canonicalAppTenantPoolObjectKey ::
  "string \<Rightarrow> string \<Rightarrow> string \<Rightarrow> string \<Rightarrow> js_error + string" where
  "canonicalAppTenantPoolObjectKey workspaceId applicationId tenantKey sha256 =
     seqR (assertSafeAppTenantIds workspaceId applicationId tenantKey) (\<lambda>_.
       if \<not> isSha256 sha256 then Inl (plainError ''Invalid SHA-256'')
       else Inr (''workspaces/'' @ workspaceId @ ''/apps/'' @ applicationId @ ''/tenants/'' @ tenantKey
         @ ''/objects/'' @ take 2 sha256 @ ''/'' @ sha256))"

definition canonicalAppTenantSiloObjectKey :: "string \<Rightarrow> string \<Rightarrow> string \<Rightarrow> js_error + string" where
  "canonicalAppTenantSiloObjectKey applicationId tenantKey sha256 =
     (if \<not> safeId applicationId \<or> \<not> safeId tenantKey then Inl (plainError ''Unsafe identifier'')
      else if \<not> isSha256 sha256 then Inl (plainError ''Invalid SHA-256'')
      else Inr (''apps/'' @ applicationId @ ''/tenants/'' @ tenantKey
         @ ''/objects/'' @ take 2 sha256 @ ''/'' @ sha256))"

text \<open>The pattern of a temporary key, read segment by segment.\<close>

definition isTemporaryKey :: "string \<Rightarrow> bool" where
  "isTemporaryKey key =
     (case split_on CHR ''/'' key of
        [a, b, c, d] \<Rightarrow> a = ''workspaces'' \<and> safeId b \<and> c = ''temporary'' \<and> safeId d
      | _ \<Rightarrow> False)"

section \<open>Storage errors\<close>

text \<open>A case-insensitive literal of a regular expression, given in lower case.\<close>

definition prefixCI :: "string \<Rightarrow> string \<Rightarrow> bool" where
  "prefixCI p s = (map ascii_lower (take (length p) s) = p)"

text \<open>
  \<open>String.prototype.replace\<close> with a global pattern. A matcher looks at the text from the
  current position; on a match it gives the replacement and the number of characters
  consumed after the first one.
\<close>

type_synonym matcher = "string \<Rightarrow> (string \<times> nat) option"

function replaceAll :: "matcher \<Rightarrow> string \<Rightarrow> string" where
  "replaceAll m [] = []"
| "replaceAll m (c # s) =
     (case m (c # s) of
        None \<Rightarrow> c # replaceAll m s
      | Some (r, k) \<Rightarrow> r @ replaceAll m (drop k s))"
  by pat_completeness auto

termination
  by (relation "measure (length \<circ> snd)") auto

definition valueChar :: "char \<Rightarrow> bool" where
  "valueChar c = (c \<noteq> CHR ''&'' \<and> \<not> js_space c)"

definition urlMatch :: matcher where
  "urlMatch s =
     (let scheme = (if prefixCI ''https://'' s then 8 else if prefixCI ''http://'' s then 7 else 0);
          run = takeWhile (\<lambda>c. \<not> js_space c) (drop scheme s) in
      if scheme = 0 \<or> run = [] then None
      else Some (''[redacted-url]'', scheme + length run - 1))"

definition amzNameChar :: "char \<Rightarrow> bool" where
  "amzNameChar c = (safe_char c \<and> c \<noteq> CHR ''_'')"

definition amzMatch :: matcher where
  "amzMatch s =
     (if \<not> prefixCI ''x-amz-'' s then None
      else (let name = takeWhile amzNameChar (drop 6 s); k = 6 + length name in
        case drop k s of
          [] \<Rightarrow> None
        | e # rest \<Rightarrow>
            (let run = takeWhile valueChar rest in
             if name = [] \<or> e \<noteq> CHR ''='' \<or> run = [] then None
             else Some (take (k + 1) s @ ''[redacted]'', k + length run))))"

definition secretMatch :: matcher where
  "secretMatch s =
     (case List.find (\<lambda>w. prefixCI (w @ ''='') s)
        [''credential'', ''secret'', ''password'', ''sessiontoken'', ''signature''] of
        None \<Rightarrow> None
      | Some w \<Rightarrow>
          (let run = takeWhile valueChar (drop (length w + 1) s) in
           if run = [] then None
           else Some (take (length w) s @ ''=[redacted]'', length w + length run)))"

definition redactSensitive :: "string \<Rightarrow> string" where
  "redactSensitive message = replaceAll secretMatch (replaceAll amzMatch (replaceAll urlMatch message))"

datatype storageErrorCode =
  NotFound | AccessDenied | Conflict | InvalidRequest | Throttled | Transient | Permanent

primrec storageErrorCode_text :: "storageErrorCode \<Rightarrow> string" where
  "storageErrorCode_text NotFound = ''not_found''"
| "storageErrorCode_text AccessDenied = ''access_denied''"
| "storageErrorCode_text Conflict = ''conflict''"
| "storageErrorCode_text InvalidRequest = ''invalid_request''"
| "storageErrorCode_text Throttled = ''throttled''"
| "storageErrorCode_text Transient = ''transient''"
| "storageErrorCode_text Permanent = ''permanent''"

definition storageError :: "storageErrorCode \<Rightarrow> string \<Rightarrow> js_error" where
  "storageError code msg =
     JsError ''StorageError'' (Some (storageErrorCode_text code)) (redactSensitive msg)"

definition isStorageError :: "js_error \<Rightarrow> bool" where
  "isStorageError e = (err_name e = ''StorageError'')"

section \<open>Types of the interface\<close>

record temporaryObject =
  to_key :: string
  to_expiresAt :: string

record objectMetadata =
  om_key :: string
  om_byteLength :: int
  om_mediaType :: string
  om_sha256 :: "string option"

record storedObject = objectMetadata +
  so_etag :: "string option"

record byteRange =
  br_start :: int
  br_end :: int

record multipartUploadedPart =
  pt_partNumber :: int
  pt_etag :: string
  pt_size :: int

datatype multipartStatus = MpInitiated | MpUploading | MpCompleted | MpAborted

record multipartUploadSession =
  mp_uploadId :: string
  mp_providerUploadRef :: string
  mp_locator :: string
  mp_mediaType :: string
  mp_partSize :: int
  mp_expectedByteLength :: "int option"
  mp_expectedSha256 :: "string option"
  mp_status :: multipartStatus
  mp_parts :: "multipartUploadedPart list"
  mp_createdAt :: string
  mp_expiresAt :: string

definition minPartSize :: int where "minPartSize = 5 * 1024 * 1024"
definition maxPartSize :: int where "maxPartSize = 5 * 1024 * 1024 * 1024"
definition maxParts :: int where "maxParts = 10000"

text \<open>
  The \<open>ObjectStorage\<close> interface as a record of operations. A \<open>Readable\<close> is the list of the
  chunks it delivers.
\<close>

type_synonym readable = "bytes list"

definition readAll :: "readable \<Rightarrow> bytes" where
  "readAll stream = concat stream"

record 's objectStorage =
  os_createTemporaryUpload :: "string \<Rightarrow> string \<Rightarrow> ('s, temporaryObject) js"
  os_writeTemporary :: "string \<Rightarrow> readable \<Rightarrow> string \<Rightarrow> ('s, objectMetadata) js"
  os_commitImmutable :: "string \<Rightarrow> string \<Rightarrow> string \<Rightarrow> int \<Rightarrow> string \<Rightarrow> ('s, storedObject) js"
  os_openReadStream :: "string \<Rightarrow> byteRange option \<Rightarrow> ('s, readable) js"
  os_head :: "string \<Rightarrow> ('s, objectMetadata) js"
  os_exists :: "string \<Rightarrow> ('s, bool) js"
  os_deleteTemporary :: "string \<Rightarrow> ('s, unit) js"

section \<open>Lemmas on keys\<close>

text \<open>The addresses a key can stand for, and the key of each.\<close>

datatype objectAddress =
    CanonicalAddress string string
  | TemporaryAddress string string
  | PoolAddress string string string string
  | SiloAddress string string string

primrec keyOf :: "objectAddress \<Rightarrow> js_error + string" where
  "keyOf (CanonicalAddress w h) = canonicalObjectKey w h"
| "keyOf (TemporaryAddress w q) = temporaryObjectKey w q"
| "keyOf (PoolAddress w a t h) = canonicalAppTenantPoolObjectKey w a t h"
| "keyOf (SiloAddress a t h) = canonicalAppTenantSiloObjectKey a t h"

primrec segments :: "objectAddress \<Rightarrow> string list" where
  "segments (CanonicalAddress w h) = [''workspaces'', w, ''objects'', take 2 h, h]"
| "segments (TemporaryAddress w q) = [''workspaces'', w, ''temporary'', q]"
| "segments (PoolAddress w a t h) =
     [''workspaces'', w, ''apps'', a, ''tenants'', t, ''objects'', take 2 h, h]"
| "segments (SiloAddress a t h) = [''apps'', a, ''tenants'', t, ''objects'', take 2 h, h]"

lemma take_no_slash: "isSha256 h \<Longrightarrow> CHR ''/'' \<notin> set (take n h)"
  by (meson in_set_takeD isSha256_no_slash)

lemmas key_defs = canonicalObjectKey_def temporaryObjectKey_def canonicalAppTenantPoolObjectKey_def
  canonicalAppTenantSiloObjectKey_def assertSafeAppTenantIds_def

lemma keyOf_segments:
  assumes "keyOf x = Inr k"
  shows "split_on CHR ''/'' k = segments x"
proof -
  have "k = join ''/'' (segments x)"
    using assms by (cases x) (auto simp: key_defs seqR_eq_Inr check_eq_Inr split: if_splits)
  moreover have "CHR ''/'' \<notin> set w" if "w \<in> set (segments x)" for w
    using assms that
    by (cases x) (auto simp: key_defs seqR_eq_Inr check_eq_Inr
        dest: safeId_no_slash isSha256_no_slash take_no_slash split: if_splits)
  moreover have "segments x \<noteq> []" by (cases x) simp_all
  ultimately show ?thesis by (simp add: split_on_join)
qed

lemma segments_inj: "segments x = segments y \<Longrightarrow> x = y"
  by (cases x; cases y) simp_all

lemma temporary_key_ok: "temporaryObjectKey w q = Inr k \<Longrightarrow> isTemporaryKey k"
  using keyOf_segments [of "TemporaryAddress w q" k]
  by (auto simp: isTemporaryKey_def temporaryObjectKey_def split: if_splits)

lemma canonical_key_not_temporary: "canonicalObjectKey w h = Inr k \<Longrightarrow> \<not> isTemporaryKey k"
  using keyOf_segments [of "CanonicalAddress w h" k] by (simp add: isTemporaryKey_def)

lemma canonicalObjectKey_inj:
  "canonicalObjectKey w h = Inr k \<Longrightarrow> canonicalObjectKey w' h' = Inr k \<Longrightarrow> w = w' \<and> h = h'"
  using keyOf_segments [of "CanonicalAddress w h" k] keyOf_segments [of "CanonicalAddress w' h'" k]
  by simp

text \<open>
  C35. The key layout is unambiguous: two addresses, each canonical, temporary, pooled
  application-tenant or customer-bucket silo, that have the same key are the same address.
  So no tenant, workspace or operation can name the object of another.
\<close>

theorem object_keys_injective:
  assumes "keyOf x = Inr k" and "keyOf y = Inr k"
  shows "x = y"
  using keyOf_segments [OF assms(1)] keyOf_segments [OF assms(2)] by (simp add: segments_inj)

theorem object_keys_injective_witness:
  "{y. keyOf y = Inr ''workspaces/w1/temporary/op-1''} = {TemporaryAddress ''w1'' ''op-1''}"
proof -
  have ok: "keyOf (TemporaryAddress ''w1'' ''op-1'') = Inr ''workspaces/w1/temporary/op-1''"
    by (simp add: temporaryObjectKey_def safeId_def safe_char_def)
  then show ?thesis using object_keys_injective [OF ok] by auto
qed

end
