(* ===== verification/MemoryStorage.thy ===== *)
theory MemoryStorage
  imports StorageKeys
begin

text \<open>
  The in-process object storage \<open>packages/storage/src/memory-object-storage.ts\<close>, and the
  contract every object storage owes its clients (\<open>packages/storage/src/contract.ts\<close>) as
  the locale \<open>object_storage\<close>, interpreted on it.

  The hash function is a parameter: \<open>sha\<close> stands for \<open>createHash("sha256")\<close> and \<open>md5\<close> for
  \<open>createHash("md5")\<close>, both as lower-case hexadecimal text. The wall clock and the random
  bytes of a new multipart session are arguments.
\<close>

section \<open>State\<close>

record storedBytes =
  sb_body :: bytes
  sb_mediaType :: string
  sb_sha256 :: string

record memoryMultipartSession =
  mm_session :: multipartUploadSession
  mm_partBodies :: "int \<rightharpoonup> bytes"

record memoryObjectStorage =
  ms_objects :: "string \<rightharpoonup> storedBytes"
  ms_multipart :: "string \<rightharpoonup> memoryMultipartSession"
  ms_relaxMultipartLimits :: bool

definition emptyMemoryStorage :: "bool option \<Rightarrow> memoryObjectStorage" where
  "emptyMemoryStorage relax = \<lparr>ms_objects = Map.empty, ms_multipart = Map.empty,
     ms_relaxMultipartLimits = (case relax of None \<Rightarrow> False | Some b \<Rightarrow> b)\<rparr>"

section \<open>Assertions\<close>

definition assertTemporaryKey :: "string \<Rightarrow> js_error + unit" where
  "assertTemporaryKey key =
     check (isTemporaryKey key) (storageError InvalidRequest ''Refusing to operate on a non-temporary object'')"

definition assertByteLength :: "int \<Rightarrow> js_error + unit" where
  "assertByteLength byteLength =
     check (isSafeInteger byteLength \<and> byteLength \<ge> 0)
       (storageError InvalidRequest ''Invalid object byte length'')"

definition assertMediaType :: "string \<Rightarrow> js_error + unit" where
  "assertMediaType mediaType =
     check (length (trim mediaType) \<noteq> 0) (storageError InvalidRequest ''Invalid object media type'')"

definition assertPartSize :: "int \<Rightarrow> bool \<Rightarrow> js_error + unit" where
  "assertPartSize partSize relax =
     (let least = (if relax then 1 else minPartSize) in
      check (isSafeInteger partSize \<and> partSize \<ge> least \<and> partSize \<le> maxPartSize)
        (storageError InvalidRequest ''Multipart part size is outside provider limits''))"

definition assertPartNumber :: "int \<Rightarrow> js_error + unit" where
  "assertPartNumber partNumber =
     check (isSafeInteger partNumber \<and> partNumber \<ge> 1 \<and> partNumber \<le> maxParts)
       (storageError InvalidRequest ''Invalid multipart part number'')"

section \<open>Objects\<close>

definition metadataOf :: "string \<Rightarrow> storedBytes \<Rightarrow> objectMetadata" where
  "metadataOf key b = \<lparr>om_key = key, om_byteLength = int (length (sb_body b)),
     om_mediaType = sb_mediaType b, om_sha256 = Some (sb_sha256 b)\<rparr>"

definition storedObjectOf :: "string \<Rightarrow> storedBytes \<Rightarrow> storedObject" where
  "storedObjectOf key b = \<lparr>om_key = key, om_byteLength = int (length (sb_body b)),
     om_mediaType = sb_mediaType b, om_sha256 = Some (sb_sha256 b), so_etag = None\<rparr>"

definition setObject :: "string \<Rightarrow> storedBytes \<Rightarrow> (memoryObjectStorage, unit) js" where
  "setObject key b = updating (\<lambda>s. s\<lparr>ms_objects := (ms_objects s)(key \<mapsto> b)\<rparr>)"

definition deleteObject :: "string \<Rightarrow> (memoryObjectStorage, unit) js" where
  "deleteObject key = updating (\<lambda>s. s\<lparr>ms_objects := (ms_objects s)(key := None)\<rparr>)"

definition requireObject :: "string \<Rightarrow> (memoryObjectStorage, storedBytes) js" where
  "requireObject key =
     andThen (reading (\<lambda>s. ms_objects s key)) (\<lambda>obj.
       case obj of
         None \<Rightarrow> throw (storageError NotFound (''Object was not found: '' @ key))
       | Some b \<Rightarrow> ret b)"

definition createTemporaryUpload ::
  "string \<Rightarrow> string \<Rightarrow> string \<Rightarrow> (memoryObjectStorage, temporaryObject) js" where
  "createTemporaryUpload dayLater workspaceId operationId =
     andThen (lifting (temporaryObjectKey workspaceId operationId)) (\<lambda>key.
       ret \<lparr>to_key = key, to_expiresAt = dayLater\<rparr>)"

definition writeTemporary ::
  "(bytes \<Rightarrow> string) \<Rightarrow> string \<Rightarrow> readable \<Rightarrow> string \<Rightarrow> (memoryObjectStorage, objectMetadata) js" where
  "writeTemporary sha key stream mediaType =
     andThen (lifting (assertTemporaryKey key)) (\<lambda>_.
     andThen (lifting (assertMediaType mediaType)) (\<lambda>_.
       let body = readAll stream;
           stored = \<lparr>sb_body = body, sb_mediaType = mediaType, sb_sha256 = sha body\<rparr> in
       andThen (setObject key stored) (\<lambda>_. ret (metadataOf key stored))))"

definition commitImmutable ::
  "string \<Rightarrow> string \<Rightarrow> string \<Rightarrow> int \<Rightarrow> string \<Rightarrow> (memoryObjectStorage, storedObject) js" where
  "commitImmutable temporaryKey workspaceId sha256 byteLength mediaType =
     andThen (lifting (assertTemporaryKey temporaryKey)) (\<lambda>_.
     andThen (lifting (assertByteLength byteLength)) (\<lambda>_.
     andThen (lifting (assertMediaType mediaType)) (\<lambda>_.
     andThen (lifting (canonicalObjectKey workspaceId sha256)) (\<lambda>key.
     andThen (reading (\<lambda>s. ms_objects s temporaryKey)) (\<lambda>temporary.
     andThen (reading (\<lambda>s. ms_objects s key)) (\<lambda>existing.
       case temporary of
         None \<Rightarrow>
           (case existing of
              Some b \<Rightarrow>
                if sb_sha256 b = sha256 \<and> int (length (sb_body b)) = byteLength
                then ret (storedObjectOf key b)
                else throw (storageError NotFound ''Temporary object was not found for immutable commit'')
            | None \<Rightarrow>
                throw (storageError NotFound ''Temporary object was not found for immutable commit''))
       | Some t \<Rightarrow>
           if sb_sha256 t \<noteq> sha256 \<or> int (length (sb_body t)) \<noteq> byteLength \<or> sb_mediaType t \<noteq> mediaType
           then throw (storageError InvalidRequest
                  ''Temporary object does not match the immutable commit declaration'')
           else
             (case existing of
                Some b \<Rightarrow>
                  if sb_sha256 b \<noteq> sha256 \<or> int (length (sb_body b)) \<noteq> byteLength
                  then throw (storageError Conflict
                         ''Canonical object conflicts with the immutable commit declaration'')
                  else andThen (deleteObject temporaryKey) (\<lambda>_. ret (storedObjectOf key b))
              | None \<Rightarrow>
                  andThen (setObject key t) (\<lambda>_.
                  andThen (deleteObject temporaryKey) (\<lambda>_. ret (storedObjectOf key t))))))))))"

definition openReadStream ::
  "string \<Rightarrow> byteRange option \<Rightarrow> (memoryObjectStorage, readable) js" where
  "openReadStream key rng =
     andThen (requireObject key) (\<lambda>obj.
       case rng of
         None \<Rightarrow> ret [sb_body obj]
       | Some r \<Rightarrow>
           let start = br_start r; stop = br_end r in
           if \<not> isSafeInteger start \<or> \<not> isSafeInteger stop \<or> start < 0 \<or> stop < start
              \<or> stop \<ge> int (length (sb_body obj))
           then throw (storageError InvalidRequest ''Invalid byte range'')
           else ret [take (nat (stop + 1 - start)) (drop (nat start) (sb_body obj))])"

definition headObject :: "string \<Rightarrow> (memoryObjectStorage, objectMetadata) js" where
  "headObject key = andThen (requireObject key) (\<lambda>obj. ret (metadataOf key obj))"

definition existsObject :: "string \<Rightarrow> (memoryObjectStorage, bool) js" where
  "existsObject key = reading (\<lambda>s. ms_objects s key \<noteq> None)"

definition deleteTemporary :: "string \<Rightarrow> (memoryObjectStorage, unit) js" where
  "deleteTemporary key =
     andThen (lifting (assertTemporaryKey key)) (\<lambda>_. deleteObject key)"

definition memoryStorageOps :: "(bytes \<Rightarrow> string) \<Rightarrow> string \<Rightarrow> memoryObjectStorage objectStorage" where
  "memoryStorageOps sha dayLater = \<lparr>
     os_createTemporaryUpload = createTemporaryUpload dayLater,
     os_writeTemporary = writeTemporary sha,
     os_commitImmutable = commitImmutable,
     os_openReadStream = openReadStream,
     os_head = headObject,
     os_exists = existsObject,
     os_deleteTemporary = deleteTemporary\<rparr>"

section \<open>Multipart uploads\<close>

definition requireMultipart ::
  "string \<Rightarrow> string \<Rightarrow> string \<Rightarrow> (memoryObjectStorage, memoryMultipartSession) js" where
  "requireMultipart uploadId key ref =
     andThen (reading (\<lambda>s. ms_multipart s uploadId)) (\<lambda>state.
       case state of
         None \<Rightarrow> throw (storageError NotFound ''Multipart upload was not found'')
       | Some m \<Rightarrow>
           if mp_locator (mm_session m) \<noteq> key \<or> mp_providerUploadRef (mm_session m) \<noteq> ref
           then throw (storageError Conflict ''Multipart upload reference mismatch'')
           else ret m)"

definition setMultipart :: "string \<Rightarrow> memoryMultipartSession \<Rightarrow> (memoryObjectStorage, unit) js" where
  "setMultipart uploadId m = updating (\<lambda>s. s\<lparr>ms_multipart := (ms_multipart s)(uploadId \<mapsto> m)\<rparr>)"

definition initiateMultipartUpload ::
  "string \<Rightarrow> string \<Rightarrow> string \<Rightarrow> string \<Rightarrow> string \<Rightarrow> string \<Rightarrow> int \<Rightarrow> int option \<Rightarrow> string option
     \<Rightarrow> string option \<Rightarrow> (memoryObjectStorage, multipartUploadSession) js" where
  "initiateMultipartUpload randomHex nowIso dayLater uploadId key mediaType partSize
       expectedByteLength expectedSha256 expiresAt =
     andThen (lifting (assertTemporaryKey key)) (\<lambda>_.
     andThen (lifting (assertMediaType mediaType)) (\<lambda>_.
     andThen (reading ms_relaxMultipartLimits) (\<lambda>relax.
     andThen (lifting (assertPartSize partSize relax)) (\<lambda>_.
     andThen (reading (\<lambda>s. ms_multipart s uploadId)) (\<lambda>existing.
       case existing of
         Some m \<Rightarrow>
           if mp_locator (mm_session m) \<noteq> key \<or> mp_mediaType (mm_session m) \<noteq> mediaType
              \<or> mp_partSize (mm_session m) \<noteq> partSize
           then throw (storageError Conflict ''Multipart upload id already bound to a different plan'')
           else ret (mm_session m)
       | None \<Rightarrow>
           let session = \<lparr>mp_uploadId = uploadId, mp_providerUploadRef = ''memory-'' @ randomHex,
                 mp_locator = key, mp_mediaType = mediaType, mp_partSize = partSize,
                 mp_expectedByteLength = expectedByteLength, mp_expectedSha256 = expectedSha256,
                 mp_status = MpInitiated, mp_parts = [], mp_createdAt = nowIso,
                 mp_expiresAt = (case expiresAt of None \<Rightarrow> dayLater | Some t \<Rightarrow> t)\<rparr> in
           andThen (setMultipart uploadId \<lparr>mm_session = session, mm_partBodies = Map.empty\<rparr>)
             (\<lambda>_. ret session))))))"

definition listMultipartParts ::
  "string \<Rightarrow> string \<Rightarrow> string \<Rightarrow> (memoryObjectStorage, multipartUploadedPart list) js" where
  "listMultipartParts uploadId key ref =
     andThen (requireMultipart uploadId key ref) (\<lambda>m. ret (mp_parts (mm_session m)))"

definition quoted :: "string \<Rightarrow> string" where
  "quoted s = CHR 0x22 # s @ [CHR 0x22]"

primrec multipartStatus_text :: "multipartStatus \<Rightarrow> string" where
  "multipartStatus_text MpInitiated = ''initiated''"
| "multipartStatus_text MpUploading = ''uploading''"
| "multipartStatus_text MpCompleted = ''completed''"
| "multipartStatus_text MpAborted = ''aborted''"

definition uploadMultipartPart ::
  "(bytes \<Rightarrow> string) \<Rightarrow> string \<Rightarrow> string \<Rightarrow> string \<Rightarrow> int \<Rightarrow> readable \<Rightarrow> int
     \<Rightarrow> (memoryObjectStorage, multipartUploadedPart) js" where
  "uploadMultipartPart md5 uploadId key ref partNumber stream declaredSize =
     andThen (requireMultipart uploadId key ref) (\<lambda>m.
       let session = mm_session m in
       if mp_status session = MpAborted \<or> mp_status session = MpCompleted
       then throw (storageError InvalidRequest
              (''Cannot upload parts for '' @ multipartStatus_text (mp_status session) @ '' multipart upload''))
       else
         andThen (lifting (assertPartNumber partNumber)) (\<lambda>_.
           let body = readAll stream; byteLength = int (length body) in
           if byteLength \<noteq> declaredSize
           then throw (storageError InvalidRequest ''Multipart part size does not match declared size'')
           else if byteLength > maxPartSize
           then throw (storageError InvalidRequest ''Multipart part exceeds max size'')
           else
             let etag = quoted (md5 body) in
             (case List.find (\<lambda>p. pt_partNumber p = partNumber) (mp_parts session) of
                Some existing \<Rightarrow>
                  if pt_etag existing \<noteq> etag \<or> pt_size existing \<noteq> byteLength
                  then throw (storageError Conflict ''Duplicate multipart part number with inconsistent checksum'')
                  else ret existing
              | None \<Rightarrow>
                  let part = \<lparr>pt_partNumber = partNumber, pt_etag = etag, pt_size = byteLength\<rparr> in
                  andThen (setMultipart uploadId \<lparr>
                      mm_session = session\<lparr>mp_status := MpUploading,
                        mp_parts := sort_key pt_partNumber (mp_parts session @ [part])\<rparr>,
                      mm_partBodies = (mm_partBodies m)(partNumber \<mapsto> body)\<rparr>)
                    (\<lambda>_. ret part))))"

definition partMatches ::
  "(int \<rightharpoonup> multipartUploadedPart) \<Rightarrow> multipartUploadedPart \<Rightarrow> bool" where
  "partMatches byNumber part =
     (case byNumber (pt_partNumber part) of
        None \<Rightarrow> False
      | Some match \<Rightarrow> pt_etag match = pt_etag part \<and> pt_size match = pt_size part)"

definition reconcileParts ::
  "multipartUploadedPart list \<Rightarrow> multipartUploadedPart list \<Rightarrow> js_error + unit" where
  "reconcileParts recorded declared =
     (if length recorded \<noteq> length declared
      then Inl (storageError InvalidRequest ''Multipart part list does not match recorded parts'')
      else
        let byNumber = map_of (rev (map (\<lambda>p. (pt_partNumber p, p)) recorded)) in
        if \<not> list_all (partMatches byNumber) declared
        then Inl (storageError InvalidRequest ''Multipart part list is inconsistent with recorded parts'')
        else
          let numbers = sort (map pt_partNumber declared) in
          check (list_all (\<lambda>(index, n). n = int index + 1) (enumerate 0 numbers))
            (storageError InvalidRequest ''Multipart parts must be a contiguous sequence starting at 1''))"

fun collectBodies ::
  "(int \<rightharpoonup> bytes) \<Rightarrow> multipartUploadedPart list \<Rightarrow> js_error + bytes list" where
  "collectBodies bodies [] = Inr []"
| "collectBodies bodies (p # ps) =
     (case bodies (pt_partNumber p) of
        None \<Rightarrow> Inl (storageError InvalidRequest (''Missing multipart part '' @ show_int (pt_partNumber p)))
      | Some b \<Rightarrow> seqR (collectBodies bodies ps) (\<lambda>bs. Inr (b # bs)))"

definition completeMultipartUpload ::
  "(bytes \<Rightarrow> string) \<Rightarrow> string \<Rightarrow> string \<Rightarrow> string \<Rightarrow> multipartUploadedPart list \<Rightarrow> int \<Rightarrow> string
     \<Rightarrow> (memoryObjectStorage, objectMetadata) js" where
  "completeMultipartUpload sha uploadId key ref parts expectedByteLength expectedSha256 =
     andThen (requireMultipart uploadId key ref) (\<lambda>m.
       let session = mm_session m in
       if mp_status session = MpAborted
       then throw (storageError InvalidRequest ''Cannot complete an aborted multipart upload'')
       else if mp_status session = MpCompleted then
         andThen (requireObject key) (\<lambda>obj.
           if sb_sha256 obj \<noteq> expectedSha256 \<or> int (length (sb_body obj)) \<noteq> expectedByteLength
           then throw (storageError Conflict ''Completed multipart object does not match declaration'')
           else ret (metadataOf key obj))
       else
         andThen (lifting (reconcileParts (mp_parts session) parts)) (\<lambda>_.
           let ordered = sort_key pt_partNumber parts in
           andThen (lifting (collectBodies (mm_partBodies m) ordered)) (\<lambda>buffers.
             let assembled = concat buffers;
                 stored = \<lparr>sb_body = assembled, sb_mediaType = mp_mediaType session, sb_sha256 = sha assembled\<rparr> in
             if int (length assembled) \<noteq> expectedByteLength \<or> sha assembled \<noteq> expectedSha256
             then throw (storageError InvalidRequest ''Multipart assembly does not match expected size or checksum'')
             else
               andThen (setObject key stored) (\<lambda>_.
               andThen (setMultipart uploadId
                   (m\<lparr>mm_session := session\<lparr>mp_status := MpCompleted, mp_parts := ordered\<rparr>\<rparr>))
                 (\<lambda>_. ret (metadataOf key stored))))))"

definition abortMultipartUpload ::
  "string \<Rightarrow> string \<Rightarrow> string \<Rightarrow> (memoryObjectStorage, unit) js" where
  "abortMultipartUpload uploadId key ref =
     andThen (reading (\<lambda>s. ms_multipart s uploadId)) (\<lambda>existing.
       case existing of
         None \<Rightarrow> ret ()
       | Some m \<Rightarrow>
           if mp_locator (mm_session m) \<noteq> key \<or> mp_providerUploadRef (mm_session m) \<noteq> ref
           then throw (storageError Conflict ''Multipart abort target mismatch'')
           else setMultipart uploadId \<lparr>
                  mm_session = (mm_session m)\<lparr>mp_status := MpAborted, mp_parts := []\<rparr>,
                  mm_partBodies = Map.empty\<rparr>)"

section \<open>The contract of an object storage\<close>

text \<open>
  Content addressing: every stored object carries the hash of its bytes, and under a
  canonical key stand only bytes whose hash is the one in the key.
\<close>

definition addressOk :: "(bytes \<Rightarrow> string) \<Rightarrow> string \<Rightarrow> storedBytes \<Rightarrow> bool" where
  "addressOk sha k b \<longleftrightarrow> sb_sha256 b = sha (sb_body b)
     \<and> (\<forall>w h. canonicalObjectKey w h = Inr k \<longrightarrow> sb_sha256 b = h)"

definition contentAddressed :: "(bytes \<Rightarrow> string) \<Rightarrow> (string \<rightharpoonup> storedBytes) \<Rightarrow> bool" where
  "contentAddressed sha objs \<longleftrightarrow> (\<forall>k b. objs k = Some b \<longrightarrow> addressOk sha k b)"

text \<open>Whatever stands under a key that is not temporary stays there unchanged.\<close>

definition keepsCanonical :: "(string \<rightharpoonup> storedBytes) \<Rightarrow> (string \<rightharpoonup> storedBytes) \<Rightarrow> bool" where
  "keepsCanonical objs objs' \<longleftrightarrow>
     (\<forall>k b. \<not> isTemporaryKey k \<longrightarrow> objs k = Some b \<longrightarrow> objs' k = Some b)"

lemma keepsCanonical_refl [simp]: "keepsCanonical m m"
  by (simp add: keepsCanonical_def)

lemma keepsCanonical_trans: "keepsCanonical m n \<Longrightarrow> keepsCanonical n p \<Longrightarrow> keepsCanonical m p"
  by (simp add: keepsCanonical_def)

lemma keepsCanonical_temporary [simp]: "isTemporaryKey k \<Longrightarrow> keepsCanonical m (m(k := v))"
  by (auto simp: keepsCanonical_def)

lemma addressOk_temporary: "isTemporaryKey k \<Longrightarrow> addressOk sha k b \<longleftrightarrow> sb_sha256 b = sha (sb_body b)"
  by (auto simp: addressOk_def dest: canonical_key_not_temporary)

lemma addressOk_canonical:
  "canonicalObjectKey w h = Inr k \<Longrightarrow> addressOk sha k b \<longleftrightarrow> sb_sha256 b = sha (sb_body b) \<and> sb_sha256 b = h"
  by (auto simp: addressOk_def dest: canonicalObjectKey_inj)

lemma addressOk_hash: "addressOk sha k b \<Longrightarrow> sb_sha256 b = sha (sb_body b)"
  by (simp add: addressOk_def)

lemma contentAddressed_temporary:
  "isTemporaryKey k \<Longrightarrow> contentAddressed sha m \<Longrightarrow> sb_sha256 b = sha (sb_body b) \<Longrightarrow>
     contentAddressed sha (m(k \<mapsto> b))"
  by (simp add: contentAddressed_def addressOk_temporary)

lemma contentAddressed_delete: "contentAddressed sha m \<Longrightarrow> contentAddressed sha (m(k := None))"
  by (simp add: contentAddressed_def)

lemma contentAddressed_canonical:
  "contentAddressed sha m \<Longrightarrow> canonicalObjectKey w h = Inr key \<Longrightarrow> m k = Some b \<Longrightarrow> sb_sha256 b = h \<Longrightarrow>
     contentAddressed sha (m(key \<mapsto> b))"
  by (auto simp: contentAddressed_def addressOk_canonical dest: addressOk_hash)

text \<open>What a successful commit leaves: the object under its canonical key, and only there.\<close>

definition committed ::
  "string \<Rightarrow> string \<Rightarrow> string \<Rightarrow> int \<Rightarrow> (string \<rightharpoonup> storedBytes) \<Rightarrow> (string \<rightharpoonup> storedBytes) \<Rightarrow> storedObject \<Rightarrow> bool" where
  "committed tmp w h n objs objs' so \<longleftrightarrow>
     (\<exists>key b. canonicalObjectKey w h = Inr key \<and> (objs key = Some b \<or> objs key = None \<and> objs tmp = Some b)
        \<and> sb_sha256 b = h \<and> int (length (sb_body b)) = n
        \<and> objs' = objs(key \<mapsto> b, tmp := None) \<and> so = storedObjectOf key b)"

text \<open>
  The contract, for a storage with operations \<open>ops\<close> on states of type \<open>'s\<close> whose contents
  \<open>objs\<close> reads.
\<close>

locale object_storage =
  fixes sha :: "bytes \<Rightarrow> string"
    and ops :: "'s objectStorage"
    and objs :: "'s \<Rightarrow> string \<rightharpoonup> storedBytes"
  assumes create_spec: "os_createTemporaryUpload ops w q s = (r, t) \<Longrightarrow>
      objs t = objs s \<and> (\<forall>x. r = Inr x \<longrightarrow> temporaryObjectKey w q = Inr (to_key x))"
    and write_ok: "os_writeTemporary ops k body m s = (Inr meta, t) \<Longrightarrow>
      isTemporaryKey k \<and> (\<exists>b. b = \<lparr>sb_body = readAll body, sb_mediaType = m, sb_sha256 = sha (readAll body)\<rparr>
        \<and> objs t = (objs s)(k \<mapsto> b) \<and> meta = metadataOf k b)"
    and write_err: "os_writeTemporary ops k body m s = (Inl e, t) \<Longrightarrow> objs t = objs s"
    and commit_ok: "os_commitImmutable ops tmp w h n m s = (Inr so, t) \<Longrightarrow>
      isTemporaryKey tmp \<and> committed tmp w h n (objs s) (objs t) so"
    and commit_err: "os_commitImmutable ops tmp w h n m s = (Inl e, t) \<Longrightarrow> objs t = objs s"
    and commit_succeeds: "isTemporaryKey tmp \<Longrightarrow> canonicalObjectKey w h = Inr key \<Longrightarrow>
      objs s tmp = Some b \<Longrightarrow> sb_sha256 b = h \<Longrightarrow> int (length (sb_body b)) = n \<Longrightarrow> isSafeInteger n \<Longrightarrow>
      sb_mediaType b = m \<Longrightarrow> \<not> blank m \<Longrightarrow>
      (\<And>c. objs s key = Some c \<Longrightarrow> sb_sha256 c = h \<and> int (length (sb_body c)) = n) \<Longrightarrow>
      \<exists>so t. os_commitImmutable ops tmp w h n m s = (Inr so, t)"
    and open_spec: "os_openReadStream ops k rng s = (ro, t) \<Longrightarrow> objs t = objs s
        \<and> (\<forall>stream. ro = Inr stream \<and> rng = None \<longrightarrow> (\<exists>b. objs s k = Some b \<and> readAll stream = sb_body b))"
    and open_total: "objs s k = Some b \<Longrightarrow> \<exists>stream t. os_openReadStream ops k None s = (Inr stream, t)"
    and head_spec: "os_head ops k s = (rh, t) \<Longrightarrow> objs t = objs s
        \<and> (\<forall>meta. rh = Inr meta \<longrightarrow> (\<exists>b. objs s k = Some b \<and> meta = metadataOf k b))"
    and head_total: "objs s k = Some b \<Longrightarrow> \<exists>meta t. os_head ops k s = (Inr meta, t)"
    and exists_total: "\<exists>x t. os_exists ops k s = (Inr x, t)"
    and exists_spec: "os_exists ops k s = (rx, t) \<Longrightarrow> objs t = objs s
        \<and> (\<forall>x. rx = Inr x \<longrightarrow> x = (objs s k \<noteq> None))"
    and delete_ok: "os_deleteTemporary ops k s = (Inr u, t) \<Longrightarrow>
      isTemporaryKey k \<and> objs t = (objs s)(k := None)"
    and delete_err: "os_deleteTemporary ops k s = (Inl e, t) \<Longrightarrow> objs t = objs s"
begin

lemma committed_keeps:
  assumes "isTemporaryKey tmp" "committed tmp w h n m m' so"
  shows "keepsCanonical m m' \<and> (contentAddressed sha m \<longrightarrow> contentAddressed sha m')"
proof
  from assms(2) obtain key b where c: "canonicalObjectKey w h = Inr key"
      "m key = Some b \<or> m key = None \<and> m tmp = Some b" "sb_sha256 b = h" "m' = m(key \<mapsto> b, tmp := None)"
    unfolding committed_def by blast
  show "keepsCanonical m m'"
    using c assms(1) canonical_key_not_temporary [OF c(1)] by (auto simp: keepsCanonical_def)
  show "contentAddressed sha m \<longrightarrow> contentAddressed sha m'"
    using c by (auto intro!: contentAddressed_delete intro: contentAddressed_canonical)
qed

lemma write_keeps:
  assumes "os_writeTemporary ops k body m s = (r, t)"
  shows "keepsCanonical (objs s) (objs t) \<and> (contentAddressed sha (objs s) \<longrightarrow> contentAddressed sha (objs t))"
  using assms by (cases r) (auto dest!: write_ok write_err intro!: contentAddressed_temporary)

lemma commit_keeps:
  assumes "os_commitImmutable ops tmp w h n m s = (r, t)"
  shows "keepsCanonical (objs s) (objs t) \<and> (contentAddressed sha (objs s) \<longrightarrow> contentAddressed sha (objs t))"
proof (cases r)
  case (Inr so)
  then show ?thesis using assms committed_keeps by (blast dest: commit_ok)
next
  case (Inl e)
  then show ?thesis using assms by (auto dest: commit_err)
qed

lemma delete_keeps:
  assumes "os_deleteTemporary ops k s = (r, t)"
  shows "keepsCanonical (objs s) (objs t) \<and> (contentAddressed sha (objs s) \<longrightarrow> contentAddressed sha (objs t))"
  using assms by (cases r) (auto dest!: delete_ok delete_err intro!: contentAddressed_delete)

end

section \<open>The memory storage meets the contract\<close>

lemmas mem_op_defs = createTemporaryUpload_def writeTemporary_def commitImmutable_def openReadStream_def
  headObject_def existsObject_def deleteTemporary_def requireObject_def setObject_def deleteObject_def
  assertTemporaryKey_def assertMediaType_def assertByteLength_def check_def Let_def

lemma writeTemporary_spec:
  "writeTemporary sha k body m s = (r, t) \<Longrightarrow>
     (case r of Inl _ \<Rightarrow> t = s
      | Inr meta \<Rightarrow> isTemporaryKey k \<and> \<not> blank m
          \<and> t = s\<lparr>ms_objects := (ms_objects s)(k \<mapsto>
              \<lparr>sb_body = readAll body, sb_mediaType = m, sb_sha256 = sha (readAll body)\<rparr>)\<rparr>
          \<and> meta = metadataOf k \<lparr>sb_body = readAll body, sb_mediaType = m, sb_sha256 = sha (readAll body)\<rparr>)"
  by (auto simp: mem_op_defs js_simps blank_def split: if_splits)

lemma commitImmutable_spec:
  "commitImmutable tmp w h n m s = (r, t) \<Longrightarrow>
     (case r of Inl _ \<Rightarrow> t = s
      | Inr so \<Rightarrow> isTemporaryKey tmp \<and> committed tmp w h n (ms_objects s) (ms_objects t) so
          \<and> ms_multipart t = ms_multipart s)"
  by (auto simp: mem_op_defs js_simps committed_def fun_eq_iff split: if_splits sum.splits option.splits
      dest: canonical_key_not_temporary)

lemma commitImmutable_succeeds:
  assumes "isTemporaryKey tmp" "canonicalObjectKey w h = Inr key" "ms_objects s tmp = Some b"
    "sb_sha256 b = h" "int (length (sb_body b)) = n" "isSafeInteger n" "sb_mediaType b = m" "\<not> blank m"
    "\<And>c. ms_objects s key = Some c \<Longrightarrow> sb_sha256 c = h \<and> int (length (sb_body c)) = n"
  shows "\<exists>so t. commitImmutable tmp w h n m s = (Inr so, t)"
  using assms by (cases "ms_objects s key") (auto simp: mem_op_defs js_simps blank_def)

interpretation mem: object_storage sha "memoryStorageOps sha dayLater" ms_objects
  apply unfold_locales
             apply (simp_all add: memoryStorageOps_def)
             apply (auto simp: createTemporaryUpload_def js_simps split: sum.splits) [1]
            apply (drule writeTemporary_spec, simp)
           apply (drule writeTemporary_spec, simp)
          apply (drule commitImmutable_spec, simp)
         apply (drule commitImmutable_spec, simp)
        apply (blast intro: commitImmutable_succeeds)
       apply (auto simp: mem_op_defs js_simps readAll_def split: option.splits if_splits)
  done

section \<open>Runs of the memory storage\<close>

text \<open>One call of any operation, whether it returns or throws.\<close>

inductive memory_step ::
  "(bytes \<Rightarrow> string) \<Rightarrow> (bytes \<Rightarrow> string) \<Rightarrow> memoryObjectStorage \<Rightarrow> memoryObjectStorage \<Rightarrow> bool"
  for sha md5 where
  create: "createTemporaryUpload d w q s = (r0, t) \<Longrightarrow> memory_step sha md5 s t"
| writeTmp: "writeTemporary sha k body m s = (r1, t) \<Longrightarrow> memory_step sha md5 s t"
| commit: "commitImmutable tmp w h n m s = (r2, t) \<Longrightarrow> memory_step sha md5 s t"
| openRead: "openReadStream k rng s = (r3, t) \<Longrightarrow> memory_step sha md5 s t"
| head: "headObject k s = (r4, t) \<Longrightarrow> memory_step sha md5 s t"
| present: "existsObject k s = (r5, t) \<Longrightarrow> memory_step sha md5 s t"
| delete: "deleteTemporary k s = (r6, t) \<Longrightarrow> memory_step sha md5 s t"
| initiate: "initiateMultipartUpload rnd n0 d u k m ps el es ex s = (r7, t) \<Longrightarrow> memory_step sha md5 s t"
| listParts: "listMultipartParts u k ref s = (r8, t) \<Longrightarrow> memory_step sha md5 s t"
| uploadPart: "uploadMultipartPart md5 u k ref pn body sz s = (r9, t) \<Longrightarrow> memory_step sha md5 s t"
| complete: "completeMultipartUpload sha u k ref parts el0 es0 s = (r10, t) \<Longrightarrow> memory_step sha md5 s t"
| abort: "abortMultipartUpload u k ref s = (r11, t) \<Longrightarrow> memory_step sha md5 s t"

text \<open>
  The invariant of the sessions: a session writes to a temporary key, and a session that was
  not aborted records its parts under distinct, ordered numbers, each with the size and the
  checksum of the bytes kept for it.
\<close>

definition partRecorded :: "(bytes \<Rightarrow> string) \<Rightarrow> (int \<rightharpoonup> bytes) \<Rightarrow> multipartUploadedPart \<Rightarrow> bool" where
  "partRecorded md5 bodies p \<longleftrightarrow>
     (\<exists>body. bodies (pt_partNumber p) = Some body \<and> pt_size p = int (length body)
        \<and> pt_etag p = quoted (md5 body))"

definition sessionOk :: "(bytes \<Rightarrow> string) \<Rightarrow> memoryMultipartSession \<Rightarrow> bool" where
  "sessionOk md5 m \<longleftrightarrow> isTemporaryKey (mp_locator (mm_session m))
     \<and> sorted (map pt_partNumber (mp_parts (mm_session m)))
     \<and> distinct (map pt_partNumber (mp_parts (mm_session m)))
     \<and> list_all (partRecorded md5 (mm_partBodies m)) (mp_parts (mm_session m))"

definition memInv :: "(bytes \<Rightarrow> string) \<Rightarrow> (bytes \<Rightarrow> string) \<Rightarrow> memoryObjectStorage \<Rightarrow> bool" where
  "memInv sha md5 s \<longleftrightarrow> contentAddressed sha (ms_objects s)
     \<and> (\<forall>u m. ms_multipart s u = Some m \<longrightarrow> sessionOk md5 m)"

lemma memInv_setMultipart:
  "memInv sha md5 s \<Longrightarrow> sessionOk md5 m \<Longrightarrow>
     memInv sha md5 (s\<lparr>ms_multipart := (ms_multipart s)(u \<mapsto> m)\<rparr>)"
  by (simp add: memInv_def)

lemma memInv_setTemporary:
  "memInv sha md5 s \<Longrightarrow> isTemporaryKey k \<Longrightarrow> sb_sha256 b = sha (sb_body b) \<Longrightarrow>
     memInv sha md5 (s\<lparr>ms_objects := (ms_objects s)(k \<mapsto> b)\<rparr>)"
  by (simp add: memInv_def contentAddressed_temporary)

lemma requireMultipart_spec:
  "requireMultipart u k ref s = (r, t) \<Longrightarrow> t = s \<and>
     (case r of Inl _ \<Rightarrow> True | Inr m \<Rightarrow> ms_multipart s u = Some m \<and> mp_locator (mm_session m) = k)"
  by (auto simp: requireMultipart_def js_simps split: option.splits if_splits)

lemma distinct_map_sort_key [simp]: "distinct (map f (sort_key f xs)) = distinct (map f xs)"
  by (simp add: distinct_map)

lemma uploadMultipartPart_inv:
  assumes inv: "memInv sha md5 s" and run: "uploadMultipartPart md5 u k ref pn body sz s = (r, t)"
  shows "memInv sha md5 t \<and> ms_objects t = ms_objects s"
proof -
  obtain r0 s0 where req: "requireMultipart u k ref s = (r0, s0)" by fastforce
  note spec = requireMultipart_spec [OF req]
  show ?thesis
  proof (cases r0)
    case (Inl e)
    with spec req run inv show ?thesis by (simp add: uploadMultipartPart_def js_simps)
  next
    case (Inr m)
    have m: "sessionOk md5 m" using spec Inr inv by (auto simp: memInv_def)
    let ?part = "\<lparr>pt_partNumber = pn, pt_etag = quoted (md5 (readAll body)), pt_size = int (length (readAll body))\<rparr>"
    let ?m' = "\<lparr>mm_session = (mm_session m)\<lparr>mp_status := MpUploading,
        mp_parts := sort_key pt_partNumber (mp_parts (mm_session m) @ [?part])\<rparr>,
      mm_partBodies = (mm_partBodies m)(pn \<mapsto> readAll body)\<rparr>"
    consider "t = s" | "t = s\<lparr>ms_multipart := (ms_multipart s)(u \<mapsto> ?m')\<rparr>"
        "List.find (\<lambda>p. pt_partNumber p = pn) (mp_parts (mm_session m)) = None"
      using run req spec Inr
      by (auto simp: uploadMultipartPart_def js_simps assertPartNumber_def check_def setMultipart_def Let_def
          split: if_splits option.splits)
    then show ?thesis
    proof cases
      case 2
      then have new: "pn \<notin> pt_partNumber ` set (mp_parts (mm_session m))"
        by (auto simp: find_None_iff_all)
      then have "sessionOk md5 ?m'"
        using m by (auto simp: sessionOk_def list_all_iff partRecorded_def)
      with 2 inv show ?thesis by (simp add: memInv_setMultipart)
    qed (use inv in simp)
  qed
qed

lemma completeMultipartUpload_cases:
  assumes run: "completeMultipartUpload sha u k ref parts n h s = (r, t)"
  obtains "t = s" "\<And>m. isOk r \<Longrightarrow> ms_multipart s u = Some m \<Longrightarrow> mp_status (mm_session m) = MpCompleted"
  | m buffers stored where "ms_multipart s u = Some m" "mp_locator (mm_session m) = k"
      "mp_status (mm_session m) \<notin> {MpCompleted, MpAborted}"
      "reconcileParts (mp_parts (mm_session m)) parts = Inr ()"
      "collectBodies (mm_partBodies m) (sort_key pt_partNumber parts) = Inr buffers"
      "stored = \<lparr>sb_body = concat buffers, sb_mediaType = mp_mediaType (mm_session m), sb_sha256 = sha (concat buffers)\<rparr>"
      "n = int (length (concat buffers))" "h = sha (concat buffers)"
      "t = s\<lparr>ms_objects := (ms_objects s)(k \<mapsto> stored),
             ms_multipart := (ms_multipart s)(u \<mapsto> m\<lparr>mm_session := (mm_session m)\<lparr>mp_status := MpCompleted,
               mp_parts := sort_key pt_partNumber parts\<rparr>\<rparr>)\<rparr>"
      "r = Inr (metadataOf k stored)"
proof -
  obtain r0 s0 where req: "requireMultipart u k ref s = (r0, s0)" by fastforce
  note spec = requireMultipart_spec [OF req]
  show thesis
  proof (cases r0)
    case (Inl e)
    with spec req run show thesis by (intro that(1)) (auto simp: completeMultipartUpload_def js_simps)
  next
    case (Inr m)
    show thesis
      using run req spec Inr
      by (auto simp: completeMultipartUpload_def js_simps Let_def setMultipart_def setObject_def
          requireObject_def intro: that split: if_splits sum.splits option.splits)
  qed
qed

text \<open>What reconciliation guarantees: the declared parts are the recorded ones, numbered from 1.\<close>

lemma contiguous_numbers:
  "list_all (\<lambda>(index, n). n = int index + int k) (enumerate j ns) \<longleftrightarrow>
     ns = [int j + int k..int j + int k + int (length ns) - 1]"
proof (induction ns arbitrary: j)
  case Nil
  then show ?case by simp
next
  case (Cons x ns)
  then show ?case
    by (auto simp: upto_rec1 algebra_simps)
qed

lemma reconcileParts_ok:
  assumes "reconcileParts recorded declared = Inr ()"
    and "sorted (map pt_partNumber recorded)" "distinct (map pt_partNumber recorded)"
  shows "sort_key pt_partNumber declared = recorded
         \<and> map pt_partNumber recorded = [1..int (length recorded)]"
proof -
  have len: "length recorded = length declared"
    and match: "\<And>p. p \<in> set declared \<Longrightarrow> partMatches (map_of (rev (map (\<lambda>p. (pt_partNumber p, p)) recorded))) p"
    and num: "sort (map pt_partNumber declared) = [1..int (length declared)]"
    using assms(1) contiguous_numbers [of 1 0 "sort (map pt_partNumber declared)"]
    by (auto simp: reconcileParts_def Let_def check_def list_all_iff split: if_splits)
  have "p \<in> set recorded" if "p \<in> set declared" for p
  proof -
    from match [OF that] obtain q where
      "(pt_partNumber p, q) \<in> set (map (\<lambda>p. (pt_partNumber p, p)) recorded)"
      "pt_etag q = pt_etag p" "pt_size q = pt_size p"
      by (auto simp: partMatches_def dest!: map_of_SomeD split: option.splits)
    then show ?thesis by (auto intro: multipartUploadedPart.equality simp: image_iff) (metis multipartUploadedPart.equality old.unit.exhaust)
  qed
  then have sub: "set declared \<subseteq> set recorded" by blast
  have dist: "distinct (map pt_partNumber declared)"
    using num by (metis distinct_sort distinct_upto)
  have sets: "set declared = set recorded"
    by (rule card_subset_eq) (use sub len dist assms(3) in \<open>auto simp: distinct_card distinct_map\<close>)
  have "sort_key pt_partNumber declared = recorded"
    by (rule map_sorted_distinct_set_unique [where f = pt_partNumber])
      (use sets dist assms(2,3) in \<open>simp_all add: distinct_map\<close>)
  moreover have "map pt_partNumber recorded = [1..int (length recorded)]"
    unfolding len num [symmetric]
    by (rule sorted_distinct_set_unique) (use sets dist assms(2,3) in simp_all)
  ultimately show ?thesis ..
qed

lemma collectBodies_ok:
  "collectBodies bodies ps = Inr bs \<Longrightarrow> bs = map (\<lambda>p. the (bodies (pt_partNumber p))) ps"
  by (induction ps arbitrary: bs) (auto simp: seqR_eq_Inr split: option.splits)

lemma completeMultipartUpload_inv:
  assumes inv: "memInv sha md5 s" and run: "completeMultipartUpload sha u k ref parts n h s = (r, t)"
  shows "memInv sha md5 t \<and> keepsCanonical (ms_objects s) (ms_objects t)"
  using run
proof (cases rule: completeMultipartUpload_cases)
  case (2 m buffers stored)
  then have m: "sessionOk md5 m" using inv by (auto simp: memInv_def)
  then have "sort_key pt_partNumber parts = mp_parts (mm_session m)"
    using 2 reconcileParts_ok by (simp add: sessionOk_def)
  with 2 m inv show ?thesis
    by (auto simp: memInv_def sessionOk_def intro!: contentAddressed_temporary)
qed (use inv in simp)

lemma multipart_only_inv:
  "memInv sha md5 s \<Longrightarrow> initiateMultipartUpload rnd n0 d u k m ps el es ex s = (r7, t) \<Longrightarrow>
     memInv sha md5 t \<and> ms_objects t = ms_objects s"
  "memInv sha md5 s \<Longrightarrow> listMultipartParts u k ref s = (r8, t) \<Longrightarrow> t = s"
  "memInv sha md5 s \<Longrightarrow> abortMultipartUpload u k ref s = (r11, t) \<Longrightarrow>
     memInv sha md5 t \<and> ms_objects t = ms_objects s"
  by (auto simp: initiateMultipartUpload_def listMultipartParts_def abortMultipartUpload_def
      requireMultipart_def setMultipart_def assertTemporaryKey_def assertMediaType_def assertPartSize_def
      check_def Let_def js_simps memInv_def sessionOk_def split: if_splits option.splits)

lemma reading_ops_same:
  "createTemporaryUpload d w q s = (r0, t) \<Longrightarrow> t = s" "openReadStream k rng s = (r3, t) \<Longrightarrow> t = s"
  "headObject k s = (r4, t) \<Longrightarrow> t = s" "existsObject k s = (r5, t) \<Longrightarrow> t = s"
  by (auto simp: mem_op_defs js_simps split: if_splits option.splits sum.splits)

lemma memInv_objects:
  "memInv sha md5 s \<Longrightarrow> ms_multipart t = ms_multipart s \<Longrightarrow>
     contentAddressed sha (ms_objects s) \<longrightarrow> contentAddressed sha (ms_objects t) \<Longrightarrow> memInv sha md5 t"
  by (simp add: memInv_def)

lemma memory_step_safe:
  assumes "memory_step sha md5 s t" and inv: "memInv sha md5 s"
  shows "memInv sha md5 t \<and> keepsCanonical (ms_objects s) (ms_objects t)"
  using assms(1)
proof cases
  case (writeTmp k body m r1)
  then have "ms_multipart t = ms_multipart s"
    by (auto dest: writeTemporary_spec split: sum.splits)
  with inv mem.write_keeps [of sha undefined k body m s r1 t] writeTmp show ?thesis
    by (auto simp: memoryStorageOps_def intro: memInv_objects)
next
  case (commit tmp w h n m r2)
  then have "ms_multipart t = ms_multipart s"
    by (auto dest: commitImmutable_spec split: sum.splits)
  with inv mem.commit_keeps [of sha undefined tmp w h n m s r2 t] commit show ?thesis
    by (auto simp: memoryStorageOps_def intro: memInv_objects)
next
  case (delete k r6)
  then have "ms_multipart t = ms_multipart s"
    by (auto simp: mem_op_defs js_simps split: if_splits)
  with inv mem.delete_keeps [of sha undefined k s r6 t] delete show ?thesis
    by (auto simp: memoryStorageOps_def intro: memInv_objects)
next
  case (initiate rnd n0 d u k m ps el es ex r7)
  then show ?thesis using inv multipart_only_inv(1) by fastforce
next
  case (abort u k ref r11)
  then show ?thesis using inv multipart_only_inv(3) by fastforce
next
  case (uploadPart u k ref pn body sz r9)
  then show ?thesis using inv uploadMultipartPart_inv by fastforce
next
  case (complete u k ref parts el0 es0 r10)
  then show ?thesis using inv completeMultipartUpload_inv by fastforce
qed (use inv in \<open>auto dest: reading_ops_same multipart_only_inv(2)\<close>)

lemma memory_run_safe:
  assumes "(memory_step sha md5)\<^sup>*\<^sup>* s t" and "memInv sha md5 s"
  shows "memInv sha md5 t \<and> keepsCanonical (ms_objects s) (ms_objects t)"
  using assms
proof (induction rule: rtranclp_induct)
  case (step y z)
  then show ?case by (meson keepsCanonical_trans memory_step_safe)
qed simp

lemma memInv_empty: "memInv sha md5 (emptyMemoryStorage relax)"
  by (simp add: memInv_def emptyMemoryStorage_def contentAddressed_def)

text \<open>
  C3. Immutability and content addressing: however the storage got to state \<open>s\<close> from the
  empty one, and whatever calls follow, an object under a canonical key stays there byte for
  byte, and its bytes hash to the digest in the key.
\<close>

theorem canonical_objects_immutable:
  assumes "(memory_step sha md5)\<^sup>*\<^sup>* (emptyMemoryStorage relax) s"
    and "(memory_step sha md5)\<^sup>*\<^sup>* s t"
    and "canonicalObjectKey w h = Inr k" and "ms_objects s k = Some b"
  shows "ms_objects t k = Some b \<and> sha (sb_body b) = h"
proof -
  note safe = memory_run_safe [OF assms(1) memInv_empty]
  have "ms_objects t k = Some b"
    using memory_run_safe [OF assms(2)] safe assms(3,4) canonical_key_not_temporary [OF assms(3)]
    by (simp add: keepsCanonical_def)
  moreover have "addressOk sha k b"
    using safe assms(4) by (simp add: memInv_def contentAddressed_def)
  ultimately show ?thesis using assms(3) by (metis addressOk_canonical)
qed

text \<open>A concrete storage: two bytes written to a temporary key and committed.\<close>

definition sampleTemporaryKey :: string where
  "sampleTemporaryKey = ''workspaces/w1/temporary/op-1''"

definition sampleStored :: storedBytes where
  "sampleStored = \<lparr>sb_body = ''hi'', sb_mediaType = ''text/plain'', sb_sha256 = sampleDigest\<rparr>"

definition sampleWritten :: memoryObjectStorage where
  "sampleWritten = snd (writeTemporary (\<lambda>_. sampleDigest) sampleTemporaryKey [''h'', ''i''] ''text/plain''
     (emptyMemoryStorage None))"

definition sampleCommitted :: memoryObjectStorage where
  "sampleCommitted = snd (commitImmutable sampleTemporaryKey ''w1'' sampleDigest 2 ''text/plain'' sampleWritten)"

lemma sampleTemporaryKey_ok [simp]: "isTemporaryKey sampleTemporaryKey"
  by (simp add: isTemporaryKey_def sampleTemporaryKey_def safeId_def safe_char_def)

lemma sampleTemporaryKey_key: "temporaryObjectKey ''w1'' ''op-1'' = Inr sampleTemporaryKey"
  by (simp add: temporaryObjectKey_def sampleTemporaryKey_def safeId_def safe_char_def)

lemma sample_mediaType [simp]: "trim ''text/plain'' = ''text/plain''" "\<not> blank ''text/plain''"
  by (simp_all add: trim_def blank_def js_space_def)

lemma sampleWritten_eq:
  "sampleWritten = (emptyMemoryStorage None)\<lparr>ms_objects := [sampleTemporaryKey \<mapsto> sampleStored]\<rparr>"
  by (simp add: sampleWritten_def mem_op_defs js_simps readAll_def sampleStored_def emptyMemoryStorage_def)

definition sampleCanonicalKey :: string where
  "sampleCanonicalKey = ''workspaces/w1/objects/'' @ take 2 sampleDigest @ ''/'' @ sampleDigest"

lemma sampleCanonicalKey_ok: "canonicalObjectKey ''w1'' sampleDigest = Inr sampleCanonicalKey"
  by (simp add: canonicalObjectKey_def sampleCanonicalKey_def safeId_def safe_char_def)

lemma sampleCanonicalKey_neq [simp]: "sampleCanonicalKey \<noteq> sampleTemporaryKey"
  using canonical_key_not_temporary [OF sampleCanonicalKey_ok] by auto

lemma sampleCommitted_eq:
  "sampleCommitted = (emptyMemoryStorage None)\<lparr>ms_objects := [sampleCanonicalKey \<mapsto> sampleStored]\<rparr>"
  by (simp add: sampleCommitted_def sampleWritten_eq mem_op_defs js_simps sampleCanonicalKey_ok
      emptyMemoryStorage_def sampleStored_def isSafeInteger_def fun_upd_twist)

lemma sampleCommitted_reachable:
  "(memory_step (\<lambda>_. sampleDigest) md5)\<^sup>*\<^sup>* (emptyMemoryStorage None) sampleCommitted"
  unfolding sampleCommitted_def sampleWritten_def
  by (meson memory_step.writeTmp memory_step.commit surjective_pairing r_into_rtranclp rtranclp.rtrancl_into_rtrancl)

theorem canonical_objects_immutable_witness:
  "ms_objects (snd (deleteTemporary sampleTemporaryKey sampleCommitted)) sampleCanonicalKey = Some sampleStored
   \<and> (\<lambda>_. sampleDigest) (sb_body sampleStored) = sampleDigest"
  by (rule canonical_objects_immutable [OF sampleCommitted_reachable [of id] _ sampleCanonicalKey_ok])
    (auto simp: sampleCommitted_eq intro: memory_step.delete [OF surjective_pairing])

text \<open>
  C27. A multipart upload assembles exactly the uploaded bytes: when completion of an open
  session succeeds, the parts recorded are numbered 1 to n without gap, the object stored at
  the temporary key is the concatenation of the part bodies in that order, its length and
  hash are those the caller declared, and no other object changes.
\<close>

theorem multipart_assembly_correct:
  assumes "memInv sha md5 s" and "ms_multipart s u = Some m"
    and "mp_status (mm_session m) \<noteq> MpCompleted"
    and "completeMultipartUpload sha u k ref parts n h s = (Inr meta, t)"
  shows "\<exists>body. body = concat (map (\<lambda>i. the (mm_partBodies m i)) [1..int (length parts)])
     \<and> length (mp_parts (mm_session m)) = length parts
     \<and> int (length body) = n \<and> sha body = h
     \<and> ms_objects t = (ms_objects s)(k \<mapsto> \<lparr>sb_body = body, sb_mediaType = mp_mediaType (mm_session m), sb_sha256 = h\<rparr>)
     \<and> om_sha256 meta = Some h \<and> om_byteLength meta = n"
  using assms(4)
proof (cases rule: completeMultipartUpload_cases)
  case 1
  then show ?thesis using assms(2,3) by simp
next
  case (2 m' buffers stored)
  then have m': "m' = m" using assms(2) by simp
  have "sessionOk md5 m" using assms(1,2) by (auto simp: memInv_def)
  then have order: "sort_key pt_partNumber parts = mp_parts (mm_session m)"
    "map pt_partNumber (mp_parts (mm_session m)) = [1..int (length (mp_parts (mm_session m)))]"
    using 2 m' reconcileParts_ok [of "mp_parts (mm_session m)" parts] by (simp_all add: sessionOk_def)
  moreover have len: "length (mp_parts (mm_session m)) = length parts"
    using order(1) by (metis length_sort)
  moreover have "buffers = map (\<lambda>i. the (mm_partBodies m i)) [1..int (length parts)]"
    using 2 m' order len collectBodies_ok [of "mm_partBodies m" "mp_parts (mm_session m)" buffers]
    by (metis (mono_tags, lifting) list.map_comp comp_apply map_eq_conv)
  ultimately show ?thesis using 2 m' by (simp add: metadataOf_def)
qed

text \<open>A session with two parts uploaded out of order.\<close>

definition sampleParts :: "multipartUploadedPart list" where
  "sampleParts = [\<lparr>pt_partNumber = 2, pt_etag = quoted ''i'', pt_size = 1\<rparr>,
     \<lparr>pt_partNumber = 1, pt_etag = quoted ''h'', pt_size = 1\<rparr>]"

definition sampleSession :: memoryMultipartSession where
  "sampleSession = \<lparr>mm_session = \<lparr>mp_uploadId = ''u1'', mp_providerUploadRef = ''memory-00'',
       mp_locator = sampleTemporaryKey, mp_mediaType = ''text/plain'', mp_partSize = 1,
       mp_expectedByteLength = None, mp_expectedSha256 = None, mp_status = MpUploading,
       mp_parts = rev sampleParts, mp_createdAt = ''t0'', mp_expiresAt = ''t1''\<rparr>,
     mm_partBodies = [1 \<mapsto> ''h'', 2 \<mapsto> ''i'']\<rparr>"

definition sampleUploading :: memoryObjectStorage where
  "sampleUploading = (emptyMemoryStorage (Some True))\<lparr>ms_multipart := [''u1'' \<mapsto> sampleSession]\<rparr>"

lemma sampleUploading_run:
  "completeMultipartUpload (\<lambda>_. sampleDigest) ''u1'' sampleTemporaryKey ''memory-00'' sampleParts 2 sampleDigest
     sampleUploading = (Inr (metadataOf sampleTemporaryKey sampleStored),
       snd (completeMultipartUpload (\<lambda>_. sampleDigest) ''u1'' sampleTemporaryKey ''memory-00'' sampleParts 2
         sampleDigest sampleUploading))"
  by (simp add: completeMultipartUpload_def requireMultipart_def reconcileParts_def partMatches_def
      sampleUploading_def sampleSession_def sampleParts_def sampleStored_def setObject_def setMultipart_def
      js_simps check_def Let_def)

theorem multipart_assembly_correct_witness:
  "\<exists>body. body = concat (map (\<lambda>i. the (mm_partBodies sampleSession i)) [1..2])
     \<and> ms_objects (snd (completeMultipartUpload (\<lambda>_. sampleDigest) ''u1'' sampleTemporaryKey ''memory-00''
         sampleParts 2 sampleDigest sampleUploading)) sampleTemporaryKey
       = Some \<lparr>sb_body = body, sb_mediaType = ''text/plain'', sb_sha256 = sampleDigest\<rparr>"
proof -
  have inv: "memInv (\<lambda>_. sampleDigest) id sampleUploading"
    by (simp add: memInv_def sampleUploading_def emptyMemoryStorage_def contentAddressed_def sessionOk_def
        sampleSession_def sampleParts_def partRecorded_def)
  show ?thesis
    using multipart_assembly_correct [OF inv _ _ sampleUploading_run, of sampleSession]
    by (simp add: sampleUploading_def) (simp add: sampleSession_def sampleParts_def)
qed

end
