(* ===== verification/StateMachines.thy ===== *)
theory StateMachines
  imports Prelude
begin

text \<open>
  The two transition tables of \<open>packages/operations/src\<close>: the upload operation
  (\<open>upload-state-machine.ts\<close>) and the quarantine scan (first part of \<open>quarantine-scan.ts\<close>),
  with the states of \<open>packages/protocol/src/index.ts\<close>. The locale \<open>gated_machine\<close> states
  what both tables promise: terminal states are stuck and a goal is entered from its gate only.
\<close>

section \<open>Tables with terminal states and gates\<close>

text \<open>A history of states in which each one is allowed after the one before.\<close>

fun history :: "('s \<Rightarrow> 's list) \<Rightarrow> 's list \<Rightarrow> bool" where
  "history next (a # b # xs) = (b \<in> set (next a) \<and> history next (b # xs))"
| "history next _ = True"

lemma history_append:
  "history next (xs @ a # b # ys) \<longleftrightarrow> history next (xs @ [a]) \<and> b \<in> set (next a) \<and> history next (b # ys)"
proof (induction xs)
  case (Cons x xs)
  then show ?case by (cases xs) auto
qed simp

locale gated_machine =
  fixes table :: "'s \<Rightarrow> 's list" and final :: "'s set" and goal gate :: 's
  assumes final_stuck: "a \<in> final \<Longrightarrow> table a = []"
    and goal_gated: "goal \<in> set (table a) \<Longrightarrow> a = gate"
begin

lemma goal_after_gate:
  "history table (xs @ [goal]) \<Longrightarrow> xs \<noteq> [] \<Longrightarrow> last xs = gate"
  using history_append [of table "butlast xs" "last xs" goal "[]"] goal_gated
  by (metis append_butlast_last_id append.assoc append_Cons append_Nil)

lemma final_is_last:
  "history table (xs @ a # ys) \<Longrightarrow> a \<in> final \<Longrightarrow> ys = []"
  using final_stuck by (cases ys) (auto simp: history_append)

end

section \<open>Uploads\<close>

datatype uploadState =
    Requested | Authorised | TemporaryUploadCreated | BytesReceived | HashVerified
  | ImmutableObjectCommitted | MetadataCommitted | AuditCommitted | Completed | Rejected
  | FailedRetryable | FailedTerminal | Quarantined

primrec uploadState_text :: "uploadState \<Rightarrow> string" where
  "uploadState_text Requested = ''requested''"
| "uploadState_text Authorised = ''authorised''"
| "uploadState_text TemporaryUploadCreated = ''temporary_upload_created''"
| "uploadState_text BytesReceived = ''bytes_received''"
| "uploadState_text HashVerified = ''hash_verified''"
| "uploadState_text ImmutableObjectCommitted = ''immutable_object_committed''"
| "uploadState_text MetadataCommitted = ''metadata_committed''"
| "uploadState_text AuditCommitted = ''audit_committed''"
| "uploadState_text Completed = ''completed''"
| "uploadState_text Rejected = ''rejected''"
| "uploadState_text FailedRetryable = ''failed_retryable''"
| "uploadState_text FailedTerminal = ''failed_terminal''"
| "uploadState_text Quarantined = ''quarantined''"

fun uploadTransitions :: "uploadState \<Rightarrow> uploadState list" where
  "uploadTransitions Requested = [Authorised, Rejected, FailedTerminal]"
| "uploadTransitions Authorised = [TemporaryUploadCreated, FailedRetryable, FailedTerminal]"
| "uploadTransitions TemporaryUploadCreated = [BytesReceived, FailedRetryable, Quarantined]"
| "uploadTransitions BytesReceived = [HashVerified, FailedRetryable, FailedTerminal, Quarantined]"
| "uploadTransitions HashVerified = [ImmutableObjectCommitted, FailedRetryable, Quarantined]"
| "uploadTransitions ImmutableObjectCommitted = [MetadataCommitted, FailedRetryable, Quarantined]"
| "uploadTransitions MetadataCommitted = [AuditCommitted, FailedRetryable, Quarantined]"
| "uploadTransitions AuditCommitted = [Completed, FailedRetryable]"
| "uploadTransitions Completed = []"
| "uploadTransitions Rejected = []"
| "uploadTransitions FailedRetryable =
     [Authorised, TemporaryUploadCreated, BytesReceived, HashVerified, ImmutableObjectCommitted,
      MetadataCommitted, AuditCommitted, FailedTerminal, Quarantined]"
| "uploadTransitions FailedTerminal = []"
| "uploadTransitions Quarantined = []"

definition invalidOperationTransition :: "uploadState \<Rightarrow> uploadState \<Rightarrow> js_error" where
  "invalidOperationTransition from to = JsError ''InvalidOperationTransition'' None
     (''Invalid upload transition: '' @ uploadState_text from @ '' -> '' @ uploadState_text to)"

definition canTransition :: "uploadState \<Rightarrow> uploadState \<Rightarrow> bool" where
  "canTransition from to = (to \<in> set (uploadTransitions from))"

definition transitionUpload :: "uploadState \<Rightarrow> uploadState \<Rightarrow> js_error + uploadState" where
  "transitionUpload from to =
     (if \<not> canTransition from to then Inl (invalidOperationTransition from to) else Inr to)"

definition uploadTerminal :: "uploadState set" where
  "uploadTerminal = {Completed, Rejected, FailedTerminal, Quarantined}"

interpretation upload: gated_machine uploadTransitions uploadTerminal Completed AuditCommitted
proof
  fix a
  show "a \<in> uploadTerminal \<Longrightarrow> uploadTransitions a = []"
    by (auto simp: uploadTerminal_def)
  show "Completed \<in> set (uploadTransitions a) \<Longrightarrow> a = AuditCommitted"
    by (cases a) auto
qed

section \<open>Quarantine scans\<close>

datatype scanState =
    PendingUpload | Uploaded | ScanQueued | Scanning | ScanAccepted | ScanRejected | ManualReview
  | PromotionPending | Promoted | ScanFailed

primrec scanState_text :: "scanState \<Rightarrow> string" where
  "scanState_text PendingUpload = ''pending_upload''"
| "scanState_text Uploaded = ''uploaded''"
| "scanState_text ScanQueued = ''scan_queued''"
| "scanState_text Scanning = ''scanning''"
| "scanState_text ScanAccepted = ''accepted''"
| "scanState_text ScanRejected = ''rejected''"
| "scanState_text ManualReview = ''manual_review''"
| "scanState_text PromotionPending = ''promotion_pending''"
| "scanState_text Promoted = ''promoted''"
| "scanState_text ScanFailed = ''failed''"

fun quarantineTransitions :: "scanState \<Rightarrow> scanState list" where
  "quarantineTransitions PendingUpload = [Uploaded, ScanFailed]"
| "quarantineTransitions Uploaded = [ScanQueued, ScanFailed]"
| "quarantineTransitions ScanQueued = [Scanning, ScanFailed]"
| "quarantineTransitions Scanning = [ScanAccepted, ScanRejected, ManualReview, ScanFailed]"
| "quarantineTransitions ScanAccepted = [PromotionPending, ScanFailed]"
| "quarantineTransitions ScanRejected = []"
| "quarantineTransitions ManualReview = [ScanAccepted, ScanRejected, ScanFailed]"
| "quarantineTransitions PromotionPending = [Promoted, ScanFailed]"
| "quarantineTransitions Promoted = []"
| "quarantineTransitions ScanFailed = [ScanQueued]"

definition invalidQuarantineTransition :: "scanState \<Rightarrow> scanState \<Rightarrow> js_error" where
  "invalidQuarantineTransition from to = JsError ''InvalidQuarantineTransition'' None
     (''Invalid quarantine transition: '' @ scanState_text from @ '' -> '' @ scanState_text to)"

definition canTransitionQuarantine :: "scanState \<Rightarrow> scanState \<Rightarrow> bool" where
  "canTransitionQuarantine from to = (to \<in> set (quarantineTransitions from))"

definition transitionQuarantine :: "scanState \<Rightarrow> scanState \<Rightarrow> js_error + scanState" where
  "transitionQuarantine from to =
     (if from = to then Inr from
      else if \<not> canTransitionQuarantine from to then Inl (invalidQuarantineTransition from to)
      else Inr to)"

lemma transitionUpload_eq: "transitionUpload a b = Inr c \<longleftrightarrow> canTransition a b \<and> c = b"
  by (auto simp: transitionUpload_def)

lemma transitionQuarantine_eq:
  "transitionQuarantine a b = Inr c \<longleftrightarrow> (a = b \<or> canTransitionQuarantine a b) \<and> c = b"
  by (auto simp: transitionQuarantine_def)

interpretation promotion: gated_machine quarantineTransitions "{ScanRejected, Promoted}" Promoted PromotionPending
proof
  fix a
  show "a \<in> {ScanRejected, Promoted} \<Longrightarrow> quarantineTransitions a = []" by auto
  show "Promoted \<in> set (quarantineTransitions a) \<Longrightarrow> a = PromotionPending"
    by (cases a) auto
qed

interpretation acceptance: gated_machine quarantineTransitions "{ScanRejected, Promoted}" PromotionPending ScanAccepted
proof
  fix a
  show "a \<in> {ScanRejected, Promoted} \<Longrightarrow> quarantineTransitions a = []" by auto
  show "PromotionPending \<in> set (quarantineTransitions a) \<Longrightarrow> a = ScanAccepted"
    by (cases a) auto
qed

section \<open>Histories\<close>

text \<open>The states a caller goes through who applies a transition function to a list of targets.\<close>

fun runTransitions :: "('s \<Rightarrow> 's \<Rightarrow> js_error + 's) \<Rightarrow> 's \<Rightarrow> 's list \<Rightarrow> js_error + 's list" where
  "runTransitions f a [] = Inr [a]"
| "runTransitions f a (b # bs) =
     seqR (f a b) (\<lambda>c. seqR (runTransitions f c bs) (\<lambda>cs. Inr (a # cs)))"

lemma runTransitions_head: "runTransitions f a bs = Inr h \<Longrightarrow> \<exists>t. h = a # t"
  by (cases bs) (auto simp: seqR_eq_Inr)

lemma uploadRun_history: "runTransitions transitionUpload a bs = Inr h \<Longrightarrow> h = a # bs \<and> history uploadTransitions h"
proof (induction bs arbitrary: a h)
  case (Cons b bs)
  then obtain cs where "canTransition a b" "runTransitions transitionUpload b bs = Inr cs" "h = a # cs"
    by (auto simp: seqR_eq_Inr transitionUpload_eq)
  with Cons.IH [of b cs] show ?case by (auto simp: canTransition_def)
qed simp

text \<open>Staying in a state is allowed, so the history of a quarantine scan is read without repetitions.\<close>

lemma quarantineRun_history:
  "runTransitions transitionQuarantine a bs = Inr h \<Longrightarrow>
     h = a # bs \<and> history quarantineTransitions (remdups_adj h)"
proof (induction bs arbitrary: a h)
  case (Cons b bs)
  then obtain cs where step: "a = b \<or> canTransitionQuarantine a b"
      "runTransitions transitionQuarantine b bs = Inr cs" "h = a # cs"
    by (auto simp: seqR_eq_Inr transitionQuarantine_eq)
  then have cs: "cs = b # bs" "history quarantineTransitions (remdups_adj cs)"
    using Cons.IH by blast+
  obtain ds where "remdups_adj (b # bs) = b # ds"
    by (metis remdups_adj_Cons_alt list.discI remdups_adj_Nil_iff hd_remdups_adj list.collapse list.sel(1))
  with step cs show ?case by (auto simp: canTransitionQuarantine_def)
qed simp

text \<open>
  An upload operation that goes through \<open>transitionUpload\<close> reaches \<open>completed\<close> only from
  \<open>audit_committed\<close>, and no operation leaves \<open>completed\<close>, \<open>rejected\<close>, \<open>failed_terminal\<close> or
  \<open>quarantined\<close>: wherever one of them occurs in the history, it is the last state.
\<close>

theorem upload_history_safe:
  assumes "runTransitions transitionUpload a targets = Inr (xs @ s # ys)"
  shows "(s \<in> uploadTerminal \<longrightarrow> ys = []) \<and> (s = Completed \<and> xs \<noteq> [] \<longrightarrow> last xs = AuditCommitted)"
proof -
  have h: "history uploadTransitions (xs @ s # ys)" using uploadRun_history [OF assms] by blast
  have "history uploadTransitions (xs @ [s])"
    using h by (cases ys) (auto simp: history_append)
  with h show ?thesis using upload.final_is_last upload.goal_after_gate by blast
qed

theorem upload_history_safe_witness:
  "runTransitions transitionUpload AuditCommitted [FailedRetryable, AuditCommitted, Completed]
     = Inr ([AuditCommitted, FailedRetryable, AuditCommitted] @ Completed # [])
   \<and> last [AuditCommitted, FailedRetryable, AuditCommitted] = AuditCommitted"
proof
  show run: "runTransitions transitionUpload AuditCommitted [FailedRetryable, AuditCommitted, Completed]
     = Inr ([AuditCommitted, FailedRetryable, AuditCommitted] @ Completed # [])"
    by (simp add: transitionUpload_def canTransition_def)
  from upload_history_safe [OF run] show "last [AuditCommitted, FailedRetryable, AuditCommitted] = AuditCommitted"
    by simp
qed

text \<open>
  A quarantined upload is promoted only after a scan accepted it: in every history of
  \<open>transitionQuarantine\<close>, read without repetitions, \<open>promoted\<close> comes directly after
  \<open>promotion_pending\<close> and that directly after \<open>accepted\<close>; a rejected upload stays rejected.
\<close>

theorem quarantine_history_safe:
  assumes "runTransitions transitionQuarantine a targets = Inr h"
    and "remdups_adj h = xs @ s # ys"
  shows "(s = Promoted \<and> xs \<noteq> [] \<longrightarrow> last xs = PromotionPending)
       \<and> (s = PromotionPending \<and> xs \<noteq> [] \<longrightarrow> last xs = ScanAccepted)
       \<and> (s \<in> {ScanRejected, Promoted} \<longrightarrow> ys = [])"
proof -
  have h: "history quarantineTransitions (xs @ s # ys)"
    using quarantineRun_history [OF assms(1)] assms(2) by simp
  have "history quarantineTransitions (xs @ [s])"
    using h by (cases ys) (auto simp: history_append)
  with h show ?thesis
    using promotion.goal_after_gate acceptance.goal_after_gate promotion.final_is_last by blast
qed

theorem quarantine_history_safe_witness:
  "runTransitions transitionQuarantine Scanning [ScanAccepted, PromotionPending, PromotionPending, Promoted]
     = Inr [Scanning, ScanAccepted, PromotionPending, PromotionPending, Promoted]
   \<and> last [Scanning, ScanAccepted, PromotionPending] = PromotionPending"
proof
  show run: "runTransitions transitionQuarantine Scanning [ScanAccepted, PromotionPending, PromotionPending, Promoted]
     = Inr [Scanning, ScanAccepted, PromotionPending, PromotionPending, Promoted]"
    by (simp add: transitionQuarantine_def canTransitionQuarantine_def)
  from quarantine_history_safe [OF run, of "[Scanning, ScanAccepted, PromotionPending]" Promoted "[]"]
  show "last [Scanning, ScanAccepted, PromotionPending] = PromotionPending" by simp
qed

end
