(* ===== verification/Quarantine.thy ===== *)
theory Quarantine
  imports StateMachines Json
begin

text \<open>
  The quarantine scan of uploads: \<open>packages/operations/src/quarantine-scan.ts\<close> (the public
  status, the outcome table, \<open>QuarantineScanOrchestrator\<close>) and
  \<open>packages/operations/src/quarantine-scan-store.ts\<close> (the store interface, its identity rules
  and \<open>InMemoryQuarantineScanStore\<close>). The store is the interface of the locale \<open>scan_store\<close>;
  the malware scanner is a parameter.
\<close>

section \<open>Data\<close>

datatype scanOutcome = Clean | Malicious | Suspicious | Unsupported | OutcomeError | Timeout

primrec scanOutcome_text :: "scanOutcome \<Rightarrow> string" where
  "scanOutcome_text Clean = ''clean''"
| "scanOutcome_text Malicious = ''malicious''"
| "scanOutcome_text Suspicious = ''suspicious''"
| "scanOutcome_text Unsupported = ''unsupported''"
| "scanOutcome_text OutcomeError = ''error''"
| "scanOutcome_text Timeout = ''timeout''"

lemma scanOutcome_text_inj: "scanOutcome_text a = scanOutcome_text b \<Longrightarrow> a = b"
  by (cases a; cases b) simp_all

record scanRequest =
  sq_scanJobId :: string
  sq_workspaceId :: string
  sq_uploadId :: string
  sq_storageKey :: string

record scanCallback =
  cb_scanJobId :: string
  cb_workspaceId :: string
  cb_outcome :: scanOutcome
  cb_engine :: "string option"
  cb_authentic :: bool

record quarantineScanRecord =
  qr_scanJobId :: string
  qr_workspaceId :: string
  qr_uploadId :: string
  qr_storageKey :: string
  qr_state :: scanState
  qr_outcome :: "scanOutcome option"
  qr_createdAt :: string
  qr_updatedAt :: string

section \<open>The public status\<close>

definition forbiddenPublicKeys :: "string list" where
  "forbiddenPublicKeys =
     [''scanJobId'', ''storageKey'', ''bucket'', ''provider'', ''engine'', ''url'', ''callback'']"

definition toUploadScanStatus :: "quarantineScanRecord \<Rightarrow> js_error + (string \<times> json) list" where
  "toUploadScanStatus r =
     (let status = [(''uploadId'', JStr (qr_uploadId r)), (''workspaceId'', JStr (qr_workspaceId r)),
            (''state'', JStr (scanState_text (qr_state r))), (''updatedAt'', JStr (qr_updatedAt r))]
          @ (case qr_outcome r of None \<Rightarrow> [] | Some outc \<Rightarrow> [(''outcome'', JStr (scanOutcome_text outc))]) in
      case List.find (\<lambda>k. k \<in> fst ` set status) forbiddenPublicKeys of
        Some k \<Rightarrow> Inl (plainError (''Public scan status must not expose '' @ k))
      | None \<Rightarrow> Inr status)"

fun outcomeState :: "scanOutcome \<Rightarrow> scanState" where
  "outcomeState Clean = ScanAccepted"
| "outcomeState Malicious = ScanRejected"
| "outcomeState Suspicious = ManualReview"
| "outcomeState Unsupported = ScanFailed"
| "outcomeState OutcomeError = ScanFailed"
| "outcomeState Timeout = ScanFailed"

section \<open>The store\<close>

definition quarantineScanConflictError :: "string \<Rightarrow> js_error" where
  "quarantineScanConflictError msg =
     JsError ''QuarantineScanConflictError'' (Some ''QUARANTINE_SCAN_CONFLICT'') msg"

datatype saveAction = SaveInsert | SaveUpdate

definition resolveQuarantineScanSave ::
  "quarantineScanRecord option \<Rightarrow> quarantineScanRecord option \<Rightarrow> quarantineScanRecord \<Rightarrow> js_error + saveAction" where
  "resolveQuarantineScanSave existingByJobId existingByUpload incoming =
     (case existingByJobId of
        Some e \<Rightarrow>
          if qr_workspaceId e \<noteq> qr_workspaceId incoming \<or> qr_uploadId e \<noteq> qr_uploadId incoming
          then Inl (quarantineScanConflictError
                 ''Scan job id is already bound to a different workspace or upload.'')
          else if qr_storageKey e \<noteq> qr_storageKey incoming \<or> qr_createdAt e \<noteq> qr_createdAt incoming
          then Inl (quarantineScanConflictError ''Scan record storage key and createdAt are immutable.'')
          else Inr SaveUpdate
      | None \<Rightarrow>
          (case existingByUpload of
             Some e \<Rightarrow>
               if qr_scanJobId e \<noteq> qr_scanJobId incoming
               then Inl (quarantineScanConflictError
                      ''Upload already has a quarantine scan with a different scan job id.'')
               else if qr_storageKey e \<noteq> qr_storageKey incoming \<or> qr_createdAt e \<noteq> qr_createdAt incoming
               then Inl (quarantineScanConflictError ''Scan record storage key and createdAt are immutable.'')
               else Inr SaveUpdate
           | None \<Rightarrow> Inr SaveInsert))"

record 'st quarantineScanStore =
  qss_getByUploadId :: "string \<Rightarrow> string \<Rightarrow> ('st, quarantineScanRecord option) js"
  qss_getByScanJobId :: "string \<Rightarrow> string \<Rightarrow> ('st, quarantineScanRecord option) js"
  qss_save :: "quarantineScanRecord \<Rightarrow> ('st, unit) js"

text \<open>\<open>InMemoryQuarantineScanStore\<close>: the insertion-ordered map from job id to record.\<close>

type_synonym memoryScanStore = "(string \<times> quarantineScanRecord) list"

definition memGetByUploadId :: "string \<Rightarrow> string \<Rightarrow> (memoryScanStore, quarantineScanRecord option) js" where
  "memGetByUploadId workspaceId uploadId =
     reading (\<lambda>byJobId. List.find (\<lambda>r. qr_workspaceId r = workspaceId \<and> qr_uploadId r = uploadId)
       (map snd byJobId))"

definition memGetByScanJobId :: "string \<Rightarrow> string \<Rightarrow> (memoryScanStore, quarantineScanRecord option) js" where
  "memGetByScanJobId workspaceId scanJobId =
     reading (\<lambda>byJobId. case map_of byJobId scanJobId of
        None \<Rightarrow> None
      | Some r \<Rightarrow> if qr_workspaceId r \<noteq> workspaceId then None else Some r)"

definition memSave :: "quarantineScanRecord \<Rightarrow> (memoryScanStore, unit) js" where
  "memSave r =
     andThen (reading (\<lambda>byJobId. map_of byJobId (qr_scanJobId r))) (\<lambda>existingByJobId.
     andThen (memGetByUploadId (qr_workspaceId r) (qr_uploadId r)) (\<lambda>existingByUpload.
     andThen (lifting (resolveQuarantineScanSave existingByJobId existingByUpload r)) (\<lambda>_.
       updating (AList.update (qr_scanJobId r) r))))"

definition memoryScanStoreOps :: "memoryScanStore quarantineScanStore" where
  "memoryScanStoreOps = \<lparr>qss_getByUploadId = memGetByUploadId,
     qss_getByScanJobId = memGetByScanJobId, qss_save = memSave\<rparr>"

section \<open>The orchestrator\<close>

record ('st, 'sc) orchestrator =
  or_processed :: "string list"
  or_store :: 'st
  or_scanner :: 'sc
  or_clock :: ambient

definition onStore :: "('st, 'a) js \<Rightarrow> (('st, 'sc) orchestrator, 'a) js" where
  "onStore = within or_store (\<lambda>st s. s\<lparr>or_store := st\<rparr>)"

definition onScanner :: "('sc, 'a) js \<Rightarrow> (('st, 'sc) orchestrator, 'a) js" where
  "onScanner = within or_scanner (\<lambda>sc s. s\<lparr>or_scanner := sc\<rparr>)"

definition clockNow :: "(('st, 'sc) orchestrator, string) js" where
  "clockNow = within or_clock (\<lambda>c s. s\<lparr>or_clock := c\<rparr>) now"

definition addProcessed :: "string \<Rightarrow> (('st, 'sc) orchestrator, unit) js" where
  "addProcessed k = updating (\<lambda>s. s\<lparr>or_processed := List.insert k (or_processed s)\<rparr>)"

definition queueUploaded ::
  "'st quarantineScanStore \<Rightarrow> (scanRequest \<Rightarrow> ('sc, unit) js) \<Rightarrow> scanRequest
     \<Rightarrow> (('st, 'sc) orchestrator, quarantineScanRecord) js" where
  "queueUploaded ops submit inp =
     andThen (onStore (qss_getByScanJobId ops (sq_workspaceId inp) (sq_scanJobId inp))) (\<lambda>existing.
       case existing of
         Some r \<Rightarrow> ret r
       | None \<Rightarrow>
           andThen clockNow (\<lambda>now0.
           let record0 = \<lparr>qr_scanJobId = sq_scanJobId inp, qr_workspaceId = sq_workspaceId inp,
                 qr_uploadId = sq_uploadId inp, qr_storageKey = sq_storageKey inp, qr_state = Uploaded,
                 qr_outcome = None, qr_createdAt = now0, qr_updatedAt = now0\<rparr> in
           andThen (lifting (transitionQuarantine (qr_state record0) ScanQueued)) (\<lambda>state1.
           andThen clockNow (\<lambda>now1.
           let record1 = record0\<lparr>qr_state := state1, qr_updatedAt := now1\<rparr> in
           andThen (onStore (qss_save ops record1)) (\<lambda>_.
           andThen (lifting (transitionQuarantine (qr_state record1) Scanning)) (\<lambda>state2.
           andThen clockNow (\<lambda>now2.
           let record2 = record1\<lparr>qr_state := state2, qr_updatedAt := now2\<rparr> in
           andThen (onScanner (submit inp)) (\<lambda>_.
           andThen (onStore (qss_save ops record2)) (\<lambda>_. ret record2)))))))))"

definition callbackKeyOf :: "scanCallback \<Rightarrow> string" where
  "callbackKeyOf cb = cb_scanJobId cb @ '':'' @ scanOutcome_text (cb_outcome cb)"

definition handleCallback ::
  "'st quarantineScanStore \<Rightarrow> scanCallback \<Rightarrow> (('st, 'sc) orchestrator, quarantineScanRecord) js" where
  "handleCallback ops cb =
     (if \<not> cb_authentic cb then throw (plainError ''Scan callback failed authenticity verification'')
      else
        andThen (onStore (qss_getByScanJobId ops (cb_workspaceId cb) (cb_scanJobId cb))) (\<lambda>found.
          case found of
            None \<Rightarrow> throw (plainError ''Unknown scan job'')
          | Some r \<Rightarrow>
              if qr_workspaceId r \<noteq> cb_workspaceId cb then throw (plainError ''Unknown scan job'')
              else
                andThen (reading or_processed) (\<lambda>processed.
                  if callbackKeyOf cb \<in> set processed then ret r
                  else if qr_outcome r = Some (cb_outcome cb) \<and> qr_state r = outcomeState (cb_outcome cb)
                  then andThen (addProcessed (callbackKeyOf cb)) (\<lambda>_. ret r)
                  else if qr_state r \<noteq> Scanning
                  then throw (invalidQuarantineTransition (qr_state r) ScanAccepted)
                  else
                    andThen (lifting (transitionQuarantine (qr_state r) (outcomeState (cb_outcome cb)))) (\<lambda>state.
                    andThen clockNow (\<lambda>t.
                      let updated = r\<lparr>qr_state := state, qr_outcome := Some (cb_outcome cb), qr_updatedAt := t\<rparr> in
                      andThen (addProcessed (callbackKeyOf cb)) (\<lambda>_.
                      andThen (onStore (qss_save ops updated)) (\<lambda>_. ret updated)))))))"

text \<open>\<open>FakeMalwareScanner\<close> records the job ids submitted to it.\<close>

definition fakeSubmit :: "scanRequest \<Rightarrow> (string list, unit) js" where
  "fakeSubmit inp = updating (\<lambda>submitted. submitted @ [sq_scanJobId inp])"

text \<open>One call of the orchestrator.\<close>

inductive orchestrator_step ::
  "'st quarantineScanStore \<Rightarrow> (scanRequest \<Rightarrow> ('sc, unit) js) \<Rightarrow> ('st, 'sc) orchestrator
     \<Rightarrow> ('st, 'sc) orchestrator \<Rightarrow> bool" for ops submit where
  queue: "queueUploaded ops submit inp s = (r, t) \<Longrightarrow> orchestrator_step ops submit s t"
| callback: "handleCallback ops cb s = (r, t) \<Longrightarrow> orchestrator_step ops submit s t"

inductive_cases orchestrator_stepE: "orchestrator_step ops submit s t"

section \<open>The contract of a scan store\<close>

definition sameIdentity :: "quarantineScanRecord \<Rightarrow> quarantineScanRecord \<Rightarrow> bool" where
  "sameIdentity a b \<longleftrightarrow> qr_scanJobId a = qr_scanJobId b \<and> qr_workspaceId a = qr_workspaceId b
     \<and> qr_uploadId a = qr_uploadId b \<and> qr_storageKey a = qr_storageKey b \<and> qr_createdAt a = qr_createdAt b"

definition uniqueUploads :: "(string \<rightharpoonup> quarantineScanRecord) \<Rightarrow> bool" where
  "uniqueUploads m \<longleftrightarrow> (\<forall>i j a b. m i = Some a \<longrightarrow> m j = Some b \<longrightarrow>
     qr_workspaceId a = qr_workspaceId b \<longrightarrow> qr_uploadId a = qr_uploadId b \<longrightarrow> i = j)"

text \<open>
  A record in the store is either waiting for its scan, without outcome, or has the outcome of
  an authentic callback and the state that belongs to it.
\<close>

definition verdictOk :: "quarantineScanRecord \<Rightarrow> bool" where
  "verdictOk r \<longleftrightarrow> (case qr_outcome r of
      None \<Rightarrow> qr_state r = ScanQueued \<or> qr_state r = Scanning
    | Some outc \<Rightarrow> qr_state r = outcomeState outc)"

definition recordsOk :: "(string \<rightharpoonup> quarantineScanRecord) \<Rightarrow> bool" where
  "recordsOk m \<longleftrightarrow> (\<forall>j r. m j = Some r \<longrightarrow> qr_scanJobId r = j \<and> verdictOk r) \<and> uniqueUploads m"

lemma recordsOkD: "recordsOk m \<Longrightarrow> m j = Some r \<Longrightarrow> qr_scanJobId r = j \<and> verdictOk r"
  by (simp add: recordsOk_def)

lemma outcomeState_not_scanning: "Scanning = outcomeState x \<Longrightarrow> False"
  by (cases x) simp_all

lemma scanning_no_outcome: "verdictOk r \<Longrightarrow> qr_state r = Scanning \<Longrightarrow> qr_outcome r = None"
  by (cases "qr_outcome r") (auto simp: verdictOk_def dest: outcomeState_not_scanning)

text \<open>
  How the store may evolve: identities stay, and a record with an outcome never changes.
\<close>

definition verdictsFinal ::
  "(string \<rightharpoonup> quarantineScanRecord) \<Rightarrow> (string \<rightharpoonup> quarantineScanRecord) \<Rightarrow> bool" where
  "verdictsFinal m m' \<longleftrightarrow> (\<forall>j r. m j = Some r \<longrightarrow>
     (\<exists>r'. m' j = Some r' \<and> sameIdentity r r' \<and> (qr_outcome r \<noteq> None \<longrightarrow> r' = r)))"

lemma verdictsFinal_refl [simp]: "verdictsFinal m m"
  by (simp add: verdictsFinal_def sameIdentity_def)

lemma sameIdentity_refl: "sameIdentity a a"
  by (simp add: sameIdentity_def)

lemma sameIdentity_trans: "sameIdentity a b \<Longrightarrow> sameIdentity b c \<Longrightarrow> sameIdentity a c"
  by (simp add: sameIdentity_def)

lemma verdictsFinalD:
  "verdictsFinal m m' \<Longrightarrow> m j = Some r \<Longrightarrow>
     \<exists>r'. m' j = Some r' \<and> sameIdentity r r' \<and> (qr_outcome r \<noteq> None \<longrightarrow> r' = r)"
  by (simp add: verdictsFinal_def)

lemma verdictsFinal_trans:
  assumes "verdictsFinal m n" "verdictsFinal n p"
  shows "verdictsFinal m p"
  unfolding verdictsFinal_def
proof (intro allI impI)
  fix j r assume "m j = Some r"
  then obtain r' where r': "n j = Some r'" "sameIdentity r r'" "qr_outcome r \<noteq> None \<longrightarrow> r' = r"
    using verdictsFinalD [OF assms(1)] by blast
  then obtain r'' where "p j = Some r''" "sameIdentity r' r''" "qr_outcome r' \<noteq> None \<longrightarrow> r'' = r'"
    using verdictsFinalD [OF assms(2)] by blast
  with r' show "\<exists>r''. p j = Some r'' \<and> sameIdentity r r'' \<and> (qr_outcome r \<noteq> None \<longrightarrow> r'' = r)"
    by (blast intro: sameIdentity_trans)
qed

locale scan_store =
  fixes ops :: "'st quarantineScanStore" and recs :: "'st \<Rightarrow> string \<rightharpoonup> quarantineScanRecord"
    and wf :: "'st \<Rightarrow> bool"
  assumes get_job: "qss_getByScanJobId ops w j s = (r, t) \<Longrightarrow> t = s \<and>
      (\<forall>x. r = Inr x \<longrightarrow> x = (case recs s j of None \<Rightarrow> None | Some q \<Rightarrow> if qr_workspaceId q = w then Some q else None))"
    and save_ok: "qss_save ops q s = (Inr u, t) \<Longrightarrow>
      recs t = (recs s)(qr_scanJobId q \<mapsto> q) \<and> (\<forall>p. recs s (qr_scanJobId q) = Some p \<longrightarrow>
        qr_workspaceId p = qr_workspaceId q \<and> qr_uploadId p = qr_uploadId q
        \<and> qr_storageKey p = qr_storageKey q \<and> qr_createdAt p = qr_createdAt q)"
    and save_unique: "qss_save ops q s = (Inr u, t) \<Longrightarrow> wf s \<Longrightarrow> recordsOk (recs s) \<Longrightarrow>
      uniqueUploads (recs t)"
    and save_wf: "qss_save ops q s = (r', t) \<Longrightarrow> wf s \<Longrightarrow> wf t"
    and save_err: "qss_save ops q s = (Inl e, t) \<Longrightarrow> recs t = recs s"
begin

definition storeOk :: "'st \<Rightarrow> bool" where
  "storeOk st \<longleftrightarrow> wf st \<and> recordsOk (recs st)"

lemma storeOkD: "storeOk st \<Longrightarrow> recordsOk (recs st)"
  by (simp add: storeOk_def)

lemma save_keeps:
  assumes "qss_save ops q s = (r, t)" "storeOk s" "verdictOk q"
    and "\<And>p. recs s (qr_scanJobId q) = Some p \<Longrightarrow> qr_workspaceId p = qr_workspaceId q \<Longrightarrow> qr_outcome p = None"
  shows "storeOk t \<and> verdictsFinal (recs s) (recs t)"
proof (cases r)
  case (Inl e)
  with assms save_wf [OF assms(1)] show ?thesis by (auto simp: storeOk_def dest: save_err)
next
  case (Inr u)
  with assms have run: "qss_save ops q s = (Inr u, t)" by simp
  note ok = save_ok [OF run]
  have "storeOk t"
    using ok save_unique [OF run] save_wf [OF run] assms(2,3) by (simp add: storeOk_def recordsOk_def)
  moreover have "sameIdentity p q \<and> qr_outcome p = None" if p: "recs s (qr_scanJobId q) = Some p" for p
  proof -
    have "qr_scanJobId p = qr_scanJobId q" using p assms(2) by (simp add: storeOk_def recordsOk_def)
    moreover have "qr_workspaceId p = qr_workspaceId q" "qr_uploadId p = qr_uploadId q"
      "qr_storageKey p = qr_storageKey q" "qr_createdAt p = qr_createdAt q"
      using p ok by blast+
    ultimately show ?thesis using assms(4) [OF p] by (simp add: sameIdentity_def)
  qed
  then have "verdictsFinal (recs s) (recs t)"
    unfolding ok [THEN conjunct1] verdictsFinal_def by (auto simp: sameIdentity_refl)
  ultimately show ?thesis ..
qed

lemma queue_evolves:
  assumes run: "queueUploaded ops submit inp s = (r, t)" and ok: "storeOk (or_store s)"
  shows "storeOk (or_store t) \<and> verdictsFinal (recs (or_store s)) (recs (or_store t))"
proof -
  obtain rg sg where get: "qss_getByScanJobId ops (sq_workspaceId inp) (sq_scanJobId inp) (or_store s) = (rg, sg)"
    by fastforce
  note g = get_job [OF get]
  show ?thesis
  proof (cases "rg = Inr None")
    case False
    then consider e where "rg = Inl e" | x where "rg = Inr (Some x)"
      by (metis option.exhaust sum.exhaust)
    then have "or_store t = or_store s"
      by cases (use run g in \<open>simp_all add: queueUploaded_def onStore_def js_simps get\<close>)
    then show ?thesis using ok by simp
  next
    case True
    let ?c = "or_clock s"
    let ?q1 = "\<lparr>qr_scanJobId = sq_scanJobId inp, qr_workspaceId = sq_workspaceId inp,
       qr_uploadId = sq_uploadId inp, qr_storageKey = sq_storageKey inp, qr_state = ScanQueued,
       qr_outcome = None, qr_createdAt = nowAt ?c (ticks ?c), qr_updatedAt = nowAt ?c (ticks ?c + 1)\<rparr>"
    let ?q2 = "?q1\<lparr>qr_state := Scanning, qr_updatedAt := nowAt ?c (ticks ?c + 2)\<rparr>"
    have free: "qr_workspaceId p \<noteq> sq_workspaceId inp" if "recs (or_store s) (sq_scanJobId inp) = Some p" for p
      using True g that by (auto split: if_splits)
    obtain r1 s1 where save1: "qss_save ops ?q1 (or_store s) = (r1, s1)" by fastforce
    have one: "storeOk s1 \<and> verdictsFinal (recs (or_store s)) (recs s1)"
      by (rule save_keeps [OF save1 ok]) (auto simp: verdictOk_def dest: free)
    obtain rs sc where sub: "submit inp (or_scanner s) = (rs, sc)" by fastforce
    obtain r2 s2 where save2: "qss_save ops ?q2 s1 = (r2, s2)" by fastforce
    have run': "queueUploaded ops submit inp s =
        (case r1 of Inl e \<Rightarrow> (Inl e, s\<lparr>or_clock := ?c\<lparr>ticks := ticks ?c + 2\<rparr>, or_store := s1\<rparr>)
         | Inr _ \<Rightarrow> (case rs of
             Inl e \<Rightarrow> (Inl e, s\<lparr>or_clock := ?c\<lparr>ticks := ticks ?c + 3\<rparr>, or_store := s1, or_scanner := sc\<rparr>)
           | Inr _ \<Rightarrow> (case r2 of Inl e \<Rightarrow> Inl e | Inr _ \<Rightarrow> Inr ?q2,
               s\<lparr>or_clock := ?c\<lparr>ticks := ticks ?c + 3\<rparr>, or_scanner := sc, or_store := s2\<rparr>)))"
      using g True get save1 sub save2
      by (simp add: queueUploaded_def onStore_def onScanner_def clockNow_def js_simps Let_def
          transitionQuarantine_def canTransitionQuarantine_def split: sum.splits)
    show ?thesis
    proof (cases "isOk r1 \<and> isOk rs")
      case False
      then have "or_store t = s1" using run run' by (auto simp: isOk_def split: sum.splits)
      then show ?thesis using one by simp
    next
      case ok12: True
      then have "recs s1 = (recs (or_store s))(sq_scanJobId inp \<mapsto> ?q1)"
        using save1 save_ok by (fastforce simp: isOk_iff)
      then have two: "storeOk s2 \<and> verdictsFinal (recs s1) (recs s2)"
        by (intro save_keeps [OF save2]) (use one in \<open>auto simp: verdictOk_def\<close>)
      from ok12 have "or_store t = s2" using run run' by (auto simp: isOk_iff)
      then show ?thesis using one two verdictsFinal_trans by blast
    qed
  qed
qed

text \<open>A callback either leaves the store alone or records its outcome for a scanning job.\<close>

lemma callback_cases:
  assumes run: "handleCallback ops cb s = (r, t)"
  obtains (same) "or_store t = or_store s"
      "\<And>q. r = Inr q \<Longrightarrow> recs (or_store s) (cb_scanJobId cb) = Some q \<and> qr_workspaceId q = cb_workspaceId cb
          \<and> cb_authentic cb \<and> callbackKeyOf cb \<in> set (or_processed t)"
  | (verdict) q x r1 where "cb_authentic cb" "recs (or_store s) (cb_scanJobId cb) = Some q"
      "qr_workspaceId q = cb_workspaceId cb" "qr_state q = Scanning"
      "qss_save ops (q\<lparr>qr_state := outcomeState (cb_outcome cb), qr_outcome := Some (cb_outcome cb),
         qr_updatedAt := x\<rparr>) (or_store s) = (r1, or_store t)"
      "callbackKeyOf cb \<in> set (or_processed t)"
      "r = (case r1 of Inl e \<Rightarrow> Inl e | Inr _ \<Rightarrow> Inr (q\<lparr>qr_state := outcomeState (cb_outcome cb),
         qr_outcome := Some (cb_outcome cb), qr_updatedAt := x\<rparr>))"
proof -
  obtain rg sg where get: "qss_getByScanJobId ops (cb_workspaceId cb) (cb_scanJobId cb) (or_store s) = (rg, sg)"
    by fastforce
  note g = get_job [OF get]
  show thesis
  proof (cases "cb_authentic cb")
    case False
    then show ?thesis by (intro same) (use run in \<open>auto simp: handleCallback_def js_simps\<close>)
  next
    case auth: True
    consider e where "rg = Inl e" | "rg = Inr None" | q where "rg = Inr (Some q)"
      by (metis option.exhaust sum.exhaust)
    then show thesis
    proof cases
      case 1
      then show ?thesis
        by (intro same) (use run auth g in \<open>auto simp: handleCallback_def onStore_def js_simps get\<close>)
    next
      case 2
      then show ?thesis
        by (intro same) (use run auth g in \<open>auto simp: handleCallback_def onStore_def js_simps get\<close>)
    next
      case (3 q)
      then have q: "recs (or_store s) (cb_scanJobId cb) = Some q" "qr_workspaceId q = cb_workspaceId cb"
        using g by (auto split: option.splits if_splits)
      let ?c = "or_clock s"
      let ?q' = "q\<lparr>qr_state := outcomeState (cb_outcome cb), qr_outcome := Some (cb_outcome cb),
         qr_updatedAt := nowAt ?c (ticks ?c)\<rparr>"
      have go: "transitionQuarantine Scanning (outcomeState (cb_outcome cb)) = Inr (outcomeState (cb_outcome cb))"
        by (cases "cb_outcome cb") (simp_all add: transitionQuarantine_def canTransitionQuarantine_def)
      obtain r1 s1 where save: "qss_save ops ?q' (or_store s) = (r1, s1)" by fastforce
      show ?thesis
      proof (cases "callbackKeyOf cb \<in> set (or_processed s)
          \<or> (qr_outcome q = Some (cb_outcome cb) \<and> qr_state q = outcomeState (cb_outcome cb)) \<or> qr_state q \<noteq> Scanning")
        case True
        then show ?thesis
          by (intro same) (use run auth g q 3 in \<open>auto simp: handleCallback_def onStore_def addProcessed_def
              js_simps get split: if_splits\<close>)
      next
        case False
        then have "r = (case r1 of Inl e \<Rightarrow> Inl e | Inr _ \<Rightarrow> Inr ?q') \<and> or_store t = s1
            \<and> callbackKeyOf cb \<in> set (or_processed t)"
          using run auth g q 3 go save
          by (auto simp: handleCallback_def onStore_def clockNow_def addProcessed_def js_simps get Let_def
              split: sum.splits)
        with auth q False save show ?thesis by (intro verdict [of q "nowAt ?c (ticks ?c)" r1]) auto
      qed
    qed
  qed
qed

lemma callback_evolves:
  assumes run: "handleCallback ops cb s = (r, t)" and ok: "storeOk (or_store s)"
  shows "storeOk (or_store t) \<and> verdictsFinal (recs (or_store s)) (recs (or_store t))"
  using run
proof (cases rule: callback_cases)
  case same
  then show ?thesis using ok by simp
next
  case (verdict q x r1)
  have "qr_scanJobId q = cb_scanJobId cb" "qr_outcome q = None"
    using recordsOkD [OF storeOkD [OF ok] verdict(2)] verdict(4) scanning_no_outcome by auto
  then show ?thesis
    using verdict(2) by (intro save_keeps [OF verdict(5) ok]) (auto simp: verdictOk_def)
qed

lemma step_evolves:
  assumes "orchestrator_step ops submit s t" "storeOk (or_store s)"
  shows "storeOk (or_store t) \<and> verdictsFinal (recs (or_store s)) (recs (or_store t))"
  using assms by (auto elim!: orchestrator_stepE dest: queue_evolves callback_evolves)

lemma run_evolves:
  assumes "(orchestrator_step ops submit)\<^sup>*\<^sup>* s t" "storeOk (or_store s)"
  shows "storeOk (or_store t) \<and> verdictsFinal (recs (or_store s)) (recs (or_store t))"
  using assms
proof (induction rule: rtranclp_induct)
  case (step y z)
  then show ?case by (meson step_evolves verdictsFinal_trans)
qed simp

text \<open>A record becomes accepted only by an authentic callback that reports a clean scan.\<close>

lemma acceptance_authentic:
  assumes step: "handleCallback ops cb s = (r, t)" and ok: "storeOk (or_store s)"
    and new: "recs (or_store t) j = Some q" "qr_state q = ScanAccepted" "recs (or_store s) j \<noteq> Some q"
  shows "cb_authentic cb \<and> cb_scanJobId cb = j \<and> cb_workspaceId cb = qr_workspaceId q \<and> cb_outcome cb = Clean"
  using step
proof (cases rule: callback_cases)
  case same
  then show ?thesis using new by simp
next
  case (verdict p x r1)
  then have "qr_scanJobId p = cb_scanJobId cb" using recordsOkD [OF storeOkD [OF ok]] by blast
  moreover have "isOk r1"
    using verdict(5) new(1,3) save_err by (cases r1) auto
  then have "recs (or_store t) = (recs (or_store s))(qr_scanJobId p \<mapsto> p\<lparr>qr_state := outcomeState (cb_outcome cb),
       qr_outcome := Some (cb_outcome cb), qr_updatedAt := x\<rparr>)"
    using verdict(5) save_ok by (fastforce simp: isOk_iff)
  ultimately have "j = cb_scanJobId cb \<and> q = p\<lparr>qr_state := outcomeState (cb_outcome cb),
       qr_outcome := Some (cb_outcome cb), qr_updatedAt := x\<rparr>"
    using new by (auto split: if_splits)
  with verdict new(2) show ?thesis by (cases "cb_outcome cb") auto
qed

end

section \<open>The in-memory store meets the contract\<close>

lemma resolve_ok:
  "resolveQuarantineScanSave (Some e) u q = Inr a \<Longrightarrow>
     qr_workspaceId e = qr_workspaceId q \<and> qr_uploadId e = qr_uploadId q
       \<and> qr_storageKey e = qr_storageKey q \<and> qr_createdAt e = qr_createdAt q"
  "resolveQuarantineScanSave None (Some e) q = Inr a \<Longrightarrow> qr_scanJobId e = qr_scanJobId q"
  by (auto simp: resolveQuarantineScanSave_def split: if_splits)

lemma memSave_spec:
  "memSave q s = (r, t) \<Longrightarrow>
     (case resolveQuarantineScanSave (map_of s (qr_scanJobId q))
        (List.find (\<lambda>p. qr_workspaceId p = qr_workspaceId q \<and> qr_uploadId p = qr_uploadId q) (map snd s)) q of
        Inl e \<Rightarrow> r = Inl e \<and> t = s
      | Inr _ \<Rightarrow> r = Inr () \<and> t = AList.update (qr_scanJobId q) q s)"
  by (auto simp: memSave_def memGetByUploadId_def js_simps split: sum.splits)

lemma uniqueUploads_update:
  assumes "uniqueUploads m"
    and "\<And>i p. m i = Some p \<Longrightarrow> qr_workspaceId p = qr_workspaceId q \<Longrightarrow> qr_uploadId p = qr_uploadId q \<Longrightarrow> i = j"
  shows "uniqueUploads (m(j \<mapsto> q))"
  unfolding uniqueUploads_def
proof (intro allI impI)
  fix i k a b
  assume "(m(j \<mapsto> q)) i = Some a" "(m(j \<mapsto> q)) k = Some b"
    "qr_workspaceId a = qr_workspaceId b" "qr_uploadId a = qr_uploadId b"
  then show "i = k"
    using assms(1) assms(2) [of i a] assms(2) [of k b] unfolding uniqueUploads_def
    by (metis fun_upd_other fun_upd_same option.inject)
qed

lemma memSave_unique:
  assumes "memSave q s = (Inr u, t)" "distinct (map fst s)" "recordsOk (map_of s)"
  shows "uniqueUploads (map_of t)"
proof -
  let ?same = "\<lambda>p. qr_workspaceId p = qr_workspaceId q \<and> qr_uploadId p = qr_uploadId q"
  let ?found = "List.find ?same (map snd s)"
  obtain a where a: "resolveQuarantineScanSave (map_of s (qr_scanJobId q)) ?found q = Inr a"
      and t: "t = AList.update (qr_scanJobId q) q s"
    using memSave_spec [OF assms(1)] by (auto split: sum.splits)
  have "i = qr_scanJobId q" if p: "map_of s i = Some p" "?same p" for i p
  proof (cases "map_of s (qr_scanJobId q)")
    case (Some e)
    with a have "?same e" using resolve_ok(1) by fastforce
    with p Some assms(3) show ?thesis unfolding recordsOk_def uniqueUploads_def by metis
  next
    case None
    have "p \<in> set (map snd s)" using map_of_SomeD [OF p(1)] by force
    then obtain e where e: "?found = Some e"
      using p(2) by (metis (mono_tags, lifting) find_None_iff_all option.exhaust)
    then obtain k where k: "map_of s k = Some e" "?same e"
      using find_SomeD [OF e] assms(2) by (fastforce simp: map_of_eq_Some_iff)
    have "k = i" using k p assms(3) unfolding recordsOk_def uniqueUploads_def by metis
    moreover have "qr_scanJobId e = k" using recordsOkD [OF assms(3) k(1)] by simp
    moreover have "qr_scanJobId e = qr_scanJobId q" using a None e resolve_ok(2) by fastforce
    ultimately show ?thesis by simp
  qed
  then show ?thesis
    unfolding t update_conv' using assms(3) by (intro uniqueUploads_update) (auto simp: recordsOk_def)
qed

interpretation memScan: scan_store memoryScanStoreOps map_of "\<lambda>s. distinct (map fst s)"
proof
  fix w j s r t
  assume "qss_getByScanJobId memoryScanStoreOps w j s = (r, t)"
  then show "t = s \<and> (\<forall>x. r = Inr x \<longrightarrow> x = (case map_of s j of None \<Rightarrow> None
      | Some q \<Rightarrow> if qr_workspaceId q = w then Some q else None))"
    by (auto simp: memoryScanStoreOps_def memGetByScanJobId_def js_simps split: option.splits)
next
  fix q s u t
  assume "qss_save memoryScanStoreOps q s = (Inr u, t)"
  then have run: "memSave q s = (Inr u, t)" by (simp add: memoryScanStoreOps_def)
  show "map_of t = (map_of s)(qr_scanJobId q \<mapsto> q) \<and> (\<forall>p. map_of s (qr_scanJobId q) = Some p \<longrightarrow>
      qr_workspaceId p = qr_workspaceId q \<and> qr_uploadId p = qr_uploadId q
      \<and> qr_storageKey p = qr_storageKey q \<and> qr_createdAt p = qr_createdAt q)"
    using memSave_spec [OF run] resolve_ok(1) by (auto simp: update_conv' split: sum.splits)
  show "distinct (map fst s) \<Longrightarrow> recordsOk (map_of s) \<Longrightarrow> uniqueUploads (map_of t)"
    by (rule memSave_unique [OF run])
next
  fix q s e t
  assume "qss_save memoryScanStoreOps q s = (Inl e, t)"
  then show "map_of t = map_of s"
    using memSave_spec [of q s "Inl e" t] by (auto simp: memoryScanStoreOps_def split: sum.splits)
next
  fix q s r' t
  assume "qss_save memoryScanStoreOps q s = (r', t)" "distinct (map fst s)"
  then show "distinct (map fst t)"
    using memSave_spec [of q s r' t]
    by (auto simp: memoryScanStoreOps_def distinct_update split: sum.splits)
qed

section \<open>Properties\<close>


definition sampleScan :: scanRequest where
  "sampleScan = \<lparr>sq_scanJobId = ''j1'', sq_workspaceId = ''w1'', sq_uploadId = ''u1'', sq_storageKey = ''k1''\<rparr>"

definition sampleVerdict :: "scanOutcome \<Rightarrow> scanCallback" where
  "sampleVerdict x = \<lparr>cb_scanJobId = ''j1'', cb_workspaceId = ''w1'', cb_outcome = x, cb_engine = None,
     cb_authentic = True\<rparr>"

definition sampleOrchestrator :: "(memoryScanStore, string list) orchestrator" where
  "sampleOrchestrator = \<lparr>or_processed = [], or_store = [], or_scanner = [],
     or_clock = \<lparr>nowAt = (\<lambda>n. show_nat n), ticks = 0, idAt = show_nat, idCount = 0\<rparr>\<rparr>"

definition sampleScanning :: "(memoryScanStore, string list) orchestrator" where
  "sampleScanning = snd (queueUploaded memoryScanStoreOps fakeSubmit sampleScan sampleOrchestrator)"

definition sampleJudged :: "(memoryScanStore, string list) orchestrator" where
  "sampleJudged = snd (handleCallback memoryScanStoreOps (sampleVerdict Clean) sampleScanning)"

lemmas orchestrator_defs = queueUploaded_def handleCallback_def onStore_def onScanner_def clockNow_def
  addProcessed_def memoryScanStoreOps_def memSave_def memGetByScanJobId_def memGetByUploadId_def
  resolveQuarantineScanSave_def fakeSubmit_def transitionQuarantine_def canTransitionQuarantine_def
  callbackKeyOf_def

lemma sampleScanning_eq:
  "sampleScanning = \<lparr>or_processed = [], or_store = [(''j1'', \<lparr>qr_scanJobId = ''j1'', qr_workspaceId = ''w1'',
       qr_uploadId = ''u1'', qr_storageKey = ''k1'', qr_state = Scanning, qr_outcome = None,
       qr_createdAt = show_nat 0, qr_updatedAt = show_nat 2\<rparr>)], or_scanner = [''j1''],
     or_clock = \<lparr>nowAt = (\<lambda>n. show_nat n), ticks = 3, idAt = show_nat, idCount = 0\<rparr>\<rparr>"
  by (simp add: sampleScanning_def sampleOrchestrator_def sampleScan_def orchestrator_defs js_simps Let_def
      numeral_2_eq_2)

lemma sampleJudged_store:
  "or_store sampleJudged = [(''j1'', \<lparr>qr_scanJobId = ''j1'', qr_workspaceId = ''w1'',
       qr_uploadId = ''u1'', qr_storageKey = ''k1'', qr_state = ScanAccepted, qr_outcome = Some Clean,
       qr_createdAt = show_nat 0, qr_updatedAt = show_nat 3\<rparr>)]"
  by (simp add: sampleJudged_def sampleScanning_eq sampleVerdict_def orchestrator_defs js_simps Let_def)

lemma sampleJudged_reachable:
  "(orchestrator_step memoryScanStoreOps fakeSubmit)\<^sup>*\<^sup>* sampleOrchestrator sampleJudged"
proof -
  have "orchestrator_step memoryScanStoreOps fakeSubmit sampleOrchestrator sampleScanning"
    unfolding sampleScanning_def by (rule orchestrator_step.queue [OF surjective_pairing])
  moreover have "orchestrator_step memoryScanStoreOps fakeSubmit sampleScanning sampleJudged"
    unfolding sampleJudged_def by (rule orchestrator_step.callback [OF surjective_pairing])
  ultimately show ?thesis by (simp add: converse_rtranclp_into_rtranclp)
qed


text \<open>
  C26. Only an authentic clean verdict accepts: when handling a callback leaves a record in
  state \<open>accepted\<close> that was not there before, the callback passed the authenticity check,
  names that record's job and workspace, and reports \<open>clean\<close>.
\<close>

theorem acceptance_needs_clean_callback:
  assumes "or_store s0 = []"
    and "(orchestrator_step memoryScanStoreOps submit)\<^sup>*\<^sup>* s0 s"
    and "handleCallback memoryScanStoreOps cb s = (r, t)"
    and "map_of (or_store t) j = Some q" and "qr_state q = ScanAccepted"
    and "map_of (or_store s) j \<noteq> Some q"
  shows "cb_authentic cb \<and> cb_scanJobId cb = j \<and> cb_workspaceId cb = qr_workspaceId q \<and> cb_outcome cb = Clean"
proof -
  have "memScan.storeOk (or_store s0)"
    using assms(1) by (simp add: memScan.storeOk_def recordsOk_def uniqueUploads_def)
  then have "memScan.storeOk (or_store s)" using memScan.run_evolves [OF assms(2)] by blast
  from memScan.acceptance_authentic [OF assms(3) this assms(4-6)] show ?thesis .
qed

theorem acceptance_needs_clean_callback_witness:
  "cb_authentic (sampleVerdict Clean) \<and> cb_outcome (sampleVerdict Clean) = Clean
   \<and> qr_state (the (map_of (or_store sampleJudged) ''j1'')) = ScanAccepted"
proof -
  have reach: "(orchestrator_step memoryScanStoreOps fakeSubmit)\<^sup>*\<^sup>* sampleOrchestrator sampleScanning"
    unfolding sampleScanning_def by (rule r_into_rtranclp) (rule orchestrator_step.queue [OF surjective_pairing])
  have run: "handleCallback memoryScanStoreOps (sampleVerdict Clean) sampleScanning =
      (fst (handleCallback memoryScanStoreOps (sampleVerdict Clean) sampleScanning), sampleJudged)"
    by (simp add: sampleJudged_def)
  have "or_store sampleOrchestrator = []" by (simp add: sampleOrchestrator_def)
  from acceptance_needs_clean_callback [OF this reach run, of "''j1''" "the (map_of (or_store sampleJudged) ''j1'')"]
  show ?thesis by (simp add: sampleJudged_store sampleScanning_eq)
qed

text \<open>
  Scanner callbacks are idempotent: once a callback was handled, delivering it again
  returns the same record and leaves the store as it is.
\<close>

theorem callback_idempotent:
  assumes "handleCallback memoryScanStoreOps cb s = (Inr q, t)"
    and "memScan.storeOk (or_store s)"
  shows "handleCallback memoryScanStoreOps cb t = (Inr q, t)"
proof -
  have "map_of (or_store t) (cb_scanJobId cb) = Some q \<and> qr_workspaceId q = cb_workspaceId cb
      \<and> cb_authentic cb \<and> callbackKeyOf cb \<in> set (or_processed t)"
    using assms(1)
  proof (cases rule: memScan.callback_cases)
    case (verdict p x r1)
    have "qr_scanJobId p = cb_scanJobId cb"
      using recordsOkD [OF memScan.storeOkD [OF assms(2)] verdict(2)] by simp
    moreover obtain u where u: "r1 = Inr u" using verdict(7) by (cases r1) auto
    note memScan.save_ok [OF verdict(5) [unfolded u], THEN conjunct1]
    ultimately show ?thesis using verdict(1,3,6,7) u by simp
  qed simp
  then show ?thesis
    by (simp add: handleCallback_def onStore_def memoryScanStoreOps_def memGetByScanJobId_def js_simps)
qed

theorem callback_idempotent_witness:
  "handleCallback memoryScanStoreOps (sampleVerdict Clean) sampleJudged
     = (fst (handleCallback memoryScanStoreOps (sampleVerdict Clean) sampleScanning), sampleJudged)"
proof -
  have run: "handleCallback memoryScanStoreOps (sampleVerdict Clean) sampleScanning =
      (Inr (the (map_of (or_store sampleJudged) ''j1'')), sampleJudged)"
    unfolding sampleJudged_store
    by (simp add: sampleJudged_def sampleScanning_eq sampleVerdict_def orchestrator_defs js_simps Let_def)
  have "memScan.storeOk (or_store sampleScanning)"
    by (simp add: sampleScanning_eq memScan.storeOk_def recordsOk_def uniqueUploads_def verdictOk_def)
  from callback_idempotent [OF run this] show ?thesis by (simp add: run)
qed

text \<open>
  The public scan status never fails its own guard and exposes nothing of the scan
  infrastructure: it is total, and its keys are exactly the upload, workspace, state, time and,
  when there is one, the outcome.
\<close>

theorem upload_scan_status_public:
  "\<exists>status. toUploadScanStatus r = Inr status
     \<and> set (map fst status) \<inter> set forbiddenPublicKeys = {}
     \<and> set (map fst status) = {''uploadId'', ''workspaceId'', ''state'', ''updatedAt''}
         \<union> (if qr_outcome r = None then {} else {''outcome''})"
  by (cases "qr_outcome r") (auto simp: toUploadScanStatus_def forbiddenPublicKeys_def)

end
