(* ===== verification/Promotion.thy ===== *)
theory Promotion
  imports MemoryStorage StateMachines
begin

text \<open>
  \<open>packages/operations/src/promote-quarantine.ts\<close>: moving the bytes of an accepted upload from
  its temporary locator to the immutable canonical one, over any object storage. The lemmas are
  proved once in the locale \<open>object_storage\<close>; the properties are its instances for the memory
  storage.
\<close>

record promoteQuarantineInput =
  pq_workspaceId :: string
  pq_quarantine :: string
  pq_canonical :: string
  pq_sha256 :: string
  pq_byteLength :: int
  pq_mediaType :: string
  pq_scanState :: scanState

definition declaredMatch :: "promoteQuarantineInput \<Rightarrow> objectMetadata \<Rightarrow> bool" where
  "declaredMatch inp meta = (om_byteLength meta = pq_byteLength inp \<and> om_sha256 meta = Some (pq_sha256 inp))"

definition promoteQuarantineObject ::
  "'s objectStorage \<Rightarrow> promoteQuarantineInput \<Rightarrow> ('s, objectMetadata) js" where
  "promoteQuarantineObject storage inp =
     (if pq_scanState inp \<noteq> ScanAccepted \<and> pq_scanState inp \<noteq> PromotionPending
      then throw (storageError InvalidRequest ''Promotion requires an accepted quarantine scan state'')
      else
        andThen (os_exists storage (pq_canonical inp)) (\<lambda>present.
          if present then
            andThen (os_head storage (pq_canonical inp)) (\<lambda>existing.
              if declaredMatch inp existing then ret existing
              else throw (storageError Conflict ''Canonical destination already contains conflicting content''))
          else
            andThen (os_exists storage (pq_quarantine inp)) (\<lambda>uploaded.
              if \<not> uploaded then throw (storageError NotFound ''Quarantine object was not found'')
              else
                andThen (os_head storage (pq_quarantine inp)) (\<lambda>head.
                  if om_byteLength head \<noteq> pq_byteLength inp
                     \<or> (case om_sha256 head of None \<Rightarrow> False
                         | Some h \<Rightarrow> h \<noteq> [] \<and> h \<noteq> pq_sha256 inp)
                  then throw (storageError InvalidRequest
                         ''Quarantine object does not match promotion checksum declaration'')
                  else if \<not> str_includes (pq_quarantine inp) ''/temporary/''
                  then throw (storageError InvalidRequest
                         ''Promotion source must be a temporary quarantine locator'')
                  else
                    andThen (os_commitImmutable storage (pq_quarantine inp) (pq_workspaceId inp)
                        (pq_sha256 inp) (pq_byteLength inp) (pq_mediaType inp)) (\<lambda>committed.
                      if om_sha256 committed = Some (pq_sha256 inp)
                         \<and> om_byteLength committed = pq_byteLength inp
                      then ret (objectMetadata.truncate committed)
                      else throw (storageError Conflict
                             ''Promotion destination does not match allocated canonical locator''))))))"

section \<open>Correctness over any storage\<close>

text \<open>The result of a promotion: the declared bytes stand under the key it returns.\<close>

definition promoted ::
  "promoteQuarantineInput \<Rightarrow> (string \<rightharpoonup> storedBytes) \<Rightarrow> objectMetadata \<Rightarrow> bool" where
  "promoted inp objs meta \<longleftrightarrow> (\<exists>b. objs (om_key meta) = Some b \<and> meta = metadataOf (om_key meta) b
     \<and> sb_sha256 b = pq_sha256 inp \<and> int (length (sb_body b)) = pq_byteLength inp
     \<and> (om_key meta = pq_canonical inp \<or> canonicalObjectKey (pq_workspaceId inp) (pq_sha256 inp) = Inr (om_key meta)))"

lemma metadataOf_simps [simp]:
  "om_key (metadataOf k b) = k" "om_byteLength (metadataOf k b) = int (length (sb_body b))"
  "om_mediaType (metadataOf k b) = sb_mediaType b" "om_sha256 (metadataOf k b) = Some (sb_sha256 b)"
  by (simp_all add: metadataOf_def)

lemma truncate_stored [simp]: "objectMetadata.truncate (storedObjectOf k b) = metadataOf k b"
  by (simp add: objectMetadata.truncate_def storedObjectOf_def metadataOf_def)

lemma storedObjectOf_simps [simp]:
  "om_key (storedObjectOf k b) = k" "om_byteLength (storedObjectOf k b) = int (length (sb_body b))"
  "om_sha256 (storedObjectOf k b) = Some (sb_sha256 b)"
  by (simp_all add: storedObjectOf_def)

lemma temporary_key_includes:
  assumes "isTemporaryKey k"
  shows "str_includes k ''/temporary/''"
proof -
  obtain b d where "split_on CHR ''/'' k = [''workspaces'', b, ''temporary'', d]"
    using assms by (auto simp: isTemporaryKey_def split: list.splits)
  then have "k = join ''/'' [''workspaces'', b, ''temporary'', d]"
    using join_split_on [of "CHR ''/''" k] by simp
  then have "k = (''workspaces/'' @ b) @ ''/temporary/'' @ d" by simp
  then show ?thesis unfolding str_includes_iff by blast
qed

context object_storage
begin

text \<open>The two ways a promotion can go, and the states they leave.\<close>

lemma promote_outcome:
  assumes run: "promoteQuarantineObject ops inp s = (r, t)"
  shows "keepsCanonical (objs s) (objs t) \<and> (contentAddressed sha (objs s) \<longrightarrow> contentAddressed sha (objs t))
    \<and> (\<forall>meta. r = Inr meta \<longrightarrow> promoted inp (objs t) meta
        \<and> (pq_scanState inp = ScanAccepted \<or> pq_scanState inp = PromotionPending))"
proof (cases "pq_scanState inp \<noteq> ScanAccepted \<and> pq_scanState inp \<noteq> PromotionPending")
  case True
  then show ?thesis using run by (auto simp: promoteQuarantineObject_def js_simps)
next
  case st: False
  obtain x1 s1 where e1: "os_exists ops (pq_canonical inp) s = (Inr x1, s1)" using exists_total by blast
  note E1 = exists_spec [OF e1]
  show ?thesis
  proof (cases x1)
    case True
    obtain rh s2 where h: "os_head ops (pq_canonical inp) s1 = (rh, s2)" by fastforce
    note H = head_spec [OF h]
    show ?thesis
      using run st e1 E1 True h H
      by (cases rh) (auto simp: promoteQuarantineObject_def js_simps promoted_def
          declaredMatch_def split: if_splits)
  next
    case False
    obtain x2 s2 where e2: "os_exists ops (pq_quarantine inp) s1 = (Inr x2, s2)" using exists_total by blast
    note E2 = exists_spec [OF e2]
    obtain rh s3 where h: "os_head ops (pq_quarantine inp) s2 = (rh, s3)" by fastforce
    note H = head_spec [OF h]
    obtain rc s4 where c: "os_commitImmutable ops (pq_quarantine inp) (pq_workspaceId inp)
        (pq_sha256 inp) (pq_byteLength inp) (pq_mediaType inp) s3 = (rc, s4)" by fastforce
    note C = commit_keeps [OF c]
    have same: "objs s3 = objs s" using E1 E2 H by simp
    have "objs t = objs s \<and> \<not> isOk r \<or> t = s4 \<and> \<not> isOk r \<or>
        t = s4 \<and> (\<exists>so. rc = Inr so \<and> r = Inr (objectMetadata.truncate so))"
      using run st e1 False e2 h c E1 E2 H
      by (cases x2; cases rh; cases rc) (auto simp: promoteQuarantineObject_def js_simps split: if_splits)
    then consider "objs t = objs s" "\<not> isOk r" | "t = s4" "\<not> isOk r"
      | so where "t = s4" "rc = Inr so" "r = Inr (objectMetadata.truncate so)" by blast
    then show ?thesis
    proof cases
      case (3 so)
      then have c': "os_commitImmutable ops (pq_quarantine inp) (pq_workspaceId inp)
          (pq_sha256 inp) (pq_byteLength inp) (pq_mediaType inp) s3 = (Inr so, t)" using c by simp
      obtain key b where "canonicalObjectKey (pq_workspaceId inp) (pq_sha256 inp) = Inr key"
          "sb_sha256 b = pq_sha256 inp" "int (length (sb_body b)) = pq_byteLength inp"
          "objs t = (objs s)(key \<mapsto> b, pq_quarantine inp := None)" "so = storedObjectOf key b"
          "isTemporaryKey (pq_quarantine inp)"
        using commit_ok [OF c'] unfolding committed_def same by blast
      moreover from this have "key \<noteq> pq_quarantine inp" using canonical_key_not_temporary by blast
      ultimately show ?thesis using C 3 same st by (auto simp: promoted_def)
    qed (use C same in auto)
  qed
qed

text \<open>A promotion succeeds when the quarantine object is the declared one and nothing is in the way.\<close>

lemma promote_succeeds:
  assumes st: "pq_scanState inp = ScanAccepted \<or> pq_scanState inp = PromotionPending"
    and key: "canonicalObjectKey (pq_workspaceId inp) (pq_sha256 inp) = Inr (pq_canonical inp)"
    and tmp: "isTemporaryKey (pq_quarantine inp)"
    and free: "objs s (pq_canonical inp) = None"
    and body: "objs s (pq_quarantine inp) = Some b" "sb_sha256 b = pq_sha256 inp"
      "int (length (sb_body b)) = pq_byteLength inp" "sb_mediaType b = pq_mediaType inp"
    and valid: "isSafeInteger (pq_byteLength inp)" "\<not> blank (pq_mediaType inp)"
  shows "\<exists>t. promoteQuarantineObject ops inp s = (Inr (metadataOf (pq_canonical inp) b), t)
           \<and> objs t = (objs s)(pq_canonical inp \<mapsto> b, pq_quarantine inp := None)"
proof -
  obtain x1 s1 where e1: "os_exists ops (pq_canonical inp) s = (Inr x1, s1)" using exists_total by blast
  obtain x2 s2 where e2: "os_exists ops (pq_quarantine inp) s1 = (Inr x2, s2)" using exists_total by blast
  note E = exists_spec [OF e1] exists_spec [OF e2]
  then obtain meta s3 where h: "os_head ops (pq_quarantine inp) s2 = (Inr meta, s3)"
    using head_total body(1) by metis
  note H = head_spec [OF h]
  have same: "objs s3 = objs s" using E H by simp
  obtain so t where c: "os_commitImmutable ops (pq_quarantine inp) (pq_workspaceId inp)
        (pq_sha256 inp) (pq_byteLength inp) (pq_mediaType inp) s3 = (Inr so, t)"
    using commit_succeeds [OF tmp key _ body(2,3) valid(1) body(4) valid(2), of s3] body(1) free same by auto
  have "committed (pq_quarantine inp) (pq_workspaceId inp) (pq_sha256 inp) (pq_byteLength inp) (objs s3) (objs t) so"
    using commit_ok [OF c] by blast
  then have so: "so = storedObjectOf (pq_canonical inp) b"
      "objs t = (objs s)(pq_canonical inp \<mapsto> b, pq_quarantine inp := None)"
    using key free body(1) same by (auto simp: committed_def)
  have "str_includes (pq_quarantine inp) ''/temporary/''" by (rule temporary_key_includes [OF tmp])
  then show ?thesis
    using e1 e2 h c st E H same free body so by (auto simp: promoteQuarantineObject_def js_simps)
qed

lemma promote_present:
  assumes st: "pq_scanState inp = ScanAccepted \<or> pq_scanState inp = PromotionPending"
    and body: "objs s (pq_canonical inp) = Some b" "sb_sha256 b = pq_sha256 inp"
      "int (length (sb_body b)) = pq_byteLength inp"
  shows "\<exists>t. promoteQuarantineObject ops inp s = (Inr (metadataOf (pq_canonical inp) b), t) \<and> objs t = objs s"
proof -
  obtain x1 s1 where e1: "os_exists ops (pq_canonical inp) s = (Inr x1, s1)" using exists_total by blast
  note E = exists_spec [OF e1]
  then obtain meta s2 where h: "os_head ops (pq_canonical inp) s1 = (Inr meta, s2)"
    using head_total body(1) by metis
  show ?thesis
    using e1 h E head_spec [OF h] st body
    by (auto simp: promoteQuarantineObject_def declaredMatch_def js_simps)
qed

end

section \<open>Properties\<close>

text \<open>
  C36. Promotion is safe: whatever the outcome, no canonical object changes and content
  addressing is kept. When it returns, the scan was accepted, and under the returned key stand
  bytes with the declared length whose hash is the declared one.
\<close>

theorem promotion_safe:
  assumes "promoteQuarantineObject (memoryStorageOps sha dayLater) inp s = (r, t)"
    and "contentAddressed sha (ms_objects s)"
  shows "keepsCanonical (ms_objects s) (ms_objects t) \<and> contentAddressed sha (ms_objects t)
    \<and> (case r of Inl _ \<Rightarrow> True
       | Inr meta \<Rightarrow> pq_scanState inp \<in> {ScanAccepted, PromotionPending}
           \<and> (\<exists>b. ms_objects t (om_key meta) = Some b \<and> sha (sb_body b) = pq_sha256 inp
                \<and> int (length (sb_body b)) = pq_byteLength inp))"
proof -
  note out = mem.promote_outcome [OF assms(1)]
  have ca: "contentAddressed sha (ms_objects t)" using out assms(2) by blast
  have "sha (sb_body b) = sb_sha256 b" if "ms_objects t k = Some b" for k b
    using ca that by (metis contentAddressed_def addressOk_hash)
  then show ?thesis using out ca by (cases r) (auto simp: promoted_def)
qed

definition samplePromotion :: promoteQuarantineInput where
  "samplePromotion = \<lparr>pq_workspaceId = ''w1'', pq_quarantine = sampleTemporaryKey,
     pq_canonical = sampleCanonicalKey, pq_sha256 = sampleDigest, pq_byteLength = 2,
     pq_mediaType = ''text/plain'', pq_scanState = ScanAccepted\<rparr>"

lemma sampleWritten_addressed: "contentAddressed (\<lambda>_. sampleDigest) (ms_objects sampleWritten)"
  by (simp add: sampleWritten_eq contentAddressed_def addressOk_temporary)
    (simp add: sampleStored_def)

lemma samplePromotion_run:
  "\<exists>t. promoteQuarantineObject (memoryStorageOps (\<lambda>_. sampleDigest) ''t1'') samplePromotion sampleWritten
     = (Inr (metadataOf sampleCanonicalKey sampleStored), t)"
  using mem.promote_succeeds [of samplePromotion sampleWritten sampleStored "\<lambda>_. sampleDigest" "''t1''"]
  by (auto simp: samplePromotion_def sampleCanonicalKey_ok sampleWritten_eq sampleStored_def isSafeInteger_def)

theorem promotion_safe_witness:
  "\<exists>t b. promoteQuarantineObject (memoryStorageOps (\<lambda>_. sampleDigest) ''t1'') samplePromotion sampleWritten
       = (Inr (metadataOf sampleCanonicalKey sampleStored), t)
     \<and> contentAddressed (\<lambda>_. sampleDigest) (ms_objects t)
     \<and> ms_objects t sampleCanonicalKey = Some b \<and> int (length (sb_body b)) = 2"
proof -
  obtain t where run: "promoteQuarantineObject (memoryStorageOps (\<lambda>_. sampleDigest) ''t1'') samplePromotion
      sampleWritten = (Inr (metadataOf sampleCanonicalKey sampleStored), t)"
    using samplePromotion_run by blast
  from promotion_safe [OF run sampleWritten_addressed] show ?thesis
    using run by (auto simp: samplePromotion_def)
qed

text \<open>
  Promotion makes progress and can be retried: when the scan is accepted, the canonical
  locator is the one of the digest and free, and the temporary object is the declared one, the
  promotion returns, moves exactly that object to the canonical key, and a second promotion
  returns the same metadata and changes nothing.
\<close>

theorem promotion_completes_and_retries:
  assumes "pq_scanState inp \<in> {ScanAccepted, PromotionPending}"
    and "canonicalObjectKey (pq_workspaceId inp) (pq_sha256 inp) = Inr (pq_canonical inp)"
    and "isTemporaryKey (pq_quarantine inp)" and "ms_objects s (pq_canonical inp) = None"
    and "ms_objects s (pq_quarantine inp) = Some b" and "sb_sha256 b = pq_sha256 inp"
    and "int (length (sb_body b)) = pq_byteLength inp" and "sb_mediaType b = pq_mediaType inp"
    and "isSafeInteger (pq_byteLength inp)" and "\<not> blank (pq_mediaType inp)"
  shows "\<exists>t u. promoteQuarantineObject (memoryStorageOps sha dayLater) inp s
         = (Inr (metadataOf (pq_canonical inp) b), t)
     \<and> ms_objects t = (ms_objects s)(pq_canonical inp \<mapsto> b, pq_quarantine inp := None)
     \<and> promoteQuarantineObject (memoryStorageOps sha dayLater) inp t
         = (Inr (metadataOf (pq_canonical inp) b), u)
     \<and> ms_objects u = ms_objects t"
proof -
  have st: "pq_scanState inp = ScanAccepted \<or> pq_scanState inp = PromotionPending" using assms(1) by auto
  obtain t where t: "promoteQuarantineObject (memoryStorageOps sha dayLater) inp s
         = (Inr (metadataOf (pq_canonical inp) b), t)"
      "ms_objects t = (ms_objects s)(pq_canonical inp \<mapsto> b, pq_quarantine inp := None)"
    using mem.promote_succeeds [OF st assms(2-10)] by blast
  have "pq_canonical inp \<noteq> pq_quarantine inp"
    using canonical_key_not_temporary [OF assms(2)] assms(3) by auto
  then have "ms_objects t (pq_canonical inp) = Some b" using t(2) by simp
  from mem.promote_present [OF st this assms(6,7)] t show ?thesis by blast
qed

theorem promotion_completes_and_retries_witness:
  "\<exists>t u. promoteQuarantineObject (memoryStorageOps (\<lambda>_. sampleDigest) ''t1'') samplePromotion sampleWritten
       = (Inr (metadataOf sampleCanonicalKey sampleStored), t)
     \<and> promoteQuarantineObject (memoryStorageOps (\<lambda>_. sampleDigest) ''t1'') samplePromotion t
       = (Inr (metadataOf sampleCanonicalKey sampleStored), u) \<and> ms_objects u = ms_objects t"
  using promotion_completes_and_retries [of samplePromotion sampleWritten sampleStored "\<lambda>_. sampleDigest" "''t1''"]
  by (auto simp: samplePromotion_def sampleCanonicalKey_ok sampleWritten_eq sampleStored_def isSafeInteger_def)

end
