(* ===== verification/TransferGrants.thy ===== *)
theory TransferGrants
  imports Policy StorageKeys Json
begin

text \<open>
  \<open>packages/operations/src/transfer-grants.ts\<close>: issuing time-bounded upload and download
  grants. The signer and the audit sink are records of operations over one state; the clock
  and the grant identifier are arguments, and \<open>toIso\<close> stands for \<open>toISOString\<close> of a time in
  milliseconds, which throws outside the range of dates.
\<close>

section \<open>Data\<close>

datatype transferGrantOperation = GrantUpload | GrantDownload

primrec grantOperation_text :: "transferGrantOperation \<Rightarrow> string" where
  "grantOperation_text GrantUpload = ''upload''"
| "grantOperation_text GrantDownload = ''download''"

record transferTarget =
  tt_workspaceId :: string
  tt_objectId :: string
  tt_storageKey :: string
  tt_mediaType :: "string option"
  tt_expectedSha256 :: "string option"
  tt_expectedByteLength :: "int option"
  tt_downloadable :: bool
  tt_quarantineState :: "string option"

record signedTransfer =
  sg_url :: string
  sg_headers :: "(string \<times> string) list"

record clientTransferGrant =
  cg_grantId :: string
  cg_operation :: transferGrantOperation
  cg_objectId :: string
  cg_workspaceId :: string
  cg_expiresAt :: string
  cg_method :: string
  cg_transfer :: signedTransfer

record 'g transferSigner =
  ts_signUpload :: "string \<Rightarrow> string \<Rightarrow> string option \<Rightarrow> int option \<Rightarrow> ('g, signedTransfer) js"
  ts_signDownload :: "string \<Rightarrow> string \<Rightarrow> string option \<Rightarrow> ('g, signedTransfer) js"

record grantAudit =
  ga_action :: string
  ga_actorId :: string
  ga_workspaceId :: string
  ga_subjectId :: string
  ga_requestId :: string
  ga_correlationId :: string
  ga_metadata :: "(string \<times> json) list"

record 'g issueTransferGrantInput =
  ti_actorId :: string
  ti_workspaceId :: string
  ti_operation :: transferGrantOperation
  ti_target :: transferTarget
  ti_requestedTtlSeconds :: int
  ti_requestId :: string
  ti_correlationId :: string
  ti_fileName :: "string option"
  ti_signer :: "'g transferSigner option"
  ti_policyInput :: policyEvaluationInput

definition blockedDownloadStates :: "string list" where
  "blockedDownloadStates = [''pending_upload'', ''uploaded'', ''scan_queued'', ''scanning'', ''rejected'',
     ''manual_review'', ''quarantined'', ''failed'']"

definition grantDeniedError :: "string \<Rightarrow> string \<Rightarrow> js_error" where
  "grantDeniedError code msg = JsError ''GrantDeniedError'' (Some code) msg"

section \<open>Helpers\<close>

definition looksLikeClientKeyInjection :: "string \<Rightarrow> bool" where
  "looksLikeClientKeyInjection objectId =
     (str_includes objectId ''/'' \<or> str_includes (map ascii_lower objectId) ''workspaces/''
      \<or> str_includes objectId ''..'')"

definition fileNameChar :: "char \<Rightarrow> bool" where
  "fileNameChar c = (safe_char c \<or> c \<in> set ''. ()[]'')"

definition unsafeRun :: matcher where
  "unsafeRun s = (case s of [] \<Rightarrow> None
     | c # rest \<Rightarrow> if fileNameChar c then None
         else Some (''_'', length (takeWhile (\<lambda>d. \<not> fileNameChar d) rest)))"

definition sanitizeFileName :: "string \<Rightarrow> string" where
  "sanitizeFileName fileName = take 180 (replaceAll unsafeRun fileName)"

primrec denialReason_text :: "denialReason \<Rightarrow> string" where
  "denialReason_text UnknownAction = ''unknown_action''"
| "denialReason_text UnregisteredApplication = ''unregistered_application''"
| "denialReason_text ApplicationCapabilityDenied = ''application_capability_denied''"
| "denialReason_text NoMatchingAssignment = ''no_matching_assignment''"

definition newTransferGrantService :: "int \<Rightarrow> js_error + int" where
  "newTransferGrantService maxTtlSeconds =
     (if \<not> isSafeInteger maxTtlSeconds \<or> maxTtlSeconds \<le> 0
      then Inl (plainError ''Transfer grant maxTtlSeconds must be a positive integer'')
      else Inr maxTtlSeconds)"

section \<open>Issuing a grant\<close>

definition grantAction :: "transferGrantOperation \<Rightarrow> string" where
  "grantAction p = (if p = GrantUpload then ''object:ingest'' else ''blob:read'')"

definition grantPolicyInput :: "'g issueTransferGrantInput \<Rightarrow> policyEvaluationInput" where
  "grantPolicyInput inp = (ti_policyInput inp)\<lparr>
     in_action := grantAction (ti_operation inp),
     in_scope := (in_scope (ti_policyInput inp))\<lparr>sc_workspaceId := ti_workspaceId inp\<rparr>\<rparr>"

definition grantAuditRecord ::
  "'g issueTransferGrantInput \<Rightarrow> string \<Rightarrow> (string \<times> json) list \<Rightarrow> grantAudit" where
  "grantAuditRecord inp stage metadata = \<lparr>
     ga_action = ''transfer_grant.'' @ stage @ ''.'' @ grantOperation_text (ti_operation inp),
     ga_actorId = ti_actorId inp, ga_workspaceId = ti_workspaceId inp,
     ga_subjectId = tt_objectId (ti_target inp), ga_requestId = ti_requestId inp,
     ga_correlationId = ti_correlationId inp, ga_metadata = metadata\<rparr>"

definition notDownloadable :: "transferTarget \<Rightarrow> bool" where
  "notDownloadable target =
     (\<not> tt_downloadable target
      \<or> (case tt_quarantineState target of None \<Rightarrow> False
         | Some q \<Rightarrow> q \<noteq> [] \<and> q \<in> set blockedDownloadStates))"

definition signTransfer ::
  "'g transferSigner \<Rightarrow> 'g issueTransferGrantInput \<Rightarrow> string \<Rightarrow> ('g, string \<times> signedTransfer) js" where
  "signTransfer signer inp expiresAt =
     (if ti_operation inp = GrantUpload then
        andThen (ts_signUpload signer (tt_storageKey (ti_target inp)) expiresAt
            (case tt_mediaType (ti_target inp) of None \<Rightarrow> None | Some x \<Rightarrow> if x = [] then None else Some x)
            (tt_expectedByteLength (ti_target inp)))
          (\<lambda>signed. ret (''PUT'', signed))
      else
        andThen (ts_signDownload signer (tt_storageKey (ti_target inp)) expiresAt
            (case ti_fileName inp of None \<Rightarrow> None | Some x \<Rightarrow> if x = [] then None else Some (sanitizeFileName x)))
          (\<lambda>signed. ret (''GET'', signed)))"

definition issue ::
  "(string \<Rightarrow> int option) \<Rightarrow> string \<Rightarrow> (int \<Rightarrow> js_error + string) \<Rightarrow> int \<Rightarrow> string \<Rightarrow> int
     \<Rightarrow> 'g transferSigner \<Rightarrow> (grantAudit \<Rightarrow> ('g, unit) js) \<Rightarrow> 'g issueTransferGrantInput
     \<Rightarrow> ('g, clientTransferGrant) js" where
  "issue dp nowIso toIso nowMs uuid maxTtlSeconds defaultSigner audit inp =
     (if blank (ti_workspaceId inp)
      then throw (grantDeniedError ''missing_workspace'' ''Workspace context is required'')
      else if tt_workspaceId (ti_target inp) \<noteq> ti_workspaceId inp
      then throw (grantDeniedError ''workspace_mismatch''
             ''Transfer target workspace does not match request workspace'')
      else if looksLikeClientKeyInjection (tt_objectId (ti_target inp))
      then throw (grantDeniedError ''invalid_object'' ''Object identifier must be provider-neutral'')
      else
        (case evaluatePolicy dp nowIso (grantPolicyInput inp) of
           Denied reason \<Rightarrow>
             andThen (audit (grantAuditRecord inp ''denied'' [(''reason'', JStr (denialReason_text reason))]))
               (\<lambda>_. throw (grantDeniedError ''policy_denied'' (denialReason_text reason)))
         | _ \<Rightarrow>
             if ti_operation inp = GrantDownload \<and> notDownloadable (ti_target inp)
             then throw (grantDeniedError ''not_downloadable'' ''Object is not available for canonical download'')
             else
               let ttlSeconds = min (ti_requestedTtlSeconds inp) maxTtlSeconds in
               if ti_requestedTtlSeconds inp \<le> 0
               then throw (grantDeniedError ''invalid_ttl'' ''Requested TTL must be positive'')
               else
                 andThen (lifting (toIso (nowMs + ttlSeconds * 1000))) (\<lambda>expiresAt.
                   let signer = (case ti_signer inp of None \<Rightarrow> defaultSigner | Some g \<Rightarrow> g) in
                   andThen (catching (signTransfer signer inp expiresAt)
                       (\<lambda>e. throw (grantDeniedError ''signer_failed'' (redactSensitive (err_message e)))))
                     (\<lambda>(verb, signed).
                       andThen (audit (grantAuditRecord inp ''issued''
                           [(''grantId'', JStr uuid), (''ttlSeconds'', JNum ttlSeconds), (''expiresAt'', JStr expiresAt)]))
                         (\<lambda>_. ret \<lparr>cg_grantId = uuid, cg_operation = ti_operation inp,
                            cg_objectId = tt_objectId (ti_target inp), cg_workspaceId = ti_workspaceId inp,
                            cg_expiresAt = expiresAt, cg_method = verb, cg_transfer = signed\<rparr>)))))"

section \<open>The fake signer\<close>

definition uriUnreserved :: "char \<Rightarrow> bool" where
  "uriUnreserved c = (safe_char c \<or> c \<in> set ''.!~*()'' \<or> of_char c = (39 :: nat))"

definition upperHex :: "nat \<Rightarrow> char" where
  "upperHex n = char_of (if n < 10 then 48 + n else 55 + n)"

definition encodeURIComponent :: "string \<Rightarrow> string" where
  "encodeURIComponent s = concat (map (\<lambda>c. if uriUnreserved c then [c]
     else concat (map (\<lambda>b. let n = of_char b in [CHR ''%'', upperHex (n div 16), upperHex (n mod 16)]) (utf8_char c))) s)"

record grantWorld =
  gw_signed :: "string list"
  gw_audit :: "grantAudit list"

definition fakeTransferSigner :: "grantWorld transferSigner" where
  "fakeTransferSigner = \<lparr>
     ts_signUpload = (\<lambda>storageKey expiresAt mediaType expectedByteLength.
       andThen (updating (\<lambda>w. w\<lparr>gw_signed := gw_signed w @ [''upload:'' @ storageKey]\<rparr>)) (\<lambda>_.
         ret \<lparr>sg_url = ''https://transfer.example/upload/'' @ encodeURIComponent storageKey @ ''?exp=''
                @ encodeURIComponent expiresAt,
              sg_headers = [(''content-type'', ''application/octet-stream'')]\<rparr>)),
     ts_signDownload = (\<lambda>storageKey expiresAt fileName.
       andThen (updating (\<lambda>w. w\<lparr>gw_signed := gw_signed w @ [''download:'' @ storageKey]\<rparr>)) (\<lambda>_.
         ret \<lparr>sg_url = ''https://transfer.example/download/'' @ encodeURIComponent storageKey @ ''?exp=''
                @ encodeURIComponent expiresAt,
              sg_headers = (case fileName of None \<Rightarrow> []
                | Some n \<Rightarrow> if n = [] then []
                    else [(''content-disposition'', ''attachment; filename='' @ [CHR 0x22] @ n @ [CHR 0x22])])\<rparr>))\<rparr>"

section \<open>Lemmas\<close>

text \<open>What a request must satisfy before anything is signed.\<close>

definition grantable :: "(string \<Rightarrow> int option) \<Rightarrow> string \<Rightarrow> 'g issueTransferGrantInput \<Rightarrow> bool" where
  "grantable dp nowIso inp \<longleftrightarrow> \<not> blank (ti_workspaceId inp)
     \<and> tt_workspaceId (ti_target inp) = ti_workspaceId inp
     \<and> \<not> looksLikeClientKeyInjection (tt_objectId (ti_target inp))
     \<and> isAllowed (evaluatePolicy dp nowIso (grantPolicyInput inp))
     \<and> (ti_operation inp = GrantDownload \<longrightarrow> \<not> notDownloadable (ti_target inp))
     \<and> ti_requestedTtlSeconds inp > 0"

definition grantSigner :: "'g transferSigner \<Rightarrow> 'g issueTransferGrantInput \<Rightarrow> 'g transferSigner" where
  "grantSigner d inp = (case ti_signer inp of None \<Rightarrow> d | Some g \<Rightarrow> g)"

definition grantTtl :: "int \<Rightarrow> 'g issueTransferGrantInput \<Rightarrow> int" where
  "grantTtl maxTtl inp = min (ti_requestedTtlSeconds inp) maxTtl"

lemma issue_grantable:
  assumes "grantable dp nowIso inp"
  shows "issue dp nowIso toIso nowMs uuid maxTtl d audit inp s =
    (case toIso (nowMs + grantTtl maxTtl inp * 1000) of
       Inl e \<Rightarrow> (Inl e, s)
     | Inr expiresAt \<Rightarrow>
         (case signTransfer (grantSigner d inp) inp expiresAt s of
            (Inl e, t) \<Rightarrow> (Inl (grantDeniedError ''signer_failed'' (redactSensitive (err_message e))), t)
          | (Inr (verb, signed), t) \<Rightarrow>
              (case audit (grantAuditRecord inp ''issued'' [(''grantId'', JStr uuid),
                   (''ttlSeconds'', JNum (grantTtl maxTtl inp)), (''expiresAt'', JStr expiresAt)]) t of
                 (Inl e, u) \<Rightarrow> (Inl e, u)
               | (Inr _, u) \<Rightarrow> (Inr \<lparr>cg_grantId = uuid, cg_operation = ti_operation inp,
                   cg_objectId = tt_objectId (ti_target inp), cg_workspaceId = ti_workspaceId inp,
                   cg_expiresAt = expiresAt, cg_method = verb, cg_transfer = signed\<rparr>, u))))"
proof -
  obtain i g where "evaluatePolicy dp nowIso (grantPolicyInput inp) = AllowedByRole i
      \<or> evaluatePolicy dp nowIso (grantPolicyInput inp) = AllowedByBreakGlass i g"
    using assms by (cases "evaluatePolicy dp nowIso (grantPolicyInput inp)") (auto simp: grantable_def)
  then show ?thesis
    using assms
    by (auto simp: grantable_def issue_def js_simps Let_def grantTtl_def grantSigner_def
        split: sum.splits prod.splits)
qed

lemma issue_refused:
  assumes "\<not> grantable dp nowIso inp"
  shows "\<exists>e t. issue dp nowIso toIso nowMs uuid maxTtl d audit inp s = (Inl e, t)
    \<and> (t = s \<or> (\<exists>reason r. audit (grantAuditRecord inp ''denied'' [(''reason'', JStr (denialReason_text reason))]) s = (r, t)
        \<and> evaluatePolicy dp nowIso (grantPolicyInput inp) = Denied reason))"
  using assms
  by (cases "evaluatePolicy dp nowIso (grantPolicyInput inp)")
    (auto simp: grantable_def issue_def js_simps Let_def split: sum.splits prod.splits)

lemma replaceAll_unsafeRun: "list_all fileNameChar (replaceAll unsafeRun s)"
proof (induction unsafeRun s rule: replaceAll.induct)
  case (2 c s)
  then show ?case
    by (cases "fileNameChar c") (auto simp: unsafeRun_def fileNameChar_def safe_char_def)
qed simp

lemma replaceAll_safe: "list_all fileNameChar s \<Longrightarrow> replaceAll unsafeRun s = s"
  by (induction s) (simp_all add: unsafeRun_def)

section \<open>Properties\<close>

text \<open>
  C37. A grant is issued only to a request that may have it: when \<open>issue\<close> returns a grant, the
  target lies in the requested workspace under a provider-neutral identifier, policy allows the
  operation's action in that workspace, a download target is downloadable and not in a blocked
  quarantine state, the grant expires after a positive time of at most the configured maximum,
  it carries what the signer returned, and an audit record without the transfer URL was written.
\<close>

theorem transfer_grant_sound:
  assumes "issue dp nowIso toIso nowMs uuid maxTtl d audit inp s = (Inr g, t)"
    and "newTransferGrantService cfg = Inr maxTtl"
  shows "grantable dp nowIso inp
    \<and> cg_workspaceId g = ti_workspaceId inp \<and> cg_objectId g = tt_objectId (ti_target inp)
    \<and> (\<exists>ttl. 0 < ttl \<and> ttl \<le> maxTtl \<and> ttl \<le> ti_requestedTtlSeconds inp
         \<and> toIso (nowMs + ttl * 1000) = Inr (cg_expiresAt g)
         \<and> (\<exists>s1. signTransfer (grantSigner d inp) inp (cg_expiresAt g) s = (Inr (cg_method g, cg_transfer g), s1)
             \<and> audit (grantAuditRecord inp ''issued'' [(''grantId'', JStr (cg_grantId g)), (''ttlSeconds'', JNum ttl),
                  (''expiresAt'', JStr (cg_expiresAt g))]) s1 = (Inr (), t)))"
proof -
  have ok: "grantable dp nowIso inp"
    using assms(1) issue_refused [of dp nowIso inp toIso nowMs uuid maxTtl d audit s] by fastforce
  have "0 < maxTtl" using assms(2) by (auto simp: newTransferGrantService_def split: if_splits)
  then have ttl: "0 < grantTtl maxTtl inp" "grantTtl maxTtl inp \<le> maxTtl"
      "grantTtl maxTtl inp \<le> ti_requestedTtlSeconds inp"
    using ok by (auto simp: grantTtl_def grantable_def)
  show ?thesis
    using assms(1) ok ttl
    by (auto simp: issue_grantable [OF ok] split: sum.splits prod.splits
        intro!: exI [of _ "grantTtl maxTtl inp"])
qed

definition sampleGrantInput :: "string \<Rightarrow> grantWorld issueTransferGrantInput" where
  "sampleGrantInput role = \<lparr>ti_actorId = ''u1'', ti_workspaceId = ''w1'', ti_operation = GrantDownload,
     ti_target = \<lparr>tt_workspaceId = ''w1'', tt_objectId = ''asset-1'', tt_storageKey = ''k'', tt_mediaType = None,
       tt_expectedSha256 = None, tt_expectedByteLength = None, tt_downloadable = True,
       tt_quarantineState = Some ''promoted''\<rparr>,
     ti_requestedTtlSeconds = 900, ti_requestId = ''r'', ti_correlationId = ''c'', ti_fileName = None,
     ti_signer = None,
     ti_policyInput = \<lparr>in_principal = \<lparr>pr_id = ''u1'', pr_type = PrincipalUser, pr_roles = Some [role],
         pr_workspaceIds = Some [''w1'']\<rparr>, in_action = '''',
       in_scope = \<lparr>sc_workspaceId = ''w1'', sc_datasetId = None, sc_applicationId = None\<rparr>,
       in_assignments = None, in_applications = None, in_breakGlassGrants = None, in_at = None\<rparr>\<rparr>"

definition sampleAudit :: "grantAudit \<Rightarrow> (grantWorld, unit) js" where
  "sampleAudit r = updating (\<lambda>w. w\<lparr>gw_audit := gw_audit w @ [r]\<rparr>)"

lemma sampleGrant_policy:
  "isAllowed (evaluatePolicy dp n (grantPolicyInput (sampleGrantInput ''editor'')))"
  "evaluatePolicy dp n (grantPolicyInput (sampleGrantInput ''worker'')) = Denied NoMatchingAssignment"
  by (simp_all add: evaluatePolicy_def applicationRefusal_def grantPolicyInput_def sampleGrantInput_def
      grantAction_def listOr_def claimedRoleAssignments_def assignmentMatches_def truthy_def
      capabilitiesForRole_simps editorActions_def activeBreakGlassGrant_def isBreakGlassEligibleAction_def)

lemma sampleGrant_grantable:
  "grantable dp n (sampleGrantInput ''editor'')" "\<not> grantable dp n (sampleGrantInput ''worker'')"
  using sampleGrant_policy [of dp n] unfolding grantable_def
  by (simp_all add: sampleGrantInput_def notDownloadable_def blockedDownloadStates_def
      blank_def trim_def js_space_def looksLikeClientKeyInjection_def startsWith_def ascii_lower_def)

theorem transfer_grant_sound_witness:
  "\<exists>g t. issue (\<lambda>_. None) ''t'' (\<lambda>ms. Inr (show_int ms)) 0 ''id'' 300 fakeTransferSigner sampleAudit
        (sampleGrantInput ''editor'') \<lparr>gw_signed = [], gw_audit = []\<rparr> = (Inr g, t)
     \<and> (\<exists>ttl. 0 < ttl \<and> ttl \<le> 300 \<and> show_int (ttl * 1000) = cg_expiresAt g)"
proof -
  let ?run = "issue (\<lambda>_. None) ''t'' (\<lambda>ms. Inr (show_int ms)) 0 ''id'' 300 fakeTransferSigner sampleAudit
        (sampleGrantInput ''editor'') \<lparr>gw_signed = [], gw_audit = []\<rparr>"
  have "\<exists>g t. ?run = (Inr g, t)"
    unfolding issue_grantable [OF sampleGrant_grantable(1)]
    by (simp add: signTransfer_def grantSigner_def fakeTransferSigner_def sampleGrantInput_def sampleAudit_def js_simps)
  then obtain g t where run: "?run = (Inr g, t)" by blast
  have "newTransferGrantService 300 = Inr 300" by (simp add: newTransferGrantService_def isSafeInteger_def)
  from transfer_grant_sound [OF run this] run show ?thesis by auto
qed

text \<open>
  A refused request signs nothing: when the request does not qualify, \<open>issue\<close> throws and
  leaves the world as it was, except that a policy denial first writes the denial audit record.
\<close>

theorem transfer_grant_refusal:
  assumes "\<not> grantable dp nowIso inp"
  shows "\<exists>e t. issue dp nowIso toIso nowMs uuid maxTtl d audit inp s = (Inl e, t)
    \<and> (t = s \<or> (\<exists>reason r. evaluatePolicy dp nowIso (grantPolicyInput inp) = Denied reason
        \<and> audit (grantAuditRecord inp ''denied'' [(''reason'', JStr (denialReason_text reason))]) s = (r, t)))"
  using issue_refused [OF assms] by metis

theorem transfer_grant_refusal_witness:
  "\<exists>e t. issue (\<lambda>_. None) ''t'' (\<lambda>ms. Inr (show_int ms)) 0 ''id'' 300 fakeTransferSigner sampleAudit
        (sampleGrantInput ''worker'') \<lparr>gw_signed = [], gw_audit = []\<rparr> = (Inl e, t) \<and> gw_signed t = []"
proof -
  from transfer_grant_refusal [OF sampleGrant_grantable(2), where toIso = "\<lambda>ms. Inr (show_int ms)"
      and nowMs = 0 and uuid = "''id''" and maxTtl = 300 and d = fakeTransferSigner and audit = sampleAudit
      and s = "\<lparr>gw_signed = [], gw_audit = []\<rparr>" and dp = "\<lambda>_. None" and nowIso = "''t''"]
  show ?thesis by (auto simp: sampleAudit_def js_simps)
qed

text \<open>
  A download name cannot break out of its header: the sanitised name has at most 180
  characters, all of them letters, digits or one of \<open>_ - . ( ) [ ]\<close> and space, so no quote, no
  control character and no path separator; a short name that is safe already is kept.
\<close>

theorem sanitized_file_name_safe:
  "length (sanitizeFileName n) \<le> 180 \<and> list_all fileNameChar (sanitizeFileName n)
   \<and> set (sanitizeFileName n) \<inter> {CHR 0x22, CHR 0x0D, CHR 0x0A, CHR ''/'', CHR 0x5C} = {}
   \<and> sanitizeFileName n = (if list_all fileNameChar n \<and> length n \<le> 180 then n else sanitizeFileName n)"
proof -
  have all: "list_all fileNameChar (sanitizeFileName n)"
    using replaceAll_unsafeRun [of n] by (auto simp: sanitizeFileName_def list_all_iff dest: in_set_takeD)
  moreover have "\<not> fileNameChar c" if "c \<in> {CHR 0x22, CHR 0x0D, CHR 0x0A, CHR ''/'', CHR 0x5C}" for c
    using that by (auto simp: fileNameChar_def safe_char_def)
  then have "set (sanitizeFileName n) \<inter> {CHR 0x22, CHR 0x0D, CHR 0x0A, CHR ''/'', CHR 0x5C} = {}"
    using all by (auto simp: list_all_iff)
  ultimately show ?thesis
    by (simp add: sanitizeFileName_def replaceAll_safe)
qed

end
