(* ===== verification/History.thy ===== *)
theory History
  imports Core AuditChain
begin

text \<open>
  The resource history: \<open>packages/operations/src/history-service.ts\<close>
  (\<open>ResourceHistoryService\<close>: create, delete, restore) over the interface \<open>HistoryRepository\<close>,
  and its implementation \<open>packages/persistence-postgres/src/history-repository.ts\<close> with the
  transaction of \<open>db.ts\<close>, whose SQL statements are updates of tables. The locale
  \<open>history_repository\<close> states what the service relies on; the tables are its interpretation.

  Timestamps are ISO strings of one format, compared as strings. Constraints of the database
  other than the primary keys of the tables are not modelled; a statement that fails for such a
  reason is covered by the locale, whose laws speak about successful calls only.
\<close>

section \<open>The interface\<close>

record historyAuditEvent =
  he_workspaceId :: string
  he_datasetId :: string
  he_actorId :: string
  he_action :: string
  he_subjectId :: string
  he_occurredAt :: string
  he_metadata :: "(string \<times> json) list"

record historyOutboxEvent =
  ho_id :: string
  ho_workspaceId :: string
  ho_actorId :: string
  ho_eventType :: string
  ho_subjectId :: string
  ho_occurredAt :: string
  ho_payload :: "(string \<times> json) list"

record headUpdate =
  hu_workspaceId :: string
  hu_resourceId :: string
  hu_expectedRevisionId :: "string option"
  hu_nextRevisionId :: "string option"
  hu_status :: resourceStatus
  hu_updatedAt :: string

record 'r historyRepository =
  hr_getResource :: "string \<Rightarrow> string \<Rightarrow> ('r, resource option) js"
  hr_getRevision :: "string \<Rightarrow> string \<Rightarrow> ('r, revision option) js"
  hr_appendRevision :: "revision \<Rightarrow> ('r, unit) js"
  hr_setResourceHead :: "headUpdate \<Rightarrow> ('r, bool) js"
  hr_addTombstone :: "tombstone \<Rightarrow> ('r, unit) js"
  hr_getOpenTombstone :: "string \<Rightarrow> string \<Rightarrow> ('r, tombstone option) js"
  hr_closeTombstone :: "string \<Rightarrow> string \<Rightarrow> string \<Rightarrow> ('r, unit) js"
  hr_appendAudit :: "historyAuditEvent \<Rightarrow> ('r, unit) js"
  hr_enqueueOutbox :: "(historyOutboxEvent \<Rightarrow> ('r, unit) js) option"

record createRevisionInput =
  cr_workspaceId :: string
  cr_resourceId :: string
  cr_expectedRevisionId :: "string option"
  cr_schemaPackageId :: string
  cr_schemaVersion :: string
  cr_canonicalPayload :: "(string \<times> json) list"
  cr_actorId :: string
  cr_source :: "revisionSource option"
  cr_changeNote :: "string option"
  cr_restoredFromRevisionId :: "string option"

record deleteResourceInput =
  dl_workspaceId :: string
  dl_resourceId :: string
  dl_expectedRevisionId :: "string option"
  dl_actorId :: string
  dl_recoverUntil :: "string option"
  dl_reason :: "string option"

record restoreResourceInput =
  rs_workspaceId :: string
  rs_resourceId :: string
  rs_actorId :: string
  rs_changeNote :: "string option"

definition historyConflictError :: js_error where
  "historyConflictError = JsError ''HistoryConflictError'' (Some ''BASE_REVISION_CONFLICT'')
     ''The resource changed after the supplied base revision.''"

primrec revisionSource_text :: "revisionSource \<Rightarrow> string" where
  "revisionSource_text SourceUser = ''user''"
| "revisionSource_text SourceApplication = ''application''"
| "revisionSource_text SourceImport = ''import''"
| "revisionSource_text SourceRestore = ''restore''"
| "revisionSource_text SourceMerge = ''merge''"

definition hashCanonical :: "(bytes \<Rightarrow> string) \<Rightarrow> string comparator \<Rightarrow> (string \<times> json) list \<Rightarrow> string" where
  "hashCanonical sha loc payload =
     sha (utf8 (case canonicalJsonLocale loc (JObj payload) of None \<Rightarrow> [] | Some t \<Rightarrow> t))"

definition optJson :: "string option \<Rightarrow> json" where
  "optJson x = (case x of None \<Rightarrow> JNull | Some s \<Rightarrow> JStr s)"

section \<open>The service\<close>

record 'r historyWorld =
  hw_repo :: 'r
  hw_ambient :: ambient

definition onRepo :: "('r, 'a) js \<Rightarrow> ('r historyWorld, 'a) js" where
  "onRepo = within hw_repo (\<lambda>r w. w\<lparr>hw_repo := r\<rparr>)"

definition serviceNow :: "('r historyWorld, string) js" where
  "serviceNow = within hw_ambient (\<lambda>a w. w\<lparr>hw_ambient := a\<rparr>) now"

definition serviceNextId :: "('r historyWorld, string) js" where
  "serviceNextId = within hw_ambient (\<lambda>a w. w\<lparr>hw_ambient := a\<rparr>) nextId"

text \<open>\<open>inTransaction\<close>: a throw rolls the repository back, not the clock.\<close>

definition transaction :: "('r historyWorld, 'a) js \<Rightarrow> ('r historyWorld, 'a) js" where
  "transaction work = (\<lambda>w. case work w of
      (Inr x, u) \<Rightarrow> (Inr x, u)
    | (Inl e, u) \<Rightarrow> (Inl e, u\<lparr>hw_repo := hw_repo w\<rparr>))"

definition requiredResource :: "'r historyRepository \<Rightarrow> string \<Rightarrow> string \<Rightarrow> ('r historyWorld, resource) js" where
  "requiredResource repo workspaceId resourceId =
     andThen (onRepo (hr_getResource repo workspaceId resourceId)) (\<lambda>v.
       case v of None \<Rightarrow> throw (plainError ''Resource not found.'') | Some r \<Rightarrow> ret r)"

definition requiredRevision :: "'r historyRepository \<Rightarrow> string \<Rightarrow> string \<Rightarrow> ('r historyWorld, revision) js" where
  "requiredRevision repo workspaceId revisionId =
     andThen (onRepo (hr_getRevision repo workspaceId revisionId)) (\<lambda>v.
       case v of None \<Rightarrow> throw (plainError ''Revision not found.'') | Some r \<Rightarrow> ret r)"

definition currentRevision ::
  "'r historyRepository \<Rightarrow> string \<Rightarrow> resource \<Rightarrow> ('r historyWorld, revision option) js" where
  "currentRevision repo workspaceId r =
     (case res_currentRevisionId r of
        None \<Rightarrow> ret None
      | Some h \<Rightarrow> if h = [] then ret None
          else andThen (requiredRevision repo workspaceId h) (\<lambda>v. ret (Some v)))"

definition newRevision ::
  "(bytes \<Rightarrow> string) \<Rightarrow> string comparator \<Rightarrow> createRevisionInput \<Rightarrow> resource \<Rightarrow> revision option \<Rightarrow> string \<Rightarrow> string
     \<Rightarrow> revision" where
  "newRevision sha loc inp r current newId createdAt = \<lparr>
     rev_id = newId, rev_workspaceId = res_workspaceId r, rev_datasetId = res_datasetId r,
     rev_resourceId = res_id r,
     rev_revisionNumber = (case current of None \<Rightarrow> 0 | Some c \<Rightarrow> rev_revisionNumber c) + 1,
     rev_parentRevisionId = (case current of None \<Rightarrow> None | Some c \<Rightarrow> Some (rev_id c)),
     rev_mergeParentRevisionIds = [],
     rev_schemaPackageId = cr_schemaPackageId inp, rev_schemaVersion = cr_schemaVersion inp,
     rev_canonicalPayload = cr_canonicalPayload inp,
     rev_canonicalPayloadHash = hashCanonical sha loc (cr_canonicalPayload inp),
     rev_createdBy = cr_actorId inp, rev_createdOnDeviceId = None,
     rev_source = (case cr_source inp of None \<Rightarrow> SourceUser | Some x \<Rightarrow> x),
     rev_changeNote = cr_changeNote inp, rev_restoredFromRevisionId = cr_restoredFromRevisionId inp,
     rev_createdAt = createdAt\<rparr>"

definition moveHead ::
  "'r historyRepository \<Rightarrow> resource \<Rightarrow> string option \<Rightarrow> string option \<Rightarrow> resourceStatus \<Rightarrow> string \<Rightarrow> ('r historyWorld, unit) js" where
  "moveHead repo r expected next status at =
     andThen (onRepo (hr_setResourceHead repo \<lparr>hu_workspaceId = res_workspaceId r, hu_resourceId = res_id r,
         hu_expectedRevisionId = expected, hu_nextRevisionId = next, hu_status = status, hu_updatedAt = at\<rparr>))
       (\<lambda>moved. if moved then ret () else throw historyConflictError)"

definition enqueueOutbox :: "'r historyRepository \<Rightarrow> historyOutboxEvent \<Rightarrow> ('r historyWorld, unit) js" where
  "enqueueOutbox repo event =
     (case hr_enqueueOutbox repo of None \<Rightarrow> ret () | Some f \<Rightarrow> onRepo (f event))"

definition createRevisionWithin ::
  "(bytes \<Rightarrow> string) \<Rightarrow> string comparator \<Rightarrow> 'r historyRepository \<Rightarrow> createRevisionInput \<Rightarrow> ('r historyWorld, revision) js" where
  "createRevisionWithin sha loc repo inp =
     andThen (requiredResource repo (cr_workspaceId inp) (cr_resourceId inp)) (\<lambda>r.
     andThen (currentRevision repo (cr_workspaceId inp) r) (\<lambda>current.
     if res_currentRevisionId r \<noteq> cr_expectedRevisionId inp then throw historyConflictError
     else
       andThen serviceNow (\<lambda>createdAt.
       andThen serviceNextId (\<lambda>newId.
       let v = newRevision sha loc inp r current newId createdAt in
       andThen (lifting (assertNextRevision r current v)) (\<lambda>_.
       andThen (onRepo (hr_appendRevision repo v)) (\<lambda>_.
       andThen (moveHead repo r (cr_expectedRevisionId inp) (Some (rev_id v)) Active createdAt) (\<lambda>_.
       andThen (onRepo (hr_appendAudit repo \<lparr>he_workspaceId = res_workspaceId r, he_datasetId = res_datasetId r,
           he_actorId = cr_actorId inp, he_action = ''revision.created'', he_subjectId = res_id r,
           he_occurredAt = createdAt,
           he_metadata = [(''revisionId'', JStr (rev_id v)), (''revisionNumber'', JNum (rev_revisionNumber v)),
             (''source'', JStr (revisionSource_text (rev_source v)))]\<rparr>)) (\<lambda>_.
       andThen (enqueueOutbox repo \<lparr>ho_id = rev_id v, ho_workspaceId = res_workspaceId r,
           ho_actorId = cr_actorId inp,
           ho_eventType = (if rev_source v = SourceRestore then ''resource.restored'' else ''resource.revision_created''),
           ho_subjectId = res_id r, ho_occurredAt = createdAt,
           ho_payload = [(''datasetId'', JStr (res_datasetId r)), (''revisionId'', JStr (rev_id v)),
             (''revisionNumber'', JNum (rev_revisionNumber v)), (''source'', JStr (revisionSource_text (rev_source v)))]\<rparr>)
         (\<lambda>_. ret v)))))))))"

definition createRevision ::
  "(bytes \<Rightarrow> string) \<Rightarrow> string comparator \<Rightarrow> 'r historyRepository \<Rightarrow> createRevisionInput \<Rightarrow> ('r historyWorld, revision) js" where
  "createRevision sha loc repo inp = transaction (createRevisionWithin sha loc repo inp)"

definition newTombstone :: "deleteResourceInput \<Rightarrow> resource \<Rightarrow> string \<Rightarrow> string \<Rightarrow> tombstone" where
  "newTombstone inp r newId deletedAt = \<lparr>tomb_id = newId, tomb_workspaceId = res_workspaceId r,
     tomb_datasetId = res_datasetId r, tomb_subjectKind = SubjResource, tomb_subjectId = res_id r,
     tomb_deletedBy = dl_actorId inp, tomb_deletedAt = deletedAt, tomb_reason = dl_reason inp,
     tomb_recoverUntil = dl_recoverUntil inp, tomb_priorRevisionId = res_currentRevisionId r,
     tomb_restoredAt = None, tomb_restoredBy = None, tomb_purgeState = NotEligible\<rparr>"

definition deleteResourceWithin ::
  "'r historyRepository \<Rightarrow> deleteResourceInput \<Rightarrow> ('r historyWorld, tombstone) js" where
  "deleteResourceWithin repo inp =
     andThen (requiredResource repo (dl_workspaceId inp) (dl_resourceId inp)) (\<lambda>r.
     if res_currentRevisionId r \<noteq> dl_expectedRevisionId inp then throw historyConflictError
     else
       andThen serviceNow (\<lambda>deletedAt.
       andThen serviceNextId (\<lambda>newId.
       let t = newTombstone inp r newId deletedAt in
       andThen (onRepo (hr_addTombstone repo t)) (\<lambda>_.
       andThen (moveHead repo r (dl_expectedRevisionId inp) (res_currentRevisionId r) DeletedLogically deletedAt) (\<lambda>_.
       andThen (onRepo (hr_appendAudit repo \<lparr>he_workspaceId = res_workspaceId r, he_datasetId = res_datasetId r,
           he_actorId = dl_actorId inp, he_action = ''resource.deleted_logically'', he_subjectId = res_id r,
           he_occurredAt = deletedAt,
           he_metadata = [(''tombstoneId'', JStr (tomb_id t)), (''recoverUntil'', optJson (tomb_recoverUntil t))]\<rparr>)) (\<lambda>_.
       andThen (enqueueOutbox repo \<lparr>ho_id = tomb_id t, ho_workspaceId = res_workspaceId r,
           ho_actorId = dl_actorId inp, ho_eventType = ''resource.deleted'', ho_subjectId = res_id r,
           ho_occurredAt = deletedAt,
           ho_payload = [(''datasetId'', JStr (res_datasetId r)), (''tombstoneId'', JStr (tomb_id t)),
             (''recoverUntil'', optJson (tomb_recoverUntil t))]\<rparr>)
         (\<lambda>_. ret t)))))))"

definition deleteResource :: "'r historyRepository \<Rightarrow> deleteResourceInput \<Rightarrow> ('r historyWorld, tombstone) js" where
  "deleteResource repo inp = transaction (deleteResourceWithin repo inp)"

definition restoreResourceWithin ::
  "(bytes \<Rightarrow> string) \<Rightarrow> string comparator \<Rightarrow> 'r historyRepository \<Rightarrow> restoreResourceInput \<Rightarrow> ('r historyWorld, revision) js" where
  "restoreResourceWithin sha loc repo inp =
     andThen (requiredResource repo (rs_workspaceId inp) (rs_resourceId inp)) (\<lambda>r.
     andThen (onRepo (hr_getOpenTombstone repo (rs_workspaceId inp) (rs_resourceId inp))) (\<lambda>open_tombstone.
       case open_tombstone of
         None \<Rightarrow> throw (plainError ''No recoverable deletion exists for this resource.'')
       | Some t \<Rightarrow>
           (case tomb_priorRevisionId t of
              None \<Rightarrow> throw (plainError ''No recoverable deletion exists for this resource.'')
            | Some priorId \<Rightarrow>
                if priorId = [] then throw (plainError ''No recoverable deletion exists for this resource.'')
                else
                  andThen
                    (case tomb_recoverUntil t of
                       None \<Rightarrow> ret False
                     | Some until \<Rightarrow> if until = [] then ret False
                         else andThen serviceNow (\<lambda>at. ret (until < at)))
                    (\<lambda>expired.
                  if expired then throw (plainError ''The recovery window has expired.'')
                  else
                    andThen (requiredRevision repo (rs_workspaceId inp) priorId) (\<lambda>prior.
                    andThen (createRevisionWithin sha loc repo \<lparr>cr_workspaceId = rs_workspaceId inp,
                        cr_resourceId = rs_resourceId inp, cr_expectedRevisionId = res_currentRevisionId r,
                        cr_schemaPackageId = rev_schemaPackageId prior, cr_schemaVersion = rev_schemaVersion prior,
                        cr_canonicalPayload = rev_canonicalPayload prior, cr_actorId = rs_actorId inp,
                        cr_source = Some SourceRestore,
                        cr_changeNote = Some (case rs_changeNote inp of None \<Rightarrow> ''Restored deleted resource'' | Some n \<Rightarrow> n),
                        cr_restoredFromRevisionId = Some (rev_id prior)\<rparr>) (\<lambda>restored.
                    andThen (onRepo (hr_closeTombstone repo (rs_workspaceId inp) (tomb_id t) (rs_actorId inp)))
                      (\<lambda>_. ret restored)))))))"

definition restoreResource ::
  "(bytes \<Rightarrow> string) \<Rightarrow> string comparator \<Rightarrow> 'r historyRepository \<Rightarrow> restoreResourceInput \<Rightarrow> ('r historyWorld, revision) js" where
  "restoreResource sha loc repo inp = transaction (restoreResourceWithin sha loc repo inp)"

section \<open>What the service relies on\<close>

record historyView =
  hv_resources :: "string \<rightharpoonup> resource"
  hv_revisions :: "string \<rightharpoonup> revision"
  hv_tombstones :: "tombstone list"

definition inWorkspace :: "('a \<Rightarrow> string) \<Rightarrow> string \<Rightarrow> 'a option \<Rightarrow> 'a option" where
  "inWorkspace ws w x = (case x of None \<Rightarrow> None | Some r \<Rightarrow> if ws r = w then Some r else None)"

lemma inWorkspace_Some [simp]: "inWorkspace ws w x = Some r \<longleftrightarrow> x = Some r \<and> ws r = w"
  by (auto simp: inWorkspace_def split: option.splits)

definition headMatches :: "headUpdate \<Rightarrow> resource \<Rightarrow> bool" where
  "headMatches h r \<longleftrightarrow> res_workspaceId r = hu_workspaceId h \<and> res_currentRevisionId r = hu_expectedRevisionId h"

definition withHead :: "headUpdate \<Rightarrow> resource \<Rightarrow> resource" where
  "withHead h r = r\<lparr>res_currentRevisionId := hu_nextRevisionId h, res_status := hu_status h,
     res_updatedAt := hu_updatedAt h\<rparr>"

definition openFor :: "string \<Rightarrow> string \<Rightarrow> tombstone \<Rightarrow> bool" where
  "openFor w i t \<longleftrightarrow> tomb_workspaceId t = w \<and> tomb_subjectKind t = SubjResource \<and> tomb_subjectId t = i
     \<and> tomb_restoredAt t = None \<and> tomb_purgeState t \<noteq> Purged"

definition closedAt :: "string \<Rightarrow> string \<Rightarrow> string \<Rightarrow> string \<Rightarrow> tombstone \<Rightarrow> tombstone" where
  "closedAt w i at by_whom t =
     (if tomb_workspaceId t = w \<and> tomb_id t = i \<and> tomb_restoredAt t = None
      then t\<lparr>tomb_restoredAt := Some at, tomb_restoredBy := Some by_whom\<rparr> else t)"

locale history_repository =
  fixes repo :: "'r historyRepository" and view :: "'r \<Rightarrow> historyView"
  assumes getResource: "hr_getResource repo w i s = (Inr x, t) \<Longrightarrow>
      view t = view s \<and> x = inWorkspace res_workspaceId w (hv_resources (view s) i)"
    and getRevision: "hr_getRevision repo w i s = (Inr y, t) \<Longrightarrow>
      view t = view s \<and> y = inWorkspace rev_workspaceId w (hv_revisions (view s) i)"
    and appendRevision: "hr_appendRevision repo v s = (Inr u, t) \<Longrightarrow>
      hv_revisions (view s) (rev_id v) = None
      \<and> view t = (view s)\<lparr>hv_revisions := (hv_revisions (view s))(rev_id v \<mapsto> v)\<rparr>"
    and setHead: "hr_setResourceHead repo h s = (Inr True, t) \<Longrightarrow>
      \<exists>r. hv_resources (view s) (hu_resourceId h) = Some r \<and> headMatches h r
        \<and> view t = (view s)\<lparr>hv_resources := (hv_resources (view s))(hu_resourceId h \<mapsto> withHead h r)\<rparr>"
    and addTombstone: "hr_addTombstone repo z s = (Inr u, t) \<Longrightarrow>
      tomb_id z \<notin> tomb_id ` set (hv_tombstones (view s))
      \<and> view t = (view s)\<lparr>hv_tombstones := hv_tombstones (view s) @ [z]\<rparr>"
    and getOpen: "hr_getOpenTombstone repo w i s = (Inr q, t) \<Longrightarrow> view t = view s
      \<and> (case q of None \<Rightarrow> list_all (\<lambda>z. \<not> openFor w i z) (hv_tombstones (view s))
         | Some z \<Rightarrow> z \<in> set (hv_tombstones (view s)) \<and> openFor w i z)"
    and close: "hr_closeTombstone repo w i by_whom s = (Inr u, t) \<Longrightarrow>
      \<exists>at. view t = (view s)\<lparr>hv_tombstones := map (closedAt w i at by_whom) (hv_tombstones (view s))\<rparr>"
    and audit: "hr_appendAudit repo e s = (Inr u, t) \<Longrightarrow> view t = view s"
    and outbox: "hr_enqueueOutbox repo = Some f \<Longrightarrow> f d s = (Inr u, t) \<Longrightarrow> view t = view s"
begin

abbreviation viewOf :: "'r historyWorld \<Rightarrow> historyView" where
  "viewOf w \<equiv> view (hw_repo w)"

lemma onRepo_ok: "onRepo m w = (Inr x, w') \<longleftrightarrow> (\<exists>t. m (hw_repo w) = (Inr x, t) \<and> w' = w\<lparr>hw_repo := t\<rparr>)"
  by (auto simp: onRepo_def js_simps split: prod.splits)

lemma clock_ok: "serviceNow w = (Inr x, w') \<Longrightarrow> hw_repo w' = hw_repo w"
  "serviceNextId w = (Inr x, w') \<Longrightarrow> hw_repo w' = hw_repo w"
  by (auto simp: serviceNow_def serviceNextId_def js_simps)

lemma requiredResource_ok:
  assumes "requiredResource repo ws i w = (Inr r, w')"
  shows "viewOf w' = viewOf w \<and> hv_resources (viewOf w) i = Some r \<and> res_workspaceId r = ws"
proof -
  obtain t where get: "hr_getResource repo ws i (hw_repo w) = (Inr (Some r), t)" and w': "w' = w\<lparr>hw_repo := t\<rparr>"
    using assms by (auto simp: requiredResource_def js_ok onRepo_ok split: option.splits)
  have "inWorkspace res_workspaceId ws (hv_resources (viewOf w) i) = Some r"
    using getResource [OF get] by metis
  with getResource [OF get] w' show ?thesis by simp
qed

lemma requiredRevision_ok:
  assumes "requiredRevision repo ws i w = (Inr v, w')"
  shows "viewOf w' = viewOf w \<and> hv_revisions (viewOf w) i = Some v \<and> rev_workspaceId v = ws"
proof -
  obtain t where get: "hr_getRevision repo ws i (hw_repo w) = (Inr (Some v), t)" and w': "w' = w\<lparr>hw_repo := t\<rparr>"
    using assms by (auto simp: requiredRevision_def js_ok onRepo_ok split: option.splits)
  have "inWorkspace rev_workspaceId ws (hv_revisions (viewOf w) i) = Some v"
    using getRevision [OF get] by metis
  with getRevision [OF get] w' show ?thesis by simp
qed

lemma currentRevision_ok:
  "currentRevision repo ws r w = (Inr c, w') \<Longrightarrow>
     viewOf w' = viewOf w
     \<and> (case c of None \<Rightarrow> res_currentRevisionId r = None \<or> res_currentRevisionId r = Some []
        | Some v \<Rightarrow> \<exists>h. res_currentRevisionId r = Some h \<and> h \<noteq> [] \<and> hv_revisions (viewOf w) h = Some v)"
  by (auto simp: currentRevision_def js_ok dest!: requiredRevision_ok
      split: option.splits if_splits)

lemma moveHead_ok:
  assumes "moveHead repo r expected nxt status at w = (Inr u, w')"
  shows "\<exists>r0. hv_resources (viewOf w) (res_id r) = Some r0 \<and> res_workspaceId r0 = res_workspaceId r
     \<and> res_currentRevisionId r0 = expected
     \<and> viewOf w' = (viewOf w)\<lparr>hv_resources := (hv_resources (viewOf w))(res_id r \<mapsto>
         r0\<lparr>res_currentRevisionId := nxt, res_status := status, res_updatedAt := at\<rparr>)\<rparr>"
  using assms
  by (fastforce simp: moveHead_def js_ok onRepo_ok headMatches_def withHead_def
      dest!: setHead split: if_splits)

lemma enqueueOutbox_ok: "enqueueOutbox repo e w = (Inr u, w') \<Longrightarrow> viewOf w' = viewOf w"
  by (auto simp: enqueueOutbox_def onRepo_ok js_ok dest: outbox split: option.splits)

lemma create_ok:
  assumes run: "createRevisionWithin sha loc repo inp w = (Inr v, w')"
    and keyed: "\<And>i r. hv_resources (viewOf w) i = Some r \<Longrightarrow> res_id r = i"
  shows "\<exists>r current at. hv_resources (viewOf w) (cr_resourceId inp) = Some r
     \<and> res_workspaceId r = cr_workspaceId inp \<and> res_currentRevisionId r = cr_expectedRevisionId inp
     \<and> (case current of None \<Rightarrow> res_currentRevisionId r = None \<or> res_currentRevisionId r = Some []
        | Some c \<Rightarrow> \<exists>h. res_currentRevisionId r = Some h \<and> h \<noteq> [] \<and> hv_revisions (viewOf w) h = Some c)
     \<and> v = newRevision sha loc inp r current (rev_id v) at
     \<and> assertNextRevision r current v = Inr ()
     \<and> hv_revisions (viewOf w) (rev_id v) = None
     \<and> viewOf w' = (viewOf w)\<lparr>hv_resources := (hv_resources (viewOf w))(cr_resourceId inp \<mapsto>
           r\<lparr>res_currentRevisionId := Some (rev_id v), res_status := Active, res_updatedAt := at\<rparr>),
         hv_revisions := (hv_revisions (viewOf w))(rev_id v \<mapsto> v)\<rparr>"
proof -
  from run obtain r w1 where 1: "requiredResource repo (cr_workspaceId inp) (cr_resourceId inp) w = (Inr r, w1)"
    unfolding createRevisionWithin_def andThen_eq_Inr by blast
  from run 1 obtain current w2 where 2: "currentRevision repo (cr_workspaceId inp) r w1 = (Inr current, w2)"
    unfolding createRevisionWithin_def by (auto simp: js_ok)
  have same: "res_currentRevisionId r = cr_expectedRevisionId inp"
    using run 1 2 unfolding createRevisionWithin_def
    by (auto simp: js_ok split: if_splits)
  obtain at w3 where 3: "serviceNow w2 = (Inr at, w3)" by (simp add: serviceNow_def js_simps)
  obtain newId w4 where 4: "serviceNextId w3 = (Inr newId, w4)" by (simp add: serviceNextId_def js_simps)
  let ?v = "newRevision sha loc inp r current newId at"
  obtain w5 u5 where pass: "assertNextRevision r current ?v = Inr ()"
      and 5: "onRepo (hr_appendRevision repo ?v) w4 = (Inr u5, w5)"
    using run 1 2 3 4 same unfolding createRevisionWithin_def
    by (auto simp: js_ok Let_def)
  obtain w6 u6 where 6: "moveHead repo r (cr_expectedRevisionId inp) (Some (rev_id ?v)) Active at w5 = (Inr u6, w6)"
      and rest: "viewOf w' = viewOf w6" "v = ?v"
    using run 1 2 3 4 5 same unfolding createRevisionWithin_def
    by (auto simp: js_ok Let_def onRepo_ok dest!: enqueueOutbox_ok audit)
  note R = requiredResource_ok [OF 1] and C = currentRevision_ok [OF 2]
  have v4: "viewOf w4 = viewOf w" using R C clock_ok 3 4 by metis
  have rid: "res_id r = cr_resourceId inp" using R keyed by blast
  obtain r5 where r5: "hr_appendRevision repo ?v (hw_repo w4) = (Inr u5, r5)" "w5 = w4\<lparr>hw_repo := r5\<rparr>"
    using 5 by (auto simp: onRepo_ok)
  have A: "hv_revisions (viewOf w) (rev_id ?v) = None"
      "viewOf w5 = (viewOf w)\<lparr>hv_revisions := (hv_revisions (viewOf w))(rev_id ?v \<mapsto> ?v)\<rparr>"
    using appendRevision [OF r5(1)] r5(2) v4 by simp_all
  have M: "viewOf w6 = (viewOf w5)\<lparr>hv_resources := (hv_resources (viewOf w5))(res_id r \<mapsto>
         r\<lparr>res_currentRevisionId := Some (rev_id ?v), res_status := Active, res_updatedAt := at\<rparr>)\<rparr>"
    using moveHead_ok [OF 6] A(2) R rid by auto
  show ?thesis
    apply (rule exI [of _ r], rule exI [of _ current], rule exI [of _ at])
    using R C same rest pass A M rid by (auto simp: newRevision_def split: option.splits)
qed

end

section \<open>The invariant of histories\<close>

definition sameResource :: "revision \<Rightarrow> revision \<Rightarrow> bool" where
  "sameResource x y \<longleftrightarrow> rev_resourceId x = rev_resourceId y \<and> rev_workspaceId x = rev_workspaceId y
     \<and> rev_datasetId x = rev_datasetId y"

lemma sameResource_refl: "sameResource x x"
  by (simp add: sameResource_def)

definition resourceOk :: "(string \<rightharpoonup> revision) \<Rightarrow> string \<Rightarrow> resource \<Rightarrow> bool" where
  "resourceOk revs i r \<longleftrightarrow> res_id r = i \<and> (\<forall>h. res_currentRevisionId r = Some h \<longrightarrow>
     (\<exists>x. revs h = Some x \<and> rev_resourceId x = i \<and> rev_workspaceId x = res_workspaceId r
        \<and> rev_datasetId x = res_datasetId r))"

definition revisionOk ::
  "(bytes \<Rightarrow> string) \<Rightarrow> string comparator \<Rightarrow> (string \<rightharpoonup> revision) \<Rightarrow> string \<Rightarrow> revision \<Rightarrow> bool" where
  "revisionOk sha loc revs i x \<longleftrightarrow> rev_id x = i \<and> 1 \<le> rev_revisionNumber x
     \<and> rev_canonicalPayloadHash x = hashCanonical sha loc (rev_canonicalPayload x)
     \<and> (case rev_parentRevisionId x of
          None \<Rightarrow> rev_revisionNumber x = 1
        | Some p \<Rightarrow> \<exists>q. revs p = Some q \<and> sameResource q x \<and> rev_revisionNumber x = rev_revisionNumber q + 1)"

definition historyOk :: "(bytes \<Rightarrow> string) \<Rightarrow> string comparator \<Rightarrow> historyView \<Rightarrow> bool" where
  "historyOk sha loc v \<longleftrightarrow> (\<forall>i r. hv_resources v i = Some r \<longrightarrow> resourceOk (hv_revisions v) i r)
     \<and> (\<forall>i x. hv_revisions v i = Some x \<longrightarrow> revisionOk sha loc (hv_revisions v) i x)"

lemma historyOkD:
  assumes "historyOk sha loc v"
  shows "hv_resources v i = Some r \<Longrightarrow> resourceOk (hv_revisions v) i r"
    and "hv_revisions v i = Some x \<Longrightarrow> revisionOk sha loc (hv_revisions v) i x"
  using assms by (simp_all add: historyOk_def)

lemma resourceOk_extend: "resourceOk revs i r \<Longrightarrow> revs j = None \<Longrightarrow> resourceOk (revs(j \<mapsto> y)) i r"
  unfolding resourceOk_def by (metis fun_upd_apply option.distinct(1))

lemma revisionOk_extend:
  "revisionOk sha loc revs i x \<Longrightarrow> revs j = None \<Longrightarrow> revisionOk sha loc (revs(j \<mapsto> y)) i x"
  unfolding revisionOk_def by (fastforce split: option.splits)

text \<open>The chain of ancestors of a revision, itself first.\<close>

primrec ancestors :: "(string \<rightharpoonup> revision) \<Rightarrow> nat \<Rightarrow> string \<Rightarrow> revision list" where
  "ancestors revs 0 i = []"
| "ancestors revs (Suc n) i =
     (case revs i of None \<Rightarrow> []
      | Some x \<Rightarrow> x # (case rev_parentRevisionId x of None \<Rightarrow> [] | Some p \<Rightarrow> ancestors revs n p))"

lemma ancestors_complete:
  assumes ok: "\<And>i x. revs i = Some x \<Longrightarrow> revisionOk sha loc revs i x"
    and "revs i = Some x" "rev_revisionNumber x = int (Suc n)"
  shows "map rev_revisionNumber (ancestors revs (Suc n) i) = map int (rev [1..<Suc (Suc n)])
     \<and> list_all (sameResource x) (ancestors revs (Suc n) i)"
  using assms(2,3)
proof (induction n arbitrary: i x)
  case 0
  show ?case
  proof (cases "rev_parentRevisionId x")
    case None
    with 0 show ?thesis by (simp add: sameResource_def)
  next
    case (Some p)
    then obtain q where "revs p = Some q" "rev_revisionNumber q = 0"
      using ok [OF 0(1)] 0(2) by (auto simp: revisionOk_def)
    with ok [of p q] show ?thesis by (simp add: revisionOk_def)
  qed
next
  case (Suc n)
  then obtain p q where p: "rev_parentRevisionId x = Some p" "revs p = Some q" "sameResource q x"
      "rev_revisionNumber q = int (Suc n)"
    using ok [OF Suc.prems(1)] by (auto simp: revisionOk_def split: option.splits)
  note IH = Suc.IH [OF p(2,4)]
  have "list_all (sameResource x) (ancestors revs (Suc n) p)"
    using IH p(3) by (auto simp: sameResource_def list_all_iff simp del: ancestors.simps)
  moreover have "ancestors revs (Suc (Suc n)) i = x # ancestors revs (Suc n) p"
    by (subst ancestors.simps(2)) (simp add: Suc.prems(1) p(1) del: ancestors.simps)
  ultimately show ?case
    using IH Suc.prems(2) by (simp add: sameResource_refl del: ancestors.simps)
qed

lemma head_same: "res_currentRevisionId r = c \<Longrightarrow> r\<lparr>res_currentRevisionId := c\<rparr> = r"
  by (cases r) simp

context history_repository
begin

lemma create_historyOk:
  assumes run: "createRevisionWithin sha loc repo inp w = (Inr v, w')" and ok: "historyOk sha loc (viewOf w)"
  shows "historyOk sha loc (viewOf w')"
proof -
  have keyed: "\<And>i r. hv_resources (viewOf w) i = Some r \<Longrightarrow> res_id r = i"
    using historyOkD(1) [OF ok] by (simp add: resourceOk_def)
  obtain r current at where r: "hv_resources (viewOf w) (cr_resourceId inp) = Some r"
    and cur: "case current of None \<Rightarrow> res_currentRevisionId r = None \<or> res_currentRevisionId r = Some []
        | Some c \<Rightarrow> \<exists>h. res_currentRevisionId r = Some h \<and> h \<noteq> [] \<and> hv_revisions (viewOf w) h = Some c"
    and v: "v = newRevision sha loc inp r current (rev_id v) at"
    and fresh: "hv_revisions (viewOf w) (rev_id v) = None"
    and view': "viewOf w' = (viewOf w)\<lparr>hv_resources := (hv_resources (viewOf w))(cr_resourceId inp \<mapsto>
           r\<lparr>res_currentRevisionId := Some (rev_id v), res_status := Active, res_updatedAt := at\<rparr>),
         hv_revisions := (hv_revisions (viewOf w))(rev_id v \<mapsto> v)\<rparr>"
    using create_ok [OF run keyed] by blast
  let ?revs = "hv_revisions (viewOf w)"
  have rok: "resourceOk ?revs (cr_resourceId inp) r" using historyOkD(1) [OF ok r] .
  have fields: "rev_resourceId v = cr_resourceId inp" "rev_workspaceId v = res_workspaceId r"
      "rev_datasetId v = res_datasetId r" "rev_canonicalPayloadHash v = hashCanonical sha loc (rev_canonicalPayload v)"
    using keyed [OF r] by (subst v, simp add: newRevision_def)+
  have vok: "revisionOk sha loc (?revs(rev_id v \<mapsto> v)) (rev_id v) v"
  proof (cases current)
    case None
    then have "rev_parentRevisionId v = None" "rev_revisionNumber v = 1"
      by (subst v, simp add: newRevision_def)+
    with fields show ?thesis by (simp add: revisionOk_def)
  next
    case (Some c)
    then obtain h where h: "res_currentRevisionId r = Some h" "?revs h = Some c" using cur by auto
    have c: "rev_id c = h" "1 \<le> rev_revisionNumber c"
      using historyOkD(2) [OF ok h(2)] by (simp_all add: revisionOk_def)
    have "sameResource c v" using rok h fields by (auto simp: resourceOk_def sameResource_def)
    moreover have "rev_parentRevisionId v = Some h" "rev_revisionNumber v = rev_revisionNumber c + 1"
      using Some c by (subst v, simp add: newRevision_def)+
    moreover have "h \<noteq> rev_id v" using fresh h by auto
    ultimately show ?thesis using h(2) fields(4) c(2) by (simp add: revisionOk_def)
  qed
  show ?thesis
    unfolding view' historyOk_def
    using vok fields rok fresh resourceOk_extend [OF historyOkD(1) [OF ok] fresh]
      revisionOk_extend [OF historyOkD(2) [OF ok] fresh]
    by (auto simp: resourceOk_def)
qed

lemma delete_ok:
  assumes run: "deleteResourceWithin repo inp w = (Inr z, w')"
    and keyed: "\<And>i r. hv_resources (viewOf w) i = Some r \<Longrightarrow> res_id r = i"
  shows "\<exists>r at. hv_resources (viewOf w) (dl_resourceId inp) = Some r
     \<and> res_workspaceId r = dl_workspaceId inp \<and> res_currentRevisionId r = dl_expectedRevisionId inp
     \<and> z = newTombstone inp r (tomb_id z) at \<and> tomb_id z \<notin> tomb_id ` set (hv_tombstones (viewOf w))
     \<and> viewOf w' = (viewOf w)\<lparr>hv_resources := (hv_resources (viewOf w))(dl_resourceId inp \<mapsto>
           r\<lparr>res_status := DeletedLogically, res_updatedAt := at\<rparr>),
         hv_tombstones := hv_tombstones (viewOf w) @ [z]\<rparr>"
proof -
  from run obtain r w1 where 1: "requiredResource repo (dl_workspaceId inp) (dl_resourceId inp) w = (Inr r, w1)"
    unfolding deleteResourceWithin_def andThen_eq_Inr by blast
  have same: "res_currentRevisionId r = dl_expectedRevisionId inp"
    using run 1 unfolding deleteResourceWithin_def by (auto simp: js_ok split: if_splits)
  obtain at w3 where 3: "serviceNow w1 = (Inr at, w3)" by (simp add: serviceNow_def js_simps)
  obtain newId w4 where 4: "serviceNextId w3 = (Inr newId, w4)" by (simp add: serviceNextId_def js_simps)
  let ?z = "newTombstone inp r newId at"
  obtain w5 u5 where 5: "onRepo (hr_addTombstone repo ?z) w4 = (Inr u5, w5)"
    using run 1 3 4 same unfolding deleteResourceWithin_def by (auto simp: js_ok Let_def)
  obtain w6 u6 where 6: "moveHead repo r (dl_expectedRevisionId inp) (res_currentRevisionId r) DeletedLogically at w5
        = (Inr u6, w6)" and rest: "viewOf w' = viewOf w6" "z = ?z"
    using run 1 3 4 5 same unfolding deleteResourceWithin_def
    by (auto simp: js_ok Let_def onRepo_ok dest!: enqueueOutbox_ok audit)
  note R = requiredResource_ok [OF 1]
  have v4: "viewOf w4 = viewOf w" using R clock_ok 3 4 by metis
  have rid: "res_id r = dl_resourceId inp" using R keyed by blast
  obtain r5 where r5: "hr_addTombstone repo ?z (hw_repo w4) = (Inr u5, r5)" "w5 = w4\<lparr>hw_repo := r5\<rparr>"
    using 5 by (auto simp: onRepo_ok)
  have A: "tomb_id ?z \<notin> tomb_id ` set (hv_tombstones (viewOf w))"
      "viewOf w5 = (viewOf w)\<lparr>hv_tombstones := hv_tombstones (viewOf w) @ [?z]\<rparr>"
    using addTombstone [OF r5(1)] r5(2) v4 by simp_all
  have M: "viewOf w6 = (viewOf w5)\<lparr>hv_resources := (hv_resources (viewOf w5))(res_id r \<mapsto>
         r\<lparr>res_status := DeletedLogically, res_updatedAt := at\<rparr>)\<rparr>"
    using moveHead_ok [OF 6] A(2) R rid by (auto simp: head_same [OF same] same)
  show ?thesis
    by (rule exI [of _ r], rule exI [of _ at])
      (use R same rest A M rid in \<open>auto simp: newTombstone_def\<close>)
qed

lemma delete_historyOk:
  assumes run: "deleteResourceWithin repo inp w = (Inr z, w')" and ok: "historyOk sha loc (viewOf w)"
  shows "historyOk sha loc (viewOf w')"
proof -
  have keyed: "\<And>i r. hv_resources (viewOf w) i = Some r \<Longrightarrow> res_id r = i"
    using historyOkD(1) [OF ok] by (simp add: resourceOk_def)
  obtain r at where r: "hv_resources (viewOf w) (dl_resourceId inp) = Some r"
    and view': "viewOf w' = (viewOf w)\<lparr>hv_resources := (hv_resources (viewOf w))(dl_resourceId inp \<mapsto>
           r\<lparr>res_status := DeletedLogically, res_updatedAt := at\<rparr>),
         hv_tombstones := hv_tombstones (viewOf w) @ [z]\<rparr>"
    using delete_ok [OF run keyed] by blast
  have "resourceOk (hv_revisions (viewOf w)) (dl_resourceId inp) (r\<lparr>res_status := DeletedLogically, res_updatedAt := at\<rparr>)"
    using historyOkD(1) [OF ok r] by (simp add: resourceOk_def)
  then show ?thesis using ok unfolding view' historyOk_def by simp
qed

text \<open>A restore creates a revision with the payload of the revision that was deleted.\<close>

lemma restore_ok:
  assumes run: "restoreResourceWithin sha loc repo inp w = (Inr v, w')"
  obtains r z priorId prior w1 w2 at change where
    "hv_resources (viewOf w) (rs_resourceId inp) = Some r"
    "z \<in> set (hv_tombstones (viewOf w))" "openFor (rs_workspaceId inp) (rs_resourceId inp) z"
    "tomb_priorRevisionId z = Some priorId" "hv_revisions (viewOf w) priorId = Some prior"
    "viewOf w1 = viewOf w"
    "createRevisionWithin sha loc repo change w1 = (Inr v, w2)"
    "cr_resourceId change = rs_resourceId inp" "cr_canonicalPayload change = rev_canonicalPayload prior"
    "cr_source change = Some SourceRestore" "cr_restoredFromRevisionId change = Some (rev_id prior)"
    "viewOf w' = (viewOf w2)\<lparr>hv_tombstones := map (closedAt (rs_workspaceId inp) (tomb_id z) at (rs_actorId inp))
       (hv_tombstones (viewOf w2))\<rparr>"
proof -
  from run obtain r wr where 1: "requiredResource repo (rs_workspaceId inp) (rs_resourceId inp) w = (Inr r, wr)"
    unfolding restoreResourceWithin_def andThen_eq_Inr by blast
  from run 1 obtain q wq where 2: "onRepo (hr_getOpenTombstone repo (rs_workspaceId inp) (rs_resourceId inp)) wr
      = (Inr q, wq)"
    unfolding restoreResourceWithin_def by (auto simp: js_ok)
  obtain z priorId where z: "q = Some z" "tomb_priorRevisionId z = Some priorId"
    using run 1 2 unfolding restoreResourceWithin_def by (auto simp: js_ok split: option.splits if_splits)
  let ?clock = "case tomb_recoverUntil z of None \<Rightarrow> ret False
     | Some until \<Rightarrow> if until = [] then ret False else andThen serviceNow (\<lambda>at. ret (until < at))"
  obtain wc where 3: "?clock wq = (Inr False, wc)"
    and 4: "\<exists>prior wp change w2 wx. requiredRevision repo (rs_workspaceId inp) priorId wc = (Inr prior, wp)
      \<and> createRevisionWithin sha loc repo change wp = (Inr v, w2)
      \<and> cr_resourceId change = rs_resourceId inp \<and> cr_canonicalPayload change = rev_canonicalPayload prior
      \<and> cr_source change = Some SourceRestore \<and> cr_restoredFromRevisionId change = Some (rev_id prior)
      \<and> onRepo (hr_closeTombstone repo (rs_workspaceId inp) (tomb_id z) (rs_actorId inp)) w2 = (Inr wx, w')"
    using run 1 2 z unfolding restoreResourceWithin_def
    by (auto simp: js_ok split: if_splits) (fastforce simp: js_ok)+
  obtain prior wp change w2 wx where
      prior: "requiredRevision repo (rs_workspaceId inp) priorId wc = (Inr prior, wp)"
    and make: "createRevisionWithin sha loc repo change wp = (Inr v, w2)"
    and change: "cr_resourceId change = rs_resourceId inp" "cr_canonicalPayload change = rev_canonicalPayload prior"
      "cr_source change = Some SourceRestore" "cr_restoredFromRevisionId change = Some (rev_id prior)"
    and fin: "onRepo (hr_closeTombstone repo (rs_workspaceId inp) (tomb_id z) (rs_actorId inp)) w2 = (Inr wx, w')"
    using 4 by blast
  obtain tq where tq: "hr_getOpenTombstone repo (rs_workspaceId inp) (rs_resourceId inp) (hw_repo wr) = (Inr (Some z), tq)"
      "wq = wr\<lparr>hw_repo := tq\<rparr>"
    using 2 z by (auto simp: onRepo_ok)
  have repo_c: "hw_repo wc = hw_repo wq"
    using 3 clock_ok(1) by (fastforce simp: js_ok split: option.splits if_splits)
  have vq: "viewOf wq = viewOf w" using getOpen [OF tq(1)] tq(2) requiredResource_ok [OF 1] by simp
  have P: "viewOf wp = viewOf w" "hv_revisions (viewOf w) priorId = Some prior"
    using requiredRevision_ok [OF prior] repo_c vq by simp_all
  obtain t where "hr_closeTombstone repo (rs_workspaceId inp) (tomb_id z) (rs_actorId inp) (hw_repo w2) = (Inr wx, t)"
      "w' = w2\<lparr>hw_repo := t\<rparr>"
    using fin by (auto simp: onRepo_ok)
  then obtain at where "viewOf w' = (viewOf w2)\<lparr>hv_tombstones := map (closedAt (rs_workspaceId inp) (tomb_id z) at
      (rs_actorId inp)) (hv_tombstones (viewOf w2))\<rparr>"
    using close by fastforce
  moreover have "z \<in> set (hv_tombstones (viewOf w))" "openFor (rs_workspaceId inp) (rs_resourceId inp) z"
    using getOpen [OF tq(1)] requiredResource_ok [OF 1] by simp_all
  ultimately show thesis
    using that requiredResource_ok [OF 1] z(2) P make change by blast
qed

lemma restore_historyOk:
  assumes run: "restoreResourceWithin sha loc repo inp w = (Inr v, w')" and ok: "historyOk sha loc (viewOf w)"
  shows "historyOk sha loc (viewOf w')"
proof -
  obtain w1 w2 change ts where "viewOf w1 = viewOf w" "createRevisionWithin sha loc repo change w1 = (Inr v, w2)"
      "viewOf w' = (viewOf w2)\<lparr>hv_tombstones := ts\<rparr>"
    using run by (rule restore_ok) blast
  with create_historyOk ok show ?thesis by (simp add: historyOk_def)
qed

lemma transaction_cases:
  assumes "transaction m w = (r, w')"
  obtains x where "m w = (Inr x, w')" "r = Inr x" | e where "r = Inl e" "hw_repo w' = hw_repo w"
  using assms by (auto simp: transaction_def split: prod.splits sum.splits)

lemma service_historyOk:
  assumes "historyOk sha loc (viewOf w)"
  shows "createRevision sha loc repo cinp w = (r, w') \<Longrightarrow> historyOk sha loc (viewOf w')"
    and "deleteResource repo dinp w = (r', w') \<Longrightarrow> historyOk sha loc (viewOf w')"
    and "restoreResource sha loc repo rinp w = (r, w') \<Longrightarrow> historyOk sha loc (viewOf w')"
  using assms unfolding createRevision_def deleteResource_def restoreResource_def
  by (auto elim!: transaction_cases dest: create_historyOk delete_historyOk restore_historyOk)

end

section \<open>Runs of the service\<close>

inductive history_step ::
  "(bytes \<Rightarrow> string) \<Rightarrow> string comparator \<Rightarrow> 'r historyRepository \<Rightarrow> 'r historyWorld \<Rightarrow> 'r historyWorld \<Rightarrow> bool"
  for sha loc repo where
  created: "createRevision sha loc repo cinp w = (r1, w') \<Longrightarrow> history_step sha loc repo w w'"
| deleted: "deleteResource repo dinp w = (r2, w') \<Longrightarrow> history_step sha loc repo w w'"
| restored: "restoreResource sha loc repo rinp w = (r3, w') \<Longrightarrow> history_step sha loc repo w w'"

inductive_cases history_stepE: "history_step sha loc repo w w'"

context history_repository
begin

lemma run_historyOk:
  assumes "(history_step sha loc repo)\<^sup>*\<^sup>* w w'" "historyOk sha loc (viewOf w)"
  shows "historyOk sha loc (viewOf w')"
  using assms
proof (induction rule: rtranclp_induct)
  case (step y z)
  then show ?case by (auto elim!: history_stepE dest: service_historyOk)
qed

end

end
