(* ===== verification/Database.thy ===== *)
theory Database
  imports Core "HOL-Library.DAList"
begin

text \<open>
  What the Postgres adapters of \<open>packages/persistence-postgres\<close> share: \<open>inTransaction\<close> of
  \<open>db.ts\<close>, \<open>deterministicUuid\<close> of \<open>ids.ts\<close>, the errors of unique and foreign key constraints, and tables
  keyed by a unique column. A table is a value of the type \<open>alist\<close>, whose keys are distinct by
  construction; the row level security of the migrations, which shows a statement only the
  rows of the workspace in \<open>trust.workspace_id\<close>, is written out in each statement.
\<close>

definition uniqueViolation :: js_error where
  "uniqueViolation = JsError ''error'' (Some ''23505'') ''duplicate key value violates unique constraint''"

definition foreignKeyViolation :: js_error where
  "foreignKeyViolation = JsError ''error'' (Some ''23503'') ''insert or update violates foreign key constraint''"

text \<open>
  \<open>BEGIN\<close>, the work, \<open>COMMIT\<close>; an error rolls the tables back and is thrown again. What a
  rollback restores is a parameter: it takes the tables of the first state, and the clock and
  the source of identifiers of the second.
\<close>

definition inTransaction :: "('s \<Rightarrow> 's \<Rightarrow> 's) \<Rightarrow> ('s, 'a) js \<Rightarrow> ('s, 'a) js" where
  "inTransaction rollback work =
     (\<lambda>s. case work s of (Inl e, u) \<Rightarrow> (Inl e, rollback s u) | (Inr x, t) \<Rightarrow> (Inr x, t))"

lemma inTransaction_ok [js_ok]: "inTransaction rb m s = (Inr x, t) \<longleftrightarrow> m s = (Inr x, t)"
  by (auto simp: inTransaction_def split: prod.splits sum.splits)

lemma inTransaction_run [js_simps]:
  "inTransaction rb m s = (case m s of (Inl e, u) \<Rightarrow> (Inl e, rb s u) | (Inr x, t) \<Rightarrow> (Inr x, t))"
  by (simp add: inTransaction_def)

lemma inTransaction_error: "inTransaction rb m s = (Inl e, t) \<Longrightarrow> \<exists>u. t = rb s u"
  by (auto simp: inTransaction_def split: prod.splits sum.splits)

text \<open>A rollback of tables that hold nothing else.\<close>

definition keepTables :: "'t \<Rightarrow> 't \<Rightarrow> 't" where
  "keepTables before after = before"

text \<open>\<open>ids.ts\<close>: 32 digits of the digest with the version and the variant of a UUID.\<close>

definition hexValue :: "char \<Rightarrow> nat" where
  "hexValue c = (let n = of_char c in if n < 58 then n - 48 else n - 87)"

definition deterministicUuid :: "(bytes \<Rightarrow> string) \<Rightarrow> string \<Rightarrow> string" where
  "deterministicUuid sha v =
     (let digits = take 32 (sha (utf8 v));
          versioned = digits[12 := CHR ''4''];
          hex = versioned[16 := ''89ab'' ! (hexValue (versioned ! 16) mod 4)] in
      take 8 hex @ ''-'' @ take 4 (drop 8 hex) @ ''-'' @ take 4 (drop 12 hex) @ ''-''
        @ take 4 (drop 16 hex) @ ''-'' @ drop 20 hex)"

lemma deterministicUuid_length:
  "isSha256 (sha (utf8 v)) \<Longrightarrow> length (deterministicUuid sha v) = 36"
  by (simp add: deterministicUuid_def isSha256_def Let_def)

section \<open>Tables\<close>

lemma table_find:
  assumes "find P (DAList.impl_of t) = Some (k, x)"
  shows "DAList.lookup t k = Some x \<and> P (k, x)"
proof -
  have "(k, x) \<in> set (DAList.impl_of t)" "P (k, x)"
    using assms by (auto simp: find_Some_iff in_set_conv_nth)
  then show ?thesis
    by (simp add: DAList.lookup.rep_eq)
qed

end
