(* ===== verification/HistoryStore.thy ===== *)
theory HistoryStore
  imports History Database "HOL-Library.Product_Lexorder"
begin

text \<open>
  \<open>packages/persistence-postgres/src/history-repository.ts\<close>: the statements of
  \<open>PostgresHistoryRepository\<close> as updates of tables, the interpretation of the locale
  \<open>history_repository\<close> on them, and the properties of the history service over this
  repository. Random identifiers and the database clock come from \<open>ht_ambient\<close>.
\<close>

section \<open>Tables\<close>

record operationRow =
  or_id :: string
  or_workspaceId :: string
  or_operationType :: string
  or_idempotencyKey :: string
  or_requestedBy :: string
  or_request :: json
  or_result :: json
  or_completedAt :: string

record outboxRow =
  ob_id :: string
  ob_workspaceId :: string
  ob_operationId :: string
  ob_eventType :: string
  ob_payload :: json
  ob_availableAt :: string

record historyTables =
  ht_resources :: "string \<rightharpoonup> resource"
  ht_revisions :: "string \<rightharpoonup> revision"
  ht_tombstones :: "tombstone list"
  ht_audit :: "chainedAuditEvent list"
  ht_operations :: "operationRow list"
  ht_outbox :: "outboxRow list"
  ht_ambient :: ambient

definition dbNow :: "(historyTables, string) js" where
  "dbNow = within ht_ambient (\<lambda>a t. t\<lparr>ht_ambient := a\<rparr>) now"

definition randomUUID :: "(historyTables, string) js" where
  "randomUUID = within ht_ambient (\<lambda>a t. t\<lparr>ht_ambient := a\<rparr>) nextId"

section \<open>Statements\<close>

definition pgGetResource :: "string \<Rightarrow> string \<Rightarrow> (historyTables, resource option) js" where
  "pgGetResource workspaceId resourceId =
     reading (\<lambda>t. inWorkspace res_workspaceId workspaceId (ht_resources t resourceId))"

definition pgGetRevision :: "string \<Rightarrow> string \<Rightarrow> (historyTables, revision option) js" where
  "pgGetRevision workspaceId revisionId =
     reading (\<lambda>t. inWorkspace rev_workspaceId workspaceId (ht_revisions t revisionId))"

definition pgAppendRevision :: "revision \<Rightarrow> (historyTables, unit) js" where
  "pgAppendRevision v =
     andThen (reading (\<lambda>t. ht_revisions t (rev_id v))) (\<lambda>existing.
       if existing \<noteq> None then throw uniqueViolation
       else updating (\<lambda>t. t\<lparr>ht_revisions := (ht_revisions t)(rev_id v \<mapsto> v)\<rparr>))"

definition pgSetResourceHead :: "headUpdate \<Rightarrow> (historyTables, bool) js" where
  "pgSetResourceHead h =
     andThen (reading (\<lambda>t. ht_resources t (hu_resourceId h))) (\<lambda>row.
       case row of
         None \<Rightarrow> ret False
       | Some r \<Rightarrow>
           if headMatches h r
           then andThen (updating (\<lambda>t. t\<lparr>ht_resources := (ht_resources t)(hu_resourceId h \<mapsto> withHead h r)\<rparr>))
                  (\<lambda>_. ret True)
           else ret False)"

definition pgAddTombstone :: "tombstone \<Rightarrow> (historyTables, unit) js" where
  "pgAddTombstone z =
     andThen (reading ht_tombstones) (\<lambda>rows.
       if tomb_id z \<in> set (map tomb_id rows) then throw uniqueViolation
       else updating (\<lambda>t. t\<lparr>ht_tombstones := ht_tombstones t @ [z]\<rparr>))"

text \<open>\<open>ORDER BY deleted_at DESC LIMIT 1\<close>; among equal times the first row found.\<close>

fun newest :: "tombstone list \<Rightarrow> tombstone option" where
  "newest [] = None"
| "newest (z # zs) =
     (case newest zs of None \<Rightarrow> Some z
      | Some y \<Rightarrow> if tomb_deletedAt z < tomb_deletedAt y then Some y else Some z)"

definition pgGetOpenTombstone :: "string \<Rightarrow> string \<Rightarrow> (historyTables, tombstone option) js" where
  "pgGetOpenTombstone workspaceId resourceId =
     reading (\<lambda>t. newest (filter (openFor workspaceId resourceId) (ht_tombstones t)))"

definition pgCloseTombstone :: "string \<Rightarrow> string \<Rightarrow> string \<Rightarrow> (historyTables, unit) js" where
  "pgCloseTombstone workspaceId tombstoneId restoredBy =
     andThen dbNow (\<lambda>at.
       updating (\<lambda>t. t\<lparr>ht_tombstones := map (closedAt workspaceId tombstoneId at restoredBy) (ht_tombstones t)\<rparr>))"

text \<open>
  \<open>ORDER BY occurred_at DESC,id DESC LIMIT 1\<close> over the events of a workspace, and the reading
  order \<open>ORDER BY occurred_at,id\<close> that verification uses.
\<close>

definition eventOrder :: "chainedAuditEvent \<Rightarrow> string \<times> string" where
  "eventOrder e = (ev_timestamp e, ev_id e)"

definition auditInOrder :: "string \<Rightarrow> chainedAuditEvent list \<Rightarrow> chainedAuditEvent list" where
  "auditInOrder workspaceId events = sort_key eventOrder (filter (\<lambda>e. ev_workspaceId e = workspaceId) events)"

definition latestHash :: "string \<Rightarrow> chainedAuditEvent list \<Rightarrow> string" where
  "latestHash workspaceId events =
     (let es = auditInOrder workspaceId events in if es = [] then [] else eventHash (last es))"

definition pgAppendAudit :: "(bytes \<Rightarrow> string) \<Rightarrow> historyAuditEvent \<Rightarrow> (historyTables, unit) js" where
  "pgAppendAudit sha event =
     andThen (reading (\<lambda>t. latestHash (he_workspaceId event) (ht_audit t))) (\<lambda>previous.
     andThen randomUUID (\<lambda>newId.
     andThen randomUUID (\<lambda>requestId.
     andThen randomUUID (\<lambda>correlationId.
       let chained = appendAuditEvent sha \<lparr>ev_id = newId, ev_workspaceId = he_workspaceId event,
             ev_actorType = ActorUser, ev_actorId = he_actorId event, ev_action = he_action event,
             ev_subjectKind = ''resource'', ev_subjectId = he_subjectId event, ev_timestamp = he_occurredAt event,
             ev_requestId = requestId, ev_correlationId = correlationId, ev_metadata = he_metadata event\<rparr> previous in
       andThen (reading ht_audit) (\<lambda>rows.
         if newId \<in> set (map ev_id rows) then throw uniqueViolation
         else updating (\<lambda>t. t\<lparr>ht_audit := ht_audit t @ [chained]\<rparr>))))))"

definition sameOperation :: "operationRow \<Rightarrow> operationRow \<Rightarrow> bool" where
  "sameOperation a b = (or_operationType a = or_operationType b \<and> or_workspaceId a = or_workspaceId b
     \<and> or_idempotencyKey a = or_idempotencyKey b)"

definition pgEnqueueOutbox :: "(bytes \<Rightarrow> string) \<Rightarrow> historyOutboxEvent \<Rightarrow> (historyTables, unit) js" where
  "pgEnqueueOutbox sha event =
     (let row = \<lparr>or_id = ho_id event, or_workspaceId = ho_workspaceId event, or_operationType = ho_eventType event,
           or_idempotencyKey = ho_id event, or_requestedBy = ho_actorId event,
           or_request = JObj [(''subjectId'', JStr (ho_subjectId event))], or_result = JObj (ho_payload event),
           or_completedAt = ho_occurredAt event\<rparr>;
          out = \<lparr>ob_id = deterministicUuid sha (''history-outbox:'' @ ho_id event), ob_workspaceId = ho_workspaceId event,
           ob_operationId = ho_id event, ob_eventType = ho_eventType event,
           ob_payload = JObj (AList.updates (map fst (ho_payload event)) (map snd (ho_payload event))
             [(''subjectId'', JStr (ho_subjectId event))]),
           ob_availableAt = ho_occurredAt event\<rparr> in
      andThen (reading ht_operations) (\<lambda>rows.
      andThen
        (if list_ex (sameOperation row) rows then ret ()
         else if or_id row \<in> set (map or_id rows) then throw uniqueViolation
         else updating (\<lambda>t. t\<lparr>ht_operations := ht_operations t @ [row]\<rparr>)) (\<lambda>_.
      andThen (reading ht_outbox) (\<lambda>outs.
        if ob_id out \<in> set (map ob_id outs) then ret ()
        else updating (\<lambda>t. t\<lparr>ht_outbox := ht_outbox t @ [out]\<rparr>)))))"

definition postgresHistory :: "(bytes \<Rightarrow> string) \<Rightarrow> historyTables historyRepository" where
  "postgresHistory sha = \<lparr>
     hr_getResource = pgGetResource, hr_getRevision = pgGetRevision, hr_appendRevision = pgAppendRevision,
     hr_setResourceHead = pgSetResourceHead, hr_addTombstone = pgAddTombstone,
     hr_getOpenTombstone = pgGetOpenTombstone, hr_closeTombstone = pgCloseTombstone,
     hr_appendAudit = pgAppendAudit sha, hr_enqueueOutbox = Some (pgEnqueueOutbox sha)\<rparr>"

section \<open>The tables meet the contract\<close>

definition tableView :: "historyTables \<Rightarrow> historyView" where
  "tableView t = \<lparr>hv_resources = ht_resources t, hv_revisions = ht_revisions t, hv_tombstones = ht_tombstones t\<rparr>"

lemma tableView_simps [simp]:
  "hv_resources (tableView t) = ht_resources t" "hv_revisions (tableView t) = ht_revisions t"
  "hv_tombstones (tableView t) = ht_tombstones t"
  by (simp_all add: tableView_def)

lemma newest_Some: "newest zs = Some z \<Longrightarrow> z \<in> set zs"
  by (induction zs) (auto split: option.splits if_splits)

lemma newest_None: "newest zs = None \<longleftrightarrow> zs = []"
  by (cases zs) (auto split: option.splits if_splits)

lemma pgAudit_view: "pgAppendAudit sha e s = (Inr u, t) \<Longrightarrow> tableView t = tableView s"
  by (auto simp: pgAppendAudit_def randomUUID_def js_simps Let_def tableView_def split: if_splits)

lemma pgOutbox_view: "pgEnqueueOutbox sha e s = (Inr u, t) \<Longrightarrow> tableView t = tableView s"
  by (auto simp: pgEnqueueOutbox_def js_simps Let_def tableView_def split: if_splits)

interpretation pg: history_repository "postgresHistory sha" tableView
proof
  fix w i s x t
  assume "hr_getResource (postgresHistory sha) w i s = (Inr x, t)"
  then show "tableView t = tableView s \<and> x = inWorkspace res_workspaceId w (hv_resources (tableView s) i)"
    by (auto simp: postgresHistory_def pgGetResource_def js_simps tableView_def)
next
  fix w i s y t
  assume "hr_getRevision (postgresHistory sha) w i s = (Inr y, t)"
  then show "tableView t = tableView s \<and> y = inWorkspace rev_workspaceId w (hv_revisions (tableView s) i)"
    by (auto simp: postgresHistory_def pgGetRevision_def js_simps tableView_def)
next
  fix v s u t
  assume "hr_appendRevision (postgresHistory sha) v s = (Inr u, t)"
  then show "hv_revisions (tableView s) (rev_id v) = None \<and> tableView t = (tableView s)\<lparr>hv_revisions :=
      (hv_revisions (tableView s))(rev_id v \<mapsto> v)\<rparr>"
    by (auto simp: postgresHistory_def pgAppendRevision_def js_simps tableView_def split: if_splits)
next
  fix h s t
  assume "hr_setResourceHead (postgresHistory sha) h s = (Inr True, t)"
  then show "\<exists>r. hv_resources (tableView s) (hu_resourceId h) = Some r \<and> headMatches h r \<and> tableView t =
      (tableView s)\<lparr>hv_resources := (hv_resources (tableView s))(hu_resourceId h \<mapsto> withHead h r)\<rparr>"
    by (auto simp: postgresHistory_def pgSetResourceHead_def js_simps tableView_def split: if_splits option.splits)
next
  fix z s u t
  assume "hr_addTombstone (postgresHistory sha) z s = (Inr u, t)"
  then show "tomb_id z \<notin> tomb_id ` set (hv_tombstones (tableView s)) \<and> tableView t =
      (tableView s)\<lparr>hv_tombstones := hv_tombstones (tableView s) @ [z]\<rparr>"
    by (auto simp: postgresHistory_def pgAddTombstone_def js_simps tableView_def split: if_splits)
next
  fix w i s q t
  assume "hr_getOpenTombstone (postgresHistory sha) w i s = (Inr q, t)"
  then have t: "t = s" and q: "newest (filter (openFor w i) (ht_tombstones s)) = q"
    by (auto simp: postgresHistory_def pgGetOpenTombstone_def js_simps)
  show "tableView t = tableView s \<and> (case q of
      None \<Rightarrow> list_all (\<lambda>z. \<not> openFor w i z) (hv_tombstones (tableView s))
    | Some z \<Rightarrow> z \<in> set (hv_tombstones (tableView s)) \<and> openFor w i z)"
  proof (cases q)
    case None
    with q t show ?thesis by (simp add: tableView_def newest_None filter_empty_conv list_all_iff)
  next
    case (Some z)
    with q newest_Some have "z \<in> set (filter (openFor w i) (ht_tombstones s))" by blast
    with t Some show ?thesis by (simp add: tableView_def)
  qed
next
  fix w i by_whom s u t
  assume "hr_closeTombstone (postgresHistory sha) w i by_whom s = (Inr u, t)"
  then show "\<exists>at. tableView t = (tableView s)\<lparr>hv_tombstones := map (closedAt w i at by_whom) (hv_tombstones (tableView s))\<rparr>"
    by (auto simp: postgresHistory_def pgCloseTombstone_def dbNow_def js_simps tableView_def)
qed (auto simp: postgresHistory_def dest: pgAudit_view pgOutbox_view)

section \<open>Properties of the history\<close>


definition sampleResource :: resource where
  "sampleResource = \<lparr>res_id = ''r1'', res_workspaceId = ''w1'', res_datasetId = ''d1'', res_resourceType = ''note'',
     res_title = None, res_status = Active, res_currentRevisionId = None, res_createdBy = ''u1'',
     res_createdAt = ''t0'', res_updatedAt = ''t0''\<rparr>"

definition sampleTables :: historyTables where
  "sampleTables = \<lparr>ht_resources = [''r1'' \<mapsto> sampleResource], ht_revisions = Map.empty, ht_tombstones = [],
     ht_audit = [], ht_operations = [], ht_outbox = [],
     ht_ambient = \<lparr>nowAt = (\<lambda>n. replicate n CHR ''t''), ticks = 0, idAt = (\<lambda>n. replicate n CHR ''a''), idCount = 0\<rparr>\<rparr>"

definition sampleHistory :: "historyTables historyWorld" where
  "sampleHistory = \<lparr>hw_repo = sampleTables,
     hw_ambient = \<lparr>nowAt = (\<lambda>n. replicate n CHR ''t''), ticks = 0, idAt = (\<lambda>n. replicate (Suc n) CHR ''v''), idCount = 0\<rparr>\<rparr>"

definition sampleCreate :: "string option \<Rightarrow> createRevisionInput" where
  "sampleCreate expected = \<lparr>cr_workspaceId = ''w1'', cr_resourceId = ''r1'', cr_expectedRevisionId = expected,
     cr_schemaPackageId = ''p1'', cr_schemaVersion = ''1.0.0'', cr_canonicalPayload = [(''a'', JNum 1)],
     cr_actorId = ''u1'', cr_source = None, cr_changeNote = None, cr_restoredFromRevisionId = None\<rparr>"

lemma sampleHistory_ok: "historyOk sha loc (tableView (hw_repo sampleHistory))"
  by (simp add: historyOk_def tableView_def sampleHistory_def sampleTables_def resourceOk_def sampleResource_def)

lemmas history_run = createRevision_def createRevisionWithin_def transaction_def requiredResource_def
  requiredRevision_def currentRevision_def serviceNow_def serviceNextId_def onRepo_def moveHead_def
  enqueueOutbox_def postgresHistory_def pgGetResource_def pgGetRevision_def pgAppendRevision_def
  pgSetResourceHead_def pgAppendAudit_def pgEnqueueOutbox_def randomUUID_def inWorkspace_def
  headMatches_def withHead_def latestHash_def auditInOrder_def js_simps Let_def

definition sampleAfter :: "(bytes \<Rightarrow> string) \<Rightarrow> string comparator \<Rightarrow> historyTables historyWorld" where
  "sampleAfter sha loc = snd (createRevision sha loc (postgresHistory sha) (sampleCreate None) sampleHistory)"

lemma sampleAfter_revisions:
  "\<exists>x. ht_revisions (hw_repo (sampleAfter sha loc)) ''v'' = Some x \<and> rev_revisionNumber x = 1
     \<and> ht_resources (hw_repo (sampleAfter sha loc)) ''r1''
         = Some (sampleResource\<lparr>res_currentRevisionId := Some ''v'', res_updatedAt := []\<rparr>)"
  by (simp add: sampleAfter_def sampleHistory_def sampleTables_def sampleResource_def sampleCreate_def
      history_run newRevision_def assertNextRevision_def)

lemma sampleAfter_step:
  "(history_step sha loc (postgresHistory sha))\<^sup>*\<^sup>* sampleHistory (sampleAfter sha loc)"
  unfolding sampleAfter_def by (rule r_into_rtranclp) (rule history_step.created [OF surjective_pairing])


text \<open>
  Optimistic concurrency: a new revision or a deletion that was based on another head than
  the current one is refused with the conflict error, and the tables stay as they are.
\<close>

theorem stale_base_rejected:
  assumes "historyOk sha loc (tableView (hw_repo w))"
    and "ht_resources (hw_repo w) rid = Some r" and "res_workspaceId r = ws"
    and "res_currentRevisionId r \<noteq> expected"
    and "cr_workspaceId cinp = ws" "cr_resourceId cinp = rid" "cr_expectedRevisionId cinp = expected"
    and "dl_workspaceId dinp = ws" "dl_resourceId dinp = rid" "dl_expectedRevisionId dinp = expected"
  shows "(\<exists>u. createRevision sha loc (postgresHistory sha) cinp w = (Inl historyConflictError, u)
         \<and> hw_repo u = hw_repo w)
     \<and> (\<exists>u. deleteResource (postgresHistory sha) dinp w = (Inl historyConflictError, u)
         \<and> hw_repo u = hw_repo w)"
proof -
  let ?repo = "postgresHistory sha"
  have res: "requiredResource ?repo ws rid w = (Inr r, w)"
    using assms(2,3) by (simp add: requiredResource_def onRepo_def postgresHistory_def pgGetResource_def
        inWorkspace_def js_simps)
  have "\<exists>c. currentRevision ?repo ws r w = (Inr c, w)"
  proof (cases "res_currentRevisionId r")
    case (Some h)
    have "resourceOk (ht_revisions (hw_repo w)) rid r"
      using historyOkD(1) [OF assms(1)] assms(2) by (simp add: tableView_def)
    then obtain x where "ht_revisions (hw_repo w) h = Some x" "rev_workspaceId x = ws"
      using Some assms(3) by (auto simp: resourceOk_def)
    then show ?thesis
      using Some by (simp add: currentRevision_def requiredRevision_def onRepo_def postgresHistory_def
          pgGetRevision_def inWorkspace_def js_simps)
  qed (simp add: currentRevision_def js_simps)
  then obtain c where cur: "currentRevision ?repo ws r w = (Inr c, w)" by blast
  have "\<exists>u. createRevision sha loc ?repo cinp w = (Inl historyConflictError, u) \<and> hw_repo u = hw_repo w"
    using res cur assms(4-7)
    by (simp add: createRevision_def createRevisionWithin_def transaction_def js_simps)
  moreover have "\<exists>u. deleteResource ?repo dinp w = (Inl historyConflictError, u) \<and> hw_repo u = hw_repo w"
    using res assms(4,8-10)
    by (simp add: deleteResource_def deleteResourceWithin_def transaction_def js_simps)
  ultimately show ?thesis ..
qed

definition sampleDelete :: "string option \<Rightarrow> deleteResourceInput" where
  "sampleDelete expected = \<lparr>dl_workspaceId = ''w1'', dl_resourceId = ''r1'', dl_expectedRevisionId = expected,
     dl_actorId = ''u1'', dl_recoverUntil = None, dl_reason = None\<rparr>"

theorem stale_base_rejected_witness:
  "\<exists>u. deleteResource (postgresHistory (\<lambda>_. sampleDigest)) (sampleDelete (Some ''v9'')) sampleHistory
     = (Inl historyConflictError, u) \<and> hw_repo u = hw_repo sampleHistory"
  using stale_base_rejected [OF sampleHistory_ok, of "''r1''" sampleResource "''w1''" "Some ''v9''"
      "sampleCreate (Some ''v9'')" "sampleDelete (Some ''v9'')" "\<lambda>_. sampleDigest" default]
  by (simp add: sampleHistory_def sampleTables_def sampleResource_def sampleCreate_def sampleDelete_def)

text \<open>
  A restore brings back exactly what was deleted: it needs an open tombstone of the resource
  in the workspace, appends a revision with the payload of the revision that was current at the
  deletion and a reference to it, makes it the head of the now active resource, and closes the
  tombstone; everything else stays.
\<close>

theorem restore_brings_back:
  assumes "restoreResource sha loc (postgresHistory sha) inp w = (Inr v, w')"
    and "historyOk sha loc (tableView (hw_repo w))"
  shows "\<exists>z prior r at. z \<in> set (ht_tombstones (hw_repo w)) \<and> openFor (rs_workspaceId inp) (rs_resourceId inp) z
     \<and> Option.bind (tomb_priorRevisionId z) (ht_revisions (hw_repo w)) = Some prior
     \<and> rev_canonicalPayload v = rev_canonicalPayload prior \<and> rev_restoredFromRevisionId v = Some (rev_id prior)
     \<and> rev_source v = SourceRestore \<and> rev_resourceId v = rs_resourceId inp
     \<and> ht_revisions (hw_repo w') = (ht_revisions (hw_repo w))(rev_id v \<mapsto> v)
     \<and> ht_resources (hw_repo w) (rs_resourceId inp) = Some r
     \<and> ht_resources (hw_repo w') = (ht_resources (hw_repo w))(rs_resourceId inp \<mapsto>
          r\<lparr>res_currentRevisionId := Some (rev_id v), res_status := Active, res_updatedAt := rev_createdAt v\<rparr>)
     \<and> ht_tombstones (hw_repo w') = map (closedAt (rs_workspaceId inp) (tomb_id z) at (rs_actorId inp))
          (ht_tombstones (hw_repo w))"
proof -
  let ?repo = "postgresHistory sha"
  have run: "restoreResourceWithin sha loc ?repo inp w = (Inr v, w')"
    using assms(1) unfolding restoreResource_def by (auto elim: pg.transaction_cases)
  from run show ?thesis
  proof (rule pg.restore_ok)
    fix r0 z priorId prior w1 w2 at change
    assume z: "z \<in> set (hv_tombstones (tableView (hw_repo w)))"
        "openFor (rs_workspaceId inp) (rs_resourceId inp) z" "tomb_priorRevisionId z = Some priorId"
        "hv_revisions (tableView (hw_repo w)) priorId = Some prior"
      and v1: "tableView (hw_repo w1) = tableView (hw_repo w)"
      and make: "createRevisionWithin sha loc ?repo change w1 = (Inr v, w2)"
      and ch: "cr_resourceId change = rs_resourceId inp" "cr_canonicalPayload change = rev_canonicalPayload prior"
        "cr_source change = Some SourceRestore" "cr_restoredFromRevisionId change = Some (rev_id prior)"
      and close: "tableView (hw_repo w') = (tableView (hw_repo w2))\<lparr>hv_tombstones := map (closedAt (rs_workspaceId inp)
         (tomb_id z) at (rs_actorId inp)) (hv_tombstones (tableView (hw_repo w2)))\<rparr>"
    have keyed: "\<And>i r. hv_resources (tableView (hw_repo w1)) i = Some r \<Longrightarrow> res_id r = i"
      unfolding v1 using historyOkD(1) [OF assms(2)] by (simp add: resourceOk_def)
    obtain r current at' where r: "ht_resources (hw_repo w) (rs_resourceId inp) = Some r"
      and v: "v = newRevision sha loc change r current (rev_id v) at'"
      and view2: "tableView (hw_repo w2) = (tableView (hw_repo w))\<lparr>hv_resources := (ht_resources (hw_repo w))
         (rs_resourceId inp \<mapsto> r\<lparr>res_currentRevisionId := Some (rev_id v), res_status := Active, res_updatedAt := at'\<rparr>),
         hv_revisions := (ht_revisions (hw_repo w))(rev_id v \<mapsto> v)\<rparr>"
      using pg.create_ok [OF make keyed] unfolding v1 ch(1) tableView_simps by blast
    have rid: "res_id r = rs_resourceId inp"
      using historyOkD(1) [OF assms(2), of "rs_resourceId inp" r] r by (simp add: resourceOk_def)
    have fields: "rev_canonicalPayload v = rev_canonicalPayload prior" "rev_restoredFromRevisionId v = Some (rev_id prior)"
        "rev_source v = SourceRestore" "rev_resourceId v = rs_resourceId inp" "rev_createdAt v = at'"
      using ch rid by (subst v, simp add: newRevision_def)+
    show ?thesis
      using z r fields close view2
      by (intro exI [of _ z] exI [of _ prior] exI [of _ r] exI [of _ at]) (simp add: tableView_def)
  qed
qed

definition sampleRestore :: restoreResourceInput where
  "sampleRestore = \<lparr>rs_workspaceId = ''w1'', rs_resourceId = ''r1'', rs_actorId = ''u1'', rs_changeNote = None\<rparr>"

definition sampleRevision :: "(bytes \<Rightarrow> string) \<Rightarrow> string comparator \<Rightarrow> revision" where
  "sampleRevision sha loc = newRevision sha loc (sampleCreate None) sampleResource None ''v'' ''t1''"

definition sampleDeletedResource :: resource where
  "sampleDeletedResource = sampleResource\<lparr>res_currentRevisionId := Some ''v'', res_status := DeletedLogically\<rparr>"

definition sampleDeleted :: "(bytes \<Rightarrow> string) \<Rightarrow> string comparator \<Rightarrow> historyTables historyWorld" where
  "sampleDeleted sha loc = sampleHistory\<lparr>hw_repo := sampleTables\<lparr>
     ht_resources := [''r1'' \<mapsto> sampleDeletedResource],
     ht_revisions := [''v'' \<mapsto> sampleRevision sha loc],
     ht_tombstones := [newTombstone (sampleDelete (Some ''v'')) sampleDeletedResource ''z'' ''t2'']\<rparr>,
     hw_ambient := (hw_ambient sampleHistory)\<lparr>idCount := 1\<rparr>\<rparr>"

lemmas history_run_all = history_run restoreResource_def restoreResourceWithin_def pgGetOpenTombstone_def
  pgCloseTombstone_def dbNow_def openFor_def

lemma sampleRestore_run:
  "\<exists>v w'. restoreResource sha loc (postgresHistory sha) sampleRestore (sampleDeleted sha loc) = (Inr v, w')"
  by (simp add: sampleDeleted_def sampleHistory_def sampleTables_def sampleResource_def sampleDeletedResource_def
      sampleRevision_def sampleCreate_def sampleDelete_def sampleRestore_def history_run_all newRevision_def
      newTombstone_def assertNextRevision_def sameOperation_def)

lemma sampleDeleted_ok: "historyOk sha loc (tableView (hw_repo (sampleDeleted sha loc)))"
  by (simp add: historyOk_def sampleDeleted_def resourceOk_def revisionOk_def sampleDeletedResource_def
      sampleRevision_def newRevision_def sampleResource_def)

lemma sampleRestore_ids: "rs_workspaceId sampleRestore = ''w1''" "rs_resourceId sampleRestore = ''r1''"
  by (simp_all add: sampleRestore_def)

theorem restore_brings_back_witness:
  "\<exists>v w' z (prior :: revision). restoreResource (\<lambda>_. sampleDigest) default (postgresHistory (\<lambda>_. sampleDigest)) sampleRestore
       (sampleDeleted (\<lambda>_. sampleDigest) default) = (Inr v, w')
     \<and> openFor ''w1'' ''r1'' z \<and> rev_canonicalPayload v = rev_canonicalPayload prior
     \<and> rev_restoredFromRevisionId v = Some (rev_id prior) \<and> rev_source v = SourceRestore"
proof -
  obtain v w' where run: "restoreResource (\<lambda>_. sampleDigest) default (postgresHistory (\<lambda>_. sampleDigest))
       sampleRestore (sampleDeleted (\<lambda>_. sampleDigest) default) = (Inr v, w')"
    using sampleRestore_run by blast
  then have "\<exists>z (prior :: revision). openFor ''w1'' ''r1'' z \<and> rev_canonicalPayload v = rev_canonicalPayload prior
     \<and> rev_restoredFromRevisionId v = Some (rev_id prior) \<and> rev_source v = SourceRestore"
    using restore_brings_back [OF run sampleDeleted_ok] unfolding sampleRestore_ids by blast
  with run show ?thesis by blast
qed

section \<open>The audit trail in the database\<close>

text \<open>What a call of \<open>appendAudit\<close> adds.\<close>

lemma pgAppendAudit_ok:
  assumes "pgAppendAudit sha e s = (Inr u, t)"
  shows "\<exists>b. ht_audit t = ht_audit s @ [appendAuditEvent sha b (latestHash (he_workspaceId e) (ht_audit s))]
     \<and> ev_workspaceId b = he_workspaceId e \<and> ev_timestamp b = he_occurredAt e \<and> ev_action b = he_action e
     \<and> ev_id b = idAt (ht_ambient s) (idCount (ht_ambient s))"
  using assms
  by (auto simp: pgAppendAudit_def randomUUID_def js_simps Let_def split: if_splits)

lemma event_fields [simp]:
  "ev_workspaceId (appendAuditEvent sha b p) = ev_workspaceId b" "ev_id (appendAuditEvent sha b p) = ev_id b"
  "ev_timestamp (appendAuditEvent sha b p) = ev_timestamp b" "ev_action (appendAuditEvent sha b p) = ev_action b"
  by (simp_all add: appendAuditEvent_def auditEventBody.defs)

lemma sort_key_snoc_greatest:
  assumes "\<And>x. x \<in> set xs \<Longrightarrow> f x \<le> f y"
  shows "sort_key f (xs @ [y]) = sort_key f xs @ [y]"
  using assms
proof (induction xs)
  case (Cons x xs)
  have "insort_key f x (zs @ [y]) = insort_key f x zs @ [y]" if "f x \<le> f y" for zs
    using that by (induction zs) auto
  with Cons show ?case by simp
qed simp

text \<open>
  The audit trail keeps verifying when events come in order: if the events of a workspace,
  read in the order verification uses, form a valid chain, and the appended event is later than
  all of them in that order, then the extended trail, read the same way, is a valid chain that
  ends with the new event; other workspaces see the trail they saw before.
\<close>

theorem audit_trail_extends:
  assumes "pgAppendAudit sha e s = (Inr u, t)"
    and "verifyAuditChain sha (auditInOrder (he_workspaceId e) (ht_audit s))"
    and "list_all (\<lambda>x. ev_workspaceId x = he_workspaceId e \<longrightarrow>
          eventOrder x \<le> (he_occurredAt e, idAt (ht_ambient s) (idCount (ht_ambient s)))) (ht_audit s)"
  shows "verifyAuditChain sha (auditInOrder (he_workspaceId e) (ht_audit t))
     \<and> he_action e = ev_action (last (auditInOrder (he_workspaceId e) (ht_audit t)))
     \<and> (\<forall>ws. ws \<noteq> he_workspaceId e \<longrightarrow> auditInOrder ws (ht_audit t) = auditInOrder ws (ht_audit s))"
proof -
  let ?w = "he_workspaceId e"
  obtain b where t: "ht_audit t = ht_audit s @ [appendAuditEvent sha b (latestHash ?w (ht_audit s))]"
    and b: "ev_workspaceId b = ?w" "ev_timestamp b = he_occurredAt e" "ev_action b = he_action e"
      "ev_id b = idAt (ht_ambient s) (idCount (ht_ambient s))"
    using pgAppendAudit_ok [OF assms(1)] by blast
  let ?new = "appendAuditEvent sha b (latestHash ?w (ht_audit s))"
  have new: "auditInOrder ?w (ht_audit t) = auditInOrder ?w (ht_audit s) @ [?new]"
    unfolding auditInOrder_def t using assms(3) b
    by (simp, intro sort_key_snoc_greatest) (auto simp: list_all_iff eventOrder_def)
  have "verifyAuditChain sha (auditInOrder ?w (ht_audit t))"
    using assms(2) unfolding new verifyAuditChain_def verify_append
    by (simp add: latestHash_def tailHash_def Let_def)
  moreover have "auditInOrder ws (ht_audit t) = auditInOrder ws (ht_audit s)" if "ws \<noteq> ?w" for ws
    using that b(1) by (simp add: t auditInOrder_def)
  ultimately show ?thesis using b(3) by (simp add: new)
qed

definition sampleAuditEvent :: historyAuditEvent where
  "sampleAuditEvent = \<lparr>he_workspaceId = ''w1'', he_datasetId = ''d1'', he_actorId = ''u1'',
     he_action = ''revision.created'', he_subjectId = ''r1'', he_occurredAt = ''t'', he_metadata = []\<rparr>"

theorem audit_trail_extends_witness:
  "verifyAuditChain wSha (auditInOrder ''w1'' (ht_audit (snd (pgAppendAudit wSha sampleAuditEvent sampleTables))))"
proof -
  have "\<exists>u t. pgAppendAudit wSha sampleAuditEvent sampleTables = (Inr u, t)"
    by (simp add: pgAppendAudit_def randomUUID_def js_simps Let_def sampleTables_def)
  then obtain u t where run: "pgAppendAudit wSha sampleAuditEvent sampleTables = (Inr u, t)" by blast
  have empty: "ht_audit sampleTables = []" and ws: "he_workspaceId sampleAuditEvent = ''w1''"
    by (simp_all add: sampleTables_def sampleAuditEvent_def)
  have "verifyAuditChain wSha (auditInOrder ''w1'' (ht_audit t))"
    using audit_trail_extends [OF run] unfolding empty ws
    by (simp add: auditInOrder_def verifyAuditChain_def)
  then show ?thesis by (simp add: run)
qed

text \<open>
  The audit trail breaks when two events carry the same time and the identifier of the
  second is the smaller one: both calls succeed and the first leaves a valid chain, but the
  trail after the second, read in the order verification uses, is not a valid chain. The writer
  links to the event with the greatest time and identifier, not to the one written last.
\<close>

theorem audit_trail_breaks_on_equal_times:
  "\<exists>s u1 t1 u2 t2. ht_audit s = []
     \<and> pgAppendAudit wSha sampleAuditEvent s = (Inr u1, t1)
     \<and> verifyAuditChain wSha (auditInOrder ''w1'' (ht_audit t1))
     \<and> pgAppendAudit wSha sampleAuditEvent t1 = (Inr u2, t2)
     \<and> \<not> verifyAuditChain wSha (auditInOrder ''w1'' (ht_audit t2))"
proof -
  let ?s = "sampleTables\<lparr>ht_ambient := \<lparr>nowAt = (\<lambda>n. ''t''), ticks = 0,
      idAt = (\<lambda>n. if n = 0 then ''b'' else ''a''), idCount = 0\<rparr>\<rparr>"
  let ?t = "snd (pgAppendAudit wSha sampleAuditEvent ?s)"
  let ?t' = "snd (pgAppendAudit wSha sampleAuditEvent ?t)"
  note run = pgAppendAudit_def randomUUID_def js_simps Let_def sampleTables_def sampleAuditEvent_def
    auditInOrder_def latestHash_def verifyAuditChain_def eventOrder_def
  have "pgAppendAudit wSha sampleAuditEvent ?s = (Inr (), ?t)" by (simp add: run)
  moreover have "verifyAuditChain wSha (auditInOrder ''w1'' (ht_audit ?t))" by (simp add: run)
  moreover have "pgAppendAudit wSha sampleAuditEvent ?t = (Inr (), ?t')" by (simp add: run)
  moreover have "\<not> verifyAuditChain wSha (auditInOrder ''w1'' (ht_audit ?t'))"
    by (simp add: run wSha_def)
  ultimately show ?thesis by (intro exI [of _ ?s]) (auto simp: sampleTables_def)
qed

end
