(* ===== verification/ObjectIngest.thy ===== *)
theory ObjectIngest
  imports Core MemoryStorage StateMachines
begin

text \<open>
  \<open>packages/operations/src/object-ingest.ts\<close>: the checkpointed ingest of an object
  (\<open>ObjectIngestService\<close>) and the direct one (\<open>ImmutableObjectIngestor\<close>), over the interfaces
  \<open>ObjectStorage\<close>, \<open>BlobCatalog\<close> and \<open>IngestOperationStore\<close>. The locales \<open>blob_catalog\<close> and
  \<open>ingest_operations\<close> state the contracts of the last two; \<open>ingest_world\<close> joins the three.

  The mutable variables of the method (\<open>completed\<close>, \<open>context\<close>, \<open>blob\<close>) are fields of the
  state. The hook \<open>afterEffect\<close> is a parameter that may throw at any checkpoint.
\<close>

section \<open>Data and interfaces\<close>

datatype ingestCheckpoint =
    CpAuthorised | CpTemporaryUploadCreated | CpBytesReceived | CpHashVerified
  | CpImmutableObjectCommitted | CpMetadataCommitted | CpAuditCommitted | CpCompleted

definition ingestCheckpoints :: "ingestCheckpoint list" where
  "ingestCheckpoints = [CpAuthorised, CpTemporaryUploadCreated, CpBytesReceived, CpHashVerified,
     CpImmutableObjectCommitted, CpMetadataCommitted, CpAuditCommitted, CpCompleted]"

datatype ingestPrincipalType = IngestUser | IngestService | IngestApplication

type_synonym jsonObject = "(string \<times> json) list"

record ingestResultJson =
  rj_blob :: "blobObject option"
  rj_deduplicated :: bool

record ingestOperation =
  io_id :: string
  io_workspaceId :: string
  io_requestHash :: string
  io_state :: uploadState
  io_checkpoints :: "ingestCheckpoint list"
  io_context :: jsonObject
  io_result :: "ingestResultJson option"

record beginInput =
  bg_workspaceId :: string
  bg_idempotencyKey :: string
  bg_actorId :: string
  bg_principalType :: ingestPrincipalType
  bg_requestHash :: string
  bg_request :: jsonObject

record 'q ingestOperationStore =
  op_begin :: "beginInput \<Rightarrow> ('q, ingestOperation) js"
  op_saveContext :: "string \<Rightarrow> string \<Rightarrow> jsonObject \<Rightarrow> uploadState \<Rightarrow> ('q, unit) js"
  op_markCheckpoint :: "string \<Rightarrow> string \<Rightarrow> ingestCheckpoint \<Rightarrow> ('q, unit) js"
  op_complete :: "string \<Rightarrow> string \<Rightarrow> ingestResultJson \<Rightarrow> ('q, unit) js"
  op_fail :: "string \<Rightarrow> string \<Rightarrow> string \<Rightarrow> ('q, unit) js"

record verifiedIngest =
  vi_blob :: blobObject
  vi_operationId :: string
  vi_actorId :: string
  vi_actorType :: ingestPrincipalType
  vi_occurredAt :: string

record 'c blobCatalog =
  bc_findByHash :: "string \<Rightarrow> string \<Rightarrow> ('c, blobObject option) js"
  bc_recordVerified :: "blobObject \<Rightarrow> ('c, blobObject) js"
  bc_commitVerifiedIngest :: "(verifiedIngest \<Rightarrow> ('c, blobObject) js) option"

record 's ingestInput =
  ii_workspaceId :: string
  ii_actorId :: string
  ii_principalType :: ingestPrincipalType
  ii_idempotencyKey :: string
  ii_bytes :: bytes
  ii_mediaType :: string
  ii_storage :: "'s objectStorage option"
  ii_storageBindingId :: "string option"
  ii_storageBindingGeneration :: "int option"

record objectIngestResult =
  ir_operationId :: string
  ir_blob :: blobObject
  ir_deduplicated :: bool
  ir_resumed :: bool

record ('s, 'c, 'q) ingestState =
  is_storage :: 's
  is_catalog :: 'c
  is_operations :: 'q
  is_ambient :: ambient
  is_completed :: "ingestCheckpoint list"
  is_context :: jsonObject
  is_blob :: "blobObject option"

record ('s, 'c, 'q) ingestService =
  sv_storage :: "'s objectStorage"
  sv_catalog :: "'c blobCatalog"
  sv_operations :: "'q ingestOperationStore"
  sv_provider :: string
  sv_afterEffect :: "ingestCheckpoint \<Rightarrow> js_error + unit"

section \<open>Steps\<close>

definition onStorage :: "('s, 'a) js \<Rightarrow> (('s, 'c, 'q) ingestState, 'a) js" where
  "onStorage = within is_storage (\<lambda>x s. s\<lparr>is_storage := x\<rparr>)"

definition onCatalog :: "('c, 'a) js \<Rightarrow> (('s, 'c, 'q) ingestState, 'a) js" where
  "onCatalog = within is_catalog (\<lambda>x s. s\<lparr>is_catalog := x\<rparr>)"

definition onOperations :: "('q, 'a) js \<Rightarrow> (('s, 'c, 'q) ingestState, 'a) js" where
  "onOperations = within is_operations (\<lambda>x s. s\<lparr>is_operations := x\<rparr>)"

definition ingestNow :: "(('s, 'c, 'q) ingestState, string) js" where
  "ingestNow = within is_ambient (\<lambda>x s. s\<lparr>is_ambient := x\<rparr>) now"

definition ingestNextId :: "(('s, 'c, 'q) ingestState, string) js" where
  "ingestNextId = within is_ambient (\<lambda>x s. s\<lparr>is_ambient := x\<rparr>) nextId"

definition setContext :: "string \<Rightarrow> json \<Rightarrow> (('s, 'c, 'q) ingestState, unit) js" where
  "setContext k v = updating (\<lambda>s. s\<lparr>is_context := AList.update k v (is_context s)\<rparr>)"

definition setBlob :: "blobObject \<Rightarrow> (('s, 'c, 'q) ingestState, unit) js" where
  "setBlob b = updating (\<lambda>s. s\<lparr>is_blob := Some b\<rparr>)"

definition requiredContextString :: "jsonObject \<Rightarrow> string \<Rightarrow> js_error + string" where
  "requiredContextString context k =
     (case map_of context k of
        Some (JStr v) \<Rightarrow> if v = [] then Inl (plainError (''Ingest operation is missing '' @ k @ ''.'')) else Inr v
      | _ \<Rightarrow> Inl (plainError (''Ingest operation is missing '' @ k @ ''.'')))"

definition contextString :: "string \<Rightarrow> (('s, 'c, 'q) ingestState, string) js" where
  "contextString k = andThen (reading is_context) (\<lambda>context. lifting (requiredContextString context k))"

definition blobFromResult :: "ingestResultJson option \<Rightarrow> blobObject option" where
  "blobFromResult result = (case result of None \<Rightarrow> None | Some r \<Rightarrow> rj_blob r)"

definition saveContext ::
  "('s, 'c, 'q) ingestService \<Rightarrow> 's ingestInput \<Rightarrow> ingestOperation \<Rightarrow> uploadState \<Rightarrow> (('s, 'c, 'q) ingestState, unit) js" where
  "saveContext sv inp op state =
     andThen (reading is_context) (\<lambda>context.
       onOperations (op_saveContext (sv_operations sv) (ii_workspaceId inp) (io_id op) context state))"

text \<open>The closure \<open>checkpoint\<close>: run the effect once, then the hook, then record the checkpoint.\<close>

definition checkpoint ::
  "('s, 'c, 'q) ingestService \<Rightarrow> 's ingestInput \<Rightarrow> ingestOperation \<Rightarrow> ingestCheckpoint
     \<Rightarrow> (('s, 'c, 'q) ingestState, unit) js \<Rightarrow> (('s, 'c, 'q) ingestState, unit) js" where
  "checkpoint sv inp op name effect =
     andThen (reading is_completed) (\<lambda>completed.
       if name \<in> set completed then ret ()
       else
         andThen effect (\<lambda>_.
         andThen (lifting (sv_afterEffect sv name)) (\<lambda>_.
         andThen (onOperations (op_markCheckpoint (sv_operations sv) (ii_workspaceId inp) (io_id op) name)) (\<lambda>_.
           updating (\<lambda>s. s\<lparr>is_completed := List.insert name (is_completed s)\<rparr>)))))"

definition requestHashOf :: "(bytes \<Rightarrow> string) \<Rightarrow> string \<Rightarrow> string \<Rightarrow> string \<Rightarrow> string" where
  "requestHashOf sha workspaceId mediaType sha256 =
     sha (utf8 (stringify (JObj [(''workspaceId'', JStr workspaceId), (''mediaType'', JStr mediaType),
       (''sha256'', JStr sha256)])))"

definition authorise :: "'s ingestInput \<Rightarrow> (('s, 'c, 'q) ingestState, unit) js" where
  "authorise inp =
     (if ii_workspaceId inp = [] \<or> ii_actorId inp = [] \<or> ii_idempotencyKey inp = [] \<or> ii_mediaType inp = []
      then throw (plainError ''Ingest authorization context is incomplete.'') else ret ())"

definition deduplicate ::
  "('s, 'c, 'q) ingestService \<Rightarrow> 's ingestInput \<Rightarrow> ingestOperation \<Rightarrow> blobObject \<Rightarrow> (('s, 'c, 'q) ingestState, unit) js" where
  "deduplicate sv inp op existing =
     andThen (setBlob existing) (\<lambda>_.
     andThen (forEach (take 4 (drop 1 ingestCheckpoints)) (\<lambda>name. checkpoint sv inp op name (ret ()))) (\<lambda>_.
     andThen (checkpoint sv inp op CpMetadataCommitted
       (case bc_commitVerifiedIngest (sv_catalog sv) of
          None \<Rightarrow> ret ()
        | Some commit \<Rightarrow>
            andThen ingestNow (\<lambda>at.
            andThen (onCatalog (commit \<lparr>vi_blob = existing, vi_operationId = io_id op, vi_actorId = ii_actorId inp,
                vi_actorType = ii_principalType inp, vi_occurredAt = at\<rparr>)) setBlob))) (\<lambda>_.
     checkpoint sv inp op CpAuditCommitted (ret ()))))"

definition createTemporary ::
  "('s, 'c, 'q) ingestService \<Rightarrow> 's objectStorage \<Rightarrow> 's ingestInput \<Rightarrow> ingestOperation \<Rightarrow> (('s, 'c, 'q) ingestState, unit) js" where
  "createTemporary sv storage inp op =
     andThen (onStorage (os_createTemporaryUpload storage (ii_workspaceId inp) (io_id op))) (\<lambda>temporary.
     andThen (setContext ''temporaryKey'' (JStr (to_key temporary))) (\<lambda>_.
     saveContext sv inp op TemporaryUploadCreated))"

definition receiveBytes :: "'s objectStorage \<Rightarrow> 's ingestInput \<Rightarrow> (('s, 'c, 'q) ingestState, unit) js" where
  "receiveBytes storage inp =
     andThen (contextString ''temporaryKey'') (\<lambda>temporaryKey.
     andThen (onStorage (os_writeTemporary storage temporaryKey [ii_bytes inp] (ii_mediaType inp))) (\<lambda>received.
       if om_byteLength received \<noteq> int (length (ii_bytes inp))
       then throw (plainError ''Stored byte length does not match the supplied object.'') else ret ()))"

definition noteHash ::
  "('s, 'c, 'q) ingestService \<Rightarrow> 's ingestInput \<Rightarrow> ingestOperation \<Rightarrow> string \<Rightarrow> (('s, 'c, 'q) ingestState, unit) js" where
  "noteHash sv inp op sha256 =
     andThen (setContext ''sha256'' (JStr sha256)) (\<lambda>_.
     andThen (setContext ''byteLength'' (JNum (int (length (ii_bytes inp))))) (\<lambda>_.
     saveContext sv inp op HashVerified))"

definition commitObject ::
  "('s, 'c, 'q) ingestService \<Rightarrow> 's objectStorage \<Rightarrow> 's ingestInput \<Rightarrow> ingestOperation \<Rightarrow> string
     \<Rightarrow> (('s, 'c, 'q) ingestState, unit) js" where
  "commitObject sv storage inp op sha256 =
     andThen (contextString ''temporaryKey'') (\<lambda>temporaryKey.
     andThen (onStorage (os_commitImmutable storage temporaryKey (ii_workspaceId inp) sha256
         (int (length (ii_bytes inp))) (ii_mediaType inp))) (\<lambda>stored.
       if om_sha256 stored \<noteq> Some sha256 \<or> om_byteLength stored \<noteq> int (length (ii_bytes inp))
       then throw (plainError ''Immutable object verification failed.'')
       else
         andThen (setContext ''storageKey'' (JStr (om_key stored))) (\<lambda>_.
         saveContext sv inp op ImmutableObjectCommitted)))"

definition commitMetadata ::
  "('s, 'c, 'q) ingestService \<Rightarrow> 's ingestInput \<Rightarrow> ingestOperation \<Rightarrow> string \<Rightarrow> (('s, 'c, 'q) ingestState, unit) js" where
  "commitMetadata sv inp op sha256 =
     andThen ingestNextId (\<lambda>newId.
     andThen (contextString ''storageKey'') (\<lambda>storageKey.
     andThen ingestNow (\<lambda>at.
       let candidate = \<lparr>blob_id = newId, blob_workspaceId = ii_workspaceId inp, blob_sha256 = sha256,
             blob_byteLength = int (length (ii_bytes inp)), blob_mediaType = ii_mediaType inp,
             blob_storageProvider = sv_provider sv, blob_storageKey = storageKey,
             blob_encryptionState = ProviderManaged, blob_encryptionKeyRef = None,
             blob_verificationState = VerVerified, blob_createdAt = at,
             blob_storageBindingId = (case ii_storageBindingId inp of None \<Rightarrow> None
                | Some b \<Rightarrow> if b = [] then None else Some b),
             blob_storageBindingGeneration = ii_storageBindingGeneration inp\<rparr> in
       andThen
         (case bc_commitVerifiedIngest (sv_catalog sv) of
            Some commit \<Rightarrow> onCatalog (commit \<lparr>vi_blob = candidate, vi_operationId = io_id op,
              vi_actorId = ii_actorId inp, vi_actorType = ii_principalType inp,
              vi_occurredAt = blob_createdAt candidate\<rparr>)
          | None \<Rightarrow> onCatalog (bc_recordVerified (sv_catalog sv) candidate))
         setBlob)))"

definition storeObject ::
  "('s, 'c, 'q) ingestService \<Rightarrow> 's objectStorage \<Rightarrow> 's ingestInput \<Rightarrow> ingestOperation \<Rightarrow> string
     \<Rightarrow> (('s, 'c, 'q) ingestState, unit) js" where
  "storeObject sv storage inp op sha256 =
     andThen (checkpoint sv inp op CpTemporaryUploadCreated (createTemporary sv storage inp op)) (\<lambda>_.
     andThen (checkpoint sv inp op CpBytesReceived (receiveBytes storage inp)) (\<lambda>_.
     andThen (checkpoint sv inp op CpHashVerified (noteHash sv inp op sha256)) (\<lambda>_.
     andThen (checkpoint sv inp op CpImmutableObjectCommitted (commitObject sv storage inp op sha256)) (\<lambda>_.
     andThen (checkpoint sv inp op CpMetadataCommitted (commitMetadata sv inp op sha256)) (\<lambda>_.
     checkpoint sv inp op CpAuditCommitted (ret ()))))))"

definition ingestBody ::
  "('s, 'c, 'q) ingestService \<Rightarrow> 's objectStorage \<Rightarrow> 's ingestInput \<Rightarrow> ingestOperation \<Rightarrow> string
     \<Rightarrow> (('s, 'c, 'q) ingestState, objectIngestResult) js" where
  "ingestBody sv storage inp op sha256 =
     andThen (checkpoint sv inp op CpAuthorised (authorise inp)) (\<lambda>_.
     andThen (onCatalog (bc_findByHash (sv_catalog sv) (ii_workspaceId inp) sha256)) (\<lambda>existing.
     andThen (case existing of Some b \<Rightarrow> deduplicate sv inp op b | None \<Rightarrow> storeObject sv storage inp op sha256) (\<lambda>_.
     andThen (reading is_blob) (\<lambda>blob.
       case blob of
         None \<Rightarrow> throw (plainError ''Ingest completed without canonical blob metadata.'')
       | Some b \<Rightarrow>
           let deduplicated = (existing \<noteq> None
                 \<or> (case io_result op of None \<Rightarrow> False | Some r \<Rightarrow> rj_deduplicated r)) in
           andThen (checkpoint sv inp op CpCompleted
               (onOperations (op_complete (sv_operations sv) (ii_workspaceId inp) (io_id op)
                  \<lparr>rj_blob = Some b, rj_deduplicated = deduplicated\<rparr>))) (\<lambda>_.
           ret \<lparr>ir_operationId = io_id op, ir_blob = b, ir_deduplicated = deduplicated,
             ir_resumed = (io_checkpoints op \<noteq> [])\<rparr>)))))"

definition ingest ::
  "(bytes \<Rightarrow> string) \<Rightarrow> ('s, 'c, 'q) ingestService \<Rightarrow> 's ingestInput \<Rightarrow> (('s, 'c, 'q) ingestState, objectIngestResult) js" where
  "ingest sha sv inp =
     (let storage = (case ii_storage inp of None \<Rightarrow> sv_storage sv | Some st \<Rightarrow> st);
          sha256 = sha (ii_bytes inp);
          requestHash = requestHashOf sha (ii_workspaceId inp) (ii_mediaType inp) sha256 in
      andThen (onOperations (op_begin (sv_operations sv) \<lparr>bg_workspaceId = ii_workspaceId inp,
          bg_idempotencyKey = ii_idempotencyKey inp, bg_actorId = ii_actorId inp,
          bg_principalType = ii_principalType inp, bg_requestHash = requestHash,
          bg_request = [(''mediaType'', JStr (ii_mediaType inp)), (''sha256'', JStr sha256),
            (''byteLength'', JNum (int (length (ii_bytes inp))))]\<rparr>)) (\<lambda>op.
      if io_requestHash op \<noteq> requestHash
      then throw (plainError ''Idempotency key was already used for a different ingest request.'')
      else
        andThen (updating (\<lambda>s. s\<lparr>is_completed := remdups (io_checkpoints op), is_context := io_context op,
            is_blob := blobFromResult (io_result op)\<rparr>)) (\<lambda>_.
        catching (ingestBody sv storage inp op sha256) (\<lambda>e.
          andThen (catching (onOperations (op_fail (sv_operations sv) (ii_workspaceId inp) (io_id op) (err_message e)))
              (\<lambda>_. ret ()))
            (\<lambda>_. throw e)))))"

section \<open>The direct ingest\<close>

definition immutableIngest ::
  "(bytes \<Rightarrow> string) \<Rightarrow> 's objectStorage \<Rightarrow> 'c blobCatalog \<Rightarrow> string \<Rightarrow> string \<Rightarrow> bytes \<Rightarrow> string \<Rightarrow> string option
     \<Rightarrow> (('s, 'c, 'q) ingestState, blobObject \<times> bool) js" where
  "immutableIngest sha storage catalog provider workspaceId bytes mediaType operationId =
     (let sha256 = sha bytes in
      andThen (onCatalog (bc_findByHash catalog workspaceId sha256)) (\<lambda>existing.
        case existing of
          Some b \<Rightarrow> ret (b, True)
        | None \<Rightarrow>
            andThen (case operationId of Some q \<Rightarrow> ret q | None \<Rightarrow> ingestNextId) (\<lambda>opId.
            andThen (onStorage (os_createTemporaryUpload storage workspaceId opId)) (\<lambda>temporary.
            catching
              (andThen (onStorage (os_writeTemporary storage (to_key temporary) [bytes] mediaType)) (\<lambda>received.
               if om_byteLength received \<noteq> int (length bytes)
               then throw (plainError ''Stored byte length does not match the supplied object.'')
               else
                 andThen (onStorage (os_commitImmutable storage (to_key temporary) workspaceId sha256
                     (int (length bytes)) mediaType)) (\<lambda>stored.
                 if om_sha256 stored \<noteq> Some sha256 \<or> om_byteLength stored \<noteq> int (length bytes)
                 then throw (plainError ''Immutable object verification failed.'')
                 else
                   andThen ingestNextId (\<lambda>newId.
                   andThen ingestNow (\<lambda>at.
                   andThen (onCatalog (bc_recordVerified catalog \<lparr>blob_id = newId, blob_workspaceId = workspaceId,
                       blob_sha256 = sha256, blob_byteLength = int (length bytes), blob_mediaType = mediaType,
                       blob_storageProvider = provider, blob_storageKey = om_key stored,
                       blob_encryptionState = ProviderManaged, blob_encryptionKeyRef = None,
                       blob_verificationState = VerVerified, blob_createdAt = at,
                       blob_storageBindingId = None, blob_storageBindingGeneration = None\<rparr>))
                     (\<lambda>b. ret (b, False)))))))
              (\<lambda>e. andThen (catching (onStorage (os_deleteTemporary storage (to_key temporary))) (\<lambda>_. ret ()))
                 (\<lambda>_. throw e))))))"

section \<open>Contracts of the catalog and of the operation store\<close>

definition recorded ::
  "blobObject \<Rightarrow> blobObject \<Rightarrow> (string \<times> string \<rightharpoonup> blobObject) \<Rightarrow> (string \<times> string \<rightharpoonup> blobObject) \<Rightarrow> bool" where
  "recorded b b' m m' \<longleftrightarrow> m' = m((blob_workspaceId b, blob_sha256 b) \<mapsto> b')
     \<and> blob_workspaceId b' = blob_workspaceId b \<and> blob_sha256 b' = blob_sha256 b
     \<and> (let base = (case m (blob_workspaceId b, blob_sha256 b) of None \<Rightarrow> b | Some c \<Rightarrow> c) in
        blob_storageKey b' = blob_storageKey base \<and> blob_byteLength b' = blob_byteLength base)"

locale blob_catalog =
  fixes cat :: "'c blobCatalog" and blobs :: "'c \<Rightarrow> string \<times> string \<rightharpoonup> blobObject"
  assumes find_ok: "bc_findByHash cat w h c = (Inr x, c') \<Longrightarrow> blobs c' = blobs c \<and> x = blobs c (w, h)"
    and find_err: "bc_findByHash cat w h c = (Inl e, c') \<Longrightarrow> blobs c' = blobs c"
    and record_ok: "bc_recordVerified cat b c = (Inr b', c') \<Longrightarrow> recorded b b' (blobs c) (blobs c')"
    and record_err: "bc_recordVerified cat b c = (Inl e, c') \<Longrightarrow> blobs c' = blobs c"
    and commitIngest_ok: "bc_commitVerifiedIngest cat = Some f \<Longrightarrow> f i c = (Inr b', c') \<Longrightarrow>
      recorded (vi_blob i) b' (blobs c) (blobs c')"
    and commitIngest_err: "bc_commitVerifiedIngest cat = Some f \<Longrightarrow> f i c = (Inl e, c') \<Longrightarrow> blobs c' = blobs c"

record opView =
  ov_workspaceId :: string
  ov_requestHash :: string
  ov_request :: jsonObject
  ov_checkpoints :: "ingestCheckpoint list"
  ov_context :: jsonObject

locale ingest_operations =
  fixes store :: "'q ingestOperationStore" and ops :: "'q \<Rightarrow> string \<rightharpoonup> opView"
  assumes begin_ok: "op_begin store b q = (Inr p, q') \<Longrightarrow>
      \<exists>v. ov_workspaceId v = bg_workspaceId b \<and> ov_requestHash v = io_requestHash p
        \<and> ov_checkpoints v = io_checkpoints p \<and> ov_context v = io_context p
        \<and> (ops q (io_id p) = Some v \<and> ops q' = ops q
           \<or> ops q (io_id p) = None \<and> ops q' = (ops q)(io_id p \<mapsto> v)
             \<and> ov_checkpoints v = []
             \<and> (\<forall>k. k \<noteq> ''requestHash'' \<longrightarrow> map_of (ov_request v) k = map_of (bg_request b) k))"
    and begin_err: "op_begin store b q = (Inl e, q') \<Longrightarrow> ops q' = ops q"
    and save_ok: "op_saveContext store w i ctx st q = (Inr u, q') \<Longrightarrow>
      \<exists>v. ops q i = Some v \<and> ops q' = (ops q)(i \<mapsto> v\<lparr>ov_context := ctx\<rparr>)"
    and save_err: "op_saveContext store w i ctx st q = (Inl e, q') \<Longrightarrow> ops q' = ops q"
    and mark_ok: "op_markCheckpoint store w i name q = (Inr u, q') \<Longrightarrow> ops q i = Some v \<Longrightarrow>
      ov_workspaceId v = w \<Longrightarrow> \<exists>cs. set cs = insert name (set (ov_checkpoints v)) \<and> ops q' = (ops q)(i \<mapsto> v\<lparr>ov_checkpoints := cs\<rparr>)"
    and mark_err: "op_markCheckpoint store w i name q = (Inl e, q') \<Longrightarrow> ops q' = ops q"
    and complete_same: "op_complete store w i rj q = (r, q') \<Longrightarrow> ops q' = ops q"
    and fail_same: "op_fail store w i msg q = (r, q') \<Longrightarrow> ops q' = ops q"

section \<open>The invariant of ingest\<close>

text \<open>
  A catalogued blob stands in the storage under its canonical key; an operation past the
  commit of its object has the object in the storage and its key in the context, unless the
  blob is in the catalog already; an operation past the metadata has its blob in the catalog.
\<close>

definition reqSha :: "opView \<Rightarrow> string" where
  "reqSha v = (case map_of (ov_request v) ''sha256'' of Some (JStr h) \<Rightarrow> h | _ \<Rightarrow> [])"

definition reqLen :: "opView \<Rightarrow> int" where
  "reqLen v = (case map_of (ov_request v) ''byteLength'' of Some (JNum n) \<Rightarrow> n | _ \<Rightarrow> 0)"

definition storedAs :: "(string \<rightharpoonup> storedBytes) \<Rightarrow> string \<Rightarrow> string \<Rightarrow> int \<Rightarrow> string \<Rightarrow> bool" where
  "storedAs objs w h n sk \<longleftrightarrow> canonicalObjectKey w h = Inr sk
     \<and> (\<exists>x. objs sk = Some x \<and> sb_sha256 x = h \<and> int (length (sb_body x)) = n)"

definition blobOk :: "(string \<rightharpoonup> storedBytes) \<Rightarrow> string \<Rightarrow> string \<Rightarrow> blobObject \<Rightarrow> bool" where
  "blobOk objs w h b \<longleftrightarrow> blob_workspaceId b = w \<and> blob_sha256 b = h
     \<and> storedAs objs w h (blob_byteLength b) (blob_storageKey b)"

definition keyCommitted :: "(string \<rightharpoonup> storedBytes) \<Rightarrow> string \<Rightarrow> string \<Rightarrow> int \<Rightarrow> jsonObject \<Rightarrow> bool" where
  "keyCommitted objs w h n ctx \<longleftrightarrow> (\<exists>sk. map_of ctx ''storageKey'' = Some (JStr sk) \<and> storedAs objs w h n sk)"

definition opOk ::
  "(string \<rightharpoonup> storedBytes) \<Rightarrow> (string \<times> string \<rightharpoonup> blobObject) \<Rightarrow> opView \<Rightarrow> bool" where
  "opOk objs bm v \<longleftrightarrow>
     (CpMetadataCommitted \<in> set (ov_checkpoints v) \<longrightarrow> bm (ov_workspaceId v, reqSha v) \<noteq> None)
     \<and> (CpImmutableObjectCommitted \<in> set (ov_checkpoints v) \<longrightarrow>
          bm (ov_workspaceId v, reqSha v) \<noteq> None
          \<or> keyCommitted objs (ov_workspaceId v) (reqSha v) (reqLen v) (ov_context v))"

definition ingestInv ::
  "(bytes \<Rightarrow> string) \<Rightarrow> (string \<rightharpoonup> storedBytes) \<Rightarrow> (string \<times> string \<rightharpoonup> blobObject) \<Rightarrow> (string \<rightharpoonup> opView) \<Rightarrow> bool" where
  "ingestInv sha objs bm om \<longleftrightarrow> contentAddressed sha objs
     \<and> (\<forall>w h b. bm (w, h) = Some b \<longrightarrow> blobOk objs w h b)
     \<and> (\<forall>i v. om i = Some v \<longrightarrow> opOk objs bm v)"

lemma storedAs_mono: "keepsCanonical objs objs' \<Longrightarrow> storedAs objs w h n sk \<Longrightarrow> storedAs objs' w h n sk"
  unfolding storedAs_def keepsCanonical_def using canonical_key_not_temporary by blast

lemma keyCommitted_mono:
  "keepsCanonical objs objs' \<Longrightarrow> keyCommitted objs w h n ctx \<Longrightarrow> keyCommitted objs' w h n ctx"
  unfolding keyCommitted_def using storedAs_mono by blast

lemma keyCommitted_update:
  "k \<noteq> ''storageKey'' \<Longrightarrow> keyCommitted objs w h n (AList.update k x ctx) = keyCommitted objs w h n ctx"
  by (simp add: keyCommitted_def)

lemma opOk_mono: "keepsCanonical objs objs' \<Longrightarrow> opOk objs bm v \<Longrightarrow> opOk objs' bm v"
  unfolding opOk_def using keyCommitted_mono by blast

lemma opOk_more: "opOk objs bm v \<Longrightarrow> opOk objs (bm(k \<mapsto> b)) v"
  unfolding opOk_def by auto

lemma ingestInv_storage:
  assumes "ingestInv sha objs bm om" "keepsCanonical objs objs'" "contentAddressed sha objs'"
  shows "ingestInv sha objs' bm om"
  using assms storedAs_mono [OF assms(2)] opOk_mono [OF assms(2)]
  unfolding ingestInv_def blobOk_def by blast

lemma ingestInv_catalog:
  assumes inv: "ingestInv sha objs bm om" and rec: "recorded b b' bm bm'"
    and new: "bm (blob_workspaceId b, blob_sha256 b) = None \<Longrightarrow> blobOk objs (blob_workspaceId b) (blob_sha256 b) b"
  shows "ingestInv sha objs bm' om \<and> bm' (blob_workspaceId b, blob_sha256 b) = Some b'"
proof -
  let ?k = "(blob_workspaceId b, blob_sha256 b)"
  have bm': "bm' = bm(?k \<mapsto> b')" using rec by (simp add: recorded_def)
  have "blobOk objs (blob_workspaceId b) (blob_sha256 b) b'"
  proof (cases "bm ?k")
    case None
    with new rec show ?thesis by (simp add: recorded_def blobOk_def Let_def)
  next
    case (Some c)
    with inv have "blobOk objs (blob_workspaceId b) (blob_sha256 b) c" by (simp add: ingestInv_def)
    with Some rec show ?thesis by (simp add: recorded_def blobOk_def Let_def)
  qed
  with inv opOk_more show ?thesis unfolding bm' ingestInv_def by auto
qed

lemma ingestInv_operation:
  "ingestInv sha objs bm om \<Longrightarrow> opOk objs bm v \<Longrightarrow> ingestInv sha objs bm (om(i \<mapsto> v))"
  by (simp add: ingestInv_def)

end
