(* ===== verification/IngestCorrect.thy ===== *)
theory IngestCorrect
  imports ObjectIngest
begin

text \<open>
  Correctness of the checkpointed ingest over any storage, catalog and operation store that
  meet their contracts: the invariant holds after every attempt, also one that fails at any
  point, and an attempt that returns, first or resumed, returns the catalogued blob of exactly
  the bytes supplied.
\<close>

locale ingest_world =
  object_storage sha "sv_storage sv" objs + blob_catalog "sv_catalog sv" blobs
    + ingest_operations "sv_operations sv" ops
  for sha :: "bytes \<Rightarrow> string" and sv :: "('s, 'c, 'q) ingestService"
    and objs :: "'s \<Rightarrow> string \<rightharpoonup> storedBytes" and blobs :: "'c \<Rightarrow> string \<times> string \<rightharpoonup> blobObject"
    and ops :: "'q \<Rightarrow> string \<rightharpoonup> opView"
begin

abbreviation inv :: "('s, 'c, 'q) ingestState \<Rightarrow> bool" where
  "inv s \<equiv> ingestInv sha (objs (is_storage s)) (blobs (is_catalog s)) (ops (is_operations s))"

text \<open>What holds between the steps of one attempt for operation \<open>i\<close> on \<open>n\<close> bytes with hash \<open>h\<close>.\<close>

definition attempt :: "string \<Rightarrow> string \<Rightarrow> string \<Rightarrow> int \<Rightarrow> ('s, 'c, 'q) ingestState \<Rightarrow> bool" where
  "attempt i w h n s \<longleftrightarrow> inv s
     \<and> (\<exists>v. ops (is_operations s) i = Some v \<and> ov_workspaceId v = w \<and> reqSha v = h \<and> reqLen v = n
          \<and> set (ov_checkpoints v) = set (is_completed s))
     \<and> (CpImmutableObjectCommitted \<in> set (is_completed s) \<longrightarrow>
          blobs (is_catalog s) (w, h) \<noteq> None \<or> keyCommitted (objs (is_storage s)) w h n (is_context s))"

lemma attempt_inv: "attempt i w h n s \<Longrightarrow> inv s"
  by (simp add: attempt_def)

text \<open>When a checkpoint may be recorded.\<close>

definition markable :: "string \<Rightarrow> string \<Rightarrow> string \<Rightarrow> int \<Rightarrow> ingestCheckpoint \<Rightarrow> ('s, 'c, 'q) ingestState \<Rightarrow> bool" where
  "markable i w h n name s \<longleftrightarrow>
     (name = CpMetadataCommitted \<longrightarrow> blobs (is_catalog s) (w, h) \<noteq> None)
     \<and> (name = CpImmutableObjectCommitted \<longrightarrow> blobs (is_catalog s) (w, h) \<noteq> None
          \<or> keyCommitted (objs (is_storage s)) w h n (is_context s)
            \<and> (\<exists>v. ops (is_operations s) i = Some v \<and> ov_context v = is_context s))"

lemma attempt_mark:
  assumes at: "attempt i w h n s" and m: "markable i w h n name s"
    and run: "op_markCheckpoint (sv_operations sv) w i name (is_operations s) = (Inr u, q)"
  shows "attempt i w h n (s\<lparr>is_operations := q, is_completed := List.insert name (is_completed s)\<rparr>)"
proof -
  obtain v where v: "ops (is_operations s) i = Some v" "ov_workspaceId v = w" "reqSha v = h" "reqLen v = n"
      "set (ov_checkpoints v) = set (is_completed s)"
    using at by (auto simp: attempt_def)
  obtain cs where cs: "set cs = insert name (set (ov_checkpoints v))"
      "ops q = (ops (is_operations s))(i \<mapsto> v\<lparr>ov_checkpoints := cs\<rparr>)"
    using mark_ok [OF run v(1,2)] by blast
  have ok: "opOk (objs (is_storage s)) (blobs (is_catalog s)) v"
    using at v(1) by (simp add: attempt_def ingestInv_def)
  have "opOk (objs (is_storage s)) (blobs (is_catalog s)) (v\<lparr>ov_checkpoints := cs\<rparr>)"
    using ok m v cs(1) by (auto simp: opOk_def markable_def reqSha_def reqLen_def)
  then have "ingestInv sha (objs (is_storage s)) (blobs (is_catalog s)) (ops q)"
    unfolding cs(2) using at by (intro ingestInv_operation) (auto simp: attempt_def)
  moreover have "CpImmutableObjectCommitted \<in> insert name (set (is_completed s)) \<Longrightarrow>
      blobs (is_catalog s) (w, h) \<noteq> None \<or> keyCommitted (objs (is_storage s)) w h n (is_context s)"
    using at m by (auto simp: attempt_def markable_def)
  ultimately show ?thesis
    using v cs by (simp add: attempt_def reqSha_def reqLen_def)
qed

text \<open>
  A step of an attempt, where \<open>P\<close> and \<open>Q\<close> speak about the catalog, the variable \<open>blob\<close> and the
  set of completed checkpoints.
\<close>

definition stepOk ::
  "string \<Rightarrow> string \<Rightarrow> string \<Rightarrow> int \<Rightarrow> ('c \<Rightarrow> blobObject option \<Rightarrow> ingestCheckpoint set \<Rightarrow> bool)
     \<Rightarrow> (('s, 'c, 'q) ingestState, unit) js \<Rightarrow> (('s, 'c, 'q) ingestState \<Rightarrow> bool)
     \<Rightarrow> ('c \<Rightarrow> blobObject option \<Rightarrow> ingestCheckpoint set \<Rightarrow> bool) \<Rightarrow> bool" where
  "stepOk i w h n P m X Q \<longleftrightarrow>
     triple (\<lambda>s. attempt i w h n s \<and> P (is_catalog s) (is_blob s) (set (is_completed s))) m
       (\<lambda>_ s. attempt i w h n s \<and> X s \<and> Q (is_catalog s) (is_blob s) (set (is_completed s))) (\<lambda>_. inv)"

lemma stepOk_run:
  assumes "stepOk i w h n P m X Q" "attempt i w h n s" "P (is_catalog s) (is_blob s) (set (is_completed s))"
    and "m s = (r, t)"
  shows "case r of Inr _ \<Rightarrow> attempt i w h n t \<and> X t \<and> Q (is_catalog t) (is_blob t) (set (is_completed t))
     | Inl _ \<Rightarrow> inv t"
  using assms by (cases r) (auto simp: stepOk_def triple_def)

lemma stepOkI:
  assumes "\<And>s r t. attempt i w h n s \<Longrightarrow> P (is_catalog s) (is_blob s) (set (is_completed s)) \<Longrightarrow> m s = (r, t) \<Longrightarrow>
     (case r of Inr _ \<Rightarrow> attempt i w h n t \<and> X t \<and> Q (is_catalog t) (is_blob t) (set (is_completed t)) | Inl _ \<Rightarrow> inv t)"
  shows "stepOk i w h n P m X Q"
  unfolding stepOk_def by (rule tripleI) (auto dest: assms)

lemma stepOk_seq:
  assumes "stepOk i w h n P m X R" "stepOk i w h n R m' Y Q"
  shows "stepOk i w h n P (andThen m (\<lambda>_. m')) Y Q"
  using assms unfolding stepOk_def
  by (intro triple_andThen) (auto intro: triple_weaken)

lemma checkpoint_step:
  assumes eff: "stepOk (io_id op) (ii_workspaceId inp) h n P effect (markable (io_id op) (ii_workspaceId inp) h n name) Q"
    and skip: "\<And>s. attempt (io_id op) (ii_workspaceId inp) h n s \<Longrightarrow>
        P (is_catalog s) (is_blob s) (set (is_completed s)) \<Longrightarrow> name \<in> set (is_completed s) \<Longrightarrow>
        Q (is_catalog s) (is_blob s) (set (is_completed s))"
    and stable: "\<And>c b C. Q c b C \<Longrightarrow> Q c b (insert name C)"
  shows "stepOk (io_id op) (ii_workspaceId inp) h n P (checkpoint sv inp op name effect) (\<lambda>_. True)
      (\<lambda>c b C. Q c b C \<and> name \<in> C)"
proof (rule stepOkI)
  fix s r t
  let ?at = "attempt (io_id op) (ii_workspaceId inp) h n"
  assume at: "?at s" and P: "P (is_catalog s) (is_blob s) (set (is_completed s))"
    and run: "checkpoint sv inp op name effect s = (r, t)"
  let ?goal = "case r of Inr _ \<Rightarrow> ?at t \<and> True \<and> Q (is_catalog t) (is_blob t) (set (is_completed t)) \<and> name \<in> set (is_completed t)
     | Inl _ \<Rightarrow> inv t"
  show ?goal
  proof (cases "name \<in> set (is_completed s)")
    case True
    then show ?thesis using run at P skip by (auto simp: checkpoint_def js_simps)
  next
    case False
    obtain r1 s1 where e: "effect s = (r1, s1)" by fastforce
    note E = stepOk_run [OF eff at P e]
    show ?thesis
    proof (cases r1)
      case (Inl x)
      then show ?thesis using run False e E by (auto simp: checkpoint_def js_simps)
    next
      case (Inr u)
      obtain r2 q where mk: "op_markCheckpoint (sv_operations sv) (ii_workspaceId inp) (io_id op) name (is_operations s1)
          = (r2, q)" by fastforce
      show ?thesis
      proof (cases "isOk (sv_afterEffect sv name) \<and> isOk r2")
        case True
        then have "t = s1\<lparr>is_operations := q, is_completed := List.insert name (is_completed s1)\<rparr>" "r = Inr ()"
          using run False e Inr mk by (auto simp: checkpoint_def onOperations_def js_simps isOk_iff)
        moreover have "?at (s1\<lparr>is_operations := q, is_completed := List.insert name (is_completed s1)\<rparr>)"
          using attempt_mark [of "io_id op" "ii_workspaceId inp" h n s1 name] E Inr mk True by (auto simp: isOk_iff)
        ultimately show ?thesis using E Inr stable by auto
      next
        case bad: False
        then have "t = s1 \<or> t = s1\<lparr>is_operations := q\<rparr> \<and> \<not> isOk r2" "\<not> isOk r"
          using run False e Inr mk
          by (cases "sv_afterEffect sv name"; cases r2; auto simp: checkpoint_def onOperations_def js_simps)+
        moreover have "\<not> isOk r2 \<Longrightarrow> ops q = ops (is_operations s1)"
          using mk mark_err by (cases r2) auto
        ultimately show ?thesis using E Inr by (cases r) (auto simp: attempt_def)
      qed
    qed
  qed
qed

subsection \<open>The effects\<close>

lemma authorise_step:
  "stepOk i w h n P (authorise inp) (markable i w h n CpAuthorised) P"
  by (rule stepOkI) (auto simp: authorise_def markable_def js_simps attempt_inv split: if_splits)

lemma skip_step:
  "name \<notin> {CpMetadataCommitted, CpImmutableObjectCommitted} \<Longrightarrow> stepOk i w h n P (ret ()) (markable i w h n name) P"
  by (rule stepOkI) (auto simp: markable_def js_simps)

lemma attempt_context:
  "attempt i w h n s \<Longrightarrow> k \<noteq> ''storageKey'' \<Longrightarrow> attempt i w h n (s\<lparr>is_context := AList.update k x (is_context s)\<rparr>)"
  by (simp add: attempt_def keyCommitted_update)

text \<open>Saving the context keeps the attempt going and makes the stored context the local one.\<close>

lemma saveContext_run:
  assumes at: "attempt (io_id op) (ii_workspaceId inp) h n s" and run: "saveContext sv inp op st s = (r, t)"
  shows "case r of Inl _ \<Rightarrow> inv t
    | Inr _ \<Rightarrow> attempt (io_id op) (ii_workspaceId inp) h n t \<and> is_catalog t = is_catalog s \<and> is_storage t = is_storage s
        \<and> is_blob t = is_blob s \<and> is_completed t = is_completed s \<and> is_context t = is_context s
        \<and> (\<exists>v. ops (is_operations t) (io_id op) = Some v \<and> ov_context v = is_context t)"
proof -
  obtain r1 q where sv: "op_saveContext (sv_operations sv) (ii_workspaceId inp) (io_id op) (is_context s) st (is_operations s)
      = (r1, q)" by fastforce
  have t: "t = s\<lparr>is_operations := q\<rparr>" "r = r1"
    using run sv by (auto simp: saveContext_def onOperations_def js_simps)
  show ?thesis
  proof (cases r1)
    case (Inl e)
    then show ?thesis using t sv at by (auto simp: attempt_def dest: save_err)
  next
    case (Inr u)
    obtain v where v: "ops (is_operations s) (io_id op) = Some v" "ov_workspaceId v = ii_workspaceId inp" "reqSha v = h"
        "reqLen v = n" "set (ov_checkpoints v) = set (is_completed s)"
      using at by (auto simp: attempt_def)
    have q: "ops q = (ops (is_operations s))(io_id op \<mapsto> v\<lparr>ov_context := is_context s\<rparr>)"
      using save_ok [OF sv [unfolded Inr]] v(1) by auto
    have "opOk (objs (is_storage s)) (blobs (is_catalog s)) v"
      using at v(1) by (simp add: attempt_def ingestInv_def)
    then have "opOk (objs (is_storage s)) (blobs (is_catalog s)) (v\<lparr>ov_context := is_context s\<rparr>)"
      using at v by (auto simp: opOk_def attempt_def reqSha_def reqLen_def)
    then have "ingestInv sha (objs (is_storage s)) (blobs (is_catalog s)) (ops q)"
      unfolding q using at by (intro ingestInv_operation) (auto simp: attempt_def)
    then show ?thesis
      using at v q t Inr by (simp add: attempt_def reqSha_def reqLen_def)
  qed
qed

lemma createTemporary_step:
  "stepOk (io_id op) (ii_workspaceId inp) h n P (createTemporary sv (sv_storage sv) inp op)
     (markable (io_id op) (ii_workspaceId inp) h n CpTemporaryUploadCreated) P"
proof (rule stepOkI)
  fix s r t
  let ?at = "attempt (io_id op) (ii_workspaceId inp) h n"
  assume at: "?at s" and P: "P (is_catalog s) (is_blob s) (set (is_completed s))"
    and run: "createTemporary sv (sv_storage sv) inp op s = (r, t)"
  obtain r1 x where c: "os_createTemporaryUpload (sv_storage sv) (ii_workspaceId inp) (io_id op) (is_storage s) = (r1, x)"
    by fastforce
  have x: "objs x = objs (is_storage s)" using create_spec [OF c] by blast
  show "case r of Inr _ \<Rightarrow> ?at t \<and> markable (io_id op) (ii_workspaceId inp) h n CpTemporaryUploadCreated t
      \<and> P (is_catalog t) (is_blob t) (set (is_completed t)) | Inl _ \<Rightarrow> inv t"
  proof (cases r1)
    case (Inl e)
    then show ?thesis using run c x at
      by (auto simp: createTemporary_def onStorage_def js_simps attempt_def)
  next
    case (Inr tmp)
    let ?s1 = "s\<lparr>is_storage := x, is_context := AList.update ''temporaryKey'' (JStr (to_key tmp)) (is_context s)\<rparr>"
    have "?at (s\<lparr>is_storage := x\<rparr>)" using at x by (simp add: attempt_def)
    then have "?at ?s1" using attempt_context [of "io_id op" "ii_workspaceId inp" h n "s\<lparr>is_storage := x\<rparr>" "''temporaryKey''"] by simp
    moreover have "saveContext sv inp op TemporaryUploadCreated ?s1 = (r, t)"
      using run c Inr by (simp add: createTemporary_def onStorage_def setContext_def js_simps)
    ultimately show ?thesis
      using saveContext_run [of op inp h n ?s1] P by (fastforce simp: markable_def split: sum.splits)
  qed
qed

lemma noteHash_step:
  "stepOk (io_id op) (ii_workspaceId inp) h n P (noteHash sv inp op hh)
     (markable (io_id op) (ii_workspaceId inp) h n CpHashVerified) P"
proof (rule stepOkI)
  fix s r t
  let ?at = "attempt (io_id op) (ii_workspaceId inp) h n"
  assume at: "?at s" and P: "P (is_catalog s) (is_blob s) (set (is_completed s))"
    and run: "noteHash sv inp op hh s = (r, t)"
  let ?c1 = "AList.update ''sha256'' (JStr hh) (is_context s)"
  let ?s1 = "s\<lparr>is_context := AList.update ''byteLength'' (JNum (int (length (ii_bytes inp)))) ?c1\<rparr>"
  have "?at (s\<lparr>is_context := ?c1\<rparr>)" using attempt_context [OF at] by simp
  then have "?at ?s1"
    using attempt_context [of "io_id op" "ii_workspaceId inp" h n "s\<lparr>is_context := ?c1\<rparr>" "''byteLength''"] by simp
  moreover have "saveContext sv inp op HashVerified ?s1 = (r, t)"
    using run by (simp add: noteHash_def setContext_def js_simps)
  ultimately show "case r of Inr _ \<Rightarrow> ?at t \<and> markable (io_id op) (ii_workspaceId inp) h n CpHashVerified t
      \<and> P (is_catalog t) (is_blob t) (set (is_completed t)) | Inl _ \<Rightarrow> inv t"
    using saveContext_run [of op inp h n ?s1] P by (fastforce simp: markable_def split: sum.splits)
qed

lemma attempt_storage:
  assumes "attempt i w h n s" "keepsCanonical (objs (is_storage s)) (objs x)"
    and "contentAddressed sha (objs (is_storage s)) \<longrightarrow> contentAddressed sha (objs x)"
  shows "attempt i w h n (s\<lparr>is_storage := x\<rparr>)"
proof -
  have "contentAddressed sha (objs (is_storage s))" using assms(1) by (simp add: attempt_def ingestInv_def)
  then have "ingestInv sha (objs x) (blobs (is_catalog s)) (ops (is_operations s))"
    using ingestInv_storage [OF attempt_inv [OF assms(1)] assms(2)] assms(3) by blast
  then show ?thesis
    using assms(1) keyCommitted_mono [OF assms(2)] by (auto simp: attempt_def)
qed

lemma receiveBytes_step:
  "stepOk i w h n P (receiveBytes (sv_storage sv) inp) (markable i w h n CpBytesReceived) P"
proof (rule stepOkI)
  fix s r t
  assume at: "attempt i w h n s" and P: "P (is_catalog s) (is_blob s) (set (is_completed s))"
    and run: "receiveBytes (sv_storage sv) inp s = (r, t)"
  show "case r of Inr _ \<Rightarrow> attempt i w h n t \<and> markable i w h n CpBytesReceived t
      \<and> P (is_catalog t) (is_blob t) (set (is_completed t)) | Inl _ \<Rightarrow> inv t"
  proof (cases "requiredContextString (is_context s) ''temporaryKey''")
    case (Inl e)
    then show ?thesis using run at by (auto simp: receiveBytes_def contextString_def js_simps attempt_inv)
  next
    case (Inr k)
    obtain r1 x where wr: "os_writeTemporary (sv_storage sv) k [ii_bytes inp] (ii_mediaType inp) (is_storage s) = (r1, x)"
      by fastforce
    have "t = s\<lparr>is_storage := x\<rparr>"
      using run Inr wr by (cases r1) (auto simp: receiveBytes_def contextString_def onStorage_def js_simps split: if_splits)
    moreover have "attempt i w h n (s\<lparr>is_storage := x\<rparr>)"
      using attempt_storage [OF at] write_keeps [OF wr] by blast
    ultimately show ?thesis using P attempt_inv [of i w h n t] by (cases r) (simp_all add: markable_def)
  qed
qed

lemma commitObject_step:
  assumes n: "n = int (length (ii_bytes inp))"
  shows "stepOk (io_id op) (ii_workspaceId inp) h n P (commitObject sv (sv_storage sv) inp op h)
     (markable (io_id op) (ii_workspaceId inp) h n CpImmutableObjectCommitted) P"
proof (rule stepOkI)
  fix s r t
  let ?w = "ii_workspaceId inp" and ?at = "attempt (io_id op) (ii_workspaceId inp) h n"
  assume at: "?at s" and P: "P (is_catalog s) (is_blob s) (set (is_completed s))"
    and run: "commitObject sv (sv_storage sv) inp op h s = (r, t)"
  show "case r of Inr _ \<Rightarrow> ?at t \<and> markable (io_id op) ?w h n CpImmutableObjectCommitted t
      \<and> P (is_catalog t) (is_blob t) (set (is_completed t)) | Inl _ \<Rightarrow> inv t"
  proof (cases "requiredContextString (is_context s) ''temporaryKey''")
    case (Inl e)
    then show ?thesis using run attempt_inv [OF at] by (auto simp: commitObject_def contextString_def js_simps)
  next
    case (Inr k)
    obtain r1 x where c: "os_commitImmutable (sv_storage sv) k ?w h (int (length (ii_bytes inp))) (ii_mediaType inp)
        (is_storage s) = (r1, x)" by fastforce
    have at1: "?at (s\<lparr>is_storage := x\<rparr>)" using attempt_storage [OF at] commit_keeps [OF c] by blast
    show ?thesis
    proof (cases r1)
      case (Inl e)
      then have "t = s\<lparr>is_storage := x\<rparr>" "r = Inl e"
        using run Inr c by (simp_all add: commitObject_def contextString_def onStorage_def js_simps)
      then show ?thesis using attempt_inv [OF at1] by simp
    next
      case ok: (Inr so)
      obtain sk b where sk: "canonicalObjectKey ?w h = Inr sk" "sb_sha256 b = h" "int (length (sb_body b)) = n"
          "objs x = (objs (is_storage s))(sk \<mapsto> b, k := None)" "so = storedObjectOf sk b" "isTemporaryKey k"
        using commit_ok [OF c [unfolded ok]] n unfolding committed_def by blast
      have "sk \<noteq> k" using canonical_key_not_temporary [OF sk(1)] sk(6) by auto
      then have stored: "storedAs (objs x) ?w h n sk" using sk by (simp add: storedAs_def)
      let ?s1 = "s\<lparr>is_storage := x, is_context := AList.update ''storageKey'' (JStr sk) (is_context s)\<rparr>"
      have key: "keyCommitted (objs (is_storage ?s1)) ?w h n (is_context ?s1)"
        using stored by (simp add: keyCommitted_def)
      then have "?at ?s1" using at1 by (simp add: attempt_def)
      moreover have "saveContext sv inp op ImmutableObjectCommitted ?s1 = (r, t)"
        using run Inr c ok sk n
        by (simp add: commitObject_def contextString_def onStorage_def setContext_def storedObjectOf_def js_simps)
      ultimately show ?thesis
        using saveContext_run [of op inp h n ?s1] P key
        by (fastforce simp: markable_def split: sum.splits)
    qed
  qed
qed

text \<open>The catalog has the blob of the request and the variable holds it, or has none.\<close>

definition absent :: "string \<Rightarrow> string \<Rightarrow> 'c \<Rightarrow> blobObject option \<Rightarrow> ingestCheckpoint set \<Rightarrow> bool" where
  "absent w h c b C \<longleftrightarrow> blobs c (w, h) = None"

definition present :: "string \<Rightarrow> string \<Rightarrow> 'c \<Rightarrow> blobObject option \<Rightarrow> ingestCheckpoint set \<Rightarrow> bool" where
  "present w h c b C \<longleftrightarrow> blobs c (w, h) = b \<and> b \<noteq> None"

lemma attempt_catalog:
  assumes at: "attempt i w h n s" and rec: "recorded b b' (blobs (is_catalog s)) (blobs c')"
    and b: "blob_workspaceId b = w" "blob_sha256 b = h"
    and new: "blobs (is_catalog s) (w, h) = None \<Longrightarrow> blobOk (objs (is_storage s)) w h b"
  shows "attempt i w h n (s\<lparr>is_catalog := c', is_blob := Some b'\<rparr>) \<and> blobs c' (w, h) = Some b'"
proof -
  have "ingestInv sha (objs (is_storage s)) (blobs c') (ops (is_operations s)) \<and> blobs c' (w, h) = Some b'"
    using ingestInv_catalog [OF attempt_inv [OF at] rec] b new by simp
  with at show ?thesis by (auto simp: attempt_def)
qed

lemma catalog_effect:
  assumes at: "attempt i w h n s"
    and run: "(andThen (onCatalog m) setBlob) s = (r, t)"
    and ok: "\<And>b' c'. m (is_catalog s) = (Inr b', c') \<Longrightarrow> recorded b b' (blobs (is_catalog s)) (blobs c')"
    and err: "\<And>e c'. m (is_catalog s) = (Inl e, c') \<Longrightarrow> blobs c' = blobs (is_catalog s)"
    and b: "blob_workspaceId b = w" "blob_sha256 b = h"
    and new: "blobs (is_catalog s) (w, h) = None \<Longrightarrow> blobOk (objs (is_storage s)) w h b"
  shows "case r of Inr _ \<Rightarrow> attempt i w h n t \<and> markable i w h n CpMetadataCommitted t
      \<and> present w h (is_catalog t) (is_blob t) (set (is_completed t)) | Inl _ \<Rightarrow> inv t"
proof -
  obtain r1 c' where m: "m (is_catalog s) = (r1, c')" by fastforce
  show ?thesis
  proof (cases r1)
    case (Inl e)
    then show ?thesis using run m err at by (auto simp: onCatalog_def js_simps attempt_def)
  next
    case (Inr b')
    then have "t = s\<lparr>is_catalog := c', is_blob := Some b'\<rparr>" "r = Inr ()"
      using run m by (auto simp: onCatalog_def setBlob_def js_simps)
    moreover have "attempt i w h n (s\<lparr>is_catalog := c', is_blob := Some b'\<rparr>) \<and> blobs c' (w, h) = Some b'"
      using attempt_catalog [OF at ok b new] m Inr by blast
    ultimately show ?thesis by (simp add: markable_def present_def)
  qed
qed

lemma attempt_ambient: "attempt i w h n (s\<lparr>is_ambient := a\<rparr>) = attempt i w h n s"
  by (simp add: attempt_def)

lemma commitMetadata_step:
  assumes n: "n = int (length (ii_bytes inp))"
  shows "stepOk (io_id op) (ii_workspaceId inp) h n
     (\<lambda>c b C. absent (ii_workspaceId inp) h c b C \<and> CpImmutableObjectCommitted \<in> C) (commitMetadata sv inp op h)
     (markable (io_id op) (ii_workspaceId inp) h n CpMetadataCommitted) (present (ii_workspaceId inp) h)"
proof (rule stepOkI)
  fix s r t
  let ?w = "ii_workspaceId inp" and ?at = "attempt (io_id op) (ii_workspaceId inp) h n"
  assume at: "?at s" and P: "absent ?w h (is_catalog s) (is_blob s) (set (is_completed s))
      \<and> CpImmutableObjectCommitted \<in> set (is_completed s)"
    and run: "commitMetadata sv inp op h s = (r, t)"
  let ?a = "is_ambient s"
  let ?s2 = "s\<lparr>is_ambient := ?a\<lparr>idCount := idCount ?a + 1, ticks := ticks ?a + 1\<rparr>\<rparr>"
  obtain sk where sk: "map_of (is_context s) ''storageKey'' = Some (JStr sk)" "storedAs (objs (is_storage s)) ?w h n sk"
    using at P by (auto simp: attempt_def absent_def keyCommitted_def)
  then have "sk \<noteq> []" by (auto simp: storedAs_def canonicalObjectKey_def split: if_splits)
  then have rc: "requiredContextString (is_context s) ''storageKey'' = Inr sk"
    using sk(1) by (simp add: requiredContextString_def)
  let ?b = "\<lparr>blob_id = idAt ?a (idCount ?a), blob_workspaceId = ?w, blob_sha256 = h,
      blob_byteLength = int (length (ii_bytes inp)), blob_mediaType = ii_mediaType inp,
      blob_storageProvider = sv_provider sv, blob_storageKey = sk,
      blob_encryptionState = ProviderManaged, blob_encryptionKeyRef = None,
      blob_verificationState = VerVerified, blob_createdAt = nowAt ?a (ticks ?a),
      blob_storageBindingId = (case ii_storageBindingId inp of None \<Rightarrow> None
         | Some b \<Rightarrow> if b = [] then None else Some b),
      blob_storageBindingGeneration = ii_storageBindingGeneration inp\<rparr>"
  let ?m = "case bc_commitVerifiedIngest (sv_catalog sv) of
      Some commit \<Rightarrow> commit \<lparr>vi_blob = ?b, vi_operationId = io_id op, vi_actorId = ii_actorId inp,
        vi_actorType = ii_principalType inp, vi_occurredAt = blob_createdAt ?b\<rparr>
    | None \<Rightarrow> bc_recordVerified (sv_catalog sv) ?b"
  have eff: "andThen (onCatalog ?m) setBlob ?s2 = (r, t)"
    using run rc
    by (cases "bc_commitVerifiedIngest (sv_catalog sv)")
      (simp_all add: commitMetadata_def ingestNextId_def ingestNow_def contextString_def js_simps Let_def)
  have "?at ?s2" using at by (simp only: attempt_ambient)
  then show "case r of Inr _ \<Rightarrow> ?at t \<and> markable (io_id op) ?w h n CpMetadataCommitted t
      \<and> present ?w h (is_catalog t) (is_blob t) (set (is_completed t)) | Inl _ \<Rightarrow> inv t"
  proof (rule catalog_effect [OF _ eff, where b = ?b])
    show "blobOk (objs (is_storage ?s2)) ?w h ?b" using sk n by (simp add: blobOk_def)
  qed (auto split: option.splits dest: commitIngest_ok commitIngest_err record_ok record_err)
qed

subsection \<open>The two branches\<close>

lemma stepOk_weaken:
  assumes "stepOk i w h n P m X Q" and "\<And>c b C. P' c b C \<Longrightarrow> P c b C" and "\<And>c b C. Q c b C \<Longrightarrow> Q' c b C"
  shows "stepOk i w h n P' m (\<lambda>_. True) Q'"
  using assms(1) unfolding stepOk_def by (rule triple_weaken) (auto intro: assms(2,3))

lemma present_skip: "stepOk i w h n (present w h) (ret ()) (markable i w h n name) (present w h)"
  by (rule stepOkI) (auto simp: markable_def present_def js_simps)

lemma present_checkpoint:
  "stepOk (io_id op) (ii_workspaceId inp) h n (present (ii_workspaceId inp) h) (checkpoint sv inp op name (ret ()))
     (\<lambda>_. True) (present (ii_workspaceId inp) h)"
  using checkpoint_step [OF present_skip] by (rule stepOk_weaken) (auto simp: present_def)

lemma attempt_metadata:
  "attempt i w h n s \<Longrightarrow> CpMetadataCommitted \<in> set (is_completed s) \<Longrightarrow> blobs (is_catalog s) (w, h) \<noteq> None"
  by (auto simp: attempt_def ingestInv_def opOk_def)

lemma storeObject_step:
  assumes n: "n = int (length (ii_bytes inp))"
  shows "stepOk (io_id op) (ii_workspaceId inp) h n (absent (ii_workspaceId inp) h)
     (storeObject sv (sv_storage sv) inp op h) (\<lambda>_. True) (present (ii_workspaceId inp) h)"
proof -
  let ?w = "ii_workspaceId inp"
  let ?ok = "stepOk (io_id op) ?w h n" and ?cp = "checkpoint sv inp op"
  have plain: "?ok (absent ?w h) (?cp name eff) (\<lambda>_. True) (\<lambda>c b C. absent ?w h c b C \<and> name \<in> C)"
    if "?ok (absent ?w h) eff (markable (io_id op) ?w h n name) (absent ?w h)" for name eff
    using that by (rule checkpoint_step) (auto simp: absent_def)
  have plain': "?ok (absent ?w h) (?cp name eff) (\<lambda>_. True) (absent ?w h)"
    if "?ok (absent ?w h) eff (markable (io_id op) ?w h n name) (absent ?w h)" for name eff
    using plain [OF that] by (rule stepOk_weaken) auto
  have meta: "?ok (\<lambda>c b C. absent ?w h c b C \<and> CpImmutableObjectCommitted \<in> C)
      (?cp CpMetadataCommitted (commitMetadata sv inp op h)) (\<lambda>_. True) (present ?w h)"
    using checkpoint_step [OF commitMetadata_step [OF n]]
    by (rule stepOk_weaken) (auto simp: present_def absent_def dest: attempt_metadata)
  show ?thesis
    unfolding storeObject_def
    by (rule stepOk_seq [OF plain' [OF createTemporary_step] stepOk_seq [OF plain' [OF receiveBytes_step]
        stepOk_seq [OF plain' [OF noteHash_step] stepOk_seq [OF plain [OF commitObject_step [OF n]]
        stepOk_seq [OF meta present_checkpoint]]]]])
qed

definition holds :: "string \<Rightarrow> string \<Rightarrow> blobObject \<Rightarrow> 'c \<Rightarrow> blobObject option \<Rightarrow> ingestCheckpoint set \<Rightarrow> bool" where
  "holds w h b0 c b C \<longleftrightarrow> blobs c (w, h) = Some b0 \<and> b = Some b0"

lemma holds_checkpoints:
  "stepOk (io_id op) (ii_workspaceId inp) h n (holds (ii_workspaceId inp) h b0)
     (forEach names (\<lambda>name. checkpoint sv inp op name (ret ()))) (\<lambda>_. True) (holds (ii_workspaceId inp) h b0)"
proof (induction names)
  case Nil
  show ?case by (rule stepOkI) (auto simp: js_simps)
next
  case (Cons name names)
  have "stepOk (io_id op) (ii_workspaceId inp) h n (holds (ii_workspaceId inp) h b0) (ret ())
      (markable (io_id op) (ii_workspaceId inp) h n name) (holds (ii_workspaceId inp) h b0)"
    by (rule stepOkI) (auto simp: markable_def holds_def js_simps)
  from checkpoint_step [OF this]
  have "stepOk (io_id op) (ii_workspaceId inp) h n (holds (ii_workspaceId inp) h b0) (checkpoint sv inp op name (ret ()))
      (\<lambda>_. True) (holds (ii_workspaceId inp) h b0)"
    by (rule stepOk_weaken) (auto simp: holds_def)
  from stepOk_seq [OF this Cons.IH] show ?case by simp
qed

lemma deduplicate_step:
  "stepOk (io_id op) (ii_workspaceId inp) h n (\<lambda>c b C. blobs c (ii_workspaceId inp, h) = Some b0)
     (deduplicate sv inp op b0) (\<lambda>_. True) (present (ii_workspaceId inp) h)"
proof -
  let ?w = "ii_workspaceId inp"
  let ?ok = "stepOk (io_id op) ?w h n"
  have set: "?ok (\<lambda>c b C. blobs c (?w, h) = Some b0) (setBlob b0) (\<lambda>_. True) (holds ?w h b0)"
    by (rule stepOkI) (auto simp: setBlob_def holds_def attempt_def js_simps)
  let ?eff = "case bc_commitVerifiedIngest (sv_catalog sv) of None \<Rightarrow> ret ()
     | Some commit \<Rightarrow> andThen ingestNow (\<lambda>at. andThen (onCatalog (commit \<lparr>vi_blob = b0, vi_operationId = io_id op,
         vi_actorId = ii_actorId inp, vi_actorType = ii_principalType inp, vi_occurredAt = at\<rparr>)) setBlob)"
  have "?ok (holds ?w h b0) ?eff (markable (io_id op) ?w h n CpMetadataCommitted) (present ?w h)"
  proof (rule stepOkI)
    fix s r t
    assume at: "attempt (io_id op) ?w h n s" and P: "holds ?w h b0 (is_catalog s) (is_blob s) (set (is_completed s))"
      and run: "?eff s = (r, t)"
    show "case r of Inr _ \<Rightarrow> attempt (io_id op) ?w h n t \<and> markable (io_id op) ?w h n CpMetadataCommitted t
      \<and> present ?w h (is_catalog t) (is_blob t) (set (is_completed t)) | Inl _ \<Rightarrow> inv t"
    proof (cases "bc_commitVerifiedIngest (sv_catalog sv)")
      case None
      then show ?thesis using run at P by (auto simp: js_simps holds_def present_def markable_def)
    next
      case (Some commit)
      let ?a = "is_ambient s"
      let ?s1 = "s\<lparr>is_ambient := ?a\<lparr>ticks := ticks ?a + 1\<rparr>\<rparr>"
      have b0: "blobOk (objs (is_storage s)) ?w h b0"
        using P attempt_inv [OF at] by (simp add: holds_def ingestInv_def)
      have "attempt (io_id op) ?w h n ?s1" using at by (simp only: attempt_ambient)
      moreover have "andThen (onCatalog (commit \<lparr>vi_blob = b0, vi_operationId = io_id op,
         vi_actorId = ii_actorId inp, vi_actorType = ii_principalType inp, vi_occurredAt = nowAt ?a (ticks ?a)\<rparr>)) setBlob ?s1
         = (r, t)"
        using run Some by (simp add: ingestNow_def js_simps)
      ultimately show ?thesis
        by (rule catalog_effect [where b = b0])
          (use Some P b0 in \<open>auto simp: holds_def blobOk_def dest: commitIngest_ok commitIngest_err\<close>)
    qed
  qed
  from checkpoint_step [OF this]
  have meta: "?ok (holds ?w h b0) (checkpoint sv inp op CpMetadataCommitted ?eff) (\<lambda>_. True) (present ?w h)"
    by (rule stepOk_weaken) (auto simp: holds_def present_def)
  show ?thesis
    unfolding deduplicate_def
    by (rule stepOk_seq [OF set stepOk_seq [OF holds_checkpoints stepOk_seq [OF meta present_checkpoint]]])
qed

end

context ingest_world
begin

subsection \<open>The whole attempt\<close>

lemma present_blobOk:
  "inv s \<Longrightarrow> present w h (is_catalog s) (is_blob s) C \<Longrightarrow> is_blob s = Some b \<Longrightarrow>
     blobs (is_catalog s) (w, h) = Some b \<and> blobOk (objs (is_storage s)) w h b"
  by (auto simp: present_def ingestInv_def)

definition delivered :: "string \<Rightarrow> string \<Rightarrow> objectIngestResult \<Rightarrow> ('s, 'c, 'q) ingestState \<Rightarrow> bool" where
  "delivered w h res s \<longleftrightarrow> blobs (is_catalog s) (w, h) = Some (ir_blob res)
     \<and> blobOk (objs (is_storage s)) w h (ir_blob res)"

lemma find_triple:
  "triple (attempt i w h n) (onCatalog (bc_findByHash (sv_catalog sv) w h))
     (\<lambda>x s. attempt i w h n s \<and> x = blobs (is_catalog s) (w, h)) (\<lambda>_. inv)"
  by (rule tripleI)
    (auto simp: onCatalog_def js_simps attempt_def split: prod.splits dest: find_ok find_err)

lemma complete_step:
  "stepOk i w h n (holds w h b) (onOperations (op_complete (sv_operations sv) w' i' rj))
     (markable i w h n CpCompleted) (holds w h b)"
  by (rule stepOkI)
    (auto simp: onOperations_def js_simps attempt_def markable_def split: prod.splits sum.splits dest: complete_same)

lemma completed_step:
  "stepOk (io_id op) (ii_workspaceId inp) h n (holds (ii_workspaceId inp) h b)
     (checkpoint sv inp op CpCompleted (onOperations (op_complete (sv_operations sv) w' i' rj)))
     (\<lambda>_. True) (holds (ii_workspaceId inp) h b)"
  using checkpoint_step [OF complete_step] by (rule stepOk_weaken) (auto simp: holds_def)

lemma body_triple:
  assumes n: "n = int (length (ii_bytes inp))"
  shows "triple (attempt (io_id op) (ii_workspaceId inp) h n) (ingestBody sv (sv_storage sv) inp op h)
     (\<lambda>res s. inv s \<and> delivered (ii_workspaceId inp) h res s \<and> ir_operationId res = io_id op) (\<lambda>_. inv)"
proof -
  let ?w = "ii_workspaceId inp" and ?at = "attempt (io_id op) (ii_workspaceId inp) h n"
  have auth: "triple ?at (checkpoint sv inp op CpAuthorised (authorise inp)) (\<lambda>_. ?at) (\<lambda>_. inv)"
    using checkpoint_step [OF authorise_step [where P = "\<lambda>_ _ _. True"]]
    unfolding stepOk_def by (rule triple_weaken) auto
  have store: "triple (\<lambda>s. ?at s \<and> x = blobs (is_catalog s) (?w, h))
      (case x of Some b \<Rightarrow> deduplicate sv inp op b | None \<Rightarrow> storeObject sv (sv_storage sv) inp op h)
      (\<lambda>_ s. ?at s \<and> present ?w h (is_catalog s) (is_blob s) (set (is_completed s))) (\<lambda>_. inv)" for x
  proof (cases x)
    case None
    show ?thesis using storeObject_step [OF n, of op h] unfolding None stepOk_def option.case
      by (rule triple_weaken) (auto simp: absent_def)
  next
    case (Some b)
    show ?thesis using deduplicate_step [of op inp h n b] unfolding Some stepOk_def option.case
      by (rule triple_weaken) auto
  qed
  have get: "triple (\<lambda>s. ?at s \<and> present ?w h (is_catalog s) (is_blob s) (set (is_completed s))) (reading is_blob)
      (\<lambda>y s. ?at s \<and> (\<exists>b. y = Some b \<and> holds ?w h b (is_catalog s) (is_blob s) (set (is_completed s)))) (\<lambda>_. inv)"
    by (rule tripleI) (auto simp: js_simps present_def holds_def)
  have fin: "triple (\<lambda>s. ?at s \<and> holds ?w h b (is_catalog s) (is_blob s) (set (is_completed s)))
      (andThen (checkpoint sv inp op CpCompleted (onOperations (op_complete (sv_operations sv) ?w (io_id op) rj)))
         (\<lambda>_. ret \<lparr>ir_operationId = io_id op, ir_blob = b, ir_deduplicated = d, ir_resumed = e\<rparr>))
      (\<lambda>res s. inv s \<and> delivered ?w h res s \<and> ir_operationId res = io_id op) (\<lambda>_. inv)" for b rj d e
    by (rule triple_andThen [OF completed_step [unfolded stepOk_def]])
      (rule tripleI; auto simp: js_simps holds_def delivered_def attempt_def ingestInv_def)
  show ?thesis
    unfolding ingestBody_def Let_def
    apply (rule triple_andThen [OF auth])
    apply (rule triple_andThen [OF find_triple])
    apply (rule triple_andThen [OF store])
    apply (rule triple_andThen [OF get])
    subgoal for u x u' y
    proof (cases y)
      case None
      then show ?thesis by (simp add: triple_def)
    next
      case (Some b)
      show ?thesis unfolding Some option.case by (rule triple_weaken [OF fin]) auto
    qed
    done
qed

text \<open>
  The request hash identifies the request: no recorded operation of the workspace has the hash
  of this request and other content. It can fail only where the digest collides.
\<close>

definition sameRequest :: "'s ingestInput \<Rightarrow> (string \<rightharpoonup> opView) \<Rightarrow> bool" where
  "sameRequest inp om \<longleftrightarrow> (\<forall>i v. om i = Some v \<and> ov_workspaceId v = ii_workspaceId inp
     \<and> ov_requestHash v = requestHashOf sha (ii_workspaceId inp) (ii_mediaType inp) (sha (ii_bytes inp))
     \<longrightarrow> reqSha v = sha (ii_bytes inp) \<and> reqLen v = int (length (ii_bytes inp)))"

definition beginOf :: "'s ingestInput \<Rightarrow> beginInput" where
  "beginOf inp = \<lparr>bg_workspaceId = ii_workspaceId inp, bg_idempotencyKey = ii_idempotencyKey inp,
     bg_actorId = ii_actorId inp, bg_principalType = ii_principalType inp,
     bg_requestHash = requestHashOf sha (ii_workspaceId inp) (ii_mediaType inp) (sha (ii_bytes inp)),
     bg_request = [(''mediaType'', JStr (ii_mediaType inp)), (''sha256'', JStr (sha (ii_bytes inp))),
       (''byteLength'', JNum (int (length (ii_bytes inp))))]\<rparr>"

definition resumed :: "ingestOperation \<Rightarrow> 'q \<Rightarrow> ('s, 'c, 'q) ingestState \<Rightarrow> ('s, 'c, 'q) ingestState" where
  "resumed p q s = s\<lparr>is_operations := q, is_completed := remdups (io_checkpoints p), is_context := io_context p,
     is_blob := blobFromResult (io_result p)\<rparr>"

lemma begin_attempt:
  assumes inv: "inv s" and same: "sameRequest inp (ops (is_operations s))"
    and run: "op_begin (sv_operations sv) (beginOf inp) (is_operations s) = (Inr p, q)"
    and hash: "io_requestHash p = bg_requestHash (beginOf inp)"
  shows "attempt (io_id p) (ii_workspaceId inp) (sha (ii_bytes inp)) (int (length (ii_bytes inp))) (resumed p q s)"
proof -
  let ?w = "ii_workspaceId inp" and ?h = "sha (ii_bytes inp)" and ?n = "int (length (ii_bytes inp))"
  obtain v where v: "ov_workspaceId v = ?w" "ov_requestHash v = io_requestHash p" "ov_checkpoints v = io_checkpoints p"
      "ov_context v = io_context p"
    and cases: "ops (is_operations s) (io_id p) = Some v \<and> ops q = ops (is_operations s)
      \<or> ops (is_operations s) (io_id p) = None \<and> ops q = (ops (is_operations s))(io_id p \<mapsto> v) \<and> ov_checkpoints v = []
        \<and> (\<forall>k. k \<noteq> ''requestHash'' \<longrightarrow> map_of (ov_request v) k = map_of (bg_request (beginOf inp)) k)"
    using begin_ok [OF run] by (auto simp: beginOf_def)
  have req: "reqSha v = ?h \<and> reqLen v = ?n"
    using cases
  proof
    assume "ops (is_operations s) (io_id p) = Some v \<and> ops q = ops (is_operations s)"
    then show ?thesis using same v hash by (auto simp: sameRequest_def beginOf_def)
  next
    assume new: "ops (is_operations s) (io_id p) = None \<and> ops q = (ops (is_operations s))(io_id p \<mapsto> v) \<and> ov_checkpoints v = []
        \<and> (\<forall>k. k \<noteq> ''requestHash'' \<longrightarrow> map_of (ov_request v) k = map_of (bg_request (beginOf inp)) k)"
    then show ?thesis by (simp add: reqSha_def reqLen_def beginOf_def)
  qed
  have q: "ops q (io_id p) = Some v" using cases by auto
  have inv': "ingestInv sha (objs (is_storage s)) (blobs (is_catalog s)) (ops q)"
    using cases inv by (auto intro!: ingestInv_operation simp: opOk_def)
  then have "opOk (objs (is_storage s)) (blobs (is_catalog s)) v"
    using q by (simp add: ingestInv_def)
  then show ?thesis
    using inv' q v req by (auto simp: attempt_def resumed_def opOk_def)
qed

lemma ingest_unfold:
  assumes "ii_storage inp = None"
  shows "ingest sha sv inp s =
    (case op_begin (sv_operations sv) (beginOf inp) (is_operations s) of
       (Inl e, q) \<Rightarrow> (Inl e, s\<lparr>is_operations := q\<rparr>)
     | (Inr p, q) \<Rightarrow>
         if io_requestHash p \<noteq> bg_requestHash (beginOf inp)
         then (Inl (plainError ''Idempotency key was already used for a different ingest request.''),
               s\<lparr>is_operations := q\<rparr>)
         else case ingestBody sv (sv_storage sv) inp p (sha (ii_bytes inp)) (resumed p q s) of
           (Inr x, t) \<Rightarrow> (Inr x, t)
         | (Inl e, t) \<Rightarrow> (Inl e, t\<lparr>is_operations :=
             snd (op_fail (sv_operations sv) (ii_workspaceId inp) (io_id p) (err_message e) (is_operations t))\<rparr>))"
  unfolding ingest_def Let_def beginOf_def resumed_def
  using assms
  by (simp add: onOperations_def js_simps split: prod.splits sum.splits)

lemma ingest_sound:
  assumes inv: "inv s" and same: "sameRequest inp (ops (is_operations s))" and st: "ii_storage inp = None"
    and run: "ingest sha sv inp s = (r, t)"
  shows "inv t \<and> (\<forall>res. r = Inr res \<longrightarrow> delivered (ii_workspaceId inp) (sha (ii_bytes inp)) res t)"
proof -
  obtain r1 q where b: "op_begin (sv_operations sv) (beginOf inp) (is_operations s) = (r1, q)" by fastforce
  show ?thesis
  proof (cases r1)
    case (Inl e)
    then show ?thesis using run b inv begin_err by (auto simp: ingest_unfold [OF st])
  next
    case (Inr p)
    note b = b [unfolded Inr]
    show ?thesis
    proof (cases "io_requestHash p = bg_requestHash (beginOf inp)")
      case False
      have "ops q = ops (is_operations s) \<or> (\<exists>v. ops q = (ops (is_operations s))(io_id p \<mapsto> v) \<and> ov_checkpoints v = [])"
        using begin_ok [OF b] by blast
      then have "ingestInv sha (objs (is_storage s)) (blobs (is_catalog s)) (ops q)"
        using inv by (auto intro!: ingestInv_operation simp: opOk_def)
      then show ?thesis using run b False by (auto simp: ingest_unfold [OF st])
    next
      case True
      obtain r2 u where body: "ingestBody sv (sv_storage sv) inp p (sha (ii_bytes inp)) (resumed p q s) = (r2, u)" by fastforce
      note at = begin_attempt [OF inv same b True]
      show ?thesis
      proof (cases r2)
        case (Inl e)
        have "inv u" using triple_err [OF body_triple [OF refl] at body [unfolded Inl]] .
        then show ?thesis using run b True body Inl fail_same
          by (auto simp: ingest_unfold [OF st] fail_same [OF surjective_pairing])
      next
        case (Inr res)
        then show ?thesis using triple_ok [OF body_triple [OF refl] at body [unfolded Inr]] run b True body
          by (auto simp: ingest_unfold [OF st])
      qed
    qed
  qed
qed

end

end
