(* ===== verification/IngestStore.thy ===== *)
theory IngestStore
  imports IngestCorrect HistoryStore
begin

text \<open>
  \<open>packages/persistence-postgres/src/operation-store.ts\<close> and \<open>blob-catalog.ts\<close>: the
  statements of \<open>PostgresIngestOperationStore\<close> and \<open>PostgresBlobCatalog\<close> on their tables. They
  interpret the locales \<open>ingest_operations\<close> and \<open>blob_catalog\<close>, and with the memory storage
  \<open>ingest_world\<close>, so that the correctness of ingest holds for these adapters.

  The columns \<open>created_at\<close> and \<open>updated_at\<close> of the operations are left out, and so are the
  \<open>CHECK\<close> and foreign key constraints of the migrations, which only make a statement fail.
\<close>

section \<open>The operations table\<close>

record operationEnvelope =
  env_checkpoints :: "ingestCheckpoint list option"
  env_context :: "jsonObject option"
  env_result :: "ingestResultJson option"

definition emptyEnvelope :: operationEnvelope where
  "emptyEnvelope = \<lparr>env_checkpoints = None, env_context = None, env_result = None\<rparr>"

record ingestRow =
  og_workspaceId :: string
  og_operationType :: string
  og_idempotencyKey :: string
  og_idempotencyScope :: string
  og_state :: uploadState
  og_requestedBy :: string
  og_principalType :: ingestPrincipalType
  og_requestJson :: jsonObject
  og_resultJson :: "operationEnvelope option"
  og_errorCode :: "string option"
  og_retryCount :: nat
  og_completedAt :: "string option"

record operationTable =
  ot_rows :: "(string, ingestRow) alist"
  ot_ambient :: ambient

text \<open>\<open>COALESCE(result_json,'{}'::jsonb)\<close>, and the default for an absent array of checkpoints.\<close>

definition envelopeOf :: "ingestRow \<Rightarrow> operationEnvelope" where
  "envelopeOf row = (case og_resultJson row of None \<Rightarrow> emptyEnvelope | Some e \<Rightarrow> e)"

definition checkpointsOf :: "ingestRow \<Rightarrow> ingestCheckpoint list" where
  "checkpointsOf row = (case env_checkpoints (envelopeOf row) of None \<Rightarrow> [] | Some cs \<Rightarrow> cs)"

definition contextOf :: "ingestRow \<Rightarrow> jsonObject" where
  "contextOf row = (case env_context (envelopeOf row) of None \<Rightarrow> [] | Some c \<Rightarrow> c)"

definition requestHashColumn :: "ingestRow \<Rightarrow> string" where
  "requestHashColumn row = (case map_of (og_requestJson row) ''requestHash'' of Some (JStr h) \<Rightarrow> h | _ \<Rightarrow> [])"

definition mapOperation :: "string \<Rightarrow> ingestRow \<Rightarrow> ingestOperation" where
  "mapOperation i row = \<lparr>io_id = i, io_workspaceId = og_workspaceId row, io_requestHash = requestHashColumn row,
     io_state = og_state row, io_checkpoints = checkpointsOf row, io_context = contextOf row,
     io_result = env_result (envelopeOf row)\<rparr>"

definition sameIdempotency :: "ingestRow \<Rightarrow> ingestRow \<Rightarrow> bool" where
  "sameIdempotency a b = (og_operationType a = og_operationType b \<and> og_workspaceId a = og_workspaceId b
     \<and> og_idempotencyKey a = og_idempotencyKey b \<and> og_idempotencyScope a = og_idempotencyScope b)"

definition newRow :: "beginInput \<Rightarrow> ingestRow" where
  "newRow inp = \<lparr>og_workspaceId = bg_workspaceId inp, og_operationType = ''object.ingest'',
     og_idempotencyKey = bg_idempotencyKey inp, og_idempotencyScope = [], og_state = Requested,
     og_requestedBy = bg_actorId inp, og_principalType = bg_principalType inp,
     og_requestJson = AList.update ''requestHash'' (JStr (bg_requestHash inp)) (bg_request inp),
     og_resultJson = Some \<lparr>env_checkpoints = Some [], env_context = Some [], env_result = None\<rparr>,
     og_errorCode = None, og_retryCount = 0, og_completedAt = None\<rparr>"

definition operationUUID :: "(operationTable, string) js" where
  "operationUUID = within ot_ambient (\<lambda>a t. t\<lparr>ot_ambient := a\<rparr>) nextId"

definition operationClock :: "(operationTable, string) js" where
  "operationClock = within ot_ambient (\<lambda>a t. t\<lparr>ot_ambient := a\<rparr>) now"

definition keepOperations :: "operationTable \<Rightarrow> operationTable \<Rightarrow> operationTable" where
  "keepOperations s u = u\<lparr>ot_rows := ot_rows s\<rparr>"

text \<open>\<open>INSERT ... ON CONFLICT ... DO UPDATE ... RETURNING\<close>: the row of the idempotency key, new or old.\<close>

definition pgBegin :: "beginInput \<Rightarrow> (operationTable, ingestOperation) js" where
  "pgBegin inp = inTransaction keepOperations
     (andThen operationUUID (\<lambda>newId.
      andThen (reading ot_rows) (\<lambda>rows.
        case find (\<lambda>(i, row). sameIdempotency (newRow inp) row) (DAList.impl_of rows) of
          Some (i, row) \<Rightarrow> ret (mapOperation i row)
        | None \<Rightarrow>
            if DAList.lookup rows newId \<noteq> None then throw uniqueViolation
            else
              andThen (updating (\<lambda>t. t\<lparr>ot_rows := DAList.update newId (newRow inp) (ot_rows t)\<rparr>)) (\<lambda>_.
                ret (mapOperation newId (newRow inp))))))"

text \<open>
  \<open>update\<close>: the statement sees the row with the identifier if it belongs to the workspace and
  meets the extra condition; without \<open>lenient\<close> a statement that changes no row is an error.
\<close>

definition updateRow ::
  "string \<Rightarrow> string \<Rightarrow> bool \<Rightarrow> (ingestRow \<Rightarrow> bool) \<Rightarrow> (string \<Rightarrow> ingestRow \<Rightarrow> ingestRow) \<Rightarrow> (operationTable, unit) js" where
  "updateRow workspaceId operationId lenient cond change = inTransaction keepOperations
     (andThen operationClock (\<lambda>at.
      andThen (reading (\<lambda>t. DAList.lookup (ot_rows t) operationId)) (\<lambda>found.
        case found of
          None \<Rightarrow> if lenient then ret () else throw (plainError ''Ingest operation update was not applied.'')
        | Some row \<Rightarrow>
            if og_workspaceId row = workspaceId \<and> cond row
            then updating (\<lambda>t. t\<lparr>ot_rows := DAList.update operationId (change at row) (ot_rows t)\<rparr>)
            else if lenient then ret () else throw (plainError ''Ingest operation update was not applied.''))))"

definition pgSaveContext :: "string \<Rightarrow> string \<Rightarrow> jsonObject \<Rightarrow> uploadState \<Rightarrow> (operationTable, unit) js" where
  "pgSaveContext workspaceId operationId context state =
     updateRow workspaceId operationId False (\<lambda>_. True)
       (\<lambda>_ row. row\<lparr>og_state := state, og_resultJson := Some ((envelopeOf row)\<lparr>env_context := Some context\<rparr>)\<rparr>)"

fun checkpointState :: "ingestCheckpoint \<Rightarrow> uploadState" where
  "checkpointState CpAuthorised = Authorised"
| "checkpointState CpTemporaryUploadCreated = TemporaryUploadCreated"
| "checkpointState CpBytesReceived = BytesReceived"
| "checkpointState CpHashVerified = HashVerified"
| "checkpointState CpImmutableObjectCommitted = ImmutableObjectCommitted"
| "checkpointState CpMetadataCommitted = MetadataCommitted"
| "checkpointState CpAuditCommitted = AuditCommitted"
| "checkpointState CpCompleted = Completed"

definition pgMarkCheckpoint :: "string \<Rightarrow> string \<Rightarrow> ingestCheckpoint \<Rightarrow> (operationTable, unit) js" where
  "pgMarkCheckpoint workspaceId operationId name =
     updateRow workspaceId operationId True (\<lambda>row. name \<notin> set (checkpointsOf row))
       (\<lambda>_ row. row\<lparr>og_resultJson := Some ((envelopeOf row)\<lparr>env_checkpoints := Some (checkpointsOf row @ [name])\<rparr>),
          og_state := checkpointState name\<rparr>)"

definition pgComplete :: "string \<Rightarrow> string \<Rightarrow> ingestResultJson \<Rightarrow> (operationTable, unit) js" where
  "pgComplete workspaceId operationId result =
     updateRow workspaceId operationId False (\<lambda>_. True)
       (\<lambda>at row. row\<lparr>og_state := Completed,
          og_resultJson := Some ((envelopeOf row)\<lparr>env_result := Some result\<rparr>),
          og_completedAt := (case og_completedAt row of None \<Rightarrow> Some at | Some x \<Rightarrow> Some x),
          og_errorCode := None\<rparr>)"

definition pgFail :: "string \<Rightarrow> string \<Rightarrow> string \<Rightarrow> (operationTable, unit) js" where
  "pgFail workspaceId operationId message =
     updateRow workspaceId operationId False (\<lambda>_. True)
       (\<lambda>_ row. if og_state row = Completed then row
          else row\<lparr>og_state := FailedRetryable, og_errorCode := Some (take 512 message),
            og_retryCount := og_retryCount row + 1\<rparr>)"

definition postgresOperations :: "operationTable ingestOperationStore" where
  "postgresOperations = \<lparr>op_begin = pgBegin, op_saveContext = pgSaveContext, op_markCheckpoint = pgMarkCheckpoint,
     op_complete = pgComplete, op_fail = pgFail\<rparr>"

section \<open>The operations table meets its contract\<close>

definition rowView :: "ingestRow \<Rightarrow> opView" where
  "rowView row = \<lparr>ov_workspaceId = og_workspaceId row, ov_requestHash = requestHashColumn row,
     ov_request = og_requestJson row, ov_checkpoints = checkpointsOf row, ov_context = contextOf row\<rparr>"

definition operationView :: "operationTable \<Rightarrow> string \<rightharpoonup> opView" where
  "operationView t i = map_option rowView (DAList.lookup (ot_rows t) i)"

lemma operationView_ambient [simp]: "operationView (t\<lparr>ot_ambient := a\<rparr>) = operationView t"
  by (simp add: operationView_def fun_eq_iff)

lemma operationView_update:
  "operationView (t\<lparr>ot_rows := DAList.update i row (ot_rows t), ot_ambient := a\<rparr>) = (operationView t)(i \<mapsto> rowView row)"
  by (auto simp: operationView_def fun_eq_iff)

lemma pgBegin_cases:
  assumes "pgBegin inp q = (Inr p, q')"
  obtains (old) i row where "DAList.lookup (ot_rows q) i = Some row" "sameIdempotency (newRow inp) row"
      "p = mapOperation i row" "ot_rows q' = ot_rows q"
  | (new) i where "DAList.lookup (ot_rows q) i = None" "p = mapOperation i (newRow inp)"
      "ot_rows q' = DAList.update i (newRow inp) (ot_rows q)"
proof (cases "find (\<lambda>(i, row). sameIdempotency (newRow inp) row) (DAList.impl_of (ot_rows q))")
  case None
  then show thesis using assms new
    by (auto simp: pgBegin_def operationUUID_def js_simps split: if_splits)
next
  case (Some x)
  obtain i row where x: "x = (i, row)" by fastforce
  have "DAList.lookup (ot_rows q) i = Some row" "sameIdempotency (newRow inp) row"
    using table_find [OF Some [unfolded x]] by simp_all
  then show thesis using assms Some x old
    by (auto simp: pgBegin_def operationUUID_def js_simps)
qed

lemma newRow_view:
  "ov_workspaceId (rowView (newRow b)) = bg_workspaceId b" "ov_checkpoints (rowView (newRow b)) = []"
  "k \<noteq> ''requestHash'' \<Longrightarrow> map_of (ov_request (rowView (newRow b))) k = map_of (bg_request b) k"
  by (simp_all add: rowView_def newRow_def checkpointsOf_def envelopeOf_def)

lemma mapOperation_view:
  "io_id (mapOperation i row) = i" "io_requestHash (mapOperation i row) = ov_requestHash (rowView row)"
  "io_checkpoints (mapOperation i row) = ov_checkpoints (rowView row)"
  "io_context (mapOperation i row) = ov_context (rowView row)"
  by (simp_all add: mapOperation_def rowView_def)

lemma updateRow_error:
  "updateRow w i lenient cond change q = (Inl e, q') \<Longrightarrow> operationView q' = operationView q"
  by (auto simp: updateRow_def keepOperations_def operationView_def fun_eq_iff dest!: inTransaction_error)

lemma updateRow_ok:
  assumes "updateRow w i lenient cond change q = (Inr u, q')"
  obtains (changed) row at where "DAList.lookup (ot_rows q) i = Some row" "og_workspaceId row = w" "cond row"
      "operationView q' = (operationView q)(i \<mapsto> rowView (change at row))"
  | (kept) "lenient" "operationView q' = operationView q"
      "\<And>row. DAList.lookup (ot_rows q) i = Some row \<Longrightarrow> og_workspaceId row = w \<Longrightarrow> \<not> cond row"
proof (cases "DAList.lookup (ot_rows q) i")
  case None
  then show thesis using assms kept
    by (auto simp: updateRow_def operationClock_def js_simps split: if_splits)
next
  case (Some row)
  show thesis
  proof (cases "og_workspaceId row = w \<and> cond row")
    case True
    with assms Some changed show thesis
      by (auto simp: updateRow_def operationClock_def operationView_def fun_eq_iff js_simps)
  next
    case False
    with assms Some kept show thesis
      by (auto simp: updateRow_def operationClock_def js_simps split: if_splits)
  qed
qed

lemma updateRow_view_same:
  assumes run: "updateRow w i lenient cond change q = (r, q')"
    and same: "\<And>at row. rowView (change at row) = rowView row"
  shows "operationView q' = operationView q"
proof (cases r)
  case (Inl e)
  with run show ?thesis by (auto dest: updateRow_error)
next
  case (Inr u)
  from run [unfolded Inr] show ?thesis
    by (rule updateRow_ok) (auto simp: same operationView_def fun_eq_iff)
qed

lemmas row_columns = rowView_def checkpointsOf_def contextOf_def requestHashColumn_def envelopeOf_def emptyEnvelope_def

interpretation pgOps: ingest_operations postgresOperations operationView
proof
  fix b q p q'
  assume "op_begin postgresOperations b q = (Inr p, q')"
  then have "pgBegin b q = (Inr p, q')" by (simp add: postgresOperations_def)
  then show "\<exists>v. ov_workspaceId v = bg_workspaceId b \<and> ov_requestHash v = io_requestHash p
        \<and> ov_checkpoints v = io_checkpoints p \<and> ov_context v = io_context p
        \<and> (operationView q (io_id p) = Some v \<and> operationView q' = operationView q
           \<or> operationView q (io_id p) = None \<and> operationView q' = (operationView q)(io_id p \<mapsto> v)
             \<and> ov_checkpoints v = []
             \<and> (\<forall>k. k \<noteq> ''requestHash'' \<longrightarrow> map_of (ov_request v) k = map_of (bg_request b) k))"
  proof (cases rule: pgBegin_cases)
    case (old i row)
    then show ?thesis
      by (intro exI [of _ "rowView row"])
        (auto simp: mapOperation_view operationView_def fun_eq_iff rowView_def sameIdempotency_def newRow_def)
  next
    case (new i)
    then show ?thesis
      by (intro exI [of _ "rowView (newRow b)"])
        (auto simp: mapOperation_view newRow_view operationView_def fun_eq_iff)
  qed
next
  fix b q e q'
  assume "op_begin postgresOperations b q = (Inl e, q')"
  then show "operationView q' = operationView q"
    by (auto simp: postgresOperations_def pgBegin_def keepOperations_def operationView_def fun_eq_iff
        dest!: inTransaction_error)
next
  fix w i ctx st q u q'
  assume "op_saveContext postgresOperations w i ctx st q = (Inr u, q')"
  then have "pgSaveContext w i ctx st q = (Inr u, q')" by (simp add: postgresOperations_def)
  then show "\<exists>v. operationView q i = Some v \<and> operationView q' = (operationView q)(i \<mapsto> v\<lparr>ov_context := ctx\<rparr>)"
    unfolding pgSaveContext_def
    by (rule updateRow_ok) (auto simp: operationView_def row_columns)
next
  fix w i name q u q' v
  assume "op_markCheckpoint postgresOperations w i name q = (Inr u, q')" and v: "operationView q i = Some v" "ov_workspaceId v = w"
  then have "pgMarkCheckpoint w i name q = (Inr u, q')" by (simp add: postgresOperations_def)
  then show "\<exists>cs. set cs = insert name (set (ov_checkpoints v)) \<and> operationView q' = (operationView q)(i \<mapsto> v\<lparr>ov_checkpoints := cs\<rparr>)"
    unfolding pgMarkCheckpoint_def
  proof (cases rule: updateRow_ok)
    case (changed row at)
    then show ?thesis using v
      by (intro exI [of _ "checkpointsOf row @ [name]"]) (auto simp: operationView_def row_columns)
  next
    case kept
    then show ?thesis using v
      by (intro exI [of _ "ov_checkpoints v"]) (auto simp: operationView_def rowView_def fun_eq_iff)
  qed
next
  fix w i rj q r q'
  assume "op_complete postgresOperations w i rj q = (r, q')"
  then show "operationView q' = operationView q"
    by (auto simp: postgresOperations_def pgComplete_def row_columns intro: updateRow_view_same)
next
  fix w i msg q r q'
  assume "op_fail postgresOperations w i msg q = (r, q')"
  then show "operationView q' = operationView q"
    by (auto simp: postgresOperations_def pgFail_def row_columns intro!: updateRow_view_same)
qed (auto simp: postgresOperations_def pgSaveContext_def pgMarkCheckpoint_def dest: updateRow_error)

section \<open>The blob catalog\<close>

record catalogTables =
  ct_blobs :: "(string \<times> string, blobObject) alist"
  ct_audit :: "chainedAuditEvent list"
  ct_outbox :: "outboxRow list"
  ct_ambient :: ambient

definition catalogClock :: "(catalogTables, string) js" where
  "catalogClock = within ct_ambient (\<lambda>a t. t\<lparr>ct_ambient := a\<rparr>) now"

text \<open>A row is keyed by its columns \<open>workspace_id\<close> and \<open>sha256\<close>, which \<open>mapBlob\<close> reads from the key.\<close>

definition mapBlob :: "string \<times> string \<Rightarrow> blobObject \<Rightarrow> blobObject" where
  "mapBlob k row = row\<lparr>blob_workspaceId := fst k, blob_sha256 := snd k\<rparr>"

definition pgFindByHash :: "string \<Rightarrow> string \<Rightarrow> (catalogTables, blobObject option) js" where
  "pgFindByHash workspaceId sha256 =
     reading (\<lambda>t. map_option (mapBlob (workspaceId, sha256)) (DAList.lookup (ct_blobs t) (workspaceId, sha256)))"

definition pgFindById :: "string \<Rightarrow> string \<Rightarrow> (catalogTables, blobObject option) js" where
  "pgFindById workspaceId blobId =
     reading (\<lambda>t. map_option (\<lambda>(k, row). mapBlob k row)
       (find (\<lambda>((w, h), row). w = workspaceId \<and> blob_id row = blobId) (DAList.impl_of (ct_blobs t))))"

definition coalesce :: "'a option \<Rightarrow> 'a option \<Rightarrow> 'a option" where
  "coalesce a b = (case a of None \<Rightarrow> b | Some x \<Rightarrow> Some x)"

text \<open>
  The upsert: a new row takes the candidate's columns and the state \<open>verified\<close>, an existing one
  keeps its identity and coordinates. The identifier and the pair of provider and key are unique.
\<close>

definition clashes :: "blobObject \<Rightarrow> blobObject \<Rightarrow> bool" where
  "clashes b row = (blob_id row = blob_id b
     \<or> blob_storageProvider row = blob_storageProvider b \<and> blob_storageKey row = blob_storageKey b)"

definition recordBlob :: "blobObject \<Rightarrow> (catalogTables, blobObject) js" where
  "recordBlob b =
     (let k = (blob_workspaceId b, blob_sha256 b) in
      andThen (reading ct_blobs) (\<lambda>rows.
      andThen
        (case DAList.lookup rows k of
           Some row \<Rightarrow> ret (row\<lparr>blob_verificationState := VerVerified,
             blob_storageBindingId := coalesce (blob_storageBindingId b) (blob_storageBindingId row),
             blob_storageBindingGeneration := coalesce (blob_storageBindingGeneration b) (blob_storageBindingGeneration row)\<rparr>)
         | None \<Rightarrow>
             if list_ex (\<lambda>(_, row). clashes b row) (DAList.impl_of rows) then throw uniqueViolation
             else ret (b\<lparr>blob_verificationState := VerVerified\<rparr>)) (\<lambda>row.
      andThen (updating (\<lambda>t. t\<lparr>ct_blobs := DAList.update k row (ct_blobs t)\<rparr>)) (\<lambda>_.
      ret (mapBlob k row)))))"

definition keepCatalog :: "catalogTables \<Rightarrow> catalogTables \<Rightarrow> catalogTables" where
  "keepCatalog s u = s\<lparr>ct_ambient := ct_ambient u\<rparr>"

definition pgRecordVerified :: "blobObject \<Rightarrow> (catalogTables, blobObject) js" where
  "pgRecordVerified b = inTransaction keepCatalog (recordBlob b)"

primrec ingestActorType :: "ingestPrincipalType \<Rightarrow> actorType" where
  "ingestActorType IngestUser = ActorUser"
| "ingestActorType IngestService = ActorService"
| "ingestActorType IngestApplication = ActorApplication"

definition ingestMetadata :: "blobObject \<Rightarrow> jsonObject" where
  "ingestMetadata b = [(''sha256'', JStr (blob_sha256 b)), (''byteLength'', JNum (blob_byteLength b)),
     (''storageKey'', JStr (blob_storageKey b))]"

definition ingestEvent :: "(bytes \<Rightarrow> string) \<Rightarrow> verifiedIngest \<Rightarrow> blobObject \<Rightarrow> auditEventBody" where
  "ingestEvent sha inp canonical =
     \<lparr>ev_id = deterministicUuid sha (''ingest-audit:'' @ vi_operationId inp),
      ev_workspaceId = blob_workspaceId (vi_blob inp), ev_actorType = ingestActorType (vi_actorType inp),
      ev_actorId = vi_actorId inp, ev_action = ''blob.ingested'', ev_subjectKind = ''blob'',
      ev_subjectId = blob_id canonical, ev_timestamp = vi_occurredAt inp,
      ev_requestId = deterministicUuid sha (''ingest-request:'' @ vi_operationId inp),
      ev_correlationId = vi_operationId inp, ev_metadata = ingestMetadata canonical\<rparr>"

definition ingestOutbox :: "(bytes \<Rightarrow> string) \<Rightarrow> verifiedIngest \<Rightarrow> blobObject \<Rightarrow> string \<Rightarrow> outboxRow" where
  "ingestOutbox sha inp canonical at =
     \<lparr>ob_id = deterministicUuid sha (''ingest-outbox:'' @ vi_operationId inp),
      ob_workspaceId = blob_workspaceId (vi_blob inp), ob_operationId = vi_operationId inp,
      ob_eventType = ''blob.reconcile_requested'',
      ob_payload = JObj [(''storageKey'', JStr (blob_storageKey canonical)), (''sha256'', JStr (blob_sha256 canonical)),
        (''byteLength'', JNum (blob_byteLength canonical))],
      ob_availableAt = at\<rparr>"

text \<open>\<open>INSERT ... ON CONFLICT (id) DO NOTHING\<close> for the audit event and for the outbox event.\<close>

definition insertNew :: "('a \<Rightarrow> string) \<Rightarrow> 'a \<Rightarrow> 'a list \<Rightarrow> 'a list" where
  "insertNew idOf x rows = (if idOf x \<in> set (map idOf rows) then rows else rows @ [x])"

definition pgCommitVerifiedIngest :: "(bytes \<Rightarrow> string) \<Rightarrow> verifiedIngest \<Rightarrow> (catalogTables, blobObject) js" where
  "pgCommitVerifiedIngest sha inp = inTransaction keepCatalog
     (andThen (recordBlob (vi_blob inp)) (\<lambda>canonical.
      andThen (reading (\<lambda>t. latestHash (blob_workspaceId (vi_blob inp)) (ct_audit t))) (\<lambda>previous.
      andThen catalogClock (\<lambda>at.
        let chained = appendAuditEvent sha (ingestEvent sha inp canonical) previous;
            out = ingestOutbox sha inp canonical at in
        andThen (updating (\<lambda>t. t\<lparr>ct_audit := insertNew ev_id chained (ct_audit t)\<rparr>)) (\<lambda>_.
        andThen (updating (\<lambda>t. t\<lparr>ct_outbox := insertNew ob_id out (ct_outbox t)\<rparr>)) (\<lambda>_.
        ret canonical))))))"

definition postgresCatalog :: "(bytes \<Rightarrow> string) \<Rightarrow> catalogTables blobCatalog" where
  "postgresCatalog sha = \<lparr>bc_findByHash = pgFindByHash, bc_recordVerified = pgRecordVerified,
     bc_commitVerifiedIngest = Some (pgCommitVerifiedIngest sha)\<rparr>"

section \<open>The catalog meets its contract\<close>

definition blobView :: "catalogTables \<Rightarrow> string \<times> string \<rightharpoonup> blobObject" where
  "blobView t k = map_option (mapBlob k) (DAList.lookup (ct_blobs t) k)"

lemma blobView_other [simp]:
  "blobView (t\<lparr>ct_audit := x\<rparr>) = blobView t" "blobView (t\<lparr>ct_outbox := y\<rparr>) = blobView t"
  "blobView (t\<lparr>ct_ambient := a\<rparr>) = blobView t"
  by (simp_all add: blobView_def fun_eq_iff)

lemma recordBlob_ok:
  assumes "recordBlob b c = (Inr b', c')"
  shows "recorded b b' (blobView c) (blobView c') \<and> ct_audit c' = ct_audit c \<and> ct_outbox c' = ct_outbox c"
proof (cases "DAList.lookup (ct_blobs c) (blob_workspaceId b, blob_sha256 b)")
  case None
  then show ?thesis using assms
    by (auto simp: recordBlob_def recorded_def blobView_def mapBlob_def fun_eq_iff js_simps Let_def split: if_splits)
next
  case (Some row)
  then show ?thesis using assms
    by (auto simp: recordBlob_def recorded_def blobView_def mapBlob_def fun_eq_iff js_simps Let_def)
qed

lemma pgCommit_ok:
  assumes "pgCommitVerifiedIngest sha i c = (Inr b', c')"
  obtains c1 at where "recordBlob (vi_blob i) c = (Inr b', c1)" "blobView c' = blobView c1"
    "ct_audit c' = insertNew ev_id (appendAuditEvent sha (ingestEvent sha i b')
       (latestHash (blob_workspaceId (vi_blob i)) (ct_audit c1))) (ct_audit c1)"
    "ct_outbox c' = insertNew ob_id (ingestOutbox sha i b' at) (ct_outbox c1)"
proof -
  obtain x c1 where rb: "recordBlob (vi_blob i) c = (x, c1)" by fastforce
  with assms show thesis using that [of c1]
    by (cases x) (auto simp: pgCommitVerifiedIngest_def catalogClock_def js_simps Let_def)
qed

interpretation pgCat: blob_catalog "postgresCatalog sha" blobView
proof
  fix w h c x c'
  assume "bc_findByHash (postgresCatalog sha) w h c = (Inr x, c')"
  then show "blobView c' = blobView c \<and> x = blobView c (w, h)"
    by (auto simp: postgresCatalog_def pgFindByHash_def blobView_def js_simps)
next
  fix f i c b' c'
  assume "bc_commitVerifiedIngest (postgresCatalog sha) = Some f" "f i c = (Inr b', c')"
  then have "pgCommitVerifiedIngest sha i c = (Inr b', c')" by (simp add: postgresCatalog_def)
  then show "recorded (vi_blob i) b' (blobView c) (blobView c')"
    by (rule pgCommit_ok) (auto dest: recordBlob_ok)
qed (auto simp: postgresCatalog_def pgFindByHash_def pgRecordVerified_def pgCommitVerifiedIngest_def keepCatalog_def
    reading_run recordBlob_ok inTransaction_ok dest!: inTransaction_error)

section \<open>Ingest over Postgres\<close>

definition postgresIngest ::
  "(bytes \<Rightarrow> string) \<Rightarrow> string \<Rightarrow> string \<Rightarrow> (ingestCheckpoint \<Rightarrow> js_error + unit)
     \<Rightarrow> (memoryObjectStorage, catalogTables, operationTable) ingestService" where
  "postgresIngest sha dayLater provider hook = \<lparr>sv_storage = memoryStorageOps sha dayLater,
     sv_catalog = postgresCatalog sha, sv_operations = postgresOperations, sv_provider = provider,
     sv_afterEffect = hook\<rparr>"

lemma postgresIngest_parts [simp]:
  "sv_storage (postgresIngest sha d p hook) = memoryStorageOps sha d"
  "sv_catalog (postgresIngest sha d p hook) = postgresCatalog sha"
  "sv_operations (postgresIngest sha d p hook) = postgresOperations"
  by (simp_all add: postgresIngest_def)

interpretation pgIngest: ingest_world sha "postgresIngest sha dayLater provider hook" ms_objects blobView operationView
  by (simp add: ingest_world_def mem.object_storage_axioms pgCat.blob_catalog_axioms pgOps.ingest_operations_axioms)

type_synonym pgIngestState = "(memoryObjectStorage, catalogTables, operationTable) ingestState"

definition ingestInvariant :: "(bytes \<Rightarrow> string) \<Rightarrow> pgIngestState \<Rightarrow> bool" where
  "ingestInvariant sha s \<longleftrightarrow>
     ingestInv sha (ms_objects (is_storage s)) (blobView (is_catalog s)) (operationView (is_operations s))"

text \<open>
  The request hash of the input belongs to no recorded operation with other content: what
  collision freedom of the digest gives.
\<close>

definition requestUnambiguous :: "(bytes \<Rightarrow> string) \<Rightarrow> memoryObjectStorage ingestInput \<Rightarrow> pgIngestState \<Rightarrow> bool" where
  "requestUnambiguous sha inp s \<longleftrightarrow>
     list_all (\<lambda>(i, row).
        og_workspaceId row = ii_workspaceId inp
        \<and> requestHashColumn row = requestHashOf sha (ii_workspaceId inp) (ii_mediaType inp) (sha (ii_bytes inp))
        \<longrightarrow> reqSha (rowView row) = sha (ii_bytes inp) \<and> reqLen (rowView row) = int (length (ii_bytes inp)))
       (DAList.impl_of (ot_rows (is_operations s)))"

lemma unambiguous_sameRequest:
  assumes "requestUnambiguous sha inp s"
  shows "pgIngest.sameRequest sha inp (operationView (is_operations s))"
  unfolding pgIngest.sameRequest_def
proof (intro allI impI, elim conjE)
  fix i v
  assume v: "operationView (is_operations s) i = Some v" "ov_workspaceId v = ii_workspaceId inp"
    "ov_requestHash v = requestHashOf sha (ii_workspaceId inp) (ii_mediaType inp) (sha (ii_bytes inp))"
  then obtain row where row: "DAList.lookup (ot_rows (is_operations s)) i = Some row" "v = rowView row"
    by (auto simp: operationView_def)
  have "(i, row) \<in> set (DAList.impl_of (ot_rows (is_operations s)))"
    by (rule map_of_SomeD [OF row(1) [unfolded DAList.lookup.rep_eq]])
  then have "og_workspaceId row = ii_workspaceId inp
      \<and> requestHashColumn row = requestHashOf sha (ii_workspaceId inp) (ii_mediaType inp) (sha (ii_bytes inp))
      \<longrightarrow> reqSha (rowView row) = sha (ii_bytes inp) \<and> reqLen (rowView row) = int (length (ii_bytes inp))"
    using assms by (auto simp only: requestUnambiguous_def list_all_iff)
  moreover have "og_workspaceId row = ii_workspaceId inp"
    using v(2) row(2) by (simp add: rowView_def)
  moreover have "requestHashColumn row = requestHashOf sha (ii_workspaceId inp) (ii_mediaType inp) (sha (ii_bytes inp))"
    using v(3) row(2) by (simp add: rowView_def)
  ultimately show "reqSha v = sha (ii_bytes inp) \<and> reqLen v = int (length (ii_bytes inp))"
    unfolding row(2) by blast
qed

definition ingestedBlob :: "pgIngestState \<Rightarrow> string \<Rightarrow> string \<Rightarrow> blobObject \<Rightarrow> bool" where
  "ingestedBlob t w h b \<longleftrightarrow> blobView (is_catalog t) (w, h) = Some b \<and> blobOk (ms_objects (is_storage t)) w h b"


definition sampleIngestInput :: "memoryObjectStorage ingestInput" where
  "sampleIngestInput = \<lparr>ii_workspaceId = ''w1'', ii_actorId = ''u1'', ii_principalType = IngestUser,
     ii_idempotencyKey = ''k1'', ii_bytes = ''hi'', ii_mediaType = ''text/plain'', ii_storage = None,
     ii_storageBindingId = None, ii_storageBindingGeneration = None\<rparr>"

definition sampleBlob :: blobObject where
  "sampleBlob = \<lparr>blob_id = ''b1'', blob_workspaceId = ''w1'', blob_sha256 = sampleDigest, blob_byteLength = 2,
     blob_mediaType = ''text/plain'', blob_storageProvider = ''mem'', blob_storageKey = sampleCanonicalKey,
     blob_encryptionState = ProviderManaged, blob_encryptionKeyRef = None, blob_verificationState = VerVerified,
     blob_createdAt = ''2024-01-01'', blob_storageBindingId = None, blob_storageBindingGeneration = None\<rparr>"

definition sampleAmbient :: ambient where
  "sampleAmbient = \<lparr>nowAt = (\<lambda>n. ''2024-01-01''), ticks = 0, idAt = (\<lambda>n. replicate (n + 1) CHR ''a''), idCount = 0\<rparr>"

text \<open>An operation that recorded every checkpoint before its answer was lost.\<close>

definition sampleIngestRow :: ingestRow where
  "sampleIngestRow = \<lparr>og_workspaceId = ''w1'', og_operationType = ''object.ingest'', og_idempotencyKey = ''k1'',
     og_idempotencyScope = [], og_state = Completed, og_requestedBy = ''u1'', og_principalType = IngestUser,
     og_requestJson = [(''mediaType'', JStr ''text/plain''), (''sha256'', JStr sampleDigest), (''byteLength'', JNum 2),
       (''requestHash'', JStr sampleDigest)],
     og_resultJson = Some \<lparr>env_checkpoints = Some ingestCheckpoints, env_context = Some [], env_result = None\<rparr>,
     og_errorCode = None, og_retryCount = 0, og_completedAt = Some ''2024-01-01''\<rparr>"

definition sampleIngestState :: pgIngestState where
  "sampleIngestState = \<lparr>is_storage = sampleCommitted,
     is_catalog = \<lparr>ct_blobs = DAList.update (''w1'', sampleDigest) sampleBlob DAList.empty, ct_audit = [], ct_outbox = [],
       ct_ambient = sampleAmbient\<rparr>,
     is_operations = \<lparr>ot_rows = DAList.update ''a'' sampleIngestRow DAList.empty, ot_ambient = sampleAmbient\<rparr>,
     is_ambient = sampleAmbient, is_completed = [], is_context = [], is_blob = None\<rparr>"

lemma sampleIngest_views:
  "blobView (is_catalog sampleIngestState) = [(''w1'', sampleDigest) \<mapsto> sampleBlob]"
  "operationView (is_operations sampleIngestState) = [''a'' \<mapsto> rowView sampleIngestRow]"
  by (auto simp: fun_eq_iff sampleIngestState_def blobView_def operationView_def mapBlob_def sampleBlob_def)

lemma sampleIngestRow_view:
  "ov_workspaceId (rowView sampleIngestRow) = ''w1''" "requestHashColumn sampleIngestRow = sampleDigest"
  "reqSha (rowView sampleIngestRow) = sampleDigest" "reqLen (rowView sampleIngestRow) = 2"
  by (simp_all add: row_columns sampleIngestRow_def reqSha_def reqLen_def)

lemma sampleBlob_ok: "blobOk (ms_objects sampleCommitted) ''w1'' sampleDigest sampleBlob"
  by (simp add: sampleCommitted_eq blobOk_def sampleBlob_def storedAs_def sampleStored_def sampleCanonicalKey_ok)

lemma sampleCommitted_addressed: "contentAddressed (\<lambda>_. sampleDigest) (ms_objects sampleCommitted)"
  by (simp add: contentAddressed_def addressOk_canonical [OF sampleCanonicalKey_ok] sampleCommitted_eq sampleStored_def)

lemma sampleIngest_inv: "ingestInvariant (\<lambda>_. sampleDigest) sampleIngestState"
  unfolding ingestInvariant_def ingestInv_def sampleIngest_views
  using sampleBlob_ok sampleCommitted_addressed
  by (simp add: opOk_def sampleIngestRow_view sampleIngestState_def)

lemma sampleIngest_unambiguous: "requestUnambiguous (\<lambda>_. sampleDigest) sampleIngestInput sampleIngestState"
  by (simp add: sampleIngestRow_view requestUnambiguous_def sampleIngestState_def sampleIngestInput_def DAList.update.rep_eq DAList.empty.rep_eq)

lemma sampleIngest_begin:
  "pgBegin (pgIngest.beginOf (\<lambda>_. sampleDigest) sampleIngestInput) (is_operations sampleIngestState)
     = (Inr (mapOperation ''a'' sampleIngestRow),
        (is_operations sampleIngestState)\<lparr>ot_ambient := sampleAmbient\<lparr>idCount := 1\<rparr>\<rparr>)"
  by (simp add: pgBegin_def operationUUID_def js_simps sampleIngestState_def DAList.update.rep_eq DAList.empty.rep_eq
      sameIdempotency_def sampleIngestRow_def newRow_def pgIngest.beginOf_def sampleIngestInput_def sampleAmbient_def)

lemma skipped_checkpoint:
  "name \<in> set (is_completed s) \<Longrightarrow> checkpoint sv inp op name effect s = (Inr (), s)"
  by (simp add: checkpoint_def js_simps)

lemma skipped_checkpoints:
  "set names \<subseteq> set (is_completed s) \<Longrightarrow> forEach names (\<lambda>name. checkpoint sv inp op name (effect name)) s = (Inr (), s)"
  by (induction names) (auto simp: skipped_checkpoint js_simps)

lemma all_checkpoints: "name \<in> set ingestCheckpoints"
  by (cases name) (simp_all add: ingestCheckpoints_def)

text \<open>A replay of an operation that recorded every checkpoint only looks the blob up.\<close>

lemma replay_body:
  assumes "set (is_completed s) = set ingestCheckpoints"
    and "DAList.lookup (ct_blobs (is_catalog s)) (ii_workspaceId inp, h) = Some row"
  shows "ingestBody (postgresIngest sha d p hook) storage inp op h s
    = (Inr \<lparr>ir_operationId = io_id op, ir_blob = mapBlob (ii_workspaceId inp, h) row, ir_deduplicated = True,
         ir_resumed = (io_checkpoints op \<noteq> [])\<rparr>, s\<lparr>is_blob := Some (mapBlob (ii_workspaceId inp, h) row)\<rparr>)"
proof -
  have mem: "name \<in> set (is_completed s)" for name using assms(1) all_checkpoints by simp
  have sub: "set names \<subseteq> set (is_completed (s\<lparr>is_blob := b\<rparr>))" for names b using mem by auto
  show ?thesis
    using assms(2)
    by (simp add: ingestBody_def deduplicate_def setBlob_def onCatalog_def postgresCatalog_def pgFindByHash_def js_simps
        skipped_checkpoint mem skipped_checkpoints [OF sub])
qed


section \<open>Idempotency\<close>

text \<open>The unique constraint on operation type, workspace, idempotency key and scope.\<close>

definition idempotencyUnique :: "operationTable \<Rightarrow> bool" where
  "idempotencyUnique t \<longleftrightarrow> (\<forall>i j x y. DAList.lookup (ot_rows t) i = Some x \<longrightarrow> DAList.lookup (ot_rows t) j = Some y \<longrightarrow>
     sameIdempotency x y \<longrightarrow> i = j)"

lemma pgBegin_unique:
  assumes u: "idempotencyUnique q" and run: "pgBegin b q = (r, q')"
  shows "idempotencyUnique q'"
proof (cases "find (\<lambda>(i, row). sameIdempotency (newRow b) row) (DAList.impl_of (ot_rows q))")
  case None
  have fresh: "\<not> sameIdempotency (newRow b) x" if "DAList.lookup (ot_rows q) i = Some x" for i x
    using None map_of_SomeD [OF that [unfolded DAList.lookup.rep_eq]] by (auto simp: find_None_iff)
  have fresh': "\<not> sameIdempotency x (newRow b)" if "DAList.lookup (ot_rows q) i = Some x" for i x
    using fresh [OF that] by (auto simp: sameIdempotency_def)
  have "ot_rows q' = ot_rows q \<or> (\<exists>i. ot_rows q' = DAList.update i (newRow b) (ot_rows q))"
    using run None by (auto simp: pgBegin_def operationUUID_def keepOperations_def js_simps split: if_splits)
  then show ?thesis
  proof
    assume "ot_rows q' = ot_rows q"
    then show ?thesis using u by (simp add: idempotencyUnique_def)
  next
    assume "\<exists>k. ot_rows q' = DAList.update k (newRow b) (ot_rows q)"
    then obtain k where k: "ot_rows q' = DAList.update k (newRow b) (ot_rows q)" by blast
    show ?thesis
      unfolding idempotencyUnique_def k lookup_update
    proof (intro allI impI)
      fix i j x y
      assume x: "(if k = i then Some (newRow b) else DAList.lookup (ot_rows q) i) = Some x"
        and y: "(if k = j then Some (newRow b) else DAList.lookup (ot_rows q) j) = Some y" and same: "sameIdempotency x y"
      show "i = j"
      proof (cases "i = k")
        case True
        then show ?thesis using x y same fresh [of j y] by (auto split: if_splits)
      next
        case False
        then have "DAList.lookup (ot_rows q) i = Some x" using x by simp
        then show ?thesis using y same fresh' [of i x] u unfolding idempotencyUnique_def by (auto split: if_splits)
      qed
    qed
  qed
next
  case (Some x)
  then have "ot_rows q' = ot_rows q"
    using run by (cases x) (auto simp: pgBegin_def operationUUID_def js_simps)
  with u show ?thesis by (simp add: idempotencyUnique_def)
qed

lemma pgBegin_old:
  assumes u: "idempotencyUnique q" and row: "DAList.lookup (ot_rows q) i = Some row" "sameIdempotency (newRow b) row"
  shows "\<exists>q'. pgBegin b q = (Inr (mapOperation i row), q') \<and> ot_rows q' = ot_rows q"
proof -
  have "(i, row) \<in> set (DAList.impl_of (ot_rows q))"
    by (rule map_of_SomeD [OF row(1) [unfolded DAList.lookup.rep_eq]])
  then obtain j y where f: "find (\<lambda>(i, row). sameIdempotency (newRow b) row) (DAList.impl_of (ot_rows q)) = Some (j, y)"
    using row(2) by (cases "find (\<lambda>(i, row). sameIdempotency (newRow b) row) (DAList.impl_of (ot_rows q))")
      (auto simp: find_None_iff)
  then have y: "DAList.lookup (ot_rows q) j = Some y" "sameIdempotency (newRow b) y"
    using table_find [OF f] by simp_all
  then have "sameIdempotency row y" using row(2) by (simp add: sameIdempotency_def)
  then have "j = i" using u row(1) y(1) unfolding idempotencyUnique_def by metis
  then have "j = i \<and> y = row" using y row by simp
  with f show ?thesis by (simp add: pgBegin_def operationUUID_def js_simps)
qed

text \<open>
  An idempotency key stands for one request: an ingest whose key the workspace already used
  for a request with another hash is refused with the message of the code before anything is
  stored or catalogued, and the recorded operations stay as they are.
\<close>

theorem ingest_key_reuse_rejected:
  assumes "idempotencyUnique (is_operations s)"
    and "DAList.lookup (ot_rows (is_operations s)) i = Some row"
    and "og_operationType row = ''object.ingest''" "og_workspaceId row = ii_workspaceId inp"
      "og_idempotencyKey row = ii_idempotencyKey inp" "og_idempotencyScope row = []"
    and "requestHashColumn row \<noteq> requestHashOf sha (ii_workspaceId inp) (ii_mediaType inp) (sha (ii_bytes inp))"
    and "ii_storage inp = None"
  shows "\<exists>t. ingest sha (postgresIngest sha dayLater provider hook) inp s
      = (Inl (plainError ''Idempotency key was already used for a different ingest request.''), t)
    \<and> is_storage t = is_storage s \<and> is_catalog t = is_catalog s
    \<and> ot_rows (is_operations t) = ot_rows (is_operations s)"
proof -
  have "sameIdempotency (newRow (pgIngest.beginOf sha inp)) row"
    using assms by (simp add: sameIdempotency_def newRow_def pgIngest.beginOf_def)
  from pgBegin_old [OF assms(1,2) this]
  obtain q where q: "pgBegin (pgIngest.beginOf sha inp) (is_operations s) = (Inr (mapOperation i row), q)"
      "ot_rows q = ot_rows (is_operations s)" by blast
  have "io_requestHash (mapOperation i row) \<noteq> bg_requestHash (pgIngest.beginOf sha inp)"
    using assms(7) by (simp add: mapOperation_def pgIngest.beginOf_def)
  with q show ?thesis by (simp add: pgIngest.ingest_unfold [OF assms(8)] postgresOperations_def)
qed

definition sampleOtherState :: pgIngestState where
  "sampleOtherState = sampleIngestState\<lparr>is_operations := \<lparr>ot_rows = DAList.update ''a''
     (sampleIngestRow\<lparr>og_requestJson := [(''requestHash'', JStr ''other'')]\<rparr>) DAList.empty, ot_ambient = sampleAmbient\<rparr>\<rparr>"

theorem ingest_key_reuse_rejected_witness:
  "\<exists>t. ingest (\<lambda>_. sampleDigest) (postgresIngest (\<lambda>_. sampleDigest) ''d'' ''mem'' (\<lambda>_. Inr ())) sampleIngestInput
      sampleOtherState = (Inl (plainError ''Idempotency key was already used for a different ingest request.''), t)
    \<and> is_storage t = is_storage sampleOtherState"
proof -
  have "length sampleDigest = 64" using sampleDigest_ok by (simp add: isSha256_def)
  then have "length sampleDigest \<noteq> length ''other''" by simp
  then have "sampleDigest \<noteq> ''other''" by metis
  moreover have "idempotencyUnique (is_operations sampleOtherState)"
    by (simp add: idempotencyUnique_def sampleOtherState_def lookup_update)
  ultimately show ?thesis
    using ingest_key_reuse_rejected [of sampleOtherState "''a''"
        "sampleIngestRow\<lparr>og_requestJson := [(''requestHash'', JStr ''other'')]\<rparr>" sampleIngestInput "\<lambda>_. sampleDigest"
        "''d''" "''mem''" "\<lambda>_. Inr ()"]
    by (simp add: sampleOtherState_def sampleIngestRow_def requestHashColumn_def requestHashOf_def sampleIngestInput_def)
      blast
qed

section \<open>One audit event per operation\<close>

lemma insertNew_again:
  "idOf x \<in> set (map idOf rows) \<Longrightarrow> insertNew idOf x rows = rows" "idOf x \<in> set (map idOf (insertNew idOf x rows))"
  by (auto simp: insertNew_def)

lemma insertNew_ids: "set (map idOf (insertNew idOf x rows)) = insert (idOf x) (set (map idOf rows))"
  by (auto simp: insertNew_def)

lemma chained_id: "ev_id (appendAuditEvent sha (ingestEvent sha i b) prev) = deterministicUuid sha (''ingest-audit:'' @ vi_operationId i)"
  by (simp add: appendAuditEvent_def ingestEvent_def auditEventBody.extend_def)

lemma outbox_id: "ob_id (ingestOutbox sha i b at) = deterministicUuid sha (''ingest-outbox:'' @ vi_operationId i)"
  by (simp add: ingestOutbox_def)

text \<open>
  Recording an ingest is idempotent per operation: committing twice for one operation (a
  replay after a crash, also with another candidate row or at another time) leaves the audit
  trail and the outbox as the first commit left them, which added at most one event to each.
\<close>

theorem ingest_audit_once:
  assumes "pgCommitVerifiedIngest sha i c = (Inr b, c1)" and "pgCommitVerifiedIngest sha j c1 = (Inr b', c2)"
    and "vi_operationId j = vi_operationId i"
  shows "ct_audit c2 = ct_audit c1 \<and> ct_outbox c2 = ct_outbox c1
    \<and> (\<exists>es. ct_audit c1 = ct_audit c @ es \<and> length es \<le> 1) \<and> (\<exists>os. ct_outbox c1 = ct_outbox c @ os \<and> length os \<le> 1)"
proof -
  obtain d at where d: "recordBlob (vi_blob i) c = (Inr b, d)"
      "ct_audit c1 = insertNew ev_id (appendAuditEvent sha (ingestEvent sha i b)
         (latestHash (blob_workspaceId (vi_blob i)) (ct_audit d))) (ct_audit d)"
      "ct_outbox c1 = insertNew ob_id (ingestOutbox sha i b at) (ct_outbox d)"
    using assms(1) by (rule pgCommit_ok)
  obtain d' at' where d': "recordBlob (vi_blob j) c1 = (Inr b', d')"
      "ct_audit c2 = insertNew ev_id (appendAuditEvent sha (ingestEvent sha j b')
         (latestHash (blob_workspaceId (vi_blob j)) (ct_audit d'))) (ct_audit d')"
      "ct_outbox c2 = insertNew ob_id (ingestOutbox sha j b' at') (ct_outbox d')"
    using assms(2) by (rule pgCommit_ok)
  have same: "ct_audit d = ct_audit c" "ct_outbox d = ct_outbox c" "ct_audit d' = ct_audit c1" "ct_outbox d' = ct_outbox c1"
    using recordBlob_ok [OF d(1)] recordBlob_ok [OF d'(1)] by simp_all
  have "ct_audit c2 = ct_audit c1"
    unfolding d'(2) same by (rule insertNew_again(1)) (simp only: d(2) insertNew_ids chained_id assms(3) insertI1)
  moreover have "ct_outbox c2 = ct_outbox c1"
    unfolding d'(3) same by (rule insertNew_again(1)) (simp only: d(3) insertNew_ids outbox_id assms(3) insertI1)
  ultimately show ?thesis
    using d(2,3) by (auto simp: same insertNew_def)
qed

definition sampleVerified :: verifiedIngest where
  "sampleVerified = \<lparr>vi_blob = sampleBlob, vi_operationId = ''a'', vi_actorId = ''u1'', vi_actorType = IngestUser,
     vi_occurredAt = ''2024-01-01''\<rparr>"

theorem ingest_audit_once_witness:
  "\<exists>b c1 b' c2. pgCommitVerifiedIngest (\<lambda>_. sampleDigest) sampleVerified (is_catalog sampleIngestState) = (Inr b, c1)
     \<and> pgCommitVerifiedIngest (\<lambda>_. sampleDigest) sampleVerified c1 = (Inr b', c2)
     \<and> ct_audit c2 = ct_audit c1 \<and> length (ct_audit c1) = 1"
proof -
  let ?f = "pgCommitVerifiedIngest (\<lambda>_. sampleDigest) sampleVerified"
  have run: "\<exists>b c'. ?f c = (Inr b, c')" if "DAList.lookup (ct_blobs c) (''w1'', sampleDigest) = Some row" for c row
    using that by (simp add: pgCommitVerifiedIngest_def recordBlob_def catalogClock_def js_simps Let_def sampleVerified_def sampleBlob_def)
  have one: "\<exists>b c'. ?f (is_catalog sampleIngestState) = (Inr b, c') \<and> length (ct_audit c') = 1
      \<and> DAList.lookup (ct_blobs c') (''w1'', sampleDigest) \<noteq> None"
    by (simp add: pgCommitVerifiedIngest_def recordBlob_def catalogClock_def js_simps Let_def sampleVerified_def sampleBlob_def
        sampleIngestState_def insertNew_def)
  then obtain b c1 row where c1: "?f (is_catalog sampleIngestState) = (Inr b, c1)" "length (ct_audit c1) = 1"
      "DAList.lookup (ct_blobs c1) (''w1'', sampleDigest) = Some row" by blast
  obtain b' c2 where c2: "?f c1 = (Inr b', c2)" using run [OF c1(3)] by blast
  from ingest_audit_once [OF c1(1) c2 refl] c1 c2 show ?thesis by blast
qed

end
