(* ===== verification/Schemas.thy ===== *)
theory Schemas
  imports Core
begin

text \<open>
  \<open>packages/schema-registry/src\<close>: schema packages (\<open>types.ts\<close>), payload validation
  (\<open>validate.ts\<close>) and the classification of changes (\<open>compatibility.ts\<close>). The main result is
  what a backward-compatible classification promises for the payloads already stored, and
  where it promises too much. The registry itself is in \<open>SchemaRegistry\<close>.

  A \<open>Record\<close> is the list of its own entries in enumeration order. Reading a missing name from
  it falls through to \<open>Object.prototype\<close>, which the source does not guard against, so the
  inherited names are modelled. \<open>Date.parse\<close> and the parser of \<open>URL\<close> are parameters.
\<close>

section \<open>Types\<close>

datatype fieldKind = KString | KNumber | KBoolean | KTimestamp | KObject | KArray

datatype fieldFormat = FUri | FSha256 | FMediaType

datatype unknownFields = Preserve | Reject

datatype cardinality = OneToOne | OneToMany | ManyToMany

datatype classification = Initial | BackwardCompatible | Breaking

datatype changeKind = Added | Removed | Changed

record fieldDefinition =
  fd_kind :: fieldKind
  fd_required :: "bool option"
  fd_format :: "fieldFormat option"
  fd_description :: "string option"

record resourceTypeDefinition =
  rt_name :: string
  rt_description :: string
  rt_fields :: "(string \<times> fieldDefinition) list"
  rt_additionalFields :: unknownFields

record relationshipDefinition =
  rl_type :: string
  rl_sourceTypes :: "string list"
  rl_targetTypes :: "string list"
  rl_cardinality :: cardinality

record schemaManifest =
  sm_namespace :: string
  sm_name :: string
  sm_version :: string
  sm_title :: string
  sm_description :: string
  sm_application :: bool
  sm_resourceTypes :: "resourceTypeDefinition list"
  sm_relationships :: "relationshipDefinition list"
  sm_compatibleArchiveFormat :: string

record compatibilityChange =
  cc_path :: string
  cc_kind :: changeKind
  cc_breaking :: bool
  cc_message :: string

record compatibilityReport =
  cr_classification :: classification
  cr_previousKey :: "string option"
  cr_changes :: "compatibilityChange list"

datatype issueCode =
  UnknownResourceType | MissingRequiredField | InvalidFieldType | InvalidFormat | UnknownField

record validationIssue =
  vs_path :: string
  vs_code :: issueCode
  vs_message :: string

record validationResult =
  vr_valid :: bool
  vr_issues :: "validationIssue list"
  vr_preserved :: "string list"

primrec kind_text :: "fieldKind \<Rightarrow> string" where
  "kind_text KString = ''string''"
| "kind_text KNumber = ''number''"
| "kind_text KBoolean = ''boolean''"
| "kind_text KTimestamp = ''timestamp''"
| "kind_text KObject = ''object''"
| "kind_text KArray = ''array''"

primrec format_text :: "fieldFormat \<Rightarrow> string" where
  "format_text FUri = ''uri''"
| "format_text FSha256 = ''sha256''"
| "format_text FMediaType = ''media-type''"

primrec cardinality_text :: "cardinality \<Rightarrow> string" where
  "cardinality_text OneToOne = ''one-to-one''"
| "cardinality_text OneToMany = ''one-to-many''"
| "cardinality_text ManyToMany = ''many-to-many''"

primrec classification_text :: "classification \<Rightarrow> string" where
  "classification_text Initial = ''initial''"
| "classification_text BackwardCompatible = ''backward-compatible''"
| "classification_text Breaking = ''breaking''"

section \<open>Validation\<close>

definition issueOf :: "string \<Rightarrow> issueCode \<Rightarrow> string \<Rightarrow> validationIssue" where
  "issueOf path code message = \<lparr>vs_path = path, vs_code = code, vs_message = message\<rparr>"

definition resultOf :: "validationIssue list \<Rightarrow> string list \<Rightarrow> validationResult" where
  "resultOf issues preserved = \<lparr>vr_valid = (length issues = 0), vr_issues = issues, vr_preserved = preserved\<rparr>"

definition required :: "fieldDefinition \<Rightarrow> bool" where
  "required f = (fd_required f = Some True)"

text \<open>The inherited members are functions, except \<open>__proto__\<close>, which is an object.\<close>

definition matchesKind :: "(string \<Rightarrow> int option) \<Rightarrow> json \<Rightarrow> fieldKind \<Rightarrow> bool" where
  "matchesKind dp v kind =
     (case kind of
        KArray \<Rightarrow> (case v of JArr _ \<Rightarrow> True | _ \<Rightarrow> False)
      | KObject \<Rightarrow> (case v of JObj _ \<Rightarrow> True | _ \<Rightarrow> False)
      | KTimestamp \<Rightarrow> (case v of JStr s \<Rightarrow> dp s \<noteq> None | _ \<Rightarrow> False)
      | KString \<Rightarrow> (case v of JStr _ \<Rightarrow> True | _ \<Rightarrow> False)
      | KNumber \<Rightarrow> (case v of JNum _ \<Rightarrow> True | _ \<Rightarrow> False)
      | KBoolean \<Rightarrow> (case v of JBool _ \<Rightarrow> True | _ \<Rightarrow> False))"

definition mediaChar :: "char \<Rightarrow> bool" where
  "mediaChar c = (safe_char c \<or> c \<in> set ''!#$&^_.+-'')"

definition mediaType :: "string \<Rightarrow> bool" where
  "mediaType s = (case split_on (CHR ''/'') s of
     [a, b] \<Rightarrow> a \<noteq> [] \<and> b \<noteq> [] \<and> list_all mediaChar a \<and> list_all mediaChar b
   | _ \<Rightarrow> False)"

definition matchesFormat :: "(string \<Rightarrow> bool) \<Rightarrow> json \<Rightarrow> fieldDefinition \<Rightarrow> bool" where
  "matchesFormat url v f =
     (case fd_format f of
        None \<Rightarrow> True
      | Some fmt \<Rightarrow>
          (case v of
             JStr s \<Rightarrow> (case fmt of FSha256 \<Rightarrow> isSha256 s | FMediaType \<Rightarrow> mediaType s | FUri \<Rightarrow> url s)
           | _ \<Rightarrow> True))"

definition fieldIssues ::
  "(string \<Rightarrow> int option) \<Rightarrow> (string \<Rightarrow> bool) \<Rightarrow> (string \<times> json) list \<Rightarrow> string \<times> fieldDefinition \<Rightarrow> validationIssue list" where
  "fieldIssues dp url payload = (\<lambda>(name, f).
     let path = ''$.'' @ name;
         wrongKind = issueOf path InvalidFieldType (name @ '' must be '' @ kind_text (fd_kind f)) in
     case readSlot payload name of
       Missing \<Rightarrow> if required f then [issueOf path MissingRequiredField (name @ '' is required'')] else []
     | Inherited \<Rightarrow> if name = ''__proto__'' \<and> fd_kind f = KObject then [] else [wrongKind]
     | Own v \<Rightarrow>
         if v = JUndef then
           (if required f then [issueOf path MissingRequiredField (name @ '' is required'')] else [])
         else if \<not> matchesKind dp v (fd_kind f) then [wrongKind]
         else if \<not> matchesFormat url v f
         then [issueOf path InvalidFormat (name @ '' does not match ''
                @ (case fd_format f of None \<Rightarrow> ''undefined'' | Some fmt \<Rightarrow> format_text fmt))]
         else [])"

definition unknownNames :: "resourceTypeDefinition \<Rightarrow> (string \<times> json) list \<Rightarrow> string list" where
  "unknownNames d payload = filter (\<lambda>name. readSlot (rt_fields d) name = Missing) (map fst payload)"

definition validateResourcePayload ::
  "(string \<Rightarrow> int option) \<Rightarrow> (string \<Rightarrow> bool) \<Rightarrow> schemaManifest \<Rightarrow> string \<Rightarrow> (string \<times> json) list \<Rightarrow> validationResult" where
  "validateResourcePayload dp url manifest resourceType payload =
     (case find (\<lambda>d. rt_name d = resourceType) (sm_resourceTypes manifest) of
        None \<Rightarrow> resultOf [issueOf ''$'' UnknownResourceType (''Unknown resource type: '' @ resourceType)] []
      | Some d \<Rightarrow>
          let issues = concat (map (fieldIssues dp url payload) (rt_fields d));
              unknown = unknownNames d payload in
          if rt_additionalFields d = Preserve
          then resultOf issues (map (\<lambda>name. ''$.'' @ name) unknown)
          else resultOf (issues @ map (\<lambda>name. issueOf (''$.'' @ name) UnknownField (name @ '' is not allowed'')) unknown) [])"

section \<open>Compatibility\<close>

definition added :: "string \<Rightarrow> string \<Rightarrow> bool \<Rightarrow> compatibilityChange" where
  "added path message breaking = \<lparr>cc_path = path, cc_kind = Added, cc_breaking = breaking, cc_message = message\<rparr>"

definition removed :: "string \<Rightarrow> string \<Rightarrow> compatibilityChange" where
  "removed path message = \<lparr>cc_path = path, cc_kind = Removed, cc_breaking = True, cc_message = message\<rparr>"

definition changed :: "string \<Rightarrow> bool \<Rightarrow> string \<Rightarrow> compatibilityChange" where
  "changed path breaking message = \<lparr>cc_path = path, cc_kind = Changed, cc_breaking = breaking, cc_message = message\<rparr>"

definition fieldPath :: "string \<Rightarrow> string \<Rightarrow> string" where
  "fieldPath resourceName name = ''resourceTypes.'' @ resourceName @ ''.fields.'' @ name"

definition keptField ::
  "string \<Rightarrow> (string \<times> fieldDefinition) list \<Rightarrow> string \<times> fieldDefinition \<Rightarrow> compatibilityChange list" where
  "keptField resourceName next = (\<lambda>(name, before).
     let path = fieldPath resourceName name in
     case readSlot next name of
       Missing \<Rightarrow> [removed path ''Field was removed.'']
     | Inherited \<Rightarrow> [changed path True ''Field type or format changed.'']
     | Own after \<Rightarrow>
         (if fd_kind before \<noteq> fd_kind after \<or> fd_format before \<noteq> fd_format after
          then [changed path True ''Field type or format changed.''] else [])
         @ (if \<not> required before \<and> required after
            then [changed (path @ ''.required'') True ''Field became required.''] else []))"

definition newField ::
  "string \<Rightarrow> (string \<times> fieldDefinition) list \<Rightarrow> string \<times> fieldDefinition \<Rightarrow> compatibilityChange list" where
  "newField resourceName previous = (\<lambda>(name, f).
     if readSlot previous name \<noteq> Missing then []
     else if required f then [added (fieldPath resourceName name) ''Required field was added.'' True]
     else [added (fieldPath resourceName name) ''Optional field was added.'' False])"

definition compareFields ::
  "string \<Rightarrow> (string \<times> fieldDefinition) list \<Rightarrow> (string \<times> fieldDefinition) list \<Rightarrow> compatibilityChange list" where
  "compareFields resourceName previous next =
     concat (map (keptField resourceName next) previous) @ concat (map (newField resourceName previous) next)"

text \<open>\<open>new Map(values.map((value) => [value.name, value]))\<close>: the last value of a name, in the first position.\<close>

definition byName :: "resourceTypeDefinition list \<Rightarrow> (string \<times> resourceTypeDefinition) list" where
  "byName ds = fold (\<lambda>d. AList.update (rt_name d) d) ds []"

definition keptType ::
  "(string \<times> resourceTypeDefinition) list \<Rightarrow> string \<times> resourceTypeDefinition \<Rightarrow> compatibilityChange list" where
  "keptType next = (\<lambda>(name, before).
     case map_of next name of
       None \<Rightarrow> [removed (''resourceTypes.'' @ name) ''Resource type was removed.'']
     | Some after \<Rightarrow>
         (if rt_additionalFields before = Preserve \<and> rt_additionalFields after = Reject
          then [changed (''resourceTypes.'' @ name @ ''.additionalFields'') True ''Unknown fields are no longer preserved.'']
          else [])
         @ compareFields name (rt_fields before) (rt_fields after))"

definition compareResourceTypes ::
  "resourceTypeDefinition list \<Rightarrow> resourceTypeDefinition list \<Rightarrow> compatibilityChange list" where
  "compareResourceTypes previous next =
     concat (map (keptType (byName next)) (byName previous))
     @ concat (map (\<lambda>(name, _). if map_of (byName previous) name = None
          then [added (''resourceTypes.'' @ name) ''Resource type was added.'' False] else []) (byName next))"

definition relationKey :: "relationshipDefinition \<Rightarrow> string" where
  "relationKey r = rl_type r @ '':'' @ join '','' (sort_key id (rl_sourceTypes r)) @ '':''
     @ join '','' (sort_key id (rl_targetTypes r)) @ '':'' @ cardinality_text (rl_cardinality r)"

definition compareRelationships ::
  "relationshipDefinition list \<Rightarrow> relationshipDefinition list \<Rightarrow> compatibilityChange list" where
  "compareRelationships previous next =
     concat (map (\<lambda>r. if relationKey r \<in> set (map relationKey next) then []
        else [removed (''relationships.'' @ rl_type r) ''Relationship constraint was removed or changed.'']) previous)
     @ concat (map (\<lambda>r. if relationKey r \<in> set (map relationKey previous) then []
        else [added (''relationships.'' @ rl_type r) ''Relationship constraint was added.'' False]) next)"

definition schemaKey :: "schemaManifest \<Rightarrow> string" where
  "schemaKey m = sm_namespace m @ ''/'' @ sm_name m @ ''/'' @ sm_version m"

definition classifyCompatibility ::
  "schemaManifest option \<Rightarrow> schemaManifest \<Rightarrow> js_error + compatibilityReport" where
  "classifyCompatibility previous next =
     (case previous of
        None \<Rightarrow> Inr \<lparr>cr_classification = Initial, cr_previousKey = None, cr_changes = []\<rparr>
      | Some prev \<Rightarrow>
          if sm_namespace prev \<noteq> sm_namespace next \<or> sm_name prev \<noteq> sm_name next
          then Inl (plainError ''Compatibility requires the same schema package identity.'')
          else
            let changes = compareResourceTypes (sm_resourceTypes prev) (sm_resourceTypes next)
                  @ compareRelationships (sm_relationships prev) (sm_relationships next)
                  @ (if sm_compatibleArchiveFormat prev \<noteq> sm_compatibleArchiveFormat next
                     then [changed ''compatibleArchiveFormat'' True ''Compatible archive format changed.''] else []) in
            Inr \<lparr>cr_classification = (if list_ex cc_breaking changes then Breaking else BackwardCompatible),
              cr_previousKey = Some (schemaKey prev), cr_changes = changes\<rparr>)"

section \<open>What a backward-compatible change keeps\<close>

lemma byName_lookup:
  "map_of (fold (\<lambda>d. AList.update (rt_name d) d) ds al) name
     = (case find (\<lambda>d. rt_name d = name) (rev ds) of Some d \<Rightarrow> Some d | None \<Rightarrow> map_of al name)"
proof (induction ds arbitrary: al)
  case (Cons d ds)
  then show ?case
    by (cases "find (\<lambda>d. rt_name d = name) (rev ds)")
      (auto simp: find_append split: option.splits)
qed simp

lemma find_rev_distinct:
  assumes "distinct (map rt_name ds)"
  shows "find (\<lambda>d. rt_name d = name) (rev ds) = find (\<lambda>d. rt_name d = name) ds"
  using assms
proof (induction ds)
  case (Cons d ds)
  have "find (\<lambda>d. rt_name d = name) ds = None" if "rt_name d = name"
    using Cons.prems that by (auto simp: find_None_iff) (metis image_eqI)
  with Cons show ?case by (auto simp: find_append split: option.splits)
qed simp

lemma byName_find:
  "distinct (map rt_name ds) \<Longrightarrow> map_of (byName ds) name = find (\<lambda>d. rt_name d = name) ds"
  by (simp add: byName_def byName_lookup find_rev_distinct split: option.splits)

lemma keptType_member:
  assumes "map_of (byName previous) name = Some before"
  shows "set (keptType (byName next) (name, before)) \<subseteq> set (compareResourceTypes previous next)"
  using map_of_SomeD [OF assms] by (auto simp: compareResourceTypes_def)

text \<open>What no breaking change means for one resource type.\<close>

definition typeExtends :: "resourceTypeDefinition \<Rightarrow> resourceTypeDefinition \<Rightarrow> bool" where
  "typeExtends before after \<longleftrightarrow>
     (rt_additionalFields before = Preserve \<longrightarrow> rt_additionalFields after = Preserve)
     \<and> (\<forall>(name, f) \<in> set (rt_fields before). \<exists>g. map_of (rt_fields after) name = Some g
          \<and> fd_kind g = fd_kind f \<and> fd_format g = fd_format f \<and> (required g \<longrightarrow> required f))
     \<and> (\<forall>(name, g) \<in> set (rt_fields after). readSlot (rt_fields before) name = Missing \<longrightarrow> \<not> required g)"

lemma list_ex_if [simp]: "list_ex P (if b then xs else ys) \<longleftrightarrow> (if b then list_ex P xs else list_ex P ys)"
  by simp

lemma keptField_compatible:
  "\<not> list_ex cc_breaking (keptField n next (name, f)) \<longleftrightarrow>
     (\<exists>g. map_of next name = Some g \<and> fd_kind g = fd_kind f \<and> fd_format g = fd_format f \<and> (required g \<longrightarrow> required f))"
proof (cases "readSlot next name")
  case (Own g)
  then have g: "map_of next name = Some g" by (simp add: readSlot_eq_Own)
  show ?thesis
    unfolding keptField_def Let_def prod.case Own slot.case
    by (auto simp: g changed_def)
next
  case Inherited
  then show ?thesis by (auto simp: keptField_def Let_def changed_def readSlot_def split: option.splits)
next
  case Missing
  then show ?thesis by (auto simp: keptField_def Let_def removed_def readSlot_def split: option.splits)
qed

lemma newField_compatible:
  "\<not> list_ex cc_breaking (newField n previous (name, g)) \<longleftrightarrow> (readSlot previous name = Missing \<longrightarrow> \<not> required g)"
  by (simp add: newField_def added_def)

lemma compareFields_compatible:
  "\<not> list_ex cc_breaking (compareFields n previous next) \<longleftrightarrow>
     (\<forall>p \<in> set previous. \<not> list_ex cc_breaking (keptField n next p))
     \<and> (\<forall>p \<in> set next. \<not> list_ex cc_breaking (newField n previous p))"
  by (auto simp: compareFields_def list_ex_iff)

lemma keptType_extends:
  assumes "\<not> list_ex cc_breaking (keptType next (name, before))"
  shows "\<exists>after. map_of next name = Some after \<and> typeExtends before after"
proof (cases "map_of next name")
  case None
  with assms show ?thesis by (simp add: keptType_def removed_def)
next
  case (Some after)
  then have "rt_additionalFields before = Preserve \<Longrightarrow> rt_additionalFields after = Preserve"
    and fields: "\<not> list_ex cc_breaking (compareFields name (rt_fields before) (rt_fields after))"
    using assms by (cases "rt_additionalFields after"; auto simp: keptType_def changed_def)+
  then have "typeExtends before after"
    unfolding typeExtends_def
    by (auto simp: compareFields_compatible keptField_compatible newField_compatible split: prod.splits)
  with Some show ?thesis by blast
qed

lemma compatible_type_extends:
  assumes "classifyCompatibility (Some prev) next = Inr report" "cr_classification report = BackwardCompatible"
    and "distinct (map rt_name (sm_resourceTypes prev))" "distinct (map rt_name (sm_resourceTypes next))"
    and "find (\<lambda>d. rt_name d = name) (sm_resourceTypes prev) = Some before"
  shows "\<exists>after. find (\<lambda>d. rt_name d = name) (sm_resourceTypes next) = Some after \<and> typeExtends before after"
proof -
  have "\<not> list_ex cc_breaking (compareResourceTypes (sm_resourceTypes prev) (sm_resourceTypes next))"
    using assms(1,2) by (auto simp: classifyCompatibility_def Let_def split: if_splits)
  moreover have b: "map_of (byName (sm_resourceTypes prev)) name = Some before"
    using assms(3,5) by (simp add: byName_find)
  ultimately have "\<not> list_ex cc_breaking (keptType (byName (sm_resourceTypes next)) (name, before))"
    using keptType_member [OF b, of "sm_resourceTypes next"] by (auto simp: list_ex_iff)
  from keptType_extends [OF this] show ?thesis
    using assms(4) by (simp add: byName_find)
qed

lemma valid_iff:
  assumes "find (\<lambda>d. rt_name d = name) (sm_resourceTypes m) = Some d"
  shows "vr_valid (validateResourcePayload dp url m name payload) \<longleftrightarrow>
     (\<forall>p \<in> set (rt_fields d). fieldIssues dp url payload p = [])
     \<and> (rt_additionalFields d = Reject \<longrightarrow> unknownNames d payload = [])"
  using assms by (cases "rt_additionalFields d") (auto simp: validateResourcePayload_def Let_def resultOf_def)

text \<open>Fields that agree in kind and format, the newer one asking for no more, accept the same values.\<close>

lemma fieldIssues_none:
  "fieldIssues dp url payload (name, f) = [] \<longleftrightarrow>
     (case readSlot payload name of
        Missing \<Rightarrow> \<not> required f
      | Inherited \<Rightarrow> name = ''__proto__'' \<and> fd_kind f = KObject
      | Own v \<Rightarrow> if v = JUndef then \<not> required f else matchesKind dp v (fd_kind f) \<and> matchesFormat url v f)"
  by (simp add: fieldIssues_def Let_def split: slot.split)

lemma fieldIssues_mono:
  assumes "fieldIssues dp url payload (name, f) = []"
    and "fd_kind g = fd_kind f" "fd_format g = fd_format f" "required g \<longrightarrow> required f"
  shows "fieldIssues dp url payload (name, g) = []"
proof -
  have "matchesFormat url v g = matchesFormat url v f" for v using assms(3) by (simp add: matchesFormat_def)
  with assms show ?thesis by (cases "readSlot payload name") (auto simp: fieldIssues_none split: if_splits)
qed

lemma fieldIssues_absent:
  "name \<notin> set (map fst payload) \<Longrightarrow> name \<notin> set prototypeNames \<Longrightarrow> \<not> required g \<Longrightarrow> fieldIssues dp url payload (name, g) = []"
  by (simp add: fieldIssues_none readSlot_def map_of_eq_None_iff [THEN iffD2])

definition protoFree :: "schemaManifest \<Rightarrow> bool" where
  "protoFree m = list_all (\<lambda>d. list_all (\<lambda>(name, f). name \<notin> set prototypeNames) (rt_fields d)) (sm_resourceTypes m)"

definition wellFormed :: "schemaManifest \<Rightarrow> bool" where
  "wellFormed m \<longleftrightarrow> distinct (map rt_name (sm_resourceTypes m)) \<and> protoFree m
     \<and> list_all (\<lambda>d. distinct (map fst (rt_fields d))) (sm_resourceTypes m)"

text \<open>The names of the payload that the next version defines and the previous one does not.\<close>

definition newlyDefined :: "schemaManifest \<Rightarrow> schemaManifest \<Rightarrow> string \<Rightarrow> (string \<times> json) list \<Rightarrow> string list" where
  "newlyDefined prev next name payload =
     (case (find (\<lambda>d. rt_name d = name) (sm_resourceTypes prev), find (\<lambda>d. rt_name d = name) (sm_resourceTypes next)) of
        (Some before, Some after) \<Rightarrow>
          filter (\<lambda>k. k \<in> set (map fst (rt_fields after)) \<and> k \<notin> set (map fst (rt_fields before))) (map fst payload)
      | _ \<Rightarrow> [])"

lemma wellFormed_type:
  assumes "wellFormed m" "find (\<lambda>d. rt_name d = name) (sm_resourceTypes m) = Some d"
  shows "distinct (map fst (rt_fields d)) \<and> (\<forall>(k, f) \<in> set (rt_fields d). k \<notin> set prototypeNames)"
  using assms by (auto simp: wellFormed_def protoFree_def list_all_iff dest!: find_SomeD)

text \<open>
  C38. A backward-compatible version keeps the stored payloads valid: when a new version of a
  package is classified backward-compatible and a payload of a resource type is valid under the
  previous version, it is valid under the new one, provided none of its unknown fields is a
  field that the new version defines. Manifests are assumed to have distinct names, none of
  them a member of \<open>Object.prototype\<close>.
\<close>

theorem compatible_payloads_stay_valid:
  assumes "classifyCompatibility (Some prev) next = Inr report" "cr_classification report = BackwardCompatible"
    and "wellFormed prev" "wellFormed next"
    and "vr_valid (validateResourcePayload dp url prev name payload)"
    and "newlyDefined prev next name payload = []"
  shows "vr_valid (validateResourcePayload dp url next name payload)"
proof (cases "find (\<lambda>d. rt_name d = name) (sm_resourceTypes prev)")
  case None
  with assms(5) show ?thesis by (simp add: validateResourcePayload_def resultOf_def)
next
  case before: (Some before)
  obtain after where after: "find (\<lambda>d. rt_name d = name) (sm_resourceTypes next) = Some after"
    and ext: "typeExtends before after"
    using compatible_type_extends [OF assms(1,2) _ _ before] assms(3,4) by (auto simp: wellFormed_def)
  have old: "\<forall>p \<in> set (rt_fields before). fieldIssues dp url payload p = []"
    and oldUnknown: "rt_additionalFields before = Reject \<longrightarrow> unknownNames before payload = []"
    using assms(5) valid_iff [OF before] by auto
  note wb = wellFormed_type [OF assms(3) before] and wa = wellFormed_type [OF assms(4) after]
  have "fieldIssues dp url payload (k, g) = []" if g: "(k, g) \<in> set (rt_fields after)" for k g
  proof (cases "map_of (rt_fields before) k")
    case (Some f)
    then have "fieldIssues dp url payload (k, f) = []" using old map_of_SomeD by fastforce
    moreover obtain g' where "map_of (rt_fields after) k = Some g'" "fd_kind g' = fd_kind f"
        "fd_format g' = fd_format f" "required g' \<longrightarrow> required f"
      using ext map_of_SomeD [OF Some] by (fastforce simp: typeExtends_def)
    moreover have "g' = g" using calculation(2) g wa by (simp add: map_of_is_SomeI)
    ultimately show ?thesis using fieldIssues_mono by blast
  next
    case None
    have proto: "k \<notin> set prototypeNames" using wa g by auto
    then have "readSlot (rt_fields before) k = Missing" using None by (simp add: readSlot_def)
    then have "\<not> required g" using ext g by (fastforce simp: typeExtends_def)
    moreover have "k \<notin> set (map fst payload)"
    proof
      assume "k \<in> set (map fst payload)"
      moreover have "k \<in> set (map fst (rt_fields after))" using g by force
      moreover have "k \<notin> set (map fst (rt_fields before))" using None by (simp add: map_of_eq_None_iff)
      ultimately have "k \<in> set (newlyDefined prev next name payload)"
        by (simp add: newlyDefined_def before after)
      with assms(6) show False by simp
    qed
    ultimately show ?thesis using fieldIssues_absent proto by blast
  qed
  then have "\<forall>p \<in> set (rt_fields after). fieldIssues dp url payload p = []" by auto
  moreover have "unknownNames after payload = []" if "rt_additionalFields after = Reject"
  proof -
    have "rt_additionalFields before = Reject"
      using ext that by (cases "rt_additionalFields before") (auto simp: typeExtends_def)
    then have none: "unknownNames before payload = []" using oldUnknown by simp
    have "readSlot (rt_fields after) k \<noteq> Missing" if "readSlot (rt_fields before) k \<noteq> Missing" for k
    proof (cases "map_of (rt_fields before) k")
      case (Some f)
      then show ?thesis using ext map_of_SomeD [OF Some] by (fastforce simp: typeExtends_def readSlot_def)
    next
      case None
      with that show ?thesis by (auto simp: readSlot_def split: option.splits if_splits)
    qed
    with none show ?thesis by (auto simp: unknownNames_def filter_empty_conv)
  qed
  ultimately show ?thesis using valid_iff [OF after] by blast
qed

definition stringField :: "bool \<Rightarrow> fieldDefinition" where
  "stringField req = \<lparr>fd_kind = KString, fd_required = Some req, fd_format = None, fd_description = None\<rparr>"

definition noteSchema :: "string \<Rightarrow> (string \<times> fieldDefinition) list \<Rightarrow> schemaManifest" where
  "noteSchema version fs = \<lparr>sm_namespace = ''app'', sm_name = ''notes'', sm_version = version, sm_title = [],
     sm_description = [], sm_application = True,
     sm_resourceTypes = [\<lparr>rt_name = ''note'', rt_description = [], rt_fields = fs, rt_additionalFields = Preserve\<rparr>],
     sm_relationships = [], sm_compatibleArchiveFormat = ''0.2''\<rparr>"

definition notesV1 :: schemaManifest where
  "notesV1 = noteSchema ''1.0.0'' [(''title'', stringField True)]"

definition notesV2 :: schemaManifest where
  "notesV2 = noteSchema ''1.1.0'' [(''title'', stringField True), (''tag'', stringField False)]"

lemma notes_classified:
  "\<exists>report. classifyCompatibility (Some notesV1) notesV2 = Inr report \<and> cr_classification report = BackwardCompatible"
  by (simp add: classifyCompatibility_def notesV1_def notesV2_def noteSchema_def stringField_def Let_def
      compareResourceTypes_def byName_def keptType_def compareFields_def keptField_def newField_def readSlot_def
      required_def prototypeNames_def added_def compareRelationships_def)

lemma notes_wellFormed: "wellFormed notesV1" "wellFormed notesV2"
  by (simp_all add: wellFormed_def protoFree_def notesV1_def notesV2_def noteSchema_def prototypeNames_def)

lemmas notes_validate = validateResourcePayload_def notesV1_def notesV2_def noteSchema_def stringField_def
  fieldIssues_def readSlot_def prototypeNames_def matchesKind_def matchesFormat_def unknownNames_def resultOf_def required_def

theorem compatible_payloads_stay_valid_witness:
  "vr_valid (validateResourcePayload (\<lambda>_. None) (\<lambda>_. False) notesV2 ''note'' [(''title'', JStr ''x''), (''extra'', JNull)])"
proof -
  obtain report where r: "classifyCompatibility (Some notesV1) notesV2 = Inr report" "cr_classification report = BackwardCompatible"
    using notes_classified by blast
  show ?thesis
    by (rule compatible_payloads_stay_valid [OF r notes_wellFormed])
      (simp_all add: notes_validate newlyDefined_def)
qed

text \<open>
  The classification does not protect a preserved unknown field: there are versions
  classified backward-compatible, both well-formed, and a payload valid under the first that
  the second rejects, because the new optional field has the name of an unknown field that the
  first version preserves.
\<close>

theorem compatible_change_can_invalidate:
  "\<exists>prev next report payload. classifyCompatibility (Some prev) next = Inr report
     \<and> cr_classification report = BackwardCompatible \<and> wellFormed prev \<and> wellFormed next
     \<and> vr_valid (validateResourcePayload dp url prev ''note'' payload)
     \<and> \<not> vr_valid (validateResourcePayload dp url next ''note'' payload)"
proof -
  let ?payload = "[(''title'', JStr ''x''), (''tag'', JNum 1)]"
  have "vr_valid (validateResourcePayload dp url notesV1 ''note'' ?payload)"
    "\<not> vr_valid (validateResourcePayload dp url notesV2 ''note'' ?payload)"
    by (simp_all add: notes_validate issueOf_def)
  with notes_classified notes_wellFormed show ?thesis by blast
qed

end
