(* ===== verification/SchemaRegistry.thy ===== *)
theory SchemaRegistry
  imports Schemas "HOL-Library.Product_Lexorder"
begin

text \<open>
  \<open>packages/schema-registry/src/registry.ts\<close> and the version rules of \<open>compatibility.ts\<close>: the
  registry of published schema packages. A published package never changes, and versions of a
  package increase with a new major version exactly for breaking changes.

  The collation \<open>localeCompare(_, undefined, { numeric: true })\<close> is a parameter of type
  \<open>string comparator\<close>; freezing and cloning are the identity on values.
\<close>

section \<open>Versions\<close>

definition isDigit :: "char \<Rightarrow> bool" where
  "isDigit c = (let n = (of_char c :: nat) in 48 \<le> n \<and> n \<le> 57)"

definition digitsValue :: "string \<Rightarrow> int" where
  "digitsValue s = foldl (\<lambda>n c. 10 * n + (of_char c - 48)) 0 s"

text \<open>One group \<open>(\d+)\<close> of the regular expression, which is greedy, and the rest of the text.\<close>

definition takeDigits :: "string \<Rightarrow> (string \<times> string) option" where
  "takeDigits s = (let d = takeWhile isDigit s in if d = [] then None else Some (d, dropWhile isDigit s))"

definition versionParts :: "string \<Rightarrow> (string \<times> string \<times> string \<times> string) option" where
  "versionParts s =
     Option.bind (takeDigits s) (\<lambda>(a, r).
       case r of [] \<Rightarrow> None | c # r' \<Rightarrow> if c \<noteq> CHR ''.'' then None else
       Option.bind (takeDigits r') (\<lambda>(b, q).
         case q of [] \<Rightarrow> None | c # q' \<Rightarrow> if c \<noteq> CHR ''.'' then None else
         map_option (\<lambda>(d, rest). (a, b, d, rest)) (takeDigits q')))"

record semver =
  major :: int
  minor :: int
  patch :: int

definition parseVersion :: "string \<Rightarrow> js_error + semver" where
  "parseVersion s = (case versionParts s of
     None \<Rightarrow> Inl (plainError (''Invalid semantic version: '' @ s))
   | Some (a, b, d, _) \<Rightarrow> Inr \<lparr>major = digitsValue a, minor = digitsValue b, patch = digitsValue d\<rparr>)"

definition compareVersion :: "semver \<Rightarrow> semver \<Rightarrow> int" where
  "compareVersion l r =
     (if major l - major r \<noteq> 0 then major l - major r
      else if minor l - minor r \<noteq> 0 then minor l - minor r
      else patch l - patch r)"

text \<open>The pattern \<open>SEMVER\<close>: no leading zero, and an optional suffix after a hyphen.\<close>

definition numericPart :: "string \<Rightarrow> bool" where
  "numericPart s = (s = ''0'' \<or> s \<noteq> [] \<and> hd s \<noteq> CHR ''0'')"

definition suffixChar :: "char \<Rightarrow> bool" where
  "suffixChar c = ((safe_char c \<and> c \<noteq> CHR ''_'') \<or> c = CHR ''.'')"

definition isSemver :: "string \<Rightarrow> bool" where
  "isSemver s = (case versionParts s of
     None \<Rightarrow> False
   | Some (a, b, d, rest) \<Rightarrow> numericPart a \<and> numericPart b \<and> numericPart d
       \<and> (rest = [] \<or> hd rest = CHR ''-'' \<and> tl rest \<noteq> [] \<and> list_all suffixChar (tl rest)))"

definition assertVersionMatchesCompatibility ::
  "schemaManifest option \<Rightarrow> schemaManifest \<Rightarrow> compatibilityReport \<Rightarrow> js_error + unit" where
  "assertVersionMatchesCompatibility previous next report =
     (case previous of
        None \<Rightarrow> Inr ()
      | Some prev \<Rightarrow>
          seqR (parseVersion (sm_version prev)) (\<lambda>previousVersion.
          seqR (parseVersion (sm_version next)) (\<lambda>nextVersion.
            if compareVersion nextVersion previousVersion \<le> 0
            then Inl (plainError ''Published schema versions must increase.'')
            else if cr_classification report = Breaking \<and> major nextVersion \<le> major previousVersion
            then Inl (plainError ''Breaking schema changes require a new major version.'')
            else if cr_classification report = BackwardCompatible \<and> major nextVersion \<noteq> major previousVersion
            then Inl (plainError ''Backward-compatible schema changes must remain in the current major version.'')
            else Inr ())))"

section \<open>Requests and the registry\<close>

record publicationGovernance =
  pg_protocolVersion :: string
  pg_applicationNamespace :: string
  pg_applicationVersion :: string
  pg_approvedBy :: string
  pg_approvalId :: string
  pg_idempotencyKey :: string

datatype packageStatus = PackageActive | PackageDeprecated | PackageRevoked

record publishedSchema =
  ps_id :: string
  ps_key :: string
  ps_digest :: string
  ps_status :: packageStatus
  ps_publishedAt :: string
  ps_manifest :: schemaManifest
  ps_governance :: "publicationGovernance option"
  ps_compatibility :: "compatibilityReport option"

record governedRequest =
  gr_manifest :: schemaManifest
  gr_protocolVersion :: string
  gr_namespace :: string
  gr_applicationVersion :: string
  gr_packageKey :: string
  gr_packageVersion :: string
  gr_resourceTypes :: "string list"
  gr_relationTypes :: "string list"
  gr_additionalFields :: unknownFields
  gr_approvedBy :: string
  gr_approvalId :: string
  gr_idempotencyKey :: string
  gr_expectedCompatibility :: classification

record schemaRegistry =
  rg_packages :: "(string \<times> publishedSchema) list"
  rg_requests :: "(string \<times> string \<times> string) list"

definition emptyRegistry :: schemaRegistry where
  "emptyRegistry = \<lparr>rg_packages = [], rg_requests = []\<rparr>"

subsection \<open>The values that are hashed\<close>

definition optional :: "string \<Rightarrow> json option \<Rightarrow> (string \<times> json) list" where
  "optional k v = (case v of None \<Rightarrow> [] | Some x \<Rightarrow> [(k, x)])"

definition unknownFieldsJson :: "unknownFields \<Rightarrow> json" where
  "unknownFieldsJson u = JStr (case u of Preserve \<Rightarrow> ''preserve'' | Reject \<Rightarrow> ''reject'')"

definition fieldJson :: "fieldDefinition \<Rightarrow> json" where
  "fieldJson f = JObj ([(''kind'', JStr (kind_text (fd_kind f)))] @ optional ''required'' (map_option JBool (fd_required f))
     @ optional ''format'' (map_option (JStr \<circ> format_text) (fd_format f))
     @ optional ''description'' (map_option JStr (fd_description f)))"

definition manifestJson :: "schemaManifest \<Rightarrow> json" where
  "manifestJson m = JObj
     [(''namespace'', JStr (sm_namespace m)), (''name'', JStr (sm_name m)), (''version'', JStr (sm_version m)),
      (''title'', JStr (sm_title m)), (''description'', JStr (sm_description m)),
      (''classification'', JStr (if sm_application m then ''application'' else ''system'')),
      (''resourceTypes'', JArr (map (\<lambda>d. JObj [(''name'', JStr (rt_name d)), (''description'', JStr (rt_description d)),
         (''fields'', JObj (map (\<lambda>(k, f). (k, fieldJson f)) (rt_fields d))),
         (''additionalFields'', unknownFieldsJson (rt_additionalFields d))]) (sm_resourceTypes m))),
      (''relationships'', JArr (map (\<lambda>r. JObj [(''type'', JStr (rl_type r)),
         (''sourceTypes'', JArr (map JStr (rl_sourceTypes r))), (''targetTypes'', JArr (map JStr (rl_targetTypes r))),
         (''cardinality'', JStr (cardinality_text (rl_cardinality r)))]) (sm_relationships m))),
      (''compatibleArchiveFormat'', JStr (sm_compatibleArchiveFormat m))]"

definition requestJson :: "governedRequest \<Rightarrow> json" where
  "requestJson r = JObj
     [(''manifest'', manifestJson (gr_manifest r)),
      (''application'', JObj [(''protocolVersion'', JStr (gr_protocolVersion r)), (''namespace'', JStr (gr_namespace r)),
         (''applicationVersion'', JStr (gr_applicationVersion r)),
         (''schemaPackage'', JObj [(''key'', JStr (gr_packageKey r)), (''version'', JStr (gr_packageVersion r)),
            (''resourceTypes'', JArr (map JStr (gr_resourceTypes r))), (''relationTypes'', JArr (map JStr (gr_relationTypes r))),
            (''additionalFields'', unknownFieldsJson (gr_additionalFields r))])]),
      (''approval'', JObj [(''approvedBy'', JStr (gr_approvedBy r)), (''approvalId'', JStr (gr_approvalId r))]),
      (''idempotencyKey'', JStr (gr_idempotencyKey r)),
      (''expectedCompatibility'', JStr (classification_text (gr_expectedCompatibility r)))]"

definition schemaDigest :: "(bytes \<Rightarrow> string) \<Rightarrow> json \<Rightarrow> string" where
  "schemaDigest sha v = sha (case canonicalize v of None \<Rightarrow> [] | Some t \<Rightarrow> utf8 t)"

section \<open>Operations\<close>

definition assertManifestReferences :: "schemaManifest \<Rightarrow> js_error + unit" where
  "assertManifestReferences m =
     (let names = map rt_name (sm_resourceTypes m) in
      if card (set names) \<noteq> length names then Inl (plainError ''Resource type names must be unique'')
      else
        case find (\<lambda>(r, t). t \<notin> set names)
            (concat (map (\<lambda>r. map (\<lambda>t. (r, t)) (rl_sourceTypes r @ rl_targetTypes r)) (sm_relationships m))) of
          Some (r, t) \<Rightarrow> Inl (plainError (''Relationship '' @ rl_type r @ '' references unknown resource type '' @ t))
        | None \<Rightarrow> Inr ())"

definition normalized :: "string list \<Rightarrow> string" where
  "normalized names = join [CHR 0x00] (sort_key id (remdups names))"

definition assertSameMembers :: "string list \<Rightarrow> string list \<Rightarrow> string \<Rightarrow> js_error + unit" where
  "assertSameMembers declared actual label =
     check (normalized declared = normalized actual)
       (plainError (''TCAP '' @ label @ '' do not match the schema manifest.''))"

definition assertGovernedRequest :: "governedRequest \<Rightarrow> js_error + unit" where
  "assertGovernedRequest r =
     (let m = gr_manifest r in
      if blank (gr_approvedBy r) \<or> blank (gr_approvalId r) \<or> blank (gr_idempotencyKey r)
      then Inl (plainError ''Governed publication requires an approver, approval ID and idempotency key.'')
      else if gr_namespace r \<noteq> sm_namespace m @ ''/'' @ sm_name m
      then Inl (plainError ''TCAP namespace does not own the schema package.'')
      else if gr_packageKey r \<noteq> schemaKey m \<or> gr_packageVersion r \<noteq> sm_version m
      then Inl (plainError ''TCAP schema identity does not match the publication.'')
      else
        seqR (assertSameMembers (gr_resourceTypes r) (map rt_name (sm_resourceTypes m)) ''resource types'') (\<lambda>_.
        seqR (assertSameMembers (gr_relationTypes r) (map rl_type (sm_relationships m)) ''relation types'') (\<lambda>_.
        check (\<not> list_ex (\<lambda>d. rt_additionalFields d \<noteq> gr_additionalFields r) (sm_resourceTypes m))
          (plainError ''TCAP unknown-field policy does not match every resource type.''))))"

definition sameIdentity :: "schemaManifest \<Rightarrow> schemaManifest \<Rightarrow> bool" where
  "sameIdentity a b = (sm_namespace a = sm_namespace b \<and> sm_name a = sm_name b)"

definition latest :: "string comparator \<Rightarrow> schemaManifest \<Rightarrow> (string \<times> publishedSchema) list \<Rightarrow> publishedSchema option" where
  "latest loc m packages =
     (case Sorting_Algorithms.sort (reversed (key (\<lambda>p. sm_version (ps_manifest p)) loc))
         (filter (\<lambda>p. sameIdentity (ps_manifest p) m) (map snd packages)) of
        [] \<Rightarrow> None | p # _ \<Rightarrow> Some p)"

definition getPackage :: "string \<Rightarrow> schemaRegistry \<Rightarrow> publishedSchema option" where
  "getPackage k s = map_of (rg_packages s) k"

definition listPackages :: "schemaRegistry \<Rightarrow> publishedSchema list" where
  "listPackages s = map snd (rg_packages s)"

definition publishPackage ::
  "(bytes \<Rightarrow> string) \<Rightarrow> schemaManifest \<Rightarrow> string \<Rightarrow> publicationGovernance option \<Rightarrow> compatibilityReport
     \<Rightarrow> (schemaRegistry, publishedSchema) js" where
  "publishPackage sha m publishedAt governance compatibility =
     (if \<not> isSemver (sm_version m)
      then throw (plainError (''Invalid semantic version: '' @ sm_version m))
      else
        andThen (reading (getPackage (schemaKey m))) (\<lambda>existing.
          if existing \<noteq> None then throw (plainError (''Schema version already published: '' @ schemaKey m))
          else
            andThen (lifting (assertManifestReferences m)) (\<lambda>_.
              let digest = schemaDigest sha (manifestJson m);
                  published = \<lparr>ps_id = ''schema:'' @ digest, ps_key = schemaKey m, ps_digest = digest,
                    ps_status = PackageActive, ps_publishedAt = publishedAt, ps_manifest = m,
                    ps_governance = governance, ps_compatibility = Some compatibility\<rparr> in
              andThen (updating (\<lambda>s. s\<lparr>rg_packages := AList.update (schemaKey m) published (rg_packages s)\<rparr>))
                (\<lambda>_. ret published))))"

definition requestKey :: "governedRequest \<Rightarrow> string" where
  "requestKey r = gr_namespace r @ '':'' @ gr_idempotencyKey r"

definition governanceOf :: "governedRequest \<Rightarrow> publicationGovernance" where
  "governanceOf r = \<lparr>pg_protocolVersion = gr_protocolVersion r, pg_applicationNamespace = gr_namespace r,
     pg_applicationVersion = gr_applicationVersion r, pg_approvedBy = gr_approvedBy r, pg_approvalId = gr_approvalId r,
     pg_idempotencyKey = gr_idempotencyKey r\<rparr>"

text \<open>\<open>publishGoverned\<close>. A replay returns \<open>this.get(replay.packageKey)!\<close>, which is undefined where there is none.\<close>

definition publishGoverned ::
  "(bytes \<Rightarrow> string) \<Rightarrow> string comparator \<Rightarrow> governedRequest \<Rightarrow> string \<Rightarrow> (schemaRegistry, publishedSchema option) js" where
  "publishGoverned sha loc r publishedAt =
     andThen (lifting (assertGovernedRequest r)) (\<lambda>_.
     let fingerprint = schemaDigest sha (requestJson r) in
     andThen (reading (\<lambda>s. map_of (rg_requests s) (requestKey r))) (\<lambda>replay.
       case replay of
         Some (f, packageKey) \<Rightarrow>
           if f \<noteq> fingerprint
           then throw (plainError ''Idempotency key was already used for a different schema publication.'')
           else reading (getPackage packageKey)
       | None \<Rightarrow>
           andThen (reading (\<lambda>s. map_option ps_manifest (latest loc (gr_manifest r) (rg_packages s)))) (\<lambda>previous.
           andThen (lifting (classifyCompatibility previous (gr_manifest r))) (\<lambda>compatibility.
             if cr_classification compatibility \<noteq> gr_expectedCompatibility r
             then throw (plainError (''Expected '' @ classification_text (gr_expectedCompatibility r)
                    @ '' compatibility but classified '' @ classification_text (cr_classification compatibility) @ ''.''))
             else
               andThen (lifting (assertVersionMatchesCompatibility previous (gr_manifest r) compatibility)) (\<lambda>_.
               andThen (publishPackage sha (gr_manifest r) publishedAt (Some (governanceOf r)) compatibility) (\<lambda>published.
               andThen (updating (\<lambda>s. s\<lparr>rg_requests := AList.update (requestKey r) (fingerprint, ps_key published) (rg_requests s)\<rparr>))
                 (\<lambda>_. ret (Some published))))))))"

section \<open>What a call does\<close>

definition packageOf ::
  "(bytes \<Rightarrow> string) \<Rightarrow> governedRequest \<Rightarrow> string \<Rightarrow> compatibilityReport \<Rightarrow> publishedSchema" where
  "packageOf sha r at report = \<lparr>ps_id = ''schema:'' @ schemaDigest sha (manifestJson (gr_manifest r)),
     ps_key = schemaKey (gr_manifest r), ps_digest = schemaDigest sha (manifestJson (gr_manifest r)),
     ps_status = PackageActive, ps_publishedAt = at, ps_manifest = gr_manifest r,
     ps_governance = Some (governanceOf r), ps_compatibility = Some report\<rparr>"

lemma update_new: "map_of al k = None \<Longrightarrow> AList.update k v al = al @ [(k, v)]"
  by (induction al) (auto split: if_splits)

lemma publishPackage_run:
  "publishPackage sha (gr_manifest r) at (Some (governanceOf r)) report s =
     (if \<not> isSemver (sm_version (gr_manifest r))
      then (Inl (plainError (''Invalid semantic version: '' @ sm_version (gr_manifest r))), s)
      else if map_of (rg_packages s) (schemaKey (gr_manifest r)) \<noteq> None
      then (Inl (plainError (''Schema version already published: '' @ schemaKey (gr_manifest r))), s)
      else case assertManifestReferences (gr_manifest r) of
        Inl e \<Rightarrow> (Inl e, s)
      | Inr _ \<Rightarrow> (Inr (packageOf sha r at report),
          s\<lparr>rg_packages := rg_packages s @ [(schemaKey (gr_manifest r), packageOf sha r at report)]\<rparr>))"
  by (cases "assertManifestReferences (gr_manifest r)")
    (auto simp: publishPackage_def packageOf_def getPackage_def update_new js_simps Let_def)

lemma publishGoverned_cases:
  assumes "publishGoverned sha loc r at s = (x, t)"
  obtains (failed) e where "x = Inl e" "t = s"
  | (replayed) k where "map_of (rg_requests s) (requestKey r) = Some (schemaDigest sha (requestJson r), k)"
      "x = Inr (getPackage k s)" "t = s"
  | (published) report where "map_of (rg_requests s) (requestKey r) = None"
      "classifyCompatibility (map_option ps_manifest (latest loc (gr_manifest r) (rg_packages s))) (gr_manifest r) = Inr report"
      "assertVersionMatchesCompatibility (map_option ps_manifest (latest loc (gr_manifest r) (rg_packages s))) (gr_manifest r) report = Inr ()"
      "isSemver (sm_version (gr_manifest r))" "map_of (rg_packages s) (schemaKey (gr_manifest r)) = None"
      "assertManifestReferences (gr_manifest r) = Inr ()" "x = Inr (Some (packageOf sha r at report))"
      "t = \<lparr>rg_packages = rg_packages s @ [(schemaKey (gr_manifest r), packageOf sha r at report)],
            rg_requests = rg_requests s @ [(requestKey r, schemaDigest sha (requestJson r), schemaKey (gr_manifest r))]\<rparr>"
proof (cases "assertGovernedRequest r")
  case (Inl e)
  then have "x = Inl e" "t = s" using assms by (auto simp: publishGoverned_def js_simps)
  then show thesis by (rule failed)
next
  case ok: (Inr u)
  let ?prev = "map_option ps_manifest (latest loc (gr_manifest r) (rg_packages s))"
  show thesis
  proof (cases "map_of (rg_requests s) (requestKey r)")
    case (Some y)
    obtain f k where y: "y = (f, k)" by fastforce
    have "(\<exists>e. x = Inl e \<and> t = s) \<or> f = schemaDigest sha (requestJson r) \<and> x = Inr (getPackage k s) \<and> t = s"
      using assms ok Some y by (cases "f = schemaDigest sha (requestJson r)") (auto simp: publishGoverned_def js_simps Let_def)
    then show thesis using Some y failed replayed by metis
  next
    case None
    show thesis
    proof (cases "classifyCompatibility ?prev (gr_manifest r)")
      case (Inl e)
      then have "x = Inl e" "t = s" using assms ok None by (auto simp: publishGoverned_def js_simps Let_def)
      then show thesis by (rule failed)
    next
      case (Inr report)
      note cls = this
      show thesis
      proof (cases "assertVersionMatchesCompatibility ?prev (gr_manifest r) report")
        case (Inl e)
        then have "\<exists>e. x = Inl e \<and> t = s" using assms ok None cls
          by (cases "cr_classification report = gr_expectedCompatibility r") (auto simp: publishGoverned_def js_simps Let_def)
        then show thesis using failed by blast
      next
        case (Inr v)
        obtain y u where run: "publishPackage sha (gr_manifest r) at (Some (governanceOf r)) report s = (y, u)" by fastforce
        have eqs: "x = map_sum id Some y \<and> (u = t \<and> \<not> isOk y \<or> isOk y \<and> t = u\<lparr>rg_requests := AList.update (requestKey r)
              (schemaDigest sha (requestJson r), ps_key (projr y)) (rg_requests u)\<rparr>)
            \<or> (\<exists>e. x = Inl e \<and> t = s)"
          using assms ok None cls Inr run
          by (cases "cr_classification report = gr_expectedCompatibility r"; cases y)
            (auto simp: publishGoverned_def js_simps Let_def)
        show thesis
        proof (cases y)
          case (Inl e)
          then have "u = s" using run by (simp add: publishPackage_run split: if_splits sum.splits)
          then have "\<exists>e. x = Inl e \<and> t = s" using eqs Inl by auto
          then show thesis using failed by blast
        next
          case p: (Inr p)
          then have "isSemver (sm_version (gr_manifest r))" "map_of (rg_packages s) (schemaKey (gr_manifest r)) = None"
              "isOk (assertManifestReferences (gr_manifest r))" "p = packageOf sha r at report"
              "u = s\<lparr>rg_packages := rg_packages s @ [(schemaKey (gr_manifest r), packageOf sha r at report)]\<rparr>"
            using run by (auto simp: publishPackage_run split: if_splits sum.splits)
          note new = this
          show thesis
          proof (cases "\<exists>e. x = Inl e \<and> t = s")
            case True
            then show thesis using failed by blast
          next
            case False
            then have "x = Inr (Some (packageOf sha r at report))"
                "t = u\<lparr>rg_requests := AList.update (requestKey r)
                  (schemaDigest sha (requestJson r), ps_key (packageOf sha r at report)) (rg_requests u)\<rparr>"
              using eqs p new(4) by auto
            moreover have "rg_requests u = rg_requests s" using new(5) by simp
            ultimately show thesis
              using published [OF None cls] Inr new by (simp add: isOk_iff packageOf_def update_new [OF None])
          qed
        qed
      qed
    qed
  qed
qed

section \<open>The invariant of the registry\<close>

text \<open>The versions of one package, in the order of publication.\<close>

definition versionLess :: "schemaManifest \<Rightarrow> schemaManifest \<Rightarrow> bool" where
  "versionLess a b = (case (parseVersion (sm_version a), parseVersion (sm_version b)) of
     (Inr x, Inr y) \<Rightarrow> 0 < compareVersion y x | _ \<Rightarrow> False)"

definition majorOf :: "schemaManifest \<Rightarrow> int" where
  "majorOf m = (case parseVersion (sm_version m) of Inr v \<Rightarrow> major v | Inl _ \<Rightarrow> 0)"

text \<open>What the collation with the option numeric promises for semantic versions.\<close>

definition numericCollation :: "string comparator \<Rightarrow> bool" where
  "numericCollation loc \<longleftrightarrow> (\<forall>a b x y. parseVersion a = Inr x \<longrightarrow> parseVersion b = Inr y \<longrightarrow> 0 < compareVersion y x
     \<longrightarrow> compare loc a b = Less)"

text \<open>A package published after another of its identity is breaking exactly when the major version grew.\<close>

definition compatRule :: "(string \<times> publishedSchema) list \<Rightarrow> publishedSchema \<Rightarrow> bool" where
  "compatRule packages p \<longleftrightarrow> (case ps_compatibility p of None \<Rightarrow> True | Some report \<Rightarrow>
     (case cr_previousKey report of
        None \<Rightarrow> cr_classification report = Initial
      | Some k \<Rightarrow> (\<exists>q. map_of packages k = Some q \<and> sameIdentity (ps_manifest q) (ps_manifest p)
           \<and> versionLess (ps_manifest q) (ps_manifest p)
           \<and> (cr_classification report = Breaking \<longleftrightarrow> majorOf (ps_manifest q) < majorOf (ps_manifest p)))))"

definition packageOk :: "(bytes \<Rightarrow> string) \<Rightarrow> string \<times> publishedSchema \<Rightarrow> bool" where
  "packageOk sha = (\<lambda>(k, p). ps_key p = k \<and> k = schemaKey (ps_manifest p) \<and> isSemver (sm_version (ps_manifest p))
     \<and> ps_digest p = schemaDigest sha (manifestJson (ps_manifest p)) \<and> assertManifestReferences (ps_manifest p) = Inr ())"

definition ordered :: "publishedSchema list \<Rightarrow> bool" where
  "ordered ps = sorted_wrt (\<lambda>p q. sameIdentity (ps_manifest p) (ps_manifest q) \<longrightarrow> versionLess (ps_manifest p) (ps_manifest q)) ps"

definition registryOk :: "(bytes \<Rightarrow> string) \<Rightarrow> schemaRegistry \<Rightarrow> bool" where
  "registryOk sha s \<longleftrightarrow> distinct (map fst (rg_packages s))
     \<and> list_all (packageOk sha) (rg_packages s)
     \<and> ordered (listPackages s)
     \<and> list_all (compatRule (rg_packages s)) (listPackages s)
     \<and> list_all (\<lambda>(rk, f, k). getPackage k s \<noteq> None) (rg_requests s)"

lemma compareVersion_trans: "0 < compareVersion y x \<Longrightarrow> 0 < compareVersion z y \<Longrightarrow> 0 < compareVersion z x"
  by (auto simp: compareVersion_def split: if_splits)

lemma versionLess_trans: "versionLess a b \<Longrightarrow> versionLess b c \<Longrightarrow> versionLess a c"
  by (auto simp: versionLess_def split: sum.splits dest: compareVersion_trans)

lemma latest_cases:
  assumes "latest loc m packages = Some p"
  shows "p \<in> set (map snd packages)" "sameIdentity (ps_manifest p) m"
    "q \<in> set (map snd packages) \<Longrightarrow> sameIdentity (ps_manifest q) m \<Longrightarrow>
       compare loc (sm_version (ps_manifest p)) (sm_version (ps_manifest q)) \<noteq> Less"
proof -
  let ?cmp = "reversed (key (\<lambda>p. sm_version (ps_manifest p)) loc)"
  let ?xs = "filter (\<lambda>p. sameIdentity (ps_manifest p) m) (map snd packages)"
  obtain rest where rest: "Sorting_Algorithms.sort ?cmp ?xs = p # rest"
    using assms by (auto simp: latest_def split: list.splits)
  have set: "set (p # rest) = set ?xs" using set_sort [of ?cmp ?xs] rest by simp
  then show "p \<in> set (map snd packages)" "sameIdentity (ps_manifest p) m" by auto
  assume "q \<in> set (map snd packages)" "sameIdentity (ps_manifest q) m"
  then have "q \<in> set (p # rest)" using set by auto
  moreover have "Sorting_Algorithms.sorted ?cmp (p # rest)" using sorted_sort [of ?cmp ?xs] rest by simp
  ultimately show "compare loc (sm_version (ps_manifest p)) (sm_version (ps_manifest q)) \<noteq> Less"
    using sorted_Cons_imp_not_less [of ?cmp p rest q]
    by (auto simp: compare.greater_iff_sym_less)
qed

lemma latest_None:
  assumes "latest loc m packages = None" "q \<in> set (map snd packages)"
  shows "\<not> sameIdentity (ps_manifest q) m"
proof
  let ?cmp = "reversed (key (\<lambda>p. sm_version (ps_manifest p)) loc)"
  let ?xs = "filter (\<lambda>p. sameIdentity (ps_manifest p) m) (map snd packages)"
  assume "sameIdentity (ps_manifest q) m"
  then have "q \<in> set ?xs" using assms(2) by auto
  then have "q \<in> set (Sorting_Algorithms.sort ?cmp ?xs)" by simp
  then show False using assms(1) by (cases "Sorting_Algorithms.sort ?cmp ?xs") (auto simp: latest_def)
qed

lemma assertVersion_ok:
  assumes "assertVersionMatchesCompatibility (Some prev) next report = Inr ()"
  shows "versionLess prev next" "cr_classification report = Breaking \<Longrightarrow> majorOf prev < majorOf next"
    "cr_classification report = BackwardCompatible \<Longrightarrow> majorOf prev = majorOf next"
  using assms
  by (auto simp: assertVersionMatchesCompatibility_def versionLess_def majorOf_def split: sum.splits if_splits)

lemma ordered_linear:
  assumes "ordered ps" "p \<in> set ps" "q \<in> set ps" "p \<noteq> q" "sameIdentity (ps_manifest p) (ps_manifest q)"
  shows "versionLess (ps_manifest p) (ps_manifest q) \<or> versionLess (ps_manifest q) (ps_manifest p)"
  using assms
proof (induction ps)
  case (Cons x xs)
  then show ?case by (auto simp: ordered_def sameIdentity_def)
qed simp

text \<open>With a numeric collation the latest package has the greatest version.\<close>

lemma latest_greatest:
  assumes num: "numericCollation loc" and ord: "ordered (map snd packages)"
    and l: "latest loc m packages = Some p"
    and q: "q \<in> set (map snd packages)" "sameIdentity (ps_manifest q) m" "q \<noteq> p"
  shows "versionLess (ps_manifest q) (ps_manifest p)"
proof -
  have id: "sameIdentity (ps_manifest q) (ps_manifest p)"
    using latest_cases(2) [OF l] q(2) by (simp add: sameIdentity_def)
  have "\<not> versionLess (ps_manifest p) (ps_manifest q)"
  proof
    assume "versionLess (ps_manifest p) (ps_manifest q)"
    then have "compare loc (sm_version (ps_manifest p)) (sm_version (ps_manifest q)) = Less"
      using num by (auto simp: versionLess_def numericCollation_def split: sum.splits)
    with latest_cases(3) [OF l q(1,2)] show False by simp
  qed
  then show ?thesis
    using ordered_linear [OF ord q(1) latest_cases(1) [OF l] q(3) id] by blast
qed

lemma classify_outcome:
  assumes "classifyCompatibility previous m = Inr report"
  shows "case previous of None \<Rightarrow> cr_classification report = Initial \<and> cr_previousKey report = None
    | Some prev \<Rightarrow> cr_classification report \<in> {Breaking, BackwardCompatible} \<and> cr_previousKey report = Some (schemaKey prev)"
  using assms by (cases previous) (auto simp: classifyCompatibility_def Let_def split: if_splits)

lemma package_lookup:
  assumes "registryOk sha s" "p \<in> set (listPackages s)"
  shows "map_of (rg_packages s) (schemaKey (ps_manifest p)) = Some p"
proof -
  obtain k where k: "(k, p) \<in> set (rg_packages s)" using assms(2) by (auto simp: listPackages_def)
  then have "k = schemaKey (ps_manifest p)" using assms(1) by (auto simp: registryOk_def list_all_iff packageOk_def)
  then show ?thesis using k assms(1) by (auto simp: registryOk_def intro: map_of_is_SomeI)
qed

lemma compatRule_more: "compatRule packages p \<Longrightarrow> compatRule (packages @ extra) p"
  by (fastforce simp: compatRule_def map_add_Some_iff split: option.splits)

lemma new_version_greatest:
  assumes num: "numericCollation loc" and ok: "registryOk sha s"
    and ver: "assertVersionMatchesCompatibility (map_option ps_manifest (latest loc m (rg_packages s))) m report = Inr ()"
    and q: "q \<in> set (listPackages s)" "sameIdentity (ps_manifest q) m"
  shows "versionLess (ps_manifest q) m"
proof (cases "latest loc m (rg_packages s)")
  case None
  then show ?thesis using latest_None q by (auto simp: listPackages_def)
next
  case (Some p)
  have "versionLess (ps_manifest p) m" using ver Some assertVersion_ok(1) by simp
  moreover have "versionLess (ps_manifest q) (ps_manifest p)" if "q \<noteq> p"
    using latest_greatest [OF num _ Some _ q(2) that] ok q(1) by (simp add: registryOk_def listPackages_def)
  ultimately show ?thesis using versionLess_trans by metis
qed

lemma new_compatRule:
  assumes ok: "registryOk sha s"
    and cls: "classifyCompatibility (map_option ps_manifest (latest loc m (rg_packages s))) m = Inr report"
    and ver: "assertVersionMatchesCompatibility (map_option ps_manifest (latest loc m (rg_packages s))) m report = Inr ()"
    and p: "ps_compatibility p = Some report" "ps_manifest p = m"
  shows "compatRule (rg_packages s) p"
proof (cases "latest loc m (rg_packages s)")
  case None
  then show ?thesis using classify_outcome [OF cls] p by (simp add: compatRule_def)
next
  case (Some q)
  have "map_of (rg_packages s) (schemaKey (ps_manifest q)) = Some q"
    using package_lookup [OF ok] latest_cases(1) [OF Some] by (simp add: listPackages_def)
  moreover have "cr_classification report = Breaking \<longleftrightarrow> majorOf (ps_manifest q) < majorOf m"
    using classify_outcome [OF cls] assertVersion_ok(2,3) [OF ver [unfolded Some option.map]] Some by auto
  ultimately show ?thesis
    using classify_outcome [OF cls] Some p latest_cases(2) [OF Some] assertVersion_ok(1) [OF ver [unfolded Some option.map]]
    by (simp add: compatRule_def)
qed

lemma publish_keeps:
  assumes num: "numericCollation loc" and ok: "registryOk sha s" and run: "publishGoverned sha loc r at s = (x, t)"
  shows "registryOk sha t \<and> (\<forall>k p. getPackage k s = Some p \<longrightarrow> getPackage k t = Some p)"
  using run
proof (cases rule: publishGoverned_cases)
  case (published report)
  let ?m = "gr_manifest r" and ?p = "packageOf sha r at report"
  have parts: "ps_manifest ?p = ?m" "ps_compatibility ?p = Some report" "ps_key ?p = schemaKey ?m"
    "ps_digest ?p = schemaDigest sha (manifestJson ?m)"
    by (simp_all add: packageOf_def)
  have pk: "rg_packages t = rg_packages s @ [(schemaKey ?m, ?p)]" and ls: "listPackages t = listPackages s @ [?p]"
    and rq: "rg_requests t = rg_requests s @ [(requestKey r, schemaDigest sha (requestJson r), schemaKey ?m)]"
    using published by (simp_all add: listPackages_def)
  have keep: "getPackage k t = Some q" if "getPackage k s = Some q" for k q
    using that by (simp add: getPackage_def pk map_add_Some_iff)
  have "getPackage (schemaKey ?m) t = Some ?p"
    using published(5) by (simp add: getPackage_def pk map_add_def)
  moreover have "list_all (compatRule (rg_packages t)) (listPackages t)"
    using ok compatRule_more new_compatRule [OF ok published(2,3) parts(2,1)]
    unfolding pk ls registryOk_def by (auto simp: list_all_iff)
  moreover have "ordered (listPackages t)"
    using ok new_version_greatest [OF num ok published(3)]
    unfolding ls ordered_def registryOk_def by (auto simp: sorted_wrt_append parts)
  moreover have "distinct (map fst (rg_packages t))"
    using ok published(5) unfolding pk registryOk_def by (auto simp: map_of_eq_None_iff)
  moreover have "list_all (packageOk sha) (rg_packages t)"
    using ok published(4,6) parts unfolding pk registryOk_def by (simp add: packageOk_def)
  ultimately have "registryOk sha t"
    using ok keep unfolding registryOk_def rq by (fastforce simp: list_all_iff)
  then show ?thesis using keep by blast
qed (use ok in auto)

inductive registry_step :: "(bytes \<Rightarrow> string) \<Rightarrow> string comparator \<Rightarrow> schemaRegistry \<Rightarrow> schemaRegistry \<Rightarrow> bool"
  for sha loc where
  publish: "publishGoverned sha loc r at s = (x, t) \<Longrightarrow> registry_step sha loc s t"

inductive_cases registry_stepE: "registry_step sha loc s t"

text \<open>
  C25. A schema registry is append-only and its versions mean something: from the empty registry
  and after any sequence of governed publications, accepted or refused, every published package
  stays exactly as it was published, is filed under its own key with the digest of its manifest,
  refers only to resource types it declares, has a higher version than every package of its
  identity published before, and was classified breaking exactly when its major version grew
  over the package it was compared with. The collation is assumed to order versions as numbers.
\<close>

theorem schema_registry_append_only:
  assumes "numericCollation loc" and "(registry_step sha loc)\<^sup>*\<^sup>* emptyRegistry s" and "(registry_step sha loc)\<^sup>*\<^sup>* s t"
  shows "registryOk sha t \<and> (\<forall>k p. getPackage k s = Some p \<longrightarrow> getPackage k t = Some p)"
proof -
  have "registryOk sha emptyRegistry"
    by (simp add: registryOk_def emptyRegistry_def listPackages_def ordered_def)
  with assms(2) have "registryOk sha s"
    by (induction rule: rtranclp_induct) (auto elim!: registry_stepE dest: publish_keeps [OF assms(1)])
  from assms(3) this show ?thesis
  proof (induction rule: rtranclp_induct)
    case (step t u)
    from step.hyps(2) obtain r at x where "publishGoverned sha loc r at t = (x, u)" by (rule registry_stepE)
    with step show ?case using publish_keeps [OF assms(1)] by blast
  qed simp
qed

definition versionOrder :: "string comparator" where
  "versionOrder = key (\<lambda>s. case parseVersion s of Inr v \<Rightarrow> (major v, minor v, patch v) | Inl _ \<Rightarrow> (0, 0, 0)) default"

lemma versionOrder_numeric: "numericCollation versionOrder"
  by (auto simp: numericCollation_def versionOrder_def compareVersion_def less_prod_def split: if_splits)

definition noteRequest :: "schemaManifest \<Rightarrow> classification \<Rightarrow> governedRequest" where
  "noteRequest m c = \<lparr>gr_manifest = m, gr_protocolVersion = ''TCAP/1.0'', gr_namespace = ''app/notes'',
     gr_applicationVersion = ''1'', gr_packageKey = schemaKey m, gr_packageVersion = sm_version m,
     gr_resourceTypes = [''note''], gr_relationTypes = [], gr_additionalFields = Preserve, gr_approvedBy = ''u1'',
     gr_approvalId = ''a1'', gr_idempotencyKey = sm_version m, gr_expectedCompatibility = c\<rparr>"

lemma note_semver: "isSemver ''1.0.0''"
  by (simp add: isSemver_def versionParts_def takeDigits_def isDigit_def numericPart_def Let_def)

lemma note_published:
  "\<exists>p t. publishGoverned sha loc (noteRequest notesV1 Initial) at emptyRegistry = (Inr (Some p), t)
     \<and> getPackage (schemaKey notesV1) t = Some p"
proof -
  let ?r = "noteRequest notesV1 Initial"
  have "assertGovernedRequest ?r = Inr ()"
    by (simp add: assertGovernedRequest_def noteRequest_def notesV1_def noteSchema_def schemaKey_def assertSameMembers_def
        blank_def trim_def js_space_def)
  moreover have "latest loc notesV1 [] = None"
    by (cases "Sorting_Algorithms.sort (reversed (key (\<lambda>p. sm_version (ps_manifest p)) loc)) []")
      (simp_all add: latest_def)
  moreover have "assertManifestReferences notesV1 = Inr ()"
    by (simp add: assertManifestReferences_def notesV1_def noteSchema_def)
  moreover have "isSemver (sm_version notesV1)" "gr_manifest ?r = notesV1" "gr_expectedCompatibility ?r = Initial"
    using note_semver by (simp_all add: notesV1_def noteSchema_def noteRequest_def)
  ultimately show ?thesis
    by (simp add: publishGoverned_def publishPackage_def emptyRegistry_def getPackage_def classifyCompatibility_def
        assertVersionMatchesCompatibility_def js_simps Let_def)
qed

theorem schema_registry_append_only_witness:
  "\<exists>t p. (registry_step (\<lambda>_. sampleDigest) versionOrder)\<^sup>*\<^sup>* emptyRegistry t
     \<and> getPackage (schemaKey notesV1) t = Some p \<and> registryOk (\<lambda>_. sampleDigest) t"
proof -
  obtain p t where run: "publishGoverned (\<lambda>_. sampleDigest) versionOrder (noteRequest notesV1 Initial) [] emptyRegistry = (Inr (Some p), t)"
    and p: "getPackage (schemaKey notesV1) t = Some p"
    using note_published by blast
  then have "(registry_step (\<lambda>_. sampleDigest) versionOrder)\<^sup>*\<^sup>* emptyRegistry t"
    by (blast intro: registry_step.publish)
  with schema_registry_append_only [OF versionOrder_numeric this rtranclp.rtrancl_refl] p show ?thesis by blast
qed

text \<open>
  Publication is idempotent: repeating an accepted request, at whatever time, returns the
  same package and changes nothing, and another request under the same key is refused.
\<close>

theorem schema_publication_idempotent:
  assumes "publishGoverned sha loc r at s = (Inr p, t)"
  shows "publishGoverned sha loc r at' t = (Inr p, t)
    \<and> (requestKey r' = requestKey r \<and> assertGovernedRequest r' = Inr ()
         \<and> schemaDigest sha (requestJson r') \<noteq> schemaDigest sha (requestJson r)
       \<longrightarrow> publishGoverned sha loc r' at' t
         = (Inl (plainError ''Idempotency key was already used for a different schema publication.''), t))"
proof -
  have gov: "assertGovernedRequest r = Inr ()"
    using assms by (cases "assertGovernedRequest r") (auto simp: publishGoverned_def js_simps)
  have "\<exists>k. map_of (rg_requests t) (requestKey r) = Some (schemaDigest sha (requestJson r), k) \<and> p = getPackage k t"
    using assms
  proof (cases rule: publishGoverned_cases)
    case (published report)
    then show ?thesis by (simp add: getPackage_def map_add_def)
  qed auto
  then show ?thesis using gov by (auto simp: publishGoverned_def js_simps Let_def)
qed

theorem schema_publication_idempotent_witness:
  "\<exists>p t. publishGoverned (\<lambda>_. sampleDigest) versionOrder (noteRequest notesV1 Initial) [] emptyRegistry = (Inr (Some p), t)
     \<and> publishGoverned (\<lambda>_. sampleDigest) versionOrder (noteRequest notesV1 Initial) ''later'' t = (Inr (Some p), t)"
proof -
  obtain p t where run: "publishGoverned (\<lambda>_. sampleDigest) versionOrder (noteRequest notesV1 Initial) [] emptyRegistry = (Inr (Some p), t)"
    using note_published by blast
  with schema_publication_idempotent [OF run] show ?thesis by blast
qed

end
