(* ===== verification/Outbox.thy ===== *)
theory Outbox
  imports Database "HOL-Library.Product_Lexorder"
begin

text \<open>
  \<open>packages/reconciliation/src/worker.ts\<close> and \<open>packages/persistence-postgres/src/outbox-store.ts\<close>:
  the outbox with leases and the worker that drains it. The locale \<open>outbox_store\<close> states what a
  worker may rely on; the Postgres statements interpret it. Times are milliseconds, which the
  sources pass as ISO strings to \<open>timestamptz\<close> columns; the text of an error is kept.

  The worker is modelled with its default concurrency of one; what several workers do to the
  table, in any interleaving, is a sequence of actions (\<open>act\<close>).
\<close>

section \<open>Events\<close>

type_synonym payload = "(string \<times> json) list"

record outboxEvent =
  oe_id :: string
  oe_workspaceId :: string
  oe_operationId :: string
  oe_eventType :: string
  oe_payload :: payload
  oe_availableAt :: int
  oe_attemptCount :: nat

record outboxEntry = outboxEvent +
  oe_lockedBy :: "string option"
  oe_lockedUntil :: "int option"
  oe_processedAt :: "int option"
  oe_quarantinedAt :: "int option"
  oe_quarantineReason :: "string option"
  oe_lastError :: "string option"

record incident =
  inc_workspaceId :: string
  inc_operationId :: string
  inc_critical :: bool
  inc_code :: string
  inc_message :: string
  inc_metadata :: payload

record outboxTables =
  ox_events :: "outboxEntry list"
  ox_incidents :: "incident list"

record 's outboxStore =
  st_claim :: "string \<Rightarrow> string option \<Rightarrow> nat \<Rightarrow> int \<Rightarrow> int \<Rightarrow> ('s, outboxEvent list) js"
  st_complete :: "string \<Rightarrow> string \<Rightarrow> string \<Rightarrow> int \<Rightarrow> ('s, unit) js"
  st_retry :: "string \<Rightarrow> string \<Rightarrow> string \<Rightarrow> nat \<Rightarrow> int \<Rightarrow> int \<Rightarrow> string \<Rightarrow> ('s, unit) js"
  st_quarantine :: "string \<Rightarrow> string \<Rightarrow> string \<Rightarrow> nat \<Rightarrow> int \<Rightarrow> string \<Rightarrow> ('s, unit) js"

section \<open>The statements\<close>

definition claimable :: "string option \<Rightarrow> int \<Rightarrow> outboxEntry \<Rightarrow> bool" where
  "claimable workspaceId at e \<longleftrightarrow> (case workspaceId of None \<Rightarrow> True | Some w \<Rightarrow> oe_workspaceId e = w)
     \<and> oe_processedAt e = None \<and> oe_quarantinedAt e = None \<and> oe_availableAt e \<le> at
     \<and> (case oe_lockedUntil e of None \<Rightarrow> True | Some u \<Rightarrow> u < at)"

definition candidates :: "string option \<Rightarrow> int \<Rightarrow> nat \<Rightarrow> outboxEntry list \<Rightarrow> outboxEntry list" where
  "candidates workspaceId at limit rows =
     take limit (sort_key (\<lambda>e. (oe_availableAt e, oe_id e)) (filter (claimable workspaceId at) rows))"

definition lease :: "string \<Rightarrow> int \<Rightarrow> outboxEntry \<Rightarrow> outboxEntry" where
  "lease worker leaseUntil e = e\<lparr>oe_lockedBy := Some worker, oe_lockedUntil := Some leaseUntil\<rparr>"

text \<open>An empty \<open>workspaceId\<close> counts as none.\<close>

definition pgClaim :: "string \<Rightarrow> string option \<Rightarrow> nat \<Rightarrow> int \<Rightarrow> int \<Rightarrow> (outboxTables, outboxEvent list) js" where
  "pgClaim worker workspaceId limit leaseUntil at =
     (let scope = (case workspaceId of None \<Rightarrow> None | Some w \<Rightarrow> if w = [] then None else Some w) in
      andThen (reading (\<lambda>t. candidates scope at limit (ox_events t))) (\<lambda>cs.
      andThen (updating (\<lambda>t. t\<lparr>ox_events := map (\<lambda>e. if oe_id e \<in> set (map oe_id cs) then lease worker leaseUntil e else e)
          (ox_events t)\<rparr>)) (\<lambda>_.
      ret (map (\<lambda>e. outboxEvent.truncate (lease worker leaseUntil e)) cs))))"

text \<open>The rows that a settling statement of a worker changes: its own live lease in the workspace.\<close>

definition heldBy :: "string \<Rightarrow> string \<Rightarrow> string \<Rightarrow> int \<Rightarrow> outboxEntry \<Rightarrow> bool" where
  "heldBy workspaceId eventId worker at e \<longleftrightarrow> oe_workspaceId e = workspaceId \<and> oe_id e = eventId
     \<and> oe_lockedBy e = Some worker \<and> oe_processedAt e = None
     \<and> (case oe_lockedUntil e of None \<Rightarrow> False | Some u \<Rightarrow> at \<le> u)"

definition leaseLost :: js_error where
  "leaseLost = plainError ''Outbox lease was lost or event was already handled.''"

definition settle ::
  "string \<Rightarrow> string \<Rightarrow> string \<Rightarrow> int \<Rightarrow> (outboxEntry \<Rightarrow> outboxEntry) \<Rightarrow> (outboxTables, outboxEntry) js" where
  "settle workspaceId eventId worker at change =
     andThen (reading (\<lambda>t. filter (heldBy workspaceId eventId worker at) (ox_events t))) (\<lambda>rows.
       case rows of
         [] \<Rightarrow> throw leaseLost
       | row # _ \<Rightarrow>
           andThen (updating (\<lambda>t. t\<lparr>ox_events :=
               map (\<lambda>e. if heldBy workspaceId eventId worker at e then change e else e) (ox_events t)\<rparr>))
             (\<lambda>_. ret row))"

definition released :: "outboxEntry \<Rightarrow> outboxEntry" where
  "released e = e\<lparr>oe_lockedBy := None, oe_lockedUntil := None\<rparr>"

definition pgOutboxComplete :: "string \<Rightarrow> string \<Rightarrow> string \<Rightarrow> int \<Rightarrow> (outboxTables, unit) js" where
  "pgOutboxComplete workspaceId eventId worker processedAt =
     andThen (settle workspaceId eventId worker processedAt
         (\<lambda>e. (released e)\<lparr>oe_processedAt := Some processedAt, oe_lastError := None\<rparr>))
       (\<lambda>_. ret ())"

definition pgOutboxRetry :: "string \<Rightarrow> string \<Rightarrow> string \<Rightarrow> nat \<Rightarrow> int \<Rightarrow> int \<Rightarrow> string \<Rightarrow> (outboxTables, unit) js" where
  "pgOutboxRetry workspaceId eventId worker attempt availableAt failedAt message =
     andThen (settle workspaceId eventId worker failedAt
         (\<lambda>e. (released e)\<lparr>oe_attemptCount := attempt, oe_availableAt := availableAt, oe_lastError := Some message\<rparr>))
       (\<lambda>_. ret ())"

definition quarantineIncident :: "string \<Rightarrow> string \<Rightarrow> nat \<Rightarrow> string \<Rightarrow> outboxEntry \<Rightarrow> incident" where
  "quarantineIncident workspaceId eventId attempt reason row =
     \<lparr>inc_workspaceId = workspaceId, inc_operationId = oe_operationId row, inc_critical = True,
      inc_code = ''OUTBOX_EVENT_QUARANTINED'', inc_message = reason,
      inc_metadata = [(''eventId'', JStr eventId), (''eventType'', JStr (oe_eventType row)),
        (''attemptCount'', JNum (int attempt))]\<rparr>"

definition pgOutboxQuarantine :: "string \<Rightarrow> string \<Rightarrow> string \<Rightarrow> nat \<Rightarrow> int \<Rightarrow> string \<Rightarrow> (outboxTables, unit) js" where
  "pgOutboxQuarantine workspaceId eventId worker attempt quarantinedAt reason =
     andThen (settle workspaceId eventId worker quarantinedAt
         (\<lambda>e. (released e)\<lparr>oe_attemptCount := attempt, oe_quarantinedAt := Some quarantinedAt,
            oe_quarantineReason := Some reason, oe_lastError := Some reason\<rparr>))
       (\<lambda>row. updating (\<lambda>t. t\<lparr>ox_incidents := ox_incidents t @ [quarantineIncident workspaceId eventId attempt reason row]\<rparr>))"

definition postgresOutbox :: "outboxTables outboxStore" where
  "postgresOutbox = \<lparr>st_claim = pgClaim, st_complete = pgOutboxComplete, st_retry = pgOutboxRetry,
     st_quarantine = pgOutboxQuarantine\<rparr>"

section \<open>The worker\<close>

record workerConfig =
  wc_workerId :: string
  wc_workspaceId :: "string option"
  wc_maxAttempts :: nat
  wc_baseDelayMs :: int
  wc_leaseMs :: int
  wc_batchSize :: nat

definition defaultConfig :: "string \<Rightarrow> workerConfig" where
  "defaultConfig worker = \<lparr>wc_workerId = worker, wc_workspaceId = None, wc_maxAttempts = 5, wc_baseDelayMs = 1000,
     wc_leaseMs = 30000, wc_batchSize = 25\<rparr>"

record workerRun =
  wr_claimed :: nat
  wr_completed :: nat
  wr_retried :: nat
  wr_quarantined :: nat

text \<open>
  The state of a run: the store, the world the handlers act on, and the clock, a function of the
  number of readings so far.
\<close>

record ('s, 'w) workerState =
  ws_store :: 's
  ws_world :: 'w
  ws_clock :: "nat \<Rightarrow> int"
  ws_ticks :: nat

type_synonym ('w) handler = "outboxEvent \<Rightarrow> ('w, unit) js"

definition onOutbox :: "('s, 'a) js \<Rightarrow> (('s, 'w) workerState, 'a) js" where
  "onOutbox = within ws_store (\<lambda>x s. s\<lparr>ws_store := x\<rparr>)"

definition onWorld :: "('w, 'a) js \<Rightarrow> (('s, 'w) workerState, 'a) js" where
  "onWorld = within ws_world (\<lambda>x s. s\<lparr>ws_world := x\<rparr>)"

definition workerNow :: "(('s, 'w) workerState, int) js" where
  "workerNow = (\<lambda>s. (Inr (ws_clock s (ws_ticks s)), s\<lparr>ws_ticks := ws_ticks s + 1\<rparr>))"

definition retryDelay :: "workerConfig \<Rightarrow> nat \<Rightarrow> int" where
  "retryDelay cfg attempt = wc_baseDelayMs cfg * 2 ^ (attempt - 1)"

datatype settled = SettledCompleted | SettledRetried | SettledQuarantined

text \<open>The catch block.\<close>

definition eventFailed ::
  "'s outboxStore \<Rightarrow> workerConfig \<Rightarrow> outboxEvent \<Rightarrow> js_error \<Rightarrow> (('s, 'w) workerState, settled) js" where
  "eventFailed store cfg event e =
     (let attempt = oe_attemptCount event + 1 in
      andThen workerNow (\<lambda>failedAt.
        if attempt \<ge> wc_maxAttempts cfg
        then andThen (onOutbox (st_quarantine store (oe_workspaceId event) (oe_id event) (wc_workerId cfg) attempt
            failedAt (err_message e))) (\<lambda>_. ret SettledQuarantined)
        else
          andThen workerNow (\<lambda>at.
          andThen (onOutbox (st_retry store (oe_workspaceId event) (oe_id event) (wc_workerId cfg) attempt
              (at + retryDelay cfg attempt) failedAt (err_message e))) (\<lambda>_.
          ret SettledRetried))))"

definition processEvent ::
  "'s outboxStore \<Rightarrow> (string \<Rightarrow> 'w handler option) \<Rightarrow> workerConfig \<Rightarrow> outboxEvent
     \<Rightarrow> (('s, 'w) workerState, settled) js" where
  "processEvent store handlers cfg event =
     catching
       (case handlers (oe_eventType event) of
          None \<Rightarrow> throw (plainError (''No reconciliation handler for '' @ oe_eventType event))
        | Some h \<Rightarrow>
            andThen (onWorld (h event)) (\<lambda>_.
            andThen workerNow (\<lambda>at.
            andThen (onOutbox (st_complete store (oe_workspaceId event) (oe_id event) (wc_workerId cfg) at)) (\<lambda>_.
            ret SettledCompleted))))
       (eventFailed store cfg event)"

definition tally :: "settled \<Rightarrow> workerRun \<Rightarrow> workerRun" where
  "tally x run = (case x of
     SettledCompleted \<Rightarrow> run\<lparr>wr_completed := wr_completed run + 1\<rparr>
   | SettledRetried \<Rightarrow> run\<lparr>wr_retried := wr_retried run + 1\<rparr>
   | SettledQuarantined \<Rightarrow> run\<lparr>wr_quarantined := wr_quarantined run + 1\<rparr>)"

primrec consume ::
  "'s outboxStore \<Rightarrow> (string \<Rightarrow> 'w handler option) \<Rightarrow> workerConfig \<Rightarrow> outboxEvent list \<Rightarrow> workerRun
     \<Rightarrow> (('s, 'w) workerState, workerRun) js" where
  "consume store handlers cfg [] run = ret run"
| "consume store handlers cfg (event # events) run =
     andThen (processEvent store handlers cfg event) (\<lambda>x. consume store handlers cfg events (tally x run))"

definition runOnce ::
  "'s outboxStore \<Rightarrow> (string \<Rightarrow> 'w handler option) \<Rightarrow> workerConfig \<Rightarrow> (('s, 'w) workerState, workerRun) js" where
  "runOnce store handlers cfg =
     andThen workerNow (\<lambda>timestamp.
     andThen (onOutbox (st_claim store (wc_workerId cfg) (wc_workspaceId cfg) (wc_batchSize cfg)
         (timestamp + wc_leaseMs cfg) timestamp)) (\<lambda>events.
       consume store handlers cfg events
         \<lparr>wr_claimed = length events, wr_completed = 0, wr_retried = 0, wr_quarantined = 0\<rparr>))"

section \<open>The contract of an outbox store\<close>

definition completedAt :: "int \<Rightarrow> outboxEntry \<Rightarrow> outboxEntry" where
  "completedAt at e = (released e)\<lparr>oe_processedAt := Some at, oe_lastError := None\<rparr>"

definition retriedAs :: "nat \<Rightarrow> int \<Rightarrow> string \<Rightarrow> outboxEntry \<Rightarrow> outboxEntry" where
  "retriedAs attempt at message e =
     (released e)\<lparr>oe_attemptCount := attempt, oe_availableAt := at, oe_lastError := Some message\<rparr>"

definition quarantinedAs :: "nat \<Rightarrow> int \<Rightarrow> string \<Rightarrow> outboxEntry \<Rightarrow> outboxEntry" where
  "quarantinedAs attempt at reason e = (released e)\<lparr>oe_attemptCount := attempt, oe_quarantinedAt := Some at,
     oe_quarantineReason := Some reason, oe_lastError := Some reason\<rparr>"

text \<open>A settling statement changes the one entry that the worker holds and nothing else.\<close>

definition settles ::
  "(string \<rightharpoonup> outboxEntry) \<Rightarrow> (string \<rightharpoonup> outboxEntry) \<Rightarrow> string \<Rightarrow> string \<Rightarrow> string \<Rightarrow> int \<Rightarrow> (outboxEntry \<Rightarrow> outboxEntry) \<Rightarrow> bool" where
  "settles m m' w i worker at change \<longleftrightarrow> (\<exists>e. m i = Some e \<and> heldBy w i worker at e \<and> m' = m(i \<mapsto> change e))"

text \<open>How a processed event ends: completed, quarantined at the limit, or released for a later attempt.\<close>

definition outcome :: "workerConfig \<Rightarrow> outboxEvent \<Rightarrow> settled \<Rightarrow> outboxEntry \<Rightarrow> bool" where
  "outcome cfg ev x e \<longleftrightarrow> oe_lockedBy e = None \<and> oe_lockedUntil e = None \<and> (case x of
     SettledCompleted \<Rightarrow> oe_processedAt e \<noteq> None \<and> oe_attemptCount e = oe_attemptCount ev
   | SettledRetried \<Rightarrow> oe_processedAt e = None \<and> oe_attemptCount e = Suc (oe_attemptCount ev)
       \<and> Suc (oe_attemptCount ev) < wc_maxAttempts cfg
   | SettledQuarantined \<Rightarrow> oe_quarantinedAt e \<noteq> None \<and> oe_attemptCount e = Suc (oe_attemptCount ev)
       \<and> wc_maxAttempts cfg \<le> Suc (oe_attemptCount ev))"

definition sameExcept :: "string \<Rightarrow> (string \<rightharpoonup> outboxEntry) \<Rightarrow> (string \<rightharpoonup> outboxEntry) \<Rightarrow> bool" where
  "sameExcept i m m' \<longleftrightarrow> (\<forall>j. j \<noteq> i \<longrightarrow> m' j = m j)"

definition settledTotal :: "workerRun \<Rightarrow> nat" where
  "settledTotal run = wr_completed run + wr_retried run + wr_quarantined run"

lemma tally_total: "settledTotal (tally x run) = Suc (settledTotal run)" "wr_claimed (tally x run) = wr_claimed run"
  by (cases x; simp add: tally_def settledTotal_def)+

locale outbox_store =
  fixes store :: "'s outboxStore" and entry :: "'s \<Rightarrow> string \<rightharpoonup> outboxEntry" and wf :: "'s \<Rightarrow> bool"
  assumes claim_ok: "wf s \<Longrightarrow> st_claim store worker ws limit until at s = (Inr es, t) \<Longrightarrow>
      wf t \<and> distinct (map oe_id es)
      \<and> (\<forall>i. entry t i = (if i \<in> set (map oe_id es) then map_option (lease worker until) (entry s i) else entry s i))
      \<and> (\<forall>ev \<in> set es. \<exists>e. entry s (oe_id ev) = Some e \<and> ev = outboxEvent.truncate e \<and> claimable None at e)"
    and claim_err: "wf s \<Longrightarrow> st_claim store worker ws limit until at s = (Inl e, t) \<Longrightarrow> wf t \<and> entry t = entry s"
    and complete_ok: "wf s \<Longrightarrow> st_complete store w i worker at s = (Inr u, t) \<Longrightarrow>
      wf t \<and> settles (entry s) (entry t) w i worker at (completedAt at)"
    and complete_err: "wf s \<Longrightarrow> st_complete store w i worker at s = (Inl e, t) \<Longrightarrow> wf t \<and> entry t = entry s"
    and retry_ok: "wf s \<Longrightarrow> st_retry store w i worker n av at msg s = (Inr u, t) \<Longrightarrow>
      wf t \<and> settles (entry s) (entry t) w i worker at (retriedAs n av msg)"
    and retry_err: "wf s \<Longrightarrow> st_retry store w i worker n av at msg s = (Inl e, t) \<Longrightarrow> wf t \<and> entry t = entry s"
    and quarantine_ok: "wf s \<Longrightarrow> st_quarantine store w i worker n at msg s = (Inr u, t) \<Longrightarrow>
      wf t \<and> settles (entry s) (entry t) w i worker at (quarantinedAs n at msg)"
    and quarantine_err: "wf s \<Longrightarrow> st_quarantine store w i worker n at msg s = (Inl e, t) \<Longrightarrow> wf t \<and> entry t = entry s"
    and complete_live: "wf s \<Longrightarrow> entry s i = Some row \<Longrightarrow> heldBy w i worker at row \<Longrightarrow>
      isOk (fst (st_complete store w i worker at s))"
    and retry_live: "wf s \<Longrightarrow> entry s i = Some row \<Longrightarrow> heldBy w i worker at row \<Longrightarrow>
      isOk (fst (st_retry store w i worker n av at msg s))"
    and quarantine_live: "wf s \<Longrightarrow> entry s i = Some row \<Longrightarrow> heldBy w i worker at row \<Longrightarrow>
      isOk (fst (st_quarantine store w i worker n at msg s))"
    and claim_live: "wf s \<Longrightarrow> isOk (fst (st_claim store worker ws limit until at s))"
begin

text \<open>The catch block, from any state whose entry for the event carries the attempts of the event.\<close>

lemma failed_event:
  assumes wf: "wf (ws_store s)" and e: "entry (ws_store s) (oe_id ev) = Some e" "oe_attemptCount e = oe_attemptCount ev"
    and run: "eventFailed store cfg ev err s = (r, t)"
  shows "wf (ws_store t) \<and> (case r of Inl _ \<Rightarrow> entry (ws_store t) = entry (ws_store s)
    | Inr x \<Rightarrow> sameExcept (oe_id ev) (entry (ws_store s)) (entry (ws_store t))
        \<and> (\<exists>e'. entry (ws_store t) (oe_id ev) = Some e' \<and> outcome cfg ev x e'))"
proof (cases "oe_attemptCount ev + 1 \<ge> wc_maxAttempts cfg")
  case True
  let ?at = "ws_clock s (ws_ticks s)"
  obtain r1 q where q: "st_quarantine store (oe_workspaceId ev) (oe_id ev) (wc_workerId cfg) (oe_attemptCount ev + 1) ?at
      (err_message err) (ws_store s) = (r1, q)" by fastforce
  have t: "ws_store t = q" "r = (case r1 of Inl x \<Rightarrow> Inl x | Inr _ \<Rightarrow> Inr SettledQuarantined)"
    using run True q by (cases r1; auto simp: eventFailed_def workerNow_def onOutbox_def js_simps Let_def)+
  show ?thesis
  proof (cases r1)
    case (Inl x)
    then show ?thesis using quarantine_err [OF wf q [unfolded Inl]] t by simp
  next
    case (Inr u)
    then show ?thesis using quarantine_ok [OF wf q [unfolded Inr]] t e True
      by (auto simp: settles_def sameExcept_def outcome_def quarantinedAs_def released_def)
  qed
next
  case False
  let ?at = "ws_clock s (ws_ticks s)" and ?av = "ws_clock s (ws_ticks s + 1) + retryDelay cfg (oe_attemptCount ev + 1)"
  obtain r1 q where q: "st_retry store (oe_workspaceId ev) (oe_id ev) (wc_workerId cfg) (oe_attemptCount ev + 1) ?av ?at
      (err_message err) (ws_store s) = (r1, q)" by fastforce
  have t: "ws_store t = q" "r = (case r1 of Inl x \<Rightarrow> Inl x | Inr _ \<Rightarrow> Inr SettledRetried)"
    using run False q by (cases r1; auto simp: eventFailed_def workerNow_def onOutbox_def js_simps Let_def)+
  show ?thesis
  proof (cases r1)
    case (Inl x)
    then show ?thesis using retry_err [OF wf q [unfolded Inl]] t by simp
  next
    case (Inr u)
    then show ?thesis using retry_ok [OF wf q [unfolded Inr]] t e False
      by (auto simp: settles_def sameExcept_def outcome_def retriedAs_def released_def heldBy_def)
  qed
qed

end

context outbox_store
begin

lemma process_event:
  assumes wf: "wf (ws_store s)" and e: "entry (ws_store s) (oe_id ev) = Some e" "oe_attemptCount e = oe_attemptCount ev"
    and run: "processEvent store handlers cfg ev s = (r, t)"
  shows "wf (ws_store t) \<and> (case r of Inl _ \<Rightarrow> entry (ws_store t) = entry (ws_store s)
    | Inr x \<Rightarrow> sameExcept (oe_id ev) (entry (ws_store s)) (entry (ws_store t))
        \<and> (\<exists>e'. entry (ws_store t) (oe_id ev) = Some e' \<and> outcome cfg ev x e'))"
proof (cases "handlers (oe_eventType ev)")
  case None
  show ?thesis
    by (rule failed_event [OF wf e]) (use run None in \<open>simp add: processEvent_def catching_run throw_run\<close>)
next
  case (Some h)
  obtain r1 w where h: "h ev (ws_world s) = (r1, w)" by fastforce
  show ?thesis
  proof (cases r1)
    case (Inl x)
    have "wf (ws_store (s\<lparr>ws_world := w\<rparr>))" "entry (ws_store (s\<lparr>ws_world := w\<rparr>)) (oe_id ev) = Some e"
      using wf e by simp_all
    moreover have "eventFailed store cfg ev x (s\<lparr>ws_world := w\<rparr>) = (r, t)"
      using run Some h Inl by (simp add: processEvent_def catching_run andThen_run onWorld_def within_run)
    ultimately show ?thesis using failed_event [OF _ _ e(2), of "s\<lparr>ws_world := w\<rparr>" cfg x r t] by (cases r) simp_all
  next
    case (Inr u)
    let ?at = "ws_clock s (ws_ticks s)"
    let ?s1 = "s\<lparr>ws_world := w, ws_ticks := ws_ticks s + 1\<rparr>"
    obtain r2 q where q: "st_complete store (oe_workspaceId ev) (oe_id ev) (wc_workerId cfg) ?at (ws_store s) = (r2, q)"
      by fastforce
    show ?thesis
    proof (cases r2)
      case err: (Inl x)
      let ?s2 = "?s1\<lparr>ws_store := q\<rparr>"
      have same: "wf q" "entry q = entry (ws_store s)" using complete_err [OF wf q [unfolded err]] by simp_all
      then have "wf (ws_store ?s2)" "entry (ws_store ?s2) (oe_id ev) = Some e" using e by simp_all
      moreover have "eventFailed store cfg ev x ?s2 = (r, t)"
        using run Some h Inr q err
        by (simp add: processEvent_def catching_run andThen_run onWorld_def onOutbox_def within_run workerNow_def)
      ultimately show ?thesis using failed_event [OF _ _ e(2), of ?s2 cfg x r t] same by (cases r) simp_all
    next
      case ok: (Inr v)
      then have "r = Inr SettledCompleted" "ws_store t = q"
        using run Some h Inr q by (auto simp: processEvent_def onWorld_def onOutbox_def workerNow_def js_simps)
      then show ?thesis using complete_ok [OF wf q [unfolded ok]] e
        by (auto simp: settles_def sameExcept_def outcome_def completedAt_def released_def)
    qed
  qed
qed

text \<open>What a batch leaves behind, whether it returns or throws.\<close>

lemma consume_spec:
  assumes "wf (ws_store s)" and "distinct (map oe_id es)"
    and "\<And>ev. ev \<in> set es \<Longrightarrow> \<exists>e. entry (ws_store s) (oe_id ev) = Some e \<and> oe_attemptCount e = oe_attemptCount ev"
    and "consume store handlers cfg es run s = (r, t)"
  shows "wf (ws_store t)
    \<and> (\<forall>i. i \<notin> set (map oe_id es) \<longrightarrow> entry (ws_store t) i = entry (ws_store s) i)
    \<and> (\<forall>ev \<in> set es. entry (ws_store t) (oe_id ev) = entry (ws_store s) (oe_id ev)
         \<or> (\<exists>x e. entry (ws_store t) (oe_id ev) = Some e \<and> outcome cfg ev x e))
    \<and> (\<forall>run'. r = Inr run' \<longrightarrow> settledTotal run' = settledTotal run + length es \<and> wr_claimed run' = wr_claimed run
         \<and> (\<forall>ev \<in> set es. \<exists>x e. entry (ws_store t) (oe_id ev) = Some e \<and> outcome cfg ev x e))"
  using assms
proof (induction es arbitrary: s run)
  case Nil
  then show ?case by (auto simp: js_simps)
next
  case (Cons ev es)
  obtain e where e: "entry (ws_store s) (oe_id ev) = Some e" "oe_attemptCount e = oe_attemptCount ev"
    using Cons.prems(3) by fastforce
  obtain r1 u where p: "processEvent store handlers cfg ev s = (r1, u)" by fastforce
  note P = process_event [OF Cons.prems(1) e p]
  show ?case
  proof (cases r1)
    case (Inl x)
    then have "r = Inl x" "t = u" using Cons.prems(4) p by (simp_all add: js_simps)
    with P Inl show ?thesis by simp
  next
    case (Inr x)
    then have rest: "consume store handlers cfg es (tally x run) u = (r, t)" using Cons.prems(4) p by (simp add: js_simps)
    have other: "entry (ws_store u) j = entry (ws_store s) j" if "j \<noteq> oe_id ev" for j
      using P Inr that by (simp add: sameExcept_def)
    have ne: "oe_id ev' \<noteq> oe_id ev" if "ev' \<in> set es" for ev'
      using Cons.prems(2) that by (metis distinct.simps(2) image_eqI list.simps(9) set_map)
    have "\<exists>e. entry (ws_store u) (oe_id ev') = Some e \<and> oe_attemptCount e = oe_attemptCount ev'" if "ev' \<in> set es" for ev'
      using Cons.prems(3) [of ev'] other [OF ne [OF that]] that by simp
    note IH = Cons.IH [OF _ _ this rest]
    have wf: "wf (ws_store u)" and out: "\<exists>e'. entry (ws_store u) (oe_id ev) = Some e' \<and> outcome cfg ev x e'"
      using P Inr by simp_all
    have dist: "distinct (map oe_id es)" "oe_id ev \<notin> set (map oe_id es)" using Cons.prems(2) by simp_all
    have hd: "entry (ws_store t) (oe_id ev) = entry (ws_store u) (oe_id ev)" using IH [OF wf dist(1)] dist(2) by blast
    from IH [OF wf dist(1)] have wf': "wf (ws_store t)"
      and frame: "\<And>i. i \<notin> set (map oe_id es) \<Longrightarrow> entry (ws_store t) i = entry (ws_store u) i"
      and each: "\<And>ev'. ev' \<in> set es \<Longrightarrow> entry (ws_store t) (oe_id ev') = entry (ws_store u) (oe_id ev')
         \<or> (\<exists>x e. entry (ws_store t) (oe_id ev') = Some e \<and> outcome cfg ev' x e)"
      and fin: "\<And>run'. r = Inr run' \<Longrightarrow> settledTotal run' = settledTotal (tally x run) + length es
         \<and> wr_claimed run' = wr_claimed (tally x run)
         \<and> (\<forall>ev' \<in> set es. \<exists>x e. entry (ws_store t) (oe_id ev') = Some e \<and> outcome cfg ev' x e)"
      by blast+
    have first: "\<exists>x e. entry (ws_store t) (oe_id ev) = Some e \<and> outcome cfg ev x e" using hd out by auto
    show ?thesis
    proof (intro conjI allI ballI impI)
      show "wf (ws_store t)" by (rule wf')
    next
      fix i assume "i \<notin> set (map oe_id (ev # es))"
      then show "entry (ws_store t) i = entry (ws_store s) i" using frame [of i] other [of i] by simp
    next
      fix ev' assume "ev' \<in> set (ev # es)"
      then show "entry (ws_store t) (oe_id ev') = entry (ws_store s) (oe_id ev')
         \<or> (\<exists>x e. entry (ws_store t) (oe_id ev') = Some e \<and> outcome cfg ev' x e)"
        using first each [of ev'] other [OF ne, of ev'] by (cases "ev' = ev") simp_all
    next
      fix run' assume "r = Inr run'"
      note D = fin [OF this]
      show "settledTotal run' = settledTotal run + length (ev # es)" "wr_claimed run' = wr_claimed run"
        using D tally_total by simp_all
      fix ev' assume "ev' \<in> set (ev # es)"
      then show "\<exists>x e. entry (ws_store t) (oe_id ev') = Some e \<and> outcome cfg ev' x e"
        using D first by (cases "ev' = ev") simp_all
    qed
  qed
qed

text \<open>
  One run of the worker: everything it claimed was claimable, and when the run returns, every
  claimed event is settled and the counters add up. When it throws, an event it claimed is
  settled or still leased until its lease ends.
\<close>

lemma runOnce_spec:
  assumes wf: "wf (ws_store s)" and run: "runOnce store handlers cfg s = (r, t)"
  shows "wf (ws_store t) \<and> (\<exists>evs.
     (\<forall>i. i \<notin> set (map oe_id evs) \<longrightarrow> entry (ws_store t) i = entry (ws_store s) i)
     \<and> (\<forall>ev \<in> set evs. \<exists>e. entry (ws_store s) (oe_id ev) = Some e \<and> ev = outboxEvent.truncate e
          \<and> claimable None (ws_clock s (ws_ticks s)) e
          \<and> (entry (ws_store t) (oe_id ev) = Some (lease (wc_workerId cfg) (ws_clock s (ws_ticks s) + wc_leaseMs cfg) e)
             \<or> (\<exists>x e'. entry (ws_store t) (oe_id ev) = Some e' \<and> outcome cfg ev x e')))
     \<and> (\<forall>run'. r = Inr run' \<longrightarrow> wr_claimed run' = length evs \<and> settledTotal run' = length evs
          \<and> (\<forall>ev \<in> set evs. \<exists>x e'. entry (ws_store t) (oe_id ev) = Some e' \<and> outcome cfg ev x e')))"
proof -
  let ?at = "ws_clock s (ws_ticks s)" and ?s1 = "s\<lparr>ws_ticks := ws_ticks s + 1\<rparr>"
  obtain r1 q where c: "st_claim store (wc_workerId cfg) (wc_workspaceId cfg) (wc_batchSize cfg) (?at + wc_leaseMs cfg) ?at
      (ws_store s) = (r1, q)" by fastforce
  show ?thesis
  proof (cases r1)
    case (Inl x)
    then have "r = Inl x" "ws_store t = q"
      using run c by (auto simp: runOnce_def workerNow_def onOutbox_def js_simps)
    with claim_err [OF wf c [unfolded Inl]] show ?thesis by (intro conjI exI [of _ "[]"]) auto
  next
    case (Inr es)
    note C = claim_ok [OF wf c [unfolded Inr]]
    let ?run0 = "\<lparr>wr_claimed = length es, wr_completed = 0, wr_retried = 0, wr_quarantined = 0\<rparr>"
    have rest: "consume store handlers cfg es ?run0 (?s1\<lparr>ws_store := q\<rparr>) = (r, t)"
      using run c Inr by (simp add: runOnce_def workerNow_def onOutbox_def js_simps)
    note taken = C [THEN conjunct2, THEN conjunct2, THEN conjunct2]
    from C have claimed: "entry q i = (if i \<in> set (map oe_id es)
        then map_option (lease (wc_workerId cfg) (?at + wc_leaseMs cfg)) (entry (ws_store s) i) else entry (ws_store s) i)" for i
      by blast
    have leased: "entry q (oe_id ev) = Some (lease (wc_workerId cfg) (?at + wc_leaseMs cfg) e)"
      if "ev \<in> set es" "entry (ws_store s) (oe_id ev) = Some e" for ev e
      using claimed [of "oe_id ev"] that by simp
    have "\<exists>e. entry (ws_store (?s1\<lparr>ws_store := q\<rparr>)) (oe_id ev) = Some e \<and> oe_attemptCount e = oe_attemptCount ev"
      if ev: "ev \<in> set es" for ev
    proof -
      obtain e where "entry (ws_store s) (oe_id ev) = Some e" "ev = outboxEvent.truncate e"
        using bspec [OF taken ev] by blast
      moreover from leased [OF ev this(1)]
      have "entry (ws_store (?s1\<lparr>ws_store := q\<rparr>)) (oe_id ev) = Some (lease (wc_workerId cfg) (?at + wc_leaseMs cfg) e)" by simp
      moreover have "oe_attemptCount (lease (wc_workerId cfg) (?at + wc_leaseMs cfg) e) = oe_attemptCount (outboxEvent.truncate e)"
        by (simp add: lease_def outboxEvent.truncate_def)
      ultimately show ?thesis by metis
    qed
    from consume_spec [OF _ _ this rest] C
    have D: "wf (ws_store t)
      \<and> (\<forall>i. i \<notin> set (map oe_id es) \<longrightarrow> entry (ws_store t) i = entry q i)
      \<and> (\<forall>ev \<in> set es. entry (ws_store t) (oe_id ev) = entry q (oe_id ev)
           \<or> (\<exists>x e. entry (ws_store t) (oe_id ev) = Some e \<and> outcome cfg ev x e))
      \<and> (\<forall>run'. r = Inr run' \<longrightarrow> settledTotal run' = settledTotal ?run0 + length es \<and> wr_claimed run' = wr_claimed ?run0
           \<and> (\<forall>ev \<in> set es. \<exists>x e. entry (ws_store t) (oe_id ev) = Some e \<and> outcome cfg ev x e))"
      by simp
    have "\<exists>e. entry (ws_store s) (oe_id ev) = Some e \<and> ev = outboxEvent.truncate e \<and> claimable None ?at e
        \<and> (entry (ws_store t) (oe_id ev) = Some (lease (wc_workerId cfg) (?at + wc_leaseMs cfg) e)
           \<or> (\<exists>x e'. entry (ws_store t) (oe_id ev) = Some e' \<and> outcome cfg ev x e'))" if ev: "ev \<in> set es" for ev
    proof -
      obtain e where e: "entry (ws_store s) (oe_id ev) = Some e" "ev = outboxEvent.truncate e" "claimable None ?at e"
        using bspec [OF taken ev] by blast
      have "entry (ws_store t) (oe_id ev) = entry q (oe_id ev)
           \<or> (\<exists>x e. entry (ws_store t) (oe_id ev) = Some e \<and> outcome cfg ev x e)" using D ev by blast
      with e leased [OF ev e(1)] show ?thesis by metis
    qed
    moreover have "entry (ws_store t) i = entry (ws_store s) i" if "i \<notin> set (map oe_id es)" for i
      using claimed [of i] D that by simp
    ultimately show ?thesis
      using D by (intro conjI exI [of _ es]) (auto simp: settledTotal_def)
  qed
qed

end

text \<open>
  A worker whose clock does not pass the end of its leases loses none of them, so its run returns.
\<close>

context outbox_store
begin

lemma failed_live:
  assumes wf: "wf (ws_store s)" and e: "entry (ws_store s) (oe_id ev) = Some e"
    and held: "\<And>at. at \<le> u \<Longrightarrow> heldBy (oe_workspaceId ev) (oe_id ev) (wc_workerId cfg) at e"
    and clock: "\<And>n. ws_clock s n \<le> u"
  shows "isOk (fst (eventFailed store cfg ev err s)) \<and> ws_clock (snd (eventFailed store cfg ev err s)) = ws_clock s"
proof -
  let ?at = "ws_clock s (ws_ticks s)"
  note h = held [OF clock, of "ws_ticks s"]
  obtain r1 q where q: "st_quarantine store (oe_workspaceId ev) (oe_id ev) (wc_workerId cfg) (oe_attemptCount ev + 1) ?at
      (err_message err) (ws_store s) = (r1, q)" by fastforce
  obtain r2 p where p: "st_retry store (oe_workspaceId ev) (oe_id ev) (wc_workerId cfg) (oe_attemptCount ev + 1)
      (ws_clock s (Suc (ws_ticks s)) + retryDelay cfg (oe_attemptCount ev + 1)) ?at
      (err_message err) (ws_store s) = (r2, p)" by fastforce
  have "isOk r1" "isOk r2" using quarantine_live [OF wf e h] retry_live [OF wf e h] q p by (metis fst_conv)+
  then show ?thesis using q p
    by (auto simp: isOk_iff eventFailed_def workerNow_def onOutbox_def js_simps Let_def)
qed

lemma process_live:
  assumes wf: "wf (ws_store s)" and e: "entry (ws_store s) (oe_id ev) = Some e"
    and held: "\<And>at. at \<le> u \<Longrightarrow> heldBy (oe_workspaceId ev) (oe_id ev) (wc_workerId cfg) at e"
    and clock: "\<And>n. ws_clock s n \<le> u"
  shows "isOk (fst (processEvent store handlers cfg ev s)) \<and> ws_clock (snd (processEvent store handlers cfg ev s)) = ws_clock s"
proof (cases "handlers (oe_eventType ev)")
  case None
  then show ?thesis using failed_live [OF wf e held clock] by (simp add: processEvent_def catching_run throw_run)
next
  case (Some h)
  obtain r1 w where h: "h ev (ws_world s) = (r1, w)" by fastforce
  obtain r2 q where q: "st_complete store (oe_workspaceId ev) (oe_id ev) (wc_workerId cfg) (ws_clock s (ws_ticks s)) (ws_store s) = (r2, q)"
    by fastforce
  have "isOk r2" using complete_live [OF wf e held [OF clock, of "ws_ticks s"]] q by (metis fst_conv)
  then show ?thesis
    using Some h q failed_live [of "s\<lparr>ws_world := w\<rparr>" ev e u cfg] wf e held clock
    by (cases r1) (auto simp: isOk_iff processEvent_def onWorld_def onOutbox_def workerNow_def js_simps)
qed

text \<open>The rest of a batch keeps its leases while one of its events is settled.\<close>

lemma batch_rest:
  assumes "wf (ws_store s)" "entry (ws_store s) (oe_id ev) = Some e" "oe_attemptCount e = oe_attemptCount ev"
    and p: "processEvent store handlers cfg ev s = (Inr x, t)" and dist: "distinct (map oe_id (ev # es))"
    and held: "\<And>ev'. ev' \<in> set (ev # es) \<Longrightarrow> \<exists>e. entry (ws_store s) (oe_id ev') = Some e \<and> oe_attemptCount e = oe_attemptCount ev'
      \<and> (\<forall>at \<le> u. heldBy (oe_workspaceId ev') (oe_id ev') (wc_workerId cfg) at e)"
  shows "wf (ws_store t)" and "ev' \<in> set es \<Longrightarrow> \<exists>e. entry (ws_store t) (oe_id ev') = Some e \<and> oe_attemptCount e = oe_attemptCount ev'
      \<and> (\<forall>at \<le> u. heldBy (oe_workspaceId ev') (oe_id ev') (wc_workerId cfg) at e)"
proof -
  note P = process_event [OF assms(1-3) p, unfolded sum.case]
  then show "wf (ws_store t)" by blast
  assume "ev' \<in> set es"
  moreover from this have "oe_id ev' \<noteq> oe_id ev" using dist by (metis distinct.simps(2) image_eqI list.simps(9) set_map)
  with P have "entry (ws_store t) (oe_id ev') = entry (ws_store s) (oe_id ev')" by (simp add: sameExcept_def)
  ultimately show "\<exists>e. entry (ws_store t) (oe_id ev') = Some e \<and> oe_attemptCount e = oe_attemptCount ev'
      \<and> (\<forall>at \<le> u. heldBy (oe_workspaceId ev') (oe_id ev') (wc_workerId cfg) at e)"
    using held [of ev'] by simp
qed

lemma consume_live:
  assumes "wf (ws_store s)" and "distinct (map oe_id es)"
    and "\<And>ev. ev \<in> set es \<Longrightarrow> \<exists>e. entry (ws_store s) (oe_id ev) = Some e \<and> oe_attemptCount e = oe_attemptCount ev
      \<and> (\<forall>at \<le> u. heldBy (oe_workspaceId ev) (oe_id ev) (wc_workerId cfg) at e)"
    and "\<And>n. ws_clock s n \<le> u"
  shows "isOk (fst (consume store handlers cfg es run s))"
  using assms
proof (induction es arbitrary: s run)
  case Nil
  then show ?case by (simp add: isOk_iff js_simps)
next
  case (Cons ev es)
  obtain e where e: "entry (ws_store s) (oe_id ev) = Some e" "oe_attemptCount e = oe_attemptCount ev"
    and held: "\<And>at. at \<le> u \<Longrightarrow> heldBy (oe_workspaceId ev) (oe_id ev) (wc_workerId cfg) at e"
    using Cons.prems(3) [of ev] by auto
  obtain r1 t where p: "processEvent store handlers cfg ev s = (r1, t)" by fastforce
  from process_live [OF Cons.prems(1) e(1) held Cons.prems(4), of handlers] p
  obtain x where x: "r1 = Inr x" and clock: "ws_clock t = ws_clock s" by (auto simp: isOk_iff)
  note rest = batch_rest [OF Cons.prems(1) e p [unfolded x] Cons.prems(2,3)]
  from Cons.IH [OF rest(1) _ rest(2)] have "isOk (fst (consume store handlers cfg es (tally x run) t))"
    using Cons.prems(2,4) clock by simp
  then show ?case using p x by (simp add: js_simps)
qed

text \<open>A claimed batch is held until the end of its leases.\<close>

lemma claimed_held:
  assumes wf: "wf s" and c: "st_claim store worker ws limit until at s = (Inr es, q)" and ev: "ev \<in> set es"
  shows "\<exists>e. entry q (oe_id ev) = Some e \<and> oe_attemptCount e = oe_attemptCount ev
      \<and> (\<forall>at' \<le> until. heldBy (oe_workspaceId ev) (oe_id ev) worker at' e)"
proof -
  note C = claim_ok [OF wf c]
  obtain e where e: "entry s (oe_id ev) = Some e" "ev = outboxEvent.truncate e" "claimable None at e"
    using bspec [OF C [THEN conjunct2, THEN conjunct2, THEN conjunct2] ev] by blast
  moreover have "entry q (oe_id ev) = Some (lease worker until e)"
    using C [THEN conjunct2, THEN conjunct2, THEN conjunct1, THEN spec, of "oe_id ev"] ev e(1) by simp
  ultimately show ?thesis
    by (intro exI [of _ "lease worker until e"]) (simp add: lease_def heldBy_def claimable_def outboxEvent.truncate_def)
qed

lemma runOnce_batch:
  assumes wf: "wf (ws_store s)"
  obtains es q where
    "st_claim store (wc_workerId cfg) (wc_workspaceId cfg) (wc_batchSize cfg) (ws_clock s (ws_ticks s) + wc_leaseMs cfg)
       (ws_clock s (ws_ticks s)) (ws_store s) = (Inr es, q)"
    "wf q" "distinct (map oe_id es)"
    "\<And>handlers. runOnce store handlers cfg s = consume store handlers cfg es
       \<lparr>wr_claimed = length es, wr_completed = 0, wr_retried = 0, wr_quarantined = 0\<rparr> (s\<lparr>ws_ticks := ws_ticks s + 1, ws_store := q\<rparr>)"
proof -
  let ?at = "ws_clock s (ws_ticks s)"
  obtain r q where c: "st_claim store (wc_workerId cfg) (wc_workspaceId cfg) (wc_batchSize cfg) (?at + wc_leaseMs cfg) ?at
      (ws_store s) = (r, q)" by fastforce
  then obtain es where es: "r = Inr es" using claim_live [OF wf] by (metis fst_conv isOk_iff)
  note C = claim_ok [OF wf c [unfolded es]]
  show thesis
    by (rule that [OF c [unfolded es] C [THEN conjunct1] C [THEN conjunct2, THEN conjunct1]])
      (use c es in \<open>simp add: runOnce_def workerNow_def onOutbox_def js_simps\<close>)
qed

lemma runOnce_live:
  assumes wf: "wf (ws_store s)" and clock: "\<And>n. ws_clock s n \<le> ws_clock s (ws_ticks s) + wc_leaseMs cfg"
  shows "isOk (fst (runOnce store handlers cfg s))"
proof -
  obtain es q where b: "st_claim store (wc_workerId cfg) (wc_workspaceId cfg) (wc_batchSize cfg)
      (ws_clock s (ws_ticks s) + wc_leaseMs cfg) (ws_clock s (ws_ticks s)) (ws_store s) = (Inr es, q)"
    "wf q" "distinct (map oe_id es)"
    "runOnce store handlers cfg s = consume store handlers cfg es
       \<lparr>wr_claimed = length es, wr_completed = 0, wr_retried = 0, wr_quarantined = 0\<rparr> (s\<lparr>ws_ticks := ws_ticks s + 1, ws_store := q\<rparr>)"
    by (rule runOnce_batch [OF wf]) blast
  show ?thesis unfolding b(4)
    by (rule consume_live [where u = "ws_clock s (ws_ticks s) + wc_leaseMs cfg"]) (use b(2,3) claimed_held [OF wf b(1)] clock in simp_all)
qed

end

section \<open>The Postgres store keeps the contract\<close>

definition entryOf :: "outboxTables \<Rightarrow> string \<rightharpoonup> outboxEntry" where
  "entryOf t i = find (\<lambda>e. oe_id e = i) (ox_events t)"

text \<open>Primary keys, and no lease on a settled event.\<close>

definition settledEntry :: "outboxEntry \<Rightarrow> bool" where
  "settledEntry e \<longleftrightarrow> oe_processedAt e \<noteq> None \<or> oe_quarantinedAt e \<noteq> None"

definition outboxOk :: "outboxTables \<Rightarrow> bool" where
  "outboxOk t \<longleftrightarrow> distinct (map oe_id (ox_events t)) \<and> (\<forall>e \<in> set (ox_events t). settledEntry e \<longrightarrow> oe_lockedBy e = None)"

lemma find_map_id:
  "(\<And>e. oe_id (f e) = oe_id e) \<Longrightarrow> find (\<lambda>e. oe_id e = i) (map f es) = map_option f (find (\<lambda>e. oe_id e = i) es)"
  by (induction es) auto

lemma entryOf_map:
  "(\<And>e. oe_id (f e) = oe_id e) \<Longrightarrow> entryOf (t\<lparr>ox_events := map f (ox_events t)\<rparr>) i = map_option f (entryOf t i)"
  by (simp add: entryOf_def find_map_id)

lemma heldBy_id: "heldBy w i worker at e \<Longrightarrow> oe_id e = i"
  by (simp add: heldBy_def)

lemma entryOf_Some: "entryOf t i = Some e \<Longrightarrow> e \<in> set (ox_events t) \<and> oe_id e = i"
  by (auto simp: entryOf_def find_Some_iff)

lemma entryOf_mem: "outboxOk t \<Longrightarrow> e \<in> set (ox_events t) \<Longrightarrow> entryOf t (oe_id e) = Some e"
proof -
  assume ok: "outboxOk t" and e: "e \<in> set (ox_events t)"
  then obtain e' where e': "entryOf t (oe_id e) = Some e'" by (cases "entryOf t (oe_id e)") (auto simp: entryOf_def find_None_iff)
  with ok e show ?thesis using entryOf_Some [OF e'] by (auto simp: outboxOk_def distinct_map inj_on_def)
qed

lemma set_candidates: "set (candidates ws at limit es) \<subseteq> {e \<in> set es. claimable ws at e}"
  by (auto simp: candidates_def dest: in_set_takeD)

lemma distinct_candidates: "distinct (map oe_id es) \<Longrightarrow> distinct (map oe_id (candidates ws at limit es))"
  by (auto simp: candidates_def take_map [symmetric] distinct_map inj_on_def
      intro!: distinct_take dest: in_set_takeD)

text \<open>The row changes of the statements keep the tables well formed.\<close>

lemma outboxOk_map:
  assumes "outboxOk t" "\<And>e. oe_id (f e) = oe_id e" "\<And>e. e \<in> set (ox_events t) \<Longrightarrow> settledEntry (f e) \<Longrightarrow> oe_lockedBy (f e) = None"
  shows "outboxOk (t\<lparr>ox_events := map f (ox_events t)\<rparr>)"
  using assms by (auto simp: outboxOk_def comp_def)

lemma settle_run:
  assumes ok: "outboxOk t" and idk: "\<And>e. oe_id (f e) = oe_id e" and unlocked: "\<And>e. oe_lockedBy (f e) = None"
  shows "case settle w i worker at f t of
      (Inl x, t') \<Rightarrow> t' = t \<and> (\<forall>e. entryOf t i = Some e \<longrightarrow> \<not> heldBy w i worker at e)
    | (Inr row, t') \<Rightarrow> outboxOk t' \<and> entryOf t i = Some row \<and> heldBy w i worker at row \<and> entryOf t' = (entryOf t)(i \<mapsto> f row)
        \<and> ox_incidents t' = ox_incidents t"
proof (cases "filter (heldBy w i worker at) (ox_events t)")
  case Nil
  then show ?thesis by (auto simp: settle_def js_simps filter_empty_conv dest: entryOf_Some)
next
  case (Cons row rows)
  let ?g = "\<lambda>e. if heldBy w i worker at e then f e else e"
  have row: "row \<in> set (ox_events t)" "heldBy w i worker at row"
    using Cons by (metis filter_eq_ConsD in_set_conv_decomp)+
  then have mine: "entryOf t i = Some row" using entryOf_mem [OF ok row(1)] by (simp add: heldBy_def)
  have "entryOf (t\<lparr>ox_events := map ?g (ox_events t)\<rparr>) j = ((entryOf t)(i \<mapsto> f row)) j" for j
    using entryOf_map [of ?g t j] idk mine row(2) by (cases "entryOf t j") (auto dest: heldBy_id entryOf_Some)
  moreover have "outboxOk (t\<lparr>ox_events := map ?g (ox_events t)\<rparr>)"
    using ok unlocked by (intro outboxOk_map) (auto simp: idk outboxOk_def)
  ultimately show ?thesis using Cons row mine by (auto simp: settle_def js_simps)
qed

lemma settle_ok:
  "outboxOk t \<Longrightarrow> settle w i worker at f t = (Inr row, t') \<Longrightarrow> (\<And>e. oe_id (f e) = oe_id e) \<Longrightarrow> (\<And>e. oe_lockedBy (f e) = None) \<Longrightarrow>
    outboxOk t' \<and> settles (entryOf t) (entryOf t') w i worker at f"
  using settle_run [of t f i w worker at] by (auto simp: settles_def)

lemma settle_err: "settle w i worker at f t = (Inl x, t') \<Longrightarrow> t' = t"
  by (auto simp: settle_def js_simps split: list.splits)

lemma settle_live:
  "outboxOk t \<Longrightarrow> entryOf t i = Some e \<Longrightarrow> heldBy w i worker at e \<Longrightarrow> isOk (fst (settle w i worker at f t))"
  by (auto simp: settle_def js_simps isOk_iff filter_empty_conv dest!: entryOf_Some split: list.splits)

text \<open>The three settling statements are settlements followed by something that does not touch the events.\<close>

lemma pgOutboxComplete_run:
  "pgOutboxComplete w i worker at t = (case settle w i worker at (completedAt at) t of (Inl x, t') \<Rightarrow> (Inl x, t') | (Inr _, t') \<Rightarrow> (Inr (), t'))"
  by (auto simp: pgOutboxComplete_def completedAt_def [abs_def] js_simps split: prod.splits sum.splits)

lemma pgOutboxRetry_run:
  "pgOutboxRetry w i worker n av at msg t
    = (case settle w i worker at (retriedAs n av msg) t of (Inl x, t') \<Rightarrow> (Inl x, t') | (Inr _, t') \<Rightarrow> (Inr (), t'))"
  by (auto simp: pgOutboxRetry_def retriedAs_def [abs_def] js_simps split: prod.splits sum.splits)

lemma pgOutboxQuarantine_run:
  "pgOutboxQuarantine w i worker n at msg t = (case settle w i worker at (quarantinedAs n at msg) t of
      (Inl x, t') \<Rightarrow> (Inl x, t')
    | (Inr row, t') \<Rightarrow> (Inr (), t'\<lparr>ox_incidents := ox_incidents t' @ [quarantineIncident w i n msg row]\<rparr>))"
  by (auto simp: pgOutboxQuarantine_def quarantinedAs_def [abs_def] js_simps split: prod.splits sum.splits)

lemma claim_run:
  assumes ok: "outboxOk t" and run: "pgClaim worker ws limit until at t = (r, t')"
  shows "\<exists>es. r = Inr es \<and> outboxOk t' \<and> distinct (map oe_id es)
    \<and> (\<forall>i. entryOf t' i = (if i \<in> set (map oe_id es) then map_option (lease worker until) (entryOf t i) else entryOf t i))
    \<and> (\<forall>ev \<in> set es. \<exists>e. entryOf t (oe_id ev) = Some e \<and> ev = outboxEvent.truncate e \<and> claimable None at e)"
proof -
  define scope where "scope = (case ws of None \<Rightarrow> None | Some w \<Rightarrow> if w = [] then None else Some w)"
  let ?cs = "candidates scope at limit (ox_events t)"
  let ?f = "\<lambda>e. if oe_id e \<in> set (map oe_id ?cs) then lease worker until e else e"
  let ?ev = "\<lambda>e. outboxEvent.truncate (lease worker until e)"
  have ev: "?ev e = outboxEvent.truncate e" for e by (simp add: lease_def outboxEvent.truncate_def)
  have res: "r = Inr (map ?ev ?cs)" "t' = t\<lparr>ox_events := map ?f (ox_events t)\<rparr>"
    using run by (auto simp: pgClaim_def scope_def js_simps Let_def)
  have ids: "map oe_id (map ?ev ?cs) = map oe_id ?cs" by (simp add: lease_def outboxEvent.truncate_def)
  have fid: "oe_id (?f e) = oe_id e" for e by (simp add: lease_def)
  have free: "e \<in> set (ox_events t) \<Longrightarrow> settledEntry (?f e) \<Longrightarrow> oe_lockedBy (?f e) = None" for e
  proof (cases "oe_id e \<in> set (map oe_id ?cs)")
    case True
    assume e: "e \<in> set (ox_events t)" "settledEntry (?f e)"
    from True obtain c where "c \<in> set ?cs" "oe_id c = oe_id e" by auto
    then have "claimable scope at e"
      using set_candidates [of scope at limit "ox_events t"] entryOf_mem [OF ok e(1)] entryOf_mem [OF ok, of c] by auto
    then show ?thesis using e(2) True by (simp add: claimable_def settledEntry_def lease_def)
  qed (use ok in \<open>auto simp: outboxOk_def\<close>)
  have "entryOf t' i = (if i \<in> set (map oe_id ?cs) then map_option (lease worker until) (entryOf t i) else entryOf t i)" for i
    unfolding res(2) by (subst entryOf_map [OF fid]) (cases "entryOf t i"; auto dest: entryOf_Some)
  moreover have "\<exists>e. entryOf t (oe_id ev) = Some e \<and> ev = outboxEvent.truncate e \<and> claimable None at e"
    if "ev \<in> set (map ?ev ?cs)" for ev
  proof -
    from that obtain e where e: "e \<in> set ?cs" "ev = outboxEvent.truncate e" by (auto simp: ev)
    then have "e \<in> set (ox_events t)" "claimable scope at e" using set_candidates by fastforce+
    with e entryOf_mem [OF ok] show ?thesis by (auto simp: claimable_def outboxEvent.truncate_def)
  qed
  moreover have "outboxOk t'" unfolding res(2) by (rule outboxOk_map [OF ok fid free])
  moreover have "distinct (map oe_id (map ?ev ?cs))"
    unfolding ids by (rule distinct_candidates) (use ok in \<open>simp add: outboxOk_def\<close>)
  ultimately show ?thesis using res(1) unfolding ids [symmetric] by blast
qed

lemma settling_shapes:
  "oe_id (completedAt at e) = oe_id e" "oe_lockedBy (completedAt at e) = None"
  "oe_id (retriedAs n av msg e) = oe_id e" "oe_lockedBy (retriedAs n av msg e) = None"
  "oe_id (quarantinedAs n at msg e) = oe_id e" "oe_lockedBy (quarantinedAs n at msg e) = None"
  by (simp_all add: completedAt_def retriedAs_def quarantinedAs_def released_def)

lemma incidents_frame: "entryOf (t\<lparr>ox_incidents := x\<rparr>) = entryOf t" "outboxOk (t\<lparr>ox_incidents := x\<rparr>) = outboxOk t"
  by (simp_all add: entryOf_def [abs_def] outboxOk_def)

lemmas settle_oks = settle_ok [OF _ _ settling_shapes(1,2)] settle_ok [OF _ _ settling_shapes(3,4)]
  settle_ok [OF _ _ settling_shapes(5,6)]

interpretation pgOutbox: outbox_store postgresOutbox entryOf outboxOk
proof (unfold_locales, goal_cases)
  case (1 s worker ws limit until at es t)
  then show ?case using claim_run [of s worker ws limit until at "Inr es" t] by (simp add: postgresOutbox_def)
next
  case (2 s worker ws limit until at e t)
  then show ?case using claim_run [of s worker ws limit until at "Inl e" t] by (simp add: postgresOutbox_def)
next
  case (3 s w i worker at u t)
  then obtain row where "settle w i worker at (completedAt at) s = (Inr row, t)"
    by (auto simp: postgresOutbox_def pgOutboxComplete_run split: prod.splits sum.splits)
  from settle_oks(1) [OF 3(1) this] show ?case .
next
  case (4 s w i worker at e t)
  then show ?case by (auto simp: postgresOutbox_def pgOutboxComplete_run split: prod.splits sum.splits dest!: settle_err)
next
  case (5 s w i worker n av at msg u t)
  then obtain row where "settle w i worker at (retriedAs n av msg) s = (Inr row, t)"
    by (auto simp: postgresOutbox_def pgOutboxRetry_run split: prod.splits sum.splits)
  from settle_oks(2) [OF 5(1) this] show ?case .
next
  case (6 s w i worker n av at msg e t)
  then show ?case by (auto simp: postgresOutbox_def pgOutboxRetry_run split: prod.splits sum.splits dest!: settle_err)
next
  case (7 s w i worker n at msg u t)
  then obtain row q x where q: "settle w i worker at (quarantinedAs n at msg) s = (Inr row, q)" "t = q\<lparr>ox_incidents := x\<rparr>"
    by (auto simp: postgresOutbox_def pgOutboxQuarantine_run split: prod.splits sum.splits)
  from settle_oks(3) [OF 7(1) q(1)] show ?case unfolding q(2) incidents_frame .
next
  case (8 s w i worker n at msg e t)
  then show ?case by (auto simp: postgresOutbox_def pgOutboxQuarantine_run split: prod.splits sum.splits dest!: settle_err)
next
  case (9 s i row w worker at)
  then show ?case using settle_live [of s i row w worker at "completedAt at"]
    by (auto simp: postgresOutbox_def pgOutboxComplete_run isOk_iff split: prod.splits sum.splits)
next
  case (10 s i row w worker at n av msg)
  then show ?case using settle_live [of s i row w worker at "retriedAs n av msg"]
    by (auto simp: postgresOutbox_def pgOutboxRetry_run isOk_iff split: prod.splits sum.splits)
next
  case (11 s i row w worker at n msg)
  then show ?case using settle_live [of s i row w worker at "quarantinedAs n at msg"]
    by (auto simp: postgresOutbox_def pgOutboxQuarantine_run isOk_iff split: prod.splits sum.splits)
next
  case (12 s worker ws limit until at)
  then show ?case using claim_run [of s worker ws limit until at] 
    by (cases "pgClaim worker ws limit until at s") (fastforce simp: postgresOutbox_def isOk_iff)
qed

section \<open>Any number of workers\<close>

text \<open>
  Every statement of the store runs in its own transaction, so what workers do to the table is a
  sequence of these actions, in any order and at any times; an error leaves the table as it is.
  New events come from the transactions of other components, with identifiers of their own.
\<close>

datatype outboxAction =
    Claim string "string option" nat int int
  | Complete string string string int
  | Retry string string string nat int int string
  | Quarantine string string string nat int string
  | Enqueue outboxEvent

definition enqueued :: "outboxEvent \<Rightarrow> outboxEntry" where
  "enqueued ev = outboxEvent.extend ev \<lparr>oe_lockedBy = None, oe_lockedUntil = None, oe_processedAt = None, oe_quarantinedAt = None,
     oe_quarantineReason = None, oe_lastError = None\<rparr>"

fun act :: "outboxAction \<Rightarrow> outboxTables \<Rightarrow> outboxTables" where
  "act (Claim worker ws limit until at) t = snd (st_claim postgresOutbox worker ws limit until at t)"
| "act (Complete w i worker at) t = snd (st_complete postgresOutbox w i worker at t)"
| "act (Retry w i worker n av at msg) t = snd (st_retry postgresOutbox w i worker n av at msg t)"
| "act (Quarantine w i worker n at msg) t = snd (st_quarantine postgresOutbox w i worker n at msg t)"
| "act (Enqueue ev) t = (if oe_id ev \<in> set (map oe_id (ox_events t)) then t else t\<lparr>ox_events := ox_events t @ [enqueued ev]\<rparr>)"

fun actionTime :: "outboxAction \<Rightarrow> int option" where
  "actionTime (Claim _ _ _ _ at) = Some at"
| "actionTime (Complete _ _ _ at) = Some at"
| "actionTime (Retry _ _ _ _ _ at _) = Some at"
| "actionTime (Quarantine _ _ _ _ at _) = Some at"
| "actionTime (Enqueue _) = None"

fun settlesFor :: "string \<Rightarrow> string \<Rightarrow> outboxAction \<Rightarrow> bool" where
  "settlesFor worker i (Complete _ j v _) = (v = worker \<and> j = i)"
| "settlesFor worker i (Retry _ j v _ _ _ _) = (v = worker \<and> j = i)"
| "settlesFor worker i (Quarantine _ j v _ _ _) = (v = worker \<and> j = i)"
| "settlesFor worker i _ = False"

text \<open>An entry is out of reach of an action: it is settled, or leased to another worker beyond the action's time.\<close>

definition protected :: "outboxEntry \<Rightarrow> outboxAction \<Rightarrow> bool" where
  "protected e a \<longleftrightarrow> settledEntry e \<or> (\<exists>worker until. oe_lockedBy e = Some worker \<and> oe_lockedUntil e = Some until
     \<and> \<not> settlesFor worker (oe_id e) a \<and> (\<forall>at. actionTime a = Some at \<longrightarrow> at \<le> until))"

lemma settles_protected:
  assumes e: "entryOf t i = Some e" and s: "settles (entryOf t) m' w j worker at f"
    and free: "settledEntry e \<longrightarrow> oe_lockedBy e = None"
    and p: "settledEntry e \<or> (\<exists>v. oe_lockedBy e = Some v \<and> \<not> (worker = v \<and> j = i))"
  shows "m' i = Some e"
proof (cases "j = i")
  case True
  with s e have "oe_lockedBy e = Some worker" by (simp add: settles_def heldBy_def)
  with p free True show ?thesis by auto
next
  case False
  with s e show ?thesis unfolding settles_def by (metis fun_upd_other)
qed

lemma settling_keeps:
  assumes e: "entryOf t i = Some e" and free: "settledEntry e \<longrightarrow> oe_lockedBy e = None"
    and err: "\<And>x t'. m t = (Inl x, t') \<Longrightarrow> outboxOk t' \<and> entryOf t' = entryOf t"
    and ok: "\<And>x t'. m t = (Inr x, t') \<Longrightarrow> outboxOk t' \<and> settles (entryOf t) (entryOf t') w j worker at f"
    and p: "settledEntry e \<or> (\<exists>v. oe_lockedBy e = Some v \<and> \<not> (worker = v \<and> j = i))"
  shows "outboxOk (snd (m t)) \<and> entryOf (snd (m t)) i = Some e"
proof (cases "m t")
  case (Pair r t')
  show ?thesis
  proof (cases r)
    case (Inl x)
    from err [OF Pair [unfolded this]] show ?thesis using Pair e by simp
  next
    case (Inr u)
    from ok [OF Pair [unfolded this]] show ?thesis using Pair settles_protected [OF e _ free p] by auto
  qed
qed

lemma act_protected:
  assumes ok: "outboxOk t" and e: "entryOf t i = Some e" and p: "protected e a"
  shows "outboxOk (act a t) \<and> entryOf (act a t) i = Some e"
proof -
  note ide = entryOf_Some [OF e]
  have unlocked: "settledEntry e \<longrightarrow> oe_lockedBy e = None" using ok ide by (simp add: outboxOk_def)
  show ?thesis
  proof (cases a)
    case (Claim worker ws limit until at)
    obtain r t' where run: "st_claim postgresOutbox worker ws limit until at t = (r, t')" by fastforce
    then obtain es where es: "r = Inr es" using pgOutbox.claim_live [OF ok] by (metis fst_conv isOk_iff)
    note C = pgOutbox.claim_ok [OF ok run [unfolded es]]
    have "i \<notin> set (map oe_id es)"
    proof
      assume "i \<in> set (map oe_id es)"
      then obtain ev where ev: "ev \<in> set es" "oe_id ev = i" by auto
      then have "claimable None at e" using bspec [OF C [THEN conjunct2, THEN conjunct2, THEN conjunct2] ev(1)] e by auto
      with p Claim show False by (auto simp: protected_def claimable_def settledEntry_def)
    qed
    then have "entryOf t' i = Some e"
      using C [THEN conjunct2, THEN conjunct2, THEN conjunct1, THEN spec, of i] e by simp
    with C [THEN conjunct1] run Claim show ?thesis by simp
  next
    case (Complete w j worker at)
    have "outboxOk (snd (st_complete postgresOutbox w j worker at t)) \<and> entryOf (snd (st_complete postgresOutbox w j worker at t)) i = Some e"
      by (rule settling_keeps [OF e unlocked pgOutbox.complete_err [OF ok] pgOutbox.complete_ok [OF ok]])
        (use p ide Complete in \<open>auto simp: protected_def\<close>)
    with Complete show ?thesis by simp
  next
    case (Retry w j worker n av at msg)
    have "outboxOk (snd (st_retry postgresOutbox w j worker n av at msg t)) \<and> entryOf (snd (st_retry postgresOutbox w j worker n av at msg t)) i = Some e"
      by (rule settling_keeps [OF e unlocked pgOutbox.retry_err [OF ok] pgOutbox.retry_ok [OF ok]])
        (use p ide Retry in \<open>auto simp: protected_def\<close>)
    with Retry show ?thesis by simp
  next
    case (Quarantine w j worker n at msg)
    have "outboxOk (snd (st_quarantine postgresOutbox w j worker n at msg t)) \<and> entryOf (snd (st_quarantine postgresOutbox w j worker n at msg t)) i = Some e"
      by (rule settling_keeps [OF e unlocked pgOutbox.quarantine_err [OF ok] pgOutbox.quarantine_ok [OF ok]])
        (use p ide Quarantine in \<open>auto simp: protected_def\<close>)
    with Quarantine show ?thesis by simp
  next
    case (Enqueue ev)
    with e ok show ?thesis
      by (auto simp: entryOf_def find_Some_iff nth_append outboxOk_def enqueued_def outboxEvent.extend_def settledEntry_def)
  qed
qed

text \<open>
  C14. Whatever any number of workers do, in any order: an event that was completed or quarantined
  is never touched again, and an event leased to a worker is changed by no other worker, nor
  claimed again, at any time up to the end of the lease.
\<close>

theorem outbox_leases_exclusive:
  assumes "outboxOk t" "entryOf t i = Some e" "\<forall>a \<in> set as. protected e a"
  shows "outboxOk (fold act as t) \<and> entryOf (fold act as t) i = Some e"
  using assms
proof (induction as arbitrary: t)
  case (Cons a as)
  then show ?case using act_protected [of t i e a] by simp
qed simp

definition exampleEvent :: outboxEvent where
  "exampleEvent = \<lparr>oe_id = ''e1'', oe_workspaceId = ''w'', oe_operationId = ''op'', oe_eventType = ''blob.reconcile_requested'',
     oe_payload = [], oe_availableAt = 0, oe_attemptCount = 4\<rparr>"

definition exampleOutbox :: outboxTables where
  "exampleOutbox = act (Claim ''A'' None 25 30 0) (act (Enqueue exampleEvent) \<lparr>ox_events = [], ox_incidents = []\<rparr>)"

lemmas outbox_eval = exampleOutbox_def exampleEvent_def postgresOutbox_def pgClaim_def candidates_def claimable_def lease_def
  enqueued_def outboxEvent.extend_def outboxEvent.truncate_def js_simps entryOf_def outboxOk_def settledEntry_def protected_def

theorem outbox_leases_exclusive_witness:
  "map_option oe_lockedBy (entryOf (fold act [Claim ''B'' None 25 60 30, Complete ''w'' ''e1'' ''B'' 20] exampleOutbox) ''e1'')
     = Some (Some ''A'')"
proof -
  let ?as = "[Claim ''B'' None 25 60 30, Complete ''w'' ''e1'' ''B'' 20]"
  obtain e where e: "entryOf exampleOutbox ''e1'' = Some e" "oe_lockedBy e = Some ''A''" "oe_lockedUntil e = Some 30" "oe_id e = ''e1''"
    by (simp add: outbox_eval)
  then have p: "\<forall>a \<in> set ?as. protected e a" by (simp add: protected_def)
  have "outboxOk exampleOutbox" by (simp add: outbox_eval)
  from outbox_leases_exclusive [OF this e(1) p] e(2) show ?thesis by simp
qed

lemma consume_claimed:
  "consume store handlers cfg es run s = (Inr run', t) \<Longrightarrow> wr_claimed run' = wr_claimed run"
proof (induction es arbitrary: run s)
  case (Cons ev es)
  then show ?case by (auto simp: js_simps tally_total split: prod.splits sum.splits dest!: Cons.IH)
qed (simp add: js_simps)

definition workerScope :: "workerConfig \<Rightarrow> string option" where
  "workerScope cfg = (case wc_workspaceId cfg of None \<Rightarrow> None | Some w \<Rightarrow> if w = [] then None else Some w)"

lemma runOnce_claimed:
  assumes "runOnce postgresOutbox handlers cfg s = (Inr run, t)"
  shows "wr_claimed run
    = min (wc_batchSize cfg) (length (filter (claimable (workerScope cfg) (ws_clock s (ws_ticks s))) (ox_events (ws_store s))))"
  using assms by (auto simp: runOnce_def postgresOutbox_def pgClaim_def workerNow_def onOutbox_def js_simps Let_def
      candidates_def workerScope_def dest!: consume_claimed)

text \<open>
  C34. One run of a worker whose clock stays within its leases: it returns, whatever the handlers
  do; it takes as many of the due events of its workspace as the batch size allows; each of them is
  completed, released for a later attempt with its attempts counted, or quarantined at the limit;
  the counters add up to the claimed events; every other event stays as it was.
\<close>

theorem worker_run_settles_batch:
  assumes "outboxOk (ws_store s)" "\<And>n. ws_clock s n \<le> ws_clock s (ws_ticks s) + wc_leaseMs cfg"
  shows "\<exists>run t evs. runOnce postgresOutbox handlers cfg s = (Inr run, t) \<and> outboxOk (ws_store t)
    \<and> wr_claimed run = length evs \<and> settledTotal run = length evs
    \<and> length evs = min (wc_batchSize cfg)
        (length (filter (claimable (workerScope cfg) (ws_clock s (ws_ticks s))) (ox_events (ws_store s))))
    \<and> (\<forall>ev \<in> set evs. \<exists>e x e'. entryOf (ws_store s) (oe_id ev) = Some e \<and> ev = outboxEvent.truncate e
         \<and> claimable None (ws_clock s (ws_ticks s)) e \<and> entryOf (ws_store t) (oe_id ev) = Some e' \<and> outcome cfg ev x e')
    \<and> (\<forall>i. i \<notin> set (map oe_id evs) \<longrightarrow> entryOf (ws_store t) i = entryOf (ws_store s) i)"
proof -
  obtain r t where run: "runOnce postgresOutbox handlers cfg s = (r, t)" by fastforce
  then obtain run' where r: "r = Inr run'" using pgOutbox.runOnce_live [OF assms, of handlers] by (auto simp: isOk_iff)
  from pgOutbox.runOnce_spec [OF assms(1) run] r obtain evs where
    "outboxOk (ws_store t)" "wr_claimed run' = length evs" "settledTotal run' = length evs"
    "\<forall>i. i \<notin> set (map oe_id evs) \<longrightarrow> entryOf (ws_store t) i = entryOf (ws_store s) i"
    "\<forall>ev \<in> set evs. \<exists>x e'. entryOf (ws_store t) (oe_id ev) = Some e' \<and> outcome cfg ev x e'"
    "\<forall>ev \<in> set evs. \<exists>e. entryOf (ws_store s) (oe_id ev) = Some e \<and> ev = outboxEvent.truncate e
         \<and> claimable None (ws_clock s (ws_ticks s)) e" by blast
  then show ?thesis using run r runOnce_claimed [of handlers cfg s run' t]
    by (intro exI [of _ run'] exI [of _ t] exI [of _ evs]) (simp; blast)
qed

definition exampleWorker :: "(outboxTables, unit) workerState" where
  "exampleWorker = \<lparr>ws_store = act (Enqueue exampleEvent) \<lparr>ox_events = [], ox_incidents = []\<rparr>, ws_world = (),
     ws_clock = (\<lambda>_. 10), ws_ticks = 0\<rparr>"

theorem worker_run_settles_batch_witness:
  "\<exists>run t. runOnce postgresOutbox (\<lambda>_. None) (defaultConfig ''A'') exampleWorker = (Inr run, t)
     \<and> settledTotal run = 1 \<and> entryOf (ws_store t) ''e1'' \<noteq> None"
proof -
  let ?cfg = "defaultConfig ''A''"
  let ?due = "filter (claimable (workerScope ?cfg) (ws_clock exampleWorker (ws_ticks exampleWorker))) (ox_events (ws_store exampleWorker))"
  have ok: "outboxOk (ws_store exampleWorker)" by (simp add: exampleWorker_def outbox_eval)
  have clock: "ws_clock exampleWorker n \<le> ws_clock exampleWorker (ws_ticks exampleWorker) + wc_leaseMs ?cfg" for n
    by (simp add: exampleWorker_def defaultConfig_def)
  from worker_run_settles_batch [OF ok clock, of "\<lambda>_. None"]
  obtain run t evs where run: "runOnce postgresOutbox (\<lambda>_. None) ?cfg exampleWorker = (Inr run, t)"
    "settledTotal run = length evs" "length evs = min (wc_batchSize ?cfg) (length ?due)"
    "\<forall>i. i \<notin> set (map oe_id evs) \<longrightarrow> entryOf (ws_store t) i = entryOf (ws_store exampleWorker) i"
    "\<forall>ev \<in> set evs. \<exists>e x e'. entryOf (ws_store exampleWorker) (oe_id ev) = Some e \<and> ev = outboxEvent.truncate e
      \<and> claimable None (ws_clock exampleWorker (ws_ticks exampleWorker)) e \<and> entryOf (ws_store t) (oe_id ev) = Some e'
      \<and> outcome ?cfg ev x e'"
    by (elim exE conjE) rule
  have "length ?due = 1" by (simp add: exampleWorker_def outbox_eval workerScope_def defaultConfig_def)
  then have one: "settledTotal run = 1" using run(2,3) by (simp add: defaultConfig_def)
  have "entryOf (ws_store exampleWorker) ''e1'' \<noteq> None" by (simp add: exampleWorker_def outbox_eval)
  then have "entryOf (ws_store t) ''e1'' \<noteq> None" using run(4,5) by (cases "''e1'' \<in> set (map oe_id evs)") auto
  with run(1) one show ?thesis by blast
qed

end
