(* ===== verification/Reconciliation.thy ===== *)
theory Reconciliation
  imports IngestStore Outbox
begin

text \<open>
  \<open>packages/reconciliation/src/handlers.ts\<close>, \<open>packages/persistence-postgres/src/reconciliation-catalog.ts\<close>
  and \<open>packages/reconciliation/src/failure-injection.ts\<close>: what the worker does with an event, over
  the storage and the blob catalog that the ingest writes, and the checkpoint runner with its
  failure injector.

  A handler is looked up by the type of the event in a plain object; event types are the ones the
  producers write, none of them a member of \<open>Object.prototype\<close>.
\<close>

section \<open>The catalog the handlers use\<close>

record foundBlob =
  fb_id :: string
  fb_byteLength :: int

record 'c reconciliationCatalog =
  rc_findBlob :: "string \<Rightarrow> string \<Rightarrow> string \<Rightarrow> ('c, foundBlob option) js"
  rc_recordIncident :: "incident \<Rightarrow> ('c, unit) js"

text \<open>The handlers read \<open>blob_objects\<close>, which the ingest writes, and append to \<open>reconciliation_incidents\<close>.\<close>

record reconcileTables =
  rt_catalog :: catalogTables
  rt_incidents :: "incident list"

definition pgFindBlob :: "string \<Rightarrow> string \<Rightarrow> string \<Rightarrow> (reconcileTables, foundBlob option) js" where
  "pgFindBlob workspaceId storageKey sha256 =
     reading (\<lambda>t. map_option (\<lambda>(_, row). \<lparr>fb_id = blob_id row, fb_byteLength = blob_byteLength row\<rparr>)
       (find (\<lambda>((w, h), row). w = workspaceId \<and> blob_storageKey row = storageKey \<and> h = sha256)
          (DAList.impl_of (ct_blobs (rt_catalog t)))))"

definition pgRecordIncident :: "incident \<Rightarrow> (reconcileTables, unit) js" where
  "pgRecordIncident i = updating (\<lambda>t. t\<lparr>rt_incidents := rt_incidents t @ [i]\<rparr>)"

definition postgresReconciliation :: "reconcileTables reconciliationCatalog" where
  "postgresReconciliation = \<lparr>rc_findBlob = pgFindBlob, rc_recordIncident = pgRecordIncident\<rparr>"

section \<open>The handlers\<close>

record ('s, 'c) reconcileWorld =
  rw_storage :: 's
  rw_catalog :: 'c

definition atStorage :: "('s, 'a) js \<Rightarrow> (('s, 'c) reconcileWorld, 'a) js" where
  "atStorage = within rw_storage (\<lambda>x s. s\<lparr>rw_storage := x\<rparr>)"

definition atCatalog :: "('c, 'a) js \<Rightarrow> (('s, 'c) reconcileWorld, 'a) js" where
  "atCatalog = within rw_catalog (\<lambda>x s. s\<lparr>rw_catalog := x\<rparr>)"

definition invalidPayload :: "outboxEvent \<Rightarrow> string \<Rightarrow> js_error" where
  "invalidPayload event k = plainError (''Invalid '' @ k @ '' in '' @ oe_eventType event)"

definition requiredString :: "outboxEvent \<Rightarrow> string \<Rightarrow> js_error + string" where
  "requiredString event k = (case map_of (oe_payload event) k of
     Some (JStr x) \<Rightarrow> if x = [] then Inl (invalidPayload event k) else Inr x
   | _ \<Rightarrow> Inl (invalidPayload event k))"

definition requiredNumber :: "outboxEvent \<Rightarrow> string \<Rightarrow> js_error + int" where
  "requiredNumber event k = (case map_of (oe_payload event) k of
     Some (JNum n) \<Rightarrow> if isSafeInteger n \<and> n \<ge> 0 then Inr n else Inl (invalidPayload event k)
   | _ \<Rightarrow> Inl (invalidPayload event k))"

definition incidentOf :: "outboxEvent \<Rightarrow> bool \<Rightarrow> string \<Rightarrow> string \<Rightarrow> payload \<Rightarrow> incident" where
  "incidentOf event critical code message metadata =
     \<lparr>inc_workspaceId = oe_workspaceId event, inc_operationId = oe_operationId event, inc_critical = critical,
      inc_code = code, inc_message = message, inc_metadata = metadata\<rparr>"

definition cleanupTemporary :: "'s objectStorage \<Rightarrow> (('s, 'c) reconcileWorld) handler" where
  "cleanupTemporary storage event =
     andThen (lifting (requiredString event ''storageKey'')) (\<lambda>k. atStorage (os_deleteTemporary storage k))"

definition reconcileBlob :: "'s objectStorage \<Rightarrow> 'c reconciliationCatalog \<Rightarrow> (('s, 'c) reconcileWorld) handler" where
  "reconcileBlob storage catalog event =
     andThen (lifting (requiredString event ''storageKey'')) (\<lambda>storageKey.
     andThen (lifting (requiredString event ''sha256'')) (\<lambda>sha256.
     andThen (lifting (requiredNumber event ''byteLength'')) (\<lambda>expectedLength.
     andThen (atCatalog (rc_findBlob catalog (oe_workspaceId event) storageKey sha256)) (\<lambda>metadata.
     andThen (catching (andThen (atStorage (os_head storage storageKey)) (\<lambda>h. ret (Some h)))
       (\<lambda>e. case metadata of
          Some m \<Rightarrow> andThen (atCatalog (rc_recordIncident catalog (incidentOf event True ''METADATA_WITHOUT_OBJECT''
              ''Canonical metadata points to missing or inaccessible bytes.''
              [(''storageKey'', JStr storageKey), (''blobId'', JStr (fb_id m))]))) (\<lambda>_. ret None)
        | None \<Rightarrow> throw e)) (\<lambda>found.
       case found of
         None \<Rightarrow> ret ()
       | Some h \<Rightarrow>
           (case metadata of
              None \<Rightarrow> atCatalog (rc_recordIncident catalog (incidentOf event False ''UNATTACHED_IMMUTABLE_OBJECT''
                ''Immutable bytes exist without committed metadata; object retained for review.''
                [(''storageKey'', JStr storageKey), (''sha256'', JStr sha256), (''byteLength'', JNum (om_byteLength h))]))
            | Some m \<Rightarrow>
                if om_byteLength h \<noteq> expectedLength \<or> fb_byteLength m \<noteq> expectedLength
                then atCatalog (rc_recordIncident catalog (incidentOf event True ''RECONCILIATION_LENGTH_MISMATCH''
                  ''Object and metadata byte lengths disagree.''
                  [(''storageKey'', JStr storageKey), (''expectedLength'', JNum expectedLength),
                   (''storageLength'', JNum (om_byteLength h)), (''metadataLength'', JNum (fb_byteLength m))]))
                else ret ()))))))"

definition createReconciliationHandlers ::
  "'s objectStorage \<Rightarrow> 'c reconciliationCatalog \<Rightarrow> string \<Rightarrow> (('s, 'c) reconcileWorld) handler option" where
  "createReconciliationHandlers storage catalog eventType =
     (if eventType \<in> set [''resource.revision_created'', ''resource.deleted'', ''resource.restored''] then Some (\<lambda>_. ret ())
      else if eventType = ''temporary.cleanup_requested'' then Some (cleanupTemporary storage)
      else if eventType = ''blob.reconcile_requested'' then Some (reconcileBlob storage catalog)
      else None)"

section \<open>The checkpoint runner\<close>

definition uploadCheckpoints :: "ingestCheckpoint list" where
  "uploadCheckpoints = [CpAuthorised, CpTemporaryUploadCreated, CpBytesReceived, CpHashVerified,
     CpImmutableObjectCommitted, CpMetadataCommitted, CpAuditCommitted, CpCompleted]"

text \<open>The state of a run: the completed checkpoints of the operation, the injector and the world of the effects.\<close>

record 'w runnerState =
  rn_completed :: "ingestCheckpoint list"
  rn_failed :: bool
  rn_world :: 'w

primrec checkpointName :: "ingestCheckpoint \<Rightarrow> string" where
  "checkpointName CpAuthorised = ''authorised''"
| "checkpointName CpTemporaryUploadCreated = ''temporary_upload_created''"
| "checkpointName CpBytesReceived = ''bytes_received''"
| "checkpointName CpHashVerified = ''hash_verified''"
| "checkpointName CpImmutableObjectCommitted = ''immutable_object_committed''"
| "checkpointName CpMetadataCommitted = ''metadata_committed''"
| "checkpointName CpAuditCommitted = ''audit_committed''"
| "checkpointName CpCompleted = ''completed''"

definition failOnceAt :: "ingestCheckpoint \<Rightarrow> ingestCheckpoint \<Rightarrow> ('w runnerState, unit) js" where
  "failOnceAt target cp =
     andThen (reading rn_failed) (\<lambda>failed.
       if \<not> failed \<and> cp = target
       then andThen (updating (\<lambda>s. s\<lparr>rn_failed := True\<rparr>)) (\<lambda>_.
         throw (plainError (''Injected failure before '' @ checkpointName cp)))
       else ret ())"

definition runCheckpoint ::
  "(ingestCheckpoint \<Rightarrow> ('w runnerState, unit) js) \<Rightarrow> (ingestCheckpoint \<Rightarrow> ('w, unit) js) \<Rightarrow> ingestCheckpoint list
     \<Rightarrow> ingestCheckpoint \<Rightarrow> ('w runnerState, unit) js" where
  "runCheckpoint before effects completed cp =
     (if cp \<in> set completed then ret ()
      else
        andThen (before cp) (\<lambda>_.
        andThen (within rn_world (\<lambda>x s. s\<lparr>rn_world := x\<rparr>) (effects cp)) (\<lambda>_.
        updating (\<lambda>s. s\<lparr>rn_completed := rn_completed s @ [cp]\<rparr>))))"

definition runCheckpoints ::
  "(ingestCheckpoint \<Rightarrow> ('w runnerState, unit) js) \<Rightarrow> (ingestCheckpoint \<Rightarrow> ('w, unit) js) \<Rightarrow> ('w runnerState, unit) js" where
  "runCheckpoints before effects =
     andThen (reading rn_completed) (\<lambda>completed. forEach uploadCheckpoints (runCheckpoint before effects completed))"

section \<open>Resuming after a failure\<close>

definition freshRunner :: "'w \<Rightarrow> 'w runnerState" where
  "freshRunner w = \<lparr>rn_completed = [], rn_failed = False, rn_world = w\<rparr>"

definition nextRun :: "ingestCheckpoint \<Rightarrow> (ingestCheckpoint \<Rightarrow> ('w, unit) js) \<Rightarrow> 'w runnerState \<Rightarrow> 'w runnerState" where
  "nextRun target effects s = snd (runCheckpoints (failOnceAt target) effects s)"

lemma run_completed:
  assumes "set uploadCheckpoints \<subseteq> set (rn_completed s)"
  shows "runCheckpoints before effects s = (Inr (), s)"
proof -
  have "forEach cs (runCheckpoint before effects (rn_completed s)) s = (Inr (), s)"
    if "set cs \<subseteq> set (rn_completed s)" for cs
    using that by (induction cs) (auto simp: js_simps runCheckpoint_def)
  with assms show ?thesis by (simp add: runCheckpoints_def js_simps)
qed

lemma first_two_runs:
  assumes eff: "\<And>c w. effects c w = (Inr (), f c w)"
  shows "\<not> isOk (fst (runCheckpoints (failOnceAt target) effects (freshRunner w)))
    \<and> runCheckpoints (failOnceAt target) effects (nextRun target effects (freshRunner w))
      = (Inr (), \<lparr>rn_completed = uploadCheckpoints, rn_failed = True, rn_world = snd (forEach uploadCheckpoints effects w)\<rparr>)"
  by (cases target)
    (simp_all add: nextRun_def freshRunner_def runCheckpoints_def runCheckpoint_def failOnceAt_def uploadCheckpoints_def js_simps eff)

text \<open>
  Failing once before any checkpoint and running again is equivalent to one uninterrupted
  run: when the effects themselves do not throw, the injected run throws, and every later run
  returns with all checkpoints completed and the world exactly as if each effect had been
  executed once, in order.
\<close>

theorem checkpoint_runner_resumes:
  assumes "\<And>c w. isOk (fst (effects c w))" and "0 < k"
  shows "\<not> isOk (fst (runCheckpoints (failOnceAt target) effects (freshRunner w)))
    \<and> runCheckpoints (failOnceAt target) effects ((nextRun target effects ^^ k) (freshRunner w))
      = (Inr (), \<lparr>rn_completed = uploadCheckpoints, rn_failed = True, rn_world = snd (forEach uploadCheckpoints effects w)\<rparr>)"
proof -
  let ?run = "runCheckpoints (failOnceAt target) effects"
  let ?final = "\<lparr>rn_completed = uploadCheckpoints, rn_failed = True, rn_world = snd (forEach uploadCheckpoints effects w)\<rparr>"
  have "effects c x = (Inr (), snd (effects c x))" for c x
    using assms(1) [of c x] by (metis isOk_iff old.unit.exhaust prod.collapse)
  note first = first_two_runs [of effects "\<lambda>c x. snd (effects c x)", OF this, of target w]
  have "?run ((nextRun target effects ^^ Suc n) (freshRunner w)) = (Inr (), ?final)" for n
  proof (induction n)
    case (Suc n)
    have "(nextRun target effects ^^ Suc (Suc n)) (freshRunner w)
        = snd (?run ((nextRun target effects ^^ Suc n) (freshRunner w)))" by (simp add: nextRun_def)
    with Suc.IH have "(nextRun target effects ^^ Suc (Suc n)) (freshRunner w) = ?final" by (simp only: snd_conv)
    then show ?case by (simp only: run_completed [of ?final] runnerState.select_convs order_refl)
  qed (use first in simp)
  with assms(2) first show ?thesis by (metis gr0_implies_Suc)
qed

theorem checkpoint_runner_resumes_witness:
  "rn_world (snd (runCheckpoints (failOnceAt CpHashVerified) (\<lambda>c w. (Inr (), w @ [c]))
      (nextRun CpHashVerified (\<lambda>c w. (Inr (), w @ [c])) (freshRunner [])))) = uploadCheckpoints"
proof -
  let ?eff = "\<lambda>c w. (Inr (), w @ [c]) :: (js_error + unit) \<times> ingestCheckpoint list"
  have "snd (forEach uploadCheckpoints ?eff []) = uploadCheckpoints" by (simp add: uploadCheckpoints_def js_simps)
  with checkpoint_runner_resumes [of ?eff 1 CpHashVerified "[]"] show ?thesis by simp
qed

section \<open>What reconciliation finds\<close>

lemma find_alist:
  "distinct (map fst xs) \<Longrightarrow> find (\<lambda>((w, h), row). w = w0 \<and> P row \<and> h = h0) xs
     = (case map_of xs (w0, h0) of None \<Rightarrow> None | Some row \<Rightarrow> if P row then Some ((w0, h0), row) else None)"
  by (induction xs) (force split: option.splits dest: map_of_SomeD)+

lemma distinct_keys: "distinct (map fst (DAList.impl_of m))"
  using DAList.impl_of [of m] by simp

lemma pgFindBlob_run:
  "pgFindBlob w sk h t = (Inr (case blobView (rt_catalog t) (w, h) of None \<Rightarrow> None
     | Some b \<Rightarrow> if blob_storageKey b = sk then Some \<lparr>fb_id = blob_id b, fb_byteLength = blob_byteLength b\<rparr> else None), t)"
  by (simp add: pgFindBlob_def js_simps blobView_def mapBlob_def DAList.lookup.rep_eq find_alist [OF distinct_keys]
      split: option.splits)

text \<open>
  The state is in order for a blob: it is catalogued with the key and the length, and the storage
  holds an object of that length under the key.
\<close>

type_synonym pgReconcileWorld = "(memoryObjectStorage, reconcileTables) reconcileWorld"

definition catalogued :: "string \<Rightarrow> string \<Rightarrow> string \<Rightarrow> pgReconcileWorld \<Rightarrow> bool" where
  "catalogued w sk h s \<longleftrightarrow>
     (case blobView (rt_catalog (rw_catalog s)) (w, h) of None \<Rightarrow> False | Some b \<Rightarrow> blob_storageKey b = sk)"

definition inOrder :: "string \<Rightarrow> string \<Rightarrow> string \<Rightarrow> int \<Rightarrow> pgReconcileWorld \<Rightarrow> bool" where
  "inOrder w sk h n s \<longleftrightarrow>
     (case blobView (rt_catalog (rw_catalog s)) (w, h) of None \<Rightarrow> False
      | Some b \<Rightarrow> blob_storageKey b = sk \<and> blob_byteLength b = n)
     \<and> (case ms_objects (rw_storage s) sk of None \<Rightarrow> False | Some x \<Rightarrow> int (length (sb_body x)) = n)"

abbreviation (input) pgReconcile :: "(bytes \<Rightarrow> string) \<Rightarrow> string \<Rightarrow> pgReconcileWorld handler" where
  "pgReconcile sha dayLater \<equiv> reconcileBlob (memoryStorageOps sha dayLater) postgresReconciliation"

lemma reconcile_verdict:
  assumes "requiredString ev ''storageKey'' = Inr sk" "requiredString ev ''sha256'' = Inr h"
    "requiredNumber ev ''byteLength'' = Inr n" "pgReconcile sha dayLater ev s = (r, t)"
  shows "rw_storage t = rw_storage s \<and> rt_catalog (rw_catalog t) = rt_catalog (rw_catalog s)
    \<and> (if inOrder (oe_workspaceId ev) sk h n s then r = Inr () \<and> t = s
       else if \<not> catalogued (oe_workspaceId ev) sk h s \<and> ms_objects (rw_storage s) sk = None
       then \<not> isOk r \<and> t = s
       else r = Inr () \<and> (\<exists>i. rt_incidents (rw_catalog t) = rt_incidents (rw_catalog s) @ [i]
         \<and> inc_workspaceId i = oe_workspaceId ev \<and> inc_operationId i = oe_operationId ev
         \<and> (inc_critical i \<longleftrightarrow> catalogued (oe_workspaceId ev) sk h s)))"
  using assms
  by (cases "blobView (rt_catalog (rw_catalog s)) (oe_workspaceId ev, h)"; cases "ms_objects (rw_storage s) sk")
    (auto simp: reconcileBlob_def postgresReconciliation_def memoryStorageOps_def headObject_def requireObject_def js_simps
      atCatalog_def atStorage_def pgFindBlob_run pgRecordIncident_def inOrder_def catalogued_def incidentOf_def metadataOf_def split: if_splits)

text \<open>
  Reconciling a blob changes neither the storage nor the catalogue; it is silent exactly when
  the blob is in order, reports exactly one incident when the catalogue or the storage disagree
  with the event, a critical one unless only the catalogue entry is missing, and throws, for a
  later attempt, when there is neither an entry nor an object.
\<close>

theorem reconcile_detects_damage:
  assumes "requiredString ev ''storageKey'' = Inr sk" "requiredString ev ''sha256'' = Inr h"
    "requiredNumber ev ''byteLength'' = Inr n" "pgReconcile sha dayLater ev s = (r, t)"
  shows "rw_storage t = rw_storage s \<and> rt_catalog (rw_catalog t) = rt_catalog (rw_catalog s)
    \<and> (if inOrder (oe_workspaceId ev) sk h n s then r = Inr () \<and> t = s
       else if \<not> catalogued (oe_workspaceId ev) sk h s \<and> ms_objects (rw_storage s) sk = None
       then \<not> isOk r \<and> t = s
       else r = Inr () \<and> (\<exists>i. rt_incidents (rw_catalog t) = rt_incidents (rw_catalog s) @ [i]
         \<and> inc_workspaceId i = oe_workspaceId ev \<and> inc_operationId i = oe_operationId ev
         \<and> (inc_critical i \<longleftrightarrow> catalogued (oe_workspaceId ev) sk h s)))"
  using assms by (rule reconcile_verdict)

definition reconcileEvent :: "string \<Rightarrow> string \<Rightarrow> string \<Rightarrow> int \<Rightarrow> outboxEvent" where
  "reconcileEvent w sk h n = \<lparr>oe_id = ''e1'', oe_workspaceId = w, oe_operationId = ''op'', oe_eventType = ''blob.reconcile_requested'',
     oe_payload = [(''storageKey'', JStr sk), (''sha256'', JStr h), (''byteLength'', JNum n)],
     oe_availableAt = 0, oe_attemptCount = 0\<rparr>"

definition damagedWorld :: pgReconcileWorld where
  "damagedWorld = \<lparr>rw_storage = emptyMemoryStorage None,
     rw_catalog = \<lparr>rt_catalog = is_catalog sampleIngestState, rt_incidents = []\<rparr>\<rparr>"

theorem reconcile_detects_damage_witness:
  "\<exists>t i. pgReconcile (\<lambda>_. sampleDigest) [] (reconcileEvent ''w1'' (blob_storageKey sampleBlob) sampleDigest 2) damagedWorld = (Inr (), t)
     \<and> rt_incidents (rw_catalog t) = [i] \<and> inc_critical i"
proof -
  let ?ev = "reconcileEvent ''w1'' (blob_storageKey sampleBlob) sampleDigest 2"
  obtain r t where run: "pgReconcile (\<lambda>_. sampleDigest) [] ?ev damagedWorld = (r, t)" by fastforce
  have ev: "requiredString ?ev ''storageKey'' = Inr (blob_storageKey sampleBlob)" "requiredString ?ev ''sha256'' = Inr sampleDigest"
    "requiredNumber ?ev ''byteLength'' = Inr 2"
    by (simp_all add: requiredString_def requiredNumber_def reconcileEvent_def isSafeInteger_def sampleBlob_def sampleDigest_def
        sampleCanonicalKey_def)
  have "catalogued ''w1'' (blob_storageKey sampleBlob) sampleDigest damagedWorld"
    "\<not> inOrder ''w1'' (blob_storageKey sampleBlob) sampleDigest 2 damagedWorld"
    by (simp_all add: catalogued_def inOrder_def damagedWorld_def sampleIngest_views emptyMemoryStorage_def)
  with reconcile_detects_damage [OF ev run] show ?thesis using run
    by (auto simp: reconcileEvent_def damagedWorld_def)
qed

section \<open>A healthy system is quiet\<close>

context outbox_store
begin

lemma process_completes:
  assumes wf: "wf (ws_store s)" and e: "entry (ws_store s) (oe_id ev) = Some e"
    and held: "\<And>at. at \<le> u \<Longrightarrow> heldBy (oe_workspaceId ev) (oe_id ev) (wc_workerId cfg) at e"
    and clock: "\<And>n. ws_clock s n \<le> u"
    and h: "handlers (oe_eventType ev) = Some h" "h ev (ws_world s) = (Inr (), ws_world s)"
  shows "\<exists>t. processEvent store handlers cfg ev s = (Inr SettledCompleted, t) \<and> ws_world t = ws_world s"
proof -
  obtain r q where q: "st_complete store (oe_workspaceId ev) (oe_id ev) (wc_workerId cfg) (ws_clock s (ws_ticks s)) (ws_store s) = (r, q)"
    by fastforce
  have "isOk r" using complete_live [OF wf e held [OF clock, of "ws_ticks s"]] q by (metis fst_conv)
  then show ?thesis using h q
    by (auto simp: isOk_iff processEvent_def onWorld_def onOutbox_def workerNow_def js_simps)
qed

lemma consume_completes:
  assumes "wf (ws_store s)" and "distinct (map oe_id es)"
    and "\<And>ev. ev \<in> set es \<Longrightarrow> \<exists>e. entry (ws_store s) (oe_id ev) = Some e \<and> oe_attemptCount e = oe_attemptCount ev
      \<and> (\<forall>at \<le> u. heldBy (oe_workspaceId ev) (oe_id ev) (wc_workerId cfg) at e)"
    and "\<And>n. ws_clock s n \<le> u"
    and "\<And>ev. ev \<in> set es \<Longrightarrow> \<exists>h. handlers (oe_eventType ev) = Some h \<and> h ev (ws_world s) = (Inr (), ws_world s)"
  shows "\<exists>t. consume store handlers cfg es run s = (Inr (run\<lparr>wr_completed := wr_completed run + length es\<rparr>), t) \<and> ws_world t = ws_world s"
  using assms
proof (induction es arbitrary: s run)
  case Nil
  then show ?case by (simp add: js_simps)
next
  case (Cons ev es)
  obtain e where e: "entry (ws_store s) (oe_id ev) = Some e" "oe_attemptCount e = oe_attemptCount ev"
    and held: "\<And>at. at \<le> u \<Longrightarrow> heldBy (oe_workspaceId ev) (oe_id ev) (wc_workerId cfg) at e"
    using Cons.prems(3) [of ev] by auto
  obtain h where h: "handlers (oe_eventType ev) = Some h" "h ev (ws_world s) = (Inr (), ws_world s)"
    using Cons.prems(5) [of ev] by auto
  obtain t where p: "processEvent store handlers cfg ev s = (Inr SettledCompleted, t)" and w: "ws_world t = ws_world s"
    using process_completes [OF Cons.prems(1) e(1) held Cons.prems(4), of handlers h] h by blast
  note rest = batch_rest [OF Cons.prems(1) e p Cons.prems(2,3)]
  have clock: "ws_clock t = ws_clock s" using process_live [OF Cons.prems(1) e(1) held Cons.prems(4), of handlers] p by simp
  have hs: "\<exists>h. handlers (oe_eventType ev') = Some h \<and> h ev' (ws_world t) = (Inr (), ws_world t)" if "ev' \<in> set es" for ev'
    using Cons.prems(5) [of ev'] that w by simp
  have "distinct (map oe_id es)" "\<And>n. ws_clock t n \<le> u" using Cons.prems(2,4) clock by simp_all
  from Cons.IH [OF rest(1) this(1) rest(2) this(2) hs, of "tally SettledCompleted run"] p w
  show ?case by (auto simp: js_simps tally_def)
qed

end

context outbox_store
begin

lemma runOnce_completes:
  assumes wf: "wf (ws_store s)" and clock: "\<And>n. ws_clock s n \<le> ws_clock s (ws_ticks s) + wc_leaseMs cfg"
    and hs: "\<And>i e. entry (ws_store s) i = Some e \<Longrightarrow> claimable None (ws_clock s (ws_ticks s)) e \<Longrightarrow>
      \<exists>h. handlers (oe_eventType e) = Some h \<and> h (outboxEvent.truncate e) (ws_world s) = (Inr (), ws_world s)"
  shows "\<exists>run t. runOnce store handlers cfg s = (Inr run, t) \<and> wr_completed run = wr_claimed run
    \<and> wr_retried run = 0 \<and> wr_quarantined run = 0 \<and> ws_world t = ws_world s"
proof -
  obtain es q where b: "st_claim store (wc_workerId cfg) (wc_workspaceId cfg) (wc_batchSize cfg)
      (ws_clock s (ws_ticks s) + wc_leaseMs cfg) (ws_clock s (ws_ticks s)) (ws_store s) = (Inr es, q)"
    "wf q" "distinct (map oe_id es)"
    "runOnce store handlers cfg s = consume store handlers cfg es
       \<lparr>wr_claimed = length es, wr_completed = 0, wr_retried = 0, wr_quarantined = 0\<rparr> (s\<lparr>ws_ticks := ws_ticks s + 1, ws_store := q\<rparr>)"
    by (rule runOnce_batch [OF wf]) blast
  have "\<exists>h. handlers (oe_eventType ev) = Some h \<and> h ev (ws_world s) = (Inr (), ws_world s)" if ev: "ev \<in> set es" for ev
  proof -
    obtain e where e: "entry (ws_store s) (oe_id ev) = Some e" "ev = outboxEvent.truncate e" "claimable None (ws_clock s (ws_ticks s)) e"
      using bspec [OF claim_ok [OF wf b(1), THEN conjunct2, THEN conjunct2, THEN conjunct2] ev] by blast
    from hs [OF e(1,3)] show ?thesis unfolding e(2) by (simp add: outboxEvent.truncate_def)
  qed
  note hs = this
  let ?run = "\<lparr>wr_claimed = length es, wr_completed = 0, wr_retried = 0, wr_quarantined = 0\<rparr>"
  let ?s = "s\<lparr>ws_ticks := ws_ticks s + 1, ws_store := q\<rparr>"
  have "\<exists>t. consume store handlers cfg es ?run ?s = (Inr (?run\<lparr>wr_completed := wr_completed ?run + length es\<rparr>), t) \<and> ws_world t = ws_world ?s"
    by (rule consume_completes [where u = "ws_clock s (ws_ticks s) + wc_leaseMs cfg"])
      (use b(2,3) claimed_held [OF wf b(1)] clock hs in simp_all)
  then show ?thesis unfolding b(4) by auto
qed

end

text \<open>An outbox event that carries the row that a committed ingest of a blob put into the outbox.\<close>

definition carriesIngest :: "(bytes \<Rightarrow> string) \<Rightarrow> catalogTables \<Rightarrow> outboxEvent \<Rightarrow> bool" where
  "carriesIngest sha c ev \<longleftrightarrow> (\<exists>inp b at. oe_workspaceId ev = ob_workspaceId (ingestOutbox sha inp b at)
     \<and> oe_eventType ev = ob_eventType (ingestOutbox sha inp b at) \<and> JObj (oe_payload ev) = ob_payload (ingestOutbox sha inp b at)
     \<and> blobView c (oe_workspaceId ev, blob_sha256 b) = Some b \<and> isSafeInteger (blob_byteLength b))"

definition reconcileWorldOf :: "pgIngestState \<Rightarrow> incident list \<Rightarrow> pgReconcileWorld" where
  "reconcileWorldOf s is = \<lparr>rw_storage = is_storage s, rw_catalog = \<lparr>rt_catalog = is_catalog s, rt_incidents = is\<rparr>\<rparr>"

lemma canonicalObjectKey_nonempty: "canonicalObjectKey w h = Inr k \<Longrightarrow> k \<noteq> [] \<and> h \<noteq> []"
  by (auto simp: canonicalObjectKey_def isSha256_def split: if_splits)

lemma ingest_in_order:
  assumes inv: "ingestInvariant sha s" and ev: "carriesIngest sha (is_catalog s) ev"
  shows "pgReconcile sha dayLater ev (reconcileWorldOf s is) = (Inr (), reconcileWorldOf s is)"
    and "oe_eventType ev = ''blob.reconcile_requested''"
proof -
  from ev obtain inp b at where r: "JObj (oe_payload ev) = ob_payload (ingestOutbox sha inp b at)"
      "oe_eventType ev = ob_eventType (ingestOutbox sha inp b at)"
    and view: "blobView (is_catalog s) (oe_workspaceId ev, blob_sha256 b) = Some b" and safe: "isSafeInteger (blob_byteLength b)"
    unfolding carriesIngest_def by blast
  have b: "oe_payload ev = [(''storageKey'', JStr (blob_storageKey b)), (''sha256'', JStr (blob_sha256 b)),
        (''byteLength'', JNum (blob_byteLength b))]"
    and type: "oe_eventType ev = ''blob.reconcile_requested''" using r by (simp_all add: ingestOutbox_def)
  have "storedAs (ms_objects (is_storage s)) (oe_workspaceId ev) (blob_sha256 b) (blob_byteLength b) (blob_storageKey b)"
    using inv view unfolding ingestInvariant_def ingestInv_def blobOk_def by blast
  then obtain x where x: "ms_objects (is_storage s) (blob_storageKey b) = Some x" "int (length (sb_body x)) = blob_byteLength b"
    and k: "canonicalObjectKey (oe_workspaceId ev) (blob_sha256 b) = Inr (blob_storageKey b)"
    unfolding storedAs_def by blast
  have req: "requiredString ev ''storageKey'' = Inr (blob_storageKey b)" "requiredString ev ''sha256'' = Inr (blob_sha256 b)"
    "requiredNumber ev ''byteLength'' = Inr (blob_byteLength b)"
    using canonicalObjectKey_nonempty [OF k] safe x(2) by (auto simp: requiredString_def requiredNumber_def b)
  have "inOrder (oe_workspaceId ev) (blob_storageKey b) (blob_sha256 b) (blob_byteLength b) (reconcileWorldOf s is)"
    using view x by (simp add: inOrder_def reconcileWorldOf_def)
  then show "pgReconcile sha dayLater ev (reconcileWorldOf s is) = (Inr (), reconcileWorldOf s is)"
    using reconcile_verdict [OF req, of sha dayLater] by (metis surj_pair)
  show "oe_eventType ev = ''blob.reconcile_requested''" by (rule type)
qed

text \<open>
  C15. The parts work together: when the ingest invariant holds and every due event of the outbox
  is one that a committed ingest put there for a catalogued blob, a worker run over the Postgres
  outbox and the reconciliation handlers completes every event it claims, retries and quarantines
  none, and reports no incident.
\<close>

theorem ingested_blobs_reconcile_quietly:
  assumes "ingestInvariant sha s" and "outboxOk (ws_store w)" and "ws_world w = reconcileWorldOf s is"
    and "\<And>n. ws_clock w n \<le> ws_clock w (ws_ticks w) + wc_leaseMs cfg"
    and "\<And>e. e \<in> set (ox_events (ws_store w)) \<Longrightarrow> claimable None (ws_clock w (ws_ticks w)) e \<Longrightarrow>
      carriesIngest sha (is_catalog s) (outboxEvent.truncate e)"
  shows "\<exists>run t. runOnce postgresOutbox (createReconciliationHandlers (memoryStorageOps sha dayLater) postgresReconciliation) cfg w
      = (Inr run, t) \<and> wr_completed run = wr_claimed run \<and> wr_retried run = 0 \<and> wr_quarantined run = 0
    \<and> rt_incidents (rw_catalog (ws_world t)) = is"
proof -
  let ?hs = "createReconciliationHandlers (memoryStorageOps sha dayLater) postgresReconciliation"
  have hs: "\<exists>h. ?hs (oe_eventType e) = Some h \<and> h (outboxEvent.truncate e) (ws_world w) = (Inr (), ws_world w)"
    if "entryOf (ws_store w) i = Some e" "claimable None (ws_clock w (ws_ticks w)) e" for i e
  proof -
    have "carriesIngest sha (is_catalog s) (outboxEvent.truncate e)" using assms(5) entryOf_Some [OF that(1)] that(2) by blast
    from ingest_in_order(1) [OF assms(1) this, of dayLater "is"] ingest_in_order(2) [OF assms(1) this] show ?thesis
      by (simp add: createReconciliationHandlers_def assms(3) outboxEvent.truncate_def)
  qed
  have "\<exists>run t. runOnce postgresOutbox ?hs cfg w = (Inr run, t) \<and> wr_completed run = wr_claimed run
      \<and> wr_retried run = 0 \<and> wr_quarantined run = 0 \<and> ws_world t = ws_world w"
    by (rule pgOutbox.runOnce_completes [OF assms(2,4)]) (rule hs)
  then show ?thesis by (auto simp: assms(3) reconcileWorldOf_def)
qed

definition quietWorker :: "(outboxTables, pgReconcileWorld) workerState" where
  "quietWorker = \<lparr>ws_store = act (Enqueue (reconcileEvent ''w1'' (blob_storageKey sampleBlob) sampleDigest 2)) \<lparr>ox_events = [], ox_incidents = []\<rparr>,
     ws_world = reconcileWorldOf sampleIngestState [], ws_clock = (\<lambda>_. 10), ws_ticks = 0\<rparr>"

theorem ingested_blobs_reconcile_quietly_witness:
  "\<exists>run t. runOnce postgresOutbox (createReconciliationHandlers (memoryStorageOps (\<lambda>_. sampleDigest) []) postgresReconciliation)
      (defaultConfig ''A'') quietWorker = (Inr run, t) \<and> wr_completed run = wr_claimed run \<and> wr_claimed run = 1
    \<and> rt_incidents (rw_catalog (ws_world t)) = []"
proof -
  let ?hs = "createReconciliationHandlers (memoryStorageOps (\<lambda>_. sampleDigest) []) postgresReconciliation"
  have carries: "carriesIngest (\<lambda>_. sampleDigest) (is_catalog sampleIngestState) (outboxEvent.truncate e)"
    if "e \<in> set (ox_events (ws_store quietWorker))" for e
    unfolding carriesIngest_def
    by (rule exI [of _ "sampleVerified"], rule exI [of _ sampleBlob], rule exI [of _ "[]"])
      (use that in \<open>simp add: quietWorker_def enqueued_def outboxEvent.extend_def outboxEvent.truncate_def reconcileEvent_def
        ingestOutbox_def sampleVerified_def sampleIngest_views isSafeInteger_def, simp add: sampleBlob_def\<close>)
  have ok: "outboxOk (ws_store quietWorker)"
    by (simp add: quietWorker_def outboxOk_def enqueued_def outboxEvent.extend_def settledEntry_def)
  have clock: "ws_clock quietWorker n \<le> ws_clock quietWorker (ws_ticks quietWorker) + wc_leaseMs (defaultConfig ''A'')" for n
    by (simp add: quietWorker_def defaultConfig_def)
  obtain run t where run: "runOnce postgresOutbox ?hs (defaultConfig ''A'') quietWorker = (Inr run, t)"
    "wr_completed run = wr_claimed run" "rt_incidents (rw_catalog (ws_world t)) = []"
    using ingested_blobs_reconcile_quietly [OF sampleIngest_inv ok _ clock carries, of "[]" "[]"]
    by (auto simp: quietWorker_def)
  moreover have "wr_claimed run = 1"
    using runOnce_claimed [OF run(1)]
    by (simp add: quietWorker_def defaultConfig_def workerScope_def claimable_def enqueued_def outboxEvent.extend_def reconcileEvent_def)
  ultimately show ?thesis by blast
qed

end
