(* ===== verification/Recovery.thy ===== *)
theory Recovery
  imports Prelude "HOL-Library.Multiset"
begin

text \<open>
  \<open>packages/recovery/src/index.ts\<close>: the gate that decides from the evidence of the recovery
  exercises whether a deployment may claim to be recoverable. \<open>Date.parse\<close> is the parameter
  \<open>dp\<close>, which gives no value where it gives \<open>NaN\<close>. A status is one of the three of the type, so the
  \<open>default\<close> branch that throws has no counterpart.
\<close>

datatype recoveryExerciseKind =
  PostgresPitr | MissingBlobRestore | CombinedStoreRestore | KeyRecovery | PrimaryAccountUnavailable | FullTrustVerification

definition recoveryExerciseKinds :: "recoveryExerciseKind list" where
  "recoveryExerciseKinds = [PostgresPitr, MissingBlobRestore, CombinedStoreRestore, KeyRecovery, PrimaryAccountUnavailable,
     FullTrustVerification]"

datatype recoveryExerciseStatus = ExercisePassed | ExerciseFailed | ExerciseNotRun

record recoveryExerciseEvidence =
  rx_kind :: recoveryExerciseKind
  rx_status :: recoveryExerciseStatus
  rx_startedAt :: string
  rx_finishedAt :: string
  rx_environmentId :: string
  rx_evidenceUri :: string
  rx_notes :: "string option"
  rx_primaryAccountUnavailable :: "bool option"
  rx_independentlyAdministeredTarget :: "bool option"

record recoveryGateEvidence =
  rg_sourceCommit :: string
  rg_generatedAt :: string
  rg_deploymentProfile :: string
  rg_exercises :: "recoveryExerciseEvidence list"

record recoveryGateIssue =
  ri_code :: string
  ri_exercise :: "recoveryExerciseKind option"
  ri_message :: string

record recoveryGateReport =
  rr_pass :: bool
  rr_sourceCommit :: string
  rr_checkedExercises :: nat
  rr_issues :: "recoveryGateIssue list"

definition recoveryIssue :: "string \<Rightarrow> recoveryExerciseKind option \<Rightarrow> string \<Rightarrow> recoveryGateIssue" where
  "recoveryIssue code exercise message = \<lparr>ri_code = code, ri_exercise = exercise, ri_message = message\<rparr>"

text \<open>\<open>if (bad) issues.push(issue)\<close>\<close>

definition issueWhen :: "bool \<Rightarrow> string \<Rightarrow> recoveryExerciseKind option \<Rightarrow> string \<Rightarrow> recoveryGateIssue list" where
  "issueWhen bad code exercise message = (if bad then [recoveryIssue code exercise message] else [])"

definition isCommitHash :: "string \<Rightarrow> bool" where
  "isCommitHash x \<longleftrightarrow> length x = 40 \<and> list_all lower_hex x"

definition isIsoTimestamp :: "(string \<Rightarrow> int option) \<Rightarrow> string \<Rightarrow> bool" where
  "isIsoTimestamp dp x \<longleftrightarrow> dp x \<noteq> None \<and> str_includes x ''T''"

definition isEvidenceUri :: "string \<Rightarrow> bool" where
  "isEvidenceUri x \<longleftrightarrow> list_ex (\<lambda>p. startsWith x p \<and> drop (length p) x \<noteq> [] \<and> list_all (\<lambda>c. \<not> js_space c) (drop (length p) x))
     [''https://'', ''artifact:'']"

primrec statusIssues :: "recoveryExerciseStatus \<Rightarrow> recoveryExerciseKind \<Rightarrow> recoveryGateIssue list" where
  "statusIssues ExercisePassed kind = []"
| "statusIssues ExerciseFailed kind =
     [recoveryIssue ''RECOVERY_EXERCISE_FAILED'' (Some kind) ''A required recovery exercise failed.'']"
| "statusIssues ExerciseNotRun kind =
     [recoveryIssue ''RECOVERY_EXERCISE_NOT_RUN'' (Some kind) ''A required recovery exercise was not run.'']"

text \<open>A comparison with \<open>NaN\<close> is false; it is reached with two finite times only.\<close>

definition finishedBefore :: "(string \<Rightarrow> int option) \<Rightarrow> string \<Rightarrow> string \<Rightarrow> bool" where
  "finishedBefore dp finishedAt startedAt = (case (dp finishedAt, dp startedAt) of (Some f, Some s) \<Rightarrow> f < s | _ \<Rightarrow> False)"

definition validateExercise :: "(string \<Rightarrow> int option) \<Rightarrow> recoveryExerciseEvidence \<Rightarrow> recoveryGateIssue list" where
  "validateExercise dp exercise =
     statusIssues (rx_status exercise) (rx_kind exercise)
     @ issueWhen (\<not> isIsoTimestamp dp (rx_startedAt exercise) \<or> \<not> isIsoTimestamp dp (rx_finishedAt exercise)
          \<or> finishedBefore dp (rx_finishedAt exercise) (rx_startedAt exercise))
         ''RECOVERY_EXERCISE_TIME_INVALID'' (Some (rx_kind exercise))
         ''Recovery exercise timestamps are invalid or out of order.''
     @ issueWhen (blank (rx_environmentId exercise))
         ''RECOVERY_ENVIRONMENT_REQUIRED'' (Some (rx_kind exercise))
         ''Recovery exercise evidence must identify its environment.''
     @ issueWhen (\<not> isEvidenceUri (rx_evidenceUri exercise))
         ''RECOVERY_EVIDENCE_URI_INVALID'' (Some (rx_kind exercise))
         ''Recovery exercise evidence must use an HTTPS or artifact URI.''"

text \<open>The loop over the exercises: the map \<open>byKind\<close>, in insertion order, and the issues so far.\<close>

fun checkExercises ::
  "(string \<Rightarrow> int option) \<Rightarrow> recoveryExerciseEvidence list \<Rightarrow> (recoveryExerciseKind \<times> recoveryExerciseEvidence) list
     \<Rightarrow> recoveryGateIssue list \<Rightarrow> (recoveryExerciseKind \<times> recoveryExerciseEvidence) list \<times> recoveryGateIssue list" where
  "checkExercises dp [] byKind issues = (byKind, issues)"
| "checkExercises dp (exercise # rest) byKind issues =
     (if rx_kind exercise \<in> fst ` set byKind
      then checkExercises dp rest byKind (issues @ [recoveryIssue ''RECOVERY_EXERCISE_DUPLICATE'' (Some (rx_kind exercise))
          ''Recovery evidence contains a duplicate exercise.''])
      else checkExercises dp rest (byKind @ [(rx_kind exercise, exercise)]) (issues @ validateExercise dp exercise))"

definition evaluateRecoveryGate :: "(string \<Rightarrow> int option) \<Rightarrow> recoveryGateEvidence \<Rightarrow> recoveryGateReport" where
  "evaluateRecoveryGate dp evidence =
     (let issues0 =
        issueWhen (\<not> isCommitHash (rg_sourceCommit evidence)) ''RECOVERY_SOURCE_COMMIT_INVALID'' None
          ''Recovery evidence must identify an exact Git commit.''
        @ issueWhen (\<not> isIsoTimestamp dp (rg_generatedAt evidence)) ''RECOVERY_GENERATED_AT_INVALID'' None
          ''Recovery evidence requires a valid generated timestamp.''
        @ issueWhen (blank (rg_deploymentProfile evidence)) ''RECOVERY_DEPLOYMENT_PROFILE_REQUIRED'' None
          ''Recovery evidence must identify its deployment profile.'';
          (byKind, issues1) = checkExercises dp (rg_exercises evidence) [] issues0;
          missing = concat (map (\<lambda>kind. issueWhen (kind \<notin> fst ` set byKind) ''RECOVERY_EXERCISE_MISSING'' (Some kind)
            ''A required recovery exercise has no evidence.'') recoveryExerciseKinds);
          outage = (case map_of byKind PrimaryAccountUnavailable of None \<Rightarrow> []
            | Some x \<Rightarrow> issueWhen (rx_status x = ExercisePassed \<and> (rx_primaryAccountUnavailable x \<noteq> Some True
                 \<or> rx_independentlyAdministeredTarget x \<noteq> Some True))
               ''RECOVERY_OUTAGE_BOUNDARY_UNPROVEN'' (Some PrimaryAccountUnavailable)
               ''The outage drill must prove the primary account was unavailable and the target was independently administered.'');
          issues = issues1 @ missing @ outage in
      \<lparr>rr_pass = (issues = []), rr_sourceCommit = rg_sourceCommit evidence, rr_checkedExercises = length byKind, rr_issues = issues\<rparr>)"

section \<open>When the gate passes\<close>

definition goodExercise :: "(string \<Rightarrow> int option) \<Rightarrow> recoveryExerciseEvidence \<Rightarrow> bool" where
  "goodExercise dp x \<longleftrightarrow> rx_status x = ExercisePassed
     \<and> (\<exists>s f. dp (rx_startedAt x) = Some s \<and> dp (rx_finishedAt x) = Some f \<and> s \<le> f)
     \<and> str_includes (rx_startedAt x) ''T'' \<and> str_includes (rx_finishedAt x) ''T''
     \<and> \<not> blank (rx_environmentId x) \<and> isEvidenceUri (rx_evidenceUri x)
     \<and> (rx_kind x = PrimaryAccountUnavailable \<longrightarrow>
          rx_primaryAccountUnavailable x = Some True \<and> rx_independentlyAdministeredTarget x = Some True)"

definition recoverable :: "(string \<Rightarrow> int option) \<Rightarrow> recoveryGateEvidence \<Rightarrow> bool" where
  "recoverable dp e \<longleftrightarrow> isCommitHash (rg_sourceCommit e) \<and> isIsoTimestamp dp (rg_generatedAt e) \<and> \<not> blank (rg_deploymentProfile e)
     \<and> mset (map rx_kind (rg_exercises e)) = mset recoveryExerciseKinds \<and> list_all (goodExercise dp) (rg_exercises e)"

lemma issueWhen_Nil [simp]: "issueWhen b c k m = [] \<longleftrightarrow> \<not> b"
  by (simp add: issueWhen_def)

lemma statusIssues_Nil [simp]: "statusIssues s k = [] \<longleftrightarrow> s = ExercisePassed"
  by (cases s) simp_all

definition keyed :: "recoveryExerciseEvidence list \<Rightarrow> (recoveryExerciseKind \<times> recoveryExerciseEvidence) list" where
  "keyed xs = map (\<lambda>x. (rx_kind x, x)) xs"

lemma checkExercises_pass:
  "snd (checkExercises dp xs byKind issues) = [] \<longleftrightarrow>
     issues = [] \<and> distinct (map rx_kind xs) \<and> (\<forall>x \<in> set xs. rx_kind x \<notin> fst ` set byKind \<and> validateExercise dp x = [])"
  by (induction dp xs byKind issues rule: checkExercises.induct) (auto, (metis image_eqI)+)

lemma checkExercises_keyed:
  "distinct (map rx_kind xs) \<Longrightarrow> (\<forall>x \<in> set xs. rx_kind x \<notin> fst ` set byKind) \<Longrightarrow>
     fst (checkExercises dp xs byKind issues) = byKind @ keyed xs"
  by (induction dp xs byKind issues rule: checkExercises.induct) (auto simp: keyed_def image_iff, metis+)

lemma validateExercise_Nil:
  "validateExercise dp x = [] \<longleftrightarrow> rx_status x = ExercisePassed
     \<and> (\<exists>s f. dp (rx_startedAt x) = Some s \<and> dp (rx_finishedAt x) = Some f \<and> s \<le> f)
     \<and> str_includes (rx_startedAt x) ''T'' \<and> str_includes (rx_finishedAt x) ''T''
     \<and> \<not> blank (rx_environmentId x) \<and> isEvidenceUri (rx_evidenceUri x)"
  by (auto simp: validateExercise_def isIsoTimestamp_def finishedBefore_def split: option.splits)

lemma goodExercise_iff:
  "goodExercise dp x \<longleftrightarrow> validateExercise dp x = [] \<and> (rx_kind x = PrimaryAccountUnavailable \<longrightarrow>
     rx_primaryAccountUnavailable x = Some True \<and> rx_independentlyAdministeredTarget x = Some True)"
  unfolding goodExercise_def validateExercise_Nil by blast

lemma exactly_the_kinds:
  "mset (map rx_kind xs) = mset recoveryExerciseKinds \<longleftrightarrow>
     distinct (map rx_kind xs) \<and> (\<forall>k \<in> set recoveryExerciseKinds. k \<in> rx_kind ` set xs)"
proof -
  have d: "distinct recoveryExerciseKinds" and all: "k \<in> set recoveryExerciseKinds" for k
    by (simp_all add: recoveryExerciseKinds_def) (cases k; simp)
  have "mset (map rx_kind xs) = mset recoveryExerciseKinds \<longleftrightarrow> distinct (map rx_kind xs) \<and> rx_kind ` set xs = set recoveryExerciseKinds"
    using d by (metis mset_eq_imp_distinct_iff set_eq_iff_mset_eq_distinct set_map)
  then show ?thesis using all by auto
qed

lemma keyed_lookup: "distinct (map rx_kind xs) \<Longrightarrow> map_of (keyed xs) k = Some x \<longleftrightarrow> x \<in> set xs \<and> rx_kind x = k"
  by (induction xs) (auto simp: keyed_def image_iff)

text \<open>
  C39. The gate is equivalent to its declarative reading: it passes exactly when the evidence names
  a commit, a time and a profile, has one exercise of each kind and no other, every exercise
  passed with ordered times, an environment and evidence, and the outage drill proves the two
  boundaries. It passes exactly when it reports no issue, and then it has checked all six kinds.
\<close>

theorem recovery_gate_equivalence:
  "(rr_pass (evaluateRecoveryGate dp e) \<longleftrightarrow> recoverable dp e)
   \<and> (rr_pass (evaluateRecoveryGate dp e) \<longleftrightarrow> rr_issues (evaluateRecoveryGate dp e) = []
        \<and> rr_checkedExercises (evaluateRecoveryGate dp e) = length recoveryExerciseKinds)"
proof -
  define i0 where "i0 = issueWhen (\<not> isCommitHash (rg_sourceCommit e)) ''RECOVERY_SOURCE_COMMIT_INVALID'' None
          ''Recovery evidence must identify an exact Git commit.''
        @ issueWhen (\<not> isIsoTimestamp dp (rg_generatedAt e)) ''RECOVERY_GENERATED_AT_INVALID'' None
          ''Recovery evidence requires a valid generated timestamp.''
        @ issueWhen (blank (rg_deploymentProfile e)) ''RECOVERY_DEPLOYMENT_PROFILE_REQUIRED'' None
          ''Recovery evidence must identify its deployment profile.''"
  then have i0: "i0 = [] \<longleftrightarrow> isCommitHash (rg_sourceCommit e) \<and> isIsoTimestamp dp (rg_generatedAt e) \<and> \<not> blank (rg_deploymentProfile e)"
    by simp
  let ?xs = "rg_exercises e" and ?run = "checkExercises dp (rg_exercises e) [] i0"
  let ?ok = "i0 = [] \<and> distinct (map rx_kind ?xs) \<and> (\<forall>x \<in> set ?xs. validateExercise dp x = [])"
  have ok: "snd ?run = [] \<longleftrightarrow> ?ok" by (simp add: checkExercises_pass)
  have keyedBy: "fst ?run = keyed ?xs" if ?ok using that checkExercises_keyed [of ?xs "[]" dp i0] by simp
  have pass: "rr_pass (evaluateRecoveryGate dp e) \<longleftrightarrow> snd ?run = [] \<and> (\<forall>k \<in> set recoveryExerciseKinds. k \<in> fst ` set (fst ?run))
      \<and> (\<forall>x. map_of (fst ?run) PrimaryAccountUnavailable = Some x \<and> rx_status x = ExercisePassed
           \<longrightarrow> rx_primaryAccountUnavailable x = Some True \<and> rx_independentlyAdministeredTarget x = Some True)"
    by (auto simp: evaluateRecoveryGate_def i0_def Let_def split: prod.splits option.splits)
  have "rr_pass (evaluateRecoveryGate dp e) \<longleftrightarrow> ?ok \<and> (\<forall>k \<in> set recoveryExerciseKinds. k \<in> rx_kind ` set ?xs)
      \<and> (\<forall>x \<in> set ?xs. rx_kind x = PrimaryAccountUnavailable \<longrightarrow>
           rx_primaryAccountUnavailable x = Some True \<and> rx_independentlyAdministeredTarget x = Some True)"
  proof (cases ?ok)
    case True
    then have "rx_status x = ExercisePassed" if "x \<in> set ?xs" for x using that by (simp add: validateExercise_Nil)
    moreover have "fst ` set (keyed ?xs) = rx_kind ` set ?xs" by (force simp: keyed_def)
    ultimately show ?thesis unfolding pass ok keyedBy [OF True] using True keyed_lookup [of ?xs PrimaryAccountUnavailable] by auto
  qed (use pass ok in blast)
  then have eq: "rr_pass (evaluateRecoveryGate dp e) \<longleftrightarrow> recoverable dp e"
    unfolding recoverable_def exactly_the_kinds list_all_iff goodExercise_iff i0 by blast
  have issues: "rr_pass (evaluateRecoveryGate dp e) \<longleftrightarrow> rr_issues (evaluateRecoveryGate dp e) = []"
    by (simp add: evaluateRecoveryGate_def Let_def split: prod.splits)
  have checked: "rr_checkedExercises (evaluateRecoveryGate dp e) = length (fst ?run)"
    by (simp add: evaluateRecoveryGate_def i0_def Let_def split: prod.splits)
  have "length (fst ?run) = length recoveryExerciseKinds" if p: "rr_pass (evaluateRecoveryGate dp e)"
  proof -
    from p pass ok have ?ok by blast
    from keyedBy [OF this] have "length (fst ?run) = length (map rx_kind ?xs)" by (simp add: keyed_def)
    also have "\<dots> = length recoveryExerciseKinds" using p eq by (metis recoverable_def size_mset)
    finally show ?thesis .
  qed
  with eq issues checked show ?thesis by auto
qed

end
