(* ===== verification/ArchiveImport.thy ===== *)
theory ArchiveImport
  imports AuditChain
begin

text \<open>
  \<open>packages/archive/src/types.ts\<close> (what an import uses of it), \<open>paths.ts\<close>, the plan identity of
  \<open>import-plan.ts\<close> and \<open>import-executor.ts\<close>: the executor that carries a planned import through
  its checkpoints. The stores it writes to are records of operations on one state, since both
  reach the same database; the clock is the ambient state.

  The loop is \<open>partial_function (option)\<close>: a store that never reports progress would keep it
  going for ever. That it ends on the Postgres store is a theorem of \<open>ArchiveImportStore\<close>.
\<close>

section \<open>Archives\<close>

datatype archiveRecordKind =
  KWorkspaces | KSchemaPackages | KDatasets | KResources | KRevisions | KRevisionBlobs | KBlobs | KRelations
  | KTombstones | KAuditEvents | KRetention

definition archiveRecordKinds :: "archiveRecordKind list" where
  "archiveRecordKinds = [KWorkspaces, KSchemaPackages, KDatasets, KResources, KRevisions, KRevisionBlobs, KBlobs, KRelations,
     KTombstones, KAuditEvents, KRetention]"

primrec recordKindName :: "archiveRecordKind \<Rightarrow> string" where
  "recordKindName KWorkspaces = ''workspaces''"
| "recordKindName KSchemaPackages = ''schema-packages''"
| "recordKindName KDatasets = ''datasets''"
| "recordKindName KResources = ''resources''"
| "recordKindName KRevisions = ''revisions''"
| "recordKindName KRevisionBlobs = ''revision-blobs''"
| "recordKindName KBlobs = ''blobs''"
| "recordKindName KRelations = ''relations''"
| "recordKindName KTombstones = ''tombstones''"
| "recordKindName KAuditEvents = ''audit-events''"
| "recordKindName KRetention = ''retention''"

type_synonym archiveRecord = "(string \<times> json) list"

type_synonym recordSets = "archiveRecordKind \<Rightarrow> archiveRecord list"

record auditLineage =
  al_sourceWorkspaceId :: string
  al_eventCount :: int
  al_firstEventHash :: "string option"
  al_lastEventHash :: "string option"

datatype signatureProfile = Unsigned | ManifestSignature (sp_keyId: string)

record trustArchiveManifest =
  tm_formatVersion :: string
  tm_exportId :: string
  tm_workspaceId :: string
  tm_datasetIds :: "string list"
  tm_createdAt :: string
  tm_createdBy :: string
  tm_sourceVersion :: string
  tm_signatureProfile :: signatureProfile
  tm_auditLineage :: auditLineage
  tm_recordCounts :: "archiveRecordKind \<Rightarrow> int"
  tm_blobCount :: int
  tm_totalBlobBytes :: int

definition nullable :: "string option \<Rightarrow> json" where
  "nullable x = (case x of None \<Rightarrow> JNull | Some s \<Rightarrow> JStr s)"

definition lineageJson :: "auditLineage \<Rightarrow> json" where
  "lineageJson l = JObj [(''mode'', JStr ''source_chain''), (''sourceWorkspaceId'', JStr (al_sourceWorkspaceId l)),
     (''eventCount'', JNum (al_eventCount l)), (''firstEventHash'', nullable (al_firstEventHash l)),
     (''lastEventHash'', nullable (al_lastEventHash l))]"

primrec signatureProfileJson :: "signatureProfile \<Rightarrow> json" where
  "signatureProfileJson Unsigned = JStr ''unsigned''"
| "signatureProfileJson (ManifestSignature keyId) = JObj [(''name'', JStr ''trust-core-manifest-signature-v1''),
     (''algorithm'', JStr ''Ed25519''), (''keyId'', JStr keyId)]"

definition manifestJson :: "trustArchiveManifest \<Rightarrow> json" where
  "manifestJson m = JObj
     [(''format'', JStr ''trustarchive''), (''formatVersion'', JStr (tm_formatVersion m)), (''exportId'', JStr (tm_exportId m)),
      (''workspaceId'', JStr (tm_workspaceId m)), (''datasetIds'', JArr (map JStr (tm_datasetIds m))),
      (''createdAt'', JStr (tm_createdAt m)), (''createdBy'', JStr (tm_createdBy m)), (''sourceVersion'', JStr (tm_sourceVersion m)),
      (''checksumAlgorithm'', JStr ''sha256''), (''canonicalJsonProfile'', JStr ''trust-core-canonical-json-v1''),
      (''signatureProfile'', signatureProfileJson (tm_signatureProfile m)), (''auditLineage'', lineageJson (tm_auditLineage m)),
      (''recordCounts'', JObj (map (\<lambda>k. (recordKindName k, JNum (tm_recordCounts m k))) archiveRecordKinds)),
      (''blobCount'', JNum (tm_blobCount m)), (''totalBlobBytes'', JNum (tm_totalBlobBytes m))]"

text \<open>
  A parsed archive with what its verification says: whether it is valid and the records read, none
  for a kind without a record file.
\<close>

record parsedTrustArchive =
  pa_entries :: "string \<rightharpoonup> bytes"
  pa_manifest :: trustArchiveManifest
  pa_valid :: bool
  pa_records :: "archiveRecordKind \<Rightarrow> archiveRecord list"

definition blobArchivePath :: "string \<Rightarrow> js_error + string" where
  "blobArchivePath digest =
     (if \<not> isSha256 digest then Inl (plainError ''Blob SHA-256 is invalid.'')
      else Inr (''blobs/'' @ take 2 digest @ ''/'' @ digest))"

section \<open>Plans\<close>

datatype archiveImportMode = PreserveIds | MappedWorkspace
datatype archiveConflictMode = RejectOnError | ReportOnly
datatype disposition = Insert | AlreadyPresent | Blocked
datatype actionKind = RecordOf archiveRecordKind | BlobBytes
datatype planStatus = PlanReady | PlanRejected | PlanReportOnly

primrec modeName :: "archiveImportMode \<Rightarrow> string" where
  "modeName PreserveIds = ''preserve_ids''"
| "modeName MappedWorkspace = ''mapped_workspace''"

primrec conflictModeName :: "archiveConflictMode \<Rightarrow> string" where
  "conflictModeName RejectOnError = ''reject_on_error''"
| "conflictModeName ReportOnly = ''report_only''"

primrec actionKindName :: "actionKind \<Rightarrow> string" where
  "actionKindName (RecordOf k) = recordKindName k"
| "actionKindName BlobBytes = ''blob-bytes''"

record archiveIssue =
  ai_code :: string
  ai_path :: "string option"
  ai_message :: string

record archiveImportAction =
  aa_index :: nat
  aa_phase :: int
  aa_kind :: actionKind
  aa_sourceId :: string
  aa_targetId :: string
  aa_disposition :: disposition
  aa_record :: "archiveRecord option"
  aa_dependsOn :: "string list"

record archiveImportPlan =
  pl_planId :: string
  pl_archiveExportId :: string
  pl_sourceWorkspaceId :: string
  pl_targetWorkspaceId :: string
  pl_mode :: archiveImportMode
  pl_conflictMode :: archiveConflictMode
  pl_status :: planStatus
  pl_issues :: "archiveIssue list"
  pl_actions :: "archiveImportAction list"
  pl_counts :: "disposition \<Rightarrow> nat"

text \<open>
  What the target holds, by kind and identifier. The dictionaries are plain objects, so a missing
  identifier may read an inherited member; the encoder rejects the inherited functions and sees an
  empty object behind \<open>__proto__\<close>.
\<close>

record archiveImportInventory =
  iv_workspaceId :: "string option"
  iv_records :: "archiveRecordKind \<Rightarrow> (string \<times> archiveRecord) list"
  iv_blobDigests :: "string list option"

definition inventoryRecord :: "archiveImportInventory \<Rightarrow> archiveRecordKind \<Rightarrow> string \<Rightarrow> archiveRecord slot" where
  "inventoryRecord inventory kind targetId = readSlot (iv_records inventory kind) targetId"

definition canonicalSlot :: "string \<Rightarrow> archiveRecord slot \<Rightarrow> js_error + string" where
  "canonicalSlot name m = (case m of
     Own r \<Rightarrow> canonicalJson (JObj r)
   | Inherited \<Rightarrow> if name = ''__proto__'' then canonicalJson (JObj []) else Inl notEncodable
   | Missing \<Rightarrow> Inl notEncodable)"

text \<open>The members of an action that the plan identity covers, with the hash of its record.\<close>

definition planActionJson :: "(bytes \<Rightarrow> string) \<Rightarrow> archiveImportAction \<Rightarrow> js_error + json" where
  "planActionJson sha a =
     seqR (case aa_record a of None \<Rightarrow> Inr []
           | Some r \<Rightarrow> seqR (canonicalJson (JObj r)) (\<lambda>txt. Inr [(''recordHash'', JStr (sha (utf8 txt)))])) (\<lambda>extra.
     Inr (JObj ([(''phase'', JNum (aa_phase a)), (''kind'', JStr (actionKindName (aa_kind a))),
        (''sourceId'', JStr (aa_sourceId a)), (''targetId'', JStr (aa_targetId a)),
        (''dependsOn'', JArr (map JStr (aa_dependsOn a)))] @ extra)))"

definition calculateArchiveImportPlanId ::
  "(bytes \<Rightarrow> string) \<Rightarrow> trustArchiveManifest \<Rightarrow> string \<Rightarrow> string \<Rightarrow> archiveImportMode \<Rightarrow> archiveConflictMode
     \<Rightarrow> archiveImportAction list \<Rightarrow> js_error + string" where
  "calculateArchiveImportPlanId sha manifest sourceWorkspaceId targetWorkspaceId mode conflictMode actions =
     seqR (canonicalJson (manifestJson manifest)) (\<lambda>manifestText.
     seqR (mapR (planActionJson sha) actions) (\<lambda>actionJsons.
     seqR (canonicalJson (JObj
        [(''format'', JStr ''trust-import-plan-v1''), (''archiveExportId'', JStr (tm_exportId manifest)),
         (''archiveManifestHash'', JStr (sha (utf8 manifestText))), (''sourceWorkspaceId'', JStr sourceWorkspaceId),
         (''targetWorkspaceId'', JStr targetWorkspaceId), (''mode'', JStr (modeName mode)),
         (''conflictMode'', JStr (conflictModeName conflictMode)), (''actions'', JArr actionJsons)])) (\<lambda>txt.
     Inr (sha (utf8 txt)))))"

section \<open>Operations and their stores\<close>

datatype archiveImportCheckpoint =
  ImAuthorised | ImTargetRevalidated | ImTemporaryBlobsStaged | ImStagedBlobsVerified | ImImmutableBlobsCommitted
  | ImMetadataCommitted | ImAuditCommitted | ImCompleted

definition archiveImportCheckpoints :: "archiveImportCheckpoint list" where
  "archiveImportCheckpoints = [ImAuthorised, ImTargetRevalidated, ImTemporaryBlobsStaged, ImStagedBlobsVerified,
     ImImmutableBlobsCommitted, ImMetadataCommitted, ImAuditCommitted, ImCompleted]"

fun indexOf :: "'a \<Rightarrow> 'a list \<Rightarrow> nat" where
  "indexOf x [] = 0"
| "indexOf x (y # ys) = (if x = y then 0 else Suc (indexOf x ys))"

definition nextImportCheckpoint :: "archiveImportCheckpoint \<Rightarrow> archiveImportCheckpoint option" where
  "nextImportCheckpoint c =
     (let i = indexOf c archiveImportCheckpoints + 1 in
      if i < length archiveImportCheckpoints then Some (archiveImportCheckpoints ! i) else None)"

record archiveImportOperation =
  iop_id :: string
  iop_planId :: string
  iop_archiveExportId :: string
  iop_requestedBy :: string
  iop_checkpoint :: archiveImportCheckpoint
  iop_resumed :: "bool option"
  iop_createdAt :: string
  iop_updatedAt :: string
  iop_completedAt :: "string option"

record 's importOperationStore =
  iop_begin :: "string \<Rightarrow> string \<Rightarrow> string \<Rightarrow> string \<Rightarrow> ('s, archiveImportOperation) js"
  iop_advance :: "string \<Rightarrow> string \<Rightarrow> archiveImportCheckpoint \<Rightarrow> archiveImportCheckpoint \<Rightarrow> string \<Rightarrow> ('s, archiveImportOperation) js"

record 's importTarget =
  it_revalidate :: "archiveImportPlan \<Rightarrow> ('s, archiveIssue list) js"
  it_stageBlob :: "string \<Rightarrow> string \<Rightarrow> bytes \<Rightarrow> ('s, unit) js"
  it_verifyStagedBlob :: "string \<Rightarrow> string \<Rightarrow> int \<Rightarrow> ('s, bool) js"
  it_commitBlob :: "string \<Rightarrow> string \<Rightarrow> ('s, unit) js"
  it_commitMetadata :: "string \<Rightarrow> archiveImportPlan \<Rightarrow> archiveImportAction list \<Rightarrow> ('s, unit) js"
  it_appendAudit :: "string \<Rightarrow> archiveImportPlan \<Rightarrow> string \<Rightarrow> string \<Rightarrow> auditLineage \<Rightarrow> ('s, unit) js"

text \<open>The state of an execution: the stores, what the hook acts on, and the clock.\<close>

record ('s, 'h) importState =
  im_store :: 's
  im_hook :: 'h
  im_ambient :: ambient

record ('s, 'h) importExecutor =
  ex_operations :: "'s importOperationStore"
  ex_target :: "'s importTarget"
  ex_afterCheckpoint :: "(archiveImportCheckpoint \<Rightarrow> archiveImportOperation \<Rightarrow> ('h, unit) js) option"

record importInput =
  in_archive :: parsedTrustArchive
  in_plan :: archiveImportPlan
  in_requestedBy :: string

record archiveImportExecutionResult =
  xr_operation :: archiveImportOperation
  xr_resumed :: bool
  xr_insertedRecords :: nat
  xr_insertedBlobs :: nat

definition onImportStore :: "('s, 'a) js \<Rightarrow> (('s, 'h) importState, 'a) js" where
  "onImportStore = within im_store (\<lambda>x s. s\<lparr>im_store := x\<rparr>)"

definition importNow :: "(('s, 'h) importState, string) js" where
  "importNow = within im_ambient (\<lambda>x s. s\<lparr>im_ambient := x\<rparr>) now"

definition runHook ::
  "('s, 'h) importExecutor \<Rightarrow> archiveImportCheckpoint \<Rightarrow> archiveImportOperation \<Rightarrow> (('s, 'h) importState, unit) js" where
  "runHook ex c op = (case ex_afterCheckpoint ex of None \<Rightarrow> ret ()
     | Some h \<Rightarrow> within im_hook (\<lambda>x s. s\<lparr>im_hook := x\<rparr>) (h c op))"

section \<open>The executor\<close>

definition importError :: "string \<Rightarrow> string \<Rightarrow> js_error" where
  "importError code message = JsError ''ArchiveImportExecutionError'' (Some code) message"

definition validateInput :: "(bytes \<Rightarrow> string) \<Rightarrow> parsedTrustArchive \<Rightarrow> archiveImportPlan \<Rightarrow> js_error + unit" where
  "validateInput sha archive plan =
     seqR (check (pa_valid archive) (importError ''IMPORT_ARCHIVE_INVALID'' ''Archive verification must pass before execution.'')) (\<lambda>_.
     seqR (check (\<not> (pl_status plan \<noteq> PlanReady \<or> pl_counts plan Blocked > 0))
        (importError ''IMPORT_PLAN_NOT_EXECUTABLE'' ''Only a ready reject-on-error plan can execute.'')) (\<lambda>_.
     seqR (check (\<not> (pl_archiveExportId plan \<noteq> tm_exportId (pa_manifest archive)
          \<or> pl_sourceWorkspaceId plan \<noteq> tm_workspaceId (pa_manifest archive)))
        (importError ''IMPORT_PLAN_ARCHIVE_MISMATCH'' ''Import plan does not describe this archive.'')) (\<lambda>_.
     seqR (calculateArchiveImportPlanId sha (pa_manifest archive) (pl_sourceWorkspaceId plan) (pl_targetWorkspaceId plan)
        (pl_mode plan) (pl_conflictMode plan) (pl_actions plan)) (\<lambda>expectedPlanId.
     check (pl_planId plan = expectedPlanId)
       (importError ''IMPORT_PLAN_ID_INVALID'' ''Import plan content does not match its identity.'')))))"

definition blobActions :: "archiveImportPlan \<Rightarrow> archiveImportAction list" where
  "blobActions plan = filter (\<lambda>a. aa_kind a = BlobBytes \<and> aa_disposition a = Insert) (pl_actions plan)"

definition recordActions :: "archiveImportPlan \<Rightarrow> archiveImportAction list" where
  "recordActions plan = filter (\<lambda>a. aa_kind a \<noteq> BlobBytes \<and> aa_disposition a = Insert) (pl_actions plan)"

definition stageBlobs ::
  "(bytes \<Rightarrow> string) \<Rightarrow> 's importTarget \<Rightarrow> string \<Rightarrow> parsedTrustArchive \<Rightarrow> archiveImportPlan \<Rightarrow> (('s, 'h) importState, unit) js" where
  "stageBlobs sha target operationId archive plan =
     forEach (blobActions plan) (\<lambda>action.
       andThen (lifting (blobArchivePath (aa_sourceId action))) (\<lambda>path.
       case pa_entries archive path of
         None \<Rightarrow> throw (importError ''IMPORT_BLOB_MISSING'' ''Verified archive blob bytes are missing.'')
       | Some body \<Rightarrow>
           if sha body \<noteq> aa_sourceId action
           then throw (importError ''IMPORT_BLOB_HASH_MISMATCH'' ''Archive blob changed after planning.'')
           else onImportStore (it_stageBlob target operationId (aa_sourceId action) body)))"

definition verifyStaged ::
  "'s importTarget \<Rightarrow> string \<Rightarrow> parsedTrustArchive \<Rightarrow> archiveImportPlan \<Rightarrow> (('s, 'h) importState, unit) js" where
  "verifyStaged target operationId archive plan =
     (let invalid = importError ''IMPORT_STAGED_BLOB_INVALID'' ''Staged blob verification failed.'' in
      forEach (blobActions plan) (\<lambda>action.
        andThen (lifting (blobArchivePath (aa_sourceId action))) (\<lambda>path.
        case pa_entries archive path of
          None \<Rightarrow> throw invalid
        | Some body \<Rightarrow>
            andThen (onImportStore (it_verifyStagedBlob target operationId (aa_sourceId action) (int (length body)))) (\<lambda>ok.
            if ok then ret () else throw invalid))))"

definition commitBlobs :: "'s importTarget \<Rightarrow> string \<Rightarrow> archiveImportPlan \<Rightarrow> (('s, 'h) importState, unit) js" where
  "commitBlobs target operationId plan =
     forEach (blobActions plan) (\<lambda>action. onImportStore (it_commitBlob target operationId (aa_sourceId action)))"

definition advance ::
  "('s, 'h) importExecutor \<Rightarrow> archiveImportOperation \<Rightarrow> archiveImportCheckpoint \<Rightarrow> (('s, 'h) importState, archiveImportOperation) js" where
  "advance ex operation nxt =
     andThen importNow (\<lambda>at.
     andThen (onImportStore (iop_advance (ex_operations ex) (iop_id operation) (iop_planId operation) (iop_checkpoint operation) nxt at)) (\<lambda>advanced.
     andThen (runHook ex nxt advanced) (\<lambda>_.
     ret advanced)))"

text \<open>One turn of the loop.\<close>

primrec importEffect ::
  "(bytes \<Rightarrow> string) \<Rightarrow> 's importTarget \<Rightarrow> importInput \<Rightarrow> archiveImportOperation \<Rightarrow> archiveImportCheckpoint
     \<Rightarrow> (('s, 'h) importState, unit) js" where
  "importEffect sha target inp operation ImAuthorised =
     andThen (onImportStore (it_revalidate target (in_plan inp))) (\<lambda>issues.
       if issues \<noteq> [] then throw (importError ''IMPORT_TARGET_STALE'' ''Import target changed after the plan was created.'')
       else ret ())"
| "importEffect sha target inp operation ImTargetRevalidated = stageBlobs sha target (iop_id operation) (in_archive inp) (in_plan inp)"
| "importEffect sha target inp operation ImTemporaryBlobsStaged = verifyStaged target (iop_id operation) (in_archive inp) (in_plan inp)"
| "importEffect sha target inp operation ImStagedBlobsVerified = commitBlobs target (iop_id operation) (in_plan inp)"
| "importEffect sha target inp operation ImImmutableBlobsCommitted =
     onImportStore (it_commitMetadata target (iop_id operation) (in_plan inp) (recordActions (in_plan inp)))"
| "importEffect sha target inp operation ImMetadataCommitted =
     andThen importNow (\<lambda>at.
       onImportStore (it_appendAudit target (iop_id operation) (in_plan inp) (in_requestedBy inp) at
         (tm_auditLineage (pa_manifest (in_archive inp)))))"
| "importEffect sha target inp operation ImAuditCommitted = ret ()"
| "importEffect sha target inp operation ImCompleted = ret ()"

primrec successor :: "archiveImportCheckpoint \<Rightarrow> archiveImportCheckpoint" where
  "successor ImAuthorised = ImTargetRevalidated"
| "successor ImTargetRevalidated = ImTemporaryBlobsStaged"
| "successor ImTemporaryBlobsStaged = ImStagedBlobsVerified"
| "successor ImStagedBlobsVerified = ImImmutableBlobsCommitted"
| "successor ImImmutableBlobsCommitted = ImMetadataCommitted"
| "successor ImMetadataCommitted = ImAuditCommitted"
| "successor ImAuditCommitted = ImCompleted"
| "successor ImCompleted = ImCompleted"

definition importStep ::
  "(bytes \<Rightarrow> string) \<Rightarrow> ('s, 'h) importExecutor \<Rightarrow> importInput \<Rightarrow> archiveImportOperation
     \<Rightarrow> (('s, 'h) importState, archiveImportOperation) js" where
  "importStep sha ex inp operation =
     andThen (importEffect sha (ex_target ex) inp operation (iop_checkpoint operation)) (\<lambda>_.
     advance ex operation (successor (iop_checkpoint operation)))"

partial_function (option) importLoop ::
  "(bytes \<Rightarrow> string) \<Rightarrow> ('s, 'h) importExecutor \<Rightarrow> importInput \<Rightarrow> archiveImportOperation \<Rightarrow> ('s, 'h) importState
     \<Rightarrow> ((js_error + archiveImportOperation) \<times> ('s, 'h) importState) option" where
  "importLoop sha ex inp operation s =
     (if iop_checkpoint operation = ImCompleted then Some (Inr operation, s)
      else (case importStep sha ex inp operation s of
          (Inl e, t) \<Rightarrow> Some (Inl e, t)
        | (Inr advanced, t) \<Rightarrow> importLoop sha ex inp advanced t))"

text \<open>What comes before the loop: the checks, the operation and the first hook.\<close>

definition beginImport ::
  "(bytes \<Rightarrow> string) \<Rightarrow> ('s, 'h) importExecutor \<Rightarrow> importInput \<Rightarrow> (('s, 'h) importState, archiveImportOperation) js" where
  "beginImport sha ex inp =
     andThen (lifting (validateInput sha (in_archive inp) (in_plan inp))) (\<lambda>_.
     andThen importNow (\<lambda>at.
     andThen (onImportStore (iop_begin (ex_operations ex) (pl_planId (in_plan inp)) (tm_exportId (pa_manifest (in_archive inp)))
         (in_requestedBy inp) at)) (\<lambda>operation.
     andThen (if iop_checkpoint operation = ImAuthorised then runHook ex ImAuthorised operation else ret ()) (\<lambda>_.
     ret operation))))"

definition resumedFlag :: "archiveImportOperation \<Rightarrow> bool" where
  "resumedFlag operation = (case iop_resumed operation of None \<Rightarrow> iop_checkpoint operation \<noteq> ImAuthorised | Some b \<Rightarrow> b)"

definition executeImport ::
  "(bytes \<Rightarrow> string) \<Rightarrow> ('s, 'h) importExecutor \<Rightarrow> importInput \<Rightarrow> ('s, 'h) importState
     \<Rightarrow> ((js_error + archiveImportExecutionResult) \<times> ('s, 'h) importState) option" where
  "executeImport sha ex inp s =
     (case beginImport sha ex inp s of
        (Inl e, t) \<Rightarrow> Some (Inl e, t)
      | (Inr operation, t) \<Rightarrow>
          (case importLoop sha ex inp operation t of
             None \<Rightarrow> None
           | Some (Inl e, u) \<Rightarrow> Some (Inl e, u)
           | Some (Inr final, u) \<Rightarrow> Some (Inr \<lparr>xr_operation = final, xr_resumed = resumedFlag operation,
               xr_insertedRecords = length (recordActions (in_plan inp)), xr_insertedBlobs = length (blobActions (in_plan inp))\<rparr>, u)))"

lemma all_kinds: "k \<in> set archiveRecordKinds"
  by (cases k) (simp_all add: archiveRecordKinds_def)

lemma importLoop_done: "iop_checkpoint op = ImCompleted \<Longrightarrow> importLoop sha ex inp op s = Some (Inr op, s)"
  by (subst importLoop.simps) simp

lemma importLoop_next:
  "iop_checkpoint op \<noteq> ImCompleted \<Longrightarrow> importStep sha ex inp op s = (Inr op', t) \<Longrightarrow> importLoop sha ex inp op s = importLoop sha ex inp op' t"
  by (subst importLoop.simps) simp

lemma importLoop_throws:
  "iop_checkpoint op \<noteq> ImCompleted \<Longrightarrow> importStep sha ex inp op s = (Inl e, t) \<Longrightarrow> importLoop sha ex inp op s = Some (Inl e, t)"
  by (subst importLoop.simps) simp

end
