(* ===== verification/ImportPlan.thy ===== *)
theory ImportPlan
  imports ArchiveImport Database "HOL-Library.Sorting_Algorithms"
begin

text \<open>
  \<open>packages/archive/src/import-plan.ts\<close>: the dry run of an import. It maps the records of an archive
  into the target workspace, checks their references, and lists the actions in the order in which
  they are carried out. The lemmas show that a plan is closed under its dependencies, that the
  executor accepts it, and that its identity does not depend on what the target already holds.

  \<open>localeCompare\<close> is the comparator \<open>loc\<close>. \<open>Number\<close> of a value that is not a number is the
  parameter \<open>coerce\<close>, which gives no value where it gives \<open>NaN\<close>. Objects are compared by identity,
  and distinct records share none.
\<close>

section \<open>Records\<close>

primrec phase :: "actionKind \<Rightarrow> int" where
  "phase (RecordOf k) = (case k of
     KWorkspaces \<Rightarrow> 10 | KSchemaPackages \<Rightarrow> 20 | KDatasets \<Rightarrow> 30 | KBlobs \<Rightarrow> 40 | KResources \<Rightarrow> 50 | KRevisions \<Rightarrow> 60
   | KRevisionBlobs \<Rightarrow> 70 | KRelations \<Rightarrow> 80 | KTombstones \<Rightarrow> 90 | KAuditEvents \<Rightarrow> 100 | KRetention \<Rightarrow> 25)"
| "phase BlobBytes = 45"

text \<open>Assignment to a property: a key that exists keeps its place.\<close>

definition setProp :: "archiveRecord \<Rightarrow> string \<Rightarrow> json \<Rightarrow> archiveRecord" where
  "setProp r k v = AList.update k v r"

definition stringIds :: "archiveRecord list \<Rightarrow> string list" where
  "stringIds rs = List.map_filter (\<lambda>r. asString (getProp r ''id'')) rs"

definition planIssue :: "string \<Rightarrow> string \<Rightarrow> archiveIssue" where
  "planIssue code message = \<lparr>ai_code = code, ai_path = None, ai_message = message\<rparr>"

section \<open>Mapping into the target workspace\<close>

text \<open>The text of a value with no undefined part, where \<open>canonicalJson\<close> does not throw.\<close>

definition canonicalText :: "json \<Rightarrow> string" where
  "canonicalText v = (case canonicalJson v of Inl _ \<Rightarrow> [] | Inr t \<Rightarrow> t)"

definition variantByte :: "string \<Rightarrow> string" where
  "variantByte digits = (case digits of
     [a, b] \<Rightarrow> let n = (16 * hexValue a + hexValue b) mod 64 + 128 in [hex_char (n div 16), hex_char (n mod 16)]
   | _ \<Rightarrow> ''80'')"

definition mappedEntityId :: "(bytes \<Rightarrow> string) \<Rightarrow> string \<Rightarrow> archiveRecordKind \<Rightarrow> string \<Rightarrow> string" where
  "mappedEntityId sha workspaceId kind sourceId =
     (let digest = sha (utf8 (canonicalText (JObj
            [(''format'', JStr ''trust-import-mapped-id-v1''), (''workspaceId'', JStr workspaceId),
             (''kind'', JStr (recordKindName kind)), (''sourceId'', JStr sourceId)])));
          slice = (\<lambda>m n. take (n - m) (drop m digest)) in
      slice 0 8 @ ''-'' @ slice 8 12 @ ''-5'' @ slice 13 16 @ ''-'' @ variantByte (slice 16 18) @ slice 18 20
        @ ''-'' @ slice 20 32)"

definition scopedKinds :: "archiveRecordKind list" where
  "scopedKinds = [KDatasets, KResources, KRevisions, KRevisionBlobs, KBlobs, KRelations, KTombstones, KRetention]"

type_synonym idMappings = "archiveRecordKind \<Rightarrow> string \<rightharpoonup> string"

definition buildIdMappings :: "(bytes \<Rightarrow> string) \<Rightarrow> recordSets \<Rightarrow> string \<Rightarrow> string \<Rightarrow> idMappings" where
  "buildIdMappings sha source sourceWorkspaceId targetWorkspaceId kind =
     (if kind = KWorkspaces then [sourceWorkspaceId \<mapsto> targetWorkspaceId]
      else if kind \<in> set scopedKinds then
        map_of (map (\<lambda>i. (i, if sourceWorkspaceId = targetWorkspaceId then i else mappedEntityId sha targetWorkspaceId kind i))
          (stringIds (source kind)))
      else Map.empty)"

definition mapReference :: "(string \<rightharpoonup> string) \<Rightarrow> json \<Rightarrow> json" where
  "mapReference mapping v = (case v of
     JStr s \<Rightarrow> (case mapping s of None \<Rightarrow> JStr s | Some t \<Rightarrow> JStr t)
   | _ \<Rightarrow> v)"

definition mapRelationReference :: "idMappings \<Rightarrow> json \<Rightarrow> json \<Rightarrow> json" where
  "mapRelationReference mappings kind v =
     (if kind = JStr ''resource'' then mapReference (mappings KResources) v
      else if kind = JStr ''revision'' then mapReference (mappings KRevisions) v
      else if kind = JStr ''blob'' then mapReference (mappings KBlobs) v
      else if kind = JStr ''relation'' then mapReference (mappings KRelations) v
      else if kind = JStr ''dataset'' then mapReference (mappings KDatasets) v
      else v)"

text \<open>\<open>mapped.k = mapReference(mappings[kind], mapped.k)\<close>, and its variant for the ends of a relation.\<close>

definition mapField :: "idMappings \<Rightarrow> archiveRecordKind \<Rightarrow> string \<Rightarrow> archiveRecord \<Rightarrow> archiveRecord" where
  "mapField mappings kind k r = setProp r k (mapReference (mappings kind) (getProp r k))"

definition mapEnd :: "idMappings \<Rightarrow> string \<Rightarrow> string \<Rightarrow> archiveRecord \<Rightarrow> archiveRecord" where
  "mapEnd mappings kindField k r = setProp r k (mapRelationReference mappings (getProp r kindField) (getProp r k))"

definition mapMergeParents :: "idMappings \<Rightarrow> archiveRecord \<Rightarrow> archiveRecord" where
  "mapMergeParents mappings r = (case getProp r ''mergeParentRevisionIds'' of
     JArr vs \<Rightarrow> setProp r ''mergeParentRevisionIds'' (JArr (map (mapReference (mappings KRevisions)) vs))
   | _ \<Rightarrow> r)"

definition mapWorkspace :: "archiveRecordKind \<Rightarrow> string \<Rightarrow> string \<Rightarrow> archiveRecord \<Rightarrow> archiveRecord" where
  "mapWorkspace kind sourceWorkspaceId targetWorkspaceId r =
     (if kind \<noteq> KAuditEvents \<and> getProp r ''workspaceId'' = JStr sourceWorkspaceId
      then setProp r ''workspaceId'' (JStr targetWorkspaceId) else r)"

definition mapLinks :: "archiveRecordKind \<Rightarrow> idMappings \<Rightarrow> archiveRecord \<Rightarrow> archiveRecord" where
  "mapLinks kind mappings r = (case kind of
     KWorkspaces \<Rightarrow> r
   | KSchemaPackages \<Rightarrow> r
   | KAuditEvents \<Rightarrow> r
   | KRetention \<Rightarrow> r
   | KDatasets \<Rightarrow> mapField mappings KRetention ''retentionPolicyId'' r
   | KResources \<Rightarrow> mapField mappings KRevisions ''currentRevisionId'' (mapField mappings KDatasets ''datasetId'' r)
   | KRevisions \<Rightarrow> mapMergeParents mappings
       (mapField mappings KRevisions ''restoredFromRevisionId''
       (mapField mappings KRevisions ''parentRevisionId''
       (mapField mappings KResources ''resourceId''
       (mapField mappings KDatasets ''datasetId'' r))))
   | KRevisionBlobs \<Rightarrow> mapField mappings KBlobs ''blobObjectId'' (mapField mappings KRevisions ''revisionId'' r)
   | KBlobs \<Rightarrow> r
   | KRelations \<Rightarrow> mapEnd mappings ''targetKind'' ''targetId''
       (mapEnd mappings ''sourceKind'' ''sourceId'' (mapField mappings KDatasets ''datasetId'' r))
   | KTombstones \<Rightarrow> mapField mappings KRevisions ''priorRevisionId''
       (mapEnd mappings ''subjectKind'' ''subjectId'' (mapField mappings KDatasets ''datasetId'' r)))"

definition mapRecord :: "archiveRecordKind \<Rightarrow> string \<Rightarrow> string \<Rightarrow> idMappings \<Rightarrow> archiveRecord \<Rightarrow> archiveRecord" where
  "mapRecord kind sourceWorkspaceId targetWorkspaceId mappings r =
     mapLinks kind mappings (mapField mappings kind ''id'' (mapWorkspace kind sourceWorkspaceId targetWorkspaceId r))"

definition transformRecords :: "(bytes \<Rightarrow> string) \<Rightarrow> recordSets \<Rightarrow> string \<Rightarrow> string \<Rightarrow> recordSets" where
  "transformRecords sha source sourceWorkspaceId targetWorkspaceId kind =
     map (mapRecord kind sourceWorkspaceId targetWorkspaceId (buildIdMappings sha source sourceWorkspaceId targetWorkspaceId))
       (source kind)"


section \<open>The checks\<close>

definition requireId :: "string list \<Rightarrow> json \<Rightarrow> string \<Rightarrow> bool \<Rightarrow> archiveIssue list" where
  "requireId ids v label allowAbsentKind =
     (case asString v of
        Some s \<Rightarrow> if s \<notin> set ids \<and> \<not> (allowAbsentKind \<and> ids = []) then [planIssue ''IMPORT_REFERENCE_INVALID'' (label @ '' does not exist in the archive.'')] else []
      | None \<Rightarrow> [planIssue ''IMPORT_REFERENCE_INVALID'' (label @ '' does not exist in the archive.'')])"

definition workspaceIssues :: "recordSets \<Rightarrow> string \<Rightarrow> archiveRecordKind \<Rightarrow> archiveIssue list" where
  "workspaceIssues records workspaceId kind =
     concat (map (\<lambda>r. if kind \<noteq> KAuditEvents \<and> map_of r ''workspaceId'' \<noteq> None \<and> getProp r ''workspaceId'' \<noteq> JStr workspaceId
       then [planIssue ''IMPORT_WORKSPACE_MISMATCH'' (recordKindName kind @ '' crosses workspace boundary.'')] else [])
       (records kind))"

definition datasetIssues :: "recordSets \<Rightarrow> archiveRecord \<Rightarrow> archiveIssue list" where
  "datasetIssues records dataset =
     requireId (stringIds (records KSchemaPackages)) (getProp dataset ''schemaPackageId'') ''dataset schema package'' True"

definition resourceIssues :: "recordSets \<Rightarrow> archiveRecord \<Rightarrow> archiveIssue list" where
  "resourceIssues records resource =
     requireId (stringIds (records KDatasets)) (getProp resource ''datasetId'') ''resource dataset'' False
     @ (if getProp resource ''currentRevisionId'' \<noteq> JNull \<and> getProp resource ''currentRevisionId'' \<noteq> JUndef
        then requireId (stringIds (records KRevisions)) (getProp resource ''currentRevisionId'') ''resource current revision'' False
        else [])"

text \<open>The index of the revisions: the last record of an identifier wins.\<close>

definition revisionById :: "recordSets \<Rightarrow> string \<rightharpoonup> archiveRecord" where
  "revisionById records i = List.find (\<lambda>r. getProp r ''id'' = JStr i) (rev (records KRevisions))"

definition jsNumber :: "(json \<Rightarrow> int option) \<Rightarrow> json \<Rightarrow> int option" where
  "jsNumber coerce v = (case v of JNum i \<Rightarrow> Some i | _ \<Rightarrow> coerce v)"

definition numberGe :: "int option \<Rightarrow> int option \<Rightarrow> bool" where
  "numberGe a b = (case (a, b) of (Some x, Some y) \<Rightarrow> x \<ge> y | _ \<Rightarrow> False)"

definition parentIssues :: "(json \<Rightarrow> int option) \<Rightarrow> recordSets \<Rightarrow> archiveRecord \<Rightarrow> archiveIssue list" where
  "parentIssues coerce records revision = (case asString (getProp revision ''parentRevisionId'') of
     None \<Rightarrow> []
   | Some p \<Rightarrow> (case revisionById records p of
       None \<Rightarrow> [planIssue ''IMPORT_REFERENCE_INVALID'' ''Revision parent does not exist.'']
     | Some parent \<Rightarrow>
         if \<not> strictEq (getProp parent ''resourceId'') (getProp revision ''resourceId'')
            \<or> numberGe (jsNumber coerce (getProp parent ''revisionNumber'')) (jsNumber coerce (getProp revision ''revisionNumber''))
         then [planIssue ''IMPORT_REVISION_PARENT_INVALID'' ''Revision parent ordering or ownership is invalid.'']
         else []))"

text \<open>The resource and number of a revision, when both have their types.\<close>

definition revisionSlot :: "archiveRecord \<Rightarrow> (string \<times> int) option" where
  "revisionSlot revision = (case (getProp revision ''resourceId'', getProp revision ''revisionNumber'') of
     (JStr s, JNum n) \<Rightarrow> Some (s, n) | _ \<Rightarrow> None)"

definition revisionReferenceIssues :: "recordSets \<Rightarrow> archiveRecord \<Rightarrow> archiveIssue list" where
  "revisionReferenceIssues records revision =
     requireId (stringIds (records KResources)) (getProp revision ''resourceId'') ''revision resource'' False
     @ requireId (stringIds (records KDatasets)) (getProp revision ''datasetId'') ''revision dataset'' False
     @ requireId (stringIds (records KSchemaPackages)) (getProp revision ''schemaPackageId'') ''revision schema package'' True"

fun revisionIssues ::
  "(json \<Rightarrow> int option) \<Rightarrow> recordSets \<Rightarrow> (string \<times> int) list \<Rightarrow> archiveRecord list \<Rightarrow> archiveIssue list" where
  "revisionIssues coerce records resourceRevisions [] = []"
| "revisionIssues coerce records resourceRevisions (revision # rest) =
     revisionReferenceIssues records revision
     @ (case revisionSlot revision of
          Some p \<Rightarrow> if p \<in> set resourceRevisions
            then [planIssue ''IMPORT_REVISION_NUMBER_CONFLICT'' ''Revision number is duplicated for a resource.''] else []
        | None \<Rightarrow> [])
     @ parentIssues coerce records revision
     @ revisionIssues coerce records
         (case revisionSlot revision of Some p \<Rightarrow> p # resourceRevisions | None \<Rightarrow> resourceRevisions) rest"

definition attachmentIssues :: "recordSets \<Rightarrow> archiveRecord \<Rightarrow> archiveIssue list" where
  "attachmentIssues records attachment =
     requireId (stringIds (records KRevisions)) (getProp attachment ''revisionId'') ''revision attachment revision'' False
     @ requireId (stringIds (records KBlobs)) (getProp attachment ''blobObjectId'') ''revision attachment blob'' False"

definition validateRelationEnd :: "recordSets \<Rightarrow> json \<Rightarrow> json \<Rightarrow> string \<Rightarrow> archiveIssue list" where
  "validateRelationEnd records kind v side =
     (if kind = JStr ''resource'' then requireId (stringIds (records KResources)) v (''relation '' @ side) False
      else if kind = JStr ''revision'' then requireId (stringIds (records KRevisions)) v (''relation '' @ side) False
      else if kind = JStr ''blob'' then requireId (stringIds (records KBlobs)) v (''relation '' @ side) False
      else if kind = JStr ''external'' then []
      else [planIssue ''IMPORT_RELATION_INVALID'' (''Relation '' @ side @ '' kind is invalid.'')])"

definition relationIssues :: "recordSets \<Rightarrow> archiveRecord \<Rightarrow> archiveIssue list" where
  "relationIssues records relation =
     validateRelationEnd records (getProp relation ''sourceKind'') (getProp relation ''sourceId'') ''source''
     @ validateRelationEnd records (getProp relation ''targetKind'') (getProp relation ''targetId'') ''target''"

definition tombstoneIssues :: "recordSets \<Rightarrow> archiveRecord \<Rightarrow> archiveIssue list" where
  "tombstoneIssues records tombstone =
     (let kind = getProp tombstone ''subjectKind''; subject = getProp tombstone ''subjectId'' in
      if kind = JStr ''resource'' then requireId (stringIds (records KResources)) subject ''tombstone subject'' False
      else if kind = JStr ''dataset'' then requireId (stringIds (records KDatasets)) subject ''tombstone subject'' False
      else if kind = JStr ''relation'' then requireId (stringIds (records KRelations)) subject ''tombstone subject'' False
      else [planIssue ''IMPORT_TOMBSTONE_INVALID'' ''Tombstone subject kind is invalid.''])
     @ (if asString (getProp tombstone ''priorRevisionId'') \<noteq> None
        then requireId (stringIds (records KRevisions)) (getProp tombstone ''priorRevisionId'') ''tombstone prior revision'' False
        else [])"

definition validateGraph :: "(json \<Rightarrow> int option) \<Rightarrow> recordSets \<Rightarrow> string \<Rightarrow> archiveIssue list" where
  "validateGraph coerce records workspaceId =
     concat (map (workspaceIssues records workspaceId) archiveRecordKinds)
     @ concat (map (datasetIssues records) (records KDatasets))
     @ concat (map (resourceIssues records) (records KResources))
     @ revisionIssues coerce records [] (records KRevisions)
     @ concat (map (attachmentIssues records) (records KRevisionBlobs))
     @ concat (map (relationIssues records) (records KRelations))
     @ concat (map (tombstoneIssues records) (records KTombstones))"

definition validateRetentionAssignments :: "recordSets \<Rightarrow> archiveIssue list" where
  "validateRetentionAssignments records =
     concat (map (\<lambda>dataset. case asString (getProp dataset ''retentionPolicyId'') of
         Some p \<Rightarrow> if p \<notin> set (stringIds (records KRetention))
           then [planIssue ''IMPORT_RETENTION_POLICY_UNAVAILABLE''
             (''Dataset retention policy is not durably represented in the archive: '' @ p)] else []
       | None \<Rightarrow> []) (records KDatasets))"

definition schemaConflict :: "archiveRecord list \<Rightarrow> archiveRecord \<Rightarrow> archiveIssue list" where
  "schemaConflict existing schema =
     (let same = (\<lambda>k candidate. strictEq (getProp candidate k) (getProp schema k)) in
      case List.find (\<lambda>c. same ''namespace'' c \<and> same ''name'' c \<and> same ''semanticVersion'' c) existing of
        Some match \<Rightarrow> if \<not> same ''schemaDigest'' match
          then [planIssue ''IMPORT_SCHEMA_CONFLICT'' ''Schema identity exists with a different digest.''] else []
      | None \<Rightarrow> [])"

definition validateSchemaConflicts :: "recordSets \<Rightarrow> archiveImportInventory \<Rightarrow> archiveIssue list" where
  "validateSchemaConflicts records target =
     concat (map (schemaConflict (map snd (iv_records target KSchemaPackages))) (records KSchemaPackages))"

section \<open>The plan\<close>

definition recordId :: "(bytes \<Rightarrow> string) \<Rightarrow> archiveRecordKind \<Rightarrow> archiveRecord \<Rightarrow> js_error + string" where
  "recordId sha kind r =
     (let missing = (if kind = KRetention then seqR (canonicalJson (JObj r)) (\<lambda>t. Inr (sha (utf8 t)))
        else Inl (plainError (recordKindName kind @ '' record is missing a stable ID.''))) in
      case asString (getProp r ''id'') of Some i \<Rightarrow> if i \<noteq> [] then Inr i else missing | None \<Rightarrow> missing)"

definition relationKind :: "json \<Rightarrow> archiveRecordKind" where
  "relationKind v = (if v = JStr ''revision'' then KRevisions else if v = JStr ''blob'' then KBlobs else KResources)"

definition dependency :: "archiveRecordKind \<Rightarrow> json \<Rightarrow> string list" where
  "dependency kind v = (case asString v of Some s \<Rightarrow> [recordKindName kind @ '':'' @ s] | None \<Rightarrow> [])"

text \<open>The links of a record that become dependencies.\<close>

definition links :: "archiveRecordKind \<Rightarrow> archiveRecord \<Rightarrow> (archiveRecordKind \<times> json) list" where
  "links kind r = (case kind of
     KDatasets \<Rightarrow> [(KSchemaPackages, getProp r ''schemaPackageId'')]
   | KResources \<Rightarrow> [(KDatasets, getProp r ''datasetId'')]
   | KRevisions \<Rightarrow> [(KResources, getProp r ''resourceId''), (KDatasets, getProp r ''datasetId''),
       (KSchemaPackages, getProp r ''schemaPackageId''), (KRevisions, getProp r ''parentRevisionId'')]
   | KRevisionBlobs \<Rightarrow> [(KRevisions, getProp r ''revisionId''), (KBlobs, getProp r ''blobObjectId'')]
   | KRelations \<Rightarrow> [(relationKind (getProp r ''sourceKind''), getProp r ''sourceId''),
       (relationKind (getProp r ''targetKind''), getProp r ''targetId'')]
   | KTombstones \<Rightarrow> [(KRevisions, getProp r ''priorRevisionId'')]
   | _ \<Rightarrow> [])"

definition dependencies :: "archiveRecordKind \<Rightarrow> archiveRecord \<Rightarrow> string list" where
  "dependencies kind r = List.sort (remdups (concat (map (\<lambda>(k, v). dependency k v) (links kind r))))"

definition compareActions :: "string comparator \<Rightarrow> archiveImportAction comparator" where
  "compareActions loc = Comparator.key (\<lambda>a. (aa_phase a, actionKindName (aa_kind a), aa_targetId a))
     (prod_lex default (prod_lex loc loc))"

record archiveImportRequest =
  ir_archive :: parsedTrustArchive
  ir_mode :: archiveImportMode
  ir_conflictMode :: archiveConflictMode
  ir_target :: archiveImportInventory

definition targetWorkspace :: "archiveImportRequest \<Rightarrow> string option" where
  "targetWorkspace req = (case ir_mode req of
     MappedWorkspace \<Rightarrow> map_option trim (iv_workspaceId (ir_target req))
   | PreserveIds \<Rightarrow> Some (tm_workspaceId (pa_manifest (ir_archive req))))"

definition mappedWorkspaceId :: "archiveImportRequest \<Rightarrow> string" where
  "mappedWorkspaceId req = (case targetWorkspace req of
     None \<Rightarrow> tm_workspaceId (pa_manifest (ir_archive req))
   | Some w \<Rightarrow> if w = [] then tm_workspaceId (pa_manifest (ir_archive req)) else w)"

definition requestIssues :: "archiveImportRequest \<Rightarrow> archiveIssue list" where
  "requestIssues req =
     (if \<not> pa_valid (ir_archive req)
      then [planIssue ''IMPORT_ARCHIVE_INVALID'' ''Archive verification must pass before import planning.''] else [])
     @ (if targetWorkspace req = None \<or> targetWorkspace req = Some []
        then [planIssue ''IMPORT_TARGET_WORKSPACE_REQUIRED'' ''Mapped-workspace import requires a target workspace ID.''] else [])
     @ (case iv_workspaceId (ir_target req) of
          Some w \<Rightarrow> if ir_mode req = PreserveIds \<and> w \<noteq> [] \<and> w \<noteq> tm_workspaceId (pa_manifest (ir_archive req))
            then [planIssue ''IMPORT_WORKSPACE_MODE_CONFLICT'' ''Preserve-ID import cannot substitute a workspace ID.''] else []
        | None \<Rightarrow> [])"


definition existingDisposition ::
  "archiveImportRequest \<Rightarrow> archiveRecordKind \<Rightarrow> archiveRecord \<Rightarrow> string \<Rightarrow> js_error + (disposition \<times> archiveIssue list)" where
  "existingDisposition req kind r transformedId =
     (let existing = inventoryRecord (ir_target req) kind transformedId in
      if existing = Missing then Inr (Insert, [])
      else if kind = KWorkspaces \<and> ir_mode req = MappedWorkspace then Inr (AlreadyPresent, [])
      else seqR (canonicalSlot transformedId existing) (\<lambda>x.
           seqR (canonicalJson (JObj r)) (\<lambda>y.
           Inr (if x = y then (AlreadyPresent, [])
             else (Blocked, [planIssue ''IMPORT_ID_CONFLICT''
               (recordKindName kind @ '' ID already exists with different content: '' @ transformedId)])))))"

definition planRecord ::
  "(bytes \<Rightarrow> string) \<Rightarrow> archiveImportRequest \<Rightarrow> archiveRecordKind \<Rightarrow> archiveRecord \<times> archiveRecord
     \<Rightarrow> js_error + (archiveImportAction \<times> archiveIssue list)" where
  "planRecord sha req kind = (\<lambda>(source, r).
     seqR (recordId sha kind source) (\<lambda>sourceId.
     seqR (recordId sha kind r) (\<lambda>transformedId.
     seqR (existingDisposition req kind r transformedId) (\<lambda>(d, issues).
     Inr (\<lparr>aa_index = 0, aa_phase = phase (RecordOf kind), aa_kind = RecordOf kind,
           aa_sourceId = (if kind = KWorkspaces \<and> ir_mode req = MappedWorkspace
             then tm_workspaceId (pa_manifest (ir_archive req)) else sourceId),
           aa_targetId = transformedId, aa_disposition = d, aa_record = Some r, aa_dependsOn = dependencies kind r\<rparr>, issues)))))"

definition planBlobBytes ::
  "(bytes \<Rightarrow> string) \<Rightarrow> archiveImportInventory \<Rightarrow> archiveRecord \<Rightarrow> js_error + archiveImportAction list" where
  "planBlobBytes sha target r = (case asString (getProp r ''sha256'') of
     None \<Rightarrow> Inr []
   | Some digest \<Rightarrow> seqR (recordId sha KBlobs r) (\<lambda>i.
       Inr [\<lparr>aa_index = 0, aa_phase = phase BlobBytes, aa_kind = BlobBytes, aa_sourceId = digest, aa_targetId = digest,
         aa_disposition = (case iv_blobDigests target of
            Some ds \<Rightarrow> if digest \<in> set ds then AlreadyPresent else Insert | None \<Rightarrow> Insert),
         aa_record = None, aa_dependsOn = [''blobs:'' @ i]\<rparr>]))"

definition transformed :: "(bytes \<Rightarrow> string) \<Rightarrow> archiveImportRequest \<Rightarrow> recordSets" where
  "transformed sha req = transformRecords sha (pa_records (ir_archive req))
     (tm_workspaceId (pa_manifest (ir_archive req))) (mappedWorkspaceId req)"

definition kindPlans ::
  "(bytes \<Rightarrow> string) \<Rightarrow> archiveImportRequest \<Rightarrow> archiveRecordKind
     \<Rightarrow> js_error + (archiveImportAction \<times> archiveIssue list) list" where
  "kindPlans sha req kind =
     mapR (planRecord sha req kind) (zip (pa_records (ir_archive req) kind) (transformed sha req kind))"

definition recordPlans ::
  "(bytes \<Rightarrow> string) \<Rightarrow> archiveImportRequest \<Rightarrow> js_error + (archiveImportAction \<times> archiveIssue list) list" where
  "recordPlans sha req = seqR (mapR (kindPlans sha req) archiveRecordKinds) (\<lambda>plans. Inr (concat plans))"

definition indexedAction :: "bool \<Rightarrow> nat \<times> archiveImportAction \<Rightarrow> archiveImportAction" where
  "indexedAction blockedByGlobalError = (\<lambda>(i, a). a\<lparr>aa_index := i,
     aa_disposition := if blockedByGlobalError \<and> aa_disposition a = Insert then Blocked else aa_disposition a\<rparr>)"

definition countOf :: "archiveImportAction list \<Rightarrow> disposition \<Rightarrow> nat" where
  "countOf actions d = length (filter (\<lambda>a. aa_disposition a = d) actions)"

definition planArchiveImport ::
  "(bytes \<Rightarrow> string) \<Rightarrow> string comparator \<Rightarrow> (json \<Rightarrow> int option) \<Rightarrow> archiveImportRequest \<Rightarrow> js_error + archiveImportPlan" where
  "planArchiveImport sha loc coerce req =
     (let manifest = pa_manifest (ir_archive req); records = transformed sha req in
      seqR (recordPlans sha req) (\<lambda>plans.
      seqR (mapR (planBlobBytes sha (ir_target req)) (records KBlobs)) (\<lambda>blobs.
      let issues = requestIssues req @ validateGraph coerce records (mappedWorkspaceId req)
            @ validateRetentionAssignments records @ validateSchemaConflicts records (ir_target req) @ concat (map snd plans);
          actions = Sorting_Algorithms.sort (compareActions loc) (map fst plans @ concat blobs);
          indexed = map (indexedAction (ir_conflictMode req = RejectOnError \<and> length issues > 0)) (enumerate 0 actions) in
      seqR (calculateArchiveImportPlanId sha manifest (tm_workspaceId manifest) (mappedWorkspaceId req)
        (ir_mode req) (ir_conflictMode req) indexed) (\<lambda>planId.
      Inr \<lparr>pl_planId = planId, pl_archiveExportId = tm_exportId manifest, pl_sourceWorkspaceId = tm_workspaceId manifest,
        pl_targetWorkspaceId = mappedWorkspaceId req, pl_mode = ir_mode req, pl_conflictMode = ir_conflictMode req,
        pl_status = (if ir_conflictMode req = ReportOnly then PlanReportOnly
          else if length issues > 0 then PlanRejected else PlanReady),
        pl_issues = issues, pl_actions = indexed, pl_counts = countOf indexed\<rparr>))))"


section \<open>The parts of a plan\<close>

lemma mapR_mem: "mapR f xs = Inr ys \<Longrightarrow> y \<in> set ys \<longleftrightarrow> (\<exists>x \<in> set xs. f x = Inr y)"
  by (induction xs arbitrary: ys) (auto simp: seqR_eq_Inr)

lemma mapR_total: "mapR f xs = Inr ys \<Longrightarrow> x \<in> set xs \<Longrightarrow> \<exists>y \<in> set ys. f x = Inr y"
  by (induction xs arbitrary: ys) (auto simp: seqR_eq_Inr)

definition actionsOf :: "(archiveImportAction \<times> archiveIssue list) list \<Rightarrow> archiveImportAction list list
    \<Rightarrow> string comparator \<Rightarrow> archiveImportAction list" where
  "actionsOf plans blobs loc = Sorting_Algorithms.sort (compareActions loc) (map fst plans @ concat blobs)"

lemma planArchiveImport_ok:
  assumes "planArchiveImport sha loc coerce req = Inr plan"
  obtains plans blobs where
    "recordPlans sha req = Inr plans"
    "mapR (planBlobBytes sha (ir_target req)) (transformed sha req KBlobs) = Inr blobs"
    "pl_issues plan = requestIssues req @ validateGraph coerce (transformed sha req) (mappedWorkspaceId req)
       @ validateRetentionAssignments (transformed sha req) @ validateSchemaConflicts (transformed sha req) (ir_target req)
       @ concat (map snd plans)"
    "pl_actions plan = map (indexedAction (ir_conflictMode req = RejectOnError \<and> pl_issues plan \<noteq> []))
       (enumerate 0 (actionsOf plans blobs loc))"
    "calculateArchiveImportPlanId sha (pa_manifest (ir_archive req)) (tm_workspaceId (pa_manifest (ir_archive req)))
       (mappedWorkspaceId req) (ir_mode req) (ir_conflictMode req) (pl_actions plan) = Inr (pl_planId plan)"
    "pl_status plan = (if ir_conflictMode req = ReportOnly then PlanReportOnly
       else if pl_issues plan \<noteq> [] then PlanRejected else PlanReady)"
    "pl_counts plan = countOf (pl_actions plan)"
    "pl_archiveExportId plan = tm_exportId (pa_manifest (ir_archive req))"
    "pl_sourceWorkspaceId plan = tm_workspaceId (pa_manifest (ir_archive req))"
    "pl_targetWorkspaceId plan = mappedWorkspaceId req" "pl_mode plan = ir_mode req" "pl_conflictMode plan = ir_conflictMode req"
  using assms that unfolding planArchiveImport_def actionsOf_def
  by (auto simp: seqR_eq_Inr Let_def)

lemma indexed_fields [simp]:
  "aa_index (indexedAction b p) = fst p" "aa_phase (indexedAction b p) = aa_phase (snd p)"
  "aa_kind (indexedAction b p) = aa_kind (snd p)" "aa_sourceId (indexedAction b p) = aa_sourceId (snd p)"
  "aa_targetId (indexedAction b p) = aa_targetId (snd p)" "aa_record (indexedAction b p) = aa_record (snd p)"
  "aa_dependsOn (indexedAction b p) = aa_dependsOn (snd p)"
  "aa_disposition (indexedAction b p) = (if b \<and> aa_disposition (snd p) = Insert then Blocked else aa_disposition (snd p))"
  by (simp_all add: indexedAction_def case_prod_beta)

lemma indexed_mem: "a \<in> set (map (indexedAction b) (enumerate 0 xs)) \<Longrightarrow> \<exists>i. \<exists>x \<in> set xs. a = indexedAction b (i, x)"
  by (auto simp: enumerate_eq_zip dest: set_zip_rightD)

lemma indexed_has: "x \<in> set xs \<Longrightarrow> \<exists>i. indexedAction b (i, x) \<in> set (map (indexedAction b) (enumerate 0 xs))"
  by (force simp: in_set_conv_nth nth_enumerate_eq)

lemma planRecord_ok:
  "planRecord sha req k (source, r) = Inr (a, issues) \<longleftrightarrow>
     (\<exists>sourceId targetId d. recordId sha k source = Inr sourceId \<and> recordId sha k r = Inr targetId
        \<and> existingDisposition req k r targetId = Inr (d, issues)
        \<and> a = \<lparr>aa_index = 0, aa_phase = phase (RecordOf k), aa_kind = RecordOf k,
             aa_sourceId = (if k = KWorkspaces \<and> ir_mode req = MappedWorkspace
               then tm_workspaceId (pa_manifest (ir_archive req)) else sourceId),
             aa_targetId = targetId, aa_disposition = d, aa_record = Some r, aa_dependsOn = dependencies k r\<rparr>)"
  by (auto simp: planRecord_def seqR_eq_Inr)

lemma planBlobBytes_ok:
  "planBlobBytes sha target r = Inr as \<Longrightarrow> a \<in> set as \<Longrightarrow>
     aa_kind a = BlobBytes \<and> aa_phase a = 45 \<and> aa_disposition a \<noteq> Blocked
     \<and> (\<exists>i. recordId sha KBlobs r = Inr i \<and> aa_dependsOn a = [''blobs:'' @ i])"
  by (auto simp: planBlobBytes_def seqR_eq_Inr split: option.splits if_splits)

lemma transformed_length [simp]: "length (transformed sha req k) = length (pa_records (ir_archive req) k)"
  by (simp add: transformed_def transformRecords_def)

lemma recordPlans_mem:
  assumes "recordPlans sha req = Inr plans" and "p \<in> set plans"
  obtains k source r where "r \<in> set (transformed sha req k)" "planRecord sha req k (source, r) = Inr p"
proof -
  obtain pss where pss: "mapR (kindPlans sha req) archiveRecordKinds = Inr pss" "plans = concat pss"
    using assms(1) by (auto simp: recordPlans_def seqR_eq_Inr)
  with assms(2) obtain ps where ps: "ps \<in> set pss" "p \<in> set ps" by auto
  then obtain k where "kindPlans sha req k = Inr ps" using mapR_mem [OF pss(1)] by blast
  from mapR_mem [OF this [unfolded kindPlans_def], of p] ps(2)
  obtain source r where "(source, r) \<in> set (zip (pa_records (ir_archive req) k) (transformed sha req k))"
    "planRecord sha req k (source, r) = Inr p"
    by (elim iffE) auto
  then show thesis using that set_zip_rightD by metis
qed

lemma planned_record:
  assumes "recordPlans sha req = Inr plans" and "r \<in> set (transformed sha req k)"
  shows "\<exists>a issues source. (a, issues) \<in> set plans \<and> planRecord sha req k (source, r) = Inr (a, issues)"
proof -
  obtain i where i: "i < length (transformed sha req k)" "transformed sha req k ! i = r"
    using assms(2) by (auto simp: in_set_conv_nth)
  let ?q = "(pa_records (ir_archive req) k ! i, r)"
  have q: "?q \<in> set (zip (pa_records (ir_archive req) k) (transformed sha req k))"
    using i by (auto simp: set_zip)
  obtain pss where pss: "mapR (kindPlans sha req) archiveRecordKinds = Inr pss" "plans = concat pss"
    using assms(1) by (auto simp: recordPlans_def seqR_eq_Inr)
  from mapR_total [OF pss(1) all_kinds [of k]] obtain ps where ps: "ps \<in> set pss" "kindPlans sha req k = Inr ps" by blast
  from mapR_total [OF ps(2) [unfolded kindPlans_def] q] obtain p where "p \<in> set ps" "planRecord sha req k ?q = Inr p" by blast
  with ps(1) pss(2) show ?thesis by (cases p) auto
qed


lemma existing_blocked: "existingDisposition req k r i = Inr (d, issues) \<Longrightarrow> d = Blocked \<longleftrightarrow> issues \<noteq> []"
  by (auto simp: existingDisposition_def Let_def seqR_eq_Inr split: if_splits)

lemma set_actionsOf: "set (actionsOf plans blobs loc) = fst ` set plans \<union> (\<Union>as \<in> set blobs. set as)"
  by (simp add: actionsOf_def)

lemma blocked_only_with_issues:
  assumes "recordPlans sha req = Inr plans" "mapR (planBlobBytes sha (ir_target req)) rs = Inr blobs"
    and "concat (map snd plans) = []" and "a \<in> set (actionsOf plans blobs loc)"
  shows "aa_disposition a \<noteq> Blocked"
  using assms(4) unfolding set_actionsOf
proof (elim UnE imageE UN_E)
  fix p assume p: "p \<in> set plans" "a = fst p"
  from recordPlans_mem [OF assms(1) p(1)] obtain k source r where "planRecord sha req k (source, r) = Inr p" .
  moreover have "snd p = []" using assms(3) p(1) by simp
  ultimately show ?thesis using p(2) by (cases p) (auto simp: planRecord_ok dest: existing_blocked)
next
  fix as assume "as \<in> set blobs" "a \<in> set as"
  then show ?thesis using mapR_mem [OF assms(2), of as] by (auto dest: planBlobBytes_ok)
qed

lemma compareActions_phase: "compare (compareActions loc) a b \<noteq> Greater \<Longrightarrow> aa_phase a \<le> aa_phase b"
  by (auto simp: compareActions_def compare_prod_lex_apply split: comp.splits)

lemma sorted_phases: "Sorting_Algorithms.sorted (compareActions loc) as \<Longrightarrow> List.sorted (map aa_phase as)"
proof (induction as)
  case (Cons a as)
  then have "List.sorted (map aa_phase as)" by (auto dest: Sorting_Algorithms.sorted_Cons_imp_sorted)
  moreover have "aa_phase a \<le> aa_phase b" if "as = b # bs" for b bs
    using Cons.prems that by (auto dest: Sorting_Algorithms.sorted_Cons_imp_not_less intro: compareActions_phase
        simp: compare.greater_iff_sym_less)
  ultimately show ?case by (cases as) auto
qed simp

lemma plan_positions:
  assumes "pl_actions plan = map (indexedAction b) (enumerate 0 (actionsOf plans blobs loc))"
  shows "i < length (pl_actions plan) \<Longrightarrow> aa_index (pl_actions plan ! i) = i"
    and "List.sorted (map aa_phase (pl_actions plan))"
proof -
  show "i < length (pl_actions plan) \<Longrightarrow> aa_index (pl_actions plan ! i) = i"
    using assms by (simp add: nth_enumerate_eq)
  have "map aa_phase (pl_actions plan) = map aa_phase (map snd (enumerate 0 (actionsOf plans blobs loc)))"
    unfolding assms map_map by (rule map_cong) simp_all
  then show "List.sorted (map aa_phase (pl_actions plan))"
    using sorted_phases [of loc "actionsOf plans blobs loc"] by (simp add: actionsOf_def)
qed

lemma plan_earlier:
  assumes "pl_actions plan = map (indexedAction b) (enumerate 0 (actionsOf plans blobs loc))"
    and "x \<in> set (pl_actions plan)" "y \<in> set (pl_actions plan)" "aa_phase x < aa_phase y"
  shows "aa_index x < aa_index y"
proof -
  obtain i j where ij: "i < length (pl_actions plan)" "x = pl_actions plan ! i" "j < length (pl_actions plan)" "y = pl_actions plan ! j"
    using assms(2,3) by (auto simp: in_set_conv_nth)
  have "\<not> j \<le> i"
    using sorted_nth_mono [OF plan_positions(2) [OF assms(1)], of j i] ij assms(4) by auto
  then show ?thesis using plan_positions(1) [OF assms(1)] ij by simp
qed

text \<open>
  The planner and the executor agree on what may be executed: the executor accepts a plan that
  the planner returns for the same archive exactly when the plan is ready.
\<close>

theorem planned_imports_execute:
  assumes "planArchiveImport sha loc coerce req = Inr plan"
  shows "validateInput sha (ir_archive req) plan = Inr () \<longleftrightarrow> pl_status plan = PlanReady"
  using assms
proof (cases rule: planArchiveImport_ok)
  case (1 plans blobs)
  have "pa_valid (ir_archive req) \<and> pl_counts plan Blocked = 0" if "pl_status plan = PlanReady"
  proof -
    have none: "pl_issues plan = []" using that 1(6) by (auto split: if_splits)
    then have "concat (map snd plans) = []" using 1(3) by simp
    note free = blocked_only_with_issues [OF 1(1,2) this]
    have "aa_disposition a \<noteq> Blocked" if "a \<in> set (pl_actions plan)" for a
      using indexed_mem [OF that [unfolded 1(4)]] none free by auto
    then have "pl_counts plan Blocked = 0" by (auto simp: 1(7) countOf_def filter_empty_conv)
    moreover have "pa_valid (ir_archive req)" using none 1(3) by (auto simp: requestIssues_def split: if_splits)
    ultimately show ?thesis by simp
  qed
  then show ?thesis
    by (auto simp: validateInput_def seqR_eq_Inr check_eq_Inr 1(5,8-12))
qed


section \<open>A ready plan is closed\<close>

lemma requireId_none:
  "requireId ids v label allow = [] \<longleftrightarrow> (\<exists>s. v = JStr s \<and> (s \<in> set ids \<or> allow \<and> ids = []))"
  by (auto simp: requireId_def asString_eq_Some split: option.splits)

definition externalEnd :: "archiveRecordKind \<Rightarrow> archiveRecord \<Rightarrow> json \<Rightarrow> bool" where
  "externalEnd k r v \<longleftrightarrow> k = KRelations
     \<and> (getProp r ''sourceKind'' = JStr ''external'' \<and> v = getProp r ''sourceId''
        \<or> getProp r ''targetKind'' = JStr ''external'' \<and> v = getProp r ''targetId'')"

lemma revisionIssues_none:
  assumes "revisionIssues coerce records seen rs = []" and "r \<in> set rs"
  shows "revisionReferenceIssues records r = [] \<and> parentIssues coerce records r = []"
  using assms by (induction rs arbitrary: seen) auto

lemma revisionById_mem: "revisionById records i = Some r \<Longrightarrow> i \<in> set (stringIds (records KRevisions))"
  unfolding revisionById_def stringIds_def List.map_filter_def
  by (drule find_SomeD) (force simp: image_iff)

lemma parentIssues_none:
  "parentIssues coerce records r = [] \<Longrightarrow> JStr s = getProp r ''parentRevisionId'' \<Longrightarrow> s \<in> set (stringIds (records KRevisions))"
  by (drule sym) (auto simp: parentIssues_def dest: revisionById_mem split: option.splits if_splits)

lemma graph_closed:
  assumes none: "validateGraph coerce records w = []" and r: "r \<in> set (records k)"
    and l: "(k', JStr s) \<in> set (links k r)"
  shows "s \<in> set (stringIds (records k')) \<or> k' = KSchemaPackages \<and> stringIds (records KSchemaPackages) = []
    \<or> k = KRelations \<and> k' = KResources \<and> externalEnd k r (JStr s)"
proof (cases k)
  case KDatasets
  with none r have "datasetIssues records r = []" by (auto simp: validateGraph_def)
  with l KDatasets show ?thesis by (auto simp: links_def datasetIssues_def requireId_none)
next
  case KResources
  with none r have "resourceIssues records r = []" by (auto simp: validateGraph_def)
  with l KResources show ?thesis by (auto simp: links_def resourceIssues_def requireId_none)
next
  case KRevisions
  with none r have "revisionReferenceIssues records r = [] \<and> parentIssues coerce records r = []"
    by (auto simp: validateGraph_def dest: revisionIssues_none)
  with l KRevisions show ?thesis
    by (auto simp: links_def revisionReferenceIssues_def requireId_none dest: parentIssues_none)
next
  case KRevisionBlobs
  with none r have "attachmentIssues records r = []" by (auto simp: validateGraph_def)
  with l KRevisionBlobs show ?thesis by (auto simp: links_def attachmentIssues_def requireId_none)
next
  case KRelations
  with none r have "relationIssues records r = []" by (auto simp: validateGraph_def)
  with l KRelations show ?thesis
    by (auto simp: links_def relationIssues_def validateRelationEnd_def requireId_none relationKind_def externalEnd_def split: if_splits)
next
  case KTombstones
  with none r have "tombstoneIssues records r = []" by (auto simp: validateGraph_def)
  moreover have "getProp r ''priorRevisionId'' = JStr s" "k' = KRevisions" using l KTombstones by (simp_all add: links_def)
  ultimately show ?thesis by (simp add: tombstoneIssues_def requireId_none)
qed (use l in \<open>simp_all add: links_def\<close>)

lemma link_phase: "(k', v) \<in> set (links k r) \<Longrightarrow> phase (RecordOf k') < phase (RecordOf k) \<or> k = KRevisions \<and> k' = KRevisions"
  by (cases k) (auto simp: links_def relationKind_def split: if_splits)

lemma dependencies_mem: "d \<in> set (dependencies k r) \<longleftrightarrow> (\<exists>k' s. (k', JStr s) \<in> set (links k r) \<and> d = recordKindName k' @ '':'' @ s)"
proof -
  have "d \<in> set (dependency k' v) \<longleftrightarrow> (\<exists>s. v = JStr s \<and> d = recordKindName k' @ '':'' @ s)" for k' v
    by (cases v) (auto simp: dependency_def)
  then show ?thesis by (auto simp: dependencies_def)
qed


lemma recordId_of: "k \<noteq> KRetention \<Longrightarrow> recordId sha k r = Inr i \<longleftrightarrow> getProp r ''id'' = JStr i \<and> i \<noteq> []"
  by (auto simp: recordId_def Let_def asString_eq_Some split: option.splits if_splits)

lemma id_is_planned:
  assumes "recordPlans sha req = Inr plans" and "i \<in> set (stringIds (transformed sha req k))" and "k \<noteq> KRetention"
  shows "\<exists>a \<in> set (actionsOf plans blobs loc). aa_kind a = RecordOf k \<and> aa_targetId a = i \<and> aa_phase a = phase (RecordOf k)"
proof -
  obtain r where r: "r \<in> set (transformed sha req k)" "getProp r ''id'' = JStr i"
    using assms(2) by (auto simp: stringIds_def List.map_filter_def asString_eq_Some)
  from planned_record [OF assms(1) r(1)] obtain a issues source where
    a: "(a, issues) \<in> set plans" "planRecord sha req k (source, r) = Inr (a, issues)" by blast
  then have "aa_kind a = RecordOf k \<and> aa_targetId a = i \<and> aa_phase a = phase (RecordOf k)"
    using r(2) by (auto simp: planRecord_ok recordId_of [OF assms(3)])
  moreover have "a \<in> set (actionsOf plans blobs loc)" using a(1) by (force simp: set_actionsOf)
  ultimately show ?thesis by blast
qed

lemma retention_not_linked: "(k', v) \<in> set (links k r) \<Longrightarrow> k' \<noteq> KRetention"
  by (cases k) (auto simp: links_def relationKind_def split: if_splits)

text \<open>
  What an action may depend on: an action earlier in the plan, or the parent of a revision, whose
  foreign key is deferred to the end of the transaction. A schema package may be missing from an
  archive that has none, and an external end of a relation names nothing in the archive.
\<close>

definition provided :: "archiveImportPlan \<Rightarrow> archiveImportAction \<Rightarrow> string \<Rightarrow> bool" where
  "provided plan a d \<longleftrightarrow> (\<exists>b \<in> set (pl_actions plan). d = actionKindName (aa_kind b) @ '':'' @ aa_targetId b
     \<and> (aa_index b < aa_index a \<or> aa_kind a = RecordOf KRevisions \<and> aa_kind b = RecordOf KRevisions))"

definition excused :: "recordSets \<Rightarrow> archiveImportAction \<Rightarrow> string \<Rightarrow> bool" where
  "excused records a d \<longleftrightarrow>
     (\<exists>s. d = ''schema-packages:'' @ s \<and> stringIds (records KSchemaPackages) = [])
     \<or> (\<exists>r s. aa_kind a = RecordOf KRelations \<and> aa_record a = Some r \<and> d = ''resources:'' @ s
          \<and> externalEnd KRelations r (JStr s))"

lemma link_provided:
  assumes plan: "pl_actions plan = map (indexedAction b) (enumerate 0 (actionsOf plans blobs loc))"
    and plans: "recordPlans sha req = Inr plans" and none: "validateGraph coerce (transformed sha req) w = []"
    and a: "a \<in> set (pl_actions plan)" "aa_kind a = RecordOf k" "aa_phase a = phase (RecordOf k)" "aa_record a = Some r"
    and r: "r \<in> set (transformed sha req k)" and l: "(k', JStr s) \<in> set (links k r)"
  shows "provided plan a (recordKindName k' @ '':'' @ s) \<or> excused (transformed sha req) a (recordKindName k' @ '':'' @ s)"
  using graph_closed [OF none r l]
proof (elim disjE conjE)
  assume "s \<in> set (stringIds (transformed sha req k'))"
  from id_is_planned [OF plans this retention_not_linked [OF l]] obtain x where
    x: "x \<in> set (actionsOf plans blobs loc)" "aa_kind x = RecordOf k'" "aa_targetId x = s" "aa_phase x = phase (RecordOf k')"
    by blast
  from indexed_has [OF x(1)] obtain i where "indexedAction b (i, x) \<in> set (pl_actions plan)" unfolding plan by blast
  moreover from this have "aa_index (indexedAction b (i, x)) < aa_index a \<or> k = KRevisions \<and> k' = KRevisions"
    using link_phase [OF l] plan_earlier [OF plan _ a(1)] x(4) a(3) by fastforce
  ultimately have "provided plan a (recordKindName k' @ '':'' @ s)"
    unfolding provided_def using x(2,3) a(2) by (intro bexI [of _ "indexedAction b (i, x)"]) auto
  then show ?thesis ..
qed (use a in \<open>auto simp: excused_def\<close>)

lemma bytes_provided:
  assumes plan: "pl_actions plan = map (indexedAction b) (enumerate 0 (actionsOf plans blobs loc))"
    and plans: "recordPlans sha req = Inr plans"
    and blobs: "mapR (planBlobBytes sha (ir_target req)) (transformed sha req KBlobs) = Inr blobs"
    and as: "as \<in> set blobs" "x \<in> set as" and a: "indexedAction b (i, x) \<in> set (pl_actions plan)"
    and d: "d \<in> set (aa_dependsOn x)"
  shows "provided plan (indexedAction b (i, x)) d"
proof -
  from mapR_mem [OF blobs, of as] as(1) obtain r where r: "r \<in> set (transformed sha req KBlobs)"
    "planBlobBytes sha (ir_target req) r = Inr as" by (elim iffE) blast
  from planBlobBytes_ok [OF r(2) as(2)] obtain n where n: "recordId sha KBlobs r = Inr n" "aa_dependsOn x = [''blobs:'' @ n]"
    "aa_phase x = 45" by blast
  then have "n \<in> set (stringIds (transformed sha req KBlobs))"
    using r(1) by (auto simp: recordId_of stringIds_def List.map_filter_def image_iff intro!: bexI [of _ r])
  from id_is_planned [OF plans this] obtain y where y: "y \<in> set (actionsOf plans blobs loc)" "aa_kind y = RecordOf KBlobs"
    "aa_targetId y = n" "aa_phase y = 40" by auto
  from indexed_has [OF y(1)] obtain j where j: "indexedAction b (j, y) \<in> set (pl_actions plan)" unfolding plan by blast
  have "aa_index (indexedAction b (j, y)) < aa_index (indexedAction b (i, x))"
    using plan_earlier [OF plan j a] y(4) n(3) by simp
  then show ?thesis using y(2,3) d n(2) by (auto simp: provided_def intro!: bexI [OF _ j])
qed

text \<open>
  C28. A plan that is ready is closed and ordered: every action is an insertion or already present,
  the actions are numbered in their order, and whatever an action depends on is provided by an
  earlier action of the plan, apart from parents of revisions, which the plan contains too, and
  from external ends and schema packages that the archive does not carry.
\<close>

theorem ready_plan_closed:
  assumes "planArchiveImport sha loc coerce req = Inr plan" and "pl_status plan = PlanReady"
  shows "(\<forall>i < length (pl_actions plan). aa_index (pl_actions plan ! i) = i)
    \<and> (\<forall>a \<in> set (pl_actions plan). aa_disposition a \<in> {Insert, AlreadyPresent}
        \<and> (\<forall>d \<in> set (aa_dependsOn a). provided plan a d \<or> excused (transformed sha req) a d))"
  using assms(1)
proof (cases rule: planArchiveImport_ok)
  case (1 plans blobs)
  have none: "pl_issues plan = []" using assms(2) 1(6) by (auto split: if_splits)
  then have empty: "concat (map snd plans) = []" "validateGraph coerce (transformed sha req) (mappedWorkspaceId req) = []"
    using 1(3) by simp_all
  have dispositions: "aa_disposition a \<in> {Insert, AlreadyPresent}" if "a \<in> set (pl_actions plan)" for a
    using indexed_mem [OF that [unfolded 1(4)]] none blocked_only_with_issues [OF 1(1,2) empty(1)]
    by (cases "aa_disposition a") auto
  have "provided plan a d \<or> excused (transformed sha req) a d" if a: "a \<in> set (pl_actions plan)" and d: "d \<in> set (aa_dependsOn a)" for a d
  proof -
    from indexed_mem [OF a [unfolded 1(4)]] obtain i x where x: "x \<in> set (actionsOf plans blobs loc)"
      and ax: "a = indexedAction (ir_conflictMode req = RejectOnError \<and> pl_issues plan \<noteq> []) (i, x)" by blast
    from x [unfolded set_actionsOf] show ?thesis
    proof (elim UnE imageE UN_E)
      fix p assume p: "p \<in> set plans" "x = fst p"
      from recordPlans_mem [OF 1(1) p(1)] obtain k source r where
        r: "r \<in> set (transformed sha req k)" "planRecord sha req k (source, r) = Inr p" .
      then have f: "aa_kind a = RecordOf k" "aa_phase a = phase (RecordOf k)" "aa_record a = Some r" "aa_dependsOn a = dependencies k r"
        using p(2) ax by (cases p; auto simp: planRecord_ok)+
      from d [unfolded f(4) dependencies_mem] obtain k' s where "(k', JStr s) \<in> set (links k r)" "d = recordKindName k' @ '':'' @ s"
        by blast
      then show ?thesis using link_provided [OF 1(4,1) empty(2) a f(1-3) r(1)] by simp
    next
      fix as assume "as \<in> set blobs" "x \<in> set as"
      from bytes_provided [OF 1(4,1,2) this] show ?thesis using a d ax by auto
    qed
  qed
  with dispositions plan_positions(1) [OF 1(4)] show ?thesis by blast
qed



section \<open>Planning against another inventory\<close>

text \<open>What the identity of a plan does not cover.\<close>

definition erase :: "archiveImportAction \<Rightarrow> archiveImportAction" where
  "erase a = a\<lparr>aa_index := 0, aa_disposition := Insert\<rparr>"

lemma map_insort:
  assumes "\<And>x y. compare cmp (f x) (f y) = compare cmp x y"
  shows "map f (Sorting_Algorithms.insort cmp y xs) = Sorting_Algorithms.insort cmp (f y) (map f xs)"
  by (induction xs) (simp_all add: assms)

lemma map_sort_compatible:
  assumes "\<And>x y. compare cmp (f x) (f y) = compare cmp x y"
  shows "map f (Sorting_Algorithms.sort cmp xs) = Sorting_Algorithms.sort cmp (map f xs)"
  by (induction xs) (simp_all add: map_insort [OF assms])

lemma erase_compare: "compare (compareActions loc) (erase x) (erase y) = compare (compareActions loc) x y"
  by (simp add: compareActions_def erase_def)

lemma erase_indexed [simp]: "erase (indexedAction b p) = erase (snd p)"
  by (simp add: erase_def indexedAction_def case_prod_beta)

lemma erase_enumerate: "map erase (map (indexedAction b) (enumerate 0 xs)) = map erase xs"
  by (rule nth_equalityI) (simp_all add: nth_enumerate_eq)

lemma planActionJson_erase: "planActionJson sha (erase a) = planActionJson sha a"
  by (simp add: planActionJson_def erase_def)

lemma mapR_erase: "mapR (planActionJson sha) (map erase as) = mapR (planActionJson sha) as"
  by (induction as) (simp_all add: planActionJson_erase)

lemma planId_erase:
  assumes "map erase as = map erase bs"
  shows "calculateArchiveImportPlanId sha m s t mode c as = calculateArchiveImportPlanId sha m s t mode c bs"
proof -
  have "mapR (planActionJson sha) as = mapR (planActionJson sha) bs"
    using assms by (metis mapR_erase)
  then show ?thesis by (simp add: calculateArchiveImportPlanId_def)
qed

lemma mapR_same:
  assumes "mapR f xs = Inr ys" "mapR g xs = Inr zs" and "\<And>x y z. x \<in> set xs \<Longrightarrow> f x = Inr y \<Longrightarrow> g x = Inr z \<Longrightarrow> h y = h z"
  shows "map h ys = map h zs"
proof (rule nth_equalityI)
  note nth = assms(1,2) [unfolded mapR_eq_Inr list_all2_conv_all_nth]
  then show "length (map h ys) = length (map h zs)" by simp
  fix i assume "i < length (map h ys)"
  with nth have "i < length xs" "f (xs ! i) = Inr (ys ! i)" "g (xs ! i) = Inr (zs ! i)" "i < length ys" "i < length zs" by auto
  then show "map h ys ! i = map h zs ! i" using assms(3) [of "xs ! i"] by simp
qed

lemma plans_same:
  assumes "recordPlans sha req = Inr plans" "recordPlans sha (req\<lparr>ir_target := target\<rparr>) = Inr plans'"
    and same: "transformed sha (req\<lparr>ir_target := target\<rparr>) = transformed sha req"
  shows "map (erase \<circ> fst) plans = map (erase \<circ> fst) plans'"
proof -
  obtain pss where pss: "mapR (kindPlans sha req) archiveRecordKinds = Inr pss" "plans = concat pss"
    using assms(1) by (auto simp: recordPlans_def seqR_eq_Inr)
  obtain pss' where pss': "mapR (kindPlans sha (req\<lparr>ir_target := target\<rparr>)) archiveRecordKinds = Inr pss'" "plans' = concat pss'"
    using assms(2) by (auto simp: recordPlans_def seqR_eq_Inr)
  have one: "(erase \<circ> fst) p = (erase \<circ> fst) p'"
    if "planRecord sha req k q = Inr p" "planRecord sha (req\<lparr>ir_target := target\<rparr>) k q = Inr p'" for k q p p'
    using that by (cases q; cases p; cases p') (auto simp: planRecord_ok erase_def)
  have "map (map (erase \<circ> fst)) pss = map (map (erase \<circ> fst)) pss'"
  proof (rule mapR_same [OF pss(1) pss'(1)])
    fix k ps ps' assume "kindPlans sha req k = Inr ps" "kindPlans sha (req\<lparr>ir_target := target\<rparr>) k = Inr ps'"
    then show "map (erase \<circ> fst) ps = map (erase \<circ> fst) ps'"
      unfolding kindPlans_def same by (intro mapR_same [where h = "erase \<circ> fst"] one) simp_all
  qed
  then show ?thesis unfolding pss(2) pss'(2) map_concat by (rule arg_cong)
qed


lemma target_irrelevant:
  assumes "iv_workspaceId target = iv_workspaceId (ir_target req)"
  shows "mappedWorkspaceId (req\<lparr>ir_target := target\<rparr>) = mappedWorkspaceId req"
    and "transformed sha (req\<lparr>ir_target := target\<rparr>) = transformed sha req"
  using assms by (simp_all add: transformed_def mappedWorkspaceId_def targetWorkspace_def
      cong: option.case_cong archiveImportMode.case_cong if_cong)

lemma actions_same:
  assumes plans: "recordPlans sha req = Inr plans" "recordPlans sha (req\<lparr>ir_target := target\<rparr>) = Inr plans'"
    and blobs: "mapR (planBlobBytes sha (ir_target req)) (transformed sha req KBlobs) = Inr blobs"
      "mapR (planBlobBytes sha target) (transformed sha req KBlobs) = Inr blobs'"
    and same: "transformed sha (req\<lparr>ir_target := target\<rparr>) = transformed sha req"
  shows "map erase (actionsOf plans blobs loc) = map erase (actionsOf plans' blobs' loc)"
proof -
  have "map (map erase) blobs = map (map erase) blobs'"
    by (rule mapR_same [OF blobs]) (auto simp: planBlobBytes_def seqR_eq_Inr erase_def split: option.splits)
  then have "map erase (concat blobs) = map erase (concat blobs')" unfolding map_concat by (rule arg_cong)
  with plans_same [OF plans same] show ?thesis
    unfolding actionsOf_def map_sort_compatible [OF erase_compare] by simp
qed

text \<open>The target holds every record under its identifier and every blob.\<close>

definition holdsAll :: "(bytes \<Rightarrow> string) \<Rightarrow> archiveImportInventory \<Rightarrow> recordSets \<Rightarrow> bool" where
  "holdsAll sha target records \<longleftrightarrow>
     (\<forall>k. \<forall>r \<in> set (records k). \<forall>i. recordId sha k r = Inr i \<longrightarrow> map_of (iv_records target k) i = Some r)
     \<and> (\<forall>r \<in> set (records KBlobs). \<forall>digest. getProp r ''sha256'' = JStr digest \<longrightarrow>
          (\<exists>ds. iv_blobDigests target = Some ds \<and> digest \<in> set ds))"

lemma holdsAll_present:
  assumes holds: "holdsAll sha (ir_target req) (transformed sha req)" and plans: "recordPlans sha req = Inr plans"
    and blobs: "mapR (planBlobBytes sha (ir_target req)) (transformed sha req KBlobs) = Inr blobs"
    and a: "a \<in> set (actionsOf plans blobs loc)"
  shows "aa_disposition a = AlreadyPresent"
  using a unfolding set_actionsOf
proof (elim UnE imageE UN_E)
  fix p assume p: "p \<in> set plans" "a = fst p"
  from recordPlans_mem [OF plans p(1)] obtain k source r where
    r: "r \<in> set (transformed sha req k)" "planRecord sha req k (source, r) = Inr p" .
  then obtain d issues i where i: "recordId sha k r = Inr i" "existingDisposition req k r i = Inr (d, issues)" "aa_disposition a = d"
    using p(2) by (cases p) (auto simp: planRecord_ok)
  then have "map_of (iv_records (ir_target req) k) i = Some r" using holds r(1) by (auto simp: holdsAll_def)
  then have "inventoryRecord (ir_target req) k i = Own r" by (simp add: inventoryRecord_def readSlot_own)
  then show ?thesis using i(2,3) by (auto simp: existingDisposition_def canonicalSlot_def seqR_eq_Inr split: if_splits)
next
  fix as assume as: "as \<in> set blobs" "a \<in> set as"
  from mapR_mem [OF blobs, of as] as(1) obtain r where r: "r \<in> set (transformed sha req KBlobs)"
    "planBlobBytes sha (ir_target req) r = Inr as" by (elim iffE) blast
  then obtain digest where digest: "getProp r ''sha256'' = JStr digest"
    using as(2) by (auto simp: planBlobBytes_def asString_eq_Some split: option.splits)
  then obtain ds where "iv_blobDigests (ir_target req) = Some ds" "digest \<in> set ds"
    using holds r(1) unfolding holdsAll_def by blast
  then show ?thesis using r(2) as(2) digest by (auto simp: planBlobBytes_def seqR_eq_Inr)
qed

text \<open>
  Replanning: the identity of a plan does not depend on what the target holds, so a plan can be
  recognised after a part of it was carried out; and once the target holds every record and every
  blob of the archive, the plan has nothing left to insert.
\<close>

theorem plan_identity_stable:
  assumes "planArchiveImport sha loc coerce req = Inr plan"
    and "planArchiveImport sha loc coerce (req\<lparr>ir_target := target\<rparr>) = Inr plan'"
    and "iv_workspaceId target = iv_workspaceId (ir_target req)"
  shows "pl_planId plan' = pl_planId plan \<and> map erase (pl_actions plan') = map erase (pl_actions plan)
    \<and> (holdsAll sha target (transformed sha req) \<longrightarrow> (\<forall>a \<in> set (pl_actions plan'). aa_disposition a = AlreadyPresent))"
  using assms(1)
proof (cases rule: planArchiveImport_ok)
  case p: (1 plans blobs)
  note same = target_irrelevant [OF assms(3)]
  from assms(2) show ?thesis
  proof (cases rule: planArchiveImport_ok)
    case q: (1 plans' blobs')
    have "map erase (actionsOf plans blobs loc) = map erase (actionsOf plans' blobs' loc)"
      using q(2) same by (intro actions_same [OF p(1) q(1) p(2)]) simp_all
    then have actions: "map erase (pl_actions plan') = map erase (pl_actions plan)"
      unfolding p(4) q(4) erase_enumerate by simp
    then have "pl_planId plan' = pl_planId plan"
      using p(5) q(5) planId_erase [OF actions] same by simp
    moreover have "aa_disposition a = AlreadyPresent" if "holdsAll sha target (transformed sha req)" "a \<in> set (pl_actions plan')" for a
      using indexed_mem [OF that(2) [unfolded q(4)]] holdsAll_present [OF _ q(1,2)] that(1) same by auto
    ultimately show ?thesis using actions by blast
  qed
qed


section \<open>Mapping keeps the references\<close>

lemma getProp_setProp [simp]: "getProp (setProp r k v) k' = (if k' = k then v else getProp r k')"
  by (simp add: getProp_def setProp_def update_conv')

text \<open>The name an identifier gets, and what mapping does to the members a check reads.\<close>

definition ren :: "idMappings \<Rightarrow> archiveRecordKind \<Rightarrow> string \<Rightarrow> string" where
  "ren mappings k i = (case mappings k i of None \<Rightarrow> i | Some j \<Rightarrow> j)"

lemma mapReference_str: "mapReference (mappings k) (JStr s) = JStr (ren mappings k s)"
  by (simp add: mapReference_def ren_def split: option.splits)

lemma mapReference_eq_str: "mapReference m v = JStr t \<longleftrightarrow> (\<exists>s. v = JStr s \<and> (case m s of None \<Rightarrow> s | Some j \<Rightarrow> j) = t)"
  by (cases v) (auto simp: mapReference_def split: option.splits)

lemma mapReference_other: "asString (mapReference m v) = None \<longleftrightarrow> asString v = None" "mapReference m JUndef = JUndef" "mapReference m JNull = JNull"
  "mapReference m v = JUndef \<longleftrightarrow> v = JUndef" "mapReference m v = JNull \<longleftrightarrow> v = JNull"
  by (cases v; simp add: mapReference_def split: option.splits)+

lemmas map_defs = mapRecord_def mapLinks_def mapField_def mapEnd_def mapWorkspace_def

lemma mapMergeParents_other [simp]: "k \<noteq> ''mergeParentRevisionIds'' \<Longrightarrow> getProp (mapMergeParents mappings r) k = getProp r k"
  by (simp add: mapMergeParents_def split: json.splits)

lemma mapped_id: "getProp (mapRecord k s t m r) ''id'' = mapReference (m k) (getProp r ''id'')"
  by (cases k) (simp_all add: map_defs)

lemma mapped_workspace:
  "getProp (mapRecord k s t m r) ''workspaceId''
     = (if k \<noteq> KAuditEvents \<and> getProp r ''workspaceId'' = JStr s then JStr t else getProp r ''workspaceId'')"
  by (cases k) (simp_all add: map_defs)

lemma setProp_other: "k' \<noteq> k \<Longrightarrow> map_of (setProp r k v) k' = map_of r k'"
  by (simp add: setProp_def update_conv')

lemma workspace_key: "map_of (mapRecord k s t m r) ''workspaceId'' = None \<longleftrightarrow> map_of r ''workspaceId'' = None"
proof -
  have "map_of (mapMergeParents m x) ''workspaceId'' = map_of x ''workspaceId''" for x
    by (simp add: mapMergeParents_def setProp_other split: json.splits)
  moreover have "map_of (mapWorkspace k s t r) ''workspaceId'' = None \<longleftrightarrow> map_of r ''workspaceId'' = None"
    by (auto simp: mapWorkspace_def setProp_def getProp_def update_conv' split: option.splits)
  ultimately show ?thesis
    by (cases k) (simp_all add: mapRecord_def mapLinks_def mapField_def mapEnd_def setProp_other)
qed

lemma workspaceIssues_none:
  "workspaceIssues records w k = [] \<longleftrightarrow> (\<forall>r \<in> set (records k).
     k = KAuditEvents \<or> map_of r ''workspaceId'' = None \<or> getProp r ''workspaceId'' = JStr w)"
  unfolding workspaceIssues_def concat_map_Nil by (intro ball_cong) auto

lemma workspace_mapped:
  assumes "workspaceIssues source s k = []" and "target k = map (mapRecord k s t m) (source k)"
  shows "workspaceIssues target t k = []"
  unfolding workspaceIssues_none assms(2) set_map
proof (intro ballI, elim imageE)
  fix q r assume q: "q = mapRecord k s t m r" and "r \<in> set (source k)"
  with assms(1) have "k = KAuditEvents \<or> map_of r ''workspaceId'' = None \<or> getProp r ''workspaceId'' = JStr s"
    unfolding workspaceIssues_none by blast
  then show "k = KAuditEvents \<or> map_of q ''workspaceId'' = None \<or> getProp q ''workspaceId'' = JStr t"
    using workspace_key [of k s t m r] unfolding q by (cases "k = KAuditEvents") (auto simp: mapped_workspace)
qed

lemma mapped_fields:
  "getProp (mapRecord KDatasets s t m r) ''schemaPackageId'' = getProp r ''schemaPackageId''"
  "getProp (mapRecord KDatasets s t m r) ''retentionPolicyId'' = mapReference (m KRetention) (getProp r ''retentionPolicyId'')"
  "getProp (mapRecord KResources s t m r) ''datasetId'' = mapReference (m KDatasets) (getProp r ''datasetId'')"
  "getProp (mapRecord KResources s t m r) ''currentRevisionId'' = mapReference (m KRevisions) (getProp r ''currentRevisionId'')"
  "getProp (mapRecord KRevisions s t m r) ''resourceId'' = mapReference (m KResources) (getProp r ''resourceId'')"
  "getProp (mapRecord KRevisions s t m r) ''datasetId'' = mapReference (m KDatasets) (getProp r ''datasetId'')"
  "getProp (mapRecord KRevisions s t m r) ''schemaPackageId'' = getProp r ''schemaPackageId''"
  "getProp (mapRecord KRevisions s t m r) ''parentRevisionId'' = mapReference (m KRevisions) (getProp r ''parentRevisionId'')"
  "getProp (mapRecord KRevisions s t m r) ''revisionNumber'' = getProp r ''revisionNumber''"
  "getProp (mapRecord KRevisionBlobs s t m r) ''revisionId'' = mapReference (m KRevisions) (getProp r ''revisionId'')"
  "getProp (mapRecord KRevisionBlobs s t m r) ''blobObjectId'' = mapReference (m KBlobs) (getProp r ''blobObjectId'')"
  "getProp (mapRecord KRelations s t m r) ''sourceKind'' = getProp r ''sourceKind''"
  "getProp (mapRecord KRelations s t m r) ''targetKind'' = getProp r ''targetKind''"
  "getProp (mapRecord KRelations s t m r) ''sourceId'' = mapRelationReference m (getProp r ''sourceKind'') (getProp r ''sourceId'')"
  "getProp (mapRecord KRelations s t m r) ''targetId'' = mapRelationReference m (getProp r ''targetKind'') (getProp r ''targetId'')"
  "getProp (mapRecord KTombstones s t m r) ''subjectKind'' = getProp r ''subjectKind''"
  "getProp (mapRecord KTombstones s t m r) ''subjectId'' = mapRelationReference m (getProp r ''subjectKind'') (getProp r ''subjectId'')"
  "getProp (mapRecord KTombstones s t m r) ''priorRevisionId'' = mapReference (m KRevisions) (getProp r ''priorRevisionId'')"
  by (simp_all add: map_defs)

lemma stringIds_mapped: "stringIds (map (mapRecord k s t m) rs) = map (ren m k) (stringIds rs)"
proof (induction rs)
  case (Cons r rs)
  then show ?case
    by (cases "getProp r ''id''")
      (simp_all add: stringIds_def List.map_filter_simps mapped_id mapReference_def ren_def split: option.splits)
qed (simp add: stringIds_def)

lemma requireId_mapped:
  assumes "requireId (stringIds rs) v label allow = []"
  shows "requireId (stringIds (map (mapRecord k s t m) rs)) (mapReference (m k) v) label' allow = []"
  using assms by (auto simp: requireId_none stringIds_mapped mapReference_str)

lemma relation_mapped:
  assumes "validateRelationEnd source kind v side = []" and "\<And>k. target k = map (mapRecord k s t m) (source k)"
  shows "validateRelationEnd target kind (mapRelationReference m kind v) side = []"
  using assms(1) by (auto simp: validateRelationEnd_def mapRelationReference_def assms(2) requireId_mapped split: if_splits)


lemma revisionById_mapped:
  assumes inj: "inj_on (ren m KRevisions) (set (stringIds rs))" and "p \<in> set (stringIds rs)"
    and "source KRevisions = rs" "target KRevisions = map (mapRecord KRevisions s t m) rs"
  shows "revisionById target (ren m KRevisions p) = map_option (mapRecord KRevisions s t m) (revisionById source p)"
proof -
  have "getProp (mapRecord KRevisions s t m r) ''id'' = JStr (ren m KRevisions p) \<longleftrightarrow> getProp r ''id'' = JStr p" if "r \<in> set rs" for r
  proof (cases "getProp r ''id''")
    case (JStr i)
    then have "i \<in> set (stringIds rs)" using that by (force simp: stringIds_def List.map_filter_def)
    then show ?thesis using inj_onD [OF inj] assms(2) JStr by (auto simp: mapped_id mapReference_str)
  qed (simp_all add: mapped_id mapReference_def)
  then have "List.find (\<lambda>r. getProp r ''id'' = JStr (ren m KRevisions p)) (map (mapRecord KRevisions s t m) xs)
      = map_option (mapRecord KRevisions s t m) (List.find (\<lambda>r. getProp r ''id'' = JStr p) xs)" if "set xs \<subseteq> set rs" for xs
    using that by (induction xs) auto
  from this [of "rev rs"] show ?thesis by (simp add: revisionById_def assms(3,4) rev_map)
qed

definition renSlot :: "idMappings \<Rightarrow> string \<times> int \<Rightarrow> string \<times> int" where
  "renSlot m p = (ren m KResources (fst p), snd p)"

lemma revisionSlot_mapped:
  assumes "getProp r ''resourceId'' = JStr i"
  shows "revisionSlot (mapRecord KRevisions s t m r) = map_option (renSlot m) (revisionSlot r)"
  using assms by (cases "getProp r ''revisionNumber''") (simp_all add: revisionSlot_def mapped_fields mapReference_str renSlot_def)

lemma parent_mapped:
  assumes none: "parentIssues coerce source r = []" and res: "getProp r ''resourceId'' = JStr i"
    and inj: "inj_on (ren m KRevisions) (set (stringIds (source KRevisions)))"
    and target: "target KRevisions = map (mapRecord KRevisions s t m) (source KRevisions)"
  shows "parentIssues coerce target (mapRecord KRevisions s t m r) = []"
proof (cases "asString (getProp r ''parentRevisionId'')")
  case None
  then have "asString (mapReference (m KRevisions) (getProp r ''parentRevisionId'')) = None" by (simp only: mapReference_other)
  then show ?thesis by (simp add: parentIssues_def mapped_fields)
next
  case (Some p)
  then have p: "getProp r ''parentRevisionId'' = JStr p" by (simp add: asString_eq_Some)
  with none obtain parent where parent: "revisionById source p = Some parent"
    "strictEq (getProp parent ''resourceId'') (getProp r ''resourceId'')"
    "\<not> numberGe (jsNumber coerce (getProp parent ''revisionNumber'')) (jsNumber coerce (getProp r ''revisionNumber''))"
    by (auto simp: parentIssues_def split: option.splits if_splits)
  then have "getProp parent ''resourceId'' = JStr i" using res by (auto simp: strictEq_def split: json.splits)
  moreover have "revisionById target (ren m KRevisions p) = Some (mapRecord KRevisions s t m parent)"
    using revisionById_mapped [where source = source and target = target, OF inj revisionById_mem [OF parent(1)] refl target] parent(1) by simp
  ultimately show ?thesis
    using parent(3) p res by (simp add: parentIssues_def mapped_fields mapReference_str strictEq_def)
qed

lemma revisions_mapped:
  assumes none: "revisionIssues coerce source seen rs = []"
    and target: "\<And>k. target k = map (mapRecord k s t m) (source k)"
    and schemas: "\<And>i. m KSchemaPackages i = None"
    and inj: "inj_on (ren m KRevisions) (set (stringIds (source KRevisions)))"
      "inj_on (ren m KResources) (set (stringIds (source KResources)))"
    and seen: "fst ` set seen \<subseteq> set (stringIds (source KResources))"
  shows "revisionIssues coerce target (map (renSlot m) seen) (map (mapRecord KRevisions s t m) rs) = []"
  using none seen
proof (induction rs arbitrary: seen)
  case (Cons r rs)
  have refs: "revisionReferenceIssues source r = []" and parent: "parentIssues coerce source r = []" using Cons.prems(1) by auto
  then obtain i where i: "getProp r ''resourceId'' = JStr i" "i \<in> set (stringIds (source KResources))"
    by (auto simp: revisionReferenceIssues_def requireId_none)
  have sch: "mapReference (m KSchemaPackages) v = v" for v by (simp add: mapReference_def schemas split: json.splits)
  have "revisionReferenceIssues target (mapRecord KRevisions s t m r) = []"
    using refs requireId_mapped [where k = KSchemaPackages and m = m, unfolded sch]
    by (auto simp: revisionReferenceIssues_def mapped_fields target intro!: requireId_mapped)
  moreover have "parentIssues coerce target (mapRecord KRevisions s t m r) = []"
    by (rule parent_mapped [where source = source and target = target, OF parent i(1) inj(1) target [of KRevisions]])
  moreover have "renSlot m p \<notin> set (map (renSlot m) seen)" if "revisionSlot r = Some p" for p
  proof -
    have "p \<notin> set seen" using Cons.prems(1) that by (auto split: if_splits)
    moreover have "fst p = i" using that i(1) by (auto simp: revisionSlot_def split: json.splits)
    ultimately show ?thesis using inj_onD [OF inj(2)] Cons.prems(2) i(2) by (cases p) (fastforce simp: renSlot_def)
  qed
  moreover have "revisionIssues coerce target
      (map (renSlot m) (case revisionSlot r of Some p \<Rightarrow> p # seen | None \<Rightarrow> seen)) (map (mapRecord KRevisions s t m) rs) = []"
    using Cons.prems i by (intro Cons.IH) (auto simp: revisionSlot_def split: option.splits json.splits)
  ultimately show ?case
    by (cases "revisionSlot r") (simp_all add: revisionSlot_mapped [OF i(1)])
qed simp


lemma buildIdMappings_ren:
  assumes "k \<in> set scopedKinds" "s \<noteq> t" and "i \<in> set (stringIds (source k))"
  shows "ren (buildIdMappings sha source s t) k i = mappedEntityId sha t k i"
proof -
  have "k \<noteq> KWorkspaces" using assms(1) by (auto simp: scopedKinds_def)
  then have "buildIdMappings sha source s t k i = Some (mappedEntityId sha t k i)"
    using assms by (simp add: buildIdMappings_def map_of_map_restrict)
  then show ?thesis by (simp add: ren_def)
qed

lemma buildIdMappings_inj:
  assumes "k \<in> set scopedKinds" and "inj_on (mappedEntityId sha t k) (set (stringIds (source k)))"
  shows "inj_on (ren (buildIdMappings sha source s t) k) (set (stringIds (source k)))"
proof (cases "s = t")
  case True
  have "ren (buildIdMappings sha source s t) k i = i" for i
    using True by (auto simp: ren_def buildIdMappings_def map_of_map_restrict restrict_map_def split: option.splits)
  then show ?thesis by (simp add: inj_on_def)
next
  case False
  then show ?thesis using assms by (auto simp: inj_on_def buildIdMappings_ren)
qed

text \<open>
  C29. Mapping an archive into another workspace keeps its references intact: when the records are
  closed and consistent as exported, so are the mapped ones, unless the new identifiers of two
  resources or of two revisions collide.
\<close>

theorem mapping_keeps_graph:
  assumes "validateGraph coerce source s = []"
    and "inj_on (mappedEntityId sha t KResources) (set (stringIds (source KResources)))"
    and "inj_on (mappedEntityId sha t KRevisions) (set (stringIds (source KRevisions)))"
  shows "validateGraph coerce (transformRecords sha source s t) t = []"
proof -
  define m where "m = buildIdMappings sha source s t"
  define target where "target = transformRecords sha source s t"
  have target: "target k = map (mapRecord k s t m) (source k)" for k
    by (simp add: target_def m_def transformRecords_def)
  have schemas: "m KSchemaPackages i = None" for i by (simp add: m_def buildIdMappings_def scopedKinds_def)
  have sch: "mapReference (m KSchemaPackages) v = v" for v by (simp add: mapReference_def schemas split: json.splits)
  have inj: "inj_on (ren m KResources) (set (stringIds (source KResources)))" "inj_on (ren m KRevisions) (set (stringIds (source KRevisions)))"
    unfolding m_def using assms(2,3) by (auto intro!: buildIdMappings_inj simp: scopedKinds_def)
  note graph = validateGraph_def [of coerce source s]
  have "workspaceIssues target t k = []" for k
  proof -
    have "workspaceIssues source s k = []" using assms(1) all_kinds [of k] by (simp add: graph)
    then show ?thesis by (rule workspace_mapped) (rule target)
  qed
  moreover have "datasetIssues target (mapRecord KDatasets s t m r) = []" if "r \<in> set (source KDatasets)" for r
  proof -
    have "datasetIssues source r = []" using assms(1) that by (simp add: graph)
    then show ?thesis using requireId_mapped [where k = KSchemaPackages and m = m, unfolded sch]
      by (auto simp: datasetIssues_def mapped_fields target)
  qed
  moreover have "resourceIssues target (mapRecord KResources s t m r) = []" if "r \<in> set (source KResources)" for r
  proof -
    have "resourceIssues source r = []" using assms(1) that by (simp add: graph)
    then show ?thesis by (auto simp: resourceIssues_def mapped_fields target mapReference_other intro: requireId_mapped split: if_splits)
  qed
  moreover have "revisionIssues coerce target [] (map (mapRecord KRevisions s t m) (source KRevisions)) = []"
  proof -
    have "revisionIssues coerce source [] (source KRevisions) = []" using assms(1) by (simp add: graph)
    from revisions_mapped [OF this target schemas inj(2,1)] show ?thesis by simp
  qed
  moreover have "attachmentIssues target (mapRecord KRevisionBlobs s t m r) = []" if "r \<in> set (source KRevisionBlobs)" for r
  proof -
    have "attachmentIssues source r = []" using assms(1) that by (simp add: graph)
    then show ?thesis by (auto simp: attachmentIssues_def mapped_fields target intro: requireId_mapped)
  qed
  moreover have "relationIssues target (mapRecord KRelations s t m r) = []" if "r \<in> set (source KRelations)" for r
  proof -
    have "relationIssues source r = []" using assms(1) that by (simp add: graph)
    then show ?thesis by (auto simp: relationIssues_def mapped_fields intro: relation_mapped [OF _ target])
  qed
  moreover have "tombstoneIssues target (mapRecord KTombstones s t m r) = []" if "r \<in> set (source KTombstones)" for r
  proof -
    have "tombstoneIssues source r = []" using assms(1) that by (simp add: graph)
    then show ?thesis
      by (auto simp: tombstoneIssues_def mapped_fields target mapRelationReference_def mapReference_other Let_def intro: requireId_mapped
          split: if_splits)
  qed
  ultimately show ?thesis
    unfolding target_def [symmetric] validateGraph_def by (simp add: target)
qed


section \<open>A sample archive\<close>

lemma compare_default: "compare default x y = (if x < y then Less else if y < x then Greater else Equiv)"
  by (cases "compare default x y") (auto simp: not_less)

definition planManifest :: trustArchiveManifest where
  "planManifest = \<lparr>tm_formatVersion = ''0.2'', tm_exportId = ''x1'', tm_workspaceId = ''w0'', tm_datasetIds = [''d1''], tm_createdAt = ''t'',
     tm_createdBy = ''u'', tm_sourceVersion = ''1'', tm_signatureProfile = Unsigned,
     tm_auditLineage = \<lparr>al_sourceWorkspaceId = ''w0'', al_eventCount = 0, al_firstEventHash = None, al_lastEventHash = None\<rparr>,
     tm_recordCounts = (\<lambda>k. if k = KSchemaPackages \<or> k = KDatasets then 1 else 0), tm_blobCount = 0, tm_totalBlobBytes = 0\<rparr>"

definition planRecords :: recordSets where
  "planRecords k = (case k of
     KSchemaPackages \<Rightarrow> [[(''id'', JStr ''s1'')]]
   | KDatasets \<Rightarrow> [[(''id'', JStr ''d1''), (''workspaceId'', JStr ''w0''), (''schemaPackageId'', JStr ''s1''), (''retentionPolicyId'', JNull)]]
   | _ \<Rightarrow> [])"

definition planRequest :: "archiveImportInventory \<Rightarrow> archiveImportRequest" where
  "planRequest target = \<lparr>ir_archive = \<lparr>pa_entries = Map.empty, pa_manifest = planManifest, pa_valid = True, pa_records = planRecords\<rparr>,
     ir_mode = PreserveIds, ir_conflictMode = RejectOnError, ir_target = target\<rparr>"

definition emptyInventory :: archiveImportInventory where
  "emptyInventory = \<lparr>iv_workspaceId = None, iv_records = (\<lambda>_. []), iv_blobDigests = None\<rparr>"

definition fullInventory :: archiveImportInventory where
  "fullInventory = \<lparr>iv_workspaceId = None, iv_records = (\<lambda>k. map (\<lambda>r. (case getProp r ''id'' of JStr i \<Rightarrow> i, r)) (planRecords k)),
     iv_blobDigests = None\<rparr>"

lemma planRequest_fields [simp]:
  "pa_records (ir_archive (planRequest target)) = planRecords" "pa_manifest (ir_archive (planRequest target)) = planManifest"
  "pa_valid (ir_archive (planRequest target))" "ir_mode (planRequest target) = PreserveIds"
  "ir_conflictMode (planRequest target) = RejectOnError" "ir_target (planRequest target) = target"
  "mappedWorkspaceId (planRequest target) = ''w0''"
  by (simp_all add: planRequest_def mappedWorkspaceId_def targetWorkspace_def planManifest_def)

lemma sample_transformed: "transformed sha (planRequest target) = planRecords"
proof
  fix k show "transformed sha (planRequest target) k = planRecords k"
    by (cases k) (simp_all add: transformed_def transformRecords_def planRecords_def planManifest_def mapRecord_def mapLinks_def mapField_def mapWorkspace_def setProp_def getProp_def
        mapReference_def buildIdMappings_def scopedKinds_def stringIds_def List.map_filter_simps)
qed

definition sampleActions :: "disposition \<Rightarrow> archiveImportAction list" where
  "sampleActions d = [
     \<lparr>aa_index = 0, aa_phase = 20, aa_kind = RecordOf KSchemaPackages, aa_sourceId = ''s1'', aa_targetId = ''s1'', aa_disposition = d,
       aa_record = Some [(''id'', JStr ''s1'')], aa_dependsOn = []\<rparr>,
     \<lparr>aa_index = 1, aa_phase = 30, aa_kind = RecordOf KDatasets, aa_sourceId = ''d1'', aa_targetId = ''d1'', aa_disposition = d,
       aa_record = Some (hd (planRecords KDatasets)), aa_dependsOn = [''schema-packages:s1'']\<rparr>]"

lemma sample_graph: "validateGraph coerce planRecords ''w0'' = []"
  by (simp add: validateGraph_def planRecords_def workspaceIssues_def archiveRecordKinds_def datasetIssues_def requireId_def
      stringIds_def List.map_filter_simps getProp_def)

lemma sample_plans:
  assumes "target = emptyInventory \<and> d = Insert \<or> target = fullInventory \<and> d = AlreadyPresent"
  shows "recordPlans (\<lambda>_. sampleDigest) (planRequest target) = Inr (map (\<lambda>a. (a\<lparr>aa_index := 0\<rparr>, [])) (sampleActions d))"
  using assms
  by (elim disjE) (simp_all add: recordPlans_def kindPlans_def archiveRecordKinds_def sample_transformed planRecords_def getProp_def planRecord_def
      recordId_def existingDisposition_def inventoryRecord_def readSlot_def emptyInventory_def fullInventory_def prototypeNames_def
      canonicalSlot_def sampleActions_def dependencies_def links_def dependency_def)

lemma sample_id: "\<exists>i. calculateArchiveImportPlanId (\<lambda>_. sampleDigest) planManifest ''w0'' ''w0'' PreserveIds RejectOnError (sampleActions d) = Inr i"
  by (simp add: calculateArchiveImportPlanId_def planManifest_def manifestJson_def lineageJson_def nullable_def archiveRecordKinds_def
      sampleActions_def planActionJson_def planRecords_def)

lemma sample_plan:
  assumes "target = emptyInventory \<and> d = Insert \<or> target = fullInventory \<and> d = AlreadyPresent"
  obtains plan where "planArchiveImport (\<lambda>_. sampleDigest) default coerce (planRequest target) = Inr plan"
    "pl_status plan = PlanReady" "pl_actions plan = sampleActions d"
proof -
  have "requestIssues (planRequest target) = []"
    using assms by (auto simp: requestIssues_def targetWorkspace_def planManifest_def emptyInventory_def fullInventory_def)
  moreover have "validateRetentionAssignments planRecords = []" by (simp add: validateRetentionAssignments_def planRecords_def getProp_def)
  moreover have "validateSchemaConflicts planRecords target = []"
    using assms by (auto simp: validateSchemaConflicts_def schemaConflict_def planRecords_def getProp_def emptyInventory_def fullInventory_def
        strictEq_def)
  moreover have "map (indexedAction False) (enumerate 0 (Sorting_Algorithms.sort (compareActions default)
      (map (\<lambda>a. a\<lparr>aa_index := 0\<rparr>) (sampleActions d)))) = sampleActions d"
    by (simp add: sampleActions_def compareActions_def compare_prod_lex_apply compare_default indexedAction_def)
  moreover have "planRecords KBlobs = []" by (simp add: planRecords_def)
  ultimately show thesis
    using that sample_id [of d] sample_plans [OF assms] sample_graph [of coerce]
    by (auto simp: planArchiveImport_def sample_transformed planManifest_def comp_def Let_def)
qed

theorem planned_imports_execute_witness:
  "\<exists>plan. planArchiveImport (\<lambda>_. sampleDigest) default (\<lambda>_. None) (planRequest emptyInventory) = Inr plan
     \<and> validateInput (\<lambda>_. sampleDigest) (ir_archive (planRequest emptyInventory)) plan = Inr () \<and> length (pl_actions plan) = 2"
proof -
  obtain plan where p: "planArchiveImport (\<lambda>_. sampleDigest) default (\<lambda>_. None) (planRequest emptyInventory) = Inr plan"
    "pl_status plan = PlanReady" "pl_actions plan = sampleActions Insert"
    by (rule sample_plan [of emptyInventory Insert "\<lambda>_. None"]) simp_all
  from planned_imports_execute [OF p(1)] p show ?thesis by (auto simp: sampleActions_def)
qed

theorem ready_plan_closed_witness:
  "\<exists>plan. planArchiveImport (\<lambda>_. sampleDigest) default (\<lambda>_. None) (planRequest emptyInventory) = Inr plan
     \<and> (let a = pl_actions plan ! 1 in aa_dependsOn a = [''schema-packages:s1''] \<and> aa_index a = 1
        \<and> (provided plan a ''schema-packages:s1'' \<or> excused planRecords a ''schema-packages:s1''))"
proof -
  obtain plan where p: "planArchiveImport (\<lambda>_. sampleDigest) default (\<lambda>_. None) (planRequest emptyInventory) = Inr plan"
    "pl_status plan = PlanReady" "pl_actions plan = sampleActions Insert"
    by (rule sample_plan [of emptyInventory Insert "\<lambda>_. None"]) simp_all
  from ready_plan_closed [OF p(1,2)] p(1,3) show ?thesis
    unfolding sample_transformed by (auto simp: sampleActions_def)
qed

theorem plan_identity_stable_witness:
  "\<exists>plan plan'. planArchiveImport (\<lambda>_. sampleDigest) default (\<lambda>_. None) (planRequest emptyInventory) = Inr plan
     \<and> planArchiveImport (\<lambda>_. sampleDigest) default (\<lambda>_. None) (planRequest fullInventory) = Inr plan'
     \<and> pl_planId plan' = pl_planId plan \<and> pl_actions plan' \<noteq> [] \<and> (\<forall>a \<in> set (pl_actions plan'). aa_disposition a = AlreadyPresent)"
proof -
  obtain plan where p: "planArchiveImport (\<lambda>_. sampleDigest) default (\<lambda>_. None) (planRequest emptyInventory) = Inr plan"
    by (rule sample_plan [of emptyInventory Insert "\<lambda>_. None"]) simp_all
  obtain plan' where p': "planArchiveImport (\<lambda>_. sampleDigest) default (\<lambda>_. None) (planRequest fullInventory) = Inr plan'"
    "pl_actions plan' = sampleActions AlreadyPresent"
    by (rule sample_plan [of fullInventory AlreadyPresent "\<lambda>_. None"]) simp_all
  have "(planRequest emptyInventory)\<lparr>ir_target := fullInventory\<rparr> = planRequest fullInventory" by (simp add: planRequest_def)
  moreover have "holdsAll (\<lambda>_. sampleDigest) fullInventory planRecords"
    by (auto simp: holdsAll_def planRecords_def fullInventory_def recordId_def getProp_def split: archiveRecordKind.splits)
  ultimately show ?thesis
    using plan_identity_stable [OF p, of fullInventory plan'] p p'
    by (auto simp: sample_transformed emptyInventory_def fullInventory_def sampleActions_def)
qed

definition graphRecords :: recordSets where
  "graphRecords k = (case k of
     KDatasets \<Rightarrow> [[(''id'', JStr ''d1''), (''workspaceId'', JStr ''w0''), (''schemaPackageId'', JStr ''s1'')]]
   | KResources \<Rightarrow> [[(''id'', JStr ''r1''), (''datasetId'', JStr ''d1''), (''currentRevisionId'', JStr ''v1'')]]
   | KRevisions \<Rightarrow> [[(''id'', JStr ''v1''), (''datasetId'', JStr ''d1''), (''resourceId'', JStr ''r1''), (''revisionNumber'', JNum 1),
       (''schemaPackageId'', JStr ''s1''), (''parentRevisionId'', JNull)]]
   | _ \<Rightarrow> [])"

theorem mapping_keeps_graph_witness:
  "validateGraph (\<lambda>_. None) (transformRecords (\<lambda>_. sampleDigest) graphRecords ''w0'' ''w1'') ''w1'' = []
   \<and> getProp (hd (transformRecords (\<lambda>_. sampleDigest) graphRecords ''w0'' ''w1'' KDatasets)) ''workspaceId'' = JStr ''w1''"
proof
  have "validateGraph (\<lambda>_. None) graphRecords ''w0'' = []"
    by (simp add: validateGraph_def graphRecords_def workspaceIssues_def archiveRecordKinds_def datasetIssues_def resourceIssues_def
        revisionReferenceIssues_def revisionSlot_def parentIssues_def requireId_def stringIds_def List.map_filter_simps getProp_def)
  then show "validateGraph (\<lambda>_. None) (transformRecords (\<lambda>_. sampleDigest) graphRecords ''w0'' ''w1'') ''w1'' = []"
    by (rule mapping_keeps_graph) (simp_all add: graphRecords_def stringIds_def List.map_filter_simps getProp_def)
  show "getProp (hd (transformRecords (\<lambda>_. sampleDigest) graphRecords ''w0'' ''w1'' KDatasets)) ''workspaceId'' = JStr ''w1''"
    by (simp add: transformRecords_def graphRecords_def mapped_workspace) (simp add: getProp_def)
qed


section \<open>Members that an archive leaves out\<close>

text \<open>
  The mapping assigns every link of a record, also one the record does not have, and so leaves a
  property that is \<open>undefined\<close>. The identity of the plan encodes the record and throws on it, as
  does the fallback identifier of a retention record.
\<close>

definition optionalLinks :: "(archiveRecordKind \<times> string) list" where
  "optionalLinks = [(KDatasets, ''retentionPolicyId''), (KResources, ''currentRevisionId''), (KRevisions, ''parentRevisionId''),
     (KRevisions, ''restoredFromRevisionId''), (KTombstones, ''priorRevisionId''), (KRetention, ''id'')]"

lemma undefined_member: "map_of r k = Some JUndef \<Longrightarrow> hasUndefObj r"
  by (induction r) (auto split: if_splits)

lemma setProp_has: "map_of (setProp r k v) k = Some v"
  by (simp add: setProp_def update_conv')

lemma missing_link_undefined:
  assumes "(k, f) \<in> set optionalLinks" and "getProp r f = JUndef"
  shows "map_of (mapRecord k s t m r) f = Some JUndef"
proof -
  have "map_of (mapMergeParents m x) ''restoredFromRevisionId'' = map_of x ''restoredFromRevisionId''"
    "map_of (mapMergeParents m x) ''parentRevisionId'' = map_of x ''parentRevisionId''" for x
    by (simp_all add: mapMergeParents_def setProp_other split: json.splits)
  then show ?thesis using assms
    by (auto simp: optionalLinks_def map_defs setProp_has setProp_other mapReference_def)
qed

text \<open>
  An archive with a record that leaves out an optional link (rather than giving it as
  \<open>null\<close>), or a retention record without an identifier, cannot be planned: the planner throws
  instead of reporting an issue.
\<close>

theorem missing_link_unplannable:
  assumes "(k, f) \<in> set optionalLinks" and "r \<in> set (pa_records (ir_archive req) k)" and "getProp r f = JUndef"
  shows "\<exists>e. planArchiveImport sha loc coerce req = Inl e"
proof (rule ccontr)
  assume "\<not> ?thesis"
  then obtain plan where "planArchiveImport sha loc coerce req = Inr plan" by (cases "planArchiveImport sha loc coerce req") auto
  then show False
  proof (cases rule: planArchiveImport_ok)
    case (1 plans blobs)
    obtain r' where r': "r' \<in> set (transformed sha req k)" "map_of r' f = Some JUndef"
      using assms(2) missing_link_undefined [OF assms(1,3)] by (auto simp: transformed_def transformRecords_def)
    then have e: "canonicalJsonObj r' = Inl notEncodable" using undefined_member by (simp add: canonicalJsonObj_eq)
    from planned_record [OF 1(1) r'(1)] obtain a issues source where a: "(a, issues) \<in> set plans"
      "planRecord sha req k (source, r') = Inr (a, issues)" by blast
    then have rec: "aa_record a = Some r'" by (auto simp: planRecord_ok)
    have "a \<in> set (actionsOf plans blobs loc)" using a(1) by (force simp: set_actionsOf)
    then obtain i b where "indexedAction b (i, a) \<in> set (pl_actions plan)" using indexed_has 1(4) by metis
    moreover obtain js where "mapR (planActionJson sha) (pl_actions plan) = Inr js"
      using 1(5) by (auto simp: calculateArchiveImportPlanId_def seqR_eq_Inr)
    ultimately obtain j where "planActionJson sha (indexedAction b (i, a)) = Inr j" using mapR_total by metis
    then show False using e rec by (simp add: planActionJson_def seqR_eq_Inr)
  qed
qed

theorem missing_link_unplannable_witness:
  "\<exists>e. planArchiveImport (\<lambda>_. sampleDigest) default (\<lambda>_. None) ((planRequest emptyInventory)
     \<lparr>ir_archive := (ir_archive (planRequest emptyInventory))\<lparr>pa_records := (\<lambda>k. if k = KDatasets then [[(''id'', JStr ''d1'')]] else [])\<rparr>\<rparr>) = Inl e"
  by (rule missing_link_unplannable [of KDatasets "''retentionPolicyId''" "[(''id'', JStr ''d1'')]"])
    (simp_all add: optionalLinks_def getProp_def)

end
