(* ===== verification/ArchiveImportStore.thy ===== *)
theory ArchiveImportStore
  imports ArchiveImport IngestStore
begin

text \<open>
  \<open>packages/persistence-postgres/src/archive-import.ts\<close>: the operation store of imports and the
  import target, over the tables of operations and of audit events, an object storage and the
  remaining tables. The rows that a record action inserts (\<open>commitAction\<close>) and the inventory query
  are arguments: an update of, and a reading from, those remaining tables. The inputs are taken to
  satisfy the \<open>CHECK\<close> constraints and the foreign key of the operations table.
\<close>

section \<open>Tables\<close>

record importRow =
  pr_id :: string
  pr_workspaceId :: string
  pr_planId :: string
  pr_archiveExportId :: string
  pr_requestedBy :: string
  pr_principalType :: ingestPrincipalType
  pr_idempotencyKey :: string
  pr_fingerprint :: string
  pr_checkpoint :: archiveImportCheckpoint
  pr_createdAt :: string
  pr_updatedAt :: string
  pr_completedAt :: "string option"

record ('s, 'm) importWorld =
  pw_operations :: "importRow list"
  pw_audit :: "chainedAuditEvent list"
  pw_tables :: 'm
  pw_storage :: 's

section \<open>The operation store\<close>

record importRequest =
  rq_principalType :: ingestPrincipalType
  rq_idempotencyKey :: string
  rq_fingerprint :: string

definition importOperationOf :: "importRow \<Rightarrow> archiveImportOperation" where
  "importOperationOf row = \<lparr>iop_id = pr_id row, iop_planId = pr_planId row, iop_archiveExportId = pr_archiveExportId row,
     iop_requestedBy = pr_requestedBy row, iop_checkpoint = pr_checkpoint row, iop_resumed = None,
     iop_createdAt = pr_createdAt row, iop_updatedAt = pr_updatedAt row, iop_completedAt = pr_completedAt row\<rparr>"

definition requiredOperation :: "importRow list \<Rightarrow> js_error + importRow" where
  "requiredOperation rows = (case rows of [] \<Rightarrow> Inl (plainError ''Import operation was not found.'') | row # _ \<Rightarrow> Inr row)"

definition sameImportRequest :: "importRow \<Rightarrow> importRow \<Rightarrow> bool" where
  "sameImportRequest a b \<longleftrightarrow> pr_principalType a = pr_principalType b \<and> pr_requestedBy a = pr_requestedBy b
     \<and> pr_idempotencyKey a = pr_idempotencyKey b"

text \<open>The unique constraints that \<open>ON CONFLICT DO NOTHING\<close> answers to.\<close>

definition importConflict :: "importRow \<Rightarrow> importRow \<Rightarrow> bool" where
  "importConflict a b \<longleftrightarrow> pr_id a = pr_id b
     \<or> pr_workspaceId a = pr_workspaceId b \<and> (pr_planId a = pr_planId b \<or> sameImportRequest a b)"

definition newImportRow ::
  "(bytes \<Rightarrow> string) \<Rightarrow> string \<Rightarrow> importRequest \<Rightarrow> string \<Rightarrow> string \<Rightarrow> string \<Rightarrow> string \<Rightarrow> importRow" where
  "newImportRow sha workspaceId request planId archiveExportId requestedBy at =
     \<lparr>pr_id = deterministicUuid sha (''archive-import:'' @ workspaceId @ '':'' @ planId), pr_workspaceId = workspaceId,
      pr_planId = planId, pr_archiveExportId = archiveExportId, pr_requestedBy = requestedBy,
      pr_principalType = rq_principalType request, pr_idempotencyKey = rq_idempotencyKey request,
      pr_fingerprint = rq_fingerprint request, pr_checkpoint = ImAuthorised, pr_createdAt = at, pr_updatedAt = at,
      pr_completedAt = None\<rparr>"

definition insertImport :: "importRow \<Rightarrow> importRow list \<Rightarrow> importRow list" where
  "insertImport new rows = (if list_ex (importConflict new) rows then rows else rows @ [new])"

text \<open>The rows of the plan or of the request, a row of both first.\<close>

definition importCandidates :: "importRow \<Rightarrow> importRow list \<Rightarrow> importRow list" where
  "importCandidates new rows =
     (let hits = filter (\<lambda>row. pr_workspaceId row = pr_workspaceId new
        \<and> (pr_planId row = pr_planId new \<or> sameImportRequest row new)) rows in
      filter (\<lambda>row. pr_planId row = pr_planId new \<and> sameImportRequest row new) hits @ hits)"

definition importIdempotencyConflict :: js_error where
  "importIdempotencyConflict = JsError ''Error'' (Some ''IDEMPOTENCY_CONFLICT'') ''Import plan already belongs to another request.''"

definition rollbackImport :: "('s, 'm) importWorld \<Rightarrow> ('s, 'm) importWorld \<Rightarrow> ('s, 'm) importWorld" where
  "rollbackImport s u = s"

definition pgImportBegin ::
  "(bytes \<Rightarrow> string) \<Rightarrow> string \<Rightarrow> importRequest option \<Rightarrow> string \<Rightarrow> string \<Rightarrow> string \<Rightarrow> string
     \<Rightarrow> (('s, 'm) importWorld, archiveImportOperation) js" where
  "pgImportBegin sha workspaceId request planId archiveExportId requestedBy at =
     (case request of
        None \<Rightarrow> throw (plainError ''Import request identity is required to begin execution.'')
      | Some req \<Rightarrow>
          let new = newImportRow sha workspaceId req planId archiveExportId requestedBy at in
          inTransaction rollbackImport (
            andThen (reading (\<lambda>t. list_ex (importConflict new) (pw_operations t))) (\<lambda>conflict.
            andThen (updating (\<lambda>t. t\<lparr>pw_operations := insertImport new (pw_operations t)\<rparr>)) (\<lambda>_.
            andThen (reading (\<lambda>t. importCandidates new (pw_operations t))) (\<lambda>rows.
            andThen (lifting (requiredOperation rows)) (\<lambda>row.
              if pr_planId row \<noteq> planId \<or> pr_archiveExportId row \<noteq> archiveExportId \<or> \<not> sameImportRequest row new
                 \<or> pr_fingerprint row \<noteq> rq_fingerprint req
              then throw importIdempotencyConflict
              else ret ((importOperationOf row)\<lparr>iop_resumed := Some conflict\<rparr>)))))))"

definition importRowIs :: "string \<Rightarrow> string \<Rightarrow> string \<Rightarrow> importRow \<Rightarrow> bool" where
  "importRowIs workspaceId operationId planId row \<longleftrightarrow>
     pr_workspaceId row = workspaceId \<and> pr_id row = operationId \<and> pr_planId row = planId"

definition advancedRow :: "archiveImportCheckpoint \<Rightarrow> string \<Rightarrow> importRow \<Rightarrow> importRow" where
  "advancedRow nxt at row = row\<lparr>pr_checkpoint := nxt, pr_updatedAt := at,
     pr_completedAt := (if nxt = ImCompleted then Some at else pr_completedAt row)\<rparr>"

definition pgImportAdvance ::
  "string \<Rightarrow> string \<Rightarrow> string \<Rightarrow> archiveImportCheckpoint \<Rightarrow> archiveImportCheckpoint \<Rightarrow> string
     \<Rightarrow> (('s, 'm) importWorld, archiveImportOperation) js" where
  "pgImportAdvance workspaceId operationId planId expected nxt at =
     (if nextImportCheckpoint expected \<noteq> Some nxt
      then throw (plainError ''Import checkpoint transition is not sequential.'')
      else
        let this = (\<lambda>row. importRowIs workspaceId operationId planId row);
            due = (\<lambda>row. importRowIs workspaceId operationId planId row \<and> pr_checkpoint row = expected) in
        inTransaction rollbackImport (
          andThen (reading (\<lambda>t. map (advancedRow nxt at) (filter due (pw_operations t)))) (\<lambda>updated.
          andThen (updating (\<lambda>t. t\<lparr>pw_operations := map (\<lambda>row. if due row then advancedRow nxt at row else row) (pw_operations t)\<rparr>)) (\<lambda>_.
          case updated of
            row # _ \<Rightarrow> ret (importOperationOf row)
          | [] \<Rightarrow>
              andThen (reading (\<lambda>t. filter this (pw_operations t))) (\<lambda>rows.
              andThen (lifting (requiredOperation rows)) (\<lambda>row. ret (importOperationOf row)))))))"

definition pgImportGet :: "string \<Rightarrow> string \<Rightarrow> (('s, 'm) importWorld, archiveImportOperation option) js" where
  "pgImportGet workspaceId operationId =
     reading (\<lambda>t. case filter (\<lambda>row. pr_workspaceId row = workspaceId \<and> pr_id row = operationId) (pw_operations t) of
       [] \<Rightarrow> None | row # _ \<Rightarrow> Some (importOperationOf row))"

definition postgresImportOperations ::
  "(bytes \<Rightarrow> string) \<Rightarrow> string \<Rightarrow> importRequest option \<Rightarrow> (('s, 'm) importWorld) importOperationStore" where
  "postgresImportOperations sha workspaceId request =
     \<lparr>iop_begin = pgImportBegin sha workspaceId request, iop_advance = pgImportAdvance workspaceId\<rparr>"

section \<open>The import target\<close>

record ('s, 'm) importTargetConfig =
  tc_storage :: "'s objectStorage"
  tc_workspaceId :: string
  tc_inventory :: "'m \<Rightarrow> archiveImportInventory"
  tc_commitAction :: "string \<Rightarrow> archiveImportPlan \<Rightarrow> archiveImportAction \<Rightarrow> ('m, unit) js"

definition onBlobs :: "('s, 'a) js \<Rightarrow> (('s, 'm) importWorld, 'a) js" where
  "onBlobs = within pw_storage (\<lambda>x s. s\<lparr>pw_storage := x\<rparr>)"

definition onTables :: "('m, 'a) js \<Rightarrow> (('s, 'm) importWorld, 'a) js" where
  "onTables = within pw_tables (\<lambda>x s. s\<lparr>pw_tables := x\<rparr>)"

definition staleIssue :: "archiveImportAction \<Rightarrow> archiveIssue" where
  "staleIssue action = \<lparr>ai_code = ''IMPORT_TARGET_STALE'', ai_path = None,
     ai_message = ''Target changed for '' @ actionKindName (aa_kind action) @ '':'' @ aa_targetId action @ ''.''\<rparr>"

definition isStale :: "archiveImportMode \<Rightarrow> archiveImportInventory \<Rightarrow> archiveImportAction \<Rightarrow> js_error + bool" where
  "isStale mode inventory action = (case aa_kind action of
     BlobBytes \<Rightarrow>
       let found = (case iv_blobDigests inventory of None \<Rightarrow> False | Some ds \<Rightarrow> aa_targetId action \<in> set ds) in
       Inr (aa_disposition action = Insert \<and> found \<or> aa_disposition action = AlreadyPresent \<and> \<not> found)
   | RecordOf kind \<Rightarrow>
       let current = inventoryRecord inventory kind (aa_targetId action) in
       if kind = KWorkspaces \<and> mode = MappedWorkspace \<and> aa_disposition action = AlreadyPresent
       then Inr (current = Missing)
       else
         seqR (case aa_record action of
             Some r \<Rightarrow> if current = Missing then Inr False
               else seqR (canonicalSlot (aa_targetId action) current) (\<lambda>x. seqR (canonicalJson (JObj r)) (\<lambda>y. Inr (x = y)))
           | None \<Rightarrow> Inr False) (\<lambda>same.
         Inr (aa_disposition action = Insert \<and> current \<noteq> Missing \<or> aa_disposition action = AlreadyPresent \<and> \<not> same)))"

definition pgRevalidate :: "('s, 'm) importTargetConfig \<Rightarrow> archiveImportPlan \<Rightarrow> (('s, 'm) importWorld, archiveIssue list) js" where
  "pgRevalidate cfg plan =
     andThen (reading (\<lambda>t. tc_inventory cfg (pw_tables t))) (\<lambda>inventory.
     andThen (lifting (mapR (isStale (pl_mode plan) inventory) (pl_actions plan))) (\<lambda>stale.
     ret (map (\<lambda>(a, _). staleIssue a) (filter snd (zip (pl_actions plan) stale)))))"

definition temporaryOperationId :: "(bytes \<Rightarrow> string) \<Rightarrow> string \<Rightarrow> string \<Rightarrow> string" where
  "temporaryOperationId sha operationId digest =
     deterministicUuid sha (''archive-import-blob:'' @ operationId @ '':'' @ digest)"

definition temporaryOf :: "(bytes \<Rightarrow> string) \<Rightarrow> ('s, 'm) importTargetConfig \<Rightarrow> string \<Rightarrow> string \<Rightarrow> ('s, temporaryObject) js" where
  "temporaryOf sha cfg operationId digest =
     os_createTemporaryUpload (tc_storage cfg) (tc_workspaceId cfg) (temporaryOperationId sha operationId digest)"

definition pgStageBlob ::
  "(bytes \<Rightarrow> string) \<Rightarrow> ('s, 'm) importTargetConfig \<Rightarrow> string \<Rightarrow> string \<Rightarrow> bytes \<Rightarrow> ('s, unit) js" where
  "pgStageBlob sha cfg operationId digest body =
     andThen (temporaryOf sha cfg operationId digest) (\<lambda>temporary.
     andThen (os_writeTemporary (tc_storage cfg) (to_key temporary) [body] ''application/octet-stream'') (\<lambda>_.
     ret ()))"

definition pgVerifyStagedBlob ::
  "(bytes \<Rightarrow> string) \<Rightarrow> ('s, 'm) importTargetConfig \<Rightarrow> string \<Rightarrow> string \<Rightarrow> int \<Rightarrow> ('s, bool) js" where
  "pgVerifyStagedBlob sha cfg operationId digest byteLength =
     andThen (temporaryOf sha cfg operationId digest) (\<lambda>temporary.
     andThen (os_head (tc_storage cfg) (to_key temporary)) (\<lambda>metadata.
     andThen (os_openReadStream (tc_storage cfg) (to_key temporary) None) (\<lambda>stream.
     ret (om_byteLength metadata = byteLength \<and> sha (readAll stream) = digest))))"

definition pgCommitBlob :: "(bytes \<Rightarrow> string) \<Rightarrow> ('s, 'm) importTargetConfig \<Rightarrow> string \<Rightarrow> string \<Rightarrow> ('s, unit) js" where
  "pgCommitBlob sha cfg operationId digest =
     andThen (temporaryOf sha cfg operationId digest) (\<lambda>temporary.
     andThen (os_head (tc_storage cfg) (to_key temporary)) (\<lambda>metadata.
     andThen (os_openReadStream (tc_storage cfg) (to_key temporary) None) (\<lambda>stream.
       if sha (readAll stream) \<noteq> digest
       then throw (plainError ''Staged blob digest changed before immutable commit.'')
       else andThen (os_commitImmutable (tc_storage cfg) (to_key temporary) (tc_workspaceId cfg) digest
           (om_byteLength metadata) (om_mediaType metadata)) (\<lambda>_. ret ()))))"

definition importedText :: "archiveRecord option \<Rightarrow> string \<Rightarrow> js_error + string" where
  "importedText r k = (case r of
     Some fs \<Rightarrow> (case map_of fs k of
         Some (JStr x) \<Rightarrow> if x = [] then Inl (plainError (''Imported '' @ k @ '' must be a non-empty string.'')) else Inr x
       | _ \<Rightarrow> Inl (plainError (''Imported '' @ k @ '' must be a non-empty string.'')))
   | None \<Rightarrow> Inl (plainError (''Imported '' @ k @ '' must be a non-empty string.'')))"

definition assertCommittedBlobs :: "('s, 'm) importTargetConfig \<Rightarrow> archiveImportAction list \<Rightarrow> ('s, unit) js" where
  "assertCommittedBlobs cfg actions =
     forEach actions (\<lambda>action.
       if aa_kind action \<noteq> RecordOf KBlobs \<or> aa_disposition action \<noteq> Insert then ret ()
       else
         andThen (lifting (importedText (aa_record action) ''sha256'')) (\<lambda>digest.
         andThen (lifting (canonicalObjectKey (tc_workspaceId cfg) digest)) (\<lambda>k.
         andThen (os_exists (tc_storage cfg) k) (\<lambda>found.
         if found then ret () else throw (plainError ''Blob metadata cannot commit before immutable bytes exist.'')))))"

definition pgCommitMetadata ::
  "('s, 'm) importTargetConfig \<Rightarrow> string \<Rightarrow> archiveImportPlan \<Rightarrow> archiveImportAction list \<Rightarrow> (('s, 'm) importWorld, unit) js" where
  "pgCommitMetadata cfg operationId plan actions =
     andThen (onBlobs (assertCommittedBlobs cfg actions)) (\<lambda>_.
     inTransaction rollbackImport (forEach actions (\<lambda>action. onTables (tc_commitAction cfg operationId plan action))))"

definition importMetadata :: "archiveImportPlan \<Rightarrow> auditLineage \<Rightarrow> (string \<times> json) list" where
  "importMetadata plan lineage = [(''planId'', JStr (pl_planId plan)), (''archiveExportId'', JStr (pl_archiveExportId plan)),
     (''sourceWorkspaceId'', JStr (pl_sourceWorkspaceId plan)), (''sourceAuditLineage'', lineageJson lineage)]"

definition importAuditEvent ::
  "(bytes \<Rightarrow> string) \<Rightarrow> string \<Rightarrow> string \<Rightarrow> ingestPrincipalType \<Rightarrow> archiveImportPlan \<Rightarrow> string \<Rightarrow> string \<Rightarrow> auditLineage \<Rightarrow> auditEventBody" where
  "importAuditEvent sha workspaceId operationId principalType plan requestedBy at lineage =
     \<lparr>ev_id = deterministicUuid sha (''archive-import-audit:'' @ operationId), ev_workspaceId = workspaceId,
      ev_actorType = ingestActorType principalType, ev_actorId = requestedBy, ev_action = ''archive.imported'',
      ev_subjectKind = ''archive'', ev_subjectId = pl_archiveExportId plan, ev_timestamp = at,
      ev_requestId = deterministicUuid sha (''archive-import-request:'' @ operationId), ev_correlationId = operationId,
      ev_metadata = importMetadata plan lineage\<rparr>"

definition pgImportAppendAudit ::
  "(bytes \<Rightarrow> string) \<Rightarrow> ('s, 'm) importTargetConfig \<Rightarrow> string \<Rightarrow> archiveImportPlan \<Rightarrow> string \<Rightarrow> string \<Rightarrow> auditLineage
     \<Rightarrow> (('s, 'm) importWorld, unit) js" where
  "pgImportAppendAudit sha cfg operationId plan requestedBy at lineage =
     inTransaction rollbackImport (
       let workspaceId = tc_workspaceId cfg; auditId = deterministicUuid sha (''archive-import-audit:'' @ operationId) in
       andThen (reading (\<lambda>t. list_ex (\<lambda>e. ev_workspaceId e = workspaceId \<and> ev_id e = auditId) (pw_audit t))) (\<lambda>existing.
         if existing then ret ()
         else
           andThen (reading (\<lambda>t. filter (\<lambda>row. pr_workspaceId row = workspaceId \<and> pr_id row = operationId) (pw_operations t))) (\<lambda>rows.
           andThen (lifting (requiredOperation rows)) (\<lambda>operation.
           andThen (reading (\<lambda>t. latestHash workspaceId (pw_audit t))) (\<lambda>previous.
           updating (\<lambda>t. t\<lparr>pw_audit := pw_audit t @ [appendAuditEvent sha
             (importAuditEvent sha workspaceId operationId (pr_principalType operation) plan requestedBy at lineage) previous]\<rparr>))))))"

definition postgresImportTarget ::
  "(bytes \<Rightarrow> string) \<Rightarrow> ('s, 'm) importTargetConfig \<Rightarrow> (('s, 'm) importWorld) importTarget" where
  "postgresImportTarget sha cfg = \<lparr>it_revalidate = pgRevalidate cfg,
     it_stageBlob = (\<lambda>op digest body. onBlobs (pgStageBlob sha cfg op digest body)),
     it_verifyStagedBlob = (\<lambda>op digest n. onBlobs (pgVerifyStagedBlob sha cfg op digest n)),
     it_commitBlob = (\<lambda>op digest. onBlobs (pgCommitBlob sha cfg op digest)),
     it_commitMetadata = pgCommitMetadata cfg, it_appendAudit = pgImportAppendAudit sha cfg\<rparr>"

definition postgresImport ::
  "(bytes \<Rightarrow> string) \<Rightarrow> ('s, 'm) importTargetConfig \<Rightarrow> importRequest option
     \<Rightarrow> (archiveImportCheckpoint \<Rightarrow> archiveImportOperation \<Rightarrow> ('h, unit) js) option \<Rightarrow> (('s, 'm) importWorld, 'h) importExecutor" where
  "postgresImport sha cfg request hook = \<lparr>ex_operations = postgresImportOperations sha (tc_workspaceId cfg) request,
     ex_target = postgresImportTarget sha cfg, ex_afterCheckpoint = hook\<rparr>"

section \<open>The effects leave the operations alone\<close>

text \<open>
  Whatever the storage operations keep of the storage (\<open>K\<close>) every effect keeps, and no effect
  touches the operations.
\<close>

definition effectInv :: "importRow list \<Rightarrow> ('s \<Rightarrow> bool) \<Rightarrow> ('s, 'm) importWorld \<Rightarrow> bool" where
  "effectInv X K w \<longleftrightarrow> pw_operations w = X \<and> K (pw_storage w)"

lemma preserves_onImportStore: "preserves J m \<Longrightarrow> preserves (\<lambda>s. J (im_store s)) (onImportStore m)"
  by (auto simp: preserves_def onImportStore_def js_simps Let_def split: prod.splits)

lemma preserves_importNow: "preserves (\<lambda>s. J (im_store s)) importNow"
  by (simp add: preserves_def importNow_def js_simps Let_def)

lemma preserves_runHook: "preserves (\<lambda>s. J (im_store s)) (runHook ex c op)"
  by (auto simp: preserves_def runHook_def js_simps Let_def split: option.splits prod.splits)

lemma preserves_onBlobs: "preserves K m \<Longrightarrow> preserves (effectInv X K) (onBlobs m)"
  by (auto simp: preserves_def effectInv_def onBlobs_def js_simps Let_def split: prod.splits)

lemma preserves_onTables: "preserves (effectInv X K) (onTables m)"
  by (auto simp: preserves_def effectInv_def onTables_def js_simps Let_def split: prod.splits)

lemma preserves_transaction: "preserves J m \<Longrightarrow> preserves J (inTransaction rollbackImport m)"
  by (auto simp: preserves_def rollbackImport_def js_simps split: prod.splits sum.splits)

lemma pgRevalidate_keeps: "preserves (effectInv X K) (pgRevalidate cfg plan)"
  unfolding pgRevalidate_def by (intro preserves_andThen preserves_basic)

lemma pgImportAppendAudit_keeps: "preserves (effectInv X K) (pgImportAppendAudit sha cfg op plan by' at lineage)"
  unfolding pgImportAppendAudit_def Let_def
  by (intro preserves_transaction preserves_andThen preserves_if preserves_basic) (simp add: effectInv_def)

locale import_storage =
  fixes sha :: "bytes \<Rightarrow> string" and cfg :: "('s, 'm) importTargetConfig" and K :: "'s \<Rightarrow> bool"
  assumes stage_keeps: "preserves K (pgStageBlob sha cfg op d b)"
    and verify_keeps: "preserves K (pgVerifyStagedBlob sha cfg op d n)"
    and commit_keeps: "preserves K (pgCommitBlob sha cfg op d)"
    and assert_keeps: "preserves K (assertCommittedBlobs cfg actions)"
begin

lemma effect_keeps:
  "preserves (\<lambda>s. effectInv X K (im_store s)) (importEffect sha (postgresImportTarget sha cfg) inp op c)"
proof (cases c)
  case ImTargetRevalidated
  then show ?thesis
    by (auto simp: stageBlobs_def postgresImportTarget_def
        intro!: preserves_forEach preserves_andThen preserves_case_option preserves_if preserves_onImportStore preserves_onBlobs stage_keeps)
next
  case ImTemporaryBlobsStaged
  then show ?thesis
    by (auto simp: verifyStaged_def postgresImportTarget_def Let_def
        intro!: preserves_forEach preserves_andThen preserves_case_option preserves_if preserves_onImportStore preserves_onBlobs verify_keeps)
next
  case ImImmutableBlobsCommitted
  then show ?thesis
    by (auto simp: postgresImportTarget_def pgCommitMetadata_def
        intro!: preserves_onImportStore preserves_andThen preserves_transaction preserves_forEach preserves_onBlobs preserves_onTables
          assert_keeps)
qed (auto simp: postgresImportTarget_def commitBlobs_def
      intro!: preserves_onImportStore preserves_andThen preserves_if preserves_forEach preserves_onBlobs commit_keeps
        pgRevalidate_keeps pgImportAppendAudit_keeps preserves_importNow)

end

text \<open>Every storage keeps the trivial predicate.\<close>

interpretation anyStorage: import_storage sha cfg "\<lambda>_. True"
  by unfold_locales (simp_all add: preserves_def)

section \<open>Advancing\<close>

definition rank :: "archiveImportCheckpoint \<Rightarrow> nat" where
  "rank c = indexOf c archiveImportCheckpoints"

lemma rank_simps [simp]:
  "rank ImAuthorised = 0" "rank ImTargetRevalidated = 1" "rank ImTemporaryBlobsStaged = 2" "rank ImStagedBlobsVerified = 3"
  "rank ImImmutableBlobsCommitted = 4" "rank ImMetadataCommitted = 5" "rank ImAuditCommitted = 6" "rank ImCompleted = 7"
  by (simp_all add: rank_def archiveImportCheckpoints_def)

text \<open>Checkpoints are ordered as the list gives them.\<close>

instantiation archiveImportCheckpoint :: linorder
begin

definition less_eq_archiveImportCheckpoint :: "archiveImportCheckpoint \<Rightarrow> archiveImportCheckpoint \<Rightarrow> bool" where
  "c \<le> d \<longleftrightarrow> rank c \<le> rank d"

definition less_archiveImportCheckpoint :: "archiveImportCheckpoint \<Rightarrow> archiveImportCheckpoint \<Rightarrow> bool" where
  "c < d \<longleftrightarrow> rank c < rank d"

instance
proof
  fix c d :: archiveImportCheckpoint
  show "c \<le> d \<Longrightarrow> d \<le> c \<Longrightarrow> c = d"
    by (cases c; cases d) (simp_all add: less_eq_archiveImportCheckpoint_def)
qed (auto simp: less_eq_archiveImportCheckpoint_def less_archiveImportCheckpoint_def)

end

lemmas checkpoint_order [simp] = less_eq_archiveImportCheckpoint_def less_archiveImportCheckpoint_def

lemma nextImportCheckpoint_successor: "c \<noteq> ImCompleted \<Longrightarrow> nextImportCheckpoint c = Some (successor c)"
  by (cases c) (simp_all add: nextImportCheckpoint_def archiveImportCheckpoints_def)

lemma rank_successor: "c \<noteq> ImCompleted \<Longrightarrow> rank (successor c) = Suc (rank c)" and rank_bound: "rank c \<le> 7"
  by (cases c; simp)+

lemma advancedRow_columns [simp]:
  "pr_id (advancedRow c at row) = pr_id row" "pr_planId (advancedRow c at row) = pr_planId row"
  "pr_workspaceId (advancedRow c at row) = pr_workspaceId row" "pr_checkpoint (advancedRow c at row) = c"
  by (simp_all add: advancedRow_def)

lemma filter_head: "filter P xs = x # ys \<Longrightarrow> x \<in> set xs \<and> P x"
  by (metis filter_eq_Cons_iff in_set_conv_decomp)

text \<open>The three outcomes of an advance to the next checkpoint.\<close>

lemma pgImportAdvance_cases:
  assumes run: "pgImportAdvance ws i p c (successor c) at w = (r, w')" and c: "c \<noteq> ImCompleted"
  obtains (advanced) row where "row \<in> set (pw_operations w)" "importRowIs ws i p row" "pr_checkpoint row = c"
      "r = Inr (importOperationOf (advancedRow (successor c) at row))"
      "w' = w\<lparr>pw_operations := map (\<lambda>row. if importRowIs ws i p row \<and> pr_checkpoint row = c then advancedRow (successor c) at row else row) (pw_operations w)\<rparr>"
  | (current) row where "row \<in> set (pw_operations w)" "importRowIs ws i p row" "r = Inr (importOperationOf row)" "w' = w"
      "\<forall>x \<in> set (pw_operations w). importRowIs ws i p x \<longrightarrow> pr_checkpoint x \<noteq> c"
  | (missing) e where "r = Inl e" "w' = w"
proof (cases "filter (\<lambda>row. importRowIs ws i p row \<and> pr_checkpoint row = c) (pw_operations w)")
  case Nil
  then have none: "\<forall>x \<in> set (pw_operations w). importRowIs ws i p x \<longrightarrow> pr_checkpoint x \<noteq> c" by (simp add: filter_empty_conv)
  then have same: "map (\<lambda>row. if importRowIs ws i p row \<and> pr_checkpoint row = c then advancedRow (successor c) at row else row) (pw_operations w)
      = pw_operations w" by (intro map_idI) auto
  show thesis
  proof (cases "filter (importRowIs ws i p) (pw_operations w)")
    case no: Nil
    have "r = Inl (plainError ''Import operation was not found.'')" "w' = w"
      using run c Nil same no
      by (simp_all add: pgImportAdvance_def nextImportCheckpoint_successor js_simps Let_def requiredOperation_def rollbackImport_def)
    then show thesis by (rule missing)
  next
    case (Cons row rows)
    have "r = Inr (importOperationOf row)" "w' = w"
      using run c Nil same Cons
      by (simp_all add: pgImportAdvance_def nextImportCheckpoint_successor js_simps Let_def requiredOperation_def)
    with filter_head [OF Cons] none show thesis by (intro current) simp_all
  qed
next
  case (Cons row rows)
  have "r = Inr (importOperationOf (advancedRow (successor c) at row))"
    "w' = w\<lparr>pw_operations := map (\<lambda>row. if importRowIs ws i p row \<and> pr_checkpoint row = c then advancedRow (successor c) at row else row) (pw_operations w)\<rparr>"
    using run c Cons by (simp_all add: pgImportAdvance_def nextImportCheckpoint_successor js_simps Let_def)
  with filter_head [OF Cons] show thesis by (intro advanced) simp_all
qed

section \<open>The loop ends\<close>

text \<open>What is left to do for an operation: its checkpoints, and one more turn to catch up with the table.\<close>

definition workLeft :: "string \<Rightarrow> archiveImportOperation \<Rightarrow> importRow list \<Rightarrow> nat" where
  "workLeft ws op rows =
     2 * sum_list (map (\<lambda>row. 7 - rank (pr_checkpoint row)) (filter (importRowIs ws (iop_id op) (iop_planId op)) rows))
     + (if list_ex (\<lambda>row. importRowIs ws (iop_id op) (iop_planId op) row \<and> pr_checkpoint row = iop_checkpoint op) rows then 0 else 1)"

lemma sum_list_strict:
  fixes f g :: "'a \<Rightarrow> nat"
  assumes "\<And>x. x \<in> set xs \<Longrightarrow> f x \<le> g x" "y \<in> set xs" "f y < g y"
  shows "sum_list (map f xs) < sum_list (map g xs)"
  using assms
proof (induction xs)
  case (Cons x xs)
  have le: "sum_list (map f xs) \<le> sum_list (map g xs)" using Cons.prems(1) by (simp add: sum_list_mono)
  show ?case
  proof (cases "y = x")
    case True
    with Cons.prems(3) le show ?thesis by simp
  next
    case False
    with Cons have "sum_list (map f xs) < sum_list (map g xs)" by simp
    then show ?thesis using Cons.prems(1) [of x] by simp
  qed
qed simp

lemma advance_less:
  assumes run: "pgImportAdvance ws (iop_id op) (iop_planId op) (iop_checkpoint op) (successor (iop_checkpoint op)) at w = (Inr op', w')"
    and c: "iop_checkpoint op \<noteq> ImCompleted"
  shows "iop_id op' = iop_id op \<and> iop_planId op' = iop_planId op \<and> workLeft ws op' (pw_operations w') < workLeft ws op (pw_operations w)"
  using run c
proof (cases rule: pgImportAdvance_cases)
  case (advanced row)
  let ?is = "importRowIs ws (iop_id op) (iop_planId op)" and ?c = "iop_checkpoint op"
  let ?f = "\<lambda>row. if ?is row \<and> pr_checkpoint row = ?c then advancedRow (successor ?c) at row else row"
  have op': "op' = importOperationOf (advancedRow (successor ?c) at row)" using advanced by simp
  have same: "iop_id op' = iop_id op" "iop_planId op' = iop_planId op"
    using advanced by (simp_all add: op' importOperationOf_def importRowIs_def)
  have fis: "?is (?f x) = ?is x" for x by (simp add: importRowIs_def)
  have "filter ?is (map ?f (pw_operations w)) = map ?f (filter ?is (pw_operations w))"
    by (simp add: filter_map comp_def fis)
  moreover have "sum_list (map (\<lambda>x. 7 - rank (pr_checkpoint (?f x))) (filter ?is (pw_operations w)))
      < sum_list (map (\<lambda>x. 7 - rank (pr_checkpoint x)) (filter ?is (pw_operations w)))"
    by (rule sum_list_strict [of _ _ _ row]) (use advanced c rank_successor [OF c] rank_bound [of "successor ?c"] in auto)
  moreover have "list_ex (\<lambda>x. ?is x \<and> pr_checkpoint x = iop_checkpoint op') (map ?f (pw_operations w))"
  proof -
    have "?f row \<in> set (map ?f (pw_operations w))" using advanced(1) by (simp only: set_map) (rule imageI)
    moreover have "?is (?f row)" "pr_checkpoint (?f row) = iop_checkpoint op'"
      using advanced(2,3) fis [of row] by (simp_all add: op' importOperationOf_def)
    ultimately show ?thesis unfolding list_ex_iff by blast
  qed
  ultimately show ?thesis unfolding workLeft_def same advanced(5) by (simp add: same comp_def)
next
  case (current row)
  then have same: "iop_id op' = iop_id op" "iop_planId op' = iop_planId op" "iop_checkpoint op' = pr_checkpoint row"
    by (simp_all add: importOperationOf_def importRowIs_def)
  have "list_ex (\<lambda>x. importRowIs ws (iop_id op) (iop_planId op) x \<and> pr_checkpoint x = pr_checkpoint row) (pw_operations w)"
    "\<not> list_ex (\<lambda>x. importRowIs ws (iop_id op) (iop_planId op) x \<and> pr_checkpoint x = iop_checkpoint op) (pw_operations w)"
    using current by (auto simp: list_ex_iff)
  then show ?thesis unfolding workLeft_def same current(4) by simp
qed simp

text \<open>A turn of the loop: the effect, then the advance of the row, then the hook, which may throw.\<close>

lemma importStep_cases:
  assumes run: "importStep sha (postgresImport sha cfg request hook) inp op s = (r, t)"
  obtains (effect) e where "importEffect sha (postgresImportTarget sha cfg) inp op (iop_checkpoint op) s = (Inl e, t)" "r = Inl e"
  | (advance) u at x where "importEffect sha (postgresImportTarget sha cfg) inp op (iop_checkpoint op) s = (Inr (), u)"
      "pgImportAdvance (tc_workspaceId cfg) (iop_id op) (iop_planId op) (iop_checkpoint op) (successor (iop_checkpoint op)) at (im_store u)
         = (x, im_store t)"
      "\<And>op'. r = Inr op' \<Longrightarrow> x = Inr op'"
proof -
  let ?ex = "postgresImport sha cfg request hook"
  obtain r1 u where eff: "importEffect sha (postgresImportTarget sha cfg) inp op (iop_checkpoint op) s = (r1, u)" by fastforce
  have target: "ex_target ?ex = postgresImportTarget sha cfg" by (simp add: postgresImport_def)
  show thesis
  proof (cases r1)
    case (Inl e)
    with run eff have "r = Inl e" "t = u" by (simp_all add: importStep_def target js_simps)
    with effect eff Inl show thesis by blast
  next
    case (Inr v)
    let ?at = "nowAt (im_ambient u) (ticks (im_ambient u))"
    obtain x w where adv: "pgImportAdvance (tc_workspaceId cfg) (iop_id op) (iop_planId op) (iop_checkpoint op)
        (successor (iop_checkpoint op)) ?at (im_store u) = (x, w)" by fastforce
    have "im_store t = w \<and> (\<forall>op'. r = Inr op' \<longrightarrow> x = Inr op')"
      using run eff Inr adv
      by (cases x; cases hook)
        (auto simp: importStep_def target advance_def importNow_def onImportStore_def postgresImport_def postgresImportOperations_def
          runHook_def js_simps Let_def split: prod.splits sum.splits)
    with eff Inr adv show thesis using advance [of u ?at x] by simp
  qed
qed

lemma importLoop_ends:
  assumes "workLeft (tc_workspaceId cfg) op (pw_operations (im_store s)) = n"
  shows "\<exists>r t. importLoop sha (postgresImport sha cfg request hook) inp op s = Some (r, t)"
  using assms
proof (induction n arbitrary: op s rule: less_induct)
  case (less n)
  let ?ex = "postgresImport sha cfg request hook"
  obtain r1 u where step: "importStep sha ?ex inp op s = (r1, u)" by fastforce
  show ?case
  proof (cases "iop_checkpoint op = ImCompleted")
    case True
    then show ?thesis using importLoop_done by blast
  next
    case False
    show ?thesis
    proof (cases r1)
      case (Inl e)
      then show ?thesis using importLoop_throws [OF False] step by blast
    next
      case (Inr op')
      from step [unfolded Inr] have "workLeft (tc_workspaceId cfg) op' (pw_operations (im_store u)) < n"
      proof (cases rule: importStep_cases)
        case (advance v at x)
        have "effectInv (pw_operations (im_store s)) (\<lambda>_. True) (im_store v)"
          by (rule preservesD [OF anyStorage.effect_keeps _ advance(1)]) (simp add: effectInv_def)
        with advance_less [OF _ False] advance(2,3) less.prems show ?thesis by (fastforce simp: effectInv_def)
      qed simp
      from less.IH [OF this refl] show ?thesis using importLoop_next [OF False step [unfolded Inr]] by simp
    qed
  qed
qed

text \<open>
  C30. An import always ends: on the Postgres stores, whatever the storage, the hook, the archive,
  the plan and the recorded operations, the loop over the checkpoints returns or throws; it
  never runs for ever, even when the recorded checkpoint is not the one the executor expects.
\<close>

theorem import_execution_terminates:
  "\<exists>r t. executeImport sha (postgresImport sha cfg request hook) inp s = Some (r, t)"
proof -
  obtain r u where b: "beginImport sha (postgresImport sha cfg request hook) inp s = (r, u)" by fastforce
  show ?thesis
  proof (cases r)
    case (Inr op)
    obtain x v where "importLoop sha (postgresImport sha cfg request hook) inp op u = Some (x, v)"
      using importLoop_ends [OF refl] by blast
    with b Inr show ?thesis by (cases x) (simp_all add: executeImport_def)
  qed (simp add: executeImport_def b)
qed

section \<open>Committed blobs stay committed\<close>

definition blobStored :: "(string \<rightharpoonup> storedBytes) \<Rightarrow> string \<Rightarrow> string \<Rightarrow> bool" where
  "blobStored m w h \<longleftrightarrow> (\<exists>k b. canonicalObjectKey w h = Inr k \<and> m k = Some b \<and> sb_sha256 b = h)"

lemma blobStored_keeps: "keepsCanonical m m' \<Longrightarrow> blobStored m w h \<Longrightarrow> blobStored m' w h"
  unfolding blobStored_def keepsCanonical_def using canonical_key_not_temporary by blast

definition storageGrows :: "(bytes \<Rightarrow> string) \<Rightarrow> (string \<rightharpoonup> storedBytes) \<Rightarrow> (string \<rightharpoonup> storedBytes) \<Rightarrow> bool" where
  "storageGrows sha m0 m \<longleftrightarrow> keepsCanonical m0 m \<and> contentAddressed sha m"

context object_storage
begin

lemma grows_same: "objs t = objs s \<Longrightarrow> storageGrows sha m0 (objs s) \<Longrightarrow> storageGrows sha m0 (objs t)"
  by simp

lemma grows_write: "preserves (\<lambda>s. storageGrows sha m0 (objs s)) (os_writeTemporary ops k body m)"
  unfolding preserves_def storageGrows_def using write_keeps keepsCanonical_trans by (metis prod.collapse)

lemma grows_commit: "preserves (\<lambda>s. storageGrows sha m0 (objs s)) (os_commitImmutable ops tmp w h n m)"
  unfolding preserves_def storageGrows_def using commit_keeps keepsCanonical_trans by (metis prod.collapse)

lemma grows_create: "preserves (\<lambda>s. storageGrows sha m0 (objs s)) (os_createTemporaryUpload ops w q)"
  unfolding preserves_def using create_spec by (metis prod.collapse)

lemma grows_head: "preserves (\<lambda>s. storageGrows sha m0 (objs s)) (os_head ops k)"
  unfolding preserves_def using head_spec by (metis prod.collapse)

lemma grows_open: "preserves (\<lambda>s. storageGrows sha m0 (objs s)) (os_openReadStream ops k rng)"
  unfolding preserves_def using open_spec by (metis prod.collapse)

lemma grows_exists: "preserves (\<lambda>s. storageGrows sha m0 (objs s)) (os_exists ops k)"
  unfolding preserves_def using exists_spec by (metis prod.collapse)

lemmas grows = grows_write grows_commit grows_create grows_head grows_open grows_exists

lemma import_storage_grows:
  assumes "tc_storage cfg = ops"
  shows "import_storage sha cfg (\<lambda>s. storageGrows sha m0 (objs s))"
  by unfold_locales
    (auto simp: pgStageBlob_def pgVerifyStagedBlob_def pgCommitBlob_def assertCommittedBlobs_def temporaryOf_def assms
      intro!: preserves_andThen preserves_if preserves_forEach grows)

lemma commitBlob_stores:
  assumes "tc_storage cfg = ops" and "pgCommitBlob sha cfg op d s = (Inr u, t)"
  shows "blobStored (objs t) (tc_workspaceId cfg) d"
proof -
  from assms(2) obtain tmp n m so s1 where "os_commitImmutable ops tmp (tc_workspaceId cfg) d n m s1 = (Inr so, t)"
    unfolding pgCommitBlob_def temporaryOf_def assms(1) by (auto simp: js_ok split: if_splits)
  from commit_ok [OF this] obtain k b where "isTemporaryKey tmp" "canonicalObjectKey (tc_workspaceId cfg) d = Inr k"
    "sb_sha256 b = d" "objs t = (objs s1)(k \<mapsto> b, tmp := None)" unfolding committed_def by blast
  moreover from this have "k \<noteq> tmp" using canonical_key_not_temporary by blast
  ultimately show ?thesis by (auto simp: blobStored_def)
qed

end

lemma forEach_establishes:
  assumes "forEach as f s = (Inr (), t)"
    and "\<And>a s t. a \<in> set as \<Longrightarrow> f a s = (Inr (), t) \<Longrightarrow> P a t"
    and "\<And>a b. b \<in> set as \<Longrightarrow> preserves (P a) (f b)"
  shows "\<forall>a \<in> set as. P a t"
  using assms
proof (induction as arbitrary: s)
  case (Cons a as)
  from Cons.prems(1) obtain u where a: "f a s = (Inr (), u)" and rest: "forEach as f u = (Inr (), t)" by (auto simp: js_ok)
  have "P a u" by (rule Cons.prems(2) [OF _ a]) simp
  moreover have "preserves (P a) (forEach as f)" by (intro preserves_forEach Cons.prems(3)) simp
  ultimately have "P a t" using rest by (blast dest: preservesD)
  moreover have "\<forall>a \<in> set as. P a t" by (rule Cons.IH [OF rest]) (use Cons.prems(2,3) in auto)
  ultimately show ?case by simp
qed simp

definition importInv :: "(bytes \<Rightarrow> string) \<Rightarrow> string \<Rightarrow> archiveImportPlan \<Rightarrow> importRow list \<Rightarrow> (string \<rightharpoonup> storedBytes) \<Rightarrow> bool" where
  "importInv sha ws plan rows m \<longleftrightarrow> contentAddressed sha m
     \<and> (\<forall>row \<in> set rows. pr_workspaceId row = ws \<and> pr_planId row = pl_planId plan \<and> ImImmutableBlobsCommitted \<le> pr_checkpoint row
          \<longrightarrow> (\<forall>a \<in> set (blobActions plan). blobStored m ws (aa_sourceId a)))"

lemma importInv_grows: "importInv sha ws plan rows m0 \<Longrightarrow> storageGrows sha m0 m \<Longrightarrow> importInv sha ws plan rows m"
  unfolding importInv_def storageGrows_def using blobStored_keeps by blast

text \<open>The operation in hand is the one that the table records.\<close>

definition inHand :: "string \<Rightarrow> archiveImportPlan \<Rightarrow> archiveImportOperation \<Rightarrow> importRow list \<Rightarrow> bool" where
  "inHand ws plan op rows \<longleftrightarrow> iop_planId op = pl_planId plan
     \<and> (\<exists>row \<in> set rows. importRowIs ws (iop_id op) (iop_planId op) row \<and> pr_checkpoint row = iop_checkpoint op)"

lemma advance_inv:
  assumes run: "pgImportAdvance ws (iop_id op) (iop_planId op) (iop_checkpoint op) (successor (iop_checkpoint op)) at w = (x, w')"
    and c: "iop_checkpoint op \<noteq> ImCompleted" and inv: "importInv sha ws plan (pw_operations w) m"
    and hand: "inHand ws plan op (pw_operations w)"
    and blobs: "iop_checkpoint op = ImStagedBlobsVerified \<Longrightarrow> \<forall>a \<in> set (blobActions plan). blobStored m ws (aa_sourceId a)"
  shows "importInv sha ws plan (pw_operations w') m \<and> pw_storage w' = pw_storage w
    \<and> (\<forall>op'. x = Inr op' \<longrightarrow> inHand ws plan op' (pw_operations w'))"
  using run c
proof (cases rule: pgImportAdvance_cases)
  case (advanced row)
  let ?c = "iop_checkpoint op"
  have "blobStored m ws (aa_sourceId a)" if "ImImmutableBlobsCommitted \<le> successor ?c" "a \<in> set (blobActions plan)" for a
  proof (cases "?c = ImStagedBlobsVerified")
    case False
    then have "ImImmutableBlobsCommitted \<le> ?c" using that(1) c
      by (cases ?c) simp_all
    then show ?thesis using inv hand that(2) unfolding importInv_def inHand_def importRowIs_def by metis
  qed (use blobs that(2) in simp)
  then have "importInv sha ws plan (pw_operations w') m"
    using inv unfolding importInv_def advanced(5) by (auto split: if_splits)
  moreover have "inHand ws plan (importOperationOf (advancedRow (successor ?c) at row)) (pw_operations w')"
  proof -
    let ?f = "\<lambda>row. if importRowIs ws (iop_id op) (iop_planId op) row \<and> pr_checkpoint row = ?c then advancedRow (successor ?c) at row else row"
    have "?f row \<in> set (map ?f (pw_operations w))" using advanced(1) by (simp only: set_map) (rule imageI)
    then have "advancedRow (successor ?c) at row \<in> set (pw_operations w')" using advanced(2,3) unfolding advanced(5) by simp
    then show ?thesis using hand advanced(2)
      by (auto simp: inHand_def importOperationOf_def importRowIs_def intro!: bexI [of _ "advancedRow (successor ?c) at row"])
  qed
  ultimately show ?thesis using advanced(4,5) by simp
next
  case (current row)
  then show ?thesis using hand inv by (auto simp: inHand_def importOperationOf_def importRowIs_def)
qed (use inv in simp)

context object_storage
begin

lemma stored_commit:
  assumes "tc_storage cfg = ops"
  shows "preserves (\<lambda>s. blobStored (objs s) w h) (pgCommitBlob sha cfg op d)"
proof -
  have "preserves (\<lambda>s. blobStored (objs s) w h) (os_commitImmutable ops tmp v d n m)" for tmp v n m
    unfolding preserves_def using commit_keeps blobStored_keeps by (metis prod.collapse)
  moreover have "preserves (\<lambda>s. blobStored (objs s) w h) (os_createTemporaryUpload ops v q)" for v q
    unfolding preserves_def using create_spec by (metis prod.collapse)
  moreover have "preserves (\<lambda>s. blobStored (objs s) w h) (os_head ops k)" for k
    unfolding preserves_def using head_spec by (metis prod.collapse)
  moreover have "preserves (\<lambda>s. blobStored (objs s) w h) (os_openReadStream ops k rng)" for k rng
    unfolding preserves_def using open_spec by (metis prod.collapse)
  ultimately show ?thesis unfolding pgCommitBlob_def temporaryOf_def assms
    by (intro preserves_andThen preserves_if preserves_basic) blast+
qed

lemma commitBlobs_stores:
  assumes cfg: "tc_storage cfg = ops" and run: "commitBlobs (postgresImportTarget sha cfg) op plan s = (Inr (), t)"
  shows "\<forall>a \<in> set (blobActions plan). blobStored (objs (pw_storage (im_store t))) (tc_workspaceId cfg) (aa_sourceId a)"
proof (rule forEach_establishes [OF run [unfolded commitBlobs_def]])
  fix a s t assume "onImportStore (it_commitBlob (postgresImportTarget sha cfg) op (aa_sourceId a)) s = (Inr (), t)"
  then obtain st where "pgCommitBlob sha cfg op (aa_sourceId a) (pw_storage (im_store s)) = (Inr (), st)" "pw_storage (im_store t) = st"
    by (auto simp: onImportStore_def onBlobs_def postgresImportTarget_def js_simps Let_def split: prod.splits)
  then show "blobStored (objs (pw_storage (im_store t))) (tc_workspaceId cfg) (aa_sourceId a)"
    using commitBlob_stores [OF cfg] by blast
next
  fix a b
  show "preserves (\<lambda>t. blobStored (objs (pw_storage (im_store t))) (tc_workspaceId cfg) (aa_sourceId a))
      (onImportStore (it_commitBlob (postgresImportTarget sha cfg) op (aa_sourceId b)))"
    using preservesD [OF stored_commit [OF cfg, of "tc_workspaceId cfg" "aa_sourceId a" op "aa_sourceId b"]]
    by (auto simp: preserves_def onImportStore_def onBlobs_def postgresImportTarget_def js_simps Let_def split: prod.splits)
qed

lemma importStep_inv:
  assumes cfg: "tc_storage cfg = ops" and run: "importStep sha (postgresImport sha cfg request hook) inp op s = (r, t)"
    and c: "iop_checkpoint op \<noteq> ImCompleted"
    and inv: "importInv sha (tc_workspaceId cfg) (in_plan inp) (pw_operations (im_store s)) (objs (pw_storage (im_store s)))"
    and hand: "inHand (tc_workspaceId cfg) (in_plan inp) op (pw_operations (im_store s))"
  shows "importInv sha (tc_workspaceId cfg) (in_plan inp) (pw_operations (im_store t)) (objs (pw_storage (im_store t)))
    \<and> (\<forall>op'. r = Inr op' \<longrightarrow> inHand (tc_workspaceId cfg) (in_plan inp) op' (pw_operations (im_store t)))"
proof -
  let ?m = "objs (pw_storage (im_store s))"
  have start: "effectInv (pw_operations (im_store s)) (\<lambda>x. storageGrows sha ?m (objs x)) (im_store s)"
    using inv by (simp add: effectInv_def storageGrows_def importInv_def)
  note keeps = preservesD [OF import_storage.effect_keeps [OF import_storage_grows [OF cfg]] start]
  from run show ?thesis
  proof (cases rule: importStep_cases)
    case (effect e)
    from keeps [OF effect(1)] inv effect(2) show ?thesis by (simp add: effectInv_def importInv_grows)
  next
    case (advance u at x)
    have u: "pw_operations (im_store u) = pw_operations (im_store s)" "storageGrows sha ?m (objs (pw_storage (im_store u)))"
      using keeps [OF advance(1)] by (simp_all add: effectInv_def)
    have blobs: "\<forall>a \<in> set (blobActions (in_plan inp)). blobStored (objs (pw_storage (im_store u))) (tc_workspaceId cfg) (aa_sourceId a)"
      if "iop_checkpoint op = ImStagedBlobsVerified"
      using commitBlobs_stores [OF cfg] advance(1) that by simp
    have "importInv sha (tc_workspaceId cfg) (in_plan inp) (pw_operations (im_store u)) (objs (pw_storage (im_store u)))"
      "inHand (tc_workspaceId cfg) (in_plan inp) op (pw_operations (im_store u))"
      using importInv_grows [OF inv u(2)] hand u(1) by simp_all
    from advance_inv [OF advance(2) c this blobs] advance(3) show ?thesis by auto
  qed
qed

end

lemma pgImportBegin_inv:
  assumes run: "pgImportBegin sha ws request (pl_planId plan) ex by' at w = (r, w')"
  shows "pw_storage w' = pw_storage w \<and> (importInv sha ws plan (pw_operations w) m \<longrightarrow> importInv sha ws plan (pw_operations w') m)
    \<and> (\<forall>op. r = Inr op \<longrightarrow> inHand ws plan op (pw_operations w'))"
proof (cases request)
  case None
  with run show ?thesis by (auto simp: pgImportBegin_def js_simps)
next
  case (Some req)
  define new where "new = newImportRow sha ws req (pl_planId plan) ex by' at"
  define rows where "rows = insertImport new (pw_operations w)"
  define pick where "pick = importCandidates new rows"
  have inv: "importInv sha ws plan rows m" if "importInv sha ws plan (pw_operations w) m"
    using that by (auto simp: importInv_def rows_def insertImport_def new_def newImportRow_def)
  have out: "(r, w') = (case pick of [] \<Rightarrow> (Inl (plainError ''Import operation was not found.''), w)
      | row # _ \<Rightarrow> if pr_planId row \<noteq> pl_planId plan \<or> pr_archiveExportId row \<noteq> ex \<or> \<not> sameImportRequest row new
            \<or> pr_fingerprint row \<noteq> rq_fingerprint req then (Inl importIdempotencyConflict, w)
          else (Inr ((importOperationOf row)\<lparr>iop_resumed := Some (list_ex (importConflict new) (pw_operations w))\<rparr>), w\<lparr>pw_operations := rows\<rparr>))"
    unfolding run [symmetric] pick_def rows_def
    by (simp add: pgImportBegin_def Some js_simps Let_def new_def [symmetric] requiredOperation_def rollbackImport_def split: list.splits)
  show ?thesis
  proof (cases pick)
    case Nil
    then show ?thesis using out by simp
  next
    case (Cons row rest)
    then have "row \<in> set pick" by simp
    then have row: "row \<in> set rows" "pr_workspaceId row = ws" by (auto simp: pick_def importCandidates_def Let_def new_def newImportRow_def)
    show ?thesis using out inv row unfolding Cons
      by (auto simp: inHand_def importOperationOf_def importRowIs_def split: if_splits)
  qed
qed

context object_storage
begin

lemma importLoop_inv:
  assumes "importLoop sh ex inp op s = Some y" "sh = sha" "ex = postgresImport sha cfg request hook" "tc_storage cfg = ops"
    and "importInv sha (tc_workspaceId cfg) (in_plan inp) (pw_operations (im_store s)) (objs (pw_storage (im_store s)))"
    and "inHand (tc_workspaceId cfg) (in_plan inp) op (pw_operations (im_store s))"
  shows "importInv sha (tc_workspaceId cfg) (in_plan inp) (pw_operations (im_store (snd y))) (objs (pw_storage (im_store (snd y))))
    \<and> (\<forall>op'. fst y = Inr op' \<longrightarrow> iop_checkpoint op' = ImCompleted
         \<and> inHand (tc_workspaceId cfg) (in_plan inp) op' (pw_operations (im_store (snd y))))"
  using assms
proof (induction rule: importLoop.raw_induct [rotated 1, consumes 1, case_names turn])
  case (turn loop sh ex inp op s y)
  show ?case
  proof (cases "iop_checkpoint op = ImCompleted")
    case True
    with turn.hyps turn.prems show ?thesis by auto
  next
    case False
    obtain r u where step: "importStep sha ex inp op s = (r, u)" by fastforce
    note inv = importStep_inv [OF turn.prems(3) step [unfolded turn.prems(2)] False turn.prems(4,5)]
    show ?thesis
    proof (cases r)
      case (Inl e)
      with turn.hyps False step turn.prems(1) inv show ?thesis by auto
    next
      case (Inr op')
      with turn.hyps False step turn.prems(1) have "loop sha ex inp op' u = Some y" by simp
      from turn.IH [OF this refl turn.prems(2,3)] inv Inr show ?thesis by blast
    qed
  qed
qed

lemma beginImport_inv:
  assumes cfg: "tc_storage cfg = ops" and run: "beginImport sha (postgresImport sha cfg request hook) inp s = (r, t)"
    and inv: "importInv sha (tc_workspaceId cfg) (in_plan inp) (pw_operations (im_store s)) (objs (pw_storage (im_store s)))"
  shows "importInv sha (tc_workspaceId cfg) (in_plan inp) (pw_operations (im_store t)) (objs (pw_storage (im_store t)))
    \<and> (\<forall>op. r = Inr op \<longrightarrow> inHand (tc_workspaceId cfg) (in_plan inp) op (pw_operations (im_store t)))"
proof -
  let ?at = "nowAt (im_ambient s) (ticks (im_ambient s))" and ?ws = "tc_workspaceId cfg" and ?plan = "in_plan inp"
  obtain x w where b: "pgImportBegin sha ?ws request (pl_planId ?plan) (tm_exportId (pa_manifest (in_archive inp))) (in_requestedBy inp) ?at
      (im_store s) = (x, w)" by fastforce
  have B: "importInv sha ?ws ?plan (pw_operations w) (objs (pw_storage w)) \<and> (\<forall>op. x = Inr op \<longrightarrow> inHand ?ws ?plan op (pw_operations w))"
    using pgImportBegin_inv [OF b] inv by simp
  have "im_store t = im_store s \<and> \<not> isOk r \<or> im_store t = w \<and> (\<forall>op. r = Inr op \<longrightarrow> x = Inr op)"
    using run b
    by (cases "validateInput sha (in_archive inp) ?plan"; cases x; cases hook)
      (auto simp: beginImport_def importNow_def onImportStore_def postgresImport_def postgresImportOperations_def
        runHook_def js_simps Let_def split: prod.splits sum.splits if_splits)
  with inv B show ?thesis by auto
qed

end

section \<open>Imports into the in-process storage\<close>

definition memoryImport ::
  "(bytes \<Rightarrow> string) \<Rightarrow> string \<Rightarrow> string \<Rightarrow> ('m \<Rightarrow> archiveImportInventory)
     \<Rightarrow> (string \<Rightarrow> archiveImportPlan \<Rightarrow> archiveImportAction \<Rightarrow> ('m, unit) js) \<Rightarrow> (memoryObjectStorage, 'm) importTargetConfig" where
  "memoryImport sha dayLater ws inventory commitAction = \<lparr>tc_storage = memoryStorageOps sha dayLater, tc_workspaceId = ws,
     tc_inventory = inventory, tc_commitAction = commitAction\<rparr>"

lemma memoryImport_simps [simp]:
  "tc_storage (memoryImport sha d ws iv ca) = memoryStorageOps sha d" "tc_workspaceId (memoryImport sha d ws iv ca) = ws"
  by (simp_all add: memoryImport_def)

interpretation memImport: import_storage sha "memoryImport sha dayLater ws inventory commitAction"
  "\<lambda>x. storageGrows sha m0 (ms_objects x)"
  by (rule mem.import_storage_grows) simp

text \<open>
  C11. Imported blobs are durable before the import says so. Whatever an attempt does (a stale
  target, a failing store, a hook that throws after any checkpoint, a resumed operation), an
  operation recorded at or after the checkpoint of committed blobs has every blob that its plan
  inserts stored under its canonical key with its hash, and an attempt that returns has reached
  the last checkpoint, with all these blobs stored.
\<close>

theorem import_blobs_durable:
  assumes "importInv sha ws (in_plan inp) (pw_operations (im_store s)) (ms_objects (pw_storage (im_store s)))"
    and "executeImport sha (postgresImport sha (memoryImport sha dayLater ws inventory commitAction) request hook) inp s = Some (r, t)"
  shows "importInv sha ws (in_plan inp) (pw_operations (im_store t)) (ms_objects (pw_storage (im_store t)))
    \<and> (\<forall>res. r = Inr res \<longrightarrow> iop_checkpoint (xr_operation res) = ImCompleted
         \<and> (\<forall>a \<in> set (blobActions (in_plan inp)). blobStored (ms_objects (pw_storage (im_store t))) ws (aa_sourceId a)))"
proof -
  let ?cfg = "memoryImport sha dayLater ws inventory commitAction"
  let ?ex = "postgresImport sha ?cfg request hook"
  obtain x u where b: "beginImport sha ?ex inp s = (x, u)" by fastforce
  have B: "importInv sha ws (in_plan inp) (pw_operations (im_store u)) (ms_objects (pw_storage (im_store u)))"
    "\<And>op. x = Inr op \<Longrightarrow> inHand ws (in_plan inp) op (pw_operations (im_store u))"
    using mem.beginImport_inv [OF _ b] assms(1) by simp_all
  show ?thesis
  proof (cases x)
    case (Inl e)
    with assms(2) b B(1) show ?thesis by (auto simp: executeImport_def)
  next
    case (Inr op)
    with assms(2) b obtain y v where l: "importLoop sha ?ex inp op u = Some (y, v)" "t = v"
      and ry: "\<And>res. r = Inr res \<Longrightarrow> y = Inr (xr_operation res)"
      by (auto simp: executeImport_def split: option.splits sum.splits)
    have L: "importInv sha ws (in_plan inp) (pw_operations (im_store v)) (ms_objects (pw_storage (im_store v)))"
      "\<And>op'. y = Inr op' \<Longrightarrow> iop_checkpoint op' = ImCompleted \<and> inHand ws (in_plan inp) op' (pw_operations (im_store v))"
      using mem.importLoop_inv [OF l(1) refl refl] B Inr by simp_all
    have "iop_checkpoint (xr_operation res) = ImCompleted
         \<and> (\<forall>a \<in> set (blobActions (in_plan inp)). blobStored (ms_objects (pw_storage (im_store v))) ws (aa_sourceId a))"
      if "r = Inr res" for res
    proof -
      from L(2) [OF ry [OF that]] obtain row where "iop_checkpoint (xr_operation res) = ImCompleted" "row \<in> set (pw_operations (im_store v))"
        "pr_workspaceId row = ws" "pr_planId row = pl_planId (in_plan inp)" "pr_checkpoint row = ImCompleted"
        by (auto simp: inHand_def importRowIs_def)
      with L(1) show ?thesis by (auto simp: importInv_def)
    qed
    with L(1) l(2) show ?thesis by blast
  qed
qed

lemma commitBlob_consumes:
  assumes "pgCommitBlob sha (memoryImport sha dayLater ws inventory commitAction) op d st = (Inr u, st')"
  obtains k where "temporaryObjectKey ws (temporaryOperationId sha op d) = Inr k" "ms_objects st' k = None"
proof -
  from assms obtain k st1 n m so where k: "temporaryObjectKey ws (temporaryOperationId sha op d) = Inr k"
    and c: "commitImmutable k ws d n m st1 = (Inr so, st')"
    unfolding pgCommitBlob_def temporaryOf_def
    by (auto simp: js_ok memoryStorageOps_def createTemporaryUpload_def split: if_splits)
  from c have "os_commitImmutable (memoryStorageOps sha dayLater) k ws d n m st1 = (Inr so, st')" by (simp add: memoryStorageOps_def)
  from mem.commit_ok [OF this] have "ms_objects st' k = None" by (auto simp: committed_def)
  with k that show thesis by blast
qed

text \<open>
  A blob commit is not resumable: when an attempt has committed the first blob of the plan and
  stopped before the checkpoint was recorded, every later attempt of that operation throws and
  changes nothing, because \<open>commitBlob\<close> reads the temporary object that the commit removed.
\<close>

theorem import_commit_not_resumable:
  assumes "beginImport sha (postgresImport sha (memoryImport sha dayLater ws inventory commitAction) request hook) inp s = (Inr op, u)"
    and "iop_checkpoint op = ImStagedBlobsVerified" and "blobActions (in_plan inp) = a # rest"
    and "pgCommitBlob sha (memoryImport sha dayLater ws inventory commitAction) (iop_id op) (aa_sourceId a) st = (Inr (), pw_storage (im_store u))"
  shows "\<exists>k. executeImport sha (postgresImport sha (memoryImport sha dayLater ws inventory commitAction) request hook) inp s
    = Some (Inl (storageError NotFound (''Object was not found: '' @ k)), u)"
proof -
  let ?cfg = "memoryImport sha dayLater ws inventory commitAction"
  let ?ex = "postgresImport sha ?cfg request hook"
  obtain k where k: "temporaryObjectKey ws (temporaryOperationId sha (iop_id op) (aa_sourceId a)) = Inr k"
    "ms_objects (pw_storage (im_store u)) k = None" using commitBlob_consumes [OF assms(4)] by blast
  have "pgCommitBlob sha ?cfg (iop_id op) (aa_sourceId a) (pw_storage (im_store u))
      = (Inl (storageError NotFound (''Object was not found: '' @ k)), pw_storage (im_store u))"
    using k by (simp add: pgCommitBlob_def temporaryOf_def memoryStorageOps_def createTemporaryUpload_def headObject_def requireObject_def js_simps)
  then have "importStep sha ?ex inp op u = (Inl (storageError NotFound (''Object was not found: '' @ k)), u)"
    using assms(2,3) by (simp add: importStep_def postgresImport_def postgresImportTarget_def commitBlobs_def onImportStore_def onBlobs_def js_simps)
  then have "importLoop sha ?ex inp op u = Some (Inl (storageError NotFound (''Object was not found: '' @ k)), u)"
    by (rule importLoop_throws [rotated]) (simp add: assms(2))
  with assms(1) show ?thesis by (auto simp: executeImport_def)
qed

section \<open>A sample import\<close>

definition importManifest :: trustArchiveManifest where
  "importManifest = \<lparr>tm_formatVersion = ''0.3'', tm_exportId = ''x1'', tm_workspaceId = ''w0'', tm_datasetIds = [], tm_createdAt = ''t'',
     tm_createdBy = ''u'', tm_sourceVersion = ''1'', tm_signatureProfile = Unsigned,
     tm_auditLineage = \<lparr>al_sourceWorkspaceId = ''w0'', al_eventCount = 0, al_firstEventHash = None, al_lastEventHash = None\<rparr>,
     tm_recordCounts = (\<lambda>_. 0), tm_blobCount = 1, tm_totalBlobBytes = 2\<rparr>"

definition blobAction :: archiveImportAction where
  "blobAction = \<lparr>aa_index = 0, aa_phase = 0, aa_kind = BlobBytes, aa_sourceId = sampleDigest, aa_targetId = sampleDigest,
     aa_disposition = Insert, aa_record = None, aa_dependsOn = []\<rparr>"

definition importPlan :: archiveImportPlan where
  "importPlan = \<lparr>pl_planId = sampleDigest, pl_archiveExportId = ''x1'', pl_sourceWorkspaceId = ''w0'', pl_targetWorkspaceId = ''w1'',
     pl_mode = MappedWorkspace, pl_conflictMode = RejectOnError, pl_status = PlanReady, pl_issues = [], pl_actions = [blobAction],
     pl_counts = (\<lambda>d. if d = Insert then 1 else 0)\<rparr>"

definition sampleImport :: importInput where
  "sampleImport = \<lparr>in_archive = \<lparr>pa_entries = [''blobs/aa/'' @ sampleDigest \<mapsto> ''hi''], pa_manifest = importManifest, pa_valid = True, pa_records = (\<lambda>_. [])\<rparr>,
     in_plan = importPlan, in_requestedBy = ''u1''\<rparr>"

definition sampleImportRow :: "archiveImportCheckpoint \<Rightarrow> importRow" where
  "sampleImportRow c = (newImportRow (\<lambda>_. sampleDigest) ''w1'' \<lparr>rq_principalType = IngestUser, rq_idempotencyKey = ''k1'', rq_fingerprint = sampleDigest\<rparr>
     sampleDigest ''x1'' ''u1'' ''2024-01-01'')\<lparr>pr_checkpoint := c\<rparr>"

definition sampleImportState :: "archiveImportCheckpoint \<Rightarrow> memoryObjectStorage \<Rightarrow> ((memoryObjectStorage, unit) importWorld, unit) importState" where
  "sampleImportState c st = \<lparr>im_store = \<lparr>pw_operations = [sampleImportRow c], pw_audit = [], pw_tables = (), pw_storage = st\<rparr>,
     im_hook = (), im_ambient = sampleAmbient\<rparr>"

definition sampleConfig :: "(memoryObjectStorage, unit) importTargetConfig" where
  "sampleConfig = memoryImport (\<lambda>_. sampleDigest) [] ''w1'' (\<lambda>_. \<lparr>iv_workspaceId = Some ''w1'', iv_records = (\<lambda>_. []), iv_blobDigests = Some []\<rparr>) (\<lambda>_ _ _. ret ())"

definition sampleImporter :: "((memoryObjectStorage, unit) importWorld, unit) importExecutor" where
  "sampleImporter = postgresImport (\<lambda>_. sampleDigest)
     sampleConfig
     (Some \<lparr>rq_principalType = IngestUser, rq_idempotencyKey = ''k1'', rq_fingerprint = sampleDigest\<rparr>) None"

lemma sampleImport_valid: "validateInput (\<lambda>_. sampleDigest) (in_archive sampleImport) (in_plan sampleImport) = Inr ()"
proof -
  have "planActionJson (\<lambda>_. sampleDigest) blobAction = Inr (JObj [(''phase'', JNum 0), (''kind'', JStr ''blob-bytes''),
      (''sourceId'', JStr sampleDigest), (''targetId'', JStr sampleDigest), (''dependsOn'', JArr [])])"
    by (simp add: planActionJson_def blobAction_def)
  moreover obtain m where "canonicalJson (manifestJson importManifest) = Inr m"
    by (simp add: importManifest_def manifestJson_def lineageJson_def nullable_def archiveRecordKinds_def)
  ultimately have "calculateArchiveImportPlanId (\<lambda>_. sampleDigest) importManifest ''w0'' ''w1'' MappedWorkspace RejectOnError [blobAction] = Inr sampleDigest"
    by (simp add: calculateArchiveImportPlanId_def)
  then show ?thesis
    by (simp add: validateInput_def sampleImport_def importPlan_def importManifest_def)
qed

lemma sampleImport_begin:
  "beginImport (\<lambda>_. sampleDigest) sampleImporter sampleImport (sampleImportState c st)
     = (Inr ((importOperationOf (sampleImportRow c))\<lparr>iop_resumed := Some True\<rparr>), (sampleImportState c st)\<lparr>im_ambient := sampleAmbient\<lparr>ticks := 1\<rparr>\<rparr>)"
proof -
  have "importConflict (sampleImportRow ImAuthorised) (sampleImportRow c)"
    by (simp add: importConflict_def sampleImportRow_def)
  then have b: "pgImportBegin (\<lambda>_. sampleDigest) ''w1'' (Some \<lparr>rq_principalType = IngestUser, rq_idempotencyKey = ''k1'', rq_fingerprint = sampleDigest\<rparr>)
      sampleDigest ''x1'' ''u1'' ''2024-01-01'' (im_store (sampleImportState c st))
    = (Inr ((importOperationOf (sampleImportRow c))\<lparr>iop_resumed := Some True\<rparr>), im_store (sampleImportState c st))"
    by (simp add: pgImportBegin_def sampleImportState_def sampleImportRow_def newImportRow_def insertImport_def importCandidates_def
        importConflict_def sameImportRequest_def requiredOperation_def importOperationOf_def js_simps Let_def)
  show ?thesis
    using b sampleImport_valid
    by (simp add: beginImport_def sampleImporter_def sampleConfig_def postgresImport_def postgresImportOperations_def importNow_def onImportStore_def
        runHook_def js_simps Let_def sampleImport_def importPlan_def importManifest_def sampleImportState_def sampleAmbient_def
        importOperationOf_def)
qed

lemma sampleImport_inv:
  "importInv (\<lambda>_. sampleDigest) ''w1'' (in_plan sampleImport) (pw_operations (im_store (sampleImportState c sampleCommitted)))
     (ms_objects (pw_storage (im_store (sampleImportState c sampleCommitted))))"
proof -
  have "blobStored (ms_objects sampleCommitted) ''w1'' sampleDigest"
    by (simp add: blobStored_def sampleCanonicalKey_ok sampleCommitted_eq sampleStored_def)
  then show ?thesis using sampleCommitted_addressed
    by (simp add: importInv_def sampleImportState_def sampleImport_def importPlan_def blobActions_def blobAction_def)
qed

lemma sampleImport_completes:
  "\<exists>res t. executeImport (\<lambda>_. sampleDigest) sampleImporter sampleImport (sampleImportState ImAuditCommitted st) = Some (Inr res, t)"
proof -
  let ?row = "sampleImportRow ImAuditCommitted" and ?s = "(sampleImportState ImAuditCommitted st)\<lparr>im_ambient := sampleAmbient\<lparr>ticks := 1\<rparr>\<rparr>"
  let ?op = "(importOperationOf ?row)\<lparr>iop_resumed := Some True\<rparr>"
  have cols: "pr_workspaceId ?row = ''w1''" "pr_checkpoint ?row = ImAuditCommitted" by (simp_all add: sampleImportRow_def newImportRow_def)
  obtain t where step: "importStep (\<lambda>_. sampleDigest) sampleImporter sampleImport ?op ?s
      = (Inr (importOperationOf (advancedRow ImCompleted ''2024-01-01'' ?row)), t)"
    using cols
    by (simp add: importStep_def sampleImporter_def sampleConfig_def postgresImport_def postgresImportOperations_def advance_def importNow_def
        onImportStore_def runHook_def pgImportAdvance_def nextImportCheckpoint_successor importRowIs_def importOperationOf_def
        sampleImportState_def sampleAmbient_def js_simps Let_def)
  have "iop_checkpoint ?op \<noteq> ImCompleted" "iop_checkpoint (importOperationOf (advancedRow ImCompleted ''2024-01-01'' ?row)) = ImCompleted"
    using cols by (simp_all add: importOperationOf_def)
  from importLoop_next [OF this(1) step] importLoop_done [OF this(2)]
  have "importLoop (\<lambda>_. sampleDigest) sampleImporter sampleImport ?op ?s
      = Some (Inr (importOperationOf (advancedRow ImCompleted ''2024-01-01'' ?row)), t)" by (rule trans)
  then show ?thesis by (simp add: executeImport_def sampleImport_begin)
qed

theorem import_blobs_durable_witness:
  "\<exists>res t. executeImport (\<lambda>_. sampleDigest) sampleImporter sampleImport (sampleImportState ImAuditCommitted sampleCommitted) = Some (Inr res, t)
     \<and> iop_checkpoint (xr_operation res) = ImCompleted \<and> blobStored (ms_objects (pw_storage (im_store t))) ''w1'' sampleDigest"
proof -
  obtain res t where run: "executeImport (\<lambda>_. sampleDigest) sampleImporter sampleImport (sampleImportState ImAuditCommitted sampleCommitted) = Some (Inr res, t)"
    using sampleImport_completes by blast
  from import_blobs_durable [OF sampleImport_inv run [unfolded sampleImporter_def sampleConfig_def]] run show ?thesis
    by (auto simp: sampleImport_def importPlan_def blobActions_def blobAction_def)
qed

lemma sampleTemporaryId: "temporaryOperationId (\<lambda>_. sampleDigest) x y = ''aaaaaaaa-aaaa-4aaa-aaaa-aaaaaaaaaaaa''"
  unfolding temporaryOperationId_def deterministicUuid_def sampleDigest_def by code_simp

definition stagedKey :: string where
  "stagedKey = ''workspaces/w1/temporary/aaaaaaaa-aaaa-4aaa-aaaa-aaaaaaaaaaaa''"

lemma stagedKey_ok: "temporaryObjectKey ''w1'' ''aaaaaaaa-aaaa-4aaa-aaaa-aaaaaaaaaaaa'' = Inr stagedKey"
  by (simp add: temporaryObjectKey_def stagedKey_def safeId_def safe_char_def)

definition stagedStorage :: memoryObjectStorage where
  "stagedStorage = (emptyMemoryStorage None)\<lparr>ms_objects := [stagedKey \<mapsto> sampleStored]\<rparr>"

theorem import_commit_not_resumable_witness:
  "\<exists>st e t. pgCommitBlob (\<lambda>_. sampleDigest) sampleConfig (pr_id (sampleImportRow ImStagedBlobsVerified)) sampleDigest stagedStorage = (Inr (), st)
     \<and> executeImport (\<lambda>_. sampleDigest) sampleImporter sampleImport (sampleImportState ImStagedBlobsVerified st) = Some (Inl e, t)"
proof -
  have tmp: "isTemporaryKey stagedKey" using temporary_key_ok [OF stagedKey_ok] .
  then have "sampleCanonicalKey \<noteq> stagedKey" using canonical_key_not_temporary [OF sampleCanonicalKey_ok] by metis
  then obtain st where commit: "pgCommitBlob (\<lambda>_. sampleDigest) sampleConfig (pr_id (sampleImportRow ImStagedBlobsVerified)) sampleDigest stagedStorage = (Inr (), st)"
    using tmp by (simp add: pgCommitBlob_def sampleConfig_def temporaryOf_def sampleTemporaryId memoryStorageOps_def mem_op_defs js_simps stagedKey_ok stagedStorage_def
        sampleStored_def metadataOf_def sampleCanonicalKey_ok isSafeInteger_def emptyMemoryStorage_def Let_def)
  let ?u = "(sampleImportState ImStagedBlobsVerified st)\<lparr>im_ambient := sampleAmbient\<lparr>ticks := 1\<rparr>\<rparr>"
  have begun: "beginImport (\<lambda>_. sampleDigest) (postgresImport (\<lambda>_. sampleDigest) sampleConfig
      (Some \<lparr>rq_principalType = IngestUser, rq_idempotencyKey = ''k1'', rq_fingerprint = sampleDigest\<rparr>) None) sampleImport
      (sampleImportState ImStagedBlobsVerified st)
    = (Inr ((importOperationOf (sampleImportRow ImStagedBlobsVerified))\<lparr>iop_resumed := Some True\<rparr>), ?u)"
    using sampleImport_begin [of ImStagedBlobsVerified st] unfolding sampleImporter_def .
  have "pgCommitBlob (\<lambda>_. sampleDigest) sampleConfig (iop_id ((importOperationOf (sampleImportRow ImStagedBlobsVerified))\<lparr>iop_resumed := Some True\<rparr>))
      (aa_sourceId blobAction) stagedStorage = (Inr (), pw_storage (im_store ?u))"
    using commit by (simp add: importOperationOf_def blobAction_def sampleImportState_def)
  from import_commit_not_resumable [OF begun [unfolded sampleConfig_def] _ _ this [unfolded sampleConfig_def]] commit show ?thesis
    by (auto simp: sampleImporter_def sampleConfig_def importOperationOf_def sampleImportRow_def sampleImport_def importPlan_def blobActions_def blobAction_def)
qed

end
