(* ===== verification/JsonParse.thy ===== *)
theory JsonParse
  imports Json
begin

text \<open>
  \<open>JSON.parse\<close> on texts whose numbers are integers and whose characters are code units below 256,
  and UTF-8 decoding to such characters; a text outside this range gives no value. The main result
  is that parsing inverts the printing of values, which the archive reader relies on.

  The definitions recurse on fuel, the length of the text; the round trip shows that it is enough.
\<close>

section \<open>The parser\<close>

definition isWs :: "char \<Rightarrow> bool" where
  "isWs c = (c \<in> {CHR '' '', CHR 0x09, CHR 0x0A, CHR 0x0D})"

definition skipWs :: "string \<Rightarrow> string" where
  "skipWs s = dropWhile isWs s"

definition hexDigit :: "char \<Rightarrow> nat option" where
  "hexDigit c = (let n = (of_char c :: nat) in
     if 48 \<le> n \<and> n \<le> 57 then Some (n - 48) else if 97 \<le> n \<and> n \<le> 102 then Some (n - 87)
     else if 65 \<le> n \<and> n \<le> 70 then Some (n - 55) else None)"

definition hexPair :: "char \<Rightarrow> char \<Rightarrow> char option" where
  "hexPair a b = (case (hexDigit a, hexDigit b) of (Some x, Some y) \<Rightarrow> Some (char_of (16 * x + y)) | _ \<Rightarrow> None)"

definition unescape :: "char \<Rightarrow> char option" where
  "unescape e = map_of [(CHR 0x22, CHR 0x22), (CHR 0x5C, CHR 0x5C), (CHR ''/'', CHR ''/''), (CHR ''b'', CHR 0x08),
     (CHR ''f'', CHR 0x0C), (CHR ''n'', CHR 0x0A), (CHR ''r'', CHR 0x0D), (CHR ''t'', CHR 0x09)] e"

definition push :: "'a \<Rightarrow> ('a list \<times> 'b) option \<Rightarrow> ('a list \<times> 'b) option" where
  "push x r = (case r of None \<Rightarrow> None | Some (xs, t) \<Rightarrow> Some (x # xs, t))"

lemma push_simps [simp]: "push x None = None" "push x (Some (xs, t)) = Some (x # xs, t)"
  by (simp_all add: push_def)

fun parseChars :: "string \<Rightarrow> (string \<times> string) option" where
  "parseChars [] = None"
| "parseChars (c # s) =
     (if c = CHR 0x22 then Some ([], s)
      else if c = CHR 0x5C then
        (case s of
           [] \<Rightarrow> None
         | e # t \<Rightarrow>
             if e = CHR ''u'' then
               (case t of
                  w # x # y # z # u \<Rightarrow>
                    if w = CHR ''0'' \<and> x = CHR ''0'' then
                      (case hexPair y z of Some d \<Rightarrow> push d (parseChars u) | None \<Rightarrow> None)
                    else None
                | _ \<Rightarrow> None)
             else (case unescape e of Some d \<Rightarrow> push d (parseChars t) | None \<Rightarrow> None))
      else if (of_char c :: nat) < 32 then None
      else push c (parseChars s))"

definition digitsValue :: "string \<Rightarrow> nat" where
  "digitsValue ds = foldl (\<lambda>n c. 10 * n + (of_char c - 48)) 0 ds"

definition parseNat :: "string \<Rightarrow> (nat \<times> string) option" where
  "parseNat s =
     (let ds = takeWhile is_digit s; r = dropWhile is_digit s in
      if ds = [] \<or> length ds > 1 \<and> hd ds = CHR ''0'' \<or> r \<noteq> [] \<and> hd r \<in> set ''.eE'' then None
      else Some (digitsValue ds, r))"

definition parseNumber :: "string \<Rightarrow> (int \<times> string) option" where
  "parseNumber s = (case s of
     [] \<Rightarrow> None
   | c # t \<Rightarrow> if c = CHR ''-'' then map_option (\<lambda>(n, r). (- int n, r)) (parseNat t)
       else map_option (\<lambda>(n, r). (int n, r)) (parseNat s))"

text \<open>A repeated key keeps its first place and takes its last value.\<close>

definition objectOf :: "(string \<times> json) list \<Rightarrow> (string \<times> json) list" where
  "objectOf kvs = foldl (\<lambda>r (k, v). AList.update k v r) [] kvs"

definition literal :: "string \<Rightarrow> (json \<times> string) option" where
  "literal s = (if prefix ''null'' s then Some (JNull, drop 4 s)
     else if prefix ''true'' s then Some (JBool True, drop 4 s)
     else if prefix ''false'' s then Some (JBool False, drop 5 s)
     else map_option (\<lambda>(i, r). (JNum i, r)) (parseNumber s))"

fun parseValue :: "nat \<Rightarrow> string \<Rightarrow> (json \<times> string) option"
  and parseElements :: "nat \<Rightarrow> string \<Rightarrow> (json list \<times> string) option"
  and parseMembers :: "nat \<Rightarrow> string \<Rightarrow> ((string \<times> json) list \<times> string) option" where
  "parseValue 0 s = None"
| "parseValue (Suc n) s = (case skipWs s of
     [] \<Rightarrow> None
   | c # t \<Rightarrow>
       if c = CHR 0x22 then map_option (\<lambda>(x, r). (JStr x, r)) (parseChars t)
       else if c = CHR ''['' then
         (if prefix '']'' (skipWs t) then Some (JArr [], tl (skipWs t))
          else map_option (\<lambda>(vs, r). (JArr vs, r)) (parseElements n t))
       else if c = CHR ''{'' then
         (if prefix ''}'' (skipWs t) then Some (JObj [], tl (skipWs t))
          else map_option (\<lambda>(kvs, r). (JObj (objectOf kvs), r)) (parseMembers n t))
       else literal (c # t))"
| "parseElements 0 s = None"
| "parseElements (Suc n) s = (case parseValue n s of
     None \<Rightarrow> None
   | Some (v, r) \<Rightarrow> (case skipWs r of
       [] \<Rightarrow> None
     | c # t \<Rightarrow> if c = CHR '','' then push v (parseElements n t) else if c = CHR '']'' then Some ([v], t) else None))"
| "parseMembers 0 s = None"
| "parseMembers (Suc n) s =
     (if \<not> prefix [CHR 0x22] (skipWs s) then None
      else (case parseChars (tl (skipWs s)) of
        None \<Rightarrow> None
      | Some (k, r) \<Rightarrow>
          if \<not> prefix '':'' (skipWs r) then None
          else (case parseValue n (tl (skipWs r)) of
            None \<Rightarrow> None
          | Some (v, w) \<Rightarrow> (case skipWs w of
              [] \<Rightarrow> None
            | c # t \<Rightarrow> if c = CHR '','' then push (k, v) (parseMembers n t)
                else if c = CHR ''}'' then Some ([(k, v)], t) else None))))"

definition parseJson :: "string \<Rightarrow> json option" where
  "parseJson s = (case parseValue (Suc (length s)) s of
     Some (v, r) \<Rightarrow> if skipWs r = [] then Some v else None | None \<Rightarrow> None)"


section \<open>Parsing what was printed\<close>

lemma hexDigit_hex_char: "n < 16 \<Longrightarrow> hexDigit (hex_char n) = Some n"
  by (auto simp: hexDigit_def hex_char_def of_char_of Let_def)

lemma hexPair_hex: "(of_char c :: nat) < 256 \<Longrightarrow> hexPair (hex_char (of_char c div 16)) (hex_char (of_char c mod 16)) = Some c"
  by (simp add: hexPair_def hexDigit_hex_char less_mult_imp_div_less)

lemma parseChars_escape: "parseChars (escape_char c @ s) = push c (parseChars s)"
proof -
  let ?n = "of_char c :: nat"
  have lt: "?n < 256" using of_char_less [of c] by simp
  consider "?n \<in> {34, 92, 8, 9, 10, 12, 13}" | "?n < 32" "?n \<notin> {34, 92, 8, 9, 10, 12, 13}"
    | "\<not> ?n < 32" "?n \<notin> {34, 92, 8, 9, 10, 12, 13}" by blast
  then show ?thesis
  proof cases
    case 1
    have c: "?n = m \<Longrightarrow> c = char_of m" for m by auto
    from 1 have "c = char_of (34 :: nat) \<or> c = char_of (92 :: nat) \<or> c = char_of (8 :: nat) \<or> c = char_of (9 :: nat)
        \<or> c = char_of (10 :: nat) \<or> c = char_of (12 :: nat) \<or> c = char_of (13 :: nat)"
      by (elim insertE emptyE) (drule c, blast)+
    then show ?thesis by (elim disjE) (simp_all add: escape_char_def unescape_def, simp_all add: char_of_def bit_0)
  next
    case 2
    then show ?thesis using hexPair_hex [OF lt] by (simp add: escape_char_def Let_def)
  next
    case 3
    moreover from this have "c \<noteq> CHR 0x22" "c \<noteq> CHR 0x5C" by auto
    ultimately show ?thesis by (simp add: escape_char_def)
  qed
qed

lemma parseChars_quote: "parseChars (concat (map escape_char s) @ CHR 0x22 # r) = Some (s, r)"
  by (induction s) (simp_all add: parseChars_escape)

lemma digitsValue_snoc: "digitsValue (ds @ [c]) = 10 * digitsValue ds + (of_char c - 48)"
  by (simp add: digitsValue_def)

lemma digitsValue_show_nat: "digitsValue (show_nat n) = n"
proof (induction n rule: show_nat.induct)
  case (1 n)
  then show ?case
    by (subst show_nat.simps) (auto simp: digitsValue_snoc digit_char_def of_char_of digitsValue_def)
qed

lemma show_nat_no_zero: "length (show_nat n) > 1 \<Longrightarrow> hd (show_nat n) \<noteq> CHR ''0''"
proof (induction n rule: show_nat.induct)
  case (1 n)
  show ?case
  proof (cases "n < 10")
    case False
    then have sn: "show_nat n = show_nat (n div 10) @ [digit_char n]" by (subst show_nat.simps) simp
    show ?thesis
    proof (cases "n div 10 < 10")
      case True
      with False have "digit_char (n div 10) \<noteq> CHR ''0''"
        by (auto simp: digit_char_def dest!: arg_cong [of _ "CHR ''0''" "of_char :: char \<Rightarrow> nat"] simp: of_char_of)
      then show ?thesis using True sn by (simp add: show_nat.simps [of "n div 10"])
    next
      case big: False
      then have "length (show_nat (n div 10)) > 1"
        using show_nat_nonempty [of "n div 10 div 10"] by (subst show_nat.simps) simp
      then show ?thesis using 1(1) [OF False] sn by simp
    qed
  qed (use 1(2) in \<open>simp add: show_nat.simps [of n]\<close>)
qed

definition ends :: "string \<Rightarrow> bool" where
  "ends r \<longleftrightarrow> r = [] \<or> \<not> is_digit (hd r) \<and> hd r \<notin> set ''.eE''"

lemma parseNat_show: "ends r \<Longrightarrow> parseNat (show_nat n @ r) = Some (n, r)"
proof -
  assume r: "ends r"
  then have "delimited r" by (auto simp: ends_def delimited_def)
  then have "takeWhile is_digit (show_nat n @ r) = show_nat n" by (rule takeWhile_show_nat)
  moreover from this have "dropWhile is_digit (show_nat n @ r) = r" by (metis append_eq_append_conv takeWhile_dropWhile_id)
  ultimately show ?thesis
    using r show_nat_no_zero [of n] by (auto simp: parseNat_def Let_def digitsValue_show_nat ends_def)
qed

lemma parseNumber_show: "ends r \<Longrightarrow> parseNumber (show_int i @ r) = Some (i, r)"
proof (cases "i < 0")
  case True
  assume "ends r"
  then show ?thesis using True by (simp add: parseNumber_def show_int_def parseNat_show)
next
  case False
  assume r: "ends r"
  obtain c s where cs: "show_nat (nat i) = c # s" by (cases "show_nat (nat i)") simp_all
  then have "c \<noteq> CHR ''-''" using show_nat_not_minus(1) [of "nat i" "[]"] by auto
  then show ?thesis using False parseNat_show [OF r, of "nat i"] cs by (simp add: parseNumber_def show_int_def)
qed


text \<open>Printed values start with their kind, never with white space.\<close>

lemma skipWs_stringify: "\<not> hasUndef v \<Longrightarrow> skipWs (stringify v @ r) = stringify v @ r"
proof -
  assume "\<not> hasUndef v"
  moreover have "\<not> isWs (hd (show_int i))" for i using hd_show_int [of i] by (auto simp: isWs_def is_digit_def)
  ultimately have "\<not> isWs (hd (stringify v @ r))"
    unfolding stringify_heads by (cases v) (auto simp: isWs_def)
  moreover obtain c s where "stringify v = c # s" by (rule stringify_first)
  ultimately show ?thesis by (simp add: skipWs_def)
qed

lemma ends_close [simp]: "ends (CHR '','' # r)" "ends (CHR '']'' # r)" "ends (CHR ''}'' # r)" "ends []"
  by (simp_all add: ends_def is_digit_def)

lemma skipWs_close [simp]:
  "skipWs (CHR '','' # r) = CHR '','' # r" "skipWs (CHR '']'' # r) = CHR '']'' # r" "skipWs (CHR ''}'' # r) = CHR ''}'' # r"
  "skipWs (CHR '':'' # r) = CHR '':'' # r" "skipWs (CHR 0x22 # r) = CHR 0x22 # r" "skipWs [] = []"
  "skipWs (CHR ''['' # r) = CHR ''['' # r" "skipWs (CHR ''{'' # r) = CHR ''{'' # r"
  by (simp_all add: skipWs_def isWs_def)

text \<open>Keys are distinct, as in every JavaScript object.\<close>

fun wellKeyed :: "json \<Rightarrow> bool"
  and wellKeyedArr :: "json list \<Rightarrow> bool"
  and wellKeyedObj :: "(string \<times> json) list \<Rightarrow> bool" where
  "wellKeyed (JArr vs) = wellKeyedArr vs"
| "wellKeyed (JObj kvs) = (distinct (map fst kvs) \<and> wellKeyedObj kvs)"
| "wellKeyed _ = True"
| "wellKeyedArr [] = True"
| "wellKeyedArr (v # vs) = (wellKeyed v \<and> wellKeyedArr vs)"
| "wellKeyedObj [] = True"
| "wellKeyedObj ((k, v) # kvs) = (wellKeyed v \<and> wellKeyedObj kvs)"

lemma objectOf_distinct: "distinct (map fst kvs) \<Longrightarrow> objectOf kvs = kvs"
proof -
  have "distinct (map fst (acc @ kvs)) \<Longrightarrow> foldl (\<lambda>r (k, v). AList.update k v r) acc kvs = acc @ kvs" for acc
  proof (induction kvs arbitrary: acc)
    case (Cons p kvs)
    obtain k v where p: "p = (k, v)" by fastforce
    have "AList.update k v acc = acc @ [(k, v)]"
      using Cons.prems p by (induction acc) auto
    then show ?case using Cons.IH [of "acc @ [p]"] Cons.prems p by simp
  qed simp
  from this [of "[]"] show "distinct (map fst kvs) \<Longrightarrow> objectOf kvs = kvs" by (simp add: objectOf_def)
qed

definition reads :: "json \<Rightarrow> bool" where
  "reads v \<longleftrightarrow> (\<forall>n r. length (stringify v) \<le> n \<longrightarrow> ends r \<longrightarrow> parseValue (Suc n) (stringify v @ r) = Some (v, r))"

lemma readsD: "reads v \<Longrightarrow> length (stringify v) < n \<Longrightarrow> ends r \<Longrightarrow> parseValue n (stringify v @ r) = Some (v, r)"
  by (cases n) (simp_all add: reads_def)

lemma ends_arrTail: "ends (arrTail vs r)"
  by (cases vs) (simp_all add: arrTail_def)

lemma ends_objTail: "ends (objTail kvs r)"
  by (cases kvs) (auto simp: objTail_def)

lemma parseElements_print:
  "\<forall>v \<in> set (v # vs). reads v \<and> \<not> hasUndef v \<Longrightarrow> length (stringify v @ arrTail vs []) < n
     \<Longrightarrow> parseElements n (stringify v @ arrTail vs r) = Some (v # vs, r)"
proof (induction vs arbitrary: v n)
  case Nil
  then obtain m where "n = Suc m" by (cases n) auto
  with Nil show ?case by (simp add: arrTail_def readsD)
next
  case (Cons w vs)
  then obtain m where m: "n = Suc m" by (cases n) auto
  have tail: "arrTail (w # vs) x = CHR '','' # stringify w @ arrTail vs x" for x by (simp add: arrTail_def)
  have "parseValue m (stringify v @ arrTail (w # vs) r) = Some (v, arrTail (w # vs) r)"
    using Cons.prems m tail by (intro readsD ends_arrTail) auto
  moreover have "parseElements m (stringify w @ arrTail vs r) = Some (w # vs, r)"
    using Cons.prems m tail by (intro Cons.IH) auto
  ultimately show ?case by (simp add: m tail)
qed

lemma parseMembers_print:
  "\<forall>p \<in> set ((k, v) # kvs). reads (snd p) \<and> \<not> hasUndef (snd p) \<Longrightarrow> length (field (k, stringify v) @ objTail kvs []) < n
     \<Longrightarrow> parseMembers n (field (k, stringify v) @ objTail kvs r) = Some ((k, v) # kvs, r)"
proof (induction kvs arbitrary: k v n)
  case Nil
  then obtain m where m: "n = Suc m" by (cases n) auto
  have "parseValue m (stringify v @ objTail [] r) = Some (v, objTail [] r)"
    using Nil m by (intro readsD ends_objTail) (auto simp: field_def)
  then show ?case using m by (simp add: field_def quote_def parseChars_quote) (simp add: objTail_def)
next
  case (Cons p kvs)
  obtain l w where p: "p = (l, w)" by fastforce
  obtain m where m: "n = Suc m" using Cons.prems by (cases n) auto
  have tail: "objTail (p # kvs) x = CHR '','' # field (l, stringify w) @ objTail kvs x" for x by (simp add: objTail_def p)
  have comma: "skipWs (objTail (p # kvs) r) = CHR '','' # field (l, stringify w) @ objTail kvs r" by (simp add: tail)
  have "parseValue m (stringify v @ objTail (p # kvs) r) = Some (v, objTail (p # kvs) r)"
    using Cons.prems m by (intro readsD ends_objTail) (auto simp: field_def)
  moreover have "parseMembers m (field (l, stringify w) @ objTail kvs r) = Some ((l, w) # kvs, r)"
    using Cons.prems m tail p by (intro Cons.IH) auto
  ultimately show ?case using m by (simp add: field_def [of "(k, _)"] quote_def [of k] parseChars_quote comma) (simp add: p)
qed


lemma parse_print:
  fixes kvs :: "(string \<times> json) list"
  shows "\<not> hasUndef v \<Longrightarrow> wellKeyed v \<Longrightarrow> reads v"
    and "\<not> hasUndefArr vs \<Longrightarrow> wellKeyedArr vs \<Longrightarrow> \<forall>v \<in> set vs. reads v \<and> \<not> hasUndef v"
    and "\<not> hasUndefObj kvs \<Longrightarrow> wellKeyedObj kvs \<Longrightarrow> \<forall>p \<in> set kvs. reads (snd p) \<and> \<not> hasUndef (snd p)"
proof (induction v and vs and kvs rule: stringify_stringifyArr_stringifyObj.induct)
  case (4 i)
  have "parseValue (Suc n) (show_int i @ r) = Some (JNum i, r)" if "ends r" for n r
  proof -
    obtain c s where "stringify (JNum i) = c # s" by (rule stringify_first)
    then have cs: "show_int i = c # s" by simp
    have "skipWs (show_int i @ r) = show_int i @ r" using skipWs_stringify [of "JNum i"] by simp
    moreover have "literal (show_int i @ r) = Some (JNum i, r)"
      using hd_show_int [of i] cs parseNumber_show [OF that, of i] by (auto simp: literal_def is_digit_def)
    moreover have "c \<noteq> CHR 0x22" "c \<noteq> CHR ''[''" "c \<noteq> CHR ''{''" using hd_show_int [of i] cs by (auto simp: is_digit_def)
    ultimately show ?thesis using cs by simp
  qed
  then show ?case by (simp add: reads_def)
next
  case (5 s)
  then show ?case by (simp add: reads_def quote_def parseChars_quote)
next
  case (6 vs)
  show ?case
  proof (cases vs)
    case Nil
    then show ?thesis by (simp add: reads_def bracket_def)
  next
    case (Cons v ws)
    have all: "\<forall>v \<in> set (v # ws). reads v \<and> \<not> hasUndef v" using 6 Cons by simp
    have out: "stringify (JArr vs) @ r = CHR ''['' # stringify v @ arrTail ws r" for r
      by (simp add: Cons bracket_def join_comma arrTail_def)
    have "parseElements n (stringify v @ arrTail ws r) = Some (vs, r)" if "length (stringify (JArr vs)) \<le> n" for n r
      using parseElements_print [OF all, of n r] that out [of "[]"] Cons by simp
    moreover have "skipWs (stringify v @ arrTail ws r) = stringify v @ arrTail ws r" for r
      using all by (simp add: skipWs_stringify)
    moreover have "\<not> prefix '']'' (stringify v @ arrTail ws r)" for r
      using stringify_not_close(1) [of v "arrTail ws r"] by (auto simp: prefix_def)
    ultimately show ?thesis unfolding reads_def out by simp
  qed
next
  case (7 kvs)
  show ?case
  proof (cases kvs)
    case Nil
    then show ?thesis by (simp add: reads_def brace_def)
  next
    case (Cons p lws)
    obtain k v where p: "p = (k, v)" by fastforce
    have all: "\<forall>p \<in> set ((k, v) # lws). reads (snd p) \<and> \<not> hasUndef (snd p)" using 7 Cons p by simp
    have out: "stringify (JObj kvs) @ r = CHR ''{'' # field (k, stringify v) @ objTail lws r" for r
      by (simp add: Cons p brace_def join_comma objTail_def)
    have "parseMembers n (field (k, stringify v) @ objTail lws r) = Some (kvs, r)" if "length (stringify (JObj kvs)) \<le> n" for n r
      using parseMembers_print [OF all, of n r] that out [of "[]"] Cons p by simp
    moreover have "skipWs (field (k, stringify v) @ objTail lws r) = field (k, stringify v) @ objTail lws r" for r
      by (simp add: field_def quote_def)
    moreover have "\<not> prefix ''}'' (field (k, stringify v) @ objTail lws r)" for r
      by (simp add: field_def quote_def)
    moreover have "objectOf kvs = kvs" using 7 by (simp add: objectOf_distinct)
    ultimately show ?thesis unfolding reads_def out by simp
  qed
qed (auto simp: reads_def show_bool_def literal_def skipWs_def isWs_def)

lemma hasUndefObj_iff: "hasUndefObj kvs \<longleftrightarrow> (\<exists>p \<in> set kvs. hasUndef (snd p))"
  by (induction kvs) auto

lemma wellKeyedObj_iff: "wellKeyedObj kvs \<longleftrightarrow> (\<forall>p \<in> set kvs. wellKeyed (snd p))"
  by (induction kvs) auto

lemma normObj_map: "normObj kvs = map (\<lambda>p. (fst p, normJson (snd p))) kvs"
  by (induction kvs) auto

lemma normObj_keys: "map fst (normObj kvs) = map fst kvs"
  by (simp add: normObj_map comp_def)

lemma distinct_map_sort_fst: "distinct (map fst (sort_key fst xs)) = distinct (map fst xs)"
  by (rule mset_eq_imp_distinct_iff) simp

lemma norm_keeps:
  fixes kvs :: "(string \<times> json) list"
  shows "hasUndef (normJson v) = hasUndef v \<and> wellKeyed (normJson v) = wellKeyed v"
    and "hasUndefArr (normArr vs) = hasUndefArr vs \<and> wellKeyedArr (normArr vs) = wellKeyedArr vs"
    and "\<forall>p \<in> set kvs. hasUndef (normJson (snd p)) = hasUndef (snd p) \<and> wellKeyed (normJson (snd p)) = wellKeyed (snd p)"
proof (induction v and vs and kvs rule: normJson_normArr_normObj.induct)
  case (2 kvs)
  have "distinct (map fst (sort_key fst (normObj kvs))) = distinct (map fst kvs)"
    by (metis (no_types, lifting) distinct_map_sort_fst normObj_keys)
  with 2 show ?case by (simp add: hasUndefObj_iff wellKeyedObj_iff normObj_map)
qed auto

text \<open>
  Parsing inverts the canonical encoding: for every value it accepts, whose objects have distinct
  keys as JavaScript objects have, parsing the encoding, also with white space after it, gives the
  value with its keys sorted.
\<close>

theorem parse_canonicalJson:
  assumes "canonicalJson v = Inr t" and "wellKeyed v" and "list_all isWs ws"
  shows "parseJson (t @ ws) = Some (normJson v)"
proof -
  from assms(1) have v: "\<not> hasUndef v" "t = stringify (normJson v)" by (auto simp: canonicalJson_eq split: if_splits)
  have "reads (normJson v)" using v(1) assms(2) norm_keeps(1) [of v] by (intro parse_print) auto
  moreover have "ends ws" using assms(3) by (cases ws) (auto simp: ends_def isWs_def is_digit_def)
  ultimately have "parseValue (Suc (length (t @ ws))) (t @ ws) = Some (normJson v, ws)"
    unfolding v(2) reads_def by simp
  moreover have "skipWs ws = []" using assms(3) by (simp add: skipWs_def list_all_iff)
  ultimately show ?thesis by (simp add: parseJson_def)
qed


section \<open>Decoding text\<close>

fun decodeUtf8 :: "bytes \<Rightarrow> string option" where
  "decodeUtf8 [] = Some []"
| "decodeUtf8 (b # s) = (let n = (of_char b :: nat) in
     if n < 128 then map_option (Cons b) (decodeUtf8 s)
     else if n = 194 \<or> n = 195 then
       (case s of
          [] \<Rightarrow> None
        | c # t \<Rightarrow> let m = (of_char c :: nat) in
            if 128 \<le> m \<and> m < 192 then map_option (Cons (char_of (64 * (n - 192) + (m - 128)))) (decodeUtf8 t) else None)
     else None)"

text \<open>\<open>TextDecoder\<close> with \<open>fatal\<close>: a byte order mark is dropped.\<close>

definition decodeText :: "bytes \<Rightarrow> string option" where
  "decodeText bs = decodeUtf8 (if prefix [CHR 0xEF, CHR 0xBB, CHR 0xBF] bs then drop 3 bs else bs)"

lemma div64: "n < 256 \<Longrightarrow> \<not> n < 128 \<Longrightarrow> n div 64 = 2 \<or> n div 64 = 3" for n :: nat
  by auto

lemma decodeUtf8_char: "decodeUtf8 (utf8_char c @ s) = map_option (Cons c) (decodeUtf8 s)"
proof (cases "(of_char c :: nat) < 128")
  case True
  then show ?thesis by (simp add: utf8_char_def)
next
  case False
  let ?n = "of_char c :: nat"
  have "?n div 64 = 2 \<or> ?n div 64 = 3" by (rule div64 [OF of_char_less False])
  moreover have "char_of (128 + ?n mod 64) = c" if "?n div 64 = 2"
  proof -
    have "128 + ?n mod 64 = ?n" using that mult_div_mod_eq [of 64 ?n] by simp
    then show ?thesis by (metis char_of_char)
  qed
  moreover have "char_of (192 + ?n mod 64) = c" if "?n div 64 = 3"
  proof -
    have "192 + ?n mod 64 = ?n" using that mult_div_mod_eq [of 64 ?n] by simp
    then show ?thesis by (metis char_of_char)
  qed
  moreover have "?n mod 64 < 64" by simp
  ultimately show ?thesis using False
    by (auto simp: utf8_char_def Let_def of_char_of)
qed

lemma decodeUtf8_utf8: "decodeUtf8 (utf8 s) = Some s"
  by (induction s) (simp_all add: decodeUtf8_char)

lemma decodeText_utf8: "decodeText (utf8 s) = Some s"
proof -
  have "\<not> prefix [CHR 0xEF, CHR 0xBB, CHR 0xBF] (utf8 s)"
  proof (cases s)
    case (Cons c t)
    have "(of_char (hd (utf8_char c)) :: nat) \<noteq> 239"
      using div64 [OF of_char_less, of c] by (auto simp: utf8_char_def Let_def of_char_of)
    then have "hd (utf8_char c) \<noteq> CHR 0xEF" by auto
    then show ?thesis using Cons utf8_char_nonempty [of c] by (cases "utf8_char c") auto
  qed simp
  then show ?thesis by (simp add: decodeText_def decodeUtf8_utf8)
qed

end
