(* ===== verification/Archive.thy ===== *)
theory Archive
  imports ArchiveImport JsonParse
begin

text \<open>
  \<open>packages/archive/src\<close>: safe paths (\<open>paths.ts\<close>), the assembly of the entries of an archive
  (\<open>assemble.ts\<close>), their signature (\<open>signature.ts\<close>), the verification of the entries (\<open>verify.ts\<close>) and
  the container (\<open>container.ts\<close>).

  Parameters: \<open>sha\<close> (the digest), \<open>decode\<close> (\<open>TextDecoder\<close>, no value where it throws), \<open>parse\<close>
  (\<open>JSON.parse\<close>, likewise) and \<open>loc\<close> (\<open>localeCompare\<close>); \<open>str\<close> is \<open>String\<close> of a value that is not a string.
  The entries of an archive are a \<open>Map\<close>, an association list with distinct keys in insertion order.
\<close>

section \<open>Paths\<close>

type_synonym entries = "(string \<times> bytes) list"

definition controlChar :: "char \<Rightarrow> bool" where
  "controlChar c = (let n = (of_char c :: nat) in n < 32 \<or> n = 127)"

definition letter :: "char \<Rightarrow> bool" where
  "letter c = (let n = (of_char c :: nat) in 65 \<le> n \<and> n \<le> 90 \<or> 97 \<le> n \<and> n \<le> 122)"

definition unsafePath :: "string \<Rightarrow> js_error" where
  "unsafePath path = plainError (''Unsafe archive path: '' @ path)"

definition assertSafeArchivePath :: "string \<Rightarrow> js_error + unit" where
  "assertSafeArchivePath path =
     (if length path = 0 \<or> length path > 512 \<or> startsWith path ''/'' \<or> startsWith path [CHR 0x5C]
         \<or> (case path of a # b # _ \<Rightarrow> letter a \<and> b = CHR '':'' | _ \<Rightarrow> False)
         \<or> CHR 0x5C \<in> set path \<or> list_ex controlChar path
      then Inl (unsafePath path)
      else if list_ex (\<lambda>segment. segment = [] \<or> segment = ''.'' \<or> segment = ''..'') (split_on (CHR ''/'') path)
      then Inl (unsafePath path)
      else Inr ())"

abbreviation checksumPath :: string where
  "checksumPath \<equiv> ''checksums/sha256sums.txt''"

section \<open>Assembly\<close>

record archiveBlobInput =
  ab_sha256 :: string
  ab_byteLength :: int
  ab_bytes :: bytes

record archiveSource =
  so_exportId :: string
  so_workspaceId :: string
  so_datasetIds :: "string list"
  so_createdAt :: string
  so_createdBy :: string
  so_sourceVersion :: string
  so_records :: recordSets
  so_blobs :: "archiveBlobInput list"

definition addEntry :: "entries \<Rightarrow> string \<Rightarrow> bytes \<Rightarrow> js_error + entries" where
  "addEntry entries path bytes =
     seqR (assertSafeArchivePath path) (\<lambda>_.
     if map_of entries path \<noteq> None then Inl (plainError (''Duplicate archive path: '' @ path))
     else Inr (entries @ [(path, bytes)]))"

definition addBlob :: "(bytes \<Rightarrow> string) \<Rightarrow> entries \<Rightarrow> archiveBlobInput \<Rightarrow> js_error + entries" where
  "addBlob sha entries blob =
     (if int (length (ab_bytes blob)) \<noteq> ab_byteLength blob
      then Inl (plainError (''Blob '' @ ab_sha256 blob @ '' byte length does not match.''))
      else if sha (ab_bytes blob) \<noteq> ab_sha256 blob
      then Inl (plainError (''Blob '' @ ab_sha256 blob @ '' digest does not match.''))
      else seqR (blobArchivePath (ab_sha256 blob)) (\<lambda>path. addEntry entries path (ab_bytes blob)))"

text \<open>
  The sort key of a record: its identifier, or its encoding. A record that cannot be encoded makes
  the assembly throw in any order.
\<close>

definition recordKey :: "archiveRecord \<Rightarrow> string" where
  "recordKey r = (case asString (getProp r ''id'') of
     Some i \<Rightarrow> i | None \<Rightarrow> (case canonicalJson (JObj r) of Inr t \<Rightarrow> t | Inl _ \<Rightarrow> []))"

definition sortRecords :: "string comparator \<Rightarrow> archiveRecord list \<Rightarrow> archiveRecord list" where
  "sortRecords loc rs = Sorting_Algorithms.sort (Comparator.key recordKey loc) rs"

definition recordPath :: "archiveRecordKind \<Rightarrow> string" where
  "recordPath kind = ''records/'' @ recordKindName kind @ ''.jsonl''"

definition addRecords ::
  "string comparator \<Rightarrow> recordSets \<Rightarrow> entries \<Rightarrow> archiveRecordKind \<Rightarrow> js_error + entries" where
  "addRecords loc records entries kind =
     (if length (records kind) = 0 then Inr entries
      else seqR (mapR (\<lambda>r. canonicalJson (JObj r)) (sortRecords loc (records kind))) (\<lambda>lines.
        addEntry entries (recordPath kind) (utf8 (join [CHR 0x0A] lines @ [CHR 0x0A]))))"

fun foldR :: "('b \<Rightarrow> 'a \<Rightarrow> js_error + 'b) \<Rightarrow> 'b \<Rightarrow> 'a list \<Rightarrow> js_error + 'b" where
  "foldR f s [] = Inr s"
| "foldR f s (x # xs) = seqR (f s x) (\<lambda>t. foldR f t xs)"

text \<open>An event hash is a string where there is one.\<close>

definition auditLineageOf :: "archiveSource \<Rightarrow> auditLineage" where
  "auditLineageOf source =
     (let events = so_records source KAuditEvents;
          hashes = List.map_filter (\<lambda>e. asString (getProp e ''eventHash'')) events;
          referenced = List.map_filter (\<lambda>e. asString (getProp e ''previousEventHash'')) events in
      \<lparr>al_sourceWorkspaceId = so_workspaceId source, al_eventCount = int (length events),
       al_firstEventHash = (case List.find (\<lambda>e. getProp e ''previousEventHash'' \<in> {JNull, JUndef}) events of
          None \<Rightarrow> None | Some e \<Rightarrow> asString (getProp e ''eventHash'')),
       al_lastEventHash = List.find (\<lambda>h. h \<notin> set referenced) hashes\<rparr>)"

definition manifestOf :: "archiveSource \<Rightarrow> trustArchiveManifest" where
  "manifestOf source = \<lparr>tm_formatVersion = ''0.2'', tm_exportId = so_exportId source, tm_workspaceId = so_workspaceId source,
     tm_datasetIds = List.sort (so_datasetIds source), tm_createdAt = so_createdAt source, tm_createdBy = so_createdBy source,
     tm_sourceVersion = so_sourceVersion source, tm_signatureProfile = Unsigned, tm_auditLineage = auditLineageOf source,
     tm_recordCounts = (\<lambda>kind. int (length (so_records source kind))), tm_blobCount = int (length (so_blobs source)),
     tm_totalBlobBytes = sum_list (map ab_byteLength (so_blobs source))\<rparr>"

definition readmeText :: string where
  "readmeText = ''Trust Core portable archive'' @ [CHR 0x0A]
     @ ''Verify checksums before reading or importing records.'' @ [CHR 0x0A]"

definition checksumLine :: "(bytes \<Rightarrow> string) \<Rightarrow> string \<times> bytes \<Rightarrow> string" where
  "checksumLine sha = (\<lambda>(path, bytes). sha bytes @ ''  '' @ path)"

definition checksumText :: "(bytes \<Rightarrow> string) \<Rightarrow> string comparator \<Rightarrow> entries \<Rightarrow> string" where
  "checksumText sha loc entries =
     join [CHR 0x0A] (map (checksumLine sha) (Sorting_Algorithms.sort (Comparator.key fst loc) entries)) @ [CHR 0x0A]"

definition manifestText :: "trustArchiveManifest \<Rightarrow> js_error + string" where
  "manifestText manifest = seqR (canonicalJson (manifestJson manifest)) (\<lambda>t. Inr (t @ [CHR 0x0A]))"

definition assembleArchiveEntries ::
  "(bytes \<Rightarrow> string) \<Rightarrow> string comparator \<Rightarrow> archiveSource \<Rightarrow> js_error + entries \<times> trustArchiveManifest" where
  "assembleArchiveEntries sha loc source =
     seqR (foldR (addBlob sha) [] (Sorting_Algorithms.sort (Comparator.key ab_sha256 loc) (so_blobs source))) (\<lambda>entries.
     seqR (foldR (addRecords loc (so_records source)) entries archiveRecordKinds) (\<lambda>entries.
     seqR (manifestText (manifestOf source)) (\<lambda>t.
     seqR (addEntry entries ''manifest.json'' (utf8 t)) (\<lambda>entries.
     seqR (addEntry entries ''README.txt'' (utf8 readmeText)) (\<lambda>entries.
     seqR (addEntry entries checksumPath (utf8 (checksumText sha loc entries))) (\<lambda>entries.
     Inr (entries, manifestOf source)))))))"


section \<open>Verification of the entries\<close>

record verificationLimits =
  vl_maxEntries :: int
  vl_maxEntryBytes :: int
  vl_maxTotalBytes :: int

record archiveReport =
  rp_valid :: bool
  rp_checkedEntries :: nat
  rp_issues :: "archiveIssue list"
  rp_manifest :: "(string \<times> json) list option"
  rp_records :: "archiveRecordKind \<Rightarrow> json list option"

definition issueAt :: "string \<Rightarrow> string \<Rightarrow> string \<Rightarrow> archiveIssue" where
  "issueAt code message path = \<lparr>ai_code = code, ai_path = (if path = [] then None else Some path), ai_message = message\<rparr>"

text \<open>Reading a member of a value that may be no object.\<close>

definition typeError :: js_error where
  "typeError = JsError ''TypeError'' None ''Cannot read properties of this value''"

definition member :: "json \<Rightarrow> string \<Rightarrow> js_error + json" where
  "member v k = (case v of JNull \<Rightarrow> Inl typeError | JUndef \<Rightarrow> Inl typeError | JObj r \<Rightarrow> Inr (getProp r k) | _ \<Rightarrow> Inr JUndef)"

definition hasMember :: "json \<Rightarrow> string \<Rightarrow> js_error + bool" where
  "hasMember v k = (case v of JObj r \<Rightarrow> Inr (map_of r k \<noteq> None) | JArr _ \<Rightarrow> Inr False | _ \<Rightarrow> Inl typeError)"

definition memberOf :: "json \<Rightarrow> string \<Rightarrow> json" where
  "memberOf v k = (case v of JObj r \<Rightarrow> getProp r k | _ \<Rightarrow> JUndef)"

definition sizeIssues :: "verificationLimits \<Rightarrow> entries \<Rightarrow> archiveIssue list" where
  "sizeIssues limits entries =
     (if int (length entries) > vl_maxEntries limits
      then [issueAt ''ARCHIVE_ENTRY_LIMIT'' ''Archive contains too many entries.'' []] else [])
     @ concat (map (\<lambda>(path, bytes).
         (if isOk (assertSafeArchivePath path) then [] else [issueAt ''ARCHIVE_PATH_UNSAFE'' ''Archive path is unsafe.'' path])
         @ (if int (length bytes) > vl_maxEntryBytes limits
            then [issueAt ''ARCHIVE_ENTRY_TOO_LARGE'' ''Archive entry exceeds its size limit.'' path] else [])) entries)
     @ (if sum_list (map (\<lambda>(_, bytes). int (length bytes)) entries) > vl_maxTotalBytes limits
        then [issueAt ''ARCHIVE_TOTAL_TOO_LARGE'' ''Archive exceeds its total size limit.'' []] else [])"

text \<open>The pattern \<open>/^([a-f0-9]{64})  (.+)$/\<close> on a line.\<close>

definition matchChecksum :: "string \<Rightarrow> (string \<times> string) option" where
  "matchChecksum line =
     (let digest = take 64 line; path = drop 66 line in
      if isSha256 digest \<and> take 2 (drop 64 line) = ''  '' \<and> path \<noteq> [] \<and> CHR 0x0D \<notin> set path \<and> CHR 0x0A \<notin> set path
      then Some (digest, path) else None)"

definition checksumEntry :: "(string \<times> string) list \<Rightarrow> string \<Rightarrow> archiveIssue list \<times> (string \<times> string) list" where
  "checksumEntry result line = (case matchChecksum line of
     None \<Rightarrow> ([issueAt ''ARCHIVE_CHECKSUM_FILE_INVALID'' ''Checksum line is invalid.'' []], result)
   | Some (digest, path) \<Rightarrow>
       if \<not> isOk (assertSafeArchivePath path)
       then ([issueAt ''ARCHIVE_PATH_UNSAFE'' ''Checksummed path is unsafe.'' path], result)
       else (if map_of result path \<noteq> None then [issueAt ''ARCHIVE_CHECKSUM_DUPLICATE'' ''Checksum path is duplicated.'' path] else [],
             AList.update path digest result))"

fun checksumEntries :: "(string \<times> string) list \<Rightarrow> string list \<Rightarrow> archiveIssue list \<times> (string \<times> string) list" where
  "checksumEntries result [] = ([], result)"
| "checksumEntries result (line # lines) =
     (let (issues, result') = checksumEntry result line; (rest, final) = checksumEntries result' lines in (issues @ rest, final))"

definition trimEnd :: "string \<Rightarrow> string" where
  "trimEnd s = rev (dropWhile js_space (rev s))"

definition readChecksums :: "(bytes \<Rightarrow> string option) \<Rightarrow> entries \<Rightarrow> archiveIssue list \<times> (string \<times> string) list" where
  "readChecksums decode entries = (case map_of entries checksumPath of
     None \<Rightarrow> ([issueAt ''ARCHIVE_CHECKSUM_FILE_MISSING'' ''Checksum file is missing.'' []], [])
   | Some bytes \<Rightarrow> (case decode bytes of
       None \<Rightarrow> ([issueAt ''ARCHIVE_CHECKSUM_FILE_INVALID'' ''Checksum file is invalid UTF-8.'' []], [])
     | Some t \<Rightarrow> checksumEntries [] (split_on (CHR 0x0A) (trimEnd t))))"

definition checksumIssues :: "(bytes \<Rightarrow> string) \<Rightarrow> entries \<Rightarrow> (string \<times> string) list \<Rightarrow> archiveIssue list" where
  "checksumIssues sha entries checksums =
     concat (map (\<lambda>(path, expected). case map_of entries path of
         None \<Rightarrow> [issueAt ''ARCHIVE_ENTRY_MISSING'' ''Checksummed entry is missing.'' path]
       | Some bytes \<Rightarrow> if sha bytes \<noteq> expected
           then [issueAt ''ARCHIVE_CHECKSUM_INVALID'' ''Entry checksum does not match.'' path] else []) checksums)
     @ concat (map (\<lambda>(path, _).
         if path = checksumPath \<or> startsWith path ''signatures/'' then []
         else if map_of checksums path = None
         then [issueAt ''ARCHIVE_ENTRY_UNCHECKED'' ''Archive entry is not checksummed.'' path] else []) entries)"

definition validSigned :: "json \<Rightarrow> bool" where
  "validSigned profile \<longleftrightarrow> memberOf profile ''name'' = JStr ''trust-core-manifest-signature-v1'' \<and> memberOf profile ''algorithm'' = JStr ''Ed25519''
     \<and> (case memberOf profile ''keyId'' of JStr k \<Rightarrow> k \<noteq> [] | _ \<Rightarrow> False)"

definition safeInteger :: "int \<Rightarrow> bool" where
  "safeInteger i \<longleftrightarrow> \<bar>i\<bar> \<le> 9007199254740991"

definition lineageShape :: "(string \<times> json) list \<Rightarrow> bool" where
  "lineageShape m \<longleftrightarrow> (let lineage = getProp m ''auditLineage'' in
     memberOf lineage ''mode'' = JStr ''source_chain'' \<and> strictEq (memberOf lineage ''sourceWorkspaceId'') (getProp m ''workspaceId'')
     \<and> (case memberOf lineage ''eventCount'' of JNum i \<Rightarrow> safeInteger i \<and> i \<ge> 0 | _ \<Rightarrow> False))"

definition manifestInvalid :: archiveIssue where
  "manifestInvalid = issueAt ''ARCHIVE_MANIFEST_INVALID'' ''Manifest is invalid or incompatible.'' []"

definition readManifest ::
  "(bytes \<Rightarrow> string option) \<Rightarrow> (string \<Rightarrow> json option) \<Rightarrow> entries \<Rightarrow> archiveIssue list \<times> (string \<times> json) list option" where
  "readManifest decode parse entries = (case map_of entries ''manifest.json'' of
     None \<Rightarrow> ([issueAt ''ARCHIVE_MANIFEST_MISSING'' ''Manifest is missing.'' []], None)
   | Some bytes \<Rightarrow> (case decode bytes of
       None \<Rightarrow> ([manifestInvalid], None)
     | Some t \<Rightarrow> (case parse t of
         Some (JObj m) \<Rightarrow>
           let version = getProp m ''formatVersion''; profile = getProp m ''signatureProfile'' in
           if getProp m ''format'' \<noteq> JStr ''trustarchive'' \<or> version \<noteq> JStr ''0.2'' \<and> version \<noteq> JStr ''0.3''
              \<or> getProp m ''checksumAlgorithm'' \<noteq> JStr ''sha256''
              \<or> getProp m ''canonicalJsonProfile'' \<noteq> JStr ''trust-core-canonical-json-v1''
           then ([manifestInvalid], None)
           else if \<not> (version = JStr ''0.2'' \<and> profile = JStr ''unsigned'') \<and> \<not> (version = JStr ''0.3'' \<and> validSigned profile)
           then ([issueAt ''ARCHIVE_SIGNATURE_PROFILE_UNKNOWN'' ''Archive signature profile or algorithm is not supported.'' ''manifest.json''], None)
           else if \<not> lineageShape m then ([manifestInvalid], None)
           else (case canonicalJson (JObj m) of
               Inl _ \<Rightarrow> ([manifestInvalid], None)
             | Inr canonical \<Rightarrow>
                 (if t \<noteq> canonical @ [CHR 0x0A]
                  then [issueAt ''ARCHIVE_MANIFEST_NON_CANONICAL'' ''Manifest does not use the declared canonical JSON encoding.'' ''manifest.json'']
                  else [], Some m))
       | _ \<Rightarrow> ([manifestInvalid], None))))"


definition lineCount :: "(string \<times> json) list \<Rightarrow> archiveRecordKind \<Rightarrow> js_error + json" where
  "lineCount m kind = member (getProp m ''recordCounts'') (recordKindName kind)"

definition readRecords ::
  "(bytes \<Rightarrow> string option) \<Rightarrow> (string \<Rightarrow> json option) \<Rightarrow> (string \<times> json) list option \<Rightarrow> entries \<Rightarrow> archiveRecordKind
     \<Rightarrow> js_error + (archiveIssue list \<times> json list option)" where
  "readRecords decode parse manifest entries kind =
     (let path = recordPath kind; invalid = issueAt ''ARCHIVE_RECORD_INVALID'' ''Record JSONL is invalid UTF-8 or JSON.'' path in
      case map_of entries path of
        None \<Rightarrow> (case manifest of
            None \<Rightarrow> Inr ([], None)
          | Some m \<Rightarrow> seqR (lineCount m kind) (\<lambda>n.
              Inr (if n \<in> {JUndef, JNull, JNum 0} then []
                else [issueAt ''ARCHIVE_RECORD_FILE_MISSING'' ''Record file is missing.'' path], None)))
      | Some bytes \<Rightarrow> (case decode bytes of
          None \<Rightarrow> Inr ([invalid], None)
        | Some t \<Rightarrow>
            let lines = map parse (filter (\<lambda>line. line \<noteq> []) (split_on (CHR 0x0A) (trimEnd t))) in
            if None \<in> set lines then Inr ([invalid], None)
            else (let parsed = map the lines in
              Inr (case manifest of
                  None \<Rightarrow> ([], Some parsed)
                | Some m \<Rightarrow> (case lineCount m kind of
                    Inl _ \<Rightarrow> ([invalid], Some parsed)
                  | Inr n \<Rightarrow> (if JNum (int (length parsed)) \<noteq> n
                      then [issueAt ''ARCHIVE_RECORD_COUNT_INVALID'' ''Record count does not match manifest.'' path] else [],
                      Some parsed))))))"

text \<open>The records of all kinds, with the issues of reading them in order.\<close>

fun readKinds ::
  "(archiveRecordKind \<Rightarrow> js_error + (archiveIssue list \<times> json list option)) \<Rightarrow> archiveRecordKind list
     \<Rightarrow> js_error + (archiveIssue list \<times> (archiveRecordKind \<rightharpoonup> json list))" where
  "readKinds f [] = Inr ([], Map.empty)"
| "readKinds f (kind # kinds) = seqR (f kind) (\<lambda>(issues, rs). seqR (readKinds f kinds) (\<lambda>(rest, records).
     Inr (issues @ rest, records(kind := rs))))"

definition recordsOf :: "(archiveRecordKind \<rightharpoonup> json list) \<Rightarrow> archiveRecordKind \<Rightarrow> json list" where
  "recordsOf records kind = (case records kind of None \<Rightarrow> [] | Some rs \<Rightarrow> rs)"

definition idStrings :: "json list \<Rightarrow> js_error + string list" where
  "idStrings rs = seqR (mapR (\<lambda>r. member r ''id'') rs) (\<lambda>vs. Inr (List.map_filter asString vs))"

definition scopeIssues ::
  "(string \<times> json) list \<Rightarrow> (archiveRecordKind \<rightharpoonup> json list) \<Rightarrow> archiveRecordKind \<Rightarrow> js_error + archiveIssue list" where
  "scopeIssues manifest records kind =
     seqR (mapR (\<lambda>r. seqR (hasMember r ''workspaceId'') (\<lambda>found.
       Inr (if found \<and> \<not> strictEq (memberOf r ''workspaceId'') (getProp manifest ''workspaceId'')
         then [issueAt ''ARCHIVE_WORKSPACE_MISMATCH'' (recordKindName kind @ '' record crosses workspace boundary.'') []] else [])))
       (recordsOf records kind)) (\<lambda>issues. Inr (concat issues))"

definition revisionReferences :: "string list \<Rightarrow> string list \<Rightarrow> json \<Rightarrow> archiveIssue list" where
  "revisionReferences resources revisions revision =
     (case asString (memberOf revision ''resourceId'') of
        Some i \<Rightarrow> if i \<in> set resources then [] else [issueAt ''ARCHIVE_REFERENCE_INVALID'' ''Revision resource does not exist.'' []]
      | None \<Rightarrow> [issueAt ''ARCHIVE_REFERENCE_INVALID'' ''Revision resource does not exist.'' []])
     @ (case asString (memberOf revision ''parentRevisionId'') of
        Some i \<Rightarrow> if i \<in> set revisions then [] else [issueAt ''ARCHIVE_REFERENCE_INVALID'' ''Revision parent does not exist.'' []]
      | None \<Rightarrow> [])"

definition validateScopeAndReferences ::
  "(string \<times> json) list option \<Rightarrow> (archiveRecordKind \<rightharpoonup> json list) \<Rightarrow> js_error + archiveIssue list" where
  "validateScopeAndReferences manifest records = (case manifest of
     None \<Rightarrow> Inr []
   | Some m \<Rightarrow>
       seqR (idStrings (recordsOf records KResources)) (\<lambda>resources.
       seqR (idStrings (recordsOf records KRevisions)) (\<lambda>revisions.
       seqR (mapR (scopeIssues m records) archiveRecordKinds) (\<lambda>scopes.
       Inr (concat scopes @ concat (map (revisionReferences resources revisions) (recordsOf records KRevisions)))))))"

section \<open>The audit lineage\<close>

definition lineageIssue :: "string \<Rightarrow> archiveIssue" where
  "lineageIssue message = issueAt ''ARCHIVE_AUDIT_LINEAGE_INVALID'' message []"

definition eventHashText :: "json \<Rightarrow> string" where
  "eventHashText e = (case memberOf e ''eventHash'' of JStr s \<Rightarrow> s | _ \<Rightarrow> [])"

definition previousText :: "json \<Rightarrow> string" where
  "previousText e = (case memberOf e ''previousEventHash'' of JStr s \<Rightarrow> s | _ \<Rightarrow> [])"

definition isRoot :: "json \<Rightarrow> bool" where
  "isRoot e \<longleftrightarrow> memberOf e ''previousEventHash'' \<in> {JNull, JUndef, JStr []}"

definition references :: "json list \<Rightarrow> string list" where
  "references events = filter (\<lambda>h. h \<noteq> []) (map previousText events)"

text \<open>The index by hash: the last event of a hash wins.\<close>

definition eventByHash :: "(json \<Rightarrow> string) \<Rightarrow> json list \<Rightarrow> string \<Rightarrow> json option" where
  "eventByHash str events h = List.find (\<lambda>e. (case memberOf e ''eventHash'' of JStr s \<Rightarrow> s | v \<Rightarrow> str v) = h) (rev events)"

definition previousOf :: "(json \<Rightarrow> string) \<Rightarrow> json list \<Rightarrow> string \<Rightarrow> string" where
  "previousOf str events h = (case eventByHash str events h of None \<Rightarrow> [] | Some e \<Rightarrow> previousText e)"

lemma previousOf_reference: "previousOf str events h = [] \<or> previousOf str events h \<in> set (references events)"
  by (auto simp: previousOf_def eventByHash_def references_def split: option.splits dest!: find_SomeD)

text \<open>The loop that follows the links from the tail; it stops at a hash it has seen.\<close>

function lineageWalk :: "(json \<Rightarrow> string) \<Rightarrow> json list \<Rightarrow> string list \<Rightarrow> string \<Rightarrow> string list" where
  "lineageWalk str events visited current =
     (if current = [] \<or> current \<in> set visited then visited
      else (let previous = previousOf str events current in
        if previous = [] then current # visited else lineageWalk str events (current # visited) previous))"
  by pat_completeness auto

termination
proof (relation "measure (\<lambda>(str, events, visited, current). card (insert current (set (references events)) - set visited))", goal_cases)
  case (2 str events visited current previous)
  let ?refs = "set (references events)"
  have "previous \<in> ?refs" using previousOf_reference [of str events current] 2 by auto
  then have "insert previous ?refs - set (current # visited) \<subset> insert current ?refs - set visited" using 2 by auto
  then show ?case by (simp add: psubset_card_mono)
qed simp

declare lineageWalk.simps [simp del]

definition validateAuditLineage :: "(json \<Rightarrow> string) \<Rightarrow> (string \<times> json) list option \<Rightarrow> json list \<Rightarrow> archiveIssue list" where
  "validateAuditLineage str manifest events = (case manifest of
     None \<Rightarrow> []
   | Some m \<Rightarrow>
       (let lineage = getProp m ''auditLineage''; first = memberOf lineage ''firstEventHash''; final = memberOf lineage ''lastEventHash'' in
        (if memberOf lineage ''eventCount'' \<noteq> JNum (int (length events))
         then [lineageIssue ''Audit lineage count does not match exported audit records.''] else [])
        @ (if events = [] then
             (if first \<noteq> JNull \<or> final \<noteq> JNull
              then [lineageIssue ''Empty audit lineage must have null boundary hashes.''] else [])
           else
             (let hashes = map eventHashText events; roots = filter isRoot events; refs = references events;
                  tails = filter (\<lambda>h. h \<notin> set refs) hashes in
              (if list_ex (\<lambda>h. \<not> isSha256 h) hashes \<or> \<not> distinct hashes
               then [lineageIssue ''Audit lineage contains an invalid or duplicate event hash.''] else [])
              @ (if length roots \<noteq> 1 \<or> length tails \<noteq> 1 \<or> \<not> strictEq first (memberOf (hd roots) ''eventHash'') \<or> final \<noteq> JStr (hd tails)
                 then [lineageIssue ''Audit lineage boundary hashes do not identify one complete chain.''] else [])
              @ (if list_ex (\<lambda>p. p \<notin> set hashes) refs \<or> \<not> distinct refs
                 then [lineageIssue ''Audit lineage event links are discontinuous or branching.''] else [])
              @ (if length tails = 1 \<and> length (lineageWalk str events [] (hd tails)) \<noteq> length events
                 then [lineageIssue ''Audit lineage does not cover every exported audit event.''] else [])))))"

section \<open>The blobs\<close>

definition blobIssues :: "(bytes \<Rightarrow> string) \<Rightarrow> entries \<Rightarrow> json \<Rightarrow> js_error + (archiveIssue list \<times> int)" where
  "blobIssues sha entries r =
     seqR (member r ''sha256'') (\<lambda>digest.
     Inr (case (digest, memberOf r ''byteLength'') of
        (JStr d, JNum n) \<Rightarrow>
          (case blobArchivePath d of
             Inl _ \<Rightarrow> ([issueAt ''ARCHIVE_BLOB_RECORD_INVALID'' ''Blob digest is invalid.'' []], 0)
           | Inr path \<Rightarrow> (case map_of entries path of
               None \<Rightarrow> ([issueAt ''ARCHIVE_BLOB_MISSING'' ''Blob bytes are missing.'' path], 0)
             | Some bytes \<Rightarrow> (if int (length bytes) \<noteq> n \<or> sha bytes \<noteq> d
                 then [issueAt ''ARCHIVE_BLOB_INVALID'' ''Blob bytes do not match metadata.'' path] else [], int (length bytes))))
      | _ \<Rightarrow> ([issueAt ''ARCHIVE_BLOB_RECORD_INVALID'' ''Blob record is invalid.'' []], 0)))"

definition validateBlobs ::
  "(bytes \<Rightarrow> string) \<Rightarrow> (string \<times> json) list option \<Rightarrow> json list \<Rightarrow> entries \<Rightarrow> js_error + archiveIssue list" where
  "validateBlobs sha manifest blobRecords entries =
     seqR (mapR (blobIssues sha entries) blobRecords) (\<lambda>parts.
     Inr (concat (map fst parts)
       @ (case manifest of None \<Rightarrow> []
          | Some m \<Rightarrow> if getProp m ''blobCount'' \<noteq> JNum (int (length blobRecords)) \<or> getProp m ''totalBlobBytes'' \<noteq> JNum (sum_list (map snd parts))
              then [issueAt ''ARCHIVE_BLOB_COUNT_INVALID'' ''Blob totals do not match manifest.'' []] else [])))"


section \<open>The report\<close>

abbreviation manifestSignaturePath :: string where
  "manifestSignaturePath \<equiv> ''signatures/manifest-signature.json''"

definition profileIssues :: "bool \<Rightarrow> (string \<times> json) list option \<Rightarrow> entries \<Rightarrow> archiveIssue list" where
  "profileIssues deferSignedVerification manifest entries = (case manifest of
     None \<Rightarrow> []
   | Some m \<Rightarrow>
       (if getProp m ''signatureProfile'' \<noteq> JStr ''unsigned'' \<and> \<not> deferSignedVerification
        then [issueAt ''ARCHIVE_SIGNATURE_VERIFIER_REQUIRED'' ''Signed archive requires a manifest signature verifier.'' manifestSignaturePath] else [])
       @ (if getProp m ''signatureProfile'' = JStr ''unsigned'' \<and> map_of entries manifestSignaturePath \<noteq> None
          then [issueAt ''ARCHIVE_SIGNATURE_UNEXPECTED'' ''Unsigned archive contains a manifest signature artifact.'' manifestSignaturePath] else []))"

record codec =
  cd_sha :: "bytes \<Rightarrow> string"
  cd_decode :: "bytes \<Rightarrow> string option"
  cd_parse :: "string \<Rightarrow> json option"
  cd_str :: "json \<Rightarrow> string"

definition verifyArchiveEntriesBase :: "codec \<Rightarrow> entries \<Rightarrow> verificationLimits \<Rightarrow> bool \<Rightarrow> js_error + archiveReport" where
  "verifyArchiveEntriesBase cd entries limits deferSignedVerification =
     (let (readIssues, checksums) = readChecksums (cd_decode cd) entries;
          (manifestIssues, manifest) = readManifest (cd_decode cd) (cd_parse cd) entries in
      seqR (readKinds (readRecords (cd_decode cd) (cd_parse cd) manifest entries) archiveRecordKinds) (\<lambda>(recordIssues, records).
      seqR (validateScopeAndReferences manifest records) (\<lambda>scopes.
      seqR (validateBlobs (cd_sha cd) manifest (recordsOf records KBlobs) entries) (\<lambda>blobs.
      let issues = sizeIssues limits entries @ readIssues @ checksumIssues (cd_sha cd) entries checksums @ manifestIssues
            @ profileIssues deferSignedVerification manifest entries @ recordIssues @ scopes
            @ validateAuditLineage (cd_str cd) manifest (recordsOf records KAuditEvents) @ blobs in
      Inr \<lparr>rp_valid = (length issues = 0), rp_checkedEntries = length checksums, rp_issues = issues, rp_manifest = manifest,
        rp_records = records\<rparr>))))"

definition verifyArchiveEntries :: "codec \<Rightarrow> entries \<Rightarrow> verificationLimits \<Rightarrow> js_error + archiveReport" where
  "verifyArchiveEntries cd entries limits = verifyArchiveEntriesBase cd entries limits False"

section \<open>Signatures\<close>

datatype signatureVerdict = SignatureValid | SignatureInvalid | SignatureUnknownKey

text \<open>
  The signer and the verifier: a function from the payload, and one from key, payload and signature.
  \<open>toBase64\<close> and \<open>fromBase64\<close> are the conversions of \<open>Buffer\<close>.
\<close>

record signatureCodec =
  sc_toBase64 :: "bytes \<Rightarrow> string"
  sc_fromBase64 :: "string \<Rightarrow> bytes"

definition validKeyId :: "json \<Rightarrow> bool" where
  "validKeyId v = (case v of
     JStr k \<Rightarrow> k \<noteq> [] \<and> length k \<le> 256 \<and> list_all (\<lambda>c. letter c \<or> is_digit c \<or> c \<in> set ''._:/@-'') k
   | _ \<Rightarrow> False)"

definition checksumFile :: "(bytes \<Rightarrow> string) \<Rightarrow> string comparator \<Rightarrow> entries \<Rightarrow> bytes" where
  "checksumFile sha loc entries =
     utf8 (checksumText sha loc (filter (\<lambda>(path, _). path \<noteq> checksumPath \<and> \<not> startsWith path ''signatures/'') entries))"

definition signaturePayload :: "(bytes \<Rightarrow> string) \<Rightarrow> bytes \<Rightarrow> bytes \<Rightarrow> bytes" where
  "signaturePayload sha manifestBytes checksumBytes =
     utf8 (stringify (normJson (JObj [(''checksumsSha256'', JStr (sha checksumBytes)), (''manifestSha256'', JStr (sha manifestBytes)),
       (''profile'', JStr ''trust-core-manifest-signature-v1'')])) @ [CHR 0x0A])"

definition artifactJson :: "string \<Rightarrow> string \<Rightarrow> json" where
  "artifactJson keyId signature = JObj [(''profile'', JStr ''trust-core-manifest-signature-v1''), (''algorithm'', JStr ''Ed25519''),
     (''keyId'', JStr keyId), (''signedEntries'', JArr [JStr ''manifest.json'', JStr checksumPath]),
     (''signatureEncoding'', JStr ''base64''), (''signature'', JStr signature)]"

record archiveManifestSigner =
  sg_algorithm :: string
  sg_keyId :: string
  sg_signManifest :: "bytes \<Rightarrow> js_error + bytes"

definition signArchiveEntries ::
  "(bytes \<Rightarrow> string) \<Rightarrow> string comparator \<Rightarrow> signatureCodec \<Rightarrow> archiveManifestSigner \<Rightarrow> entries \<times> trustArchiveManifest \<Rightarrow> js_error + entries \<times> trustArchiveManifest" where
  "signArchiveEntries sha loc sc signer = (\<lambda>(entries, unsigned).
     if tm_formatVersion unsigned \<noteq> ''0.2'' \<or> tm_signatureProfile unsigned \<noteq> Unsigned
     then Inl (plainError ''Only an unsigned Trust Archive 0.2 manifest can be signed.'')
     else if sg_algorithm signer \<noteq> ''Ed25519'' then Inl (plainError ''Unsupported archive signature algorithm.'')
     else if \<not> validKeyId (JStr (sg_keyId signer)) then Inl (plainError ''Archive signature key ID is invalid.'')
     else
       (let manifest = unsigned\<lparr>tm_formatVersion := ''0.3'', tm_signatureProfile := ManifestSignature (sg_keyId signer)\<rparr> in
        seqR (manifestText manifest) (\<lambda>t.
        let manifestBytes = utf8 t;
            entries1 = AList.update ''manifest.json'' manifestBytes entries;
            checksumBytes = checksumFile sha loc entries1;
            entries2 = AList.update checksumPath checksumBytes entries1 in
        seqR (sg_signManifest signer (signaturePayload sha manifestBytes checksumBytes)) (\<lambda>signature.
        if length signature = 0 then Inl (plainError ''Archive signer returned an empty signature.'')
        else seqR (canonicalJson (artifactJson (sg_keyId signer) (sc_toBase64 sc signature))) (\<lambda>artifact.
          Inr (AList.update manifestSignaturePath (utf8 (artifact @ [CHR 0x0A])) entries2, manifest))))))"

definition base64Char :: "char \<Rightarrow> bool" where
  "base64Char c \<longleftrightarrow> letter c \<or> is_digit c \<or> c = CHR ''+'' \<or> c = CHR ''/''"

text \<open>The pattern of padded base64 text, whose length is a multiple of four.\<close>

definition base64Text :: "string \<Rightarrow> bool" where
  "base64Text s \<longleftrightarrow> list_all base64Char s
     \<or> (\<exists>k \<in> {1, 2}. drop (length s - k) s = replicate k (CHR ''='') \<and> length s \<ge> k \<and> list_all base64Char (take (length s - k) s))"

definition decodeBase64 :: "signatureCodec \<Rightarrow> string \<Rightarrow> bytes option" where
  "decodeBase64 sc v =
     (if length v = 0 \<or> length v mod 4 \<noteq> 0 \<or> \<not> base64Text v then None
      else if sc_toBase64 sc (sc_fromBase64 sc v) = v then Some (sc_fromBase64 sc v) else None)"

definition signatureIssue :: "string \<Rightarrow> string \<Rightarrow> archiveIssue" where
  "signatureIssue code message = issueAt code message manifestSignaturePath"

text \<open>The artifact's key and signature, when it has exactly the members of the profile.\<close>

definition readSignatureArtifact :: "codec \<Rightarrow> bytes \<Rightarrow> (string \<times> string) option" where
  "readSignatureArtifact cd bytes = (case cd_decode cd bytes of
     None \<Rightarrow> None
   | Some t \<Rightarrow> (case cd_parse cd t of
       Some (JObj v) \<Rightarrow>
         if join '','' (List.sort (map fst v)) = ''algorithm,keyId,profile,signature,signatureEncoding,signedEntries''
            \<and> getProp v ''profile'' = JStr ''trust-core-manifest-signature-v1'' \<and> getProp v ''algorithm'' = JStr ''Ed25519''
            \<and> validKeyId (getProp v ''keyId'') \<and> getProp v ''signedEntries'' = JArr [JStr ''manifest.json'', JStr checksumPath]
            \<and> getProp v ''signatureEncoding'' = JStr ''base64''
         then (case (getProp v ''keyId'', getProp v ''signature'') of (JStr k, JStr s) \<Rightarrow> Some (k, s) | _ \<Rightarrow> None)
         else None
     | _ \<Rightarrow> None))"

definition verifyManifestSignature ::
  "codec \<Rightarrow> signatureCodec \<Rightarrow> (string \<Rightarrow> bytes \<Rightarrow> bytes \<Rightarrow> js_error + signatureVerdict) \<Rightarrow> entries \<Rightarrow> (string \<times> json) list
     \<Rightarrow> js_error + archiveIssue list" where
  "verifyManifestSignature cd sc verifyManifest entries m =
     (let profile = getProp m ''signatureProfile'' in
      if profile = JStr ''unsigned'' then
        Inr (if map_of entries manifestSignaturePath \<noteq> None
          then [signatureIssue ''ARCHIVE_SIGNATURE_UNEXPECTED'' ''Unsigned archive contains a manifest signature artifact.''] else [])
      else if memberOf profile ''name'' \<noteq> JStr ''trust-core-manifest-signature-v1'' \<or> memberOf profile ''algorithm'' \<noteq> JStr ''Ed25519''
      then Inr [signatureIssue ''ARCHIVE_SIGNATURE_PROFILE_UNKNOWN'' ''Archive signature profile or algorithm is not supported.'']
      else (case map_of entries manifestSignaturePath of
        None \<Rightarrow> Inr [signatureIssue ''ARCHIVE_SIGNATURE_MISSING'' ''Signed archive is missing its manifest signature artifact.'']
      | Some artifactBytes \<Rightarrow> (case readSignatureArtifact cd artifactBytes of
          None \<Rightarrow> Inr [signatureIssue ''ARCHIVE_SIGNATURE_ARTIFACT_INVALID'' ''Manifest signature artifact is invalid.'']
        | Some (keyId, signature) \<Rightarrow>
            if memberOf profile ''keyId'' \<noteq> JStr keyId
            then Inr [signatureIssue ''ARCHIVE_SIGNATURE_PROFILE_MISMATCH'' ''Signature artifact does not match the manifest signature profile.'']
            else (case (map_of entries ''manifest.json'', map_of entries checksumPath) of
              (Some manifestBytes, Some checksumBytes) \<Rightarrow>
                (case decodeBase64 sc signature of
                   None \<Rightarrow> Inr [signatureIssue ''ARCHIVE_SIGNATURE_ARTIFACT_INVALID'' ''Manifest signature is not canonical base64.'']
                 | Some s \<Rightarrow> seqR (verifyManifest keyId (signaturePayload (cd_sha cd) manifestBytes checksumBytes) s) (\<lambda>verdict.
                     Inr (case verdict of
                         SignatureUnknownKey \<Rightarrow> [signatureIssue ''ARCHIVE_SIGNATURE_KEY_UNKNOWN'' ''Manifest signature key is not available.'']
                       | SignatureInvalid \<Rightarrow> [signatureIssue ''ARCHIVE_SIGNATURE_INVALID'' ''Manifest signature verification failed.'']
                       | SignatureValid \<Rightarrow> [])))
            | _ \<Rightarrow> Inr []))))"

definition verifyArchiveEntriesWithSignatures ::
  "codec \<Rightarrow> signatureCodec \<Rightarrow> (string \<Rightarrow> bytes \<Rightarrow> bytes \<Rightarrow> js_error + signatureVerdict) \<Rightarrow> entries \<Rightarrow> verificationLimits
     \<Rightarrow> js_error + archiveReport" where
  "verifyArchiveEntriesWithSignatures cd sc verifyManifest entries limits =
     seqR (verifyArchiveEntriesBase cd entries limits True) (\<lambda>report.
     seqR (case rp_manifest report of
         Some m \<Rightarrow> if getProp m ''signatureProfile'' \<noteq> JStr ''unsigned'' then verifyManifestSignature cd sc verifyManifest entries m else Inr []
       | None \<Rightarrow> Inr []) (\<lambda>more.
     let issues = rp_issues report @ more in
     Inr (report\<lparr>rp_issues := issues, rp_valid := (length issues = 0)\<rparr>)))"


section \<open>The container\<close>

text \<open>
  What the ZIP reader gives for an entry of the directory: its header, and its data, which may fail
  to decompress. The reader and the writer are parameters.
\<close>

record zipEntry =
  ze_filename :: string
  ze_directory :: bool
  ze_encrypted :: bool
  ze_unixMode :: "int option"
  ze_unixExternalUpper :: "int option"
  ze_compressionMethod :: int
  ze_compressedSize :: int
  ze_uncompressedSize :: int
  ze_data :: "js_error + bytes"

record containerLimits =
  cl_maxContainerBytes :: int
  cl_maxEntries :: int
  cl_maxEntryBytes :: int
  cl_maxTotalBytes :: int
  cl_maxCompressionRatio :: int

definition defaultLimits :: containerLimits where
  "defaultLimits = \<lparr>cl_maxContainerBytes = 10 * 1024 * 1024 * 1024, cl_maxEntries = 100000, cl_maxEntryBytes = 2 * 1024 * 1024 * 1024,
     cl_maxTotalBytes = 20 * 1024 * 1024 * 1024, cl_maxCompressionRatio = 200\<rparr>"

definition containerError :: "string \<Rightarrow> string \<Rightarrow> js_error" where
  "containerError code message = JsError ''ArchiveContainerError'' (Some code) message"

text \<open>The type bits of the Unix mode say symbolic link: \<open>(mode & 0o170000) === 0o120000\<close>.\<close>

definition isSymbolicLink :: "zipEntry \<Rightarrow> bool" where
  "isSymbolicLink e = (case (ze_unixMode e, ze_unixExternalUpper e) of
     (Some mode, _) \<Rightarrow> take_bit 4 (drop_bit 12 mode) = 10
   | (None, Some mode) \<Rightarrow> take_bit 4 (drop_bit 12 mode) = 10
   | _ \<Rightarrow> False)"

definition ratioExceeded :: "containerLimits \<Rightarrow> zipEntry \<Rightarrow> bool" where
  "ratioExceeded limits e =
     (if ze_uncompressedSize e = 0 then 1 > cl_maxCompressionRatio limits
      else if ze_compressedSize e = 0 then True
      else ze_uncompressedSize e > cl_maxCompressionRatio limits * ze_compressedSize e)"

fun validateEntries :: "containerLimits \<Rightarrow> string list \<Rightarrow> int \<Rightarrow> zipEntry list \<Rightarrow> js_error + unit" where
  "validateEntries limits paths sofar [] = Inr ()"
| "validateEntries limits paths sofar (e # es) =
     (if ze_directory e then Inl (containerError ''ARCHIVE_DIRECTORY_ENTRY_DENIED'' ''Explicit directory entries are not permitted.'')
      else if \<not> isOk (assertSafeArchivePath (ze_filename e)) then Inl (containerError ''ARCHIVE_PATH_UNSAFE'' ''Archive path is unsafe.'')
      else if ze_filename e \<in> set paths then Inl (containerError ''ARCHIVE_PATH_DUPLICATE'' ''Archive path is duplicated.'')
      else if ze_encrypted e then Inl (containerError ''ARCHIVE_ENCRYPTION_UNSUPPORTED'' ''Encrypted archive entries are not supported.'')
      else if isSymbolicLink e then Inl (containerError ''ARCHIVE_LINK_DENIED'' ''Symbolic links are not permitted in Trust Archives.'')
      else if ze_compressionMethod e \<noteq> 0 \<and> ze_compressionMethod e \<noteq> 8
      then Inl (containerError ''ARCHIVE_COMPRESSION_UNSUPPORTED'' ''Archive compression method is not supported.'')
      else if ze_uncompressedSize e > cl_maxEntryBytes limits
      then Inl (containerError ''ARCHIVE_ENTRY_TOO_LARGE'' ''Archive entry exceeds its size limit.'')
      else if sofar + ze_uncompressedSize e > cl_maxTotalBytes limits
      then Inl (containerError ''ARCHIVE_TOTAL_TOO_LARGE'' ''Archive exceeds its total uncompressed size limit.'')
      else if ratioExceeded limits e
      then Inl (containerError ''ARCHIVE_COMPRESSION_RATIO_EXCEEDED'' ''Archive entry exceeds the permitted compression ratio.'')
      else validateEntries limits (ze_filename e # paths) (sofar + ze_uncompressedSize e) es)"

definition validateDirectory :: "zipEntry list \<Rightarrow> containerLimits \<Rightarrow> js_error + unit" where
  "validateDirectory es limits =
     (if int (length es) > cl_maxEntries limits then Inl (containerError ''ARCHIVE_ENTRY_LIMIT'' ''Archive contains too many entries.'')
      else validateEntries limits [] 0 es)"

definition extractEntry :: "entries \<Rightarrow> zipEntry \<Rightarrow> js_error + entries" where
  "extractEntry extracted e =
     (if ze_directory e then Inr extracted
      else seqR (ze_data e) (\<lambda>body.
        if int (length body) \<noteq> ze_uncompressedSize e
        then Inl (containerError ''ARCHIVE_ENTRY_SIZE_INVALID'' ''Extracted entry size does not match its directory metadata.'')
        else Inr (AList.update (ze_filename e) body extracted)))"

text \<open>Errors that are not the container's own are replaced.\<close>

definition normalizeError :: "js_error + 'a \<Rightarrow> js_error + 'a" where
  "normalizeError r = (case r of
     Inl e \<Rightarrow> Inl (if err_name e = ''ArchiveContainerError'' then e
       else containerError ''ARCHIVE_CONTAINER_INVALID'' ''Archive container is corrupt, ambiguous or unsupported.'')
   | Inr x \<Rightarrow> Inr x)"

definition readTrustArchive ::
  "codec \<Rightarrow> signatureCodec \<Rightarrow> (bytes \<Rightarrow> js_error + zipEntry list)
     \<Rightarrow> (string \<Rightarrow> bytes \<Rightarrow> bytes \<Rightarrow> js_error + signatureVerdict) option \<Rightarrow> containerLimits \<Rightarrow> bytes
     \<Rightarrow> js_error + (entries \<times> (string \<times> json) list \<times> archiveReport)" where
  "readTrustArchive cd sc unzip signatureVerifier limits bytes =
     (if int (length bytes) > cl_maxContainerBytes limits
      then Inl (containerError ''ARCHIVE_CONTAINER_TOO_LARGE'' ''Archive container exceeds its size limit.'')
      else normalizeError (
        seqR (unzip bytes) (\<lambda>es.
        seqR (validateDirectory es limits) (\<lambda>_.
        seqR (foldR extractEntry [] es) (\<lambda>extracted.
        let verificationLimits = \<lparr>vl_maxEntries = cl_maxEntries limits, vl_maxEntryBytes = cl_maxEntryBytes limits,
              vl_maxTotalBytes = cl_maxTotalBytes limits\<rparr> in
        seqR (case signatureVerifier of
            Some verifyManifest \<Rightarrow> verifyArchiveEntriesWithSignatures cd sc verifyManifest extracted verificationLimits
          | None \<Rightarrow> verifyArchiveEntries cd extracted verificationLimits) (\<lambda>report.
        case rp_manifest report of
          None \<Rightarrow> Inl (containerError ''ARCHIVE_MANIFEST_INVALID'' ''Archive manifest could not be verified.'')
        | Some m \<Rightarrow> Inr (extracted, m, report)))))))"

text \<open>The entries in the order of their paths, with the time of the manifest, not before 1980.\<close>

definition validZipTimestamp :: "(string \<Rightarrow> int option) \<Rightarrow> string \<Rightarrow> js_error + int" where
  "validZipTimestamp dp v = (case dp v of
     None \<Rightarrow> Inl (plainError ''Archive creation time is invalid.'')
   | Some t \<Rightarrow> Inr (if t < 315532800000 then 315532800000 else t))"

definition writeTrustArchive ::
  "string comparator \<Rightarrow> (string \<Rightarrow> int option) \<Rightarrow> (int \<Rightarrow> entries \<Rightarrow> js_error + bytes) \<Rightarrow> entries \<times> trustArchiveManifest
     \<Rightarrow> js_error + bytes" where
  "writeTrustArchive loc dp zipWriter = (\<lambda>(entries, manifest).
     seqR (validZipTimestamp dp (tm_createdAt manifest)) (\<lambda>timestamp.
     let ordered = Sorting_Algorithms.sort (Comparator.key fst loc) entries in
     seqR (mapR (\<lambda>(path, _). assertSafeArchivePath path) ordered) (\<lambda>_. zipWriter timestamp ordered)))"

end
