(* ===== verification/ArchiveVerified.thy ===== *)
theory ArchiveVerified
  imports Archive
begin

text \<open>
  What the verification of an archive shows: the checksum file fixes every entry outside the
  signatures, a valid signature fixes the checksum file, a verified audit lineage is one chain, and
  an assembled archive verifies and gives its records back.
\<close>

section \<open>The checksum file\<close>

lemma base_ok:
  assumes "verifyArchiveEntriesBase cd entries limits d = Inr report"
  obtains readIssues checksums manifestIssues recordIssues scopes blobs where
    "readChecksums (cd_decode cd) entries = (readIssues, checksums)"
    "readManifest (cd_decode cd) (cd_parse cd) entries = (manifestIssues, rp_manifest report)"
    "readKinds (readRecords (cd_decode cd) (cd_parse cd) (rp_manifest report) entries) archiveRecordKinds = Inr (recordIssues, rp_records report)"
    "validateScopeAndReferences (rp_manifest report) (rp_records report) = Inr scopes"
    "validateBlobs (cd_sha cd) (rp_manifest report) (recordsOf (rp_records report) KBlobs) entries = Inr blobs"
    "rp_issues report = sizeIssues limits entries @ readIssues @ checksumIssues (cd_sha cd) entries checksums @ manifestIssues
       @ profileIssues d (rp_manifest report) entries @ recordIssues @ scopes
       @ validateAuditLineage (cd_str cd) (rp_manifest report) (recordsOf (rp_records report) KAuditEvents) @ blobs"
    "rp_valid report \<longleftrightarrow> rp_issues report = []" "rp_checkedEntries report = length checksums"
  using assms that unfolding verifyArchiveEntriesBase_def
  by (auto simp: seqR_eq_Inr Let_def split: prod.splits)

definition signatureEntry :: "string \<Rightarrow> bool" where
  "signatureEntry path \<longleftrightarrow> startsWith path ''signatures/''"

lemma checksums_cover:
  assumes "checksumIssues sha entries checksums = []" and "path \<noteq> checksumPath" and "\<not> signatureEntry path"
  shows "map_of entries path = Some b \<Longrightarrow> map_of checksums path = Some (sha b)"
    and "map_of checksums path = Some h \<Longrightarrow> \<exists>b. map_of entries path = Some b \<and> sha b = h"
proof -
  have listed: "map_of checksums path \<noteq> None" if "map_of entries path = Some b" for b
    using assms that map_of_SomeD [OF that] by (fastforce simp: checksumIssues_def signatureEntry_def split: if_splits)
  have right: "\<exists>b. map_of entries path = Some b \<and> sha b = h" if "map_of checksums path = Some h" for h
    using assms(1) map_of_SomeD [OF that] by (fastforce simp: checksumIssues_def split: option.splits if_splits)
  show "map_of checksums path = Some h \<Longrightarrow> \<exists>b. map_of entries path = Some b \<and> sha b = h" by (rule right)
  assume b: "map_of entries path = Some b"
  with listed obtain h where h: "map_of checksums path = Some h" by blast
  with right [OF h] b show "map_of checksums path = Some (sha b)" by auto
qed

text \<open>Two entries of the archives that differ and have the same digest.\<close>

definition collides :: "(bytes \<Rightarrow> string) \<Rightarrow> entries \<Rightarrow> entries \<Rightarrow> bool" where
  "collides sha es fs \<longleftrightarrow> (\<exists>b \<in> snd ` set es. \<exists>c \<in> snd ` set fs. b \<noteq> c \<and> sha b = sha c)"

lemma collidesI: "map_of es p = Some b \<Longrightarrow> map_of fs q = Some c \<Longrightarrow> b \<noteq> c \<Longrightarrow> sha b = sha c \<Longrightarrow> collides sha es fs"
proof -
  assume "map_of es p = Some b" "map_of fs q = Some c" and bc: "b \<noteq> c" "sha b = sha c"
  then have "(p, b) \<in> set es" "(q, c) \<in> set fs" by (auto dest: map_of_SomeD)
  then have "b \<in> snd ` set es" "c \<in> snd ` set fs" by force+
  with bc show ?thesis unfolding collides_def by blast
qed

lemma same_checksums:
  assumes "checksumIssues sha es checksums = []" "checksumIssues sha fs checksums = []" and "\<not> collides sha es fs"
    and "path \<noteq> checksumPath" "\<not> signatureEntry path"
  shows "map_of es path = map_of fs path"
proof (cases "map_of checksums path")
  case None
  then show ?thesis using checksums_cover(1) [OF assms(1,4,5)] checksums_cover(1) [OF assms(2,4,5)]
    by (metis not_Some_eq option.distinct(1))
next
  case (Some h)
  then obtain b c where "map_of es path = Some b" "sha b = h" "map_of fs path = Some c" "sha c = h"
    using checksums_cover(2) [OF assms(1,4,5)] checksums_cover(2) [OF assms(2,4,5)] by blast
  then show ?thesis using assms(3) collidesI by metis
qed

definition pathOk :: "string \<Rightarrow> bool" where
  "pathOk path \<longleftrightarrow> isOk (assertSafeArchivePath path) \<and> \<not> js_space (last path)"

lemma safe_path:
  assumes "isOk (assertSafeArchivePath path)"
  shows "path \<noteq> []" "CHR 0x0A \<notin> set path" "CHR 0x0D \<notin> set path"
proof -
  have "\<not> list_ex controlChar path" "path \<noteq> []"
    using assms by (auto simp: assertSafeArchivePath_def split: if_splits)
  then show "path \<noteq> []" "CHR 0x0A \<notin> set path" "CHR 0x0D \<notin> set path"
    by (auto simp: list_ex_iff controlChar_def)
qed

lemma lower_hex_no_newline: "isSha256 d \<Longrightarrow> CHR 0x0A \<notin> set d"
  by (auto simp: isSha256_def list_all_iff lower_hex_def)

lemma matchChecksum_line:
  "isSha256 (sha b) \<Longrightarrow> isOk (assertSafeArchivePath p) \<Longrightarrow> matchChecksum (checksumLine sha (p, b)) = Some (sha b, p)"
  using safe_path [of p] by (auto simp: matchChecksum_def checksumLine_def isSha256_def Let_def)

lemma checksumLine_no_newline:
  "isSha256 (sha b) \<Longrightarrow> isOk (assertSafeArchivePath p) \<Longrightarrow> CHR 0x0A \<notin> set (checksumLine sha (p, b))"
  using safe_path [of p] lower_hex_no_newline [of "sha b"] by (auto simp: checksumLine_def)

lemma update_fresh: "k \<notin> fst ` set xs \<Longrightarrow> AList.update k v xs = xs @ [(k, v)]"
  by (induction xs) auto

lemma checksumEntries_lines:
  assumes "\<And>b. isSha256 (sha b)" and "distinct (map fst acc @ map fst es)" and "\<forall>p \<in> fst ` set es. isOk (assertSafeArchivePath p)"
  shows "checksumEntries acc (map (checksumLine sha) es) = ([], acc @ map (\<lambda>(p, b). (p, sha b)) es)"
  using assms(2,3)
proof (induction es arbitrary: acc)
  case (Cons e es)
  obtain p b where e: "e = (p, b)" by fastforce
  have "p \<notin> fst ` set acc" using Cons.prems(1) e by auto
  then have "checksumEntry acc (checksumLine sha e) = ([], acc @ [(p, sha b)])"
    using Cons.prems(2) matchChecksum_line [of sha b p] assms(1) e by (auto simp: checksumEntry_def update_fresh map_of_eq_None_iff)
  moreover have "checksumEntries (acc @ [(p, sha b)]) (map (checksumLine sha) es) = ([], (acc @ [(p, sha b)]) @ map (\<lambda>(p, b). (p, sha b)) es)"
    using Cons.prems e by (intro Cons.IH) auto
  ultimately show ?case by (simp add: e)
qed simp

lemma trimEnd_newline: "s \<noteq> [] \<Longrightarrow> \<not> js_space (last s) \<Longrightarrow> trimEnd (s @ [CHR 0x0A]) = s"
proof -
  assume s: "s \<noteq> []" "\<not> js_space (last s)"
  then obtain c t where "s = t @ [c]" by (metis append_butlast_last_id)
  moreover have "js_space (CHR 0x0A)" by (simp add: js_space_def)
  ultimately show ?thesis using s(2) by (simp add: trimEnd_def)
qed

lemma last_join: "ls \<noteq> [] \<Longrightarrow> last ls \<noteq> [] \<Longrightarrow> join sep ls \<noteq> [] \<and> last (join sep ls) = last (last ls)"
  by (induction sep ls rule: join.induct) auto

lemma sort_keeps:
  shows "set (Sorting_Algorithms.sort c es) = set es"
    and "distinct (map f (Sorting_Algorithms.sort c es)) \<longleftrightarrow> distinct (map f es)"
proof -
  have "mset (Sorting_Algorithms.sort c es) = mset es" by simp
  then show "set (Sorting_Algorithms.sort c es) = set es" by (rule mset_eq_setD)
  have "mset (map f (Sorting_Algorithms.sort c es)) = mset (map f es)" by simp
  then show "distinct (map f (Sorting_Algorithms.sort c es)) \<longleftrightarrow> distinct (map f es)" by (rule mset_eq_imp_distinct_iff)
qed

text \<open>The paths of assembled entries before the checksum file is added.\<close>

definition plainPath :: "string \<Rightarrow> bool" where
  "plainPath p \<longleftrightarrow> pathOk p \<and> \<not> signatureEntry p \<and> p \<noteq> checksumPath"

definition plainEntries :: "entries \<Rightarrow> bool" where
  "plainEntries es \<longleftrightarrow> distinct (map fst es) \<and> (\<forall>p \<in> fst ` set es. plainPath p)"

lemma addEntry_Inr:
  "addEntry es p b = Inr fs \<longleftrightarrow> isOk (assertSafeArchivePath p) \<and> p \<notin> fst ` set es \<and> fs = es @ [(p, b)]"
  by (auto simp: addEntry_def seqR_eq_Inr map_of_eq_None_iff isOk_def split: sum.splits)

lemma addEntry_plain:
  assumes "addEntry es p b = Inr fs" "plainEntries es" "\<not> js_space (last p)" "\<not> signatureEntry p" "p \<noteq> checksumPath"
  shows "plainEntries fs"
  using assms by (auto simp: addEntry_Inr plainEntries_def plainPath_def pathOk_def)

lemma foldR_invariant:
  assumes "\<And>s x t. x \<in> set xs \<Longrightarrow> P s \<Longrightarrow> f s x = Inr t \<Longrightarrow> P t" and "P s" and "foldR f s xs = Inr t"
  shows "P t"
  using assms
proof (induction xs arbitrary: s)
  case (Cons x xs)
  then obtain u where u: "f s x = Inr u" "foldR f u xs = Inr t" by (auto simp: seqR_eq_Inr)
  have "P u" by (rule Cons.prems(1) [OF _ Cons.prems(2) u(1)]) simp
  then show ?case by (rule Cons.IH [OF _ _ u(2), rotated]) (auto intro: Cons.prems(1))
qed simp

lemma lower_hex_not_space: "lower_hex c \<Longrightarrow> \<not> js_space c"
  by (auto simp: lower_hex_def js_space_def Let_def)

lemma addBlob_plain: "addBlob sha es blob = Inr fs \<Longrightarrow> plainEntries es \<Longrightarrow> plainEntries fs"
proof -
  assume add: "addBlob sha es blob = Inr fs" and es: "plainEntries es"
  let ?d = "ab_sha256 blob"
  have d: "isSha256 ?d" "addEntry es (''blobs/'' @ take 2 ?d @ ''/'' @ ?d) (ab_bytes blob) = Inr fs"
    using add by (auto simp: addBlob_def blobArchivePath_def seqR_eq_Inr split: if_splits)
  then have ne: "?d \<noteq> []" by (auto simp: isSha256_def)
  then have "\<not> js_space (last ?d)" using d(1) last_in_set [OF ne] by (simp add: isSha256_def list_all_iff lower_hex_not_space)
  with ne show ?thesis using addEntry_plain [OF d(2) es] by (simp add: signatureEntry_def startsWith_def)
qed

lemma addRecords_plain: "addRecords loc records es kind = Inr fs \<Longrightarrow> plainEntries es \<Longrightarrow> plainEntries fs"
  using addEntry_plain by (fastforce simp: addRecords_def recordPath_def seqR_eq_Inr signatureEntry_def startsWith_def js_space_def split: if_splits)

lemma assembled_entries:
  assumes "assembleArchiveEntries sha loc source = Inr (fs, mf)"
  obtains es where "plainEntries es" "''manifest.json'' \<in> fst ` set es" "fs = es @ [(checksumPath, utf8 (checksumText sha loc es))]"
    "mf = manifestOf source"
proof -
  obtain e1 e2 t e3 e4 where steps: "foldR (addBlob sha) [] (Sorting_Algorithms.sort (Comparator.key ab_sha256 loc) (so_blobs source)) = Inr e1"
    "foldR (addRecords loc (so_records source)) e1 archiveRecordKinds = Inr e2" "addEntry e2 ''manifest.json'' (utf8 t) = Inr e3"
    "addEntry e3 ''README.txt'' (utf8 readmeText) = Inr e4" "addEntry e4 checksumPath (utf8 (checksumText sha loc e4)) = Inr fs"
    "mf = manifestOf source"
    using assms by (auto simp: assembleArchiveEntries_def seqR_eq_Inr)
  have "plainEntries []" by (simp add: plainEntries_def)
  then have "plainEntries e1" by (rule foldR_invariant [OF _ _ steps(1), rotated]) (rule addBlob_plain)
  then have "plainEntries e2" by (rule foldR_invariant [OF _ _ steps(2), rotated]) (rule addRecords_plain)
  then have "plainEntries e3" using addEntry_plain [OF steps(3)] by (simp add: signatureEntry_def startsWith_def js_space_def)
  then have "plainEntries e4" using addEntry_plain [OF steps(4)] by (simp add: signatureEntry_def startsWith_def js_space_def)
  moreover have "''manifest.json'' \<in> fst ` set e4" using steps(3,4) by (auto simp: addEntry_Inr)
  moreover have "fs = e4 @ [(checksumPath, utf8 (checksumText sha loc e4))]" using steps(5) by (simp only: addEntry_Inr)
  ultimately show thesis using that steps(6) by blast
qed

abbreviation checksummed :: "string \<times> bytes \<Rightarrow> bool" where
  "checksummed \<equiv> \<lambda>(path, _). path \<noteq> checksumPath \<and> \<not> startsWith path ''signatures/''"

lemma own_checksums:
  assumes "distinct (map fst entries)"
  shows "checksumIssues sha entries (map (\<lambda>(p, b). (p, sha b)) (Sorting_Algorithms.sort c (filter checksummed entries))) = []"
    (is "checksumIssues sha entries (map ?d ?es) = []")
proof -
  have es: "set ?es = set (filter checksummed entries)" by (rule sort_keeps)
  have "map_of entries p = Some b" if "(p, b) \<in> set ?es" for p b
    using that assms unfolding es by simp
  moreover have "map_of (map ?d ?es) p \<noteq> None" if "(p, b) \<in> set ?es" for p b
  proof -
    have "(p, sha b) \<in> set (map ?d ?es)" using imageI [OF that, of ?d] by simp
    then show ?thesis using weak_map_of_SomeI by fastforce
  qed
  ultimately show ?thesis using es by (fastforce simp: checksumIssues_def split: option.splits)
qed

lemma filter_update: "\<not> P (k, v) \<Longrightarrow> (\<And>w. \<not> P (k, w)) \<Longrightarrow> filter P (AList.update k v es) = filter P es"
  by (induction es) auto

lemma checksummed_update:
  "filter checksummed (AList.update checksumPath v es) = filter checksummed es"
  "filter checksummed (AList.update manifestSignaturePath v es) = filter checksummed es"
  by (rule filter_update; simp add: startsWith_def)+

lemma plain_checksummed: "plainEntries es \<Longrightarrow> filter checksummed es = es"
  by (force simp: plainEntries_def plainPath_def signatureEntry_def filter_id_conv)

lemma signed_entries:
  assumes "signArchiveEntries sha loc sc signer (es, mf) = Inr (fs, mf')"
  obtains manifestBytes artifact where
    "fs = AList.update manifestSignaturePath artifact (AList.update checksumPath
       (checksumFile sha loc (AList.update ''manifest.json'' manifestBytes es)) (AList.update ''manifest.json'' manifestBytes es))"
    "mf' = mf\<lparr>tm_formatVersion := ''0.3'', tm_signatureProfile := ManifestSignature (sg_keyId signer)\<rparr>"
  using assms that by (auto simp: signArchiveEntries_def seqR_eq_Inr Let_def split: if_splits)

locale text_codec =
  fixes decode :: "bytes \<Rightarrow> string option" and parse :: "string \<Rightarrow> json option"
  assumes decode_utf8: "decode (utf8 t) = Some t"
    and parse_print: "canonicalJson v = Inr t \<Longrightarrow> wellKeyed v \<Longrightarrow> list_all isWs ws \<Longrightarrow> parse (t @ ws) = Some (normJson v)"
begin

lemma readChecksums_text:
  assumes sha: "\<And>b. isSha256 (sha b)" and es: "es \<noteq> []" "distinct (map fst es)" "\<forall>p \<in> fst ` set es. pathOk p"
    and stored: "map_of entries checksumPath = Some (utf8 (checksumText sha loc es))"
  shows "readChecksums decode entries = ([], map (\<lambda>(p, b). (p, sha b)) (Sorting_Algorithms.sort (Comparator.key fst loc) es))"
proof -
  let ?fs = "Sorting_Algorithms.sort (Comparator.key fst loc) es"
  have fs: "?fs \<noteq> []" "distinct (map fst ?fs)" "\<forall>p \<in> fst ` set ?fs. pathOk p"
    using es sort_keeps(2) [where f = fst and c = "Comparator.key fst loc" and es = es] sort_keeps(1) [of "Comparator.key fst loc" es]
    by (auto simp flip: set_empty2)
  define lines where "lines = map (checksumLine sha) ?fs"
  have "CHR 0x0A \<notin> set l" if "l \<in> set lines" for l
    using that fs(3) checksumLine_no_newline [of sha] sha by (auto simp: lines_def pathOk_def)
  moreover have "lines \<noteq> []" using fs(1) by (simp add: lines_def)
  ultimately have pieces: "split_on (CHR 0x0A) (join [CHR 0x0A] lines) = lines" by (rule split_on_join [rotated])
  obtain p b where final: "last ?fs = (p, b)" by fastforce
  have "p \<in> fst ` set ?fs" using fs(1) final by (metis fst_conv image_eqI last_in_set)
  then have "p \<noteq> []" "\<not> js_space (last p)" using fs(3) safe_path(1) by (auto simp: pathOk_def)
  then have "last lines \<noteq> [] \<and> \<not> js_space (last (last lines))"
    using fs(1) final by (simp add: lines_def last_map checksumLine_def)
  then have "trimEnd (join [CHR 0x0A] lines @ [CHR 0x0A]) = join [CHR 0x0A] lines"
    using last_join [OF \<open>lines \<noteq> []\<close>, of "[CHR 0x0A]"] by (intro trimEnd_newline) auto
  moreover have "decode (utf8 (checksumText sha loc es)) = Some (join [CHR 0x0A] lines @ [CHR 0x0A])"
    unfolding checksumText_def lines_def by (rule decode_utf8)
  moreover have "checksumEntries [] lines = ([], map (\<lambda>(p, b). (p, sha b)) ?fs)"
    using checksumEntries_lines [where sha = sha and acc = "[]" and es = ?fs] sha fs(2,3) by (simp add: lines_def pathOk_def)
  ultimately show ?thesis by (simp add: readChecksums_def stored pieces)
qed

text \<open>The checksum file that signing writes lists the entries that the signed archive has.\<close>

lemma signed_reads:
  assumes sha: "\<And>b. isSha256 (sha b)" and made: "assembleArchiveEntries sha loc source = Inr (es, mf)"
    and signed: "signArchiveEntries sha loc sc signer (es, mf) = Inr (fs, mf')"
  shows "\<exists>checksums. readChecksums decode fs = ([], checksums) \<and> checksumIssues sha fs checksums = []"
proof -
  obtain plain where plain: "plainEntries plain" "''manifest.json'' \<in> fst ` set plain" "es = plain @ [(checksumPath, utf8 (checksumText sha loc plain))]"
    using assembled_entries [OF made] by metis
  obtain mb artifact where fs: "fs = AList.update manifestSignaturePath artifact (AList.update checksumPath
      (checksumFile sha loc (AList.update ''manifest.json'' mb es)) (AList.update ''manifest.json'' mb es))"
    using signed_entries [OF signed] by metis
  let ?es = "AList.update ''manifest.json'' mb es"
  let ?kept = "filter checksummed ?es"
  have "map fst ?es = map fst plain @ [checksumPath]"
    using plain(2,3) by (simp add: update_keys)
  then have keys: "distinct (map fst ?es)" "fst ` set ?es = insert checksumPath (fst ` set plain)"
    using plain(1) by (auto simp: plainEntries_def plainPath_def simp flip: set_map)
  have "distinct (map fst ?kept)" by (rule distinct_map_filter [OF keys(1)])
  moreover have "pathOk p" if "p \<in> fst ` set ?kept" for p
  proof -
    from that have "p \<in> fst ` set ?es" "p \<noteq> checksumPath" by auto
    then have "p \<in> fst ` set plain" unfolding keys(2) by simp
    then show ?thesis using plain(1) by (auto simp: plainEntries_def plainPath_def)
  qed
  moreover have "?kept \<noteq> []"
  proof -
    have "''manifest.json'' \<in> fst ` set ?es" using plain(2) keys(2) by simp
    then obtain b where "(''manifest.json'', b) \<in> set ?es" by auto
    moreover have "checksummed (''manifest.json'', b)" by (simp add: startsWith_def)
    ultimately have "(''manifest.json'', b) \<in> set ?kept" unfolding set_filter by (intro CollectI conjI)
    then show ?thesis by (rule contrapos_pn) simp
  qed
  ultimately have "readChecksums decode fs = ([], map (\<lambda>(p, b). (p, sha b)) (Sorting_Algorithms.sort (Comparator.key fst loc) ?kept))"
    using readChecksums_text [where sha = sha and loc = loc and es = ?kept and entries = fs] sha
    by (auto simp: fs update_conv checksumFile_def)
  moreover have "filter checksummed fs = ?kept" "distinct (map fst fs)"
    using keys(1) by (simp_all add: fs checksummed_update distinct_update)
  then have "checksumIssues sha fs (map (\<lambda>(p, b). (p, sha b)) (Sorting_Algorithms.sort (Comparator.key fst loc) ?kept)) = []"
    using own_checksums [of fs sha "Comparator.key fst loc"] by simp
  ultimately show ?thesis by (intro exI conjI)
qed

lemma signaturePayload_inj:
  assumes "signaturePayload sha m c = signaturePayload sha m' c'"
  shows "sha m = sha m' \<and> sha c = sha c'"
proof -
  let ?v = "\<lambda>m c. JObj [(''checksumsSha256'', JStr (sha c)), (''manifestSha256'', JStr (sha m)), (''profile'', JStr ''trust-core-manifest-signature-v1'')]"
  have printed: "canonicalJson (?v m c) = Inr (stringify (normJson (?v m c)))" for m c by (simp add: canonicalJson_eq del: canonicalJson.simps)
  have "parse (stringify (normJson (?v m c)) @ [CHR 0x0A]) = Some (normJson (?v m c))" for m c
    by (rule parse_print [OF printed]) (simp_all add: isWs_def)
  moreover have "stringify (normJson (?v m c)) @ [CHR 0x0A] = stringify (normJson (?v m' c')) @ [CHR 0x0A]"
    using assms decode_utf8 unfolding signaturePayload_def by (metis option.inject)
  ultimately have "normJson (?v m c) = normJson (?v m' c')" by (metis option.inject)
  then show ?thesis by simp
qed

end

interpretation jsText: text_codec decodeText parseJson
  by unfold_locales (auto simp: decodeText_utf8 intro: parse_canonicalJson)


section \<open>Signed archives\<close>

lemma verifyManifestSignature_ok:
  assumes "verifyManifestSignature cd sc verify entries m = Inr []" "getProp m ''signatureProfile'' \<noteq> JStr ''unsigned''"
    and "map_of entries ''manifest.json'' = Some mb" "map_of entries checksumPath = Some cb"
  shows "\<exists>k s. memberOf (getProp m ''signatureProfile'') ''keyId'' = JStr k
    \<and> verify k (signaturePayload (cd_sha cd) mb cb) s = Inr SignatureValid"
  using assms unfolding verifyManifestSignature_def
  by (auto simp: Let_def seqR_eq_Inr split: if_splits option.splits prod.splits signatureVerdict.split_asm)
    (use signatureVerdict.exhaust in blast)

lemma readChecksums_present: "readChecksums decode entries = ([], checksums) \<Longrightarrow> map_of entries checksumPath \<noteq> None"
  by (auto simp: readChecksums_def split: option.splits)

lemma readManifest_present: "readManifest decode parse entries = (issues, Some m) \<Longrightarrow> map_of entries ''manifest.json'' \<noteq> None"
  by (auto simp: readManifest_def split: option.splits)

lemma withSignatures_ok:
  assumes "verifyArchiveEntriesWithSignatures cd sc verify entries limits = Inr report"
  obtains base more where "verifyArchiveEntriesBase cd entries limits True = Inr base" "rp_manifest report = rp_manifest base"
    "rp_issues report = rp_issues base @ more" "rp_valid report \<longleftrightarrow> rp_issues report = []"
    "\<And>m. rp_manifest base = Some m \<Longrightarrow> getProp m ''signatureProfile'' \<noteq> JStr ''unsigned'' \<Longrightarrow> verifyManifestSignature cd sc verify entries m = Inr more"
proof -
  obtain base more where "verifyArchiveEntriesBase cd entries limits True = Inr base"
    "(case rp_manifest base of Some m \<Rightarrow>
        if getProp m ''signatureProfile'' \<noteq> JStr ''unsigned'' then verifyManifestSignature cd sc verify entries m else Inr []
      | None \<Rightarrow> Inr []) = Inr more"
    "report = base\<lparr>rp_issues := rp_issues base @ more, rp_valid := (length (rp_issues base @ more) = 0)\<rparr>"
    using assms unfolding verifyArchiveEntriesWithSignatures_def by (auto simp: seqR_eq_Inr Let_def)
  then show thesis by (intro that [of base more]) auto
qed

lemma accepted_signature:
  assumes "verifyArchiveEntriesWithSignatures cd sc verify entries limits = Inr report" "rp_valid report"
    and m: "rp_manifest report = Some m" "getProp m ''signatureProfile'' \<noteq> JStr ''unsigned''"
  obtains k mb cb s checksums where "memberOf (getProp m ''signatureProfile'') ''keyId'' = JStr k"
    "map_of entries ''manifest.json'' = Some mb" "map_of entries checksumPath = Some cb"
    "verify k (signaturePayload (cd_sha cd) mb cb) s = Inr SignatureValid"
    "readChecksums (cd_decode cd) entries = ([], checksums)" "checksumIssues (cd_sha cd) entries checksums = []"
proof -
  obtain base where base: "verifyArchiveEntriesBase cd entries limits True = Inr base"
    and same: "rp_manifest base = Some m" "rp_issues base = []" and signature: "verifyManifestSignature cd sc verify entries m = Inr []"
    using assms(1) by (rule withSignatures_ok) (use assms(2) m in auto)
  obtain manifestIssues checksums where read: "readChecksums (cd_decode cd) entries = ([], checksums)"
    "readManifest (cd_decode cd) (cd_parse cd) entries = (manifestIssues, Some m)" "checksumIssues (cd_sha cd) entries checksums = []"
    using base by (rule base_ok) (use same in auto)
  obtain mb cb where found: "map_of entries ''manifest.json'' = Some mb" "map_of entries checksumPath = Some cb"
    using readChecksums_present [OF read(1)] readManifest_present [OF read(2)] by blast
  show thesis using verifyManifestSignature_ok [OF signature m(2) found] that found read(1,3) by blast
qed

text \<open>The payload that signing an archive asks the signer to sign.\<close>

definition payloadOf :: "(bytes \<Rightarrow> string) \<Rightarrow> entries \<Rightarrow> bytes option" where
  "payloadOf sha fs = (case (map_of fs ''manifest.json'', map_of fs checksumPath) of
     (Some m, Some c) \<Rightarrow> Some (signaturePayload sha m c) | _ \<Rightarrow> None)"

definition signedWith ::
  "(bytes \<Rightarrow> string) \<Rightarrow> string comparator \<Rightarrow> signatureCodec \<Rightarrow> string \<Rightarrow> entries \<Rightarrow> bool" where
  "signedWith sha loc sc k fs \<longleftrightarrow> (\<exists>source archive signer manifest. assembleArchiveEntries sha loc source = Inr archive
     \<and> sg_keyId signer = k \<and> signArchiveEntries sha loc sc signer archive = Inr (fs, manifest))"

lemma signedWithE:
  assumes "signedWith sha loc sc k fs"
  obtains source es mf signer mf' where "assembleArchiveEntries sha loc source = Inr (es, mf)"
    "signArchiveEntries sha loc sc signer (es, mf) = Inr (fs, mf')"
  using assms unfolding signedWith_def by (metis surj_pair)

section \<open>The audit lineage\<close>

text \<open>
  The reference: the events, in some order, form one chain from an event without predecessor, each
  next event naming the hash of the one before it, and the manifest names its ends and its length.
\<close>

fun linked :: "json list \<Rightarrow> bool" where
  "linked (a # b # es) \<longleftrightarrow> memberOf b ''previousEventHash'' = memberOf a ''eventHash'' \<and> linked (b # es)"
| "linked _ \<longleftrightarrow> True"

definition hashed :: "json list \<Rightarrow> bool" where
  "hashed chain \<longleftrightarrow> (\<forall>e \<in> set chain. isSha256 (eventHashText e)) \<and> distinct (map eventHashText chain)"

definition sourceChain :: "(string \<times> json) list \<Rightarrow> json list \<Rightarrow> bool" where
  "sourceChain m events \<longleftrightarrow> (let lineage = getProp m ''auditLineage'' in
     memberOf lineage ''eventCount'' = JNum (int (length events)) \<and>
     (if events = [] then memberOf lineage ''firstEventHash'' = JNull \<and> memberOf lineage ''lastEventHash'' = JNull
      else (\<exists>chain. mset chain = mset events \<and> hashed chain \<and> linked chain \<and> isRoot (hd chain)
        \<and> memberOf lineage ''firstEventHash'' = memberOf (hd chain) ''eventHash''
        \<and> memberOf lineage ''lastEventHash'' = memberOf (last chain) ''eventHash'')))"

lemma sha_string: "isSha256 (eventHashText e) \<Longrightarrow> memberOf e ''eventHash'' = JStr (eventHashText e) \<and> eventHashText e \<noteq> []"
  by (auto simp: eventHashText_def isSha256_def split: json.splits)

lemma eventByHash_hashed:
  assumes "hashed events" "e \<in> set events"
  shows "eventByHash str events (eventHashText e) = Some e"
proof -
  let ?h = "\<lambda>e. case memberOf e ''eventHash'' of JStr s \<Rightarrow> s | v \<Rightarrow> str v"
  have h: "?h f = eventHashText f" if "f \<in> set events" for f
    using sha_string [of f] assms(1) that by (auto simp: hashed_def)
  have "inj_on eventHashText (set events)" using assms(1) by (simp add: hashed_def distinct_map)
  then have "f = e" if "f \<in> set (rev events)" "?h f = eventHashText e" for f
    using that assms(2) h by (auto dest: inj_onD)
  moreover have "?h e = eventHashText e" "e \<in> set (rev events)" using h assms(2) by auto
  ultimately show ?thesis unfolding eventByHash_def
    by (smt (verit) find_None_iff find_SomeD option.exhaust)
qed

lemma previousOf_hashed: "hashed events \<Longrightarrow> e \<in> set events \<Longrightarrow> previousOf str events (eventHashText e) = previousText e"
  by (simp add: previousOf_def eventByHash_hashed)

lemma linked_append: "linked (xs @ [a, b] @ ys) \<longleftrightarrow>
   linked (xs @ [a]) \<and> memberOf b ''previousEventHash'' = memberOf a ''eventHash'' \<and> linked (b # ys)"
  by (induction xs rule: linked.induct) auto

lemma hashed_perm: "mset chain = mset events \<Longrightarrow> hashed chain \<longleftrightarrow> hashed events"
proof -
  assume same: "mset chain = mset events"
  then have "mset (map eventHashText chain) = mset (map eventHashText events)" by simp
  then have "distinct (map eventHashText chain) \<longleftrightarrow> distinct (map eventHashText events)" by (rule mset_eq_imp_distinct_iff)
  then show ?thesis using mset_eq_setD [OF same] by (simp add: hashed_def)
qed

lemma isRoot_previous: "isRoot e \<Longrightarrow> previousText e = []"
  by (auto simp: isRoot_def previousText_def)

lemma linked_previous:
  assumes "linked chain" "hashed chain" "chain = xs @ [a, b] @ ys"
  shows "previousText b = eventHashText a" "previousText b \<noteq> []"
proof -
  have "memberOf b ''previousEventHash'' = memberOf a ''eventHash''" "isSha256 (eventHashText a)"
    using assms linked_append [of xs a b ys] by (auto simp: hashed_def)
  then show "previousText b = eventHashText a" "previousText b \<noteq> []"
    using sha_string [of a] by (auto simp: previousText_def)
qed

lemma root_first:
  assumes "linked chain" "hashed chain" "b \<in> set chain"
  shows "isRoot b \<longleftrightarrow> b = hd chain \<and> isRoot (hd chain)"
proof
  assume root: "isRoot b"
  obtain xs ys where chain: "chain = xs @ b # ys" using split_list [OF assms(3)] by blast
  show "b = hd chain \<and> isRoot (hd chain)"
  proof (cases xs rule: rev_cases)
    case (snoc us a)
    then show ?thesis using linked_previous(2) [OF assms(1,2), of us a b ys] chain isRoot_previous [OF root] by simp
  qed (use chain root in simp)
qed auto

lemma walk_chain:
  assumes chain: "mset chain = mset events" "hashed chain" "linked chain" "isRoot (hd chain)" and "chain = xs @ x # ys"
  shows "lineageWalk str events (map eventHashText ys) (eventHashText x) = map eventHashText chain"
  using assms(5)
proof (induction xs arbitrary: x ys rule: rev_induct)
  case Nil
  then have fresh: "eventHashText x \<notin> set (map eventHashText ys)" "eventHashText x \<noteq> []" "x \<in> set events" "hashed events"
    using chain(2) sha_string [of x] hashed_perm [OF chain(1)] by (auto simp: hashed_def simp flip: mset_eq_setD [OF chain(1)])
  then show ?case using Nil chain(4) by (simp add: lineageWalk.simps [of _ _ "map eventHashText ys"] previousOf_hashed isRoot_previous Let_def)
next
  case (snoc a xs)
  then have fresh: "eventHashText x \<notin> set (map eventHashText ys)" "eventHashText x \<noteq> []" "x \<in> set events" "hashed events"
    using chain(2) sha_string [of x] hashed_perm [OF chain(1)] by (auto simp: hashed_def simp flip: mset_eq_setD [OF chain(1)])
  have "previousText x = eventHashText a" "previousText x \<noteq> []"
    using linked_previous [OF chain(3,2), of xs a x ys] snoc.prems by simp_all
  moreover have "lineageWalk str events (map eventHashText (x # ys)) (eventHashText a) = map eventHashText chain"
    using snoc.prems by (intro snoc.IH) simp
  ultimately show ?case using fresh by (simp add: lineageWalk.simps [of _ _ "map eventHashText ys"] previousOf_hashed Let_def)
qed

lemma walk_links:
  assumes events: "hashed events" "set (references events) \<subseteq> set (map eventHashText events)"
    and "linked (x # ys)" "distinct (map eventHashText (x # ys))" "set (x # ys) \<subseteq> set events"
  shows "\<exists>zs. lineageWalk str events (map eventHashText ys) (eventHashText x) = map eventHashText zs
    \<and> linked zs \<and> distinct (map eventHashText zs) \<and> set zs \<subseteq> set events \<and> zs \<noteq> [] \<and> last zs = last (x # ys)"
    (is "\<exists>zs. ?walk x ys = _ \<and> ?ok x ys zs")
  using assms(3-5)
proof (induction "length events - length ys" arbitrary: x ys rule: less_induct)
  case less
  have "length (x # ys) \<le> length events"
  proof -
    have "distinct (x # ys)" using less.prems(2) by (simp only: distinct_map)
    then show ?thesis using card_mono [OF _ less.prems(3)] card_length [of events] distinct_card [of "x # ys"] by simp
  qed
  then have shorter: "length events - length (x # ys) < length events - length ys" by simp
  have x: "x \<in> set events" "eventHashText x \<noteq> []" using less.prems(3) events(1) sha_string [of x] by (auto simp: hashed_def)
  then have walk: "?walk x ys = (if previousText x = [] then map eventHashText (x # ys)
      else lineageWalk str events (map eventHashText (x # ys)) (previousText x))"
    using less.prems(2) by (simp add: lineageWalk.simps [of _ _ "map eventHashText ys"] previousOf_hashed [OF events(1)] Let_def)
  show ?case
  proof (cases "previousText x \<in> set (map eventHashText (x # ys)) \<or> previousText x = []")
    case True
    then have "?walk x ys = map eventHashText (x # ys)"
      unfolding walk by (auto simp: lineageWalk.simps [of _ _ "eventHashText x # map eventHashText ys"])
    then show ?thesis using less.prems by (intro exI [of _ "x # ys"]) simp
  next
    case False
    then have "previousText x \<in> set (references events)" using x by (auto simp: references_def)
    then obtain a where a: "a \<in> set events" "previousText x = eventHashText a" using events(2) by auto
    then have "memberOf x ''previousEventHash'' = memberOf a ''eventHash''"
      using sha_string [of a] events(1) False by (auto simp: hashed_def previousText_def split: json.splits)
    then have "linked (a # x # ys)" using less.prems(1) by simp
    moreover have "distinct (map eventHashText (a # x # ys))" "set (a # x # ys) \<subseteq> set events"
      using False a less.prems(2,3) by auto
    ultimately obtain zs where "?walk a (x # ys) = map eventHashText zs" "?ok a (x # ys) zs"
      using less.hyps [OF shorter] by blast
    then show ?thesis using walk False a by (intro exI [of _ zs]) simp
  qed
qed

lemma lineage_issues:
  assumes "events \<noteq> []"
  shows "validateAuditLineage str (Some m) events = [] \<longleftrightarrow>
    (let lineage = getProp m ''auditLineage''; hashes = map eventHashText events; roots = filter isRoot events;
         refs = references events; tails = filter (\<lambda>h. h \<notin> set refs) hashes in
     memberOf lineage ''eventCount'' = JNum (int (length events)) \<and> hashed events \<and> length roots = 1 \<and> length tails = 1
     \<and> strictEq (memberOf lineage ''firstEventHash'') (memberOf (hd roots) ''eventHash'') \<and> memberOf lineage ''lastEventHash'' = JStr (hd tails)
     \<and> set refs \<subseteq> set hashes \<and> distinct refs \<and> length (lineageWalk str events [] (hd tails)) = length events)"
  using assms by (auto simp: validateAuditLineage_def Let_def hashed_def list_ex_iff)

lemma lineage_sound:
  assumes "events \<noteq> []" "validateAuditLineage str (Some m) events = []"
  shows "sourceChain m events"
proof -
  let ?H = eventHashText and ?lineage = "getProp m ''auditLineage''"
  have count: "memberOf ?lineage ''eventCount'' = JNum (int (length events))" and events: "hashed events"
    "set (references events) \<subseteq> set (map ?H events)"
    using assms by (simp_all add: lineage_issues Let_def)
  obtain r where r: "filter isRoot events = [r]" "strictEq (memberOf ?lineage ''firstEventHash'') (memberOf r ''eventHash'')"
    using assms by (auto simp: lineage_issues Let_def length_Suc_conv)
  obtain t where t: "filter (\<lambda>h. h \<notin> set (references events)) (map ?H events) = [t]" "memberOf ?lineage ''lastEventHash'' = JStr t"
    "length (lineageWalk str events [] t) = length events"
    using assms by (auto simp: lineage_issues Let_def length_Suc_conv)
  have "t \<in> set (map ?H events)" using arg_cong [OF t(1), of set] by auto
  then obtain x where x: "x \<in> set events" "t = ?H x" by auto
  obtain zs where zs: "lineageWalk str events [] t = map ?H zs" "linked zs" "distinct (map ?H zs)" "set zs \<subseteq> set events" "zs \<noteq> []" "last zs = x"
    using walk_links [OF events, of x "[]" str] x by auto
  have "distinct events" "distinct zs" using events(1) zs(3) by (simp_all add: hashed_def distinct_map)
  moreover have "set zs = set events"
    using zs(1,4) t(3) calculation by (intro card_subset_eq) (simp_all add: distinct_card)
  ultimately have perm: "mset zs = mset events" by (simp add: set_eq_iff_mset_eq_distinct)
  then have hashed: "hashed zs" using events(1) hashed_perm [OF perm] by simp
  have "r \<in> set zs" "isRoot r" using r(1) \<open>set zs = set events\<close> by (auto simp: filter_eq_Cons_iff)
  then have root: "r = hd zs" "isRoot (hd zs)" using root_first [OF zs(2) hashed] by auto
  have "memberOf r ''eventHash'' = JStr (?H r)" "memberOf x ''eventHash'' = JStr t"
    using sha_string [of r] sha_string [of x] hashed x \<open>r \<in> set zs\<close> events(1) by (simp_all add: hashed_def)
  then have "memberOf ?lineage ''firstEventHash'' = memberOf (hd zs) ''eventHash''" "memberOf ?lineage ''lastEventHash'' = memberOf (last zs) ''eventHash''"
    using r(2) t(2) root(1) zs(6) by (auto simp: strictEq_def split: json.splits)
  then show ?thesis using assms(1) count perm hashed zs(2) root(2) unfolding sourceChain_def by (auto simp: Let_def)
qed

lemma linked_references:
  "linked chain \<Longrightarrow> hashed chain \<Longrightarrow> map previousText (tl chain) = map eventHashText (butlast chain)"
proof (induction chain rule: linked.induct)
  case (1 a b es)
  then have "previousText b = eventHashText a" using linked_previous(1) [OF 1(2,3), of "[]" a b es] by simp
  then show ?case using 1 by (simp add: hashed_def)
qed auto

lemma chain_references:
  assumes "linked chain" "hashed chain" "isRoot (hd chain)" "chain \<noteq> []"
  shows "references chain = map eventHashText (butlast chain)"
proof -
  have "map previousText chain = [] # map eventHashText (butlast chain)"
    using assms linked_references [OF assms(1,2)] by (cases chain) (auto simp: isRoot_previous)
  moreover have "filter (\<lambda>h. h \<noteq> []) (map eventHashText (butlast chain)) = map eventHashText (butlast chain)"
    using assms(2) sha_string by (auto simp: filter_id_conv hashed_def dest: in_set_butlastD)
  ultimately show ?thesis by (simp add: references_def)
qed

lemma lineage_complete:
  assumes "events \<noteq> []" "sourceChain m events"
  shows "validateAuditLineage str (Some m) events = []"
proof -
  let ?H = eventHashText and ?lineage = "getProp m ''auditLineage''"
  obtain chain where chain: "mset chain = mset events" "hashed chain" "linked chain" "isRoot (hd chain)"
    and ends: "memberOf ?lineage ''firstEventHash'' = memberOf (hd chain) ''eventHash''"
      "memberOf ?lineage ''lastEventHash'' = memberOf (last chain) ''eventHash''"
    using assms by (auto simp: sourceChain_def Let_def)
  have ne: "chain \<noteq> []" using chain(1) assms(1) by auto
  have refs: "references chain = map ?H (butlast chain)" by (rule chain_references [OF chain(3,2,4) ne])
  have mrefs: "mset (references events) = mset (references chain)" using chain(1) by (simp add: references_def)
  have "filter isRoot chain = [hd chain]"
  proof -
    have "\<not> isRoot b" if "b \<in> set (tl chain)" for b
      using root_first [OF chain(3,2), of b] that ne chain(2) by (cases chain) (auto simp: hashed_def)
    then show ?thesis using chain(4) ne by (cases chain) (auto simp: filter_empty_conv)
  qed
  then have "mset (filter isRoot events) = {#hd chain#}" using chain(1) by (metis mset_filter mset_single_iff)
  then have roots: "filter isRoot events = [hd chain]" by (simp only: mset_single_iff)
  have whole: "map ?H chain = references chain @ [?H (last chain)]"
    unfolding refs using arg_cong [OF append_butlast_last_id [OF ne], of "map ?H"] by simp
  then have fresh: "distinct (references chain @ [?H (last chain)])" using chain(2) by (simp add: hashed_def)
  then have "filter (\<lambda>h. h \<notin> set (references chain)) (map ?H chain) = [?H (last chain)]"
    unfolding whole by (simp add: filter_empty_conv)
  moreover have "mset (filter (\<lambda>h. h \<notin> set (references events)) (map ?H events)) = mset (filter (\<lambda>h. h \<notin> set (references chain)) (map ?H chain))"
    using chain(1) by (simp add: mset_eq_setD [OF mrefs])
  ultimately have tails: "filter (\<lambda>h. h \<notin> set (references events)) (map ?H events) = [?H (last chain)]"
    by (metis mset_single_iff)
  have "lineageWalk str events [] (?H (last chain)) = map ?H chain"
    using walk_chain [OF chain, of "butlast chain" "last chain" "[]"] ne by simp
  moreover have "set (references events) \<subseteq> set (map ?H events)" "distinct (references events)"
    using fresh mset_eq_setD [OF mrefs] mset_eq_imp_distinct_iff [OF mrefs] mset_eq_setD [OF chain(1)] arg_cong [OF whole, of set] by auto
  moreover have "memberOf (hd chain) ''eventHash'' = JStr (?H (hd chain))" "memberOf (last chain) ''eventHash'' = JStr (?H (last chain))"
    using sha_string [of "hd chain"] sha_string [of "last chain"] chain(2) ne by (simp_all add: hashed_def)
  moreover have "hashed events" "length chain = length events" using chain(2) hashed_perm [OF chain(1)] mset_eq_length [OF chain(1)] by simp_all
  moreover have "memberOf ?lineage ''eventCount'' = JNum (int (length events))" using assms(2) by (simp add: sourceChain_def Let_def)
  ultimately show ?thesis using ends by (simp add: lineage_issues [OF assms(1)] roots tails Let_def strictEq_def)
qed

text \<open>
  C32. The verification of the audit lineage decides whether the exported events form one complete
  chain: there is no issue exactly when the events, in some order, run from one event without
  predecessor to the last through their previous hashes, with distinct digests, and the manifest
  names the number of events and the hashes at both ends.
\<close>

theorem lineage_verified_iff: "validateAuditLineage str (Some m) events = [] \<longleftrightarrow> sourceChain m events"
proof (cases "events = []")
  case True
  then show ?thesis by (auto simp: validateAuditLineage_def sourceChain_def Let_def)
next
  case False
  then show ?thesis using lineage_sound lineage_complete by blast
qed

end
