(* ===== verification/ArchiveRoundtrip.thy ===== *)
theory ArchiveRoundtrip
  imports ArchiveVerified
begin

text \<open>
  Export and verification: the archive that \<open>assembleArchiveEntries\<close> makes of an exportable source
  verifies, and the report has the records of the source; so does the signed archive.
\<close>

section \<open>Normalised records\<close>

definition normRecord :: "archiveRecord \<Rightarrow> archiveRecord" where
  "normRecord r = sort_key fst (normObj r)"

lemma normJson_record: "normJson (JObj r) = JObj (normRecord r)"
  by (simp add: normRecord_def)

lemma map_of_normRecord: "distinct (map fst r) \<Longrightarrow> map_of (normRecord r) k = map_option normJson (map_of r k)"
proof -
  assume r: "distinct (map fst r)"
  then have "map_of (normRecord r) = map_of (normObj r)"
    by (simp add: normRecord_def map_of_inject_set distinct_map_sort_fst normObj_keys)
  moreover have "normObj r = map (\<lambda>(k, v). (k, normJson v)) r" by (simp add: normObj_map case_prod_unfold)
  ultimately show ?thesis by (simp add: map_of_map)
qed

lemma normRecord_keys: "distinct (map fst (normRecord r)) = distinct (map fst r)"
  by (simp add: normRecord_def distinct_map_sort_fst normObj_keys)

lemma getProp_normRecord: "distinct (map fst r) \<Longrightarrow> getProp (normRecord r) k = normJson (getProp r k)"
  by (simp add: getProp_def map_of_normRecord split: option.splits)

lemma normJson_eq [simp]:
  "normJson v = JStr s \<longleftrightarrow> v = JStr s" "normJson v = JNum i \<longleftrightarrow> v = JNum i"
  "normJson v = JNull \<longleftrightarrow> v = JNull" "normJson v = JUndef \<longleftrightarrow> v = JUndef"
  by (cases v; simp)+

lemma asString_norm [simp]: "asString (normJson v) = asString v"
  by (cases v) auto

lemma strictEq_norm [simp]: "strictEq (normJson v) (JStr s) = strictEq v (JStr s)"
  by (cases v) (auto simp: strictEq_def)

lemma normObj_sort: "normObj (sort_key fst kvs) = sort_key fst (normObj kvs)"
  unfolding normObj_map by (simp add: sort_key_map_snd)

lemma norm_idem:
  "normJson (normJson v) = normJson v" "normArr (normArr vs) = normArr vs" "normObj (normObj kvs) = normObj kvs"
  by (induction v and vs and kvs rule: normJson_normArr_normObj.induct) (simp_all add: normObj_sort sort_key_id_if_sorted)

lemma hex_char_no_newline: "n < 16 \<Longrightarrow> hex_char n \<noteq> CHR 0x0A"
  using hexDigit_hex_char [of n] by (auto simp: hexDigit_def)

lemma escape_no_newline: "CHR 0x0A \<notin> set (escape_char c)"
proof -
  have "hex_char (of_char c mod 16) \<noteq> CHR 0x0A" by (rule hex_char_no_newline) simp
  moreover have "hex_char (of_char c div 16) \<noteq> CHR 0x0A" if "(of_char c :: nat) < 32" by (rule hex_char_no_newline) (use that in simp)
  ultimately show ?thesis by (auto simp: escape_char_def Let_def)
qed

lemma quote_no_newline: "CHR 0x0A \<notin> set (quote s)"
  using escape_no_newline by (auto simp: quote_def)

lemma join_no_newline: "CHR 0x0A \<notin> set sep \<Longrightarrow> (\<And>w. w \<in> set ws \<Longrightarrow> CHR 0x0A \<notin> set w) \<Longrightarrow> CHR 0x0A \<notin> set (join sep ws)"
  by (induction sep ws rule: join.induct) auto

lemma show_int_no_newline: "CHR 0x0A \<notin> set (show_int i)"
proof -
  have "CHR 0x0A \<notin> set (show_nat n)" for n using show_nat_digits [of n] by (auto simp: list_all_iff is_digit_def)
  then show ?thesis by (simp add: show_int_def)
qed

lemma stringify_no_newline:
  "CHR 0x0A \<notin> set (stringify v)" "\<forall>w \<in> set (stringifyArr vs). CHR 0x0A \<notin> set w" "\<forall>p \<in> set (stringifyObj kvs). CHR 0x0A \<notin> set (field p)"
proof (induction v and vs and kvs rule: stringify_stringifyArr_stringifyObj.induct)
  case (6 vs)
  then have "CHR 0x0A \<notin> set (join '','' (stringifyArr vs))" by (intro join_no_newline) auto
  then show ?case by (simp add: bracket_def)
next
  case (7 kvs)
  then have "CHR 0x0A \<notin> set (join '','' (map field (stringifyObj kvs)))" by (intro join_no_newline) auto
  then show ?case by (simp add: brace_def)
qed (auto simp: show_bool_def show_int_no_newline quote_no_newline field_def)

section \<open>What an assembled archive holds\<close>

definition recordLine :: "archiveRecord \<Rightarrow> string" where
  "recordLine r = stringify (normJson (JObj r))"

definition recordText :: "string comparator \<Rightarrow> archiveRecord list \<Rightarrow> string" where
  "recordText loc rs = join [CHR 0x0A] (map recordLine (sortRecords loc rs)) @ [CHR 0x0A]"

definition blobPath :: "string \<Rightarrow> string" where
  "blobPath d = ''blobs/'' @ take 2 d @ ''/'' @ d"

definition storedBlob :: "(bytes \<Rightarrow> string) \<Rightarrow> (string \<rightharpoonup> bytes) \<Rightarrow> archiveBlobInput \<Rightarrow> bool" where
  "storedBlob sha f blob \<longleftrightarrow> isSha256 (ab_sha256 blob) \<and> int (length (ab_bytes blob)) = ab_byteLength blob
     \<and> sha (ab_bytes blob) = ab_sha256 blob \<and> f (blobPath (ab_sha256 blob)) = Some (ab_bytes blob)"

definition storesSource :: "(bytes \<Rightarrow> string) \<Rightarrow> string comparator \<Rightarrow> archiveSource \<Rightarrow> (string \<rightharpoonup> bytes) \<Rightarrow> bool" where
  "storesSource sha loc source f \<longleftrightarrow> (\<forall>blob \<in> set (so_blobs source). storedBlob sha f blob)
     \<and> (\<forall>kind. f (recordPath kind) = (if so_records source kind = [] then None else Some (utf8 (recordText loc (so_records source kind)))))
     \<and> (\<forall>kind. \<forall>r \<in> set (so_records source kind). \<not> hasUndef (JObj r))"

lemma addEntry_map_of: "addEntry es p b = Inr fs \<Longrightarrow> map_of es p = None \<and> map_of fs = (map_of es)(p \<mapsto> b)"
proof -
  assume "addEntry es p b = Inr fs"
  then have "map_of es p = None" "fs = es @ [(p, b)]" by (simp_all add: addEntry_Inr map_of_eq_None_iff)
  then show ?thesis by (auto simp: map_add_def split: option.splits)
qed

lemma storedBlob_mono: "storedBlob sha f blob \<Longrightarrow> f \<subseteq>\<^sub>m g \<Longrightarrow> storedBlob sha g blob"
  by (auto simp: storedBlob_def map_le_def dom_def)

lemma addBlob_map_of:
  assumes "addBlob sha es blob = Inr fs"
  shows "storedBlob sha (map_of fs) blob" "map_of es \<subseteq>\<^sub>m map_of fs" "dom (map_of fs) = insert (blobPath (ab_sha256 blob)) (dom (map_of es))"
proof -
  have d: "isSha256 (ab_sha256 blob)" "int (length (ab_bytes blob)) = ab_byteLength blob" "sha (ab_bytes blob) = ab_sha256 blob"
    "addEntry es (blobPath (ab_sha256 blob)) (ab_bytes blob) = Inr fs"
    using assms by (auto simp: addBlob_def blobArchivePath_def blobPath_def seqR_eq_Inr split: if_splits)
  then show "storedBlob sha (map_of fs) blob" "map_of es \<subseteq>\<^sub>m map_of fs" "dom (map_of fs) = insert (blobPath (ab_sha256 blob)) (dom (map_of es))"
    using addEntry_map_of [OF d(4)] by (auto simp: storedBlob_def map_le_def)
qed

lemma foldBlobs:
  assumes "foldR (addBlob sha) es bs = Inr fs"
  shows "(\<forall>blob \<in> set bs. storedBlob sha (map_of fs) blob) \<and> map_of es \<subseteq>\<^sub>m map_of fs \<and> dom (map_of fs) \<subseteq> dom (map_of es) \<union> range blobPath"
  using assms
proof (induction bs arbitrary: es)
  case (Cons b bs)
  then obtain gs where gs: "addBlob sha es b = Inr gs" "foldR (addBlob sha) gs bs = Inr fs" by (auto simp: seqR_eq_Inr)
  show ?case using Cons.IH [OF gs(2)] addBlob_map_of [OF gs(1)] storedBlob_mono [of sha "map_of gs" b "map_of fs"] map_le_trans [of "map_of es" "map_of gs" "map_of fs"]
    by auto
qed simp

lemma mapR_lines: "mapR (\<lambda>r. canonicalJson (JObj r)) rs = Inr lines \<longleftrightarrow> (\<forall>r \<in> set rs. \<not> hasUndef (JObj r)) \<and> lines = map recordLine rs"
  by (induction rs arbitrary: lines)
    (auto simp: seqR_eq_Inr canonicalJson_eq recordLine_def simp del: canonicalJson.simps hasUndef.simps stringify.simps normJson.simps split: if_splits)

lemma recordPath_inj: "recordPath k = recordPath l \<longleftrightarrow> k = l"
  by (cases k; cases l) (simp_all add: recordPath_def)

lemma sortRecords_set [simp]: "set (sortRecords loc rs) = set rs" "sortRecords loc rs = [] \<longleftrightarrow> rs = []"
proof -
  show "set (sortRecords loc rs) = set rs" unfolding sortRecords_def by (rule sort_keeps)
  then show "sortRecords loc rs = [] \<longleftrightarrow> rs = []" by (metis set_empty)
qed

lemma addRecords_map_of:
  assumes "addRecords loc recs es kind = Inr fs"
  shows "recs kind \<noteq> [] \<Longrightarrow> map_of fs (recordPath kind) = Some (utf8 (recordText loc (recs kind)))" "map_of es \<subseteq>\<^sub>m map_of fs"
    and "dom (map_of fs) = dom (map_of es) \<union> (if recs kind = [] then {} else {recordPath kind})"
    and "\<forall>r \<in> set (recs kind). \<not> hasUndef (JObj r)"
proof -
  have "fs = es" if "recs kind = []" using assms that by (simp add: addRecords_def)
  moreover have "addEntry es (recordPath kind) (utf8 (recordText loc (recs kind))) = Inr fs \<and> (\<forall>r \<in> set (recs kind). \<not> hasUndef (JObj r))"
    if "recs kind \<noteq> []"
    using assms that by (auto simp: addRecords_def seqR_eq_Inr mapR_lines recordText_def simp del: utf8_append hasUndef.simps canonicalJson.simps)
  ultimately show "recs kind \<noteq> [] \<Longrightarrow> map_of fs (recordPath kind) = Some (utf8 (recordText loc (recs kind)))" "map_of es \<subseteq>\<^sub>m map_of fs"
    "dom (map_of fs) = dom (map_of es) \<union> (if recs kind = [] then {} else {recordPath kind})" "\<forall>r \<in> set (recs kind). \<not> hasUndef (JObj r)"
    using addEntry_map_of [of es "recordPath kind" "utf8 (recordText loc (recs kind))" fs]
    by (cases "recs kind = []"; auto simp: map_le_def)+
qed

lemma foldRecords:
  assumes "foldR (addRecords loc recs) es kinds = Inr fs"
  shows "(\<forall>kind \<in> set kinds. recs kind \<noteq> [] \<longrightarrow> map_of fs (recordPath kind) = Some (utf8 (recordText loc (recs kind))))
    \<and> map_of es \<subseteq>\<^sub>m map_of fs \<and> dom (map_of fs) \<subseteq> dom (map_of es) \<union> {recordPath kind | kind. recs kind \<noteq> []}
    \<and> (\<forall>kind \<in> set kinds. \<forall>r \<in> set (recs kind). \<not> hasUndef (JObj r))"
  using assms
proof (induction kinds arbitrary: es)
  case (Cons k kinds)
  then obtain gs where gs: "addRecords loc recs es k = Inr gs" "foldR (addRecords loc recs) gs kinds = Inr fs" by (auto simp: seqR_eq_Inr)
  note add = addRecords_map_of [OF gs(1)] and rest = Cons.IH [OF gs(2)]
  have "map_of es \<subseteq>\<^sub>m map_of fs" using add(2) rest map_le_trans by blast
  moreover have "map_of fs (recordPath k) = Some (utf8 (recordText loc (recs k)))" if "recs k \<noteq> []"
    using add(1) [OF that] rest by (auto simp: map_le_def dom_def)
  moreover have "dom (map_of gs) \<subseteq> dom (map_of es) \<union> {recordPath kind | kind. recs kind \<noteq> []}"
    unfolding add(3) by (auto split: if_splits)
  moreover have "dom (map_of fs) \<subseteq> dom (map_of es) \<union> {recordPath kind | kind. recs kind \<noteq> []}"
    using rest calculation(3) by blast
  ultimately show ?case using add(4) rest by simp
qed simp

declare all_kinds [simp]

lemma assembled_contents:
  assumes "assembleArchiveEntries sha loc source = Inr (fs, mf)"
  obtains es t where "plainEntries es" "fs = es @ [(checksumPath, utf8 (checksumText sha loc es))]" "mf = manifestOf source"
    "manifestText mf = Inr t" "map_of es ''manifest.json'' = Some (utf8 t)" "storesSource sha loc source (map_of es)"
proof -
  obtain e1 e2 t e3 e4 where steps: "foldR (addBlob sha) [] (Sorting_Algorithms.sort (Comparator.key ab_sha256 loc) (so_blobs source)) = Inr e1"
    "foldR (addRecords loc (so_records source)) e1 archiveRecordKinds = Inr e2" "addEntry e2 ''manifest.json'' (utf8 t) = Inr e3"
    "addEntry e3 ''README.txt'' (utf8 readmeText) = Inr e4" "addEntry e4 checksumPath (utf8 (checksumText sha loc e4)) = Inr fs"
    "manifestText mf = Inr t" "mf = manifestOf source"
    using assms by (auto simp: assembleArchiveEntries_def seqR_eq_Inr)
  obtain es where es: "plainEntries es" "fs = es @ [(checksumPath, utf8 (checksumText sha loc es))]"
    using assembled_entries [OF assms] by metis
  moreover have "fs = e4 @ [(checksumPath, utf8 (checksumText sha loc e4))]" using steps(5) by (simp only: addEntry_Inr)
  ultimately have same: "e4 = es" by simp
  note late = addEntry_map_of [OF steps(3)] addEntry_map_of [OF steps(4)]
  have e4: "map_of es = (map_of e2)(''manifest.json'' \<mapsto> utf8 t, ''README.txt'' \<mapsto> utf8 readmeText)" "map_of e2 \<subseteq>\<^sub>m map_of es"
    using late unfolding same by (auto simp: map_le_def)
  have "storedBlob sha (map_of es) blob" if "blob \<in> set (so_blobs source)" for blob
    using foldBlobs [OF steps(1)] foldRecords [OF steps(2)] e4(2) that storedBlob_mono map_le_trans sort_keeps(1) by metis
  moreover have "map_of es (recordPath kind) = (if so_records source kind = [] then None else Some (utf8 (recordText loc (so_records source kind))))" for kind
  proof (cases "so_records source kind = []")
    case True
    have "dom (map_of e1) \<subseteq> range blobPath" using foldBlobs [OF steps(1)] by simp
    moreover have "dom (map_of e2) \<subseteq> dom (map_of e1) \<union> {recordPath k | k. so_records source k \<noteq> []}"
      using foldRecords [OF steps(2)] by (elim conjE)
    moreover have "recordPath kind \<notin> range blobPath" by (auto simp: recordPath_def blobPath_def)
    moreover have "recordPath kind \<notin> {recordPath k | k. so_records source k \<noteq> []}" using True by (auto simp: recordPath_inj)
    ultimately have "recordPath kind \<notin> dom (map_of e2)" by blast
    then show ?thesis using True by (auto simp: e4(1) recordPath_def)
  next
    case False
    then have "map_of e2 (recordPath kind) = Some (utf8 (recordText loc (so_records source kind)))" using foldRecords [OF steps(2)] by simp
    then show ?thesis using False by (simp add: e4(1) recordPath_def)
  qed
  ultimately have "storesSource sha loc source (map_of es)" using foldRecords [OF steps(2)] by (auto simp: storesSource_def)
  then show thesis using that es steps(6,7) e4(1) by simp
qed

section \<open>The manifest\<close>

definition manifestFields :: "trustArchiveManifest \<Rightarrow> (string \<times> json) list" where
  "manifestFields mf = (case normJson (manifestJson mf) of JObj m \<Rightarrow> m | _ \<Rightarrow> [])"

lemma manifestFields_json: "normJson (manifestJson mf) = JObj (manifestFields mf)"
  by (simp add: manifestFields_def manifestJson_def)

lemma manifest_keys: "manifestJson mf = JObj kvs \<Longrightarrow> distinct (map fst kvs)"
  by (auto simp: manifestJson_def)

lemma getProp_manifest: "manifestJson mf = JObj kvs \<Longrightarrow> getProp (manifestFields mf) k = normJson (getProp kvs k)"
  using manifestFields_json [of mf] manifest_keys [of mf kvs] getProp_normRecord [of kvs k] by (simp flip: normRecord_def)

lemma manifest_members [simp]:
  "getProp (manifestFields mf) ''format'' = JStr ''trustarchive''" "getProp (manifestFields mf) ''formatVersion'' = JStr (tm_formatVersion mf)"
  "getProp (manifestFields mf) ''workspaceId'' = JStr (tm_workspaceId mf)" "getProp (manifestFields mf) ''checksumAlgorithm'' = JStr ''sha256''"
  "getProp (manifestFields mf) ''canonicalJsonProfile'' = JStr ''trust-core-canonical-json-v1''"
  "getProp (manifestFields mf) ''signatureProfile'' = normJson (signatureProfileJson (tm_signatureProfile mf))"
  "getProp (manifestFields mf) ''auditLineage'' = normJson (lineageJson (tm_auditLineage mf))"
  "getProp (manifestFields mf) ''recordCounts'' = normJson (JObj (map (\<lambda>k. (recordKindName k, JNum (tm_recordCounts mf k))) archiveRecordKinds))"
  "getProp (manifestFields mf) ''blobCount'' = JNum (tm_blobCount mf)" "getProp (manifestFields mf) ''totalBlobBytes'' = JNum (tm_totalBlobBytes mf)"
  by (subst getProp_manifest [OF manifestJson_def], simp add: getProp_def)+

lemma memberOf_norm: "distinct (map fst r) \<Longrightarrow> memberOf (normJson (JObj r)) k = normJson (getProp r k)"
  by (simp add: memberOf_def getProp_normRecord flip: normRecord_def)

lemma lineage_members [simp]:
  "memberOf (normJson (lineageJson l)) ''mode'' = JStr ''source_chain''"
  "memberOf (normJson (lineageJson l)) ''sourceWorkspaceId'' = JStr (al_sourceWorkspaceId l)"
  "memberOf (normJson (lineageJson l)) ''eventCount'' = JNum (al_eventCount l)"
  "memberOf (normJson (lineageJson l)) ''firstEventHash'' = nullable (al_firstEventHash l)"
  "memberOf (normJson (lineageJson l)) ''lastEventHash'' = nullable (al_lastEventHash l)"
  unfolding lineageJson_def by (subst memberOf_norm; simp add: getProp_def nullable_def split: option.splits)+

lemma profile_members [simp]:
  "memberOf (normJson (signatureProfileJson (ManifestSignature k))) ''name'' = JStr ''trust-core-manifest-signature-v1''"
  "memberOf (normJson (signatureProfileJson (ManifestSignature k))) ''algorithm'' = JStr ''Ed25519''"
  "memberOf (normJson (signatureProfileJson (ManifestSignature k))) ''keyId'' = JStr k"
  unfolding signatureProfileJson.simps by (subst memberOf_norm; simp add: getProp_def)+

lemma lineCount_manifest: "lineCount (manifestFields mf) kind = Inr (JNum (tm_recordCounts mf kind))"
proof -
  let ?r = "map (\<lambda>k. (recordKindName k, JNum (tm_recordCounts mf k))) archiveRecordKinds"
  have "distinct (map fst ?r)" by (simp add: archiveRecordKinds_def)
  moreover have "getProp ?r (recordKindName kind) = JNum (tm_recordCounts mf kind)"
    by (cases kind) (simp_all add: getProp_def archiveRecordKinds_def)
  ultimately show ?thesis
    using normJson_record [of ?r] getProp_normRecord [of ?r "recordKindName kind"] by (simp only: lineCount_def manifest_members member_def) simp
qed

lemma wellKeyed_strings [simp]: "wellKeyedArr (map JStr xs)"
  by (induction xs) auto

lemma wellKeyed_manifest: "wellKeyed (manifestJson mf)"
  by (cases "tm_signatureProfile mf")
    (simp_all add: manifestJson_def lineageJson_def nullable_def archiveRecordKinds_def split: option.splits)

definition coherent :: "trustArchiveManifest \<Rightarrow> bool" where
  "coherent mf \<longleftrightarrow> (case tm_signatureProfile mf of Unsigned \<Rightarrow> tm_formatVersion mf = ''0.2'' | ManifestSignature k \<Rightarrow> tm_formatVersion mf = ''0.3'' \<and> k \<noteq> [])
     \<and> al_sourceWorkspaceId (tm_auditLineage mf) = tm_workspaceId mf \<and> 0 \<le> al_eventCount (tm_auditLineage mf) \<and> safeInteger (al_eventCount (tm_auditLineage mf))"

context text_codec
begin

lemma readManifest_written:
  assumes "coherent mf" and t: "manifestText mf = Inr t" and stored: "map_of entries ''manifest.json'' = Some (utf8 t)"
  shows "readManifest decode parse entries = ([], Some (manifestFields mf))"
proof -
  obtain c where c: "canonicalJson (manifestJson mf) = Inr c" "t = c @ [CHR 0x0A]" using t by (auto simp: manifestText_def seqR_eq_Inr)
  have "parse t = Some (JObj (manifestFields mf))"
    using parse_print [OF c(1) wellKeyed_manifest, of "[CHR 0x0A]"] by (simp add: c(2) isWs_def manifestFields_json)
  moreover have "canonicalJson (JObj (manifestFields mf)) = Inr c"
  proof -
    have "\<not> hasUndef (manifestJson mf)" "c = stringify (normJson (manifestJson mf))" using c(1) by (auto simp: canonicalJson_eq split: if_splits)
    then show ?thesis using norm_keeps(1) [of "manifestJson mf"] norm_idem(1) [of "manifestJson mf"]
      by (simp add: canonicalJson_eq del: canonicalJson.simps hasUndef.simps flip: manifestFields_json)
  qed
  moreover have "lineageShape (manifestFields mf)" using assms(1) by (simp add: lineageShape_def coherent_def strictEq_def Let_def)
  moreover have "tm_formatVersion mf = ''0.2'' \<and> normJson (signatureProfileJson (tm_signatureProfile mf)) = JStr ''unsigned''
      \<or> tm_formatVersion mf = ''0.3'' \<and> validSigned (normJson (signatureProfileJson (tm_signatureProfile mf)))"
  proof (cases "tm_signatureProfile mf")
    case (ManifestSignature k)
    have "validSigned (normJson (signatureProfileJson (ManifestSignature k)))" using assms(1) ManifestSignature
      by (simp add: validSigned_def coherent_def del: signatureProfileJson.simps normJson.simps)
    then show ?thesis using assms(1) ManifestSignature by (simp add: coherent_def del: signatureProfileJson.simps normJson.simps)
  qed (use assms(1) in \<open>simp add: coherent_def\<close>)
  ultimately show ?thesis using c(2) decode_utf8 [of t] unfolding readManifest_def stored
    by (auto simp: Let_def simp del: canonicalJson.simps signatureProfileJson.simps normJson.simps)
qed

lemma readRecords_stored:
  assumes "storesSource sha loc source (map_of entries)" "\<forall>r \<in> set (so_records source kind). wellKeyed (JObj r)"
    and "lineCount m kind = Inr (JNum (int (length (so_records source kind))))"
  shows "readRecords decode parse (Some m) entries kind
    = Inr ([], if so_records source kind = [] then None else Some (map (\<lambda>r. JObj (normRecord r)) (sortRecords loc (so_records source kind))))"
proof (cases "so_records source kind = []")
  case True
  then show ?thesis using assms by (simp add: storesSource_def readRecords_def)
next
  case False
  let ?rs = "sortRecords loc (so_records source kind)"
  let ?lines = "map recordLine ?rs"
  have rs: "\<not> hasUndef (JObj r)" "wellKeyed (JObj r)" if "r \<in> set ?rs" for r
    using that assms(1,2) by (auto simp: storesSource_def)
  have shape: "recordLine r \<noteq> []" "last (recordLine r) = CHR ''}''" for r by (simp_all add: recordLine_def brace_def)
  have one_line: "CHR 0x0A \<notin> set (recordLine r)" for r unfolding recordLine_def by (rule stringify_no_newline)
  have "last ?lines \<noteq> [] \<and> \<not> js_space (last (last ?lines))" using False shape by (simp add: last_map js_space_def)
  then have "trimEnd (join [CHR 0x0A] ?lines @ [CHR 0x0A]) = join [CHR 0x0A] ?lines"
    using last_join [of ?lines "[CHR 0x0A]"] False by (intro trimEnd_newline) auto
  moreover have "split_on (CHR 0x0A) (join [CHR 0x0A] ?lines) = ?lines" using False one_line by (intro split_on_join) auto
  moreover have "filter (\<lambda>line. line \<noteq> []) ?lines = ?lines" using shape(1) by (simp add: filter_id_conv)
  moreover have "parse (recordLine r) = Some (JObj (normRecord r))" if "r \<in> set ?rs" for r
  proof -
    have "canonicalJson (JObj r) = Inr (recordLine r)" using rs(1) [OF that] by (simp add: canonicalJson_eq recordLine_def del: canonicalJson.simps hasUndef.simps)
    from parse_print [OF this rs(2) [OF that], of "[]"] show ?thesis by (simp add: normRecord_def)
  qed
  then have "map parse ?lines = map (\<lambda>r. Some (JObj (normRecord r))) ?rs" by simp
  moreover have "map_of entries (recordPath kind) = Some (utf8 (recordText loc (so_records source kind)))"
    using assms(1) False by (simp add: storesSource_def)
  moreover have "map the (map (\<lambda>r. Some (JObj (normRecord r))) ?rs) = map (\<lambda>r. JObj (normRecord r)) ?rs" by (simp add: comp_def)
  moreover have "length ?rs = length (so_records source kind)" by (simp add: sortRecords_def)
  ultimately show ?thesis using assms(3) False decode_utf8 [of "recordText loc (so_records source kind)"]
    by (simp add: readRecords_def recordText_def Let_def comp_def image_iff del: utf8_append map_map)
qed

end

lemma readKinds_ok:
  assumes "\<forall>k \<in> set kinds. f k = Inr ([], g k)"
  shows "readKinds f kinds = Inr ([], \<lambda>k. if k \<in> set kinds then g k else None)"
  using assms by (induction kinds) (auto simp: fun_eq_iff)

section \<open>Exportable sources\<close>

text \<open>
  What a source must satisfy: records are objects of its workspace, revisions refer to its
  resources and revisions, the audit events form one chain, and the blob records describe the blobs.
\<close>

definition idsOf :: "archiveRecord list \<Rightarrow> string set" where
  "idsOf rs = {i. \<exists>r \<in> set rs. getProp r ''id'' = JStr i}"

definition revisionLinked :: "recordSets \<Rightarrow> archiveRecord \<Rightarrow> bool" where
  "revisionLinked recs r \<longleftrightarrow> (\<exists>i \<in> idsOf (recs KResources). getProp r ''resourceId'' = JStr i)
     \<and> (\<forall>p. getProp r ''parentRevisionId'' = JStr p \<longrightarrow> p \<in> idsOf (recs KRevisions))"

definition eventsChained :: "archiveRecord list \<Rightarrow> bool" where
  "eventsChained events \<longleftrightarrow> events = [] \<or> (\<exists>chain. mset chain = mset events \<and> hashed (map JObj chain) \<and> linked (map JObj chain)
     \<and> getProp (hd chain) ''previousEventHash'' \<in> {JNull, JUndef})"

definition blobsDescribed :: "archiveRecord list \<Rightarrow> archiveBlobInput list \<Rightarrow> bool" where
  "blobsDescribed rs blobs \<longleftrightarrow> mset (map (\<lambda>r. (getProp r ''sha256'', getProp r ''byteLength'')) rs)
     = mset (map (\<lambda>b. (JStr (ab_sha256 b), JNum (ab_byteLength b))) blobs)"

definition exportable :: "archiveSource \<Rightarrow> bool" where
  "exportable source \<longleftrightarrow>
     (\<forall>kind. \<forall>r \<in> set (so_records source kind). wellKeyed (JObj r) \<and> map_of r ''workspaceId'' \<in> {None, Some (JStr (so_workspaceId source))})
     \<and> (\<forall>r \<in> set (so_records source KRevisions). revisionLinked (so_records source) r)
     \<and> eventsChained (so_records source KAuditEvents) \<and> safeInteger (int (length (so_records source KAuditEvents)))
     \<and> blobsDescribed (so_records source KBlobs) (so_blobs source)"

text \<open>The records as the verifier reads them.\<close>

definition readBack :: "string comparator \<Rightarrow> archiveRecord list \<Rightarrow> json list" where
  "readBack loc rs = map (\<lambda>r. JObj (normRecord r)) (sortRecords loc rs)"

lemma member_readBack: "v \<in> set (readBack loc rs) \<longleftrightarrow> (\<exists>r \<in> set rs. v = JObj (normRecord r))"
  by (auto simp: readBack_def)

lemma mapR_map: "(\<And>x. x \<in> set xs \<Longrightarrow> f x = Inr (g x)) \<Longrightarrow> mapR f xs = Inr (map g xs)"
  by (induction xs) auto

lemma exportable_record:
  assumes "exportable source" "r \<in> set (so_records source kind)"
  shows "distinct (map fst r)" "wellKeyed (JObj r)"
    "map_of r ''workspaceId'' \<noteq> None \<Longrightarrow> getProp r ''workspaceId'' = JStr (so_workspaceId source)"
proof -
  have r: "wellKeyed (JObj r) \<and> map_of r ''workspaceId'' \<in> {None, Some (JStr (so_workspaceId source))}"
    using assms unfolding exportable_def by blast
  then show "distinct (map fst r)" "wellKeyed (JObj r)" by simp_all
  from r consider "map_of r ''workspaceId'' = None" | "map_of r ''workspaceId'' = Some (JStr (so_workspaceId source))"
    by (elim conjE insertE) simp_all
  then show "map_of r ''workspaceId'' \<noteq> None \<Longrightarrow> getProp r ''workspaceId'' = JStr (so_workspaceId source)"
    by cases (simp_all add: getProp_def)
qed

lemma idStrings_readBack:
  assumes "\<forall>r \<in> set rs. wellKeyed (JObj r)"
  shows "\<exists>is. idStrings (readBack loc rs) = Inr is \<and> set is = idsOf rs"
proof -
  have "mapR (\<lambda>v. member v ''id'') (readBack loc rs) = Inr (map (\<lambda>v. memberOf v ''id'') (readBack loc rs))"
    by (rule mapR_map) (auto simp: member_readBack member_def memberOf_def)
  then have "idStrings (readBack loc rs) = Inr (List.map_filter asString (map (\<lambda>v. memberOf v ''id'') (readBack loc rs)))"
    by (simp add: idStrings_def)
  moreover have "set (List.map_filter asString (map (\<lambda>v. memberOf v ''id'') (readBack loc rs))) = idsOf rs"
    using assms by (force simp: map_filter_def idsOf_def member_readBack memberOf_def getProp_normRecord asString_eq_Some)
  ultimately show ?thesis by blast
qed

lemma scope_readBack:
  assumes source: "exportable source" and m: "getProp m ''workspaceId'' = JStr (so_workspaceId source)"
    and records: "\<And>kind. recordsOf records kind = readBack loc (so_records source kind)"
  shows "validateScopeAndReferences (Some m) records = Inr []"
proof -
  have keyed: "\<forall>r \<in> set (so_records source kind). wellKeyed (JObj r)" for kind using source by (auto simp: exportable_def)
  obtain rs vs where ids: "idStrings (readBack loc (so_records source KResources)) = Inr rs" "set rs = idsOf (so_records source KResources)"
    "idStrings (readBack loc (so_records source KRevisions)) = Inr vs" "set vs = idsOf (so_records source KRevisions)"
    using idStrings_readBack [OF keyed] by meson
  have scope: "scopeIssues m records kind = Inr []" for kind
  proof -
    let ?f = "\<lambda>r. seqR (hasMember r ''workspaceId'') (\<lambda>found. Inr (if found \<and> \<not> strictEq (memberOf r ''workspaceId'') (getProp m ''workspaceId'')
        then [issueAt ''ARCHIVE_WORKSPACE_MISMATCH'' (recordKindName kind @ '' record crosses workspace boundary.'') []] else []))"
    have "?f v = Inr []" if "v \<in> set (readBack loc (so_records source kind))" for v
    proof -
      obtain r where r: "r \<in> set (so_records source kind)" "v = JObj (normRecord r)" using \<open>v \<in> _\<close> by (auto simp: member_readBack)
      note workspace = exportable_record [OF source r(1)]
      have "strictEq (memberOf v ''workspaceId'') (getProp m ''workspaceId'')" if "map_of r ''workspaceId'' \<noteq> None"
        using workspace(3) [OF that] workspace(1) r(2) by (simp add: memberOf_def getProp_normRecord m strictEq_def)
      then show ?thesis using workspace(1) r(2) by (auto simp: hasMember_def map_of_normRecord)
    qed
    then have "mapR ?f (readBack loc (so_records source kind)) = Inr (map (\<lambda>_. []) (readBack loc (so_records source kind)))" by (rule mapR_map)
    then show ?thesis unfolding scopeIssues_def records by simp
  qed
  have "revisionReferences rs vs v = []" if "v \<in> set (readBack loc (so_records source KRevisions))" for v
  proof -
    obtain r where r: "r \<in> set (so_records source KRevisions)" "v = JObj (normRecord r)" using \<open>v \<in> _\<close> by (auto simp: member_readBack)
    then have "distinct (map fst r)" "revisionLinked (so_records source) r" using source by (auto simp: exportable_def)
    then show ?thesis using r(2) ids(2,4)
      by (auto simp: revisionReferences_def revisionLinked_def memberOf_def getProp_normRecord asString_eq_Some split: option.splits)
  qed
  moreover have "mapR (scopeIssues m records) archiveRecordKinds = Inr (map (\<lambda>_. []) archiveRecordKinds)"
    by (rule mapR_map) (rule scope)
  ultimately show ?thesis by (simp add: validateScopeAndReferences_def records ids(1,3))
qed

lemma mset_sortRecords: "mset (sortRecords loc rs) = mset rs"
  by (simp add: sortRecords_def)

lemma memberOf_normRecord: "distinct (map fst r) \<Longrightarrow> memberOf (JObj (normRecord r)) k = normJson (memberOf (JObj r) k)"
  by (simp add: memberOf_def getProp_normRecord)

lemma norm_texts:
  assumes "distinct (map fst r)"
  shows "eventHashText (JObj (normRecord r)) = eventHashText (JObj r)"
    and "isRoot (JObj (normRecord r)) \<longleftrightarrow> isRoot (JObj r)"
proof -
  show "eventHashText (JObj (normRecord r)) = eventHashText (JObj r)"
    unfolding eventHashText_def memberOf_normRecord [OF assms] by (cases "memberOf (JObj r) ''eventHash''") simp_all
  show "isRoot (JObj (normRecord r)) \<longleftrightarrow> isRoot (JObj r)"
    unfolding isRoot_def memberOf_normRecord [OF assms] by simp
qed

lemma linked_norm:
  "\<forall>r \<in> set chain. distinct (map fst r) \<Longrightarrow> linked (map JObj chain) \<Longrightarrow> linked (map (\<lambda>r. JObj (normRecord r)) chain)"
  by (induction chain rule: induct_list012) (simp_all add: memberOf_normRecord)

text \<open>The ends that the assembler writes into the manifest are those of the chain.\<close>

lemma find_unique: "x \<in> set xs \<Longrightarrow> P x \<Longrightarrow> (\<And>y. y \<in> set xs \<Longrightarrow> P y \<Longrightarrow> y = x) \<Longrightarrow> List.find P xs = Some x"
proof -
  assume x: "x \<in> set xs" "P x" and unique: "\<And>y. y \<in> set xs \<Longrightarrow> P y \<Longrightarrow> y = x"
  then obtain y where y: "List.find P xs = Some y" using find_None_iff_all [of P xs] by (cases "List.find P xs") blast+
  then show ?thesis using unique [of y] find_SomeD [OF y] by simp
qed

lemma set_map_filter: "h \<in> set (List.map_filter f xs) \<longleftrightarrow> (\<exists>x \<in> set xs. f x = Some h)"
  by (induction xs) (auto simp: map_filter_simps split: option.splits)

lemma previousText_record: "h \<noteq> [] \<Longrightarrow> h = previousText (JObj r) \<longleftrightarrow> getProp r ''previousEventHash'' = JStr h"
  by (auto simp: previousText_def memberOf_def split: json.splits)

lemma lineage_ends:
  assumes chain: "mset chain = mset (so_records source KAuditEvents)" "hashed (map JObj chain)" "linked (map JObj chain)"
    and root: "getProp (hd chain) ''previousEventHash'' \<in> {JNull, JUndef}" and ne: "chain \<noteq> []"
  shows "al_firstEventHash (auditLineageOf source) = Some (eventHashText (JObj (hd chain)))"
    and "al_lastEventHash (auditLineageOf source) = Some (eventHashText (JObj (last chain)))"
proof -
  let ?events = "so_records source KAuditEvents" and ?H = "\<lambda>r. eventHashText (JObj r)"
  have set: "set ?events = set chain" using mset_eq_setD [OF chain(1)] by simp
  have hash: "getProp r ''eventHash'' = JStr (?H r)" if "r \<in> set chain" for r
    using sha_string [of "JObj r"] chain(2) that by (simp add: hashed_def memberOf_def)
  have "isRoot (hd (map JObj chain))" using root ne by (auto simp: isRoot_def memberOf_def hd_map)
  note refs = chain_references [OF chain(3,2) this]
  have first: "getProp r ''previousEventHash'' \<in> {JNull, JUndef} \<longleftrightarrow> r = hd chain" if "r \<in> set chain" for r
    using root_first [OF chain(3,2), of "JObj r"] that root ne by (auto simp: isRoot_def memberOf_def hd_map)
  have "List.find (\<lambda>e. getProp e ''previousEventHash'' \<in> {JNull, JUndef}) ?events = Some (hd chain)"
    by (rule find_unique) (use ne root first set in auto)
  then show "al_firstEventHash (auditLineageOf source) = Some (?H (hd chain))"
    using hash [of "hd chain"] ne by (simp add: auditLineageOf_def Let_def)
  let ?referenced = "List.map_filter (\<lambda>e. asString (getProp e ''previousEventHash'')) ?events"
  have "set ?referenced = set (references (map JObj chain))"
  proof -
    have nonempty: "h \<noteq> []" if "r \<in> set chain" "getProp r ''previousEventHash'' = JStr h" for r h
      using first [OF that(1)] root_first [OF chain(3,2), of "JObj r"] that root ne by (auto simp: isRoot_def memberOf_def hd_map)
    have left: "h \<in> set (references (map JObj chain)) \<longleftrightarrow> h \<noteq> [] \<and> (\<exists>r \<in> set chain. getProp r ''previousEventHash'' = JStr h)" for h
      using previousText_record [of h] by (auto simp: references_def image_iff)
    have right: "h \<in> set ?referenced \<longleftrightarrow> (\<exists>r \<in> set chain. getProp r ''previousEventHash'' = JStr h)" for h
      by (simp add: set_map_filter set asString_eq_Some)
    show ?thesis by (rule set_eqI) (unfold left right, use nonempty in auto)
  qed
  also have "\<dots> = ?H ` set (butlast chain)" using refs ne by (simp add: map_butlast flip: map_butlast)
  finally have referenced: "set ?referenced = ?H ` set (butlast chain)" .
  have hashes: "set (List.map_filter (\<lambda>e. asString (getProp e ''eventHash'')) ?events) = ?H ` set chain"
    using hash by (auto simp: set_map_filter set asString_eq_Some image_iff set_eq_iff)
  have parts: "set chain = insert (last chain) (set (butlast chain))" "?H (last chain) \<notin> ?H ` set (butlast chain)"
  proof -
    have "map ?H chain = map ?H (butlast chain) @ [?H (last chain)]" using arg_cong [OF append_butlast_last_id [OF ne], of "map ?H"] by simp
    moreover have "distinct (map ?H chain)" using chain(2) by (simp add: hashed_def comp_def)
    ultimately show "?H (last chain) \<notin> ?H ` set (butlast chain)" by simp
    show "set chain = insert (last chain) (set (butlast chain))" using arg_cong [OF append_butlast_last_id [OF ne], of set] by auto
  qed
  have "List.find (\<lambda>h. h \<notin> set ?referenced) (List.map_filter (\<lambda>e. asString (getProp e ''eventHash'')) ?events) = Some (?H (last chain))"
    by (rule find_unique) (unfold referenced hashes, use parts in auto)
  then show "al_lastEventHash (auditLineageOf source) = Some (?H (last chain))" by (simp add: auditLineageOf_def Let_def)
qed

lemma lineage_readBack:
  assumes source: "exportable source" and mf: "tm_auditLineage mf = auditLineageOf source"
  shows "sourceChain (manifestFields mf) (readBack loc (so_records source KAuditEvents))"
proof (cases "so_records source KAuditEvents = []")
  case True
  then show ?thesis
    by (simp add: sourceChain_def readBack_def sortRecords_def mf auditLineageOf_def nullable_def map_filter_simps Let_def)
next
  case False
  let ?events = "so_records source KAuditEvents" and ?n = "\<lambda>r. JObj (normRecord r)"
  obtain chain where chain: "mset chain = mset ?events" "hashed (map JObj chain)" "linked (map JObj chain)"
    "getProp (hd chain) ''previousEventHash'' \<in> {JNull, JUndef}"
    using source False by (auto simp: exportable_def eventsChained_def)
  have ne: "chain \<noteq> []" using chain(1) False by auto
  have keyed: "distinct (map fst r)" if "r \<in> set chain" for r
    using exportable_record(1) [OF source, of r KAuditEvents] mset_eq_setD [OF chain(1)] that by simp
  have perm: "mset (map ?n chain) = mset (readBack loc ?events)" using chain(1) by (simp add: readBack_def mset_sortRecords)
  have texts: "eventHashText (?n r) = eventHashText (JObj r)" "isRoot (?n r) = isRoot (JObj r)" if "r \<in> set chain" for r
    using norm_texts [OF keyed [OF that]] .
  have "map eventHashText (map ?n chain) = map eventHashText (map JObj chain)" using texts(1) by simp
  then have "distinct (map eventHashText (map ?n chain))" using chain(2) by (simp only: hashed_def)
  then have hashed: "hashed (map ?n chain)" using chain(2) texts(1) by (auto simp: hashed_def)
  have ends: "memberOf (?n r) ''eventHash'' = JStr (eventHashText (JObj r))" if "r \<in> set chain" for r
    using sha_string [of "?n r"] hashed texts(1) [OF that] that by (auto simp: hashed_def)
  have "isRoot (hd (map ?n chain))" using texts(2) [of "hd chain"] chain(4) ne by (auto simp: hd_map isRoot_def memberOf_def)
  moreover have "linked (map ?n chain)" using linked_norm [of chain] chain(3) keyed by simp
  moreover have "memberOf (hd (map ?n chain)) ''eventHash'' = JStr (eventHashText (JObj (hd chain)))"
    "memberOf (last (map ?n chain)) ''eventHash'' = JStr (eventHashText (JObj (last chain)))"
    using ends ne by (simp_all add: hd_map last_map)
  moreover have "readBack loc ?events \<noteq> []" using False by (simp add: readBack_def)
  moreover have "al_eventCount (auditLineageOf source) = int (length (readBack loc ?events))"
    by (simp add: auditLineageOf_def readBack_def sortRecords_def Let_def)
  ultimately show ?thesis using perm hashed lineage_ends [OF chain ne]
    by (auto simp: sourceChain_def mf nullable_def Let_def intro!: exI [of _ "map ?n chain"])
qed

definition numberOf :: "json \<Rightarrow> int" where
  "numberOf v = (case v of JNum n \<Rightarrow> n | _ \<Rightarrow> 0)"

lemma blobs_readBack:
  assumes source: "exportable source" and stored: "storesSource sha loc source (map_of entries)"
    and m: "getProp m ''blobCount'' = JNum (int (length (so_blobs source)))" "getProp m ''totalBlobBytes'' = JNum (sum_list (map ab_byteLength (so_blobs source)))"
  shows "validateBlobs sha (Some m) (readBack loc (so_records source KBlobs)) entries = Inr []"
proof -
  let ?rs = "so_records source KBlobs" and ?pair = "\<lambda>r. (getProp r ''sha256'', getProp r ''byteLength'')"
  have same: "mset (map ?pair ?rs) = mset (map (\<lambda>b. (JStr (ab_sha256 b), JNum (ab_byteLength b))) (so_blobs source))"
    using source by (simp add: exportable_def blobsDescribed_def)
  have size: "length ?rs = length (so_blobs source)" using mset_eq_length [OF same] by simp
  have total: "sum_list (map (\<lambda>r. numberOf (getProp r ''byteLength'')) ?rs) = sum_list (map ab_byteLength (so_blobs source))"
  proof -
    have "image_mset (\<lambda>p. numberOf (snd p)) (mset (map ?pair ?rs))
        = image_mset (\<lambda>p. numberOf (snd p)) (mset (map (\<lambda>b. (JStr (ab_sha256 b), JNum (ab_byteLength b))) (so_blobs source)))"
      by (simp only: same)
    then have "mset (map (\<lambda>r. numberOf (getProp r ''byteLength'')) ?rs) = mset (map ab_byteLength (so_blobs source))"
      by (simp add: multiset.map_comp comp_def numberOf_def)
    then show ?thesis by (metis sum_mset_sum_list)
  qed
  have "blobIssues sha entries v = Inr ([], numberOf (memberOf v ''byteLength''))" if "v \<in> set (readBack loc ?rs)" for v
  proof -
    obtain r where r: "r \<in> set ?rs" "v = JObj (normRecord r)" using \<open>v \<in> _\<close> by (auto simp: member_readBack)
    have keys: "distinct (map fst r)" by (rule exportable_record(1) [OF source r(1)])
    have "?pair r \<in> set (map (\<lambda>b. (JStr (ab_sha256 b), JNum (ab_byteLength b))) (so_blobs source))"
      unfolding mset_eq_setD [OF same, symmetric] using r(1) by simp
    then obtain b where b: "b \<in> set (so_blobs source)" "getProp r ''sha256'' = JStr (ab_sha256 b)" "getProp r ''byteLength'' = JNum (ab_byteLength b)" by auto
    then have "storedBlob sha (map_of entries) b" using stored by (simp add: storesSource_def)
    then show ?thesis using b(2,3) keys
      by (auto simp: blobIssues_def r(2) member_def memberOf_def getProp_normRecord storedBlob_def blobArchivePath_def blobPath_def numberOf_def)
  qed
  then have "mapR (blobIssues sha entries) (readBack loc ?rs) = Inr (map (\<lambda>v. ([], numberOf (memberOf v ''byteLength''))) (readBack loc ?rs))"
    by (rule mapR_map)
  moreover have "sum_list (map (\<lambda>v. numberOf (memberOf v ''byteLength'')) (readBack loc ?rs)) = sum_list (map (\<lambda>r. numberOf (getProp r ''byteLength'')) ?rs)"
  proof -
    have norm: "numberOf (memberOf (JObj (normRecord r)) ''byteLength'') = numberOf (getProp r ''byteLength'')" if "r \<in> set ?rs" for r
      using exportable_record(1) [OF source that] by (cases "getProp r ''byteLength''") (simp_all add: memberOf_def getProp_normRecord numberOf_def)
    have "mset (map (\<lambda>v. numberOf (memberOf v ''byteLength'')) (readBack loc ?rs)) = mset (map (\<lambda>r. numberOf (getProp r ''byteLength'')) ?rs)"
    proof -
      have "map (\<lambda>v. numberOf (memberOf v ''byteLength'')) (readBack loc ?rs) = map (\<lambda>r. numberOf (getProp r ''byteLength'')) (sortRecords loc ?rs)"
        using norm by (simp add: readBack_def)
      then show ?thesis by (simp add: mset_sortRecords)
    qed
    then show ?thesis by (metis sum_mset_sum_list)
  qed
  moreover have "length (readBack loc ?rs) = length (so_blobs source)" by (simp add: readBack_def sortRecords_def size)
  ultimately show ?thesis using total m by (simp add: validateBlobs_def comp_def)
qed

section \<open>The assembly succeeds\<close>

text \<open>Blobs that are what they claim, once each, and records that can be encoded.\<close>

definition encodable :: "(bytes \<Rightarrow> string) \<Rightarrow> archiveSource \<Rightarrow> bool" where
  "encodable sha source \<longleftrightarrow> distinct (map ab_sha256 (so_blobs source))
     \<and> (\<forall>b \<in> set (so_blobs source). int (length (ab_bytes b)) = ab_byteLength b \<and> sha (ab_bytes b) = ab_sha256 b)
     \<and> (\<forall>kind. \<forall>r \<in> set (so_records source kind). \<not> hasUndef (JObj r))"

lemma addEntry_ok: "isOk (assertSafeArchivePath p) \<Longrightarrow> p \<notin> fst ` set es \<Longrightarrow> addEntry es p b = Inr (es @ [(p, b)])"
  by (simp add: addEntry_Inr)

lemma lower_hex_plain: "lower_hex c \<Longrightarrow> \<not> controlChar c \<and> c \<noteq> CHR 0x5C \<and> c \<noteq> CHR ''/'' \<and> c \<noteq> CHR ''.''"
  by (auto simp: lower_hex_def controlChar_def Let_def)

lemma blobPath_safe:
  assumes "isSha256 d"
  shows "isOk (assertSafeArchivePath (blobPath d))"
proof -
  have d: "length d = 64" "\<And>c. c \<in> set d \<Longrightarrow> lower_hex c" using assms by (auto simp: isSha256_def list_all_iff)
  then have two: "c \<in> set (take 2 d) \<Longrightarrow> lower_hex c" for c by (meson in_set_takeD)
  have plain: "c \<in> set d \<union> set (take 2 d) \<Longrightarrow> \<not> controlChar c \<and> c \<noteq> CHR 0x5C \<and> c \<noteq> CHR ''/'' \<and> c \<noteq> CHR ''.''" for c
    using lower_hex_plain d(2) two by blast
  have "blobPath d = join ''/'' [''blobs'', take 2 d, d]" by (simp add: blobPath_def)
  then have "split_on (CHR ''/'') (blobPath d) = [''blobs'', take 2 d, d]"
    using plain by (simp only:, intro split_on_join) auto
  moreover have "d \<noteq> [] \<and> d \<noteq> ''.'' \<and> d \<noteq> ''..''" "take 2 d \<noteq> [] \<and> take 2 d \<noteq> ''.'' \<and> take 2 d \<noteq> ''..''"
    using d(1) plain [of "CHR ''.''"] by auto
  moreover have "\<not> controlChar (CHR ''b'')" "\<not> controlChar (CHR ''l'')" "\<not> controlChar (CHR ''o'')" "\<not> controlChar (CHR ''s'')" "\<not> controlChar (CHR ''/'')"
    by (simp_all add: controlChar_def)
  then have "\<not> list_ex controlChar (blobPath d)" "CHR 0x5C \<notin> set (blobPath d)"
    using plain by (auto simp: blobPath_def list_ex_iff)
  moreover have "length (blobPath d) = 73" using d(1) by (simp add: blobPath_def)
  ultimately show ?thesis by (simp add: assertSafeArchivePath_def startsWith_def blobPath_def letter_def Let_def)
qed

lemma recordPath_safe: "isOk (assertSafeArchivePath (recordPath kind))"
  by (cases kind) (simp_all add: recordPath_def assertSafeArchivePath_def startsWith_def letter_def controlChar_def)

lemma blobPath_inj: "isSha256 d \<Longrightarrow> isSha256 e \<Longrightarrow> blobPath d = blobPath e \<longleftrightarrow> d = e"
  by (auto simp: blobPath_def isSha256_def)

lemma foldBlobs_ok:
  assumes "\<forall>b \<in> set bs. isSha256 (ab_sha256 b) \<and> int (length (ab_bytes b)) = ab_byteLength b \<and> sha (ab_bytes b) = ab_sha256 b"
    and "distinct (map ab_sha256 bs)" and "\<forall>b \<in> set bs. blobPath (ab_sha256 b) \<notin> fst ` set es"
  shows "\<exists>fs. foldR (addBlob sha) es bs = Inr fs \<and> fst ` set fs \<subseteq> fst ` set es \<union> range blobPath"
  using assms
proof (induction bs arbitrary: es)
  case (Cons b bs)
  let ?p = "blobPath (ab_sha256 b)"
  have "addBlob sha es b = addEntry es ?p (ab_bytes b)" using Cons.prems(1) by (simp add: addBlob_def blobArchivePath_def blobPath_def)
  then have add: "addBlob sha es b = Inr (es @ [(?p, ab_bytes b)])" using Cons.prems addEntry_ok blobPath_safe by simp
  have "blobPath (ab_sha256 c) \<noteq> ?p" if "c \<in> set bs" for c
    using blobPath_inj [of "ab_sha256 c" "ab_sha256 b"] Cons.prems(1,2) that by (auto simp: rev_image_eqI)
  then obtain fs where "foldR (addBlob sha) (es @ [(?p, ab_bytes b)]) bs = Inr fs" "fst ` set fs \<subseteq> fst ` set (es @ [(?p, ab_bytes b)]) \<union> range blobPath"
    using Cons.IH [of "es @ [(?p, ab_bytes b)]"] Cons.prems by auto
  then show ?case using add by auto
qed auto

lemma foldRecords_ok:
  assumes "\<forall>kind \<in> set kinds. \<forall>r \<in> set (recs kind). \<not> hasUndef (JObj r)"
    and "distinct kinds" and "\<forall>kind \<in> set kinds. recordPath kind \<notin> fst ` set es"
  shows "\<exists>fs. foldR (addRecords loc recs) es kinds = Inr fs \<and> fst ` set fs \<subseteq> fst ` set es \<union> range recordPath"
  using assms
proof (induction kinds arbitrary: es)
  case (Cons k kinds)
  let ?es = "if recs k = [] then es else es @ [(recordPath k, utf8 (recordText loc (recs k)))]"
  have "mapR (\<lambda>r. canonicalJson (JObj r)) (sortRecords loc (recs k)) = Inr (map recordLine (sortRecords loc (recs k)))"
    using Cons.prems(1) by (subst mapR_lines) simp
  then have add: "addRecords loc recs es k = Inr ?es"
    using Cons.prems(3) by (simp add: addRecords_def recordText_def addEntry_ok recordPath_safe del: utf8_append canonicalJson.simps)
  have "\<forall>kind \<in> set kinds. recordPath kind \<notin> fst ` set ?es" using Cons.prems(2,3) by (auto simp: recordPath_inj)
  then obtain fs where "foldR (addRecords loc recs) ?es kinds = Inr fs" "fst ` set fs \<subseteq> fst ` set ?es \<union> range recordPath"
    using Cons.IH [of ?es] Cons.prems(1,2) by (metis distinct.simps(2) list.set_intros(2))
  then show ?case using add by (auto split: if_splits)
qed auto

lemma manifest_encodable: "\<not> hasUndef (manifestJson mf)"
proof -
  have "\<not> hasUndefArr (map JStr xs)" for xs by (induction xs) auto
  then show ?thesis
    by (cases "tm_signatureProfile mf") (simp_all add: manifestJson_def lineageJson_def nullable_def archiveRecordKinds_def split: option.splits)
qed

lemma manifestText_ok: "\<exists>t. manifestText mf = Inr t"
  using manifest_encodable [of mf] by (simp add: manifestText_def canonicalJson_eq del: canonicalJson.simps)

lemma fixed_paths_safe: "isOk (assertSafeArchivePath checksumPath)" "isOk (assertSafeArchivePath manifestSignaturePath)"
  "isOk (assertSafeArchivePath ''manifest.json'')" "isOk (assertSafeArchivePath ''README.txt'')"
  by (simp_all add: assertSafeArchivePath_def startsWith_def letter_def controlChar_def)

lemma assembly_ok:
  assumes sha: "\<And>b. isSha256 (sha b)" and source: "encodable sha source"
  shows "\<exists>fs. assembleArchiveEntries sha loc source = Inr (fs, manifestOf source)"
proof -
  let ?bs = "Sorting_Algorithms.sort (Comparator.key ab_sha256 loc) (so_blobs source)"
  have bs: "set ?bs = set (so_blobs source)" "distinct (map ab_sha256 ?bs) \<longleftrightarrow> distinct (map ab_sha256 (so_blobs source))" by (rule sort_keeps)+
  have "\<forall>b \<in> set ?bs. isSha256 (ab_sha256 b) \<and> int (length (ab_bytes b)) = ab_byteLength b \<and> sha (ab_bytes b) = ab_sha256 b"
    using source sha unfolding bs(1) encodable_def by metis
  then obtain e1 where e1: "foldR (addBlob sha) [] ?bs = Inr e1" "fst ` set e1 \<subseteq> range blobPath"
    using foldBlobs_ok [of ?bs sha "[]"] bs(2) source by (auto simp: encodable_def)
  have "\<forall>kind \<in> set archiveRecordKinds. recordPath kind \<notin> fst ` set e1" 
  proof
    fix kind
    have "recordPath kind \<notin> range blobPath" by (auto simp: recordPath_def blobPath_def)
    then show "recordPath kind \<notin> fst ` set e1" using e1(2) by blast
  qed
  moreover have "distinct archiveRecordKinds" by (simp add: archiveRecordKinds_def)
  ultimately obtain e2 where e2: "foldR (addRecords loc (so_records source)) e1 archiveRecordKinds = Inr e2" "fst ` set e2 \<subseteq> fst ` set e1 \<union> range recordPath"
    using foldRecords_ok [of archiveRecordKinds "so_records source" e1 loc] source unfolding encodable_def by blast
  have fresh: "''manifest.json'' \<notin> fst ` set e2" "''README.txt'' \<notin> fst ` set e2" "checksumPath \<notin> fst ` set e2"
  proof -
    have outside: "p \<notin> fst ` set e2" if "p \<notin> range blobPath" "p \<notin> range recordPath" for p using e1(2) e2(2) that by blast
    show "''manifest.json'' \<notin> fst ` set e2" "''README.txt'' \<notin> fst ` set e2" "checksumPath \<notin> fst ` set e2"
      by (rule outside; force simp: recordPath_def blobPath_def)+
  qed
  obtain t where "manifestText (manifestOf source) = Inr t" using manifestText_ok by blast
  then show ?thesis using e1(1) e2(1) fresh by (simp add: assembleArchiveEntries_def addEntry_ok fixed_paths_safe)
qed

section \<open>Assembled archives verify\<close>

definition withinLimits :: "verificationLimits \<Rightarrow> entries \<Rightarrow> bool" where
  "withinLimits limits es \<longleftrightarrow> int (length es) \<le> vl_maxEntries limits \<and> (\<forall>b \<in> snd ` set es. int (length b) \<le> vl_maxEntryBytes limits)
     \<and> sum_list (map (\<lambda>(_, b). int (length b)) es) \<le> vl_maxTotalBytes limits"

lemma sizeIssues_none:
  "withinLimits limits es \<Longrightarrow> \<forall>p \<in> fst ` set es. isOk (assertSafeArchivePath p) \<Longrightarrow> sizeIssues limits es = []"
  by (force simp: withinLimits_def sizeIssues_def)

definition verifies :: "string comparator \<Rightarrow> archiveSource \<Rightarrow> trustArchiveManifest \<Rightarrow> archiveReport \<Rightarrow> bool" where
  "verifies loc source mf report \<longleftrightarrow> rp_valid report \<and> rp_issues report = [] \<and> rp_manifest report = Some (manifestFields mf)
     \<and> (\<forall>kind. recordsOf (rp_records report) kind = readBack loc (so_records source kind))"

lemma stored_archive_verifies:
  assumes codec: "text_codec (cd_decode cd) (cd_parse cd)" and source: "exportable source"
    and stored: "storesSource (cd_sha cd) loc source (map_of entries)"
    and mf: "mf = (manifestOf source)\<lparr>tm_formatVersion := v, tm_signatureProfile := p\<rparr>" "coherent mf"
    and written: "manifestText mf = Inr t" "map_of entries ''manifest.json'' = Some (utf8 t)"
    and checksums: "readChecksums (cd_decode cd) entries = ([], checksums)" "checksumIssues (cd_sha cd) entries checksums = []"
    and sizes: "sizeIssues limits entries = []" and profile: "profileIssues d (Some (manifestFields mf)) entries = []"
  shows "\<exists>report. verifyArchiveEntriesBase cd entries limits d = Inr report \<and> verifies loc source mf report"
proof -
  let ?m = "manifestFields mf"
  let ?g = "\<lambda>kind. if so_records source kind = [] then None else Some (readBack loc (so_records source kind))"
  have manifest: "readManifest (cd_decode cd) (cd_parse cd) entries = ([], Some ?m)"
    by (rule text_codec.readManifest_written [OF codec mf(2) written])
  have "\<forall>kind \<in> set archiveRecordKinds. readRecords (cd_decode cd) (cd_parse cd) (Some ?m) entries kind = Inr ([], ?g kind)"
  proof
    fix kind
    have "lineCount ?m kind = Inr (JNum (int (length (so_records source kind))))"
      unfolding lineCount_manifest by (simp add: mf(1) manifestOf_def)
    then show "readRecords (cd_decode cd) (cd_parse cd) (Some ?m) entries kind = Inr ([], ?g kind)"
      using text_codec.readRecords_stored [OF codec stored _, of kind ?m] exportable_record(2) [OF source, of _ kind]
      by (simp add: readBack_def)
  qed
  from readKinds_ok [OF this] have records: "readKinds (readRecords (cd_decode cd) (cd_parse cd) (Some ?m) entries) archiveRecordKinds = Inr ([], ?g)"
    by simp
  have again: "recordsOf ?g kind = readBack loc (so_records source kind)" for kind
    by (simp add: recordsOf_def readBack_def)
  have "validateScopeAndReferences (Some ?m) ?g = Inr []"
    by (rule scope_readBack [OF source _ again]) (simp add: mf(1) manifestOf_def)
  moreover have "validateAuditLineage (cd_str cd) (Some ?m) (readBack loc (so_records source KAuditEvents)) = []"
    unfolding lineage_verified_iff by (rule lineage_readBack [OF source]) (simp add: mf(1) manifestOf_def)
  moreover have "validateBlobs (cd_sha cd) (Some ?m) (readBack loc (so_records source KBlobs)) entries = Inr []"
    by (rule blobs_readBack [OF source stored]) (simp_all add: mf(1) manifestOf_def)
  ultimately show ?thesis
    using checksums manifest records sizes profile again by (simp add: verifyArchiveEntriesBase_def verifies_def)
qed

lemma plain_safe: "plainEntries es \<Longrightarrow> p \<in> fst ` set es \<Longrightarrow> isOk (assertSafeArchivePath p)"
  by (auto simp: plainEntries_def plainPath_def pathOk_def)

lemma plain_fresh:
  assumes "plainEntries es"
  shows "map_of es checksumPath = None" "map_of es manifestSignaturePath = None"
proof -
  have "plainPath p" if "p \<in> fst ` set es" for p using assms that by (auto simp: plainEntries_def)
  moreover have "\<not> plainPath checksumPath" "\<not> plainPath manifestSignaturePath" by (simp_all add: plainPath_def signatureEntry_def startsWith_def)
  ultimately show "map_of es checksumPath = None" "map_of es manifestSignaturePath = None" unfolding map_of_eq_None_iff by blast+
qed

context text_codec
begin

lemma assembled_reads:
  assumes sha: "\<And>b. isSha256 (sha b)" and es: "plainEntries es" "es \<noteq> []"
    and fs: "fs = es @ [(checksumPath, utf8 (checksumText sha loc es))]"
  shows "\<exists>checksums. readChecksums decode fs = ([], checksums) \<and> checksumIssues sha fs checksums = []"
proof -
  have "map_of fs checksumPath = Some (utf8 (checksumText sha loc es))" using plain_fresh(1) [OF es(1)] by (simp add: fs map_add_def)
  moreover have "distinct (map fst es)" "\<forall>p \<in> fst ` set es. pathOk p" using es(1) by (auto simp: plainEntries_def plainPath_def)
  ultimately have "readChecksums decode fs = ([], map (\<lambda>(p, b). (p, sha b)) (Sorting_Algorithms.sort (Comparator.key fst loc) es))"
    using readChecksums_text [where sha = sha and loc = loc and es = es and entries = fs] sha es(2) by simp
  moreover have "filter checksummed fs = es" using plain_checksummed [OF es(1)] by (simp add: fs)
  moreover have "distinct (map fst fs)" using es(1) plain_fresh(1) [OF es(1)] by (simp add: fs plainEntries_def map_of_eq_None_iff)
  ultimately show ?thesis using own_checksums [of fs sha "Comparator.key fst loc"] by (intro exI conjI) simp_all
qed

end

lemma coherent_manifestOf: "exportable source \<Longrightarrow> coherent (manifestOf source)"
  by (simp add: coherent_def manifestOf_def auditLineageOf_def exportable_def Let_def)

lemma assembled_verifies:
  assumes sha: "\<And>b. isSha256 (cd_sha cd b)" and codec: "text_codec (cd_decode cd) (cd_parse cd)" and source: "exportable source"
    and made: "assembleArchiveEntries (cd_sha cd) loc source = Inr (fs, mf)" and limits: "withinLimits limits fs"
  shows "\<exists>report. verifyArchiveEntries cd fs limits = Inr report \<and> verifies loc source mf report"
proof -
  obtain es t where es: "plainEntries es" "fs = es @ [(checksumPath, utf8 (checksumText (cd_sha cd) loc es))]" "mf = manifestOf source"
    "manifestText mf = Inr t" "map_of es ''manifest.json'' = Some (utf8 t)" "storesSource (cd_sha cd) loc source (map_of es)"
    using assembled_contents [OF made] by metis
  have look: "map_of fs p = map_of es p" if "p \<noteq> checksumPath" for p using that by (simp add: es(2) map_add_def split: option.splits)
  have "storesSource (cd_sha cd) loc source (map_of fs)" using es(6) by (simp add: storesSource_def storedBlob_def look recordPath_def blobPath_def)
  moreover obtain checksums where "readChecksums (cd_decode cd) fs = ([], checksums)" "checksumIssues (cd_sha cd) fs checksums = []"
    using text_codec.assembled_reads [where sha = "cd_sha cd", OF codec sha es(1) _ es(2)] es(5) by fastforce
  moreover have "sizeIssues limits fs = []"
    using plain_safe [OF es(1)] fixed_paths_safe(1) by (intro sizeIssues_none [OF limits]) (auto simp: es(2))
  moreover have "profileIssues False (Some (manifestFields mf)) fs = []"
    using plain_fresh(2) [OF es(1)] by (auto simp: profileIssues_def es(3) manifestOf_def look)
  ultimately show ?thesis unfolding verifyArchiveEntries_def
    using stored_archive_verifies [OF codec source, where entries = fs and mf = mf and v = "''0.2''" and p = Unsigned and t = t]
      es(3,4,5) look coherent_manifestOf [OF source] by (simp add: manifestOf_def)
qed

section \<open>Signed archives verify\<close>

lemma signing_steps:
  assumes "signArchiveEntries sha loc sc signer (es, mf) = Inr (fs, mf')"
  obtains t s artifact where
    "mf' = mf\<lparr>tm_formatVersion := ''0.3'', tm_signatureProfile := ManifestSignature (sg_keyId signer)\<rparr>" "manifestText mf' = Inr t"
    "validKeyId (JStr (sg_keyId signer))"
    "sg_signManifest signer (signaturePayload sha (utf8 t) (checksumFile sha loc (AList.update ''manifest.json'' (utf8 t) es))) = Inr s" "s \<noteq> []"
    "canonicalJson (artifactJson (sg_keyId signer) (sc_toBase64 sc s)) = Inr artifact"
    "fs = AList.update manifestSignaturePath (utf8 (artifact @ [CHR 0x0A])) (AList.update checksumPath
       (checksumFile sha loc (AList.update ''manifest.json'' (utf8 t) es)) (AList.update ''manifest.json'' (utf8 t) es))"
  using assms that by (auto simp: signArchiveEntries_def seqR_eq_Inr Let_def simp del: utf8_append canonicalJson.simps split: if_splits)

text \<open>What the code relies on of \<open>Buffer\<close>: base64 text is padded and decodes to its bytes.\<close>

definition base64Ok :: "signatureCodec \<Rightarrow> bool" where
  "base64Ok sc \<longleftrightarrow> (\<forall>b. sc_fromBase64 sc (sc_toBase64 sc b) = b \<and> base64Text (sc_toBase64 sc b) \<and> length (sc_toBase64 sc b) mod 4 = 0
     \<and> (sc_toBase64 sc b = [] \<longrightarrow> b = []))"

lemma decodeBase64_ok: "base64Ok sc \<Longrightarrow> s \<noteq> [] \<Longrightarrow> decodeBase64 sc (sc_toBase64 sc s) = Some s"
  by (auto simp: base64Ok_def decodeBase64_def)

definition artifactKeys :: "string list" where
  "artifactKeys = [''profile'', ''algorithm'', ''keyId'', ''signedEntries'', ''signatureEncoding'', ''signature'']"

lemma artifactKeys_sorted: "join '','' (List.sort artifactKeys) = ''algorithm,keyId,profile,signature,signatureEncoding,signedEntries''"
  by code_simp

lemma sort_sorted_keys: "List.sort (map fst (normRecord r)) = List.sort (map fst r)"
proof -
  have "mset (map fst (normRecord r)) = mset (map fst (normObj r))" unfolding normRecord_def by simp
  then have "mset (map fst (normRecord r)) = mset (map fst r)" unfolding normObj_keys .
  then show ?thesis by (intro properties_for_sort) simp_all
qed

context text_codec
begin

lemma artifact_reads:
  assumes cd: "cd_decode cd = decode" "cd_parse cd = parse" and k: "validKeyId (JStr k)"
    and artifact: "canonicalJson (artifactJson k s) = Inr artifact"
  shows "readSignatureArtifact cd (utf8 (artifact @ [CHR 0x0A])) = Some (k, s)"
proof -
  obtain r where r: "artifactJson k s = JObj r" "map fst r = artifactKeys" "distinct (map fst r)" "wellKeyed (JObj r)"
    by (simp add: artifactJson_def artifactKeys_def)
  then have "parse (artifact @ [CHR 0x0A]) = Some (JObj (normRecord r))"
    using parse_print [OF artifact, of "[CHR 0x0A]"] by (simp add: isWs_def normRecord_def)
  moreover have "getProp (normRecord r) key' = normJson (memberOf (artifactJson k s) key')" for key'
    using getProp_normRecord [OF r(3)] r(1) by (simp add: memberOf_def)
  moreover have "memberOf (artifactJson k s) ''profile'' = JStr ''trust-core-manifest-signature-v1''" "memberOf (artifactJson k s) ''algorithm'' = JStr ''Ed25519''"
    "memberOf (artifactJson k s) ''keyId'' = JStr k" "memberOf (artifactJson k s) ''signature'' = JStr s"
    "memberOf (artifactJson k s) ''signedEntries'' = JArr [JStr ''manifest.json'', JStr checksumPath]" "memberOf (artifactJson k s) ''signatureEncoding'' = JStr ''base64''"
    by (simp_all add: artifactJson_def memberOf_def getProp_def)
  ultimately show ?thesis
    using sort_sorted_keys [of r] artifactKeys_sorted k r(2) decode_utf8 [of "artifact @ [CHR 0x0A]"]
    by (simp add: readSignatureArtifact_def cd del: utf8_append)
qed

end

lemma signed_lookup:
  assumes "fs = AList.update manifestSignaturePath a (AList.update checksumPath c (AList.update ''manifest.json'' m es))"
  shows "map_of fs ''manifest.json'' = Some m" "map_of fs checksumPath = Some c" "map_of fs manifestSignaturePath = Some a"
    and "p \<notin> {''manifest.json'', checksumPath, manifestSignaturePath} \<Longrightarrow> map_of fs p = map_of es p"
    and "fst ` set fs = fst ` set es \<union> {''manifest.json'', checksumPath, manifestSignaturePath}"
proof -
  show "map_of fs ''manifest.json'' = Some m" "map_of fs checksumPath = Some c" "map_of fs manifestSignaturePath = Some a"
    "p \<notin> {''manifest.json'', checksumPath, manifestSignaturePath} \<Longrightarrow> map_of fs p = map_of es p"
    unfolding assms update_conv by simp_all
  show "fst ` set fs = fst ` set es \<union> {''manifest.json'', checksumPath, manifestSignaturePath}"
    unfolding assms dom_update by blast
qed

lemma signed_verifies:
  assumes sha: "\<And>b. isSha256 (cd_sha cd b)" and codec: "text_codec (cd_decode cd) (cd_parse cd)" and base64: "base64Ok sc"
    and scheme: "\<And>payload s. payloadOf (cd_sha cd) fs = Some payload \<Longrightarrow> sg_signManifest signer payload = Inr s
      \<Longrightarrow> verify (sg_keyId signer) payload s = Inr SignatureValid"
    and source: "exportable source" and made: "assembleArchiveEntries (cd_sha cd) loc source = Inr (es, mf)"
    and signed: "signArchiveEntries (cd_sha cd) loc sc signer (es, mf) = Inr (fs, mf')" and limits: "withinLimits limits fs"
  shows "\<exists>report. verifyArchiveEntriesWithSignatures cd sc verify fs limits = Inr report \<and> verifies loc source mf' report"
proof -
  obtain plain where plain: "plainEntries plain" "es = plain @ [(checksumPath, utf8 (checksumText (cd_sha cd) loc plain))]" "mf = manifestOf source"
    "storesSource (cd_sha cd) loc source (map_of plain)" "map_of plain ''manifest.json'' \<noteq> None"
    using assembled_contents [OF made] by (metis option.distinct(1))
  obtain t s artifact where sign: "mf' = mf\<lparr>tm_formatVersion := ''0.3'', tm_signatureProfile := ManifestSignature (sg_keyId signer)\<rparr>"
    "manifestText mf' = Inr t" "validKeyId (JStr (sg_keyId signer))"
    "sg_signManifest signer (signaturePayload (cd_sha cd) (utf8 t) (checksumFile (cd_sha cd) loc (AList.update ''manifest.json'' (utf8 t) es))) = Inr s"
    "s \<noteq> []" "canonicalJson (artifactJson (sg_keyId signer) (sc_toBase64 sc s)) = Inr artifact"
    and fs: "fs = AList.update manifestSignaturePath (utf8 (artifact @ [CHR 0x0A])) (AList.update checksumPath
       (checksumFile (cd_sha cd) loc (AList.update ''manifest.json'' (utf8 t) es)) (AList.update ''manifest.json'' (utf8 t) es))"
    using signing_steps [OF signed] by metis
  note look = signed_lookup [OF fs]
  have mf': "mf' = (manifestOf source)\<lparr>tm_formatVersion := ''0.3'', tm_signatureProfile := ManifestSignature (sg_keyId signer)\<rparr>"
    using sign(1) plain(3) by simp
  have coherent: "coherent mf'" using coherent_manifestOf [OF source] sign(3) by (simp add: mf' coherent_def validKeyId_def)
  have unchanged: "map_of fs p = map_of plain p" if "p \<notin> {''manifest.json'', checksumPath, manifestSignaturePath}" for p
    using look(4) [OF that] that by (simp add: plain(2) map_add_def split: option.splits)
  have stored: "storesSource (cd_sha cd) loc source (map_of fs)"
    using plain(4) by (simp add: storesSource_def storedBlob_def unchanged recordPath_def blobPath_def)
  obtain checksums where checksums: "readChecksums (cd_decode cd) fs = ([], checksums)" "checksumIssues (cd_sha cd) fs checksums = []"
    using text_codec.signed_reads [where sha = "cd_sha cd", OF codec sha made signed] by blast
  have sizes: "sizeIssues limits fs = []"
  proof (rule sizeIssues_none [OF limits], rule ballI)
    fix p
    assume "p \<in> fst ` set fs"
    then consider "p \<in> fst ` set plain" | "p = ''manifest.json''" | "p = checksumPath" | "p = manifestSignaturePath"
      unfolding look(5) plain(2) set_append image_Un by (elim UnE insertE emptyE imageE) auto
    moreover have "''manifest.json'' \<in> fst ` set plain" using plain(5) by (metis map_of_eq_None_iff)
    ultimately show "isOk (assertSafeArchivePath p)"
      by cases (simp_all only: plain_safe [OF plain(1)] fixed_paths_safe)
  qed
  have signedProfile: "getProp (manifestFields mf') ''signatureProfile'' \<noteq> JStr ''unsigned''" by (simp add: mf')
  then have "profileIssues True (Some (manifestFields mf')) fs = []" by (simp add: profileIssues_def)
  then obtain report where report: "verifyArchiveEntriesBase cd fs limits True = Inr report" "verifies loc source mf' report"
    using stored_archive_verifies [OF codec source stored mf' coherent sign(2) look(1) checksums sizes] by blast
  have "verifyManifestSignature cd sc verify fs (manifestFields mf') = Inr []"
  proof -
    have "readSignatureArtifact cd (utf8 (artifact @ [CHR 0x0A])) = Some (sg_keyId signer, sc_toBase64 sc s)"
      by (rule text_codec.artifact_reads [OF codec refl refl sign(3,6)])
    moreover have "signatureProfileJson (ManifestSignature (sg_keyId signer)) \<noteq> JStr ''unsigned''" by simp
    ultimately show ?thesis using look(1-3) decodeBase64_ok [OF base64 sign(5)] scheme [OF _ sign(4)]
      by (simp add: payloadOf_def verifyManifestSignature_def mf' Let_def del: signatureProfileJson.simps normJson.simps utf8_append)
  qed
  then show ?thesis using report signedProfile by (auto simp: verifyArchiveEntriesWithSignatures_def verifies_def Let_def)
qed

section \<open>The theorems\<close>

lemma signing_ok:
  assumes "tm_formatVersion mf = ''0.2''" "tm_signatureProfile mf = Unsigned" "sg_algorithm signer = ''Ed25519''"
    and "validKeyId (JStr (sg_keyId signer))" and sign: "\<And>payload. \<exists>s. sg_signManifest signer payload = Inr s \<and> s \<noteq> []"
  shows "\<exists>fs mf'. signArchiveEntries sha loc sc signer (es, mf) = Inr (fs, mf')"
proof -
  let ?mf = "mf\<lparr>tm_formatVersion := ''0.3'', tm_signatureProfile := ManifestSignature (sg_keyId signer)\<rparr>"
  obtain t where t: "manifestText ?mf = Inr t" using manifestText_ok by blast
  let ?es = "AList.update ''manifest.json'' (utf8 t) es"
  obtain s where s: "sg_signManifest signer (signaturePayload sha (utf8 t) (checksumFile sha loc ?es)) = Inr s" "s \<noteq> []"
    using sign by blast
  obtain a where "canonicalJson (artifactJson (sg_keyId signer) (sc_toBase64 sc s)) = Inr a"
    by (simp add: artifactJson_def canonicalJson_eq del: canonicalJson.simps)
  then show ?thesis using assms(1-4) t s by (simp add: signArchiveEntries_def Let_def del: canonicalJson.simps utf8_append)
qed

text \<open>
  C31. A signed export verifies: when the signer returns signatures that the verifier accepts for its
  key and base64 is decoded as it was encoded, an exportable source can be assembled and signed, and
  a verification with signatures reports the archive valid, with the records of the source.
\<close>

theorem signed_archives_verify:
  assumes "\<And>b. isSha256 (cd_sha cd b)" "text_codec (cd_decode cd) (cd_parse cd)" "base64Ok sc"
    and signer: "sg_algorithm signer = ''Ed25519''" "validKeyId (JStr (sg_keyId signer))"
      "\<And>payload. \<exists>s. sg_signManifest signer payload = Inr s \<and> s \<noteq> [] \<and> verify (sg_keyId signer) payload s = Inr SignatureValid"
    and "exportable source" "encodable (cd_sha cd) source"
  shows "\<exists>fs mf. seqR (assembleArchiveEntries (cd_sha cd) loc source) (signArchiveEntries (cd_sha cd) loc sc signer) = Inr (fs, mf)
    \<and> (\<forall>limits. withinLimits limits fs \<longrightarrow>
         (\<exists>report. verifyArchiveEntriesWithSignatures cd sc verify fs limits = Inr report \<and> verifies loc source mf report))"
proof -
  obtain es where es: "assembleArchiveEntries (cd_sha cd) loc source = Inr (es, manifestOf source)"
    using assembly_ok [where sha = "cd_sha cd"] assms(1,8) by blast
  obtain fs mf where fs: "signArchiveEntries (cd_sha cd) loc sc signer (es, manifestOf source) = Inr (fs, mf)"
  proof -
    have "tm_formatVersion (manifestOf source) = ''0.2''" "tm_signatureProfile (manifestOf source) = Unsigned" by (simp_all add: manifestOf_def)
    moreover have "\<exists>s. sg_signManifest signer payload = Inr s \<and> s \<noteq> []" for payload using signer(3) by blast
    ultimately show thesis using signing_ok [OF _ _ signer(1,2)] that by blast
  qed
  have scheme: "verify (sg_keyId signer) payload s = Inr SignatureValid" if "sg_signManifest signer payload = Inr s" for payload s
    using signer(3) [of payload] that by auto
  have "\<exists>report. verifyArchiveEntriesWithSignatures cd sc verify fs limits = Inr report \<and> verifies loc source mf report"
    if "withinLimits limits fs" for limits
    by (rule signed_verifies [OF assms(1-3) _ assms(7) es fs that]) (rule scheme)
  then show ?thesis using es fs by auto
qed

text \<open>
  C12. Authenticity of signed archives. Suppose the verifier accepts a signature of a key only on the
  payload of an archive that was assembled and signed with that key. When an archive with a signed
  profile is reported valid, it has the very entries, outside \<open>signatures/\<close>, of an archive signed with
  the key that its manifest names, or two entries of the two archives have the same digest.
\<close>

theorem signed_archive_authentic:
  assumes sha: "\<And>b. isSha256 (cd_sha cd b)" and codec: "text_codec (cd_decode cd) (cd_parse cd)"
    and unforgeable: "\<And>k payload s. verify k payload s = Inr SignatureValid
      \<Longrightarrow> \<exists>fs \<in> published. signedWith (cd_sha cd) loc sc k fs \<and> payloadOf (cd_sha cd) fs = Some payload"
    and accepted: "verifyArchiveEntriesWithSignatures cd sc verify entries limits = Inr report" "rp_valid report"
      "rp_manifest report = Some m" "getProp m ''signatureProfile'' \<noteq> JStr ''unsigned''"
  shows "\<exists>fs \<in> published. \<exists>k. memberOf (getProp m ''signatureProfile'') ''keyId'' = JStr k \<and> signedWith (cd_sha cd) loc sc k fs
    \<and> ((\<forall>path. \<not> startsWith path ''signatures/'' \<longrightarrow> map_of entries path = map_of fs path) \<or> collides (cd_sha cd) entries fs)"
proof -
  obtain k mb cb s checksums where k: "memberOf (getProp m ''signatureProfile'') ''keyId'' = JStr k"
    and entries: "map_of entries ''manifest.json'' = Some mb" "map_of entries checksumPath = Some cb"
    and valid: "verify k (signaturePayload (cd_sha cd) mb cb) s = Inr SignatureValid"
    and read: "readChecksums (cd_decode cd) entries = ([], checksums)" "checksumIssues (cd_sha cd) entries checksums = []"
    using accepted_signature [OF accepted] by metis
  obtain fs where fs: "fs \<in> published" "signedWith (cd_sha cd) loc sc k fs" "payloadOf (cd_sha cd) fs = Some (signaturePayload (cd_sha cd) mb cb)"
    using unforgeable [OF valid] by blast
  then obtain m' c' where signed: "map_of fs ''manifest.json'' = Some m'" "map_of fs checksumPath = Some c'"
    "signaturePayload (cd_sha cd) m' c' = signaturePayload (cd_sha cd) mb cb"
    by (auto simp: payloadOf_def split: option.splits)
  have "map_of entries path = map_of fs path" if "\<not> collides (cd_sha cd) entries fs" "\<not> startsWith path ''signatures/''" for path
  proof (cases "path = checksumPath")
    case True
    then show ?thesis using text_codec.signaturePayload_inj [OF codec signed(3)] that(1) entries(2) signed(2) collidesI by metis
  next
    case False
    have c: "cb = c'" using text_codec.signaturePayload_inj [OF codec signed(3)] that(1) entries(2) signed(2) collidesI by metis
    obtain source es mf signer mf' where made: "assembleArchiveEntries (cd_sha cd) loc source = Inr (es, mf)"
      "signArchiveEntries (cd_sha cd) loc sc signer (es, mf) = Inr (fs, mf')"
      by (rule signedWithE [OF fs(2)])
    obtain cs where "readChecksums (cd_decode cd) fs = ([], cs)" "checksumIssues (cd_sha cd) fs cs = []"
      using text_codec.signed_reads [where sha = "cd_sha cd", OF codec sha made] by blast
    moreover have "readChecksums (cd_decode cd) fs = readChecksums (cd_decode cd) entries"
      by (simp add: readChecksums_def entries(2) signed(2) c)
    ultimately show ?thesis using same_checksums [OF read(2) _ that(1) False] read(1) that(2) by (simp add: signatureEntry_def)
  qed
  then show ?thesis using fs(1,2) k by blast
qed

section \<open>An example\<close>

text \<open>A digest for examples: the length, written with 64 digits.\<close>

definition exampleDigest :: "bytes \<Rightarrow> string" where
  "exampleDigest b = replicate 61 (CHR ''0'') @ map (\<lambda>n. hex_char (n mod 16)) [length b div 256, length b div 16, length b]"

definition exampleCodec :: codec where
  "exampleCodec = \<lparr>cd_sha = exampleDigest, cd_decode = decodeText, cd_parse = parseJson, cd_str = (\<lambda>_. [])\<rparr>"

text \<open>A resource with a revision, a blob and the audit event of its creation.\<close>

definition exampleRecords :: recordSets where
  "exampleRecords = (\<lambda>_. [])(
     KResources := [[(''workspaceId'', JStr ''w1''), (''id'', JStr ''r1'')]],
     KRevisions := [[(''id'', JStr ''v1''), (''resourceId'', JStr ''r1''), (''parentRevisionId'', JNull)]],
     KBlobs := [[(''sha256'', JStr (exampleDigest ''abc'')), (''byteLength'', JNum 3)]],
     KAuditEvents := [[(''id'', JStr ''a1''), (''eventHash'', JStr (exampleDigest ''a'')), (''previousEventHash'', JNull)]])"

definition exampleSource :: archiveSource where
  "exampleSource = \<lparr>so_exportId = ''e1'', so_workspaceId = ''w1'', so_datasetIds = [''d1''], so_createdAt = ''2024'', so_createdBy = ''p1'',
     so_sourceVersion = ''1'', so_records = exampleRecords,
     so_blobs = [\<lparr>ab_sha256 = exampleDigest ''abc'', ab_byteLength = 3, ab_bytes = ''abc''\<rparr>]\<rparr>"

lemma exampleDigest_sha: "isSha256 (exampleDigest b)"
proof -
  have "lower_hex (hex_char (n mod 16))" for n :: nat
    by (auto simp: hex_char_def lower_hex_def Let_def)
  then show ?thesis by (simp add: isSha256_def exampleDigest_def) (simp add: list_all_iff lower_hex_def)
qed

text \<open>A codec with the properties of base64: two letters for the halves of a byte, and two more.\<close>

fun exampleUnpack :: "string \<Rightarrow> bytes" where
  "exampleUnpack (a # b # _ # _ # s) = char_of (16 * (of_char a - 65) + (of_char b - 65) :: nat) # exampleUnpack s"
| "exampleUnpack _ = []"

definition examplePack :: "char \<Rightarrow> string" where
  "examplePack c = [char_of (65 + of_char c div 16 :: nat), char_of (65 + of_char c mod 16 :: nat), CHR ''A'', CHR ''A'']"

definition exampleBase64 :: signatureCodec where
  "exampleBase64 = \<lparr>sc_toBase64 = (\<lambda>b. concat (map examplePack b)), sc_fromBase64 = exampleUnpack\<rparr>"

lemma byte_range: "(of_char c :: nat) < 256"
  by (metis of_char_mod_256 mod_less_divisor zero_less_numeral)

lemma halves: "(65 + of_char c div 16) mod 256 = 65 + (of_char c div 16 :: nat)" "(of_char c div 16 :: nat) < 16"
proof -
  show half: "(of_char c div 16 :: nat) < 16" using byte_range [of c] by (simp add: less_mult_imp_div_less)
  then show "(65 + of_char c div 16) mod 256 = 65 + (of_char c div 16 :: nat)" by simp
qed

lemma examplePack_letters: "list_all base64Char (examplePack c)"
  using halves [of c] by (auto simp: examplePack_def base64Char_def letter_def Let_def)

lemma exampleUnpack_pack: "exampleUnpack (examplePack c @ s) = c # exampleUnpack s"
proof -
  have "16 * (of_char c div 16) + of_char c mod 16 = (of_char c :: nat)" by simp
  then show ?thesis using halves [of c] by (simp add: examplePack_def)
qed

lemma exampleBase64_ok: "base64Ok exampleBase64"
proof -
  have "exampleUnpack (concat (map examplePack b)) = b" for b
    by (induction b) (simp_all add: exampleUnpack_pack)
  moreover have "list_all base64Char (concat (map examplePack b))" for b
    using examplePack_letters by (induction b) (simp_all add: list_all_append)
  moreover have "length (concat (map examplePack b)) = 4 * length b" for b by (induction b) (simp_all add: examplePack_def)
  moreover have "concat (map examplePack b) = [] \<Longrightarrow> b = []" for b by (cases b) (simp_all add: examplePack_def)
  ultimately show ?thesis by (simp add: base64Ok_def exampleBase64_def base64Text_def)
qed

definition exampleSigner :: archiveManifestSigner where
  "exampleSigner = \<lparr>sg_algorithm = ''Ed25519'', sg_keyId = ''k1'', sg_signManifest = (\<lambda>payload. Inr ''sig'')\<rparr>"

lemma example_exportable: "exportable exampleSource"
proof -
  let ?e = "[(''id'', JStr ''a1''), (''eventHash'', JStr (exampleDigest ''a'')), (''previousEventHash'', JNull)]"
  have "eventsChained [?e]" using exampleDigest_sha [of "''a''"]
    by (auto simp: eventsChained_def hashed_def eventHashText_def memberOf_def getProp_def intro!: exI [of _ "[?e]"])
  moreover have "revisionLinked exampleRecords [(''id'', JStr ''v1''), (''resourceId'', JStr ''r1''), (''parentRevisionId'', JNull)]"
    by (simp add: revisionLinked_def idsOf_def getProp_def exampleRecords_def)
  moreover have "wellKeyed (JObj r) \<and> map_of r ''workspaceId'' \<in> {None, Some (JStr ''w1'')}" if "r \<in> set (exampleRecords kind)" for r kind
    using that by (cases kind) (simp_all add: exampleRecords_def)
  ultimately show ?thesis
    by (simp add: exportable_def exampleSource_def exampleRecords_def safeInteger_def blobsDescribed_def getProp_def)
qed

lemma example_encodable: "encodable exampleDigest exampleSource"
proof -
  have "\<not> hasUndef (JObj r)" if "r \<in> set (exampleRecords kind)" for r kind
    using that by (cases kind) (simp_all add: exampleRecords_def)
  then show ?thesis by (simp add: encodable_def exampleSource_def)
qed

lemma exampleCodec_text: "text_codec (cd_decode exampleCodec) (cd_parse exampleCodec)"
  by (simp add: exampleCodec_def jsText.text_codec_axioms)

theorem signed_archives_verify_witness:
  "\<exists>fs mf. seqR (assembleArchiveEntries exampleDigest default exampleSource) (signArchiveEntries exampleDigest default exampleBase64 exampleSigner) = Inr (fs, mf)
    \<and> (\<forall>limits. withinLimits limits fs \<longrightarrow> (\<exists>report.
         verifyArchiveEntriesWithSignatures exampleCodec exampleBase64 (\<lambda>k _ s. Inr (if k = ''k1'' \<and> s = ''sig'' then SignatureValid else SignatureInvalid)) fs limits
           = Inr report \<and> verifies default exampleSource mf report))"
  using signed_archives_verify [OF _ exampleCodec_text exampleBase64_ok _ _ _ example_exportable, where loc = default and signer = exampleSigner
      and verify = "\<lambda>k _ s. Inr (if k = ''k1'' \<and> s = ''sig'' then SignatureValid else SignatureInvalid)"] exampleDigest_sha example_encodable
  by (simp add: exampleCodec_def exampleSigner_def validKeyId_def letter_def is_digit_def)

definition exampleVerifier :: "entries \<Rightarrow> string \<Rightarrow> bytes \<Rightarrow> bytes \<Rightarrow> js_error + signatureVerdict" where
  "exampleVerifier fs k payload s =
     Inr (if k = ''k1'' \<and> s = ''sig'' \<and> payloadOf exampleDigest fs = Some payload then SignatureValid else SignatureInvalid)"

definition exactLimits :: "entries \<Rightarrow> verificationLimits" where
  "exactLimits fs = (let bytes = sum_list (map (\<lambda>(_, b). int (length b)) fs) in
     \<lparr>vl_maxEntries = int (length fs), vl_maxEntryBytes = bytes, vl_maxTotalBytes = bytes\<rparr>)"

lemma within_exactLimits: "withinLimits (exactLimits fs) fs"
proof -
  have nonneg: "0 \<le> sum_list (map (\<lambda>(_, b). int (length b)) gs)" for gs :: entries by (induction gs) auto
  have "int (length b) \<le> sum_list (map (\<lambda>(_, b). int (length b)) fs)" if "b \<in> snd ` set fs" for b
    using that by (induction fs) (force simp: nonneg intro: add_increasing)+
  then show ?thesis by (simp add: withinLimits_def exactLimits_def Let_def)
qed

theorem signed_archive_authentic_witness:
  "\<exists>fs report m. verifyArchiveEntriesWithSignatures exampleCodec exampleBase64 (exampleVerifier fs) fs (exactLimits fs) = Inr report
     \<and> rp_valid report \<and> rp_manifest report = Some m \<and> getProp m ''signatureProfile'' \<noteq> JStr ''unsigned''
     \<and> (\<exists>gs \<in> {fs}. \<exists>k. memberOf (getProp m ''signatureProfile'') ''keyId'' = JStr k \<and> signedWith (cd_sha exampleCodec) default exampleBase64 k gs
       \<and> ((\<forall>path. \<not> startsWith path ''signatures/'' \<longrightarrow> map_of fs path = map_of gs path) \<or> collides (cd_sha exampleCodec) fs gs))"
proof -
  have sha: "isSha256 (cd_sha exampleCodec b)" for b using exampleDigest_sha by (simp add: exampleCodec_def)
  obtain es where es: "assembleArchiveEntries (cd_sha exampleCodec) default exampleSource = Inr (es, manifestOf exampleSource)"
    using assembly_ok [where sha = "cd_sha exampleCodec" and source = exampleSource and loc = default] sha example_encodable
    by (auto simp: exampleCodec_def)
  have signer: "sg_algorithm exampleSigner = ''Ed25519''" "validKeyId (JStr (sg_keyId exampleSigner))" "\<exists>s. sg_signManifest exampleSigner payload = Inr s \<and> s \<noteq> []" for payload
    by (simp_all add: exampleSigner_def validKeyId_def letter_def is_digit_def)
  have unsigned: "tm_formatVersion (manifestOf exampleSource) = ''0.2''" "tm_signatureProfile (manifestOf exampleSource) = Unsigned" by (simp_all add: manifestOf_def)
  obtain fs mf where fs: "signArchiveEntries (cd_sha exampleCodec) default exampleBase64 exampleSigner (es, manifestOf exampleSource) = Inr (fs, mf)"
    using signing_ok [OF unsigned signer(1,2)] signer(3) by blast
  then have mf: "tm_signatureProfile mf = ManifestSignature ''k1''" by (rule signing_steps) (simp add: exampleSigner_def)
  obtain report where report: "verifyArchiveEntriesWithSignatures exampleCodec exampleBase64 (exampleVerifier fs) fs (exactLimits fs) = Inr report"
    "verifies default exampleSource mf report"
    using signed_verifies [OF sha exampleCodec_text exampleBase64_ok _ example_exportable es fs within_exactLimits, of "exampleVerifier fs"]
    by (auto simp: exampleVerifier_def exampleSigner_def exampleCodec_def)
  have "signedWith (cd_sha exampleCodec) default exampleBase64 k fs" if "k = ''k1''" for k
    unfolding signedWith_def using es fs that by (intro exI [of _ exampleSource] exI) (auto simp: exampleSigner_def)
  then have unforgeable: "\<exists>gs \<in> {fs}. signedWith (cd_sha exampleCodec) default exampleBase64 k gs \<and> payloadOf (cd_sha exampleCodec) gs = Some payload"
    if "exampleVerifier fs k payload s = Inr SignatureValid" for k payload s
    using that by (auto simp: exampleVerifier_def exampleCodec_def split: if_splits)
  have signed: "rp_valid report" "rp_manifest report = Some (manifestFields mf)" "getProp (manifestFields mf) ''signatureProfile'' \<noteq> JStr ''unsigned''"
    using report(2) mf by (simp_all add: verifies_def)
  have "\<exists>gs \<in> {fs}. \<exists>k. memberOf (getProp (manifestFields mf) ''signatureProfile'') ''keyId'' = JStr k
      \<and> signedWith (cd_sha exampleCodec) default exampleBase64 k gs
      \<and> ((\<forall>path. \<not> startsWith path ''signatures/'' \<longrightarrow> map_of fs path = map_of gs path) \<or> collides (cd_sha exampleCodec) fs gs)"
    by (rule signed_archive_authentic [OF sha exampleCodec_text _ report(1) signed]) (rule unforgeable)
  then show ?thesis using report(1) signed by (intro exI conjI)
qed

end
