(* ===== verification/ArchiveContainer.thy ===== *)
theory ArchiveContainer
  imports ArchiveRoundtrip
begin

text \<open>
  What reading a container guarantees before anything is unpacked into memory: bounded sizes and
  ratios, plain files under distinct safe paths, and errors of the container only.
\<close>

definition entryAllowed :: "containerLimits \<Rightarrow> zipEntry \<Rightarrow> bool" where
  "entryAllowed limits e \<longleftrightarrow> \<not> ze_directory e \<and> isOk (assertSafeArchivePath (ze_filename e)) \<and> \<not> ze_encrypted e \<and> \<not> isSymbolicLink e
     \<and> ze_compressionMethod e \<in> {0, 8} \<and> ze_uncompressedSize e \<le> cl_maxEntryBytes limits \<and> \<not> ratioExceeded limits e"

lemma validateEntries_iff:
  assumes "\<forall>e \<in> set es. 0 \<le> ze_uncompressedSize e" and "sofar \<le> cl_maxTotalBytes limits"
  shows "validateEntries limits paths sofar es = Inr () \<longleftrightarrow> (\<forall>e \<in> set es. entryAllowed limits e) \<and> distinct (map ze_filename es)
    \<and> set (map ze_filename es) \<inter> set paths = {} \<and> sofar + sum_list (map ze_uncompressedSize es) \<le> cl_maxTotalBytes limits"
  using assms
proof (induction es arbitrary: paths sofar)
  case (Cons e es)
  have nonneg: "0 \<le> sum_list (map ze_uncompressedSize es)" using Cons.prems(1) by (induction es) auto
  let ?paths = "ze_filename e # paths" and ?sofar = "sofar + ze_uncompressedSize e"
  have "validateEntries limits paths sofar (e # es) = Inr ()
      \<longleftrightarrow> entryAllowed limits e \<and> ze_filename e \<notin> set paths \<and> ?sofar \<le> cl_maxTotalBytes limits \<and> validateEntries limits ?paths ?sofar es = Inr ()"
    by (auto simp: entryAllowed_def)
  also have "\<dots> \<longleftrightarrow> (\<forall>e \<in> set (e # es). entryAllowed limits e) \<and> distinct (map ze_filename (e # es))
      \<and> set (map ze_filename (e # es)) \<inter> set paths = {} \<and> sofar + sum_list (map ze_uncompressedSize (e # es)) \<le> cl_maxTotalBytes limits"
    using Cons.IH [of ?sofar ?paths] Cons.prems(1) nonneg by auto
  finally show ?case .
qed simp

lemma extract_iff:
  assumes "\<forall>e \<in> set es. \<not> ze_directory e" and "distinct (map fst acc @ map ze_filename es)"
  shows "foldR extractEntry acc es = Inr fs \<longleftrightarrow> (\<exists>gs. fs = acc @ gs \<and>
    list_all2 (\<lambda>e (p, b). p = ze_filename e \<and> ze_data e = Inr b \<and> int (length b) = ze_uncompressedSize e) es gs)"
  using assms
proof (induction es arbitrary: acc)
  case (Cons e es)
  have fresh: "AList.update (ze_filename e) body acc = acc @ [(ze_filename e, body)]" for body
    using Cons.prems(2) by (intro update_fresh) auto
  have "foldR extractEntry acc (e # es) = Inr fs
      \<longleftrightarrow> (\<exists>body. ze_data e = Inr body \<and> int (length body) = ze_uncompressedSize e \<and> foldR extractEntry (acc @ [(ze_filename e, body)]) es = Inr fs)"
    using Cons.prems(1) by (auto simp: extractEntry_def [of acc e] seqR_eq_Inr fresh)
  moreover have "foldR extractEntry (acc @ [(ze_filename e, body)]) es = Inr fs \<longleftrightarrow> (\<exists>gs. fs = (acc @ [(ze_filename e, body)]) @ gs \<and>
      list_all2 (\<lambda>e (p, b). p = ze_filename e \<and> ze_data e = Inr b \<and> int (length b) = ze_uncompressedSize e) es gs)" for body
    using Cons.prems by (intro Cons.IH) auto
  ultimately show ?case by (fastforce simp: list_all2_Cons1)
qed auto

lemma read_steps:
  assumes "readTrustArchive cd sc unzip verifier limits bytes = Inr (fs, m, report)"
  obtains es where "int (length bytes) \<le> cl_maxContainerBytes limits" "unzip bytes = Inr es" "validateDirectory es limits = Inr ()"
    "foldR extractEntry [] es = Inr fs" "rp_manifest report = Some m"
  using assms that unfolding readTrustArchive_def
  by (auto simp: normalizeError_def seqR_eq_Inr Let_def split: if_splits sum.splits option.splits)

text \<open>
  C33. A container that is read is bounded and plain. When the directory of the container states sizes
  that are not negative, every entry that was read has a distinct safe path, is no directory, link or
  encrypted entry, has the size its header states, within the entry limit and within the ratio to
  its compressed size, and all entries together stay within the total limit.
\<close>

theorem container_entries_bounded:
  assumes read: "readTrustArchive cd sc unzip verifier limits bytes = Inr (fs, m, report)"
    and sizes: "\<And>es e. unzip bytes = Inr es \<Longrightarrow> e \<in> set es \<Longrightarrow> 0 \<le> ze_uncompressedSize e" and limit: "0 \<le> cl_maxTotalBytes limits"
  shows "\<exists>es. unzip bytes = Inr es \<and> map fst fs = map ze_filename es \<and> map (\<lambda>p. int (length (snd p))) fs = map ze_uncompressedSize es
    \<and> distinct (map fst fs) \<and> (\<forall>e \<in> set es. entryAllowed limits e)
    \<and> int (length fs) \<le> cl_maxEntries limits \<and> sum_list (map (\<lambda>p. int (length (snd p))) fs) \<le> cl_maxTotalBytes limits
    \<and> int (length bytes) \<le> cl_maxContainerBytes limits \<and> rp_manifest report = Some m"
proof -
  obtain es where es: "int (length bytes) \<le> cl_maxContainerBytes limits" "unzip bytes = Inr es" "validateDirectory es limits = Inr ()"
    "foldR extractEntry [] es = Inr fs" "rp_manifest report = Some m"
    by (rule read_steps [OF read])
  then have directory: "int (length es) \<le> cl_maxEntries limits" "validateEntries limits [] 0 es = Inr ()"
    by (auto simp: validateDirectory_def split: if_splits)
  have checked: "\<forall>e \<in> set es. entryAllowed limits e" "distinct (map ze_filename es)" "sum_list (map ze_uncompressedSize es) \<le> cl_maxTotalBytes limits"
    using validateEntries_iff [OF _ limit, of es "[]"] directory(2) sizes [OF es(2)] by auto
  have extracted: "map fst fs = map ze_filename es" "map (\<lambda>p. int (length (snd p))) fs = map ze_uncompressedSize es"
  proof -
    have "list_all2 (\<lambda>e (p, b). p = ze_filename e \<and> ze_data e = Inr b \<and> int (length b) = ze_uncompressedSize e) es fs"
      using extract_iff [of es "[]" fs] es(4) checked(1,2) by (auto simp: entryAllowed_def)
    then show "map fst fs = map ze_filename es" "map (\<lambda>p. int (length (snd p))) fs = map ze_uncompressedSize es"
      by (induction rule: list_all2_induct) auto
  qed
  moreover have "length fs = length es" using arg_cong [OF extracted(1), of length] by simp
  ultimately show ?thesis using es(1,2,5) directory(1) checked by auto
qed

section \<open>Containers of exported archives\<close>

lemma sizeIssues_perm:
  assumes "mset gs = mset fs"
  shows "sizeIssues limits gs = [] \<longleftrightarrow> sizeIssues limits fs = []"
proof -
  have "mset (map (\<lambda>(_, bytes). int (length bytes)) gs) = mset (map (\<lambda>(_, bytes). int (length bytes)) fs)" using assms by simp
  then have "sum_list (map (\<lambda>(_, bytes). int (length bytes)) gs) = sum_list (map (\<lambda>(_, bytes). int (length bytes)) fs)"
    by (metis sum_mset_sum_list)
  then show ?thesis using mset_eq_setD [OF assms] mset_eq_length [OF assms] by (simp add: sizeIssues_def)
qed

lemma checksumIssues_perm:
  "set gs = set fs \<Longrightarrow> map_of gs = map_of fs \<Longrightarrow> checksumIssues sha gs cs = [] \<longleftrightarrow> checksumIssues sha fs cs = []"
  by (simp add: checksumIssues_def)

text \<open>A verdict without an issue does not depend on the order of the entries.\<close>

lemma verify_perm:
  assumes perm: "mset gs = mset fs" "distinct (map fst fs)" and ok: "verifyArchiveEntriesBase cd fs limits d = Inr report" "rp_issues report = []"
  shows "verifyArchiveEntriesBase cd gs limits d = Inr report"
proof -
  have same: "set gs = set fs" using perm(1) by (rule mset_eq_setD)
  have "mset (map fst gs) = mset (map fst fs)" using perm(1) by simp
  then have "distinct (map fst gs)" using perm(2) mset_eq_imp_distinct_iff by blast
  then have look: "map_of gs = map_of fs" using same perm(2) by (simp add: map_of_inject_set)
  have reads: "readChecksums (cd_decode cd) gs = readChecksums (cd_decode cd) fs" "readManifest (cd_decode cd) (cd_parse cd) gs = readManifest (cd_decode cd) (cd_parse cd) fs"
    "readRecords (cd_decode cd) (cd_parse cd) m gs = readRecords (cd_decode cd) (cd_parse cd) m fs"
    "validateBlobs (cd_sha cd) m rs gs = validateBlobs (cd_sha cd) m rs fs" "profileIssues d m gs = profileIssues d m fs" for m rs
    unfolding readChecksums_def readManifest_def readRecords_def [abs_def] validateBlobs_def blobIssues_def [abs_def] profileIssues_def look
    by (rule refl)+
  obtain cs where cs: "readChecksums (cd_decode cd) fs = ([], cs)" "checksumIssues (cd_sha cd) fs cs = []" "sizeIssues limits fs = []"
    using ok(1) by (rule base_ok) (use ok(2) in auto)
  then have "checksumIssues (cd_sha cd) gs cs = []" "sizeIssues limits gs = []"
    using checksumIssues_perm [OF same look] sizeIssues_perm [OF perm(1)] by blast+
  then show ?thesis using ok(1) cs unfolding verifyArchiveEntriesBase_def reads by simp
qed

text \<open>What reading a written container gives: the entries in the order they were added.\<close>

definition zipHolds :: "zipEntry list \<Rightarrow> entries \<Rightarrow> bool" where
  "zipHolds es ordered \<longleftrightarrow> list_all2 (\<lambda>e (p, b). ze_filename e = p \<and> ze_data e = Inr b \<and> ze_uncompressedSize e = int (length b)
     \<and> \<not> ze_directory e \<and> \<not> ze_encrypted e \<and> \<not> isSymbolicLink e \<and> ze_compressionMethod e \<in> {0, 8}) es ordered"

definition verificationLimitsOf :: "containerLimits \<Rightarrow> verificationLimits" where
  "verificationLimitsOf limits =
     \<lparr>vl_maxEntries = cl_maxEntries limits, vl_maxEntryBytes = cl_maxEntryBytes limits, vl_maxTotalBytes = cl_maxTotalBytes limits\<rparr>"

lemma zip_reads:
  assumes zip: "zipHolds es fs" and fs: "distinct (map fst fs)" "\<forall>p \<in> fst ` set fs. isOk (assertSafeArchivePath p)"
    and limits: "withinLimits (verificationLimitsOf limits) fs" and ratio: "\<forall>e \<in> set es. \<not> ratioExceeded limits e"
  shows "validateDirectory es limits = Inr ()" "foldR extractEntry [] es = Inr fs"
proof -
  have names: "map ze_filename es = map fst fs" and sizes: "map ze_uncompressedSize es = map (\<lambda>p. int (length (snd p))) fs"
    and plain: "\<forall>e \<in> set es. \<not> ze_directory e \<and> \<not> ze_encrypted e \<and> \<not> isSymbolicLink e \<and> ze_compressionMethod e \<in> {0, 8}"
    using zip unfolding zipHolds_def by (induction rule: list_all2_induct) auto
  have "entryAllowed limits e" if "e \<in> set es" for e
  proof -
    have "ze_filename e \<in> fst ` set fs" using that by (metis names image_eqI image_set)
    moreover have "ze_uncompressedSize e \<in> (\<lambda>p. int (length (snd p))) ` set fs" using that by (metis sizes image_eqI image_set)
    ultimately show ?thesis using that plain ratio fs(2) limits by (auto simp: entryAllowed_def withinLimits_def verificationLimitsOf_def)
  qed
  moreover have "sum_list (map ze_uncompressedSize es) \<le> cl_maxTotalBytes limits"
    using limits unfolding sizes by (simp add: withinLimits_def verificationLimitsOf_def case_prod_unfold)
  moreover have "\<forall>e \<in> set es. 0 \<le> ze_uncompressedSize e"
  proof
    fix e
    assume "e \<in> set es"
    then have "ze_uncompressedSize e \<in> (\<lambda>p. int (length (snd p))) ` set fs" by (metis sizes image_eqI image_set)
    then show "0 \<le> ze_uncompressedSize e" by auto
  qed
  moreover have "0 \<le> sum_list (map ze_uncompressedSize es)" using calculation(3) by (induction es) auto
  ultimately have "validateEntries limits [] 0 es = Inr ()"
    using validateEntries_iff [of es 0 limits "[]"] fs(1) names by simp
  moreover have "length es = length fs" using zip by (simp add: zipHolds_def list_all2_lengthD)
  ultimately show "validateDirectory es limits = Inr ()"
    using limits by (simp add: validateDirectory_def withinLimits_def verificationLimitsOf_def)
  have "list_all2 (\<lambda>e (p, b). p = ze_filename e \<and> ze_data e = Inr b \<and> int (length b) = ze_uncompressedSize e) es fs"
    using zip unfolding zipHolds_def by (rule list_all2_mono) auto
  then show "foldR extractEntry [] es = Inr fs" using extract_iff [of es "[]" fs] plain fs(1) names by simp
qed

lemma assembled_paths:
  assumes "assembleArchiveEntries sha loc source = Inr (fs, mf)"
  shows "distinct (map fst fs)" "\<forall>p \<in> fst ` set fs. isOk (assertSafeArchivePath p)" "tm_createdAt mf = so_createdAt source"
proof -
  obtain es where es: "plainEntries es" "fs = es @ [(checksumPath, utf8 (checksumText sha loc es))]" "mf = manifestOf source"
    using assembled_entries [OF assms] by metis
  then show "distinct (map fst fs)" using plain_fresh(1) [OF es(1)] by (simp add: plainEntries_def map_of_eq_None_iff)
  show "\<forall>p \<in> fst ` set fs. isOk (assertSafeArchivePath p)" using plain_safe [OF es(1)] fixed_paths_safe(1) by (auto simp: es(2))
  show "tm_createdAt mf = so_createdAt source" by (simp add: es(3) manifestOf_def)
qed

lemma withinLimits_perm:
  assumes "mset gs = mset fs"
  shows "withinLimits limits gs \<longleftrightarrow> withinLimits limits fs"
proof -
  have "mset (map (\<lambda>(_, b). int (length b)) gs) = mset (map (\<lambda>(_, b). int (length b)) fs)" using assms by simp
  then have "sum_list (map (\<lambda>(_, b). int (length b)) gs) = sum_list (map (\<lambda>(_, b). int (length b)) fs)" by (metis sum_mset_sum_list)
  then show ?thesis using mset_eq_setD [OF assms] mset_eq_length [OF assms] by (simp add: withinLimits_def)
qed

lemma container_reads:
  assumes sha: "\<And>b. isSha256 (cd_sha cd b)" and codec: "text_codec (cd_decode cd) (cd_parse cd)"
    and source: "exportable source" "encodable (cd_sha cd) source" and time: "dp (so_createdAt source) \<noteq> None"
    and zip: "\<And>at ordered. \<exists>z es. zipWriter at ordered = Inr z \<and> unzip z = Inr es \<and> zipHolds es ordered"
  shows "\<exists>fs z es. assembleArchiveEntries (cd_sha cd) loc source = Inr (fs, manifestOf source)
    \<and> writeTrustArchive loc dp zipWriter (fs, manifestOf source) = Inr z \<and> unzip z = Inr es
    \<and> (\<forall>limits. int (length z) \<le> cl_maxContainerBytes limits \<and> withinLimits (verificationLimitsOf limits) fs \<and> (\<forall>e \<in> set es. \<not> ratioExceeded limits e)
         \<longrightarrow> (\<exists>gs report. readTrustArchive cd sc unzip None limits z = Inr (gs, manifestFields (manifestOf source), report)
            \<and> mset gs = mset fs \<and> verifies loc source (manifestOf source) report))"
proof -
  obtain fs where fs: "assembleArchiveEntries (cd_sha cd) loc source = Inr (fs, manifestOf source)"
    using assembly_ok [where sha = "cd_sha cd"] sha source(2) by blast
  note paths = assembled_paths [OF fs]
  let ?gs = "Sorting_Algorithms.sort (Comparator.key fst loc) fs"
  have perm: "mset ?gs = mset fs" by simp
  have gs: "distinct (map fst ?gs)" "\<forall>p \<in> fst ` set ?gs. isOk (assertSafeArchivePath p)"
    using paths(1,2) sort_keeps(2) [where f = fst and c = "Comparator.key fst loc" and es = fs] sort_keeps(1) [of "Comparator.key fst loc" fs] by auto
  obtain at where at: "validZipTimestamp dp (so_createdAt source) = Inr at" using time by (auto simp: validZipTimestamp_def)
  obtain z es where z: "zipWriter at ?gs = Inr z" "unzip z = Inr es" "zipHolds es ?gs" using zip by blast
  have "mapR (\<lambda>(path, _). assertSafeArchivePath path) ?gs = Inr (map (\<lambda>_. ()) ?gs)"
    using gs(2) by (intro mapR_map) (auto simp: isOk_iff)
  then have made: "writeTrustArchive loc dp zipWriter (fs, manifestOf source) = Inr z"
    using at z(1) paths(3) by (simp add: writeTrustArchive_def)
  have "\<exists>gs report. readTrustArchive cd sc unzip None limits z = Inr (gs, manifestFields (manifestOf source), report)
      \<and> mset gs = mset fs \<and> verifies loc source (manifestOf source) report"
    if limits: "int (length z) \<le> cl_maxContainerBytes limits" "withinLimits (verificationLimitsOf limits) fs" "\<forall>e \<in> set es. \<not> ratioExceeded limits e" for limits
  proof -
    have within: "withinLimits (verificationLimitsOf limits) ?gs" using limits(2) withinLimits_perm [OF perm] by blast
    obtain report where report: "verifyArchiveEntriesBase cd fs (verificationLimitsOf limits) False = Inr report" "verifies loc source (manifestOf source) report"
      using assembled_verifies [OF sha codec source(1) fs limits(2)] by (auto simp: verifyArchiveEntries_def)
    then have "verifyArchiveEntries cd ?gs (verificationLimitsOf limits) = Inr report"
      using verify_perm [OF perm paths(1) report(1)] by (simp add: verifyArchiveEntries_def verifies_def)
    then show ?thesis using zip_reads [OF z(3) gs within limits(3)] limits(1) z(2) report(2) perm
      by (simp add: readTrustArchive_def normalizeError_def verifies_def Let_def flip: verificationLimitsOf_def)
  qed
  then show ?thesis using fs made z(2) by blast
qed


section \<open>Examples\<close>

text \<open>A container format that stores the entries as they are: a mark before every byte, and another after a text.\<close>

definition storeText :: "string \<Rightarrow> bytes" where
  "storeText t = concat (map (\<lambda>c. [CHR ''1'', c]) t) @ ''0''"

fun readText :: "bytes \<Rightarrow> string \<times> bytes" where
  "readText (m # c # s) = (if m = CHR ''1'' then (let (t, r) = readText s in (c # t, r)) else ([], c # s))"
| "readText _ = ([], [])"

fun readEntries :: "nat \<Rightarrow> bytes \<Rightarrow> entries" where
  "readEntries 0 s = []"
| "readEntries (Suc n) s = (if s = [] then [] else (let (p, s1) = readText s; (b, s2) = readText s1 in (p, b) # readEntries n s2))"

definition storedEntry :: "string \<times> bytes \<Rightarrow> zipEntry" where
  "storedEntry = (\<lambda>(p, b). \<lparr>ze_filename = p, ze_directory = False, ze_encrypted = False, ze_unixMode = None, ze_unixExternalUpper = None,
     ze_compressionMethod = 0, ze_compressedSize = int (length b), ze_uncompressedSize = int (length b), ze_data = Inr b\<rparr>)"

definition storeZip :: "int \<Rightarrow> entries \<Rightarrow> js_error + bytes" where
  "storeZip at es = Inr (concat (map (\<lambda>(p, b). storeText p @ storeText b) es))"

definition readZip :: "bytes \<Rightarrow> js_error + zipEntry list" where
  "readZip z = Inr (map storedEntry (readEntries (length z) z))"

lemma readText_store: "readText (storeText t @ s) = (t, s)"
proof (induction t)
  case Nil
  show ?case by (cases s) (simp_all add: storeText_def)
next
  case (Cons c t)
  then show ?case by (simp add: storeText_def)
qed

lemma readEntries_store:
  "length es \<le> n \<Longrightarrow> readEntries n (concat (map (\<lambda>(p, b). storeText p @ storeText b) es)) = es"
proof (induction es arbitrary: n)
  case Nil
  show ?case by (cases n) simp_all
next
  case (Cons e es)
  then obtain k p b where "n = Suc k" "e = (p, b)" by (cases n; cases e) auto
  then show ?case using Cons by (simp add: readText_store) (simp add: storeText_def)
qed

lemma store_size: "length es \<le> length (concat (map (\<lambda>(p, b). storeText p @ storeText b) es))"
  by (induction es) (auto simp: storeText_def)

lemma store_reads: "\<exists>z es. storeZip at ordered = Inr z \<and> readZip z = Inr es \<and> zipHolds es ordered"
proof -
  have "zipHolds (map storedEntry ordered) ordered"
    by (induction ordered) (auto simp: zipHolds_def storedEntry_def isSymbolicLink_def)
  then show ?thesis using readEntries_store [OF store_size] by (simp add: storeZip_def readZip_def)
qed

lemma exampleCodec_sha: "isSha256 (cd_sha exampleCodec b)"
  using exampleDigest_sha by (simp add: exampleCodec_def)


definition bareLimits :: "bytes \<Rightarrow> entries \<Rightarrow> containerLimits" where
  "bareLimits z fs = \<lparr>cl_maxContainerBytes = int (length z), cl_maxEntries = vl_maxEntries (exactLimits fs), cl_maxEntryBytes = vl_maxEntryBytes (exactLimits fs),
     cl_maxTotalBytes = vl_maxTotalBytes (exactLimits fs), cl_maxCompressionRatio = 200\<rparr>"

lemma readZip_plain: "readZip z = Inr es \<Longrightarrow> e \<in> set es \<Longrightarrow> 0 \<le> ze_uncompressedSize e \<and> \<not> ratioExceeded (bareLimits y fs) e"
  by (auto simp: readZip_def storedEntry_def ratioExceeded_def bareLimits_def)

theorem container_entries_bounded_witness:
  "\<exists>z fs m report limits. readTrustArchive exampleCodec exampleBase64 readZip None limits z = Inr (fs, m, report)
    \<and> (\<exists>es. readZip z = Inr es \<and> map fst fs = map ze_filename es \<and> map (\<lambda>p. int (length (snd p))) fs = map ze_uncompressedSize es
      \<and> distinct (map fst fs) \<and> (\<forall>e \<in> set es. entryAllowed limits e)
      \<and> int (length fs) \<le> cl_maxEntries limits \<and> sum_list (map (\<lambda>p. int (length (snd p))) fs) \<le> cl_maxTotalBytes limits
      \<and> int (length z) \<le> cl_maxContainerBytes limits \<and> rp_manifest report = Some m)"
proof -
  obtain fs z es where made: "readZip z = Inr es" and reads: "\<And>limits. int (length z) \<le> cl_maxContainerBytes limits \<and> withinLimits (verificationLimitsOf limits) fs
      \<and> (\<forall>e \<in> set es. \<not> ratioExceeded limits e) \<Longrightarrow> \<exists>gs report. readTrustArchive exampleCodec exampleBase64 readZip None limits z = Inr (gs, manifestFields (manifestOf exampleSource), report)"
  proof -
    have "encodable (cd_sha exampleCodec) exampleSource" "(\<lambda>_. Some 0) (so_createdAt exampleSource) \<noteq> (None :: int option)"
      by (simp_all add: example_encodable exampleCodec_def)
    from container_reads [OF exampleCodec_sha exampleCodec_text example_exportable this store_reads, where loc = default and sc = exampleBase64]
    show thesis using that by meson
  qed
  let ?limits = "bareLimits z fs"
  have "withinLimits (verificationLimitsOf ?limits) fs" using within_exactLimits [of fs] by (simp add: bareLimits_def verificationLimitsOf_def withinLimits_def)
  then obtain gs report where gs: "readTrustArchive exampleCodec exampleBase64 readZip None ?limits z = Inr (gs, manifestFields (manifestOf exampleSource), report)"
    using reads [of ?limits] readZip_plain [OF made] by (auto simp: bareLimits_def)
  have "0 \<le> sum_list (map (\<lambda>(_, b). int (length b)) fs)" by (induction fs) auto
  then have "0 \<le> cl_maxTotalBytes ?limits" by (simp add: bareLimits_def exactLimits_def Let_def)
  then show ?thesis using container_entries_bounded [OF gs] readZip_plain gs by blast
qed

end
