(* ===== verification/Verification.thy ===== *)
theory Verification
  imports IngestStore HistoryStore Schemas
begin

text \<open>
  \<open>packages/verification/src/verification.ts\<close> and \<open>resource-graph.ts\<close>: what a verification run
  checks, over the contract of an object storage and of a verification catalog. The catalog in
  Postgres is in \<open>VerificationStore\<close>.

  An issue is reported, never thrown. The stream of a stored object is the list of its chunks, so
  a stream fails when it is opened or not at all.
  The level of a blob run is \<open>metadata\<close> or \<open>full_blob\<close> and that of a structural run one of the
  other three; both are values of one type here, and a level outside its range behaves as the
  branches of the code have it.
\<close>

section \<open>Runs and issues\<close>

datatype verificationLevel = LevelMetadata | LevelFullBlob | LevelResource | LevelDataset | LevelWorkspace

datatype verificationStatus = RunRunning | RunPassed | RunFailed | RunDegraded

datatype verificationScopeKind = KindBlob | KindResource | KindDataset | KindWorkspace

datatype severity = SevWarning | SevError | SevCritical

datatype issueSubject =
  OnBlob | OnResource | OnRevision | OnRelation | OnDataset | OnWorkspace | OnPolicy | OnOperation | OnStorage

datatype issueValue = IssueText string | IssueCount int

primrec level_text :: "verificationLevel \<Rightarrow> string" where
  "level_text LevelMetadata = ''metadata''"
| "level_text LevelFullBlob = ''full_blob''"
| "level_text LevelResource = ''resource''"
| "level_text LevelDataset = ''dataset''"
| "level_text LevelWorkspace = ''workspace''"

primrec scopeKind_text :: "verificationScopeKind \<Rightarrow> string" where
  "scopeKind_text KindBlob = ''blob''"
| "scopeKind_text KindResource = ''resource''"
| "scopeKind_text KindDataset = ''dataset''"
| "scopeKind_text KindWorkspace = ''workspace''"

text \<open>
  \<open>expected\<close> and \<open>actual\<close> are absent together; a present \<open>actual\<close> may be \<open>null\<close>, the inner
  \<^const>\<open>None\<close>.
\<close>

record verificationIssue =
  vi_code :: string
  vi_severity :: severity
  vi_subjectKind :: issueSubject
  vi_subjectId :: string
  vi_message :: string
  vi_expected :: "issueValue option"
  vi_actual :: "issueValue option option"

record verificationScope =
  sc_kind :: verificationScopeKind
  sc_id :: string

record blobVerificationResult =
  bv_blobId :: string
  bv_level :: verificationLevel
  bv_status :: verificationStatus
  bv_checkedAt :: string
  bv_bytesRead :: int
  bv_issues :: "verificationIssue list"

record verificationRun =
  run_id :: string
  run_workspaceId :: string
  run_level :: verificationLevel
  run_scope :: verificationScope
  run_status :: verificationStatus
  run_startedAt :: string
  run_completedAt :: string
  run_objectsChecked :: int
  run_bytesRead :: int
  run_issues :: "verificationIssue list"

text \<open>\<open>VerificationRunResult\<close> of the protocol: a run as it is reported, whose end may be missing.\<close>

record verificationRunResult =
  rr_id :: string
  rr_workspaceId :: string
  rr_level :: verificationLevel
  rr_scope :: verificationScope
  rr_status :: verificationStatus
  rr_startedAt :: string
  rr_completedAt :: "string option"
  rr_objectsChecked :: int
  rr_bytesRead :: int
  rr_issues :: "verificationIssue list"

definition reportOf :: "verificationRun \<Rightarrow> verificationRunResult" where
  "reportOf r = \<lparr>rr_id = run_id r, rr_workspaceId = run_workspaceId r, rr_level = run_level r, rr_scope = run_scope r,
     rr_status = run_status r, rr_startedAt = run_startedAt r, rr_completedAt = Some (run_completedAt r),
     rr_objectsChecked = run_objectsChecked r, rr_bytesRead = run_bytesRead r, rr_issues = run_issues r\<rparr>"

record revisionBlobReference =
  rb_id :: string
  rb_workspaceId :: string
  rb_revisionId :: string
  rb_blobObjectId :: string
  rb_role :: string

datatype verificationPackageStatus = PackageActive | PackageDeprecated | PackageRevoked

record verificationSchemaPackage =
  vp_id :: string
  vp_version :: string
  vp_manifest :: schemaManifest
  vp_status :: verificationPackageStatus

record verificationSnapshot =
  vs_workspaceExists :: bool
  vs_datasets :: "dataset list"
  vs_resources :: "resource list"
  vs_revisions :: "revision list"
  vs_blobs :: "blobObject list"
  vs_revisionBlobs :: "revisionBlobReference list"
  vs_relations :: "relation list"
  vs_tombstones :: "tombstone list"
  vs_auditEvents :: "chainedAuditEvent list"
  vs_schemaPackages :: "verificationSchemaPackage list"

record 'c verificationCatalog =
  vc_workspaceExists :: "string \<Rightarrow> ('c, bool) js"
  vc_listBlobs :: "string \<Rightarrow> ('c, blobObject list) js"
  vc_recordRun :: "verificationRun \<Rightarrow> ('c, unit) js"
  vc_setBlobVerification :: "string \<Rightarrow> string \<Rightarrow> verificationState \<Rightarrow> ('c, unit) js"
  vc_getReport :: "string \<Rightarrow> string \<Rightarrow> ('c, verificationRunResult option) js"
  vc_listReports :: "string \<Rightarrow> verificationScope option \<Rightarrow> ('c, verificationRunResult list) js"
  vc_loadSnapshot :: "string \<Rightarrow> ('c, verificationSnapshot) js"

definition blobIssue :: "blobObject \<Rightarrow> string \<Rightarrow> severity \<Rightarrow> string \<Rightarrow> issueValue \<Rightarrow> issueValue \<Rightarrow> verificationIssue" where
  "blobIssue blob code sev message expected actual =
     \<lparr>vi_code = code, vi_severity = sev, vi_subjectKind = OnBlob, vi_subjectId = blob_id blob, vi_message = message,
      vi_expected = Some expected, vi_actual = Some (Some actual)\<rparr>"

definition issueExpecting ::
  "string \<Rightarrow> severity \<Rightarrow> issueSubject \<Rightarrow> string \<Rightarrow> string \<Rightarrow> issueValue option \<Rightarrow> issueValue option \<Rightarrow> verificationIssue" where
  "issueExpecting code sev subject subjectId message expected actual =
     \<lparr>vi_code = code, vi_severity = sev, vi_subjectKind = subject, vi_subjectId = subjectId, vi_message = message,
      vi_expected = expected, vi_actual = (if expected = None then None else Some actual)\<rparr>"

abbreviation plainIssue :: "string \<Rightarrow> severity \<Rightarrow> issueSubject \<Rightarrow> string \<Rightarrow> string \<Rightarrow> verificationIssue" where
  "plainIssue code sev subject subjectId message \<equiv> issueExpecting code sev subject subjectId message None None"

definition serious :: "verificationIssue \<Rightarrow> bool" where
  "serious i = (vi_severity i = SevCritical \<or> vi_severity i = SevError)"

text \<open>\<open>makeRun\<close> takes a run without its status; here the field is overwritten.\<close>

definition makeRun :: "verificationRun \<Rightarrow> verificationRun" where
  "makeRun r = r\<lparr>run_status :=
     (if list_ex serious (run_issues r) then RunFailed
      else if run_issues r \<noteq> [] then RunDegraded else RunPassed)\<rparr>"

section \<open>Blobs\<close>

record ('s, 'c) verifyWorld =
  vw_storage :: 's
  vw_catalog :: 'c
  vw_ambient :: ambient

definition usingStorage :: "('s, 'a) js \<Rightarrow> (('s, 'c) verifyWorld, 'a) js" where
  "usingStorage = within vw_storage (\<lambda>x w. w\<lparr>vw_storage := x\<rparr>)"

definition usingCatalog :: "('c, 'a) js \<Rightarrow> (('s, 'c) verifyWorld, 'a) js" where
  "usingCatalog = within vw_catalog (\<lambda>x w. w\<lparr>vw_catalog := x\<rparr>)"

definition verifyNow :: "(('s, 'c) verifyWorld, string) js" where
  "verifyNow = within vw_ambient (\<lambda>x w. w\<lparr>vw_ambient := x\<rparr>) now"

definition verifyNextId :: "(('s, 'c) verifyWorld, string) js" where
  "verifyNextId = within vw_ambient (\<lambda>x w. w\<lparr>vw_ambient := x\<rparr>) nextId"

text \<open>A method that throws, as a value: \<open>try { x = await m } catch (error) { ... }\<close>.\<close>

definition attempted :: "('s, 'a) js \<Rightarrow> ('s, js_error + 'a) js" where
  "attempted m = (\<lambda>s. let (r, t) = m s in (Inr r, t))"

definition metadataIssues :: "blobObject \<Rightarrow> objectMetadata \<Rightarrow> verificationIssue list" where
  "metadataIssues blob meta =
     (if om_key meta \<noteq> blob_storageKey blob
      then [blobIssue blob ''STORAGE_KEY_MISMATCH'' SevError ''Storage returned a different object key.''
              (IssueText (blob_storageKey blob)) (IssueText (om_key meta))] else [])
     @ (if om_byteLength meta \<noteq> blob_byteLength blob
        then [blobIssue blob ''BLOB_LENGTH_MISMATCH'' SevCritical ''Stored byte length differs from canonical metadata.''
                (IssueCount (blob_byteLength blob)) (IssueCount (om_byteLength meta))] else [])
     @ (case om_sha256 meta of
          None \<Rightarrow> []
        | Some h \<Rightarrow>
            if h \<noteq> [] \<and> h \<noteq> blob_sha256 blob
            then [blobIssue blob ''STORED_HASH_METADATA_MISMATCH'' SevCritical
                    ''Storage hash metadata differs from the canonical hash.''
                    (IssueText (blob_sha256 blob)) (IssueText h)] else [])"

definition streamIssues :: "(bytes \<Rightarrow> string) \<Rightarrow> blobObject \<Rightarrow> readable \<Rightarrow> verificationIssue list" where
  "streamIssues sha blob stream =
     (let bytesRead = int (length (readAll stream)); digest = sha (readAll stream) in
      (if bytesRead \<noteq> blob_byteLength blob
       then [blobIssue blob ''FULL_LENGTH_MISMATCH'' SevCritical ''Streamed byte count differs from canonical metadata.''
               (IssueCount (blob_byteLength blob)) (IssueCount bytesRead)] else [])
      @ (if digest \<noteq> blob_sha256 blob
         then [blobIssue blob ''FULL_HASH_MISMATCH'' SevCritical ''Streamed SHA-256 differs from the canonical hash.''
                 (IssueText (blob_sha256 blob)) (IssueText digest)] else []))"

definition passedIf :: "bool \<Rightarrow> verificationStatus" where
  "passedIf b = (if b then RunPassed else RunFailed)"

definition verifyBlob ::
  "(bytes \<Rightarrow> string) \<Rightarrow> 's objectStorage \<Rightarrow> blobObject \<Rightarrow> verificationLevel \<Rightarrow>
     (('s, 'c) verifyWorld, blobVerificationResult) js" where
  "verifyBlob sha storage blob level =
     andThen verifyNow (\<lambda>checkedAt.
       let result = (\<lambda>status bytesRead issues.
             \<lparr>bv_blobId = blob_id blob, bv_level = level, bv_status = status, bv_checkedAt = checkedAt,
              bv_bytesRead = bytesRead, bv_issues = issues\<rparr>) in
       andThen (attempted (usingStorage (os_head storage (blob_storageKey blob)))) (\<lambda>headed.
         case headed of
           Inl e \<Rightarrow> ret (result RunFailed 0
             [\<lparr>vi_code = ''BLOB_MISSING_OR_INACCESSIBLE'', vi_severity = SevCritical, vi_subjectKind = OnBlob,
               vi_subjectId = blob_id blob, vi_message = err_message e,
               vi_expected = Some (IssueText (blob_storageKey blob)), vi_actual = Some None\<rparr>])
         | Inr meta \<Rightarrow>
             let issues = metadataIssues blob meta in
             if level = LevelMetadata then ret (result (passedIf (issues = [])) 0 issues)
             else
               andThen (attempted (usingStorage (os_openReadStream storage (blob_storageKey blob) None))) (\<lambda>opened.
                 case opened of
                   Inl e \<Rightarrow> ret (result RunFailed 0
                     (issues @ [\<lparr>vi_code = ''BLOB_STREAM_FAILED'', vi_severity = SevCritical, vi_subjectKind = OnStorage,
                       vi_subjectId = blob_id blob, vi_message = err_message e,
                       vi_expected = Some (IssueCount (blob_byteLength blob)), vi_actual = Some (Some (IssueCount 0))\<rparr>]))
                 | Inr stream \<Rightarrow>
                     let found = issues @ streamIssues sha blob stream in
                     ret (result (passedIf (found = [])) (int (length (readAll stream))) found))))"

definition stateOf :: "blobVerificationResult \<Rightarrow> verificationState" where
  "stateOf r = (if bv_status r = RunPassed then VerVerified else VerFailed)"

text \<open>The loop over the blobs: verify one, then store its state in the catalog.\<close>

primrec verifyBlobs ::
  "(bytes \<Rightarrow> string) \<Rightarrow> 's objectStorage \<Rightarrow> 'c verificationCatalog \<Rightarrow> string \<Rightarrow> verificationLevel \<Rightarrow> blobObject list \<Rightarrow>
     (('s, 'c) verifyWorld, blobVerificationResult list) js" where
  "verifyBlobs sha storage cat workspaceId level [] = ret []"
| "verifyBlobs sha storage cat workspaceId level (blob # blobs) =
     andThen (verifyBlob sha storage blob level) (\<lambda>result.
     andThen (usingCatalog (vc_setBlobVerification cat workspaceId (blob_id blob) (stateOf result))) (\<lambda>_.
     andThen (verifyBlobs sha storage cat workspaceId level blobs) (\<lambda>results. ret (result # results))))"

definition runBlobVerification ::
  "(bytes \<Rightarrow> string) \<Rightarrow> 's objectStorage \<Rightarrow> 'c verificationCatalog \<Rightarrow> string \<Rightarrow> verificationLevel \<Rightarrow>
     (('s, 'c) verifyWorld, verificationRun) js" where
  "runBlobVerification sha storage cat workspaceId level =
     andThen verifyNow (\<lambda>startedAt.
     andThen (usingCatalog (vc_workspaceExists cat workspaceId)) (\<lambda>known.
       if \<not> known then throw (plainError ''Verification workspace was not found.'')
       else
         andThen (usingCatalog (vc_listBlobs cat workspaceId)) (\<lambda>blobs.
         andThen (verifyBlobs sha storage cat workspaceId level blobs) (\<lambda>results.
         andThen verifyNextId (\<lambda>i.
         andThen verifyNow (\<lambda>completedAt.
           let run = makeRun \<lparr>run_id = i, run_workspaceId = workspaceId, run_level = level,
                 run_scope = \<lparr>sc_kind = KindWorkspace, sc_id = workspaceId\<rparr>, run_status = RunRunning,
                 run_startedAt = startedAt, run_completedAt = completedAt,
                 run_objectsChecked = int (length results), run_bytesRead = sum_list (map bv_bytesRead results),
                 run_issues = (if blobs \<noteq> [] then concat (map bv_issues results)
                   else [plainIssue ''NO_OBJECTS_CHECKED'' SevWarning OnWorkspace workspaceId
                     ''No catalogued blobs exist in this workspace; verification cannot pass without checking an object.''])\<rparr> in
           andThen (usingCatalog (vc_recordRun cat run)) (\<lambda>_. ret run)))))))"

section \<open>The graph of a resource\<close>

text \<open>A nullable string column in a condition: \<open>null\<close> and the empty string are both falsy.\<close>

definition present_text :: "string option \<Rightarrow> string option" where
  "present_text x = (case x of Some s \<Rightarrow> if s = [] then None else Some s | None \<Rightarrow> None)"

definition graphIssue :: "resource \<Rightarrow> string \<Rightarrow> string \<Rightarrow> verificationIssue" where
  "graphIssue r code message = \<lparr>vi_code = code, vi_severity = SevCritical, vi_subjectKind = OnResource,
     vi_subjectId = res_id r, vi_message = message, vi_expected = None, vi_actual = None\<rparr>"

definition ownRevisions :: "resource \<Rightarrow> revision list \<Rightarrow> revision list" where
  "ownRevisions r revs = filter (\<lambda>x. rev_resourceId x = res_id r) revs"

text \<open>\<open>new Map(own.map(r => [r.id, r]))\<close>: of two revisions with one identifier the later stays.\<close>

definition byRevisionId :: "revision list \<Rightarrow> string \<rightharpoonup> revision" where
  "byRevisionId own = map_of (rev (map (\<lambda>x. (rev_id x, x)) own))"

definition revisionGraphIssues :: "resource \<Rightarrow> (string \<rightharpoonup> revision) \<Rightarrow> int list \<Rightarrow> revision \<Rightarrow> verificationIssue list" where
  "revisionGraphIssues r byId numbers x =
     (if rev_workspaceId x \<noteq> res_workspaceId r \<or> rev_datasetId x \<noteq> res_datasetId r
      then [graphIssue r ''REVISION_SCOPE_MISMATCH'' (''Revision '' @ rev_id x @ '' crosses resource scope.'')] else [])
     @ (if rev_revisionNumber x \<in> set numbers
        then [graphIssue r ''REVISION_NUMBER_DUPLICATE''
                (''Revision number '' @ show_int (rev_revisionNumber x) @ '' is duplicated.'')] else [])
     @ (if rev_revisionNumber x = 1 \<and> rev_parentRevisionId x \<noteq> None
        then [graphIssue r ''FIRST_REVISION_HAS_PARENT'' ''Revision 1 must not have a parent.''] else [])
     @ (if rev_revisionNumber x > 1
        then (case Option.bind (present_text (rev_parentRevisionId x)) byId of
                None \<Rightarrow> [graphIssue r ''REVISION_PARENT_MISSING'' (''Revision '' @ rev_id x @ '' has no resolvable parent.'')]
              | Some p \<Rightarrow>
                  if rev_revisionNumber p \<ge> rev_revisionNumber x
                  then [graphIssue r ''REVISION_PARENT_ORDER_INVALID'' (''Revision '' @ rev_id x @ '' does not follow its parent.'')]
                  else [])
        else [])"

fun graphLoop :: "resource \<Rightarrow> (string \<rightharpoonup> revision) \<Rightarrow> int list \<Rightarrow> revision list \<Rightarrow> verificationIssue list" where
  "graphLoop r byId numbers [] = []"
| "graphLoop r byId numbers (x # xs) =
     revisionGraphIssues r byId numbers x @ graphLoop r byId (rev_revisionNumber x # numbers) xs"

definition verifyResourceGraph :: "resource \<Rightarrow> revision list \<Rightarrow> verificationIssue list" where
  "verifyResourceGraph r revs =
     (let own = ownRevisions r revs; byId = byRevisionId own in
      (case present_text (res_currentRevisionId r) of
         None \<Rightarrow> []
       | Some h \<Rightarrow>
           if byId h = None
           then [graphIssue r ''CURRENT_REVISION_MISSING'' ''Current revision pointer does not resolve.''] else [])
      @ graphLoop r byId [] own)"

section \<open>Scopes\<close>

record selectedScope =
  ss_datasets :: "dataset list"
  ss_resources :: "resource list"
  ss_revisions :: "revision list"
  ss_relations :: "relation list"
  ss_tombstones :: "tombstone list"
  ss_scopeIssues :: "verificationIssue list"

definition resolveScope :: "string \<Rightarrow> verificationLevel \<Rightarrow> verificationScope option \<Rightarrow> js_error + verificationScope" where
  "resolveScope workspaceId level given =
     (let wrong = plainError (level_text level @ '' verification requires a '' @ level_text level @ '' scope.'') in
      case (case given of
              Some s \<Rightarrow> Some s
            | None \<Rightarrow> if level = LevelWorkspace then Some \<lparr>sc_kind = KindWorkspace, sc_id = workspaceId\<rparr> else None) of
        None \<Rightarrow> Inl wrong
      | Some s \<Rightarrow>
          if scopeKind_text (sc_kind s) \<noteq> level_text level then Inl wrong
          else if sc_kind s = KindWorkspace \<and> sc_id s \<noteq> workspaceId
          then Inl (plainError ''Workspace verification scope must match workspaceId.'')
          else Inr s)"

definition emptySelection :: "verificationIssue \<Rightarrow> selectedScope" where
  "emptySelection i = \<lparr>ss_datasets = [], ss_resources = [], ss_revisions = [], ss_relations = [], ss_tombstones = [],
     ss_scopeIssues = [i]\<rparr>"

definition selectScope :: "verificationSnapshot \<Rightarrow> verificationScope \<Rightarrow> selectedScope" where
  "selectScope snap scope =
     (if \<not> vs_workspaceExists snap
      then emptySelection (plainIssue ''SCOPE_NOT_FOUND'' SevCritical OnWorkspace (sc_id scope) ''Workspace scope does not exist.'')
      else
        (case sc_kind scope of
           KindWorkspace \<Rightarrow>
             \<lparr>ss_datasets = vs_datasets snap, ss_resources = vs_resources snap, ss_revisions = vs_revisions snap,
              ss_relations = vs_relations snap, ss_tombstones = vs_tombstones snap, ss_scopeIssues = []\<rparr>
         | KindDataset \<Rightarrow>
             (case find (\<lambda>d. ds_id d = sc_id scope) (vs_datasets snap) of
                None \<Rightarrow> emptySelection (plainIssue ''SCOPE_NOT_FOUND'' SevCritical OnDataset (sc_id scope)
                          ''Dataset scope does not exist in the workspace.'')
              | Some d \<Rightarrow>
                  \<lparr>ss_datasets = [d],
                   ss_resources = filter (\<lambda>x. res_datasetId x = sc_id scope) (vs_resources snap),
                   ss_revisions = filter (\<lambda>x. rev_datasetId x = sc_id scope) (vs_revisions snap),
                   ss_relations = filter (\<lambda>x. rel_datasetId x = sc_id scope) (vs_relations snap),
                   ss_tombstones = filter (\<lambda>x. tomb_datasetId x = sc_id scope) (vs_tombstones snap),
                   ss_scopeIssues = []\<rparr>)
         | KindResource \<Rightarrow>
             (case find (\<lambda>x. res_id x = sc_id scope) (vs_resources snap) of
                None \<Rightarrow> emptySelection (plainIssue ''SCOPE_NOT_FOUND'' SevCritical OnResource (sc_id scope)
                          ''Resource scope does not exist in the workspace.'')
              | Some r \<Rightarrow>
                  \<lparr>ss_datasets = filter (\<lambda>d. ds_id d = res_datasetId r) (vs_datasets snap),
                   ss_resources = [r],
                   ss_revisions = filter (\<lambda>x. res_id r = rev_resourceId x) (vs_revisions snap),
                   ss_relations = filter (\<lambda>x. rel_sourceId x = res_id r \<or> rel_targetId x = res_id r) (vs_relations snap),
                   ss_tombstones = filter (\<lambda>x. tomb_subjectKind x = SubjResource \<and> tomb_subjectId x = res_id r)
                     (vs_tombstones snap),
                   ss_scopeIssues = []\<rparr>)
         | KindBlob \<Rightarrow> emptySelection (plainIssue ''SCOPE_KIND_INVALID'' SevCritical OnBlob (sc_id scope)
                          ''Structural verification does not accept a blob scope.'')))"

section \<open>Schemas, relations and tombstones\<close>

text \<open>The code of a validation issue in upper case.\<close>

primrec issueCode_upper :: "issueCode \<Rightarrow> string" where
  "issueCode_upper UnknownResourceType = ''UNKNOWN_RESOURCE_TYPE''"
| "issueCode_upper MissingRequiredField = ''MISSING_REQUIRED_FIELD''"
| "issueCode_upper InvalidFieldType = ''INVALID_FIELD_TYPE''"
| "issueCode_upper InvalidFormat = ''INVALID_FORMAT''"
| "issueCode_upper UnknownField = ''UNKNOWN_FIELD''"

definition schemaPackageOf :: "verificationSchemaPackage list \<Rightarrow> string \<Rightarrow> verificationSchemaPackage option" where
  "schemaPackageOf packages i = find (\<lambda>p. vp_id p = i) packages"

definition datasetPackageIssues :: "verificationSchemaPackage list \<Rightarrow> dataset \<Rightarrow> verificationIssue list" where
  "datasetPackageIssues packages d =
     (case schemaPackageOf packages (ds_schemaPackageId d) of
        None \<Rightarrow> [plainIssue ''DATASET_SCHEMA_PACKAGE_MISSING'' SevCritical OnDataset (ds_id d)
                  ''Dataset schema package does not resolve.'']
      | Some p \<Rightarrow>
          if vp_status p = PackageRevoked
          then [plainIssue ''DATASET_SCHEMA_PACKAGE_REVOKED'' SevError OnDataset (ds_id d) ''Dataset uses a revoked schema package.'']
          else [])"

definition verifySchema ::
  "(string \<Rightarrow> int option) \<Rightarrow> (string \<Rightarrow> bool) \<Rightarrow> resource \<Rightarrow> revision \<Rightarrow> dataset option \<Rightarrow>
     verificationSchemaPackage list \<Rightarrow> verificationIssue list" where
  "verifySchema dp url r x dataset packages =
     (case schemaPackageOf packages (rev_schemaPackageId x) of
        None \<Rightarrow> [plainIssue ''SCHEMA_PACKAGE_MISSING'' SevCritical OnRevision (rev_id x) ''Revision schema package does not resolve.'']
      | Some p \<Rightarrow>
          (case dataset of
             None \<Rightarrow> []
           | Some d \<Rightarrow>
               if rev_schemaPackageId x \<noteq> ds_schemaPackageId d
               then [issueExpecting ''REVISION_DATASET_SCHEMA_MISMATCH'' SevCritical OnRevision (rev_id x)
                       ''Revision schema package differs from its dataset schema package.''
                       (Some (IssueText (ds_schemaPackageId d))) (Some (IssueText (rev_schemaPackageId x)))]
               else [])
          @ (if vp_version p \<noteq> rev_schemaVersion x
             then [issueExpecting ''SCHEMA_VERSION_MISMATCH'' SevCritical OnRevision (rev_id x)
                     ''Revision schema version differs from its package.''
                     (Some (IssueText (vp_version p))) (Some (IssueText (rev_schemaVersion x)))]
             else [])
          @ (if vp_status p = PackageRevoked
             then [plainIssue ''SCHEMA_PACKAGE_REVOKED'' SevError OnRevision (rev_id x) ''Revision uses a revoked schema package.'']
             else [])
          @ map (\<lambda>v. plainIssue (''SCHEMA_'' @ issueCode_upper (vs_code v)) SevError OnRevision (rev_id x)
                   (vs_path v @ '': '' @ vs_message v))
              (vr_issues (validateResourcePayload dp url (vp_manifest p) (res_resourceType r) (rev_canonicalPayload x))))"

primrec endpoint_text :: "endpointKind \<Rightarrow> string" where
  "endpoint_text EndResource = ''resource''"
| "endpoint_text EndRevision = ''revision''"
| "endpoint_text EndBlob = ''blob''"
| "endpoint_text EndExternal = ''external''"

definition endpointExists :: "verificationSnapshot \<Rightarrow> string \<Rightarrow> endpointKind \<Rightarrow> string \<Rightarrow> bool" where
  "endpointExists snap datasetId kind i =
     (case kind of
        EndResource \<Rightarrow> list_ex (\<lambda>x. res_id x = i \<and> res_datasetId x = datasetId) (vs_resources snap)
      | EndRevision \<Rightarrow> list_ex (\<lambda>x. rev_id x = i \<and> rev_datasetId x = datasetId) (vs_revisions snap)
      | EndBlob \<Rightarrow> list_ex (\<lambda>x. blob_id x = i) (vs_blobs snap)
      | EndExternal \<Rightarrow> length i > 0)"

definition verifyRelation :: "relation \<Rightarrow> verificationSnapshot \<Rightarrow> verificationIssue list" where
  "verifyRelation rel snap =
     concat (map (\<lambda>(side, kind, i).
        if endpointExists snap (rel_datasetId rel) kind i then []
        else [plainIssue ''RELATION_ENDPOINT_MISSING'' SevCritical OnRelation (rel_id rel)
                (''Relation '' @ side @ '' '' @ endpoint_text kind @ '' endpoint does not resolve.'')])
       [(''source'', rel_sourceKind rel, rel_sourceId rel), (''target'', rel_targetKind rel, rel_targetId rel)])"

primrec subjectIssue :: "subjectKind \<Rightarrow> issueSubject" where
  "subjectIssue SubjDataset = OnDataset"
| "subjectIssue SubjResource = OnResource"
| "subjectIssue SubjRelation = OnRelation"

definition tombstoneTarget :: "verificationSnapshot \<Rightarrow> tombstone \<Rightarrow> bool" where
  "tombstoneTarget snap z =
     (case tomb_subjectKind z of
        SubjDataset \<Rightarrow> list_ex (\<lambda>x. ds_id x = tomb_subjectId z) (vs_datasets snap)
      | SubjResource \<Rightarrow> list_ex (\<lambda>x. res_id x = tomb_subjectId z) (vs_resources snap)
      | SubjRelation \<Rightarrow> list_ex (\<lambda>x. rel_id x = tomb_subjectId z) (vs_relations snap))"

definition verifyTombstone :: "tombstone \<Rightarrow> verificationSnapshot \<Rightarrow> verificationIssue list" where
  "verifyTombstone z snap =
     (if \<not> tombstoneTarget snap z \<and> tomb_purgeState z \<noteq> Purged
      then [plainIssue ''TOMBSTONE_SUBJECT_MISSING'' SevCritical (subjectIssue (tomb_subjectKind z)) (tomb_subjectId z)
              ''Unpurged tombstone subject does not resolve.''] else [])
     @ (case present_text (tomb_recoverUntil z) of
          None \<Rightarrow> []
        | Some u \<Rightarrow>
            if u < tomb_deletedAt z
            then [plainIssue ''RETENTION_WINDOW_INVALID'' SevError OnResource (tomb_subjectId z)
                    ''Recovery deadline precedes deletion time.''] else [])
     @ (case present_text (tomb_priorRevisionId z) of
          None \<Rightarrow> []
        | Some p \<Rightarrow>
            if \<not> list_ex (\<lambda>x. rev_id x = p \<and> rev_resourceId x = tomb_subjectId z) (vs_revisions snap)
            then [plainIssue ''TOMBSTONE_PRIOR_REVISION_INVALID'' SevCritical OnResource (tomb_subjectId z)
                    ''Tombstone prior revision does not belong to its resource.''] else [])
     @ (if tomb_subjectKind z = SubjResource
        then (case find (\<lambda>x. res_id x = tomb_subjectId z) (vs_resources snap) of
                None \<Rightarrow> []
              | Some r \<Rightarrow>
                  if tomb_purgeState z \<noteq> Purged \<and> res_status r \<noteq> DeletedLogically
                  then [plainIssue ''TOMBSTONE_STATUS_MISMATCH'' SevError OnResource (res_id r)
                          ''Open tombstone resource is not logically deleted.''] else [])
        else [])"

section \<open>Structural runs\<close>

definition resourceRunIssues ::
  "(string \<Rightarrow> int option) \<Rightarrow> (string \<Rightarrow> bool) \<Rightarrow> selectedScope \<Rightarrow> verificationSchemaPackage list \<Rightarrow> resource \<Rightarrow>
     verificationIssue list" where
  "resourceRunIssues dp url selected packages r =
     (let revisions = filter (\<lambda>x. rev_resourceId x = res_id r) (ss_revisions selected);
          dataset = find (\<lambda>d. ds_id d = res_datasetId r) (ss_datasets selected) in
      verifyResourceGraph r (ss_revisions selected)
      @ concat (map (\<lambda>x. verifySchema dp url r x dataset packages) revisions)
      @ (if revisions = [] \<and> res_status r \<noteq> DeletedLogically
         then [plainIssue ''ORPHAN_RESOURCE_WITHOUT_REVISION'' SevCritical OnResource (res_id r) ''Resource has no revision history.'']
         else []))"

definition selectedReferences :: "verificationSnapshot \<Rightarrow> selectedScope \<Rightarrow> revisionBlobReference list" where
  "selectedReferences snap selected =
     filter (\<lambda>x. rb_revisionId x \<in> set (map rev_id (ss_revisions selected))) (vs_revisionBlobs snap)"

definition selectedBlobs :: "verificationLevel \<Rightarrow> verificationSnapshot \<Rightarrow> selectedScope \<Rightarrow> blobObject list" where
  "selectedBlobs level snap selected =
     (if level = LevelWorkspace then vs_blobs snap
      else filter (\<lambda>b. blob_id b \<in> set (map rb_blobObjectId (selectedReferences snap selected))) (vs_blobs snap))"

definition referenceIssues :: "verificationSnapshot \<Rightarrow> revisionBlobReference \<Rightarrow> verificationIssue list" where
  "referenceIssues snap x =
     (if list_ex (\<lambda>b. blob_id b = rb_blobObjectId x) (vs_blobs snap) then []
      else [plainIssue ''REVISION_BLOB_TARGET_MISSING'' SevCritical OnRevision (rb_revisionId x)
              (''Blob reference '' @ rb_id x @ '' does not resolve.'')])"

definition workspaceRunIssues :: "(bytes \<Rightarrow> string) \<Rightarrow> string \<Rightarrow> verificationSnapshot \<Rightarrow> verificationIssue list" where
  "workspaceRunIssues sha workspaceId snap =
     (if vs_auditEvents snap \<noteq> [] \<and> \<not> verifyAuditChain sha (vs_auditEvents snap)
      then [plainIssue ''AUDIT_CHAIN_INVALID'' SevCritical OnWorkspace workspaceId ''Workspace audit event hash chain is invalid.'']
      else [])
     @ concat (map (\<lambda>b.
         if blob_id b \<in> set (map rb_blobObjectId (vs_revisionBlobs snap)) then []
         else [plainIssue ''ORPHAN_BLOB'' SevWarning OnBlob (blob_id b) ''Blob is not referenced by any revision.''])
       (vs_blobs snap))"

definition objectsCounted :: "verificationLevel \<Rightarrow> verificationSnapshot \<Rightarrow> selectedScope \<Rightarrow> int" where
  "objectsCounted level snap selected =
     (if ss_scopeIssues selected \<noteq> [] then 0 else int (length (ss_datasets selected)))
     + sum_list (map (\<lambda>r. 1 + int (length (filter (\<lambda>x. rev_resourceId x = res_id r) (ss_revisions selected))))
         (ss_resources selected))
     + int (length (selectedReferences snap selected)) + int (length (selectedBlobs level snap selected))
     + int (length (ss_relations selected)) + int (length (ss_tombstones selected))
     + (if level = LevelWorkspace then int (length (vs_auditEvents snap)) else 0)"

text \<open>The issues of a run, in the order the code pushes them.\<close>

definition structuralIssues ::
  "(bytes \<Rightarrow> string) \<Rightarrow> (string \<Rightarrow> int option) \<Rightarrow> (string \<Rightarrow> bool) \<Rightarrow> string \<Rightarrow> verificationLevel \<Rightarrow>
     verificationSnapshot \<Rightarrow> selectedScope \<Rightarrow> blobVerificationResult list \<Rightarrow> verificationIssue list" where
  "structuralIssues sha dp url workspaceId level snap selected results =
     ss_scopeIssues selected
     @ concat (map (datasetPackageIssues (vs_schemaPackages snap)) (ss_datasets selected))
     @ concat (map (resourceRunIssues dp url selected (vs_schemaPackages snap)) (ss_resources selected))
     @ concat (map (referenceIssues snap) (selectedReferences snap selected))
     @ concat (map bv_issues results)
     @ concat (map (\<lambda>rel. verifyRelation rel snap) (ss_relations selected))
     @ concat (map (\<lambda>z. verifyTombstone z snap) (ss_tombstones selected))
     @ (if level = LevelWorkspace then workspaceRunIssues sha workspaceId snap else [])"

definition runStructuralVerification ::
  "(bytes \<Rightarrow> string) \<Rightarrow> (string \<Rightarrow> int option) \<Rightarrow> (string \<Rightarrow> bool) \<Rightarrow> 's objectStorage \<Rightarrow> 'c verificationCatalog \<Rightarrow>
     string \<Rightarrow> verificationLevel \<Rightarrow> verificationScope option \<Rightarrow> (('s, 'c) verifyWorld, verificationRun) js" where
  "runStructuralVerification sha dp url storage cat workspaceId level given =
     andThen (lifting (resolveScope workspaceId level given)) (\<lambda>scope.
     andThen verifyNow (\<lambda>startedAt.
     andThen (usingCatalog (vc_loadSnapshot cat workspaceId)) (\<lambda>snap.
       let selected = selectScope snap scope in
       andThen (verifyBlobs sha storage cat workspaceId LevelMetadata (selectedBlobs level snap selected)) (\<lambda>results.
       andThen verifyNextId (\<lambda>i.
       andThen verifyNow (\<lambda>completedAt.
         let run = makeRun \<lparr>run_id = i, run_workspaceId = workspaceId, run_level = level, run_scope = scope,
               run_status = RunRunning, run_startedAt = startedAt, run_completedAt = completedAt,
               run_objectsChecked = objectsCounted level snap selected, run_bytesRead = 0,
               run_issues = structuralIssues sha dp url workspaceId level snap selected results\<rparr> in
         andThen (usingCatalog (vc_recordRun cat run)) (\<lambda>_. ret run)))))))"

section \<open>What a graph without issues is\<close>

declare concat_map_Nil [simp]

lemma present_text_Some: "present_text x = Some s \<longleftrightarrow> x = Some s \<and> s \<noteq> []"
  by (auto simp: present_text_def split: option.splits)

lemma byRevisionId_Some: "byRevisionId own i = Some x \<Longrightarrow> x \<in> set own \<and> rev_id x = i"
  by (auto simp: byRevisionId_def dest!: map_of_SomeD)

lemma byRevisionId_distinct:
  assumes "distinct (map rev_id own)" "x \<in> set own"
  shows "byRevisionId own (rev_id x) = Some x"
  unfolding byRevisionId_def using assms
  by (intro map_of_is_SomeI) (auto simp: rev_map [symmetric] comp_def)

lemma byRevisionId_None: "byRevisionId own i = None \<longleftrightarrow> i \<notin> rev_id ` set own"
  by (auto simp: byRevisionId_def map_of_eq_None_iff image_image)

text \<open>A revision of a well-formed history: in the scope of its resource, the first one without a
  parent, every later one after a parent of the same resource.\<close>

definition placed :: "resource \<Rightarrow> (string \<rightharpoonup> revision) \<Rightarrow> revision \<Rightarrow> bool" where
  "placed r byId x \<longleftrightarrow> rev_workspaceId x = res_workspaceId r \<and> rev_datasetId x = res_datasetId r
     \<and> (rev_revisionNumber x = 1 \<longrightarrow> rev_parentRevisionId x = None)
     \<and> (rev_revisionNumber x > 1 \<longrightarrow> (\<exists>i p. rev_parentRevisionId x = Some i \<and> i \<noteq> [] \<and> byId i = Some p
          \<and> rev_revisionNumber p < rev_revisionNumber x))"

lemma revisionGraphIssues_Nil:
  "revisionGraphIssues r byId ns x = [] \<longleftrightarrow> placed r byId x \<and> rev_revisionNumber x \<notin> set ns"
proof (cases "Option.bind (present_text (rev_parentRevisionId x)) byId")
  case None
  then have "\<not> (\<exists>i p. rev_parentRevisionId x = Some i \<and> i \<noteq> [] \<and> byId i = Some p)"
    by (auto simp: present_text_def bind_eq_None_conv split: option.splits if_splits)
  with None show ?thesis by (auto simp: revisionGraphIssues_def placed_def)
next
  case (Some p)
  then obtain i where "rev_parentRevisionId x = Some i" "i \<noteq> []" "byId i = Some p"
    by (auto simp: bind_eq_Some_conv present_text_Some)
  with Some show ?thesis by (auto simp: revisionGraphIssues_def placed_def)
qed

lemma graphLoop_Nil:
  "graphLoop r byId ns xs = [] \<longleftrightarrow> (\<forall>x\<in>set xs. placed r byId x) \<and> distinct (map rev_revisionNumber xs)
     \<and> set ns \<inter> rev_revisionNumber ` set xs = {}"
  by (induction xs arbitrary: ns) (auto simp: revisionGraphIssues_Nil)

lemma resource_graph_Nil:
  "verifyResourceGraph r revs = [] \<longleftrightarrow>
     (let own = ownRevisions r revs in
      (\<forall>h. res_currentRevisionId r = Some h \<longrightarrow> h = [] \<or> h \<in> rev_id ` set own)
      \<and> (\<forall>x\<in>set own. placed r (byRevisionId own) x) \<and> distinct (map rev_revisionNumber own))"
  by (auto simp: verifyResourceGraph_def Let_def graphLoop_Nil present_text_def byRevisionId_None
      split: option.splits if_splits)

text \<open>The line of descent of a revision, itself first.\<close>

inductive descends :: "revision list \<Rightarrow> revision list \<Rightarrow> bool" where
  first: "x \<in> set own \<Longrightarrow> rev_revisionNumber x = 1 \<Longrightarrow> rev_parentRevisionId x = None \<Longrightarrow> descends own [x]"
| step: "x \<in> set own \<Longrightarrow> descends own (p # line) \<Longrightarrow> rev_parentRevisionId x = Some (rev_id p) \<Longrightarrow>
     rev_revisionNumber p < rev_revisionNumber x \<Longrightarrow> descends own (x # p # line)"

inductive_simps descends_one: "descends own [x]"
inductive_cases descends_more: "descends own (x # p # line)"

lemma descends_sorted: "descends own line \<Longrightarrow> sorted_wrt (\<lambda>x y. rev_revisionNumber x > rev_revisionNumber y) line
    \<and> set line \<subseteq> set own \<and> line \<noteq> []"
  by (induction rule: descends.induct) auto

lemma placed_descends:
  assumes all: "\<forall>x\<in>set own. placed r (byRevisionId own) x" and positive: "\<forall>x\<in>set own. rev_revisionNumber x \<ge> 1"
  shows "x \<in> set own \<Longrightarrow> \<exists>line. descends own (x # line)"
proof (induction "nat (rev_revisionNumber x)" arbitrary: x rule: less_induct)
  case less
  have x: "placed r (byRevisionId own) x" "rev_revisionNumber x \<ge> 1" using all positive less.prems by blast+
  show ?case
  proof (cases "rev_revisionNumber x = 1")
    case True
    then show ?thesis using x(1) less.prems by (auto simp: placed_def intro: descends.first)
  next
    case False
    with x obtain i p where p: "rev_parentRevisionId x = Some i" "byRevisionId own i = Some p"
        "rev_revisionNumber p < rev_revisionNumber x"
      by (auto simp: placed_def)
    note own = byRevisionId_Some [OF p(2)]
    then obtain line where "descends own (p # line)"
      using less.hyps [of p] p(3) x(2) by auto
    then show ?thesis using descends.step [OF less.prems] p own by blast
  qed
qed

section \<open>Contracts\<close>

text \<open>The state of one blob in a listing.\<close>

definition marked :: "string \<Rightarrow> verificationState \<Rightarrow> blobObject \<Rightarrow> blobObject" where
  "marked i st b = (if blob_id b = i then b\<lparr>blob_verificationState := st\<rparr> else b)"

lemma marked_fields [simp]:
  "blob_id (marked i st b) = blob_id b" "blob_storageKey (marked i st b) = blob_storageKey b"
  "blob_byteLength (marked i st b) = blob_byteLength b" "blob_sha256 (marked i st b) = blob_sha256 b"
  "blob_workspaceId (marked i st b) = blob_workspaceId b"
  by (simp_all add: marked_def)

text \<open>A blob after a run with the given results.\<close>

definition settledBy :: "blobVerificationResult list \<Rightarrow> blobObject \<Rightarrow> blobObject" where
  "settledBy results b = (case find (\<lambda>x. bv_blobId x = blob_id b) results of
     None \<Rightarrow> b | Some x \<Rightarrow> b\<lparr>blob_verificationState := stateOf x\<rparr>)"

lemma settledBy_Nil [simp]: "settledBy [] = (\<lambda>b. b)"
  by (simp add: settledBy_def fun_eq_iff)

lemma settledBy_Cons: "settledBy (x # xs) b =
    (if bv_blobId x = blob_id b then b\<lparr>blob_verificationState := stateOf x\<rparr> else settledBy xs b)"
  by (simp add: settledBy_def)

lemma settledBy_marked: "bv_blobId x = i \<Longrightarrow> i \<notin> bv_blobId ` set xs \<Longrightarrow> settledBy xs (marked i (stateOf x) b) = settledBy (x # xs) b"
  by (auto simp: settledBy_def marked_def find_Some_iff split: option.splits) (metis image_eqI nth_mem)

text \<open>
  What a run relies on in a catalog with the invariant \<open>inv\<close>, whose workspaces, blobs, recorded runs
  and snapshots are \<open>known\<close>, \<open>blobsOf\<close>, \<open>runsOf\<close> and \<open>snapOf\<close>.
\<close>

locale verification_catalog =
  fixes cat :: "'c verificationCatalog"
    and inv :: "'c \<Rightarrow> bool"
    and known :: "'c \<Rightarrow> string \<Rightarrow> bool"
    and blobsOf :: "'c \<Rightarrow> string \<Rightarrow> blobObject list"
    and runsOf :: "'c \<Rightarrow> verificationRunResult list"
    and snapOf :: "'c \<Rightarrow> string \<Rightarrow> verificationSnapshot"
  assumes exists_run: "vc_workspaceExists cat w c = (Inr (known c w), c)"
    and list_run: "vc_listBlobs cat w c = (Inr (blobsOf c w), c)"
    and snapshot_run: "vc_loadSnapshot cat w c = (Inr (snapOf c w), c)"
    and snapshot_known: "vs_workspaceExists (snapOf c w) = known c w"
    and snapshot_blobs: "vs_blobs (snapOf c w) = blobsOf c w"
    and distinct_blobs: "inv c \<Longrightarrow> distinct (map blob_id (blobsOf c w))"
    and set_run: "inv c \<Longrightarrow> i \<in> blob_id ` set (blobsOf c w) \<Longrightarrow>
      \<exists>d. vc_setBlobVerification cat w i st c = (Inr (), d) \<and> inv d \<and> known d = known c \<and> runsOf d = runsOf c
        \<and> blobsOf d = (blobsOf c)(w := map (marked i st) (blobsOf c w))"
    and record_run: "inv c \<Longrightarrow> known c (run_workspaceId r) \<Longrightarrow> run_id r \<notin> rr_id ` set (runsOf c) \<Longrightarrow>
      \<exists>d. vc_recordRun cat r c = (Inr (), d) \<and> inv d \<and> known d = known c \<and> blobsOf d = blobsOf c
        \<and> runsOf d = runsOf c @ [reportOf r]"

text \<open>
  An object in the storage that agrees with the catalog: at the metadata level its length and the
  recorded hash, at the full level also the hash of its bytes.
\<close>

definition intactAt :: "(bytes \<Rightarrow> string) \<Rightarrow> verificationLevel \<Rightarrow> (string \<rightharpoonup> storedBytes) \<Rightarrow> blobObject \<Rightarrow> bool" where
  "intactAt sha level objs b \<longleftrightarrow>
     (case objs (blob_storageKey b) of
        None \<Rightarrow> False
      | Some obj \<Rightarrow> int (length (sb_body obj)) = blob_byteLength b
          \<and> (sb_sha256 obj = [] \<or> sb_sha256 obj = blob_sha256 b)
          \<and> (level \<noteq> LevelMetadata \<longrightarrow> sha (sb_body obj) = blob_sha256 b))"

lemma intactAt_marked [simp]: "intactAt sha level objs (marked i st b) = intactAt sha level objs b"
  unfolding intactAt_def marked_fields ..

lemma serious_blobIssue [simp]: "serious (blobIssue b code sev m e a) \<longleftrightarrow> sev \<noteq> SevWarning"
  by (cases sev) (simp_all add: serious_def blobIssue_def)

lemma metadataIssues_serious: "list_all serious (metadataIssues b meta)"
  by (auto simp: metadataIssues_def split: option.splits)

lemma streamIssues_serious: "list_all serious (streamIssues sha b stream)"
  by (auto simp: streamIssues_def Let_def)

lemma metadataIssues_Nil: "metadataIssues b (metadataOf (blob_storageKey b) obj) = [] \<longleftrightarrow>
    int (length (sb_body obj)) = blob_byteLength b \<and> (sb_sha256 obj = [] \<or> sb_sha256 obj = blob_sha256 b)"
  by (auto simp: metadataIssues_def metadataOf_def)

lemma streamIssues_Nil: "streamIssues sha b stream = [] \<longleftrightarrow>
    int (length (readAll stream)) = blob_byteLength b \<and> sha (readAll stream) = blob_sha256 b"
  by (auto simp: streamIssues_def Let_def)

text \<open>What the result of one blob is, against the storage it was read from.\<close>

definition blobChecked ::
  "(bytes \<Rightarrow> string) \<Rightarrow> verificationLevel \<Rightarrow> (string \<rightharpoonup> storedBytes) \<Rightarrow> blobObject \<Rightarrow> blobVerificationResult \<Rightarrow> bool" where
  "blobChecked sha level objs b x \<longleftrightarrow> bv_blobId x = blob_id b \<and> bv_level x = level \<and> list_all serious (bv_issues x)
     \<and> (bv_status x = RunPassed \<longleftrightarrow> intactAt sha level objs b) \<and> (bv_issues x = [] \<longleftrightarrow> intactAt sha level objs b)
     \<and> bv_bytesRead x = (case objs (blob_storageKey b) of
          None \<Rightarrow> 0 | Some obj \<Rightarrow> if level = LevelMetadata then 0 else int (length (sb_body obj)))"

section \<open>What a sound workspace is\<close>

definition packageUsable :: "verificationSnapshot \<Rightarrow> string \<Rightarrow> bool" where
  "packageUsable snap i \<longleftrightarrow> (\<exists>p. schemaPackageOf (vs_schemaPackages snap) i = Some p \<and> vp_status p \<noteq> PackageRevoked)"

definition graphSound :: "resource \<Rightarrow> revision list \<Rightarrow> bool" where
  "graphSound r own \<longleftrightarrow> (\<forall>h. res_currentRevisionId r = Some h \<longrightarrow> h = [] \<or> (\<exists>x\<in>set own. rev_id x = h))
     \<and> (\<forall>x\<in>set own. placed r (byRevisionId own) x) \<and> distinct (map rev_revisionNumber own)"

definition schemaSound ::
  "(string \<Rightarrow> int option) \<Rightarrow> (string \<Rightarrow> bool) \<Rightarrow> verificationSnapshot \<Rightarrow> resource \<Rightarrow> revision \<Rightarrow> bool" where
  "schemaSound dp url snap r x \<longleftrightarrow>
     (\<exists>p. schemaPackageOf (vs_schemaPackages snap) (rev_schemaPackageId x) = Some p \<and> vp_status p \<noteq> PackageRevoked
        \<and> vp_version p = rev_schemaVersion x
        \<and> vr_valid (validateResourcePayload dp url (vp_manifest p) (res_resourceType r) (rev_canonicalPayload x)))
     \<and> (\<forall>d. find (\<lambda>d. ds_id d = res_datasetId r) (vs_datasets snap) = Some d \<longrightarrow>
          ds_schemaPackageId d = rev_schemaPackageId x)"

definition resourceSound ::
  "(string \<Rightarrow> int option) \<Rightarrow> (string \<Rightarrow> bool) \<Rightarrow> verificationSnapshot \<Rightarrow> resource \<Rightarrow> bool" where
  "resourceSound dp url snap r \<longleftrightarrow>
     (let own = ownRevisions r (vs_revisions snap) in
      graphSound r own \<and> (\<forall>x\<in>set own. schemaSound dp url snap r x) \<and> (own = [] \<longrightarrow> res_status r = DeletedLogically))"

definition relationSound :: "verificationSnapshot \<Rightarrow> relation \<Rightarrow> bool" where
  "relationSound snap rel \<longleftrightarrow> endpointExists snap (rel_datasetId rel) (rel_sourceKind rel) (rel_sourceId rel)
     \<and> endpointExists snap (rel_datasetId rel) (rel_targetKind rel) (rel_targetId rel)"

definition tombstoneSound :: "verificationSnapshot \<Rightarrow> tombstone \<Rightarrow> bool" where
  "tombstoneSound snap z \<longleftrightarrow> (tomb_purgeState z \<noteq> Purged \<longrightarrow> tombstoneTarget snap z)
     \<and> (\<forall>u. tomb_recoverUntil z = Some u \<longrightarrow> u = [] \<or> tomb_deletedAt z \<le> u)
     \<and> (\<forall>p. tomb_priorRevisionId z = Some p \<longrightarrow>
          p = [] \<or> (\<exists>x\<in>set (vs_revisions snap). rev_id x = p \<and> rev_resourceId x = tomb_subjectId z))
     \<and> (\<forall>r. tomb_subjectKind z = SubjResource \<longrightarrow> tomb_purgeState z \<noteq> Purged \<longrightarrow>
          find (\<lambda>x. res_id x = tomb_subjectId z) (vs_resources snap) = Some r \<longrightarrow> res_status r = DeletedLogically)"

text \<open>Everything that makes a run fail is absent; a blob without a reference only degrades it.\<close>

definition structureSound ::
  "(bytes \<Rightarrow> string) \<Rightarrow> (string \<Rightarrow> int option) \<Rightarrow> (string \<Rightarrow> bool) \<Rightarrow> (string \<rightharpoonup> storedBytes) \<Rightarrow> verificationSnapshot \<Rightarrow> bool" where
  "structureSound sha dp url objs snap \<longleftrightarrow>
     (\<forall>d\<in>set (vs_datasets snap). packageUsable snap (ds_schemaPackageId d))
     \<and> (\<forall>r\<in>set (vs_resources snap). resourceSound dp url snap r)
     \<and> (\<forall>x\<in>set (vs_revisionBlobs snap). rb_revisionId x \<in> rev_id ` set (vs_revisions snap) \<longrightarrow>
          rb_blobObjectId x \<in> blob_id ` set (vs_blobs snap))
     \<and> (\<forall>b\<in>set (vs_blobs snap). intactAt sha LevelMetadata objs b)
     \<and> (\<forall>rel\<in>set (vs_relations snap). relationSound snap rel)
     \<and> (\<forall>z\<in>set (vs_tombstones snap). tombstoneSound snap z)
     \<and> verifyAuditChain sha (vs_auditEvents snap)"

definition everyBlobUsed :: "verificationSnapshot \<Rightarrow> bool" where
  "everyBlobUsed snap \<longleftrightarrow> blob_id ` set (vs_blobs snap) \<subseteq> rb_blobObjectId ` set (vs_revisionBlobs snap)"

lemma serious_issue [simp]: "serious (issueExpecting code sev sub i m e a) \<longleftrightarrow> sev \<noteq> SevWarning"
  by (cases sev) (simp_all add: serious_def issueExpecting_def)

lemma serious_graphIssue [simp]: "serious (graphIssue r code m)"
  by (simp add: serious_def graphIssue_def)

lemma graph_serious: "list_all serious (verifyResourceGraph r revs)"
proof -
  have "list_all serious (graphLoop r byId ns xs)" for byId ns xs
    by (induction xs arbitrary: ns) (auto simp: revisionGraphIssues_def split: option.splits)
  then show ?thesis by (auto simp: verifyResourceGraph_def Let_def split: option.splits)
qed

lemma graphSound_iff: "verifyResourceGraph r revs = [] \<longleftrightarrow> graphSound r (ownRevisions r revs)"
  by (auto simp: resource_graph_Nil graphSound_def Let_def)

lemma payload_valid_iff: "vr_valid (validateResourcePayload dp url m t payload) \<longleftrightarrow>
    vr_issues (validateResourcePayload dp url m t payload) = []"
  by (auto simp: validateResourcePayload_def resultOf_def Let_def split: option.splits)

lemma dataset_facts:
  "datasetPackageIssues (vs_schemaPackages snap) d = [] \<longleftrightarrow> packageUsable snap (ds_schemaPackageId d)"
  "list_all serious (datasetPackageIssues packages d)"
  by (auto simp: datasetPackageIssues_def packageUsable_def split: option.splits)

lemma schema_facts:
  "verifySchema dp url r x (find (\<lambda>d. ds_id d = res_datasetId r) (vs_datasets snap)) (vs_schemaPackages snap) = []
     \<longleftrightarrow> schemaSound dp url snap r x"
  "list_all serious (verifySchema dp url r x dataset packages)"
  by (auto simp: verifySchema_def schemaSound_def payload_valid_iff list_all_iff split: option.splits)

lemma relation_facts:
  "verifyRelation rel snap = [] \<longleftrightarrow> relationSound snap rel" "list_all serious (verifyRelation rel snap)"
  by (simp_all add: verifyRelation_def relationSound_def)

lemma tombstone_facts:
  "verifyTombstone z snap = [] \<longleftrightarrow> tombstoneSound snap z" "list_all serious (verifyTombstone z snap)"
  by (auto simp: verifyTombstone_def tombstoneSound_def present_text_def list_ex_iff not_less split: option.splits if_splits)

lemma reference_facts:
  "referenceIssues snap x = [] \<longleftrightarrow> rb_blobObjectId x \<in> blob_id ` set (vs_blobs snap)"
  "list_all serious (referenceIssues snap x)"
  by (auto simp: referenceIssues_def list_ex_iff intro: rev_image_eqI)

lemma resource_facts:
  assumes "ss_revisions selected = vs_revisions snap" and "ss_datasets selected = vs_datasets snap"
  shows "resourceRunIssues dp url selected (vs_schemaPackages snap) r = [] \<longleftrightarrow> resourceSound dp url snap r"
    and "list_all serious (resourceRunIssues dp url selected (vs_schemaPackages snap) r)"
proof -
  show "resourceRunIssues dp url selected (vs_schemaPackages snap) r = [] \<longleftrightarrow> resourceSound dp url snap r"
    using assms by (auto simp: resourceRunIssues_def resourceSound_def Let_def schema_facts(1) graphSound_iff ownRevisions_def)
  show "list_all serious (resourceRunIssues dp url selected (vs_schemaPackages snap) r)"
    using schema_facts(2) graph_serious by (auto simp: resourceRunIssues_def Let_def list_all_iff)
qed

lemma workspace_facts:
  assumes "vs_workspaceExists snap" and "concat (map bv_issues results) = [] \<longleftrightarrow>
      (\<forall>b\<in>set (vs_blobs snap). intactAt sha LevelMetadata m b)" and "list_all serious (concat (map bv_issues results))"
    and found_def: "found = structuralIssues sha dp url w LevelWorkspace snap
      (selectScope snap \<lparr>sc_kind = KindWorkspace, sc_id = w\<rparr>) results"
  shows "list_ex serious found \<longleftrightarrow> \<not> structureSound sha dp url m snap"
    and "found = [] \<longleftrightarrow> structureSound sha dp url m snap \<and> everyBlobUsed snap"
proof -
  define sel where "sel = selectScope snap \<lparr>sc_kind = KindWorkspace, sc_id = w\<rparr>"
  have sel: "ss_datasets sel = vs_datasets snap" "ss_resources sel = vs_resources snap" "ss_revisions sel = vs_revisions snap"
      "ss_relations sel = vs_relations snap" "ss_tombstones sel = vs_tombstones snap" "ss_scopeIssues sel = []"
    using assms(1) by (simp_all add: sel_def selectScope_def)
  define audit where "audit = (if vs_auditEvents snap \<noteq> [] \<and> \<not> verifyAuditChain sha (vs_auditEvents snap)
      then [plainIssue ''AUDIT_CHAIN_INVALID'' SevCritical OnWorkspace w ''Workspace audit event hash chain is invalid.'']
      else [])"
  define orphans where "orphans = concat (map (\<lambda>b.
         if blob_id b \<in> set (map rb_blobObjectId (vs_revisionBlobs snap)) then []
         else [plainIssue ''ORPHAN_BLOB'' SevWarning OnBlob (blob_id b) ''Blob is not referenced by any revision.''])
       (vs_blobs snap))"
  define hard where "hard = concat (map (datasetPackageIssues (vs_schemaPackages snap)) (vs_datasets snap))
     @ concat (map (resourceRunIssues dp url sel (vs_schemaPackages snap)) (vs_resources snap))
     @ concat (map (referenceIssues snap) (selectedReferences snap sel))
     @ concat (map bv_issues results)
     @ concat (map (\<lambda>rel. verifyRelation rel snap) (vs_relations snap))
     @ concat (map (\<lambda>z. verifyTombstone z snap) (vs_tombstones snap)) @ audit"
  have found: "found = hard @ orphans"
    unfolding found_def structuralIssues_def sel_def [symmetric] sel hard_def audit_def orphans_def workspaceRunIssues_def by simp
  have "list_all serious audit" by (simp add: audit_def)
  then have serious: "list_all serious hard"
    using assms(3) dataset_facts(2) resource_facts(2) [OF sel(3,1)] reference_facts(2) relation_facts(2) tombstone_facts(2)
    unfolding hard_def by (auto simp: list_all_iff)
  have soft: "\<not> list_ex serious orphans" "orphans = [] \<longleftrightarrow> everyBlobUsed snap"
    by (auto simp: orphans_def list_ex_iff everyBlobUsed_def)
  have chain: "audit = [] \<longleftrightarrow> verifyAuditChain sha (vs_auditEvents snap)"
    by (auto simp: audit_def verifyAuditChain_def)
  have refs: "(\<forall>x\<in>set (selectedReferences snap sel). referenceIssues snap x = []) \<longleftrightarrow>
      (\<forall>x\<in>set (vs_revisionBlobs snap). rb_revisionId x \<in> rev_id ` set (vs_revisions snap) \<longrightarrow>
          rb_blobObjectId x \<in> blob_id ` set (vs_blobs snap))"
    by (auto simp: selectedReferences_def sel reference_facts(1))
  have blobs: "(\<forall>x\<in>set results. bv_issues x = []) \<longleftrightarrow> (\<forall>b\<in>set (vs_blobs snap). intactAt sha LevelMetadata m b)"
    using assms(2) by simp
  have hard: "hard = [] \<longleftrightarrow> structureSound sha dp url m snap"
    unfolding hard_def structureSound_def append_is_Nil_conv concat_map_Nil blobs dataset_facts(1)
      resource_facts(1) [OF sel(3,1)] relation_facts(1) tombstone_facts(1) chain refs by (rule refl)
  show "list_ex serious found \<longleftrightarrow> \<not> structureSound sha dp url m snap"
    using serious soft(1) hard unfolding found by (cases hard) auto
  show "found = [] \<longleftrightarrow> structureSound sha dp url m snap \<and> everyBlobUsed snap"
    using hard soft(2) unfolding found by simp
qed

locale blob_verification = object_storage sha ops objs + verification_catalog cat inv known blobsOf runsOf snapOf
  for sha :: "bytes \<Rightarrow> string"
    and ops :: "'s objectStorage"
    and objs :: "'s \<Rightarrow> string \<rightharpoonup> storedBytes"
    and cat :: "'c verificationCatalog"
    and inv :: "'c \<Rightarrow> bool"
    and known :: "'c \<Rightarrow> string \<Rightarrow> bool"
    and blobsOf :: "'c \<Rightarrow> string \<Rightarrow> blobObject list"
    and runsOf :: "'c \<Rightarrow> verificationRunResult list"
    and snapOf :: "'c \<Rightarrow> string \<Rightarrow> verificationSnapshot"
begin

text \<open>The parts of the world that reading a blob leaves as they are.\<close>

definition undisturbed :: "('s, 'c) verifyWorld \<Rightarrow> ('s, 'c) verifyWorld \<Rightarrow> bool" where
  "undisturbed w w' \<longleftrightarrow> objs (vw_storage w') = objs (vw_storage w)
     \<and> idAt (vw_ambient w') = idAt (vw_ambient w) \<and> idCount (vw_ambient w') = idCount (vw_ambient w)"

lemma verifyBlob_run:
  "\<exists>x w'. verifyBlob sha ops b level w = (Inr x, w') \<and> blobChecked sha level (objs (vw_storage w)) b x
     \<and> undisturbed w w' \<and> vw_catalog w' = vw_catalog w"
proof -
  let ?k = "blob_storageKey b"
  obtain rh s1 where head: "os_head ops ?k (vw_storage w) = (rh, s1)" by force
  note H = head_spec [OF head]
  obtain ro s2 where stream: "os_openReadStream ops ?k None s1 = (ro, s2)" by force
  note S = open_spec [OF stream]
  note defs = verifyBlob_def verifyNow_def now_def attempted_def usingStorage_def js_simps Let_def undisturbed_def
  show ?thesis
  proof (cases rh)
    case (Inl e)
    then have "objs (vw_storage w) ?k = None"
      using head head_total by (metis Pair_inject not_None_eq sum.distinct(1))
    with Inl head H show ?thesis by (simp add: defs blobChecked_def intactAt_def serious_def)
  next
    case (Inr meta)
    with H obtain obj where obj: "objs (vw_storage w) ?k = Some obj" "meta = metadataOf ?k obj" by blast
    show ?thesis
    proof (cases "level = LevelMetadata")
      case True
      with Inr head H obj show ?thesis
        by (auto simp: defs blobChecked_def intactAt_def metadataIssues_Nil metadataIssues_serious passedIf_def)
    next
      case False
      have "objs s1 ?k = Some obj" using H obj(1) by simp
      then obtain chunks where chunks: "ro = Inr chunks" "readAll chunks = sb_body obj"
        using open_total stream S by fastforce
      with False Inr head H S stream obj show ?thesis
        by (auto simp: defs blobChecked_def intactAt_def metadataIssues_Nil metadataIssues_serious
            streamIssues_Nil streamIssues_serious passedIf_def)
    qed
  qed
qed

lemma verifyBlobs_run:
  assumes "inv (vw_catalog w)" and "distinct (map blob_id bs)"
    and "blob_id ` set bs \<subseteq> blob_id ` set (blobsOf (vw_catalog w) ws)"
  shows "\<exists>xs w'. verifyBlobs sha ops cat ws level bs w = (Inr xs, w')
     \<and> list_all2 (blobChecked sha level (objs (vw_storage w))) bs xs \<and> undisturbed w w'
     \<and> inv (vw_catalog w') \<and> known (vw_catalog w') = known (vw_catalog w) \<and> runsOf (vw_catalog w') = runsOf (vw_catalog w)
     \<and> blobsOf (vw_catalog w') = (blobsOf (vw_catalog w))(ws := map (settledBy xs) (blobsOf (vw_catalog w) ws))"
  using assms
proof (induction bs arbitrary: w)
  case Nil
  then show ?case by (simp add: js_simps undisturbed_def fun_eq_iff)
next
  case (Cons b bs)
  obtain x w1 where 1: "verifyBlob sha ops b level w = (Inr x, w1)"
      "blobChecked sha level (objs (vw_storage w)) b x" "undisturbed w w1" "vw_catalog w1 = vw_catalog w"
    using verifyBlob_run [of b level w] by blast
  obtain d where d: "vc_setBlobVerification cat ws (blob_id b) (stateOf x) (vw_catalog w) = (Inr (), d)" "inv d"
      "known d = known (vw_catalog w)" "runsOf d = runsOf (vw_catalog w)"
      "blobsOf d = (blobsOf (vw_catalog w))(ws := map (marked (blob_id b) (stateOf x)) (blobsOf (vw_catalog w) ws))"
    using set_run [OF Cons.prems(1), of "blob_id b" ws "stateOf x"] Cons.prems(3) by auto
  define w2 where "w2 = w1\<lparr>vw_catalog := d\<rparr>"
  have w2: "vw_catalog w2 = d" "vw_storage w2 = vw_storage w1" "vw_ambient w2 = vw_ambient w1" by (simp_all add: w2_def)
  have "inv (vw_catalog w2)" "distinct (map blob_id bs)"
      "blob_id ` set bs \<subseteq> blob_id ` set (blobsOf (vw_catalog w2) ws)"
    using Cons.prems d(2,5) w2(1) by (simp_all add: image_image)
  from Cons.IH [OF this] obtain xs w' where w': "verifyBlobs sha ops cat ws level bs w2 = (Inr xs, w')"
      "list_all2 (blobChecked sha level (objs (vw_storage w2))) bs xs" "undisturbed w2 w'"
      "inv (vw_catalog w')" "known (vw_catalog w') = known (vw_catalog w2)" "runsOf (vw_catalog w') = runsOf (vw_catalog w2)"
      "blobsOf (vw_catalog w') = (blobsOf (vw_catalog w2))(ws := map (settledBy xs) (blobsOf (vw_catalog w2) ws))"
    by blast
  have "bv_blobId ` set xs = blob_id ` set bs"
    using w'(2) by (induction rule: list_all2_induct) (auto simp: blobChecked_def)
  then have "settledBy xs \<circ> marked (blob_id b) (stateOf x) = settledBy (x # xs)"
    using settledBy_marked [of x "blob_id b" xs] 1(2) Cons.prems(2) by (simp add: blobChecked_def fun_eq_iff)
  then have "blobsOf (vw_catalog w') = (blobsOf (vw_catalog w))(ws := map (settledBy (x # xs)) (blobsOf (vw_catalog w) ws))"
    using w'(7) d(5) w2(1) by simp
  moreover have "verifyBlobs sha ops cat ws level (b # bs) w = (Inr (x # xs), w')"
    using 1(1,4) d(1) w'(1) by (simp add: js_simps usingCatalog_def w2_def)
  moreover have "list_all2 (blobChecked sha level (objs (vw_storage w))) (b # bs) (x # xs)" "undisturbed w w'"
    using 1(2,3) w'(2,3) w2 by (simp_all add: undisturbed_def)
  moreover have "known (vw_catalog w') = known (vw_catalog w)" "runsOf (vw_catalog w') = runsOf (vw_catalog w)"
    using w'(5,6) w2(1) d(3,4) by simp_all
  ultimately show ?case using w'(4) by blast
qed

text \<open>What a run leaves for the next one.\<close>

definition continued :: "('s, 'c) verifyWorld \<Rightarrow> verificationRun \<Rightarrow> ('s, 'c) verifyWorld \<Rightarrow> bool" where
  "continued w r w' \<longleftrightarrow> inv (vw_catalog w') \<and> known (vw_catalog w') = known (vw_catalog w)
     \<and> idAt (vw_ambient w') = idAt (vw_ambient w) \<and> idCount (vw_ambient w') = idCount (vw_ambient w) + 1
     \<and> run_id r = idAt (vw_ambient w) (idCount (vw_ambient w)) \<and> runsOf (vw_catalog w') = runsOf (vw_catalog w) @ [reportOf r]"

text \<open>The end of a run: its identifier, its time, and the record in the catalog.\<close>

lemma record_tail:
  assumes "inv (vw_catalog w)" and "known (vw_catalog w) ws"
    and fresh: "idAt (vw_ambient w) (idCount (vw_ambient w)) \<notin> rr_id ` set (runsOf (vw_catalog w))"
    and run: "\<And>i t. run_id (mk i t) = i \<and> run_workspaceId (mk i t) = ws"
  shows "\<exists>i t w'. andThen verifyNextId (\<lambda>i. andThen verifyNow (\<lambda>t.
        andThen (usingCatalog (vc_recordRun cat (mk i t))) (\<lambda>_. ret (mk i t)))) w = (Inr (mk i t), w')
     \<and> objs (vw_storage w') = objs (vw_storage w) \<and> blobsOf (vw_catalog w') = blobsOf (vw_catalog w)
     \<and> continued w (mk i t) w'"
proof -
  let ?i = "idAt (vw_ambient w) (idCount (vw_ambient w))"
  let ?t = "nowAt (vw_ambient w) (ticks (vw_ambient w))"
  obtain d where "vc_recordRun cat (mk ?i ?t) (vw_catalog w) = (Inr (), d)" "inv d" "blobsOf d = blobsOf (vw_catalog w)"
      "known d = known (vw_catalog w)"
      "runsOf d = runsOf (vw_catalog w) @ [reportOf (mk ?i ?t)]"
    using record_run [OF assms(1), of "mk ?i ?t"] assms(2) fresh run [of ?i ?t] by auto
  then show ?thesis
    by (intro exI [of _ ?i] exI [of _ ?t]) (simp add: js_simps verifyNextId_def verifyNow_def now_def usingCatalog_def Let_def
        continued_def run)
qed

text \<open>A checked blob ends up in the state that says whether it is intact.\<close>

lemma settledBy_checked:
  assumes "list_all2 (blobChecked sha level m) bs xs" and "distinct (map blob_id bs)" and "b \<in> set bs"
  shows "settledBy xs b = b\<lparr>blob_verificationState := if intactAt sha level m b then VerVerified else VerFailed\<rparr>"
  using assms
proof (induction rule: list_all2_induct)
  case (Cons c bs x xs)
  show ?case
  proof (cases "b = c")
    case True
    with Cons.hyps(1) show ?thesis by (simp add: settledBy_Cons blobChecked_def stateOf_def)
  next
    case False
    then have "b \<in> set bs" using Cons.prems(2) by simp
    moreover from this have "blob_id b \<noteq> blob_id c" using Cons.prems(1) by (metis distinct.simps(2) image_eqI list.simps(9) set_map)
    ultimately show ?thesis using Cons by (simp add: settledBy_Cons blobChecked_def)
  qed
qed simp

lemma checked_issues:
  assumes "list_all2 (blobChecked sha level m) bs xs"
  shows "list_all serious (concat (map bv_issues xs))"
    and "concat (map bv_issues xs) = [] \<longleftrightarrow> (\<forall>b\<in>set bs. intactAt sha level m b)"
    and "sum_list (map bv_bytesRead xs) = sum_list (map (\<lambda>b. case m (blob_storageKey b) of
          None \<Rightarrow> 0 | Some obj \<Rightarrow> if level = LevelMetadata then 0 else int (length (sb_body obj))) bs)"
  using assms by (induction rule: list_all2_induct) (simp_all add: blobChecked_def)

lemma blob_run:
  assumes inv: "inv (vw_catalog w)" and ws: "known (vw_catalog w) ws"
    and fresh: "idAt (vw_ambient w) (idCount (vw_ambient w)) \<notin> rr_id ` set (runsOf (vw_catalog w))"
  shows "\<exists>r w'. runBlobVerification sha ops cat ws level w = (Inr r, w')
     \<and> run_status r = (if blobsOf (vw_catalog w) ws = [] then RunDegraded
         else if \<forall>b\<in>set (blobsOf (vw_catalog w) ws). intactAt sha level (objs (vw_storage w)) b then RunPassed else RunFailed)
     \<and> objs (vw_storage w') = objs (vw_storage w)
     \<and> blobsOf (vw_catalog w') ws = map (\<lambda>b. b\<lparr>blob_verificationState :=
          if intactAt sha level (objs (vw_storage w)) b then VerVerified else VerFailed\<rparr>) (blobsOf (vw_catalog w) ws)
     \<and> continued w r w'"
proof -
  let ?bs = "blobsOf (vw_catalog w) ws" and ?m = "objs (vw_storage w)"
  define w1 where "w1 = w\<lparr>vw_ambient := snd (now (vw_ambient w))\<rparr>"
  define at where "at = nowAt (vw_ambient w) (ticks (vw_ambient w))"
  have w1: "vw_catalog w1 = vw_catalog w" "vw_storage w1 = vw_storage w" "idAt (vw_ambient w1) = idAt (vw_ambient w)"
      "idCount (vw_ambient w1) = idCount (vw_ambient w)"
    by (simp_all add: w1_def now_def)
  have distinct: "distinct (map blob_id ?bs)" using inv by (rule distinct_blobs)
  obtain xs w2 where w2: "verifyBlobs sha ops cat ws level ?bs w1 = (Inr xs, w2)"
      "list_all2 (blobChecked sha level ?m) ?bs xs" "undisturbed w1 w2" "inv (vw_catalog w2)"
      "known (vw_catalog w2) = known (vw_catalog w)" "runsOf (vw_catalog w2) = runsOf (vw_catalog w)"
      "blobsOf (vw_catalog w2) = (blobsOf (vw_catalog w))(ws := map (settledBy xs) ?bs)"
    using verifyBlobs_run [of w1 ?bs ws level] inv distinct w1 by auto
  define mk where "mk = (\<lambda>i t. makeRun \<lparr>run_id = i, run_workspaceId = ws, run_level = level,
     run_scope = \<lparr>sc_kind = KindWorkspace, sc_id = ws\<rparr>, run_status = RunRunning, run_startedAt = at,
     run_completedAt = t, run_objectsChecked = int (length xs), run_bytesRead = sum_list (map bv_bytesRead xs),
     run_issues = (if ?bs \<noteq> [] then concat (map bv_issues xs)
       else [plainIssue ''NO_OBJECTS_CHECKED'' SevWarning OnWorkspace ws
         ''No catalogued blobs exist in this workspace; verification cannot pass without checking an object.''])\<rparr>)"
  have mk: "run_id (mk i t) = i \<and> run_workspaceId (mk i t) = ws" for i t
    by (simp add: mk_def makeRun_def)
  obtain i t w3 where w3: "andThen verifyNextId (\<lambda>i. andThen verifyNow (\<lambda>t.
        andThen (usingCatalog (vc_recordRun cat (mk i t))) (\<lambda>_. ret (mk i t)))) w2 = (Inr (mk i t), w3)"
      "objs (vw_storage w3) = objs (vw_storage w2)" "blobsOf (vw_catalog w3) = blobsOf (vw_catalog w2)"
      "continued w2 (mk i t) w3"
    using record_tail [of w2 ws mk] w2 ws fresh mk w1 by (auto simp: undisturbed_def)
  have run: "runBlobVerification sha ops cat ws level w = (Inr (mk i t), w3)"
    using w2(1) w3(1) ws
    by (simp add: runBlobVerification_def js_simps verifyNow_def now_def usingCatalog_def exists_run list_run
        mk_def at_def w1_def Let_def split: prod.splits sum.splits)
  note issues = checked_issues [OF w2(2)]
  have "run_status (mk i t) = (if ?bs = [] then RunDegraded
      else if \<forall>b\<in>set ?bs. intactAt sha level ?m b then RunPassed else RunFailed)"
  proof (cases "concat (map bv_issues xs)")
    case Nil
    with issues(2) show ?thesis by (auto simp: mk_def makeRun_def serious_def issueExpecting_def simp del: concat_map_Nil concat_eq_Nil_conv)
  next
    case (Cons j js)
    with issues(1,2) have "list_ex serious (concat (map bv_issues xs))" "\<not> (\<forall>b\<in>set ?bs. intactAt sha level ?m b)"
      by (simp_all del: concat_map_Nil concat_eq_Nil_conv)
    moreover from this have "?bs \<noteq> []" by auto
    ultimately show ?thesis by (simp add: mk_def makeRun_def)
  qed
  moreover have "map (settledBy xs) ?bs = map (\<lambda>b. b\<lparr>blob_verificationState :=
          if intactAt sha level ?m b then VerVerified else VerFailed\<rparr>) ?bs"
    using settledBy_checked [OF w2(2) distinct] by simp
  ultimately show ?thesis
    using run w3 w2 w1 by (auto simp: undisturbed_def continued_def)
qed

text \<open>A structural run over a scope that resolves, in a workspace that exists.\<close>

lemma structural_run:
  assumes inv: "inv (vw_catalog w)" and ws: "known (vw_catalog w) ws"
    and fresh: "idAt (vw_ambient w) (idCount (vw_ambient w)) \<notin> rr_id ` set (runsOf (vw_catalog w))"
    and scope: "resolveScope ws level given = Inr scope"
  defines "snap \<equiv> snapOf (vw_catalog w) ws"
  defines "bs \<equiv> selectedBlobs level snap (selectScope snap scope)"
  shows "\<exists>r w' xs. runStructuralVerification sha dp url ops cat ws level given w = (Inr r, w')
     \<and> r = makeRun r \<and> run_issues r = structuralIssues sha dp url ws level snap (selectScope snap scope) xs
     \<and> list_all2 (blobChecked sha LevelMetadata (objs (vw_storage w))) bs xs
     \<and> objs (vw_storage w') = objs (vw_storage w)
     \<and> blobsOf (vw_catalog w') ws = map (settledBy xs) (blobsOf (vw_catalog w) ws)
     \<and> continued w r w'"
proof -
  define w1 where "w1 = w\<lparr>vw_ambient := snd (now (vw_ambient w))\<rparr>"
  define at where "at = nowAt (vw_ambient w) (ticks (vw_ambient w))"
  have w1: "vw_catalog w1 = vw_catalog w" "vw_storage w1 = vw_storage w" "idAt (vw_ambient w1) = idAt (vw_ambient w)"
      "idCount (vw_ambient w1) = idCount (vw_ambient w)"
    by (simp_all add: w1_def now_def)
  have "vs_blobs snap = blobsOf (vw_catalog w) ws" unfolding snap_def by (rule snapshot_blobs)
  then have bs: "distinct (map blob_id bs)" "blob_id ` set bs \<subseteq> blob_id ` set (blobsOf (vw_catalog w1) ws)"
    using distinct_blobs [OF inv, of ws] unfolding bs_def selectedBlobs_def w1(1)
    by (auto simp: distinct_map_filter)
  obtain xs w2 where w2: "verifyBlobs sha ops cat ws LevelMetadata bs w1 = (Inr xs, w2)"
      "list_all2 (blobChecked sha LevelMetadata (objs (vw_storage w1))) bs xs" "undisturbed w1 w2" "inv (vw_catalog w2)"
      "known (vw_catalog w2) = known (vw_catalog w1)" "runsOf (vw_catalog w2) = runsOf (vw_catalog w1)"
      "blobsOf (vw_catalog w2) = (blobsOf (vw_catalog w1))(ws := map (settledBy xs) (blobsOf (vw_catalog w1) ws))"
    using verifyBlobs_run [of w1 bs ws LevelMetadata, OF inv [folded w1(1)] bs] by blast
  define mk where "mk = (\<lambda>i t. makeRun \<lparr>run_id = i, run_workspaceId = ws, run_level = level, run_scope = scope,
     run_status = RunRunning, run_startedAt = at, run_completedAt = t,
     run_objectsChecked = objectsCounted level snap (selectScope snap scope), run_bytesRead = 0,
     run_issues = structuralIssues sha dp url ws level snap (selectScope snap scope) xs\<rparr>)"
  have mk: "run_id (mk i t) = i \<and> run_workspaceId (mk i t) = ws" for i t
    by (simp add: mk_def makeRun_def)
  have issues: "run_issues (mk i t) = structuralIssues sha dp url ws level snap (selectScope snap scope) xs"
      "mk i t = makeRun (mk i t)" for i t
    by (simp_all add: mk_def makeRun_def)
  obtain i t w3 where w3: "andThen verifyNextId (\<lambda>i. andThen verifyNow (\<lambda>t.
        andThen (usingCatalog (vc_recordRun cat (mk i t))) (\<lambda>_. ret (mk i t)))) w2 = (Inr (mk i t), w3)"
      "objs (vw_storage w3) = objs (vw_storage w2)" "blobsOf (vw_catalog w3) = blobsOf (vw_catalog w2)"
      "continued w2 (mk i t) w3"
    using record_tail [of w2 ws mk] w2 ws fresh mk w1 by (auto simp: undisturbed_def)
  have "runStructuralVerification sha dp url ops cat ws level given w = (Inr (mk i t), w3)"
    using w2(1) w3(1)
    by (simp add: runStructuralVerification_def js_simps scope verifyNow_def now_def usingCatalog_def snapshot_run
        mk_def at_def w1_def Let_def snap_def bs_def split: prod.splits sum.splits)
  then show ?thesis
    using w2 w3 w1 issues by (auto simp: undisturbed_def continued_def)
qed

lemma workspace_run:
  assumes inv: "inv (vw_catalog w)" and ws: "known (vw_catalog w) ws"
    and fresh: "idAt (vw_ambient w) (idCount (vw_ambient w)) \<notin> rr_id ` set (runsOf (vw_catalog w))"
  defines "snap \<equiv> snapOf (vw_catalog w) ws" and "m \<equiv> objs (vw_storage w)"
  shows "\<exists>r w'. runStructuralVerification sha dp url ops cat ws LevelWorkspace None w = (Inr r, w')
     \<and> run_status r = (if \<not> structureSound sha dp url m snap then RunFailed
         else if everyBlobUsed snap then RunPassed else RunDegraded)
     \<and> objs (vw_storage w') = m
     \<and> blobsOf (vw_catalog w') ws = map (\<lambda>b. b\<lparr>blob_verificationState :=
          if intactAt sha LevelMetadata m b then VerVerified else VerFailed\<rparr>) (blobsOf (vw_catalog w) ws)
     \<and> continued w r w'"
proof -
  let ?scope = "\<lparr>sc_kind = KindWorkspace, sc_id = ws\<rparr>"
  have scope: "resolveScope ws LevelWorkspace None = Inr ?scope"
    by (simp add: resolveScope_def)
  obtain r w' xs where run: "runStructuralVerification sha dp url ops cat ws LevelWorkspace None w = (Inr r, w')"
      "r = makeRun r" "run_issues r = structuralIssues sha dp url ws LevelWorkspace snap (selectScope snap ?scope) xs"
      "list_all2 (blobChecked sha LevelMetadata m) (selectedBlobs LevelWorkspace snap (selectScope snap ?scope)) xs"
      "objs (vw_storage w') = m" "blobsOf (vw_catalog w') ws = map (settledBy xs) (blobsOf (vw_catalog w) ws)"
      "continued w r w'"
    using structural_run [OF inv ws fresh scope, folded snap_def m_def, of dp url] by blast
  have bs: "selectedBlobs LevelWorkspace snap (selectScope snap ?scope) = blobsOf (vw_catalog w) ws"
    unfolding selectedBlobs_def snap_def by (simp add: snapshot_blobs)
  have blobs: "vs_blobs snap = blobsOf (vw_catalog w) ws" unfolding snap_def by (rule snapshot_blobs)
  note checked = run(4) [unfolded bs]
  have exists: "vs_workspaceExists snap" using ws by (simp add: snap_def snapshot_known)
  note facts = workspace_facts [OF exists checked_issues(2) [OF checked, folded blobs] checked_issues(1) [OF checked]
      run(3)]
  have "run_status r = run_status (makeRun r)" using run(2) by simp
  also have "\<dots> = (if list_ex serious (run_issues r) then RunFailed else if run_issues r = [] then RunPassed else RunDegraded)"
    by (simp add: makeRun_def)
  finally have "run_status r = (if \<not> structureSound sha dp url m snap then RunFailed
         else if everyBlobUsed snap then RunPassed else RunDegraded)"
    using facts by simp
  moreover have "map (settledBy xs) (blobsOf (vw_catalog w) ws) = map (\<lambda>b. b\<lparr>blob_verificationState :=
          if intactAt sha LevelMetadata m b then VerVerified else VerFailed\<rparr>) (blobsOf (vw_catalog w) ws)"
    using settledBy_checked [OF checked distinct_blobs [OF inv]] by simp
  ultimately show ?thesis using run by auto
qed

end

end
