(* ===== verification/VerificationStore.thy ===== *)
theory VerificationStore
  imports Verification
begin

text \<open>
  \<open>packages/persistence-postgres/src/verification-catalog.ts\<close>: the catalog of \<open>Verification\<close> over
  tables, its contract, and the properties of verification runs.

  A table is the list of its rows. Every statement runs in its own transaction after \<open>scope\<close> has set
  the workspace that row level security allows, so a statement sees the rows of that workspace only.
  A \<open>timestamptz\<close> column holds its ISO text, on which the order of texts is the order of times, and
  the rows have the fields of the records they are mapped to. Constraints of the migrations that the
  statements here can violate are modelled: the primary key and the workspace reference of
  \<open>verification_runs\<close>.
\<close>

section \<open>Tables and statements\<close>

record verificationTables =
  vt_workspaces :: "string list"
  vt_datasets :: "dataset list"
  vt_resources :: "resource list"
  vt_revisions :: "revision list"
  vt_blobs :: "blobObject list"
  vt_revisionBlobs :: "revisionBlobReference list"
  vt_relations :: "relation list"
  vt_tombstones :: "tombstone list"
  vt_audit :: "chainedAuditEvent list"
  vt_packages :: "verificationSchemaPackage list"
  vt_runs :: "verificationRunResult list"

definition pgWorkspaceExists :: "string \<Rightarrow> (verificationTables, bool) js" where
  "pgWorkspaceExists workspaceId =
     inTransaction keepTables (reading (\<lambda>t. length (filter (\<lambda>w. w = workspaceId) (vt_workspaces t)) = 1))"

text \<open>The columns of the storage binding are not selected.\<close>

definition mapBlobRow :: "blobObject \<Rightarrow> blobObject" where
  "mapBlobRow row = row\<lparr>blob_storageBindingId := None, blob_storageBindingGeneration := None\<rparr>"

definition blobRows :: "string \<Rightarrow> blobObject list \<Rightarrow> blobObject list" where
  "blobRows workspaceId rows = map mapBlobRow (sort_key blob_id (filter (\<lambda>b. blob_workspaceId b = workspaceId) rows))"

definition pgListBlobs :: "string \<Rightarrow> (verificationTables, blobObject list) js" where
  "pgListBlobs workspaceId = inTransaction keepTables (reading (\<lambda>t. blobRows workspaceId (vt_blobs t)))"

definition pgRecordRun :: "verificationRun \<Rightarrow> (verificationTables, unit) js" where
  "pgRecordRun run = inTransaction keepTables
     (andThen (reading (\<lambda>t. (run_id run \<in> rr_id ` set (vt_runs t), run_workspaceId run \<in> set (vt_workspaces t)))) (\<lambda>(taken, known).
        if taken then throw uniqueViolation
        else if \<not> known then throw foreignKeyViolation
        else updating (\<lambda>t. t\<lparr>vt_runs := vt_runs t @ [reportOf run]\<rparr>)))"

definition pgSetBlobVerification :: "string \<Rightarrow> string \<Rightarrow> verificationState \<Rightarrow> (verificationTables, unit) js" where
  "pgSetBlobVerification workspaceId blobId st = inTransaction keepTables
     (andThen (reading (\<lambda>t. length (filter (\<lambda>b. blob_workspaceId b = workspaceId \<and> blob_id b = blobId) (vt_blobs t)))) (\<lambda>rowCount.
      andThen (updating (\<lambda>t. t\<lparr>vt_blobs := map (\<lambda>b.
         if blob_workspaceId b = workspaceId \<and> blob_id b = blobId then b\<lparr>blob_verificationState := st\<rparr> else b) (vt_blobs t)\<rparr>)) (\<lambda>_.
        if rowCount \<noteq> 1 then throw (plainError ''Blob verification state update did not resolve one object.'')
        else ret ())))"

definition pgGetReport :: "string \<Rightarrow> string \<Rightarrow> (verificationTables, verificationRunResult option) js" where
  "pgGetReport workspaceId reportId = inTransaction keepTables
     (reading (\<lambda>t. find (\<lambda>r. rr_workspaceId r = workspaceId \<and> rr_id r = reportId) (vt_runs t)))"

definition pgListReports :: "string \<Rightarrow> verificationScope option \<Rightarrow> (verificationTables, verificationRunResult list) js" where
  "pgListReports workspaceId scopeFilter = inTransaction keepTables
     (reading (\<lambda>t. rev (sort_key (\<lambda>r. (rr_startedAt r, rr_id r))
       (filter (\<lambda>r. rr_workspaceId r = workspaceId
          \<and> (case scopeFilter of None \<Rightarrow> True
             | Some f \<Rightarrow> sc_kind (rr_scope r) = sc_kind f \<and> sc_id (rr_scope r) = sc_id f)) (vt_runs t)))))"

definition snapshotRows :: "verificationTables \<Rightarrow> string \<Rightarrow> verificationSnapshot" where
  "snapshotRows t workspaceId =
     (let datasets = filter (\<lambda>d. ds_workspaceId d = workspaceId) (vt_datasets t);
          revisions = filter (\<lambda>x. rev_workspaceId x = workspaceId) (vt_revisions t) in
      \<lparr>vs_workspaceExists = (length (filter (\<lambda>w. w = workspaceId) (vt_workspaces t)) = 1),
       vs_datasets = sort_key ds_id datasets,
       vs_resources = sort_key res_id (filter (\<lambda>x. res_workspaceId x = workspaceId) (vt_resources t)),
       vs_revisions = sort_key (\<lambda>x. (rev_resourceId x, rev_revisionNumber x)) revisions,
       vs_blobs = blobRows workspaceId (vt_blobs t),
       vs_revisionBlobs = sort_key rb_id (filter (\<lambda>x. rb_workspaceId x = workspaceId) (vt_revisionBlobs t)),
       vs_relations = sort_key rel_id (filter (\<lambda>x. rel_workspaceId x = workspaceId) (vt_relations t)),
       vs_tombstones = sort_key tomb_id (filter (\<lambda>z. tomb_workspaceId z = workspaceId \<and> tomb_restoredAt z = None) (vt_tombstones t)),
       vs_auditEvents = auditInOrder workspaceId (vt_audit t),
       vs_schemaPackages = sort_key vp_id (filter (\<lambda>p. vp_id p \<in> set (map ds_schemaPackageId datasets)
          \<or> vp_id p \<in> set (map rev_schemaPackageId revisions)) (vt_packages t))\<rparr>)"

definition pgLoadSnapshot :: "string \<Rightarrow> (verificationTables, verificationSnapshot) js" where
  "pgLoadSnapshot workspaceId = inTransaction keepTables (reading (\<lambda>t. snapshotRows t workspaceId))"

definition postgresVerification :: "verificationTables verificationCatalog" where
  "postgresVerification = \<lparr>vc_workspaceExists = pgWorkspaceExists, vc_listBlobs = pgListBlobs, vc_recordRun = pgRecordRun,
     vc_setBlobVerification = pgSetBlobVerification, vc_getReport = pgGetReport, vc_listReports = pgListReports,
     vc_loadSnapshot = pgLoadSnapshot\<rparr>"

section \<open>The tables meet the contract\<close>

text \<open>The primary keys of \<open>workspaces\<close> and \<open>blob_objects\<close>.\<close>

definition keysUnique :: "verificationTables \<Rightarrow> bool" where
  "keysUnique t \<longleftrightarrow> distinct (vt_workspaces t) \<and> distinct (map blob_id (vt_blobs t))"

definition knownIn :: "verificationTables \<Rightarrow> string \<Rightarrow> bool" where
  "knownIn t w \<longleftrightarrow> length (filter (\<lambda>v. v = w) (vt_workspaces t)) = 1"

definition blobsIn :: "verificationTables \<Rightarrow> string \<Rightarrow> blobObject list" where
  "blobsIn t w = blobRows w (vt_blobs t)"

lemma knownIn_member: "keysUnique t \<Longrightarrow> knownIn t w \<longleftrightarrow> w \<in> set (vt_workspaces t)"
proof -
  have "distinct ws \<Longrightarrow> length (filter (\<lambda>v. v = w) ws) = (if w \<in> set ws then 1 else 0)" for ws :: "string list"
    by (induction ws) auto
  then show "keysUnique t \<Longrightarrow> ?thesis" by (simp add: keysUnique_def knownIn_def)
qed

lemma mapBlobRow_fields [simp]:
  "blob_id (mapBlobRow b) = blob_id b" "blob_storageKey (mapBlobRow b) = blob_storageKey b"
  "blob_byteLength (mapBlobRow b) = blob_byteLength b" "blob_sha256 (mapBlobRow b) = blob_sha256 b"
  "blob_workspaceId (mapBlobRow b) = blob_workspaceId b" "blob_verificationState (mapBlobRow b) = blob_verificationState b"
  by (simp_all add: mapBlobRow_def)

lemma blobRows_set: "set (blobRows w rows) = mapBlobRow ` {b \<in> set rows. blob_workspaceId b = w}"
  by (simp add: blobRows_def)

lemma sort_key_map: "(\<And>x. k (f x) = k x) \<Longrightarrow> sort_key k (map f xs) = map f (sort_key k xs)"
proof (induction xs)
  case (Cons x xs)
  have "insort_key k (f x) (map f ys) = map f (insort_key k x ys)" for ys
    using Cons.prems by (induction ys) auto
  with Cons show ?case by simp
qed simp

lemma blobRows_update:
  "blobRows v (map (\<lambda>b. if blob_workspaceId b = w \<and> blob_id b = i then b\<lparr>blob_verificationState := st\<rparr> else b) rows) =
     (if v = w then map (marked i st) (blobRows w rows) else blobRows v rows)"
proof -
  let ?f = "\<lambda>b. if blob_workspaceId b = w \<and> blob_id b = i then b\<lparr>blob_verificationState := st\<rparr> else b"
  have filt: "filter (\<lambda>b. blob_workspaceId b = v) (map ?f rows) = map ?f (filter (\<lambda>b. blob_workspaceId b = v) rows)"
    by (induction rows) auto
  have "map mapBlobRow (map ?f ys) = (if v = w then map (marked i st) (map mapBlobRow ys) else map mapBlobRow ys)"
    if "\<forall>b\<in>set ys. blob_workspaceId b = v" for ys
    using that by (auto simp: marked_def mapBlobRow_def)
  then show ?thesis unfolding blobRows_def filt by (simp add: sort_key_map)
qed

lemma one_row:
  assumes "distinct (map blob_id rows)" and "i \<in> blob_id ` set (blobRows w rows)"
  shows "length (filter (\<lambda>b. blob_workspaceId b = w \<and> blob_id b = i) rows) = 1"
  using assms
proof (induction rows)
  case (Cons b rows)
  show ?case
  proof (cases "blob_id b = i")
    case True
    then have "filter (\<lambda>b. blob_workspaceId b = w \<and> blob_id b = i) rows = []"
      using Cons.prems(1) by (auto simp: filter_empty_conv) (metis image_eqI)
    moreover have "blob_workspaceId b = w"
      using True Cons.prems by (auto simp: blobRows_set image_iff)
    ultimately show ?thesis using True by simp
  next
    case False
    with Cons show ?thesis by (auto simp: blobRows_set)
  qed
qed (simp add: blobRows_def)

interpretation pgVer: verification_catalog postgresVerification keysUnique knownIn blobsIn vt_runs snapshotRows
proof
  fix c i w st
  assume c: "keysUnique c" and i: "i \<in> blob_id ` set (blobsIn c w)"
  let ?d = "c\<lparr>vt_blobs := map (\<lambda>b. if blob_workspaceId b = w \<and> blob_id b = i
      then b\<lparr>blob_verificationState := st\<rparr> else b) (vt_blobs c)\<rparr>"
  have "length (filter (\<lambda>b. blob_workspaceId b = w \<and> blob_id b = i) (vt_blobs c)) = 1"
    using one_row c i by (simp add: keysUnique_def blobsIn_def)
  then have "vc_setBlobVerification postgresVerification w i st c = (Inr (), ?d)"
    by (simp add: postgresVerification_def pgSetBlobVerification_def js_simps)
  moreover have "keysUnique ?d"
  proof -
    have "map (blob_id \<circ> (\<lambda>b. if blob_workspaceId b = w \<and> blob_id b = i then b\<lparr>blob_verificationState := st\<rparr> else b))
        (vt_blobs c) = map blob_id (vt_blobs c)"
      by (rule map_cong [OF refl]) simp
    with c show ?thesis by (simp add: keysUnique_def del: map_eq_conv)
  qed
  ultimately show "\<exists>d. vc_setBlobVerification postgresVerification w i st c = (Inr (), d) \<and> keysUnique d \<and> knownIn d = knownIn c
      \<and> vt_runs d = vt_runs c \<and> blobsIn d = (blobsIn c)(w := map (marked i st) (blobsIn c w))"
    by (intro exI [of _ ?d]) (simp add: knownIn_def fun_eq_iff blobsIn_def blobRows_update)
next
  fix c w
  show "keysUnique c \<Longrightarrow> distinct (map blob_id (blobsIn c w))"
    by (simp add: keysUnique_def blobsIn_def blobRows_def comp_def distinct_map_filter)
next
  fix c and r :: verificationRun
  assume c: "keysUnique c" "knownIn c (run_workspaceId r)" "run_id r \<notin> rr_id ` set (vt_runs c)"
  then have "run_workspaceId r \<in> set (vt_workspaces c)" by (simp add: knownIn_member)
  with c show "\<exists>d. vc_recordRun postgresVerification r c = (Inr (), d) \<and> keysUnique d \<and> knownIn d = knownIn c \<and> blobsIn d = blobsIn c
      \<and> vt_runs d = vt_runs c @ [reportOf r]"
    by (simp add: postgresVerification_def pgRecordRun_def js_simps keysUnique_def blobsIn_def fun_eq_iff knownIn_def)
qed (simp_all add: postgresVerification_def pgWorkspaceExists_def pgListBlobs_def pgLoadSnapshot_def js_simps knownIn_def
    blobsIn_def snapshotRows_def Let_def)

interpretation pgVerify: blob_verification sha "memoryStorageOps sha dayLater" ms_objects
    postgresVerification keysUnique knownIn blobsIn vt_runs snapshotRows
  by (simp add: blob_verification_def mem.object_storage_axioms pgVer.verification_catalog_axioms)

section \<open>Properties of verification runs\<close>

type_synonym pgVerifyWorld = "(memoryObjectStorage, verificationTables) verifyWorld"

text \<open>A workspace in the tables, and an identifier for the run that no stored run has.\<close>

definition verifiable :: "pgVerifyWorld \<Rightarrow> string \<Rightarrow> bool" where
  "verifiable w ws \<longleftrightarrow> keysUnique (vw_catalog w) \<and> ws \<in> set (vt_workspaces (vw_catalog w))
     \<and> idAt (vw_ambient w) (idCount (vw_ambient w)) \<notin> set (map rr_id (vt_runs (vw_catalog w)))"

lemma verifiableD:
  assumes "verifiable w ws"
  shows "keysUnique (vw_catalog w)" "knownIn (vw_catalog w) ws"
    "idAt (vw_ambient w) (idCount (vw_ambient w)) \<notin> rr_id ` set (vt_runs (vw_catalog w))"
  using assms by (simp_all add: verifiable_def knownIn_member)

definition judged :: "(bytes \<Rightarrow> string) \<Rightarrow> verificationLevel \<Rightarrow> (string \<rightharpoonup> storedBytes) \<Rightarrow> blobObject \<Rightarrow> blobObject" where
  "judged sha level objs b = b\<lparr>blob_verificationState := if intactAt sha level objs b then VerVerified else VerFailed\<rparr>"

text \<open>
  C18. A blob run gives the exact verdict. In a workspace of the tables it always returns; it passes
  exactly when there is a blob and every catalogued blob has its object in the storage, with the
  catalogued length and hash (at the full level the hash of the bytes read), it is degraded exactly
  when the workspace has no blob, and fails otherwise. It marks each blob as verified or failed
  accordingly, stores the report, and leaves the storage as it is.
\<close>

theorem blob_verification_exact:
  assumes "verifiable w ws"
  shows "\<exists>r w'. runBlobVerification sha (memoryStorageOps sha dayLater) postgresVerification ws level w = (Inr r, w')
     \<and> (run_status r = RunPassed \<longleftrightarrow> blobsIn (vw_catalog w) ws \<noteq> []
          \<and> list_all (intactAt sha level (ms_objects (vw_storage w))) (blobsIn (vw_catalog w) ws))
     \<and> (run_status r = RunDegraded \<longleftrightarrow> blobsIn (vw_catalog w) ws = [])
     \<and> blobsIn (vw_catalog w') ws = map (judged sha level (ms_objects (vw_storage w))) (blobsIn (vw_catalog w) ws)
     \<and> vt_runs (vw_catalog w') = vt_runs (vw_catalog w) @ [reportOf r]
     \<and> ms_objects (vw_storage w') = ms_objects (vw_storage w)"
proof -
  note ok = verifiableD [OF assms]
  show ?thesis
    using pgVerify.blob_run [OF ok(1) ok(2) ok(3), of sha dayLater level]
    by (auto simp: list_all_iff judged_def [abs_def] pgVerify.continued_def)
qed

definition sampleVerifyTables :: verificationTables where
  "sampleVerifyTables = \<lparr>vt_workspaces = [''w1''], vt_datasets = [], vt_resources = [], vt_revisions = [],
     vt_blobs = [sampleBlob], vt_revisionBlobs = [], vt_relations = [], vt_tombstones = [], vt_audit = [], vt_packages = [],
     vt_runs = []\<rparr>"

definition sampleVerifyWorld :: pgVerifyWorld where
  "sampleVerifyWorld = \<lparr>vw_storage = sampleCommitted, vw_catalog = sampleVerifyTables, vw_ambient = sampleAmbient\<rparr>"

lemma sampleVerify_ok: "verifiable sampleVerifyWorld ''w1''"
  by (simp add: verifiable_def sampleVerifyWorld_def sampleVerifyTables_def keysUnique_def)

lemma sampleVerify_blobs: "blobsIn (vw_catalog sampleVerifyWorld) ''w1'' = [sampleBlob]"
  by (simp add: sampleVerifyWorld_def sampleVerifyTables_def blobsIn_def blobRows_def mapBlobRow_def sampleBlob_def)

lemma sampleVerify_runs: "vt_runs (vw_catalog sampleVerifyWorld) = []"
  by (simp add: sampleVerifyWorld_def sampleVerifyTables_def)

theorem blob_verification_exact_witness:
  "\<exists>r w'. runBlobVerification (\<lambda>_. sampleDigest) (memoryStorageOps (\<lambda>_. sampleDigest) ''later'') postgresVerification ''w1''
       LevelFullBlob sampleVerifyWorld = (Inr r, w') \<and> run_status r = RunPassed
     \<and> vt_runs (vw_catalog w') = [reportOf r]"
proof -
  have "intactAt (\<lambda>_. sampleDigest) LevelFullBlob (ms_objects (vw_storage sampleVerifyWorld)) sampleBlob"
    by (simp add: intactAt_def sampleVerifyWorld_def sampleCommitted_eq sampleBlob_def sampleStored_def)
  then show ?thesis
    using blob_verification_exact [OF sampleVerify_ok, of "\<lambda>_. sampleDigest" "''later''" LevelFullBlob]
    by (auto simp: sampleVerify_blobs sampleVerify_runs)
qed

text \<open>
  Ingest and verification agree: over a storage and a catalog in which the invariant of the
  ingest holds, a blob run at either level passes in every workspace that has a blob, and leaves
  every blob verified.
\<close>

theorem ingested_blobs_verify:
  assumes "ingestInvariant sha s" and "verifiable w ws" and "vw_storage w = is_storage s"
    and rows: "vt_blobs (vw_catalog w) = map (\<lambda>(k, row). mapBlob k row) (DAList.impl_of (ct_blobs (is_catalog s)))"
    and "blobsIn (vw_catalog w) ws \<noteq> []"
  shows "\<exists>r w'. runBlobVerification sha (memoryStorageOps sha dayLater) postgresVerification ws level w = (Inr r, w')
     \<and> run_status r = RunPassed \<and> list_all (\<lambda>b. blob_verificationState b = VerVerified) (blobsIn (vw_catalog w') ws)"
proof -
  let ?m = "ms_objects (is_storage s)"
  note inv = assms(1) [unfolded ingestInvariant_def ingestInv_def]
  have intact: "intactAt sha level ?m b" if b: "b \<in> set (blobsIn (vw_catalog w) ws)" for b
  proof -
    obtain y where "y \<in> set (vt_blobs (vw_catalog w))" "b = mapBlobRow y"
      using b by (auto simp: blobsIn_def blobRows_set)
    then obtain k row where row: "(k, row) \<in> set (DAList.impl_of (ct_blobs (is_catalog s)))" "b = mapBlobRow (mapBlob k row)"
      unfolding rows by force
    have "distinct (map fst (DAList.impl_of (ct_blobs (is_catalog s))))" using DAList.impl_of [of "ct_blobs (is_catalog s)"] by simp
    then have "blobView (is_catalog s) (fst k, snd k) = Some (mapBlob k row)"
      using row(1) by (simp add: blobView_def DAList.lookup.rep_eq)
    then have "blobOk ?m (fst k) (snd k) (mapBlob k row)" using inv by blast
    then obtain x where x: "?m (blob_storageKey (mapBlob k row)) = Some x" "sb_sha256 x = blob_sha256 (mapBlob k row)"
        "int (length (sb_body x)) = blob_byteLength (mapBlob k row)"
      by (auto simp: blobOk_def storedAs_def)
    moreover have "sb_sha256 x = sha (sb_body x)"
      using inv x(1) unfolding contentAddressed_def by (blast intro: addressOk_hash)
    ultimately show ?thesis by (simp add: intactAt_def row(2))
  qed
  note ok = verifiableD [OF assms(2)]
  show ?thesis
    using pgVerify.blob_run [OF ok(1) ok(2) ok(3), of sha dayLater level] intact assms(3,5)
    by (auto simp: list_all_iff)
qed

theorem ingested_blobs_verify_witness:
  "\<exists>r w'. runBlobVerification (\<lambda>_. sampleDigest) (memoryStorageOps (\<lambda>_. sampleDigest) ''later'') postgresVerification ''w1''
       LevelFullBlob sampleVerifyWorld = (Inr r, w') \<and> run_status r = RunPassed"
proof -
  have rows: "vt_blobs (vw_catalog sampleVerifyWorld) = map (\<lambda>(k, row). mapBlob k row)
      (DAList.impl_of (ct_blobs (is_catalog sampleIngestState)))"
    by (simp add: sampleVerifyWorld_def sampleVerifyTables_def sampleIngestState_def DAList.update.rep_eq DAList.empty.rep_eq
        mapBlob_def sampleBlob_def)
  have "vw_storage sampleVerifyWorld = is_storage sampleIngestState"
    by (simp add: sampleVerifyWorld_def sampleIngestState_def)
  then show ?thesis
    using ingested_blobs_verify [OF sampleIngest_inv sampleVerify_ok _ rows, of "''later''" LevelFullBlob]
    by (auto simp: sampleVerify_blobs)
qed

text \<open>
  C16. A workspace run gives the exact verdict: it always returns, fails exactly when the stored
  workspace is unsound (a dataset without usable schema package, a resource whose revisions do not
  form a numbered history under its head or do not validate against their packages, a reference,
  relation or tombstone that does not resolve, a blob that differs from its object, a broken audit
  chain), and otherwise passes or, when some blob is used by no revision, is degraded.
\<close>

theorem workspace_verification_exact:
  assumes "verifiable w ws"
  shows "\<exists>r w'. runStructuralVerification sha dp url (memoryStorageOps sha dayLater) postgresVerification ws LevelWorkspace None w
         = (Inr r, w')
     \<and> run_status r =
         (if \<not> structureSound sha dp url (ms_objects (vw_storage w)) (snapshotRows (vw_catalog w) ws) then RunFailed
          else if everyBlobUsed (snapshotRows (vw_catalog w) ws) then RunPassed else RunDegraded)
     \<and> blobsIn (vw_catalog w') ws = map (judged sha LevelMetadata (ms_objects (vw_storage w))) (blobsIn (vw_catalog w) ws)
     \<and> vt_runs (vw_catalog w') = vt_runs (vw_catalog w) @ [reportOf r]
     \<and> ms_objects (vw_storage w') = ms_objects (vw_storage w)"
proof -
  note ok = verifiableD [OF assms]
  show ?thesis
    using pgVerify.workspace_run [OF ok(1) ok(2) ok(3), of sha dp url dayLater] by (auto simp: judged_def [abs_def] pgVerify.continued_def)
qed

theorem workspace_verification_exact_witness:
  "\<exists>r w'. runStructuralVerification (\<lambda>_. sampleDigest) (\<lambda>_. None) (\<lambda>_. False) (memoryStorageOps (\<lambda>_. sampleDigest) ''later'')
       postgresVerification ''w1'' LevelWorkspace None sampleVerifyWorld = (Inr r, w') \<and> run_status r = RunDegraded"
proof -
  let ?snap = "snapshotRows (vw_catalog sampleVerifyWorld) ''w1''"
  have rows: "vs_blobs ?snap = [sampleBlob]" using sampleVerify_blobs by (simp add: snapshotRows_def Let_def blobsIn_def)
  have empty: "vs_datasets ?snap = []" "vs_resources ?snap = []" "vs_revisionBlobs ?snap = []" "vs_relations ?snap = []"
      "vs_tombstones ?snap = []" "vs_auditEvents ?snap = []"
    by (simp_all add: snapshotRows_def Let_def sampleVerifyWorld_def sampleVerifyTables_def auditInOrder_def)
  have "structureSound (\<lambda>_. sampleDigest) (\<lambda>_. None) (\<lambda>_. False) (ms_objects (vw_storage sampleVerifyWorld)) ?snap"
    unfolding structureSound_def empty rows
    by (simp add: verifyAuditChain_def intactAt_def sampleVerifyWorld_def sampleCommitted_eq sampleBlob_def sampleStored_def)
  moreover have "\<not> everyBlobUsed ?snap" by (simp add: everyBlobUsed_def rows empty)
  ultimately show ?thesis
    using workspace_verification_exact [OF sampleVerify_ok, of "\<lambda>_. sampleDigest" "\<lambda>_. None" "\<lambda>_. False" "''later''"] by auto
qed

section \<open>Histories under verification\<close>

text \<open>
  A resource whose graph verifies has a complete history: its head is one of its revisions, their
  numbers are distinct, and every revision descends through parents of the same resource, with
  falling numbers, from a revision 1 that has no parent. The table admits only positive numbers.
\<close>

theorem verified_graph_complete:
  assumes "verifyResourceGraph r revs = []"
    and "list_all (\<lambda>x. rev_revisionNumber x \<ge> 1) (ownRevisions r revs)"
    and "x \<in> set (ownRevisions r revs)"
  shows "\<exists>line. descends (ownRevisions r revs) (x # line)
       \<and> sorted_wrt (\<lambda>a b. rev_revisionNumber a > rev_revisionNumber b) (x # line)
     \<and> distinct (map rev_revisionNumber (ownRevisions r revs))
     \<and> (\<forall>h. res_currentRevisionId r = Some h \<longrightarrow> h = [] \<or> h \<in> rev_id ` set (ownRevisions r revs))"
proof -
  note graph = assms(1) [unfolded resource_graph_Nil Let_def]
  obtain line where "descends (ownRevisions r revs) (x # line)"
    using placed_descends [OF _ _ assms(3), of r] graph assms(2) by (auto simp: list_all_iff)
  then show ?thesis using descends_sorted [of _ "x # line"] graph by blast
qed

text \<open>
  The rows that the history service writes, as verification reads them: the same resources and
  revisions, under the keys of the tables (identifiers, one number per revision of a resource, and the
  workspace and dataset of the resource in its revisions).
\<close>

definition showsHistory :: "historyTables \<Rightarrow> verificationTables \<Rightarrow> bool" where
  "showsHistory h t \<longleftrightarrow>
     (\<forall>i x. ht_revisions h i = Some x \<longleftrightarrow> x \<in> set (vt_revisions t) \<and> rev_id x = i)
     \<and> (\<forall>r\<in>set (vt_resources t). ht_resources h (res_id r) = Some r)
     \<and> distinct (map rev_id (vt_revisions t)) \<and> distinct (map (\<lambda>x. (rev_resourceId x, rev_revisionNumber x)) (vt_revisions t))
     \<and> (\<forall>x\<in>set (vt_revisions t). rev_id x \<noteq> [] \<and> (\<forall>r\<in>set (vt_resources t). rev_resourceId x = res_id r \<longrightarrow>
          rev_workspaceId x = res_workspaceId r \<and> rev_datasetId x = res_datasetId r))"

lemma snapshot_own:
  "set (ownRevisions r (vs_revisions (snapshotRows t ws))) =
     {x \<in> set (vt_revisions t). rev_workspaceId x = ws \<and> rev_resourceId x = res_id r}"
  by (auto simp: ownRevisions_def snapshotRows_def Let_def)

lemma snapshot_own_distinct:
  assumes "distinct (map f (vt_revisions t))"
  shows "distinct (map f (ownRevisions r (vs_revisions (snapshotRows t ws))))"
proof -
  have "distinct (map f (sort_key k (filter P (vt_revisions t))))" for k :: "revision \<Rightarrow> string \<times> int" and P
    using assms by (auto simp: distinct_map intro: inj_on_subset)
  then show ?thesis unfolding ownRevisions_def snapshotRows_def Let_def by (simp add: distinct_map_filter)
qed

lemma revision_placed:
  assumes rows: "showsHistory h t" and ok: "historyOk sha loc (tableView h)"
    and r: "r \<in> set (vt_resources t)" "res_workspaceId r = ws"
  defines "own \<equiv> ownRevisions r (vs_revisions (snapshotRows t ws))"
  assumes x: "x \<in> set own"
  shows "placed r (byRevisionId own) x"
proof -
  have own: "set own = {y \<in> set (vt_revisions t). rev_workspaceId y = ws \<and> rev_resourceId y = res_id r}"
    unfolding own_def by (rule snapshot_own)
  have byId: "byRevisionId own (rev_id y) = Some y" if "y \<in> set own" for y
    using rows by (intro byRevisionId_distinct that) (simp add: own_def snapshot_own_distinct showsHistory_def)
  have stored: "ht_revisions h i = Some y \<longleftrightarrow> y \<in> set (vt_revisions t) \<and> rev_id y = i" for i y
    using rows by (simp add: showsHistory_def)
  have x': "x \<in> set (vt_revisions t)" "rev_workspaceId x = ws" "rev_resourceId x = res_id r" using x own by blast+
  have scope: "rev_datasetId x = res_datasetId r" "\<And>y. y \<in> set (vt_revisions t) \<Longrightarrow> rev_id y \<noteq> []"
    using rows x' r by (auto simp: showsHistory_def)
  have rok: "revisionOk sha loc (ht_revisions h) (rev_id x) x"
    using historyOkD(2) [OF ok, of "rev_id x" x] stored x'(1) by simp
  show ?thesis
  proof (cases "rev_parentRevisionId x")
    case None
    with rok x' scope r(2) show ?thesis by (simp add: placed_def revisionOk_def)
  next
    case (Some p)
    with rok obtain q where q: "ht_revisions h p = Some q" "sameResource q x" "rev_revisionNumber x = rev_revisionNumber q + 1"
      by (auto simp: revisionOk_def)
    then have mem: "q \<in> set (vt_revisions t)" "rev_id q = p" using stored by blast+
    have "q \<in> set own" using mem q(2) x' by (simp add: own sameResource_def)
    then have "byRevisionId own p = Some q" using byId mem(2) by blast
    moreover have "1 \<le> rev_revisionNumber q"
      using historyOkD(2) [OF ok, of p q] q(1) by (simp add: revisionOk_def)
    ultimately show ?thesis
      using Some q(3) x' scope mem r(2) by (auto simp: placed_def)
  qed
qed

text \<open>
  C17. What the history service writes verifies: after any calls of the service from tables with intact
  histories, the graph of every resource, read back from rows that show those histories, has no issue.
\<close>

theorem service_histories_verify:
  assumes "(history_step sha loc (postgresHistory sha))\<^sup>*\<^sup>* w w'"
    and "historyOk sha loc (tableView (hw_repo w))"
    and "showsHistory (hw_repo w') t"
    and "r \<in> set (vs_resources (snapshotRows t ws))"
  shows "verifyResourceGraph r (vs_revisions (snapshotRows t ws)) = []"
proof -
  let ?h = "hw_repo w'" and ?own = "ownRevisions r (vs_revisions (snapshotRows t ws))"
  have ok: "historyOk sha loc (tableView ?h)" by (rule pg.run_historyOk [OF assms(1,2)])
  have r: "r \<in> set (vt_resources t)" "res_workspaceId r = ws"
    using assms(4) by (simp_all add: snapshotRows_def Let_def)
  have "ht_resources ?h (res_id r) = Some r" using assms(3) r(1) by (simp add: showsHistory_def)
  then have head: "resourceOk (ht_revisions ?h) (res_id r) r" using historyOkD(1) [OF ok] by simp
  have "h \<in> rev_id ` set ?own" if h: "res_currentRevisionId r = Some h" for h
  proof -
    obtain x where x: "ht_revisions ?h h = Some x" "rev_resourceId x = res_id r" "rev_workspaceId x = ws"
      using head h r(2) by (auto simp: resourceOk_def)
    then have "x \<in> set (vt_revisions t)" "rev_id x = h" using assms(3) by (simp_all add: showsHistory_def)
    then show ?thesis using x unfolding snapshot_own by blast
  qed
  moreover have "distinct (map rev_revisionNumber ?own)"
  proof -
    have "distinct (map (\<lambda>x. (rev_resourceId x, rev_revisionNumber x)) ?own)"
      using assms(3) by (intro snapshot_own_distinct) (simp add: showsHistory_def)
    moreover have "rev_resourceId x = res_id r" if "x \<in> set ?own" for x using that unfolding snapshot_own by blast
    ultimately show ?thesis by (auto simp: distinct_map inj_on_def)
  qed
  ultimately show ?thesis
    using revision_placed [OF assms(3) ok r] unfolding resource_graph_Nil Let_def by blast
qed

definition shownRevision :: "string \<Rightarrow> int \<Rightarrow> string option \<Rightarrow> revision" where
  "shownRevision i n parent = \<lparr>rev_id = i, rev_workspaceId = ''w1'', rev_datasetId = ''d1'', rev_resourceId = ''r1'',
     rev_revisionNumber = n, rev_parentRevisionId = parent, rev_mergeParentRevisionIds = [], rev_schemaPackageId = ''p1'',
     rev_schemaVersion = ''1.0.0'', rev_canonicalPayload = [], rev_canonicalPayloadHash = sampleDigest, rev_createdBy = ''u1'',
     rev_createdOnDeviceId = None, rev_source = SourceUser, rev_changeNote = None, rev_restoredFromRevisionId = None,
     rev_createdAt = ''2024-01-01''\<rparr>"

definition shownResource :: resource where
  "shownResource = sampleResource\<lparr>res_currentRevisionId := Some ''b''\<rparr>"

theorem verified_graph_complete_witness:
  "\<exists>line. descends [shownRevision ''a'' 1 None, shownRevision ''b'' 3 (Some ''a'')] (shownRevision ''b'' 3 (Some ''a'') # line)"
proof -
  let ?revs = "[shownRevision ''a'' 1 None, shownRevision ''b'' 3 (Some ''a'')]"
  have own: "ownRevisions shownResource ?revs = ?revs"
    by (simp add: ownRevisions_def shownResource_def sampleResource_def shownRevision_def)
  have "verifyResourceGraph shownResource ?revs = []"
    unfolding verifyResourceGraph_def own Let_def
    by (simp add: revisionGraphIssues_def byRevisionId_def present_text_def shownResource_def sampleResource_def shownRevision_def)
  from verified_graph_complete [OF this, of "shownRevision ''b'' 3 (Some ''a'')"] show ?thesis
    unfolding own by (simp add: shownRevision_def) blast
qed

lemma sampleAfter_tables:
  "ht_revisions (hw_repo (sampleAfter sha loc)) = [''v'' \<mapsto> newRevision sha loc (sampleCreate None) sampleResource None ''v'' []]"
  "ht_resources (hw_repo (sampleAfter sha loc)) = [''r1'' \<mapsto> sampleResource\<lparr>res_currentRevisionId := Some ''v'', res_updatedAt := []\<rparr>]"
  by (simp_all add: sampleAfter_def sampleHistory_def sampleTables_def sampleResource_def sampleCreate_def
      history_run newRevision_def assertNextRevision_def)

definition sampleShown :: "(bytes \<Rightarrow> string) \<Rightarrow> string comparator \<Rightarrow> verificationTables" where
  "sampleShown sha loc = sampleVerifyTables\<lparr>
     vt_resources := [sampleResource\<lparr>res_currentRevisionId := Some ''v'', res_updatedAt := []\<rparr>],
     vt_revisions := [newRevision sha loc (sampleCreate None) sampleResource None ''v'' []]\<rparr>"

lemma sampleShown_shows: "showsHistory (hw_repo (sampleAfter sha loc)) (sampleShown sha loc)"
  unfolding showsHistory_def sampleAfter_tables
  by (auto simp: sampleShown_def newRevision_def sampleResource_def sampleCreate_def)

theorem service_histories_verify_witness:
  "verifyResourceGraph (sampleResource\<lparr>res_currentRevisionId := Some ''v'', res_updatedAt := []\<rparr>)
     (vs_revisions (snapshotRows (sampleShown (\<lambda>_. sampleDigest) default) ''w1'')) = []"
  by (rule service_histories_verify [OF sampleAfter_step sampleHistory_ok sampleShown_shows])
    (simp add: snapshotRows_def Let_def sampleShown_def sampleResource_def)

section \<open>Reports\<close>

text \<open>
  A stored run is reported as it was: the report found under the identifier of a run just
  recorded has its fields, the list of reports of the workspace and of the scope of the run contains
  it, newest first, and earlier reports are still there.
\<close>

theorem recorded_run_reported:
  assumes "pgRecordRun run t = (Inr u, t')"
  shows "fst (pgGetReport (run_workspaceId run) (run_id run) t') = Inr (Some (reportOf run))
     \<and> (\<exists>rs. fst (pgListReports (run_workspaceId run) (Some (run_scope run)) t') = Inr rs
          \<and> reportOf run \<in> set rs \<and> sorted_wrt (\<lambda>a b. rr_startedAt b \<le> rr_startedAt a) rs)
     \<and> (\<forall>r\<in>set (vt_runs t). r \<in> set (vt_runs t'))"
proof -
  have new: "run_id run \<notin> rr_id ` set (vt_runs t)" and t': "t' = t\<lparr>vt_runs := vt_runs t @ [reportOf run]\<rparr>"
    using assms by (auto simp: pgRecordRun_def js_ok split: if_splits prod.splits)
  have fields: "rr_workspaceId (reportOf run) = run_workspaceId run" "rr_id (reportOf run) = run_id run"
      "rr_scope (reportOf run) = run_scope run"
    by (simp_all add: reportOf_def)
  have "find (\<lambda>r. rr_workspaceId r = run_workspaceId run \<and> rr_id r = run_id run) (vt_runs t) = None"
    using new by (auto simp: find_None_iff) (metis image_eqI)
  then have "find (\<lambda>r. rr_workspaceId r = run_workspaceId run \<and> rr_id r = run_id run) (vt_runs t') = Some (reportOf run)"
    unfolding t' by (simp add: find_append fields)
  moreover have "sorted_wrt (\<lambda>a b. rr_startedAt b \<le> rr_startedAt a) (rev (sort_key (\<lambda>r. (rr_startedAt r, rr_id r)) rs))" for rs
    using sorted_sort_key [of "\<lambda>r. (rr_startedAt r, rr_id r)" rs] unfolding sorted_wrt_map sorted_wrt_rev
    by (rule sorted_wrt_mono_rel [rotated]) (auto simp: less_eq_prod_def)
  ultimately show ?thesis
    by (auto simp: pgGetReport_def pgListReports_def js_simps t' fields)
qed

definition sampleRun :: verificationRun where
  "sampleRun = \<lparr>run_id = ''run'', run_workspaceId = ''w1'', run_level = LevelFullBlob,
     run_scope = \<lparr>sc_kind = KindWorkspace, sc_id = ''w1''\<rparr>, run_status = RunPassed, run_startedAt = ''2024-01-01'',
     run_completedAt = ''2024-01-02'', run_objectsChecked = 1, run_bytesRead = 2, run_issues = []\<rparr>"

theorem recorded_run_reported_witness:
  "fst (pgGetReport ''w1'' ''run'' (sampleVerifyTables\<lparr>vt_runs := [reportOf sampleRun]\<rparr>)) = Inr (Some (reportOf sampleRun))"
proof -
  have "pgRecordRun sampleRun sampleVerifyTables = (Inr (), sampleVerifyTables\<lparr>vt_runs := [reportOf sampleRun]\<rparr>)"
    by (simp add: pgRecordRun_def js_simps sampleVerifyTables_def sampleRun_def)
  from recorded_run_reported [OF this] show ?thesis by (simp add: sampleRun_def)
qed

section \<open>What the runs do not keep\<close>

definition rottenWorld :: pgVerifyWorld where
  "rottenWorld = sampleVerifyWorld\<lparr>vw_storage := sampleCommitted\<lparr>ms_objects :=
     [sampleCanonicalKey \<mapsto> sampleStored\<lparr>sb_body := ''ho''\<rparr>]\<rparr>\<rparr>"

definition honestDigest :: "bytes \<Rightarrow> string" where
  "honestDigest b = (if b = ''hi'' then sampleDigest else b)"

lemma rotten_levels:
  "intactAt honestDigest LevelMetadata (ms_objects (vw_storage rottenWorld)) sampleBlob"
  "\<not> intactAt honestDigest LevelFullBlob (ms_objects (vw_storage rottenWorld)) sampleBlob"
proof -
  have "length ''ho'' \<noteq> length sampleDigest" by (simp add: sampleDigest_def)
  then have "''ho'' \<noteq> sampleDigest" by metis
  moreover have "honestDigest ''ho'' = ''ho''" by (simp add: honestDigest_def)
  ultimately have "honestDigest ''ho'' \<noteq> sampleDigest" by simp
  then show "intactAt honestDigest LevelMetadata (ms_objects (vw_storage rottenWorld)) sampleBlob"
    "\<not> intactAt honestDigest LevelFullBlob (ms_objects (vw_storage rottenWorld)) sampleBlob"
    by (simp_all add: intactAt_def rottenWorld_def sampleBlob_def sampleStored_def)
qed

lemma intactAt_state: "intactAt sha level objs (b\<lparr>blob_verificationState := st\<rparr>) = intactAt sha level objs b"
  by (cases "objs (blob_storageKey b)") (simp_all add: intactAt_def)

text \<open>
  A later structural run hides damage that a full run found: the bytes of an object have changed
  under its recorded length and hash; the full run marks its blob as failed, and the metadata check
  of the next workspace run marks it as verified again.
\<close>

theorem metadata_run_hides_damage:
  "\<exists>r w1 r' w2.
     runBlobVerification honestDigest (memoryStorageOps honestDigest ''later'') postgresVerification ''w1'' LevelFullBlob rottenWorld
       = (Inr r, w1)
     \<and> run_status r = RunFailed \<and> map blob_verificationState (blobsIn (vw_catalog w1) ''w1'') = [VerFailed]
     \<and> runStructuralVerification honestDigest (\<lambda>_. None) (\<lambda>_. False) (memoryStorageOps honestDigest ''later'')
         postgresVerification ''w1'' LevelWorkspace None w1 = (Inr r', w2)
     \<and> map blob_verificationState (blobsIn (vw_catalog w2) ''w1'') = [VerVerified]"
proof -
  let ?m = "ms_objects (vw_storage rottenWorld)"
  have ok: "verifiable rottenWorld ''w1''" and ids: "idAt (vw_ambient rottenWorld) (Suc 0) \<noteq> idAt (vw_ambient rottenWorld) 0"
      "idCount (vw_ambient rottenWorld) = 0" and runs: "vt_runs (vw_catalog rottenWorld) = []"
    using sampleVerify_ok by (simp_all add: verifiable_def rottenWorld_def sampleVerifyWorld_def sampleAmbient_def sampleVerifyTables_def)
  have blobs: "blobsIn (vw_catalog rottenWorld) ''w1'' = [sampleBlob]"
    using sampleVerify_blobs by (simp add: rottenWorld_def)
  note ok1 = verifiableD [OF ok]
  obtain r w1 where 1: "runBlobVerification honestDigest (memoryStorageOps honestDigest ''later'') postgresVerification ''w1''
        LevelFullBlob rottenWorld = (Inr r, w1)" "run_status r = RunFailed" "ms_objects (vw_storage w1) = ?m"
      "blobsIn (vw_catalog w1) ''w1'' = [sampleBlob\<lparr>blob_verificationState := VerFailed\<rparr>]"
      "pgVerify.continued rottenWorld r w1"
    using pgVerify.blob_run [OF ok1(1) ok1(2) ok1(3), of honestDigest "''later''" LevelFullBlob] blobs rotten_levels(2) by auto
  have ok2: "keysUnique (vw_catalog w1)" "knownIn (vw_catalog w1) ''w1''"
      "idAt (vw_ambient w1) (idCount (vw_ambient w1)) \<notin> rr_id ` set (vt_runs (vw_catalog w1))"
    using 1(5) ok1(2) ids runs by (auto simp: pgVerify.continued_def reportOf_def)
  obtain r' w2 where 2: "runStructuralVerification honestDigest (\<lambda>_. None) (\<lambda>_. False) (memoryStorageOps honestDigest ''later'')
        postgresVerification ''w1'' LevelWorkspace None w1 = (Inr r', w2)"
      "blobsIn (vw_catalog w2) ''w1'' = map (\<lambda>b. b\<lparr>blob_verificationState :=
          if intactAt honestDigest LevelMetadata ?m b then VerVerified else VerFailed\<rparr>) (blobsIn (vw_catalog w1) ''w1'')"
    using pgVerify.workspace_run [OF ok2(1) ok2(2) ok2(3), of honestDigest "\<lambda>_. None" "\<lambda>_. False" "''later''"] 1(3) by auto
  have "intactAt honestDigest LevelMetadata ?m (sampleBlob\<lparr>blob_verificationState := VerFailed\<rparr>)"
    using rotten_levels(1) by (simp add: intactAt_state)
  then show ?thesis using 1 2 by (intro exI [of _ r] exI [of _ w1] exI [of _ r'] exI [of _ w2]) simp
qed

text \<open>
  A structural run over a workspace that does not exist throws: the report that says the scope
  was not found refers to that workspace, and the table of runs refuses it.
\<close>

theorem unknown_workspace_not_reported:
  assumes "ws \<notin> set (vt_workspaces (vw_catalog w))" and "vs_blobs (snapshotRows (vw_catalog w) ws) = []"
    and "idAt (vw_ambient w) (idCount (vw_ambient w)) \<notin> set (map rr_id (vt_runs (vw_catalog w)))"
  shows "fst (runStructuralVerification sha dp url storage postgresVerification ws LevelWorkspace None w) = Inl foreignKeyViolation"
proof -
  let ?snap = "snapshotRows (vw_catalog w) ws" and ?scope = "\<lparr>sc_kind = KindWorkspace, sc_id = ws\<rparr>"
  have scope: "resolveScope ws LevelWorkspace None = Inr ?scope" by (simp add: resolveScope_def)
  have none: "selectedBlobs LevelWorkspace ?snap (selectScope ?snap ?scope) = []"
    using assms(2) by (simp add: selectedBlobs_def)
  have refused: "vc_recordRun postgresVerification r (vw_catalog w) = (Inl foreignKeyViolation, vw_catalog w)"
    if "run_workspaceId r = ws" "run_id r = idAt (vw_ambient w) (idCount (vw_ambient w))" for r
    using that assms(1,3) by (simp add: postgresVerification_def pgRecordRun_def js_simps keepTables_def)
  have loaded: "vc_loadSnapshot postgresVerification ws (vw_catalog w) = (Inr ?snap, vw_catalog w)"
    by (rule pgVer.snapshot_run)
  show ?thesis
    unfolding runStructuralVerification_def scope
    by (simp add: js_simps verifyNow_def now_def verifyNextId_def usingCatalog_def loaded none Let_def refused makeRun_def)
qed

theorem unknown_workspace_not_reported_witness:
  "fst (runStructuralVerification (\<lambda>_. sampleDigest) (\<lambda>_. None) (\<lambda>_. False) (memoryStorageOps (\<lambda>_. sampleDigest) ''later'')
     postgresVerification ''w2'' LevelWorkspace None sampleVerifyWorld) = Inl foreignKeyViolation"
  by (rule unknown_workspace_not_reported)
    (simp_all add: sampleVerifyWorld_def sampleVerifyTables_def snapshotRows_def Let_def blobRows_def sampleBlob_def)

end
