(* ===== verification/QuarantineStore.thy ===== *)
theory QuarantineStore
  imports Quarantine Database
begin

text \<open>
  \<open>packages/persistence-postgres/src/quarantine-scan-store.ts\<close>: the scan store over the table
  \<open>quarantine_scan_jobs\<close>, which meets the contract \<open>scan_store\<close> as the in-memory store does.

  The table is keyed by its primary key, the job identifier; \<open>mapRow\<close> reads the identifier from the
  key. The constraints of the migration are modelled: that key, one job for an upload, and the
  reference to \<open>upload_sessions\<close>. Row level security hides the rows of other workspaces from every
  lookup, but not from the constraints.
\<close>

section \<open>Statements\<close>

record scanTables =
  sj_jobs :: "(string, quarantineScanRecord) alist"
  sj_uploads :: "(string \<times> string) list"

definition mapScanRow :: "string \<Rightarrow> quarantineScanRecord \<Rightarrow> quarantineScanRecord" where
  "mapScanRow i row = row\<lparr>qr_scanJobId := i\<rparr>"

definition jobRow :: "string \<Rightarrow> string \<Rightarrow> scanTables \<Rightarrow> quarantineScanRecord option" where
  "jobRow workspaceId scanJobId t =
     (case DAList.lookup (sj_jobs t) scanJobId of
        None \<Rightarrow> None
      | Some row \<Rightarrow> if qr_workspaceId row = workspaceId then Some (mapScanRow scanJobId row) else None)"

definition uploadRow :: "string \<Rightarrow> string \<Rightarrow> scanTables \<Rightarrow> quarantineScanRecord option" where
  "uploadRow workspaceId uploadId t =
     map_option (\<lambda>(i, row). mapScanRow i row)
       (find (\<lambda>(i, row). qr_workspaceId row = workspaceId \<and> qr_uploadId row = uploadId) (DAList.impl_of (sj_jobs t)))"

definition pgGetByUploadId :: "string \<Rightarrow> string \<Rightarrow> (scanTables, quarantineScanRecord option) js" where
  "pgGetByUploadId workspaceId uploadId = inTransaction keepTables (reading (uploadRow workspaceId uploadId))"

definition pgGetByScanJobId :: "string \<Rightarrow> string \<Rightarrow> (scanTables, quarantineScanRecord option) js" where
  "pgGetByScanJobId workspaceId scanJobId = inTransaction keepTables (reading (jobRow workspaceId scanJobId))"

definition insertJob :: "quarantineScanRecord \<Rightarrow> (scanTables, unit) js" where
  "insertJob r =
     andThen (reading (\<lambda>t. (DAList.lookup (sj_jobs t) (qr_scanJobId r) \<noteq> None
         \<or> uploadRow (qr_workspaceId r) (qr_uploadId r) t \<noteq> None,
       (qr_workspaceId r, qr_uploadId r) \<in> set (sj_uploads t)))) (\<lambda>(taken, known).
       if taken then throw uniqueViolation
       else if \<not> known then throw foreignKeyViolation
       else updating (\<lambda>t. t\<lparr>sj_jobs := DAList.update (qr_scanJobId r) r (sj_jobs t)\<rparr>))"

definition updateJob :: "quarantineScanRecord \<Rightarrow> (scanTables, unit) js" where
  "updateJob r =
     andThen (reading (\<lambda>t. DAList.lookup (sj_jobs t) (qr_scanJobId r))) (\<lambda>found.
       case found of
         None \<Rightarrow> throw (quarantineScanConflictError ''Quarantine scan update did not match the immutable identity.'')
       | Some row \<Rightarrow>
           if qr_workspaceId row = qr_workspaceId r \<and> qr_uploadId row = qr_uploadId r
              \<and> qr_storageKey row = qr_storageKey r \<and> qr_createdAt row = qr_createdAt r
           then updating (\<lambda>t. t\<lparr>sj_jobs := DAList.update (qr_scanJobId r)
                  (row\<lparr>qr_state := qr_state r, qr_outcome := qr_outcome r, qr_updatedAt := qr_updatedAt r\<rparr>) (sj_jobs t)\<rparr>)
           else throw (quarantineScanConflictError ''Quarantine scan update did not match the immutable identity.''))"

definition translated :: "js_error \<Rightarrow> js_error" where
  "translated e =
     (if err_name e = ''QuarantineScanConflictError'' then e
      else if err_code e = Some ''23505'' \<or> err_code e = Some ''23503''
      then quarantineScanConflictError ''Quarantine scan identity conflict.''
      else e)"

definition pgSaveScan :: "quarantineScanRecord \<Rightarrow> (scanTables, unit) js" where
  "pgSaveScan r = inTransaction keepTables
     (catching
        (andThen (reading (jobRow (qr_workspaceId r) (qr_scanJobId r))) (\<lambda>byJob.
         andThen (reading (uploadRow (qr_workspaceId r) (qr_uploadId r))) (\<lambda>byUpload.
         andThen (lifting (resolveQuarantineScanSave byJob byUpload r)) (\<lambda>action.
           case action of SaveInsert \<Rightarrow> insertJob r | SaveUpdate \<Rightarrow> updateJob r))))
        (\<lambda>e. throw (translated e)))"

definition postgresScanStore :: "scanTables quarantineScanStore" where
  "postgresScanStore = \<lparr>qss_getByUploadId = pgGetByUploadId, qss_getByScanJobId = pgGetByScanJobId, qss_save = pgSaveScan\<rparr>"

section \<open>The table meets the contract\<close>

definition jobView :: "scanTables \<Rightarrow> string \<rightharpoonup> quarantineScanRecord" where
  "jobView t i = map_option (mapScanRow i) (DAList.lookup (sj_jobs t) i)"

lemma jobRow_view: "jobRow w i t = (case jobView t i of None \<Rightarrow> None | Some q \<Rightarrow> if qr_workspaceId q = w then Some q else None)"
  by (auto simp: jobRow_def jobView_def mapScanRow_def split: option.splits)

lemma uploadRow_None:
  "uploadRow w u t = None \<longleftrightarrow> (\<forall>i q. jobView t i = Some q \<longrightarrow> qr_workspaceId q \<noteq> w \<or> qr_uploadId q \<noteq> u)"
proof -
  have member: "(i, row) \<in> set (DAList.impl_of (sj_jobs t)) \<longleftrightarrow> DAList.lookup (sj_jobs t) i = Some row" for i row
    using DAList.impl_of [of "sj_jobs t"] by (simp add: DAList.lookup.rep_eq map_of_eq_Some_iff)
  have "uploadRow w u t = None \<longleftrightarrow>
      (\<forall>i row. DAList.lookup (sj_jobs t) i = Some row \<longrightarrow> qr_workspaceId row \<noteq> w \<or> qr_uploadId row \<noteq> u)"
    by (auto simp: uploadRow_def find_None_iff member)
  also have "\<dots> \<longleftrightarrow> (\<forall>i q. jobView t i = Some q \<longrightarrow> qr_workspaceId q \<noteq> w \<or> qr_uploadId q \<noteq> u)"
  proof (rule all_cong1)
    fix i show "(\<forall>row. DAList.lookup (sj_jobs t) i = Some row \<longrightarrow> qr_workspaceId row \<noteq> w \<or> qr_uploadId row \<noteq> u) \<longleftrightarrow>
        (\<forall>q. jobView t i = Some q \<longrightarrow> qr_workspaceId q \<noteq> w \<or> qr_uploadId q \<noteq> u)"
      by (cases "DAList.lookup (sj_jobs t) i") (simp_all add: jobView_def mapScanRow_def)
  qed
  finally show ?thesis .
qed

lemma updateJob_ok:
  assumes "updateJob q s = (Inr u, t)"
  shows "\<exists>p. jobView s (qr_scanJobId q) = Some p \<and> sameIdentity p q \<and> jobView t = (jobView s)(qr_scanJobId q \<mapsto> q)"
proof -
  obtain row where row: "DAList.lookup (sj_jobs s) (qr_scanJobId q) = Some row"
      "qr_workspaceId row = qr_workspaceId q" "qr_uploadId row = qr_uploadId q"
      "qr_storageKey row = qr_storageKey q" "qr_createdAt row = qr_createdAt q"
      "t = s\<lparr>sj_jobs := DAList.update (qr_scanJobId q)
         (row\<lparr>qr_state := qr_state q, qr_outcome := qr_outcome q, qr_updatedAt := qr_updatedAt q\<rparr>) (sj_jobs s)\<rparr>"
    using assms by (auto simp: updateJob_def js_ok split: option.splits if_splits)
  have "mapScanRow (qr_scanJobId q) (row\<lparr>qr_state := qr_state q, qr_outcome := qr_outcome q, qr_updatedAt := qr_updatedAt q\<rparr>) = q"
    using row(2-5) by (simp add: mapScanRow_def)
  then have "jobView t = (jobView s)(qr_scanJobId q \<mapsto> q)"
    unfolding row(6) by (auto simp: jobView_def fun_eq_iff)
  then show ?thesis using row by (simp add: jobView_def mapScanRow_def sameIdentity_def)
qed

lemma insertJob_ok:
  assumes "insertJob q s = (Inr u, t)"
  shows "jobView s (qr_scanJobId q) = None \<and> uploadRow (qr_workspaceId q) (qr_uploadId q) s = None
     \<and> jobView t = (jobView s)(qr_scanJobId q \<mapsto> q)"
  using assms
  by (auto simp: insertJob_def js_ok jobView_def fun_eq_iff mapScanRow_def split: if_splits)

lemma pgSaveScan_ok:
  assumes "pgSaveScan q s = (Inr u, t)"
  shows "jobView t = (jobView s)(qr_scanJobId q \<mapsto> q)
     \<and> (jobView s (qr_scanJobId q) = None \<and> uploadRow (qr_workspaceId q) (qr_uploadId q) s = None
        \<or> (\<exists>p. jobView s (qr_scanJobId q) = Some p \<and> sameIdentity p q))"
proof -
  have "insertJob q s = (Inr u, t) \<or> updateJob q s = (Inr u, t)"
    using assms by (auto simp: pgSaveScan_def js_ok catching_def js_simps split: prod.splits sum.splits saveAction.splits)
  then show ?thesis using insertJob_ok updateJob_ok by blast
qed

interpretation pgScan: scan_store postgresScanStore jobView "\<lambda>_. True"
proof
  fix w j s r t
  assume "qss_getByScanJobId postgresScanStore w j s = (r, t)"
  then show "t = s \<and> (\<forall>x. r = Inr x \<longrightarrow> x = (case jobView s j of None \<Rightarrow> None
      | Some q \<Rightarrow> if qr_workspaceId q = w then Some q else None))"
    by (auto simp: postgresScanStore_def pgGetByScanJobId_def js_simps jobRow_view)
next
  fix q s u t
  assume "qss_save postgresScanStore q s = (Inr u, t)"
  then have run: "pgSaveScan q s = (Inr u, t)" by (simp add: postgresScanStore_def)
  note ok = pgSaveScan_ok [OF run]
  show "jobView t = (jobView s)(qr_scanJobId q \<mapsto> q) \<and> (\<forall>p. jobView s (qr_scanJobId q) = Some p \<longrightarrow>
      qr_workspaceId p = qr_workspaceId q \<and> qr_uploadId p = qr_uploadId q
      \<and> qr_storageKey p = qr_storageKey q \<and> qr_createdAt p = qr_createdAt q)"
    using ok by (auto simp: sameIdentity_def)
  assume recs: "recordsOk (jobView s)"
  have "i = qr_scanJobId q"
    if p: "jobView s i = Some p" "qr_workspaceId p = qr_workspaceId q" "qr_uploadId p = qr_uploadId q" for i p
  proof -
    obtain e where e: "jobView s (qr_scanJobId q) = Some e" "sameIdentity e q"
      using ok p by (auto simp: uploadRow_None)
    then show ?thesis using p recs unfolding recordsOk_def uniqueUploads_def sameIdentity_def by metis
  qed
  then show "uniqueUploads (jobView t)"
    using ok recs by (auto simp: recordsOk_def intro: uniqueUploads_update)
next
  fix q s e t
  assume "qss_save postgresScanStore q s = (Inl e, t)"
  then show "jobView t = jobView s"
    by (auto simp: postgresScanStore_def pgSaveScan_def keepTables_def dest: inTransaction_error)
qed simp_all

section \<open>Properties\<close>


definition emptyJobs :: "(scanTables, string list) orchestrator" where
  "emptyJobs = \<lparr>or_processed = [], or_store = \<lparr>sj_jobs = DAList.empty, sj_uploads = [(''w1'', ''u1'')]\<rparr>, or_scanner = [],
     or_clock = or_clock sampleOrchestrator\<rparr>"

definition queuedJob :: "(scanTables, string list) orchestrator" where
  "queuedJob = snd (queueUploaded postgresScanStore fakeSubmit sampleScan emptyJobs)"


end
