(* ===== verification/AppStorage.thy ===== *)
theory AppStorage
  imports Policy MemoryStorage
begin

text \<open>
  \<open>apps/trust-api/src/app-storage-bindings.ts\<close> and \<open>storage-router.ts\<close>: the registry of storage
  bindings of applications and their tenants, the resolution of a request to a binding, and the router
  that picks a storage for ingest and download.

  The maps of the registry are association lists in insertion order. The code changes the objects in
  these maps in place; the model updates the entry under its key. An access to a profile that is not
  there (the code asserts with \<open>!\<close> that it is) throws a \<open>TypeError\<close>.
\<close>

section \<open>Data\<close>

datatype tenantStatus = TenantActive | TenantSuspended | TenantClosed

record applicationTenant =
  at_id :: string
  at_workspaceId :: string
  at_applicationId :: string
  at_externalTenantKey :: string
  at_displayName :: string
  at_status :: tenantStatus
  at_createdAt :: string
  at_updatedAt :: string

datatype bindingTier = TierManaged | TierByob | TierPremium

datatype credentialMode = PlatformIam | CrossAccountRole | StaticKeysRef | CredentialsMissing

datatype bindingStatus =
  BindDraft | BindAwaitingRole | BindConfigured | BindConnected | BindNeedsAttention | BindDisabled | BindMigrating

datatype planSyncState = PlanSynced | PlanDrift | PlanUpgrade | PlanUnknown | PlanOverCapacity

datatype costPostureKind = CustomerBilled | PlatformManaged | CostUnknown

datatype inheritedFrom = FromPlatform | FromApp | FromNone

datatype routeScope = RoutePlatform | RouteApp | RouteTenant

datatype routePurpose = ForIngest | ForDownload | ForProbe | ForMigrate | ForPortability

record storageProfile =
  sp_id :: string
  sp_provider :: string
  sp_region :: string
  sp_bucket :: string
  sp_prefix :: string
  sp_tier :: bindingTier
  sp_credentialMode :: credentialMode
  sp_expectedBucketOwner :: "string option"
  sp_endpointHost :: "string option"
  sp_roleArn :: "string option"
  sp_declaredPlanCode :: "string option"
  sp_declaredCapacityBytes :: "int option"

record storedProfile = storageProfile +
  sp_workspaceId :: string
  sp_externalId :: "string option"
  sp_externalIdRevealed :: bool
  sp_createdAt :: string
  sp_updatedAt :: string

record storedBinding =
  bd_id :: string
  bd_workspaceId :: string
  bd_applicationId :: string
  bd_applicationTenantId :: "string option"
  bd_profileId :: string
  bd_status :: bindingStatus
  bd_generation :: int
  bd_lastProbeOk :: "bool option"
  bd_lastProbeAt :: "string option"
  bd_lastProbeSummary :: "string option"
  bd_lastIssueClass :: "string option"
  bd_planSyncState :: planSyncState
  bd_observedUsageBytes :: "int option"
  bd_observedQuotaBytes :: "int option"
  bd_observedAt :: "string option"
  bd_disabled :: bool
  bd_createdAt :: string
  bd_updatedAt :: string

record bindingSummary =
  bs_id :: string
  bs_workspaceId :: string
  bs_applicationId :: string
  bs_applicationTenantId :: "string option"
  bs_profile :: storageProfile
  bs_status :: bindingStatus
  bs_generation :: int
  bs_lastProbeOk :: "bool option"
  bs_lastProbeAt :: "string option"
  bs_lastProbeSummary :: "string option"
  bs_lastIssueClass :: "string option"
  bs_planSyncState :: planSyncState
  bs_observedUsageBytes :: "int option"
  bs_observedQuotaBytes :: "int option"
  bs_observedAt :: "string option"
  bs_disabled :: bool
  bs_costPosture :: costPostureKind
  bs_createdAt :: string
  bs_updatedAt :: string

record bindingVersion =
  bn_id :: string
  bn_workspaceId :: string
  bn_bindingId :: string
  bn_generation :: int
  bn_snapshot :: bindingSummary
  bn_createdBy :: string
  bn_createdAt :: string

record blobStickyRoute =
  br_objectId :: string
  br_workspaceId :: string
  br_sha256 :: string
  br_storageBindingId :: string
  br_storageBindingGeneration :: int

record routingContext =
  rx_workspaceId :: string
  rx_applicationId :: "string option"
  rx_applicationTenantId :: "string option"
  rx_externalTenantKey :: "string option"
  rx_purpose :: routePurpose
  rx_blobStorageBindingId :: "string option"
  rx_bindingGeneration :: "int option"

text \<open>The status \<open>not_configured\<close> is \<^const>\<open>None\<close>, and so is an absent reason.\<close>

record resolveResult =
  rv_bindingId :: "string option"
  rv_generation :: "int option"
  rv_inheritedFrom :: inheritedFrom
  rv_scope :: routeScope
  rv_status :: "bindingStatus option"
  rv_allowWrite :: bool
  rv_reason :: "string option"
  rv_profile :: "storedProfile option"

record upsertCommand =
  uc_workspaceId :: string
  uc_applicationId :: string
  uc_applicationTenantId :: "string option"
  uc_provider :: string
  uc_region :: string
  uc_bucket :: string
  uc_prefix :: "string option"
  uc_tier :: bindingTier
  uc_credentialMode :: credentialMode
  uc_expectedBucketOwner :: "string option"
  uc_endpointHost :: "string option"
  uc_roleArn :: "string option"
  uc_declaredPlanCode :: "string option"
  uc_declaredCapacityBytes :: "int option"
  uc_expectedGeneration :: "int option"

record upsertResult =
  ur_binding :: bindingSummary
  ur_externalId :: "string option"
  ur_onboardingTemplate :: string

record appStorage =
  ar_tenants :: "(string \<times> applicationTenant) list"
  ar_profiles :: "(string \<times> storedProfile) list"
  ar_bindings :: "(string \<times> storedBinding) list"
  ar_versions :: "bindingVersion list"
  ar_blobs :: "(string \<times> blobStickyRoute) list"
  ar_assumeWithoutExternalId :: "(string \<times> bool) list"
  ar_externalIds :: "(string \<times> string) list"
  ar_ambient :: ambient

definition codedError :: "string \<Rightarrow> string \<Rightarrow> js_error" where
  "codedError code message = JsError ''Error'' (Some code) message"

definition undefinedAccess :: js_error where
  "undefinedAccess = JsError ''TypeError'' None ''Cannot access properties of undefined''"

definition bindingNotFound :: js_error where
  "bindingNotFound = plainError ''Binding not found''"

definition registryNow :: "(appStorage, string) js" where
  "registryNow = within ar_ambient (\<lambda>a s. s\<lparr>ar_ambient := a\<rparr>) now"

definition registryUUID :: "(appStorage, string) js" where
  "registryUUID = within ar_ambient (\<lambda>a s. s\<lparr>ar_ambient := a\<rparr>) nextId"

definition setBinding :: "string \<Rightarrow> storedBinding \<Rightarrow> (appStorage, unit) js" where
  "setBinding k b = updating (\<lambda>s. s\<lparr>ar_bindings := AList.update k b (ar_bindings s)\<rparr>)"

definition setProfile :: "string \<Rightarrow> storedProfile \<Rightarrow> (appStorage, unit) js" where
  "setProfile k p = updating (\<lambda>s. s\<lparr>ar_profiles := AList.update k p (ar_profiles s)\<rparr>)"

definition setTenant :: "string \<Rightarrow> applicationTenant \<Rightarrow> (appStorage, unit) js" where
  "setTenant k t = updating (\<lambda>s. s\<lparr>ar_tenants := AList.update k t (ar_tenants s)\<rparr>)"

text \<open>\<open>this.bindings.get(id)\<close> with the error of its absence.\<close>

definition foundBinding :: "string \<Rightarrow> (appStorage, storedBinding) js" where
  "foundBinding i = andThen (reading (\<lambda>s. map_of (ar_bindings s) i)) (\<lambda>b.
     case b of None \<Rightarrow> throw bindingNotFound | Some b \<Rightarrow> ret b)"

definition profileOf :: "storedBinding \<Rightarrow> (appStorage, storedProfile) js" where
  "profileOf b = andThen (reading (\<lambda>s. map_of (ar_profiles s) (bd_profileId b))) (\<lambda>p.
     case p of None \<Rightarrow> throw undefinedAccess | Some p \<Rightarrow> ret p)"

section \<open>Pure rules\<close>

definition costPosture :: "bindingTier \<Rightarrow> credentialMode \<Rightarrow> costPostureKind" where
  "costPosture tier mode =
     (if tier = TierByob \<or> mode = CrossAccountRole then CustomerBilled
      else if tier = TierManaged \<or> mode = PlatformIam then PlatformManaged
      else CostUnknown)"

definition hashExternalId :: "(bytes \<Rightarrow> string) \<Rightarrow> string \<Rightarrow> string" where
  "hashExternalId sha externalId = sha (utf8 externalId)"

definition assertExternalIdHardening :: "bool \<Rightarrow> string option" where
  "assertExternalIdHardening assumeWithoutExternalIdSucceeds =
     (if assumeWithoutExternalIdSucceeds
      then Some ''This role is unsafe (confused deputy). Update trust policy using the template (require sts:ExternalId), then retry.''
      else None)"

text \<open>The dash of the first message is outside the characters of the model; it is written as a hyphen.\<close>

definition operatorErrorForIssue :: "string \<Rightarrow> string" where
  "operatorErrorForIssue i =
     (if i = ''owner_mismatch'' then ''ExpectedBucketOwner does not match HeadBucket owner - check AWS account id.''
      else if i = ''wrong_region''
      then ''Bucket region does not match the configured region. Update TRUST region / binding region, then Test connection.''
      else if i = ''external_id''
      then ''This role is unsafe (confused deputy). Update trust policy using the template, then retry.''
      else if i = ''permission''
      then ''Identity works but lacks bucket/prefix rights. Grant the minimal IAM actions from the checklist.''
      else ''Storage binding needs attention. Open provider console and re-run Test connection.'')"

definition evaluatePlanSync :: "int option \<Rightarrow> int option \<Rightarrow> int option \<Rightarrow> int option \<Rightarrow> planSyncState" where
  "evaluatePlanSync declared usage quota previous =
     (if quota = None \<and> usage = None \<and> declared = None then PlanUnknown
      else if (case (declared, usage) of (Some d, Some u) \<Rightarrow> u > d | _ \<Rightarrow> False) then PlanOverCapacity
      else if (case quota of
                 None \<Rightarrow> False
               | Some q \<Rightarrow>
                   (case previous of
                      Some p \<Rightarrow> q > p
                    | None \<Rightarrow> (case declared of Some d \<Rightarrow> q > d | None \<Rightarrow> False))) then PlanUpgrade
      else if (case (declared, quota) of (Some d, Some q) \<Rightarrow> q \<noteq> d | _ \<Rightarrow> False) then PlanDrift
      else if declared \<noteq> None \<or> quota \<noteq> None then PlanSynced
      else PlanUnknown)"

definition publicProfile :: "storedProfile \<Rightarrow> storageProfile" where
  "publicProfile p = \<lparr>sp_id = sp_id p, sp_provider = sp_provider p, sp_region = sp_region p, sp_bucket = sp_bucket p,
     sp_prefix = sp_prefix p, sp_tier = sp_tier p, sp_credentialMode = sp_credentialMode p,
     sp_expectedBucketOwner = sp_expectedBucketOwner p, sp_endpointHost = sp_endpointHost p, sp_roleArn = sp_roleArn p,
     sp_declaredPlanCode = sp_declaredPlanCode p, sp_declaredCapacityBytes = sp_declaredCapacityBytes p\<rparr>"

definition summaryOf :: "storedBinding \<Rightarrow> storedProfile \<Rightarrow> bindingSummary" where
  "summaryOf b p = \<lparr>bs_id = bd_id b, bs_workspaceId = bd_workspaceId b, bs_applicationId = bd_applicationId b,
     bs_applicationTenantId = bd_applicationTenantId b, bs_profile = publicProfile p,
     bs_status = (if bd_disabled b then BindDisabled else bd_status b), bs_generation = bd_generation b,
     bs_lastProbeOk = bd_lastProbeOk b, bs_lastProbeAt = bd_lastProbeAt b, bs_lastProbeSummary = bd_lastProbeSummary b,
     bs_lastIssueClass = bd_lastIssueClass b, bs_planSyncState = bd_planSyncState b,
     bs_observedUsageBytes = bd_observedUsageBytes b, bs_observedQuotaBytes = bd_observedQuotaBytes b,
     bs_observedAt = bd_observedAt b, bs_disabled = bd_disabled b,
     bs_costPosture = costPosture (sp_tier p) (sp_credentialMode p), bs_createdAt = bd_createdAt b, bs_updatedAt = bd_updatedAt b\<rparr>"

definition toSummary :: "storedBinding \<Rightarrow> (appStorage, bindingSummary) js" where
  "toSummary b = andThen (profileOf b) (\<lambda>p. ret (summaryOf b p))"

definition textOr :: "string option \<Rightarrow> string \<Rightarrow> string" where
  "textOr x d = (case x of None \<Rightarrow> d | Some s \<Rightarrow> s)"

definition onboardingTemplate :: "storedProfile \<Rightarrow> string \<Rightarrow> appStorage \<Rightarrow> string" where
  "onboardingTemplate p bindingId s =
     join [CHR 0x0A]
       [''# Trust Core BYOB role (CloudFormation-style sketch)'',
        ''Description: Binding '' @ bindingId,
        ''TrustedExternalId: '' @ (case map_of (ar_externalIds s) (sp_id p) of
            Some x \<Rightarrow> x | None \<Rightarrow> textOr (sp_externalId p) ''<EXTERNAL_ID>''),
        ''Bucket: '' @ sp_bucket p,
        ''Prefix: '' @ (if sp_prefix p = [] then ''(bucket root)'' else sp_prefix p),
        ''ExpectedBucketOwner: '' @ textOr (sp_expectedBucketOwner p) ''<ACCOUNT_ID>'',
        ''Actions: s3:ListBucket, s3:GetObject, s3:PutObject, s3:DeleteObject, multipart equivalents'',
        ''Condition: sts:ExternalId must match TrustedExternalId'']"

section \<open>Tenants\<close>

definition listTenants :: "string \<Rightarrow> string \<Rightarrow> appStorage \<Rightarrow> applicationTenant list" where
  "listTenants workspaceId applicationId s =
     filter (\<lambda>t. at_workspaceId t = workspaceId \<and> at_applicationId t = applicationId) (map snd (ar_tenants s))"

definition getTenant :: "string \<Rightarrow> string \<Rightarrow> string \<Rightarrow> appStorage \<Rightarrow> applicationTenant option" where
  "getTenant workspaceId applicationId tenantId s =
     (case map_of (ar_tenants s) tenantId of
        None \<Rightarrow> None
      | Some t \<Rightarrow> if at_workspaceId t \<noteq> workspaceId \<or> at_applicationId t \<noteq> applicationId then None else Some t)"

definition createTenant :: "string \<Rightarrow> string \<Rightarrow> string \<Rightarrow> string \<Rightarrow> (appStorage, applicationTenant) js" where
  "createTenant workspaceId applicationId externalTenantKey displayName =
     andThen (reading (\<lambda>s. find (\<lambda>t. at_externalTenantKey t = externalTenantKey) (listTenants workspaceId applicationId s))) (\<lambda>existing.
       case existing of
         Some t \<Rightarrow> ret t
       | None \<Rightarrow>
           andThen registryNow (\<lambda>at.
           andThen registryUUID (\<lambda>i.
             let t = \<lparr>at_id = i, at_workspaceId = workspaceId, at_applicationId = applicationId,
                   at_externalTenantKey = externalTenantKey, at_displayName = displayName, at_status = TenantActive,
                   at_createdAt = at, at_updatedAt = at\<rparr> in
             andThen (setTenant i t) (\<lambda>_. ret t))))"

definition requireTenant :: "string \<Rightarrow> string \<Rightarrow> string \<Rightarrow> (appStorage, applicationTenant) js" where
  "requireTenant workspaceId applicationId tenantId =
     andThen (reading (getTenant workspaceId applicationId tenantId)) (\<lambda>t.
       case t of None \<Rightarrow> throw (codedError ''RESOURCE_NOT_FOUND'' ''Application tenant was not found.'') | Some t \<Rightarrow> ret t)"

definition assertTenantExpectedUpdatedAt :: "applicationTenant \<Rightarrow> string \<Rightarrow> js_error + unit" where
  "assertTenantExpectedUpdatedAt t expected =
     check (at_updatedAt t = expected) (codedError ''CONFLICT'' ''Application tenant update conflict.'')"

text \<open>The body that \<open>updateTenant\<close> and \<open>setTenantStatus\<close> share.\<close>

definition changeTenant ::
  "(applicationTenant \<Rightarrow> applicationTenant) \<Rightarrow> string \<Rightarrow> string \<Rightarrow> string \<Rightarrow> string \<Rightarrow> (appStorage, applicationTenant) js" where
  "changeTenant f workspaceId applicationId tenantId expectedUpdatedAt =
     andThen (requireTenant workspaceId applicationId tenantId) (\<lambda>t.
     andThen (lifting (assertTenantExpectedUpdatedAt t expectedUpdatedAt)) (\<lambda>_.
     andThen registryNow (\<lambda>at.
       let t' = (f t)\<lparr>at_updatedAt := at\<rparr> in
       andThen (setTenant tenantId t') (\<lambda>_. ret t'))))"

definition updateTenant :: "string \<Rightarrow> string \<Rightarrow> string \<Rightarrow> string \<Rightarrow> string \<Rightarrow> (appStorage, applicationTenant) js" where
  "updateTenant workspaceId applicationId tenantId displayName expectedUpdatedAt =
     changeTenant (\<lambda>t. t\<lparr>at_displayName := displayName\<rparr>) workspaceId applicationId tenantId expectedUpdatedAt"

definition setTenantStatus :: "string \<Rightarrow> string \<Rightarrow> string \<Rightarrow> tenantStatus \<Rightarrow> string \<Rightarrow> (appStorage, applicationTenant) js" where
  "setTenantStatus workspaceId applicationId tenantId st expectedUpdatedAt =
     changeTenant (\<lambda>t. t\<lparr>at_status := st\<rparr>) workspaceId applicationId tenantId expectedUpdatedAt"

definition mapExternalTenantKey :: "string \<Rightarrow> string \<Rightarrow> string \<Rightarrow> appStorage \<Rightarrow> string option" where
  "mapExternalTenantKey workspaceId applicationId externalTenantKey s =
     map_option at_id (find (\<lambda>t. at_externalTenantKey t = externalTenantKey) (listTenants workspaceId applicationId s))"

section \<open>Bindings\<close>

definition getBinding :: "string \<Rightarrow> appStorage \<Rightarrow> storedBinding option" where
  "getBinding bindingId s = map_of (ar_bindings s) bindingId"

text \<open>\<open>undefined\<close> as the tenant lists every scope, \<open>null\<close> the default of the application only.\<close>

definition listedBindings :: "string \<Rightarrow> string option \<Rightarrow> string option option \<Rightarrow> appStorage \<Rightarrow> storedBinding list" where
  "listedBindings workspaceId applicationId tenant s =
     filter (\<lambda>b. bd_workspaceId b = workspaceId
        \<and> (case applicationId of None \<Rightarrow> True | Some a \<Rightarrow> bd_applicationId b = a)
        \<and> (case tenant of None \<Rightarrow> True | Some x \<Rightarrow> bd_applicationTenantId b = x)) (map snd (ar_bindings s))"

fun summaries :: "storedBinding list \<Rightarrow> (appStorage, bindingSummary list) js" where
  "summaries [] = ret []"
| "summaries (b # bs) = andThen (toSummary b) (\<lambda>x. andThen (summaries bs) (\<lambda>xs. ret (x # xs)))"

definition listBindings :: "string \<Rightarrow> string option \<Rightarrow> string option option \<Rightarrow> (appStorage, bindingSummary list) js" where
  "listBindings workspaceId applicationId tenant =
     andThen (reading (listedBindings workspaceId applicationId tenant)) summaries"

definition bindingAt :: "string \<Rightarrow> string \<Rightarrow> string option \<Rightarrow> (string \<times> storedBinding) list \<Rightarrow> (string \<times> storedBinding) option" where
  "bindingAt workspaceId applicationId tenant bs =
     find (\<lambda>(k, b). bd_workspaceId b = workspaceId \<and> bd_applicationId b = applicationId \<and> bd_applicationTenantId b = tenant) bs"

definition pushVersion :: "storedBinding \<Rightarrow> bindingSummary \<Rightarrow> string \<Rightarrow> string \<Rightarrow> (appStorage, unit) js" where
  "pushVersion b summary actorId at =
     andThen registryUUID (\<lambda>i. updating (\<lambda>s. s\<lparr>ar_versions := ar_versions s @
       [\<lparr>bn_id = i, bn_workspaceId = bd_workspaceId b, bn_bindingId = bd_id b, bn_generation = bd_generation b,
         bn_snapshot = summary, bn_createdBy = actorId, bn_createdAt = at\<rparr>]\<rparr>))"

definition commandProfile :: "upsertCommand \<Rightarrow> storedProfile \<Rightarrow> storedProfile" where
  "commandProfile c p = p\<lparr>sp_provider := uc_provider c, sp_region := uc_region c, sp_bucket := uc_bucket c,
     sp_prefix := textOr (uc_prefix c) [], sp_tier := uc_tier c, sp_credentialMode := uc_credentialMode c,
     sp_expectedBucketOwner := uc_expectedBucketOwner c, sp_endpointHost := uc_endpointHost c, sp_roleArn := uc_roleArn c,
     sp_declaredPlanCode := uc_declaredPlanCode c, sp_declaredCapacityBytes := uc_declaredCapacityBytes c\<rparr>"

definition updatedStatus :: "upsertCommand \<Rightarrow> bindingStatus" where
  "updatedStatus c =
     (if uc_credentialMode c = CrossAccountRole \<and> truthy (uc_roleArn c) then BindConfigured
      else if uc_credentialMode c = PlatformIam then BindConfigured else BindDraft)"

definition updateExisting :: "upsertCommand \<Rightarrow> string \<Rightarrow> string \<Rightarrow> string \<Rightarrow> storedBinding \<Rightarrow> (appStorage, upsertResult) js" where
  "updateExisting c actorId at k existing =
     (if uc_expectedGeneration c \<noteq> None \<and> uc_expectedGeneration c \<noteq> Some (bd_generation existing)
      then throw (codedError ''CONFLICT'' ''Storage binding generation conflict.'')
      else
        andThen (profileOf existing) (\<lambda>old.
          let profile = (commandProfile c old)\<lparr>sp_updatedAt := at\<rparr>;
              binding = existing\<lparr>bd_generation := bd_generation existing + 1, bd_status := updatedStatus c,
                bd_updatedAt := at, bd_lastProbeOk := None\<rparr> in
          andThen (setProfile (bd_profileId existing) profile) (\<lambda>_.
          andThen (setBinding k binding) (\<lambda>_.
          andThen (toSummary binding) (\<lambda>summary.
          andThen (pushVersion binding summary actorId at) (\<lambda>_.
          andThen (reading (onboardingTemplate profile (bd_id existing))) (\<lambda>template.
            ret \<lparr>ur_binding = summary, ur_externalId = None, ur_onboardingTemplate = template\<rparr>)))))))"

definition newProfile :: "upsertCommand \<Rightarrow> string \<Rightarrow> string option \<Rightarrow> string \<Rightarrow> storedProfile" where
  "newProfile c i externalId at = \<lparr>sp_id = i, sp_provider = uc_provider c, sp_region = uc_region c, sp_bucket = uc_bucket c,
     sp_prefix = textOr (uc_prefix c) [], sp_tier = uc_tier c, sp_credentialMode = uc_credentialMode c,
     sp_expectedBucketOwner = uc_expectedBucketOwner c, sp_endpointHost = uc_endpointHost c, sp_roleArn = uc_roleArn c,
     sp_declaredPlanCode = uc_declaredPlanCode c, sp_declaredCapacityBytes = uc_declaredCapacityBytes c,
     sp_workspaceId = uc_workspaceId c, sp_externalId = externalId, sp_externalIdRevealed = truthy externalId,
     sp_createdAt = at, sp_updatedAt = at\<rparr>"

definition newBinding :: "upsertCommand \<Rightarrow> string \<Rightarrow> string \<Rightarrow> string \<Rightarrow> storedBinding" where
  "newBinding c i profileId at = \<lparr>bd_id = i, bd_workspaceId = uc_workspaceId c, bd_applicationId = uc_applicationId c,
     bd_applicationTenantId = uc_applicationTenantId c, bd_profileId = profileId,
     bd_status = (if uc_credentialMode c = CrossAccountRole \<and> \<not> truthy (uc_roleArn c) then BindAwaitingRole else BindConfigured),
     bd_generation = 1, bd_lastProbeOk = None, bd_lastProbeAt = None, bd_lastProbeSummary = None, bd_lastIssueClass = None,
     bd_planSyncState = PlanUnknown, bd_observedUsageBytes = None, bd_observedQuotaBytes = None, bd_observedAt = None,
     bd_disabled = False, bd_createdAt = at, bd_updatedAt = at\<rparr>"

text \<open>The returned object spreads the identifier conditionally and then sets it in any case.\<close>

definition createNew :: "upsertCommand \<Rightarrow> string \<Rightarrow> string \<Rightarrow> (appStorage, upsertResult) js" where
  "createNew c actorId at =
     andThen (if uc_credentialMode c = CrossAccountRole then andThen registryUUID (\<lambda>i. ret (Some i)) else ret None) (\<lambda>externalId.
     andThen registryUUID (\<lambda>profileId.
       let profile = newProfile c profileId externalId at in
       andThen (setProfile profileId profile) (\<lambda>_.
       andThen (case externalId of
                  Some x \<Rightarrow> if x = [] then ret ()
                    else updating (\<lambda>s. s\<lparr>ar_externalIds := AList.update profileId x (ar_externalIds s)\<rparr>)
                | None \<Rightarrow> ret ()) (\<lambda>_.
       andThen registryUUID (\<lambda>i.
         let binding = newBinding c i profileId at in
         andThen (setBinding i binding) (\<lambda>_.
         andThen (toSummary binding) (\<lambda>summary.
         andThen (pushVersion binding summary actorId at) (\<lambda>_.
         andThen (reading (onboardingTemplate profile i)) (\<lambda>template.
           ret \<lparr>ur_binding = summary, ur_externalId = externalId, ur_onboardingTemplate = template\<rparr>)))))))))"

definition upsertBinding :: "upsertCommand \<Rightarrow> string \<Rightarrow> (appStorage, upsertResult) js" where
  "upsertBinding c actorId =
     andThen registryNow (\<lambda>at.
     andThen (reading (\<lambda>s. bindingAt (uc_workspaceId c) (uc_applicationId c) (uc_applicationTenantId c) (ar_bindings s))) (\<lambda>existing.
       case existing of
         Some (k, b) \<Rightarrow> updateExisting c actorId at k b
       | None \<Rightarrow> createNew c actorId at))"

definition revealExternalId :: "string \<Rightarrow> (appStorage, string option) js" where
  "revealExternalId profileId =
     andThen (reading (\<lambda>s. (map_of (ar_profiles s) profileId, map_of (ar_externalIds s) profileId))) (\<lambda>(profile, kept).
       case profile of
         None \<Rightarrow> ret None
       | Some p \<Rightarrow>
           if \<not> truthy (sp_externalId p) then ret None
           else if sp_externalIdRevealed p
           then andThen (updating (\<lambda>s. s\<lparr>ar_externalIds := AList.delete profileId (ar_externalIds s)\<rparr>)) (\<lambda>_. ret None)
           else andThen (setProfile profileId (p\<lparr>sp_externalIdRevealed := True\<rparr>)) (\<lambda>_.
             ret (case kept of Some x \<Rightarrow> Some x | None \<Rightarrow> sp_externalId p)))"

definition getExternalIdForTests :: "string \<Rightarrow> appStorage \<Rightarrow> string option" where
  "getExternalIdForTests profileId s =
     (case map_of (ar_externalIds s) profileId of
        Some x \<Rightarrow> Some x
      | None \<Rightarrow> Option.bind (map_of (ar_profiles s) profileId) sp_externalId)"

section \<open>Probes, plans and lifecycle\<close>

definition runHandshakeHardening :: "string \<Rightarrow> (appStorage, bool \<times> string option) js" where
  "runHandshakeHardening bindingId =
     andThen (reading (\<lambda>s. map_of (ar_assumeWithoutExternalId s) bindingId = Some True)) (\<lambda>allowUnsafe.
       case assertExternalIdHardening allowUnsafe of
         None \<Rightarrow> ret (True, None)
       | Some message \<Rightarrow>
           andThen (reading (\<lambda>s. map_of (ar_bindings s) bindingId)) (\<lambda>found.
             case found of
               None \<Rightarrow> ret (False, Some message)
             | Some b \<Rightarrow>
                 andThen registryNow (\<lambda>at.
                 andThen (setBinding bindingId (b\<lparr>bd_status := BindNeedsAttention, bd_lastIssueClass := Some ''auth'',
                     bd_lastProbeSummary := Some message, bd_updatedAt := at\<rparr>)) (\<lambda>_. ret (False, Some message)))))"

record probeInput =
  pb_ok :: bool
  pb_summary :: string
  pb_issueClass :: "string option"
  pb_expectedOwnerMatch :: "bool option"

definition probed :: "probeInput \<Rightarrow> string \<Rightarrow> storedBinding \<Rightarrow> storedBinding" where
  "probed inp at b =
     (if pb_expectedOwnerMatch inp = Some False
      then b\<lparr>bd_status := BindNeedsAttention, bd_lastProbeOk := Some False, bd_lastIssueClass := Some ''permission'',
             bd_lastProbeSummary := Some (operatorErrorForIssue ''owner_mismatch''), bd_lastProbeAt := Some at, bd_updatedAt := at\<rparr>
      else b\<lparr>bd_lastProbeOk := Some (pb_ok inp), bd_lastProbeAt := Some at, bd_lastProbeSummary := Some (pb_summary inp),
             bd_lastIssueClass := pb_issueClass inp, bd_status := (if pb_ok inp then BindConnected else BindNeedsAttention),
             bd_updatedAt := at\<rparr>)"

text \<open>Look a binding up, take the time, change it, and return its summary.\<close>

definition changeBinding :: "string \<Rightarrow> (storedBinding \<Rightarrow> js_error + unit) \<Rightarrow> (string \<Rightarrow> storedBinding \<Rightarrow> storedBinding) \<Rightarrow> (appStorage, bindingSummary) js" where
  "changeBinding bindingId guard f =
     andThen (foundBinding bindingId) (\<lambda>b.
     andThen (lifting (guard b)) (\<lambda>_.
     andThen registryNow (\<lambda>at.
     andThen (setBinding bindingId (f at b)) (\<lambda>_. toSummary (f at b)))))"

definition recordProbe :: "string \<Rightarrow> probeInput \<Rightarrow> (appStorage, bindingSummary) js" where
  "recordProbe bindingId inp = changeBinding bindingId (\<lambda>_. Inr ()) (probed inp)"

definition firstOf :: "'a option \<Rightarrow> 'a option \<Rightarrow> 'a option" where
  "firstOf x y = (case x of None \<Rightarrow> y | Some _ \<Rightarrow> x)"

definition refreshPlan :: "string \<Rightarrow> int option \<Rightarrow> int option \<Rightarrow> (appStorage, bindingSummary) js" where
  "refreshPlan bindingId usage quota =
     andThen (foundBinding bindingId) (\<lambda>b.
     andThen (reading (\<lambda>s. map_of (ar_profiles s) (bd_profileId b))) (\<lambda>found.
       let b1 = b\<lparr>bd_observedUsageBytes := firstOf usage (bd_observedUsageBytes b),
                  bd_observedQuotaBytes := firstOf quota (bd_observedQuotaBytes b)\<rparr> in
       andThen registryNow (\<lambda>at.
         case found of
           None \<Rightarrow> andThen (setBinding bindingId (b1\<lparr>bd_observedAt := Some at\<rparr>)) (\<lambda>_. throw undefinedAccess)
         | Some profile \<Rightarrow>
             let b2 = b1\<lparr>bd_observedAt := Some at,
                   bd_planSyncState := evaluatePlanSync (sp_declaredCapacityBytes profile) (bd_observedUsageBytes b1)
                     (bd_observedQuotaBytes b1) (bd_observedQuotaBytes b),
                   bd_updatedAt := at\<rparr> in
             andThen (setBinding bindingId b2) (\<lambda>_. toSummary b2))))"

definition acceptPlan :: "string \<Rightarrow> int \<Rightarrow> string option \<Rightarrow> (appStorage, bindingSummary) js" where
  "acceptPlan bindingId declared planCode =
     andThen (foundBinding bindingId) (\<lambda>b.
     andThen (profileOf b) (\<lambda>p.
     andThen registryNow (\<lambda>at.
       let p' = p\<lparr>sp_declaredCapacityBytes := Some declared,
                  sp_declaredPlanCode := (if truthy planCode then planCode else sp_declaredPlanCode p), sp_updatedAt := at\<rparr>;
           b' = b\<lparr>bd_planSyncState := evaluatePlanSync (Some declared) (bd_observedUsageBytes b) (bd_observedQuotaBytes b)
                    (bd_observedQuotaBytes b), bd_updatedAt := at\<rparr> in
       andThen (setProfile (bd_profileId b) p') (\<lambda>_.
       andThen (setBinding bindingId b') (\<lambda>_. toSummary b')))))"

definition disableBinding :: "string \<Rightarrow> (appStorage, bindingSummary) js" where
  "disableBinding bindingId =
     andThen (foundBinding bindingId) (\<lambda>b.
     andThen registryNow (\<lambda>at.
       let b' = b\<lparr>bd_disabled := True, bd_status := BindDisabled, bd_generation := bd_generation b + 1, bd_updatedAt := at\<rparr> in
       andThen (setBinding bindingId b') (\<lambda>_.
       andThen (updating (\<lambda>s. s\<lparr>ar_assumeWithoutExternalId := AList.delete bindingId (ar_assumeWithoutExternalId s)\<rparr>)) (\<lambda>_.
         toSummary b'))))"

definition deleteBinding :: "string \<Rightarrow> bool \<Rightarrow> (appStorage, bindingSummary) js" where
  "deleteBinding bindingId force =
     andThen (foundBinding bindingId) (\<lambda>b.
       if \<not> force \<and> (bd_status b = BindConnected \<or> bd_status b = BindMigrating)
       then throw (codedError ''COMMAND_REJECTED'' ''Connected or migrating bindings cannot be deleted without force.'')
       else
         andThen (reading (\<lambda>s. list_ex (\<lambda>(k, r). br_storageBindingId r = bindingId) (ar_blobs s))) (\<lambda>sticky.
           if sticky \<and> \<not> force
           then throw (codedError ''COMMAND_REJECTED'' ''Binding still referenced by sticky blob routes; disable or force-delete.'')
           else
             andThen (toSummary b) (\<lambda>summary.
             andThen (updating (\<lambda>s. s\<lparr>ar_bindings := AList.delete bindingId (ar_bindings s),
                 ar_assumeWithoutExternalId := AList.delete bindingId (ar_assumeWithoutExternalId s)\<rparr>)) (\<lambda>_.
             andThen (reading (\<lambda>s. list_ex (\<lambda>(k, x). bd_profileId x = bd_profileId b) (ar_bindings s))) (\<lambda>used.
             andThen (if used then ret ()
                 else updating (\<lambda>s. s\<lparr>ar_profiles := AList.delete (bd_profileId b) (ar_profiles s)\<rparr>)) (\<lambda>_. ret summary))))))"

definition deferred :: "string \<Rightarrow> string \<Rightarrow> storedBinding \<Rightarrow> storedBinding" where
  "deferred summary at b = b\<lparr>
     bd_status := (if bd_status b = BindConnected \<or> bd_status b = BindDraft \<or> bd_status b = BindAwaitingRole
        then BindConfigured else bd_status b),
     bd_lastProbeOk := None, bd_lastProbeAt := Some at, bd_lastProbeSummary := Some summary, bd_lastIssueClass := None,
     bd_updatedAt := at\<rparr>"

definition markProbeDeferred :: "string \<Rightarrow> string \<Rightarrow> (appStorage, bindingSummary) js" where
  "markProbeDeferred bindingId summary = changeBinding bindingId (\<lambda>_. Inr ()) (deferred summary)"

definition clearTenantOverride :: "string \<Rightarrow> (appStorage, unit) js" where
  "clearTenantOverride bindingId =
     andThen (reading (\<lambda>s. map_of (ar_bindings s) bindingId)) (\<lambda>found.
       if truthy (Option.bind found bd_applicationTenantId)
       then updating (\<lambda>s. s\<lparr>ar_bindings := AList.delete bindingId (ar_bindings s)\<rparr>)
       else throw (plainError ''Not a tenant override binding''))"

definition listBindingHistory :: "string \<Rightarrow> nat \<Rightarrow> appStorage \<Rightarrow> bindingVersion list" where
  "listBindingHistory bindingId limit s =
     take limit (sort_key (\<lambda>v. - bn_generation v) (filter (\<lambda>v. bn_bindingId v = bindingId) (ar_versions s)))"

definition restoredProfile :: "storageProfile \<Rightarrow> storedProfile \<Rightarrow> storedProfile" where
  "restoredProfile snap p = p\<lparr>sp_provider := sp_provider snap, sp_region := sp_region snap, sp_bucket := sp_bucket snap,
     sp_prefix := sp_prefix snap, sp_tier := sp_tier snap, sp_credentialMode := sp_credentialMode snap,
     sp_expectedBucketOwner := sp_expectedBucketOwner snap, sp_endpointHost := sp_endpointHost snap, sp_roleArn := sp_roleArn snap,
     sp_declaredPlanCode := sp_declaredPlanCode snap, sp_declaredCapacityBytes := sp_declaredCapacityBytes snap\<rparr>"

definition rollbackBinding :: "string \<Rightarrow> string \<Rightarrow> (appStorage, bindingSummary) js" where
  "rollbackBinding bindingId actorId =
     andThen (foundBinding bindingId) (\<lambda>b.
     andThen (reading (\<lambda>s. find (\<lambda>v. bn_generation v < bd_generation b) (listBindingHistory bindingId 2 s))) (\<lambda>previous.
       case previous of
         None \<Rightarrow> throw (plainError ''No previous binding version'')
       | Some v \<Rightarrow>
           andThen (profileOf b) (\<lambda>p.
           andThen registryNow (\<lambda>at.
             let b' = b\<lparr>bd_generation := bd_generation b + 1, bd_status := BindConfigured, bd_lastProbeOk := None,
                   bd_disabled := False, bd_updatedAt := at\<rparr> in
             andThen (setProfile (bd_profileId b) ((restoredProfile (bs_profile (bn_snapshot v)) p)\<lparr>sp_updatedAt := at\<rparr>)) (\<lambda>_.
             andThen (setBinding bindingId b') (\<lambda>_.
             andThen (toSummary b') (\<lambda>summary.
             andThen (pushVersion b' summary actorId at) (\<lambda>_. ret summary))))))))"

definition beginMigrate :: "string \<Rightarrow> (appStorage, bindingSummary) js" where
  "beginMigrate bindingId = changeBinding bindingId
     (\<lambda>b. check (bd_status b = BindConnected) (plainError ''Migrate requires Connected source binding''))
     (\<lambda>at b. b\<lparr>bd_status := BindMigrating, bd_generation := bd_generation b + 1, bd_updatedAt := at\<rparr>)"

definition moveRoute :: "storedBinding \<Rightarrow> string \<times> string \<Rightarrow> (appStorage, unit) js" where
  "moveRoute target = (\<lambda>(objectId, sha256).
     andThen (reading (\<lambda>s. map_of (ar_blobs s) objectId)) (\<lambda>route.
       case route of
         None \<Rightarrow> throw (codedError ''MIGRATE_DIGEST_MISMATCH'' ''Migrate cutover refused: digest mismatch'')
       | Some r \<Rightarrow>
           if br_sha256 r \<noteq> sha256
           then throw (codedError ''MIGRATE_DIGEST_MISMATCH'' ''Migrate cutover refused: digest mismatch'')
           else updating (\<lambda>s. s\<lparr>ar_blobs := AList.update objectId
             (r\<lparr>br_storageBindingId := bd_id target, br_storageBindingGeneration := bd_generation target\<rparr>) (ar_blobs s)\<rparr>)))"

definition cutoverMigrate :: "string \<Rightarrow> string \<Rightarrow> (string \<times> string) list \<Rightarrow> string \<Rightarrow> (appStorage, bindingSummary) js" where
  "cutoverMigrate sourceId targetId objectDigests actorId =
     andThen (foundBinding sourceId) (\<lambda>source.
     andThen (foundBinding targetId) (\<lambda>target.
       if bd_status source \<noteq> BindMigrating then throw (plainError ''Source binding is not migrating'')
       else if bd_status target \<noteq> BindConnected then throw (plainError ''Target binding must be Connected before cutover'')
       else
         andThen (forEach objectDigests (moveRoute target)) (\<lambda>_.
         andThen registryNow (\<lambda>at.
         andThen (setBinding sourceId (source\<lparr>bd_status := BindConnected, bd_updatedAt := at\<rparr>)) (\<lambda>_.
         andThen registryNow (\<lambda>later.
           let t' = target\<lparr>bd_generation := bd_generation target + 1, bd_updatedAt := later\<rparr> in
           andThen (setBinding targetId t') (\<lambda>_.
           andThen (toSummary t') (\<lambda>summary.
           andThen (pushVersion t' summary actorId later) (\<lambda>_. ret summary)))))))))"

definition probeTempObjectKey :: "string \<Rightarrow> string \<Rightarrow> (appStorage, string) js" where
  "probeTempObjectKey bindingId probeId =
     andThen (foundBinding bindingId) (\<lambda>b.
     andThen (profileOf b) (\<lambda>p.
       let prefix = (if sp_prefix p = [] then []
             else (if last (sp_prefix p) = CHR ''/'' then butlast (sp_prefix p) else sp_prefix p) @ ''/'') in
       ret (prefix @ ''.trust-probe/'' @ bindingId @ ''/'' @ probeId)))"

section \<open>Resolution\<close>

definition noRoute :: "inheritedFrom \<Rightarrow> routeScope \<Rightarrow> bool \<Rightarrow> string \<Rightarrow> resolveResult" where
  "noRoute inherited scope allowWrite reason = \<lparr>rv_bindingId = None, rv_generation = None, rv_inheritedFrom = inherited,
     rv_scope = scope, rv_status = None, rv_allowWrite = allowWrite, rv_reason = Some reason, rv_profile = None\<rparr>"

definition gate :: "storedBinding \<Rightarrow> inheritedFrom \<Rightarrow> routeScope \<Rightarrow> routingContext \<Rightarrow> appStorage \<Rightarrow> resolveResult" where
  "gate b inherited scope ctx s =
     (let result = (\<lambda>status allowWrite reason. \<lparr>rv_bindingId = Some (bd_id b), rv_generation = Some (bd_generation b),
            rv_inheritedFrom = inherited, rv_scope = scope, rv_status = Some status, rv_allowWrite = allowWrite,
            rv_reason = reason, rv_profile = map_of (ar_profiles s) (bd_profileId b)\<rparr>) in
      if bd_disabled b then result BindDisabled False (Some ''disabled'')
      else if bd_status b = BindMigrating \<and> rx_bindingGeneration ctx \<noteq> None
           \<and> rx_bindingGeneration ctx \<noteq> Some (bd_generation b)
      then result (bd_status b) False (Some ''epoch_mismatch'')
      else if bd_status b = BindMigrating \<and> rx_purpose ctx = ForIngest
      then result (bd_status b) False (Some ''migrate_quarantine'')
      else if bd_status b = BindConnected then result (bd_status b) True None
      else result (bd_status b) False (Some ''not_connected''))"

definition stickyRoute :: "routingContext \<Rightarrow> appStorage \<Rightarrow> resolveResult option" where
  "stickyRoute ctx s =
     (if \<not> truthy (rx_blobStorageBindingId ctx) then None
      else (case Option.bind (rx_blobStorageBindingId ctx) (map_of (ar_bindings s)) of
              None \<Rightarrow> None
            | Some b \<Rightarrow>
                if bd_workspaceId b = rx_workspaceId ctx
                then Some \<lparr>rv_bindingId = Some (bd_id b), rv_generation = Some (bd_generation b), rv_inheritedFrom = FromNone,
                       rv_scope = (if truthy (bd_applicationTenantId b) then RouteTenant else RouteApp),
                       rv_status = Some (if bd_disabled b then BindDisabled else bd_status b), rv_allowWrite = False,
                       rv_reason = Some ''sticky_read'', rv_profile = map_of (ar_profiles s) (bd_profileId b)\<rparr>
                else None))"

definition inactiveTenant :: "routingContext \<Rightarrow> string \<Rightarrow> string \<Rightarrow> appStorage \<Rightarrow> resolveResult option" where
  "inactiveTenant ctx application tenantId s =
     (case map_of (ar_tenants s) tenantId of
        None \<Rightarrow> None
      | Some t \<Rightarrow>
          if at_workspaceId t = rx_workspaceId ctx \<and> at_applicationId t = application \<and> at_status t \<noteq> TenantActive
             \<and> (rx_purpose ctx = ForIngest \<or> rx_purpose ctx = ForProbe)
          then Some (noRoute FromNone RouteTenant False
                 (if at_status t = TenantSuspended then ''tenant_suspended'' else ''tenant_closed''))
          else None)"

text \<open>The default of the application, and behind it the platform.\<close>

definition appRoute :: "routingContext \<Rightarrow> bool \<Rightarrow> appStorage \<Rightarrow> resolveResult" where
  "appRoute ctx tenantKnown s =
     (let platform = noRoute FromPlatform RoutePlatform (rx_purpose ctx = ForIngest \<or> rx_purpose ctx = ForProbe) ''platform_fallback'' in
      if truthy (rx_applicationId ctx)
      then (case bindingAt (rx_workspaceId ctx) (the (rx_applicationId ctx)) None (ar_bindings s) of
              Some (k, b) \<Rightarrow> gate b (if tenantKnown then FromApp else FromNone) RouteApp ctx s
            | None \<Rightarrow> platform)
      else platform)"

definition tenantRoute :: "routingContext \<Rightarrow> string option \<Rightarrow> appStorage \<Rightarrow> resolveResult" where
  "tenantRoute ctx tenant s =
     (if truthy tenant \<and> truthy (rx_applicationId ctx)
      then (case inactiveTenant ctx (the (rx_applicationId ctx)) (the tenant) s of
              Some r \<Rightarrow> r
            | None \<Rightarrow>
                (case bindingAt (rx_workspaceId ctx) (the (rx_applicationId ctx)) tenant (ar_bindings s) of
                   Some (k, b) \<Rightarrow> gate b FromNone RouteTenant ctx s
                 | None \<Rightarrow> appRoute ctx True s))
      else appRoute ctx (truthy tenant) s)"

definition resolve :: "routingContext \<Rightarrow> appStorage \<Rightarrow> resolveResult" where
  "resolve ctx s =
     (case stickyRoute ctx s of
        Some r \<Rightarrow> r
      | None \<Rightarrow>
          if truthy (rx_externalTenantKey ctx) \<and> truthy (rx_applicationId ctx) \<and> \<not> truthy (rx_applicationTenantId ctx)
          then noRoute FromPlatform RoutePlatform False ''tenant_spoof_rejected''
          else if \<not> truthy (rx_applicationTenantId ctx) \<and> truthy (rx_applicationId ctx) \<and> truthy (rx_externalTenantKey ctx)
          then (case mapExternalTenantKey (rx_workspaceId ctx) (the (rx_applicationId ctx)) (the (rx_externalTenantKey ctx)) s of
                  None \<Rightarrow> noRoute FromPlatform RoutePlatform False ''unknown_external_tenant''
                | Some i \<Rightarrow>
                    if i = [] then noRoute FromPlatform RoutePlatform False ''unknown_external_tenant''
                    else tenantRoute ctx (Some i) s)
          else tenantRoute ctx (rx_applicationTenantId ctx) s)"

section \<open>Sticky routes and reports\<close>

definition commitBlob :: "string \<Rightarrow> string \<Rightarrow> string \<Rightarrow> string \<Rightarrow> int \<Rightarrow> (appStorage, unit) js" where
  "commitBlob objectId workspaceId sha256 bindingId generation =
     updating (\<lambda>s. s\<lparr>ar_blobs := AList.update objectId \<lparr>br_objectId = objectId, br_workspaceId = workspaceId, br_sha256 = sha256,
       br_storageBindingId = bindingId, br_storageBindingGeneration = generation\<rparr> (ar_blobs s)\<rparr>)"

definition readBlobRoute :: "string \<Rightarrow> appStorage \<Rightarrow> blobStickyRoute option" where
  "readBlobRoute objectId s = map_of (ar_blobs s) objectId"

record effectiveStorage =
  ef_scope :: routeScope
  ef_status :: "bindingStatus option"
  ef_inheritedFrom :: inheritedFrom
  ef_binding :: "bindingSummary option"
  ef_cataloguedObjects :: int
  ef_failedVerificationObjects :: int
  ef_costPosture :: costPostureKind
  ef_planSyncState :: planSyncState
  ef_declaredCapacityBytes :: "int option"
  ef_observedUsageBytes :: "int option"
  ef_observedQuotaBytes :: "int option"

text \<open>
  The fields provider, tier, region, bucket, prefix and credential mode are those of the profile in
  \<open>ef_binding\<close>, or \<open>null\<close> without one; the record does not repeat them.
\<close>

definition effectiveSummary :: "string \<Rightarrow> string \<Rightarrow> string option \<Rightarrow> int option \<Rightarrow> int option \<Rightarrow> (appStorage, effectiveStorage) js" where
  "effectiveSummary workspaceId applicationId tenant objects failed =
     andThen (reading (resolve \<lparr>rx_workspaceId = workspaceId, rx_applicationId = Some applicationId,
         rx_applicationTenantId = (if truthy tenant then tenant else None), rx_externalTenantKey = None, rx_purpose = ForProbe,
         rx_blobStorageBindingId = None, rx_bindingGeneration = None\<rparr>)) (\<lambda>r.
     andThen (if truthy (rv_bindingId r)
              then andThen (reading (\<lambda>s. map_of (ar_bindings s) (the (rv_bindingId r)))) (\<lambda>b.
                     case b of None \<Rightarrow> throw undefinedAccess | Some b \<Rightarrow> andThen (toSummary b) (\<lambda>x. ret (Some x)))
              else ret None) (\<lambda>binding.
       ret \<lparr>ef_scope = rv_scope r, ef_status = rv_status r, ef_inheritedFrom = rv_inheritedFrom r, ef_binding = binding,
            ef_cataloguedObjects = (case objects of None \<Rightarrow> 0 | Some n \<Rightarrow> n),
            ef_failedVerificationObjects = (case failed of None \<Rightarrow> 0 | Some n \<Rightarrow> n),
            ef_costPosture = (case binding of None \<Rightarrow> CostUnknown | Some x \<Rightarrow> bs_costPosture x),
            ef_planSyncState = (case binding of None \<Rightarrow> PlanUnknown | Some x \<Rightarrow> bs_planSyncState x),
            ef_declaredCapacityBytes = Option.bind binding (\<lambda>x. sp_declaredCapacityBytes (bs_profile x)),
            ef_observedUsageBytes = Option.bind binding bs_observedUsageBytes,
            ef_observedQuotaBytes = Option.bind binding bs_observedQuotaBytes\<rparr>))"

record rollupIssue =
  ri_applicationTenantId :: "string option"
  ri_externalTenantKey :: "string option"
  ri_issueClass :: "string option"
  ri_summary :: string

record applicationRollup =
  ru_applicationId :: string
  ru_applicationName :: string
  ru_connected :: int
  ru_attention :: int
  ru_configured :: int
  ru_notSetUp :: int
  ru_topIssues :: "rollupIssue list"

primrec bindingStatus_text :: "bindingStatus \<Rightarrow> string" where
  "bindingStatus_text BindDraft = ''draft''"
| "bindingStatus_text BindAwaitingRole = ''awaiting_customer_role''"
| "bindingStatus_text BindConfigured = ''configured''"
| "bindingStatus_text BindConnected = ''connected''"
| "bindingStatus_text BindNeedsAttention = ''needs_attention''"
| "bindingStatus_text BindDisabled = ''disabled''"
| "bindingStatus_text BindMigrating = ''migrating''"

definition needsAttention :: "storedBinding \<Rightarrow> bool" where
  "needsAttention b = (bd_status b \<noteq> BindConnected \<and> bd_status b \<noteq> BindConfigured \<and> bd_status b \<noteq> BindAwaitingRole)"

definition rollupOf :: "appStorage \<Rightarrow> string \<Rightarrow> string \<times> string \<Rightarrow> applicationRollup" where
  "rollupOf s workspaceId = (\<lambda>(i, name).
     let related = filter (\<lambda>b. bd_workspaceId b = workspaceId \<and> bd_applicationId b = i) (map snd (ar_bindings s));
         issues = map (\<lambda>b. \<lparr>ri_applicationTenantId = bd_applicationTenantId b,
              ri_externalTenantKey = (if truthy (bd_applicationTenantId b)
                 then map_option at_externalTenantKey (map_of (ar_tenants s) (the (bd_applicationTenantId b))) else None),
              ri_issueClass = bd_lastIssueClass b,
              ri_summary = textOr (bd_lastProbeSummary b) (bindingStatus_text (bd_status b))\<rparr>) (filter needsAttention related) in
     \<lparr>ru_applicationId = i, ru_applicationName = name,
      ru_connected = int (length (filter (\<lambda>b. bd_status b = BindConnected) related)),
      ru_attention = int (length issues),
      ru_configured = int (length (filter (\<lambda>b. bd_status b = BindConfigured \<or> bd_status b = BindAwaitingRole) related)),
      ru_notSetUp = (if related = [] then 1 else 0), ru_topIssues = take 5 issues\<rparr>)"

text \<open>The platform status and its summary are returned as they are given.\<close>

definition rollup :: "string \<Rightarrow> (string \<times> string) list \<Rightarrow> appStorage \<Rightarrow> applicationRollup list \<times> int" where
  "rollup workspaceId applications s =
     (let items = map (rollupOf s workspaceId) applications in (items, sum_list (map ru_attention items)))"

definition hexDash :: "char \<Rightarrow> bool" where
  "hexDash c = (let d = ascii_lower c in lower_hex d \<or> d = CHR ''-'')"

definition keyIdChar :: "char \<Rightarrow> bool" where
  "keyIdChar c = (let n = (of_char (ascii_lower c) :: nat) in 48 \<le> n \<and> n \<le> 57 \<or> 97 \<le> n \<and> n \<le> 122)"

text \<open>The pattern at the head of a text, without regard to case.\<close>

definition secretHere :: "string \<Rightarrow> bool" where
  "secretHere t =
     (let low = map ascii_lower t in
      startsWith low (''externalid'' @ [CHR 0x22, CHR 0x3A, CHR 0x22]) \<and> length (takeWhile hexDash (drop 13 t)) \<ge> 36
      \<or> startsWith low ''sessiontoken'' \<or> startsWith low ''secretaccesskey''
      \<or> startsWith low ''akia'' \<and> length (takeWhile keyIdChar (drop 4 t)) \<ge> 16)"

text \<open>\<open>assertNoSecrets\<close> on the JSON text of a payload.\<close>

definition assertNoSecrets :: "string \<Rightarrow> js_error + unit" where
  "assertNoSecrets payload =
     check (\<not> list_ex secretHere (suffixes payload)) (plainError ''Secret material leaked into public payload'')"

datatype tenantKeyMode = PoolMode | SiloMode

definition canonicalAppTenantObjectKey :: "string \<Rightarrow> string \<Rightarrow> string \<Rightarrow> string \<Rightarrow> tenantKeyMode \<Rightarrow> string" where
  "canonicalAppTenantObjectKey workspaceId applicationId tenantKey sha256 mode =
     (let digest = map ascii_lower sha256;
          leaf = ''objects/'' @ take 2 digest @ ''/'' @ digest in
      if mode = SiloMode then ''apps/'' @ applicationId @ ''/tenants/'' @ tenantKey @ ''/'' @ leaf
      else ''workspaces/'' @ workspaceId @ ''/apps/'' @ applicationId @ ''/tenants/'' @ tenantKey @ ''/'' @ leaf)"

section \<open>The router\<close>

text \<open>
  Where a request goes: to the storage of the platform, or to one made from a profile. The
  constructors of storages and signers, which call client libraries, are arguments that may fail.
\<close>

datatype ('p, 'b) chosenStorage = OnPlatform 'p | OnBinding 'b

record ('p, 'b) storageRoute =
  ro_storage :: "('p, 'b) chosenStorage"
  ro_bindingId :: "string option"
  ro_generation :: "int option"
  ro_reason :: "string option"

record ('p, 'b) routerOptions =
  op_enabled :: bool
  op_platform :: 'p
  op_create :: "storedProfile \<Rightarrow> 'b option"

definition onPlatform :: "('p, 'b) routerOptions \<Rightarrow> string \<Rightarrow> ('p, 'b) storageRoute" where
  "onPlatform opts reason = \<lparr>ro_storage = OnPlatform (op_platform opts), ro_bindingId = None, ro_generation = None,
     ro_reason = Some reason\<rparr>"

definition forIngest :: "('p, 'b) routerOptions \<Rightarrow> (routingContext \<Rightarrow> resolveResult) \<Rightarrow> routingContext \<Rightarrow> js_error + ('p, 'b) storageRoute" where
  "forIngest opts resolveRoute ctx =
     (if \<not> op_enabled opts \<or> \<not> truthy (rx_applicationId ctx) then Inr (onPlatform opts ''platform_default'')
      else
        (let r = resolveRoute ctx in
         case rv_profile r of
           None \<Rightarrow> Inr (onPlatform opts (textOr (rv_reason r) ''platform_fallback''))
         | Some profile \<Rightarrow>
             if rv_inheritedFrom r = FromPlatform \<or> \<not> truthy (rv_bindingId r)
             then Inr (onPlatform opts (textOr (rv_reason r) ''platform_fallback''))
             else if \<not> rv_allowWrite r
             then Inl (codedError ''COMMAND_REJECTED'' (''Storage routing denied for ingest ('' @ textOr (rv_reason r) ''not_connected'' @ '').''))
             else (case op_create opts profile of
                     None \<Rightarrow> Inl (codedError ''COMMAND_REJECTED'' ''Binding ObjectStorage could not be constructed (credential mode unsupported or host credentials missing).'')
                   | Some st \<Rightarrow> Inr \<lparr>ro_storage = OnBinding st, ro_bindingId = rv_bindingId r, ro_generation = rv_generation r,
                       ro_reason = rv_reason r\<rparr>)))"

definition forDownload ::
  "('p, 'b) routerOptions \<Rightarrow> (routingContext \<Rightarrow> resolveResult) \<Rightarrow> string \<Rightarrow> string option \<Rightarrow> js_error + ('p, 'b) storageRoute" where
  "forDownload opts resolveRoute workspaceId blobBinding =
     (if \<not> op_enabled opts \<or> \<not> truthy blobBinding then Inr (onPlatform opts ''platform_default'')
      else
        (let r = resolveRoute \<lparr>rx_workspaceId = workspaceId, rx_applicationId = None, rx_applicationTenantId = None,
               rx_externalTenantKey = None, rx_purpose = ForDownload, rx_blobStorageBindingId = blobBinding,
               rx_bindingGeneration = None\<rparr> in
         case rv_profile r of
           None \<Rightarrow> Inr (onPlatform opts (textOr (rv_reason r) ''platform_fallback''))
         | Some profile \<Rightarrow>
             if \<not> truthy (rv_bindingId r) then Inr (onPlatform opts (textOr (rv_reason r) ''platform_fallback''))
             else (case op_create opts profile of
                     None \<Rightarrow> Inl (codedError ''COMMAND_REJECTED'' ''Binding transfer signer could not be constructed for sticky download.'')
                   | Some st \<Rightarrow> Inr \<lparr>ro_storage = OnBinding st, ro_bindingId = rv_bindingId r, ro_generation = rv_generation r,
                       ro_reason = rv_reason r\<rparr>)))"

end
