(* ===== verification/AppRegistry.thy ===== *)
theory AppRegistry
  imports AppStorage
begin

text \<open>
  What the registry of \<open>AppStorage\<close> keeps over every sequence of calls, what a resolved route is
  worth, and where router and cutover do not do what their comments say.
\<close>

section \<open>Steps\<close>

inductive registry_step :: "appStorage \<Rightarrow> appStorage \<Rightarrow> bool" where
  tenant_created: "createTenant w a x d s = (r, t) \<Longrightarrow> registry_step s t"
| tenant_updated: "updateTenant w a i d e s = (r, t) \<Longrightarrow> registry_step s t"
| tenant_status: "setTenantStatus w a i st e s = (r, t) \<Longrightarrow> registry_step s t"
| upserted: "upsertBinding c actor s = (ru, t) \<Longrightarrow> registry_step s t"
| revealed: "revealExternalId i s = (rx, t) \<Longrightarrow> registry_step s t"
| hardened: "runHandshakeHardening i s = (rh, t) \<Longrightarrow> registry_step s t"
| probe_recorded: "recordProbe i inp s = (rs, t) \<Longrightarrow> registry_step s t"
| plan_refreshed: "refreshPlan i usage quota s = (rs, t) \<Longrightarrow> registry_step s t"
| plan_accepted: "acceptPlan i n code s = (rs, t) \<Longrightarrow> registry_step s t"
| disabled: "disableBinding i s = (rs, t) \<Longrightarrow> registry_step s t"
| deleted: "deleteBinding i force s = (rs, t) \<Longrightarrow> registry_step s t"
| probe_deferred: "markProbeDeferred i summary s = (rs, t) \<Longrightarrow> registry_step s t"
| override_cleared: "clearTenantOverride i s = (rc, t) \<Longrightarrow> registry_step s t"
| rolled_back: "rollbackBinding i actor s = (rs, t) \<Longrightarrow> registry_step s t"
| migrating: "beginMigrate i s = (rs, t) \<Longrightarrow> registry_step s t"
| cut_over: "cutoverMigrate i j digests actor s = (rs, t) \<Longrightarrow> registry_step s t"
| committed: "commitBlob x w h i n s = (rc, t) \<Longrightarrow> registry_step s t"

section \<open>The invariant\<close>

definition scopeOf :: "storedBinding \<Rightarrow> string \<times> string \<times> string option" where
  "scopeOf b = (bd_workspaceId b, bd_applicationId b, bd_applicationTenantId b)"

definition usedIds :: "appStorage \<Rightarrow> string set" where
  "usedIds s = idAt (ar_ambient s) ` {..<idCount (ar_ambient s)}"

text \<open>
  Bindings are stored under their identifiers, one for each scope, and each has a profile of its own;
  identifiers come from the source of identifiers, which never repeats one.
\<close>

definition boundOk :: "appStorage \<Rightarrow> string \<Rightarrow> storedBinding \<Rightarrow> bool" where
  "boundOk s k b \<longleftrightarrow> bd_id b = k \<and> 1 \<le> bd_generation b \<and> map_of (ar_profiles s) (bd_profileId b) \<noteq> None"

definition apart :: "storedBinding \<Rightarrow> storedBinding \<Rightarrow> bool" where
  "apart b c \<longleftrightarrow> scopeOf b \<noteq> scopeOf c \<and> bd_profileId b \<noteq> bd_profileId c"

definition registryOk :: "appStorage \<Rightarrow> bool" where
  "registryOk s \<longleftrightarrow> distinct (map fst (ar_bindings s)) \<and> distinct (map fst (ar_profiles s))
     \<and> (\<forall>k b. map_of (ar_bindings s) k = Some b \<longrightarrow> boundOk s k b)
     \<and> (\<forall>k j b c. map_of (ar_bindings s) k = Some b \<longrightarrow> map_of (ar_bindings s) j = Some c \<longrightarrow> k \<noteq> j \<longrightarrow> apart b c)
     \<and> (\<forall>k p. map_of (ar_profiles s) k = Some p \<longrightarrow> sp_id p = k)
     \<and> fst ` set (ar_bindings s) \<subseteq> usedIds s \<and> fst ` set (ar_profiles s) \<subseteq> usedIds s
     \<and> inj (idAt (ar_ambient s))"

text \<open>Where the objects of a binding are, and with which credentials they are reached.\<close>

definition locationOf :: "('a) storageProfile_scheme \<Rightarrow> string \<times> string \<times> string \<times> string \<times> bindingTier \<times> credentialMode
    \<times> string option \<times> string option \<times> string option" where
  "locationOf p = (sp_provider p, sp_region p, sp_bucket p, sp_prefix p, sp_tier p, sp_credentialMode p,
     sp_expectedBucketOwner p, sp_endpointHost p, sp_roleArn p)"

definition placeOf :: "appStorage \<Rightarrow> storedBinding \<Rightarrow> (string \<times> string \<times> string \<times> string \<times> bindingTier \<times> credentialMode
    \<times> string option \<times> string option \<times> string option) option" where
  "placeOf s b = map_option locationOf (map_of (ar_profiles s) (bd_profileId b))"

text \<open>How a binding may change: it keeps its scope and profile, and a new location means a new generation.\<close>

definition bindingEvolves :: "appStorage \<Rightarrow> storedBinding \<Rightarrow> appStorage \<Rightarrow> storedBinding \<Rightarrow> bool" where
  "bindingEvolves s b t c \<longleftrightarrow> scopeOf c = scopeOf b \<and> bd_profileId c = bd_profileId b
     \<and> bd_generation b \<le> bd_generation c \<and> (placeOf t c \<noteq> placeOf s b \<longrightarrow> bd_generation b < bd_generation c)"

definition evolves :: "appStorage \<Rightarrow> appStorage \<Rightarrow> bool" where
  "evolves s t \<longleftrightarrow> usedIds s \<subseteq> usedIds t
     \<and> (\<forall>k c. map_of (ar_bindings t) k = Some c \<longrightarrow>
          (case map_of (ar_bindings s) k of None \<Rightarrow> k \<notin> usedIds s | Some b \<Rightarrow> bindingEvolves s b t c))"

lemma registryOkD:
  assumes "registryOk s"
  shows "distinct (map fst (ar_bindings s))" "distinct (map fst (ar_profiles s))"
    "map_of (ar_bindings s) k = Some b \<Longrightarrow> boundOk s k b"
    "map_of (ar_bindings s) k = Some b \<Longrightarrow> map_of (ar_bindings s) j = Some c \<Longrightarrow> k \<noteq> j \<Longrightarrow> apart b c"
    "map_of (ar_profiles s) k = Some p \<Longrightarrow> sp_id p = k"
    "fst ` set (ar_bindings s) \<subseteq> usedIds s" "fst ` set (ar_profiles s) \<subseteq> usedIds s" "inj (idAt (ar_ambient s))"
  using assms unfolding registryOk_def by simp_all

lemma bound_used: "registryOk s \<Longrightarrow> map_of (ar_bindings s) k = Some b \<Longrightarrow> k \<in> usedIds s"
  using registryOkD(6) [of s] by (metis map_of_SomeD fst_conv image_eqI subsetD)

lemma profile_used: "registryOk s \<Longrightarrow> map_of (ar_profiles s) k = Some p \<Longrightarrow> k \<in> usedIds s"
  using registryOkD(7) [of s] by (metis map_of_SomeD fst_conv image_eqI subsetD)

lemma evolves_refl: "evolves s s"
  by (auto simp: evolves_def bindingEvolves_def split: option.splits)

lemma evolves_trans:
  assumes "evolves s t" and "evolves t u" and "registryOk s"
  shows "evolves s u"
proof -
  have "case map_of (ar_bindings s) k of None \<Rightarrow> k \<notin> usedIds s | Some b \<Rightarrow> bindingEvolves s b u d"
    if d: "map_of (ar_bindings u) k = Some d" for k d
  proof (cases "map_of (ar_bindings t) k")
    case None
    then have "k \<notin> usedIds t" using assms(2) d unfolding evolves_def by (metis option.simps(4))
    then have "k \<notin> usedIds s" using assms(1) by (auto simp: evolves_def)
    moreover then have "map_of (ar_bindings s) k = None" using bound_used [OF assms(3)] by (metis not_None_eq)
    ultimately show ?thesis by simp
  next
    case (Some c)
    then have c: "bindingEvolves t c u d" using assms(2) d unfolding evolves_def by (metis option.simps(5))
    have b: "case map_of (ar_bindings s) k of None \<Rightarrow> k \<notin> usedIds s | Some b \<Rightarrow> bindingEvolves s b t c"
      using assms(1) Some unfolding evolves_def by blast
    show ?thesis
    proof (cases "map_of (ar_bindings s) k")
      case (Some b')
      with b have "bindingEvolves s b' t c" by simp
      with c have "bindingEvolves s b' u d" unfolding bindingEvolves_def by (metis le_less_trans less_le_trans order_trans)
      with Some show ?thesis by simp
    qed (use b in simp)
  qed
  moreover have "usedIds s \<subseteq> usedIds u" using assms(1,2) unfolding evolves_def by blast
  ultimately show ?thesis unfolding evolves_def by blast
qed

text \<open>The source of identifiers only moves on.\<close>

definition idsMove :: "appStorage \<Rightarrow> appStorage \<Rightarrow> bool" where
  "idsMove s t \<longleftrightarrow> idAt (ar_ambient t) = idAt (ar_ambient s) \<and> idCount (ar_ambient s) \<le> idCount (ar_ambient t)"

lemma idsMove_used: "idsMove s t \<Longrightarrow> usedIds s \<subseteq> usedIds t"
  by (auto simp: idsMove_def usedIds_def)

definition stepSafe :: "appStorage \<Rightarrow> appStorage \<Rightarrow> bool" where
  "stepSafe s t \<longleftrightarrow> registryOk t \<and> evolves s t"

lemma same_safe:
  assumes "registryOk s" and "ar_bindings t = ar_bindings s" and "ar_profiles t = ar_profiles s" and "idsMove s t"
  shows "stepSafe s t"
proof -
  note used = idsMove_used [OF assms(4)]
  have same: "boundOk t = boundOk s" "placeOf t = placeOf s"
    by (simp_all add: fun_eq_iff boundOk_def placeOf_def assms(3))
  have "registryOk t"
    unfolding registryOk_def assms(2,3) same
    using registryOkD [OF assms(1)] used assms(4) by (auto simp: idsMove_def)
  moreover have "evolves s t"
    unfolding evolves_def assms(2) using used by (auto simp: bindingEvolves_def same split: option.splits)
  ultimately show ?thesis by (simp add: stepSafe_def)
qed

text \<open>A binding is replaced, and its profile with it.\<close>

lemma replace_both_safe:
  assumes ok: "registryOk s" and b: "map_of (ar_bindings s) k = Some b"
    and bs: "ar_bindings t = AList.update k b' (ar_bindings s)"
    and ps: "map_of (ar_profiles t) = (map_of (ar_profiles s))(bd_profileId b \<mapsto> p')" "distinct (map fst (ar_profiles t))"
      "fst ` set (ar_profiles t) = fst ` set (ar_profiles s)" "sp_id p' = bd_profileId b"
    and same: "bd_id b' = bd_id b" "scopeOf b' = scopeOf b" "bd_profileId b' = bd_profileId b"
    and gen: "bd_generation b \<le> bd_generation b'" "placeOf s b = Some (locationOf p') \<or> bd_generation b < bd_generation b'"
    and ids: "idsMove s t"
  shows "stepSafe s t"
proof -
  have view: "map_of (ar_bindings t) = (map_of (ar_bindings s))(k \<mapsto> b')" unfolding bs by (rule update_conv')
  have apart_other: "bd_profileId c \<noteq> bd_profileId b \<and> apart b' c \<and> apart c b'" if "map_of (ar_bindings s) j = Some c" "j \<noteq> k" for j c
    using registryOkD(4) [OF ok b that(1)] that(2) same by (auto simp: apart_def)
  have place: "placeOf t c = placeOf s c" if "map_of (ar_bindings s) j = Some c" "j \<noteq> k" for j c
    using apart_other [OF that] by (simp add: placeOf_def ps(1))
  have bound: "boundOk t j c" if c: "map_of (ar_bindings t) j = Some c" for j c
  proof (cases "j = k")
    case True
    then show ?thesis using c registryOkD(3) [OF ok b] same gen by (auto simp: view boundOk_def ps(1))
  next
    case False
    then have "map_of (ar_bindings s) j = Some c" using c by (simp add: view)
    then show ?thesis using registryOkD(3) [OF ok] by (fastforce simp: boundOk_def ps(1))
  qed
  have far: "apart c d" if "map_of (ar_bindings t) i = Some c" "map_of (ar_bindings t) j = Some d" "i \<noteq> j" for i j c d
    using that apart_other registryOkD(4) [OF ok] by (auto simp: view split: if_splits)
  have keyed: "sp_id p = j" if "map_of (ar_profiles t) j = Some p" for j p
    using that registryOkD(5) [OF ok] ps(4) by (auto simp: ps(1) split: if_splits)
  have keys: "fst ` set (ar_bindings t) = fst ` set (ar_bindings s)"
    using b unfolding bs by (auto simp: dom_update [symmetric] dom_map_of_conv_image_fst [symmetric] update_conv')
  have "registryOk t"
    unfolding registryOk_def
    using bound far keyed keys ps(2,3) registryOkD(1,6,7,8) [OF ok] idsMove_used [OF ids] ids
    by (auto simp: bs distinct_update idsMove_def)
  moreover have "bindingEvolves s b t b'"
    using same gen by (auto simp: bindingEvolves_def placeOf_def ps(1))
  then have "evolves s t"
    unfolding evolves_def using place idsMove_used [OF ids] b
    by (auto simp: view bindingEvolves_def split: option.splits if_splits)
  ultimately show ?thesis by (simp add: stepSafe_def)
qed

lemma replace_safe:
  assumes ok: "registryOk s" and b: "map_of (ar_bindings s) k = Some b"
    and bs: "ar_bindings t = AList.update k b' (ar_bindings s)" and ps: "ar_profiles t = ar_profiles s"
    and same: "bd_id b' = bd_id b" "scopeOf b' = scopeOf b" "bd_profileId b' = bd_profileId b"
    and gen: "bd_generation b \<le> bd_generation b'" and ids: "idsMove s t"
  shows "stepSafe s t"
proof -
  obtain p where p: "map_of (ar_profiles s) (bd_profileId b) = Some p"
    using registryOkD(3) [OF ok b] by (auto simp: boundOk_def)
  show ?thesis
    by (rule replace_both_safe [OF ok b bs, of p])
      (use ok p same gen ids in \<open>auto simp: ps placeOf_def registryOkD fun_upd_idem\<close>)
qed

lemma replace_profile_safe:
  assumes ok: "registryOk s" and b: "map_of (ar_bindings s) k = Some b" and p: "map_of (ar_profiles s) (bd_profileId b) = Some p"
    and bs: "ar_bindings t = AList.update k b' (ar_bindings s)"
    and ps: "ar_profiles t = AList.update (bd_profileId b) p' (ar_profiles s)" "sp_id p' = sp_id p"
    and same: "bd_id b' = bd_id b" "scopeOf b' = scopeOf b" "bd_profileId b' = bd_profileId b"
    and gen: "bd_generation b \<le> bd_generation b'" "locationOf p' = locationOf p \<or> bd_generation b < bd_generation b'"
    and ids: "idsMove s t"
  shows "stepSafe s t"
proof (rule replace_both_safe [OF ok b bs _ _ _ _ same gen(1) _ ids, of p'])
  show "map_of (ar_profiles t) = (map_of (ar_profiles s))(bd_profileId b \<mapsto> p')" unfolding ps(1) by (rule update_conv')
  show "distinct (map fst (ar_profiles t))" using registryOkD(2) [OF ok] by (simp add: ps(1) distinct_update)
  show "fst ` set (ar_profiles t) = fst ` set (ar_profiles s)"
    using p unfolding ps(1) by (auto simp: dom_map_of_conv_image_fst [symmetric] update_conv')
  show "sp_id p' = bd_profileId b" using registryOkD(5) [OF ok p] ps(2) by simp
  show "placeOf s b = Some (locationOf p') \<or> bd_generation b < bd_generation b'" using gen(2) p by (auto simp: placeOf_def)
qed

lemma fresh_id:
  assumes "registryOk s" and "idCount (ar_ambient s) \<le> n"
  shows "idAt (ar_ambient s) n \<notin> usedIds s"
  using registryOkD(8) [OF assms(1)] assms(2) by (auto simp: usedIds_def dest: injD)

text \<open>A binding with a profile of its own is added under new identifiers.\<close>

lemma insert_safe:
  assumes ok: "registryOk s" and bs: "ar_bindings t = AList.update j b (ar_bindings s)" and ps: "ar_profiles t = AList.update i p (ar_profiles s)"
    and new: "i \<notin> usedIds s" "j \<notin> usedIds s" "i \<in> usedIds t" "j \<in> usedIds t"
    and b: "bd_id b = j" "bd_profileId b = i" "1 \<le> bd_generation b" "sp_id p = i"
    and scope: "\<And>k c. map_of (ar_bindings s) k = Some c \<Longrightarrow> scopeOf c \<noteq> scopeOf b"
    and ids: "idsMove s t"
  shows "stepSafe s t"
proof -
  have view: "map_of (ar_bindings t) = (map_of (ar_bindings s))(j \<mapsto> b)" "map_of (ar_profiles t) = (map_of (ar_profiles s))(i \<mapsto> p)"
    unfolding bs ps by (rule update_conv')+
  have other: "bd_profileId c \<noteq> i \<and> apart b c \<and> apart c b" if c: "map_of (ar_bindings s) k = Some c" for k c
  proof -
    obtain q where "map_of (ar_profiles s) (bd_profileId c) = Some q" using registryOkD(3) [OF ok c] by (auto simp: boundOk_def)
    then have "bd_profileId c \<noteq> i" using profile_used [OF ok] new(1) by metis
    then show ?thesis using scope [OF c] b(2) by (auto simp: apart_def)
  qed
  have bound: "boundOk t k c" if c: "map_of (ar_bindings t) k = Some c" for k c
    using c registryOkD(3) [OF ok, of k c] b by (auto simp: view boundOk_def split: if_splits)
  have far: "apart c d" if "map_of (ar_bindings t) k = Some c" "map_of (ar_bindings t) l = Some d" "k \<noteq> l" for k l c d
    using that other registryOkD(4) [OF ok] by (auto simp: view split: if_splits)
  have keyed: "sp_id q = k" if "map_of (ar_profiles t) k = Some q" for k q
    using that registryOkD(5) [OF ok] b(4) by (auto simp: view split: if_splits)
  have used: "fst ` set (ar_bindings t) \<subseteq> usedIds t" "fst ` set (ar_profiles t) \<subseteq> usedIds t"
    using registryOkD(6,7) [OF ok] idsMove_used [OF ids] new(3,4) unfolding bs ps
    by (auto simp: dom_map_of_conv_image_fst [symmetric] update_conv')
  have "registryOk t"
    unfolding registryOk_def using bound far keyed used registryOkD(1,2,8) [OF ok] ids
    by (auto simp: bs ps distinct_update idsMove_def)
  moreover have "placeOf t c = placeOf s c" if "map_of (ar_bindings s) k = Some c" for k c
    using other [OF that] by (simp add: placeOf_def view)
  then have "evolves s t"
    unfolding evolves_def using idsMove_used [OF ids] new(2) bound_used [OF ok]
    by (auto simp: view bindingEvolves_def split: option.splits if_splits)
  ultimately show ?thesis by (simp add: stepSafe_def)
qed

text \<open>A binding is removed, and perhaps the profile that only it used.\<close>

lemma delete_safe:
  assumes ok: "registryOk s" and bs: "ar_bindings t = AList.delete k (ar_bindings s)"
    and ps: "ar_profiles t = ar_profiles s \<or> ar_profiles t = AList.delete i (ar_profiles s)
        \<and> (\<forall>j c. map_of (ar_bindings t) j = Some c \<longrightarrow> bd_profileId c \<noteq> i)"
    and ids: "idsMove s t"
  shows "stepSafe s t"
proof -
  have view: "map_of (ar_bindings t) j = (if j = k then None else map_of (ar_bindings s) j)" for j
    unfolding bs by (simp add: delete_conv')
  have prof: "map_of (ar_profiles t) (bd_profileId c) = map_of (ar_profiles s) (bd_profileId c)"
    if "map_of (ar_bindings t) j = Some c" for j c
    using ps that by (auto simp: delete_conv')
  have bound: "boundOk t j c" if c: "map_of (ar_bindings t) j = Some c" for j c
    using c registryOkD(3) [OF ok, of j c] prof [OF c] by (auto simp: view boundOk_def split: if_splits)
  have far: "apart c d" if "map_of (ar_bindings t) l = Some c" "map_of (ar_bindings t) j = Some d" "l \<noteq> j" for l j c d
    using that registryOkD(4) [OF ok] by (auto simp: view split: if_splits)
  have keyed: "sp_id q = j" if "map_of (ar_profiles t) j = Some q" for j q
    using that registryOkD(5) [OF ok] ps by (auto simp: delete_conv' split: if_splits)
  have sub: "set (ar_bindings t) \<subseteq> set (ar_bindings s)" "set (ar_profiles t) \<subseteq> set (ar_profiles s)"
    using ps unfolding bs by (auto simp: AList.delete_eq)
  have used: "fst ` set (ar_bindings t) \<subseteq> usedIds t" "fst ` set (ar_profiles t) \<subseteq> usedIds t"
    using registryOkD(6,7) [OF ok] idsMove_used [OF ids] sub by blast+
  have "distinct (map fst (ar_profiles t))"
    using ps registryOkD(2) [OF ok] by (auto simp: distinct_delete)
  then have "registryOk t"
    unfolding registryOk_def using bound far keyed used registryOkD(1,8) [OF ok] ids
    by (auto simp: bs distinct_delete idsMove_def)
  moreover have "case map_of (ar_bindings s) j of None \<Rightarrow> j \<notin> usedIds s | Some b \<Rightarrow> bindingEvolves s b t c"
    if c: "map_of (ar_bindings t) j = Some c" for j c
  proof -
    have "map_of (ar_bindings s) j = Some c" using c by (simp add: view split: if_splits)
    then show ?thesis using prof [OF c] by (simp add: bindingEvolves_def placeOf_def)
  qed
  then have "evolves s t"
    unfolding evolves_def using idsMove_used [OF ids] by blast
  ultimately show ?thesis by (simp add: stepSafe_def)
qed

section \<open>Every operation is safe\<close>

lemma registry_runs [js_simps]:
  "registryNow s = (Inr (nowAt (ar_ambient s) (ticks (ar_ambient s))), s\<lparr>ar_ambient := snd (now (ar_ambient s))\<rparr>)"
  "registryUUID s = (Inr (idAt (ar_ambient s) (idCount (ar_ambient s))), s\<lparr>ar_ambient := snd (nextId (ar_ambient s))\<rparr>)"
  "setBinding k b s = (Inr (), s\<lparr>ar_bindings := AList.update k b (ar_bindings s)\<rparr>)"
  "setProfile k p s = (Inr (), s\<lparr>ar_profiles := AList.update k p (ar_profiles s)\<rparr>)"
  "setTenant k x s = (Inr (), s\<lparr>ar_tenants := AList.update k x (ar_tenants s)\<rparr>)"
  "foundBinding k s = (case map_of (ar_bindings s) k of None \<Rightarrow> (Inl bindingNotFound, s) | Some b \<Rightarrow> (Inr b, s))"
  "profileOf b s = (case map_of (ar_profiles s) (bd_profileId b) of None \<Rightarrow> (Inl undefinedAccess, s) | Some p \<Rightarrow> (Inr p, s))"
  by (simp_all add: registryNow_def registryUUID_def setBinding_def setProfile_def setTenant_def foundBinding_def profileOf_def
      now_def nextId_def js_simps split: option.splits)

lemma ambient_moves [simp]:
  "idAt (snd (now a)) = idAt a" "idCount (snd (now a)) = idCount a"
  "idAt (snd (nextId a)) = idAt a" "idCount (snd (nextId a)) = Suc (idCount a)"
  by (simp_all add: now_def nextId_def)

lemma toSummary_run: "toSummary b s = (case map_of (ar_profiles s) (bd_profileId b) of
    None \<Rightarrow> (Inl undefinedAccess, s) | Some p \<Rightarrow> (Inr (summaryOf b p), s))"
  by (simp add: toSummary_def js_simps split: option.splits)

lemma changeBinding_safe:
  assumes ok: "registryOk s" and run: "changeBinding i g f s = (r, t)"
    and same: "\<And>at b. bd_id (f at b) = bd_id b \<and> scopeOf (f at b) = scopeOf b \<and> bd_profileId (f at b) = bd_profileId b
       \<and> bd_generation b \<le> bd_generation (f at b)"
  shows "stepSafe s t"
proof (cases "map_of (ar_bindings s) i")
  case None
  with run have "t = s" by (simp add: changeBinding_def js_simps)
  then show ?thesis using ok by (simp add: same_safe idsMove_def)
next
  case (Some b)
  show ?thesis
  proof (cases "g b")
    case (Inl e)
    with run Some have "t = s" by (simp add: changeBinding_def js_simps)
    then show ?thesis using ok by (simp add: same_safe idsMove_def)
  next
    case (Inr u)
    let ?at = "nowAt (ar_ambient s) (ticks (ar_ambient s))"
    have t: "t = s\<lparr>ar_ambient := snd (now (ar_ambient s)), ar_bindings := AList.update i (f ?at b) (ar_bindings s)\<rparr>"
      using run Some Inr by (auto simp: changeBinding_def js_simps toSummary_run split: option.splits)
    show ?thesis
      by (rule replace_safe [OF ok Some, of _ "f ?at b"]) (use same [of ?at b] in \<open>simp_all add: t idsMove_def\<close>)
  qed
qed

lemma unchanged_safe: "registryOk s \<Longrightarrow> stepSafe s s"
  by (simp add: same_safe idsMove_def)

lemma stepSafe_trans: "registryOk s \<Longrightarrow> stepSafe s t \<Longrightarrow> stepSafe t u \<Longrightarrow> stepSafe s u"
  using evolves_trans by (auto simp: stepSafe_def)

lemma pushVersion_run [js_simps]:
  "pushVersion b x a at s = (Inr (), s\<lparr>ar_ambient := snd (nextId (ar_ambient s)), ar_versions := ar_versions s @
     [\<lparr>bn_id = idAt (ar_ambient s) (idCount (ar_ambient s)), bn_workspaceId = bd_workspaceId b, bn_bindingId = bd_id b,
       bn_generation = bd_generation b, bn_snapshot = x, bn_createdBy = a, bn_createdAt = at\<rparr>]\<rparr>)"
  by (simp add: pushVersion_def js_simps)

lemma createTenant_safe:
  assumes "registryOk s" and "createTenant w a x d s = (r, t)"
  shows "stepSafe s t"
  by (rule same_safe [OF assms(1)])
    (use assms(2) in \<open>auto simp: createTenant_def js_simps Let_def idsMove_def split: option.splits\<close>)

lemma changeTenant_safe:
  assumes "registryOk s" and "changeTenant f w a i e s = (r, t)"
  shows "stepSafe s t"
  by (rule same_safe [OF assms(1)])
    (use assms(2) in \<open>auto simp: changeTenant_def requireTenant_def js_simps Let_def idsMove_def split: option.splits sum.splits\<close>)

lemma commitBlob_safe:
  assumes "registryOk s" and "commitBlob x w h i n s = (r, t)"
  shows "stepSafe s t"
  by (rule same_safe [OF assms(1)]) (use assms(2) in \<open>auto simp: commitBlob_def js_simps idsMove_def\<close>)

text \<open>A profile is replaced by one at the same location.\<close>

lemma reveal_safe:
  assumes ok: "registryOk s" and run: "revealExternalId i s = (r, t)"
  shows "stepSafe s t"
proof (cases "ar_profiles t = ar_profiles s")
  case True
  then show ?thesis
    by (intro same_safe [OF ok])
      (use run in \<open>auto simp: revealExternalId_def js_simps idsMove_def split: option.splits if_splits\<close>)
next
  case False
  then obtain p where p: "map_of (ar_profiles s) i = Some p"
    and t: "t = s\<lparr>ar_profiles := AList.update i (p\<lparr>sp_externalIdRevealed := True\<rparr>) (ar_profiles s)\<rparr>"
    using run by (auto simp: revealExternalId_def js_simps split: option.splits if_splits)
  have keys: "fst ` set (ar_profiles t) = fst ` set (ar_profiles s)"
    using p by (auto simp: t dom_map_of_conv_image_fst [symmetric] update_conv')
  have same: "boundOk t = boundOk s" "placeOf t = placeOf s" "usedIds t = usedIds s" "ar_bindings t = ar_bindings s"
    "ar_ambient t = ar_ambient s"
    using p by (auto simp: fun_eq_iff boundOk_def placeOf_def update_conv' locationOf_def usedIds_def t)
  have "registryOk t"
    unfolding registryOk_def same keys using registryOkD [OF ok] p
    by (auto simp: update_conv' t distinct_update split: if_splits)
  moreover have "evolves s t"
    unfolding evolves_def same by (auto simp: bindingEvolves_def same split: option.splits)
  ultimately show ?thesis by (simp add: stepSafe_def)
qed

lemma hardening_safe:
  assumes ok: "registryOk s" and run: "runHandshakeHardening i s = (r, t)"
  shows "stepSafe s t"
proof (cases "t = s")
  case False
  then obtain b where b: "map_of (ar_bindings s) i = Some b"
    using run by (auto simp: runHandshakeHardening_def assertExternalIdHardening_def js_simps split: option.splits if_splits)
  show ?thesis
    by (rule replace_safe [OF ok b, of _ "the (map_of (ar_bindings t) i)"])
      (use run False b in \<open>auto simp: runHandshakeHardening_def assertExternalIdHardening_def js_simps scopeOf_def idsMove_def update_conv' split: if_splits\<close>)
qed (simp add: ok unchanged_safe)

lemma stored_profile:
  assumes "registryOk s" and "map_of (ar_bindings s) k = Some b"
  obtains p where "map_of (ar_profiles s) (bd_profileId b) = Some p"
  using registryOkD(3) [OF assms] by (auto simp: boundOk_def)

lemma refreshPlan_safe:
  assumes ok: "registryOk s" and run: "refreshPlan i u q s = (r, t)"
  shows "stepSafe s t"
proof (cases "map_of (ar_bindings s) i")
  case None
  then show ?thesis using run ok by (simp add: refreshPlan_def js_simps unchanged_safe)
next
  case (Some b)
  then obtain p where p: "map_of (ar_profiles s) (bd_profileId b) = Some p" using stored_profile [OF ok] by blast
  show ?thesis
    by (rule replace_safe [OF ok Some, of _ "the (map_of (ar_bindings t) i)"])
      (use run Some p in \<open>auto simp: refreshPlan_def js_simps toSummary_run Let_def scopeOf_def idsMove_def update_conv'\<close>)
qed

lemma acceptPlan_safe:
  assumes ok: "registryOk s" and run: "acceptPlan i n c s = (r, t)"
  shows "stepSafe s t"
proof (cases "map_of (ar_bindings s) i")
  case None
  then show ?thesis using run ok by (simp add: acceptPlan_def js_simps unchanged_safe)
next
  case (Some b)
  then obtain p where p: "map_of (ar_profiles s) (bd_profileId b) = Some p" using stored_profile [OF ok] by blast
  show ?thesis
    by (rule replace_profile_safe [OF ok Some p, of _ "the (map_of (ar_bindings t) i)" "the (map_of (ar_profiles t) (bd_profileId b))"])
      (use run Some p in \<open>auto simp: acceptPlan_def js_simps toSummary_run Let_def update_conv' scopeOf_def locationOf_def idsMove_def\<close>)
qed

lemma disableBinding_safe:
  assumes ok: "registryOk s" and run: "disableBinding i s = (r, t)"
  shows "stepSafe s t"
proof (cases "map_of (ar_bindings s) i")
  case None
  then show ?thesis using run ok by (simp add: disableBinding_def js_simps unchanged_safe)
next
  case (Some b)
  then obtain p where p: "map_of (ar_profiles s) (bd_profileId b) = Some p" using stored_profile [OF ok] by blast
  show ?thesis
    by (rule replace_safe [OF ok Some, of _ "the (map_of (ar_bindings t) i)"])
      (use run Some p in \<open>auto simp: disableBinding_def js_simps toSummary_run Let_def scopeOf_def idsMove_def update_conv'\<close>)
qed

lemma deleteBinding_safe:
  assumes ok: "registryOk s" and run: "deleteBinding i force s = (r, t)"
  shows "stepSafe s t"
proof (cases "t = s")
  case False
  then obtain b where b: "map_of (ar_bindings s) i = Some b"
    using run by (auto simp: deleteBinding_def js_simps split: option.splits)
  then obtain p where p: "map_of (ar_profiles s) (bd_profileId b) = Some p" using stored_profile [OF ok] by blast
  show ?thesis
    by (rule delete_safe [OF ok, of _ i "bd_profileId b"])
      (use run b p False in \<open>auto simp: deleteBinding_def js_simps toSummary_run idsMove_def list_ex_iff
          split: if_splits dest!: map_of_SomeD\<close>)
qed (simp add: ok unchanged_safe)

lemma clearTenantOverride_safe:
  assumes ok: "registryOk s" and run: "clearTenantOverride i s = (r, t)"
  shows "stepSafe s t"
proof (cases "t = s")
  case False
  show ?thesis
    by (rule delete_safe [OF ok, of _ i])
      (use run False in \<open>auto simp: clearTenantOverride_def js_simps idsMove_def split: if_splits\<close>)
qed (simp add: ok unchanged_safe)

lemma rollbackBinding_safe:
  assumes ok: "registryOk s" and run: "rollbackBinding i a s = (r, t)"
  shows "stepSafe s t"
proof (cases "t = s")
  case False
  then obtain b where b: "map_of (ar_bindings s) i = Some b"
    using run by (auto simp: rollbackBinding_def js_simps split: option.splits)
  then obtain p where p: "map_of (ar_profiles s) (bd_profileId b) = Some p" using stored_profile [OF ok] by blast
  show ?thesis
    by (rule replace_profile_safe [OF ok b p, of _ "the (map_of (ar_bindings t) i)" "the (map_of (ar_profiles t) (bd_profileId b))"])
      (use run b p False in \<open>auto simp: rollbackBinding_def js_simps toSummary_run Let_def update_conv' scopeOf_def restoredProfile_def
          idsMove_def split: option.splits\<close>)
qed (simp add: ok unchanged_safe)

lemma bindingAt_some:
  assumes "bindingAt w a x (ar_bindings s) = Some (k, b)" and "registryOk s"
  shows "map_of (ar_bindings s) k = Some b" and "scopeOf b = (w, a, x)"
proof -
  have "(k, b) \<in> set (ar_bindings s)" using assms(1) by (auto simp: bindingAt_def find_Some_iff in_set_conv_nth)
  then show "map_of (ar_bindings s) k = Some b" using registryOkD(1) [OF assms(2)] by simp
  show "scopeOf b = (w, a, x)" using assms(1) by (auto simp: bindingAt_def find_Some_iff scopeOf_def)
qed

lemma bindingAt_none:
  assumes "bindingAt w a x (ar_bindings s) = None" and "map_of (ar_bindings s) k = Some b"
  shows "scopeOf b \<noteq> (w, a, x)"
  using assms by (auto simp: bindingAt_def find_None_iff scopeOf_def dest!: map_of_SomeD)

lemma updateExisting_safe:
  assumes ok: "registryOk s" and b: "map_of (ar_bindings s) k = Some b" and run: "updateExisting c a at k b s = (r, t)"
  shows "stepSafe s t"
proof (cases "t = s")
  case False
  obtain p where p: "map_of (ar_profiles s) (bd_profileId b) = Some p" using stored_profile [OF ok b] by blast
  show ?thesis
    by (rule replace_profile_safe [OF ok b p, of _ "the (map_of (ar_bindings t) k)" "the (map_of (ar_profiles t) (bd_profileId b))"])
      (use run p False in \<open>auto simp: updateExisting_def js_simps toSummary_run Let_def update_conv' scopeOf_def commandProfile_def
          idsMove_def split: if_splits\<close>)
qed (simp add: ok unchanged_safe)

text \<open>What \<open>createNew\<close> adds: the profile and the binding under the two identifiers it draws last before the version's.\<close>

definition profileIndex :: "upsertCommand \<Rightarrow> appStorage \<Rightarrow> nat" where
  "profileIndex c s = idCount (ar_ambient s) + (if uc_credentialMode c = CrossAccountRole then 1 else 0)"

lemma createNew_run:
  assumes "createNew c a at s = (r, t)"
  defines "i \<equiv> idAt (ar_ambient s) (profileIndex c s)" and "j \<equiv> idAt (ar_ambient s) (Suc (profileIndex c s))"
  shows "\<exists>x. ar_profiles t = AList.update i (newProfile c i x at) (ar_profiles s)"
    and "ar_bindings t = AList.update j (newBinding c j i at) (ar_bindings s)"
    and "idAt (ar_ambient t) = idAt (ar_ambient s)" and "idCount (ar_ambient t) = profileIndex c s + 3"
  using assms(1) unfolding i_def j_def
  by (auto simp: createNew_def js_simps toSummary_run update_conv' newBinding_def profileIndex_def Let_def split: if_splits option.splits)

lemma createNew_safe:
  assumes ok: "registryOk s" and run: "createNew c a at s = (r, t)"
    and free: "\<And>k b. map_of (ar_bindings s) k = Some b \<Longrightarrow> scopeOf b \<noteq> (uc_workspaceId c, uc_applicationId c, uc_applicationTenantId c)"
  shows "stepSafe s t"
proof -
  let ?n = "profileIndex c s"
  let ?i = "idAt (ar_ambient s) ?n" and ?j = "idAt (ar_ambient s) (Suc ?n)"
  note made = createNew_run [OF run]
  obtain x where p: "ar_profiles t = AList.update ?i (newProfile c ?i x at) (ar_profiles s)" using made(1) by blast
  have "idCount (ar_ambient s) \<le> ?n" by (simp add: profileIndex_def)
  then have new: "?i \<notin> usedIds s" "?j \<notin> usedIds s" using fresh_id [OF ok] by simp_all
  have used: "?i \<in> usedIds t" "?j \<in> usedIds t" by (auto simp: usedIds_def made(3,4))
  show ?thesis
    by (rule insert_safe [OF ok made(2) p new used])
      (use free made(3,4) in \<open>auto simp: newBinding_def newProfile_def scopeOf_def idsMove_def profileIndex_def\<close>)
qed

lemma upsertBinding_safe:
  assumes ok: "registryOk s" and run: "upsertBinding c a s = (r, t)"
  shows "stepSafe s t"
proof -
  let ?s = "s\<lparr>ar_ambient := snd (now (ar_ambient s))\<rparr>"
  let ?at = "nowAt (ar_ambient s) (ticks (ar_ambient s))"
  have clock: "stepSafe s ?s" by (rule same_safe [OF ok]) (simp_all add: idsMove_def)
  then have ok': "registryOk ?s" by (simp add: stepSafe_def)
  have "stepSafe ?s t"
  proof (cases "bindingAt (uc_workspaceId c) (uc_applicationId c) (uc_applicationTenantId c) (ar_bindings ?s)")
    case None
    then have "createNew c a ?at ?s = (r, t)" using run by (simp add: upsertBinding_def js_simps)
    then show ?thesis using createNew_safe [OF ok'] bindingAt_none [OF None] by blast
  next
    case (Some kb)
    then obtain k b where kb: "kb = (k, b)" by fastforce
    then have "updateExisting c a ?at k b ?s = (r, t)" using run Some by (simp add: upsertBinding_def js_simps)
    then show ?thesis using updateExisting_safe [OF ok'] bindingAt_some(1) [OF _ ok'] Some kb by blast
  qed
  then show ?thesis using stepSafe_trans [OF ok clock] by blast
qed

lemma moves_keep:
  "forEach ds (moveRoute b) s = (r, t) \<Longrightarrow> ar_bindings t = ar_bindings s \<and> ar_profiles t = ar_profiles s \<and> ar_ambient t = ar_ambient s
     \<and> ar_versions t = ar_versions s"
  by (induction ds arbitrary: s)
    (auto simp: js_simps moveRoute_def split: prod.splits sum.splits option.splits if_splits)

lemma cutoverMigrate_safe:
  assumes ok: "registryOk s" and run: "cutoverMigrate i j ds a s = (r, t)"
  shows "stepSafe s t"
proof (cases "ar_bindings t = ar_bindings s")
  case True
  show ?thesis
    by (rule same_safe [OF ok True])
      (use run in \<open>auto simp: cutoverMigrate_def js_simps toSummary_run idsMove_def Let_def dest!: moves_keep
          split: option.splits if_splits prod.splits sum.splits\<close>)
next
  case False
  then obtain b c u where b: "map_of (ar_bindings s) i = Some b" and c: "map_of (ar_bindings s) j = Some c"
    and status: "bd_status b = BindMigrating" "bd_status c = BindConnected"
    and moved: "forEach ds (moveRoute c) s = (Inr (), u)"
    using run by (auto simp: cutoverMigrate_def js_simps dest!: moves_keep split: option.splits if_splits prod.splits sum.splits)
  have u: "ar_bindings u = ar_bindings s" "ar_profiles u = ar_profiles s" "ar_ambient u = ar_ambient s"
    using moves_keep [OF moved] by simp_all
  obtain p where p: "map_of (ar_profiles s) (bd_profileId c) = Some p" using stored_profile [OF ok c] by blast
  have "i \<noteq> j" using b c status by auto
  let ?b = "b\<lparr>bd_status := BindConnected, bd_updatedAt := nowAt (ar_ambient s) (ticks (ar_ambient s))\<rparr>"
  let ?v = "u\<lparr>ar_bindings := AList.update i ?b (ar_bindings s)\<rparr>"
  have v: "stepSafe s ?v"
    by (rule replace_safe [OF ok b, of _ ?b]) (simp_all add: u scopeOf_def idsMove_def)
  then have "registryOk ?v" by (simp add: stepSafe_def)
  moreover have "map_of (ar_bindings ?v) j = Some c" using c \<open>i \<noteq> j\<close> by (simp add: update_conv')
  ultimately have "stepSafe ?v t"
    by (rule replace_safe [where b' = "the (map_of (ar_bindings t) j)"])
      (use run b c status moved p in \<open>auto simp: cutoverMigrate_def js_simps toSummary_run u Let_def update_conv' scopeOf_def idsMove_def\<close>)
  then show ?thesis using stepSafe_trans [OF ok v] by blast
qed

lemma registry_step_safe:
  assumes "registry_step s t" and ok: "registryOk s"
  shows "stepSafe s t"
  using assms(1)
proof cases
  case (tenant_updated w a i d e r) then show ?thesis using changeTenant_safe [OF ok] by (simp add: updateTenant_def)
next
  case (tenant_status w a i st e r) then show ?thesis using changeTenant_safe [OF ok] by (simp add: setTenantStatus_def)
next
  case (probe_recorded i inp rs)
  then show ?thesis unfolding recordProbe_def by (rule changeBinding_safe [OF ok]) (simp add: probed_def scopeOf_def)
next
  case (probe_deferred i x rs)
  then show ?thesis unfolding markProbeDeferred_def by (rule changeBinding_safe [OF ok]) (simp add: deferred_def scopeOf_def)
next
  case (migrating i rs)
  then show ?thesis unfolding beginMigrate_def by (rule changeBinding_safe [OF ok]) (simp add: scopeOf_def)
qed (use ok in \<open>blast intro: createTenant_safe upsertBinding_safe reveal_safe hardening_safe refreshPlan_safe acceptPlan_safe
      disableBinding_safe deleteBinding_safe clearTenantOverride_safe rollbackBinding_safe cutoverMigrate_safe commitBlob_safe\<close>)+

lemma registry_steps_safe:
  assumes "registry_step\<^sup>*\<^sup>* s t" and "registryOk s"
  shows "stepSafe s t"
  using assms(1)
proof induction
  case base
  then show ?case using assms(2) by (rule unchanged_safe)
next
  case (step t u)
  then show ?case using registry_step_safe stepSafe_trans [OF assms(2)] by (metis stepSafe_def)
qed

section \<open>Properties of the registry\<close>

definition emptyRegistry :: "ambient \<Rightarrow> appStorage" where
  "emptyRegistry a = \<lparr>ar_tenants = [], ar_profiles = [], ar_bindings = [], ar_versions = [], ar_blobs = [],
     ar_assumeWithoutExternalId = [], ar_externalIds = [], ar_ambient = a\<rparr>"

lemma emptyRegistry_ok: "inj (idAt a) \<Longrightarrow> registryOk (emptyRegistry a)"
  by (simp add: emptyRegistry_def registryOk_def)

lemma reached_ok: "registry_step\<^sup>*\<^sup>* (emptyRegistry a) s \<Longrightarrow> inj (idAt a) \<Longrightarrow> registryOk s"
  using registry_steps_safe emptyRegistry_ok by (auto simp: stepSafe_def)

text \<open>
  C19. Generations mark locations. In every state the registry reaches from the empty one, each scope
  (workspace, application, tenant or default) has at most one binding; and however the registry goes on
  from there, a binding that is still there has its scope, its generation has not fallen, and if provider,
  region, bucket, prefix or credentials behind it have changed, its generation has grown. So a generation
  recorded with an object tells whether the binding still points to where the object was put.
\<close>

theorem generations_mark_locations:
  assumes "inj (idAt a)" and "registry_step\<^sup>*\<^sup>* (emptyRegistry a) s" and "registry_step\<^sup>*\<^sup>* s t"
    and "map_of (ar_bindings s) k = Some b" and "map_of (ar_bindings t) k = Some c"
  shows "scopeOf c = scopeOf b \<and> bd_generation b \<le> bd_generation c
     \<and> (bd_generation c = bd_generation b \<longrightarrow> placeOf t c = placeOf s b)
     \<and> (\<forall>j d. map_of (ar_bindings t) j = Some d \<longrightarrow> scopeOf d = scopeOf c \<longrightarrow> j = k)"
proof -
  have s: "registryOk s" using reached_ok assms(1,2) by blast
  then have "stepSafe s t" using registry_steps_safe assms(3) by blast
  then have t: "registryOk t" and e: "evolves s t" by (simp_all add: stepSafe_def)
  have "bindingEvolves s b t c" using e assms(4,5) unfolding evolves_def by (metis option.simps(5))
  moreover have "j = k" if "map_of (ar_bindings t) j = Some d" "scopeOf d = scopeOf c" for j d
    using registryOkD(4) [OF t that(1) assms(5)] that(2) by (auto simp: apart_def)
  ultimately show ?thesis by (auto simp: bindingEvolves_def)
qed

definition sampleIds :: ambient where
  "sampleIds = \<lparr>nowAt = (\<lambda>n. ''2024''), ticks = 0, idAt = (\<lambda>n. replicate (Suc n) CHR ''x''), idCount = 0\<rparr>"

definition sampleUpsert :: "string \<Rightarrow> upsertCommand" where
  "sampleUpsert bucket = \<lparr>uc_workspaceId = ''w'', uc_applicationId = ''a'', uc_applicationTenantId = None, uc_provider = ''aws'',
     uc_region = ''r'', uc_bucket = bucket, uc_prefix = None, uc_tier = TierManaged, uc_credentialMode = PlatformIam,
     uc_expectedBucketOwner = None, uc_endpointHost = None, uc_roleArn = None, uc_declaredPlanCode = None,
     uc_declaredCapacityBytes = None, uc_expectedGeneration = None\<rparr>"

definition afterUpserts :: "string list \<Rightarrow> appStorage" where
  "afterUpserts buckets = fold (\<lambda>x s. snd (upsertBinding (sampleUpsert x) ''u'' s)) buckets (emptyRegistry sampleIds)"

lemma sampleIds_inj: "inj (idAt sampleIds)"
  by (rule injI) (simp add: sampleIds_def replicate_eq_replicate)

lemma upsert_step: "registry_step s (snd (upsertBinding c a s))"
  by (rule registry_step.upserted [of c a s "fst (upsertBinding c a s)"]) simp

lemma afterUpserts_reached: "registry_step\<^sup>*\<^sup>* (emptyRegistry sampleIds) (afterUpserts xs)"
proof -
  have "registry_step\<^sup>*\<^sup>* s (fold (\<lambda>x s. snd (upsertBinding (sampleUpsert x) ''u'' s)) xs s)" for s
    by (induction xs arbitrary: s) (auto intro: converse_rtranclp_into_rtranclp upsert_step)
  then show ?thesis by (simp add: afterUpserts_def)
qed

lemmas upsert_defs = afterUpserts_def emptyRegistry_def upsertBinding_def updateExisting_def createNew_def bindingAt_def sampleUpsert_def
  sampleIds_def newBinding_def newProfile_def commandProfile_def updatedStatus_def toSummary_run js_simps Let_def now_def nextId_def

theorem generations_mark_locations_witness:
  "\<exists>b c. map_of (ar_bindings (afterUpserts [''b1''])) ''xx'' = Some b \<and> map_of (ar_bindings (afterUpserts [''b1'', ''b2''])) ''xx'' = Some c
     \<and> scopeOf c = scopeOf b \<and> bd_generation b = 1 \<and> bd_generation c = 2
     \<and> placeOf (afterUpserts [''b1'', ''b2'']) c \<noteq> placeOf (afterUpserts [''b1'']) b"
proof -
  have step: "registry_step\<^sup>*\<^sup>* (afterUpserts [''b1'']) (afterUpserts [''b1'', ''b2''])"
    using upsert_step by (auto simp: afterUpserts_def)
  obtain b where b: "map_of (ar_bindings (afterUpserts [''b1''])) ''xx'' = Some b"
    and bv: "bd_generation b = 1 \<and> map_option sp_bucket (map_of (ar_profiles (afterUpserts [''b1''])) (bd_profileId b)) = Some ''b1''"
    by (simp add: upsert_defs)
  obtain c where c: "map_of (ar_bindings (afterUpserts [''b1'', ''b2''])) ''xx'' = Some c"
    and cv: "bd_generation c = 2 \<and> map_option sp_bucket (map_of (ar_profiles (afterUpserts [''b1'', ''b2''])) (bd_profileId c)) = Some ''b2''"
    by (simp add: upsert_defs)
  from generations_mark_locations [OF sampleIds_inj afterUpserts_reached step b c]
  have "scopeOf c = scopeOf b" by simp
  moreover have "placeOf (afterUpserts [''b1'', ''b2'']) c \<noteq> placeOf (afterUpserts [''b1'']) b"
    using bv cv by (auto simp: placeOf_def locationOf_def)
  ultimately show ?thesis using b c bv cv by blast
qed

section \<open>Properties of routes\<close>

text \<open>What a route that may be written to says of the registry.\<close>

definition writableBinding :: "routingContext \<Rightarrow> appStorage \<Rightarrow> string \<Rightarrow> resolveResult \<Rightarrow> bool" where
  "writableBinding ctx s i r \<longleftrightarrow> (\<exists>b p. map_of (ar_bindings s) i = Some b \<and> map_of (ar_profiles s) (bd_profileId b) = Some p
     \<and> \<not> bd_disabled b \<and> bd_status b = BindConnected \<and> bd_workspaceId b = rx_workspaceId ctx
     \<and> rx_applicationId ctx = Some (bd_applicationId b)
     \<and> (bd_applicationTenantId b = rx_applicationTenantId ctx
        \<or> bd_applicationTenantId b = None
          \<and> (truthy (rx_applicationTenantId ctx) \<longrightarrow>
              bindingAt (rx_workspaceId ctx) (bd_applicationId b) (rx_applicationTenantId ctx) (ar_bindings s) = None))
     \<and> rv_generation r = Some (bd_generation b) \<and> rv_profile r = Some p)"

lemma gate_writable:
  assumes "rv_allowWrite (gate b inh sc ctx s)"
  shows "\<not> bd_disabled b \<and> bd_status b = BindConnected \<and> rv_bindingId (gate b inh sc ctx s) = Some (bd_id b)
    \<and> rv_generation (gate b inh sc ctx s) = Some (bd_generation b)
    \<and> rv_profile (gate b inh sc ctx s) = map_of (ar_profiles s) (bd_profileId b)"
  using assms by (auto simp: gate_def Let_def split: if_splits)

lemma truthy_some: "truthy x \<longleftrightarrow> (\<exists>y. x = Some y \<and> y \<noteq> [])"
  by (cases x) (auto simp: truthy_def)

lemma gate_route:
  assumes ok: "registryOk s" and at: "bindingAt (rx_workspaceId ctx) a x (ar_bindings s) = Some (k, b)"
    and app: "rx_applicationId ctx = Some a"
    and scope: "x = rx_applicationTenantId ctx
      \<or> x = None \<and> (truthy (rx_applicationTenantId ctx) \<longrightarrow>
          bindingAt (rx_workspaceId ctx) a (rx_applicationTenantId ctx) (ar_bindings s) = None)"
    and allowed: "rv_allowWrite (gate b inh sc ctx s)"
  shows "\<exists>i. rv_bindingId (gate b inh sc ctx s) = Some i \<and> writableBinding ctx s i (gate b inh sc ctx s)"
proof -
  note b = bindingAt_some [OF at ok]
  obtain p where p: "map_of (ar_profiles s) (bd_profileId b) = Some p" using stored_profile [OF ok b(1)] by blast
  have "bd_id b = k" using registryOkD(3) [OF ok b(1)] by (simp add: boundOk_def)
  then show ?thesis using gate_writable [OF allowed] b p app scope by (auto simp: writableBinding_def scopeOf_def)
qed

text \<open>No tenant of the request is suspended or closed, and no binding claims the request.\<close>

definition unclaimed :: "routingContext \<Rightarrow> appStorage \<Rightarrow> bool" where
  "unclaimed ctx s \<longleftrightarrow> (rx_purpose ctx = ForIngest \<or> rx_purpose ctx = ForProbe)
     \<and> (truthy (rx_applicationId ctx) \<longrightarrow>
          bindingAt (rx_workspaceId ctx) (the (rx_applicationId ctx)) None (ar_bindings s) = None
          \<and> (truthy (rx_applicationTenantId ctx) \<longrightarrow>
               bindingAt (rx_workspaceId ctx) (the (rx_applicationId ctx)) (rx_applicationTenantId ctx) (ar_bindings s) = None))"

definition tenantServed :: "routingContext \<Rightarrow> appStorage \<Rightarrow> bool" where
  "tenantServed ctx s \<longleftrightarrow>
     (case (rx_applicationId ctx, rx_applicationTenantId ctx) of
        (Some a, Some i) \<Rightarrow> a = [] \<or> i = [] \<or> rx_purpose ctx \<noteq> ForIngest \<or>
          (case getTenant (rx_workspaceId ctx) a i s of None \<Rightarrow> True | Some t \<Rightarrow> at_status t = TenantActive)
      | _ \<Rightarrow> True)"

lemma appRoute_writable:
  assumes ok: "registryOk s" and allowed: "rv_allowWrite (appRoute ctx known s)"
    and none: "truthy (rx_applicationTenantId ctx) \<and> truthy (rx_applicationId ctx) \<Longrightarrow>
      bindingAt (rx_workspaceId ctx) (the (rx_applicationId ctx)) (rx_applicationTenantId ctx) (ar_bindings s) = None"
  shows "case rv_bindingId (appRoute ctx known s) of
      None \<Rightarrow> unclaimed ctx s | Some i \<Rightarrow> writableBinding ctx s i (appRoute ctx known s)"
proof (cases "truthy (rx_applicationId ctx)")
  case False
  then show ?thesis using allowed by (auto simp: appRoute_def Let_def noRoute_def unclaimed_def)
next
  case True
  then obtain a where a: "rx_applicationId ctx = Some a" by (auto simp: truthy_some)
  show ?thesis
  proof (cases "bindingAt (rx_workspaceId ctx) a None (ar_bindings s)")
    case None
    then show ?thesis using True allowed none a by (auto simp: appRoute_def Let_def noRoute_def unclaimed_def)
  next
    case (Some kb)
    then obtain k b where kb: "bindingAt (rx_workspaceId ctx) a None (ar_bindings s) = Some (k, b)" by fastforce
    have r: "appRoute ctx known s = gate b (if known then FromApp else FromNone) RouteApp ctx s"
      using True a kb by (simp add: appRoute_def Let_def)
    show ?thesis using gate_route [OF ok kb a _ allowed [unfolded r]] none True a unfolding r by force
  qed
qed

lemma tenantRoute_writable:
  assumes ok: "registryOk s" and allowed: "rv_allowWrite (tenantRoute ctx (rx_applicationTenantId ctx) s)"
  shows "tenantServed ctx s \<and> (case rv_bindingId (tenantRoute ctx (rx_applicationTenantId ctx) s) of
      None \<Rightarrow> unclaimed ctx s | Some i \<Rightarrow> writableBinding ctx s i (tenantRoute ctx (rx_applicationTenantId ctx) s))"
proof (cases "truthy (rx_applicationTenantId ctx) \<and> truthy (rx_applicationId ctx)")
  case False
  then have r: "tenantRoute ctx (rx_applicationTenantId ctx) s = appRoute ctx (truthy (rx_applicationTenantId ctx)) s"
    by (auto simp: tenantRoute_def)
  have "tenantServed ctx s" using False by (auto simp: tenantServed_def truthy_some split: option.splits)
  then show ?thesis using appRoute_writable [OF ok allowed [unfolded r]] False unfolding r by blast
next
  case True
  then obtain a i where ctx: "rx_applicationId ctx = Some a" "rx_applicationTenantId ctx = Some i" by (auto simp: truthy_some)
  have live: "inactiveTenant ctx a i s = None"
    using allowed True ctx by (cases "inactiveTenant ctx a i s")
      (auto simp: tenantRoute_def inactiveTenant_def noRoute_def split: option.splits if_splits)
  then have served: "tenantServed ctx s"
    by (auto simp: tenantServed_def ctx inactiveTenant_def getTenant_def split: option.splits if_splits)
  show ?thesis
  proof (cases "bindingAt (rx_workspaceId ctx) a (Some i) (ar_bindings s)")
    case None
    then have r: "tenantRoute ctx (rx_applicationTenantId ctx) s = appRoute ctx True s"
      using True ctx live by (simp add: tenantRoute_def)
    have "case rv_bindingId (appRoute ctx True s) of
        None \<Rightarrow> unclaimed ctx s | Some i \<Rightarrow> writableBinding ctx s i (appRoute ctx True s)"
      by (rule appRoute_writable [OF ok allowed [unfolded r]]) (simp add: ctx None)
    then show ?thesis using served unfolding r by blast
  next
    case (Some kb)
    then obtain k b where kb: "bindingAt (rx_workspaceId ctx) a (Some i) (ar_bindings s) = Some (k, b)" by fastforce
    have r: "tenantRoute ctx (rx_applicationTenantId ctx) s = gate b FromNone RouteTenant ctx s"
      using True ctx live kb by (simp add: tenantRoute_def)
    show ?thesis using gate_route [OF ok kb ctx(1) _ allowed [unfolded r]] served ctx unfolding r by force
  qed
qed

lemma resolve_writable:
  assumes "registryOk s" and allowed: "rv_allowWrite (resolve ctx s)"
  shows "resolve ctx s = tenantRoute ctx (rx_applicationTenantId ctx) s"
proof (cases "stickyRoute ctx s")
  case None
  then show ?thesis using allowed by (auto simp: resolve_def noRoute_def)
next
  case (Some r)
  then have "\<not> rv_allowWrite r" by (auto simp: stickyRoute_def split: if_splits option.splits)
  then show ?thesis using allowed Some by (simp add: resolve_def)
qed

lemma writable_route_checked:
  assumes "registryOk s" and "rv_allowWrite (resolve ctx s)"
  shows "tenantServed ctx s \<and> (case rv_bindingId (resolve ctx s) of
      None \<Rightarrow> unclaimed ctx s | Some i \<Rightarrow> writableBinding ctx s i (resolve ctx s))"
  using tenantRoute_writable [OF assms(1), of ctx] assms(2) unfolding resolve_writable [OF assms] by blast

text \<open>
  A route that may be written to is a safe one. In every reachable state, when the resolution of a
  request allows writing, the tenant of the request is not suspended or closed, and either the route is a
  binding of this workspace and application, for this tenant or (only when the tenant has none of its own)
  the default of the application, which is connected and not disabled and whose present generation and
  profile are the ones returned; or it is the platform, and then no binding claims the request.
\<close>

theorem writable_route_safe:
  assumes "inj (idAt a)" and "registry_step\<^sup>*\<^sup>* (emptyRegistry a) s" and "rv_allowWrite (resolve ctx s)"
  shows "tenantServed ctx s \<and> (case rv_bindingId (resolve ctx s) of
      None \<Rightarrow> unclaimed ctx s | Some i \<Rightarrow> writableBinding ctx s i (resolve ctx s))"
  using writable_route_checked reached_ok assms by blast

definition sampleRequest :: routingContext where
  "sampleRequest = \<lparr>rx_workspaceId = ''w'', rx_applicationId = Some ''a'', rx_applicationTenantId = None, rx_externalTenantKey = None,
     rx_purpose = ForIngest, rx_blobStorageBindingId = None, rx_bindingGeneration = None\<rparr>"

definition sampleConnected :: appStorage where
  "sampleConnected = snd (recordProbe ''xx'' \<lparr>pb_ok = True, pb_summary = ''ok'', pb_issueClass = None, pb_expectedOwnerMatch = None\<rparr>
     (afterUpserts [''b1'']))"

lemma sampleConnected_reached: "registry_step\<^sup>*\<^sup>* (emptyRegistry sampleIds) sampleConnected"
proof -
  have "registry_step (afterUpserts [''b1'']) sampleConnected"
    unfolding sampleConnected_def by (rule registry_step.probe_recorded [OF prod.collapse [symmetric]])
  then show ?thesis using afterUpserts_reached [of "[''b1'']"] by simp
qed

lemmas route_defs = resolve_def stickyRoute_def tenantRoute_def appRoute_def gate_def sampleRequest_def sampleConnected_def
  recordProbe_def changeBinding_def probed_def truthy_def upsert_defs

theorem writable_route_safe_witness:
  "rv_bindingId (resolve sampleRequest sampleConnected) = Some ''xx'' \<and> tenantServed sampleRequest sampleConnected
   \<and> writableBinding sampleRequest sampleConnected ''xx'' (resolve sampleRequest sampleConnected)"
proof -
  have r: "rv_bindingId (resolve sampleRequest sampleConnected) = Some ''xx''" "rv_allowWrite (resolve sampleRequest sampleConnected)"
    by (simp_all add: route_defs)
  from writable_route_safe [OF sampleIds_inj sampleConnected_reached r(2)] r(1) show ?thesis by simp
qed

text \<open>
  What the router needs of a resolver: a route that allows writing is fit to be written to. The router
  then returns a storage of a binding only for such a route.
\<close>

locale route_source =
  fixes route :: "routingContext \<Rightarrow> resolveResult" and fit :: "routingContext \<Rightarrow> string \<Rightarrow> resolveResult \<Rightarrow> bool"
  assumes allowed_fit: "rv_allowWrite (route ctx) \<Longrightarrow> rv_bindingId (route ctx) = Some i \<Longrightarrow> fit ctx i (route ctx)"
begin

lemma ingest_fit:
  assumes "forIngest opts route ctx = Inr r" and "ro_storage r = OnBinding st"
  shows "\<exists>i p. fit ctx i (route ctx) \<and> ro_bindingId r = Some i \<and> ro_generation r = rv_generation (route ctx)
    \<and> rv_profile (route ctx) = Some p \<and> op_create opts p = Some st"
proof -
  obtain p where p: "rv_profile (route ctx) = Some p" "op_create opts p = Some st" "rv_allowWrite (route ctx)"
      "truthy (rv_bindingId (route ctx))"
    and r: "ro_bindingId r = rv_bindingId (route ctx)" "ro_generation r = rv_generation (route ctx)"
    using assms by (auto simp: forIngest_def onPlatform_def Let_def split: if_splits option.splits)
  obtain i where "rv_bindingId (route ctx) = Some i" using p(4) by (auto simp: truthy_some)
  then show ?thesis using allowed_fit [OF p(3)] p(1,2) r by auto
qed

end

interpretation registryRoutes: route_source "\<lambda>ctx. resolve ctx s" "\<lambda>ctx i r. registryOk s \<longrightarrow> tenantServed ctx s \<and> writableBinding ctx s i r"
  for s
proof
  fix ctx i
  assume "rv_allowWrite (resolve ctx s)" and "rv_bindingId (resolve ctx s) = Some i"
  then show "registryOk s \<longrightarrow> tenantServed ctx s \<and> writableBinding ctx s i (resolve ctx s)"
    using writable_route_checked [of s ctx] by auto
qed

text \<open>
  C20. Objects of an application go only to a storage that may take them. When the router, working on a
  reachable registry, returns a storage made for a binding, then that binding is connected, enabled, of the
  workspace and application of the request and of its tenant (or the application's default), the tenant is
  not suspended or closed, the storage is the one the factory makes from the binding's present profile, and
  the identifier and generation to be recorded with the object are the binding's own.
\<close>

theorem ingest_binding_checked:
  assumes "inj (idAt a)" and "registry_step\<^sup>*\<^sup>* (emptyRegistry a) s"
    and "forIngest opts (\<lambda>x. resolve x s) ctx = Inr route" and "ro_storage route = OnBinding st"
  shows "tenantServed ctx s \<and> (\<exists>i b p. ro_bindingId route = Some i \<and> map_of (ar_bindings s) i = Some b
     \<and> writableBinding ctx s i (resolve ctx s) \<and> ro_generation route = Some (bd_generation b)
     \<and> map_of (ar_profiles s) (bd_profileId b) = Some p \<and> op_create opts p = Some st)"
proof -
  obtain i p where w: "tenantServed ctx s" "writableBinding ctx s i (resolve ctx s)"
    and route: "ro_bindingId route = Some i" "ro_generation route = rv_generation (resolve ctx s)"
    and p: "rv_profile (resolve ctx s) = Some p" "op_create opts p = Some st"
    using registryRoutes.ingest_fit [OF assms(3,4)] reached_ok [OF assms(2,1)] by auto
  then show ?thesis by (auto simp: writableBinding_def)
qed

definition sampleOptions :: "(unit, string) routerOptions" where
  "sampleOptions = \<lparr>op_enabled = True, op_platform = (), op_create = (\<lambda>p. Some (sp_bucket p))\<rparr>"

theorem ingest_binding_checked_witness:
  "\<exists>route b p. forIngest sampleOptions (\<lambda>x. resolve x sampleConnected) sampleRequest = Inr route \<and> ro_storage route = OnBinding ''b1''
     \<and> map_of (ar_bindings sampleConnected) ''xx'' = Some b \<and> ro_generation route = Some (bd_generation b)
     \<and> map_of (ar_profiles sampleConnected) (bd_profileId b) = Some p \<and> op_create sampleOptions p = Some ''b1''"
proof -
  obtain route where r: "forIngest sampleOptions (\<lambda>x. resolve x sampleConnected) sampleRequest = Inr route"
      "ro_storage route = OnBinding ''b1''" "ro_bindingId route = Some ''xx''"
    by (simp add: forIngest_def sampleOptions_def route_defs)
  from ingest_binding_checked [OF sampleIds_inj sampleConnected_reached r(1,2)] r show ?thesis by auto
qed

text \<open>
  A denied request is not refused. The resolution answers a suspended or closed tenant's ingest with
  \<open>allowWrite = false\<close> and no binding; the router looks at the missing binding before it looks at
  \<open>allowWrite\<close>, and so sends the objects to the storage of the platform.
\<close>

theorem denied_ingest_reaches_platform:
  assumes "op_enabled opts" and "rx_applicationId ctx = Some a" and "a \<noteq> []" and "rx_applicationTenantId ctx = Some i" and "i \<noteq> []"
    and "rx_blobStorageBindingId ctx = None" and "rx_purpose ctx = ForIngest"
    and "getTenant (rx_workspaceId ctx) a i s = Some t" and "at_status t \<noteq> TenantActive"
  shows "\<not> rv_allowWrite (resolve ctx s)
    \<and> (\<exists>route. forIngest opts (\<lambda>x. resolve x s) ctx = Inr route \<and> ro_storage route = OnPlatform (op_platform opts))"
proof -
  have "map_of (ar_tenants s) i = Some t" "at_workspaceId t = rx_workspaceId ctx" "at_applicationId t = a"
    using assms(8) by (auto simp: getTenant_def split: option.splits if_splits)
  then have r: "resolve ctx s = noRoute FromNone RouteTenant False (if at_status t = TenantSuspended then ''tenant_suspended'' else ''tenant_closed'')"
    using assms(2-7,9) by (auto simp: resolve_def stickyRoute_def tenantRoute_def inactiveTenant_def truthy_some)
  show ?thesis unfolding forIngest_def r using assms(1-3) by (simp add: noRoute_def onPlatform_def truthy_some)
qed

definition sampleSuspended :: appStorage where
  "sampleSuspended = (emptyRegistry sampleIds)\<lparr>ar_tenants := [(''t'', \<lparr>at_id = ''t'', at_workspaceId = ''w'', at_applicationId = ''a'',
     at_externalTenantKey = ''k'', at_displayName = ''d'', at_status = TenantSuspended, at_createdAt = ''2024'', at_updatedAt = ''2024''\<rparr>)]\<rparr>"

theorem denied_ingest_reaches_platform_witness:
  "\<exists>route. forIngest sampleOptions (\<lambda>x. resolve x sampleSuspended) (sampleRequest\<lparr>rx_applicationTenantId := Some ''t''\<rparr>) = Inr route
     \<and> ro_storage route = OnPlatform ()"
  using denied_ingest_reaches_platform [of sampleOptions "sampleRequest\<lparr>rx_applicationTenantId := Some ''t''\<rparr>" "''a''" "''t''" sampleSuspended]
  by (simp add: sampleOptions_def sampleRequest_def sampleSuspended_def getTenant_def)

section \<open>Cutover\<close>

text \<open>The routes after the loop of \<open>cutoverMigrate\<close> has gone through.\<close>

lemma moves_done:
  assumes "forEach ds (moveRoute b) s = (Inr (), t)"
  shows "map_of (ar_blobs t) x = (if x \<in> fst ` set ds
     then map_option (\<lambda>r. r\<lparr>br_storageBindingId := bd_id b, br_storageBindingGeneration := bd_generation b\<rparr>) (map_of (ar_blobs s) x)
     else map_of (ar_blobs s) x)
   \<and> (\<forall>h. (x, h) \<in> set ds \<longrightarrow> (\<exists>r. map_of (ar_blobs s) x = Some r \<and> br_sha256 r = h))"
  using assms
proof (induction ds arbitrary: s)
  case Nil
  then show ?case by (simp add: js_simps)
next
  case (Cons d ds)
  obtain y g where d: "d = (y, g)" by fastforce
  from Cons.prems obtain r u where r: "map_of (ar_blobs s) y = Some r" "br_sha256 r = g"
    and u: "u = s\<lparr>ar_blobs := AList.update y (r\<lparr>br_storageBindingId := bd_id b, br_storageBindingGeneration := bd_generation b\<rparr>) (ar_blobs s)\<rparr>"
    and run: "forEach ds (moveRoute b) u = (Inr (), t)"
    by (auto simp: d js_simps moveRoute_def split: option.splits if_splits)
  show ?case using Cons.IH [OF run] r by (auto simp: u d update_conv' split: if_splits)
qed

text \<open>
  A cutover moves what it has proved. When it succeeds, every listed object had a route with exactly
  the listed digest and now has a route to the target, with the same object, workspace and digest; every
  other route is as before; and source and target are both connected. The routes carry the generation of the
  target from before the cutover, one less than the generation the cutover returns.
\<close>

theorem cutover_moves_proved_routes:
  assumes "cutoverMigrate i j ds a s = (Inr summary, t)" and "registryOk s"
  shows "(\<forall>x h. (x, h) \<in> set ds \<longrightarrow> (\<exists>r q. map_of (ar_blobs s) x = Some r \<and> br_sha256 r = h \<and> map_of (ar_blobs t) x = Some q
        \<and> q = r\<lparr>br_storageBindingId := j, br_storageBindingGeneration := bs_generation summary - 1\<rparr>))
   \<and> (\<forall>x. x \<notin> fst ` set ds \<longrightarrow> map_of (ar_blobs t) x = map_of (ar_blobs s) x)
   \<and> map_option bd_status (map_of (ar_bindings t) i) = Some BindConnected
   \<and> map_option bd_status (map_of (ar_bindings t) j) = Some BindConnected"
proof -
  obtain b c u where b: "map_of (ar_bindings s) i = Some b" and c: "map_of (ar_bindings s) j = Some c"
    and status: "bd_status b = BindMigrating" "bd_status c = BindConnected"
    and moved: "forEach ds (moveRoute c) s = (Inr (), u)"
    using assms(1) by (auto simp: cutoverMigrate_def js_simps split: option.splits if_splits prod.splits sum.splits)
  have u: "ar_bindings u = ar_bindings s" "ar_profiles u = ar_profiles s" "ar_ambient u = ar_ambient s"
    using moves_keep [OF moved] by simp_all
  obtain p where p: "map_of (ar_profiles s) (bd_profileId c) = Some p" using stored_profile [OF assms(2) c] by blast
  have "i \<noteq> j" using b c status by auto
  have "bd_id c = j" using registryOkD(3) [OF assms(2) c] by (simp add: boundOk_def)
  have t: "ar_blobs t = ar_blobs u" "bs_generation summary = bd_generation c + 1"
    "map_option bd_status (map_of (ar_bindings t) i) = Some BindConnected" "map_option bd_status (map_of (ar_bindings t) j) = Some BindConnected"
    using assms(1) b c status moved p \<open>i \<noteq> j\<close>
    by (auto simp: cutoverMigrate_def js_simps toSummary_run u Let_def update_conv' summaryOf_def)
  have proved: "\<exists>r. map_of (ar_blobs s) x = Some r \<and> br_sha256 r = h" if "(x, h) \<in> set ds" for x h
    using moves_done [OF moved, of x] that by blast
  have "\<exists>r q. map_of (ar_blobs s) x = Some r \<and> br_sha256 r = h \<and> map_of (ar_blobs t) x = Some q
      \<and> q = r\<lparr>br_storageBindingId := j, br_storageBindingGeneration := bs_generation summary - 1\<rparr>" if x: "(x, h) \<in> set ds" for x h
  proof -
    have "x \<in> fst ` set ds" using x by force
    then show ?thesis using proved [OF x] moves_done [OF moved, of x] t(1,2) \<open>bd_id c = j\<close> by auto
  qed
  moreover have "map_of (ar_blobs t) x = map_of (ar_blobs s) x" if "x \<notin> fst ` set ds" for x
    using moves_done [OF moved, of x] that t(1) by simp
  ultimately show ?thesis using t(3,4) by blast
qed

definition sampleBinding :: "string \<Rightarrow> string \<Rightarrow> string \<Rightarrow> bindingStatus \<Rightarrow> storedBinding" where
  "sampleBinding i application profile st = (newBinding (sampleUpsert ''b1'') i profile ''2024'')\<lparr>bd_applicationId := application, bd_status := st\<rparr>"

definition sampleMigration :: appStorage where
  "sampleMigration = (emptyRegistry sampleIds)\<lparr>ar_ambient := sampleIds\<lparr>idCount := 4\<rparr>,
     ar_profiles := [(''x'', newProfile (sampleUpsert ''b1'') ''x'' None ''2024''), (''xxx'', newProfile (sampleUpsert ''b2'') ''xxx'' None ''2024'')],
     ar_bindings := [(''xx'', sampleBinding ''xx'' ''a'' ''x'' BindMigrating), (''xxxx'', sampleBinding ''xxxx'' ''b'' ''xxx'' BindConnected)],
     ar_blobs := [(''o'', \<lparr>br_objectId = ''o'', br_workspaceId = ''w'', br_sha256 = ''h'', br_storageBindingId = ''xx'', br_storageBindingGeneration = 1\<rparr>)]\<rparr>"

lemma sampleMigration_ok: "registryOk sampleMigration"
proof -
  have used: "usedIds sampleMigration = {''x'', ''xx'', ''xxx'', ''xxxx''}"
    by (simp add: usedIds_def sampleMigration_def sampleIds_def emptyRegistry_def lessThan_Suc numeral_eq_Suc insert_commute)
  have inj: "inj (idAt (ar_ambient sampleMigration))" using sampleIds_inj by (simp add: sampleMigration_def)
  show ?thesis unfolding registryOk_def used using inj
    by (auto simp: sampleMigration_def emptyRegistry_def boundOk_def apart_def scopeOf_def sampleBinding_def newBinding_def newProfile_def
        sampleUpsert_def split: if_splits)
qed

lemmas cutover_defs = cutoverMigrate_def moveRoute_def sampleMigration_def emptyRegistry_def sampleBinding_def newBinding_def newProfile_def
  sampleUpsert_def sampleIds_def toSummary_run js_simps Let_def

theorem cutover_moves_proved_routes_witness:
  "\<exists>summary t q. cutoverMigrate ''xx'' ''xxxx'' [(''o'', ''h'')] ''u'' sampleMigration = (Inr summary, t)
     \<and> map_of (ar_blobs t) ''o'' = Some q \<and> br_storageBindingId q = ''xxxx'' \<and> br_sha256 q = ''h''"
proof -
  obtain summary t where run: "cutoverMigrate ''xx'' ''xxxx'' [(''o'', ''h'')] ''u'' sampleMigration = (Inr summary, t)"
    by (simp add: cutover_defs)
  from cutover_moves_proved_routes [OF run sampleMigration_ok] run show ?thesis by auto
qed

text \<open>
  A refused cutover may have moved routes. The digests are compared inside the loop that moves the
  routes, so when a later object fails the comparison, the call throws and the earlier objects stay routed to
  the target.
\<close>

theorem refused_cutover_moves_routes:
  assumes "map_of (ar_bindings s) i = Some b" and "map_of (ar_bindings s) j = Some c"
    and "bd_status b = BindMigrating" and "bd_status c = BindConnected"
    and "map_of (ar_blobs s) x = Some r" and "br_sha256 r = h" and "x \<noteq> y" and "map_of (ar_blobs s) y = None"
  shows "\<exists>t. cutoverMigrate i j [(x, h), (y, g)] a s = (Inl (codedError ''MIGRATE_DIGEST_MISMATCH'' ''Migrate cutover refused: digest mismatch''), t)
     \<and> map_of (ar_blobs t) x = Some (r\<lparr>br_storageBindingId := bd_id c, br_storageBindingGeneration := bd_generation c\<rparr>)"
  using assms by (simp add: cutoverMigrate_def moveRoute_def js_simps update_conv')

theorem refused_cutover_moves_routes_witness:
  "\<exists>t. cutoverMigrate ''xx'' ''xxxx'' [(''o'', ''h''), (''n'', ''h'')] ''u'' sampleMigration
       = (Inl (codedError ''MIGRATE_DIGEST_MISMATCH'' ''Migrate cutover refused: digest mismatch''), t)
     \<and> map_option br_storageBindingId (map_of (ar_blobs t) ''o'') = Some ''xxxx''"
  using refused_cutover_moves_routes [of sampleMigration "''xx''" "sampleBinding ''xx'' ''a'' ''x'' BindMigrating" "''xxxx''"
      "sampleBinding ''xxxx'' ''b'' ''xxx'' BindConnected" "''o''" _ "''h''" "''n''" "''h''" "''u''"]
  by (auto simp: sampleMigration_def emptyRegistry_def sampleBinding_def newBinding_def)

section \<open>Versions and rollback\<close>

text \<open>A version is of an identifier that has been drawn, and not ahead of its binding.\<close>

definition versionsOk :: "appStorage \<Rightarrow> bool" where
  "versionsOk s \<longleftrightarrow> (\<forall>v \<in> set (ar_versions s). bn_bindingId v \<in> usedIds s
     \<and> (\<forall>b. map_of (ar_bindings s) (bn_bindingId v) = Some b \<longrightarrow> bn_generation v \<le> bd_generation b))"

definition pushed :: "appStorage \<Rightarrow> appStorage \<Rightarrow> bool" where
  "pushed s t \<longleftrightarrow> (\<forall>v \<in> set (ar_versions t). v \<in> set (ar_versions s)
     \<or> (\<exists>b. map_of (ar_bindings t) (bn_bindingId v) = Some b \<and> bn_generation v = bd_generation b))"

lemma pushed_same: "ar_versions t = ar_versions s \<Longrightarrow> pushed s t"
  by (simp add: pushed_def)

lemma versionsOk_step:
  assumes "versionsOk s" and "stepSafe s t" and "pushed s t"
  shows "versionsOk t"
proof -
  have e: "evolves s t" and ok: "registryOk t" using assms(2) by (simp_all add: stepSafe_def)
  have "bn_bindingId v \<in> usedIds t \<and> (\<forall>b. map_of (ar_bindings t) (bn_bindingId v) = Some b \<longrightarrow> bn_generation v \<le> bd_generation b)"
    if v: "v \<in> set (ar_versions t)" for v
  proof (cases "v \<in> set (ar_versions s)")
    case False
    then obtain b where "map_of (ar_bindings t) (bn_bindingId v) = Some b" "bn_generation v = bd_generation b"
      using assms(3) v by (auto simp: pushed_def)
    then show ?thesis using bound_used [OF ok] by auto
  next
    case True
    then have old: "bn_bindingId v \<in> usedIds s"
      "\<And>b. map_of (ar_bindings s) (bn_bindingId v) = Some b \<Longrightarrow> bn_generation v \<le> bd_generation b"
      using assms(1) by (auto simp: versionsOk_def)
    have "bn_generation v \<le> bd_generation c" if c: "map_of (ar_bindings t) (bn_bindingId v) = Some c" for c
    proof (cases "map_of (ar_bindings s) (bn_bindingId v)")
      case None
      then show ?thesis using e c old(1) unfolding evolves_def by (metis option.simps(4))
    next
      case (Some b)
      then have "bindingEvolves s b t c" using e c unfolding evolves_def by (metis option.simps(5))
      then show ?thesis using old(2) [OF Some] by (simp add: bindingEvolves_def)
    qed
    then show ?thesis using old(1) e by (auto simp: evolves_def)
  qed
  then show ?thesis by (simp add: versionsOk_def)
qed

lemma changeBinding_versions: "changeBinding i g f s = (r, t) \<Longrightarrow> ar_versions t = ar_versions s"
  by (auto simp: changeBinding_def js_simps toSummary_run split: option.splits sum.splits)

lemma changeTenant_versions: "changeTenant f w a i e s = (r, t) \<Longrightarrow> ar_versions t = ar_versions s"
  by (auto simp: changeTenant_def requireTenant_def js_simps Let_def split: option.splits sum.splits)

lemma updateExisting_pushed:
  "updateExisting c a at k b s = (r, t) \<Longrightarrow> bd_id b = k \<Longrightarrow> pushed s t"
  by (auto simp: updateExisting_def js_simps toSummary_run Let_def pushed_def update_conv' split: if_splits option.splits)

lemma createNew_pushed: "createNew c a at s = (r, t) \<Longrightarrow> pushed s t"
  by (auto simp: createNew_def js_simps toSummary_run Let_def pushed_def update_conv' newBinding_def split: if_splits option.splits)

lemma upsertBinding_pushed:
  assumes "upsertBinding c a s = (r, t)" and "registryOk s"
  shows "pushed s t"
proof -
  let ?s = "s\<lparr>ar_ambient := snd (now (ar_ambient s))\<rparr>"
  have "pushed ?s t"
  proof (cases "bindingAt (uc_workspaceId c) (uc_applicationId c) (uc_applicationTenantId c) (ar_bindings s)")
    case None
    then show ?thesis using assms(1) createNew_pushed by (auto simp: upsertBinding_def js_simps)
  next
    case (Some kb)
    then obtain k b where kb: "kb = (k, b)" by fastforce
    then have "bd_id b = k" using registryOkD(3) [OF assms(2)] bindingAt_some(1) [OF _ assms(2)] Some by (auto simp: boundOk_def)
    then show ?thesis using assms(1) Some kb updateExisting_pushed by (auto simp: upsertBinding_def js_simps)
  qed
  then show ?thesis by (simp add: pushed_def)
qed

lemma rollbackBinding_pushed:
  assumes "rollbackBinding i a s = (r, t)" and "registryOk s"
  shows "pushed s t"
proof (cases "map_of (ar_bindings s) i")
  case (Some b)
  then have "bd_id b = i" using registryOkD(3) [OF assms(2)] by (auto simp: boundOk_def)
  with Some assms(1) show ?thesis
    by (auto simp: rollbackBinding_def js_simps toSummary_run Let_def pushed_def update_conv' split: option.splits)
qed (use assms in \<open>simp add: rollbackBinding_def js_simps pushed_def\<close>)

lemma cutoverMigrate_pushed:
  assumes "cutoverMigrate i j ds a s = (r, t)" and "registryOk s"
  shows "pushed s t"
proof (cases "map_of (ar_bindings s) j")
  case (Some b)
  then have "bd_id b = j" using registryOkD(3) [OF assms(2)] by (auto simp: boundOk_def)
  with Some assms(1) show ?thesis
    by (auto simp: cutoverMigrate_def js_simps toSummary_run Let_def pushed_def update_conv'
        dest!: moves_keep split: option.splits if_splits prod.splits sum.splits)
qed (use assms in \<open>auto simp: cutoverMigrate_def js_simps pushed_def split: option.splits\<close>)

lemma registry_step_pushed:
  assumes "registry_step s t" and ok: "registryOk s"
  shows "pushed s t"
  using assms(1)
proof cases
  case (upserted c a r) then show ?thesis using upsertBinding_pushed ok by blast
next
  case (rolled_back i a r) then show ?thesis using rollbackBinding_pushed ok by blast
next
  case (cut_over i j ds a r) then show ?thesis using cutoverMigrate_pushed ok by blast
qed (auto intro!: pushed_same dest!: changeBinding_versions changeTenant_versions simp: createTenant_def updateTenant_def setTenantStatus_def
    revealExternalId_def runHandshakeHardening_def recordProbe_def refreshPlan_def acceptPlan_def disableBinding_def deleteBinding_def
    markProbeDeferred_def clearTenantOverride_def beginMigrate_def commitBlob_def js_simps toSummary_run Let_def
    split: option.splits if_splits)

lemma reached_versions:
  assumes "registry_step\<^sup>*\<^sup>* (emptyRegistry a) s" and "inj (idAt a)"
  shows "versionsOk s"
  using assms(1)
proof induction
  case base
  then show ?case by (simp add: versionsOk_def emptyRegistry_def)
next
  case (step t u)
  then show ?case using versionsOk_step registry_step_safe registry_step_pushed reached_ok assms(2) by blast
qed

lemma latest_versions:
  assumes "\<forall>v \<in> set vs. bn_generation v < g" and "bn_generation v1 = g" and "bn_generation v2 = g + 1"
  shows "take 2 (sort_key (\<lambda>v. - bn_generation v) (vs @ [v1, v2])) = [v2, v1]"
proof -
  let ?f = "\<lambda>v. - bn_generation v"
  have "\<exists>ws. foldr (insort_key ?f) vs [v2, v1] = v2 # v1 # ws" using assms by (induction vs) auto
  moreover have "sort_key ?f (vs @ [v1, v2]) = foldr (insort_key ?f) vs [v2, v1]" using assms(2,3) by (simp add: sort_key_def)
  ultimately show ?thesis by auto
qed

text \<open>What a successful upsert leaves, whether the binding is new or not.\<close>

lemma upsert_done:
  assumes run: "upsertBinding c a s = (Inr r, t)" and ok: "registryOk s" and versions: "versionsOk s"
  defines "k \<equiv> bs_id (ur_binding r)"
  shows "\<exists>b p v. map_of (ar_bindings t) k = Some b \<and> map_of (ar_profiles t) (bd_profileId b) = Some p
     \<and> scopeOf b = (uc_workspaceId c, uc_applicationId c, uc_applicationTenantId c) \<and> ur_binding r = summaryOf b p
     \<and> ar_versions t = ar_versions s @ [v] \<and> bn_bindingId v = k \<and> bn_generation v = bd_generation b \<and> bn_snapshot v = ur_binding r
     \<and> (\<forall>w \<in> set (ar_versions s). bn_bindingId w = k \<longrightarrow> bn_generation w < bd_generation b)
     \<and> (case map_of (ar_bindings s) k of None \<Rightarrow> True | Some old \<Rightarrow> bd_generation b = bd_generation old + 1)"
proof (cases "bindingAt (uc_workspaceId c) (uc_applicationId c) (uc_applicationTenantId c) (ar_bindings s)")
  case (Some ko)
  then obtain j b where jb: "ko = (j, b)" by fastforce
  note b = bindingAt_some [OF Some [unfolded jb] ok]
  obtain p where p: "map_of (ar_profiles s) (bd_profileId b) = Some p" using stored_profile [OF ok b(1)] by blast
  have "bd_id b = j" using registryOkD(3) [OF ok b(1)] by (simp add: boundOk_def)
  moreover have "bn_generation w < bd_generation b + 1" if "w \<in> set (ar_versions s)" "bn_bindingId w = j" for w
    using versions b(1) that by (force simp: versionsOk_def)
  ultimately show ?thesis using run Some jb b p unfolding k_def
    by (auto simp: upsertBinding_def updateExisting_def js_simps toSummary_run Let_def update_conv' scopeOf_def summaryOf_def
        split: if_splits)
next
  case None
  let ?s = "s\<lparr>ar_ambient := snd (now (ar_ambient s))\<rparr>"
  let ?j = "idAt (ar_ambient s) (Suc (profileIndex c s))"
  have "?j \<notin> usedIds s" using fresh_id [OF ok] by (simp add: profileIndex_def)
  then have "bn_bindingId w \<noteq> ?j" if "w \<in> set (ar_versions s)" for w using versions that by (auto simp: versionsOk_def)
  moreover have "map_of (ar_bindings s) ?j = None" using \<open>?j \<notin> usedIds s\<close> bound_used [OF ok] by (metis not_None_eq)
  ultimately show ?thesis using run None unfolding k_def
    by (auto simp: upsertBinding_def createNew_def js_simps toSummary_run Let_def update_conv' scopeOf_def summaryOf_def newBinding_def
        profileIndex_def split: if_splits)
qed

lemma upsert_keeps_binding:
  assumes "upsertBinding c a s = (Inr r, t)" and "registryOk s" and "map_of (ar_bindings s) k = Some b"
    and "scopeOf b = (uc_workspaceId c, uc_applicationId c, uc_applicationTenantId c)"
  shows "bs_id (ur_binding r) = k \<and> (\<exists>d. map_of (ar_bindings t) k = Some d \<and> bd_profileId d = bd_profileId b)"
proof (cases "bindingAt (uc_workspaceId c) (uc_applicationId c) (uc_applicationTenantId c) (ar_bindings s)")
  case None
  then show ?thesis using bindingAt_none [OF None assms(3)] assms(4) by simp
next
  case (Some jo)
  then obtain j o' where jo: "jo = (j, o')" by fastforce
  note found = bindingAt_some [OF Some [unfolded jo] assms(2)]
  have "j = k" using registryOkD(4) [OF assms(2) found(1) assms(3)] found(2) assms(4) by (auto simp: apart_def)
  moreover then have "o' = b" "bd_id b = k"
    using found(1) assms(3) registryOkD(3) [OF assms(2,3)] by (simp_all add: boundOk_def)
  ultimately show ?thesis using assms(1) Some jo
    by (auto simp: upsertBinding_def updateExisting_def js_simps toSummary_run Let_def update_conv' summaryOf_def
        split: if_splits option.splits)
qed

text \<open>
  Rollback undoes an update. In a reachable registry, after an upsert and a second upsert for the same
  scope, rolling the binding back succeeds and gives back exactly the profile of the first upsert (provider,
  bucket, credentials and plan), as a new generation, enabled and to be probed again.
\<close>

theorem rollback_restores_profile:
  assumes "inj (idAt i)" and "registry_step\<^sup>*\<^sup>* (emptyRegistry i) s"
    and first: "upsertBinding c a s = (Inr r, t)" and second: "upsertBinding c' a' t = (Inr r', u)"
    and scope: "uc_workspaceId c' = uc_workspaceId c" "uc_applicationId c' = uc_applicationId c"
      "uc_applicationTenantId c' = uc_applicationTenantId c"
  shows "\<exists>x v. rollbackBinding (bs_id (ur_binding r)) actor u = (Inr x, v) \<and> bs_id x = bs_id (ur_binding r)
     \<and> bs_profile x = bs_profile (ur_binding r) \<and> bs_generation x = bs_generation (ur_binding r) + 2
     \<and> bs_status x = BindConfigured \<and> \<not> bs_disabled x"
proof -
  let ?k = "bs_id (ur_binding r)"
  have ok: "registryOk s" "versionsOk s" using reached_ok reached_versions assms(1,2) by blast+
  have t: "registryOk t" using upsertBinding_safe [OF ok(1) first] by (simp add: stepSafe_def)
  have vt: "versionsOk t" using versionsOk_step [OF ok(2) upsertBinding_safe [OF ok(1) first] upsertBinding_pushed [OF first ok(1)]] .
  have u: "registryOk u" using upsertBinding_safe [OF t second] by (simp add: stepSafe_def)
  from upsert_done [OF first ok] obtain b p v1 where b: "map_of (ar_bindings t) ?k = Some b" "map_of (ar_profiles t) (bd_profileId b) = Some p"
      "scopeOf b = (uc_workspaceId c, uc_applicationId c, uc_applicationTenantId c)" "ur_binding r = summaryOf b p"
    and v1: "ar_versions t = ar_versions s @ [v1]" "bn_bindingId v1 = ?k" "bn_generation v1 = bd_generation b" "bn_snapshot v1 = ur_binding r"
    and older: "\<forall>w \<in> set (ar_versions s). bn_bindingId w = ?k \<longrightarrow> bn_generation w < bd_generation b" by blast
  from upsert_done [OF second t vt] obtain d q v2 where d: "map_of (ar_bindings u) (bs_id (ur_binding r')) = Some d"
      "map_of (ar_profiles u) (bd_profileId d) = Some q" "scopeOf d = (uc_workspaceId c', uc_applicationId c', uc_applicationTenantId c')"
    and v2: "ar_versions u = ar_versions t @ [v2]" "bn_bindingId v2 = bs_id (ur_binding r')" "bn_generation v2 = bd_generation d"
    and grown: "case map_of (ar_bindings t) (bs_id (ur_binding r')) of None \<Rightarrow> True | Some old \<Rightarrow> bd_generation d = bd_generation old + 1" by blast
  have same: "bs_id (ur_binding r') = ?k" "bd_profileId d = bd_profileId b"
    using upsert_keeps_binding [OF second t b(1)] b(3) d(1) scope by auto
  have gen: "bd_generation d = bd_generation b + 1" using grown b(1) by (simp add: same)
  have "listBindingHistory ?k 2 u = [v2, v1]"
    unfolding listBindingHistory_def v2(1) v1(1)
    using latest_versions [of "filter (\<lambda>v. bn_bindingId v = ?k) (ar_versions s)" "bd_generation b" v1 v2] older v1(2,3) v2(2,3) gen same(1)
    by simp
  moreover have "sp_id q = sp_id p" using registryOkD(5) [OF t b(2)] registryOkD(5) [OF u d(2)] same(2) by simp
  moreover have "bd_id d = ?k" using registryOkD(3) [OF u d(1)] same(1) by (simp add: boundOk_def)
  ultimately show ?thesis
    using d gen v1 v2 b(4) same
    by (auto simp: rollbackBinding_def js_simps toSummary_run Let_def update_conv' summaryOf_def restoredProfile_def publicProfile_def)
qed

theorem rollback_restores_profile_witness:
  "\<exists>r t r' u x v. upsertBinding (sampleUpsert ''b1'') ''u'' (emptyRegistry sampleIds) = (Inr r, t)
     \<and> upsertBinding (sampleUpsert ''b2'') ''u'' t = (Inr r', u) \<and> rollbackBinding (bs_id (ur_binding r)) ''u'' u = (Inr x, v)
     \<and> bs_profile x = bs_profile (ur_binding r) \<and> bs_generation x = bs_generation (ur_binding r) + 2"
proof -
  obtain r t where first: "upsertBinding (sampleUpsert ''b1'') ''u'' (emptyRegistry sampleIds) = (Inr r, t)"
    and t: "t = snd (upsertBinding (sampleUpsert ''b1'') ''u'' (emptyRegistry sampleIds))"
    by (simp add: upsert_defs)
  obtain r' u where second: "upsertBinding (sampleUpsert ''b2'') ''u'' t = (Inr r', u)"
    unfolding t by (simp add: upsert_defs)
  from rollback_restores_profile [OF sampleIds_inj rtranclp.rtrancl_refl first second, of "''u''"] first second
  show ?thesis by (auto simp: sampleUpsert_def)
qed

text \<open>
  Updates do not overwrite each other. After an upsert has been made, an upsert for the same scope that
  expects any generation but the one the first returned is refused as a conflict, and bindings, profiles and
  versions stay as they are.
\<close>

theorem stale_upsert_conflicts:
  assumes "inj (idAt i)" and "registry_step\<^sup>*\<^sup>* (emptyRegistry i) s" and first: "upsertBinding c a s = (Inr r, t)"
    and scope: "uc_workspaceId c' = uc_workspaceId c" "uc_applicationId c' = uc_applicationId c"
      "uc_applicationTenantId c' = uc_applicationTenantId c"
    and stale: "uc_expectedGeneration c' = Some g" "g \<noteq> bs_generation (ur_binding r)"
  shows "\<exists>u. upsertBinding c' a' t = (Inl (codedError ''CONFLICT'' ''Storage binding generation conflict.''), u)
     \<and> ar_bindings u = ar_bindings t \<and> ar_profiles u = ar_profiles t \<and> ar_versions u = ar_versions t"
proof -
  have ok: "registryOk s" "versionsOk s" using reached_ok reached_versions assms(1,2) by blast+
  have t: "registryOk t" using upsertBinding_safe [OF ok(1) first] by (simp add: stepSafe_def)
  from upsert_done [OF first ok] obtain b p where b: "map_of (ar_bindings t) (bs_id (ur_binding r)) = Some b"
      "scopeOf b = (uc_workspaceId c, uc_applicationId c, uc_applicationTenantId c)" "ur_binding r = summaryOf b p" by blast
  then obtain j d where at: "bindingAt (uc_workspaceId c') (uc_applicationId c') (uc_applicationTenantId c') (ar_bindings t) = Some (j, d)"
    using bindingAt_none [OF _ b(1)] scope by (cases "bindingAt (uc_workspaceId c') (uc_applicationId c') (uc_applicationTenantId c') (ar_bindings t)") auto
  have "j = bs_id (ur_binding r)"
    using registryOkD(4) [OF t bindingAt_some(1) [OF at t] b(1)] bindingAt_some(2) [OF at t] b(2) scope by (auto simp: apart_def)
  then have "d = b" using bindingAt_some(1) [OF at t] b(1) by simp
  then show ?thesis using at stale b(3) by (simp add: upsertBinding_def updateExisting_def js_simps summaryOf_def)
qed

theorem stale_upsert_conflicts_witness:
  "\<exists>r t u. upsertBinding (sampleUpsert ''b1'') ''u'' (emptyRegistry sampleIds) = (Inr r, t)
     \<and> upsertBinding ((sampleUpsert ''b2'')\<lparr>uc_expectedGeneration := Some 0\<rparr>) ''v'' t
       = (Inl (codedError ''CONFLICT'' ''Storage binding generation conflict.''), u) \<and> ar_profiles u = ar_profiles t"
proof -
  obtain r t where first: "upsertBinding (sampleUpsert ''b1'') ''u'' (emptyRegistry sampleIds) = (Inr r, t)"
    and "bs_generation (ur_binding r) = 1"
    by (simp add: upsert_defs summaryOf_def)
  with stale_upsert_conflicts [OF sampleIds_inj rtranclp.rtrancl_refl first, of "(sampleUpsert ''b2'')\<lparr>uc_expectedGeneration := Some 0\<rparr>" 0 "''v''"]
  show ?thesis by (auto simp: sampleUpsert_def)
qed

text \<open>
  The ExternalId is disclosed more than once. An upsert of an existing binding returns an onboarding
  template, and the template holds the ExternalId as long as the profile has one, also after its only
  documented disclosure, on creation.
\<close>

theorem external_id_disclosed_again:
  assumes "registryOk s" and "bindingAt (uc_workspaceId c) (uc_applicationId c) (uc_applicationTenantId c) (ar_bindings s) = Some (k, b)"
    and "getExternalIdForTests (bd_profileId b) s = Some x" and "uc_expectedGeneration c = None"
  shows "\<exists>r t before rest. upsertBinding c a s = (Inr r, t) \<and> ur_externalId r = None
     \<and> ur_onboardingTemplate r = before @ ''TrustedExternalId: '' @ x @ rest"
proof -
  note b = bindingAt_some(1) [OF assms(2,1)]
  obtain p where p: "map_of (ar_profiles s) (bd_profileId b) = Some p" using stored_profile [OF assms(1) b] by blast
  have "sp_id p = bd_profileId b" by (rule registryOkD(5) [OF assms(1) p])
  have shown: "(case map_of (ar_externalIds s) (bd_profileId b) of Some y \<Rightarrow> y | None \<Rightarrow> textOr (sp_externalId p) d) = x" for d
    using assms(3) p by (auto simp: getExternalIdForTests_def textOr_def split: option.splits)
  have template: "\<exists>before rest. onboardingTemplate q j u = before @ ''TrustedExternalId: '' @ x @ rest"
    if "sp_id q = bd_profileId b" "sp_externalId q = sp_externalId p" "ar_externalIds u = ar_externalIds s" for q j u
    unfolding onboardingTemplate_def join.simps that shown
    by (rule exI [of _ "''# Trust Core BYOB role (CloudFormation-style sketch)'' @ [CHR 0x0A] @ (''Description: Binding '' @ j) @ [CHR 0x0A]"]) simp
  obtain r t q j u where run: "upsertBinding c a s = (Inr r, t)" "ur_externalId r = None" and made: "ur_onboardingTemplate r = onboardingTemplate q j u"
    and q: "sp_id q = bd_profileId b" "sp_externalId q = sp_externalId p" "ar_externalIds u = ar_externalIds s"
    using assms(2,4) p \<open>sp_id p = bd_profileId b\<close>
    by (fastforce simp: upsertBinding_def updateExisting_def js_simps toSummary_run Let_def update_conv' commandProfile_def)
  show ?thesis unfolding made [symmetric] using run template [OF q, of j] made by metis
qed

theorem external_id_disclosed_again_witness:
  "\<exists>s r t u before rest. upsertBinding ((sampleUpsert ''b1'')\<lparr>uc_credentialMode := CrossAccountRole\<rparr>) ''u'' (emptyRegistry sampleIds) = (Inr r, s)
     \<and> ur_externalId r = Some ''x'' \<and> upsertBinding (sampleUpsert ''b1'') ''v'' s = (Inr t, u) \<and> ur_externalId t = None
     \<and> ur_onboardingTemplate t = before @ ''TrustedExternalId: '' @ ''x'' @ rest"
proof -
  let ?c = "(sampleUpsert ''b1'')\<lparr>uc_credentialMode := CrossAccountRole\<rparr>"
  obtain s r where first: "upsertBinding ?c ''u'' (emptyRegistry sampleIds) = (Inr r, s)" and x: "ur_externalId r = Some ''x''"
    and s: "s = snd (upsertBinding ?c ''u'' (emptyRegistry sampleIds))"
    by (simp add: upsert_defs)
  have ok: "registryOk s" using upsertBinding_safe [OF emptyRegistry_ok [OF sampleIds_inj] first] by (simp add: stepSafe_def)
  obtain b where at: "bindingAt ''w'' ''a'' None (ar_bindings s) = Some (''xxx'', b)" and i: "getExternalIdForTests (bd_profileId b) s = Some ''x''"
    unfolding s by (simp add: upsert_defs getExternalIdForTests_def)
  have "bindingAt (uc_workspaceId (sampleUpsert ''b1'')) (uc_applicationId (sampleUpsert ''b1'')) (uc_applicationTenantId (sampleUpsert ''b1''))
      (ar_bindings s) = Some (''xxx'', b)" "uc_expectedGeneration (sampleUpsert ''b1'') = None"
    using at by (simp_all add: sampleUpsert_def)
  from external_id_disclosed_again [OF ok this(1) i this(2), of "''v''"] first x show ?thesis by blast
qed

text \<open>
  A probe ends a migration. A successful probe of a binding that is being migrated makes it connected
  again, in the same generation: writes to it are open again while its objects are being moved, and the
  cutover is then refused because the source is not migrating.
\<close>

theorem probe_ends_migration:
  assumes "registryOk s" and "map_of (ar_bindings s) i = Some b" and "bd_status b = BindMigrating" and "\<not> bd_disabled b"
    and "pb_ok inp" and "pb_expectedOwnerMatch inp \<noteq> Some False" and "map_of (ar_bindings s) j = Some c"
  shows "\<exists>r t. recordProbe i inp s = (Inr r, t) \<and> bs_status r = BindConnected \<and> bs_generation r = bd_generation b
     \<and> (\<exists>d. map_of (ar_bindings t) i = Some d \<and> rv_allowWrite (gate d inh sc ctx t))
     \<and> fst (cutoverMigrate i j ds a t) = Inl (plainError ''Source binding is not migrating'')"
proof -
  obtain p where p: "map_of (ar_profiles s) (bd_profileId b) = Some p" using stored_profile [OF assms(1,2)] by blast
  show ?thesis using assms(2-7) p
    by (cases "i = j")
      (auto simp: recordProbe_def changeBinding_def probed_def js_simps toSummary_run summaryOf_def update_conv' gate_def cutoverMigrate_def Let_def)
qed

theorem probe_ends_migration_witness:
  "\<exists>r t. recordProbe ''xx'' \<lparr>pb_ok = True, pb_summary = ''ok'', pb_issueClass = None, pb_expectedOwnerMatch = None\<rparr> sampleMigration = (Inr r, t)
     \<and> bs_status r = BindConnected
     \<and> fst (cutoverMigrate ''xx'' ''xxxx'' [(''o'', ''h'')] ''u'' t) = Inl (plainError ''Source binding is not migrating'')"
  using probe_ends_migration [OF sampleMigration_ok, of "''xx''" "sampleBinding ''xx'' ''a'' ''x'' BindMigrating"
      "\<lparr>pb_ok = True, pb_summary = ''ok'', pb_issueClass = None, pb_expectedOwnerMatch = None\<rparr>" "''xxxx''"
      "sampleBinding ''xxxx'' ''b'' ''xxx'' BindConnected" FromNone RouteApp sampleRequest "[(''o'', ''h'')]" "''u''"]
  by (auto simp: sampleMigration_def emptyRegistry_def sampleBinding_def newBinding_def)

end
