(* ===== verification/Identity.thy ===== *)
theory Identity
  imports Json Policy Database
begin

text \<open>
  \<open>packages/identity/src/oidc.ts\<close>, \<open>provider.ts\<close> and \<open>acceptance.ts\<close>, and \<open>identity-store.ts\<close> of the
  database: login with an identity provider, and the sessions it creates.

  The digest of \<open>node:crypto\<close> is \<open>sha\<close>; random tokens are numbered values; \<open>dp\<close> is \<open>Date.parse\<close> and
  \<open>toIso\<close> is \<open>toISOString\<close>, which throws outside its range. Timestamps are ISO texts, in the tables too,
  and the database compares them as \<open>dp\<close> does.
\<close>

section \<open>Data\<close>

record identityClaims =
  ic_subject :: string
  ic_issuer :: string
  ic_displayName :: string
  ic_email :: "string option"
  ic_roles :: "string list"
  ic_workspaceIds :: "string list"
  ic_nonce :: string

text \<open>
  A role of an actor is a text of the role map. A claim that names a member every object inherits reads
  that member, a value that is no text; JSON writes it as \<open>null\<close> or as an empty object.
\<close>

datatype actorRole = RoleNamed string | RoleMember string | RoleOther

record authenticatedActor =
  ac_id :: string
  ac_displayName :: string
  ac_principalType :: "principalType option"
  ac_roles :: "actorRole list"
  ac_workspaceIds :: "string list"

record loginTransaction =
  lt_stateHash :: string
  lt_browserBindingHash :: string
  lt_nonce :: string
  lt_codeVerifier :: string
  lt_redirectUri :: string
  lt_returnTo :: string
  lt_expiresAt :: string

record identitySessionRecord =
  se_sessionHash :: string
  se_csrfHash :: string
  se_actor :: authenticatedActor
  se_createdAt :: string
  se_expiresAt :: string
  se_lastSeenAt :: string

record 's identityStore =
  is_saveLogin :: "loginTransaction \<Rightarrow> ('s, unit) js"
  is_consumeLogin :: "string \<Rightarrow> ('s, loginTransaction option) js"
  is_createSession :: "identitySessionRecord \<Rightarrow> ('s, unit) js"
  is_getSession :: "string \<Rightarrow> ('s, identitySessionRecord option) js"
  is_revokeSession :: "string \<Rightarrow> ('s, unit) js"

record codeExchange =
  ex_code :: string
  ex_codeVerifier :: string
  ex_redirectUri :: string
  ex_expectedNonce :: string

record 'p oidcProvider =
  ov_authorizationEndpoint :: "('p, string) js"
  ov_exchangeCode :: "codeExchange \<Rightarrow> ('p, identityClaims) js"

record oidcServiceConfig =
  cf_clientId :: string
  cf_redirectUri :: string
  cf_sessionLifetimeMs :: "int option"
  cf_loginLifetimeMs :: "int option"
  cf_allowedReturnPaths :: "string list option"
  cf_roleMap :: "(string \<times> string) list option"

text \<open>The standard library as the service uses it.\<close>

record identityHost =
  ho_sha :: "bytes \<Rightarrow> string"
  ho_base64Sha :: "bytes \<Rightarrow> string"
  ho_dateParse :: "string \<Rightarrow> int option"
  ho_toIso :: "int \<Rightarrow> js_error + string"
  ho_withQuery :: "string \<Rightarrow> (string \<times> string) list \<Rightarrow> js_error + string"

text \<open>The state: store, provider, the readings of the clock and the random tokens.\<close>

record ('s, 'p) identityWorld =
  iw_store :: 's
  iw_provider :: 'p
  iw_clock :: "nat \<Rightarrow> int"
  iw_ticks :: nat
  iw_tokens :: "nat \<Rightarrow> string"
  iw_drawn :: nat

definition identityError :: "string \<Rightarrow> string \<Rightarrow> js_error" where
  "identityError code message = JsError ''IdentityError'' (Some code) message"

definition hash :: "identityHost \<Rightarrow> string \<Rightarrow> string" where
  "hash h v = ho_sha h (utf8 v)"

definition base64Hash :: "identityHost \<Rightarrow> string \<Rightarrow> string" where
  "base64Hash h v = ho_base64Sha h (utf8 v)"

definition safeEqual :: "string \<Rightarrow> string \<Rightarrow> bool" where
  "safeEqual a b = (let left = utf8 a; right = utf8 b in length left = length right \<and> left = right)"

definition onIdentityStore :: "('s, 'a) js \<Rightarrow> (('s, 'p) identityWorld, 'a) js" where
  "onIdentityStore m = within iw_store (\<lambda>x w. w\<lparr>iw_store := x\<rparr>) m"

definition onProvider :: "('p, 'a) js \<Rightarrow> (('s, 'p) identityWorld, 'a) js" where
  "onProvider m = within iw_provider (\<lambda>x w. w\<lparr>iw_provider := x\<rparr>) m"

definition identityNow :: "(('s, 'p) identityWorld, int) js" where
  "identityNow = (\<lambda>w. (Inr (iw_clock w (iw_ticks w)), w\<lparr>iw_ticks := Suc (iw_ticks w)\<rparr>))"

definition token :: "(('s, 'p) identityWorld, string) js" where
  "token = (\<lambda>w. (Inr (iw_tokens w (iw_drawn w)), w\<lparr>iw_drawn := Suc (iw_drawn w)\<rparr>))"

text \<open>\<open>[...new Set(xs)]\<close>\<close>

definition uniqueValues :: "'a list \<Rightarrow> 'a list" where
  "uniqueValues xs = rev (remdups (rev xs))"

section \<open>The service\<close>

definition safeReturn :: "oidcServiceConfig \<Rightarrow> string \<Rightarrow> string" where
  "safeReturn cfg v =
     (let allowed = (case cf_allowedReturnPaths cfg of None \<Rightarrow> [''/''] | Some ps \<Rightarrow> ps) in
      if \<not> startsWith v ''/'' \<or> startsWith v ''//'' \<or> \<not> list_ex (\<lambda>p. v = p \<or> startsWith v (p @ ''/'')) allowed
      then ''/'' else v)"

definition defaultRoleMap :: "(string \<times> string) list" where
  "defaultRoleMap = [(''owner'', ''owner''), (''admin'', ''admin''), (''editor'', ''editor''),
     (''recovery_operator'', ''recovery_operator''), (''auditor'', ''auditor'')]"

definition mappedRole :: "(string \<times> string) list \<Rightarrow> string \<Rightarrow> actorRole option" where
  "mappedRole roleMap role =
     (case readSlot roleMap role of
        Own r \<Rightarrow> if r = [] then None else Some (RoleNamed r)
      | Inherited \<Rightarrow> Some (RoleMember role)
      | Missing \<Rightarrow> None)"

definition mapActor :: "oidcServiceConfig \<Rightarrow> identityClaims \<Rightarrow> js_error + authenticatedActor" where
  "mapActor cfg claims =
     (let roleMap = (case cf_roleMap cfg of None \<Rightarrow> defaultRoleMap | Some m \<Rightarrow> m);
          roles = uniqueValues (List.map_filter (mappedRole roleMap) (ic_roles claims)) in
      if roles = [] \<or> ic_workspaceIds claims = []
      then Inl (identityError ''OIDC_CLAIMS_DENIED'' ''Identity has no permitted Trust Core role or workspace.'')
      else Inr \<lparr>ac_id = ic_issuer claims @ ''#'' @ ic_subject claims, ac_displayName = ic_displayName claims,
             ac_principalType = None, ac_roles = roles, ac_workspaceIds = uniqueValues (ic_workspaceIds claims)\<rparr>)"

record oidcLoginResult =
  ol_authorizationUrl :: string
  ol_browserBinding :: string

definition beginLogin ::
  "identityHost \<Rightarrow> 's identityStore \<Rightarrow> 'p oidcProvider \<Rightarrow> oidcServiceConfig \<Rightarrow> string \<Rightarrow> (('s, 'p) identityWorld, oidcLoginResult) js" where
  "beginLogin h store provider cfg returnTo =
     andThen token (\<lambda>state.
     andThen token (\<lambda>browserBinding.
     andThen token (\<lambda>nonce.
     andThen token (\<lambda>codeVerifier.
     andThen identityNow (\<lambda>at.
     andThen (lifting (ho_toIso h (at + (case cf_loginLifetimeMs cfg of None \<Rightarrow> 300000 | Some l \<Rightarrow> l)))) (\<lambda>expiresAt.
     andThen (onIdentityStore (is_saveLogin store \<lparr>lt_stateHash = hash h state, lt_browserBindingHash = hash h browserBinding,
         lt_nonce = nonce, lt_codeVerifier = codeVerifier, lt_redirectUri = cf_redirectUri cfg,
         lt_returnTo = safeReturn cfg returnTo, lt_expiresAt = expiresAt\<rparr>)) (\<lambda>_.
     andThen (onProvider (ov_authorizationEndpoint provider)) (\<lambda>endpoint.
     andThen (lifting (ho_withQuery h endpoint [(''response_type'', ''code''), (''client_id'', cf_clientId cfg),
         (''redirect_uri'', cf_redirectUri cfg), (''scope'', ''openid profile email''), (''state'', state), (''nonce'', nonce),
         (''code_challenge'', base64Hash h codeVerifier), (''code_challenge_method'', ''S256'')])) (\<lambda>url.
       ret \<lparr>ol_authorizationUrl = url, ol_browserBinding = browserBinding\<rparr>)))))))))"

record loginCallback =
  lc_state :: string
  lc_code :: string
  lc_browserBinding :: string

record oidcSessionResult =
  os_sessionId :: string
  os_csrfToken :: string
  os_actor :: authenticatedActor
  os_expiresAt :: string
  os_returnTo :: string

definition startSession ::
  "identityHost \<Rightarrow> 's identityStore \<Rightarrow> oidcServiceConfig \<Rightarrow> authenticatedActor \<Rightarrow> string \<Rightarrow> (('s, 'p) identityWorld, oidcSessionResult) js" where
  "startSession h store cfg actor returnTo =
     andThen token (\<lambda>sessionId.
     andThen token (\<lambda>csrfToken.
     andThen identityNow (\<lambda>at.
     andThen (lifting (ho_toIso h at)) (\<lambda>createdAt.
     andThen identityNow (\<lambda>later.
     andThen (lifting (ho_toIso h (later + (case cf_sessionLifetimeMs cfg of None \<Rightarrow> 1800000 | Some l \<Rightarrow> l)))) (\<lambda>expiresAt.
     andThen (onIdentityStore (is_createSession store \<lparr>se_sessionHash = hash h sessionId, se_csrfHash = hash h csrfToken,
         se_actor = actor, se_createdAt = createdAt, se_expiresAt = expiresAt, se_lastSeenAt = createdAt\<rparr>)) (\<lambda>_.
       ret \<lparr>os_sessionId = sessionId, os_csrfToken = csrfToken, os_actor = actor, os_expiresAt = expiresAt,
            os_returnTo = returnTo\<rparr>)))))))"

definition completeLogin ::
  "identityHost \<Rightarrow> 's identityStore \<Rightarrow> 'p oidcProvider \<Rightarrow> oidcServiceConfig \<Rightarrow> loginCallback \<Rightarrow> (('s, 'p) identityWorld, oidcSessionResult) js" where
  "completeLogin h store provider cfg inp =
     andThen (onIdentityStore (is_consumeLogin store (hash h (lc_state inp)))) (\<lambda>found.
       case found of
         None \<Rightarrow> throw (identityError ''OIDC_STATE_INVALID'' ''Login state is invalid or already used.'')
       | Some login \<Rightarrow>
           if \<not> safeEqual (lt_browserBindingHash login) (hash h (lc_browserBinding inp))
           then throw (identityError ''OIDC_BROWSER_BINDING_INVALID'' ''Login callback did not originate from the initiating browser.'')
           else
             andThen identityNow (\<lambda>at.
               if dateLe (ho_dateParse h (lt_expiresAt login)) (Some at)
               then throw (identityError ''OIDC_STATE_EXPIRED'' ''Login state has expired.'')
               else
                 andThen (onProvider (ov_exchangeCode provider \<lparr>ex_code = lc_code inp, ex_codeVerifier = lt_codeVerifier login,
                     ex_redirectUri = lt_redirectUri login, ex_expectedNonce = lt_nonce login\<rparr>)) (\<lambda>claims.
                   if ic_nonce claims \<noteq> lt_nonce login
                   then throw (identityError ''OIDC_NONCE_INVALID'' ''Identity nonce validation failed.'')
                   else andThen (lifting (mapActor cfg claims)) (\<lambda>actor. startSession h store cfg actor (lt_returnTo login)))))"

definition authenticateSession ::
  "identityHost \<Rightarrow> 's identityStore \<Rightarrow> string \<Rightarrow> string option \<Rightarrow> bool \<Rightarrow> (('s, 'p) identityWorld, authenticatedActor option) js" where
  "authenticateSession h store sessionId csrfToken mutation =
     andThen (onIdentityStore (is_getSession store (hash h sessionId))) (\<lambda>found.
       case found of
         None \<Rightarrow> ret None
       | Some r \<Rightarrow>
           andThen identityNow (\<lambda>at.
             ret (if dateLe (ho_dateParse h (se_expiresAt r)) (Some at) \<or> mutation \<and> \<not> truthy csrfToken
                     \<or> mutation \<and> \<not> safeEqual (se_csrfHash r) (hash h (the csrfToken))
                  then None else Some (se_actor r))))"

definition revokeSession :: "identityHost \<Rightarrow> 's identityStore \<Rightarrow> string \<Rightarrow> (('s, 'p) identityWorld, unit) js" where
  "revokeSession h store sessionId = onIdentityStore (is_revokeSession store (hash h sessionId))"

section \<open>The store in the database\<close>

record sessionRow = identitySessionRecord +
  sr_revokedAt :: "string option"

record identityTables =
  dt_logins :: "(string \<times> loginTransaction) list"
  dt_sessions :: "(string \<times> sessionRow) list"
  dt_now :: string

definition storedRole :: "actorRole \<Rightarrow> actorRole" where
  "storedRole r = (case r of RoleNamed x \<Rightarrow> RoleNamed x | _ \<Rightarrow> RoleOther)"

definition storedActor :: "authenticatedActor \<Rightarrow> authenticatedActor" where
  "storedActor a = a\<lparr>ac_roles := map storedRole (ac_roles a)\<rparr>"

definition pgSaveLogin :: "loginTransaction \<Rightarrow> (identityTables, unit) js" where
  "pgSaveLogin v =
     andThen (reading (\<lambda>t. map_of (dt_logins t) (lt_stateHash v))) (\<lambda>found.
       if found \<noteq> None then throw uniqueViolation
       else updating (\<lambda>t. t\<lparr>dt_logins := dt_logins t @ [(lt_stateHash v, v)]\<rparr>))"

definition pgConsumeLogin :: "string \<Rightarrow> (identityTables, loginTransaction option) js" where
  "pgConsumeLogin stateHash =
     andThen (reading (\<lambda>t. map_of (dt_logins t) stateHash)) (\<lambda>found.
     andThen (updating (\<lambda>t. t\<lparr>dt_logins := AList.delete stateHash (dt_logins t)\<rparr>)) (\<lambda>_. ret found))"

definition pgCreateSession :: "identitySessionRecord \<Rightarrow> (identityTables, unit) js" where
  "pgCreateSession v =
     andThen (reading (\<lambda>t. map_of (dt_sessions t) (se_sessionHash v))) (\<lambda>found.
       if found \<noteq> None then throw uniqueViolation
       else updating (\<lambda>t. t\<lparr>dt_sessions := dt_sessions t
         @ [(se_sessionHash v, identitySessionRecord.extend (v\<lparr>se_actor := storedActor (se_actor v)\<rparr>) \<lparr>sr_revokedAt = None\<rparr>)]\<rparr>))"

definition liveRow :: "(string \<Rightarrow> int option) \<Rightarrow> identityTables \<Rightarrow> sessionRow \<Rightarrow> bool" where
  "liveRow dp t r \<longleftrightarrow> sr_revokedAt r = None \<and> dateLess (dp (dt_now t)) (dp (se_expiresAt r))"

definition pgGetSession :: "(string \<Rightarrow> int option) \<Rightarrow> string \<Rightarrow> (identityTables, identitySessionRecord option) js" where
  "pgGetSession dp sessionHash =
     andThen (reading (\<lambda>t. (t, map_of (dt_sessions t) sessionHash))) (\<lambda>(t, found).
       case found of
         None \<Rightarrow> ret None
       | Some r \<Rightarrow>
           if liveRow dp t r
           then let seen = r\<lparr>se_lastSeenAt := dt_now t\<rparr> in
                andThen (updating (\<lambda>t. t\<lparr>dt_sessions := AList.update sessionHash seen (dt_sessions t)\<rparr>)) (\<lambda>_.
                  ret (Some (identitySessionRecord.truncate seen)))
           else ret None)"

definition pgRevokeSession :: "string \<Rightarrow> (identityTables, unit) js" where
  "pgRevokeSession sessionHash =
     updating (\<lambda>t. case map_of (dt_sessions t) sessionHash of
         None \<Rightarrow> t
       | Some r \<Rightarrow> if sr_revokedAt r \<noteq> None then t
           else t\<lparr>dt_sessions := AList.update sessionHash (r\<lparr>sr_revokedAt := Some (dt_now t)\<rparr>) (dt_sessions t)\<rparr>)"

definition postgresIdentityStore :: "(string \<Rightarrow> int option) \<Rightarrow> identityTables identityStore" where
  "postgresIdentityStore dp = \<lparr>is_saveLogin = pgSaveLogin, is_consumeLogin = pgConsumeLogin, is_createSession = pgCreateSession,
     is_getSession = pgGetSession dp, is_revokeSession = pgRevokeSession\<rparr>"

end
