(* ===== verification/IdentityProvider.thy ===== *)
theory IdentityProvider
  imports Identity Recovery
begin

text \<open>
  \<open>packages/identity/src/provider.ts\<close>, the client of a standard identity provider, and
  \<open>acceptance.ts\<close>, the gate on the evidence of its acceptance tests.

  \<open>fetch\<close>, the verification of a JWT by the library \<open>jose\<close>, base64 and the URL parser are arguments. A
  request is answered in the order it is made.
\<close>

section \<open>The provider\<close>

record oidcProviderConfig =
  pc_issuer :: string
  pc_clientId :: string
  pc_clientSecret :: "string option"
  pc_roleClaim :: "string option"
  pc_workspaceClaim :: "string option"
  pc_allowedAlgorithms :: "string list option"

record discovery =
  dc_issuer :: string
  dc_authorizationEndpoint :: string
  dc_tokenEndpoint :: string
  dc_jwksUri :: string

record fetchRequest =
  fq_url :: string
  fq_method :: string
  fq_headers :: "(string \<times> string) list"
  fq_body :: "(string \<times> string) list"

record fetchResponse =
  fr_ok :: bool
  fr_status :: int
  fr_json :: "js_error + json"

text \<open>The payload of a verified token: the library types subject and issuer as texts that may be absent.\<close>

record jwtPayload =
  jp_sub :: "string option"
  jp_iss :: "string option"
  jp_claims :: "(string \<times> json) list"

record jwtOptions =
  jo_issuer :: string
  jo_audience :: string
  jo_algorithms :: "string list"

record 'n webHost =
  wh_fetch :: "fetchRequest \<Rightarrow> ('n, fetchResponse) js"
  wh_jwtVerify :: "string \<Rightarrow> string \<Rightarrow> jwtOptions \<Rightarrow> ('n, jwtPayload) js"
  wh_base64 :: "bytes \<Rightarrow> string"

record 'n providerState =
  ps_discovery :: "(js_error + discovery) option"
  ps_net :: 'n

definition onNet :: "('n, 'a) js \<Rightarrow> ('n providerState, 'a) js" where
  "onNet m = within ps_net (\<lambda>n s. s\<lparr>ps_net := n\<rparr>) m"

definition newProvider :: "oidcProviderConfig \<Rightarrow> 'n \<Rightarrow> js_error + 'n providerState" where
  "newProvider cfg n =
     (if startsWith (pc_issuer cfg) ''https://'' then Inr \<lparr>ps_discovery = None, ps_net = n\<rparr>
      else Inl (plainError ''OIDC issuer must use HTTPS.''))"

definition falsyJson :: "json \<Rightarrow> bool" where
  "falsyJson v = (v = JUndef \<or> v = JNull \<or> v = JBool False \<or> v = JNum 0 \<or> v = JStr [])"

definition jsonMember :: "json \<Rightarrow> string \<Rightarrow> json" where
  "jsonMember v k = (case v of JObj r \<Rightarrow> getProp r k | _ \<Rightarrow> JUndef)"

definition wrongType :: js_error where
  "wrongType = JsError ''TypeError'' None ''Cannot read a member of this value''"

definition httpsEndpoint :: "json \<Rightarrow> js_error + string" where
  "httpsEndpoint v =
     (case asString v of
        None \<Rightarrow> Inl wrongType
      | Some e \<Rightarrow> if startsWith e ''https://'' then Inr e else Inl (plainError ''OIDC endpoints must use HTTPS.''))"

definition checkMetadata :: "oidcProviderConfig \<Rightarrow> json \<Rightarrow> js_error + discovery" where
  "checkMetadata cfg v =
     (if v = JNull \<or> v = JUndef then Inl wrongType
      else if jsonMember v ''issuer'' \<noteq> JStr (pc_issuer cfg) \<or> falsyJson (jsonMember v ''authorization_endpoint'')
         \<or> falsyJson (jsonMember v ''token_endpoint'') \<or> falsyJson (jsonMember v ''jwks_uri'')
      then Inl (plainError ''OIDC discovery metadata is invalid.'')
      else
        seqR (httpsEndpoint (jsonMember v ''authorization_endpoint'')) (\<lambda>authorization.
        seqR (httpsEndpoint (jsonMember v ''token_endpoint'')) (\<lambda>tok.
        seqR (httpsEndpoint (jsonMember v ''jwks_uri'')) (\<lambda>jwks.
          Inr \<lparr>dc_issuer = pc_issuer cfg, dc_authorizationEndpoint = authorization, dc_tokenEndpoint = tok, dc_jwksUri = jwks\<rparr>))))"

definition withoutSlash :: "string \<Rightarrow> string" where
  "withoutSlash s = (if s \<noteq> [] \<and> last s = CHR ''/'' then butlast s else s)"

definition loadMetadata :: "'n webHost \<Rightarrow> oidcProviderConfig \<Rightarrow> ('n, discovery) js" where
  "loadMetadata web cfg =
     andThen (wh_fetch web \<lparr>fq_url = withoutSlash (pc_issuer cfg) @ ''/.well-known/openid-configuration'', fq_method = ''GET'',
         fq_headers = [(''accept'', ''application/json'')], fq_body = []\<rparr>) (\<lambda>response.
       if \<not> fr_ok response then throw (plainError (''OIDC discovery failed ('' @ show_int (fr_status response) @ '').''))
       else andThen (lifting (fr_json response)) (\<lambda>v. lifting (checkMetadata cfg v)))"

text \<open>\<open>this.discovery ??= this.loadMetadata()\<close>: the promise is kept, settled either way.\<close>

definition metadata :: "'n webHost \<Rightarrow> oidcProviderConfig \<Rightarrow> ('n providerState, discovery) js" where
  "metadata web cfg = (\<lambda>s.
     case ps_discovery s of
       Some r \<Rightarrow> (r, s)
     | None \<Rightarrow> (case loadMetadata web cfg (ps_net s) of (r, n) \<Rightarrow> (r, s\<lparr>ps_discovery := Some r, ps_net := n\<rparr>)))"

definition authorizationEndpoint :: "'n webHost \<Rightarrow> oidcProviderConfig \<Rightarrow> ('n providerState, string) js" where
  "authorizationEndpoint web cfg = andThen (metadata web cfg) (\<lambda>d. ret (dc_authorizationEndpoint d))"

text \<open>\<open>value.split(/[ ,]+/).filter(Boolean)\<close>\<close>

fun claimWords :: "string \<Rightarrow> string \<Rightarrow> string list" where
  "claimWords word [] = (if word = [] then [] else [word])"
| "claimWords word (c # cs) =
     (if c = CHR '' '' \<or> c = CHR '','' then (if word = [] then claimWords [] cs else word # claimWords [] cs)
      else claimWords (word @ [c]) cs)"

definition claimArray :: "json \<Rightarrow> string list" where
  "claimArray v = (case v of JArr vs \<Rightarrow> List.map_filter asString vs | JStr s \<Rightarrow> claimWords [] s | _ \<Rightarrow> [])"

definition nameOr :: "string option \<Rightarrow> string \<Rightarrow> string" where
  "nameOr x d = (case x of None \<Rightarrow> d | Some s \<Rightarrow> s)"

definition claimsOf :: "oidcProviderConfig \<Rightarrow> string \<Rightarrow> string \<Rightarrow> jwtPayload \<Rightarrow> identityClaims" where
  "claimsOf cfg nonce subject p =
     (let name = asString (getProp (jp_claims p) ''name''); email = asString (getProp (jp_claims p) ''email'') in
      \<lparr>ic_subject = subject, ic_issuer = nameOr (jp_iss p) (pc_issuer cfg),
       ic_displayName = (case name of Some n \<Rightarrow> n | None \<Rightarrow> (case email of Some e \<Rightarrow> e | None \<Rightarrow> subject)),
       ic_email = email, ic_roles = claimArray (getProp (jp_claims p) (nameOr (pc_roleClaim cfg) ''roles'')),
       ic_workspaceIds = claimArray (getProp (jp_claims p) (nameOr (pc_workspaceClaim cfg) ''trust_workspaces'')), ic_nonce = nonce\<rparr>)"

definition verifyOptions :: "oidcProviderConfig \<Rightarrow> jwtOptions" where
  "verifyOptions cfg = \<lparr>jo_issuer = pc_issuer cfg, jo_audience = pc_clientId cfg,
     jo_algorithms = (case pc_allowedAlgorithms cfg of None \<Rightarrow> [''RS256'', ''PS256'', ''ES256''] | Some as \<Rightarrow> as)\<rparr>"

definition tokenRequest :: "'n webHost \<Rightarrow> oidcProviderConfig \<Rightarrow> discovery \<Rightarrow> codeExchange \<Rightarrow> fetchRequest" where
  "tokenRequest web cfg d inp = \<lparr>fq_url = dc_tokenEndpoint d, fq_method = ''POST'',
     fq_headers = [(''content-type'', ''application/x-www-form-urlencoded''), (''accept'', ''application/json'')]
       @ (if truthy (pc_clientSecret cfg)
          then [(''authorization'', ''Basic '' @ wh_base64 web (utf8 (pc_clientId cfg @ '':'' @ the (pc_clientSecret cfg))))] else []),
     fq_body = [(''grant_type'', ''authorization_code''), (''code'', ex_code inp), (''redirect_uri'', ex_redirectUri inp),
       (''client_id'', pc_clientId cfg), (''code_verifier'', ex_codeVerifier inp)]\<rparr>"

text \<open>An identifier token that is no text is left to the library, which refuses it.\<close>

definition exchangeCode :: "'n webHost \<Rightarrow> oidcProviderConfig \<Rightarrow> codeExchange \<Rightarrow> ('n providerState, identityClaims) js" where
  "exchangeCode web cfg inp =
     andThen (metadata web cfg) (\<lambda>d.
     andThen (onNet (wh_fetch web (tokenRequest web cfg d inp))) (\<lambda>response.
       if \<not> fr_ok response then throw (plainError (''OIDC token exchange failed ('' @ show_int (fr_status response) @ '').''))
       else
         andThen (lifting (fr_json response)) (\<lambda>tokens.
           if tokens = JNull \<or> tokens = JUndef then throw wrongType
           else if falsyJson (jsonMember tokens ''id_token'') then throw (plainError ''OIDC token response omitted id_token.'')
           else
             (case asString (jsonMember tokens ''id_token'') of
                None \<Rightarrow> throw wrongType
              | Some idToken \<Rightarrow>
                  andThen (onNet (wh_jwtVerify web idToken (dc_jwksUri d) (verifyOptions cfg))) (\<lambda>p.
                    if getProp (jp_claims p) ''nonce'' \<noteq> JStr (ex_expectedNonce inp)
                    then throw (plainError ''OIDC nonce validation failed.'')
                    else if \<not> truthy (jp_sub p) then throw (plainError ''OIDC ID token omitted subject.'')
                    else ret (claimsOf cfg (ex_expectedNonce inp) (the (jp_sub p)) p))))))"

definition standardsOidcProvider :: "'n webHost \<Rightarrow> oidcProviderConfig \<Rightarrow> 'n providerState oidcProvider" where
  "standardsOidcProvider web cfg = \<lparr>ov_authorizationEndpoint = authorizationEndpoint web cfg, ov_exchangeCode = exchangeCode web cfg\<rparr>"

section \<open>The acceptance gate\<close>

datatype oidcAcceptanceCheck =
  AuthorizationCodePkce | DenyByDefaultClaimMapping | MfaOrPasskeyAssurance | UserDisablement | SessionRevocation
  | FreshSamePrincipalReauthentication

definition oidcAcceptanceChecks :: "oidcAcceptanceCheck list" where
  "oidcAcceptanceChecks = [AuthorizationCodePkce, DenyByDefaultClaimMapping, MfaOrPasskeyAssurance, UserDisablement, SessionRevocation,
     FreshSamePrincipalReauthentication]"

primrec checkName :: "oidcAcceptanceCheck \<Rightarrow> string" where
  "checkName AuthorizationCodePkce = ''authorization_code_pkce''"
| "checkName DenyByDefaultClaimMapping = ''deny_by_default_claim_mapping''"
| "checkName MfaOrPasskeyAssurance = ''mfa_or_passkey_assurance''"
| "checkName UserDisablement = ''user_disablement''"
| "checkName SessionRevocation = ''session_revocation''"
| "checkName FreshSamePrincipalReauthentication = ''fresh_same_principal_reauthentication''"

record oidcAcceptanceResult =
  oa_check :: oidcAcceptanceCheck
  oa_passed :: bool
  oa_occurredAt :: string
  oa_evidenceUri :: string

record oidcAcceptanceEvidence =
  oe_sourceCommit :: string
  oe_issuer :: string
  oe_tenantReference :: string
  oe_results :: "oidcAcceptanceResult list"

definition textWhen :: "bool \<Rightarrow> string \<Rightarrow> string list" where
  "textWhen b t = (if b then [t] else [])"

definition resultIssues :: "(string \<Rightarrow> int option) \<Rightarrow> oidcAcceptanceResult \<Rightarrow> string list" where
  "resultIssues dp r =
     textWhen (\<not> oa_passed r) (''OIDC acceptance check failed: '' @ checkName (oa_check r) @ ''.'')
     @ textWhen (dp (oa_occurredAt r) = None) (''OIDC acceptance timestamp is invalid: '' @ checkName (oa_check r) @ ''.'')
     @ textWhen (\<not> isEvidenceUri (oa_evidenceUri r)) (''OIDC acceptance evidence URI is invalid: '' @ checkName (oa_check r) @ ''.'')"

fun checkResults ::
  "(string \<Rightarrow> int option) \<Rightarrow> oidcAcceptanceResult list \<Rightarrow> oidcAcceptanceCheck list \<Rightarrow> string list \<Rightarrow> oidcAcceptanceCheck list \<times> string list" where
  "checkResults dp [] seen issues = (seen, issues)"
| "checkResults dp (r # rs) seen issues =
     (if oa_check r \<in> set seen
      then checkResults dp rs seen (issues @ [''OIDC acceptance check is duplicated: '' @ checkName (oa_check r) @ ''.''])
      else checkResults dp rs (seen @ [oa_check r]) (issues @ resultIssues dp r))"

text \<open>\<open>https\<close> is \<open>new URL(value).protocol === "https:"\<close>, false where the parser throws.\<close>

definition evaluateOidcAcceptance :: "(string \<Rightarrow> int option) \<Rightarrow> (string \<Rightarrow> bool) \<Rightarrow> oidcAcceptanceEvidence \<Rightarrow> bool \<times> string list" where
  "evaluateOidcAcceptance dp https e =
     (let issues0 = textWhen (\<not> isCommitHash (oe_sourceCommit e)) ''OIDC evidence must identify an exact Git commit.''
            @ textWhen (\<not> https (oe_issuer e)) ''OIDC issuer must use HTTPS.''
            @ textWhen (trim (oe_tenantReference e) = []) ''OIDC evidence must identify the tested tenant.'';
          (seen, issues1) = checkResults dp (oe_results e) [] issues0;
          issues = issues1 @ concat (map (\<lambda>c. textWhen (c \<notin> set seen) (''OIDC acceptance check is missing: '' @ checkName c @ ''.'')) oidcAcceptanceChecks) in
      (issues = [], issues))"

section \<open>Properties\<close>

definition goodDiscovery :: "oidcProviderConfig \<Rightarrow> discovery \<Rightarrow> bool" where
  "goodDiscovery cfg d \<longleftrightarrow> dc_issuer d = pc_issuer cfg \<and> startsWith (dc_authorizationEndpoint d) ''https://''
     \<and> startsWith (dc_tokenEndpoint d) ''https://'' \<and> startsWith (dc_jwksUri d) ''https://''"

definition discoveryOk :: "oidcProviderConfig \<Rightarrow> 'n providerState \<Rightarrow> bool" where
  "discoveryOk cfg s \<longleftrightarrow> (case ps_discovery s of Some (Inr d) \<Rightarrow> goodDiscovery cfg d | _ \<Rightarrow> True)"

lemma checkMetadata_good: "checkMetadata cfg v = Inr d \<Longrightarrow> goodDiscovery cfg d"
  by (auto simp: checkMetadata_def httpsEndpoint_def goodDiscovery_def seqR_eq_Inr split: if_splits option.splits)

lemma loadMetadata_good: "loadMetadata web cfg n = (Inr d, n') \<Longrightarrow> goodDiscovery cfg d"
  by (auto simp: loadMetadata_def js_ok dest: checkMetadata_good split: if_splits)

lemma metadata_good:
  assumes "metadata web cfg s = (r, t)" and "discoveryOk cfg s"
  shows "discoveryOk cfg t" and "r = Inr d \<Longrightarrow> goodDiscovery cfg d"
  using assms by (auto simp: metadata_def discoveryOk_def dest: loadMetadata_good split: option.splits prod.splits sum.splits)


text \<open>A failed discovery is kept: the next call fails in the same way without asking the provider again.\<close>

theorem failed_discovery_kept:
  assumes "metadata web cfg s = (Inl e, t)"
  shows "metadata web cfg t = (Inl e, t)"
  using assms by (auto simp: metadata_def split: option.splits prod.splits)

definition accepted :: "(string \<Rightarrow> int option) \<Rightarrow> (string \<Rightarrow> bool) \<Rightarrow> oidcAcceptanceEvidence \<Rightarrow> bool" where
  "accepted dp https e \<longleftrightarrow> isCommitHash (oe_sourceCommit e) \<and> https (oe_issuer e) \<and> trim (oe_tenantReference e) \<noteq> []
     \<and> mset (map oa_check (oe_results e)) = mset oidcAcceptanceChecks
     \<and> list_all (\<lambda>r. oa_passed r \<and> dp (oa_occurredAt r) \<noteq> None \<and> isEvidenceUri (oa_evidenceUri r)) (oe_results e)"

lemma textWhen_Nil [simp]: "textWhen b t = [] \<longleftrightarrow> \<not> b"
  by (simp add: textWhen_def)

lemma checkResults_pass:
  "snd (checkResults dp rs seen issues) = [] \<longleftrightarrow> issues = [] \<and> distinct (map oa_check rs)
     \<and> (\<forall>r \<in> set rs. oa_check r \<notin> set seen \<and> resultIssues dp r = [])"
  by (induction dp rs seen issues rule: checkResults.induct) (auto, (metis image_eqI)+)

lemma checkResults_seen: "set (fst (checkResults dp rs seen issues)) = set seen \<union> oa_check ` set rs"
  by (induction dp rs seen issues rule: checkResults.induct) auto

lemma exactly_the_checks:
  "mset (map oa_check rs) = mset oidcAcceptanceChecks \<longleftrightarrow> distinct (map oa_check rs) \<and> (\<forall>c \<in> set oidcAcceptanceChecks. c \<in> oa_check ` set rs)"
proof -
  have d: "distinct oidcAcceptanceChecks" and all: "c \<in> set oidcAcceptanceChecks" for c
    by (simp_all add: oidcAcceptanceChecks_def) (cases c; simp)
  have "mset (map oa_check rs) = mset oidcAcceptanceChecks \<longleftrightarrow> distinct (map oa_check rs) \<and> oa_check ` set rs = set oidcAcceptanceChecks"
    using d by (metis mset_eq_imp_distinct_iff set_eq_iff_mset_eq_distinct set_map)
  then show ?thesis using all by auto
qed

text \<open>
  The acceptance gate passes exactly when the evidence names a commit, an HTTPS issuer and a
  tenant, and has one result for each of the six checks and no other, each passed, dated and with evidence.
\<close>

theorem oidc_acceptance_iff: "fst (evaluateOidcAcceptance dp https e) \<longleftrightarrow> accepted dp https e"
proof -
  define i0 where "i0 = textWhen (\<not> isCommitHash (oe_sourceCommit e)) ''OIDC evidence must identify an exact Git commit.''
    @ textWhen (\<not> https (oe_issuer e)) ''OIDC issuer must use HTTPS.''
    @ textWhen (trim (oe_tenantReference e) = []) ''OIDC evidence must identify the tested tenant.''"
  have i0: "i0 = [] \<longleftrightarrow> isCommitHash (oe_sourceCommit e) \<and> https (oe_issuer e) \<and> trim (oe_tenantReference e) \<noteq> []"
    by (simp add: i0_def)
  let ?run = "checkResults dp (oe_results e) [] i0"
  have "fst (evaluateOidcAcceptance dp https e) \<longleftrightarrow> snd ?run = [] \<and> (\<forall>c \<in> set oidcAcceptanceChecks. c \<in> set (fst ?run))"
    by (simp add: evaluateOidcAcceptance_def i0_def [symmetric] Let_def split: prod.splits)
  also have "\<dots> \<longleftrightarrow> accepted dp https e"
    unfolding checkResults_pass checkResults_seen accepted_def exactly_the_checks i0 by (auto simp: list_all_iff resultIssues_def)
  finally show ?thesis .
qed

definition sampleWeb :: "unit webHost" where
  "sampleWeb = \<lparr>wh_fetch = (\<lambda>q. ret \<lparr>fr_ok = True, fr_status = 200, fr_json = Inr (if fq_method q = ''POST'' then JObj [(''id_token'', JStr ''j'')]
       else JObj [(''issuer'', JStr ''https://i''), (''authorization_endpoint'', JStr ''https://a''), (''token_endpoint'', JStr ''https://t''),
         (''jwks_uri'', JStr ''https://k'')])\<rparr>),
     wh_jwtVerify = (\<lambda>t k opts. ret \<lparr>jp_sub = Some ''s'', jp_iss = None, jp_claims = [(''nonce'', JStr ''n''), (''roles'', JStr ''admin,editor'')]\<rparr>),
     wh_base64 = (\<lambda>b. b)\<rparr>"

definition sampleOidcProvider :: oidcProviderConfig where
  "sampleOidcProvider = \<lparr>pc_issuer = ''https://i'', pc_clientId = ''c'', pc_clientSecret = None, pc_roleClaim = None, pc_workspaceClaim = None,
     pc_allowedAlgorithms = None\<rparr>"


end
