(* ===== verification/IdentitySessions.thy ===== *)
theory IdentitySessions
  imports Identity
begin

text \<open>
  What login and sessions guarantee: a login state is used once, a revoked session stays revoked, and
  sessions come only from completed logins. The locale \<open>identity_store\<close> is what the service needs of its
  store; it is interpreted on the tables.
\<close>

section \<open>Steps\<close>

text \<open>\<open>env\<close> is what changes in the store without a call, such as the clock of the database.\<close>

inductive identity_step ::
  "identityHost \<Rightarrow> 's identityStore \<Rightarrow> 'p oidcProvider \<Rightarrow> oidcServiceConfig \<Rightarrow> ('s \<Rightarrow> 's \<Rightarrow> bool)
     \<Rightarrow> ('s, 'p) identityWorld \<Rightarrow> ('s, 'p) identityWorld \<Rightarrow> bool"
  for h ops provider cfg env where
  began: "beginLogin h ops provider cfg returnTo w = (r, w') \<Longrightarrow> identity_step h ops provider cfg env w w'"
| completed: "completeLogin h ops provider cfg inp w = (r', w') \<Longrightarrow> identity_step h ops provider cfg env w w'"
| authenticated: "authenticateSession h ops sid csrf mutation w = (ra, w') \<Longrightarrow> identity_step h ops provider cfg env w w'"
| revoked: "revokeSession h ops sid w = (ru, w') \<Longrightarrow> identity_step h ops provider cfg env w w'"
| passed: "env (iw_store w) s \<Longrightarrow> identity_step h ops provider cfg env w (w\<lparr>iw_store := s\<rparr>)"

text \<open>What of a session the service can see change: nothing but its revocation.\<close>

record sessionView =
  sv_csrfHash :: string
  sv_actor :: authenticatedActor
  sv_expiresAt :: string
  sv_revoked :: bool

definition sessionViewOf :: "bool \<Rightarrow> ('a) identitySessionRecord_scheme \<Rightarrow> sessionView" where
  "sessionViewOf revoked q = \<lparr>sv_csrfHash = se_csrfHash q, sv_actor = se_actor q, sv_expiresAt = se_expiresAt q, sv_revoked = revoked\<rparr>"

definition sessionsEvolve :: "(string \<rightharpoonup> sessionView) \<Rightarrow> (string \<rightharpoonup> sessionView) \<Rightarrow> bool" where
  "sessionsEvolve m n \<longleftrightarrow> (\<forall>k v. m k = Some v \<longrightarrow> n k = Some v \<or> n k = Some (v\<lparr>sv_revoked := True\<rparr>))"

lemma sessionsEvolve_refl: "sessionsEvolve m m"
  by (simp add: sessionsEvolve_def)

lemma sessionsEvolve_trans: "sessionsEvolve m n \<Longrightarrow> sessionsEvolve n p \<Longrightarrow> sessionsEvolve m p"
  unfolding sessionsEvolve_def by (metis (no_types, lifting) sessionView.update_convs(4) sessionView.cases sessionView.simps(8))

text \<open>Hashes of the tokens drawn between two states.\<close>

definition drawnBetween :: "identityHost \<Rightarrow> ('s, 'p) identityWorld \<Rightarrow> ('s, 'p) identityWorld \<Rightarrow> string set" where
  "drawnBetween h w w' = (\<lambda>n. hash h (iw_tokens w n)) ` {iw_drawn w..<iw_drawn w'}"

text \<open>A session is started under the hash of a new token, unless a date is out of range.\<close>

lemma startSession_cases:
  assumes "startSession h ops cfg actor returnTo w = (r, w')"
  shows "(\<exists>e. r = Inl e) \<and> iw_store w' = iw_store w \<and> iw_tokens w' = iw_tokens w \<and> iw_drawn w \<le> iw_drawn w'
    \<or> (\<exists>q rs s. is_createSession ops q (iw_store w) = (rs, s) \<and> se_sessionHash q = hash h (iw_tokens w (iw_drawn w))
         \<and> se_csrfHash q = hash h (iw_tokens w (Suc (iw_drawn w))) \<and> se_actor q = actor
         \<and> w' = w\<lparr>iw_drawn := Suc (Suc (iw_drawn w)), iw_ticks := Suc (Suc (iw_ticks w)), iw_store := s\<rparr>
         \<and> r = (case rs of Inl e \<Rightarrow> Inl e | Inr _ \<Rightarrow> Inr \<lparr>os_sessionId = iw_tokens w (iw_drawn w),
               os_csrfToken = iw_tokens w (Suc (iw_drawn w)), os_actor = actor, os_expiresAt = se_expiresAt q, os_returnTo = returnTo\<rparr>))"
proof -
  let ?at = "iw_clock w (iw_ticks w)" and ?later = "iw_clock w (Suc (iw_ticks w)) + (case cf_sessionLifetimeMs cfg of None \<Rightarrow> 1800000 | Some l \<Rightarrow> l)"
  note unfolds = startSession_def token_def identityNow_def onIdentityStore_def js_simps Let_def
  show ?thesis
  proof (cases "ho_toIso h ?at")
    case (Inl e) then show ?thesis using assms by (auto simp: unfolds)
  next
    case (Inr c)
    note c = this
    show ?thesis
    proof (cases "ho_toIso h ?later")
      case (Inl e) then show ?thesis using assms c by (auto simp: unfolds)
    next
      case (Inr x)
      let ?q = "\<lparr>se_sessionHash = hash h (iw_tokens w (iw_drawn w)), se_csrfHash = hash h (iw_tokens w (Suc (iw_drawn w))),
        se_actor = actor, se_createdAt = c, se_expiresAt = x, se_lastSeenAt = c\<rparr>"
      obtain rs s where "is_createSession ops ?q (iw_store w) = (rs, s)" by fastforce
      then show ?thesis using assms c Inr by (intro disjI2 exI [of _ ?q] exI [of _ rs] exI [of _ s]) (auto simp: unfolds split: sum.splits)
    qed
  qed
qed

text \<open>A login transaction as \<open>beginLogin\<close> makes it: for the configured redirect, and back to a path of this site.\<close>

definition localPath :: "string \<Rightarrow> bool" where
  "localPath v \<longleftrightarrow> startsWith v ''/'' \<and> \<not> startsWith v ''//''"

definition madeFor :: "oidcServiceConfig \<Rightarrow> loginTransaction \<Rightarrow> bool" where
  "madeFor cfg v \<longleftrightarrow> lt_redirectUri v = cf_redirectUri cfg \<and> localPath (lt_returnTo v)"

lemma safeReturn_local: "localPath (safeReturn cfg v)"
  by (simp add: safeReturn_def localPath_def startsWith_def Let_def)

section \<open>The contract of a store\<close>

locale identity_store =
  fixes ops :: "'s identityStore" and logins :: "'s \<Rightarrow> string \<rightharpoonup> loginTransaction" and sessions :: "'s \<Rightarrow> string \<rightharpoonup> sessionView"
    and kept :: "authenticatedActor \<Rightarrow> authenticatedActor" and env :: "'s \<Rightarrow> 's \<Rightarrow> bool"
  assumes save: "is_saveLogin ops v s = (r, t) \<Longrightarrow> sessions t = sessions s \<and>
        (logins t = logins s \<or> logins t = (logins s)(lt_stateHash v \<mapsto> v))"
    and consume: "is_consumeLogin ops k s = (rc, t) \<Longrightarrow> sessions t = sessions s \<and>
        (\<exists>e. rc = Inl e \<and> logins t = logins s \<or> rc = Inr (logins s k) \<and> logins t = (logins s)(k := None))"
    and create: "is_createSession ops q s = (r, t) \<Longrightarrow> logins t = logins s \<and>
        (\<exists>e. r = Inl e \<and> sessions t = sessions s
           \<or> r = Inr () \<and> sessions s (se_sessionHash q) = None
             \<and> sessions t = (sessions s)(se_sessionHash q \<mapsto> sessionViewOf False (q\<lparr>se_actor := kept (se_actor q)\<rparr>)))"
    and get: "is_getSession ops k s = (rg, t) \<Longrightarrow> logins t = logins s \<and> sessions t = sessions s \<and>
        (\<forall>x. rg = Inr (Some x) \<longrightarrow> sessions s k = Some (sessionViewOf False x))"
    and revoke: "is_revokeSession ops k s = (r, t) \<Longrightarrow> logins t = logins s \<and>
        (\<exists>e. r = Inl e \<and> sessions t = sessions s
           \<or> r = Inr () \<and> sessions t = (sessions s)(k := map_option (\<lambda>v. v\<lparr>sv_revoked := True\<rparr>) (sessions s k)))"
    and others: "env s t \<Longrightarrow> logins t = logins s \<and> sessions t = sessions s"
begin

text \<open>What one call may change.\<close>

definition calls :: "identityHost \<Rightarrow> oidcServiceConfig \<Rightarrow> ('s, 'p) identityWorld \<Rightarrow> ('s, 'p) identityWorld \<Rightarrow> bool" where
  "calls h cfg w w' \<longleftrightarrow> iw_tokens w' = iw_tokens w \<and> iw_drawn w \<le> iw_drawn w'
     \<and> sessionsEvolve (sessions (iw_store w)) (sessions (iw_store w'))
     \<and> dom (logins (iw_store w')) \<subseteq> dom (logins (iw_store w)) \<union> drawnBetween h w w'
     \<and> dom (sessions (iw_store w')) \<subseteq> dom (sessions (iw_store w)) \<union> drawnBetween h w w'
     \<and> ran (logins (iw_store w')) \<subseteq> ran (logins (iw_store w)) \<union> Collect (madeFor cfg)"

lemma calls_refl: "calls h cfg w w"
  by (simp add: calls_def sessionsEvolve_refl)

lemma drawnBetween_split:
  assumes "calls h cfg w w'" and "iw_tokens w'' = iw_tokens w'" and "iw_drawn w' \<le> iw_drawn w''"
  shows "drawnBetween h w w' \<subseteq> drawnBetween h w w''" and "drawnBetween h w' w'' \<subseteq> drawnBetween h w w''"
  using assms by (auto simp: calls_def drawnBetween_def)

lemma calls_trans:
  assumes a: "calls h cfg w w'" and b: "calls h cfg w' w''"
  shows "calls h cfg w w''"
proof -
  have "iw_tokens w'' = iw_tokens w'" "iw_drawn w' \<le> iw_drawn w''" using b by (simp_all add: calls_def)
  note split = drawnBetween_split [OF a this]
  have "sessionsEvolve (sessions (iw_store w)) (sessions (iw_store w''))"
    using a b by (auto simp: calls_def intro: sessionsEvolve_trans)
  moreover have "dom (logins (iw_store w'')) \<subseteq> dom (logins (iw_store w)) \<union> drawnBetween h w w''"
    using a b split unfolding calls_def by blast
  moreover have "dom (sessions (iw_store w'')) \<subseteq> dom (sessions (iw_store w)) \<union> drawnBetween h w w''"
    using a b split unfolding calls_def by blast
  moreover have "iw_tokens w'' = iw_tokens w" "iw_drawn w \<le> iw_drawn w''" using a b by (simp_all add: calls_def)
  moreover have "ran (logins (iw_store w'')) \<subseteq> ran (logins (iw_store w)) \<union> Collect (madeFor cfg)"
    using a b unfolding calls_def by blast
  ultimately show ?thesis by (simp add: calls_def)
qed

text \<open>Clock, provider and tokens leave the store alone.\<close>

lemma calls_outside:
  "iw_store w' = iw_store w \<Longrightarrow> iw_tokens w' = iw_tokens w \<Longrightarrow> iw_drawn w \<le> iw_drawn w' \<Longrightarrow> calls h cfg w w'"
  by (simp add: calls_def sessionsEvolve_refl)

lemma consume_calls:
  assumes "is_consumeLogin ops k (iw_store w) = (r, s)"
  shows "calls h cfg w (w\<lparr>iw_store := s\<rparr>)"
proof -
  have "sessions s = sessions (iw_store w)" "dom (logins s) \<subseteq> dom (logins (iw_store w))" "ran (logins s) \<subseteq> ran (logins (iw_store w))"
    using consume [OF assms] by (auto simp: ran_def split: if_splits)
  then show ?thesis by (simp add: calls_def sessionsEvolve_refl le_supI1)
qed

lemma get_calls:
  assumes "is_getSession ops k (iw_store w) = (r, s)"
  shows "calls h cfg w (w\<lparr>iw_store := s\<rparr>)"
  using get [OF assms] by (simp add: calls_def sessionsEvolve_refl)

lemma revoke_calls:
  assumes "is_revokeSession ops k (iw_store w) = (r, s)"
  shows "calls h cfg w (w\<lparr>iw_store := s\<rparr>)"
proof -
  have s: "logins s = logins (iw_store w)" "sessions s = sessions (iw_store w)
      \<or> sessions s = (sessions (iw_store w))(k := map_option (\<lambda>v. v\<lparr>sv_revoked := True\<rparr>) (sessions (iw_store w) k))"
    using revoke [OF assms] by auto
  then have "sessionsEvolve (sessions (iw_store w)) (sessions s)" "dom (sessions s) \<subseteq> dom (sessions (iw_store w))"
    by (auto simp: sessionsEvolve_def split: if_splits)
  then show ?thesis using s(1) by (auto simp: calls_def)
qed

lemma save_calls:
  assumes w: "calls h cfg w0 w" and made: "madeFor cfg v" and key: "lt_stateHash v \<in> drawnBetween h w0 w" and run: "is_saveLogin ops v (iw_store w) = (r, s)"
  shows "calls h cfg w0 (w\<lparr>iw_store := s\<rparr>)"
proof -
  have s: "sessions s = sessions (iw_store w)" "dom (logins s) \<subseteq> insert (lt_stateHash v) (dom (logins (iw_store w)))"
      "ran (logins s) \<subseteq> insert v (ran (logins (iw_store w)))"
    using save [OF run] by (auto simp: ran_def split: if_splits)
  moreover have "drawnBetween h w0 (w\<lparr>iw_store := s\<rparr>) = drawnBetween h w0 w" by (simp add: drawnBetween_def)
  moreover have "dom (logins s) \<subseteq> dom (logins (iw_store w0)) \<union> drawnBetween h w0 w" using s(2) w key unfolding calls_def by blast
  moreover have "ran (logins s) \<subseteq> ran (logins (iw_store w0)) \<union> Collect (madeFor cfg)" using s(3) w made unfolding calls_def by blast
  ultimately show ?thesis using w by (simp add: calls_def)
qed

lemma create_calls:
  assumes w: "calls h cfg w0 w" and key: "se_sessionHash q \<in> drawnBetween h w0 w" and run: "is_createSession ops q (iw_store w) = (r, s)"
  shows "calls h cfg w0 (w\<lparr>iw_store := s\<rparr>)"
proof -
  have s: "logins s = logins (iw_store w)" "dom (sessions s) \<subseteq> insert (se_sessionHash q) (dom (sessions (iw_store w)))"
      "sessionsEvolve (sessions (iw_store w)) (sessions s)"
    using create [OF run] by (auto simp: sessionsEvolve_def split: if_splits)
  moreover have "drawnBetween h w0 (w\<lparr>iw_store := s\<rparr>) = drawnBetween h w0 w" by (simp add: drawnBetween_def)
  moreover have "dom (sessions s) \<subseteq> dom (sessions (iw_store w0)) \<union> drawnBetween h w0 w" using s(2) w key unfolding calls_def by blast
  moreover have "sessionsEvolve (sessions (iw_store w0)) (sessions s)" using w s(3) sessionsEvolve_trans by (auto simp: calls_def)
  ultimately show ?thesis using w by (simp add: calls_def)
qed

lemma beginLogin_calls:
  assumes "beginLogin h ops provider cfg returnTo w = (r, w')"
  shows "calls h cfg w w'"
proof -
  let ?n = "iw_drawn w"
  let ?u = "w\<lparr>iw_drawn := Suc (Suc (Suc (Suc ?n))), iw_ticks := Suc (iw_ticks w)\<rparr>"
  have u: "calls h cfg w ?u" by (rule calls_outside) simp_all
  have key: "hash h (iw_tokens w ?n) \<in> drawnBetween h w ?u" by (auto simp: drawnBetween_def)
  show ?thesis
  proof (cases "w' = ?u")
    case False
    then obtain v rs s where saved: "is_saveLogin ops v (iw_store w) = (rs, s)" "lt_stateHash v = hash h (iw_tokens w ?n)" "madeFor cfg v"
      and w': "iw_store w' = s" "iw_tokens w' = iw_tokens w" "iw_drawn w' = iw_drawn ?u"
      using assms by (auto simp: beginLogin_def token_def identityNow_def onIdentityStore_def onProvider_def js_simps Let_def
          madeFor_def safeReturn_local split: sum.splits prod.splits)
    have "calls h cfg w (?u\<lparr>iw_store := s\<rparr>)" using save_calls [OF u saved(3), of rs s] key saved by simp
    moreover have "calls h cfg (?u\<lparr>iw_store := s\<rparr>) w'" by (rule calls_outside) (simp_all add: w')
    ultimately show ?thesis by (rule calls_trans)
  qed (use u in simp)
qed

lemma startSession_calls:
  assumes "startSession h ops cfg actor returnTo w = (r, w')"
  shows "calls h cfg w w'"
proof -
  let ?n = "iw_drawn w"
  let ?u = "w\<lparr>iw_drawn := Suc (Suc ?n), iw_ticks := Suc (Suc (iw_ticks w))\<rparr>"
  have u: "calls h cfg w ?u" by (rule calls_outside) simp_all
  have key: "hash h (iw_tokens w ?n) \<in> drawnBetween h w ?u" by (auto simp: drawnBetween_def)
  from startSession_cases [OF assms] show ?thesis
  proof (elim disjE exE conjE)
    fix q rs s
    assume "is_createSession ops q (iw_store w) = (rs, s)" "se_sessionHash q = hash h (iw_tokens w ?n)"
      and w': "w' = w\<lparr>iw_drawn := Suc (Suc ?n), iw_ticks := Suc (Suc (iw_ticks w)), iw_store := s\<rparr>"
    then show ?thesis using create_calls [OF u, of q rs s] key by simp
  qed (rule calls_outside)
qed

lemma startSession_logins:
  assumes "startSession h ops cfg actor returnTo w = (r, w')"
  shows "logins (iw_store w') = logins (iw_store w)"
  using startSession_cases [OF assms] create by auto

text \<open>A callback consumes the login, whatever comes of it.\<close>

lemma completeLogin_calls:
  assumes "completeLogin h ops provider cfg inp w = (r, w')"
  obtains s rc where "is_consumeLogin ops (hash h (lc_state inp)) (iw_store w) = (rc, s)" and "calls h cfg (w\<lparr>iw_store := s\<rparr>) w'"
    and "\<And>k. logins (iw_store w') k = logins s k"
proof -
  obtain rc s where c: "is_consumeLogin ops (hash h (lc_state inp)) (iw_store w) = (rc, s)" by fastforce
  have "(\<exists>u actor returnTo. iw_store u = s \<and> iw_tokens u = iw_tokens w \<and> iw_drawn u = iw_drawn w
        \<and> startSession h ops cfg actor returnTo u = (r, w'))
      \<or> iw_store w' = s \<and> iw_tokens w' = iw_tokens w \<and> iw_drawn w' = iw_drawn w"
    using assms c by (auto simp: completeLogin_def identityNow_def onIdentityStore_def onProvider_def js_simps Let_def
        split: sum.splits prod.splits option.splits if_splits)
  then consider (left) u actor returnTo where "iw_store u = s" "iw_tokens u = iw_tokens w" "iw_drawn u = iw_drawn w"
      "startSession h ops cfg actor returnTo u = (r, w')"
    | (stopped) "iw_store w' = s" "iw_tokens w' = iw_tokens w" "iw_drawn w' = iw_drawn w" by blast
  then show ?thesis
  proof cases
    case left
    have "calls h cfg (w\<lparr>iw_store := s\<rparr>) u" by (rule calls_outside) (simp_all add: left)
    then have "calls h cfg (w\<lparr>iw_store := s\<rparr>) w'" using startSession_calls [OF left(4)] by (rule calls_trans)
    moreover have "logins (iw_store w') = logins s" using startSession_logins [OF left(4)] left(1) by simp
    ultimately show ?thesis using that c by simp
  next
    case stopped
    have "calls h cfg (w\<lparr>iw_store := s\<rparr>) w'" by (rule calls_outside) (simp_all add: stopped)
    then show ?thesis using that c stopped by simp
  qed
qed

lemma authenticateSession_calls:
  assumes "authenticateSession h ops sid csrf mutation w = (r, w')"
  shows "calls h cfg w w'"
proof -
  obtain rg s where g: "is_getSession ops (hash h sid) (iw_store w) = (rg, s)" by fastforce
  have "calls h cfg (w\<lparr>iw_store := s\<rparr>) w'"
    by (rule calls_outside) (use assms g in \<open>auto simp: authenticateSession_def identityNow_def onIdentityStore_def js_simps
        split: sum.splits option.splits\<close>)
  with get_calls [OF g] show ?thesis by (rule calls_trans)
qed

lemma revokeSession_calls:
  assumes "revokeSession h ops sid w = (r, w')"
  shows "calls h cfg w w'"
  using assms revoke_calls by (auto simp: revokeSession_def onIdentityStore_def js_simps Let_def split: prod.splits)

lemma step_calls:
  assumes "identity_step h ops provider cfg env w w'"
  shows "calls h cfg w w'"
  using assms
proof cases
  case (began returnTo r) then show ?thesis by (rule beginLogin_calls)
next
  case (completed inp r)
  obtain rc s where c: "is_consumeLogin ops (hash h (lc_state inp)) (iw_store w) = (rc, s)" "calls h cfg (w\<lparr>iw_store := s\<rparr>) w'"
    by (rule completeLogin_calls [OF completed])
  show ?thesis using consume_calls [OF c(1)] c(2) by (rule calls_trans)
next
  case (authenticated sid csrf mutation r) then show ?thesis by (rule authenticateSession_calls)
next
  case (revoked sid r) then show ?thesis by (rule revokeSession_calls)
next
  case (passed s) then show ?thesis using others by (simp add: calls_def sessionsEvolve_refl)
qed

lemma steps_calls: "(identity_step h ops provider cfg env)\<^sup>*\<^sup>* w w' \<Longrightarrow> calls h cfg w w'"
  by (induction rule: rtranclp_induct) (auto intro: calls_refl calls_trans step_calls)

text \<open>A login that has been consumed does not come back, unless a later token has the same hash.\<close>

lemma consumed_stays_away:
  assumes "logins (iw_store w) k = None" and "(identity_step h ops provider cfg env)\<^sup>*\<^sup>* w w'"
    and "\<And>n. iw_drawn w \<le> n \<Longrightarrow> hash h (iw_tokens w n) \<noteq> k"
  shows "logins (iw_store w') k = None"
proof (rule ccontr)
  assume "logins (iw_store w') k \<noteq> None"
  then have "k \<in> drawnBetween h w w'" using steps_calls [OF assms(2)] assms(1) by (auto simp: calls_def)
  then obtain n where "iw_drawn w \<le> n" "k = hash h (iw_tokens w n)" by (auto simp: drawnBetween_def)
  then show False using assms(3) by metis
qed

lemma replay_refused:
  assumes first: "completeLogin h ops provider cfg inp w = (r, w1)" and later: "(identity_step h ops provider cfg env)\<^sup>*\<^sup>* w1 w2"
    and again: "completeLogin h ops provider cfg inp' w2 = (r', w3)" and same: "lc_state inp' = lc_state inp"
    and fresh: "\<And>n. iw_drawn w \<le> n \<Longrightarrow> hash h (iw_tokens w n) \<noteq> hash h (lc_state inp)"
    and answers: "\<And>k s. \<exists>x t. is_consumeLogin ops k s = (Inr x, t)"
  shows "r' = Inl (identityError ''OIDC_STATE_INVALID'' ''Login state is invalid or already used.'')"
proof -
  obtain rc s where c: "is_consumeLogin ops (hash h (lc_state inp)) (iw_store w) = (rc, s)" "calls h cfg (w\<lparr>iw_store := s\<rparr>) w1"
      "\<And>k. logins (iw_store w1) k = logins s k"
    using completeLogin_calls [OF first] by metis
  have "logins s (hash h (lc_state inp)) = None" using consume [OF c(1)] answers c(1) by (metis Inl_Inr_False Pair_inject fun_upd_same)
  then have gone: "logins (iw_store w1) (hash h (lc_state inp)) = None" using c(3) by simp
  have w1: "iw_tokens w1 = iw_tokens w" "iw_drawn w \<le> iw_drawn w1" using c(2) by (simp_all add: calls_def)
  have "logins (iw_store w2) (hash h (lc_state inp)) = None"
    by (rule consumed_stays_away [OF gone later]) (use fresh w1 in simp)
  moreover obtain x t where x: "is_consumeLogin ops (hash h (lc_state inp)) (iw_store w2) = (Inr x, t)" using answers by blast
  moreover have "x = logins (iw_store w2) (hash h (lc_state inp))" using consume [OF x] by auto
  ultimately show ?thesis using again same by (simp add: completeLogin_def onIdentityStore_def js_simps)
qed

text \<open>A revoked session is not accepted any more.\<close>

lemma revoked_refused:
  assumes first: "revokeSession h ops sid w = (Inr u, w1)" and later: "(identity_step h ops provider cfg env)\<^sup>*\<^sup>* w1 w2"
    and auth: "authenticateSession h ops sid csrf mutation w2 = (r, w3)"
    and fresh: "\<And>n. iw_drawn w \<le> n \<Longrightarrow> hash h (iw_tokens w n) \<noteq> hash h sid"
  shows "r \<noteq> Inr (Some a)"
proof
  assume "r = Inr (Some a)"
  then obtain q s where g: "is_getSession ops (hash h sid) (iw_store w2) = (Inr (Some q), s)"
    using auth by (auto simp: authenticateSession_def onIdentityStore_def identityNow_def js_simps Let_def
        split: sum.splits option.splits prod.splits)
  then have live: "sessions (iw_store w2) (hash h sid) = Some (sessionViewOf False q)" using get [OF g] by blast
  obtain s1 where v: "is_revokeSession ops (hash h sid) (iw_store w) = (Inr u, s1)" and w1: "w1 = w\<lparr>iw_store := s1\<rparr>"
    using first by (auto simp: revokeSession_def onIdentityStore_def js_simps Let_def split: prod.splits)
  have s1: "sessions s1 (hash h sid) = map_option (\<lambda>v. v\<lparr>sv_revoked := True\<rparr>) (sessions (iw_store w) (hash h sid))"
    using revoke [OF v] by auto
  note step = steps_calls [OF later]
  show False
  proof (cases "sessions s1 (hash h sid)")
    case None
    then have "hash h sid \<in> drawnBetween h w1 w2" using step live by (auto simp: calls_def w1)
    then obtain n where "iw_drawn w \<le> n" "hash h sid = hash h (iw_tokens w n)" by (auto simp: drawnBetween_def w1)
    then show False using fresh by metis
  next
    case (Some v1)
    then have "sv_revoked v1" using s1 by auto
    moreover have "sessions (iw_store w2) (hash h sid) = Some v1 \<or> sessions (iw_store w2) (hash h sid) = Some (v1\<lparr>sv_revoked := True\<rparr>)"
      using step Some by (auto simp: calls_def sessionsEvolve_def w1)
    ultimately show False using live by (auto simp: sessionViewOf_def dest: arg_cong [where f = sv_revoked])
  qed
qed

text \<open>What has been checked when a login completes, and what it leaves.\<close>

lemma completed_login:
  assumes run: "completeLogin h ops provider cfg inp w = (Inr res, w')"
  shows "\<exists>login claims p v. logins (iw_store w) (hash h (lc_state inp)) = Some login
     \<and> safeEqual (lt_browserBindingHash login) (hash h (lc_browserBinding inp))
     \<and> \<not> dateLe (ho_dateParse h (lt_expiresAt login)) (Some (iw_clock w (iw_ticks w)))
     \<and> ov_exchangeCode provider \<lparr>ex_code = lc_code inp, ex_codeVerifier = lt_codeVerifier login,
          ex_redirectUri = lt_redirectUri login, ex_expectedNonce = lt_nonce login\<rparr> (iw_provider w) = (Inr claims, p)
     \<and> ic_nonce claims = lt_nonce login \<and> mapActor cfg claims = Inr (os_actor res) \<and> os_returnTo res = lt_returnTo login
     \<and> sessions (iw_store w') (hash h (os_sessionId res)) = Some v
     \<and> sv_actor v = kept (os_actor res) \<and> sv_csrfHash v = hash h (os_csrfToken res) \<and> sv_expiresAt v = os_expiresAt res \<and> \<not> sv_revoked v"
proof -
  obtain x s where c: "is_consumeLogin ops (hash h (lc_state inp)) (iw_store w) = (Inr x, s)"
    using run by (auto simp: completeLogin_def onIdentityStore_def js_simps Let_def split: sum.splits prod.splits)
  have x: "x = logins (iw_store w) (hash h (lc_state inp))" using consume [OF c] by auto
  obtain login claims p actor u where login: "x = Some login" "safeEqual (lt_browserBindingHash login) (hash h (lc_browserBinding inp))"
      "\<not> dateLe (ho_dateParse h (lt_expiresAt login)) (Some (iw_clock w (iw_ticks w)))"
    and claims: "ov_exchangeCode provider \<lparr>ex_code = lc_code inp, ex_codeVerifier = lt_codeVerifier login,
          ex_redirectUri = lt_redirectUri login, ex_expectedNonce = lt_nonce login\<rparr> (iw_provider w) = (Inr claims, p)"
      "ic_nonce claims = lt_nonce login" "mapActor cfg claims = Inr actor"
    and started: "startSession h ops cfg actor (lt_returnTo login) u = (Inr res, w')"
    using run c by (auto simp: completeLogin_def onIdentityStore_def onProvider_def identityNow_def js_simps Let_def
        split: sum.splits prod.splits option.splits if_splits)
  from startSession_cases [OF started] obtain q rs t where made: "is_createSession ops q (iw_store u) = (rs, t)" "se_actor q = actor"
      "se_sessionHash q = hash h (iw_tokens u (iw_drawn u))" "se_csrfHash q = hash h (iw_tokens u (Suc (iw_drawn u)))"
    and result: "Inr res = (case rs of Inl e \<Rightarrow> Inl e | Inr _ \<Rightarrow> Inr \<lparr>os_sessionId = iw_tokens u (iw_drawn u),
          os_csrfToken = iw_tokens u (Suc (iw_drawn u)), os_actor = actor, os_expiresAt = se_expiresAt q, os_returnTo = lt_returnTo login\<rparr>)"
    and w': "iw_store w' = t" by auto
  then obtain y where "rs = Inr y" by (cases rs) auto
  then have rs: "rs = Inr ()" by simp
  then have res: "os_actor res = actor" "os_returnTo res = lt_returnTo login" "rs = Inr ()" "iw_store w' = t"
    and q: "is_createSession ops q (iw_store u) = (rs, t)" "se_actor q = actor"
      "se_sessionHash q = hash h (os_sessionId res)" "se_csrfHash q = hash h (os_csrfToken res)" "se_expiresAt q = os_expiresAt res"
    using made result w' by simp_all
  have "sessions t (hash h (os_sessionId res)) = Some (sessionViewOf False (q\<lparr>se_actor := kept actor\<rparr>))"
    using create [OF q(1)] res(3) q(2,3) by auto
  then show ?thesis using login claims res x q(4,5) by (auto simp: sessionViewOf_def)
qed

end

section \<open>The tables meet the contract\<close>

definition loginView :: "identityTables \<Rightarrow> string \<rightharpoonup> loginTransaction" where
  "loginView t = map_of (dt_logins t)"

definition sessionTable :: "identityTables \<Rightarrow> string \<rightharpoonup> sessionView" where
  "sessionTable t k = map_option (\<lambda>r. sessionViewOf (sr_revokedAt r \<noteq> None) r) (map_of (dt_sessions t) k)"

definition clockMoves :: "identityTables \<Rightarrow> identityTables \<Rightarrow> bool" where
  "clockMoves s t \<longleftrightarrow> (\<exists>d. t = s\<lparr>dt_now := d\<rparr>)"

lemma pgConsumeLogin_run: "pgConsumeLogin k t = (Inr (map_of (dt_logins t) k), t\<lparr>dt_logins := AList.delete k (dt_logins t)\<rparr>)"
  by (simp add: pgConsumeLogin_def js_simps)

interpretation pgIdentity: identity_store "postgresIdentityStore dp" loginView sessionTable storedActor clockMoves for dp
proof
  fix v s r t
  assume "is_saveLogin (postgresIdentityStore dp) v s = (r, t)"
  then show "sessionTable t = sessionTable s \<and> (loginView t = loginView s \<or> loginView t = (loginView s)(lt_stateHash v \<mapsto> v))"
    by (auto simp: postgresIdentityStore_def pgSaveLogin_def js_simps loginView_def sessionTable_def fun_eq_iff map_add_def
        split: if_splits option.splits)
next
  fix k s rc t
  assume "is_consumeLogin (postgresIdentityStore dp) k s = (rc, t)"
  then show "sessionTable t = sessionTable s \<and> (\<exists>e. rc = Inl e \<and> loginView t = loginView s
      \<or> rc = Inr (loginView s k) \<and> loginView t = (loginView s)(k := None))"
    by (auto simp: postgresIdentityStore_def pgConsumeLogin_run loginView_def sessionTable_def fun_eq_iff delete_conv')
next
  fix q s and r :: "js_error + unit" and t
  assume "is_createSession (postgresIdentityStore dp) q s = (r, t)"
  then show "loginView t = loginView s \<and> (\<exists>e. r = Inl e \<and> sessionTable t = sessionTable s
      \<or> r = Inr () \<and> sessionTable s (se_sessionHash q) = None
        \<and> sessionTable t = (sessionTable s)(se_sessionHash q \<mapsto> sessionViewOf False (q\<lparr>se_actor := storedActor (se_actor q)\<rparr>)))"
    by (auto simp: postgresIdentityStore_def pgCreateSession_def js_simps loginView_def sessionTable_def fun_eq_iff map_add_def sessionViewOf_def
        identitySessionRecord.extend_def split: if_splits option.splits)
next
  fix k s rg t
  assume "is_getSession (postgresIdentityStore dp) k s = (rg, t)"
  then show "loginView t = loginView s \<and> sessionTable t = sessionTable s
      \<and> (\<forall>x. rg = Inr (Some x) \<longrightarrow> sessionTable s k = Some (sessionViewOf False x))"
    by (auto simp: postgresIdentityStore_def pgGetSession_def js_simps loginView_def sessionTable_def fun_eq_iff sessionViewOf_def liveRow_def Let_def
        identitySessionRecord.truncate_def update_conv' split: if_splits option.splits)
next
  fix k s and r :: "js_error + unit" and t
  assume "is_revokeSession (postgresIdentityStore dp) k s = (r, t)"
  then show "loginView t = loginView s \<and> (\<exists>e. r = Inl e \<and> sessionTable t = sessionTable s
      \<or> r = Inr () \<and> sessionTable t = (sessionTable s)(k := map_option (\<lambda>v. v\<lparr>sv_revoked := True\<rparr>) (sessionTable s k)))"
    by (auto simp: postgresIdentityStore_def pgRevokeSession_def js_simps loginView_def sessionTable_def fun_eq_iff sessionViewOf_def
        update_conv' split: if_splits option.splits)
next
  fix s t
  assume "clockMoves s t"
  then show "loginView t = loginView s \<and> sessionTable t = sessionTable s"
    by (auto simp: clockMoves_def loginView_def sessionTable_def)
qed

section \<open>Properties\<close>

lemma utf8_eq: "utf8 a = utf8 b \<longleftrightarrow> a = b"
  using utf8_inj by blast

text \<open>
  C9. A login state is used once. After a callback with some state, whatever came of it, every later
  callback with the same state is refused as invalid or already used, whatever other logins, callbacks,
  requests and revocations come between, as long as no later random token has the hash of that state.
\<close>

theorem login_state_used_once:
  assumes "completeLogin h (postgresIdentityStore dp) provider cfg inp w = (r, w1)"
    and "(identity_step h (postgresIdentityStore dp) provider cfg clockMoves)\<^sup>*\<^sup>* w1 w2"
    and "completeLogin h (postgresIdentityStore dp) provider cfg inp' w2 = (r', w3)" and "lc_state inp' = lc_state inp"
    and "\<And>n. iw_drawn w \<le> n \<Longrightarrow> hash h (iw_tokens w n) \<noteq> hash h (lc_state inp)"
  shows "r' = Inl (identityError ''OIDC_STATE_INVALID'' ''Login state is invalid or already used.'')"
  by (rule pgIdentity.replay_refused [OF assms]) (auto simp: postgresIdentityStore_def pgConsumeLogin_run)

text \<open>
  A session that authenticates. A request is authenticated exactly when the table has a row for the
  hash of its session token that is not revoked and has expired neither for the database nor for the
  service, and, if it changes anything, its CSRF token has the recorded hash; the actor is the one in the row.
\<close>

theorem session_authenticated_iff:
  "fst (authenticateSession h (postgresIdentityStore dp) sid csrf mutation w) = Inr (Some a) \<longleftrightarrow>
     (\<exists>row. map_of (dt_sessions (iw_store w)) (hash h sid) = Some row \<and> sr_revokedAt row = None
        \<and> dateLess (dp (dt_now (iw_store w))) (dp (se_expiresAt row))
        \<and> \<not> dateLe (ho_dateParse h (se_expiresAt row)) (Some (iw_clock w (iw_ticks w)))
        \<and> (mutation \<longrightarrow> (\<exists>c. csrf = Some c \<and> c \<noteq> [] \<and> hash h c = se_csrfHash row)) \<and> a = se_actor row)"
proof (cases "map_of (dt_sessions (iw_store w)) (hash h sid)")
  case None
  then show ?thesis
    by (simp add: authenticateSession_def postgresIdentityStore_def pgGetSession_def onIdentityStore_def js_simps Let_def)
next
  case (Some row)
  show ?thesis
  proof (cases "liveRow dp (iw_store w) row")
    case False
    then show ?thesis using Some
      by (auto simp: authenticateSession_def postgresIdentityStore_def pgGetSession_def onIdentityStore_def js_simps Let_def liveRow_def)
  next
    case True
    then have "fst (authenticateSession h (postgresIdentityStore dp) sid csrf mutation w) =
        Inr (if dateLe (ho_dateParse h (se_expiresAt row)) (Some (iw_clock w (iw_ticks w))) \<or> mutation \<and> \<not> truthy csrf
             \<or> mutation \<and> \<not> safeEqual (se_csrfHash row) (hash h (the csrf)) then None else Some (se_actor row))"
      using Some by (simp add: authenticateSession_def postgresIdentityStore_def pgGetSession_def onIdentityStore_def identityNow_def js_simps
          Let_def identitySessionRecord.truncate_def)
    then show ?thesis using Some True
      by (cases csrf) (auto simp: liveRow_def truthy_def safeEqual_def Let_def utf8_eq)
  qed
qed

text \<open>
  C22. A revoked session stays revoked. After a session has been revoked, no sequence of logins, requests
  and revocations makes it authenticate again, as long as no later random token has its hash.
\<close>

theorem revoked_session_stays_revoked:
  assumes "revokeSession h (postgresIdentityStore dp) sid w = (r, w1)"
    and "(identity_step h (postgresIdentityStore dp) provider cfg clockMoves)\<^sup>*\<^sup>* w1 w2"
    and "\<And>n. iw_drawn w \<le> n \<Longrightarrow> hash h (iw_tokens w n) \<noteq> hash h sid"
  shows "fst (authenticateSession h (postgresIdentityStore dp) sid csrf mutation w2) \<noteq> Inr (Some a)"
proof -
  have "r = Inr ()"
    using assms(1) by (auto simp: revokeSession_def postgresIdentityStore_def pgRevokeSession_def onIdentityStore_def js_simps Let_def)
  then show ?thesis using pgIdentity.revoked_refused [of h dp sid w "()" w1 provider cfg w2 csrf mutation] assms by (metis prod.collapse)
qed

text \<open>
  C8. What a completed login has checked. In any state reached from an empty login table, a callback
  that gets a session names a login begun here and not yet used, comes from the browser that began it,
  is in time, and its code was exchanged with the verifier, redirect and nonce of that login for claims
  that carry this nonce and map to the returned actor. The browser is sent to a path of this site, and the
  table has an unrevoked session for the actor under the hashes of the two returned tokens.
\<close>

theorem completed_login_checked:
  assumes "dt_logins (iw_store w0) = []" and "(identity_step h (postgresIdentityStore dp) provider cfg clockMoves)\<^sup>*\<^sup>* w0 w"
    and "completeLogin h (postgresIdentityStore dp) provider cfg inp w = (Inr res, w')"
  shows "\<exists>login claims p row. map_of (dt_logins (iw_store w)) (hash h (lc_state inp)) = Some login
     \<and> lt_browserBindingHash login = hash h (lc_browserBinding inp)
     \<and> \<not> dateLe (ho_dateParse h (lt_expiresAt login)) (Some (iw_clock w (iw_ticks w)))
     \<and> ov_exchangeCode provider \<lparr>ex_code = lc_code inp, ex_codeVerifier = lt_codeVerifier login,
          ex_redirectUri = cf_redirectUri cfg, ex_expectedNonce = lt_nonce login\<rparr> (iw_provider w) = (Inr claims, p)
     \<and> ic_nonce claims = lt_nonce login \<and> mapActor cfg claims = Inr (os_actor res) \<and> localPath (os_returnTo res)
     \<and> map_of (dt_sessions (iw_store w')) (hash h (os_sessionId res)) = Some row
     \<and> se_actor row = storedActor (os_actor res) \<and> se_csrfHash row = hash h (os_csrfToken res) \<and> sr_revokedAt row = None"
proof -
  obtain login claims p v where found: "loginView (iw_store w) (hash h (lc_state inp)) = Some login"
    and checked: "safeEqual (lt_browserBindingHash login) (hash h (lc_browserBinding inp))"
      "\<not> dateLe (ho_dateParse h (lt_expiresAt login)) (Some (iw_clock w (iw_ticks w)))"
      "ov_exchangeCode provider \<lparr>ex_code = lc_code inp, ex_codeVerifier = lt_codeVerifier login,
          ex_redirectUri = lt_redirectUri login, ex_expectedNonce = lt_nonce login\<rparr> (iw_provider w) = (Inr claims, p)"
      "ic_nonce claims = lt_nonce login" "mapActor cfg claims = Inr (os_actor res)" "os_returnTo res = lt_returnTo login"
    and v: "sessionTable (iw_store w') (hash h (os_sessionId res)) = Some v" "sv_actor v = storedActor (os_actor res)"
      "sv_csrfHash v = hash h (os_csrfToken res)" "\<not> sv_revoked v"
    using pgIdentity.completed_login [OF assms(3)] by blast
  have "ran (loginView (iw_store w)) \<subseteq> Collect (madeFor cfg)"
    using pgIdentity.steps_calls [OF assms(2)] assms(1) by (simp add: pgIdentity.calls_def loginView_def)
  then have "madeFor cfg login" using found by (auto intro: ranI)
  moreover obtain row where "map_of (dt_sessions (iw_store w')) (hash h (os_sessionId res)) = Some row" "v = sessionViewOf (sr_revokedAt row \<noteq> None) row"
    using v(1) by (auto simp: sessionTable_def)
  ultimately show ?thesis using found checked v(2-4)
    by (auto simp: loginView_def madeFor_def sessionViewOf_def safeEqual_def Let_def utf8_eq)
qed

section \<open>Witnesses\<close>

definition sampleHost :: identityHost where
  "sampleHost = \<lparr>ho_sha = (\<lambda>b. b), ho_base64Sha = (\<lambda>b. b), ho_dateParse = (\<lambda>_. Some 10), ho_toIso = (\<lambda>_. Inr ''t''),
     ho_withQuery = (\<lambda>e q. Inr e)\<rparr>"

definition sampleDates :: "string \<Rightarrow> int option" where
  "sampleDates x = (if x = ''t'' then Some 10 else Some 0)"

definition sampleProvider :: "unit oidcProvider" where
  "sampleProvider = \<lparr>ov_authorizationEndpoint = ret ''https://i'', ov_exchangeCode = (\<lambda>x. ret \<lparr>ic_subject = ''s'', ic_issuer = ''i'',
     ic_displayName = ''d'', ic_email = None, ic_roles = [''admin''], ic_workspaceIds = [''w''], ic_nonce = ex_expectedNonce x\<rparr>)\<rparr>"

definition sampleOidc :: oidcServiceConfig where
  "sampleOidc = \<lparr>cf_clientId = ''c'', cf_redirectUri = ''r'', cf_sessionLifetimeMs = None, cf_loginLifetimeMs = None,
     cf_allowedReturnPaths = None, cf_roleMap = None\<rparr>"

definition sampleIdentity :: "(identityTables, unit) identityWorld" where
  "sampleIdentity = \<lparr>iw_store = \<lparr>dt_logins = [], dt_sessions = [], dt_now = ''n''\<rparr>, iw_provider = (), iw_clock = (\<lambda>_. 0), iw_ticks = 0,
     iw_tokens = (\<lambda>n. replicate (Suc n) CHR ''x''), iw_drawn = 0\<rparr>"

definition sampleBegun :: "(identityTables, unit) identityWorld" where
  "sampleBegun = snd (beginLogin sampleHost (postgresIdentityStore sampleDates) sampleProvider sampleOidc ''/'' sampleIdentity)"

definition sampleCallback :: loginCallback where
  "sampleCallback = \<lparr>lc_state = ''x'', lc_code = ''k'', lc_browserBinding = ''xx''\<rparr>"

definition sampleLoggedIn :: "(identityTables, unit) identityWorld" where
  "sampleLoggedIn = snd (completeLogin sampleHost (postgresIdentityStore sampleDates) sampleProvider sampleOidc sampleCallback sampleBegun)"

lemmas identity_defs = beginLogin_def completeLogin_def startSession_def token_def identityNow_def onIdentityStore_def onProvider_def
  postgresIdentityStore_def pgSaveLogin_def pgConsumeLogin_def pgCreateSession_def js_simps Let_def hash_def safeEqual_def dateLe_def
  mapActor_def mappedRole_def defaultRoleMap_def readSlot_def uniqueValues_def List.map_filter_def sampleHost_def sampleProvider_def
  sampleOidc_def sampleIdentity_def sampleCallback_def

lemma sampleBegun_reached:
  "(identity_step sampleHost (postgresIdentityStore sampleDates) sampleProvider sampleOidc clockMoves)\<^sup>*\<^sup>* sampleIdentity sampleBegun"
  unfolding sampleBegun_def by (rule r_into_rtranclp) (rule identity_step.began [OF prod.collapse [symmetric]])

lemma sampleBegun_eq:
  "sampleBegun = sampleIdentity\<lparr>iw_drawn := 4, iw_ticks := 1, iw_store := \<lparr>dt_logins = [(''x'', \<lparr>lt_stateHash = ''x'', lt_browserBindingHash = ''xx'',
     lt_nonce = ''xxx'', lt_codeVerifier = ''xxxx'', lt_redirectUri = ''r'', lt_returnTo = ''/'', lt_expiresAt = ''t''\<rparr>)], dt_sessions = [], dt_now = ''n''\<rparr>\<rparr>"
  by (simp add: sampleBegun_def identity_defs utf8_def utf8_char_def safeReturn_def startsWith_def)

lemma sampleLoggedIn_run:
  "\<exists>res. completeLogin sampleHost (postgresIdentityStore sampleDates) sampleProvider sampleOidc sampleCallback sampleBegun = (Inr res, sampleLoggedIn)
     \<and> os_sessionId res = ''xxxxx'' \<and> os_csrfToken res = ''xxxxxx''"
  by (simp add: sampleLoggedIn_def sampleBegun_eq identity_defs utf8_def utf8_char_def numeral_eq_Suc)

theorem completed_login_checked_witness:
  "\<exists>res claims. completeLogin sampleHost (postgresIdentityStore sampleDates) sampleProvider sampleOidc sampleCallback sampleBegun
       = (Inr res, sampleLoggedIn)
     \<and> mapActor sampleOidc claims = Inr (os_actor res) \<and> localPath (os_returnTo res)"
proof -
  obtain res where run: "completeLogin sampleHost (postgresIdentityStore sampleDates) sampleProvider sampleOidc sampleCallback sampleBegun
      = (Inr res, sampleLoggedIn)" using sampleLoggedIn_run by blast
  have "dt_logins (iw_store sampleIdentity) = []" by (simp add: sampleIdentity_def)
  from completed_login_checked [OF this sampleBegun_reached run] run show ?thesis by blast
qed

lemma sample_fresh:
  assumes "length k \<le> n"
  shows "hash sampleHost (iw_tokens sampleIdentity n) \<noteq> hash sampleHost k"
proof
  assume "hash sampleHost (iw_tokens sampleIdentity n) = hash sampleHost k"
  then have "replicate (Suc n) CHR ''x'' = k" by (simp only: hash_def sampleHost_def identityHost.simps utf8_eq sampleIdentity_def identityWorld.simps)
  then have "length k = Suc n" by (metis length_replicate)
  then show False using assms by simp
qed

theorem login_state_used_once_witness:
  "fst (completeLogin sampleHost (postgresIdentityStore sampleDates) sampleProvider sampleOidc sampleCallback sampleLoggedIn)
     = Inl (identityError ''OIDC_STATE_INVALID'' ''Login state is invalid or already used.'')"
proof -
  obtain res where first: "completeLogin sampleHost (postgresIdentityStore sampleDates) sampleProvider sampleOidc sampleCallback sampleBegun
      = (Inr res, sampleLoggedIn)" using sampleLoggedIn_run by blast
  show ?thesis
    by (rule login_state_used_once [OF first rtranclp.rtrancl_refl prod.collapse [symmetric] refl])
      (use sample_fresh [of "''x''"] in \<open>simp add: sampleBegun_eq sampleCallback_def\<close>)
qed

lemma sampleLoggedIn_row:
  "\<exists>row. map_of (dt_sessions (iw_store sampleLoggedIn)) (hash sampleHost ''xxxxx'') = Some row \<and> se_expiresAt row = ''t'' \<and> sr_revokedAt row = None
     \<and> se_csrfHash row = hash sampleHost ''xxxxxx''"
  "dt_now (iw_store sampleLoggedIn) = ''n''" "iw_clock sampleLoggedIn = (\<lambda>_. 0)" "iw_drawn sampleLoggedIn = 6"
  "iw_tokens sampleLoggedIn = iw_tokens sampleIdentity"
  by (simp_all add: sampleLoggedIn_def sampleBegun_eq identity_defs utf8_def utf8_char_def identitySessionRecord.extend_def numeral_eq_Suc)

theorem session_authenticated_iff_witness:
  "\<exists>a. fst (authenticateSession sampleHost (postgresIdentityStore sampleDates) ''xxxxx'' (Some ''xxxxxx'') True sampleLoggedIn) = Inr (Some a)"
proof -
  obtain row where row: "map_of (dt_sessions (iw_store sampleLoggedIn)) (hash sampleHost ''xxxxx'') = Some row" "se_expiresAt row = ''t''"
      "sr_revokedAt row = None" "se_csrfHash row = hash sampleHost ''xxxxxx''" using sampleLoggedIn_row(1) by blast
  have "dateLess (sampleDates (dt_now (iw_store sampleLoggedIn))) (sampleDates (se_expiresAt row))"
    "\<not> dateLe (ho_dateParse sampleHost (se_expiresAt row)) (Some (iw_clock sampleLoggedIn (iw_ticks sampleLoggedIn)))"
    by (simp_all add: row sampleLoggedIn_row sampleDates_def dateLess_def dateLe_def sampleHost_def)
  with session_authenticated_iff [of sampleHost sampleDates "''xxxxx''" "Some ''xxxxxx''" True sampleLoggedIn "se_actor row"] row
  show ?thesis by auto
qed

theorem revoked_session_stays_revoked_witness:
  "\<forall>a. fst (authenticateSession sampleHost (postgresIdentityStore sampleDates) ''xxxxx'' None False
     (snd (revokeSession sampleHost (postgresIdentityStore sampleDates) ''xxxxx'' sampleLoggedIn))) \<noteq> Inr (Some a)"
  by (rule allI, rule revoked_session_stays_revoked [OF prod.collapse [symmetric] rtranclp.rtrancl_refl])
    (use sample_fresh [of "''xxxxx''"] in \<open>simp add: sampleLoggedIn_row\<close>)

text \<open>
  The names every object inherits pass the check for a permitted role: a person whose only role claim is
  \<open>constructor\<close> has no permitted role, but the lookup in the role map finds a member of its prototype.
\<close>

theorem inherited_role_admitted:
  assumes "ic_roles claims = [x]" and "x \<in> set prototypeNames" and "ic_workspaceIds claims \<noteq> []" and "cf_roleMap cfg = None"
  shows "\<exists>a. mapActor cfg claims = Inr a \<and> ac_roles a = [RoleMember x] \<and> map_of defaultRoleMap x = None"
proof -
  have "map_of defaultRoleMap x = None" using assms(2) by (auto simp: defaultRoleMap_def prototypeNames_def)
  then show ?thesis using assms by (simp add: mapActor_def mappedRole_def readSlot_def uniqueValues_def List.map_filter_def Let_def)
qed

end
