(* ===== verification/Access.thy ===== *)
theory Access
  imports IdentitySessions
begin

text \<open>
  \<open>apps/trust-api/src/access.ts\<close>: who a request comes from and whether it may do what it asks. A
  gateway knows one static token and its actor; the admin gateway adds sessions in memory, and behind them
  the sessions of \<open>Identity\<close>.

  The three reads of \<open>Promise.all\<close> follow one another. \<open>toISOString\<close> of the current time is a reading of
  the ISO clock; the milliseconds of \<open>Date.now()\<close> are readings of a second clock.
\<close>

section \<open>Data\<close>

record breakGlassUse =
  bu_workspaceId :: string
  bu_principalId :: string
  bu_grantId :: string
  bu_action :: string
  bu_reason :: string
  bu_requestId :: "string option"
  bu_occurredAt :: string

record 'd policyDataSource =
  pd_listApplications :: "string \<Rightarrow> ('d, registeredApplication list) js"
  pd_listPolicyAssignments :: "string \<Rightarrow> string option \<Rightarrow> ('d, scopedPolicyAssignment list) js"
  pd_listActiveBreakGlassGrants :: "string \<Rightarrow> string \<Rightarrow> string option \<Rightarrow> ('d, activeBreakGlassGrant list) js"
  pd_recordBreakGlassUse :: "(breakGlassUse \<Rightarrow> ('d, unit) js) option"

record authorizationScope = policyScope +
  au_requestId :: "string option"
  au_applicationScopeAllowed :: "bool option"

record 'd gatewayConfig =
  gw_token :: "string option"
  gw_actor :: authenticatedActor
  gw_policies :: "'d policyDataSource option"

text \<open>The operations of \<open>OidcIdentityService\<close> that the admin gateway calls.\<close>

record 'o oidcSessions =
  oc_authenticateSession :: "string \<Rightarrow> string option \<Rightarrow> bool \<Rightarrow> ('o, authenticatedActor option) js"
  oc_revokeSession :: "string \<Rightarrow> ('o, unit) js"

record 'o adminConfig =
  ad_lifetimeMs :: int
  ad_oidc :: "'o oidcSessions option"
  ad_allowBootstrapBearer :: bool

record storedSession =
  ss_actor :: authenticatedActor
  ss_csrfToken :: string
  ss_expiresAt :: int

record ('d, 'o) accessWorld =
  aw_data :: 'd
  aw_oidc :: 'o
  aw_ambient :: ambient
  aw_times :: "nat \<Rightarrow> int"
  aw_ticks :: nat
  aw_sessions :: "(string \<times> storedSession) list"

definition onData :: "('d, 'a) js \<Rightarrow> (('d, 'o) accessWorld, 'a) js" where
  "onData m = within aw_data (\<lambda>x w. w\<lparr>aw_data := x\<rparr>) m"

definition onOidc :: "('o, 'a) js \<Rightarrow> (('d, 'o) accessWorld, 'a) js" where
  "onOidc m = within aw_oidc (\<lambda>x w. w\<lparr>aw_oidc := x\<rparr>) m"

definition accessNow :: "(('d, 'o) accessWorld, string) js" where
  "accessNow = within aw_ambient (\<lambda>a w. w\<lparr>aw_ambient := a\<rparr>) now"

definition randomToken :: "(('d, 'o) accessWorld, string) js" where
  "randomToken = within aw_ambient (\<lambda>a w. w\<lparr>aw_ambient := a\<rparr>) nextId"

definition dateNow :: "(('d, 'o) accessWorld, int) js" where
  "dateNow = (\<lambda>w. (Inr (aw_times w (aw_ticks w)), w\<lparr>aw_ticks := Suc (aw_ticks w)\<rparr>))"

section \<open>The static gateway\<close>

definition actorPrincipalType :: "authenticatedActor \<Rightarrow> principalType" where
  "actorPrincipalType a = (case ac_principalType a of None \<Rightarrow> PrincipalUser | Some t \<Rightarrow> t)"

definition authenticate :: "'d gatewayConfig \<Rightarrow> string \<Rightarrow> authenticatedActor option" where
  "authenticate gw candidate =
     (if \<not> truthy (gw_token gw) then None
      else if safeEqual (the (gw_token gw)) candidate then Some (gw_actor gw) else None)"

text \<open>A role that is no text is no role of the policy.\<close>

definition roleText :: "actorRole \<Rightarrow> string" where
  "roleText r = (case r of RoleNamed x \<Rightarrow> x | _ \<Rightarrow> [])"

definition applicationOf :: "authenticatedActor \<Rightarrow> 'a authorizationScope_scheme \<Rightarrow> registeredApplication list \<Rightarrow> registeredApplication option" where
  "applicationOf actor scope applications =
     (if actorPrincipalType actor = PrincipalApplication
      then find (\<lambda>a. app_workspaceId a = sc_workspaceId scope \<and> app_status a = AppActive
             \<and> (app_id a = ac_id actor \<or> app_namespace a = ac_id actor)) applications
      else None)"

definition applicationDenied :: "authenticatedActor \<Rightarrow> 'a authorizationScope_scheme \<Rightarrow> registeredApplication option \<Rightarrow> bool" where
  "applicationDenied actor scope application \<longleftrightarrow> actorPrincipalType actor = PrincipalApplication
     \<and> (application = None \<or> au_applicationScopeAllowed scope \<noteq> Some True
        \<or> sc_applicationId scope \<noteq> None \<and> sc_applicationId scope \<noteq> map_option app_id application)"

definition effectiveScope :: "authenticatedActor \<Rightarrow> 'a authorizationScope_scheme \<Rightarrow> registeredApplication option \<Rightarrow> policyScope" where
  "effectiveScope actor scope application = \<lparr>sc_workspaceId = sc_workspaceId scope,
     sc_datasetId = (if truthy (sc_datasetId scope) then sc_datasetId scope else None),
     sc_applicationId = (if actorPrincipalType actor = PrincipalApplication \<and> au_applicationScopeAllowed scope = Some True
        then map_option app_id application else None)\<rparr>"

definition policyInput ::
  "authenticatedActor \<Rightarrow> string \<Rightarrow> 'a authorizationScope_scheme \<Rightarrow> scopedPolicyAssignment list \<Rightarrow> registeredApplication list
     \<Rightarrow> activeBreakGlassGrant list \<Rightarrow> string \<Rightarrow> policyEvaluationInput" where
  "policyInput actor action scope assignments applications grants at = \<lparr>
     in_principal = \<lparr>pr_id = ac_id actor, pr_type = actorPrincipalType actor, pr_roles = Some (map roleText (ac_roles actor)),
       pr_workspaceIds = Some (ac_workspaceIds actor)\<rparr>,
     in_action = action, in_scope = effectiveScope actor scope (applicationOf actor scope applications),
     in_assignments = Some assignments, in_applications = Some applications, in_breakGlassGrants = Some grants, in_at = Some at\<rparr>"

definition useOf :: "authenticatedActor \<Rightarrow> string \<Rightarrow> 'a authorizationScope_scheme \<Rightarrow> string \<Rightarrow> string \<Rightarrow> string \<Rightarrow> breakGlassUse" where
  "useOf actor action scope grantId reason at = \<lparr>bu_workspaceId = sc_workspaceId scope, bu_principalId = ac_id actor, bu_grantId = grantId,
     bu_action = action, bu_reason = reason, bu_requestId = (if truthy (au_requestId scope) then au_requestId scope else None),
     bu_occurredAt = at\<rparr>"

definition readPolicies ::
  "'d gatewayConfig \<Rightarrow> string \<Rightarrow> string \<Rightarrow> string
     \<Rightarrow> (('d, 'o) accessWorld, scopedPolicyAssignment list \<times> registeredApplication list \<times> activeBreakGlassGrant list) js" where
  "readPolicies gw workspaceId actorId at =
     (case gw_policies gw of
        None \<Rightarrow> ret ([], [], [])
      | Some p \<Rightarrow>
          andThen (onData (pd_listPolicyAssignments p workspaceId (Some actorId))) (\<lambda>assignments.
          andThen (onData (pd_listApplications p workspaceId)) (\<lambda>applications.
          andThen (onData (pd_listActiveBreakGlassGrants p workspaceId at (Some actorId))) (\<lambda>grants.
            ret (assignments, applications, grants)))))"

definition allows ::
  "(string \<Rightarrow> int option) \<Rightarrow> 'd gatewayConfig \<Rightarrow> authenticatedActor \<Rightarrow> string \<Rightarrow> 'a authorizationScope_scheme \<Rightarrow> (('d, 'o) accessWorld, bool) js" where
  "allows dp gw actor action scope =
     andThen accessNow (\<lambda>at.
     andThen (readPolicies gw (sc_workspaceId scope) (ac_id actor) at) (\<lambda>(assignments, applications, grants).
       if applicationDenied actor scope (applicationOf actor scope applications) then ret False
       else
         let decision = evaluatePolicy dp at (policyInput actor action scope assignments applications grants at) in
         andThen (case (decision, Option.bind (gw_policies gw) pd_recordBreakGlassUse) of
                    (AllowedByBreakGlass grantId reason, Some record) \<Rightarrow>
                      onData (record (useOf actor action scope grantId reason at))
                  | _ \<Rightarrow> ret ()) (\<lambda>_. ret (isAllowed decision))))"

definition confirmsPrivilegedAction :: "'d gatewayConfig \<Rightarrow> authenticatedActor \<Rightarrow> string option \<Rightarrow> bool" where
  "confirmsPrivilegedAction gw actor proof =
     (if \<not> truthy proof then False
      else (case authenticate gw (the proof) of
              None \<Rightarrow> False
            | Some confirmed \<Rightarrow> ac_id confirmed = ac_id actor \<and> actorPrincipalType confirmed = actorPrincipalType actor))"

section \<open>The admin gateway\<close>

definition bearerAuthenticate :: "'d gatewayConfig \<Rightarrow> 'o adminConfig \<Rightarrow> string \<Rightarrow> authenticatedActor option" where
  "bearerAuthenticate gw ad candidate = (if ad_allowBootstrapBearer ad then authenticate gw candidate else None)"

definition prune :: "(('d, 'o) accessWorld, unit) js" where
  "prune = andThen dateNow (\<lambda>at. updating (\<lambda>w. w\<lparr>aw_sessions := filter (\<lambda>(i, s). \<not> ss_expiresAt s \<le> at) (aw_sessions w)\<rparr>))"

record adminSession =
  as_sessionId :: string
  as_actor :: authenticatedActor
  as_csrfToken :: string
  as_expiresAt :: string

definition createAdminSession ::
  "(int \<Rightarrow> js_error + string) \<Rightarrow> 'd gatewayConfig \<Rightarrow> 'o adminConfig \<Rightarrow> string \<Rightarrow> (('d, 'o) accessWorld, adminSession option) js" where
  "createAdminSession toIso gw ad candidate =
     (if authenticate gw candidate = None then ret None
      else
        andThen prune (\<lambda>_.
        andThen randomToken (\<lambda>sessionId.
        andThen randomToken (\<lambda>csrfToken.
        andThen dateNow (\<lambda>at.
          let expiresAt = at + ad_lifetimeMs ad in
          andThen (updating (\<lambda>w. w\<lparr>aw_sessions := AList.update sessionId
              \<lparr>ss_actor = gw_actor gw, ss_csrfToken = csrfToken, ss_expiresAt = expiresAt\<rparr> (aw_sessions w)\<rparr>)) (\<lambda>_.
          andThen (lifting (toIso expiresAt)) (\<lambda>text.
            ret (Some \<lparr>as_sessionId = sessionId, as_actor = gw_actor gw, as_csrfToken = csrfToken, as_expiresAt = text\<rparr>))))))))"

definition csrfTokenMatches :: "string \<Rightarrow> string option \<Rightarrow> bool" where
  "csrfTokenMatches actual supplied = (truthy supplied \<and> safeEqual actual (the supplied))"

definition authenticateAdminSession ::
  "'o adminConfig \<Rightarrow> string \<Rightarrow> string option \<Rightarrow> bool \<Rightarrow> (('d, 'o) accessWorld, authenticatedActor option) js" where
  "authenticateAdminSession ad sessionId csrfToken mutation =
     andThen prune (\<lambda>_.
     andThen (reading (\<lambda>w. map_of (aw_sessions w) sessionId)) (\<lambda>session.
       if (case session of None \<Rightarrow> False | Some s \<Rightarrow> \<not> mutation \<or> csrfTokenMatches (ss_csrfToken s) csrfToken)
       then ret (map_option ss_actor session)
       else (case ad_oidc ad of
               None \<Rightarrow> ret None
             | Some oidc \<Rightarrow> onOidc (oc_authenticateSession oidc sessionId csrfToken mutation))))"

definition revokeAdminSession :: "'o adminConfig \<Rightarrow> string \<Rightarrow> (('d, 'o) accessWorld, unit) js" where
  "revokeAdminSession ad sessionId =
     andThen (updating (\<lambda>w. w\<lparr>aw_sessions := AList.delete sessionId (aw_sessions w)\<rparr>)) (\<lambda>_.
       case ad_oidc ad of None \<Rightarrow> ret () | Some oidc \<Rightarrow> onOidc (oc_revokeSession oidc sessionId))"

section \<open>Admin sessions\<close>

lemma safeEqual_iff: "safeEqual a b \<longleftrightarrow> a = b"
  by (auto simp: safeEqual_def utf8_eq Let_def)

lemma pruned_session:
  "distinct (map fst xs) \<Longrightarrow> map_of (filter (\<lambda>(i, s). \<not> ss_expiresAt s \<le> at) xs) k
     = Option.bind (map_of xs k) (\<lambda>s. if at < ss_expiresAt s then Some s else None)"
  by (induction xs) (auto simp: map_of_eq_None_iff [THEN iffD2] intro!: map_of_eq_None_iff [THEN iffD2])

text \<open>
  A session in memory authenticates exactly while it is there and has not expired, and for a change only
  with its own CSRF token; a session that has been revoked never does.
\<close>

theorem admin_session_iff:
  assumes "distinct (map fst (aw_sessions w))" and "ad_oidc ad = None"
  shows "fst (authenticateAdminSession ad i csrf mutation w) = Inr (Some a) \<longleftrightarrow>
     (\<exists>s. map_of (aw_sessions w) i = Some s \<and> aw_times w (aw_ticks w) < ss_expiresAt s \<and> a = ss_actor s
        \<and> (mutation \<longrightarrow> csrf = Some (ss_csrfToken s) \<and> ss_csrfToken s \<noteq> []))"
proof -
  have match: "csrfTokenMatches (ss_csrfToken s) csrf \<longleftrightarrow> csrf = Some (ss_csrfToken s) \<and> ss_csrfToken s \<noteq> []" for s
    by (cases csrf) (auto simp: csrfTokenMatches_def truthy_def safeEqual_iff)
  show ?thesis
    using assms(2) by (cases "map_of (aw_sessions w) i")
      (auto simp: authenticateAdminSession_def prune_def dateNow_def js_simps pruned_session [OF assms(1)] match)
qed

theorem revoked_admin_session_refused:
  assumes "distinct (map fst (aw_sessions w))" and "ad_oidc ad = None" and "revokeAdminSession ad i w = (r, w')"
  shows "fst (authenticateAdminSession ad i csrf mutation w') \<noteq> Inr (Some a)"
proof -
  have w': "w' = w\<lparr>aw_sessions := AList.delete i (aw_sessions w)\<rparr>" using assms(2,3) by (simp add: revokeAdminSession_def js_simps)
  have d: "distinct (map fst (aw_sessions w'))" using assms(1) by (simp add: w' distinct_delete)
  have "map_of (aw_sessions w') i = None" by (simp add: w' delete_conv)
  then show ?thesis using admin_session_iff [OF d assms(2), of i csrf mutation a] by simp
qed

section \<open>What the decision depends on\<close>

text \<open>
  Who is entitled, over the lists and sets the tables hold: an application acts only through its active
  registration, for its own resources and within its capabilities; the right itself comes from an
  assignment in force that covers the scope, from a claimed role, or from a grant in force.
\<close>

definition applicationMay :: "registeredApplication list \<Rightarrow> authenticatedActor \<Rightarrow> string \<Rightarrow> 'a authorizationScope_scheme \<Rightarrow> bool" where
  "applicationMay apps actor action scope \<longleftrightarrow> actorPrincipalType actor = PrincipalApplication \<longrightarrow>
     (\<exists>a. applicationOf actor scope apps = Some a \<and> action \<in> set (app_capabilities a)
        \<and> au_applicationScopeAllowed scope = Some True \<and> sc_applicationId scope \<in> {None, Some (app_id a)})"

definition assignmentCovers ::
  "registeredApplication list \<Rightarrow> authenticatedActor \<Rightarrow> string \<Rightarrow> 'a authorizationScope_scheme \<Rightarrow> 'b scopedPolicyAssignment_scheme \<Rightarrow> bool" where
  "assignmentCovers apps actor action scope a \<longleftrightarrow> as_workspaceId a = sc_workspaceId scope \<and> as_revokedAt a = None
     \<and> as_principalId a = ac_id actor \<and> as_principalType a = actorPrincipalType actor \<and> action \<in> set (capabilitiesForRole (as_role a))
     \<and> (as_scopeKind a = ScopeWorkspace \<and> as_scopeId a = sc_workspaceId scope
        \<or> as_scopeKind a = ScopeDataset \<and> as_scopeId a \<noteq> [] \<and> sc_datasetId scope = Some (as_scopeId a)
        \<or> as_scopeKind a = ScopeApplication \<and> map_option app_id (applicationOf actor scope apps) = Some (as_scopeId a))"

definition roleCovers ::
  "registeredApplication list \<Rightarrow> scopedPolicyAssignment set \<Rightarrow> authenticatedActor \<Rightarrow> string \<Rightarrow> 'a authorizationScope_scheme \<Rightarrow> bool" where
  "roleCovers apps assigned actor action scope \<longleftrightarrow> (\<exists>a \<in> assigned. assignmentCovers apps actor action scope a)
     \<or> sc_workspaceId scope \<in> set (ac_workspaceIds actor) \<and> (\<exists>r. RoleNamed r \<in> set (ac_roles actor) \<and> action \<in> set (capabilitiesForRole r))"

definition grantCovers ::
  "(string \<Rightarrow> int option) \<Rightarrow> authenticatedActor \<Rightarrow> string \<Rightarrow> 'a authorizationScope_scheme \<Rightarrow> string \<Rightarrow> 'b activeBreakGlassGrant_scheme \<Rightarrow> bool" where
  "grantCovers dp actor action scope at g \<longleftrightarrow> isBreakGlassEligibleAction action \<and> gr_workspaceId g = sc_workspaceId scope
     \<and> gr_revokedAt g = None \<and> gr_principalId g = ac_id actor \<and> trim (gr_reason g) \<noteq> [] \<and> action \<in> set (gr_actions g)
     \<and> dateLe (dp (gr_grantedAt g)) (dp at) \<and> dateLess (dp at) (dp (gr_expiresAt g))"

lemma policyInput_fields:
  shows "sc_workspaceId (in_scope (policyInput actor action scope xs as gs at)) = sc_workspaceId scope" and "in_action (policyInput actor action scope xs as gs at) = action"
    and "pr_id (in_principal (policyInput actor action scope xs as gs at)) = ac_id actor" and "pr_type (in_principal (policyInput actor action scope xs as gs at)) = actorPrincipalType actor"
    and "listOr (in_assignments (policyInput actor action scope xs as gs at)) = xs" and "listOr (in_breakGlassGrants (policyInput actor action scope xs as gs at)) = gs"
    and "listOr (in_applications (policyInput actor action scope xs as gs at)) = as"
    and "listOr (pr_workspaceIds (in_principal (policyInput actor action scope xs as gs at))) = ac_workspaceIds actor"
    and "listOr (pr_roles (in_principal (policyInput actor action scope xs as gs at))) = map roleText (ac_roles actor)" and "in_at (policyInput actor action scope xs as gs at) = Some at"
    and "sc_datasetId (in_scope (policyInput actor action scope xs as gs at)) = (if truthy (sc_datasetId scope) then sc_datasetId scope else None)"
  by (simp_all add: policyInput_def effectiveScope_def listOr_def)

lemma policyInput_application:
  assumes "\<not> applicationDenied actor scope (applicationOf actor scope as)"
  shows "sc_applicationId (in_scope (policyInput actor action scope xs as gs at)) = map_option app_id (applicationOf actor scope as)"
  using assms by (auto simp: policyInput_def effectiveScope_def applicationDenied_def applicationOf_def)

lemma registered_is_acting:
  "actorPrincipalType actor = PrincipalApplication \<Longrightarrow>
     registeredApplication (policyInput actor action scope xs as gs at) = applicationOf actor scope as"
  unfolding registeredApplication_def policyInput_fields applicationOf_def by (simp add: applicationMatches_def [abs_def] policyInput_fields)

lemma claimed_role:
  "(\<exists>role \<in> set (map roleText (ac_roles actor)). action \<in> set (capabilitiesForRole role))
     \<longleftrightarrow> (\<exists>r. RoleNamed r \<in> set (ac_roles actor) \<and> action \<in> set (capabilitiesForRole r))"
proof -
  have none: "capabilitiesForRole [] = []" by (simp add: capabilitiesForRole_def isPolicyRole_def)
  have "action \<in> set (capabilitiesForRole (roleText r)) \<longleftrightarrow> (\<exists>x. r = RoleNamed x \<and> action \<in> set (capabilitiesForRole x))" for r
    by (cases r) (simp_all add: roleText_def none)
  then show ?thesis by auto
qed

lemma input_role:
  assumes "\<not> applicationDenied actor scope (applicationOf actor scope as)"
    and xs: "set xs = {a \<in> assigned. as_workspaceId a = sc_workspaceId scope \<and> as_revokedAt a = None \<and> (ac_id actor = [] \<or> as_principalId a = ac_id actor)}"
  shows "holdsRole (policyInput actor action scope xs as gs at) \<longleftrightarrow> roleCovers as assigned actor action scope"
proof -
  let ?inp = "policyInput actor action scope xs as gs at"
  have "assignmentApplies ?inp a \<and> action \<in> set (capabilitiesForRole (as_role a)) \<longleftrightarrow> assignmentCovers as actor action scope a" if "as_revokedAt a = None" for a
    unfolding assignmentApplies_def assignmentCovers_def policyInput_fields policyInput_application [OF assms(1)] truthy_def unset_def
    using that by (cases "as_scopeKind a"; cases "sc_datasetId scope"; cases "applicationOf actor scope as") auto
  then have "(\<exists>a \<in> set xs. assignmentApplies ?inp a \<and> action \<in> set (capabilitiesForRole (as_role a)))
      \<longleftrightarrow> (\<exists>a \<in> assigned. assignmentCovers as actor action scope a)"
    unfolding xs by (auto simp: assignmentCovers_def)
  then show ?thesis unfolding holdsRole_def roleCovers_def policyInput_fields claimed_role by blast
qed

lemma input_grant:
  assumes gs: "set gs = {g \<in> granted. gr_workspaceId g = sc_workspaceId scope \<and> gr_revokedAt g = None
      \<and> (ac_id actor = [] \<or> gr_principalId g = ac_id actor) \<and> dateLe (dp (gr_grantedAt g)) (dp at) \<and> dateLess (dp at) (dp (gr_expiresAt g))}"
  shows "activeBreakGlassGrant dp at (policyInput actor action scope xs as gs at) = Some g \<Longrightarrow> g \<in> granted \<and> grantCovers dp actor action scope at g"
    and "activeBreakGlassGrant dp at (policyInput actor action scope xs as gs at) = None \<longleftrightarrow> \<not> (\<exists>g \<in> granted. grantCovers dp actor action scope at g)"
proof -
  let ?inp = "policyInput actor action scope xs as gs at"
  have match: "g \<in> set gs \<and> isBreakGlassEligibleAction action \<and> grantMatches dp (dp at) ?inp g \<longleftrightarrow> g \<in> granted \<and> grantCovers dp actor action scope at g" for g
    unfolding grantMatches_def grantCovers_def policyInput_fields gs truthy_def by auto
  have run: "activeBreakGlassGrant dp at ?inp = (if isBreakGlassEligibleAction action then List.find (grantMatches dp (dp at) ?inp) gs else None)"
    unfolding activeBreakGlassGrant_def policyInput_fields by (simp add: Let_def)
  show "g \<in> granted \<and> grantCovers dp actor action scope at g" if "activeBreakGlassGrant dp at ?inp = Some g"
    using that match [of g] unfolding run by (auto simp: find_Some_iff split: if_splits)
  show "activeBreakGlassGrant dp at ?inp = None \<longleftrightarrow> \<not> (\<exists>g \<in> granted. grantCovers dp actor action scope at g)"
    using match unfolding run by (auto simp: find_None_iff)
qed

section \<open>What the gateway needs of the policy tables\<close>

text \<open>
  The reads change nothing and return what is in force: the applications of the workspace, the unrevoked
  assignments of the principal, the unrevoked grants of the principal whose period contains the time. A
  recorded use is logged and changes none of them.
\<close>

locale policy_source =
  fixes source :: "'d policyDataSource" and dp :: "string \<Rightarrow> int option" and recordUse :: "breakGlassUse \<Rightarrow> ('d, unit) js"
    and apps :: "'d \<Rightarrow> string \<Rightarrow> registeredApplication list" and assigned :: "'d \<Rightarrow> scopedPolicyAssignment set"
    and granted :: "'d \<Rightarrow> activeBreakGlassGrant set" and logs :: "breakGlassUse \<Rightarrow> 'd \<Rightarrow> 'd \<Rightarrow> bool"
  assumes list_applications: "pd_listApplications source ws d = (Inr as, d') \<Longrightarrow> d' = d \<and> as = apps d ws"
    and list_assignments: "pd_listPolicyAssignments source ws (Some p) d = (Inr xs, d') \<Longrightarrow> d' = d \<and>
        set xs = {a \<in> assigned d. as_workspaceId a = ws \<and> as_revokedAt a = None \<and> (p = [] \<or> as_principalId a = p)}"
    and list_grants: "pd_listActiveBreakGlassGrants source ws at (Some p) d = (Inr gs, d') \<Longrightarrow> d' = d \<and>
        set gs = {g \<in> granted d. gr_workspaceId g = ws \<and> gr_revokedAt g = None \<and> (p = [] \<or> gr_principalId g = p)
          \<and> dateLe (dp (gr_grantedAt g)) (dp at) \<and> dateLess (dp at) (dp (gr_expiresAt g))}"
    and records: "pd_recordBreakGlassUse source = Some recordUse"
    and recorded: "recordUse u d = (Inr x, d') \<Longrightarrow> logs u d d'"
begin

lemma readPolicies_ok:
  assumes "gw_policies gw = Some source" and "readPolicies gw ws i at w = (Inr (xs, as, gs), w')"
  shows "aw_data w' = aw_data w" and "as = apps (aw_data w) ws"
    and "set xs = {a \<in> assigned (aw_data w). as_workspaceId a = ws \<and> as_revokedAt a = None \<and> (i = [] \<or> as_principalId a = i)}"
    and "set gs = {g \<in> granted (aw_data w). gr_workspaceId g = ws \<and> gr_revokedAt g = None \<and> (i = [] \<or> gr_principalId g = i)
          \<and> dateLe (dp (gr_grantedAt g)) (dp at) \<and> dateLess (dp at) (dp (gr_expiresAt g))}"
proof -
  let ?d = "aw_data w"
  obtain d1 d2 d3 where one: "pd_listPolicyAssignments source ws (Some i) ?d = (Inr xs, d1)" and two: "pd_listApplications source ws d1 = (Inr as, d2)"
    and three: "pd_listActiveBreakGlassGrants source ws at (Some i) d2 = (Inr gs, d3)" and w': "aw_data w' = d3"
    using assms by (auto simp: readPolicies_def onData_def js_ok within_def Let_def split: prod.splits)
  have d: "d1 = ?d" "d2 = ?d" "d3 = ?d"
    using list_assignments [OF one] list_applications [OF two] list_grants [OF three] by simp_all
  show "aw_data w' = ?d" and "as = apps ?d ws" using w' d list_applications [OF two] by simp_all
  show "set xs = {a \<in> assigned ?d. as_workspaceId a = ws \<and> as_revokedAt a = None \<and> (i = [] \<or> as_principalId a = i)}"
    using list_assignments [OF one] by simp
  show "set gs = {g \<in> granted ?d. gr_workspaceId g = ws \<and> gr_revokedAt g = None \<and> (i = [] \<or> gr_principalId g = i)
          \<and> dateLe (dp (gr_grantedAt g)) (dp at) \<and> dateLess (dp at) (dp (gr_expiresAt g))}"
    using list_grants [OF three] d by simp
qed

lemma access_decided:
  fixes w :: "('d, 'o) accessWorld"
  assumes gw: "gw_policies gw = Some source" and run: "allows dp gw actor action scope w = (Inr b, w')"
  defines "d \<equiv> aw_data w" and "at \<equiv> nowAt (aw_ambient w) (ticks (aw_ambient w))"
  shows "b \<longleftrightarrow> applicationMay (apps d (sc_workspaceId scope)) actor action scope
        \<and> (roleCovers (apps d (sc_workspaceId scope)) (assigned d) actor action scope \<or> (\<exists>g \<in> granted d. grantCovers dp actor action scope at g))"
    and "if b \<and> \<not> roleCovers (apps d (sc_workspaceId scope)) (assigned d) actor action scope
      then \<exists>g \<in> granted d. grantCovers dp actor action scope at g \<and> logs (useOf actor action scope (gr_id g) (gr_reason g) at) d (aw_data w')
      else aw_data w' = d"
proof -
  let ?ws = "sc_workspaceId scope"
  obtain xs as gs v where read: "readPolicies gw ?ws (ac_id actor) at (w\<lparr>aw_ambient := (aw_ambient w)\<lparr>ticks := ticks (aw_ambient w) + 1\<rparr>\<rparr>) = (Inr (xs, as, gs), v)"
    and rest: "(if applicationDenied actor scope (applicationOf actor scope as) then ret False
       else let decision = evaluatePolicy dp at (policyInput actor action scope xs as gs at) in
         andThen (case (decision, Option.bind (gw_policies gw) pd_recordBreakGlassUse) of
                    (AllowedByBreakGlass grantId reason, Some record) \<Rightarrow> onData (record (useOf actor action scope grantId reason at))
                  | _ \<Rightarrow> ret ()) (\<lambda>_. ret (isAllowed decision))) v = (Inr b, w')"
    using run unfolding allows_def andThen_eq_Inr accessNow_def within_run now_run by (auto simp: at_def [symmetric])
  note facts = readPolicies_ok [OF gw read, simplified, folded d_def]
  note role = input_role [where as = as and xs = xs and assigned = "assigned d" and actor = actor and scope = scope, OF _ facts(3)]
  note grant = input_grant [where gs = gs and granted = "granted d" and actor = actor and scope = scope and dp = dp and at = at, OF facts(4)]
  let ?inp = "policyInput actor action scope xs as gs at"
  let ?role = "roleCovers as (assigned d) actor action scope" and ?grant = "\<exists>g \<in> granted d. grantCovers dp actor action scope at g"
  have main: "(b \<longleftrightarrow> applicationMay as actor action scope \<and> (?role \<or> ?grant))
      \<and> (if b \<and> \<not> ?role then \<exists>g \<in> granted d. grantCovers dp actor action scope at g \<and> logs (useOf actor action scope (gr_id g) (gr_reason g) at) d (aw_data w')
         else aw_data w' = d)"
  proof (cases "applicationDenied actor scope (applicationOf actor scope as)")
    case True
    then have "\<not> applicationMay as actor action scope" by (auto simp: applicationMay_def applicationDenied_def)
    then show ?thesis using rest True facts(1) by (auto simp: js_ok)
  next
    case False
    have may: "applicationMay as actor action scope \<longleftrightarrow> applicationRefusal ?inp = None"
      using False registered_is_acting [of actor action scope xs as gs at]
      by (auto simp: applicationMay_def applicationRefusal_def applicationDenied_def policyInput_fields list_ex_iff split: option.splits)
    have role': "?role \<longleftrightarrow> firstCapableAssignment ?inp (listOr (in_assignments ?inp) @ claimedRoleAssignments ?inp) \<noteq> None"
      unfolding allowed_by_role using role [OF False] by blast
    show ?thesis
    proof (cases "evaluatePolicy dp at ?inp")
      case (AllowedByRole i)
      then have "b" "w' = v" using rest False by (auto simp: js_ok)
      moreover have "applicationRefusal ?inp = None" "?role" using AllowedByRole unfolding role' by (auto simp: evaluatePolicy_def split: option.splits)
      ultimately show ?thesis using may facts(1) by simp
    next
      case (AllowedByBreakGlass i reason)
      then obtain g where no: "applicationRefusal ?inp = None" "\<not> ?role" and g: "activeBreakGlassGrant dp at ?inp = Some g" "i = gr_id g" "reason = gr_reason g"
        unfolding role' by (auto simp: evaluatePolicy_def split: option.splits)
      have "b" "\<exists>x. onData (recordUse (useOf actor action scope i reason at)) v = (Inr x, w')"
        using rest False AllowedByBreakGlass gw records by (auto simp: js_ok)
      then have "b" "logs (useOf actor action scope i reason at) d (aw_data w')"
        using facts(1) by (auto simp: onData_def within_run Let_def split: prod.splits dest!: recorded)
      then show ?thesis using no g grant(1) [OF g(1)] may by auto
    next
      case (Denied r)
      then have "\<not> b" "w' = v" using rest False by (auto simp: js_ok)
      moreover have "applicationRefusal ?inp \<noteq> None \<or> \<not> ?role \<and> activeBreakGlassGrant dp at ?inp = None"
        using Denied unfolding role' by (auto simp: evaluatePolicy_def split: option.splits)
      ultimately show ?thesis using may facts(1) grant(2) by auto
    qed
  qed
  show "b \<longleftrightarrow> applicationMay (apps d (sc_workspaceId scope)) actor action scope
        \<and> (roleCovers (apps d (sc_workspaceId scope)) (assigned d) actor action scope \<or> (\<exists>g \<in> granted d. grantCovers dp actor action scope at g))"
    and "if b \<and> \<not> roleCovers (apps d (sc_workspaceId scope)) (assigned d) actor action scope
      then \<exists>g \<in> granted d. grantCovers dp actor action scope at g \<and> logs (useOf actor action scope (gr_id g) (gr_reason g) at) d (aw_data w')
      else aw_data w' = d"
    using main unfolding facts(2) by - (elim conjE, assumption)+
qed

end

end
