(* ===== verification/PolicyStore.thy ===== *)
theory PolicyStore
  imports Access HistoryStore
begin

text \<open>
  The administration of rights: the tables of applications, policy assignments and break-glass grants in
  \<open>packages/persistence-postgres/src/contract-repository.ts\<close> (lines 34 to 425), and the commands of
  \<open>apps/trust-api/src/postgres-commands.ts\<close> that change them.

  A table is the list of its rows; a constraint of the migrations is a branch of the statement that can
  violate it. Times are ISO texts: a comparison of times reads them with \<open>dp\<close>, \<open>ORDER BY\<close> compares texts.
  The clock and random identifiers come from \<open>pt_ambient\<close>, which a rollback keeps.
\<close>

section \<open>Tables\<close>

record applicationRegistration = registeredApplication +
  an_name :: string
  an_applicationVersion :: string
  an_schemaPackageIds :: "string list"
  an_createdAt :: string
  an_updatedAt :: string

record applicationRow = applicationRegistration +
  an_idempotencyKey :: "string option"
  an_requestFingerprint :: "string option"

record policyAssignment = scopedPolicyAssignment +
  pa_createdBy :: string
  pa_createdAt :: string

record breakGlassGrant = activeBreakGlassGrant +
  bg_grantedBy :: string

record policyTables =
  pt_workspaces :: "string list"
  pt_applications :: "applicationRow list"
  pt_assignments :: "policyAssignment list"
  pt_grants :: "breakGlassGrant list"
  pt_audit :: "chainedAuditEvent list"
  pt_ambient :: ambient

definition policyNow :: "(policyTables, string) js" where
  "policyNow = within pt_ambient (\<lambda>a t. t\<lparr>pt_ambient := a\<rparr>) now"

definition policyUUID :: "(policyTables, string) js" where
  "policyUUID = within pt_ambient (\<lambda>a t. t\<lparr>pt_ambient := a\<rparr>) nextId"

definition scoped :: "(policyTables, 'a) js \<Rightarrow> (policyTables, 'a) js" where
  "scoped work = inTransaction (\<lambda>before after. before\<lparr>pt_ambient := pt_ambient after\<rparr>) work"

definition contractError :: "string \<Rightarrow> string \<Rightarrow> js_error" where
  "contractError code message = JsError ''Error'' (Some code) message"

definition checkViolation :: js_error where
  "checkViolation = JsError ''error'' (Some ''23514'') ''new row violates check constraint''"

definition invalidTimestamp :: js_error where
  "invalidTimestamp = JsError ''error'' (Some ''22007'') ''invalid input syntax for type timestamp with time zone''"

section \<open>Statements\<close>

text \<open>
  \<open>stableJson\<close> sorts the five members by their names. The row of an earlier registration under the same
  key is returned as it stands.
\<close>

definition registrationFingerprint :: "(bytes \<Rightarrow> string) \<Rightarrow> 'a applicationRegistration_scheme \<Rightarrow> string" where
  "registrationFingerprint sha r = sha (utf8 (stringify (JObj [
     (''applicationVersion'', JStr (an_applicationVersion r)), (''capabilities'', JArr (map JStr (app_capabilities r))),
     (''name'', JStr (an_name r)), (''namespace'', JStr (app_namespace r)),
     (''schemaPackageIds'', JArr (map JStr (an_schemaPackageIds r)))])))"

definition insertApplication :: "applicationRow \<Rightarrow> (policyTables, applicationRow) js" where
  "insertApplication row =
     andThen (reading (\<lambda>t. t)) (\<lambda>t.
       if an_idempotencyKey row \<noteq> None \<and> list_all (\<lambda>c. c = CHR '' '') (the (an_idempotencyKey row)) then throw checkViolation
       else (case List.find (\<lambda>r. app_workspaceId r = app_workspaceId row \<and> an_idempotencyKey r \<noteq> None
                \<and> an_idempotencyKey r = an_idempotencyKey row) (pt_applications t) of
               Some existing \<Rightarrow> ret existing
             | None \<Rightarrow>
                 if app_id row \<in> set (map app_id (pt_applications t))
                    \<or> list_ex (\<lambda>r. app_workspaceId r = app_workspaceId row \<and> app_namespace r = app_namespace row) (pt_applications t)
                 then throw uniqueViolation
                 else if app_workspaceId row \<notin> set (pt_workspaces t) then throw foreignKeyViolation
                 else andThen (updating (\<lambda>t. t\<lparr>pt_applications := pt_applications t @ [row]\<rparr>)) (\<lambda>_. ret row)))"

definition pgRegisterApplication ::
  "(bytes \<Rightarrow> string) \<Rightarrow> applicationRegistration \<Rightarrow> string \<Rightarrow> (policyTables, applicationRegistration) js" where
  "pgRegisterApplication sha r requestKey =
     scoped (let fingerprint = registrationFingerprint sha r in
       catching
         (andThen (insertApplication (applicationRegistration.extend r \<lparr>an_idempotencyKey = Some requestKey, an_requestFingerprint = Some fingerprint\<rparr>)) (\<lambda>row.
            if an_requestFingerprint row \<noteq> Some fingerprint
            then throw (contractError ''IDEMPOTENCY_CONFLICT'' ''Idempotency key was already used for a different application registration.'')
            else ret (applicationRegistration.truncate row)))
         (\<lambda>e. if err_code e = Some ''23505''
              then throw (contractError ''IDEMPOTENCY_CONFLICT'' ''Application namespace or idempotency key is already registered with different input.'')
              else throw e))"

definition pgListApplications :: "string \<Rightarrow> (policyTables, applicationRegistration list) js" where
  "pgListApplications workspaceId = scoped (reading (\<lambda>t. map applicationRegistration.truncate
     (sort_key app_namespace (filter (\<lambda>r. app_workspaceId r = workspaceId) (pt_applications t)))))"

definition ofPrincipal :: "string option \<Rightarrow> string \<Rightarrow> bool" where
  "ofPrincipal principalId i \<longleftrightarrow> \<not> truthy principalId \<or> principalId = Some i"

definition pgListPolicyAssignments :: "string \<Rightarrow> string option \<Rightarrow> (policyTables, policyAssignment list) js" where
  "pgListPolicyAssignments workspaceId principalId = scoped (reading (\<lambda>t. sort_key (\<lambda>r. (pa_createdAt r, as_id r))
     (filter (\<lambda>r. as_workspaceId r = workspaceId \<and> as_revokedAt r = None \<and> ofPrincipal principalId (as_principalId r)) (pt_assignments t))))"

definition pgGetPolicyAssignment :: "string \<Rightarrow> string \<Rightarrow> (policyTables, policyAssignment option) js" where
  "pgGetPolicyAssignment workspaceId assignmentId = scoped (reading (\<lambda>t.
     List.find (\<lambda>r. as_workspaceId r = workspaceId \<and> as_id r = assignmentId) (pt_assignments t)))"

text \<open>The columns of the unique index on assignments in force.\<close>

definition assignmentKey ::
  "'a scopedPolicyAssignment_scheme \<Rightarrow> string \<times> principalType \<times> string \<times> string \<times> scopeKind \<times> string" where
  "assignmentKey r = (as_workspaceId r, as_principalType r, as_principalId r, as_role r, as_scopeKind r, as_scopeId r)"

definition pgCreatePolicyAssignment :: "policyAssignment \<Rightarrow> (policyTables, policyAssignment) js" where
  "pgCreatePolicyAssignment row = scoped (
     andThen (reading (\<lambda>t. t)) (\<lambda>t.
       if as_id row \<in> set (map as_id (pt_assignments t))
          \<or> as_revokedAt row = None \<and> list_ex (\<lambda>r. as_revokedAt r = None \<and> assignmentKey r = assignmentKey row) (pt_assignments t)
       then throw uniqueViolation
       else if as_workspaceId row \<notin> set (pt_workspaces t) then throw foreignKeyViolation
       else andThen (updating (\<lambda>t. t\<lparr>pt_assignments := pt_assignments t @ [row]\<rparr>)) (\<lambda>_. ret row)))"

definition revokedAssignment :: "string \<Rightarrow> string \<Rightarrow> string \<Rightarrow> policyAssignment \<Rightarrow> policyAssignment" where
  "revokedAssignment workspaceId assignmentId at r =
     (if as_workspaceId r = workspaceId \<and> as_id r = assignmentId \<and> as_revokedAt r = None then r\<lparr>as_revokedAt := Some at\<rparr> else r)"

definition pgRevokePolicyAssignment :: "string \<Rightarrow> string \<Rightarrow> string \<Rightarrow> (policyTables, unit) js" where
  "pgRevokePolicyAssignment workspaceId assignmentId at =
     scoped (updating (\<lambda>t. t\<lparr>pt_assignments := map (revokedAssignment workspaceId assignmentId at) (pt_assignments t)\<rparr>))"

definition pgCreateBreakGlassGrant :: "(string \<Rightarrow> int option) \<Rightarrow> breakGlassGrant \<Rightarrow> (policyTables, breakGlassGrant) js" where
  "pgCreateBreakGlassGrant dp g =
     (if trim (gr_reason g) = [] \<or> gr_actions g = [] \<or> list_ex (\<lambda>a. \<not> isBreakGlassEligibleAction a) (gr_actions g)
      then throw (plainError ''Break-glass grants require a reason and eligible actions.'')
      else if dateLe (dp (gr_expiresAt g)) (dp (gr_grantedAt g)) then throw (plainError ''Break-glass expiry must follow grant time.'')
      else scoped (
        andThen (reading (\<lambda>t. t)) (\<lambda>t.
          if dp (gr_grantedAt g) = None \<or> dp (gr_expiresAt g) = None then throw invalidTimestamp
          else if gr_id g \<in> set (map gr_id (pt_grants t)) then throw uniqueViolation
          else if gr_workspaceId g \<notin> set (pt_workspaces t) then throw foreignKeyViolation
          else andThen (updating (\<lambda>t. t\<lparr>pt_grants := pt_grants t @ [g]\<rparr>)) (\<lambda>_. ret g))))"

definition revokedGrant :: "string \<Rightarrow> string \<Rightarrow> string \<Rightarrow> breakGlassGrant \<Rightarrow> breakGlassGrant" where
  "revokedGrant workspaceId grantId at g =
     (if gr_workspaceId g = workspaceId \<and> gr_id g = grantId \<and> gr_revokedAt g = None then g\<lparr>gr_revokedAt := Some at\<rparr> else g)"

definition pgRevokeBreakGlassGrant :: "string \<Rightarrow> string \<Rightarrow> string \<Rightarrow> (policyTables, unit) js" where
  "pgRevokeBreakGlassGrant workspaceId grantId at =
     scoped (updating (\<lambda>t. t\<lparr>pt_grants := map (revokedGrant workspaceId grantId at) (pt_grants t)\<rparr>))"

definition pgListActiveBreakGlassGrants ::
  "(string \<Rightarrow> int option) \<Rightarrow> string \<Rightarrow> string \<Rightarrow> string option \<Rightarrow> (policyTables, breakGlassGrant list) js" where
  "pgListActiveBreakGlassGrants dp workspaceId at principalId = scoped (reading (\<lambda>t. sort_key gr_expiresAt
     (filter (\<lambda>g. gr_workspaceId g = workspaceId \<and> gr_revokedAt g = None \<and> dateLe (dp (gr_grantedAt g)) (dp at)
        \<and> dateLess (dp at) (dp (gr_expiresAt g)) \<and> ofPrincipal principalId (gr_principalId g)) (pt_grants t))))"

definition insertAuditEvent :: "chainedAuditEvent \<Rightarrow> (policyTables, unit) js" where
  "insertAuditEvent e =
     andThen (reading (\<lambda>t. t)) (\<lambda>t.
       if ev_id e \<in> set (map ev_id (pt_audit t)) then throw uniqueViolation
       else if ev_workspaceId e \<notin> set (pt_workspaces t) then throw foreignKeyViolation
       else updating (\<lambda>t. t\<lparr>pt_audit := pt_audit t @ [e]\<rparr>))"

definition useEvent :: "breakGlassUse \<Rightarrow> string \<Rightarrow> string \<Rightarrow> auditEventBody" where
  "useEvent u eventId requestId = \<lparr>ev_id = eventId, ev_workspaceId = bu_workspaceId u, ev_actorType = ActorUser,
     ev_actorId = bu_principalId u, ev_action = ''break_glass.used'', ev_subjectKind = ''break_glass_grant'', ev_subjectId = bu_grantId u,
     ev_timestamp = bu_occurredAt u, ev_requestId = requestId, ev_correlationId = requestId,
     ev_metadata = [(''authorizedAction'', JStr (bu_action u)), (''reason'', JStr (bu_reason u))]\<rparr>"

definition pgRecordBreakGlassUse :: "(bytes \<Rightarrow> string) \<Rightarrow> breakGlassUse \<Rightarrow> (policyTables, unit) js" where
  "pgRecordBreakGlassUse sha u = scoped (
     andThen (reading (\<lambda>t. latestHash (bu_workspaceId u) (pt_audit t))) (\<lambda>previous.
     andThen (case bu_requestId u of Some r \<Rightarrow> ret r | None \<Rightarrow> policyUUID) (\<lambda>requestId.
     andThen policyUUID (\<lambda>eventId.
       insertAuditEvent (appendAuditEvent sha (useEvent u eventId requestId) previous)))))"

record assignmentChange =
  ch_workspaceId :: string
  ch_actor :: authenticatedActor
  ch_assignmentId :: string
  ch_action :: string
  ch_requestId :: string
  ch_occurredAt :: string
  ch_metadata :: "(string \<times> json) list"

definition auditActor :: "authenticatedActor \<Rightarrow> actorType" where
  "auditActor a = (case actorPrincipalType a of PrincipalUser \<Rightarrow> ActorUser | PrincipalService \<Rightarrow> ActorService | PrincipalApplication \<Rightarrow> ActorApplication)"

definition changeEvent :: "assignmentChange \<Rightarrow> string \<Rightarrow> auditEventBody" where
  "changeEvent c eventId = \<lparr>ev_id = eventId, ev_workspaceId = ch_workspaceId c, ev_actorType = auditActor (ch_actor c),
     ev_actorId = ac_id (ch_actor c), ev_action = ch_action c, ev_subjectKind = ''policy_assignment'', ev_subjectId = ch_assignmentId c,
     ev_timestamp = ch_occurredAt c, ev_requestId = ch_requestId c, ev_correlationId = ch_requestId c, ev_metadata = ch_metadata c\<rparr>"

definition pgRecordPolicyAssignmentChange :: "(bytes \<Rightarrow> string) \<Rightarrow> assignmentChange \<Rightarrow> (policyTables, unit) js" where
  "pgRecordPolicyAssignmentChange sha c = scoped (
     andThen (reading (\<lambda>t. latestHash (ch_workspaceId c) (pt_audit t))) (\<lambda>previous.
     andThen policyUUID (\<lambda>eventId.
       insertAuditEvent (appendAuditEvent sha (changeEvent c eventId) previous))))"

definition policySource :: "(string \<Rightarrow> int option) \<Rightarrow> (bytes \<Rightarrow> string) \<Rightarrow> policyTables policyDataSource" where
  "policySource dp sha = \<lparr>
     pd_listApplications = (\<lambda>w. andThen (pgListApplications w) (\<lambda>xs. ret (map registeredApplication.truncate xs))),
     pd_listPolicyAssignments = (\<lambda>w p. andThen (pgListPolicyAssignments w p) (\<lambda>xs. ret (map scopedPolicyAssignment.truncate xs))),
     pd_listActiveBreakGlassGrants = (\<lambda>w at p. andThen (pgListActiveBreakGlassGrants dp w at p) (\<lambda>xs. ret (map activeBreakGlassGrant.truncate xs))),
     pd_recordBreakGlassUse = Some (pgRecordBreakGlassUse sha)\<rparr>"

section \<open>Commands\<close>

record createAssignmentCommand =
  cp_workspaceId :: string
  cp_principalType :: principalType
  cp_principalId :: string
  cp_role :: string
  cp_scopeKind :: scopeKind
  cp_scopeId :: string
  cp_idempotencyKey :: string

record registerApplicationCommand =
  rg_workspaceId :: string
  rg_namespace :: string
  rg_name :: string
  rg_applicationVersion :: string
  rg_schemaPackageIds :: "string list"
  rg_capabilities :: "string list"
  rg_idempotencyKey :: string

definition registerApplication ::
  "(bytes \<Rightarrow> string) \<Rightarrow> registerApplicationCommand \<Rightarrow> (policyTables, applicationRegistration) js" where
  "registerApplication sha c =
     (if list_ex (\<lambda>a. \<not> isPolicyAction a) (rg_capabilities c)
      then throw (contractError ''INVALID_COMMAND'' ''Application capability is not recognized.'')
      else
        andThen policyNow (\<lambda>at.
        andThen policyUUID (\<lambda>newId.
          pgRegisterApplication sha \<lparr>app_id = newId, app_workspaceId = rg_workspaceId c, app_namespace = rg_namespace c,
            app_capabilities = rg_capabilities c, app_status = AppActive, an_name = rg_name c, an_applicationVersion = rg_applicationVersion c,
            an_schemaPackageIds = rg_schemaPackageIds c, an_createdAt = at, an_updatedAt = at\<rparr> (rg_idempotencyKey c))))"

definition samePolicyAssignment :: "'a scopedPolicyAssignment_scheme \<Rightarrow> createAssignmentCommand \<Rightarrow> bool" where
  "samePolicyAssignment a c \<longleftrightarrow> as_workspaceId a = cp_workspaceId c \<and> as_principalType a = cp_principalType c
     \<and> as_principalId a = cp_principalId c \<and> as_role a = cp_role c \<and> as_scopeKind a = cp_scopeKind c \<and> as_scopeId a = cp_scopeId c"

definition assignmentIdOf :: "(bytes \<Rightarrow> string) \<Rightarrow> authenticatedActor \<Rightarrow> createAssignmentCommand \<Rightarrow> string" where
  "assignmentIdOf sha actor c = deterministicUuid sha
     (''policy-assignment:'' @ cp_workspaceId c @ '':'' @ ac_id actor @ '':'' @ cp_idempotencyKey c)"

definition newAssignment :: "(bytes \<Rightarrow> string) \<Rightarrow> authenticatedActor \<Rightarrow> createAssignmentCommand \<Rightarrow> string \<Rightarrow> policyAssignment" where
  "newAssignment sha actor c at = \<lparr>as_id = assignmentIdOf sha actor c, as_workspaceId = cp_workspaceId c, as_principalType = cp_principalType c,
     as_principalId = cp_principalId c, as_role = cp_role c, as_scopeKind = cp_scopeKind c, as_scopeId = cp_scopeId c, as_revokedAt = None,
     pa_createdBy = ac_id actor, pa_createdAt = at\<rparr>"

definition principalTypeText :: "principalType \<Rightarrow> string" where
  "principalTypeText p = (case p of PrincipalUser \<Rightarrow> ''user'' | PrincipalService \<Rightarrow> ''service'' | PrincipalApplication \<Rightarrow> ''application'')"

definition scopeKindText :: "scopeKind \<Rightarrow> string" where
  "scopeKindText k = (case k of ScopeWorkspace \<Rightarrow> ''workspace'' | ScopeDataset \<Rightarrow> ''dataset'' | ScopeApplication \<Rightarrow> ''application'')"

definition createdChange :: "authenticatedActor \<Rightarrow> createAssignmentCommand \<Rightarrow> policyAssignment \<Rightarrow> assignmentChange" where
  "createdChange actor c r = \<lparr>ch_workspaceId = cp_workspaceId c, ch_actor = actor, ch_assignmentId = as_id r,
     ch_action = ''policy_assignment.created'', ch_requestId = cp_idempotencyKey c, ch_occurredAt = pa_createdAt r,
     ch_metadata = [(''principalType'', JStr (principalTypeText (as_principalType r))), (''principalId'', JStr (as_principalId r)),
       (''role'', JStr (as_role r)), (''scopeKind'', JStr (scopeKindText (as_scopeKind r))), (''scopeId'', JStr (as_scopeId r))]\<rparr>"

definition createPolicyAssignment ::
  "(bytes \<Rightarrow> string) \<Rightarrow> authenticatedActor \<Rightarrow> createAssignmentCommand \<Rightarrow> (policyTables, policyAssignment) js" where
  "createPolicyAssignment sha actor c =
     andThen (pgListPolicyAssignments (cp_workspaceId c) None) (\<lambda>active.
       case List.find (\<lambda>a. as_id a = assignmentIdOf sha actor c) active of
         Some existing \<Rightarrow>
           if samePolicyAssignment existing c then ret existing
           else throw (contractError ''IDEMPOTENCY_CONFLICT'' ''Policy assignment idempotency key was reused with different input.'')
       | None \<Rightarrow>
           andThen policyNow (\<lambda>at.
           andThen (pgCreatePolicyAssignment (newAssignment sha actor c at)) (\<lambda>created.
           andThen (pgRecordPolicyAssignmentChange sha (createdChange actor c created)) (\<lambda>_. ret created))))"

definition revokedChange :: "authenticatedActor \<Rightarrow> string \<Rightarrow> string \<Rightarrow> string \<Rightarrow> string \<Rightarrow> assignmentChange" where
  "revokedChange actor workspaceId assignmentId requestKey at = \<lparr>ch_workspaceId = workspaceId, ch_actor = actor, ch_assignmentId = assignmentId,
     ch_action = ''policy_assignment.revoked'', ch_requestId = requestKey, ch_occurredAt = at, ch_metadata = []\<rparr>"

definition revokePolicyAssignment ::
  "(bytes \<Rightarrow> string) \<Rightarrow> string \<Rightarrow> authenticatedActor \<Rightarrow> string \<Rightarrow> string \<Rightarrow> (policyTables, policyAssignment) js" where
  "revokePolicyAssignment sha assignmentId actor workspaceId requestKey =
     andThen (pgGetPolicyAssignment workspaceId assignmentId) (\<lambda>found.
       case found of
         None \<Rightarrow> throw (contractError ''POLICY_ASSIGNMENT_NOT_FOUND'' ''Policy assignment was not found.'')
       | Some r \<Rightarrow>
           if truthy (as_revokedAt r) then ret r
           else
             andThen policyNow (\<lambda>at.
             andThen (pgRevokePolicyAssignment workspaceId assignmentId at) (\<lambda>_.
             andThen (pgRecordPolicyAssignmentChange sha (revokedChange actor workspaceId assignmentId requestKey at)) (\<lambda>_.
               ret (r\<lparr>as_revokedAt := Some at\<rparr>)))))"

section \<open>The tables as a source of policies\<close>

text \<open>A logged use: one event more, chained to the latest event of the workspace, that names grant, principal, action and reason.\<close>

definition useLogged :: "(bytes \<Rightarrow> string) \<Rightarrow> breakGlassUse \<Rightarrow> policyTables \<Rightarrow> policyTables \<Rightarrow> bool" where
  "useLogged sha u t t' \<longleftrightarrow> (\<exists>eventId requestId. eventId \<notin> set (map ev_id (pt_audit t)) \<and> (\<forall>r. bu_requestId u = Some r \<longrightarrow> requestId = r)
     \<and> pt_audit t' = pt_audit t @ [appendAuditEvent sha (useEvent u eventId requestId) (latestHash (bu_workspaceId u) (pt_audit t))]
     \<and> t'\<lparr>pt_audit := pt_audit t, pt_ambient := pt_ambient t\<rparr> = t)"

definition inForceApplications :: "policyTables \<Rightarrow> string \<Rightarrow> registeredApplication list" where
  "inForceApplications t ws = map registeredApplication.truncate (sort_key app_namespace (filter (\<lambda>r. app_workspaceId r = ws) (pt_applications t)))"

lemma truncate_fields [simp]:
  "registeredApplication.truncate (applicationRegistration.truncate a) = registeredApplication.truncate a"
  "as_workspaceId (scopedPolicyAssignment.truncate r) = as_workspaceId r" "as_revokedAt (scopedPolicyAssignment.truncate r) = as_revokedAt r"
  "as_principalId (scopedPolicyAssignment.truncate r) = as_principalId r"
  "gr_workspaceId (activeBreakGlassGrant.truncate g) = gr_workspaceId g" "gr_revokedAt (activeBreakGlassGrant.truncate g) = gr_revokedAt g"
  "gr_principalId (activeBreakGlassGrant.truncate g) = gr_principalId g" "gr_grantedAt (activeBreakGlassGrant.truncate g) = gr_grantedAt g"
  "gr_expiresAt (activeBreakGlassGrant.truncate g) = gr_expiresAt g"
  by (simp_all add: registeredApplication.truncate_def applicationRegistration.truncate_def scopedPolicyAssignment.truncate_def activeBreakGlassGrant.truncate_def)

lemma covers_truncate [simp]:
  "assignmentCovers apps actor action scope (scopedPolicyAssignment.truncate r) = assignmentCovers apps actor action scope r"
  "grantCovers dp actor action scope at (activeBreakGlassGrant.truncate g) = grantCovers dp actor action scope at g"
  "gr_id (activeBreakGlassGrant.truncate g) = gr_id g" "gr_reason (activeBreakGlassGrant.truncate g) = gr_reason g"
  by (simp_all add: assignmentCovers_def grantCovers_def scopedPolicyAssignment.truncate_def activeBreakGlassGrant.truncate_def)

lemmas scoped_run = scoped_def inTransaction_run

lemma recordUse_logged: "pgRecordBreakGlassUse sha u t = (Inr x, t') \<Longrightarrow> useLogged sha u t t'"
  by (auto simp: pgRecordBreakGlassUse_def insertAuditEvent_def policyUUID_def scoped_run js_simps Let_def useLogged_def appendAuditEvent_def
      useEvent_def auditEventBody.extend_def split: if_splits option.splits prod.splits sum.splits)

interpretation pgPolicies: policy_source "policySource dp sha" dp "pgRecordBreakGlassUse sha" inForceApplications
  "\<lambda>t. scopedPolicyAssignment.truncate ` set (pt_assignments t)" "\<lambda>t. activeBreakGlassGrant.truncate ` set (pt_grants t)" "useLogged sha"
  for dp sha
proof
  fix ws d as d' assume "pd_listApplications (policySource dp sha) ws d = (Inr as, d')"
  then show "d' = d \<and> as = inForceApplications d ws"
    by (auto simp: policySource_def pgListApplications_def scoped_run js_simps inForceApplications_def)
next
  fix ws p d xs d' assume "pd_listPolicyAssignments (policySource dp sha) ws (Some p) d = (Inr xs, d')"
  then show "d' = d \<and> set xs = {a \<in> scopedPolicyAssignment.truncate ` set (pt_assignments d). as_workspaceId a = ws \<and> as_revokedAt a = None
      \<and> (p = [] \<or> as_principalId a = p)}"
    by (auto simp: policySource_def pgListPolicyAssignments_def scoped_run js_simps ofPrincipal_def truthy_def)
next
  fix ws at p d gs d' assume "pd_listActiveBreakGlassGrants (policySource dp sha) ws at (Some p) d = (Inr gs, d')"
  then show "d' = d \<and> set gs = {g \<in> activeBreakGlassGrant.truncate ` set (pt_grants d). gr_workspaceId g = ws \<and> gr_revokedAt g = None
      \<and> (p = [] \<or> gr_principalId g = p) \<and> dateLe (dp (gr_grantedAt g)) (dp at) \<and> dateLess (dp at) (dp (gr_expiresAt g))}"
    by (auto simp: policySource_def pgListActiveBreakGlassGrants_def scoped_run js_simps ofPrincipal_def truthy_def)
next
  show "pd_recordBreakGlassUse (policySource dp sha) = Some (pgRecordBreakGlassUse sha)" by (simp add: policySource_def)
next
  fix u d x d' assume "pgRecordBreakGlassUse sha u d = (Inr x, d')"
  then show "useLogged sha u d d'" by (rule recordUse_logged)
qed

definition roleInTables :: "policyTables \<Rightarrow> authenticatedActor \<Rightarrow> string \<Rightarrow> 'a authorizationScope_scheme \<Rightarrow> bool" where
  "roleInTables t actor action scope \<longleftrightarrow>
     (\<exists>a \<in> set (pt_assignments t). assignmentCovers (inForceApplications t (sc_workspaceId scope)) actor action scope a)
     \<or> sc_workspaceId scope \<in> set (ac_workspaceIds actor) \<and> (\<exists>r. RoleNamed r \<in> set (ac_roles actor) \<and> action \<in> set (capabilitiesForRole r))"

lemma roleInTables_iff:
  "roleCovers (inForceApplications t (sc_workspaceId scope)) (scopedPolicyAssignment.truncate ` set (pt_assignments t)) actor action scope
     \<longleftrightarrow> roleInTables t actor action scope"
  by (simp add: roleCovers_def roleInTables_def)

text \<open>
  C6. Access is decided by the rows of the tables. A gateway over the policy tables allows a request
  exactly when the principal, if it is an application, has an active registration with the capability
  and asks for its own resources, and either an unrevoked assignment row covers the scope, or a role
  claimed for the workspace carries the action, or an unrevoked grant row of the principal is in its
  period and names an eligible action. When only a grant allows the request, its use is in the audit
  log, chained to the event before it; otherwise the tables are unchanged.
\<close>

theorem access_decided_by_tables:
  assumes "gw_policies gw = Some (policySource dp sha)" and "allows dp gw actor action scope w = (Inr b, w')"
  defines "t \<equiv> aw_data w" and "at \<equiv> nowAt (aw_ambient w) (ticks (aw_ambient w))"
  shows "(b \<longleftrightarrow> applicationMay (inForceApplications t (sc_workspaceId scope)) actor action scope
         \<and> (roleInTables t actor action scope \<or> (\<exists>g \<in> set (pt_grants t). grantCovers dp actor action scope at g)))
     \<and> (if b \<and> \<not> roleInTables t actor action scope
        then \<exists>g \<in> set (pt_grants t). grantCovers dp actor action scope at g
          \<and> useLogged sha (useOf actor action scope (gr_id g) (gr_reason g) at) t (aw_data w')
        else aw_data w' = t)"
proof
  note facts = pgPolicies.access_decided [OF assms(1,2), unfolded roleInTables_iff, folded t_def at_def]
  show "b \<longleftrightarrow> applicationMay (inForceApplications t (sc_workspaceId scope)) actor action scope
         \<and> (roleInTables t actor action scope \<or> (\<exists>g \<in> set (pt_grants t). grantCovers dp actor action scope at g))"
    using facts(1) by simp
  show "if b \<and> \<not> roleInTables t actor action scope
        then \<exists>g \<in> set (pt_grants t). grantCovers dp actor action scope at g
          \<and> useLogged sha (useOf actor action scope (gr_id g) (gr_reason g) at) t (aw_data w')
        else aw_data w' = t"
    using facts(2) by (auto split: if_splits)
qed

section \<open>How the tables change\<close>

text \<open>
  Every operation that changes the tables, with any outcome. Rows keep their identity: an assignment or a
  grant can only be revoked, once; registrations and audit events stay as they are.
\<close>

inductive policy_step :: "(string \<Rightarrow> int option) \<Rightarrow> (bytes \<Rightarrow> string) \<Rightarrow> policyTables \<Rightarrow> policyTables \<Rightarrow> bool" for dp sha where
  step_register: "registerApplication sha c t = (r, t') \<Longrightarrow> policy_step dp sha t t'"
| step_create: "createPolicyAssignment sha actor c t = (r, t') \<Longrightarrow> policy_step dp sha t t'"
| step_revoke: "revokePolicyAssignment sha i actor ws k t = (r, t') \<Longrightarrow> policy_step dp sha t t'"
| step_grant: "pgCreateBreakGlassGrant dp g t = (r, t') \<Longrightarrow> policy_step dp sha t t'"
| step_revoke_grant: "pgRevokeBreakGlassGrant ws i at t = (r, t') \<Longrightarrow> policy_step dp sha t t'"
| step_use: "pgRecordBreakGlassUse sha u t = (r, t') \<Longrightarrow> policy_step dp sha t t'"

definition grantSound :: "(string \<Rightarrow> int option) \<Rightarrow> breakGlassGrant \<Rightarrow> bool" where
  "grantSound dp g \<longleftrightarrow> trim (gr_reason g) \<noteq> [] \<and> gr_actions g \<noteq> [] \<and> set (gr_actions g) \<subseteq> set breakGlassEligibleActions
     \<and> dateLess (dp (gr_grantedAt g)) (dp (gr_expiresAt g))"

definition policyWf :: "(string \<Rightarrow> int option) \<Rightarrow> policyTables \<Rightarrow> bool" where
  "policyWf dp t \<longleftrightarrow> distinct (map as_id (pt_assignments t))
     \<and> distinct (map assignmentKey (filter (\<lambda>r. as_revokedAt r = None) (pt_assignments t)))
     \<and> distinct (map app_id (pt_applications t)) \<and> distinct (map (\<lambda>r. (app_workspaceId r, app_namespace r)) (pt_applications t))
     \<and> distinct (map gr_id (pt_grants t)) \<and> (\<forall>g \<in> set (pt_grants t). grantSound dp g) \<and> distinct (map ev_id (pt_audit t))"

definition assignmentKept :: "policyAssignment \<Rightarrow> policyAssignment \<Rightarrow> bool" where
  "assignmentKept r r' \<longleftrightarrow> r' = r \<or> as_revokedAt r = None \<and> (\<exists>at. r' = r\<lparr>as_revokedAt := Some at\<rparr>)"

definition grantKept :: "breakGlassGrant \<Rightarrow> breakGlassGrant \<Rightarrow> bool" where
  "grantKept g g' \<longleftrightarrow> g' = g \<or> gr_revokedAt g = None \<and> (\<exists>at. g' = g\<lparr>gr_revokedAt := Some at\<rparr>)"

definition rightsKept :: "policyTables \<Rightarrow> policyTables \<Rightarrow> bool" where
  "rightsKept t t' \<longleftrightarrow> (\<forall>r \<in> set (pt_assignments t). \<exists>r' \<in> set (pt_assignments t'). assignmentKept r r')
     \<and> (\<forall>g \<in> set (pt_grants t). \<exists>g' \<in> set (pt_grants t'). grantKept g g')
     \<and> (\<exists>new. pt_applications t' = pt_applications t @ new) \<and> (\<exists>new. pt_audit t' = pt_audit t @ new)"

lemma kept_refl [simp]: "assignmentKept r r" "grantKept g g"
  by (simp_all add: assignmentKept_def grantKept_def)

lemma kept_trans: "assignmentKept r r' \<Longrightarrow> assignmentKept r' r'' \<Longrightarrow> assignmentKept r r''" "grantKept g g' \<Longrightarrow> grantKept g' g'' \<Longrightarrow> grantKept g g''"
  by (auto simp: assignmentKept_def grantKept_def)

lemma rightsKept_refl [simp]: "rightsKept t t"
  by (auto simp: rightsKept_def intro: kept_refl)

lemma rightsKept_trans: "rightsKept t t' \<Longrightarrow> rightsKept t' t'' \<Longrightarrow> rightsKept t t''"
  unfolding rightsKept_def by (intro conjI ballI; elim conjE exE; (meson kept_trans | simp)?)

definition policyInv :: "(string \<Rightarrow> int option) \<Rightarrow> policyTables \<Rightarrow> policyTables \<Rightarrow> bool" where
  "policyInv dp t t' \<longleftrightarrow> policyWf dp t' \<and> rightsKept t t'"

lemma policyInv_step:
  assumes "\<And>t. policyWf dp t \<Longrightarrow> policyWf dp (snd (m t)) \<and> rightsKept t (snd (m t))"
  shows "preserves (policyInv dp t) m"
  using assms rightsKept_trans unfolding preserves_def policyInv_def by blast

lemma same_rows: "rightsKept t (t\<lparr>pt_ambient := a\<rparr>)" "policyWf dp (t\<lparr>pt_ambient := a\<rparr>) = policyWf dp t"
  by (auto simp: rightsKept_def policyWf_def intro: kept_refl)

lemma reads_keep [simp, intro]:
  "preserves (policyInv dp t) policyNow" "preserves (policyInv dp t) policyUUID"
  "preserves (policyInv dp t) (pgListPolicyAssignments w p)" "preserves (policyInv dp t) (pgGetPolicyAssignment w i)"
  by (rule policyInv_step; simp add: policyNow_def policyUUID_def pgListPolicyAssignments_def pgGetPolicyAssignment_def scoped_run js_simps Let_def same_rows)+

lemma createRow_run:
  "pgCreatePolicyAssignment row t =
     (if as_id row \<in> as_id ` set (pt_assignments t)
         \<or> as_revokedAt row = None \<and> (\<exists>r \<in> set (pt_assignments t). as_revokedAt r = None \<and> assignmentKey r = assignmentKey row)
      then (Inl uniqueViolation, t)
      else if as_workspaceId row \<notin> set (pt_workspaces t) then (Inl foreignKeyViolation, t)
      else (Inr row, t\<lparr>pt_assignments := pt_assignments t @ [row]\<rparr>))"
  by (auto simp: pgCreatePolicyAssignment_def scoped_run js_simps list_ex_iff)

lemma createRow_keeps [simp, intro]: "preserves (policyInv dp t) (pgCreatePolicyAssignment row)"
proof (rule policyInv_step)
  fix t assume wf: "policyWf dp t"
  let ?new = "t\<lparr>pt_assignments := pt_assignments t @ [row]\<rparr>"
  have "rightsKept t ?new" by (auto simp: rightsKept_def intro: kept_refl)
  moreover have "snd (pgCreatePolicyAssignment row t) = t \<or> snd (pgCreatePolicyAssignment row t) = ?new \<and> policyWf dp ?new"
    using wf by (auto simp: createRow_run policyWf_def)
  ultimately show "policyWf dp (snd (pgCreatePolicyAssignment row t)) \<and> rightsKept t (snd (pgCreatePolicyAssignment row t))"
    using wf by auto
qed

lemma revoked_ids: "as_id (revokedAssignment w i at r) = as_id r" "assignmentKey (revokedAssignment w i at r) = assignmentKey r"
  "assignmentKept r (revokedAssignment w i at r)" "as_revokedAt (revokedAssignment w i at r) = None \<Longrightarrow> revokedAssignment w i at r = r"
  by (auto simp: revokedAssignment_def assignmentKey_def assignmentKept_def)

lemma revokeRow_keeps [simp, intro]: "preserves (policyInv dp t) (pgRevokePolicyAssignment w i at)"
proof (rule policyInv_step)
  fix t assume wf: "policyWf dp t"
  let ?f = "revokedAssignment w i at"
  have run: "snd (pgRevokePolicyAssignment w i at t) = t\<lparr>pt_assignments := map ?f (pt_assignments t)\<rparr>"
    by (simp add: pgRevokePolicyAssignment_def scoped_run js_simps)
  have "filter (\<lambda>r. as_revokedAt r = None) (map ?f rs)
      = filter (\<lambda>r. \<not> (as_workspaceId r = w \<and> as_id r = i)) (filter (\<lambda>r. as_revokedAt r = None) rs)" for rs
    by (induction rs) (auto simp: revokedAssignment_def)
  then have "policyWf dp (t\<lparr>pt_assignments := map ?f (pt_assignments t)\<rparr>)"
    using wf by (simp add: policyWf_def comp_def revoked_ids(1) distinct_map_filter del: filter_filter)
  moreover have "rightsKept t (t\<lparr>pt_assignments := map ?f (pt_assignments t)\<rparr>)"
    by (auto simp: rightsKept_def intro: kept_refl revoked_ids(3))
  ultimately show "policyWf dp (snd (pgRevokePolicyAssignment w i at t)) \<and> rightsKept t (snd (pgRevokePolicyAssignment w i at t))"
    by (simp add: run)
qed

lemma audit_appended:
  "policyWf dp t \<Longrightarrow> ev_id e \<notin> ev_id ` set (pt_audit t) \<Longrightarrow> policyWf dp (t\<lparr>pt_audit := pt_audit t @ [e], pt_ambient := a\<rparr>)
     \<and> rightsKept t (t\<lparr>pt_audit := pt_audit t @ [e], pt_ambient := a\<rparr>)"
  by (auto simp: policyWf_def rightsKept_def intro: kept_refl)

lemma insertAudit_keeps: "preserves (policyInv dp t) (insertAuditEvent e)"
proof (rule policyInv_step)
  fix t assume wf: "policyWf dp t"
  show "policyWf dp (snd (insertAuditEvent e t)) \<and> rightsKept t (snd (insertAuditEvent e t))"
    using wf audit_appended [OF wf, of e "pt_ambient t"] by (simp add: insertAuditEvent_def js_simps)
qed

lemma scoped_keeps:
  assumes "preserves (policyInv dp t) m"
  shows "preserves (policyInv dp t) (scoped m)"
  unfolding preserves_def
proof (intro allI impI)
  fix s assume inv: "policyInv dp t s"
  have "policyInv dp t (s\<lparr>pt_ambient := a\<rparr>)" for a
    using inv rightsKept_trans [OF _ same_rows(1)] by (auto simp: policyInv_def same_rows(2))
  moreover have "policyInv dp t (snd (m s))" using assms inv by (simp add: preserves_def)
  ultimately show "policyInv dp t (snd (scoped m s))" by (auto simp: scoped_run split: prod.splits sum.splits)
qed

lemma records_keep [simp, intro]:
  "preserves (policyInv dp t) (pgRecordBreakGlassUse sha u)" "preserves (policyInv dp t) (pgRecordPolicyAssignmentChange sha c)"
  unfolding pgRecordBreakGlassUse_def pgRecordPolicyAssignmentChange_def
  by (intro scoped_keeps preserves_andThen preserves_basic reads_keep insertAudit_keeps preserves_case_option)+

lemma createGrant_run:
  "pgCreateBreakGlassGrant dp g t = (x, t') \<Longrightarrow>
     t' = t \<or> t' = t\<lparr>pt_grants := pt_grants t @ [g]\<rparr> \<and> gr_id g \<notin> gr_id ` set (pt_grants t) \<and> grantSound dp g"
  by (auto simp: pgCreateBreakGlassGrant_def scoped_run js_simps grantSound_def dateLe_def dateLess_def list_ex_iff
      isBreakGlassEligibleAction_def split: if_splits option.splits)

lemma createGrant_keeps [simp, intro]: "preserves (policyInv dp t) (pgCreateBreakGlassGrant dp g)"
proof (rule policyInv_step)
  fix t assume wf: "policyWf dp t"
  have "rightsKept t (t\<lparr>pt_grants := pt_grants t @ [g]\<rparr>)" by (auto simp: rightsKept_def intro: kept_refl)
  then show "policyWf dp (snd (pgCreateBreakGlassGrant dp g t)) \<and> rightsKept t (snd (pgCreateBreakGlassGrant dp g t))"
    using wf createGrant_run [of dp g t] by (cases "pgCreateBreakGlassGrant dp g t") (auto simp: policyWf_def)
qed

lemma revokeGrant_keeps [simp, intro]: "preserves (policyInv dp t) (pgRevokeBreakGlassGrant w i at)"
proof (rule policyInv_step)
  fix t assume wf: "policyWf dp t"
  let ?f = "revokedGrant w i at"
  have same: "gr_id (?f g) = gr_id g" "grantSound dp (?f g) = grantSound dp g" "grantKept g (?f g)" for g
    by (auto simp: revokedGrant_def grantSound_def grantKept_def)
  have "policyWf dp (t\<lparr>pt_grants := map ?f (pt_grants t)\<rparr>)" using wf by (simp add: policyWf_def comp_def same)
  moreover have "rightsKept t (t\<lparr>pt_grants := map ?f (pt_grants t)\<rparr>)" by (auto simp: rightsKept_def intro: kept_refl same(3))
  ultimately show "policyWf dp (snd (pgRevokeBreakGlassGrant w i at t)) \<and> rightsKept t (snd (pgRevokeBreakGlassGrant w i at t))"
    by (simp add: pgRevokeBreakGlassGrant_def scoped_run js_simps)
qed

lemma insertApplication_run:
  "insertApplication row t = (x, t') \<Longrightarrow> t' = t \<or> t' = t\<lparr>pt_applications := pt_applications t @ [row]\<rparr>
     \<and> app_id row \<notin> app_id ` set (pt_applications t) \<and> (app_workspaceId row, app_namespace row) \<notin> (\<lambda>r. (app_workspaceId r, app_namespace r)) ` set (pt_applications t)"
  by (auto simp: insertApplication_def js_simps list_ex_iff split: if_splits option.splits)

lemma insertApplication_keeps: "preserves (policyInv dp t) (insertApplication row)"
proof (rule policyInv_step)
  fix t assume wf: "policyWf dp t"
  have "rightsKept t (t\<lparr>pt_applications := pt_applications t @ [row]\<rparr>)" by (auto simp: rightsKept_def intro: kept_refl)
  then show "policyWf dp (snd (insertApplication row t)) \<and> rightsKept t (snd (insertApplication row t))"
    using wf insertApplication_run [of row t] by (cases "insertApplication row t") (auto simp: policyWf_def)
qed

lemma commands_keep:
  "preserves (policyInv dp t) (registerApplication sha rc)" "preserves (policyInv dp t) (createPolicyAssignment sha actor c)"
  "preserves (policyInv dp t) (revokePolicyAssignment sha i actor ws k)"
  unfolding registerApplication_def pgRegisterApplication_def createPolicyAssignment_def revokePolicyAssignment_def Let_def
  by (intro preserves_if preserves_andThen preserves_case_option preserves_basic preserves_catching reads_keep scoped_keeps insertApplication_keeps
      createRow_keeps revokeRow_keeps records_keep)+

lemma step_keeps: "policy_step dp sha t t' \<Longrightarrow> policyWf dp t \<Longrightarrow> policyInv dp t t'"
proof (induction rule: policy_step.induct)
  case (step_register c t r t')
  then show ?case using preservesD [OF commands_keep(1)] by (metis policyInv_def rightsKept_refl)
next
  case (step_create actor c t r t')
  then show ?case using preservesD [OF commands_keep(2)] by (metis policyInv_def rightsKept_refl)
next
  case (step_revoke i actor ws k t r t')
  then show ?case using preservesD [OF commands_keep(3)] by (metis policyInv_def rightsKept_refl)
next
  case (step_grant g t r t')
  then show ?case using preservesD [OF createGrant_keeps] by (metis policyInv_def rightsKept_refl)
next
  case (step_revoke_grant ws i at t r t')
  then show ?case using preservesD [OF revokeGrant_keeps] by (metis policyInv_def rightsKept_refl)
next
  case (step_use u t r t')
  then show ?case using preservesD [OF records_keep(1)] by (metis policyInv_def rightsKept_refl)
qed

lemma steps_keep: "(policy_step dp sha)\<^sup>*\<^sup>* t t' \<Longrightarrow> policyWf dp t \<Longrightarrow> policyInv dp t t'"
proof (induction rule: rtranclp_induct)
  case base
  then show ?case by (simp add: policyInv_def)
next
  case (step y z)
  then show ?case using step_keeps [OF step.hyps(2)] rightsKept_trans unfolding policyInv_def by blast
qed

text \<open>
  C7. Rights change only as they may. Whatever sequence of commands and grants the tables go through,
  with any outcome of each: identifiers stay unique, at most one assignment in force grants a principal a
  role on a scope, every break-glass grant has a reason, only eligible actions and a period that is not empty,
  assignments and grants keep all their columns and are revoked at most once, and no registration and no
  audit event is changed or lost.
\<close>

theorem rights_change_lawfully:
  assumes "policyWf dp t" and "(policy_step dp sha)\<^sup>*\<^sup>* t t'"
  shows "policyWf dp t' \<and> rightsKept t t'"
  using steps_keep [OF assms(2,1)] by (simp add: policyInv_def)

lemma revoke_revokes:
  assumes wf: "policyWf dp t" and run: "revokePolicyAssignment sha i admin ws k t = (Inr r, t1)"
  shows "policyWf dp t1" and "\<exists>a \<in> set (pt_assignments t1). as_id a = i \<and> as_revokedAt a \<noteq> None"
proof -
  show "policyWf dp t1" using preservesD [OF commands_keep(3) _ run, of dp t] wf by (simp add: policyInv_def)
  obtain a where found: "List.find (\<lambda>r. as_workspaceId r = ws \<and> as_id r = i) (pt_assignments t) = Some a"
    using run by (auto simp: revokePolicyAssignment_def pgGetPolicyAssignment_def scoped_run js_simps split: option.splits)
  have a: "a \<in> set (pt_assignments t)" "as_workspaceId a = ws" "as_id a = i" using found by (auto simp: find_Some_iff)
  show "\<exists>a \<in> set (pt_assignments t1). as_id a = i \<and> as_revokedAt a \<noteq> None"
  proof (cases "truthy (as_revokedAt a)")
    case True
    then have "t1 = t" using run found by (auto simp: revokePolicyAssignment_def pgGetPolicyAssignment_def scoped_run js_simps)
    then show ?thesis using a True by (auto simp: truthy_def)
  next
    case False
    then obtain at u where "pgRecordPolicyAssignmentChange sha (revokedChange admin ws i k at) u = (Inr (), t1)"
        "pt_assignments u = map (revokedAssignment ws i at) (pt_assignments t)"
      using run found by (auto simp: revokePolicyAssignment_def pgGetPolicyAssignment_def pgRevokePolicyAssignment_def policyNow_def
          scoped_run js_simps Let_def split: prod.splits sum.splits)
    then have "pt_assignments t1 = map (revokedAssignment ws i at) (pt_assignments t)"
      by (auto simp: pgRecordPolicyAssignmentChange_def insertAuditEvent_def policyUUID_def scoped_run js_simps Let_def split: if_splits)
    moreover have "as_revokedAt (revokedAssignment ws i at a) \<noteq> None" using a by (simp add: revokedAssignment_def)
    ultimately show ?thesis using a(1,3) revoked_ids(1) [of ws i at a] by (metis image_eqI list.set_map)
  qed
qed

text \<open>
  C21. A revoked assignment gives no more access. Once a revocation has returned, whatever commands
  follow, the row stays revoked and no row of that identifier covers any request.
\<close>

theorem revoked_assignment_ends_access:
  assumes "policyWf dp t" and "revokePolicyAssignment sha i admin ws k t = (Inr r, t1)" and "(policy_step dp sha)\<^sup>*\<^sup>* t1 t2"
  shows "(\<exists>a \<in> set (pt_assignments t2). as_id a = i)
     \<and> (\<forall>a \<in> set (pt_assignments t2). as_id a = i \<longrightarrow> \<not> assignmentCovers apps actor action scope a)"
proof -
  obtain a where a: "a \<in> set (pt_assignments t1)" "as_id a = i" "as_revokedAt a \<noteq> None" using revoke_revokes(2) [OF assms(1,2)] by blast
  have inv: "policyWf dp t2" "rightsKept t1 t2" using steps_keep [OF assms(3) revoke_revokes(1) [OF assms(1,2)]] by (simp_all add: policyInv_def)
  obtain a' where "a' \<in> set (pt_assignments t2)" "assignmentKept a a'" using inv(2) a(1) unfolding rightsKept_def by blast
  then have still: "a \<in> set (pt_assignments t2)" using a(3) by (simp add: assignmentKept_def)
  have inj: "inj_on as_id (set (pt_assignments t2))" using inv(1) by (simp add: policyWf_def distinct_map)
  have unique: "b = a" if "b \<in> set (pt_assignments t2)" "as_id b = i" for b
    by (rule inj_onD [OF inj _ that(1) still]) (simp only: that(2) a(2))
  have no: "\<not> assignmentCovers apps actor action scope a" using a(3) by (simp add: assignmentCovers_def)
  show ?thesis
  proof (intro conjI ballI impI)
    show "\<exists>a \<in> set (pt_assignments t2). as_id a = i" using still a(2) by blast
    show "\<not> assignmentCovers apps actor action scope b" if "b \<in> set (pt_assignments t2)" "as_id b = i" for b
      unfolding unique [OF that] by (rule no)
  qed
qed

lemma recordChange_ok:
  "pgRecordPolicyAssignmentChange sha c t = (Inr x, t') \<Longrightarrow> \<exists>eventId. eventId \<notin> ev_id ` set (pt_audit t)
     \<and> t' = t\<lparr>pt_audit := pt_audit t @ [appendAuditEvent sha (changeEvent c eventId) (latestHash (ch_workspaceId c) (pt_audit t))], pt_ambient := pt_ambient t'\<rparr>"
  by (auto simp: pgRecordPolicyAssignmentChange_def insertAuditEvent_def policyUUID_def scoped_run js_simps Let_def appendAuditEvent_def
      changeEvent_def auditEventBody.extend_def split: if_splits)

lemma listed_assignments:
  "pgListPolicyAssignments w None t = (Inr (sort_key (\<lambda>r. (pa_createdAt r, as_id r)) (filter (\<lambda>r. as_workspaceId r = w \<and> as_revokedAt r = None) (pt_assignments t))), t)"
  by (simp add: pgListPolicyAssignments_def scoped_run js_simps ofPrincipal_def truthy_def)

text \<open>
  A created assignment is stored and audited. When the command returns, the returned assignment is in
  force, is what the command asks for and carries the identifier of its idempotency key. Either it was there
  before and nothing has changed, or it is the only new row, and one new event, chained to the latest
  event of the workspace, records it under the actor.
\<close>

theorem created_assignment_audited:
  assumes "createPolicyAssignment sha actor c t = (Inr r, t')"
  shows "samePolicyAssignment r c \<and> as_id r = assignmentIdOf sha actor c \<and> as_revokedAt r = None \<and> r \<in> set (pt_assignments t')
     \<and> (t' = t \<or> r \<notin> set (pt_assignments t) \<and> pt_assignments t' = pt_assignments t @ [r]
         \<and> (\<exists>eventId. pt_audit t' = pt_audit t @
              [appendAuditEvent sha (changeEvent (createdChange actor c r) eventId) (latestHash (cp_workspaceId c) (pt_audit t))]))"
proof -
  let ?rows = "sort_key (\<lambda>r. (pa_createdAt r, as_id r)) (filter (\<lambda>r. as_workspaceId r = cp_workspaceId c \<and> as_revokedAt r = None) (pt_assignments t))"
  show ?thesis
  proof (cases "List.find (\<lambda>a. as_id a = assignmentIdOf sha actor c) ?rows")
    case (Some a)
    then have "a \<in> set (pt_assignments t)" "as_revokedAt a = None" "as_id a = assignmentIdOf sha actor c" by (auto dest!: find_SomeD)
    moreover have "samePolicyAssignment a c" "r = a" "t' = t"
      using assms Some by (auto simp: createPolicyAssignment_def listed_assignments js_simps split: if_splits)
    ultimately show ?thesis by simp
  next
    case None
    then obtain at u v where create: "pgCreatePolicyAssignment (newAssignment sha actor c at) u = (Inr r, v)"
      and u: "pt_assignments u = pt_assignments t" "pt_audit u = pt_audit t"
      and recorded: "pgRecordPolicyAssignmentChange sha (createdChange actor c r) v = (Inr (), t')"
      using assms by (fastforce simp: createPolicyAssignment_def listed_assignments policyNow_def js_ok within_run now_run Let_def)
    have r: "r = newAssignment sha actor c at" and v: "v = u\<lparr>pt_assignments := pt_assignments u @ [r]\<rparr>" "as_id r \<notin> as_id ` set (pt_assignments t)"
      using create u by (auto simp: createRow_run split: if_splits)
    obtain eventId where "t' = v\<lparr>pt_audit := pt_audit v @ [appendAuditEvent sha (changeEvent (createdChange actor c r) eventId)
        (latestHash (cp_workspaceId c) (pt_audit v))], pt_ambient := pt_ambient t'\<rparr>"
      using recordChange_ok [OF recorded] by (auto simp: createdChange_def)
    then have "pt_assignments t' = pt_assignments t @ [r]" and "pt_audit t' = pt_audit t @
        [appendAuditEvent sha (changeEvent (createdChange actor c r) eventId) (latestHash (cp_workspaceId c) (pt_audit t))]"
      using v u by (metis (no_types, lifting) policyTables.select_convs policyTables.simps policyTables.surjective policyTables.update_convs)+
    moreover have "samePolicyAssignment r c" "as_id r = assignmentIdOf sha actor c" "as_revokedAt r = None"
      by (simp_all add: r newAssignment_def samePolicyAssignment_def)
    moreover have "r \<notin> set (pt_assignments t)" using v(2) by blast
    ultimately show ?thesis by auto
  qed
qed

text \<open>
  The row and its event are written in two transactions. When the process stops between them, the repeated
  command finds the row and returns it: the assignment is in force and is never audited.
\<close>

theorem unaudited_assignment:
  assumes "pgCreatePolicyAssignment (newAssignment sha actor c at) t = (Inr r, t1)"
  shows "createPolicyAssignment sha actor c t1 = (Inr r, t1) \<and> pt_audit t1 = pt_audit t"
proof -
  have r: "r = newAssignment sha actor c at" and t1: "t1 = t\<lparr>pt_assignments := pt_assignments t @ [r]\<rparr>" "as_id r \<notin> as_id ` set (pt_assignments t)"
    using assms by (auto simp: createRow_run split: if_splits)
  let ?rows = "sort_key (\<lambda>r. (pa_createdAt r, as_id r)) (filter (\<lambda>r. as_workspaceId r = cp_workspaceId c \<and> as_revokedAt r = None) (pt_assignments t1))"
  have fields: "as_id r = assignmentIdOf sha actor c" "as_workspaceId r = cp_workspaceId c" "as_revokedAt r = None" "samePolicyAssignment r c"
    by (simp_all add: r newAssignment_def samePolicyAssignment_def)
  then have "r \<in> set ?rows" by (simp add: t1)
  then obtain a where a: "List.find (\<lambda>a. as_id a = assignmentIdOf sha actor c) ?rows = Some a"
    using fields(1) by (metis (mono_tags, lifting) find_None_iff not_None_eq)
  then have "a \<in> set (pt_assignments t1)" "as_id a = as_id r" using fields(1) by (auto dest!: find_SomeD)
  moreover have "a \<notin> set (pt_assignments t)" using calculation(2) t1(2) by (metis imageI)
  ultimately have "a = r" by (simp add: t1(1))
  then show ?thesis using a fields(4) by (simp add: createPolicyAssignment_def listed_assignments js_simps t1(1))
qed

text \<open>
  The command looks for its identifier among the assignments in force only. Repeated after the
  revocation of its assignment, it does not report it but fails on the primary key.
\<close>

theorem replay_after_revocation_fails:
  assumes "policyWf dp t" and "a \<in> set (pt_assignments t)" and "as_id a = assignmentIdOf sha actor c" and "as_revokedAt a \<noteq> None"
  shows "fst (createPolicyAssignment sha actor c t) = Inl uniqueViolation"
proof -
  have inj: "inj_on as_id (set (pt_assignments t))" using assms(1) by (simp add: policyWf_def distinct_map)
  have "b = a" if "b \<in> set (pt_assignments t)" "as_id b = assignmentIdOf sha actor c" for b
    by (rule inj_onD [OF inj _ that(1) assms(2)]) (simp only: that(2) assms(3))
  then have "List.find (\<lambda>a. as_id a = assignmentIdOf sha actor c)
      (sort_key (\<lambda>r. (pa_createdAt r, as_id r)) (filter (\<lambda>r. as_workspaceId r = cp_workspaceId c \<and> as_revokedAt r = None) (pt_assignments t))) = None"
    unfolding find_None_iff using assms(4) by auto
  moreover have "assignmentIdOf sha actor c \<in> as_id ` set (pt_assignments t)" using assms(2,3) by (metis imageI)
  ultimately show ?thesis
    by (simp add: createPolicyAssignment_def listed_assignments policyNow_def js_simps Let_def createRow_run newAssignment_def)
qed

section \<open>Witnesses\<close>

definition sampleAdmin :: authenticatedActor where
  "sampleAdmin = \<lparr>ac_id = ''a'', ac_displayName = ''A'', ac_principalType = None, ac_roles = [], ac_workspaceIds = []\<rparr>"

definition samplePolicies :: policyTables where
  "samplePolicies = \<lparr>pt_workspaces = [''w''], pt_applications = [], pt_assignments = [],
     pt_grants = [\<lparr>gr_id = ''i'', gr_workspaceId = ''w'', gr_principalId = ''a'', gr_reason = ''r'', gr_actions = [''resource:read''],
       gr_grantedAt = ''g'', gr_expiresAt = ''e'', gr_revokedAt = None, bg_grantedBy = ''o''\<rparr>], pt_audit = [],
     pt_ambient = \<lparr>nowAt = (\<lambda>_. ''t''), ticks = 0, idAt = (\<lambda>n. show_nat n), idCount = 0\<rparr>\<rparr>"

definition sampleTimes :: "string \<Rightarrow> int option" where
  "sampleTimes s = (if s = ''g'' then Some 0 else if s = ''t'' then Some 5 else if s = ''e'' then Some 9 else None)"

definition sampleSha :: "bytes \<Rightarrow> string" where
  "sampleSha b = replicate 64 (CHR ''0'')"

definition sampleAssignment :: createAssignmentCommand where
  "sampleAssignment = \<lparr>cp_workspaceId = ''w'', cp_principalType = PrincipalUser, cp_principalId = ''p'', cp_role = ''admin'',
     cp_scopeKind = ScopeWorkspace, cp_scopeId = ''w'', cp_idempotencyKey = ''k''\<rparr>"

definition sampleCreated :: policyTables where
  "sampleCreated = snd (createPolicyAssignment sampleSha sampleAdmin sampleAssignment samplePolicies)"

definition sampleRow :: policyAssignment where
  "sampleRow = newAssignment sampleSha sampleAdmin sampleAssignment ''t''"

definition sampleScope :: authorizationScope where
  "sampleScope = \<lparr>sc_workspaceId = ''w'', sc_datasetId = None, sc_applicationId = None, au_requestId = Some ''q'', au_applicationScopeAllowed = None\<rparr>"

lemma samplePolicies_wf: "policyWf sampleTimes samplePolicies"
  by (simp add: policyWf_def samplePolicies_def grantSound_def breakGlassEligibleActions_def sampleTimes_def dateLess_def trim_def js_space_def)

lemma sample_create:
  "createPolicyAssignment sampleSha sampleAdmin sampleAssignment samplePolicies = (Inr sampleRow, sampleCreated)"
  "pt_assignments sampleCreated = [sampleRow]" "pt_workspaces sampleCreated = [''w'']"
  "map ev_id (pt_audit sampleCreated) = [show_nat 0]" "idCount (pt_ambient sampleCreated) = 1" "idAt (pt_ambient sampleCreated) = (\<lambda>n. show_nat n)"
  by (simp_all add: sampleCreated_def sampleRow_def createPolicyAssignment_def listed_assignments samplePolicies_def sampleAssignment_def
      policyNow_def js_simps createRow_run newAssignment_def pgRecordPolicyAssignmentChange_def insertAuditEvent_def policyUUID_def scoped_run
      Let_def createdChange_def appendAuditEvent_def changeEvent_def auditEventBody.extend_def)

theorem created_assignment_audited_witness:
  "\<exists>r t'. createPolicyAssignment sampleSha sampleAdmin sampleAssignment samplePolicies = (Inr r, t') \<and> as_role r = ''admin''
     \<and> r \<in> set (pt_assignments t') \<and> (\<exists>e. pt_audit t' = [e] \<and> ev_actorId e = ''a'' \<and> ev_action e = ''policy_assignment.created'' \<and> previousEventHash e = [])"
proof -
  have "sampleCreated \<noteq> samplePolicies" using sample_create(2) by (metis list.distinct(1) policyTables.select_convs(3) samplePolicies_def)
  then obtain i where "samePolicyAssignment sampleRow sampleAssignment" "sampleRow \<in> set (pt_assignments sampleCreated)"
    "pt_audit sampleCreated = [appendAuditEvent sampleSha (changeEvent (createdChange sampleAdmin sampleAssignment sampleRow) i) []]"
    using created_assignment_audited [OF sample_create(1)] by (auto simp: samplePolicies_def latestHash_def auditInOrder_def)
  then show ?thesis using sample_create(1)
    by (auto simp: samePolicyAssignment_def sampleAssignment_def appendAuditEvent_def changeEvent_def createdChange_def auditEventBody.extend_def sampleAdmin_def)
qed

theorem rights_change_lawfully_witness:
  "policyWf sampleTimes samplePolicies \<and> (policy_step sampleTimes sampleSha)\<^sup>*\<^sup>* samplePolicies sampleCreated
     \<and> policyWf sampleTimes sampleCreated \<and> rightsKept samplePolicies sampleCreated"
proof -
  have steps: "(policy_step sampleTimes sampleSha)\<^sup>*\<^sup>* samplePolicies sampleCreated"
    using policy_step.step_create [OF sample_create(1)] by blast
  show ?thesis using rights_change_lawfully [OF samplePolicies_wf steps] samplePolicies_wf steps by blast
qed

theorem revoked_assignment_ends_access_witness:
  "\<exists>r t1. revokePolicyAssignment sampleSha (as_id sampleRow) sampleAdmin ''w'' ''k'' sampleCreated = (Inr r, t1)
     \<and> sampleRow \<in> set (pt_assignments sampleCreated) \<and> assignmentCovers [] (sampleAdmin\<lparr>ac_id := ''p''\<rparr>) ''dataset:read'' sampleScope sampleRow
     \<and> (\<forall>a \<in> set (pt_assignments (snd (createPolicyAssignment sampleSha sampleAdmin sampleAssignment t1))). as_id a = as_id sampleRow
          \<longrightarrow> \<not> assignmentCovers [] (sampleAdmin\<lparr>ac_id := ''p''\<rparr>) ''dataset:read'' sampleScope a)"
proof -
  have ws: "as_workspaceId sampleRow = ''w''" "as_revokedAt sampleRow = None" by (simp_all add: sampleRow_def newAssignment_def sampleAssignment_def)
  have fresh: "show_nat (Suc 0) \<noteq> show_nat 0" using show_nat_eq by blast
  have "\<exists>r t1. revokePolicyAssignment sampleSha (as_id sampleRow) sampleAdmin ''w'' ''k'' sampleCreated = (Inr r, t1)"
    using sample_create(2-6) ws fresh by (auto simp: revokePolicyAssignment_def pgGetPolicyAssignment_def pgRevokePolicyAssignment_def policyNow_def js_simps
        scoped_run Let_def pgRecordPolicyAssignmentChange_def insertAuditEvent_def policyUUID_def truthy_def appendAuditEvent_def changeEvent_def
        revokedChange_def auditEventBody.extend_def)
  then obtain r t1 where run: "revokePolicyAssignment sampleSha (as_id sampleRow) sampleAdmin ''w'' ''k'' sampleCreated = (Inr r, t1)" by blast
  have "policy_step sampleTimes sampleSha samplePolicies sampleCreated" using policy_step.step_create [OF sample_create(1)] by blast
  then have wf: "policyWf sampleTimes sampleCreated" using step_keeps [OF _ samplePolicies_wf] by (simp add: policyInv_def)
  have steps: "(policy_step sampleTimes sampleSha)\<^sup>*\<^sup>* t1 (snd (createPolicyAssignment sampleSha sampleAdmin sampleAssignment t1))"
    by (rule r_into_rtranclp) (rule policy_step.step_create, rule surjective_pairing)
  have covered: "assignmentCovers [] (sampleAdmin\<lparr>ac_id := ''p''\<rparr>) ''dataset:read'' sampleScope sampleRow"
    by (simp add: assignmentCovers_def sampleRow_def newAssignment_def sampleAssignment_def sampleScope_def sampleAdmin_def actorPrincipalType_def
        capabilitiesForRole_def isPolicyRole_def roleCapabilities_def adminActions_def)
  show ?thesis
    using revoked_assignment_ends_access [OF wf run steps, where apps = "[]" and actor = "sampleAdmin\<lparr>ac_id := ''p''\<rparr>" and action = "''dataset:read''"
        and scope = sampleScope] run covered sample_create(2) by (metis list.set_intros(1))
qed

definition sampleGateway :: "policyTables gatewayConfig" where
  "sampleGateway = \<lparr>gw_token = None, gw_actor = sampleAdmin, gw_policies = Some (policySource sampleTimes sampleSha)\<rparr>"

definition sampleAccess :: "(policyTables, unit) accessWorld" where
  "sampleAccess = \<lparr>aw_data = samplePolicies, aw_oidc = (), aw_ambient = pt_ambient samplePolicies, aw_times = (\<lambda>_. 0), aw_ticks = 0, aw_sessions = []\<rparr>"

lemma sample_allowed: "\<exists>w'. allows sampleTimes sampleGateway sampleAdmin ''resource:read'' sampleScope sampleAccess = (Inr True, w')"
  by (simp add: allows_def accessNow_def readPolicies_def onData_def js_simps Let_def sampleGateway_def sampleAccess_def sampleScope_def
      policySource_def listed_assignments pgListPolicyAssignments_def pgListApplications_def pgListActiveBreakGlassGrants_def scoped_run samplePolicies_def
      sampleTimes_def dateLe_def dateLess_def ofPrincipal_def applicationDenied_def actorPrincipalType_def sampleAdmin_def truthy_def
      evaluatePolicy_def applicationRefusal_def policyInput_def listOr_def claimedRoleAssignments_def effectiveScope_def activeBreakGlassGrant_def
      isBreakGlassEligibleAction_def isPolicyAction_def policyActions_def breakGlassEligibleActions_def grantMatches_def trim_def js_space_def
      activeBreakGlassGrant.truncate_def useOf_def pgRecordBreakGlassUse_def insertAuditEvent_def policyUUID_def useEvent_def appendAuditEvent_def auditEventBody.extend_def)

theorem access_decided_by_tables_witness:
  "\<exists>w'. allows sampleTimes sampleGateway sampleAdmin ''resource:read'' sampleScope sampleAccess = (Inr True, w')
     \<and> (\<exists>e. pt_audit (aw_data w') = [e] \<and> ev_action e = ''break_glass.used'' \<and> ev_subjectId e = ''i'' \<and> ev_requestId e = ''q'')"
proof -
  obtain w' where run: "allows sampleTimes sampleGateway sampleAdmin ''resource:read'' sampleScope sampleAccess = (Inr True, w')"
    using sample_allowed by blast
  have gw: "gw_policies sampleGateway = Some (policySource sampleTimes sampleSha)" by (simp add: sampleGateway_def)
  have "\<not> roleInTables (aw_data sampleAccess) sampleAdmin ''resource:read'' sampleScope"
    by (simp add: roleInTables_def sampleAccess_def samplePolicies_def sampleAdmin_def)
  then obtain g where "g \<in> set (pt_grants samplePolicies)"
    "useLogged sampleSha (useOf sampleAdmin ''resource:read'' sampleScope (gr_id g) (gr_reason g) ''t'') samplePolicies (aw_data w')"
    using access_decided_by_tables [OF gw run] by (auto simp: sampleAccess_def samplePolicies_def)
  then show ?thesis using run
    by (auto simp: useLogged_def samplePolicies_def useOf_def sampleScope_def truthy_def useEvent_def appendAuditEvent_def auditEventBody.extend_def)
qed

end
