(* ===== verification/Spec2Isabelle.thy ===== *)
theory Spec2Isabelle
  imports Core AuditChain Policy MemoryStorage Quarantine Promotion TransferGrants HistoryStore IngestStore SchemaRegistry Outbox Reconciliation Recovery ImportPlan ArchiveImportStore ArchiveContainer VerificationStore QuarantineStore AppRegistry IdentityProvider PolicyStore
begin

text \<open>
  Trust Core, a platform that stores the content of applications so that it can be audited,
  restored and moved. Content arrives as objects and as revisions of resources; every change is
  authorised, recorded in a hash chain, and followed up by background work. This development
  models the packages that carry these promises and proves them. Paths below are relative to
  \<open>src/packages\<close>.

  \<^bold>\<open>The parts and how they interact.\<close> \<open>core\<close> holds the entities and the assertions every write
  makes. \<open>policy\<close> decides who may do what. \<open>storage\<close> keeps bytes under keys that name their
  digest. \<open>operations\<close> composes these: the ingest of an object stages bytes, commits them under
  the canonical key and then writes catalogue, audit and outbox in one transaction; an upload is
  scanned in quarantine before it is promoted; grants give a client a time-bounded URL; the
  history service writes revisions, tombstones and restores. \<open>persistence-postgres\<close> implements
  the stores. \<open>reconciliation\<close> drains the outbox and compares catalogue and storage, and \<open>verification\<close> checks them and the stored graph on request. \<open>archive\<close>
  exports a workspace to a signed container and imports it through checkpoints. \<open>schema-registry\<close> publishes payload
  schemas, and \<open>recovery\<close> judges the evidence of recovery exercises.

  \<^bold>\<open>How code becomes HOL.\<close> A method is a function into \<open>('s, 'a) js\<close> of \<open>Prelude\<close>: from a state to
  a result or a thrown error, and the state after it, so that the effects of a call that throws
  stay visible. An \<open>await\<close> is sequencing; where the sources interleave (several workers on one
  outbox), a theorem speaks about sequences of statements. An interface is a record of operations,
  its contract a locale, and each locale is interpreted on the model of the code that implements
  it. A table is a list or a map of rows and a statement an update of it, with the unique
  constraints that \<open>ON CONFLICT\<close> answers to and the row level security of the migrations;
  \<open>inTransaction\<close> restores the tables when its body throws.

  \<^bold>\<open>Theories.\<close>
  \<^item> \<open>Prelude\<close>: errors, the computations, Hoare triples, strings and lists.
  \<^item> \<open>Json\<close>: the four canonical encoders (\<open>archive/src/canonical.ts\<close>, \<open>audit/src/audit-chain.ts\<close>,
    \<open>schema-registry/src/canonical.ts\<close>, \<open>operations/src/history-service.ts\<close>). An encoding
    determines the value up to the order of keys.
  \<^item> \<open>Core\<close>: \<open>core/src\<close>. Each assertion passes exactly on the states it is meant for.
  \<^item> \<open>AuditChain\<close>: \<open>audit/src/audit-chain.ts\<close>. Appending keeps a chain verified, and a verified
    chain is fixed by its last hash unless the digest collides.
  \<^item> \<open>Policy\<close>: \<open>policy/src/index.ts\<close>. The search through assignments, registrations and grants
    decides what a declarative contract says; other workspaces do not matter; roles are separated.
  \<^item> \<open>StorageKeys\<close>, \<open>MemoryStorage\<close>: \<open>storage/src\<close>. Keys are injective; the contract suite
    (\<open>contract.ts\<close>) is the locale \<open>object_storage\<close>; along every run canonical objects keep their
    bytes, and a completed multipart upload is the concatenation of its parts.
  \<^item> \<open>StateMachines\<close>: \<open>upload-state-machine.ts\<close> and the table of \<open>quarantine-scan.ts\<close>, two
    instances of one locale on gates and terminal states.
  \<^item> \<open>Quarantine\<close>, \<open>Promotion\<close>, \<open>TransferGrants\<close>: the scan orchestrator and its store, the
    promotion of accepted bytes, and the grants. Verdicts are final, only accepted bytes with the
    declared digest are promoted, and a grant is issued only to a request that the policy allows.
  \<^item> \<open>History\<close>, \<open>HistoryStore\<close>: \<open>history-service.ts\<close> and \<open>history-repository.ts\<close>. The locale
    \<open>history_repository\<close> is what the service needs; on the tables histories stay complete.
  \<^item> \<open>ObjectIngest\<close>, \<open>IngestCorrect\<close>, \<open>IngestStore\<close>: \<open>object-ingest.ts\<close>, \<open>operation-store.ts\<close>
    and \<open>blob-catalog.ts\<close>. The locale \<open>ingest_world\<close> joins storage, catalogue and operations; an
    attempt that stops anywhere leaves them consistent and can be resumed.
  \<^item> \<open>Database\<close>: \<open>db.ts\<close>, \<open>ids.ts\<close> and keyed tables.
  \<^item> \<open>Schemas\<close>, \<open>SchemaRegistry\<close>: \<open>schema-registry/src\<close>. Published packages never change, versions
    grow as their compatibility says, and what a compatible change promises to stored payloads.
  \<^item> \<open>Outbox\<close>, \<open>Reconciliation\<close>: \<open>reconciliation/src\<close>, \<open>outbox-store.ts\<close> and
    \<open>reconciliation-catalog.ts\<close>. Leases are exclusive in every interleaving, a run settles its
    batch, and a handler is silent exactly when catalogue and storage agree.
  \<^item> \<open>Recovery\<close>: \<open>recovery/src/index.ts\<close>, the gate against its declarative reading.
  \<^item> \<open>ArchiveImport\<close>, \<open>ArchiveImportStore\<close>: \<open>archive/src/import-executor.ts\<close> and
    \<open>persistence-postgres/src/archive-import.ts\<close>. An import ends, its blobs are durable once the
    checkpoint says so, and one window in which it can never be resumed.
  \<^item> \<open>ImportPlan\<close>: \<open>archive/src/import-plan.ts\<close>. A ready plan is ordered and closed, mapping identifiers
    keeps a graph consistent, the executor accepts exactly ready plans, and the identity of a plan
    does not depend on the target.
  \<^item> \<open>JsonParse\<close>: an executable model of \<open>JSON.parse\<close> and of the UTF-8 decoder, which invert the
    canonical encoding.
  \<^item> \<open>Archive\<close>: \<open>archive/src/paths.ts\<close>, \<open>assemble.ts\<close>, \<open>verify.ts\<close>, \<open>signature.ts\<close>, \<open>container.ts\<close>.
  \<^item> \<open>ArchiveVerified\<close>, \<open>ArchiveRoundtrip\<close>, \<open>ArchiveContainer\<close>: the checksum file fixes the entries and a
    signature fixes the checksum file; the lineage check accepts exactly one complete chain; an
    exportable source is assembled, signed, written, read and verified, and its records come back;
    a container that is read is bounded. The locale \<open>text_codec\<close> states what the archive needs of
    decoder and parser, and is interpreted on \<open>JsonParse\<close>.
  \<^item> \<open>Verification\<close>, \<open>VerificationStore\<close>: \<open>verification/src\<close> and \<open>verification-catalog.ts\<close>. The locale
    \<open>blob_verification\<close> joins the contract of a storage with that of a catalog. The verdict of a run
    is exact, what ingest and history service write verifies, and a verified graph has a complete
    line of descent for every revision; a metadata check can hide what a full check found.
  \<^item> \<open>QuarantineStore\<close>: \<open>quarantine-scan-store.ts\<close> of the database, a second interpretation of the
    contract \<open>scan_store\<close>: verdicts in the table are final.
  \<^item> \<open>AppStorage\<close>, \<open>AppRegistry\<close>: \<open>app-storage-bindings.ts\<close> and \<open>storage-router.ts\<close> of the API. Every
    operation of the registry is a step; an invariant and an order on states, proved for each step, show
    that generations mark locations. A route that allows writing is fit for the request (locale
    \<open>route_source\<close>), rollback restores a profile, a cutover moves what it has proved; denied requests,
    refused cutovers and probes in a migration do not do what is documented.
  \<^item> \<open>Identity\<close>, \<open>IdentitySessions\<close>, \<open>IdentityProvider\<close>: \<open>identity/src\<close> and \<open>identity-store.ts\<close>. Every call of
    the service is a step; the locale \<open>identity_store\<close> states what it needs of its store. A login state
    works once, a completed login was checked, a revoked session stays revoked, and claims come from a
    verified token.
  \<^item> \<open>Access\<close>, \<open>PolicyStore\<close>: \<open>access.ts\<close> of the API, the policy tables of \<open>contract-repository.ts\<close> and the
    commands on them in \<open>postgres-commands.ts\<close>. The locale \<open>policy_source\<close>, interpreted on the tables, carries
    the decision of \<open>Policy\<close> to their rows; the tables change only as they may, and a revocation is final. The
    gap between an assignment and its audit event is shown too.

  \<^bold>\<open>Parameters.\<close> Code outside the repository is an argument: the digests of \<open>node:crypto\<close> (\<open>sha\<close>,
  \<open>md5\<close>; nothing is assumed of them but where a theorem names a collision), \<open>Date.parse\<close> (\<open>dp\<close>),
  \<open>localeCompare\<close> (a \<open>comparator\<close>, which carries the laws of an order), the URL parser, the
  malware scanner, the signers of URLs and archives, base64, the ZIP library, clocks and random
  identifiers. A theorem that needs more
  of one of them has it as a hypothesis and a witness that meets it.

  \<^bold>\<open>Loops.\<close> Loops over a list are structural. The checkpoint loop of an import is a
  \<open>partial_function\<close> on options, where no answer is \<open>None\<close>; that it answers on the Postgres stores,
  for every input and state, is a theorem. The walk along an audit lineage ends because it adds a new
  hash each time. The JSON parser has the length of its text as fuel, which is enough for every
  encoding that the archive writes (\<open>parse_canonicalJson\<close>).

  \<^bold>\<open>Numbers and text.\<close> Counts, lengths and milliseconds are integers: the sources stay in the safe
  range of \<open>number\<close>. Text is a list of code units below 256.

  \<^bold>\<open>Not modelled.\<close> The HTTP API and its commands (other than the registry of storage bindings, the access gateway and the
  commands on rights), the worker process and the browser interface
  (\<open>src/apps\<close>): parsing, wiring and rendering around the packages above. The adapters for S3 and
  MinIO, which call client libraries; their interface is modelled. The remaining tables, the protocol
  schemas, the generated client, fixtures and logging.
\<close>

end
